(* ===== verification/Prelude.thy ===== *)
theory Prelude
  imports Main "HOL-Library.Word" "HOL-Library.Monad_Syntax"
begin

unbundle bit_operations_syntax

text \<open>
  Shared vocabulary of the development: the Rust integer types the grates use, the Rust
  vector and slice operations with their panics, and generic list lemmas.

  Conventions.  A Rust function that may panic (an index out of range, \<open>unwrap\<close> of
  \<open>None\<close>, \<open>expect\<close>) or that may loop for ever returns an \<open>option\<close>: \<open>None\<close> means
  that the call does not return, \<open>Some r\<close> that it returns \<open>r\<close>.  System-call results
  (\<open>i32\<close>, negative errno on failure) are integers.  \<open>Result<T, i32>\<close> is the sum
  \<open>int + 'a\<close> with the errno on the left.
\<close>

section \<open>Named collections\<close>

named_theorems vec_simps \<open>evaluation of vector and slice accesses\<close>
named_theorems inv_dest \<open>operations that keep a component invariant, as destruction rules\<close>

section \<open>Rust types\<close>

type_synonym byte = "8 word"
type_synonym u16 = "16 word"
type_synonym u32 = "32 word"
type_synonym i32 = "32 word" \<comment> \<open>bit pattern; read with \<open>sint\<close>\<close>
type_synonym 'a result = "int + 'a" \<comment> \<open>\<open>Result<T, i32>\<close>\<close>

text \<open>
  Identifiers of type \<open>u64\<close> on which the code does no arithmetic (cage ids, file
  descriptors, underfds, pipe and socket ids) are natural numbers.  The width of
  \<open>usize\<close> matters where the code casts a 64-bit value to it: the grates are compiled to
  wasm32, where \<open>usize\<close> has 32 bits.
\<close>

definition as_i32 :: "int \<Rightarrow> int" where
  "as_i32 x = signed_take_bit 31 x"

definition as_usize :: "int \<Rightarrow> nat" where
  "as_usize x = nat (x mod 2 ^ 32)"

definition as_u64 :: "int \<Rightarrow> nat" where
  "as_u64 x = nat (x mod 2 ^ 64)"

text \<open>\<open>i64\<close> arithmetic wraps: the grates are built with the release profile.\<close>

definition as_i64 :: "int \<Rightarrow> int" where
  "as_i64 x = signed_take_bit 63 x"

text \<open>The first \<open>k\<close> bytes of \<open>to_le_bytes\<close> (and of \<open>to_ne_bytes\<close> on the little-endian target).\<close>

definition le_bytes :: "nat \<Rightarrow> nat \<Rightarrow> byte list" where
  "le_bytes k n = map (\<lambda>i. word_of_nat (n div 256 ^ i)) [0..<k]"

lemma length_le_bytes [simp]: "length (le_bytes k n) = k"
  by (simp add: le_bytes_def)

lemma le_bytes_Suc: "le_bytes (Suc k) n = word_of_nat n # le_bytes k (n div 256)"
  by (simp add: le_bytes_def upt_conv_Cons map_Suc_upt [symmetric] comp_def div_mult2_eq del: upt_Suc)

lemma as_i64_id: "- (2 ^ 63) \<le> x \<Longrightarrow> x < 2 ^ 63 \<Longrightarrow> as_i64 x = x"
  unfolding as_i64_def by (rule signed_take_bit_int_eq_self) simp_all

lemma as_i32_id: "- (2 ^ 31) \<le> x \<Longrightarrow> x < 2 ^ 31 \<Longrightarrow> as_i32 x = x"
  unfolding as_i32_def by (rule signed_take_bit_int_eq_self) simp_all

lemma as_i32_small [simp]: "n < 2 ^ 31 \<Longrightarrow> as_i32 (int n) = int n"
proof -
  assume "n < 2 ^ 31"
  then have "int n < int (2 ^ 31)" by (simp only: of_nat_less_iff)
  then have "int n < 2 ^ 31" by simp
  moreover have "- (2 ^ 31) \<le> int n" by (rule order.trans [of _ 0]) simp_all
  ultimately show ?thesis by (rule as_i32_id [rotated])
qed

lemma as_usize_id: "0 \<le> x \<Longrightarrow> x < 2 ^ 32 \<Longrightarrow> as_usize x = nat x"
  by (simp add: as_usize_def)

lemma as_usize_bound: "as_usize x < 2 ^ 32"
  by (simp add: as_usize_def nat_less_iff)

section \<open>Sequencing\<close>

lemma bind_SomeE:
  assumes "Option.bind m f = Some y"
  obtains x where "m = Some x" and "f x = Some y"
  using assms by (cases m) auto

lemma map_option_SomeE:
  assumes "map_option f m = Some y"
  obtains x where "m = Some x" and "y = f x"
  using assms by (cases m) auto

lemma if_SomeE:
  assumes "(if b then m else m') = Some y"
  obtains "b" and "m = Some y" | "\<not> b" and "m' = Some y"
  using assms by (cases b) auto

lemma case_sum_SomeE:
  assumes "(case r of Inl e \<Rightarrow> f e | Inr x \<Rightarrow> g x) = Some y"
  obtains e where "r = Inl e" and "f e = Some y" | x where "r = Inr x" and "g x = Some y"
  using assms by (cases r) auto

lemma case_option_SomeE:
  assumes "(case r of None \<Rightarrow> f | Some x \<Rightarrow> g x) = Some y"
  obtains "r = None" and "f = Some y" | x where "r = Some x" and "g x = Some y"
  using assms by (cases r) auto

lemma case_prod_SomeE:
  assumes "(case p of (a, b) \<Rightarrow> f a b) = Some y"
  obtains a b where "p = (a, b)" and "f a b = Some y"
  using assms by (cases p) auto

lemmas seqE = bind_SomeE map_option_SomeE if_SomeE case_sum_SomeE case_option_SomeE case_prod_SomeE

section \<open>Vectors and slices\<close>

text \<open>\<open>v[i]\<close> and \<open>v[i] = x\<close> panic when \<open>i\<close> is out of range.\<close>

definition vec_get :: "'a list \<Rightarrow> nat \<Rightarrow> 'a option" where
  "vec_get xs i = (if i < length xs then Some (xs ! i) else None)"

definition vec_mod :: "'a list \<Rightarrow> nat \<Rightarrow> ('a \<Rightarrow> 'a) \<Rightarrow> 'a list option" where
  "vec_mod xs i f = (if i < length xs then Some (xs[i := f (xs ! i)]) else None)"

text \<open>\<open>&v[a..b]\<close> panics unless \<open>a \<le> b \<le> v.len()\<close>.\<close>

definition slice_get :: "'a list \<Rightarrow> nat \<Rightarrow> nat \<Rightarrow> 'a list option" where
  "slice_get xs a b = (if a \<le> b \<and> b \<le> length xs then Some (take (b - a) (drop a xs)) else None)"

text \<open>\<open>v[a..a + src.len()].copy_from_slice(src)\<close>.\<close>

definition overwrite :: "'a list \<Rightarrow> nat \<Rightarrow> 'a list \<Rightarrow> 'a list" where
  "overwrite xs a src = take a xs @ src @ drop (a + length src) xs"

definition slice_put :: "'a list \<Rightarrow> nat \<Rightarrow> 'a list \<Rightarrow> 'a list option" where
  "slice_put xs a src = (if a + length src \<le> length xs then Some (overwrite xs a src) else None)"

text \<open>\<open>Vec::pop\<close>: the last element and the rest.\<close>

definition vec_pop :: "'a list \<Rightarrow> ('a \<times> 'a list) option" where
  "vec_pop xs = (if xs = [] then None else Some (last xs, butlast xs))"

lemma vec_get_Some [simp, vec_simps]: "i < length xs \<Longrightarrow> vec_get xs i = Some (xs ! i)"
  by (simp add: vec_get_def)

lemma vec_get_eq_Some: "vec_get xs i = Some x \<longleftrightarrow> i < length xs \<and> xs ! i = x"
  by (auto simp: vec_get_def)

lemma vec_get_eq_None: "vec_get xs i = None \<longleftrightarrow> length xs \<le> i"
  by (auto simp: vec_get_def)

lemma vec_mod_Some [simp, vec_simps]: "i < length xs \<Longrightarrow> vec_mod xs i f = Some (xs[i := f (xs ! i)])"
  by (simp add: vec_mod_def)

lemma vec_mod_eq_Some:
  "vec_mod xs i f = Some ys \<longleftrightarrow> i < length xs \<and> ys = xs[i := f (xs ! i)]"
  by (auto simp: vec_mod_def)

lemma slice_get_Some [simp, vec_simps]:
  "a \<le> b \<Longrightarrow> b \<le> length xs \<Longrightarrow> slice_get xs a b = Some (take (b - a) (drop a xs))"
  by (simp add: slice_get_def)

lemma slice_put_Some [simp, vec_simps]:
  "a + length src \<le> length xs \<Longrightarrow> slice_put xs a src = Some (overwrite xs a src)"
  by (simp add: slice_put_def)

lemma length_overwrite [simp]:
  "a + length src \<le> length xs \<Longrightarrow> length (overwrite xs a src) = length xs"
  by (simp add: overwrite_def)

lemma overwrite_Nil [simp]: "a \<le> length xs \<Longrightarrow> overwrite xs a [] = xs"
  by (simp add: overwrite_def)

lemma take_overwrite_before [simp]:
  "n \<le> a \<Longrightarrow> a \<le> length xs \<Longrightarrow> take n (overwrite xs a src) = take n xs"
  by (simp add: overwrite_def min_def)

lemma drop_overwrite_after:
  "a + length src \<le> n \<Longrightarrow> a \<le> length xs \<Longrightarrow> drop n (overwrite xs a src) = drop n xs"
  by (simp add: overwrite_def add.commute)

lemma overwrite_append:
  assumes "a + length p + length q \<le> length xs"
  shows "overwrite (overwrite xs a p) (a + length p) q = overwrite xs a (p @ q)"
  using assms by (simp add: overwrite_def ac_simps)

section \<open>Lists\<close>

lemma vec_pop_snoc [simp]: "vec_pop (xs @ [x]) = Some (x, xs)"
  by (simp add: vec_pop_def)

lemma vec_pop_Nil [simp]: "vec_pop [] = None"
  by (simp add: vec_pop_def)

lemma vec_pop_eq_Some: "vec_pop xs = Some (x, ys) \<longleftrightarrow> xs = ys @ [x]"
  by (cases xs rule: rev_cases) auto

lemma max_minus_right [simp]: "max a b - b = a - (b :: nat)"
  by (simp add: max_def)

lemma take_drop_append: "take k (drop w xs) @ drop (w + k) xs = drop w xs"
  by (metis append_take_drop_id drop_drop add.commute)

lemma nth_upd: "xs[i := x] ! j = (if i = j \<and> i < length xs then x else xs ! j)"
  by (cases "i < length xs") (auto simp: nth_list_update list_update_beyond)

lemma concat_map_cong_set:
  "(\<And>x. x \<in> set xs \<Longrightarrow> f x = g x) \<Longrightarrow> concat (map f xs) = concat (map g xs)"
  by (simp cong: map_cong)

lemma take_eq_appendD:
  assumes "take u d = xs @ ys"
  shows "take (length xs) d = xs" and "take (length (xs @ ys)) d = xs @ ys"
proof -
  have d: "d = xs @ ys @ drop u d" using append_take_drop_id [of u d] assms by simp
  show "take (length xs) d = xs" by (subst d) simp
  show "take (length (xs @ ys)) d = xs @ ys" by (subst d) simp
qed

lemma take_drop_join:
  assumes "w + m \<le> n"
  shows "take m (drop w xs) @ take (n - (w + m)) (drop (w + m) xs) = take (n - w) (drop w xs)"
proof -
  obtain k where n: "n = w + m + k" using assms le_Suc_ex by blast
  have "n - w = m + k" "n - (w + m) = k" using n by simp_all
  moreover have "drop (w + m) xs = drop m (drop w xs)" by (simp add: add.commute)
  ultimately show ?thesis by (simp only: take_add)
qed

end
