(* ===== verification/Imfs_Node.thy ===== *)
theory Imfs_Node
  imports Prelude
begin

text \<open>
  IMFS node and chunk types (\<open>rust-grates/imfs-grate/src/imfs/node.rs\<close>): the arena's node,
  directory entry and chunk records, and the node constructor with its file type bits.
\<close>

definition CHUNK_SIZE :: nat where
  "CHUNK_SIZE = 1024"

definition MAX_NODE_NAME :: nat where
  "MAX_NODE_NAME = 65"

definition MAX_NODES :: nat where
  "MAX_NODES = 1024"

definition GET_UID :: u32 where
  "GET_UID = 501"

definition GET_GID :: u32 where
  "GET_GID = 20"

datatype node_type = Reg | Dir | Lnk | Pip | Free

record dir_entry =
  de_name :: string
  de_node_idx :: nat

record node_time =
  secs :: nat
  nanos :: nat

definition node_time_now :: node_time where
  "node_time_now = \<lparr>secs = 0, nanos = 0\<rparr>"

definition as_stat_pair :: "node_time \<Rightarrow> nat \<times> nat" where
  "as_stat_pair t = (secs t, nanos t)"

datatype node_info =
    IReg (i_head: "nat option") (i_tail: "nat option")
  | IDir "dir_entry list"
  | IHardLink nat
  | ISymlink string
  | IPip "byte list" nat nat
  | IFree

record node =
  node_type :: node_type
  n_index :: nat
  total_size :: nat
  n_name :: string
  parent_idx :: nat
  in_use :: nat
  doomed :: bool
  n_mode :: u32
  n_owner :: u32
  n_group :: u32
  n_info :: node_info
  n_ctime :: node_time
  n_atime :: node_time
  n_mtime :: node_time

text \<open>The file type bits of a new node: \<open>S_IFREG\<close>, \<open>S_IFDIR\<close>, \<open>S_IFLNK\<close>, \<open>S_IFIFO\<close>.\<close>

definition node_mode_bits :: "node_type \<Rightarrow> u32 \<Rightarrow> u32" where
  "node_mode_bits t mode = (case t of
      Reg \<Rightarrow> 0x8000 OR (mode AND 0xFFF)
    | Dir \<Rightarrow> 0x4000 OR (mode AND 0xFFF)
    | Lnk \<Rightarrow> 0xA000 OR (mode AND 0xFFF)
    | Pip \<Rightarrow> 0x1000 OR (mode AND 0xFFF)
    | Free \<Rightarrow> mode AND 0xFFF)"

definition node_init_info :: "node_type \<Rightarrow> node_info" where
  "node_init_info t = (case t of
      Reg \<Rightarrow> IReg None None
    | Dir \<Rightarrow> IDir []
    | Lnk \<Rightarrow> ISymlink ''''
    | Pip \<Rightarrow> IPip [] 0 0
    | Free \<Rightarrow> IFree)"

definition node_new :: "nat \<Rightarrow> string \<Rightarrow> node_type \<Rightarrow> u32 \<Rightarrow> node" where
  "node_new index name t mode =
     \<lparr>node_type = t, n_index = index, total_size = 0, n_name = name, parent_idx = 0,
      in_use = 0, doomed = False, n_mode = node_mode_bits t mode,
      n_owner = GET_UID, n_group = GET_GID, n_info = node_init_info t,
      n_ctime = node_time_now, n_atime = node_time_now, n_mtime = node_time_now\<rparr>"

text \<open>\<open>children\<close> and \<open>children_mut\<close> panic on a node that is not a directory.\<close>

definition children :: "node \<Rightarrow> dir_entry list option" where
  "children n = (case n_info n of IDir cs \<Rightarrow> Some cs | _ \<Rightarrow> None)"

definition with_children_mut :: "node \<Rightarrow> (dir_entry list \<Rightarrow> dir_entry list) \<Rightarrow> node option" where
  "with_children_mut n f = (case n_info n of IDir cs \<Rightarrow> Some (n\<lparr>n_info := IDir (f cs)\<rparr>) | _ \<Rightarrow> None)"

definition hardlink_target :: "node \<Rightarrow> nat option" where
  "hardlink_target n = (case n_info n of IHardLink t \<Rightarrow> Some t | _ \<Rightarrow> None)"

definition symlink_target :: "node \<Rightarrow> string option" where
  "symlink_target n = (case n_info n of ISymlink t \<Rightarrow> Some t | _ \<Rightarrow> None)"

record chunk =
  ck_data :: "byte list"
  ck_used :: nat
  ck_next :: "nat option"

definition chunk_new :: chunk where
  "chunk_new = \<lparr>ck_data = replicate CHUNK_SIZE 0, ck_used = 0, ck_next = None\<rparr>"

lemma CHUNK_SIZE_pos [simp]: "0 < CHUNK_SIZE"
  by (simp add: CHUNK_SIZE_def)

lemma chunk_new_simps [simp]:
  "ck_data chunk_new = replicate CHUNK_SIZE 0" "ck_used chunk_new = 0" "ck_next chunk_new = None"
  by (simp_all add: chunk_new_def)

lemma node_new_simps [simp]:
  "node_type (node_new i nm t m) = t" "n_name (node_new i nm t m) = nm"
  "total_size (node_new i nm t m) = 0" "in_use (node_new i nm t m) = 0"
  "n_info (node_new i nm t m) = node_init_info t" "parent_idx (node_new i nm t m) = 0"
  "\<not> doomed (node_new i nm t m)" "n_mode (node_new i nm t m) = node_mode_bits t m"
  by (simp_all add: node_new_def)

lemma children_simps [simp]:
  "n_info n = IDir cs \<Longrightarrow> children n = Some cs"
  "n_info n = IDir cs \<Longrightarrow> with_children_mut n f = Some (n\<lparr>n_info := IDir (f cs)\<rparr>)"
  by (simp_all add: children_def with_children_mut_def)

end
