(* ===== verification/Imfs_State.thy ===== *)
theory Imfs_State
  imports Imfs_Node
begin

text \<open>
  The IMFS state and its arena management (\<open>imfs/mod.rs\<close>, lines 41 to 333): timestamps,
  directory records, node allocation and reclamation, link counts, chunk allocation and
  reclamation.

  \<open>fd_info\<close> holds \<open>Arc<Mutex<FDInfo>>\<close> values that \<open>dup\<close> and \<open>fork\<close> share, so the
  map goes to references into a store \<open>fd_arcs\<close> of \<open>FDInfo\<close> objects.
\<close>

section \<open>State\<close>

record fd_rec =
  fi_flags :: "64 word"
  fi_offset :: int

record imfs =
  nodes :: "node list"
  chunks :: "chunk list"
  node_free_list :: "nat list"
  chunk_free_list :: "nat list"
  root_idx :: nat
  fd_info :: "nat \<times> nat \<rightharpoonup> nat"
  fd_arcs :: "fd_rec list"
  cwd_info :: "nat \<rightharpoonup> string"

definition get_node :: "imfs \<Rightarrow> nat \<Rightarrow> node option" where
  "get_node s i = vec_get (nodes s) i"

definition upd_node :: "imfs \<Rightarrow> nat \<Rightarrow> (node \<Rightarrow> node) \<Rightarrow> imfs option" where
  "upd_node s i f = map_option (\<lambda>ns. s\<lparr>nodes := ns\<rparr>) (vec_mod (nodes s) i f)"

section \<open>Timestamp helpers\<close>

definition update_atime :: "imfs \<Rightarrow> nat \<Rightarrow> imfs option" where
  "update_atime s i = upd_node s i (\<lambda>n. n\<lparr>n_atime := node_time_now\<rparr>)"

definition update_mtime :: "imfs \<Rightarrow> nat \<Rightarrow> imfs option" where
  "update_mtime s i = upd_node s i (\<lambda>n. n\<lparr>n_mtime := node_time_now\<rparr>)"

definition update_ctime :: "imfs \<Rightarrow> nat \<Rightarrow> imfs option" where
  "update_ctime s i = upd_node s i (\<lambda>n. n\<lparr>n_ctime := node_time_now\<rparr>)"

section \<open>Node management\<close>

definition create_node :: "imfs \<Rightarrow> string \<Rightarrow> node_type \<Rightarrow> u32 \<Rightarrow> (nat \<times> imfs) option" where
  "create_node s name t mode = (case vec_pop (node_free_list s) of
      Some (free_idx, rest) \<Rightarrow> do {
        s' \<leftarrow> upd_node (s\<lparr>node_free_list := rest\<rparr>) free_idx (\<lambda>_. node_new free_idx name t mode);
        Some (free_idx, s') }
    | None \<Rightarrow>
        let idx = length (nodes s)
        in Some (idx, s\<lparr>nodes := nodes s @ [node_new idx name t mode]\<rparr>))"

definition add_child :: "imfs \<Rightarrow> nat \<Rightarrow> nat \<Rightarrow> imfs option" where
  "add_child s parent child = do {
     c \<leftarrow> get_node s child;
     p \<leftarrow> get_node s parent;
     p' \<leftarrow> with_children_mut p (\<lambda>cs. cs @ [\<lparr>de_name = n_name c, de_node_idx = child\<rparr>]);
     s1 \<leftarrow> upd_node s parent (\<lambda>_. p');
     upd_node s1 child (\<lambda>n. n\<lparr>parent_idx := parent\<rparr>) }"

definition remove_child :: "imfs \<Rightarrow> nat \<Rightarrow> imfs option" where
  "remove_child s i = do {
     n \<leftarrow> get_node s i;
     p \<leftarrow> get_node s (parent_idx n);
     p' \<leftarrow> with_children_mut p (filter (\<lambda>e. de_name e \<noteq> n_name n));
     upd_node s (parent_idx n) (\<lambda>_. p') }"

section \<open>Chunk management\<close>

definition alloc_chunk :: "imfs \<Rightarrow> (nat \<times> imfs) option" where
  "alloc_chunk s = (case vec_pop (chunk_free_list s) of
      Some (free_idx, rest) \<Rightarrow> do {
        cs \<leftarrow> vec_mod (chunks s) free_idx (\<lambda>_. chunk_new);
        Some (free_idx, s\<lparr>chunk_free_list := rest, chunks := cs\<rparr>) }
    | None \<Rightarrow>
        let idx = length (chunks s) in Some (idx, s\<lparr>chunks := chunks s @ [chunk_new]\<rparr>))"

definition reclaim_chunk :: "imfs \<Rightarrow> nat \<Rightarrow> imfs option" where
  "reclaim_chunk s i = do {
     cs \<leftarrow> vec_mod (chunks s) i (\<lambda>_. chunk_new);
     Some (s\<lparr>chunks := cs, chunk_free_list := chunk_free_list s @ [i]\<rparr>) }"

partial_function (option) reclaim_chunk_chain :: "imfs \<Rightarrow> nat option \<Rightarrow> imfs option" where
  "reclaim_chunk_chain s chunk_idx = (case chunk_idx of
      None \<Rightarrow> Some s
    | Some ci \<Rightarrow> do {
        c \<leftarrow> vec_get (chunks s) ci;
        s' \<leftarrow> reclaim_chunk s ci;
        reclaim_chunk_chain s' (ck_next c) })"

definition reclaim_node :: "imfs \<Rightarrow> nat \<Rightarrow> imfs option" where
  "reclaim_node s idx = do {
     n \<leftarrow> get_node s idx;
     let (chunk_head, n') = (case n_info n of
         IReg head tail \<Rightarrow> (head, n\<lparr>n_info := IReg None None\<rparr>)
       | _ \<Rightarrow> (None, n));
     s1 \<leftarrow> upd_node s idx (\<lambda>_. n');
     s2 \<leftarrow> reclaim_chunk_chain s1 chunk_head;
     s3 \<leftarrow> upd_node s2 idx (\<lambda>n. n\<lparr>node_type := Free, n_info := IFree\<rparr>);
     Some (s3\<lparr>node_free_list := node_free_list s3 @ [idx]\<rparr>) }"

section \<open>Link counts\<close>

text \<open>\<open>iter().filter(p).count()\<close> where the predicate indexes the arena and may panic.\<close>

fun count_where :: "('a \<Rightarrow> bool option) \<Rightarrow> 'a list \<Rightarrow> nat option" where
  "count_where p [] = Some 0"
| "count_where p (x # xs) = do {
     b \<leftarrow> p x;
     k \<leftarrow> count_where p xs;
     Some (if b then Suc k else k) }"

definition dir_children :: "node \<Rightarrow> dir_entry list" where
  "dir_children n = (case n_info n of IDir cs \<Rightarrow> cs | _ \<Rightarrow> [])"

definition is_dot_name :: "string \<Rightarrow> bool" where
  "is_dot_name n \<longleftrightarrow> n = ''.'' \<or> n = ''..''"

definition refers_to :: "imfs \<Rightarrow> nat \<Rightarrow> dir_entry \<Rightarrow> bool option" where
  "refers_to s i e =
     (if de_node_idx e = i then Some True
      else map_option (\<lambda>n. n_info n = IHardLink i) (get_node s (de_node_idx e)))"

definition link_count :: "imfs \<Rightarrow> nat \<Rightarrow> nat option" where
  "link_count s i = do {
     n \<leftarrow> get_node s i;
     (case n_info n of
        IDir cs \<Rightarrow> do {
          child_dirs \<leftarrow> count_where
            (\<lambda>e. map_option (\<lambda>c. node_type c = Dir) (get_node s (de_node_idx e)))
            (filter (\<lambda>e. \<not> is_dot_name (de_name e)) cs);
          Some (2 + child_dirs) }
      | _ \<Rightarrow> count_where (refers_to s i) (concat (map dir_children (nodes s)))) }"

definition unlink_doom :: "imfs \<Rightarrow> nat \<Rightarrow> imfs option" where
  "unlink_doom s i = do {
     k \<leftarrow> link_count s i;
     if k = 0 then do {
       s1 \<leftarrow> upd_node s i (\<lambda>n. n\<lparr>doomed := True\<rparr>);
       n \<leftarrow> get_node s1 i;
       if in_use n = 0 then reclaim_node s1 i else Some s1 }
     else Some s }"

definition unlink_node :: "imfs \<Rightarrow> nat \<Rightarrow> imfs option" where
  "unlink_node s i = do {
     n \<leftarrow> get_node s i;
     (case n_info n of
        IHardLink target \<Rightarrow> do {
          s1 \<leftarrow> update_ctime s target;
          s2 \<leftarrow> unlink_doom s1 target;
          reclaim_node s2 i }
      | _ \<Rightarrow> unlink_doom s i) }"

section \<open>Directory records\<close>

text \<open>The loop that follows hard links: it ends only where the links do.\<close>

partial_function (option) follow_hardlinks :: "imfs \<Rightarrow> nat \<Rightarrow> nat option" where
  "follow_hardlinks s idx = do {
     n \<leftarrow> get_node s idx;
     (case n_info n of IHardLink target \<Rightarrow> follow_hardlinks s target | _ \<Rightarrow> Some idx) }"

definition dirent_type :: "imfs \<Rightarrow> nat \<Rightarrow> byte option" where
  "dirent_type s node_idx = do {
     idx \<leftarrow> follow_hardlinks s node_idx;
     n \<leftarrow> get_node s idx;
     Some (case node_type n of Dir \<Rightarrow> 4 | Reg \<Rightarrow> 8 | Lnk \<Rightarrow> 10 | Pip \<Rightarrow> 1 | Free \<Rightarrow> 0) }"

definition DIRENT64_FIXED_SIZE :: nat where
  "DIRENT64_FIXED_SIZE = 8 + 8 + 2 + 1"

definition dirent_reclen :: "nat \<Rightarrow> nat" where
  "dirent_reclen name_len =
     (let reclen = DIRENT64_FIXED_SIZE + name_len + 1
      in nat (int (reclen + 7) AND NOT 7))"

definition str_bytes :: "string \<Rightarrow> byte list" where
  "str_bytes = map of_char"

definition write_dirent_record ::
  "byte list \<Rightarrow> nat \<Rightarrow> nat \<Rightarrow> byte \<Rightarrow> string \<Rightarrow> (nat \<times> byte list) option" where
  "write_dirent_record buf ino next_offset d_type name = do {
     let reclen = dirent_reclen (length name);
     _ \<leftarrow> slice_get buf 0 reclen;
     let record = replicate reclen 0;
     record \<leftarrow> slice_put record 0 (le_bytes 8 ino);
     record \<leftarrow> slice_put record 8 (le_bytes 8 next_offset);
     record \<leftarrow> slice_put record 16 (le_bytes 2 (reclen mod 2 ^ 16));
     record \<leftarrow> slice_put record 18 [d_type];
     record \<leftarrow> slice_put record DIRENT64_FIXED_SIZE (str_bytes name);
     Some (reclen, overwrite buf 0 record) }"

section \<open>Initialisation\<close>

definition imfs_empty :: imfs where
  "imfs_empty = \<lparr>nodes = [], chunks = [], node_free_list = [], chunk_free_list = [],
     root_idx = 0, fd_info = Map.empty, fd_arcs = [], cwd_info = Map.empty\<rparr>"

definition imfs_init :: "imfs option" where
  "imfs_init = do {
     let s = imfs_empty\<lparr>cwd_info := [0 \<mapsto> ''/'']\<rparr>;
     (root, s) \<leftarrow> create_node s ''/'' Dir 0x1ED;
     s \<leftarrow> upd_node s root (\<lambda>n. n\<lparr>parent_idx := root\<rparr>);
     let s = s\<lparr>root_idx := root\<rparr>;
     (dot, s) \<leftarrow> create_node s ''.'' Lnk 0;
     s \<leftarrow> upd_node s dot (\<lambda>n. n\<lparr>n_info := IHardLink root\<rparr>);
     s \<leftarrow> add_child s root dot;
     (dotdot, s) \<leftarrow> create_node s ''..'' Lnk 0;
     s \<leftarrow> upd_node s dotdot (\<lambda>n. n\<lparr>n_info := IHardLink root\<rparr>);
     add_child s root dotdot }"

text \<open>The unfolding equations of the loops, for evaluation.\<close>

declare reclaim_chunk_chain.simps [code] follow_hardlinks.simps [code]

end
