(* ===== verification/Imfs_Data.thy ===== *)
theory Imfs_Data
  imports Imfs_State
begin

text \<open>
  File contents in chunk chains (\<open>imfs/mod.rs\<close>, lines 658 to 855): \<open>read_from_node\<close>,
  \<open>write_to_node\<close> and \<open>truncate_node\<close> on linked lists of 1024-byte chunks.
\<close>

section \<open>Reading\<close>

text \<open>The loop that skips the chunks before the read offset.\<close>

function skip_chunks :: "chunk list \<Rightarrow> nat option \<Rightarrow> nat \<Rightarrow> (nat option \<times> nat) option" where
  "skip_chunks cs chunk_idx local_offset = (case chunk_idx of
      None \<Rightarrow> Some (None, local_offset)
    | Some ci \<Rightarrow>
        if local_offset < CHUNK_SIZE then Some (Some ci, local_offset)
        else do { c \<leftarrow> vec_get cs ci; skip_chunks cs (ck_next c) (local_offset - CHUNK_SIZE) })"
  by pat_completeness auto
termination
  by (relation "measure (\<lambda>(cs, p, lo). lo)") (auto simp: CHUNK_SIZE_def)

declare skip_chunks.simps [simp del]

partial_function (option) read_loop ::
  "chunk list \<Rightarrow> nat option \<Rightarrow> nat \<Rightarrow> nat \<Rightarrow> nat \<Rightarrow> byte list \<Rightarrow> (nat \<times> byte list) option" where
  "read_loop cs chunk_idx local_offset count read buf =
     (if read < count then
        (case chunk_idx of
           None \<Rightarrow> Some (read, buf)
         | Some ci \<Rightarrow> do {
             c \<leftarrow> vec_get cs ci;
             let available = ck_used c - local_offset;
             let to_copy = min (count - read) available;
             src \<leftarrow> slice_get (ck_data c) local_offset (local_offset + to_copy);
             buf' \<leftarrow> slice_put buf read src;
             read_loop cs (ck_next c) 0 count (read + to_copy) buf' })
      else Some (read, buf))"

definition read_from_node :: "imfs \<Rightarrow> nat \<Rightarrow> nat \<Rightarrow> byte list \<Rightarrow> (nat \<times> byte list) option" where
  "read_from_node s node_idx offset buf = do {
     node \<leftarrow> get_node s node_idx;
     if offset \<ge> total_size node then Some (0, buf)
     else (case n_info node of
         IReg head tail \<Rightarrow> do {
           let count = min (length buf) (total_size node - offset);
           (chunk_idx, local_offset) \<leftarrow> skip_chunks (chunks s) head offset;
           read_loop (chunks s) chunk_idx local_offset count 0 buf }
       | _ \<Rightarrow> Some (0, buf)) }"

section \<open>Writing\<close>

text \<open>The loop that skips to the write offset marks every chunk it passes as full.\<close>

function write_skip :: "chunk list \<Rightarrow> nat option \<Rightarrow> nat \<Rightarrow> (chunk list \<times> nat option \<times> nat) option" where
  "write_skip cs chunk_idx local_offset = (case chunk_idx of
      None \<Rightarrow> Some (cs, None, local_offset)
    | Some ci \<Rightarrow>
        if local_offset < CHUNK_SIZE then Some (cs, Some ci, local_offset)
        else do {
          cs' \<leftarrow> vec_mod cs ci (\<lambda>c. c\<lparr>ck_used := CHUNK_SIZE\<rparr>);
          c \<leftarrow> vec_get cs' ci;
          write_skip cs' (ck_next c) (local_offset - CHUNK_SIZE) })"
  by pat_completeness auto
termination
  by (relation "measure (\<lambda>(cs, p, lo). lo)") (auto simp: CHUNK_SIZE_def)

declare write_skip.simps [simp del]

text \<open>
  \<open>let ci = match chunk_idx \<dots>\<close>: an existing chunk, or a new one linked behind the tail.
  \<open>Inl\<close> is the early return for a node that is not a regular file.
\<close>

definition write_chunk_idx :: "imfs \<Rightarrow> nat \<Rightarrow> nat option \<Rightarrow> ((unit + nat) \<times> imfs) option" where
  "write_chunk_idx s node_idx chunk_idx = (case chunk_idx of
      Some ci \<Rightarrow> Some (Inr ci, s)
    | None \<Rightarrow> do {
        (new_ci, s) \<leftarrow> alloc_chunk s;
        n \<leftarrow> get_node s node_idx;
        (case n_info n of
           IReg head tail \<Rightarrow> do {
             cs \<leftarrow> (case tail of
                 Some t \<Rightarrow> vec_mod (chunks s) t (\<lambda>c. c\<lparr>ck_next := Some new_ci\<rparr>)
               | None \<Rightarrow> Some (chunks s));
             s \<leftarrow> upd_node (s\<lparr>chunks := cs\<rparr>) node_idx
               (\<lambda>n. n\<lparr>n_info := IReg (if head = None then Some new_ci else head) (Some new_ci)\<rparr>);
             Some (Inr new_ci, s) }
         | _ \<Rightarrow> Some (Inl (), s)) })"

text \<open>Copying into one chunk: zero-fill the hole after \<open>used\<close>, copy, raise \<open>used\<close>.\<close>

definition write_chunk :: "chunk \<Rightarrow> nat \<Rightarrow> byte list \<Rightarrow> chunk option" where
  "write_chunk c local_offset src = do {
     data \<leftarrow> (if local_offset > ck_used c
              then slice_put (ck_data c) (ck_used c) (replicate (local_offset - ck_used c) 0)
              else Some (ck_data c));
     data \<leftarrow> slice_put data local_offset src;
     Some (c\<lparr>ck_data := data, ck_used := max (ck_used c) (local_offset + length src)\<rparr>) }"

partial_function (option) write_loop ::
  "imfs \<Rightarrow> nat \<Rightarrow> byte list \<Rightarrow> nat option \<Rightarrow> nat \<Rightarrow> nat \<Rightarrow> ((nat + nat) \<times> imfs) option" where
  "write_loop s node_idx buf chunk_idx local_offset written =
     (if written < length buf then do {
        (r, s) \<leftarrow> write_chunk_idx s node_idx chunk_idx;
        (case r of
           Inl _ \<Rightarrow> Some (Inl written, s)
         | Inr ci \<Rightarrow>
             if local_offset \<ge> CHUNK_SIZE then do {
               cs \<leftarrow> vec_mod (chunks s) ci (\<lambda>c. c\<lparr>ck_used := CHUNK_SIZE\<rparr>);
               c \<leftarrow> vec_get cs ci;
               write_loop (s\<lparr>chunks := cs\<rparr>) node_idx buf (ck_next c) (local_offset - CHUNK_SIZE) written }
             else do {
               let space = CHUNK_SIZE - local_offset;
               let to_copy = min (length buf - written) space;
               c \<leftarrow> vec_get (chunks s) ci;
               src \<leftarrow> slice_get buf written (written + to_copy);
               c' \<leftarrow> write_chunk c local_offset src;
               cs \<leftarrow> vec_mod (chunks s) ci (\<lambda>_. c');
               write_loop (s\<lparr>chunks := cs\<rparr>) node_idx buf (ck_next c') 0 (written + to_copy) }) }
      else Some (Inr written, s))"

definition write_to_node :: "imfs \<Rightarrow> nat \<Rightarrow> nat \<Rightarrow> byte list \<Rightarrow> (nat \<times> imfs) option" where
  "write_to_node s node_idx offset buf =
     (if buf = [] then Some (0, s)
      else do {
        n \<leftarrow> get_node s node_idx;
        (case n_info n of
           IReg head tail \<Rightarrow> do {
             (cs, chunk_idx, local_offset) \<leftarrow> write_skip (chunks s) head offset;
             (r, s) \<leftarrow> write_loop (s\<lparr>chunks := cs\<rparr>) node_idx buf chunk_idx local_offset 0;
             (case r of
                Inl written \<Rightarrow> Some (written, s)
              | Inr written \<Rightarrow> do {
                  n \<leftarrow> get_node s node_idx;
                  s \<leftarrow> (if offset + written > total_size n
                        then upd_node s node_idx (\<lambda>n. n\<lparr>total_size := offset + written\<rparr>)
                        else Some s);
                  Some (written, s) }) }
         | _ \<Rightarrow> Some (0, s)) })"

section \<open>Truncating\<close>

text \<open>
  The loop over the chain of a shrinking file.  \<open>Inl ci\<close>: the chunk where the new end lies;
  \<open>Inr last_keep\<close>: the chain ended before the new end.
\<close>

partial_function (option) truncate_loop ::
  "chunk list \<Rightarrow> nat option \<Rightarrow> nat \<Rightarrow> nat option \<Rightarrow> ((nat \<times> nat) + nat option) option" where
  "truncate_loop cs current remaining last_keep = (case current of
      None \<Rightarrow> Some (Inr last_keep)
    | Some ci \<Rightarrow>
        if remaining > CHUNK_SIZE then do {
          c \<leftarrow> vec_get cs ci;
          truncate_loop cs (ck_next c) (remaining - CHUNK_SIZE) (Some ci) }
        else Some (Inl (ci, remaining)))"

definition set_tail :: "imfs \<Rightarrow> nat \<Rightarrow> nat \<Rightarrow> imfs option" where
  "set_tail s node_idx ci = upd_node s node_idx (\<lambda>n. case n_info n of
      IReg head tail \<Rightarrow> n\<lparr>n_info := IReg head (Some ci)\<rparr> | _ \<Rightarrow> n)"

definition truncate_zero :: "imfs \<Rightarrow> nat \<Rightarrow> imfs option" where
  "truncate_zero s node_idx = do {
     n \<leftarrow> get_node s node_idx;
     (case n_info n of
        IReg head tail \<Rightarrow> do {
          s \<leftarrow> upd_node s node_idx (\<lambda>n. n\<lparr>n_info := IReg None None\<rparr>);
          s \<leftarrow> reclaim_chunk_chain s head;
          upd_node s node_idx (\<lambda>n. n\<lparr>total_size := 0\<rparr>) }
      | _ \<Rightarrow> Some s) }"

definition truncate_shrink :: "imfs \<Rightarrow> nat \<Rightarrow> nat \<Rightarrow> imfs option" where
  "truncate_shrink s node_idx new_size = do {
     n \<leftarrow> get_node s node_idx;
     (case n_info n of
        IReg head tail \<Rightarrow> do {
          r \<leftarrow> truncate_loop (chunks s) head new_size None;
          (case r of
             Inl (ci, remaining) \<Rightarrow> do {
               c \<leftarrow> vec_get (chunks s) ci;
               cs \<leftarrow> vec_mod (chunks s) ci (\<lambda>c. c\<lparr>ck_used := remaining, ck_next := None\<rparr>);
               s \<leftarrow> reclaim_chunk_chain (s\<lparr>chunks := cs\<rparr>) (ck_next c);
               s \<leftarrow> set_tail s node_idx ci;
               upd_node s node_idx (\<lambda>n. n\<lparr>total_size := new_size\<rparr>) }
           | Inr last_keep \<Rightarrow> do {
               s \<leftarrow> (case last_keep of
                   Some ci \<Rightarrow> do {
                     cs \<leftarrow> vec_mod (chunks s) ci (\<lambda>c. c\<lparr>ck_next := None\<rparr>);
                     set_tail (s\<lparr>chunks := cs\<rparr>) node_idx ci }
                 | None \<Rightarrow> Some s);
               upd_node s node_idx (\<lambda>n. n\<lparr>total_size := new_size\<rparr>) }) }
      | _ \<Rightarrow> Some s) }"

definition truncate_node :: "imfs \<Rightarrow> nat \<Rightarrow> nat \<Rightarrow> imfs option" where
  "truncate_node s node_idx new_size = do {
     n \<leftarrow> get_node s node_idx;
     let old_size = total_size n;
     if new_size = old_size then Some s
     else if new_size > old_size then map_option snd (write_to_node s node_idx (new_size - 1) [0])
     else if new_size = 0 then truncate_zero s node_idx
     else truncate_shrink s node_idx new_size }"

declare read_loop.simps [code] write_loop.simps [code] truncate_loop.simps [code]

end
