(* ===== verification/Imfs_File.thy ===== *)
theory Imfs_File
  imports Imfs_Data
begin

text \<open>
  The chunk chains implement byte sequences.  \<open>storage_ok\<close> is the representation
  invariant of the arena (chains are acyclic, pairwise disjoint and disjoint from the free
  list, every chunk but the last of a file is full, \<open>total_size\<close> is the number of stored
  bytes); \<open>file_bytes\<close> is the abstraction.  The lemmas show that reading, writing and
  truncating through the chains is reading, splicing and cutting the byte sequence.
\<close>

section \<open>Chains\<close>

fun chain :: "chunk list \<Rightarrow> nat option \<Rightarrow> nat list \<Rightarrow> bool" where
  "chain ch p [] \<longleftrightarrow> p = None"
| "chain ch p (c # cs) \<longleftrightarrow> p = Some c \<and> c < length ch \<and> chain ch (ck_next (ch ! c)) cs"

definition chunk_bytes :: "chunk \<Rightarrow> byte list" where
  "chunk_bytes c = take (ck_used c) (ck_data c)"

definition file_bytes :: "chunk list \<Rightarrow> nat list \<Rightarrow> byte list" where
  "file_bytes ch cs = concat (map (\<lambda>c. chunk_bytes (ch ! c)) cs)"

definition wf_chunk :: "chunk \<Rightarrow> bool" where
  "wf_chunk c \<longleftrightarrow> length (ck_data c) = CHUNK_SIZE \<and> ck_used c \<le> CHUNK_SIZE"

definition full_chunk :: "chunk \<Rightarrow> bool" where
  "full_chunk c \<longleftrightarrow> length (ck_data c) = CHUNK_SIZE \<and> ck_used c = CHUNK_SIZE"

text \<open>All chunks are full except the last, which holds at least one byte.\<close>

fun packed :: "chunk list \<Rightarrow> nat list \<Rightarrow> bool" where
  "packed ch [] \<longleftrightarrow> True"
| "packed ch [c] \<longleftrightarrow> wf_chunk (ch ! c) \<and> 0 < ck_used (ch ! c)"
| "packed ch (c # d # cs) \<longleftrightarrow> full_chunk (ch ! c) \<and> packed ch (d # cs)"

definition tail_of :: "nat list \<Rightarrow> nat option" where
  "tail_of cs = (if cs = [] then None else Some (last cs))"

text \<open>Writing \<open>ys\<close> at offset \<open>p\<close> into \<open>xs\<close>, a gap filled with zeros.\<close>

definition splice_at :: "byte list \<Rightarrow> nat \<Rightarrow> byte list \<Rightarrow> byte list" where
  "splice_at xs p ys =
     take p (xs @ replicate (p - length xs) 0) @ ys @ drop (p + length ys) xs"

lemma chain_None [simp]: "chain ch None cs \<longleftrightarrow> cs = []"
  by (cases cs) auto

lemma chain_Some: "chain ch (Some c) cs \<longleftrightarrow>
  c < length ch \<and> (\<exists>ds. cs = c # ds \<and> chain ch (ck_next (ch ! c)) ds)"
  by (cases cs) auto

lemma chain_in_range: "chain ch p cs \<Longrightarrow> c \<in> set cs \<Longrightarrow> c < length ch"
  by (induction ch p cs rule: chain.induct) auto

lemma chain_unique: "chain ch p cs \<Longrightarrow> chain ch p ds \<Longrightarrow> cs = ds"
  by (induction ch p cs arbitrary: ds rule: chain.induct) (auto simp: chain_Some)

lemma chain_append:
  "chain ch p (cs @ c # ds) \<Longrightarrow> c < length ch \<and> chain ch (Some c) (c # ds)"
  by (induction cs arbitrary: p) auto

lemma chain_distinct: "chain ch p cs \<Longrightarrow> distinct cs"
proof (induction cs arbitrary: p)
  case (Cons c cs)
  then have ch: "chain ch (ck_next (ch ! c)) cs" and "c < length ch" by auto
  have "c \<notin> set cs"
  proof
    assume "c \<in> set cs"
    then obtain as bs where cs: "cs = as @ c # bs" by (meson split_list)
    with ch have "chain ch (ck_next (ch ! c)) bs" using chain_append by fastforce
    with ch have "cs = bs" by (rule chain_unique)
    with cs show False by (metis length_append length_Cons add_Suc_right lessI not_add_less2)
  qed
  with ch Cons.IH show ?case by auto
qed simp

lemma chain_cong:
  assumes "length ch \<le> length ch'" and "\<And>c. c \<in> set cs \<Longrightarrow> ck_next (ch' ! c) = ck_next (ch ! c)"
  shows "chain ch p cs \<Longrightarrow> chain ch' p cs"
  using assms by (induction ch p cs rule: chain.induct) auto

lemma file_bytes_simps [simp]:
  "file_bytes ch [] = []"
  "file_bytes ch (c # cs) = chunk_bytes (ch ! c) @ file_bytes ch cs"
  "file_bytes ch (cs @ ds) = file_bytes ch cs @ file_bytes ch ds"
  by (simp_all add: file_bytes_def)

lemma file_bytes_cong:
  "(\<And>c. c \<in> set cs \<Longrightarrow> chunk_bytes (ch' ! c) = chunk_bytes (ch ! c)) \<Longrightarrow>
   file_bytes ch' cs = file_bytes ch cs"
  unfolding file_bytes_def by (rule concat_map_cong_set) simp

lemma packed_cong:
  "packed ch cs \<Longrightarrow> (\<And>c. c \<in> set cs \<Longrightarrow> ck_used (ch' ! c) = ck_used (ch ! c)) \<Longrightarrow>
   (\<And>c. c \<in> set cs \<Longrightarrow> ck_data (ch' ! c) = ck_data (ch ! c)) \<Longrightarrow> packed ch' cs"
  by (induction ch cs rule: packed.induct) (auto simp: wf_chunk_def full_chunk_def)

lemma full_imp_wf: "full_chunk c \<Longrightarrow> wf_chunk c \<and> 0 < ck_used c"
  by (simp add: full_chunk_def wf_chunk_def CHUNK_SIZE_def)

lemma length_chunk_bytes [simp]: "wf_chunk c \<Longrightarrow> length (chunk_bytes c) = ck_used c"
  by (simp add: chunk_bytes_def wf_chunk_def)

lemma chunk_bytes_full: "full_chunk c \<Longrightarrow> chunk_bytes c = ck_data c"
  by (simp add: chunk_bytes_def full_chunk_def)

lemma packed_Cons:
  "packed ch (c # cs) \<longleftrightarrow>
   wf_chunk (ch ! c) \<and> 0 < ck_used (ch ! c) \<and> (cs \<noteq> [] \<longrightarrow> full_chunk (ch ! c)) \<and> packed ch cs"
  by (cases cs) (auto dest: full_imp_wf)

lemma packed_tl: "packed ch (c # cs) \<Longrightarrow> packed ch cs"
  by (simp add: packed_Cons)

lemma packed_append:
  "packed ch (cs @ ds) \<longleftrightarrow>
   packed ch cs \<and> packed ch ds \<and> (ds \<noteq> [] \<longrightarrow> (\<forall>c \<in> set cs. full_chunk (ch ! c)))"
  by (induction cs) (auto simp: packed_Cons dest: full_imp_wf)

lemma length_full_bytes:
  "\<forall>c \<in> set cs. full_chunk (ch ! c) \<Longrightarrow> length (file_bytes ch cs) = CHUNK_SIZE * length cs"
  by (induction cs) (auto simp: chunk_bytes_full full_chunk_def)

section \<open>Reading\<close>

lemma skip_chunks_unfold:
  "skip_chunks ch None off = Some (None, off)"
  "off < CHUNK_SIZE \<Longrightarrow> skip_chunks ch (Some c) off = Some (Some c, off)"
  "CHUNK_SIZE \<le> off \<Longrightarrow> c < length ch \<Longrightarrow>
     skip_chunks ch (Some c) off = skip_chunks ch (ck_next (ch ! c)) (off - CHUNK_SIZE)"
  by (subst skip_chunks.simps, simp)+

lemma skip_chunks_correct:
  assumes "chain ch p cs" and "packed ch cs" and "off < length (file_bytes ch cs)"
  shows "\<exists>p' lo ds. skip_chunks ch p off = Some (p', lo) \<and> chain ch p' ds \<and> packed ch ds \<and>
    lo < length (file_bytes ch ds) \<and> lo < CHUNK_SIZE \<and>
    drop off (file_bytes ch cs) = drop lo (file_bytes ch ds)"
  using assms
proof (induction cs arbitrary: p off)
  case (Cons c cs)
  then have p: "p = Some c" "c < length ch" and nx: "chain ch (ck_next (ch ! c)) cs"
    and pk: "packed ch cs" by (auto simp: packed_Cons)
  show ?case
  proof (cases "off < CHUNK_SIZE")
    case True
    with p have "skip_chunks ch p off = Some (Some c, off)"
      by (simp add: skip_chunks_unfold)
    with True Cons.prems p show ?thesis by blast
  next
    case False
    with Cons.prems p have "cs \<noteq> []"
      by (auto simp: packed_Cons wf_chunk_def)
    with Cons.prems have full: "full_chunk (ch ! c)" by (simp add: packed_Cons)
    then have len: "length (chunk_bytes (ch ! c)) = CHUNK_SIZE"
      by (simp add: chunk_bytes_full full_chunk_def)
    with Cons.prems False have "off - CHUNK_SIZE < length (file_bytes ch cs)" by simp
    from Cons.IH [OF nx pk this] obtain p' lo ds where
      "skip_chunks ch (ck_next (ch ! c)) (off - CHUNK_SIZE) = Some (p', lo)" "chain ch p' ds"
      "packed ch ds" "lo < length (file_bytes ch ds)" "lo < CHUNK_SIZE"
      "drop (off - CHUNK_SIZE) (file_bytes ch cs) = drop lo (file_bytes ch ds)" by blast
    moreover have "skip_chunks ch p off = skip_chunks ch (ck_next (ch ! c)) (off - CHUNK_SIZE)"
      using False p by (simp add: skip_chunks_unfold)
    moreover have "drop off (file_bytes ch (c # cs)) = drop (off - CHUNK_SIZE) (file_bytes ch cs)"
      using len False by simp
    ultimately show ?thesis by metis
  qed
qed simp

lemma read_loop_correct:
  assumes "chain ch p cs" and "packed ch cs" and "lo \<le> length (file_bytes ch cs)"
    and "lo < CHUNK_SIZE" and "read \<le> count" and "count \<le> length buf"
    and "count - read \<le> length (file_bytes ch cs) - lo"
  shows "read_loop ch p lo count read buf =
    Some (count, overwrite buf read (take (count - read) (drop lo (file_bytes ch cs))))"
  using assms
proof (induction cs arbitrary: p lo read buf)
  case Nil
  then show ?case by (simp add: read_loop.simps)
next
  case (Cons c cs)
  then have p: "p = Some c" "c < length ch" and nx: "chain ch (ck_next (ch ! c)) cs"
    and pk: "packed ch cs" and wf: "wf_chunk (ch ! c)" by (auto simp: packed_Cons)
  let ?d = "ck_data (ch ! c)" and ?u = "ck_used (ch ! c)"
  define k where "k = min (count - read) (?u - lo)"
  define src where "src = take k (drop lo ?d)"
  define rest where "rest = take (count - (read + k)) (file_bytes ch cs)"
  show ?case
  proof (cases "read < count")
    case False
    with Cons.prems show ?thesis by (simp add: read_loop.simps)
  next
    case True
    have lo_u: "lo \<le> ?u"
      using Cons.prems wf by (cases "cs = []") (auto simp: packed_Cons full_chunk_def)
    then have len_d: "lo + k \<le> length ?d" using wf by (auto simp: wf_chunk_def k_def)
    then have src: "length src = k" by (simp add: src_def)
    have rk: "read + k \<le> count" using True by (simp add: k_def)
    have put: "slice_put buf read src = Some (overwrite buf read src)"
      using src rk Cons.prems(6) by simp
    have get: "slice_get ?d lo (lo + k) = Some src" using len_d by (simp add: src_def)
    have step: "read_loop ch p lo count read buf =
        read_loop ch (ck_next (ch ! c)) 0 count (read + k) (overwrite buf read src)"
      using True p get put by (subst read_loop.simps) (simp add: Let_def k_def)
    have "count - (read + k) \<le> length (file_bytes ch cs) - 0"
      using Cons.prems(7) wf lo_u by (simp add: k_def min_def) linarith
    then have rec: "read_loop ch (ck_next (ch ! c)) 0 count (read + k) (overwrite buf read src) =
        Some (count, overwrite (overwrite buf read src) (read + k) rest)"
      using Cons.prems(6) rk src Cons.IH [OF nx pk, of 0 "read + k" "overwrite buf read src"]
      by (simp add: rest_def)
    have ow: "overwrite (overwrite buf read src) (read + k) rest = overwrite buf read (src @ rest)"
      using overwrite_append [of read src rest buf] src rk Cons.prems(6) by (simp add: rest_def)
    have "src = take (count - read) (drop lo (chunk_bytes (ch ! c)))"
      by (simp add: src_def chunk_bytes_def drop_take k_def)
    moreover have "rest = take (count - read - (?u - lo)) (file_bytes ch cs)"
      by (simp add: rest_def k_def min_def)
    ultimately have "src @ rest = take (count - read) (drop lo (file_bytes ch (c # cs)))"
      using lo_u wf by simp
    with step rec ow show ?thesis by simp
  qed
qed

end
