(* ===== verification/Imfs_Store.thy ===== *)
theory Imfs_Store
  imports Imfs_File
begin

text \<open>
  The representation invariant of the chunk arena and the correctness of writing,
  truncating and reclaiming under it.  A valuation \<open>F\<close> maps every node index to the chain
  of chunks of that node; \<open>chained\<close> is the part of the invariant that also holds between
  the iterations of the write loop, \<open>storage_ok\<close> the full invariant.
\<close>

section \<open>Invariant and frame\<close>

definition reg_info :: "imfs \<Rightarrow> nat \<Rightarrow> nat option \<Rightarrow> nat option \<Rightarrow> bool" where
  "reg_info s i h t \<longleftrightarrow> i < length (nodes s) \<and> n_info (nodes s ! i) = IReg h t"

definition is_reg :: "imfs \<Rightarrow> nat \<Rightarrow> bool" where
  "is_reg s i \<longleftrightarrow> (\<exists>h t. reg_info s i h t)"

definition chained :: "imfs \<Rightarrow> (nat \<Rightarrow> nat list) \<Rightarrow> bool" where
  "chained s F \<longleftrightarrow>
     (\<forall>i h t. reg_info s i h t \<longrightarrow> chain (chunks s) h (F i) \<and> t = tail_of (F i)) \<and>
     (\<forall>i. \<not> is_reg s i \<longrightarrow> F i = []) \<and>
     (\<forall>i j. i \<noteq> j \<longrightarrow> set (F i) \<inter> set (F j) = {}) \<and>
     distinct (chunk_free_list s) \<and>
     (\<forall>c \<in> set (chunk_free_list s). c < length (chunks s) \<and> (\<forall>i. c \<notin> set (F i)))"

definition storage_ok :: "imfs \<Rightarrow> (nat \<Rightarrow> nat list) \<Rightarrow> bool" where
  "storage_ok s F \<longleftrightarrow> chained s F \<and>
     (\<forall>i. is_reg s i \<longrightarrow> packed (chunks s) (F i) \<and>
        total_size (nodes s ! i) = length (file_bytes (chunks s) (F i)))"

text \<open>What an operation on the contents of node \<open>i\<close> leaves alone.\<close>

definition same_meta :: "node \<Rightarrow> node \<Rightarrow> bool" where
  "same_meta n n' \<longleftrightarrow>
     n'\<lparr>n_info := IFree, total_size := 0\<rparr> = n\<lparr>n_info := IFree, total_size := 0\<rparr>"

definition data_frame :: "nat \<Rightarrow> (nat \<Rightarrow> nat list) \<Rightarrow> imfs \<Rightarrow> imfs \<Rightarrow> bool" where
  "data_frame i F s s' \<longleftrightarrow>
     node_free_list s' = node_free_list s \<and> root_idx s' = root_idx s \<and>
     fd_info s' = fd_info s \<and> fd_arcs s' = fd_arcs s \<and> cwd_info s' = cwd_info s \<and>
     length (nodes s') = length (nodes s) \<and>
     (\<forall>j. j \<noteq> i \<longrightarrow> nodes s' ! j = nodes s ! j) \<and>
     same_meta (nodes s ! i) (nodes s' ! i) \<and>
     length (chunks s) \<le> length (chunks s') \<and>
     (\<forall>j. j \<noteq> i \<longrightarrow> (\<forall>c \<in> set (F j). chunks s' ! c = chunks s ! c))"

lemma same_meta_refl [simp]: "same_meta n n"
  by (simp add: same_meta_def)

lemma same_meta_upd [simp]:
  "same_meta n (n\<lparr>n_info := x\<rparr>)" "same_meta n (n\<lparr>total_size := k\<rparr>)"
  by (simp_all add: same_meta_def)

lemma data_frame_refl [simp, intro]: "data_frame i F s s"
  by (simp add: data_frame_def)

lemma data_frame_trans:
  assumes "data_frame i F s s'" and "data_frame i F' s' s''" and "\<And>j. j \<noteq> i \<Longrightarrow> F' j = F j"
  shows "data_frame i F s s''"
  using assms unfolding data_frame_def same_meta_def by auto

lemma reg_info_unique: "reg_info s i h t \<Longrightarrow> reg_info s i h' t' \<Longrightarrow> h = h' \<and> t = t'"
  by (simp add: reg_info_def)

lemma is_regI: "reg_info s i h t \<Longrightarrow> is_reg s i"
  by (auto simp: is_reg_def)

lemma chainedD:
  assumes "chained s F"
  shows "reg_info s i h t \<Longrightarrow> chain (chunks s) h (F i)"
    and "reg_info s i h t \<Longrightarrow> t = tail_of (F i)"
    and "i \<noteq> j \<Longrightarrow> c \<in> set (F i) \<Longrightarrow> c \<notin> set (F j)"
    and "c \<in> set (chunk_free_list s) \<Longrightarrow> c < length (chunks s)"
    and "c \<in> set (chunk_free_list s) \<Longrightarrow> c \<notin> set (F i)"
    and "distinct (chunk_free_list s)"
    and "\<not> is_reg s i \<Longrightarrow> F i = []"
  using assms unfolding chained_def by blast+

lemma chained_in_range:
  assumes "chained s F" and "c \<in> set (F i)"
  shows "c < length (chunks s)"
proof -
  have "is_reg s i" using assms chainedD(7) by fastforce
  then obtain h t where "reg_info s i h t" by (auto simp: is_reg_def)
  with assms show ?thesis by (metis chainedD(1) chain_in_range)
qed

lemma chained_distinct: "chained s F \<Longrightarrow> distinct (F i)"
  by (metis chainedD(1,7) chain_distinct distinct.simps(1) is_reg_def)

section \<open>Changing one chunk\<close>

text \<open>Changing data and \<open>used\<close> of a chunk of node \<open>i\<close>, not its link.\<close>

lemma chained_chunk_upd:
  assumes ch: "chained s F" and nx: "ck_next x = ck_next (chunks s ! c)"
  shows "chained (s\<lparr>chunks := (chunks s)[c := x]\<rparr>) F"
proof -
  have "chain ((chunks s)[c := x]) h (F i)" if "reg_info s i h t" for i h t
    using chainedD(1) [OF ch that]
    by (rule chain_cong [rotated 2]) (auto simp: nth_upd nx)
  with ch show ?thesis unfolding chained_def by (auto simp: reg_info_def is_reg_def)
qed

lemma data_frame_chunk_upd:
  assumes "chained s F" and "c \<in> set (F i)"
  shows "data_frame i F s (s\<lparr>chunks := (chunks s)[c := x]\<rparr>)"
  using assms chainedD(3) [OF assms(1)] by (auto simp: data_frame_def nth_upd)

section \<open>Allocating and linking a chunk\<close>

lemma alloc_chunk_correct:
  assumes "chained s F"
  shows "\<exists>n s'. alloc_chunk s = Some (n, s') \<and> chained s' F \<and> data_frame i F s s' \<and>
    nodes s' = nodes s \<and> n < length (chunks s') \<and> chunks s' ! n = chunk_new \<and>
    (\<forall>j. n \<notin> set (F j)) \<and> n \<notin> set (chunk_free_list s') \<and>
    (\<forall>j. \<forall>c \<in> set (F j). chunks s' ! c = chunks s ! c)"
proof (cases "chunk_free_list s" rule: rev_cases)
  case Nil
  let ?n = "length (chunks s)"
  let ?s = "s\<lparr>chunks := chunks s @ [chunk_new]\<rparr>"
  have r: "c < ?n" if "c \<in> set (F j)" for c j using chained_in_range [OF assms that] .
  have "chain (chunks ?s) h (F j)" if "reg_info s j h t" for j h t
    using chainedD(1) [OF assms that]
    by (rule chain_cong [rotated 2]) (auto simp: nth_append dest: r)
  then have "chained ?s F"
    using assms Nil unfolding chained_def by (auto simp: reg_info_def is_reg_def)
  moreover have "data_frame i F s ?s" by (auto simp: data_frame_def nth_append dest: r)
  ultimately show ?thesis using Nil r
    by (intro exI [of _ ?n] exI [of _ ?s]) (auto simp: alloc_chunk_def nth_append Let_def)
next
  case (snoc rest n)
  let ?s = "s\<lparr>chunk_free_list := rest, chunks := (chunks s)[n := chunk_new]\<rparr>"
  have n: "n < length (chunks s)" "\<And>j. n \<notin> set (F j)" "n \<notin> set rest"
    using chainedD(4-6) [OF assms] snoc by auto
  have "chain (chunks ?s) h (F j)" if "reg_info s j h t" for j h t
    using chainedD(1) [OF assms that]
    by (rule chain_cong [rotated 2]) (use n(2) in \<open>auto simp: nth_upd\<close>)
  then have "chained ?s F"
    using assms snoc unfolding chained_def by (auto simp: reg_info_def is_reg_def)
  moreover have "data_frame i F s ?s" using n(2) by (auto simp: data_frame_def nth_upd)
  ultimately show ?thesis using snoc n
    by (intro exI [of _ n] exI [of _ ?s]) (auto simp: alloc_chunk_def nth_upd)
qed

lemma chain_snoc:
  assumes "chain ch p cs" and "cs \<noteq> []" and "n \<notin> set cs" and "n < length ch"
    and "ck_next (ch ! n) = None"
  shows "chain (ch[last cs := (ch ! last cs)\<lparr>ck_next := Some n\<rparr>]) p (cs @ [n])"
  using assms
proof (induction cs arbitrary: p)
  case (Cons c cs)
  note dist = chain_distinct [OF Cons.prems(1)]
  show ?case
  proof (cases "cs = []")
    case True
    with Cons.prems show ?thesis by (auto simp: nth_upd)
  next
    case False
    with dist have "c \<noteq> last cs" by auto
    with False Cons.prems Cons.IH [of "ck_next (ch ! c)"] show ?thesis by (auto simp: nth_upd)
  qed
qed simp

lemma chained_F_upd:
  assumes ch: "chained s F" and i: "i < length (nodes s)"
    and chain': "chain cs' h (F' i)" and oth: "\<And>j. j \<noteq> i \<Longrightarrow> F' j = F j"
    and len: "length (chunks s) \<le> length cs'"
    and same: "\<And>j c. j \<noteq> i \<Longrightarrow> c \<in> set (F j) \<Longrightarrow> ck_next (cs' ! c) = ck_next (chunks s ! c)"
    and disj: "\<And>j. j \<noteq> i \<Longrightarrow> set (F' i) \<inter> set (F j) = {}"
    and fl: "distinct fl" "\<And>c. c \<in> set fl \<Longrightarrow> c < length cs' \<and> c \<notin> set (F' i) \<and> (\<forall>j. j \<noteq> i \<longrightarrow> c \<notin> set (F j))"
    and n: "n_info n = IReg h (tail_of (F' i))"
  shows "chained (s\<lparr>nodes := (nodes s)[i := n], chunks := cs', chunk_free_list := fl\<rparr>) F'"
    (is "chained ?s F'")
proof -
  have reg: "reg_info ?s j h' t' \<longleftrightarrow>
      (if j = i then h' = h \<and> t' = tail_of (F' i) else reg_info s j h' t')" for j h' t'
    using i n by (auto simp: reg_info_def)
  then have isreg: "is_reg ?s j \<longleftrightarrow> j = i \<or> is_reg s j" for j by (auto simp: is_reg_def)
  have chains: "chain cs' h' (F' j) \<and> t' = tail_of (F' j)" if r: "reg_info ?s j h' t'" for j h' t'
  proof (cases "j = i")
    case True
    with r chain' reg [of j h' t'] show ?thesis by simp
  next
    case False
    with r reg [of j h' t'] have rj: "reg_info s j h' t'" by simp
    have "chain cs' h' (F j)"
      by (rule chain_cong [OF len _ chainedD(1) [OF ch rj]]) (rule same [OF False])
    with False oth chainedD(2) [OF ch rj] show ?thesis by simp
  qed
  have dis: "set (F' j) \<inter> set (F' k) = {}" if "j \<noteq> k" for j k
  proof (cases "j = i \<or> k = i")
    case True
    with that disj oth show ?thesis by (metis Int_commute)
  next
    case False
    with that oth chainedD(3) [OF ch that] show ?thesis by auto
  qed
  have free: "c < length cs' \<and> (\<forall>j. c \<notin> set (F' j))" if "c \<in> set fl" for c
    using fl(2) [OF that] oth by metis
  have nonreg: "F' j = []" if "\<not> is_reg ?s j" for j
    using that isreg oth chainedD(7) [OF ch] by auto
  show ?thesis unfolding chained_def using chains dis free nonreg fl(1) by auto
qed

lemma write_chunk_idx_new:
  assumes ch: "chained s F" and reg: "reg_info s i h t"
  shows "\<exists>n s'. write_chunk_idx s i None = Some (Inr n, s') \<and> chained s' (F(i := F i @ [n])) \<and>
    data_frame i F s s' \<and> is_reg s' i \<and> total_size (nodes s' ! i) = total_size (nodes s ! i) \<and>
    chunks s' ! n = chunk_new \<and> n \<notin> set (F i) \<and>
    (\<forall>c \<in> set (F i). ck_data (chunks s' ! c) = ck_data (chunks s ! c) \<and>
       ck_used (chunks s' ! c) = ck_used (chunks s ! c))"
proof -
  obtain n s1 where al: "alloc_chunk s = Some (n, s1)" and ch1: "chained s1 F"
    and fr: "data_frame i F s s1" and ns: "nodes s1 = nodes s"
    and n: "n < length (chunks s1)" "chunks s1 ! n = chunk_new"
    and nF: "\<And>j. n \<notin> set (F j)" and nfl: "n \<notin> set (chunk_free_list s1)"
    and old: "\<And>j c. c \<in> set (F j) \<Longrightarrow> chunks s1 ! c = chunks s ! c"
    using alloc_chunk_correct [OF ch, of i] by blast
  have i: "i < length (nodes s1)" and reg1: "reg_info s1 i h t" using reg ns by (auto simp: reg_info_def)
  have t: "t = tail_of (F i)" and hd: "chain (chunks s1) h (F i)"
    using chainedD(1,2) [OF ch1 reg1] by auto
  define cs where "cs = (if F i = [] then chunks s1
    else (chunks s1)[last (F i) := (chunks s1 ! last (F i))\<lparr>ck_next := Some n\<rparr>])"
  define h' where "h' = (if h = None then Some n else h)"
  define nd where "nd = (nodes s1 ! i)\<lparr>n_info := IReg h' (Some n)\<rparr>"
  let ?s = "s1\<lparr>nodes := (nodes s1)[i := nd], chunks := cs, chunk_free_list := chunk_free_list s1\<rparr>"
  have lastF: "last (F i) < length (chunks s1)" if "F i \<noteq> []"
    using that chained_in_range [OF ch1, of "last (F i)" i] by simp
  have link: "(case t of Some t \<Rightarrow> vec_mod (chunks s1) t (\<lambda>c. c\<lparr>ck_next := Some n\<rparr>)
      | None \<Rightarrow> Some (chunks s1)) = Some cs"
    using lastF by (auto simp: t tail_of_def cs_def)
  have info: "n_info (nodes s1 ! i) = IReg h t" using reg1 by (simp add: reg_info_def)
  have eq: "write_chunk_idx s i None = Some (Inr n, ?s)"
    using link i info by (simp add: write_chunk_idx_def al get_node_def upd_node_def nd_def h'_def)
  have chn: "chain cs h' (F i @ [n])"
  proof (cases "F i = []")
    case True
    with hd have "h = None" by simp
    with True n show ?thesis by (simp add: cs_def h'_def)
  next
    case False
    with hd have "h \<noteq> None" by (cases h) auto
    with False chain_snoc [OF hd False nF n(1)] n(2) show ?thesis by (auto simp: cs_def h'_def)
  qed
  have same: "ck_data (cs ! c) = ck_data (chunks s1 ! c) \<and> ck_used (cs ! c) = ck_used (chunks s1 ! c)" for c
    by (auto simp: cs_def nth_upd)
  have others: "cs ! c = chunks s1 ! c" if "j \<noteq> i" "c \<in> set (F j)" for c j
    using chainedD(3) [OF ch1 that] by (auto simp: cs_def nth_upd)
  have lcs: "length cs = length (chunks s1)" by (simp add: cs_def)
  have "chained ?s (F(i := F i @ [n]))"
  proof (rule chained_F_upd [OF ch1 i, where h = h'])
    show "chain cs h' ((F(i := F i @ [n])) i)" using chn by simp
    show "n_info nd = IReg h' (tail_of ((F(i := F i @ [n])) i))" by (simp add: nd_def tail_of_def)
    show "set ((F(i := F i @ [n])) i) \<inter> set (F j) = {}" if "j \<noteq> i" for j
      using chainedD(3) [OF ch1 that] nF by auto
    show "c < length cs \<and> c \<notin> set ((F(i := F i @ [n])) i) \<and> (\<forall>j. j \<noteq> i \<longrightarrow> c \<notin> set (F j))"
      if "c \<in> set (chunk_free_list s1)" for c
      using that nfl chainedD(4,5) [OF ch1 that] lcs by auto
  qed (use others lcs chainedD(6) [OF ch1] in auto)
  moreover have "data_frame i F s1 ?s"
    using others lcs i by (auto simp: data_frame_def nd_def)
  then have "data_frame i F s ?s" using data_frame_trans [OF fr] by blast
  moreover have "cs ! n = chunk_new"
    using n nF [of i] by (cases "F i = []") (auto simp: cs_def nth_upd)
  moreover have "is_reg ?s i" using i by (auto simp: is_reg_def reg_info_def nd_def)
  moreover have "total_size (nodes ?s ! i) = total_size (nodes s ! i)" using i ns by (simp add: nd_def)
  ultimately show ?thesis using eq same old nF
    by (intro exI [of _ n] exI [of _ ?s]) simp
qed

section \<open>Splicing\<close>

lemma splice_front: "splice_at (a @ x) (length a + p) ys = a @ splice_at x p ys"
  by (simp add: splice_at_def)

lemma splice_end: "splice_at xs (length xs + k) ys = xs @ replicate k 0 @ ys"
  by (simp add: splice_at_def)

lemma splice_Nil: "p \<le> length xs \<Longrightarrow> splice_at xs p [] = xs"
  by (simp add: splice_at_def)

lemma splice_within:
  "p + length ys \<le> length x \<Longrightarrow> splice_at (x @ z) p ys = splice_at x p ys @ z"
  by (simp add: splice_at_def)

lemma splice_across:
  assumes "p + length y = length x"
  shows "splice_at (x @ z) p (y @ y') = splice_at x p y @ splice_at z 0 y'"
proof -
  have "drop (p + length (y @ y')) (x @ z) = drop (length y') z" by (simp add: assms [symmetric])
  with assms show ?thesis by (simp add: splice_at_def)
qed

lemma splice_past:
  "length x \<le> p + length y \<Longrightarrow> splice_at x p (y @ y') = splice_at x p y @ y'"
  by (simp add: splice_at_def)

lemma length_splice: "length (splice_at xs p ys) = max (length xs) (p + length ys)"
  by (auto simp: splice_at_def)

section \<open>Writing one chunk\<close>

lemma write_chunk_correct:
  assumes wf: "wf_chunk c" and lo: "lo + length src \<le> CHUNK_SIZE"
  shows "\<exists>c'. write_chunk c lo src = Some c' \<and> wf_chunk c' \<and> ck_next c' = ck_next c \<and>
    ck_used c' = max (ck_used c) (lo + length src) \<and>
    chunk_bytes c' = splice_at (chunk_bytes c) lo src"
proof (cases "ck_used c < lo")
  case True
  let ?d = "overwrite (ck_data c) (ck_used c) (replicate (lo - ck_used c) 0)"
  let ?c = "c\<lparr>ck_data := overwrite ?d lo src, ck_used := max (ck_used c) (lo + length src)\<rparr>"
  have l: "length ?d = length (ck_data c)" using wf lo True by (simp add: wf_chunk_def)
  then have eq: "write_chunk c lo src = Some ?c"
    using wf lo True by (simp add: write_chunk_def wf_chunk_def)
  have "take lo ?d = take (ck_used c) (ck_data c) @ replicate (lo - ck_used c) 0"
    using wf lo True by (simp add: overwrite_def wf_chunk_def)
  then have "chunk_bytes ?c = splice_at (chunk_bytes c) lo src"
    using wf lo True by (simp add: chunk_bytes_def splice_at_def wf_chunk_def overwrite_def max_def)
  with eq l wf lo show ?thesis by (intro exI [of _ ?c]) (simp add: wf_chunk_def)
next
  case False
  let ?c = "c\<lparr>ck_data := overwrite (ck_data c) lo src, ck_used := max (ck_used c) (lo + length src)\<rparr>"
  have eq: "write_chunk c lo src = Some ?c"
    using wf lo False by (simp add: write_chunk_def wf_chunk_def)
  have "chunk_bytes ?c = splice_at (chunk_bytes c) lo src"
    using wf lo False by (simp add: chunk_bytes_def splice_at_def wf_chunk_def overwrite_def drop_take)
  with eq wf lo show ?thesis by (intro exI [of _ ?c]) (simp add: wf_chunk_def)
qed

lemma file_bytes_upd_notin [simp]:
  "c \<notin> set cs \<Longrightarrow> file_bytes (ch[c := x]) cs = file_bytes ch cs"
  by (rule file_bytes_cong) (auto simp: nth_upd)

lemma packed_upd_notin [simp]:
  "c \<notin> set cs \<Longrightarrow> packed (ch[c := x]) cs \<longleftrightarrow> packed ch cs"
  by (auto elim!: packed_cong simp: nth_upd)

lemma packed_full: "\<forall>c \<in> set cs. full_chunk (ch ! c) \<Longrightarrow> packed ch cs"
  by (induction cs) (auto simp: packed_Cons dest: full_imp_wf)

section \<open>The write loop\<close>

lemma write_loop_done [simp]:
  "length buf \<le> written \<Longrightarrow> write_loop s i buf p lo written = Some (Inr written, s)"
  by (subst write_loop.simps) simp

text \<open>One iteration that copies into chunk \<open>ci\<close>.\<close>

lemma write_loop_step:
  assumes "written < length buf" and "write_chunk_idx s i p = Some (Inr ci, s1)"
    and "ci < length (chunks s1)" and "lo < CHUNK_SIZE"
    and k: "k = min (length buf - written) (CHUNK_SIZE - lo)"
    and "write_chunk (chunks s1 ! ci) lo (take k (drop written buf)) = Some c'"
  shows "write_loop s i buf p lo written =
    write_loop (s1\<lparr>chunks := (chunks s1)[ci := c']\<rparr>) i buf (ck_next c') 0 (written + k)"
proof -
  have "slice_get buf written (written + k) = Some (take k (drop written buf))"
    using assms(1) k by simp
  with assms show ?thesis by (subst write_loop.simps) (simp add: Let_def)
qed

lemma write_loop_skip:
  assumes "written < length buf" and "write_chunk_idx s i p = Some (Inr ci, s1)"
    and "ci < length (chunks s1)" and "CHUNK_SIZE \<le> lo"
  shows "write_loop s i buf p lo written =
    write_loop (s1\<lparr>chunks := (chunks s1)[ci := (chunks s1 ! ci)\<lparr>ck_used := CHUNK_SIZE\<rparr>]\<rparr>) i buf
      (ck_next (chunks s1 ! ci)) (lo - CHUNK_SIZE) written"
  using assms by (subst write_loop.simps) simp

text \<open>
  What the write loop achieves from state \<open>s\<close>: it returns with everything written, the chain of node
  \<open>i\<close> now \<open>cs'\<close> and its contents \<open>bs\<close>.
\<close>

definition loop_result :: "imfs \<Rightarrow> (nat \<Rightarrow> nat list) \<Rightarrow> nat \<Rightarrow> nat \<Rightarrow> byte list \<Rightarrow>
    ((nat + nat) \<times> imfs) option \<Rightarrow> bool" where
  "loop_result s F i len bs r \<longleftrightarrow> (\<exists>cs' s'. r = Some (Inr len, s') \<and> chained s' (F(i := cs')) \<and>
     data_frame i F s s' \<and> is_reg s' i \<and> total_size (nodes s' ! i) = total_size (nodes s ! i) \<and>
     packed (chunks s') cs' \<and> file_bytes (chunks s') cs' = bs)"

lemma loop_result_trans:
  assumes "data_frame i F s s1" and "total_size (nodes s1 ! i) = total_size (nodes s ! i)"
    and "loop_result s1 (F(i := cs1)) i len bs r"
  shows "loop_result s F i len bs r"
proof -
  from assms(3) obtain cs' s' where r: "r = Some (Inr len, s')" "chained s' (F(i := cs'))"
    "data_frame i (F(i := cs1)) s1 s'" "is_reg s' i"
    "total_size (nodes s' ! i) = total_size (nodes s1 ! i)" "packed (chunks s') cs'"
    "file_bytes (chunks s') cs' = bs" by (auto simp: loop_result_def)
  have "data_frame i F s s'" by (rule data_frame_trans [OF assms(1) r(3)]) simp
  with r assms(2) show ?thesis by (auto simp: loop_result_def)
qed

lemma loop_result_done:
  assumes "chained s1 (F(i := cs1))" and "data_frame i F s s1" and "is_reg s1 i"
    and "total_size (nodes s1 ! i) = total_size (nodes s ! i)"
    and "packed (chunks s1) cs1" and "file_bytes (chunks s1) cs1 = bs"
  shows "loop_result s F i len bs (Some (Inr len, s1))"
  using assms by (auto simp: loop_result_def)

text \<open>A new chunk behind a chain of full chunks, given the contents \<open>x\<close>.\<close>

lemma append_new_chunk:
  assumes ch: "chained s F" and reg: "is_reg s i" and full: "\<forall>c \<in> set (F i). full_chunk (chunks s ! c)"
  obtains n s1 where "write_chunk_idx s i None = Some (Inr n, s1)" and "n < length (chunks s1)"
    and "chunks s1 ! n = chunk_new" and "total_size (nodes s1 ! i) = total_size (nodes s ! i)"
    and "\<And>x s'. ck_next x = None \<Longrightarrow> s' = s1\<lparr>chunks := (chunks s1)[n := x]\<rparr> \<Longrightarrow>
      chained s' (F(i := F i @ [n])) \<and> data_frame i F s s' \<and> is_reg s' i \<and>
      (\<forall>c \<in> set (F i). full_chunk (chunks s' ! c)) \<and> chunks s' ! n = x \<and>
      file_bytes (chunks s') (F i) = file_bytes (chunks s) (F i)"
proof -
  obtain h t where "reg_info s i h t" using reg by (auto simp: is_reg_def)
  from write_chunk_idx_new [OF ch this] obtain n s1 where
    idx: "write_chunk_idx s i None = Some (Inr n, s1)" and ch1: "chained s1 (F(i := F i @ [n]))"
    and fr1: "data_frame i F s s1" and reg1: "is_reg s1 i"
    and sz1: "total_size (nodes s1 ! i) = total_size (nodes s ! i)"
    and new: "chunks s1 ! n = chunk_new" and nF: "n \<notin> set (F i)"
    and old: "\<And>c. c \<in> set (F i) \<Longrightarrow> ck_data (chunks s1 ! c) = ck_data (chunks s ! c) \<and>
       ck_used (chunks s1 ! c) = ck_used (chunks s ! c)" by blast
  have nr: "n < length (chunks s1)" using chained_in_range [OF ch1, of n i] by simp
  have oldb: "file_bytes (chunks s1) (F i) = file_bytes (chunks s) (F i)"
    by (rule file_bytes_cong) (simp add: old chunk_bytes_def)
  show thesis
  proof (rule that [OF idx nr new sz1])
    fix x s' assume x: "ck_next x = None" and s': "s' = s1\<lparr>chunks := (chunks s1)[n := x]\<rparr>"
    have "chained s' (F(i := F i @ [n]))"
      unfolding s' using x new by (intro chained_chunk_upd [OF ch1]) simp
    moreover have "data_frame i (F(i := F i @ [n])) s1 s'"
      unfolding s' by (rule data_frame_chunk_upd [OF ch1]) simp
    then have "data_frame i F s s'" by (rule data_frame_trans [OF fr1]) simp
    moreover have "is_reg s' i" using reg1 by (simp add: is_reg_def reg_info_def s')
    moreover have "\<forall>c \<in> set (F i). full_chunk (chunks s' ! c)"
      using full old nF by (auto simp: s' nth_upd full_chunk_def)
    ultimately show "chained s' (F(i := F i @ [n])) \<and> data_frame i F s s' \<and> is_reg s' i \<and>
      (\<forall>c \<in> set (F i). full_chunk (chunks s' ! c)) \<and> chunks s' ! n = x \<and>
      file_bytes (chunks s') (F i) = file_bytes (chunks s) (F i)"
      using nr nF oldb by (simp add: s')
  qed
qed

text \<open>Past the last chunk: every new chunk is appended, a gap is filled with zeros.\<close>

lemma write_loop_append:
  assumes "chained s F" and "is_reg s i" and "\<forall>c \<in> set (F i). full_chunk (chunks s ! c)"
    and "written < length buf"
  shows "loop_result s F i (length buf)
    (file_bytes (chunks s) (F i) @ replicate lo 0 @ drop written buf)
    (write_loop s i buf None lo written)"
  using assms
proof (induction "lo + (length buf - written)" arbitrary: s F lo written rule: less_induct)
  case less
  obtain n s1 where idx: "write_chunk_idx s i None = Some (Inr n, s1)" and nr: "n < length (chunks s1)"
    and new: "chunks s1 ! n = chunk_new" and sz: "total_size (nodes s1 ! i) = total_size (nodes s ! i)"
    and upd: "\<And>x s'. ck_next x = None \<Longrightarrow> s' = s1\<lparr>chunks := (chunks s1)[n := x]\<rparr> \<Longrightarrow>
      chained s' (F(i := F i @ [n])) \<and> data_frame i F s s' \<and> is_reg s' i \<and>
      (\<forall>c \<in> set (F i). full_chunk (chunks s' ! c)) \<and> chunks s' ! n = x \<and>
      file_bytes (chunks s') (F i) = file_bytes (chunks s) (F i)"
    using append_new_chunk [OF less.prems(1-3)] by blast
  have rec: "loop_result s' (F(i := F i @ [n])) i (length buf)
      (file_bytes (chunks s) (F i) @ chunk_bytes x @ replicate lo' 0 @ drop written' buf)
      (write_loop s' i buf None lo' written')"
    if "s' = s1\<lparr>chunks := (chunks s1)[n := x]\<rparr>" "ck_next x = None" "full_chunk x"
      "lo' + (length buf - written') < lo + (length buf - written)" "written' < length buf"
    for s' x lo' written'
    using upd [OF that(2,1)] that(3-5) less.hyps [of lo' written' s' "F(i := F i @ [n])"] by simp
  show ?case
  proof (cases "lo < CHUNK_SIZE")
    case False
    define x where "x = chunk_new\<lparr>ck_used := CHUNK_SIZE\<rparr>"
    define s' where "s' = s1\<lparr>chunks := (chunks s1)[n := x]\<rparr>"
    have x: "ck_next x = None" "full_chunk x" "chunk_bytes x = replicate CHUNK_SIZE 0"
      by (simp_all add: x_def full_chunk_def chunk_bytes_def)
    have step: "write_loop s i buf None lo written = write_loop s' i buf None (lo - CHUNK_SIZE) written"
      using write_loop_skip [OF less.prems(4) idx nr] False new by (simp add: s'_def x_def)
    have "replicate CHUNK_SIZE 0 @ replicate (lo - CHUNK_SIZE) 0 = replicate lo (0 :: byte)"
      using False by (simp add: replicate_add [symmetric])
    then have zeros: "chunk_bytes x @ replicate (lo - CHUNK_SIZE) 0 @ zs = replicate lo 0 @ zs" for zs
      by (simp add: x(3) flip: append_assoc)
    have "lo - CHUNK_SIZE < lo" using False by (simp add: CHUNK_SIZE_def)
    then have "lo - CHUNK_SIZE + (length buf - written) < lo + (length buf - written)" by linarith
    from rec [OF s'_def x(1,2) this less.prems(4)] have r: "loop_result s' (F(i := F i @ [n])) i (length buf)
        (file_bytes (chunks s) (F i) @ replicate lo 0 @ drop written buf)
        (write_loop s i buf None lo written)" by (simp only: step zeros)
    show ?thesis
      by (rule loop_result_trans [OF _ _ r]) (use upd [OF x(1) s'_def] sz in \<open>simp_all add: s'_def\<close>)
  next
    case True
    define k where "k = min (length buf - written) (CHUNK_SIZE - lo)"
    define src where "src = take k (drop written buf)"
    have k: "length src = k" "0 < k" "lo + k \<le> CHUNK_SIZE"
      using less.prems(4) True by (auto simp: k_def src_def)
    obtain x where x: "write_chunk (chunks s1 ! n) lo src = Some x" "wf_chunk x"
      "ck_next x = None" "ck_used x = lo + k" "chunk_bytes x = replicate lo 0 @ src"
      using write_chunk_correct [of chunk_new lo src] new k splice_end [of "[]" lo src]
      by (auto simp: chunk_bytes_def wf_chunk_def)
    define s' where "s' = s1\<lparr>chunks := (chunks s1)[n := x]\<rparr>"
    note u = upd [OF x(3) s'_def]
    have step: "write_loop s i buf None lo written = write_loop s' i buf None 0 (written + k)"
      using write_loop_step [OF less.prems(4) idx nr True k_def] x(1,3) by (simp add: src_def s'_def)
    have rest: "src @ drop (written + k) buf = drop written buf"
      unfolding src_def by (rule take_drop_append)
    show ?thesis
    proof (cases "written + k < length buf")
      case False
      then have wk: "written + k = length buf" using less.prems(4) by (simp add: k_def)
      have "packed (chunks s') (F i @ [n])"
        using u x(2,4) k(2) by (simp add: packed_append packed_full)
      with u x(5) sz wk rest have "loop_result s F i (length buf)
          (file_bytes (chunks s) (F i) @ replicate lo 0 @ drop written buf) (Some (Inr (length buf), s'))"
        by (intro loop_result_done [where ?cs1.0 = "F i @ [n]"]) (simp_all add: s'_def)
      with wk step show ?thesis by simp
    next
      case more: True
      then have "full_chunk x" using True x(2,4) by (simp add: k_def min_def full_chunk_def wf_chunk_def split: if_splits)
      from rec [OF s'_def x(3) this, of 0 "written + k"] more k(2)
      have "loop_result s' (F(i := F i @ [n])) i (length buf)
          (file_bytes (chunks s) (F i) @ replicate lo 0 @ src @ drop (written + k) buf)
          (write_loop s' i buf None 0 (written + k))" by (simp add: x(5))
      then have r: "loop_result s' (F(i := F i @ [n])) i (length buf)
          (file_bytes (chunks s) (F i) @ replicate lo 0 @ drop written buf)
          (write_loop s i buf None lo written)" by (simp only: step rest)
      show ?thesis by (rule loop_result_trans [OF _ _ r]) (use u sz in \<open>simp_all add: s'_def\<close>)
    qed
  qed
qed

text \<open>Changing the contents of a chunk in the middle of the chain of node \<open>i\<close>.\<close>

lemma modify_chunk:
  assumes ch: "chained s F" and reg: "is_reg s i" and Fi: "F i = pre @ c # post"
    and nx: "ck_next x = ck_next (chunks s ! c)" and s': "s' = s\<lparr>chunks := (chunks s)[c := x]\<rparr>"
  shows "chained s' F \<and> data_frame i F s s' \<and> is_reg s' i \<and> chunks s' ! c = x \<and>
    nodes s' = nodes s \<and> file_bytes (chunks s') pre = file_bytes (chunks s) pre \<and>
    file_bytes (chunks s') post = file_bytes (chunks s) post \<and>
    (packed (chunks s) (F i) \<longrightarrow> wf_chunk x \<longrightarrow> ck_used (chunks s ! c) \<le> ck_used x \<longrightarrow>
       packed (chunks s') (F i))"
proof -
  have c: "c \<in> set (F i)" "c < length (chunks s)"
    using Fi chained_in_range [OF ch, of c i] by auto
  have notin: "c \<notin> set pre" "c \<notin> set post" using chained_distinct [OF ch, of i] Fi by auto
  have "\<forall>d \<in> set pre. (chunks s)[c := x] ! d = chunks s ! d" using notin by (auto simp: nth_upd)
  then have pk: "packed (chunks s') (F i)"
    if "packed (chunks s) (F i)" "wf_chunk x" "ck_used (chunks s ! c) \<le> ck_used x"
    using that c notin unfolding s' Fi by (auto simp: packed_append packed_Cons full_chunk_def wf_chunk_def)
  show ?thesis
    using chained_chunk_upd [OF ch nx] data_frame_chunk_upd [OF ch c(1)] reg c notin pk
    by (simp add: s' is_reg_def reg_info_def)
qed

lemma chained_next:
  assumes "chained s F" and "F i = pre @ c # post"
  shows "ck_next (chunks s ! c) = (case post of [] \<Rightarrow> None | d # _ \<Rightarrow> Some d)"
proof -
  have "is_reg s i" using assms chainedD(7) by fastforce
  then obtain h t where "reg_info s i h t" by (auto simp: is_reg_def)
  then have "chain (chunks s) h (pre @ c # post)" using chainedD(1) assms by fastforce
  then have "chain (chunks s) (ck_next (chunks s ! c)) post" using chain_append by fastforce
  then show ?thesis by (cases post) auto
qed

text \<open>One iteration inside the chain.\<close>

lemma write_loop_over_step:
  assumes ch: "chained s F" and reg: "is_reg s i" and Fi: "F i = pre @ c # post"
    and pk: "packed (chunks s) (F i)" and lo: "lo < CHUNK_SIZE" and wr: "written < length buf"
    and k: "k = min (length buf - written) (CHUNK_SIZE - lo)"
  obtains s' where
    "write_loop s i buf (Some c) lo written =
       write_loop s' i buf (ck_next (chunks s ! c)) 0 (written + k)"
    and "chained s' F" and "data_frame i F s s'" and "is_reg s' i" and "nodes s' = nodes s"
    and "packed (chunks s') (F i)" and "lo + k \<le> ck_used (chunks s' ! c)"
    and "file_bytes (chunks s') (F i) = file_bytes (chunks s) pre @
      splice_at (chunk_bytes (chunks s ! c)) lo (take k (drop written buf)) @ file_bytes (chunks s) post"
proof -
  have len: "length (take k (drop written buf)) = k" "lo + k \<le> CHUNK_SIZE" using wr lo k by auto
  have wf: "wf_chunk (chunks s ! c)" using pk Fi by (simp add: packed_append packed_Cons)
  obtain x where x: "write_chunk (chunks s ! c) lo (take k (drop written buf)) = Some x" "wf_chunk x"
    "ck_next x = ck_next (chunks s ! c)" "ck_used x = max (ck_used (chunks s ! c)) (lo + k)"
    "chunk_bytes x = splice_at (chunk_bytes (chunks s ! c)) lo (take k (drop written buf))"
    using write_chunk_correct [OF wf, of lo "take k (drop written buf)"] len by auto
  define s' where "s' = s\<lparr>chunks := (chunks s)[c := x]\<rparr>"
  note m = modify_chunk [OF ch reg Fi x(3) s'_def]
  have "c < length (chunks s)" using chained_in_range [OF ch, of c i] Fi by simp
  then have "write_loop s i buf (Some c) lo written =
      write_loop s' i buf (ck_next (chunks s ! c)) 0 (written + k)"
    using write_loop_step [OF wr, of s i "Some c" c s lo k x] lo k x(1,3)
    by (simp add: write_chunk_idx_def s'_def)
  with m pk x show thesis by (intro that [of s']) (auto simp: Fi)
qed

text \<open>Splicing within one chunk of a packed chain, and across it into the rest.\<close>

lemma splice_chunk_done:
  assumes "packed ch (pre @ c # post)" and "lo + length ys \<le> CHUNK_SIZE"
  shows "splice_at (file_bytes ch (pre @ c # post)) (CHUNK_SIZE * length pre + lo) ys =
    file_bytes ch pre @ splice_at (chunk_bytes (ch ! c)) lo ys @ file_bytes ch post"
proof -
  have "length (file_bytes ch pre) = CHUNK_SIZE * length pre"
    using assms(1) by (intro length_full_bytes) (simp add: packed_append)
  then have "splice_at (file_bytes ch (pre @ c # post)) (CHUNK_SIZE * length pre + lo) ys =
      file_bytes ch pre @ splice_at (chunk_bytes (ch ! c) @ file_bytes ch post) lo ys"
    using splice_front [of "file_bytes ch pre"] by simp
  moreover have "splice_at (chunk_bytes (ch ! c) @ file_bytes ch post) lo ys =
      splice_at (chunk_bytes (ch ! c)) lo ys @ file_bytes ch post"
    using assms by (cases "post = []")
      (auto intro!: splice_within simp: packed_append packed_Cons full_chunk_def)
  ultimately show ?thesis by simp
qed

lemma splice_chunk_more:
  assumes "packed ch (pre @ c # post)" and "lo + length ys = CHUNK_SIZE" and "lo < CHUNK_SIZE"
  shows "splice_at (file_bytes ch (pre @ c # post)) (CHUNK_SIZE * length pre + lo) (ys @ zs) =
    file_bytes ch pre @ splice_at (chunk_bytes (ch ! c)) lo ys @ splice_at (file_bytes ch post) 0 zs"
proof -
  have "length (file_bytes ch pre) = CHUNK_SIZE * length pre"
    using assms(1) by (intro length_full_bytes) (simp add: packed_append)
  then have "splice_at (file_bytes ch (pre @ c # post)) (CHUNK_SIZE * length pre + lo) (ys @ zs) =
      file_bytes ch pre @ splice_at (chunk_bytes (ch ! c) @ file_bytes ch post) lo (ys @ zs)"
    using splice_front [of "file_bytes ch pre"] by simp
  moreover have "splice_at (chunk_bytes (ch ! c) @ file_bytes ch post) lo (ys @ zs) =
      splice_at (chunk_bytes (ch ! c)) lo ys @ splice_at (file_bytes ch post) 0 zs"
  proof (cases "post = []")
    case True
    have "splice_at [] 0 zs = zs" by (simp add: splice_at_def)
    with True assms show ?thesis
      using splice_past [of "chunk_bytes (ch ! c)" lo ys zs]
      by (simp add: packed_append packed_Cons wf_chunk_def)
  next
    case False
    with assms show ?thesis
      by (intro splice_across) (simp add: packed_append packed_Cons full_chunk_def)
  qed
  ultimately show ?thesis by simp
qed

lemma write_loop_over_done:
  assumes ch: "chained s F" and reg: "is_reg s i" and Fi: "F i = pre @ c # post"
    and pk: "packed (chunks s) (F i)" and lo: "lo < CHUNK_SIZE" and wr: "written < length buf"
    and fits: "lo + (length buf - written) \<le> CHUNK_SIZE"
  shows "loop_result s F i (length buf)
    (splice_at (file_bytes (chunks s) (F i)) (CHUNK_SIZE * length pre + lo) (drop written buf))
    (write_loop s i buf (Some c) lo written)"
proof -
  define k where "k = min (length buf - written) (CHUNK_SIZE - lo)"
  have k: "k = length buf - written" using fits by (simp add: k_def)
  obtain s' where step: "write_loop s i buf (Some c) lo written =
      write_loop s' i buf (ck_next (chunks s ! c)) 0 (written + k)"
    and s': "chained s' F" "data_frame i F s s'" "is_reg s' i" "nodes s' = nodes s"
      "packed (chunks s') (F i)"
      "file_bytes (chunks s') (F i) = file_bytes (chunks s) pre @
         splice_at (chunk_bytes (chunks s ! c)) lo (take k (drop written buf)) @ file_bytes (chunks s) post"
    using write_loop_over_step [OF ch reg Fi pk lo wr k_def] by metis
  have "splice_at (file_bytes (chunks s) (F i)) (CHUNK_SIZE * length pre + lo) (drop written buf) =
      file_bytes (chunks s') (F i)"
    using splice_chunk_done [OF pk [unfolded Fi], of lo "drop written buf"] fits s'(6) Fi k by simp
  moreover have "loop_result s F i (length buf) (file_bytes (chunks s') (F i)) (Some (Inr (length buf), s'))"
    using s' by (intro loop_result_done [where ?cs1.0 = "F i"]) simp_all
  ultimately show ?thesis using step wr k by simp
qed

text \<open>Inside the chain: the bytes are spliced into the existing chunks.\<close>

lemma write_loop_over:
  assumes "chained s F" and "is_reg s i" and "F i = pre @ c # post"
    and "packed (chunks s) (F i)" and "lo < CHUNK_SIZE" and "written < length buf"
  shows "loop_result s F i (length buf)
    (splice_at (file_bytes (chunks s) (F i)) (CHUNK_SIZE * length pre + lo) (drop written buf))
    (write_loop s i buf (Some c) lo written)"
  using assms
proof (induction post arbitrary: s pre c lo written)
  case (Nil s pre c lo written)
  show ?case
  proof (cases "lo + (length buf - written) \<le> CHUNK_SIZE")
    case True
    from write_loop_over_done [OF Nil this] show ?thesis .
  next
    case False
    define k where "k = min (length buf - written) (CHUNK_SIZE - lo)"
    define src where "src = take k (drop written buf)"
    define rest where "rest = drop (written + k) buf"
    have k: "lo + length src = CHUNK_SIZE" "written + k < length buf"
      using False Nil(5) by (auto simp: k_def src_def)
    have sr: "drop written buf = src @ rest" by (simp add: src_def rest_def take_drop_append)
    obtain s' where step: "write_loop s i buf (Some c) lo written = write_loop s' i buf None 0 (written + k)"
      and s': "chained s' F" "data_frame i F s s'" "is_reg s' i" "nodes s' = nodes s"
        "packed (chunks s') (F i)" "lo + k \<le> ck_used (chunks s' ! c)"
        "file_bytes (chunks s') (F i) = file_bytes (chunks s) pre @ splice_at (chunk_bytes (chunks s ! c)) lo src"
      using write_loop_over_step [OF Nil k_def] chained_next [OF Nil(1,3)] by (auto simp: src_def)
    have "length src \<le> k" by (simp add: src_def)
    then have "\<forall>c \<in> set (F i). full_chunk (chunks s' ! c)"
      using s'(5,6) Nil(3) k(1) by (auto simp: packed_append packed_Cons full_chunk_def wf_chunk_def)
    then have "loop_result s' F i (length buf) (file_bytes (chunks s') (F i) @ rest)
        (write_loop s' i buf None 0 (written + k))"
      using write_loop_append [OF s'(1,3) _ k(2), of 0] by (simp add: rest_def)
    moreover have "file_bytes (chunks s') (F i) @ rest =
        splice_at (file_bytes (chunks s) (F i)) (CHUNK_SIZE * length pre + lo) (src @ rest)"
      using splice_chunk_more [OF Nil(4) [unfolded Nil(3)] k(1) Nil(5), of rest] s'(7) Nil(3)
      by (simp add: splice_at_def)
    ultimately show ?thesis unfolding step sr
      using s' by (intro loop_result_trans [of i F s s' "F i"]) simp_all
  qed
next
  case (Cons d post s pre c lo written)
  note prems = Cons.prems
  show ?case
  proof (cases "lo + (length buf - written) \<le> CHUNK_SIZE")
    case True
    from write_loop_over_done [OF prems this] show ?thesis .
  next
    case False
    define k where "k = min (length buf - written) (CHUNK_SIZE - lo)"
    define src where "src = take k (drop written buf)"
    define rest where "rest = drop (written + k) buf"
    have k: "lo + length src = CHUNK_SIZE" "written + k < length buf"
      using False prems(5) by (auto simp: k_def src_def)
    have sr: "drop written buf = src @ rest" by (simp add: src_def rest_def take_drop_append)
    let ?x = "splice_at (chunk_bytes (chunks s ! c)) lo src"
    obtain s' where step: "write_loop s i buf (Some c) lo written = write_loop s' i buf (Some d) 0 (written + k)"
      and s': "chained s' F" "data_frame i F s s'" "is_reg s' i" "nodes s' = nodes s"
        "packed (chunks s') (F i)"
        "file_bytes (chunks s') (F i) = file_bytes (chunks s) pre @ ?x @ file_bytes (chunks s) (d # post)"
      using write_loop_over_step [OF prems k_def] chained_next [OF prems(1,3)] by (auto simp: src_def)
    have pre_len: "length (file_bytes (chunks s) pre @ ?x) = CHUNK_SIZE * length (pre @ [c])"
    proof -
      have "length (file_bytes (chunks s) pre) = CHUNK_SIZE * length pre"
        using prems(3,4) by (intro length_full_bytes) (simp add: packed_append)
      moreover have "length (chunk_bytes (chunks s ! c)) = CHUNK_SIZE"
        using prems(3,4) by (simp add: packed_append packed_Cons full_chunk_def)
      ultimately show ?thesis using k(1) by (simp add: length_splice)
    qed
    have "F i = (pre @ [c]) @ d # post" using prems(3) by simp
    from Cons.IH [OF s'(1,3) this s'(5) CHUNK_SIZE_pos k(2)]
    have "loop_result s' F i (length buf)
        (splice_at (file_bytes (chunks s') (F i)) (CHUNK_SIZE * length (pre @ [c])) rest)
        (write_loop s' i buf (Some d) 0 (written + k))" by (simp add: rest_def)
    moreover have "splice_at (file_bytes (chunks s') (F i)) (CHUNK_SIZE * length (pre @ [c])) rest =
        splice_at (file_bytes (chunks s) (F i)) (CHUNK_SIZE * length pre + lo) (src @ rest)"
      (is "?l = ?r")
    proof -
      have "?l = splice_at ((file_bytes (chunks s) pre @ ?x) @ file_bytes (chunks s) (d # post))
          (CHUNK_SIZE * length (pre @ [c])) rest" by (simp only: s'(6) append_assoc)
      also have "\<dots> = (file_bytes (chunks s) pre @ ?x) @ splice_at (file_bytes (chunks s) (d # post)) 0 rest"
        using splice_front [of "file_bytes (chunks s) pre @ ?x" "file_bytes (chunks s) (d # post)" 0 rest]
        by (simp only: pre_len add_0_right)
      also have "\<dots> = ?r"
        using splice_chunk_more [OF prems(4) [unfolded prems(3)] k(1) prems(5), of rest]
        by (simp only: prems(3) append_assoc)
      finally show ?thesis .
    qed
    ultimately show ?thesis unfolding step sr
      using s' by (intro loop_result_trans [of i F s s' "F i"]) simp_all
  qed
qed

end
