(* ===== verification/Imfs_Rw.thy ===== *)
theory Imfs_Rw
  imports Imfs_Store
begin

text \<open>
  The contents operations of IMFS as operations on byte sequences: what \<open>write_to_node\<close>,
  \<open>read_from_node\<close>, \<open>truncate_node\<close> and \<open>reclaim_chunk_chain\<close> do to the
  \<open>contents\<close> of a file under the storage invariant.
\<close>

section \<open>The contents of a file as a function of the state\<close>

text \<open>Walking a chain, with the size of the arena as fuel: a chain never visits a chunk twice.\<close>

fun walk :: "nat \<Rightarrow> chunk list \<Rightarrow> nat option \<Rightarrow> nat list" where
  "walk 0 ch p = []"
| "walk (Suc n) ch None = []"
| "walk (Suc n) ch (Some c) = (if c < length ch then c # walk n ch (ck_next (ch ! c)) else [])"

definition file_chain :: "imfs \<Rightarrow> nat \<Rightarrow> nat list" where
  "file_chain s i = (if i < length (nodes s)
     then (case n_info (nodes s ! i) of IReg h t \<Rightarrow> walk (length (chunks s)) (chunks s) h | _ \<Rightarrow> [])
     else [])"

definition storage_inv :: "imfs \<Rightarrow> bool" where
  "storage_inv s \<longleftrightarrow> storage_ok s (file_chain s)"

definition contents :: "imfs \<Rightarrow> nat \<Rightarrow> byte list" where
  "contents s i = file_bytes (chunks s) (file_chain s i)"

lemma walk_None [simp]: "walk n ch None = []"
  by (cases n) auto

lemma walk_chain: "chain ch p cs \<Longrightarrow> length cs \<le> n \<Longrightarrow> walk n ch p = cs"
proof (induction cs arbitrary: p n)
  case (Cons c cs)
  then show ?case by (cases n) auto
qed simp

lemma chain_length: "chain ch p cs \<Longrightarrow> length cs \<le> length ch"
proof -
  assume ch: "chain ch p cs"
  have "set cs \<subseteq> {..<length ch}" using chain_in_range [OF ch] by auto
  then have "card (set cs) \<le> length ch" using card_mono [of "{..<length ch}"] by force
  then show ?thesis by (simp add: distinct_card [OF chain_distinct [OF ch]])
qed

lemma chained_file_chain: "chained s F \<Longrightarrow> F = file_chain s"
proof
  fix i assume ch: "chained s F"
  show "F i = file_chain s i"
  proof (cases "is_reg s i")
    case True
    then obtain h t where r: "reg_info s i h t" by (auto simp: is_reg_def)
    with chainedD(1) [OF ch r] show ?thesis
      by (simp add: file_chain_def reg_info_def walk_chain chain_length)
  next
    case False
    with chainedD(7) [OF ch] show ?thesis
      by (auto simp: file_chain_def is_reg_def reg_info_def split: node_info.splits)
  qed
qed

lemma storage_okD:
  assumes "storage_ok s F"
  shows "F = file_chain s" and "storage_inv s" and "contents s i = file_bytes (chunks s) (F i)"
proof -
  show F: "F = file_chain s" using assms chained_file_chain by (simp add: storage_ok_def)
  with assms show "storage_inv s" by (simp add: storage_inv_def)
  from F show "contents s i = file_bytes (chunks s) (F i)" by (simp add: contents_def)
qed

lemma storage_invD:
  assumes "storage_inv s"
  shows "chained s (file_chain s)"
    and "is_reg s i \<Longrightarrow> packed (chunks s) (file_chain s i)"
    and "is_reg s i \<Longrightarrow> total_size (nodes s ! i) = length (contents s i)"
  using assms by (simp_all add: storage_inv_def storage_ok_def contents_def)

text \<open>A change to node \<open>i\<close> within its frame re-establishes the invariant if node \<open>i\<close> is in order,
  and no other file changes.\<close>

lemma storage_step:
  assumes inv: "storage_inv s" and ch: "chained s' ((file_chain s)(i := cs'))"
    and fr: "data_frame i (file_chain s) s s'"
    and new: "is_reg s' i \<Longrightarrow> packed (chunks s') cs' \<and> total_size (nodes s' ! i) = length (file_bytes (chunks s') cs')"
  shows "storage_inv s'" and "contents s' i = file_bytes (chunks s') cs'"
    and "j \<noteq> i \<Longrightarrow> contents s' j = contents s j"
proof -
  have F: "file_chain s' = (file_chain s)(i := cs')" using chained_file_chain [OF ch] by simp
  show "contents s' i = file_bytes (chunks s') cs'" by (simp add: contents_def F)
  have oth: "contents s' j = contents s j" if "j \<noteq> i" for j
  proof -
    have "file_bytes (chunks s') (file_chain s j) = file_bytes (chunks s) (file_chain s j)"
      using fr that by (intro file_bytes_cong) (simp add: data_frame_def)
    with that show ?thesis by (simp add: contents_def F)
  qed
  then show "j \<noteq> i \<Longrightarrow> contents s' j = contents s j" .
  have "packed (chunks s') (file_chain s' j) \<and>
      total_size (nodes s' ! j) = length (file_bytes (chunks s') (file_chain s' j))"
    if r: "is_reg s' j" for j
  proof (cases "j = i")
    case True
    with new r show ?thesis by (simp add: F)
  next
    case False
    with fr r have "is_reg s j" and n: "nodes s' ! j = nodes s ! j"
      by (auto simp: is_reg_def reg_info_def data_frame_def)
    with storage_invD(2,3) [OF inv, of j] oth [OF False] False fr show ?thesis
      by (auto simp: F n contents_def data_frame_def elim!: packed_cong)
  qed
  with ch show "storage_inv s'" by (simp add: storage_inv_def storage_ok_def F)
qed

section \<open>Skipping to the write offset\<close>

lemma write_skip_unfold:
  "write_skip ch None off = Some (ch, None, off)"
  "off < CHUNK_SIZE \<Longrightarrow> write_skip ch (Some c) off = Some (ch, Some c, off)"
  "CHUNK_SIZE \<le> off \<Longrightarrow> c < length ch \<Longrightarrow>
     write_skip ch (Some c) off =
       write_skip (ch[c := (ch ! c)\<lparr>ck_used := CHUNK_SIZE\<rparr>]) (ck_next (ch ! c)) (off - CHUNK_SIZE)"
  by (subst write_skip.simps, simp)+

lemma full_chunk_set_used: "full_chunk c \<Longrightarrow> c\<lparr>ck_used := CHUNK_SIZE\<rparr> = c"
  by (simp add: full_chunk_def)

lemma write_skip_inside:
  assumes "chain ch p cs" and "packed ch cs" and "off < CHUNK_SIZE * length cs"
  shows "\<exists>pre c post. cs = pre @ c # post \<and> CHUNK_SIZE * length pre \<le> off \<and>
    off < CHUNK_SIZE * length pre + CHUNK_SIZE \<and>
    write_skip ch p off = Some (ch, Some c, off - CHUNK_SIZE * length pre)"
  using assms
proof (induction cs arbitrary: p off)
  case (Cons c cs)
  show ?case
  proof (cases "off < CHUNK_SIZE")
    case True
    with Cons.prems show ?thesis
      by (intro exI [of _ "[]"] exI [of _ c] exI [of _ cs]) (simp add: write_skip_unfold)
  next
    case False
    with Cons.prems(3) have "cs \<noteq> []" by auto
    with Cons.prems(2) have "full_chunk (ch ! c)" by (simp add: packed_Cons)
    then have step: "write_skip ch p off = write_skip ch (ck_next (ch ! c)) (off - CHUNK_SIZE)"
      using False Cons.prems(1) by (simp add: write_skip_unfold full_chunk_set_used)
    have "off - CHUNK_SIZE < CHUNK_SIZE * length cs" using Cons.prems(3) False by simp
    then obtain pre d post where "cs = pre @ d # post" "CHUNK_SIZE * length pre \<le> off - CHUNK_SIZE"
      "off - CHUNK_SIZE < CHUNK_SIZE * length pre + CHUNK_SIZE"
      "write_skip ch (ck_next (ch ! c)) (off - CHUNK_SIZE) =
         Some (ch, Some d, off - CHUNK_SIZE - CHUNK_SIZE * length pre)"
      using Cons.IH [of "ck_next (ch ! c)" "off - CHUNK_SIZE"] Cons.prems False
      by (auto simp: packed_Cons)
    with step False have "c # cs = (c # pre) @ d # post \<and> CHUNK_SIZE * length (c # pre) \<le> off \<and>
        off < CHUNK_SIZE * length (c # pre) + CHUNK_SIZE \<and>
        write_skip ch p off = Some (ch, Some d, off - CHUNK_SIZE * length (c # pre))" by auto
    then show ?thesis by blast
  qed
qed simp

text \<open>The unused bytes of the last chunk, and the arena after the skip loop has passed the end.\<close>

definition slack :: "chunk list \<Rightarrow> nat list \<Rightarrow> byte list" where
  "slack ch cs = (if cs = [] then [] else drop (ck_used (ch ! last cs)) (ck_data (ch ! last cs)))"

definition fill_last :: "chunk list \<Rightarrow> nat list \<Rightarrow> chunk list" where
  "fill_last ch cs = (if cs = [] then ch else ch[last cs := (ch ! last cs)\<lparr>ck_used := CHUNK_SIZE\<rparr>])"

lemma write_skip_outside:
  assumes "chain ch p cs" and "packed ch cs" and "CHUNK_SIZE * length cs \<le> off"
  shows "write_skip ch p off = Some (fill_last ch cs, None, off - CHUNK_SIZE * length cs)"
  using assms
proof (induction cs arbitrary: p off)
  case Nil
  then show ?case by (simp add: write_skip_unfold fill_last_def)
next
  case (Cons c cs)
  have p: "p = Some c" "c < length ch" using Cons.prems by auto
  show ?case
  proof (cases "cs = []")
    case True
    with Cons.prems p show ?thesis by (simp add: write_skip_unfold fill_last_def)
  next
    case False
    with Cons.prems(2) have "full_chunk (ch ! c)" by (simp add: packed_Cons)
    then have "write_skip ch p off = write_skip ch (ck_next (ch ! c)) (off - CHUNK_SIZE)"
      using p Cons.prems(3) by (simp add: write_skip_unfold full_chunk_set_used)
    moreover have "write_skip ch (ck_next (ch ! c)) (off - CHUNK_SIZE) =
        Some (fill_last ch cs, None, off - CHUNK_SIZE - CHUNK_SIZE * length cs)"
      using Cons.IH [of "ck_next (ch ! c)" "off - CHUNK_SIZE"] Cons.prems by (simp add: packed_Cons)
    ultimately show ?thesis using False by (simp add: fill_last_def)
  qed
qed

lemma length_packed:
  "packed ch cs \<Longrightarrow> length (file_bytes ch cs) \<le> CHUNK_SIZE * length cs"
  by (induction cs) (auto simp: packed_Cons wf_chunk_def)

lemma fill_last_full:
  assumes "chain ch p cs" and "packed ch cs"
  shows "\<forall>c \<in> set cs. full_chunk (fill_last ch cs ! c)"
    and "file_bytes (fill_last ch cs) cs = file_bytes ch cs @ slack ch cs"
    and "length (file_bytes ch cs @ slack ch cs) = CHUNK_SIZE * length cs"
proof -
  show full: "\<forall>c \<in> set cs. full_chunk (fill_last ch cs ! c)"
  proof (cases cs rule: rev_cases)
    case (snoc pre c)
    with assms show ?thesis using chain_in_range [OF assms(1), of c]
      by (auto simp: fill_last_def nth_upd packed_append packed_Cons wf_chunk_def full_chunk_def)
  qed simp
  show eq: "file_bytes (fill_last ch cs) cs = file_bytes ch cs @ slack ch cs"
  proof (cases cs rule: rev_cases)
    case (snoc pre c)
    then have "c \<notin> set pre" "c < length ch" "wf_chunk (ch ! c)"
      using assms chain_distinct [OF assms(1)] chain_in_range [OF assms(1), of c]
      by (auto simp: packed_append packed_Cons)
    with snoc show ?thesis by (simp add: fill_last_def slack_def chunk_bytes_def wf_chunk_def)
  qed (simp add: slack_def)
  from length_full_bytes [OF full] eq
  show "length (file_bytes ch cs @ slack ch cs) = CHUNK_SIZE * length cs" by simp
qed

section \<open>Writing\<close>

text \<open>What the write sees behind the end of the file: the slack bytes when the offset lies beyond
  the last chunk, nothing otherwise.\<close>

definition exposed :: "imfs \<Rightarrow> nat \<Rightarrow> nat \<Rightarrow> byte list" where
  "exposed s i off = (if CHUNK_SIZE * length (file_chain s i) \<le> off
     then slack (chunks s) (file_chain s i) else [])"

lemma fill_last_frame:
  assumes ch: "chained s F" and reg: "is_reg s i"
  shows "chained (s\<lparr>chunks := fill_last (chunks s) (F i)\<rparr>) F"
    and "data_frame i F s (s\<lparr>chunks := fill_last (chunks s) (F i)\<rparr>)"
proof -
  have last: "last (F i) \<in> set (F i)" if "F i \<noteq> []" using that by simp
  show "chained (s\<lparr>chunks := fill_last (chunks s) (F i)\<rparr>) F"
    using ch chained_chunk_upd [OF ch] by (simp add: fill_last_def)
  show "data_frame i F s (s\<lparr>chunks := fill_last (chunks s) (F i)\<rparr>)"
    using data_frame_chunk_upd [OF ch last] by (auto simp: fill_last_def)
qed

lemma write_skip_loop:
  assumes inv: "storage_inv s" and r: "reg_info s i h t" and buf: "buf \<noteq> []"
  shows "\<exists>cs p lo. write_skip (chunks s) h off = Some (cs, p, lo) \<and>
    loop_result s (file_chain s) i (length buf) (splice_at (contents s i @ exposed s i off) off buf)
      (write_loop (s\<lparr>chunks := cs\<rparr>) i buf p lo 0)"
proof -
  let ?F = "file_chain s" and ?ch = "chunks s"
  have reg: "is_reg s i" using r by (rule is_regI)
  note D = storage_invD [OF inv]
  have c: "chain ?ch h (?F i)" and pk: "packed ?ch (?F i)"
    using chainedD(1) [OF D(1) r] D(2) [OF reg] by auto
  have wr: "0 < length buf" using buf by simp
  show ?thesis
  proof (cases "off < CHUNK_SIZE * length (?F i)")
    case True
    from write_skip_inside [OF c pk True] obtain pre d post where
      "?F i = pre @ d # post" and sk: "write_skip ?ch h off = Some (?ch, Some d, off - CHUNK_SIZE * length pre)"
      and o: "CHUNK_SIZE * length pre \<le> off" "off < CHUNK_SIZE * length pre + CHUNK_SIZE" by blast
    from write_loop_over [OF D(1) reg this(1) pk _ wr, of "off - CHUNK_SIZE * length pre"] o True
    show ?thesis by (simp add: sk exposed_def contents_def)
  next
    case False
    let ?s = "s\<lparr>chunks := fill_last ?ch (?F i)\<rparr>" and ?lo = "off - CHUNK_SIZE * length (?F i)"
    note fr = fill_last_frame [OF D(1) reg] and fl = fill_last_full [OF c pk]
    have "is_reg ?s i" using reg by (simp add: is_reg_def reg_info_def)
    from write_loop_append [OF fr(1) this _ wr, of ?lo] fl(1)
    have "loop_result ?s ?F i (length buf) (file_bytes (chunks ?s) (?F i) @ replicate ?lo 0 @ buf)
        (write_loop ?s i buf None ?lo 0)" by simp
    moreover have "file_bytes (chunks ?s) (?F i) @ replicate ?lo 0 @ buf =
        splice_at (contents s i @ exposed s i off) off buf"
      using splice_end [of "file_bytes ?ch (?F i) @ slack ?ch (?F i)" ?lo buf] fl(2,3) False
      by (simp add: exposed_def contents_def)
    ultimately have "loop_result s ?F i (length buf) (splice_at (contents s i @ exposed s i off) off buf)
        (write_loop ?s i buf None ?lo 0)"
      using fr(2) by (intro loop_result_trans [of i ?F s ?s "?F i"]) simp_all
    with write_skip_outside [OF c pk] False show ?thesis by (intro exI) (auto simp: not_less)
  qed
qed

lemma length_spliced:
  assumes "storage_inv s" and "is_reg s i" and "0 < n"
  shows "max (length (contents s i @ exposed s i off)) (off + n) = max (length (contents s i)) (off + n)"
proof -
  obtain h t where "reg_info s i h t" using assms(2) by (auto simp: is_reg_def)
  then have "chain (chunks s) h (file_chain s i)" using chainedD(1) storage_invD(1) assms(1) by blast
  from fill_last_full(3) [OF this storage_invD(2) [OF assms(1,2)]] show ?thesis
    by (auto simp: exposed_def contents_def)
qed

lemma data_frame_size:
  assumes "data_frame i F s s'"
  shows "data_frame i F s (s'\<lparr>nodes := (nodes s')[i := (nodes s' ! i)\<lparr>total_size := k\<rparr>]\<rparr>)"
  using assms unfolding data_frame_def same_meta_def
  by (cases "i < length (nodes s')") (auto simp: list_update_beyond)

lemma same_size_id: "total_size (nodes s ! i) = k \<Longrightarrow> s\<lparr>nodes := (nodes s)[i := (nodes s ! i)\<lparr>total_size := k\<rparr>]\<rparr> = s"
proof -
  assume k: "total_size (nodes s ! i) = k"
  have "(nodes s ! i)\<lparr>total_size := k\<rparr> = nodes s ! i" using k by (cases "nodes s ! i") simp
  then show ?thesis by (cases s) simp
qed

lemma chained_size:
  "chained (s\<lparr>nodes := (nodes s)[i := (nodes s ! i)\<lparr>total_size := k\<rparr>]\<rparr>) F \<longleftrightarrow> chained s F"
proof -
  have "reg_info (s\<lparr>nodes := (nodes s)[i := (nodes s ! i)\<lparr>total_size := k\<rparr>]\<rparr>) j h t \<longleftrightarrow> reg_info s j h t"
    for j h t by (auto simp: reg_info_def nth_upd)
  then show ?thesis by (simp add: chained_def is_reg_def)
qed

text \<open>The effect of an operation on the contents of node \<open>i\<close>.\<close>

definition contents_step :: "imfs \<Rightarrow> nat \<Rightarrow> byte list \<Rightarrow> imfs \<Rightarrow> bool" where
  "contents_step s i bs s' \<longleftrightarrow> storage_inv s' \<and> is_reg s' i \<and> contents s' i = bs \<and>
     data_frame i (file_chain s) s s' \<and> (\<forall>j. j \<noteq> i \<longrightarrow> contents s' j = contents s j)"

lemma write_to_node_step:
  assumes inv: "storage_inv s" and reg: "is_reg s i" and buf: "buf \<noteq> []"
  shows "\<exists>s'. write_to_node s i off buf = Some (length buf, s') \<and>
    contents_step s i (splice_at (contents s i @ exposed s i off) off buf) s'"
proof -
  let ?bs = "splice_at (contents s i @ exposed s i off) off buf"
  obtain h t where r: "reg_info s i h t" using reg by (auto simp: is_reg_def)
  then have n: "get_node s i = Some (nodes s ! i)" "n_info (nodes s ! i) = IReg h t"
    by (auto simp: reg_info_def get_node_def)
  from write_skip_loop [OF inv r buf, of off] obtain cs p lo cs' s1 where
    sk: "write_skip (chunks s) h off = Some (cs, p, lo)"
    and lp: "write_loop (s\<lparr>chunks := cs\<rparr>) i buf p lo 0 = Some (Inr (length buf), s1)"
    and ch: "chained s1 ((file_chain s)(i := cs'))" and fr: "data_frame i (file_chain s) s s1"
    and reg1: "is_reg s1 i" and sz: "total_size (nodes s1 ! i) = total_size (nodes s ! i)"
    and pk: "packed (chunks s1) cs'" and bs: "file_bytes (chunks s1) cs' = ?bs"
    unfolding loop_result_def by blast
  define k where "k = max (length (contents s i)) (off + length buf)"
  have i: "i < length (nodes s1)" using reg1 by (auto simp: is_reg_def reg_info_def)
  have old: "total_size (nodes s ! i) = length (contents s i)" by (rule storage_invD(3) [OF inv reg])
  define s' where "s' = s1\<lparr>nodes := (nodes s1)[i := (nodes s1 ! i)\<lparr>total_size := k\<rparr>]\<rparr>"
  have "s' = s1" if "\<not> length (contents s i) < off + length buf"
    using that sz old same_size_id [of s1 i k] by (simp add: s'_def k_def)
  then have eq: "write_to_node s i off buf = Some (length buf, s')"
    using buf n sk lp i sz old
    by (auto simp: write_to_node_def get_node_def upd_node_def s'_def k_def max_def)
  have len: "length ?bs = k"
    using length_spliced [OF inv reg, of "length buf" off] buf by (simp add: length_splice k_def)
  have fr': "data_frame i (file_chain s) s s'" unfolding s'_def by (rule data_frame_size [OF fr])
  have "is_reg s' i" using reg1 i by (auto simp: is_reg_def reg_info_def s'_def)
  moreover note storage_step [OF inv _ fr', of cs'] ch pk bs i len
  ultimately show ?thesis using eq fr' unfolding contents_step_def
    by (intro exI [of _ s']) (simp add: s'_def chained_size)
qed

section \<open>Reading\<close>

lemma read_from_node_reg:
  assumes inv: "storage_inv s" and reg: "is_reg s i"
  shows "read_from_node s i off buf =
    (let bs = take (length buf) (drop off (contents s i)) in Some (length bs, overwrite buf 0 bs))"
proof -
  obtain h t where r: "reg_info s i h t" using reg by (auto simp: is_reg_def)
  then have n: "get_node s i = Some (nodes s ! i)" "n_info (nodes s ! i) = IReg h t"
    by (auto simp: reg_info_def get_node_def)
  note D = storage_invD [OF inv]
  have c: "chain (chunks s) h (file_chain s i)" and pk: "packed (chunks s) (file_chain s i)"
    using chainedD(1) [OF D(1) r] D(2) [OF reg] by auto
  show ?thesis
  proof (cases "off < length (contents s i)")
    case False
    then show ?thesis by (simp add: read_from_node_def n D(3) [OF reg])
  next
    case True
    let ?count = "min (length buf) (length (contents s i) - off)"
    obtain p' lo ds where sk: "skip_chunks (chunks s) h off = Some (p', lo)"
      and ds: "chain (chunks s) p' ds" "packed (chunks s) ds" "lo < length (file_bytes (chunks s) ds)"
        "lo < CHUNK_SIZE" "drop off (contents s i) = drop lo (file_bytes (chunks s) ds)"
      using skip_chunks_correct [OF c pk] True unfolding contents_def by blast
    have "length (contents s i) - off = length (file_bytes (chunks s) ds) - lo"
      using ds(5) by (metis length_drop)
    then have "read_loop (chunks s) p' lo ?count 0 buf =
        Some (?count, overwrite buf 0 (take ?count (drop off (contents s i))))"
      using ds read_loop_correct [OF ds(1,2), of lo 0 ?count buf] by simp
    moreover have "take ?count (drop off (contents s i)) = take (length buf) (drop off (contents s i))"
      by (simp add: min_def)
    ultimately show ?thesis using True
      by (simp add: read_from_node_def n D(3) [OF reg] sk Let_def)
  qed
qed

section \<open>Reclaiming a chain\<close>

abbreviation free_chunks :: "chunk list \<Rightarrow> nat list \<Rightarrow> chunk list" where
  "free_chunks ch cs \<equiv> foldl (\<lambda>ch c. ch[c := chunk_new]) ch cs"

lemma length_free_chunks [simp]: "length (free_chunks ch cs) = length ch"
  by (induction cs arbitrary: ch) auto

lemma nth_free_chunks [simp]: "c \<notin> set cs \<Longrightarrow> free_chunks ch cs ! c = ch ! c"
  by (induction cs arbitrary: ch) auto

lemma reclaim_chunk_chain_eq:
  assumes "chain (chunks s) p cs"
  shows "reclaim_chunk_chain s p =
    Some (s\<lparr>chunks := free_chunks (chunks s) cs, chunk_free_list := chunk_free_list s @ cs\<rparr>)"
  using assms
proof (induction cs arbitrary: s p)
  case Nil
  then show ?case by (simp add: reclaim_chunk_chain.simps)
next
  case (Cons c cs)
  let ?s = "s\<lparr>chunks := (chunks s)[c := chunk_new], chunk_free_list := chunk_free_list s @ [c]\<rparr>"
  have c: "p = Some c" "c < length (chunks s)" and nx: "chain (chunks s) (ck_next (chunks s ! c)) cs"
    and "c \<notin> set cs" using Cons.prems chain_distinct [OF Cons.prems] by auto
  then have "chain (chunks ?s) (ck_next (chunks s ! c)) cs"
    by (intro chain_cong [OF _ _ nx]) (auto simp: nth_upd)
  from Cons.IH [OF this] c show ?case
    by (subst reclaim_chunk_chain.simps) (simp add: reclaim_chunk_def)
qed

section \<open>Truncating\<close>

lemma truncate_loop_correct:
  assumes "chain ch p cs" and "packed ch cs" and "0 < n" and "n \<le> length (file_bytes ch cs)"
  shows "\<exists>pre c post k. cs = pre @ c # post \<and> truncate_loop ch p n lk = Some (Inl (c, k)) \<and>
    n = CHUNK_SIZE * length pre + k \<and> 0 < k \<and> k \<le> ck_used (ch ! c)"
  using assms
proof (induction cs arbitrary: p n lk)
  case (Cons c cs)
  have p: "p = Some c" "c < length ch" using Cons.prems by auto
  show ?case
  proof (cases "n \<le> CHUNK_SIZE")
    case True
    have "n \<le> ck_used (ch ! c)"
      using Cons.prems True by (cases "cs = []") (auto simp: packed_Cons full_chunk_def)
    with True p Cons.prems(3) have "c # cs = [] @ c # cs \<and> truncate_loop ch p n lk = Some (Inl (c, n)) \<and>
        n = CHUNK_SIZE * length [] + n \<and> 0 < n \<and> n \<le> ck_used (ch ! c)"
      by (simp add: truncate_loop.simps)
    then show ?thesis by blast
  next
    case False
    have "cs \<noteq> []" using Cons.prems(2,4) False by (auto simp: packed_Cons wf_chunk_def)
    then have "length (chunk_bytes (ch ! c)) = CHUNK_SIZE"
      using Cons.prems(2) by (simp add: packed_Cons full_chunk_def)
    then have "n - CHUNK_SIZE \<le> length (file_bytes ch cs)" using Cons.prems(4) by simp
    from Cons.IH [OF _ _ _ this, of "ck_next (ch ! c)" "Some c"] Cons.prems False
    obtain pre d post k where "cs = pre @ d # post" "n - CHUNK_SIZE = CHUNK_SIZE * length pre + k"
      and r: "truncate_loop ch (ck_next (ch ! c)) (n - CHUNK_SIZE) (Some c) = Some (Inl (d, k))"
      and k: "0 < k" "k \<le> ck_used (ch ! d)" by (auto simp: packed_Cons)
    then have "c # cs = (c # pre) @ d # post \<and> n = CHUNK_SIZE * length (c # pre) + k"
      using False by simp
    moreover have "truncate_loop ch p n lk = Some (Inl (d, k))"
      using False p r by (subst truncate_loop.simps) simp
    ultimately show ?thesis using k by blast
  qed
qed simp

lemma chain_cut:
  assumes "chain ch p (pre @ c # post)" and "ck_next x = None"
  shows "chain (ch[c := x]) p (pre @ [c])"
proof -
  have "c \<notin> set pre" using chain_distinct [OF assms(1)] by simp
  with assms show ?thesis by (induction pre arbitrary: p) (auto simp: nth_upd)
qed

lemma file_bytes_cut:
  assumes pk: "packed ch (pre @ c # post)" and d: "distinct (pre @ c # post)" and c: "c < length ch"
    and k: "0 < k" "k \<le> ck_used (ch ! c)"
  defines "ch' \<equiv> ch[c := (ch ! c)\<lparr>ck_used := k, ck_next := None\<rparr>]"
  shows "packed ch' (pre @ [c])"
    and "file_bytes ch' (pre @ [c]) = take (CHUNK_SIZE * length pre + k) (file_bytes ch (pre @ c # post))"
proof -
  have len: "length (file_bytes ch pre) = CHUNK_SIZE * length pre"
    using pk by (intro length_full_bytes) (simp add: packed_append)
  have wf: "wf_chunk (ch ! c)" and np: "c \<notin> set pre"
    using pk d by (auto simp: packed_append packed_Cons)
  have "\<forall>d \<in> set pre. ch' ! d = ch ! d" using np by (auto simp: ch'_def nth_upd)
  with pk wf c k np show "packed ch' (pre @ [c])"
    by (auto simp: ch'_def packed_append packed_Cons wf_chunk_def)
  show "file_bytes ch' (pre @ [c]) = take (CHUNK_SIZE * length pre + k) (file_bytes ch (pre @ c # post))"
    using wf c k np len by (simp add: ch'_def chunk_bytes_def wf_chunk_def)
qed

text \<open>Freeing the whole chain of node \<open>i\<close>.\<close>

lemma free_chain_frame:
  assumes D: "chained s F" and r: "reg_info s i h t"
    and nd: "n_info nd = IReg None None" "same_meta (nodes s ! i) nd"
  defines "s' \<equiv> s\<lparr>nodes := (nodes s)[i := nd], chunks := free_chunks (chunks s) (F i),
    chunk_free_list := chunk_free_list s @ F i\<rparr>"
  shows "chained s' (F(i := []))" and "data_frame i F s s'"
proof -
  have i: "i < length (nodes s)" using r by (simp add: reg_info_def)
  have oth: "c \<notin> set (F i)" if "j \<noteq> i" "c \<in> set (F j)" for c j using chainedD(3) [OF D that] .
  show "chained s' (F(i := []))" unfolding s'_def
  proof (rule chained_F_upd [OF D i, where h = None])
    show "n_info nd = IReg None (tail_of ((F(i := [])) i))" using nd by (simp add: tail_of_def)
    show "distinct (chunk_free_list s @ F i)"
      using chainedD(5,6) [OF D] chained_distinct [OF D] by auto
    show "c < length (free_chunks (chunks s) (F i)) \<and> c \<notin> set ((F(i := [])) i) \<and>
        (\<forall>j. j \<noteq> i \<longrightarrow> c \<notin> set (F j))" if "c \<in> set (chunk_free_list s @ F i)" for c
      using that chainedD(4,5) [OF D, of c] chained_in_range [OF D, of c i] oth by auto
  qed (use oth in auto)
  show "data_frame i F s s'" using oth i nd(2) by (auto simp: data_frame_def s'_def)
qed

lemma truncate_zero_step:
  assumes inv: "storage_inv s" and reg: "is_reg s i"
  shows "\<exists>s'. truncate_zero s i = Some s' \<and> contents_step s i [] s' \<and> chunk_free_list s' = chunk_free_list s @ file_chain s i"
proof -
  let ?F = "file_chain s"
  obtain h t where r: "reg_info s i h t" using reg by (auto simp: is_reg_def)
  then have i: "i < length (nodes s)" and info: "n_info (nodes s ! i) = IReg h t"
    by (auto simp: reg_info_def)
  note D = storage_invD(1) [OF inv]
  define nd where "nd = (nodes s ! i)\<lparr>n_info := IReg None None, total_size := 0\<rparr>"
  define s' where "s' = s\<lparr>nodes := (nodes s)[i := nd], chunks := free_chunks (chunks s) (?F i),
    chunk_free_list := chunk_free_list s @ ?F i\<rparr>"
  let ?s1 = "s\<lparr>nodes := (nodes s)[i := (nodes s ! i)\<lparr>n_info := IReg None None\<rparr>]\<rparr>"
  have "reclaim_chunk_chain ?s1 h = Some (?s1\<lparr>chunks := free_chunks (chunks s) (?F i),
      chunk_free_list := chunk_free_list s @ ?F i\<rparr>)"
    using reclaim_chunk_chain_eq [of ?s1 h "?F i"] chainedD(1) [OF D r] by simp
  then have eq: "truncate_zero s i = Some s'"
    using i info by (simp add: truncate_zero_def get_node_def upd_node_def s'_def nd_def)
  have "n_info nd = IReg None None" "same_meta (nodes s ! i) nd"
    by (simp_all add: nd_def same_meta_def)
  note fr = free_chain_frame [OF D r this, folded s'_def]
  have sz: "total_size (nodes s' ! i) = 0" "is_reg s' i"
    using i by (auto simp: s'_def nd_def is_reg_def reg_info_def)
  have "chunk_free_list s' = chunk_free_list s @ ?F i" by (simp add: s'_def)
  with storage_step [OF inv fr] sz eq fr(2) show ?thesis
    unfolding contents_step_def by (intro exI [of _ s']) simp
qed

text \<open>Cutting the chain of node \<open>i\<close> behind chunk \<open>d\<close> and freeing the rest.\<close>

lemma cut_frame:
  assumes D: "chained s F" and r: "reg_info s i h t" and Fi: "F i = pre @ d # post"
    and x: "ck_next x = None" and nd: "n_info nd = IReg h (Some d)" "same_meta (nodes s ! i) nd"
  defines "s' \<equiv> s\<lparr>nodes := (nodes s)[i := nd], chunks := free_chunks ((chunks s)[d := x]) post,
    chunk_free_list := chunk_free_list s @ post\<rparr>"
  shows "chained s' (F(i := pre @ [d]))" and "data_frame i F s s'"
    and "c \<in> set (pre @ [d]) \<Longrightarrow> chunks s' ! c = (chunks s)[d := x] ! c"
proof -
  let ?ch1 = "(chunks s)[d := x]"
  have i: "i < length (nodes s)" using r by (simp add: reg_info_def)
  have dist: "distinct (pre @ d # post)" using chained_distinct [OF D, of i] Fi by simp
  have oth: "c \<notin> set pre \<and> c \<noteq> d \<and> c \<notin> set post" if "j \<noteq> i" "c \<in> set (F j)" for c j
    using chainedD(3) [OF D that] Fi by auto
  have keep: "free_chunks ?ch1 post ! c = ?ch1 ! c" if "c \<in> set (pre @ [d])" for c
    using that dist by (intro nth_free_chunks) auto
  then show "c \<in> set (pre @ [d]) \<Longrightarrow> chunks s' ! c = ?ch1 ! c" by (simp add: s'_def)
  show "chained s' (F(i := pre @ [d]))" unfolding s'_def
  proof (rule chained_F_upd [OF D i, where h = h])
    have "chain ?ch1 h (pre @ [d])" using chain_cut [OF _ x] chainedD(1) [OF D r] Fi by simp
    then show "chain (free_chunks ?ch1 post) h ((F(i := pre @ [d])) i)"
      by (simp only: fun_upd_same) (rule chain_cong [rotated 2], auto simp: keep)
    show "n_info nd = IReg h (tail_of ((F(i := pre @ [d])) i))" using nd by (simp add: tail_of_def)
    show "distinct (chunk_free_list s @ post)"
      using chainedD(5) [OF D, of _ i] chainedD(6) [OF D] dist Fi by auto
    show "c < length (free_chunks ?ch1 post) \<and> c \<notin> set ((F(i := pre @ [d])) i) \<and>
        (\<forall>j. j \<noteq> i \<longrightarrow> c \<notin> set (F j))" if "c \<in> set (chunk_free_list s @ post)" for c
      using that chainedD(4) [OF D, of c] chainedD(5) [OF D, of c] chainedD(5) [OF D, of c i]
        chained_in_range [OF D, of c i] oth dist Fi by auto
  qed (use oth in \<open>auto simp: nth_upd\<close>)
  show "data_frame i F s s'" using oth i nd by (auto simp: data_frame_def s'_def nth_upd)
qed

lemma truncate_shrink_eq:
  assumes r: "reg_info s i h t" and c: "chain (chunks s) h (pre @ d # post)"
    and tl: "truncate_loop (chunks s) h n None = Some (Inl (d, k))"
    and x: "x = (chunks s ! d)\<lparr>ck_used := k, ck_next := None\<rparr>"
    and nd: "nd = (nodes s ! i)\<lparr>n_info := IReg h (Some d), total_size := n\<rparr>"
  shows "truncate_shrink s i n = Some (s\<lparr>nodes := (nodes s)[i := nd],
    chunks := free_chunks ((chunks s)[d := x]) post, chunk_free_list := chunk_free_list s @ post\<rparr>)"
proof -
  let ?s = "s\<lparr>chunks := (chunks s)[d := x]\<rparr>"
  have dist: "d \<notin> set post" and d: "d < length (chunks s)"
    using chain_distinct [OF c] chain_in_range [OF c] by auto
  have "chain (chunks s) (ck_next (chunks s ! d)) post" using c chain_append by fastforce
  then have "chain (chunks ?s) (ck_next (chunks s ! d)) post"
    by (rule chain_cong [rotated 2]) (use dist in \<open>auto simp: nth_upd\<close>)
  from reclaim_chunk_chain_eq [OF this] r tl d show ?thesis
    by (simp add: truncate_shrink_def get_node_def upd_node_def set_tail_def nd x reg_info_def)
qed

text \<open>The number of chunks that hold \<open>n\<close> bytes.\<close>

definition chunks_for :: "nat \<Rightarrow> nat" where
  "chunks_for n = (n + CHUNK_SIZE - 1) div CHUNK_SIZE"

lemma chunks_for_eq: "0 < k \<Longrightarrow> k \<le> CHUNK_SIZE \<Longrightarrow> chunks_for (CHUNK_SIZE * m + k) = Suc m"
proof -
  assume k: "0 < k" "k \<le> CHUNK_SIZE"
  then have "CHUNK_SIZE * m + k + CHUNK_SIZE - 1 = CHUNK_SIZE * Suc m + (k - 1)" by simp
  moreover have "k - 1 < CHUNK_SIZE" using k by simp
  ultimately show ?thesis unfolding chunks_for_def by (simp only: div_mult_self4 div_less)
qed

lemma truncate_shrink_step:
  assumes inv: "storage_inv s" and reg: "is_reg s i" and n: "0 < n" "n < length (contents s i)"
  shows "\<exists>s'. truncate_shrink s i n = Some s' \<and> contents_step s i (take n (contents s i)) s' \<and>
    chunk_free_list s' = chunk_free_list s @ drop (chunks_for n) (file_chain s i)"
proof -
  let ?F = "file_chain s"
  obtain h t where r: "reg_info s i h t" using reg by (auto simp: is_reg_def)
  then have i: "i < length (nodes s)" by (simp add: reg_info_def)
  note D = storage_invD(1) [OF inv]
  note c = chainedD(1) [OF D r] and pk = storage_invD(2) [OF inv reg]
  obtain pre d post k where Fi: "?F i = pre @ d # post"
    and tl: "truncate_loop (chunks s) h n None = Some (Inl (d, k))"
    and k: "n = CHUNK_SIZE * length pre + k" "0 < k" "k \<le> ck_used (chunks s ! d)"
    using truncate_loop_correct [OF c pk, of n None] n by (auto simp: contents_def)
  define x where "x = (chunks s ! d)\<lparr>ck_used := k, ck_next := None\<rparr>"
  define nd where "nd = (nodes s ! i)\<lparr>n_info := IReg h (Some d), total_size := n\<rparr>"
  define s' where "s' = s\<lparr>nodes := (nodes s)[i := nd], chunks := free_chunks ((chunks s)[d := x]) post,
    chunk_free_list := chunk_free_list s @ post\<rparr>"
  have eq: "truncate_shrink s i n = Some s'"
    using truncate_shrink_eq [OF r c [unfolded Fi] tl x_def nd_def] by (simp add: s'_def)
  have "ck_next x = None" "n_info nd = IReg h (Some d)" "same_meta (nodes s ! i) nd"
    by (simp_all add: x_def nd_def same_meta_def)
  note cut = cut_frame [OF D r Fi this, folded s'_def]
  have dist: "distinct (pre @ d # post)" and d: "d < length (chunks s)"
    using chained_distinct [OF D, of i] chained_in_range [OF D, of d i] Fi by auto
  note fb = file_bytes_cut [OF pk [unfolded Fi] dist d k(2,3), folded x_def]
  have "packed (chunks s') (pre @ [d])" by (rule packed_cong [OF fb(1)]) (simp_all add: cut(3))
  moreover have "file_bytes (chunks s') (pre @ [d]) = file_bytes ((chunks s)[d := x]) (pre @ [d])"
    by (rule file_bytes_cong) (simp add: cut(3))
  then have "file_bytes (chunks s') (pre @ [d]) = take n (contents s i)"
    using fb(2) k(1) Fi by (simp add: contents_def)
  moreover have "total_size (nodes s' ! i) = n" "is_reg s' i"
    using i by (auto simp: s'_def nd_def is_reg_def reg_info_def)
  moreover have "wf_chunk (chunks s ! d)" using pk Fi packed_append [of "chunks s" pre "d # post"] by (simp add: packed_Cons)
  then have "drop (chunks_for n) (?F i) = post" using k Fi by (simp add: chunks_for_eq wf_chunk_def)
  then have "chunk_free_list s' = chunk_free_list s @ drop (chunks_for n) (?F i)" by (simp add: s'_def)
  moreover note storage_step [OF inv cut(1,2)] eq cut(2) n
  ultimately show ?thesis unfolding contents_step_def by (intro exI [of _ s']) simp
qed

lemma truncate_node_step:
  assumes inv: "storage_inv s" and reg: "is_reg s i"
  shows "\<exists>s'. truncate_node s i n = Some s' \<and> contents_step s i
    (if n \<le> length (contents s i) then take n (contents s i)
     else splice_at (contents s i @ exposed s i (n - 1)) (n - 1) [0]) s' \<and>
    (n < length (contents s i) \<longrightarrow> chunk_free_list s' = chunk_free_list s @ drop (chunks_for n) (file_chain s i))"
proof -
  have g: "get_node s i = Some (nodes s ! i)" "total_size (nodes s ! i) = length (contents s i)"
    using reg storage_invD(3) [OF inv reg] by (auto simp: is_reg_def reg_info_def get_node_def)
  consider "n = length (contents s i)" | "length (contents s i) < n"
    | "n = 0" "n < length (contents s i)" | "0 < n" "n < length (contents s i)" by linarith
  then show ?thesis
  proof cases
    case 1
    with g inv reg show ?thesis by (simp add: truncate_node_def contents_step_def)
  next
    case 2
    with g write_to_node_step [OF inv reg, of "[0]" "n - 1"] show ?thesis
      by (auto simp: truncate_node_def)
  next
    case 3
    have "chunks_for 0 = 0" by (simp add: chunks_for_def CHUNK_SIZE_def)
    with 3 g truncate_zero_step [OF inv reg] show ?thesis by (auto simp: truncate_node_def)
  next
    case 4
    with g truncate_shrink_step [OF inv reg 4] show ?thesis by (auto simp: truncate_node_def)
  qed
qed

section \<open>The byte-file interface\<close>

text \<open>
  What the file descriptor layer needs of the storage: positioned reads and writes of a
  byte sequence, each file by itself.
\<close>

locale byte_file =
  fixes inv :: "'s \<Rightarrow> bool"
    and has :: "'s \<Rightarrow> nat \<Rightarrow> bool"
    and bytes :: "'s \<Rightarrow> nat \<Rightarrow> byte list"
    and rd :: "'s \<Rightarrow> nat \<Rightarrow> nat \<Rightarrow> byte list \<Rightarrow> (nat \<times> byte list) option"
    and wr :: "'s \<Rightarrow> nat \<Rightarrow> nat \<Rightarrow> byte list \<Rightarrow> (nat \<times> 's) option"
    and shorten :: "'s \<Rightarrow> nat \<Rightarrow> nat \<Rightarrow> 's option"
  assumes rd_law: "inv s \<Longrightarrow> has s i \<Longrightarrow> rd s i off buf =
      (let bs = take (length buf) (drop off (bytes s i)) in Some (length bs, overwrite buf 0 bs))"
    and wr_law: "inv s \<Longrightarrow> has s i \<Longrightarrow> buf \<noteq> [] \<Longrightarrow> off \<le> length (bytes s i) \<Longrightarrow>
      \<exists>s'. wr s i off buf = Some (length buf, s') \<and> inv s' \<and> (\<forall>j. has s' j = has s j) \<and>
        bytes s' = (bytes s)(i := splice_at (bytes s i) off buf)"
    and shorten_law: "inv s \<Longrightarrow> has s i \<Longrightarrow> n \<le> length (bytes s i) \<Longrightarrow>
      \<exists>s'. shorten s i n = Some s' \<and> inv s' \<and> (\<forall>j. has s' j = has s j) \<and>
        bytes s' = (bytes s)(i := take n (bytes s i))"
begin

lemma read_back:
  assumes "inv s" and "has s i" and "buf \<noteq> []" and "off \<le> length (bytes s i)" and "length b = length buf"
  shows "\<exists>s'. wr s i off buf = Some (length buf, s') \<and> rd s' i off b = Some (length buf, buf)"
proof -
  obtain s' where s': "wr s i off buf = Some (length buf, s')" "inv s'" "has s' i"
    "bytes s' i = splice_at (bytes s i) off buf"
    using wr_law [OF assms(1-4)] assms(2) by auto
  have "take (length buf) (drop off (bytes s' i)) = buf"
    using assms(4) by (simp add: s'(4) splice_at_def)
  with s' assms(5) show ?thesis by (simp add: rd_law Let_def overwrite_def)
qed

lemma read_other:
  assumes "inv s" and "has s i" and "buf \<noteq> []" and "off \<le> length (bytes s i)"
    and "has s j" and "j \<noteq> i"
  shows "\<exists>s'. wr s i off buf = Some (length buf, s') \<and> rd s' j off' b = rd s j off' b"
  using wr_law [OF assms(1-4)] assms by (auto simp: rd_law)

lemma append_append:
  assumes "inv s" and "has s i" and "p \<noteq> []" and "q \<noteq> []"
  shows "\<exists>s1 s2. wr s i (length (bytes s i)) p = Some (length p, s1) \<and>
    wr s1 i (length (bytes s1 i)) q = Some (length q, s2) \<and> inv s2 \<and>
    bytes s2 i = bytes s i @ p @ q"
proof -
  obtain s1 where s1: "wr s i (length (bytes s i)) p = Some (length p, s1)" "inv s1" "has s1 i"
    "bytes s1 i = bytes s i @ p"
    using wr_law [OF assms(1-3) order_refl] assms(2) splice_end [of "bytes s i" 0 p] by auto
  obtain s2 where s2: "wr s1 i (length (bytes s1 i)) q = Some (length q, s2)" "inv s2"
    "bytes s2 i = bytes s1 i @ q"
    using wr_law [OF s1(2,3) assms(4) order_refl] splice_end [of "bytes s1 i" 0 q] by auto
  with s1(1,4) have "bytes s2 i = bytes s i @ p @ q" by simp
  with s1(1) s2(1,2) show ?thesis by blast
qed

end

lemma exposed_inside:
  assumes "storage_inv s" and "is_reg s i" and "off \<le> length (contents s i)"
  shows "exposed s i off = []"
proof -
  obtain h t where "reg_info s i h t" using assms(2) by (auto simp: is_reg_def)
  then have c: "chain (chunks s) h (file_chain s i)" using chainedD(1) storage_invD(1) assms(1) by blast
  from fill_last_full(3) [OF c storage_invD(2) [OF assms(1,2)]] assms(3)
  have "CHUNK_SIZE * length (file_chain s i) \<le> off \<Longrightarrow> length (slack (chunks s) (file_chain s i)) = 0"
    unfolding contents_def length_append by linarith
  then show ?thesis by (simp add: exposed_def)
qed

lemma data_frame_is_reg:
  assumes "data_frame i F s s'" and "is_reg s i" and "is_reg s' i"
  shows "is_reg s' j = is_reg s j"
  using assms by (cases "j = i") (auto simp: is_reg_def reg_info_def data_frame_def)

lemma contents_stepD:
  assumes "contents_step s i bs s'" and "is_reg s i"
  shows "storage_inv s'" and "is_reg s' j = is_reg s j" and "contents s' = (contents s)(i := bs)"
  using assms data_frame_is_reg unfolding contents_step_def by auto

interpretation imfs_file: byte_file storage_inv is_reg contents read_from_node write_to_node truncate_node
proof unfold_locales
  fix s i off and buf :: "byte list"
  assume inv: "storage_inv s" and reg: "is_reg s i"
  from read_from_node_reg [OF inv reg] show "read_from_node s i off buf =
    (let bs = take (length buf) (drop off (contents s i)) in Some (length bs, overwrite buf 0 bs))" .
  show "\<exists>s'. write_to_node s i off buf = Some (length buf, s') \<and> storage_inv s' \<and>
      (\<forall>j. is_reg s' j = is_reg s j) \<and> contents s' = (contents s)(i := splice_at (contents s i) off buf)"
    if "buf \<noteq> []" "off \<le> length (contents s i)"
    using write_to_node_step [OF inv reg that(1), of off] exposed_inside [OF inv reg that(2)]
      contents_stepD reg by fastforce
  show "\<exists>s'. truncate_node s i n = Some s' \<and> storage_inv s' \<and> (\<forall>j. is_reg s' j = is_reg s j) \<and>
      contents s' = (contents s)(i := take n (contents s i))" if "n \<le> length (contents s i)" for n
    using truncate_node_step [OF inv reg, of n] that contents_stepD reg by fastforce
qed

end
