(* ===== verification/Fdtables.thy ===== *)
theory Fdtables
  imports Prelude
begin

text \<open>
  The fdtables library (a crate of the Lind runtime, not part of this repository) keeps the
  virtual file descriptor tables of all cages.  The grates only call it, so it is a
  parameter of the model: a record of its operations over a table type \<open>'ft\<close>.  The
  predicate \<open>fdtables_ok\<close> states the documented behaviour the grates rely on.
  \<open>map_fdtables\<close> is a small concrete table that satisfies it, used to instantiate the
  parameter in closed theorems.
\<close>

text \<open>\<open>fdtables::FDTableEntry\<close>.\<close>

record fd_entry =
  fdkind :: nat
  underfd :: nat
  should_cloexec :: bool
  perfdinfo :: nat

record 'ft fdtables_ops =
  translate_virtual_fd :: "'ft \<Rightarrow> nat \<Rightarrow> nat \<Rightarrow> fd_entry option"
  get_unused_virtual_fd :: "'ft \<Rightarrow> nat \<Rightarrow> nat \<Rightarrow> nat \<Rightarrow> bool \<Rightarrow> nat \<Rightarrow> (nat \<times> 'ft) option"
  get_unused_virtual_fd_from_startfd ::
    "'ft \<Rightarrow> nat \<Rightarrow> nat \<Rightarrow> nat \<Rightarrow> bool \<Rightarrow> nat \<Rightarrow> nat \<Rightarrow> (nat \<times> 'ft) option"
  get_specific_virtual_fd :: "'ft \<Rightarrow> nat \<Rightarrow> nat \<Rightarrow> nat \<Rightarrow> nat \<Rightarrow> bool \<Rightarrow> nat \<Rightarrow> 'ft option"
  close_virtualfd :: "'ft \<Rightarrow> nat \<Rightarrow> nat \<Rightarrow> 'ft option"
  set_cloexec :: "'ft \<Rightarrow> nat \<Rightarrow> nat \<Rightarrow> bool \<Rightarrow> 'ft option"
  set_perfdinfo :: "'ft \<Rightarrow> nat \<Rightarrow> nat \<Rightarrow> nat \<Rightarrow> 'ft option"
  check_cage_exists :: "'ft \<Rightarrow> nat \<Rightarrow> bool"
  init_empty_cage :: "'ft \<Rightarrow> nat \<Rightarrow> 'ft"
  copy_fdtable_for_cage :: "'ft \<Rightarrow> nat \<Rightarrow> nat \<Rightarrow> 'ft option"
  remove_cage_from_fdtable :: "'ft \<Rightarrow> nat \<Rightarrow> 'ft"

abbreviation mk_entry :: "nat \<Rightarrow> nat \<Rightarrow> bool \<Rightarrow> nat \<Rightarrow> fd_entry" where
  "mk_entry k u e p \<equiv> \<lparr>fdkind = k, underfd = u, should_cloexec = e, perfdinfo = p\<rparr>"

text \<open>
  The behaviour relied upon: an allocation picks a descriptor that was free and maps it to
  the given entry; a specific allocation maps the requested descriptor; closing removes an
  existing mapping and fails on an unmapped one; no operation touches other descriptors.
\<close>

definition fd_maps :: "'ft fdtables_ops \<Rightarrow> 'ft \<Rightarrow> nat \<Rightarrow> nat \<Rightarrow> fd_entry option \<Rightarrow> 'ft \<Rightarrow> bool" where
  "fd_maps F ft c fd x ft' \<longleftrightarrow>
     (\<forall>c' fd'. translate_virtual_fd F ft' c' fd' =
        (if c' = c \<and> fd' = fd then x else translate_virtual_fd F ft c' fd'))"

definition fd_alloc_spec :: "'ft fdtables_ops \<Rightarrow> bool" where
  "fd_alloc_spec F \<longleftrightarrow>
     (\<forall>ft c k u e p fd ft'. get_unused_virtual_fd F ft c k u e p = Some (fd, ft') \<longrightarrow>
        translate_virtual_fd F ft c fd = None \<and> fd_maps F ft c fd (Some (mk_entry k u e p)) ft')"

definition fd_startfd_spec :: "'ft fdtables_ops \<Rightarrow> bool" where
  "fd_startfd_spec F \<longleftrightarrow>
     (\<forall>ft c k u e p st fd ft'.
        get_unused_virtual_fd_from_startfd F ft c k u e p st = Some (fd, ft') \<longrightarrow>
        st \<le> fd \<and> translate_virtual_fd F ft c fd = None \<and>
        fd_maps F ft c fd (Some (mk_entry k u e p)) ft')"

definition fd_specific_spec :: "'ft fdtables_ops \<Rightarrow> bool" where
  "fd_specific_spec F \<longleftrightarrow>
     (\<forall>ft c fd k u e p ft'. get_specific_virtual_fd F ft c fd k u e p = Some ft' \<longrightarrow>
        fd_maps F ft c fd (Some (mk_entry k u e p)) ft')"

definition fd_close_spec :: "'ft fdtables_ops \<Rightarrow> bool" where
  "fd_close_spec F \<longleftrightarrow>
     (\<forall>ft c fd. case close_virtualfd F ft c fd of
        None \<Rightarrow> translate_virtual_fd F ft c fd = None
      | Some ft' \<Rightarrow> translate_virtual_fd F ft c fd \<noteq> None \<and> fd_maps F ft c fd None ft')"

text \<open>A cage without a table has no descriptors, and an empty table adds none.\<close>

definition fd_cage_spec :: "'ft fdtables_ops \<Rightarrow> bool" where
  "fd_cage_spec F \<longleftrightarrow>
     (\<forall>ft c. \<not> check_cage_exists F ft c \<longrightarrow>
        check_cage_exists F (init_empty_cage F ft c) c \<and> (\<forall>fd. translate_virtual_fd F ft c fd = None) \<and>
        (\<forall>c' fd. translate_virtual_fd F (init_empty_cage F ft c) c' fd = translate_virtual_fd F ft c' fd)) \<and>
     (\<forall>ft c c' fd e. translate_virtual_fd F (init_empty_cage F ft c) c' fd = Some e \<longrightarrow> translate_virtual_fd F ft c' fd = Some e)"

text \<open>A copy gives the new cage the descriptors of the old one; removing a cage drops its table.\<close>

definition fd_copy_spec :: "'ft fdtables_ops \<Rightarrow> bool" where
  "fd_copy_spec F \<longleftrightarrow>
     (\<forall>ft p c ft'. copy_fdtable_for_cage F ft p c = Some ft' \<longrightarrow>
        (\<forall>c' fd. translate_virtual_fd F ft' c' fd = translate_virtual_fd F ft (if c' = c then p else c') fd))"

definition fd_remove_spec :: "'ft fdtables_ops \<Rightarrow> bool" where
  "fd_remove_spec F \<longleftrightarrow>
     (\<forall>ft c c' fd. translate_virtual_fd F (remove_cage_from_fdtable F ft c) c' fd =
        (if c' = c then None else translate_virtual_fd F ft c' fd))"

text \<open>Setting the per-descriptor word of a mapped descriptor changes nothing else and never fails.\<close>

definition fd_perfd_spec :: "'ft fdtables_ops \<Rightarrow> bool" where
  "fd_perfd_spec F \<longleftrightarrow>
     (\<forall>ft c fd p. case translate_virtual_fd F ft c fd of
        None \<Rightarrow> set_perfdinfo F ft c fd p = None
      | Some e \<Rightarrow> \<exists>ft'. set_perfdinfo F ft c fd p = Some ft' \<and> fd_maps F ft c fd (Some (e\<lparr>perfdinfo := p\<rparr>)) ft')"

definition fdtables_ok :: "'ft fdtables_ops \<Rightarrow> bool" where
  "fdtables_ok F \<longleftrightarrow>
     fd_alloc_spec F \<and> fd_startfd_spec F \<and> fd_specific_spec F \<and> fd_close_spec F \<and> fd_cage_spec F \<and>
     fd_copy_spec F \<and> fd_remove_spec F \<and> fd_perfd_spec F"

lemma fd_mapsD:
  "fd_maps F ft c fd x ft' \<Longrightarrow> translate_virtual_fd F ft' c' fd' =
     (if c' = c \<and> fd' = fd then x else translate_virtual_fd F ft c' fd')"
  by (simp add: fd_maps_def)

lemma fd_alloc_law:
  assumes "fdtables_ok F" and "get_unused_virtual_fd F ft c k u e p = Some (fd, ft')"
  shows "translate_virtual_fd F ft c fd = None \<and> fd_maps F ft c fd (Some (mk_entry k u e p)) ft'"
  using assms unfolding fdtables_ok_def fd_alloc_spec_def by blast

lemma fd_startfd_law:
  assumes "fdtables_ok F" and "get_unused_virtual_fd_from_startfd F ft c k u e p st = Some (fd, ft')"
  shows "st \<le> fd \<and> translate_virtual_fd F ft c fd = None \<and>
    fd_maps F ft c fd (Some (mk_entry k u e p)) ft'"
  using assms unfolding fdtables_ok_def fd_startfd_spec_def by blast

lemma fd_specific_law:
  assumes "fdtables_ok F" and "get_specific_virtual_fd F ft c fd k u e p = Some ft'"
  shows "fd_maps F ft c fd (Some (mk_entry k u e p)) ft'"
  using assms unfolding fdtables_ok_def fd_specific_spec_def by blast

lemma fd_cage_law:
  assumes "fdtables_ok F" and "\<not> check_cage_exists F ft c"
  shows "check_cage_exists F (init_empty_cage F ft c) c" and "translate_virtual_fd F ft c fd = None"
    and "translate_virtual_fd F (init_empty_cage F ft c) c' fd = translate_virtual_fd F ft c' fd"
  using assms unfolding fdtables_ok_def fd_cage_spec_def by blast+

lemma fd_copy_law:
  assumes "fdtables_ok F" and "copy_fdtable_for_cage F ft p c = Some ft'"
  shows "translate_virtual_fd F ft' c' fd = translate_virtual_fd F ft (if c' = c then p else c') fd"
  using assms unfolding fdtables_ok_def fd_copy_spec_def by blast

lemma fd_remove_law:
  assumes "fdtables_ok F"
  shows "translate_virtual_fd F (remove_cage_from_fdtable F ft c) c' fd =
    (if c' = c then None else translate_virtual_fd F ft c' fd)"
  using assms unfolding fdtables_ok_def fd_remove_spec_def by blast

lemma fd_init_law:
  "fdtables_ok F \<Longrightarrow> translate_virtual_fd F (init_empty_cage F ft c) c' fd = Some e \<Longrightarrow> translate_virtual_fd F ft c' fd = Some e"
  unfolding fdtables_ok_def fd_cage_spec_def by blast

lemma fd_perfd_cases:
  assumes "fdtables_ok F"
  shows "case translate_virtual_fd F ft c fd of
        None \<Rightarrow> set_perfdinfo F ft c fd p = None
      | Some e \<Rightarrow> \<exists>ft'. set_perfdinfo F ft c fd p = Some ft' \<and> fd_maps F ft c fd (Some (e\<lparr>perfdinfo := p\<rparr>)) ft'"
  using assms unfolding fdtables_ok_def fd_perfd_spec_def by blast

lemma fd_perfd_law:
  assumes "fdtables_ok F" and "translate_virtual_fd F ft c fd = Some e"
  shows "\<exists>ft'. set_perfdinfo F ft c fd p = Some ft' \<and> fd_maps F ft c fd (Some (e\<lparr>perfdinfo := p\<rparr>)) ft'"
  using fd_perfd_cases [OF assms(1), of ft c fd p] assms(2) by simp

lemma fd_perfd_None:
  assumes "fdtables_ok F" and "translate_virtual_fd F ft c fd = None"
  shows "set_perfdinfo F ft c fd p = None"
  using fd_perfd_cases [OF assms(1), of ft c fd p] assms(2) by simp

lemma fd_close_cases:
  assumes "fdtables_ok F"
  shows "case close_virtualfd F ft c fd of
        None \<Rightarrow> translate_virtual_fd F ft c fd = None
      | Some ft' \<Rightarrow> translate_virtual_fd F ft c fd \<noteq> None \<and> fd_maps F ft c fd None ft'"
  using assms unfolding fdtables_ok_def fd_close_spec_def by blast

lemma fd_close_None_iff:
  "fdtables_ok F \<Longrightarrow> close_virtualfd F ft c fd = None \<longleftrightarrow> translate_virtual_fd F ft c fd = None"
  using fd_close_cases [of F ft c fd] by (auto split: option.splits)

lemma fd_close_law:
  "fdtables_ok F \<Longrightarrow> close_virtualfd F ft c fd = Some ft' \<Longrightarrow> fd_maps F ft c fd None ft'"
  using fd_close_cases [of F ft c fd] by auto

section \<open>A concrete table\<close>

type_synonym fd_map = "((nat \<times> nat) \<times> fd_entry) list"

fun first_free :: "fd_map \<Rightarrow> nat \<Rightarrow> nat \<Rightarrow> nat \<Rightarrow> nat option" where
  "first_free m c fd 0 = None"
| "first_free m c fd (Suc n) =
     (if map_of m (c, fd) = None then Some fd else first_free m c (Suc fd) n)"

definition map_fdtables :: "fd_map fdtables_ops" where
  "map_fdtables =
     \<lparr>translate_virtual_fd = (\<lambda>m c fd. map_of m (c, fd)),
      get_unused_virtual_fd = (\<lambda>m c k u e p.
        map_option (\<lambda>fd. (fd, ((c, fd), mk_entry k u e p) # m)) (first_free m c 0 8)),
      get_unused_virtual_fd_from_startfd = (\<lambda>m c k u e p st.
        map_option (\<lambda>fd. (fd, ((c, fd), mk_entry k u e p) # m)) (first_free m c st (8 - st))),
      get_specific_virtual_fd = (\<lambda>m c fd k u e p.
        if fd < 8 then Some (((c, fd), mk_entry k u e p) # m) else None),
      close_virtualfd = (\<lambda>m c fd.
        if map_of m (c, fd) = None then None else Some (filter (\<lambda>x. fst x \<noteq> (c, fd)) m)),
      set_cloexec = (\<lambda>m c fd e. case map_of m (c, fd) of None \<Rightarrow> None
        | Some x \<Rightarrow> Some (((c, fd), x\<lparr>should_cloexec := e\<rparr>) # m)),
      set_perfdinfo = (\<lambda>m c fd p. case map_of m (c, fd) of None \<Rightarrow> None
        | Some x \<Rightarrow> Some (((c, fd), x\<lparr>perfdinfo := p\<rparr>) # m)),
      check_cage_exists = (\<lambda>m c. True),
      init_empty_cage = (\<lambda>m c. m),
      copy_fdtable_for_cage = (\<lambda>m p c.
        Some (map (\<lambda>x. ((c, snd (fst x)), snd x)) (filter (\<lambda>x. fst (fst x) = p) m) @ filter (\<lambda>x. fst (fst x) \<noteq> c) m)),
      remove_cage_from_fdtable = (\<lambda>m c. filter (\<lambda>x. fst (fst x) \<noteq> c) m)\<rparr>"

lemma first_free_SomeD: "first_free m c s n = Some fd \<Longrightarrow> map_of m (c, fd) = None \<and> s \<le> fd"
  by (induction m c s n rule: first_free.induct) (auto split: if_splits)

lemma first_free_bound: "first_free m c s n = Some fd \<Longrightarrow> fd < s + n"
  by (induction m c s n rule: first_free.induct) (auto split: if_splits)

lemma map_of_filter_ne:
  "map_of (filter (\<lambda>x. fst x \<noteq> k) m) k' = (if k' = k then None else map_of m k')"
  by (induction m) auto

lemma map_of_filter_cage:
  "map_of (filter (\<lambda>x. fst (fst x) \<noteq> c) m) (c', fd) = (if c' = c then None else map_of m (c', fd))"
  by (induction m) auto

lemma map_of_copy_cage:
  "map_of (map (\<lambda>x. ((c, snd (fst x)), snd x)) (filter (\<lambda>x. fst (fst x) = p) m)) (c', fd) =
     (if c' = c then map_of m (p, fd) else None)"
  by (induction m) auto

lemma map_fdtables_small:
  "get_unused_virtual_fd map_fdtables ft c k u e p = Some (fd, ft') \<Longrightarrow> fd < 2 ^ 31"
proof -
  assume "get_unused_virtual_fd map_fdtables ft c k u e p = Some (fd, ft')"
  then have "first_free ft c 0 8 = Some fd" by (auto simp: map_fdtables_def)
  from first_free_bound [OF this] show ?thesis by simp
qed

lemma map_fdtables_ok: "fdtables_ok map_fdtables"
proof -
  have "fd_alloc_spec map_fdtables" "fd_startfd_spec map_fdtables"
    by (auto simp: fd_alloc_spec_def fd_startfd_spec_def map_fdtables_def fd_maps_def
        dest: first_free_SomeD)
  moreover have "fd_specific_spec map_fdtables" "fd_close_spec map_fdtables"
    by (auto simp: fd_specific_spec_def fd_close_spec_def map_fdtables_def fd_maps_def
        map_of_filter_ne split: if_splits)
  moreover have "fd_cage_spec map_fdtables" by (simp add: fd_cage_spec_def map_fdtables_def)
  moreover have "fd_perfd_spec map_fdtables"
    by (simp add: fd_perfd_spec_def map_fdtables_def fd_maps_def split: option.split)
  moreover have "fd_copy_spec map_fdtables" "fd_remove_spec map_fdtables"
    by (auto simp: fd_copy_spec_def fd_remove_spec_def map_fdtables_def map_of_filter_cage map_of_copy_cage
        map_add_def map_of_append split: option.splits)
  ultimately show ?thesis by (simp add: fdtables_ok_def)
qed

lemma map_table_simps:
  "translate_virtual_fd map_fdtables m c fd = map_of m (c, fd)"
  "get_unused_virtual_fd map_fdtables m c k u e p = map_option (\<lambda>fd. (fd, ((c, fd), mk_entry k u e p) # m)) (first_free m c 0 8)"
  "get_specific_virtual_fd map_fdtables m c fd k u e p = (if fd < 8 then Some (((c, fd), mk_entry k u e p) # m) else None)"
  "close_virtualfd map_fdtables m c fd = (if map_of m (c, fd) = None then None else Some (filter (\<lambda>x. fst x \<noteq> (c, fd)) m))"
  "check_cage_exists map_fdtables m c"
  by (simp_all add: map_fdtables_def)

text \<open>The table of a cage as a list without repetitions, and the tables after an exec.\<close>

definition cage_fds :: "fd_map \<Rightarrow> nat \<Rightarrow> (nat \<times> fd_entry) list" where
  "cage_fds m c = map (\<lambda>fd. (fd, the (map_of m (c, fd)))) (filter (\<lambda>fd. map_of m (c, fd) \<noteq> None) (remdups (map (snd \<circ> fst) m)))"

definition exec_fds :: "fd_map \<Rightarrow> nat \<Rightarrow> fd_map" where
  "exec_fds m c = filter (\<lambda>x. \<not> (fst (fst x) = c \<and> should_cloexec (the (map_of m (fst x))))) m"

lemma map_of_exec: "map_of (filter (\<lambda>x. P (fst x)) m) k = (if P k then map_of m k else None)"
  by (induction m) auto

lemma map_of_exec_fds:
  "map_of (exec_fds m c) (c', fd) =
     (case map_of m (c', fd) of Some e \<Rightarrow> if c' = c \<and> should_cloexec e then None else Some e | None \<Rightarrow> None)"
  using map_of_exec [of "\<lambda>k. \<not> (fst k = c \<and> should_cloexec (the (map_of m k)))" m "(c', fd)"]
  by (auto simp: exec_fds_def split: option.split)

lemma cage_fds_iff: "(fd, e) \<in> set (cage_fds m c) \<longleftrightarrow> map_of m (c, fd) = Some e"
  by (force simp: cage_fds_def image_iff dest: map_of_SomeD)

lemma cage_fds_distinct: "distinct (map fst (cage_fds m c))"
  by (simp add: cage_fds_def comp_def)

text \<open>The same with a list of the cages that have a table.\<close>

definition cage_fdtables :: "(nat list \<times> fd_map) fdtables_ops" where
  "cage_fdtables =
     \<lparr>translate_virtual_fd = (\<lambda>(cs, m). translate_virtual_fd map_fdtables m),
      get_unused_virtual_fd = (\<lambda>(cs, m) c k u e p.
        map_option (map_prod id (Pair cs)) (get_unused_virtual_fd map_fdtables m c k u e p)),
      get_unused_virtual_fd_from_startfd = (\<lambda>(cs, m) c k u e p st.
        map_option (map_prod id (Pair cs)) (get_unused_virtual_fd_from_startfd map_fdtables m c k u e p st)),
      get_specific_virtual_fd = (\<lambda>(cs, m) c fd k u e p.
        map_option (Pair cs) (get_specific_virtual_fd map_fdtables m c fd k u e p)),
      close_virtualfd = (\<lambda>(cs, m) c fd. map_option (Pair cs) (close_virtualfd map_fdtables m c fd)),
      set_cloexec = (\<lambda>(cs, m) c fd e. map_option (Pair cs) (set_cloexec map_fdtables m c fd e)),
      set_perfdinfo = (\<lambda>(cs, m) c fd p. map_option (Pair cs) (set_perfdinfo map_fdtables m c fd p)),
      check_cage_exists = (\<lambda>(cs, m) c. c \<in> set cs \<or> c \<in> set (map (fst \<circ> fst) m)),
      init_empty_cage = (\<lambda>(cs, m) c. (c # cs, m)),
      copy_fdtable_for_cage = (\<lambda>(cs, m) p c. map_option (Pair (c # cs)) (copy_fdtable_for_cage map_fdtables m p c)),
      remove_cage_from_fdtable = (\<lambda>(cs, m) c. (removeAll c cs, remove_cage_from_fdtable map_fdtables m c))\<rparr>"

lemma cage_fdtables_ok: "fdtables_ok cage_fdtables"
proof -
  note defs = fd_maps_def cage_fdtables_def
  note laws = fd_alloc_law fd_startfd_law fd_specific_law
  have "fd_alloc_spec cage_fdtables" "fd_startfd_spec cage_fdtables" "fd_specific_spec cage_fdtables"
    unfolding fd_alloc_spec_def fd_startfd_spec_def fd_specific_spec_def
    by (auto simp: defs dest!: laws [OF map_fdtables_ok])
  moreover have "fd_close_spec cage_fdtables" unfolding fd_close_spec_def
  proof (intro allI)
    fix ft :: "nat list \<times> fd_map" and c fd
    obtain cs m where ft: "ft = (cs, m)" by (cases ft)
    show "case close_virtualfd cage_fdtables ft c fd of None \<Rightarrow> translate_virtual_fd cage_fdtables ft c fd = None
        | Some ft' \<Rightarrow> translate_virtual_fd cage_fdtables ft c fd \<noteq> None \<and> fd_maps cage_fdtables ft c fd None ft'"
      using fd_close_cases [OF map_fdtables_ok, of m c fd] by (auto simp: ft defs split: option.splits)
  qed
  moreover have "map_of m (c, fd) = None" if "c \<notin> set (map (fst \<circ> fst) m)" for m :: fd_map and c fd
    using that by (induction m) auto
  then have "fd_cage_spec cage_fdtables"
    by (auto simp: fd_cage_spec_def cage_fdtables_def map_fdtables_def)
  moreover have "fd_perfd_spec cage_fdtables"
    by (auto simp: fd_perfd_spec_def map_fdtables_def defs split: option.split)
  moreover have "fd_copy_spec cage_fdtables" "fd_remove_spec cage_fdtables"
    unfolding fd_copy_spec_def fd_remove_spec_def
    by (auto simp: defs fd_remove_law [OF map_fdtables_ok] fd_copy_law [OF map_fdtables_ok])
  ultimately show ?thesis by (simp add: fdtables_ok_def)
qed

end
