(* ===== verification/Paths.thy ===== *)
theory Paths
  imports Prelude
begin

text \<open>
  Lexical paths.  Three grates normalise paths with the same loop over the components of a
  split (IMFS \<open>normalize_path_for_cage\<close>, chroot \<open>normalize_path\<close>, fs-routing-clamp
  \<open>normalize_path\<close>).  This theory models the Rust string operations they use, the loop
  body, and states the contract of such a normaliser as a locale; the component theories
  interpret it on their own functions.
\<close>

section \<open>Rust string operations\<close>

abbreviation slash :: char where
  "slash \<equiv> CHR ''/''"

text \<open>\<open>s.split(c)\<close>: always at least one piece.\<close>

fun split_on :: "char \<Rightarrow> string \<Rightarrow> string list" where
  "split_on c [] = [[]]"
| "split_on c (x # xs) =
     (if x = c then [] # split_on c xs
      else (case split_on c xs of [] \<Rightarrow> [[x]] | y # ys \<Rightarrow> (x # y) # ys))"

text \<open>\<open>parts.join("/")\<close>.\<close>

fun join_with :: "string \<Rightarrow> string list \<Rightarrow> string" where
  "join_with sep [] = []"
| "join_with sep [x] = x"
| "join_with sep (x # y # zs) = x @ sep @ join_with sep (y # zs)"

definition starts_with :: "string \<Rightarrow> string \<Rightarrow> bool" where
  "starts_with s p \<longleftrightarrow> take (length p) s = p"

definition strip_prefix :: "string \<Rightarrow> string \<Rightarrow> string option" where
  "strip_prefix s p = (if starts_with s p then Some (drop (length p) s) else None)"

definition trim_end_matches :: "string \<Rightarrow> char \<Rightarrow> string" where
  "trim_end_matches s c = rev (dropWhile (\<lambda>x. x = c) (rev s))"

definition absolute :: "string \<Rightarrow> bool" where
  "absolute p \<longleftrightarrow> starts_with p ''/''"

section \<open>The normalisation loop\<close>

text \<open>One iteration: empty and \<open>.\<close> components are skipped, \<open>..\<close> pops (a no-op on the
  empty vector), any other component is pushed.\<close>

definition path_step :: "string list \<Rightarrow> string \<Rightarrow> string list" where
  "path_step parts part =
     (if part = '''' \<or> part = ''.'' then parts
      else if part = ''..'' then butlast parts
      else parts @ [part])"

definition resolve_parts :: "string list \<Rightarrow> string list" where
  "resolve_parts ps = foldl path_step [] ps"

definition render_abs :: "string list \<Rightarrow> string" where
  "render_abs parts = ''/'' @ join_with ''/'' parts"

definition clean_name :: "string \<Rightarrow> bool" where
  "clean_name n \<longleftrightarrow> n \<noteq> '''' \<and> n \<noteq> ''.'' \<and> n \<noteq> ''..'' \<and> slash \<notin> set n"

section \<open>Splitting and joining\<close>

lemma split_on_not_Nil [simp]: "split_on c s \<noteq> []"
  by (induction s) (auto split: list.splits)

lemma split_on_free: "x \<in> set (split_on c s) \<Longrightarrow> c \<notin> set x"
  by (induction s arbitrary: x) (auto split: list.splits if_splits)

lemma split_on_no_sep: "c \<notin> set s \<Longrightarrow> split_on c s = [s]"
  by (induction s) auto

lemma split_on_append_sep: "split_on c (a @ c # b) = split_on c a @ split_on c b"
  by (induction a) (auto split: list.splits)

lemma join_with_Cons_Cons [simp]:
  "join_with sep ((x # a) # ps) = x # join_with sep (a # ps)"
  by (cases ps) auto

lemma join_split: "join_with [c] (split_on c s) = s"
proof (induction s)
  case (Cons x xs)
  then show ?case by (cases "split_on c xs") auto
qed simp

lemma split_join:
  "ps \<noteq> [] \<Longrightarrow> \<forall>p \<in> set ps. c \<notin> set p \<Longrightarrow> split_on c (join_with [c] ps) = ps"
proof (induction "[c]" ps rule: join_with.induct)
  case (3 x y zs)
  then show ?case by (simp add: split_on_append_sep split_on_no_sep)
qed (simp_all add: split_on_no_sep)

lemma join_with_append:
  "xs \<noteq> [] \<Longrightarrow> ys \<noteq> [] \<Longrightarrow> join_with sep (xs @ ys) = join_with sep xs @ sep @ join_with sep ys"
  by (induction sep xs rule: join_with.induct) (auto simp: neq_Nil_conv)

section \<open>Resolved component lists\<close>

lemma path_step_clean [simp]: "clean_name p \<Longrightarrow> path_step ps p = ps @ [p]"
  by (simp add: path_step_def clean_name_def)

lemma path_step_preserves_clean:
  "\<forall>x \<in> set ps. clean_name x \<Longrightarrow> slash \<notin> set p \<Longrightarrow> \<forall>x \<in> set (path_step ps p). clean_name x"
  by (auto simp: path_step_def clean_name_def dest: in_set_butlastD)

lemma foldl_path_step_clean:
  "\<forall>x \<in> set acc. clean_name x \<Longrightarrow> \<forall>p \<in> set ps. slash \<notin> set p \<Longrightarrow>
   \<forall>x \<in> set (foldl path_step acc ps). clean_name x"
proof (induction ps arbitrary: acc)
  case (Cons p ps)
  from Cons.prems have "\<forall>x \<in> set (path_step acc p). clean_name x"
    by (intro path_step_preserves_clean) auto
  moreover have "\<forall>p \<in> set ps. slash \<notin> set p" using Cons.prems(2) by simp
  ultimately have "\<forall>x \<in> set (foldl path_step (path_step acc p) ps). clean_name x"
    by (rule Cons.IH)
  then show ?case by simp
qed simp

lemma resolve_parts_clean:
  "\<forall>p \<in> set ps. slash \<notin> set p \<Longrightarrow> \<forall>x \<in> set (resolve_parts ps). clean_name x"
  unfolding resolve_parts_def by (rule foldl_path_step_clean) auto

lemma foldl_path_step_append_clean:
  "\<forall>p \<in> set ps. clean_name p \<Longrightarrow> foldl path_step acc ps = acc @ ps"
  by (induction ps arbitrary: acc) auto

lemma resolve_parts_fixed: "\<forall>p \<in> set ps. clean_name p \<Longrightarrow> resolve_parts ps = ps"
  by (simp add: resolve_parts_def foldl_path_step_append_clean)

lemma resolve_parts_append: "resolve_parts (ps @ qs) = foldl path_step (resolve_parts ps) qs"
  by (simp add: resolve_parts_def)

lemma path_step_empty [simp]: "path_step ps [] = ps"
  by (simp add: path_step_def)

lemma resolve_parts_Nil [simp]: "resolve_parts [] = []"
  by (simp add: resolve_parts_def)

lemma resolve_parts_skip [simp]: "resolve_parts ([] # ps) = resolve_parts ps"
  by (simp add: resolve_parts_def)

lemma resolve_render:
  assumes "\<forall>p \<in> set ps. clean_name p"
  shows "resolve_parts (split_on slash (render_abs ps)) = ps"
proof (cases "ps = []")
  case False
  have "\<forall>p \<in> set ps. slash \<notin> set p" using assms by (auto simp: clean_name_def)
  with False have "split_on slash (join_with ''/'' ps) = ps" by (rule split_join)
  with assms show ?thesis by (simp add: render_abs_def resolve_parts_fixed)
qed (simp add: render_abs_def)

lemma absolute_render [simp]: "absolute (render_abs ps)"
  by (simp add: absolute_def starts_with_def render_abs_def)

lemma absolute_Cons [simp]: "absolute (x # xs) \<longleftrightarrow> x = slash"
  by (simp add: absolute_def starts_with_def)

lemma absolute_Nil [simp]: "\<not> absolute []"
  by (simp add: absolute_def starts_with_def)

lemma render_abs_inject:
  assumes "\<forall>p \<in> set ps. clean_name p" and "\<forall>p \<in> set qs. clean_name p"
  shows "render_abs ps = render_abs qs \<longleftrightarrow> ps = qs"
  using resolve_render [OF assms(1)] resolve_render [OF assms(2)] by metis

lemma split_on_trim_end:
  "\<exists>n. split_on slash s = split_on slash (trim_end_matches s slash) @ replicate n []"
proof (induction s rule: rev_induct)
  case Nil
  show ?case by (rule exI [of _ 0]) (simp add: trim_end_matches_def)
next
  case (snoc x xs)
  show ?case
  proof (cases "x = slash")
    case True
    from snoc obtain n where
      "split_on slash xs = split_on slash (trim_end_matches xs slash) @ replicate n []" by blast
    moreover have "trim_end_matches (xs @ [slash]) slash = trim_end_matches xs slash"
      by (simp add: trim_end_matches_def)
    ultimately have "split_on slash (xs @ [x]) =
        split_on slash (trim_end_matches (xs @ [x]) slash) @ replicate (Suc n) []"
      using True split_on_append_sep [of slash xs "[]"] by (simp add: replicate_append_same)
    then show ?thesis by blast
  next
    case False
    then have "trim_end_matches (xs @ [x]) slash = xs @ [x]" by (simp add: trim_end_matches_def)
    then show ?thesis by (intro exI [of _ 0]) simp
  qed
qed

lemma foldl_path_step_empties [simp]: "foldl path_step acc (replicate n []) = acc"
  by (induction n) auto

lemma resolve_trim_end:
  "resolve_parts (split_on slash (trim_end_matches s slash)) = resolve_parts (split_on slash s)"
proof -
  obtain n where "split_on slash s = split_on slash (trim_end_matches s slash) @ replicate n []"
    using split_on_trim_end by blast
  then show ?thesis by (simp add: resolve_parts_append)
qed

section \<open>Canonical paths\<close>

definition canonical :: "string \<Rightarrow> bool" where
  "canonical s \<longleftrightarrow> (\<exists>ps. (\<forall>p \<in> set ps. clean_name p) \<and> s = render_abs ps)"

lemma canonical_not_empty: "canonical s \<Longrightarrow> s \<noteq> ''''"
  by (auto simp: canonical_def render_abs_def)

lemma canonical_absolute: "canonical s \<Longrightarrow> starts_with s ''/''"
  by (auto simp: canonical_def render_abs_def starts_with_def)

lemma canonical_root: "canonical ''/''"
  unfolding canonical_def by (rule exI [of _ "[]"]) (simp add: render_abs_def)

section \<open>The contract of a lexical normaliser\<close>

text \<open>
  \<open>parts p\<close> is the sequence of components the normaliser's loop runs over for the
  argument \<open>p\<close>; \<open>accepts\<close> says for which arguments the loop is reached.
\<close>

locale path_normalizer =
  fixes norm :: "string \<Rightarrow> string"
    and parts :: "string \<Rightarrow> string list"
    and accepts :: "string \<Rightarrow> bool"
  assumes norm_eq: "accepts p \<Longrightarrow> norm p = render_abs (resolve_parts (parts p))"
    and parts_slash_free: "accepts p \<Longrightarrow> x \<in> set (parts p) \<Longrightarrow> slash \<notin> set x"
    and accepts_absolute: "absolute p \<Longrightarrow> accepts p"
    and parts_absolute:
      "absolute p \<Longrightarrow> resolve_parts (parts p) = resolve_parts (split_on slash p)"
begin

definition components :: "string \<Rightarrow> string list" where
  "components p = resolve_parts (parts p)"

lemma components_clean: "accepts p \<Longrightarrow> \<forall>x \<in> set (components p). clean_name x"
  unfolding components_def by (rule resolve_parts_clean) (blast dest: parts_slash_free)

lemma norm_components: "accepts p \<Longrightarrow> norm p = render_abs (components p)"
  by (simp add: norm_eq components_def)

lemma norm_absolute: "accepts p \<Longrightarrow> absolute (norm p)"
  by (simp add: norm_eq)

lemma norm_resolved:
  "accepts p \<Longrightarrow> resolve_parts (split_on slash (norm p)) = components p"
  using resolve_render [OF components_clean] by (simp add: norm_components)

lemma norm_idem: "accepts p \<Longrightarrow> norm (norm p) = norm p"
  using norm_absolute [of p] norm_resolved [of p]
  by (simp add: norm_eq accepts_absolute parts_absolute components_def)

lemma norm_clean_fixed:
  "\<forall>x \<in> set ps. clean_name x \<Longrightarrow> norm (render_abs ps) = render_abs ps"
  by (simp add: norm_eq accepts_absolute parts_absolute resolve_render)

lemma norm_canonical: "accepts p \<Longrightarrow> canonical (norm p)"
  unfolding canonical_def using components_clean norm_components by blast

lemma norm_canonical_fixed: "canonical s \<Longrightarrow> norm s = s"
  unfolding canonical_def using norm_clean_fixed by blast

end

end
