(* ===== verification/Imfs_Path.thy ===== *)
theory Imfs_Path
  imports Imfs_State Fdtables Paths
begin

text \<open>
  Path resolution of IMFS (\<open>imfs/mod.rs\<close>, lines 335 to 504): the two lexical normalisers,
  the walk over the node tree with hard links, symbolic links and the depth limit of 40,
  the reconstruction of a node's absolute path, and paths relative to a directory
  descriptor.  \<open>None\<close> is a panic (an index out of the arena) or a loop that does not end
  (\<open>absolute_path_for_node\<close> on a cyclic parent chain, a cycle of hard links).
\<close>

definition LIND_AT_FDCWD :: int where
  "LIND_AT_FDCWD = -100"

section \<open>Lexical normalisation\<close>

definition norm_render :: "string list \<Rightarrow> string" where
  "norm_render parts = (if parts = [] then ''/'' else ''/'' @ join_with ''/'' parts)"

definition normalize_path_from_base :: "string \<Rightarrow> string \<Rightarrow> string" where
  "normalize_path_from_base base path =
     (let base = (if starts_with path ''/'' then ''/'' else base);
          parts = foldl path_step [] (split_on slash base @ split_on slash path)
      in norm_render parts)"

definition normalize_path_for_cage :: "imfs \<Rightarrow> nat \<Rightarrow> string \<Rightarrow> string" where
  "normalize_path_for_cage s cage_id path =
     (let base = (if starts_with path ''/'' then ''/''
                  else case cwd_info s cage_id of Some d \<Rightarrow> d | None \<Rightarrow> ''/'');
          parts = foldl path_step [] (split_on slash base @ split_on slash path)
      in norm_render parts)"

section \<open>The node tree\<close>

definition lookup_child :: "imfs \<Rightarrow> nat \<Rightarrow> string \<Rightarrow> nat option option" where
  "lookup_child s parent name = do {
     p \<leftarrow> get_node s parent;
     cs \<leftarrow> children p;
     Some (map_option de_node_idx (find (\<lambda>e. de_name e = name) cs)) }"

partial_function (option) abs_path_loop :: "imfs \<Rightarrow> nat \<Rightarrow> string list \<Rightarrow> string list option" where
  "abs_path_loop s current parts =
     (if current \<noteq> root_idx s then do {
        n \<leftarrow> get_node s current;
        abs_path_loop s (parent_idx n) (parts @ [n_name n]) }
      else Some parts)"

definition absolute_path_for_node :: "imfs \<Rightarrow> nat \<Rightarrow> string option" where
  "absolute_path_for_node s node_idx =
     (if node_idx = root_idx s then Some ''/''
      else map_option (\<lambda>parts. ''/'' @ join_with ''/'' (rev parts)) (abs_path_loop s node_idx []))"

text \<open>
  One pass over the components: an error, the node reached, or the path on which resolution
  restarts after a symbolic link.
\<close>

datatype walk_result = WErr int | WNode nat | WRestart string

fun resolve_loop :: "imfs \<Rightarrow> bool \<Rightarrow> nat \<Rightarrow> string list \<Rightarrow> walk_result option" where
  "resolve_loop s follow_final current [] = Some (WNode current)"
| "resolve_loop s follow_final current (component # remaining) = do {
     n \<leftarrow> get_node s current;
     if node_type n \<noteq> Dir then Some (WErr (-20))
     else do {
       e \<leftarrow> lookup_child s current component;
       (case e of
          None \<Rightarrow> Some (WErr (-2))
        | Some entry_idx \<Rightarrow>
            if remaining = [] \<and> \<not> follow_final then resolve_loop s follow_final entry_idx remaining
            else do {
              en \<leftarrow> get_node s entry_idx;
              (case hardlink_target en of
                 Some target \<Rightarrow> resolve_loop s follow_final target remaining
               | None \<Rightarrow>
                  (case symlink_target en of
                     Some target \<Rightarrow> do {
                       parent_path \<leftarrow> absolute_path_for_node s current;
                       let resolved = normalize_path_from_base parent_path target;
                       Some (WRestart (if remaining \<noteq> []
                         then normalize_path_from_base resolved (join_with ''/'' remaining)
                         else resolved)) }
                   | None \<Rightarrow> resolve_loop s follow_final entry_idx remaining)) }) } }"

definition path_components :: "string \<Rightarrow> string list" where
  "path_components path = filter (\<lambda>c. c \<noteq> []) (split_on slash path)"

function resolve_path_inner :: "imfs \<Rightarrow> string \<Rightarrow> bool \<Rightarrow> nat \<Rightarrow> nat result option" where
  "resolve_path_inner s path follow_final depth =
     (if depth > 40 then Some (Inl (-40))
      else if path = ''/'' then Some (Inr (root_idx s))
      else
        let components = path_components path in
        if components = [] then Some (Inr (root_idx s))
        else (case resolve_loop s follow_final (root_idx s) components of
            None \<Rightarrow> None
          | Some (WErr e) \<Rightarrow> Some (Inl e)
          | Some (WNode i) \<Rightarrow> Some (Inr i)
          | Some (WRestart p) \<Rightarrow> resolve_path_inner s p follow_final (depth + 1)))"
  by pat_completeness auto
termination
  by (relation "measure (\<lambda>(s, p, f, d). 41 - d)") auto

declare resolve_path_inner.simps [simp del]

definition resolve_path :: "imfs \<Rightarrow> string \<Rightarrow> bool \<Rightarrow> nat result option" where
  "resolve_path s path follow_final = resolve_path_inner s path follow_final 0"

definition resolve_parent_and_name :: "imfs \<Rightarrow> string \<Rightarrow> (nat \<times> string) result option" where
  "resolve_parent_and_name s path =
     (let components = path_components path in
      if components = [] then Some (Inl (-2))
      else
        let filename = last components in
        if length components = 1 then Some (Inr (root_idx s, filename))
        else do {
          r \<leftarrow> resolve_path s (''/'' @ join_with ''/'' (butlast components)) True;
          (case r of
             Inl e \<Rightarrow> Some (Inl e)
           | Inr parent \<Rightarrow> do {
               n \<leftarrow> get_node s parent;
               Some (if node_type n \<noteq> Dir then Inl (-20) else Inr (parent, filename)) }) })"

section \<open>Paths relative to a directory descriptor\<close>

definition normalize_path_at ::
  "'ft fdtables_ops \<Rightarrow> 'ft \<Rightarrow> imfs \<Rightarrow> nat \<Rightarrow> int \<Rightarrow> string \<Rightarrow> string result option" where
  "normalize_path_at F ft s cage_id dirfd path =
     (if starts_with path ''/'' then Some (Inr (normalize_path_for_cage s cage_id path))
      else if dirfd = LIND_AT_FDCWD then Some (Inr (normalize_path_for_cage s cage_id path))
      else (case translate_virtual_fd F ft cage_id (as_u64 dirfd) of
          None \<Rightarrow> Some (Inl (-9))
        | Some entry \<Rightarrow> do {
            node_idx \<leftarrow> follow_hardlinks s (as_usize (int (underfd entry)));
            n \<leftarrow> get_node s node_idx;
            if node_type n \<noteq> Dir then Some (Inl (-20))
            else do {
              base \<leftarrow> absolute_path_for_node s node_idx;
              Some (Inr (normalize_path_for_cage s cage_id (base @ ''/'' @ path))) } }))"

declare abs_path_loop.simps [code]

end
