(* ===== verification/Imfs_Fd.thy ===== *)
theory Imfs_Fd
  imports Imfs_Data Imfs_Path
begin

text \<open>
  The descriptor operations of IMFS (\<open>imfs/mod.rs\<close>, lines 509 to 655, 862 to 1055, 1286 to
  1568 and 2084 to 2112): metadata records, opening a resolved path, duplicating, sharing
  descriptors at fork, closing, positioned and sequential reads and writes, seeking,
  \<open>fcntl\<close>, directory listing, truncation by descriptor.

  Every operation takes the fdtables operations \<open>F\<close> with their state \<open>ft\<close> and the IMFS
  state \<open>s\<close>; an operation that changes the tables returns them.
\<close>

section \<open>Constants\<close>

definition IMFS_FDKIND :: nat where "IMFS_FDKIND = 1"
definition O_RDONLY :: i32 where "O_RDONLY = 0"
definition O_WRONLY :: i32 where "O_WRONLY = 1"
definition O_RDWR :: i32 where "O_RDWR = 2"
definition O_ACCMODE :: i32 where "O_ACCMODE = 3"
definition O_CREAT :: i32 where "O_CREAT = 0x40"
definition O_EXCL :: i32 where "O_EXCL = 0x80"
definition O_TRUNC :: i32 where "O_TRUNC = 0x200"
definition O_APPEND :: i32 where "O_APPEND = 0x400"
definition O_DIRECTORY :: i32 where "O_DIRECTORY = 0x10000"
definition S_IRUSR :: u32 where "S_IRUSR = 0x100"
definition S_IWUSR :: u32 where "S_IWUSR = 0x80"
definition S_IXUSR :: u32 where "S_IXUSR = 0x40"
definition S_IFMT :: u32 where "S_IFMT = 0xF000"
definition S_MODE_BITS :: u32 where "S_MODE_BITS = 0xFFF"

lemmas open_flags = O_RDONLY_def O_WRONLY_def O_RDWR_def O_ACCMODE_def O_CREAT_def O_EXCL_def
  O_TRUNC_def O_APPEND_def O_DIRECTORY_def
lemmas mode_bits = S_IRUSR_def S_IWUSR_def S_IXUSR_def S_IFMT_def S_MODE_BITS_def

section \<open>Metadata records\<close>

record stat_buf =
  st_dev :: nat
  st_ino :: nat
  st_mode :: u32
  st_nlink :: nat
  st_uid :: u32
  st_gid :: u32
  st_rdev :: nat
  st_size :: nat
  st_blksize :: int
  st_blocks :: nat
  st_atim :: "nat \<times> nat"
  st_mtim :: "nat \<times> nat"
  st_ctim :: "nat \<times> nat"

definition IMFS_BLOCK_SIZE :: nat where "IMFS_BLOCK_SIZE = 512"
definition IMFS_PREFERRED_IO_SIZE :: int where "IMFS_PREFERRED_IO_SIZE = 4096"

definition fill_stat :: "imfs \<Rightarrow> nat \<Rightarrow> stat_buf option" where
  "fill_stat s node_idx = do {
     n \<leftarrow> get_node s node_idx;
     links \<leftarrow> link_count s node_idx;
     Some \<lparr>st_dev = 1, st_ino = node_idx, st_mode = n_mode n, st_nlink = links mod 2 ^ 32,
       st_uid = n_owner n, st_gid = n_group n, st_rdev = 0, st_size = total_size n,
       st_blksize = IMFS_PREFERRED_IO_SIZE, st_blocks = total_size n div IMFS_BLOCK_SIZE,
       st_atim = as_stat_pair (n_atime n), st_mtim = as_stat_pair (n_mtime n),
       st_ctim = as_stat_pair (n_ctime n)\<rparr> }"

record fs_data =
  f_type :: nat
  f_bsize :: nat
  f_blocks :: nat
  f_bfree :: nat
  f_bavail :: nat
  f_files :: nat
  f_ffiles :: nat
  f_fsid :: nat
  f_namelen :: nat
  f_frsize :: nat
  f_spare :: "byte list"

definition IMFS_STATFS_MAGIC :: nat where "IMFS_STATFS_MAGIC = 0x494d4653"
definition IMFS_STATFS_BLOCK_SIZE :: nat where "IMFS_STATFS_BLOCK_SIZE = 4096"
definition IMFS_STATFS_TOTAL_BLOCKS :: nat where "IMFS_STATFS_TOTAL_BLOCKS = 1024 * 1024"
definition IMFS_STATFS_NAME_MAX :: nat where "IMFS_STATFS_NAME_MAX = 254"

definition div_ceil :: "nat \<Rightarrow> nat \<Rightarrow> nat" where
  "div_ceil a b = (a + b - 1) div b"

definition fill_statfs :: "imfs \<Rightarrow> fs_data" where
  "fill_statfs s =
     (let used_bytes = sum_list (map total_size (nodes s));
          used_blocks = div_ceil used_bytes IMFS_STATFS_BLOCK_SIZE;
          free_blocks = IMFS_STATFS_TOTAL_BLOCKS - used_blocks;
          free_nodes = (MAX_NODES - length (nodes s)) + length (node_free_list s)
      in \<lparr>f_type = IMFS_STATFS_MAGIC, f_bsize = IMFS_STATFS_BLOCK_SIZE,
          f_blocks = IMFS_STATFS_TOTAL_BLOCKS, f_bfree = free_blocks, f_bavail = free_blocks,
          f_files = MAX_NODES, f_ffiles = free_nodes, f_fsid = 0,
          f_namelen = IMFS_STATFS_NAME_MAX, f_frsize = IMFS_STATFS_BLOCK_SIZE,
          f_spare = replicate 32 0\<rparr>)"

section \<open>Descriptor state\<close>

text \<open>A fresh \<open>Arc<Mutex<FDInfo>>\<close> inserted for a descriptor.\<close>

definition insert_perfdinfo :: "imfs \<Rightarrow> nat \<Rightarrow> nat \<Rightarrow> 64 word \<Rightarrow> imfs" where
  "insert_perfdinfo s cageid fd flags =
     s\<lparr>fd_arcs := fd_arcs s @ [\<lparr>fi_flags = flags, fi_offset = 0\<rparr>],
       fd_info := (fd_info s)((cageid, fd) \<mapsto> length (fd_arcs s))\<rparr>"

definition get_fd_rec :: "imfs \<Rightarrow> nat \<Rightarrow> nat \<Rightarrow> fd_rec option" where
  "get_fd_rec s cageid fd = do { a \<leftarrow> fd_info s (cageid, fd); vec_get (fd_arcs s) a }"

definition get_offset :: "imfs \<Rightarrow> nat \<Rightarrow> nat \<Rightarrow> int option" where
  "get_offset s cageid fd = map_option fi_offset (get_fd_rec s cageid fd)"

definition set_offset :: "imfs \<Rightarrow> nat \<Rightarrow> nat \<Rightarrow> int \<Rightarrow> imfs option" where
  "set_offset s cageid fd offset = do {
     a \<leftarrow> fd_info s (cageid, fd);
     arcs \<leftarrow> vec_mod (fd_arcs s) a (\<lambda>r. r\<lparr>fi_offset := offset\<rparr>);
     Some (s\<lparr>fd_arcs := arcs\<rparr>) }"

definition get_node_and_flags ::
  "'ft fdtables_ops \<Rightarrow> 'ft \<Rightarrow> imfs \<Rightarrow> nat \<Rightarrow> nat \<Rightarrow> (nat \<times> i32) result option" where
  "get_node_and_flags F ft s cage_id fd = (case translate_virtual_fd F ft cage_id fd of
      None \<Rightarrow> Some (Inl (-9))
    | Some entry \<Rightarrow> do {
        r \<leftarrow> get_fd_rec s cage_id fd;
        idx \<leftarrow> follow_hardlinks s (as_usize (int (underfd entry)));
        Some (Inr (idx, ucast (fi_flags r))) })"

section \<open>Opening\<close>

definition inc_use :: "imfs \<Rightarrow> nat \<Rightarrow> imfs option" where
  "inc_use s i = upd_node s i (\<lambda>n. n\<lparr>in_use := in_use n + 1\<rparr>)"

text \<open>The checks on a path that resolves: the errno returned early, or \<open>None\<close> when it goes on.\<close>

definition open_denied :: "node \<Rightarrow> i32 \<Rightarrow> int option" where
  "open_denied n flags =
     (let acc = flags AND O_ACCMODE; m = n_mode n in
      if flags AND O_EXCL \<noteq> 0 \<and> flags AND O_CREAT \<noteq> 0 then Some (-17)
      else if flags AND O_DIRECTORY \<noteq> 0 \<and> node_type n \<noteq> Dir then Some (-20)
      else if node_type n = Dir \<and> (acc = O_WRONLY \<or> acc = O_RDWR) then Some (-21)
      else if acc = O_RDONLY \<and> m AND S_IRUSR = 0 then Some (-13)
      else if acc = O_WRONLY \<and> m AND S_IWUSR = 0 then Some (-13)
      else if acc = O_RDWR \<and> (m AND S_IRUSR = 0 \<or> m AND S_IWUSR = 0) then Some (-13)
      else None)"

definition open_existing :: "imfs \<Rightarrow> nat \<Rightarrow> i32 \<Rightarrow> (nat result \<times> imfs) option" where
  "open_existing s idx flags = do {
     n \<leftarrow> get_node s idx;
     (case open_denied n flags of
        Some e \<Rightarrow> Some (Inl e, s)
      | None \<Rightarrow>
          if node_type n = Reg \<and> flags AND O_TRUNC \<noteq> 0 \<and> flags AND O_ACCMODE \<noteq> O_RDONLY
          then do {
            s \<leftarrow> truncate_node s idx 0;
            s \<leftarrow> update_mtime s idx;
            s \<leftarrow> update_ctime s idx;
            Some (Inr idx, s) }
          else Some (Inr idx, s)) }"

definition open_create :: "imfs \<Rightarrow> string \<Rightarrow> i32 \<Rightarrow> u32 \<Rightarrow> (nat result \<times> imfs) option" where
  "open_create s norm_path flags mode =
     (if flags AND O_CREAT = 0 then Some (Inl (-2), s)
      else do {
        r \<leftarrow> resolve_parent_and_name s norm_path;
        (case r of
           Inl e \<Rightarrow> Some (Inl e, s)
         | Inr (parent, filename) \<Rightarrow>
             if length filename \<ge> MAX_NODE_NAME then Some (Inl (-36), s)
             else do {
               (new_idx, s) \<leftarrow> create_node s filename Reg mode;
               s \<leftarrow> add_child s parent new_idx;
               s \<leftarrow> update_mtime s parent;
               s \<leftarrow> update_ctime s parent;
               s \<leftarrow> update_mtime s new_idx;
               s \<leftarrow> update_ctime s new_idx;
               Some (Inr new_idx, s) }) })"

definition open_fd ::
  "'ft fdtables_ops \<Rightarrow> 'ft \<Rightarrow> imfs \<Rightarrow> nat \<Rightarrow> nat \<Rightarrow> i32 \<Rightarrow> (int \<times> imfs \<times> 'ft) option" where
  "open_fd F ft s cage_id node_idx flags = do {
     s \<leftarrow> inc_use s node_idx;
     (case get_unused_virtual_fd F ft cage_id IMFS_FDKIND node_idx False 0 of
        Some (vfd, ft) \<Rightarrow> Some (as_i32 (int vfd), insert_perfdinfo s cage_id vfd (scast flags), ft)
      | None \<Rightarrow> do {
          s \<leftarrow> upd_node s node_idx (\<lambda>n. n\<lparr>in_use := in_use n - 1\<rparr>);
          Some (-24, s, ft) }) }"

definition open_resolved_path ::
  "'ft fdtables_ops \<Rightarrow> 'ft \<Rightarrow> imfs \<Rightarrow> nat \<Rightarrow> string \<Rightarrow> i32 \<Rightarrow> u32 \<Rightarrow> (int \<times> imfs \<times> 'ft) option" where
  "open_resolved_path F ft s cage_id norm_path flags mode = do {
     r \<leftarrow> resolve_path s norm_path True;
     (n, s) \<leftarrow> (case r of
         Inr idx \<Rightarrow> open_existing s idx flags
       | Inl _ \<Rightarrow> open_create s norm_path flags mode);
     (case n of
        Inl e \<Rightarrow> Some (e, s, ft)
      | Inr node_idx \<Rightarrow> open_fd F ft s cage_id node_idx flags) }"

definition imfs_open ::
  "'ft fdtables_ops \<Rightarrow> 'ft \<Rightarrow> imfs \<Rightarrow> nat \<Rightarrow> string \<Rightarrow> i32 \<Rightarrow> u32 \<Rightarrow> (int \<times> imfs \<times> 'ft) option" where
  "imfs_open F ft s cage_id path flags mode =
     open_resolved_path F ft s cage_id (normalize_path_for_cage s cage_id path) flags mode"

definition imfs_openat ::
  "'ft fdtables_ops \<Rightarrow> 'ft \<Rightarrow> imfs \<Rightarrow> nat \<Rightarrow> int \<Rightarrow> string \<Rightarrow> i32 \<Rightarrow> u32 \<Rightarrow> (int \<times> imfs \<times> 'ft) option" where
  "imfs_openat F ft s cage_id dirfd path flags mode = do {
     r \<leftarrow> normalize_path_at F ft s cage_id dirfd path;
     (case r of
        Inl e \<Rightarrow> Some (e, s, ft)
      | Inr norm_path \<Rightarrow> open_resolved_path F ft s cage_id norm_path flags mode) }"

section \<open>Closing\<close>

definition close_node :: "imfs \<Rightarrow> nat \<Rightarrow> imfs option" where
  "close_node s node_idx =
     (if node_idx < length (nodes s) then do {
        s \<leftarrow> upd_node s node_idx (\<lambda>n. n\<lparr>in_use := in_use n - 1\<rparr>);
        n \<leftarrow> get_node s node_idx;
        if doomed n \<and> in_use n = 0 then reclaim_node s node_idx else Some s }
      else Some s)"

definition imfs_close ::
  "'ft fdtables_ops \<Rightarrow> 'ft \<Rightarrow> imfs \<Rightarrow> nat \<Rightarrow> nat \<Rightarrow> (int \<times> imfs \<times> 'ft) option" where
  "imfs_close F ft s cage_id fd = do {
     s \<leftarrow> (case translate_virtual_fd F ft cage_id fd of
         Some entry \<Rightarrow> close_node s (as_usize (int (underfd entry)))
       | None \<Rightarrow> Some s);
     let s = s\<lparr>fd_info := (fd_info s)((cage_id, fd) := None)\<rparr>;
     Some (case close_virtualfd F ft cage_id fd of
         Some ft \<Rightarrow> (0, s, ft)
       | None \<Rightarrow> (-9, s, ft)) }"

section \<open>Duplicating\<close>

text \<open>The reader or writer count of a FIFO node, raised by the access mode of the descriptor.\<close>

definition count_pipe_end :: "imfs \<Rightarrow> nat \<Rightarrow> nat \<Rightarrow> imfs option" where
  "count_pipe_end s node_idx a = do {
     n \<leftarrow> get_node s node_idx;
     (case n_info n of
        IPip data readers writers \<Rightarrow> do {
          r \<leftarrow> vec_get (fd_arcs s) a;
          let flags = (ucast (fi_flags r) :: i32);
          upd_node s node_idx (\<lambda>n. n\<lparr>n_info :=
            (if flags AND O_ACCMODE = O_WRONLY then IPip data readers (writers + 1)
             else IPip data (readers + 1) writers)\<rparr>) }
      | _ \<Rightarrow> Some s) }"

definition imfs_dup ::
  "'ft fdtables_ops \<Rightarrow> 'ft \<Rightarrow> imfs \<Rightarrow> nat \<Rightarrow> nat \<Rightarrow> (int \<times> imfs \<times> 'ft) option" where
  "imfs_dup F ft s cage_id oldfd =
     (case (translate_virtual_fd F ft cage_id oldfd, fd_info s (cage_id, oldfd)) of
        (Some entry, Some arc) \<Rightarrow>
          let node_idx = as_usize (int (underfd entry)) in
          if node_idx \<ge> length (nodes s) then Some (-9, s, ft)
          else do {
            s \<leftarrow> count_pipe_end s node_idx arc;
            (case get_unused_virtual_fd F ft cage_id IMFS_FDKIND (underfd entry) False 0 of
               Some (newfd, ft) \<Rightarrow> do {
                 s \<leftarrow> inc_use s node_idx;
                 Some (as_i32 (int newfd), s\<lparr>fd_info := (fd_info s)((cage_id, newfd) \<mapsto> arc)\<rparr>, ft) }
             | None \<Rightarrow> Some (-24, s, ft)) }
      | _ \<Rightarrow> Some (-9, s, ft))"

text \<open>The common end of \<open>dup2\<close> and \<open>dup_from_startfd\<close> once the descriptor is allocated.\<close>

definition dup_finish :: "imfs \<Rightarrow> nat \<Rightarrow> nat \<Rightarrow> nat \<Rightarrow> nat \<Rightarrow> imfs option" where
  "dup_finish s cage_id newfd node_idx arc = do {
     s \<leftarrow> inc_use s node_idx;
     s \<leftarrow> count_pipe_end s node_idx arc;
     Some (s\<lparr>fd_info := (fd_info s)((cage_id, newfd) \<mapsto> arc)\<rparr>) }"

definition imfs_dup2 ::
  "'ft fdtables_ops \<Rightarrow> 'ft \<Rightarrow> imfs \<Rightarrow> nat \<Rightarrow> nat \<Rightarrow> nat \<Rightarrow> bool \<Rightarrow> (int \<times> imfs \<times> 'ft) option" where
  "imfs_dup2 F ft s cage_id oldfd newfd cloexec =
     (case (translate_virtual_fd F ft cage_id oldfd, fd_info s (cage_id, oldfd)) of
        (Some entry, Some arc) \<Rightarrow>
          if oldfd = newfd then Some (as_i32 (int newfd), s, ft)
          else
            let node_idx = as_usize (int (underfd entry)) in
            if node_idx \<ge> length (nodes s) then Some (-9, s, ft)
            else do {
              (close_ret, s, ft) \<leftarrow>
                (if translate_virtual_fd F ft cage_id newfd \<noteq> None
                 then imfs_close F ft s cage_id newfd else Some (0, s, ft));
              if close_ret \<noteq> 0 then Some (close_ret, s, ft)
              else (case get_specific_virtual_fd F ft cage_id newfd IMFS_FDKIND (underfd entry) cloexec 0 of
                  Some ft \<Rightarrow> do {
                    s \<leftarrow> dup_finish s cage_id newfd node_idx arc;
                    Some (as_i32 (int newfd), s, ft) }
                | None \<Rightarrow> Some (-24, s, ft)) }
      | _ \<Rightarrow> Some (-9, s, ft))"

definition dup_from_startfd ::
  "'ft fdtables_ops \<Rightarrow> 'ft \<Rightarrow> imfs \<Rightarrow> nat \<Rightarrow> nat \<Rightarrow> int \<Rightarrow> bool \<Rightarrow> (int \<times> imfs \<times> 'ft) option" where
  "dup_from_startfd F ft s cage_id oldfd startfd cloexec =
     (if startfd < 0 then Some (-22, s, ft)
      else case (translate_virtual_fd F ft cage_id oldfd, fd_info s (cage_id, oldfd)) of
        (Some entry, Some arc) \<Rightarrow>
          let node_idx = as_usize (int (underfd entry)) in
          if node_idx \<ge> length (nodes s) then Some (-9, s, ft)
          else (case get_unused_virtual_fd_from_startfd F ft cage_id IMFS_FDKIND (underfd entry)
                  cloexec 0 (nat startfd) of
              Some (newfd, ft) \<Rightarrow> do {
                s \<leftarrow> dup_finish s cage_id newfd node_idx arc;
                Some (as_i32 (int newfd), s, ft) }
            | None \<Rightarrow> Some (-24, s, ft))
      | _ \<Rightarrow> Some (-9, s, ft))"

section \<open>Fork\<close>

definition imfs_fork :: "imfs \<Rightarrow> nat \<Rightarrow> nat \<Rightarrow> imfs" where
  "imfs_fork s parent_cage child_cage =
     (let s = s\<lparr>fd_info := (\<lambda>(c, fd). if c = child_cage
            then (case fd_info s (parent_cage, fd) of Some a \<Rightarrow> Some a | None \<Rightarrow> fd_info s (c, fd))
            else fd_info s (c, fd))\<rparr>
      in (case cwd_info s parent_cage of
            Some cwd \<Rightarrow> s\<lparr>cwd_info := (cwd_info s)(child_cage \<mapsto> cwd)\<rparr>
          | None \<Rightarrow> s))"

section \<open>Reading and writing\<close>

definition is_reg_info :: "node_info \<Rightarrow> bool" where
  "is_reg_info x = (case x of IReg _ _ \<Rightarrow> True | _ \<Rightarrow> False)"

definition imfs_read ::
  "'ft fdtables_ops \<Rightarrow> 'ft \<Rightarrow> imfs \<Rightarrow> nat \<Rightarrow> nat \<Rightarrow> byte list \<Rightarrow> (int \<times> byte list \<times> imfs) option" where
  "imfs_read F ft s cage_id fd buf = do {
     r \<leftarrow> get_node_and_flags F ft s cage_id fd;
     (case r of
        Inl e \<Rightarrow> Some (e, buf, s)
      | Inr (node_idx, flags) \<Rightarrow> do {
          node \<leftarrow> get_node s node_idx;
          if \<not> is_reg_info (n_info node) then Some (-9, buf, s)
          else if flags AND O_ACCMODE = O_WRONLY then Some (-9, buf, s)
          else do {
            offset \<leftarrow> get_offset s cage_id fd;
            (n, buf) \<leftarrow> read_from_node s node_idx (as_usize offset) buf;
            s \<leftarrow> (if n > 0 then update_atime s node_idx else Some s);
            s \<leftarrow> set_offset s cage_id fd (as_i64 (offset + int n));
            Some (as_i32 (int n), buf, s) } }) }"

definition imfs_pread ::
  "'ft fdtables_ops \<Rightarrow> 'ft \<Rightarrow> imfs \<Rightarrow> nat \<Rightarrow> nat \<Rightarrow> byte list \<Rightarrow> int \<Rightarrow> (int \<times> byte list \<times> imfs) option" where
  "imfs_pread F ft s cage_id fd buf offset =
     (if offset < 0 then Some (-22, buf, s)
      else do {
        r \<leftarrow> get_node_and_flags F ft s cage_id fd;
        (case r of
           Inl e \<Rightarrow> Some (e, buf, s)
         | Inr (node_idx, flags) \<Rightarrow> do {
             node \<leftarrow> get_node s node_idx;
             if \<not> is_reg_info (n_info node) then Some (-9, buf, s)
             else if flags AND O_ACCMODE = O_WRONLY then Some (-9, buf, s)
             else do {
               (n, buf) \<leftarrow> read_from_node s node_idx (as_usize offset) buf;
               s \<leftarrow> (if n > 0 then update_atime s node_idx else Some s);
               Some (as_i32 (int n), buf, s) } }) })"

definition touch_written :: "imfs \<Rightarrow> nat \<Rightarrow> nat \<Rightarrow> imfs option" where
  "touch_written s node_idx n =
     (if n > 0 then do { s \<leftarrow> update_mtime s node_idx; update_ctime s node_idx } else Some s)"

definition imfs_write ::
  "'ft fdtables_ops \<Rightarrow> 'ft \<Rightarrow> imfs \<Rightarrow> nat \<Rightarrow> nat \<Rightarrow> byte list \<Rightarrow> (int \<times> imfs) option" where
  "imfs_write F ft s cage_id fd buf = do {
     r \<leftarrow> get_node_and_flags F ft s cage_id fd;
     (case r of
        Inl e \<Rightarrow> Some (e, s)
      | Inr (node_idx, flags) \<Rightarrow> do {
          node \<leftarrow> get_node s node_idx;
          if \<not> is_reg_info (n_info node) then Some (-9, s)
          else if flags AND O_ACCMODE = O_RDONLY then Some (-9, s)
          else do {
            offset \<leftarrow> (if flags AND O_APPEND \<noteq> 0 then Some (int (total_size node))
                       else get_offset s cage_id fd);
            (n, s) \<leftarrow> write_to_node s node_idx (as_usize offset) buf;
            s \<leftarrow> touch_written s node_idx n;
            s \<leftarrow> set_offset s cage_id fd (as_i64 (offset + int n));
            Some (as_i32 (int n), s) } }) }"

definition imfs_pwrite ::
  "'ft fdtables_ops \<Rightarrow> 'ft \<Rightarrow> imfs \<Rightarrow> nat \<Rightarrow> nat \<Rightarrow> byte list \<Rightarrow> int \<Rightarrow> (int \<times> imfs) option" where
  "imfs_pwrite F ft s cage_id fd buf offset =
     (if offset < 0 then Some (-22, s)
      else do {
        r \<leftarrow> get_node_and_flags F ft s cage_id fd;
        (case r of
           Inl e \<Rightarrow> Some (e, s)
         | Inr (node_idx, flags) \<Rightarrow> do {
             node \<leftarrow> get_node s node_idx;
             if \<not> is_reg_info (n_info node) then Some (-9, s)
             else if flags AND O_ACCMODE = O_RDONLY then Some (-9, s)
             else do {
               (n, s) \<leftarrow> write_to_node s node_idx (as_usize offset) buf;
               s \<leftarrow> touch_written s node_idx n;
               Some (as_i32 (int n), s) } }) })"

text \<open>\<open>lseek\<close>: \<open>whence\<close> 0, 1, 2 is \<open>SEEK_SET\<close>, \<open>SEEK_CUR\<close>, \<open>SEEK_END\<close>.\<close>

definition seek_target :: "int \<Rightarrow> int \<Rightarrow> int \<Rightarrow> int \<Rightarrow> int option" where
  "seek_target current sz offset whence =
     (if whence = 0 then Some offset
      else if whence = 1 then Some (as_i64 (current + offset))
      else if whence = 2 then Some (as_i64 (sz + offset))
      else None)"

definition imfs_lseek ::
  "'ft fdtables_ops \<Rightarrow> 'ft \<Rightarrow> imfs \<Rightarrow> nat \<Rightarrow> nat \<Rightarrow> int \<Rightarrow> int \<Rightarrow> (int \<times> imfs) option" where
  "imfs_lseek F ft s cage_id fd offset whence = do {
     r \<leftarrow> get_node_and_flags F ft s cage_id fd;
     (case r of
        Inl e \<Rightarrow> Some (e, s)
      | Inr (node_idx, _) \<Rightarrow> do {
          node \<leftarrow> get_node s node_idx;
          (case n_info node of
             IReg _ _ \<Rightarrow> do {
               current \<leftarrow> get_offset s cage_id fd;
               (case seek_target current (int (total_size node)) offset whence of
                  None \<Rightarrow> Some (-22, s)
                | Some new_offset \<Rightarrow>
                    if new_offset < 0 then Some (-22, s)
                    else do {
                      s \<leftarrow> set_offset s cage_id fd new_offset;
                      Some (as_i32 new_offset, s) }) }
           | IPip _ _ _ \<Rightarrow> Some (-29, s)
           | IDir _ \<Rightarrow> Some (as_i32 offset, s)
           | _ \<Rightarrow> Some (-9, s)) }) }"

definition imfs_ftruncate ::
  "'ft fdtables_ops \<Rightarrow> 'ft \<Rightarrow> imfs \<Rightarrow> nat \<Rightarrow> nat \<Rightarrow> int \<Rightarrow> (int \<times> imfs) option" where
  "imfs_ftruncate F ft s cage_id fd len =
     (if len < 0 then Some (-22, s)
      else do {
        r \<leftarrow> get_node_and_flags F ft s cage_id fd;
        (case r of
           Inl e \<Rightarrow> Some (e, s)
         | Inr (node_idx, flags) \<Rightarrow>
             if flags AND O_ACCMODE = O_RDONLY then Some (-9, s)
             else do {
               n \<leftarrow> get_node s node_idx;
               (case node_type n of
                  Reg \<Rightarrow> do {
                    s \<leftarrow> truncate_node s node_idx (as_usize len);
                    s \<leftarrow> update_mtime s node_idx;
                    s \<leftarrow> update_ctime s node_idx;
                    Some (0, s) }
                | Dir \<Rightarrow> Some (-21, s)
                | _ \<Rightarrow> Some (-22, s)) }) })"

section \<open>Descriptor control\<close>

definition imfs_fcntl ::
  "'ft fdtables_ops \<Rightarrow> 'ft \<Rightarrow> imfs \<Rightarrow> nat \<Rightarrow> nat \<Rightarrow> int \<Rightarrow> i32 \<Rightarrow> (int \<times> imfs \<times> 'ft) option" where
  "imfs_fcntl F ft s cage_id fd cmd arg =
     (if cmd = 0 then dup_from_startfd F ft s cage_id fd (sint arg) False
      else if cmd = 1030 then dup_from_startfd F ft s cage_id fd (sint arg) True
      else if cmd = 1 then Some (case translate_virtual_fd F ft cage_id fd of
          Some entry \<Rightarrow> (if should_cloexec entry then 1 else 0, s, ft)
        | None \<Rightarrow> (-9, s, ft))
      else if cmd = 2 then Some (case set_cloexec F ft cage_id fd (arg AND 1 \<noteq> 0) of
          Some ft \<Rightarrow> (0, s, ft)
        | None \<Rightarrow> (-9, s, ft))
      else if cmd = 3 then (case fd_info s (cage_id, fd) of
          None \<Rightarrow> Some (-9, s, ft)
        | Some a \<Rightarrow> do {
            r \<leftarrow> vec_get (fd_arcs s) a;
            Some (sint (ucast (fi_flags r) :: i32), s, ft) })
      else Some (-1, s, ft))"

section \<open>Directory listing\<close>

text \<open>The loop over the remaining entries: \<open>Inl\<close> is the early \<open>EINVAL\<close> return.\<close>

fun getdents_loop :: "imfs \<Rightarrow> dir_entry list \<Rightarrow> nat \<Rightarrow> nat \<Rightarrow> byte list \<Rightarrow>
    ((byte list \<times> int) + (nat \<times> nat \<times> byte list)) option" where
  "getdents_loop s [] entry_idx written buf = Some (Inr (entry_idx, written, buf))"
| "getdents_loop s (e # es) entry_idx written buf =
     (let reclen = dirent_reclen (length (de_name e)) in
      if reclen > length buf then Some (Inl (buf, -22))
      else if written + reclen > length buf then Some (Inr (entry_idx, written, buf))
      else do {
        d_type \<leftarrow> dirent_type s (de_node_idx e);
        piece \<leftarrow> slice_get buf written (written + reclen);
        (k, piece) \<leftarrow> write_dirent_record piece (de_node_idx e + 1) (entry_idx + 1) d_type (de_name e);
        buf \<leftarrow> slice_put buf written piece;
        getdents_loop s es (entry_idx + 1) (written + k) buf })"

definition imfs_getdents ::
  "'ft fdtables_ops \<Rightarrow> 'ft \<Rightarrow> imfs \<Rightarrow> nat \<Rightarrow> nat \<Rightarrow> byte list \<Rightarrow> (int \<times> byte list \<times> imfs) option" where
  "imfs_getdents F ft s cage_id fd buf = do {
     r \<leftarrow> get_node_and_flags F ft s cage_id fd;
     (case r of
        Inl e \<Rightarrow> Some (e, buf, s)
      | Inr (node_idx, flags) \<Rightarrow> do {
          node \<leftarrow> get_node s node_idx;
          (case n_info node of
             IDir cs \<Rightarrow>
               if flags AND O_ACCMODE = O_WRONLY then Some (-9, buf, s)
               else do {
                 start \<leftarrow> get_offset s cage_id fd;
                 if start < 0 then Some (-22, buf, s)
                 else do {
                   l \<leftarrow> getdents_loop s (drop (as_usize start) cs) (as_usize start) 0 buf;
                   (case l of
                      Inl (buf, e) \<Rightarrow> Some (e, buf, s)
                    | Inr (entry_idx, written, buf) \<Rightarrow> do {
                        s \<leftarrow> set_offset s cage_id fd (int entry_idx);
                        Some (as_i32 (int written), buf, s) }) } }
           | _ \<Rightarrow> Some (-20, buf, s)) }) }"

end
