(* ===== verification/Imfs_Tree.thy ===== *)
theory Imfs_Tree
  imports Imfs_Fd
begin

text \<open>
  The path operations of IMFS (\<open>imfs/mod.rs\<close>, lines 1057 to 1284, 1570 to 2082 and 2114 to
  2153): working directories, access checks, stat, links, symbolic links, rename,
  permissions and ownership, times, special nodes, truncation by path, directory creation
  and removal.
\<close>

definition AT_SYMLINK_NOFOLLOW :: i32 where "AT_SYMLINK_NOFOLLOW = 0x100"
definition LIND_AT_REMOVEDIR :: i32 where "LIND_AT_REMOVEDIR = 0x200"
definition LIND_AT_SYMLINK_FOLLOW :: i32 where "LIND_AT_SYMLINK_FOLLOW = 0x400"
definition LIND_AT_NO_AUTOMOUNT :: i32 where "LIND_AT_NO_AUTOMOUNT = 0x800"
definition LIND_AT_EMPTY_PATH :: i32 where "LIND_AT_EMPTY_PATH = 0x1000"
definition S_IFIFO :: u32 where "S_IFIFO = 0x1000"
definition S_IFREG :: u32 where "S_IFREG = 0x8000"
definition S_ISUID :: u32 where "S_ISUID = 0x800"
definition S_ISGID :: u32 where "S_ISGID = 0x400"
definition CHOWN_NO_CHANGE :: u32 where "CHOWN_NO_CHANGE = 0xFFFFFFFF"

section \<open>Working directories\<close>

definition imfs_chdir :: "imfs \<Rightarrow> nat \<Rightarrow> string \<Rightarrow> (int \<times> imfs) option" where
  "imfs_chdir s cage_id path = do {
     let norm_path = normalize_path_for_cage s cage_id path;
     r \<leftarrow> resolve_path s norm_path True;
     (case r of
        Inl e \<Rightarrow> Some (e, s)
      | Inr node_idx \<Rightarrow> do {
          n \<leftarrow> get_node s node_idx;
          if node_type n \<noteq> Dir then Some (-20, s)
          else Some (0, s\<lparr>cwd_info := (cwd_info s)(cage_id \<mapsto> norm_path)\<rparr>) }) }"

text \<open>The loop of \<open>fchdir\<close> checks every index: \<open>Inl\<close> is the \<open>EBADF\<close> return.\<close>

partial_function (option) fchdir_follow :: "imfs \<Rightarrow> nat \<Rightarrow> nat result option" where
  "fchdir_follow s idx =
     (if idx \<ge> length (nodes s) then Some (Inl (-9))
      else (case n_info (nodes s ! idx) of
          IHardLink target \<Rightarrow> fchdir_follow s target
        | _ \<Rightarrow> Some (Inr idx)))"

definition imfs_fchdir ::
  "'ft fdtables_ops \<Rightarrow> 'ft \<Rightarrow> imfs \<Rightarrow> nat \<Rightarrow> nat \<Rightarrow> (int \<times> imfs) option" where
  "imfs_fchdir F ft s cage_id fd = (case translate_virtual_fd F ft cage_id fd of
      None \<Rightarrow> Some (-9, s)
    | Some entry \<Rightarrow> do {
        r \<leftarrow> fchdir_follow s (as_usize (int (underfd entry)));
        (case r of
           Inl e \<Rightarrow> Some (e, s)
         | Inr node_idx \<Rightarrow> do {
             n \<leftarrow> get_node s node_idx;
             if node_type n \<noteq> Dir then Some (-20, s)
             else do {
               cwd \<leftarrow> absolute_path_for_node s node_idx;
               Some (0, s\<lparr>cwd_info := (cwd_info s)(cage_id \<mapsto> cwd)\<rparr>) } }) })"

definition imfs_getcwd :: "imfs \<Rightarrow> nat \<Rightarrow> string result" where
  "imfs_getcwd s cage_id = (case cwd_info s cage_id of Some d \<Rightarrow> Inr d | None \<Rightarrow> Inl (-1))"

section \<open>Access and stat\<close>

definition access_resolved_path :: "imfs \<Rightarrow> string \<Rightarrow> i32 \<Rightarrow> int option" where
  "access_resolved_path s norm_path mode = do {
     r \<leftarrow> resolve_path s norm_path True;
     (case r of
        Inl e \<Rightarrow> Some e
      | Inr node_idx \<Rightarrow>
          if mode = 0 then Some (if node_idx < length (nodes s) then 0 else -2)
          else do {
            n \<leftarrow> get_node s node_idx;
            let m = n_mode n;
            Some (if mode AND 4 \<noteq> 0 \<and> m AND S_IRUSR = 0 then -13
                  else if mode AND 2 \<noteq> 0 \<and> m AND S_IWUSR = 0 then -13
                  else if mode AND 1 \<noteq> 0 \<and> m AND S_IXUSR = 0 then -13
                  else 0) }) }"

definition imfs_access :: "imfs \<Rightarrow> nat \<Rightarrow> string \<Rightarrow> i32 \<Rightarrow> int option" where
  "imfs_access s cage_id path mode =
     access_resolved_path s (normalize_path_for_cage s cage_id path) mode"

definition imfs_accessat ::
  "'ft fdtables_ops \<Rightarrow> 'ft \<Rightarrow> imfs \<Rightarrow> nat \<Rightarrow> int \<Rightarrow> string \<Rightarrow> i32 \<Rightarrow> int option" where
  "imfs_accessat F ft s cage_id dirfd path mode = do {
     r \<leftarrow> normalize_path_at F ft s cage_id dirfd path;
     (case r of Inl e \<Rightarrow> Some e | Inr norm_path \<Rightarrow> access_resolved_path s norm_path mode) }"

definition stat_resolved_path :: "imfs \<Rightarrow> string \<Rightarrow> stat_buf \<Rightarrow> bool \<Rightarrow> (int \<times> stat_buf) option" where
  "stat_resolved_path s norm_path statbuf follow_final = do {
     r \<leftarrow> resolve_path s norm_path follow_final;
     (case r of
        Inl e \<Rightarrow> Some (e, statbuf)
      | Inr node_idx \<Rightarrow> map_option (\<lambda>b. (0, b)) (fill_stat s node_idx)) }"

definition imfs_stat :: "imfs \<Rightarrow> nat \<Rightarrow> string \<Rightarrow> stat_buf \<Rightarrow> (int \<times> stat_buf) option" where
  "imfs_stat s cage_id path statbuf =
     stat_resolved_path s (normalize_path_for_cage s cage_id path) statbuf True"

definition imfs_lstat :: "imfs \<Rightarrow> nat \<Rightarrow> string \<Rightarrow> stat_buf \<Rightarrow> (int \<times> stat_buf) option" where
  "imfs_lstat s cage_id path statbuf =
     stat_resolved_path s (normalize_path_for_cage s cage_id path) statbuf False"

definition imfs_statfs :: "imfs \<Rightarrow> nat \<Rightarrow> string \<Rightarrow> fs_data \<Rightarrow> (int \<times> fs_data) option" where
  "imfs_statfs s cage_id path statbuf = do {
     r \<leftarrow> resolve_path s (normalize_path_for_cage s cage_id path) True;
     Some (case r of Inl e \<Rightarrow> (e, statbuf) | Inr _ \<Rightarrow> (0, fill_statfs s)) }"

definition imfs_fstat ::
  "'ft fdtables_ops \<Rightarrow> 'ft \<Rightarrow> imfs \<Rightarrow> nat \<Rightarrow> nat \<Rightarrow> stat_buf \<Rightarrow> (int \<times> stat_buf) option" where
  "imfs_fstat F ft s cage_id fd statbuf = do {
     r \<leftarrow> get_node_and_flags F ft s cage_id fd;
     (case r of
        Inl e \<Rightarrow> Some (e, statbuf)
      | Inr (node_idx, _) \<Rightarrow> map_option (\<lambda>b. (0, b)) (fill_stat s node_idx)) }"

definition imfs_fstatfs ::
  "'ft fdtables_ops \<Rightarrow> 'ft \<Rightarrow> imfs \<Rightarrow> nat \<Rightarrow> nat \<Rightarrow> fs_data \<Rightarrow> (int \<times> fs_data) option" where
  "imfs_fstatfs F ft s cage_id fd statbuf = do {
     r \<leftarrow> get_node_and_flags F ft s cage_id fd;
     Some (case r of Inl e \<Rightarrow> (e, statbuf) | Inr _ \<Rightarrow> (0, fill_statfs s)) }"

text \<open>The branch of \<open>statat\<close> for the empty path.\<close>

definition statat_empty ::
  "'ft fdtables_ops \<Rightarrow> 'ft \<Rightarrow> imfs \<Rightarrow> nat \<Rightarrow> int \<Rightarrow> stat_buf \<Rightarrow> (int \<times> stat_buf \<times> imfs) option" where
  "statat_empty F ft s cage_id dirfd statbuf = do {
     r \<leftarrow> (if dirfd = LIND_AT_FDCWD
           then resolve_path s (normalize_path_for_cage s cage_id ''.'') True
           else Some (case translate_virtual_fd F ft cage_id (as_u64 dirfd) of
               None \<Rightarrow> Inl (-9) | Some entry \<Rightarrow> Inr (as_usize (int (underfd entry)))));
     (case r of
        Inl e \<Rightarrow> Some (e, statbuf, s)
      | Inr node_idx \<Rightarrow>
          if node_idx \<ge> length (nodes s) then Some (-9, statbuf, s)
          else do {
            b \<leftarrow> fill_stat s node_idx;
            s \<leftarrow> update_atime s node_idx;
            Some (0, b, s) }) }"

definition imfs_statat ::
  "'ft fdtables_ops \<Rightarrow> 'ft \<Rightarrow> imfs \<Rightarrow> nat \<Rightarrow> int \<Rightarrow> string \<Rightarrow> stat_buf \<Rightarrow> i32 \<Rightarrow> (int \<times> stat_buf \<times> imfs) option" where
  "imfs_statat F ft s cage_id dirfd path statbuf flags =
     (let supported_flags = AT_SYMLINK_NOFOLLOW OR LIND_AT_NO_AUTOMOUNT OR LIND_AT_EMPTY_PATH in
      if flags AND NOT supported_flags \<noteq> 0 then Some (-22, statbuf, s)
      else if path = [] \<and> flags AND LIND_AT_EMPTY_PATH \<noteq> 0
      then statat_empty F ft s cage_id dirfd statbuf
      else do {
        r \<leftarrow> normalize_path_at F ft s cage_id dirfd path;
        (case r of
           Inl e \<Rightarrow> Some (e, statbuf, s)
         | Inr norm_path \<Rightarrow> do {
             (v, b) \<leftarrow> stat_resolved_path s norm_path statbuf (flags AND AT_SYMLINK_NOFOLLOW = 0);
             Some (v, b, s) }) })"

section \<open>Removing entries\<close>

definition touch_dir :: "imfs \<Rightarrow> nat \<Rightarrow> imfs option" where
  "touch_dir s i = do { s \<leftarrow> update_mtime s i; update_ctime s i }"

definition rmdir_resolved_path :: "imfs \<Rightarrow> string \<Rightarrow> (int \<times> imfs) option" where
  "rmdir_resolved_path s norm_path = do {
     r \<leftarrow> resolve_path s norm_path True;
     (case r of
        Inl e \<Rightarrow> Some (e, s)
      | Inr node_idx \<Rightarrow>
          if node_idx = root_idx s then Some (-16, s)
          else do {
            n \<leftarrow> get_node s node_idx;
            (case n_info n of
               IDir cs \<Rightarrow>
                 if \<exists>e \<in> set cs. de_name e \<noteq> ''.'' \<and> de_name e \<noteq> ''..'' then Some (-39, s)
                 else do {
                   let parent = parent_idx n;
                   s \<leftarrow> remove_child s node_idx;
                   s \<leftarrow> touch_dir s parent;
                   s \<leftarrow> update_ctime s node_idx;
                   s \<leftarrow> unlink_node s node_idx;
                   Some (0, s) }
             | _ \<Rightarrow> Some (-20, s)) }) }"

definition imfs_rmdir :: "imfs \<Rightarrow> nat \<Rightarrow> string \<Rightarrow> (int \<times> imfs) option" where
  "imfs_rmdir s cage_id path = rmdir_resolved_path s (normalize_path_for_cage s cage_id path)"

definition unlink_resolved_path :: "imfs \<Rightarrow> string \<Rightarrow> (int \<times> imfs) option" where
  "unlink_resolved_path s norm_path =
     (if norm_path = ''/'' then Some (-1, s)
      else do {
        r \<leftarrow> resolve_parent_and_name s norm_path;
        (case r of
           Inl e \<Rightarrow> Some (e, s)
         | Inr (parent, filename) \<Rightarrow>
             if is_dot_name filename then Some (-1, s)
             else do {
               r \<leftarrow> resolve_path s norm_path False;
               (case r of
                  Inl e \<Rightarrow> Some (e, s)
                | Inr node_idx \<Rightarrow> do {
                    n \<leftarrow> get_node s node_idx;
                    if node_type n = Dir then Some (-21, s)
                    else do {
                      s \<leftarrow> remove_child s node_idx;
                      s \<leftarrow> touch_dir s parent;
                      s \<leftarrow> update_ctime s node_idx;
                      s \<leftarrow> unlink_node s node_idx;
                      Some (0, s) } }) }) })"

definition imfs_unlink :: "imfs \<Rightarrow> nat \<Rightarrow> string \<Rightarrow> (int \<times> imfs) option" where
  "imfs_unlink s cage_id path = unlink_resolved_path s (normalize_path_for_cage s cage_id path)"

definition imfs_unlinkat ::
  "'ft fdtables_ops \<Rightarrow> 'ft \<Rightarrow> imfs \<Rightarrow> nat \<Rightarrow> int \<Rightarrow> string \<Rightarrow> i32 \<Rightarrow> (int \<times> imfs) option" where
  "imfs_unlinkat F ft s cage_id dirfd path flags =
     (if flags AND NOT LIND_AT_REMOVEDIR \<noteq> 0 then Some (-22, s)
      else do {
        r \<leftarrow> normalize_path_at F ft s cage_id dirfd path;
        (case r of
           Inl e \<Rightarrow> Some (e, s)
         | Inr norm_path \<Rightarrow>
             if flags AND LIND_AT_REMOVEDIR \<noteq> 0 then rmdir_resolved_path s norm_path
             else unlink_resolved_path s norm_path) })"

section \<open>Creating entries\<close>

text \<open>\<open>match resolve_path(p, false) { Ok(_) => EEXIST, Err(-2) => {}, Err(e) => return e }\<close>:
  \<open>Some e\<close> is the early return.\<close>

definition must_not_exist :: "imfs \<Rightarrow> string \<Rightarrow> int option option" where
  "must_not_exist s path = do {
     r \<leftarrow> resolve_path s path False;
     Some (case r of Inr _ \<Rightarrow> Some (-17) | Inl e \<Rightarrow> (if e = -2 then None else Some e)) }"

definition link_new :: "imfs \<Rightarrow> nat \<Rightarrow> string \<Rightarrow> nat \<Rightarrow> imfs option" where
  "link_new s parent filename old_idx = do {
     old \<leftarrow> get_node s old_idx;
     (new_idx, s) \<leftarrow> create_node s filename Lnk (n_mode old);
     s \<leftarrow> add_child s parent new_idx;
     s \<leftarrow> upd_node s new_idx (\<lambda>n. n\<lparr>n_info := IHardLink old_idx\<rparr>);
     s \<leftarrow> touch_dir s parent;
     s \<leftarrow> update_ctime s old_idx;
     touch_dir s new_idx }"

definition link_resolved_paths :: "imfs \<Rightarrow> string \<Rightarrow> string \<Rightarrow> bool \<Rightarrow> (int \<times> imfs) option" where
  "link_resolved_paths s norm_oldpath norm_newpath follow_old = do {
     r \<leftarrow> resolve_path s norm_oldpath follow_old;
     (case r of
        Inl e \<Rightarrow> Some (e, s)
      | Inr old_idx \<Rightarrow> do {
          old \<leftarrow> get_node s old_idx;
          if node_type old = Dir then Some (-1, s)
          else do {
            x \<leftarrow> must_not_exist s norm_newpath;
            (case x of
               Some e \<Rightarrow> Some (e, s)
             | None \<Rightarrow> do {
                 r \<leftarrow> resolve_parent_and_name s norm_newpath;
                 (case r of
                    Inl e \<Rightarrow> Some (e, s)
                  | Inr (parent, filename) \<Rightarrow>
                      if is_dot_name filename then Some (-1, s)
                      else if length filename \<ge> MAX_NODE_NAME then Some (-36, s)
                      else map_option (\<lambda>s. (0, s)) (link_new s parent filename old_idx)) }) } }) }"

definition imfs_link :: "imfs \<Rightarrow> nat \<Rightarrow> string \<Rightarrow> string \<Rightarrow> (int \<times> imfs) option" where
  "imfs_link s cage_id oldpath newpath =
     link_resolved_paths s (normalize_path_for_cage s cage_id oldpath)
       (normalize_path_for_cage s cage_id newpath) True"

definition imfs_linkat ::
  "'ft fdtables_ops \<Rightarrow> 'ft \<Rightarrow> imfs \<Rightarrow> nat \<Rightarrow> int \<Rightarrow> string \<Rightarrow> int \<Rightarrow> string \<Rightarrow> i32 \<Rightarrow> (int \<times> imfs) option" where
  "imfs_linkat F ft s cage_id olddirfd oldpath newdirfd newpath flags =
     (if flags AND NOT LIND_AT_SYMLINK_FOLLOW \<noteq> 0 then Some (-22, s)
      else do {
        r \<leftarrow> normalize_path_at F ft s cage_id olddirfd oldpath;
        (case r of
           Inl e \<Rightarrow> Some (e, s)
         | Inr norm_oldpath \<Rightarrow> do {
             r \<leftarrow> normalize_path_at F ft s cage_id newdirfd newpath;
             (case r of
                Inl e \<Rightarrow> Some (e, s)
              | Inr norm_newpath \<Rightarrow>
                  link_resolved_paths s norm_oldpath norm_newpath
                    (flags AND LIND_AT_SYMLINK_FOLLOW \<noteq> 0)) }) })"

definition symlink_new :: "imfs \<Rightarrow> nat \<Rightarrow> string \<Rightarrow> string \<Rightarrow> imfs option" where
  "symlink_new s parent filename target = do {
     (new_idx, s) \<leftarrow> create_node s filename Lnk 0x1FF;
     s \<leftarrow> upd_node s new_idx (\<lambda>n. n\<lparr>n_info := ISymlink target, total_size := length target\<rparr>);
     s \<leftarrow> add_child s parent new_idx;
     s \<leftarrow> touch_dir s parent;
     touch_dir s new_idx }"

definition symlink_resolved_path :: "imfs \<Rightarrow> string \<Rightarrow> string \<Rightarrow> (int \<times> imfs) option" where
  "symlink_resolved_path s target norm_linkpath = do {
     x \<leftarrow> must_not_exist s norm_linkpath;
     (case x of
        Some e \<Rightarrow> Some (e, s)
      | None \<Rightarrow> do {
          r \<leftarrow> resolve_parent_and_name s norm_linkpath;
          (case r of
             Inl e \<Rightarrow> Some (e, s)
           | Inr (parent, filename) \<Rightarrow>
               if is_dot_name filename then Some (-17, s)
               else if length filename \<ge> MAX_NODE_NAME then Some (-36, s)
               else map_option (\<lambda>s. (0, s)) (symlink_new s parent filename target)) }) }"

definition imfs_symlink :: "imfs \<Rightarrow> nat \<Rightarrow> string \<Rightarrow> string \<Rightarrow> (int \<times> imfs) option" where
  "imfs_symlink s cage_id target linkpath =
     symlink_resolved_path s target (normalize_path_for_cage s cage_id linkpath)"

definition imfs_symlinkat ::
  "'ft fdtables_ops \<Rightarrow> 'ft \<Rightarrow> imfs \<Rightarrow> nat \<Rightarrow> string \<Rightarrow> int \<Rightarrow> string \<Rightarrow> (int \<times> imfs) option" where
  "imfs_symlinkat F ft s cage_id target newdirfd linkpath = do {
     r \<leftarrow> normalize_path_at F ft s cage_id newdirfd linkpath;
     (case r of Inl e \<Rightarrow> Some (e, s) | Inr p \<Rightarrow> symlink_resolved_path s target p) }"

definition readlink_resolved_path :: "imfs \<Rightarrow> string \<Rightarrow> (string result \<times> imfs) option" where
  "readlink_resolved_path s norm_path = do {
     r \<leftarrow> resolve_path s norm_path False;
     (case r of
        Inl e \<Rightarrow> Some (Inl e, s)
      | Inr node_idx \<Rightarrow> do {
          n \<leftarrow> get_node s node_idx;
          (case n_info n of
             ISymlink target \<Rightarrow> do { s \<leftarrow> update_atime s node_idx; Some (Inr target, s) }
           | _ \<Rightarrow> Some (Inl (-22), s)) }) }"

definition imfs_readlink :: "imfs \<Rightarrow> nat \<Rightarrow> string \<Rightarrow> (string result \<times> imfs) option" where
  "imfs_readlink s cage_id path = readlink_resolved_path s (normalize_path_for_cage s cage_id path)"

definition imfs_readlinkat ::
  "'ft fdtables_ops \<Rightarrow> 'ft \<Rightarrow> imfs \<Rightarrow> nat \<Rightarrow> int \<Rightarrow> string \<Rightarrow> (string result \<times> imfs) option" where
  "imfs_readlinkat F ft s cage_id dirfd path = do {
     r \<leftarrow> normalize_path_at F ft s cage_id dirfd path;
     (case r of Inl e \<Rightarrow> Some (Inl e, s) | Inr p \<Rightarrow> readlink_resolved_path s p) }"

text \<open>\<open>mkdir\<close>, with the \<open>.\<close> and \<open>..\<close> link nodes.\<close>

definition add_dot :: "imfs \<Rightarrow> nat \<Rightarrow> string \<Rightarrow> nat \<Rightarrow> imfs option" where
  "add_dot s dir_idx name target = do {
     (dot_idx, s) \<leftarrow> create_node s name Lnk 0;
     s \<leftarrow> upd_node s dot_idx (\<lambda>n. n\<lparr>n_info := IHardLink target\<rparr>);
     add_child s dir_idx dot_idx }"

definition mkdir_new :: "imfs \<Rightarrow> nat \<Rightarrow> string \<Rightarrow> u32 \<Rightarrow> imfs option" where
  "mkdir_new s parent dirname mode = do {
     (dir_idx, s) \<leftarrow> create_node s dirname Dir mode;
     s \<leftarrow> add_child s parent dir_idx;
     s \<leftarrow> add_dot s dir_idx ''.'' dir_idx;
     s \<leftarrow> add_dot s dir_idx ''..'' parent;
     s \<leftarrow> touch_dir s parent;
     touch_dir s dir_idx }"

definition imfs_mkdir :: "imfs \<Rightarrow> nat \<Rightarrow> string \<Rightarrow> u32 \<Rightarrow> (int \<times> imfs) option" where
  "imfs_mkdir s cage_id path mode = do {
     let norm_path = normalize_path_for_cage s cage_id path;
     r \<leftarrow> resolve_path s norm_path True;
     (case r of
        Inr _ \<Rightarrow> Some (-17, s)
      | Inl _ \<Rightarrow>
          if norm_path = ''/'' then Some (-17, s)
          else do {
            r \<leftarrow> resolve_parent_and_name s norm_path;
            (case r of
               Inl e \<Rightarrow> Some (e, s)
             | Inr (parent, dirname) \<Rightarrow>
                 if is_dot_name dirname then Some (-17, s)
                 else map_option (\<lambda>s. (0, s)) (mkdir_new s parent dirname mode)) }) }"

definition mknod_new :: "imfs \<Rightarrow> nat \<Rightarrow> string \<Rightarrow> node_type \<Rightarrow> u32 \<Rightarrow> imfs option" where
  "mknod_new s parent name t mode = do {
     (node_idx, s) \<leftarrow> create_node s name t mode;
     s \<leftarrow> add_child s parent node_idx;
     s \<leftarrow> touch_dir s parent;
     touch_dir s node_idx }"

definition mknod_type :: "u32 \<Rightarrow> node_type option" where
  "mknod_type mode =
     (if mode AND S_IFMT = S_IFIFO then Some Pip
      else if mode AND S_IFMT = S_IFREG \<or> mode AND S_IFMT = 0 then Some Reg
      else None)"

definition imfs_mknod :: "imfs \<Rightarrow> nat \<Rightarrow> string \<Rightarrow> u32 \<Rightarrow> (int \<times> imfs) option" where
  "imfs_mknod s cage_id path mode = (case mknod_type mode of
      None \<Rightarrow> Some (-1, s)
    | Some t \<Rightarrow> do {
        let norm_path = normalize_path_for_cage s cage_id path;
        r \<leftarrow> resolve_path s norm_path True;
        (case r of
           Inr _ \<Rightarrow> Some (-17, s)
         | Inl _ \<Rightarrow> do {
             r \<leftarrow> resolve_parent_and_name s norm_path;
             (case r of
                Inl e \<Rightarrow> Some (e, s)
              | Inr (parent, name) \<Rightarrow>
                  if is_dot_name name then Some (-17, s)
                  else if length name \<ge> MAX_NODE_NAME then Some (-36, s)
                  else map_option (\<lambda>s. (0, s)) (mknod_new s parent name t mode)) }) })"

section \<open>Rename\<close>

text \<open>Replacing an existing target: \<open>Some e\<close> is an early return with \<open>e\<close>.\<close>

definition rename_replace :: "imfs \<Rightarrow> string \<Rightarrow> nat \<Rightarrow> nat \<Rightarrow> (int option \<times> imfs) option" where
  "rename_replace s norm_newpath old_idx new_parent = do {
     r \<leftarrow> resolve_path s norm_newpath False;
     (case r of
        Inr existing_idx \<Rightarrow>
          if existing_idx = old_idx then Some (Some 0, s)
          else do {
            n \<leftarrow> get_node s existing_idx;
            if node_type n = Dir then Some (Some (-1), s)
            else do {
              s \<leftarrow> remove_child s existing_idx;
              s \<leftarrow> touch_dir s new_parent;
              s \<leftarrow> update_ctime s existing_idx;
              s \<leftarrow> unlink_node s existing_idx;
              Some (None, s) } }
      | Inl e \<Rightarrow> Some (if e = -2 then None else Some e, s)) }"

definition rename_move :: "imfs \<Rightarrow> nat \<Rightarrow> nat \<Rightarrow> nat \<Rightarrow> string \<Rightarrow> imfs option" where
  "rename_move s old_idx old_parent new_parent new_name = do {
     s \<leftarrow> remove_child s old_idx;
     s \<leftarrow> upd_node s old_idx (\<lambda>n. n\<lparr>n_name := new_name\<rparr>);
     s \<leftarrow> add_child s new_parent old_idx;
     s \<leftarrow> touch_dir s old_parent;
     s \<leftarrow> (if new_parent \<noteq> old_parent then touch_dir s new_parent else Some s);
     update_ctime s old_idx }"

definition rename_onto :: "imfs \<Rightarrow> string \<Rightarrow> string \<Rightarrow> nat \<Rightarrow> nat \<Rightarrow> (int \<times> imfs) option" where
  "rename_onto s norm_oldpath norm_newpath old_idx old_parent = do {
     r \<leftarrow> resolve_parent_and_name s norm_newpath;
     (case r of
        Inl e \<Rightarrow> Some (e, s)
      | Inr (new_parent, new_name) \<Rightarrow>
          if is_dot_name new_name then Some (-1, s)
          else if length new_name \<ge> MAX_NODE_NAME then Some (-36, s)
          else do {
            n \<leftarrow> get_node s old_idx;
            if node_type n = Dir \<and>
               starts_with norm_newpath (trim_end_matches norm_oldpath slash @ ''/'')
            then Some (-22, s)
            else do {
              (e, s) \<leftarrow> rename_replace s norm_newpath old_idx new_parent;
              (case e of
                 Some v \<Rightarrow> Some (v, s)
               | None \<Rightarrow> map_option (\<lambda>s. (0, s)) (rename_move s old_idx old_parent new_parent new_name)) } }) }"

definition rename_resolved_paths :: "imfs \<Rightarrow> string \<Rightarrow> string \<Rightarrow> (int \<times> imfs) option" where
  "rename_resolved_paths s norm_oldpath norm_newpath =
     (if norm_oldpath = ''/'' then Some (-1, s)
      else do {
        r \<leftarrow> resolve_parent_and_name s norm_oldpath;
        (case r of
           Inl e \<Rightarrow> Some (e, s)
         | Inr (old_parent, old_name) \<Rightarrow> do {
             r \<leftarrow> resolve_path s norm_oldpath False;
             (case r of
                Inl e \<Rightarrow> Some (e, s)
              | Inr old_idx \<Rightarrow>
                  if is_dot_name old_name then Some (-1, s)
                  else if norm_newpath = ''/'' then Some (-1, s)
                  else rename_onto s norm_oldpath norm_newpath old_idx old_parent) }) })"

definition imfs_rename :: "imfs \<Rightarrow> nat \<Rightarrow> string \<Rightarrow> string \<Rightarrow> (int \<times> imfs) option" where
  "imfs_rename s cage_id oldpath newpath =
     rename_resolved_paths s (normalize_path_for_cage s cage_id oldpath)
       (normalize_path_for_cage s cage_id newpath)"

definition imfs_renameat ::
  "'ft fdtables_ops \<Rightarrow> 'ft \<Rightarrow> imfs \<Rightarrow> nat \<Rightarrow> int \<Rightarrow> string \<Rightarrow> int \<Rightarrow> string \<Rightarrow> (int \<times> imfs) option" where
  "imfs_renameat F ft s cage_id olddirfd oldpath newdirfd newpath = do {
     r \<leftarrow> normalize_path_at F ft s cage_id olddirfd oldpath;
     (case r of
        Inl e \<Rightarrow> Some (e, s)
      | Inr norm_oldpath \<Rightarrow> do {
          r \<leftarrow> normalize_path_at F ft s cage_id newdirfd newpath;
          (case r of
             Inl e \<Rightarrow> Some (e, s)
           | Inr norm_newpath \<Rightarrow> rename_resolved_paths s norm_oldpath norm_newpath) }) }"

section \<open>Permissions, ownership and times\<close>

definition chmod_node :: "imfs \<Rightarrow> nat \<Rightarrow> u32 \<Rightarrow> (int \<times> imfs) option" where
  "chmod_node s node_idx mode = do {
     s \<leftarrow> upd_node s node_idx (\<lambda>n. n\<lparr>n_mode := (n_mode n AND S_IFMT) OR (mode AND S_MODE_BITS)\<rparr>);
     s \<leftarrow> update_ctime s node_idx;
     Some (0, s) }"

definition chmod_resolved_path :: "imfs \<Rightarrow> string \<Rightarrow> u32 \<Rightarrow> (int \<times> imfs) option" where
  "chmod_resolved_path s norm_path mode = do {
     r \<leftarrow> resolve_path s norm_path True;
     (case r of Inl e \<Rightarrow> Some (e, s) | Inr node_idx \<Rightarrow> chmod_node s node_idx mode) }"

definition imfs_chmod :: "imfs \<Rightarrow> nat \<Rightarrow> string \<Rightarrow> u32 \<Rightarrow> (int \<times> imfs) option" where
  "imfs_chmod s cage_id path mode = chmod_resolved_path s (normalize_path_for_cage s cage_id path) mode"

definition imfs_chmodat ::
  "'ft fdtables_ops \<Rightarrow> 'ft \<Rightarrow> imfs \<Rightarrow> nat \<Rightarrow> int \<Rightarrow> string \<Rightarrow> u32 \<Rightarrow> (int \<times> imfs) option" where
  "imfs_chmodat F ft s cage_id dirfd path mode = do {
     r \<leftarrow> normalize_path_at F ft s cage_id dirfd path;
     (case r of Inl e \<Rightarrow> Some (e, s) | Inr p \<Rightarrow> chmod_resolved_path s p mode) }"

definition imfs_fchmod ::
  "'ft fdtables_ops \<Rightarrow> 'ft \<Rightarrow> imfs \<Rightarrow> nat \<Rightarrow> nat \<Rightarrow> u32 \<Rightarrow> (int \<times> imfs) option" where
  "imfs_fchmod F ft s cage_id fd mode = do {
     r \<leftarrow> get_node_and_flags F ft s cage_id fd;
     (case r of Inl e \<Rightarrow> Some (e, s) | Inr (node_idx, _) \<Rightarrow> chmod_node s node_idx mode) }"

definition chown_node :: "imfs \<Rightarrow> nat \<Rightarrow> u32 \<Rightarrow> u32 \<Rightarrow> (int \<times> imfs) option" where
  "chown_node s node_idx owner grp = do {
     n \<leftarrow> get_node s node_idx;
     let new_owner = owner \<noteq> CHOWN_NO_CHANGE \<and> n_owner n \<noteq> owner;
     let new_group = grp \<noteq> CHOWN_NO_CHANGE \<and> n_group n \<noteq> grp;
     let n = (if new_owner then n\<lparr>n_owner := owner\<rparr> else n);
     let n = (if new_group then n\<lparr>n_group := grp\<rparr> else n);
     let n = (if new_owner \<or> new_group
              then n\<lparr>n_mode := n_mode n AND NOT (S_ISUID OR S_ISGID)\<rparr> else n);
     s \<leftarrow> upd_node s node_idx (\<lambda>_. n);
     s \<leftarrow> update_ctime s node_idx;
     Some (0, s) }"

definition chown_path :: "imfs \<Rightarrow> nat \<Rightarrow> string \<Rightarrow> bool \<Rightarrow> u32 \<Rightarrow> u32 \<Rightarrow> (int \<times> imfs) option" where
  "chown_path s cage_id path follow owner grp = do {
     r \<leftarrow> resolve_path s (normalize_path_for_cage s cage_id path) follow;
     (case r of Inr node_idx \<Rightarrow> chown_node s node_idx owner grp | Inl e \<Rightarrow> Some (e, s)) }"

definition imfs_chown :: "imfs \<Rightarrow> nat \<Rightarrow> string \<Rightarrow> u32 \<Rightarrow> u32 \<Rightarrow> (int \<times> imfs) option" where
  "imfs_chown s cage_id path owner grp = chown_path s cage_id path True owner grp"

definition imfs_lchown :: "imfs \<Rightarrow> nat \<Rightarrow> string \<Rightarrow> u32 \<Rightarrow> u32 \<Rightarrow> (int \<times> imfs) option" where
  "imfs_lchown s cage_id path owner grp = chown_path s cage_id path False owner grp"

definition node_idx_at ::
  "'ft fdtables_ops \<Rightarrow> 'ft \<Rightarrow> imfs \<Rightarrow> nat \<Rightarrow> int \<Rightarrow> string \<Rightarrow> bool \<Rightarrow> nat result option" where
  "node_idx_at F ft s cage_id dirfd path follow_final =
     (if path = [] \<and> dirfd \<noteq> LIND_AT_FDCWD
      then (case translate_virtual_fd F ft cage_id (as_u64 dirfd) of
          None \<Rightarrow> Some (Inl (-9))
        | Some entry \<Rightarrow> map_option Inr (follow_hardlinks s (as_usize (int (underfd entry)))))
      else do {
        r \<leftarrow> normalize_path_at F ft s cage_id dirfd path;
        (case r of Inl e \<Rightarrow> Some (Inl e) | Inr p \<Rightarrow> resolve_path s p follow_final) })"

definition imfs_chownat ::
  "'ft fdtables_ops \<Rightarrow> 'ft \<Rightarrow> imfs \<Rightarrow> nat \<Rightarrow> int \<Rightarrow> string \<Rightarrow> u32 \<Rightarrow> u32 \<Rightarrow> i32 \<Rightarrow> (int \<times> imfs) option" where
  "imfs_chownat F ft s cage_id dirfd path owner grp flags = do {
     r \<leftarrow> node_idx_at F ft s cage_id dirfd path (flags AND AT_SYMLINK_NOFOLLOW = 0);
     (case r of Inl e \<Rightarrow> Some (e, s) | Inr node_idx \<Rightarrow> chown_node s node_idx owner grp) }"

definition imfs_utimensat ::
  "'ft fdtables_ops \<Rightarrow> 'ft \<Rightarrow> imfs \<Rightarrow> nat \<Rightarrow> int \<Rightarrow> string option \<Rightarrow> (int \<times> imfs) option" where
  "imfs_utimensat F ft s cage_id dirfd path = do {
     r \<leftarrow> (case path of
         Some path \<Rightarrow> do {
           r \<leftarrow> normalize_path_at F ft s cage_id dirfd path;
           (case r of Inl e \<Rightarrow> Some (Inl e) | Inr p \<Rightarrow> resolve_path s p True) }
       | None \<Rightarrow> Some (case translate_virtual_fd F ft cage_id (as_u64 dirfd) of
             None \<Rightarrow> Inl (-9) | Some entry \<Rightarrow> Inr (as_usize (int (underfd entry)))));
     (case r of
        Inl e \<Rightarrow> Some (e, s)
      | Inr node_idx \<Rightarrow>
          if node_idx \<ge> length (nodes s) then Some (-9, s)
          else do {
            s \<leftarrow> update_atime s node_idx;
            s \<leftarrow> touch_dir s node_idx;
            Some (0, s) }) }"

section \<open>Truncation by path\<close>

definition imfs_truncate :: "imfs \<Rightarrow> nat \<Rightarrow> string \<Rightarrow> int \<Rightarrow> (int \<times> imfs) option" where
  "imfs_truncate s cage_id path len =
     (if len < 0 then Some (-22, s)
      else do {
        r \<leftarrow> resolve_path s (normalize_path_for_cage s cage_id path) True;
        (case r of
           Inl e \<Rightarrow> Some (e, s)
         | Inr node_idx \<Rightarrow> do {
             n \<leftarrow> get_node s node_idx;
             (case node_type n of
                Reg \<Rightarrow> do {
                  s \<leftarrow> truncate_node s node_idx (as_usize len);
                  s \<leftarrow> touch_dir s node_idx;
                  Some (0, s) }
              | Dir \<Rightarrow> Some (-21, s)
              | _ \<Rightarrow> Some (-22, s)) }) })"

declare fchdir_follow.simps [code]

end
