(* ===== verification/Imfs_Inv.thy ===== *)
theory Imfs_Inv
  imports Imfs_Rw Imfs_Tree
begin

text \<open>
  The invariant of the IMFS state and its preservation by every operation: the chunk arena
  (\<open>storage_inv\<close>), the node arena (every node's tag agrees with its payload, every
  reference between nodes is in range, the root is a directory that is never on the free
  list) and the descriptor table (every descriptor refers to an existing \<open>FDInfo\<close>).
\<close>

definition node_ok :: "nat \<Rightarrow> node \<Rightarrow> bool" where
  "node_ok N n \<longleftrightarrow> parent_idx n < N \<and> (case n_info n of
      IReg _ _ \<Rightarrow> node_type n = Reg
    | IDir cs \<Rightarrow> node_type n = Dir \<and> \<not> doomed n \<and> (\<forall>e \<in> set cs. de_node_idx e < N)
    | IHardLink t \<Rightarrow> node_type n = Lnk \<and> t < N
    | ISymlink _ \<Rightarrow> node_type n = Lnk
    | IPip _ _ _ \<Rightarrow> node_type n = Pip
    | IFree \<Rightarrow> node_type n = Free)"

definition tree_inv :: "imfs \<Rightarrow> bool" where
  "tree_inv s \<longleftrightarrow>
     (\<forall>i < length (nodes s). node_ok (length (nodes s)) (nodes s ! i)) \<and>
     root_idx s < length (nodes s) \<and> node_type (nodes s ! root_idx s) = Dir \<and>
     (\<forall>i \<in> set (node_free_list s). i < length (nodes s) \<and> i \<noteq> root_idx s)"

definition fd_inv :: "imfs \<Rightarrow> bool" where
  "fd_inv s \<longleftrightarrow> (\<forall>k a. fd_info s k = Some a \<longrightarrow> a < length (fd_arcs s))"

definition imfs_inv :: "imfs \<Rightarrow> bool" where
  "imfs_inv s \<longleftrightarrow> storage_inv s \<and> tree_inv s \<and> fd_inv s"

section \<open>Elementary facts\<close>

lemma upd_node_eq_Some:
  "upd_node s i f = Some s' \<longleftrightarrow>
   i < length (nodes s) \<and> s' = s\<lparr>nodes := (nodes s)[i := f (nodes s ! i)]\<rparr>"
  by (auto simp: upd_node_def vec_mod_eq_Some)

lemma get_node_eq_Some: "get_node s i = Some n \<longleftrightarrow> i < length (nodes s) \<and> nodes s ! i = n"
  by (simp add: get_node_def vec_get_eq_Some)

lemma node_ok_mono: "node_ok N n \<Longrightarrow> N \<le> M \<Longrightarrow> node_ok M n"
  by (auto simp: node_ok_def split: node_info.splits)

lemma tree_inv_node: "tree_inv s \<Longrightarrow> i < length (nodes s) \<Longrightarrow> node_ok (length (nodes s)) (nodes s ! i)"
  by (simp add: tree_inv_def)

lemma tree_inv_upd:
  assumes "tree_inv s" and "node_ok (length (nodes s)) n" and "i = root_idx s \<Longrightarrow> node_type n = Dir"
  shows "tree_inv (s\<lparr>nodes := (nodes s)[i := n]\<rparr>)"
  using assms by (auto simp: tree_inv_def nth_upd)

section \<open>Storage and the node arena\<close>

text \<open>Replacing node \<open>i\<close> without touching chunks: its chain is kept, or dropped when the new node
  has none.\<close>

lemma reg_info_upd:
  "i < length (nodes s) \<Longrightarrow> reg_info (s\<lparr>nodes := (nodes s)[i := n]\<rparr>) j h t \<longleftrightarrow>
   (if j = i then n_info n = IReg h t else reg_info s j h t)"
  by (auto simp: reg_info_def)

lemma storage_replace:
  assumes inv: "storage_ok s F" and i: "i < length (nodes s)"
    and keep: "n_info n = n_info (nodes s ! i) \<and> total_size n = total_size (nodes s ! i) \<and> F' = F \<or>
      (\<forall>h t. n_info n = IReg h t \<longrightarrow> h = None \<and> t = None \<and> total_size n = 0) \<and> F' = F(i := [])"
  shows "storage_ok (s\<lparr>nodes := (nodes s)[i := n]\<rparr>) F'"
  using keep
proof
  assume k: "n_info n = n_info (nodes s ! i) \<and> total_size n = total_size (nodes s ! i) \<and> F' = F"
  have "reg_info (s\<lparr>nodes := (nodes s)[i := n]\<rparr>) j h t \<longleftrightarrow> reg_info s j h t" for j h t
    using k i by (auto simp: reg_info_def nth_upd)
  moreover have "total_size ((nodes s)[i := n] ! j) = total_size (nodes s ! j)" for j
    using k by (auto simp: nth_upd)
  ultimately show ?thesis using inv k by (simp add: storage_ok_def chained_def is_reg_def)
next
  assume k: "(\<forall>h t. n_info n = IReg h t \<longrightarrow> h = None \<and> t = None \<and> total_size n = 0) \<and> F' = F(i := [])"
  let ?s = "s\<lparr>nodes := (nodes s)[i := n]\<rparr>"
  have reg: "is_reg ?s j \<longleftrightarrow> (if j = i then \<exists>h t. n_info n = IReg h t else is_reg s j)" for j
    using i by (auto simp: is_reg_def reg_info_upd)
  have "chain (chunks s) h (F' j) \<and> t = tail_of (F' j)" if "reg_info ?s j h t" for j h t
    using that k inv i by (auto simp: reg_info_upd storage_ok_def chained_def tail_of_def split: if_splits)
  moreover have "F' j = []" if "\<not> is_reg ?s j" for j
    using that k inv reg [of j] by (auto simp: storage_ok_def chained_def split: if_splits)
  ultimately have "chained ?s F'" using inv k unfolding chained_def storage_ok_def by auto
  with k inv reg i show ?thesis by (auto simp: storage_ok_def nth_upd split: if_splits)
qed

lemma storage_inv_replace:
  assumes "storage_inv s" and "i < length (nodes s)"
    and "n_info n = n_info (nodes s ! i) \<and> total_size n = total_size (nodes s ! i) \<or>
      (\<forall>h t. n_info n = IReg h t \<longrightarrow> h = None \<and> t = None \<and> total_size n = 0)"
  shows "storage_inv (s\<lparr>nodes := (nodes s)[i := n]\<rparr>)"
  using assms storage_replace [of s "file_chain s" i n] storage_okD(2)
  unfolding storage_inv_def by metis

lemma storage_inv_cong:
  assumes "storage_inv s" and "nodes s' = nodes s" and "chunks s' = chunks s"
    and "chunk_free_list s' = chunk_free_list s"
  shows "storage_inv s'"
proof -
  have "storage_ok s' (file_chain s)"
    using assms by (simp add: storage_inv_def storage_ok_def chained_def is_reg_def reg_info_def)
  then show ?thesis by (rule storage_okD(2))
qed

lemma storage_inv_append:
  assumes inv: "storage_inv s" and n: "\<forall>h t. n_info n = IReg h t \<longrightarrow> h = None \<and> t = None \<and> total_size n = 0"
  shows "storage_inv (s\<lparr>nodes := nodes s @ [n]\<rparr>)"
proof -
  let ?s = "s\<lparr>nodes := nodes s @ [n]\<rparr>" and ?N = "length (nodes s)" and ?F = "file_chain s"
  have reg: "reg_info ?s j h t \<longleftrightarrow> reg_info s j h t \<or> j = ?N \<and> n_info n = IReg h t" for j h t
    by (auto simp: reg_info_def nth_append)
  have new: "?F ?N = []" by (simp add: file_chain_def)
  have D: "storage_ok s ?F" using inv by (simp add: storage_inv_def)
  have "chain (chunks s) h (?F j) \<and> t = tail_of (?F j)" if "reg_info ?s j h t" for j h t
    using that [unfolded reg]
  proof
    assume "reg_info s j h t"
    from chainedD(1,2) [OF storage_invD(1) [OF inv] this] show ?thesis by blast
  qed (use n new in \<open>simp add: tail_of_def\<close>)
  moreover have "?F j = []" if "\<not> is_reg ?s j" for j
    using that D by (auto simp: reg is_reg_def storage_ok_def chained_def)
  ultimately have "chained ?s ?F" using D unfolding chained_def storage_ok_def by auto
  moreover have "packed (chunks s) (?F j) \<and> total_size ((nodes s @ [n]) ! j) = length (file_bytes (chunks s) (?F j))"
    if "is_reg ?s j" for j
    using that n new D unfolding storage_ok_def
    by (cases "j = ?N") (auto simp: reg is_reg_def nth_append reg_info_def)
  ultimately have "storage_ok ?s ?F" by (simp add: storage_ok_def)
  then show ?thesis by (rule storage_okD(2))
qed

section \<open>Primitive operations keep the invariant\<close>

lemma imfs_invD:
  "imfs_inv s \<Longrightarrow> storage_inv s" "imfs_inv s \<Longrightarrow> tree_inv s" "imfs_inv s \<Longrightarrow> fd_inv s"
  by (simp_all add: imfs_inv_def)

text \<open>A node is replaced; the fields the invariant reads are given.\<close>

lemma imfs_inv_replace:
  assumes inv: "imfs_inv s" and up: "upd_node s i f = Some s'"
    and ok: "node_ok (length (nodes s)) (f (nodes s ! i))"
    and root: "i = root_idx s \<Longrightarrow> node_type (f (nodes s ! i)) = Dir"
    and st: "n_info (f (nodes s ! i)) = n_info (nodes s ! i) \<and>
        total_size (f (nodes s ! i)) = total_size (nodes s ! i) \<or>
      (\<forall>h t. n_info (f (nodes s ! i)) = IReg h t \<longrightarrow>
        h = None \<and> t = None \<and> total_size (f (nodes s ! i)) = 0)"
  shows "imfs_inv s'"
proof -
  have i: "i < length (nodes s)" and s': "s' = s\<lparr>nodes := (nodes s)[i := f (nodes s ! i)]\<rparr>"
    using up by (auto simp: upd_node_eq_Some)
  have "storage_inv s'" unfolding s' by (rule storage_inv_replace [OF imfs_invD(1) [OF inv] i st])
  moreover have "tree_inv s'" unfolding s' by (rule tree_inv_upd [OF imfs_invD(2) [OF inv] ok root])
  moreover have "fd_inv s'" using imfs_invD(3) [OF inv] by (simp add: s' fd_inv_def)
  ultimately show ?thesis by (simp add: imfs_inv_def)
qed

text \<open>Fields the invariant does not read.\<close>

definition shape :: "node \<Rightarrow> node_type \<times> node_info \<times> nat \<times> nat \<times> bool" where
  "shape n = (node_type n, n_info n, total_size n, parent_idx n, doomed n)"

lemma imfs_inv_shape:
  assumes "imfs_inv s" and "upd_node s i f = Some s'" and "shape (f (nodes s ! i)) = shape (nodes s ! i)"
  shows "imfs_inv s'"
proof (rule imfs_inv_replace [OF assms(1,2)])
  have t: "tree_inv s" and i: "i < length (nodes s)" using assms by (auto simp: imfs_inv_def upd_node_eq_Some)
  from tree_inv_node [OF this] assms(3) show "node_ok (length (nodes s)) (f (nodes s ! i))"
    by (auto simp: node_ok_def shape_def split: node_info.splits)
  show "node_type (f (nodes s ! i)) = Dir" if "i = root_idx s"
    using t that assms(3) by (simp add: tree_inv_def shape_def)
qed (use assms(3) in \<open>simp add: shape_def\<close>)

lemma time_inv [inv_dest]:
  "imfs_inv s \<Longrightarrow> update_atime s i = Some s' \<Longrightarrow> imfs_inv s'"
  "imfs_inv s \<Longrightarrow> update_mtime s i = Some s' \<Longrightarrow> imfs_inv s'"
  "imfs_inv s \<Longrightarrow> update_ctime s i = Some s' \<Longrightarrow> imfs_inv s'"
  "imfs_inv s \<Longrightarrow> inc_use s i = Some s' \<Longrightarrow> imfs_inv s'"
  by (auto elim!: imfs_inv_shape simp: update_atime_def update_mtime_def update_ctime_def inc_use_def shape_def)

lemma touch_dir_inv [inv_dest]: "imfs_inv s \<Longrightarrow> touch_dir s i = Some s' \<Longrightarrow> imfs_inv s'"
  unfolding touch_dir_def by (elim seqE; ((drule (1) inv_dest)+, assumption)?)

lemma node_ok_new: "0 < N \<Longrightarrow> node_ok N (node_new i nm t m)"
  by (cases t) (simp_all add: node_ok_def node_init_info_def)

lemma create_node_inv [inv_dest]:
  assumes inv: "imfs_inv s" and cr: "create_node s nm t m = Some (k, s')"
  shows "imfs_inv s'"
proof (cases "node_free_list s" rule: rev_cases)
  case Nil
  with cr have s': "s' = s\<lparr>nodes := nodes s @ [node_new (length (nodes s)) nm t m]\<rparr>"
    by (auto simp: create_node_def Let_def)
  have "storage_inv s'" unfolding s'
    by (rule storage_inv_append [OF imfs_invD(1) [OF inv]]) (simp add: node_init_info_def split: node_type.splits)
  moreover have "tree_inv s'"
    using imfs_invD(2) [OF inv] unfolding s' tree_inv_def
    by (auto simp: nth_append less_Suc_eq intro: node_ok_mono node_ok_new)
  moreover have "fd_inv s'" using imfs_invD(3) [OF inv] by (simp add: s' fd_inv_def)
  ultimately show ?thesis by (simp add: imfs_inv_def)
next
  case (snoc rest i)
  let ?s = "s\<lparr>node_free_list := rest\<rparr>"
  have k: "k = i" and up: "upd_node ?s i (\<lambda>_. node_new i nm t m) = Some s'"
    using cr snoc by (auto simp: create_node_def bind_eq_Some_conv)
  have t: "tree_inv s" using inv by (rule imfs_invD)
  then have t': "tree_inv ?s" using snoc by (auto simp: tree_inv_def)
  have "imfs_inv ?s"
    using imfs_invD(3) [OF inv] t' storage_inv_cong [OF imfs_invD(1) [OF inv]] by (simp add: imfs_inv_def fd_inv_def)
  then show ?thesis
  proof (rule imfs_inv_replace [OF _ up])
    show "node_ok (length (nodes ?s)) (node_new i nm t m)" using t' by (intro node_ok_new) (auto simp: tree_inv_def)
    show "node_type (node_new i nm t m) = Dir" if "i = root_idx ?s"
      using t snoc that by (auto simp: tree_inv_def)
  qed (simp add: node_init_info_def split: node_type.splits)
qed

lemma with_children_mut_eq_Some:
  "with_children_mut n f = Some n' \<longleftrightarrow> (\<exists>cs. n_info n = IDir cs \<and> n' = n\<lparr>n_info := IDir (f cs)\<rparr>)"
  by (auto simp: with_children_mut_def split: node_info.splits)

lemma children_upd_inv:
  assumes inv: "imfs_inv s" and i: "i < length (nodes s)" and n: "n_info (nodes s ! i) = IDir cs"
    and up: "upd_node s i (\<lambda>_. (nodes s ! i)\<lparr>n_info := IDir cs'\<rparr>) = Some s'"
    and cs': "\<forall>e \<in> set cs'. e \<in> set cs \<or> de_node_idx e < length (nodes s)"
  shows "imfs_inv s'"
proof (rule imfs_inv_replace [OF inv up])
  have "node_ok (length (nodes s)) (nodes s ! i)" using imfs_invD(2) [OF inv] i by (rule tree_inv_node)
  with n cs' show "node_ok (length (nodes s)) ((nodes s ! i)\<lparr>n_info := IDir cs'\<rparr>)"
    by (auto simp: node_ok_def)
  show "node_type ((nodes s ! i)\<lparr>n_info := IDir cs'\<rparr>) = Dir" if "i = root_idx s"
    using imfs_invD(2) [OF inv] that by (simp add: tree_inv_def)
qed simp

lemma add_child_inv [inv_dest]:
  assumes inv: "imfs_inv s" and ac: "add_child s p c = Some s'"
  shows "imfs_inv s'"
proof -
  obtain cs s1 where c: "c < length (nodes s)" "p < length (nodes s)" "n_info (nodes s ! p) = IDir cs"
    and s1: "upd_node s p (\<lambda>_. (nodes s ! p)\<lparr>n_info := IDir
        (cs @ [\<lparr>de_name = n_name (nodes s ! c), de_node_idx = c\<rparr>])\<rparr>) = Some s1"
    and s': "upd_node s1 c (\<lambda>n. n\<lparr>parent_idx := p\<rparr>) = Some s'"
    using ac by (auto simp: add_child_def bind_eq_Some_conv get_node_eq_Some with_children_mut_eq_Some)
  have inv1: "imfs_inv s1" by (rule children_upd_inv [OF inv c(2,3) s1]) (use c in auto)
  have len: "length (nodes s1) = length (nodes s)" using s1 by (auto simp: upd_node_eq_Some)
  show ?thesis
  proof (rule imfs_inv_replace [OF inv1 s'])
    show "node_ok (length (nodes s1)) ((nodes s1 ! c)\<lparr>parent_idx := p\<rparr>)"
      using tree_inv_node [OF imfs_invD(2) [OF inv1], of c] c len by (auto simp: node_ok_def split: node_info.splits)
    show "node_type ((nodes s1 ! c)\<lparr>parent_idx := p\<rparr>) = Dir" if "c = root_idx s1"
      using imfs_invD(2) [OF inv1] that by (simp add: tree_inv_def)
  qed simp
qed

lemma remove_child_inv [inv_dest]:
  assumes inv: "imfs_inv s" and rc: "remove_child s i = Some s'"
  shows "imfs_inv s'"
proof -
  let ?p = "parent_idx (nodes s ! i)"
  obtain cs where "?p < length (nodes s)" "n_info (nodes s ! ?p) = IDir cs"
    "upd_node s ?p (\<lambda>_. (nodes s ! ?p)\<lparr>n_info := IDir (filter (\<lambda>e. de_name e \<noteq> n_name (nodes s ! i)) cs)\<rparr>) = Some s'"
    using rc by (auto simp: remove_child_def bind_eq_Some_conv get_node_eq_Some with_children_mut_eq_Some)
  then show ?thesis by (intro children_upd_inv [OF inv]) auto
qed

lemma contents_step_inv:
  assumes inv: "imfs_inv s" and reg: "is_reg s i" and st: "contents_step s i bs s'"
  shows "imfs_inv s'"
proof -
  have fr: "data_frame i (file_chain s) s s'" and reg': "is_reg s' i" and "storage_inv s'"
    using st by (auto simp: contents_step_def)
  have i: "i < length (nodes s)" and meta: "same_meta (nodes s ! i) (nodes s' ! i)"
    using reg fr by (auto simp: is_reg_def reg_info_def data_frame_def)
  from meta have "node_type (nodes s' ! i) = node_type (nodes s ! i) \<and>
      parent_idx (nodes s' ! i) = parent_idx (nodes s ! i) \<and> doomed (nodes s' ! i) = doomed (nodes s ! i)"
    unfolding same_meta_def by (cases "nodes s ! i", cases "nodes s' ! i") simp
  then have "node_ok (length (nodes s)) (nodes s' ! i) \<and> node_type (nodes s' ! i) = node_type (nodes s ! i)"
    using reg reg' tree_inv_node [OF imfs_invD(2) [OF inv] i] by (auto simp: node_ok_def is_reg_def reg_info_def)
  then have "tree_inv s'"
    using imfs_invD(2) [OF inv] fr unfolding tree_inv_def data_frame_def by metis
  moreover have "fd_inv s'" using imfs_invD(3) [OF inv] fr by (simp add: fd_inv_def data_frame_def)
  ultimately show ?thesis using \<open>storage_inv s'\<close> by (simp add: imfs_inv_def)
qed

lemma write_to_node_inv [inv_dest]:
  assumes inv: "imfs_inv s" and wr: "write_to_node s i off buf = Some (k, s')"
  shows "imfs_inv s'"
proof (cases "is_reg s i \<and> buf \<noteq> []")
  case True
  with write_to_node_step [OF imfs_invD(1) [OF inv], of i buf off] wr contents_step_inv [OF inv]
  show ?thesis by auto
next
  case False
  with wr inv show ?thesis
    by (auto simp: write_to_node_def bind_eq_Some_conv get_node_eq_Some is_reg_def reg_info_def
        split: if_splits node_info.splits)
qed

lemma truncate_node_inv [inv_dest]:
  assumes inv: "imfs_inv s" and tr: "truncate_node s i n = Some s'"
  shows "imfs_inv s'"
proof (cases "is_reg s i")
  case True
  with truncate_node_step [OF imfs_invD(1) [OF inv], of i n] tr contents_step_inv [OF inv]
  show ?thesis by auto
next
  case False
  with tr inv show ?thesis
    by (auto simp: truncate_node_def truncate_zero_def truncate_shrink_def bind_eq_Some_conv
        get_node_eq_Some is_reg_def reg_info_def write_to_node_inv Let_def
        split: if_splits node_info.splits)
qed

section \<open>Reclaiming nodes\<close>

lemma free_list_push_inv:
  assumes "imfs_inv s" and "i < length (nodes s)" and "i \<noteq> root_idx s"
  shows "imfs_inv (s\<lparr>node_free_list := node_free_list s @ [i]\<rparr>)"
  using assms storage_inv_cong [of s] by (simp add: imfs_inv_def tree_inv_def fd_inv_def)

lemma release_chain_inv:
  assumes inv: "imfs_inv s" and r: "reg_info s i h t"
    and s': "s' = s\<lparr>nodes := (nodes s)[i := (nodes s ! i)\<lparr>n_info := IReg None None, total_size := 0\<rparr>],
      chunks := free_chunks (chunks s) (file_chain s i), chunk_free_list := chunk_free_list s @ file_chain s i\<rparr>"
  shows "imfs_inv s'"
proof -
  have reg: "is_reg s i" using r by (rule is_regI)
  let ?s1 = "s\<lparr>nodes := (nodes s)[i := (nodes s ! i)\<lparr>n_info := IReg None None\<rparr>]\<rparr>"
  have c: "chain (chunks s) h (file_chain s i)" using chainedD(1) [OF storage_invD(1) [OF imfs_invD(1) [OF inv]] r] .
  then have "reclaim_chunk_chain ?s1 h = Some (?s1\<lparr>chunks := free_chunks (chunks s) (file_chain s i),
      chunk_free_list := chunk_free_list s @ file_chain s i\<rparr>)"
    using reclaim_chunk_chain_eq [of ?s1 h "file_chain s i"] by simp
  then have "truncate_zero s i = Some s'"
    using r by (simp add: truncate_zero_def get_node_def upd_node_def s' reg_info_def)
  with truncate_zero_step [OF imfs_invD(1) [OF inv] reg] contents_step_inv [OF inv reg]
  show ?thesis by auto
qed

lemma reclaim_node_inv:
  assumes inv: "imfs_inv s" and nd: "node_type (nodes s ! i) \<noteq> Dir" and rc: "reclaim_node s i = Some s'"
  shows "imfs_inv s'"
proof -
  have i: "i < length (nodes s)" using rc by (auto simp: reclaim_node_def bind_eq_Some_conv get_node_eq_Some)
  have ir: "i \<noteq> root_idx s" using imfs_invD(2) [OF inv] nd by (auto simp: tree_inv_def)
  have ok: "node_ok (length (nodes s)) (nodes s ! i)" using imfs_invD(2) [OF inv] i by (rule tree_inv_node)
  have fin: "imfs_inv (s1\<lparr>nodes := (nodes s1)[i := n\<lparr>node_type := Free, n_info := IFree\<rparr>],
      node_free_list := node_free_list s1 @ [i]\<rparr>)"
    if "imfs_inv s1" "length (nodes s1) = length (nodes s)" "root_idx s1 = root_idx s"
      "parent_idx n < length (nodes s)" for s1 n
  proof -
    have "imfs_inv (s1\<lparr>nodes := (nodes s1)[i := n\<lparr>node_type := Free, n_info := IFree\<rparr>]\<rparr>)"
      by (rule imfs_inv_replace [OF that(1), where i = i and f = "\<lambda>_. n\<lparr>node_type := Free, n_info := IFree\<rparr>"])
        (use that i ir in \<open>auto simp: upd_node_eq_Some node_ok_def\<close>)
    from free_list_push_inv [OF this, of i] i ir that show ?thesis by simp
  qed
  show ?thesis
  proof (cases "is_reg s i")
    case True
    then obtain h t where r: "reg_info s i h t" by (auto simp: is_reg_def)
    let ?s1 = "s\<lparr>nodes := (nodes s)[i := (nodes s ! i)\<lparr>n_info := IReg None None\<rparr>]\<rparr>"
    have "chain (chunks s) h (file_chain s i)" using chainedD(1) [OF storage_invD(1) [OF imfs_invD(1) [OF inv]] r] .
    then have "reclaim_chunk_chain ?s1 h = Some (?s1\<lparr>chunks := free_chunks (chunks s) (file_chain s i),
        chunk_free_list := chunk_free_list s @ file_chain s i\<rparr>)"
      using reclaim_chunk_chain_eq [of ?s1 h "file_chain s i"] by simp
    with rc i r fin [OF release_chain_inv [OF inv r refl], of "nodes s ! i"] ok show ?thesis
      by (auto simp: reclaim_node_def get_node_def upd_node_def reg_info_def node_ok_def)
  next
    case False
    with rc i have "s' = s\<lparr>nodes := (nodes s)[i := (nodes s ! i)\<lparr>node_type := Free, n_info := IFree\<rparr>],
        node_free_list := node_free_list s @ [i]\<rparr>"
      by (auto simp: reclaim_node_def bind_eq_Some_conv get_node_eq_Some upd_node_eq_Some is_reg_def
          reg_info_def reclaim_chunk_chain.simps split: node_info.splits)
    with fin [OF inv, of "nodes s ! i"] ok show ?thesis by (simp add: node_ok_def)
  qed
qed

lemma link_count_dir: "link_count s i = Some 0 \<Longrightarrow> tree_inv s \<Longrightarrow> node_type (nodes s ! i) \<noteq> Dir"
  using tree_inv_node [of s i]
  by (auto simp: link_count_def bind_eq_Some_conv get_node_eq_Some node_ok_def split: node_info.splits)

lemma unlink_doom_inv:
  assumes inv: "imfs_inv s" and ud: "unlink_doom s i = Some s'"
  shows "imfs_inv s'"
proof (cases "link_count s i = Some 0")
  case True
  have nd: "node_type (nodes s ! i) \<noteq> Dir" using link_count_dir [OF True imfs_invD(2) [OF inv]] .
  from ud True obtain s1 where s1: "upd_node s i (\<lambda>n. n\<lparr>doomed := True\<rparr>) = Some s1"
    and r: "s' = s1 \<or> reclaim_node s1 i = Some s'"
    by (auto simp: unlink_doom_def bind_eq_Some_conv split: if_splits)
  then have i: "i < length (nodes s)" by (simp add: upd_node_eq_Some)
  have inv1: "imfs_inv s1"
  proof (rule imfs_inv_replace [OF inv s1])
    show "node_ok (length (nodes s)) ((nodes s ! i)\<lparr>doomed := True\<rparr>)"
      using tree_inv_node [OF imfs_invD(2) [OF inv] i] nd by (auto simp: node_ok_def split: node_info.splits)
    show "node_type ((nodes s ! i)\<lparr>doomed := True\<rparr>) = Dir" if "i = root_idx s"
      using imfs_invD(2) [OF inv] that by (simp add: tree_inv_def)
  qed simp
  moreover have "node_type (nodes s1 ! i) \<noteq> Dir" using s1 nd by (auto simp: upd_node_eq_Some)
  ultimately show ?thesis using r reclaim_node_inv by blast
next
  case False
  with ud inv show ?thesis by (auto simp: unlink_doom_def bind_eq_Some_conv split: if_splits)
qed

text \<open>No unlink turns a node into a directory.\<close>

lemma reclaim_chunk_chain_nodes:
  "reclaim_chunk_chain s p = Some s' \<Longrightarrow> nodes s' = nodes s \<and> fd_arcs s' = fd_arcs s"
proof (rule reclaim_chunk_chain.raw_induct [of "\<lambda>s p s'. nodes s' = nodes s \<and> fd_arcs s' = fd_arcs s"], goal_cases)
  case (1 rec s p s')
  show ?case
  proof (cases p)
    case None
    with 1(3) show ?thesis by simp
  next
    case (Some c)
    with 1(3) obtain x :: chunk and s1 where "reclaim_chunk s c = Some s1" "rec s1 (ck_next x) = Some s'"
      by (auto simp: bind_eq_Some_conv)
    then show ?thesis using 1(2) by (auto simp: reclaim_chunk_def bind_eq_Some_conv)
  qed
qed

lemma reclaim_node_types:
  assumes "reclaim_node s i = Some s'"
  shows "node_type (nodes s' ! j) = Dir \<Longrightarrow> node_type (nodes s ! j) = Dir"
  using assms
  by (auto simp: reclaim_node_def bind_eq_Some_conv get_node_eq_Some upd_node_eq_Some Let_def nth_upd
      split: node_info.splits if_splits dest!: reclaim_chunk_chain_nodes)

lemma unlink_doom_types:
  assumes "unlink_doom s i = Some s'"
  shows "node_type (nodes s' ! j) = Dir \<Longrightarrow> node_type (nodes s ! j) = Dir"
  using assms
  by (auto simp: unlink_doom_def bind_eq_Some_conv get_node_eq_Some upd_node_eq_Some nth_upd
      split: if_splits dest: reclaim_node_types)

lemma unlink_node_inv [inv_dest]:
  assumes inv: "imfs_inv s" and ul: "unlink_node s i = Some s'"
  shows "imfs_inv s'"
proof (cases "\<exists>t. n_info (nodes s ! i) = IHardLink t")
  case True
  then obtain t s1 s2 where t: "n_info (nodes s ! i) = IHardLink t" and i: "i < length (nodes s)"
    and s1: "update_ctime s t = Some s1" and s2: "unlink_doom s1 t = Some s2" "reclaim_node s2 i = Some s'"
    using ul by (auto simp: unlink_node_def bind_eq_Some_conv get_node_eq_Some)
  have "node_type (nodes s ! i) = Lnk"
    using tree_inv_node [OF imfs_invD(2) [OF inv] i] t by (simp add: node_ok_def)
  then have "node_type (nodes s1 ! i) \<noteq> Dir"
    using s1 by (auto simp: update_ctime_def upd_node_eq_Some nth_upd)
  then have "node_type (nodes s2 ! i) \<noteq> Dir" using unlink_doom_types [OF s2(1)] by blast
  moreover have "imfs_inv s2" using unlink_doom_inv s2(1) time_inv(3) [OF inv s1] by blast
  ultimately show ?thesis using reclaim_node_inv s2(2) by blast
next
  case False
  with ul unlink_doom_inv [OF inv] show ?thesis
    by (auto simp: unlink_node_def bind_eq_Some_conv get_node_eq_Some split: node_info.splits)
qed

lemma close_node_inv [inv_dest]:
  assumes inv: "imfs_inv s" and cl: "close_node s i = Some s'"
  shows "imfs_inv s'"
proof (cases "i < length (nodes s)")
  case True
  let ?f = "\<lambda>n :: node. n\<lparr>in_use := in_use n - 1\<rparr>"
  from cl True obtain s1 where s1: "upd_node s i ?f = Some s1"
    and r: "s' = s1 \<or> doomed (nodes s1 ! i) \<and> reclaim_node s1 i = Some s'"
    by (auto simp: close_node_def bind_eq_Some_conv get_node_eq_Some split: if_splits)
  have inv1: "imfs_inv s1" using imfs_inv_shape [OF inv s1] by (simp add: shape_def)
  then have "node_type (nodes s1 ! i) \<noteq> Dir" if "doomed (nodes s1 ! i)"
    using that tree_inv_node [OF imfs_invD(2), of s1 i] s1
    by (auto simp: node_ok_def upd_node_eq_Some split: node_info.splits)
  with r inv1 reclaim_node_inv show ?thesis by blast
qed (use cl inv in \<open>simp add: close_node_def\<close>)

section \<open>Descriptor operations keep the invariant\<close>

lemma fd_upd_inv:
  assumes "imfs_inv s" and "\<And>k a. fd' k = Some a \<Longrightarrow> a < length arcs'"
  shows "imfs_inv (s\<lparr>fd_info := fd', fd_arcs := arcs'\<rparr>)"
    and "imfs_inv (s\<lparr>fd_arcs := arcs', fd_info := fd'\<rparr>)"
  using assms storage_inv_cong [of s] by (simp_all add: imfs_inv_def tree_inv_def fd_inv_def)

lemma cwd_upd_inv: "imfs_inv s \<Longrightarrow> imfs_inv (s\<lparr>cwd_info := d\<rparr>)"
  using storage_inv_cong [of s] by (simp add: imfs_inv_def tree_inv_def fd_inv_def)

lemma fd_info_upd_inv:
  "imfs_inv s \<Longrightarrow> (\<And>k a. fd' k = Some a \<Longrightarrow> a < length (fd_arcs s)) \<Longrightarrow> imfs_inv (s\<lparr>fd_info := fd'\<rparr>)"
  using storage_inv_cong [of s] by (simp add: imfs_inv_def tree_inv_def fd_inv_def)

lemma imfs_inv_fd: "imfs_inv s \<Longrightarrow> fd_info s k = Some a \<Longrightarrow> a < length (fd_arcs s)"
  by (cases k) (simp add: imfs_inv_def fd_inv_def)

lemma insert_perfdinfo_inv: "imfs_inv s \<Longrightarrow> imfs_inv (insert_perfdinfo s c fd fl)"
  unfolding insert_perfdinfo_def
  by (rule fd_upd_inv) (auto dest: imfs_inv_fd split: if_splits)

lemma set_offset_inv [inv_dest]: "imfs_inv s \<Longrightarrow> set_offset s c fd off = Some s' \<Longrightarrow> imfs_inv s'"
  using storage_inv_cong [of s]
  by (auto simp: set_offset_def bind_eq_Some_conv vec_mod_eq_Some imfs_inv_def tree_inv_def fd_inv_def)

lemma reg_type:
  assumes "imfs_inv s" and "i < length (nodes s)"
  shows "node_type (nodes s ! i) = Reg \<longleftrightarrow> is_reg s i"
  using tree_inv_node [OF imfs_invD(2) [OF assms(1)] assms(2)] assms(2)
  by (auto simp: node_ok_def is_reg_def reg_info_def split: node_info.splits)

lemma pip_upd_inv:
  assumes inv: "imfs_inv s" and i: "i < length (nodes s)" and p: "n_info (nodes s ! i) = IPip d a b"
  shows "imfs_inv (s\<lparr>nodes := (nodes s)[i := (nodes s ! i)\<lparr>n_info := IPip d' a' b'\<rparr>]\<rparr>)"
proof (rule imfs_inv_replace [OF inv, where f = "\<lambda>n. n\<lparr>n_info := IPip d' a' b'\<rparr>"])
  have ok: "node_ok (length (nodes s)) (nodes s ! i)" using tree_inv_node [OF imfs_invD(2) [OF inv] i] .
  with p show "node_ok (length (nodes s)) ((nodes s ! i)\<lparr>n_info := IPip d' a' b'\<rparr>)" by (simp add: node_ok_def)
  show "node_type ((nodes s ! i)\<lparr>n_info := IPip d' a' b'\<rparr>) = Dir" if "i = root_idx s"
    using imfs_invD(2) [OF inv] that by (simp add: tree_inv_def)
qed (use i in \<open>simp_all add: upd_node_eq_Some\<close>)

lemma count_pipe_end_inv:
  assumes "imfs_inv s" and "count_pipe_end s i a = Some s'"
  shows "imfs_inv s'" and "fd_arcs s' = fd_arcs s" and "fd_info s' = fd_info s"
  using assms pip_upd_inv [OF assms(1), of i]
  by (auto simp: count_pipe_end_def bind_eq_Some_conv get_node_eq_Some upd_node_eq_Some Let_def
      split: node_info.splits if_splits)

lemma inc_use_fds: "inc_use s i = Some s' \<Longrightarrow> fd_arcs s' = fd_arcs s \<and> fd_info s' = fd_info s"
  by (auto simp: inc_use_def upd_node_eq_Some)

lemma fd_share_inv:
  assumes "imfs_inv s" and "a < length (fd_arcs s)"
  shows "imfs_inv (s\<lparr>fd_info := (fd_info s)(k \<mapsto> a)\<rparr>)"
  by (rule fd_info_upd_inv [OF assms(1)]) (use assms imfs_inv_fd in \<open>auto split: if_splits\<close>)

lemma open_existing_inv [inv_dest]:
  "imfs_inv s \<Longrightarrow> open_existing s idx flags = Some (r, s') \<Longrightarrow> imfs_inv s'"
  unfolding open_existing_def by (elim seqE; (clarsimp)?; ((drule (1) inv_dest)+, assumption)?)

lemma open_create_inv [inv_dest]:
  "imfs_inv s \<Longrightarrow> open_create s path flags mode = Some (r, s') \<Longrightarrow> imfs_inv s'"
  unfolding open_create_def by (elim seqE; (clarsimp)?; ((drule (1) inv_dest)+, assumption)?)

lemma open_fd_inv [inv_dest]:
  assumes inv: "imfs_inv s" and op: "open_fd F ft s c i fl = Some (r, s', ft')"
  shows "imfs_inv s'"
proof -
  from op obtain s1 where s1: "inc_use s i = Some s1"
    and r: "(\<exists>v. s' = insert_perfdinfo s1 c v (scast fl)) \<or> upd_node s1 i (\<lambda>n. n\<lparr>in_use := in_use n - 1\<rparr>) = Some s'"
    by (auto simp: open_fd_def bind_eq_Some_conv split: option.splits)
  have "imfs_inv s1" using time_inv(4) [OF inv s1] .
  with r imfs_inv_shape [of s1 i "\<lambda>n. n\<lparr>in_use := in_use n - 1\<rparr>"] show ?thesis
    by (auto simp: shape_def insert_perfdinfo_inv)
qed

lemma open_resolved_path_inv [inv_dest]:
  "imfs_inv s \<Longrightarrow> open_resolved_path F ft s c p fl m = Some (r, s', ft') \<Longrightarrow> imfs_inv s'"
  unfolding open_resolved_path_def by (elim seqE; (clarsimp)?; ((drule (1) inv_dest)+, assumption)?)

lemma open_inv [inv_dest]:
  "imfs_inv s \<Longrightarrow> imfs_open F ft s c p fl m = Some (r, s', ft') \<Longrightarrow> imfs_inv s'"
  "imfs_inv s \<Longrightarrow> imfs_openat F ft s c d p fl m = Some (r, s', ft') \<Longrightarrow> imfs_inv s'"
  unfolding imfs_open_def imfs_openat_def
   apply (drule (1) inv_dest; assumption)
  by (elim seqE; (clarsimp)?; ((drule (1) inv_dest)+, assumption)?)

lemma close_inv [inv_dest]:
  assumes inv: "imfs_inv s" and cl: "imfs_close F ft s c fd = Some (r, s', ft')"
  shows "imfs_inv s'"
proof -
  from cl obtain s1 where "s1 = s \<or> (\<exists>i. close_node s i = Some s1)"
    and s': "s' = s1\<lparr>fd_info := (fd_info s1)((c, fd) := None)\<rparr>"
    unfolding imfs_close_def Let_def by (elim seqE) (auto split: option.splits)
  then have "imfs_inv s1" using inv close_node_inv by blast
  then show ?thesis unfolding s' by (rule fd_info_upd_inv) (auto split: if_splits dest: imfs_inv_fd [OF \<open>imfs_inv s1\<close>])
qed

lemma dup_finish_inv:
  assumes inv: "imfs_inv s" and df: "dup_finish s c fd i a = Some s'" and a: "a < length (fd_arcs s)"
  shows "imfs_inv s'"
proof -
  from df obtain s1 s2 where s1: "inc_use s i = Some s1" and s2: "count_pipe_end s1 i a = Some s2"
    and s': "s' = s2\<lparr>fd_info := (fd_info s2)((c, fd) \<mapsto> a)\<rparr>"
    by (auto simp: dup_finish_def bind_eq_Some_conv)
  have inv1: "imfs_inv s1" using time_inv(4) [OF inv s1] .
  show ?thesis unfolding s'
    by (rule fd_share_inv) (use count_pipe_end_inv [OF inv1 s2] inc_use_fds [OF s1] a in auto)
qed

lemma dup_inv [inv_dest]:
  assumes inv: "imfs_inv s" and d: "imfs_dup F ft s c fd = Some (r, s', ft')"
  shows "imfs_inv s'"
proof (cases "s' = s")
  case False
  with d obtain e :: fd_entry and a s1 where a: "fd_info s (c, fd) = Some a"
    and s1: "count_pipe_end s (as_usize (int (underfd e))) a = Some s1"
    and r: "s' = s1 \<or> (\<exists>s2 k. inc_use s1 (as_usize (int (underfd e))) = Some s2 \<and>
      s' = s2\<lparr>fd_info := (fd_info s2)(k \<mapsto> a)\<rparr>)"
    unfolding imfs_dup_def Let_def by (auto split: option.splits if_splits elim!: seqE) blast
  have "imfs_inv s1" and a1: "a < length (fd_arcs s1)"
    using count_pipe_end_inv [OF inv s1] imfs_inv_fd [OF inv a] by auto
  then show ?thesis using r time_inv(4) inc_use_fds fd_share_inv by metis
qed (use inv in simp)

lemma reclaim_node_arcs: "reclaim_node s i = Some s' \<Longrightarrow> fd_arcs s' = fd_arcs s"
  by (cases "n_info (nodes s ! i)")
    (auto simp: reclaim_node_def bind_eq_Some_conv get_node_eq_Some upd_node_eq_Some
      dest!: reclaim_chunk_chain_nodes)

lemma close_node_arcs: "close_node s i = Some s' \<Longrightarrow> fd_arcs s' = fd_arcs s"
  by (auto simp: close_node_def bind_eq_Some_conv upd_node_eq_Some split: if_splits dest!: reclaim_node_arcs)

lemma close_arcs: "imfs_close F ft s c fd = Some (r, s', ft') \<Longrightarrow> fd_arcs s' = fd_arcs s"
  unfolding imfs_close_def Let_def
  by (elim seqE) (auto split: option.splits dest: close_node_arcs)

lemma dup2_inv [inv_dest]:
  assumes inv: "imfs_inv s" and d: "imfs_dup2 F ft s c fd fd' ce = Some (r, s', ft')"
  shows "imfs_inv s'"
proof (cases "s' = s")
  case False
  with d obtain a s1 where a: "fd_info s (c, fd) = Some a"
    and s1: "s1 = s \<or> (\<exists>r1 ft1. imfs_close F ft s c fd' = Some (r1, s1, ft1))"
    and r: "s' = s1 \<or> (\<exists>i. dup_finish s1 c fd' i a = Some s')"
    unfolding imfs_dup2_def Let_def
    by (auto split: option.splits if_splits elim!: seqE)
  have "imfs_inv s1" "a < length (fd_arcs s1)"
    using s1 inv close_inv [OF inv] imfs_inv_fd [OF inv a] by (auto dest: close_arcs)
  then show ?thesis using r dup_finish_inv by blast
qed (use inv in simp)

lemma dup_from_startfd_inv [inv_dest]:
  assumes inv: "imfs_inv s" and d: "dup_from_startfd F ft s c fd st ce = Some (r, s', ft')"
  shows "imfs_inv s'"
proof (cases "s' = s")
  case False
  with d obtain a fd' i where "fd_info s (c, fd) = Some a" "dup_finish s c fd' i a = Some s'"
    unfolding dup_from_startfd_def Let_def
    by (auto split: option.splits if_splits elim!: seqE)
  then show ?thesis using dup_finish_inv inv imfs_inv_fd by blast
qed (use inv in simp)

lemma fork_inv: "imfs_inv s \<Longrightarrow> imfs_inv (imfs_fork s p c)"
proof -
  assume inv: "imfs_inv s"
  let ?s = "s\<lparr>fd_info := \<lambda>(c', fd). if c' = c then (case fd_info s (p, fd) of Some a \<Rightarrow> Some a
    | None \<Rightarrow> fd_info s (c', fd)) else fd_info s (c', fd)\<rparr>"
  have "imfs_inv ?s"
    by (rule fd_info_upd_inv [OF inv]) (auto split: if_splits option.splits dest: imfs_inv_fd [OF inv])
  then show ?thesis by (auto simp: imfs_fork_def Let_def cwd_upd_inv split: option.splits)
qed

lemma read_inv [inv_dest]:
  "imfs_inv s \<Longrightarrow> imfs_read F ft s c fd buf = Some (r, buf', s') \<Longrightarrow> imfs_inv s'"
  "imfs_inv s \<Longrightarrow> imfs_pread F ft s c fd buf off = Some (r, buf', s') \<Longrightarrow> imfs_inv s'"
  unfolding imfs_read_def imfs_pread_def by (elim seqE; (clarsimp)?; ((drule (1) inv_dest)+, assumption)?)+

lemma touch_written_inv [inv_dest]: "imfs_inv s \<Longrightarrow> touch_written s i n = Some s' \<Longrightarrow> imfs_inv s'"
  unfolding touch_written_def by (elim seqE; (clarsimp)?; ((drule (1) inv_dest)+, assumption)?)

lemma write_inv [inv_dest]:
  "imfs_inv s \<Longrightarrow> imfs_write F ft s c fd buf = Some (r, s') \<Longrightarrow> imfs_inv s'"
  "imfs_inv s \<Longrightarrow> imfs_pwrite F ft s c fd buf off = Some (r, s') \<Longrightarrow> imfs_inv s'"
  "imfs_inv s \<Longrightarrow> imfs_ftruncate F ft s c fd len = Some (r, s') \<Longrightarrow> imfs_inv s'"
  unfolding imfs_write_def imfs_pwrite_def imfs_ftruncate_def
  by (elim seqE; (clarsimp split: node_type.splits)?; (elim seqE)?; (clarsimp)?; ((drule (1) inv_dest)+, assumption)?)+

lemma lseek_inv [inv_dest]: "imfs_inv s \<Longrightarrow> imfs_lseek F ft s c fd off wh = Some (r, s') \<Longrightarrow> imfs_inv s'"
  unfolding imfs_lseek_def
  by (elim seqE; (clarsimp split: node_info.splits)?; (elim seqE)?; (clarsimp)?; ((drule (1) inv_dest)+, assumption)?)

lemma fcntl_inv [inv_dest]:
  "imfs_inv s \<Longrightarrow> imfs_fcntl F ft s c fd cmd arg = Some (r, s', ft') \<Longrightarrow> imfs_inv s'"
  unfolding imfs_fcntl_def
  by (auto split: if_splits option.splits elim!: bind_SomeE dest: dup_from_startfd_inv)

lemma getdents_inv [inv_dest]:
  "imfs_inv s \<Longrightarrow> imfs_getdents F ft s c fd buf = Some (r, buf', s') \<Longrightarrow> imfs_inv s'"
  unfolding imfs_getdents_def
  by (elim seqE; (clarsimp split: node_info.splits)?; (elim seqE)?; (clarsimp)?; ((drule (1) inv_dest)+, assumption)?)

section \<open>Path operations keep the invariant\<close>

lemma cwd_inv [inv_dest]:
  "imfs_inv s \<Longrightarrow> imfs_chdir s c p = Some (r, s') \<Longrightarrow> imfs_inv s'"
  "imfs_inv s \<Longrightarrow> imfs_fchdir F ft s c fd = Some (r, s') \<Longrightarrow> imfs_inv s'"
  unfolding imfs_chdir_def imfs_fchdir_def Let_def by (elim seqE; clarsimp simp: cwd_upd_inv)+

lemma statat_inv [inv_dest]:
  "imfs_inv s \<Longrightarrow> imfs_statat F ft s c d p b fl = Some (r, b', s') \<Longrightarrow> imfs_inv s'"
  unfolding imfs_statat_def statat_empty_def Let_def
  by (elim seqE; (clarsimp)?; ((drule (1) inv_dest)+, assumption)?)

lemma rmdir_inv [inv_dest]:
  "imfs_inv s \<Longrightarrow> rmdir_resolved_path s p = Some (r, s') \<Longrightarrow> imfs_inv s'"
  unfolding rmdir_resolved_path_def Let_def
  by (elim seqE; (clarsimp split: node_info.splits if_splits)?; (elim seqE)?; (clarsimp)?; ((drule (1) inv_dest)+, assumption)?)

lemma unlink_inv [inv_dest]:
  "imfs_inv s \<Longrightarrow> unlink_resolved_path s p = Some (r, s') \<Longrightarrow> imfs_inv s'"
  unfolding unlink_resolved_path_def by (elim seqE; (clarsimp)?; ((drule (1) inv_dest)+, assumption)?)

lemma unlinkat_inv [inv_dest]:
  "imfs_inv s \<Longrightarrow> imfs_unlinkat F ft s c d p fl = Some (r, s') \<Longrightarrow> imfs_inv s'"
  unfolding imfs_unlinkat_def by (elim seqE; (clarsimp)?; ((drule (1) inv_dest)+, assumption)?)

lemma create_node_facts:
  assumes "create_node s nm t m = Some (k, s')"
  shows "k < length (nodes s')" and "length (nodes s) \<le> length (nodes s')"
    and "node_type (nodes s' ! k) = t" and "n_name (nodes s' ! k) = nm"
  using assms
  by (cases "node_free_list s" rule: rev_cases;
      auto simp: create_node_def bind_eq_Some_conv upd_node_eq_Some Let_def nth_append)+

lemma add_child_facts:
  assumes "add_child s p c = Some s'"
  shows "length (nodes s') = length (nodes s)" and "node_type (nodes s' ! j) = node_type (nodes s ! j)"
    and "p < length (nodes s)"
  using assms
  by (auto simp: add_child_def bind_eq_Some_conv get_node_eq_Some upd_node_eq_Some
      with_children_mut_eq_Some nth_upd)

lemma link_upd_inv:
  assumes inv: "imfs_inv s" and up: "upd_node s k (\<lambda>n. n\<lparr>n_info := x, total_size := z n\<rparr>) = Some s'"
    and ty: "node_type (nodes s ! k) = Lnk"
    and x: "(\<exists>t < length (nodes s). x = IHardLink t) \<or> (\<exists>p. x = ISymlink p)"
  shows "imfs_inv s'"
proof (rule imfs_inv_replace [OF inv up])
  have k: "k < length (nodes s)" using up by (simp add: upd_node_eq_Some)
  show "node_ok (length (nodes s)) ((nodes s ! k)\<lparr>n_info := x, total_size := z (nodes s ! k)\<rparr>)"
    using tree_inv_node [OF imfs_invD(2) [OF inv] k] ty x by (auto simp: node_ok_def)
  show "node_type ((nodes s ! k)\<lparr>n_info := x, total_size := z (nodes s ! k)\<rparr>) = Dir" if "k = root_idx s"
    using imfs_invD(2) [OF inv] ty that by (simp add: tree_inv_def)
qed (use x in auto)

lemma hardlink_upd_inv:
  assumes "imfs_inv s" and "upd_node s k (\<lambda>n. n\<lparr>n_info := IHardLink t\<rparr>) = Some s'"
    and "node_type (nodes s ! k) = Lnk" and "t < length (nodes s)"
  shows "imfs_inv s'"
proof (rule link_upd_inv [OF assms(1) _ assms(3), where x = "IHardLink t" and z = total_size])
  have "(\<lambda>n :: node. n\<lparr>n_info := IHardLink t, total_size := total_size n\<rparr>) = (\<lambda>n. n\<lparr>n_info := IHardLink t\<rparr>)" by auto
  with assms(2) show "upd_node s k (\<lambda>n. n\<lparr>n_info := IHardLink t, total_size := total_size n\<rparr>) = Some s'" by simp
qed (use assms(4) in auto)

lemma link_new_inv [inv_dest]:
  assumes inv: "imfs_inv s" and ln: "link_new s p nm t = Some s'"
  shows "imfs_inv s'"
proof -
  from ln obtain m k s1 s2 s3 s4 s5 where t: "t < length (nodes s)"
    and s1: "create_node s nm Lnk m = Some (k, s1)" and s2: "add_child s1 p k = Some s2"
    and s3: "upd_node s2 k (\<lambda>n. n\<lparr>n_info := IHardLink t\<rparr>) = Some s3"
    and s4: "touch_dir s3 p = Some s4" "update_ctime s4 t = Some s5" "touch_dir s5 k = Some s'"
    by (auto simp: link_new_def bind_eq_Some_conv get_node_eq_Some)
  note f = create_node_facts [OF s1] add_child_facts [OF s2]
  have "imfs_inv s2" using create_node_inv [OF inv s1] add_child_inv [OF _ s2] by blast
  then have "imfs_inv s3" by (rule hardlink_upd_inv [OF _ s3]) (use f t in auto)
  with s4 show ?thesis by (elim touch_dir_inv [OF time_inv(3) [OF touch_dir_inv]])
qed

lemma symlink_new_inv [inv_dest]:
  assumes inv: "imfs_inv s" and ln: "symlink_new s p nm t = Some s'"
  shows "imfs_inv s'"
proof -
  from ln obtain k s1 s2 s3 s4 where s1: "create_node s nm Lnk 0x1FF = Some (k, s1)"
    and s2: "upd_node s1 k (\<lambda>n. n\<lparr>n_info := ISymlink t, total_size := length t\<rparr>) = Some s2"
    and s3: "add_child s2 p k = Some s3" and s4: "touch_dir s3 p = Some s4" "touch_dir s4 k = Some s'"
    by (auto simp: symlink_new_def bind_eq_Some_conv)
  have "imfs_inv s2"
    by (rule link_upd_inv [OF create_node_inv [OF inv s1] s2]) (use create_node_facts [OF s1] in auto)
  from add_child_inv [OF this s3] s4 show ?thesis by (elim touch_dir_inv [OF touch_dir_inv])
qed

lemma add_dot_facts:
  assumes "add_dot s d nm t = Some s'"
  shows "length (nodes s) \<le> length (nodes s')" and "imfs_inv s \<Longrightarrow> t < length (nodes s) \<Longrightarrow> imfs_inv s'"
proof -
  from assms obtain k s1 s2 where s1: "create_node s nm Lnk 0 = Some (k, s1)"
    and s2: "upd_node s1 k (\<lambda>n. n\<lparr>n_info := IHardLink t\<rparr>) = Some s2" and s3: "add_child s2 d k = Some s'"
    by (auto simp: add_dot_def bind_eq_Some_conv)
  note f = create_node_facts [OF s1]
  show "length (nodes s) \<le> length (nodes s')"
    using f add_child_facts(1) [OF s3] s2 by (simp add: upd_node_eq_Some)
  assume "imfs_inv s" and t: "t < length (nodes s)"
  then have "imfs_inv s1" using create_node_inv s1 by blast
  then have "imfs_inv s2" by (rule hardlink_upd_inv [OF _ s2]) (use f t in auto)
  then show "imfs_inv s'" using add_child_inv s3 by blast
qed

lemma mkdir_new_inv [inv_dest]:
  assumes inv: "imfs_inv s" and mk: "mkdir_new s p nm m = Some s'"
  shows "imfs_inv s'"
proof -
  from mk obtain d s1 s2 s3 s4 s5 where s1: "create_node s nm Dir m = Some (d, s1)"
    and s2: "add_child s1 p d = Some s2" and s3: "add_dot s2 d ''.'' d = Some s3"
    and s4: "add_dot s3 d ''..'' p = Some s4" and s5: "touch_dir s4 p = Some s5" "touch_dir s5 d = Some s'"
    by (auto simp: mkdir_new_def bind_eq_Some_conv)
  note f = create_node_facts [OF s1] add_child_facts [OF s2] add_dot_facts(1) [OF s3]
  have "imfs_inv s2" using create_node_inv [OF inv s1] add_child_inv [OF _ s2] by blast
  then have "imfs_inv s3" by (rule add_dot_facts(2) [OF s3]) (use f in simp)
  then have "imfs_inv s4" by (rule add_dot_facts(2) [OF s4]) (use f in simp)
  with s5 show ?thesis by (elim touch_dir_inv [OF touch_dir_inv])
qed

lemma new_entry_inv [inv_dest]:
  "imfs_inv s \<Longrightarrow> mknod_new s p nm t m = Some s' \<Longrightarrow> imfs_inv s'"
  "imfs_inv s \<Longrightarrow> link_resolved_paths s a b f = Some (r, s') \<Longrightarrow> imfs_inv s'"
  "imfs_inv s \<Longrightarrow> symlink_resolved_path s a b = Some (r, s') \<Longrightarrow> imfs_inv s'"
  "imfs_inv s \<Longrightarrow> imfs_mkdir s c path m = Some (r, s') \<Longrightarrow> imfs_inv s'"
  unfolding mknod_new_def link_resolved_paths_def symlink_resolved_path_def imfs_mkdir_def Let_def
  by (elim seqE; (clarsimp)?; ((drule (1) inv_dest)+, assumption)?)+

lemma mknod_inv [inv_dest]: "imfs_inv s \<Longrightarrow> imfs_mknod s c path m = Some (r, s') \<Longrightarrow> imfs_inv s'"
  unfolding imfs_mknod_def Let_def by (elim seqE; (clarsimp)?; ((drule (1) inv_dest)+, assumption)?)

lemma rename_parts_inv [inv_dest]:
  "imfs_inv s \<Longrightarrow> rename_replace s p i j = Some (r, s') \<Longrightarrow> imfs_inv s'"
  unfolding rename_replace_def by (elim seqE; (clarsimp)?; ((drule (1) inv_dest)+, assumption)?)

lemma rename_move_inv [inv_dest]:
  assumes inv: "imfs_inv s" and mv: "rename_move s i p q nm = Some s'"
  shows "imfs_inv s'"
proof -
  from mv obtain s1 s2 s3 s4 s5 where s1: "remove_child s i = Some s1"
    and s2: "upd_node s1 i (\<lambda>n. n\<lparr>n_name := nm\<rparr>) = Some s2" and s3: "add_child s2 q i = Some s3"
    and s4: "touch_dir s3 p = Some s4" "(if q \<noteq> p then touch_dir s4 q else Some s4) = Some s5"
      "update_ctime s5 i = Some s'"
    by (auto simp: rename_move_def bind_eq_Some_conv)
  have "imfs_inv s2" by (rule imfs_inv_shape [OF remove_child_inv [OF inv s1] s2]) (simp add: shape_def)
  from add_child_inv [OF this s3] have "imfs_inv s4" using s4(1) touch_dir_inv by blast
  then have "imfs_inv s5" using s4(2) touch_dir_inv by (auto split: if_splits)
  then show ?thesis using s4(3) time_inv(3) by blast
qed

lemma rename_inv [inv_dest]:
  "imfs_inv s \<Longrightarrow> rename_onto s p q i j = Some (r, s') \<Longrightarrow> imfs_inv s'"
  unfolding rename_onto_def by (elim seqE; (clarsimp)?; ((drule (1) inv_dest)+, assumption)?)

lemma rename_resolved_inv [inv_dest]:
  "imfs_inv s \<Longrightarrow> rename_resolved_paths s p q = Some (r, s') \<Longrightarrow> imfs_inv s'"
  unfolding rename_resolved_paths_def by (elim seqE; (clarsimp)?; ((drule (1) inv_dest)+, assumption)?)

lemma chmod_node_inv [inv_dest]: "imfs_inv s \<Longrightarrow> chmod_node s i m = Some (r, s') \<Longrightarrow> imfs_inv s'"
  unfolding chmod_node_def
  by (auto elim!: bind_SomeE intro: time_inv(3) [OF imfs_inv_shape] simp: shape_def)

lemma chown_node_inv [inv_dest]:
  assumes inv: "imfs_inv s" and ch: "chown_node s i u g = Some (r, s')"
  shows "imfs_inv s'"
proof -
  from ch obtain n s1 where "upd_node s i (\<lambda>_. n) = Some s1" "shape n = shape (nodes s ! i)"
    and s': "update_ctime s1 i = Some s'"
    unfolding chown_node_def Let_def by (elim seqE) (simp add: get_node_eq_Some shape_def split: if_splits)
  then have "imfs_inv s1" by (intro imfs_inv_shape [OF inv])
  then show ?thesis using s' by (rule time_inv(3))
qed

lemma attr_inv [inv_dest]:
  "imfs_inv s \<Longrightarrow> chmod_resolved_path s p m = Some (r, s') \<Longrightarrow> imfs_inv s'"
  "imfs_inv s \<Longrightarrow> imfs_fchmod F ft s c fd m = Some (r, s') \<Longrightarrow> imfs_inv s'"
  "imfs_inv s \<Longrightarrow> chown_path s c p f u g = Some (r, s') \<Longrightarrow> imfs_inv s'"
  "imfs_inv s \<Longrightarrow> imfs_chownat F ft s c d p u g fl = Some (r, s') \<Longrightarrow> imfs_inv s'"
  unfolding chmod_resolved_path_def imfs_fchmod_def chown_path_def imfs_chownat_def
  by (elim seqE; (clarsimp)?; ((drule (1) inv_dest)+, assumption)?)+

lemma utimensat_inv [inv_dest]:
  "imfs_inv s \<Longrightarrow> imfs_utimensat F ft s c d pp = Some (r, s') \<Longrightarrow> imfs_inv s'"
  unfolding imfs_utimensat_def
  by (erule bind_SomeE, erule case_sum_SomeE;
      (auto split: if_splits elim!: bind_SomeE)?; ((drule (1) inv_dest)+, assumption)?)

lemma readlink_inv [inv_dest]:
  "imfs_inv s \<Longrightarrow> readlink_resolved_path s p = Some (t, s') \<Longrightarrow> imfs_inv s'"
  unfolding readlink_resolved_path_def
  by (elim seqE; (clarsimp split: node_info.splits)?; (elim seqE)?; (clarsimp)?;
      ((drule (1) inv_dest)+, assumption)?)

lemma truncate_inv [inv_dest]: "imfs_inv s \<Longrightarrow> imfs_truncate s c p len = Some (r, s') \<Longrightarrow> imfs_inv s'"
  unfolding imfs_truncate_def
  by (elim seqE; (clarsimp split: node_type.splits)?; (elim seqE)?; (clarsimp)?;
      ((drule (1) inv_dest)+, assumption)?)

lemma at_inv [inv_dest]:
  "imfs_inv s \<Longrightarrow> imfs_linkat F ft s c d p d' q fl = Some (r, s') \<Longrightarrow> imfs_inv s'"
  "imfs_inv s \<Longrightarrow> imfs_symlinkat F ft s c p d q = Some (r, s') \<Longrightarrow> imfs_inv s'"
  "imfs_inv s \<Longrightarrow> imfs_readlinkat F ft s c d p = Some (t, s') \<Longrightarrow> imfs_inv s'"
  "imfs_inv s \<Longrightarrow> imfs_renameat F ft s c d p d' q = Some (r, s') \<Longrightarrow> imfs_inv s'"
  "imfs_inv s \<Longrightarrow> imfs_chmodat F ft s c d p m = Some (r, s') \<Longrightarrow> imfs_inv s'"
  unfolding imfs_linkat_def imfs_symlinkat_def imfs_readlinkat_def imfs_renameat_def imfs_chmodat_def
  by (elim seqE; (clarsimp)?; ((drule (1) inv_dest)+, assumption)?)+

lemmas cwd_wrappers = imfs_rmdir_def imfs_unlink_def imfs_link_def imfs_symlink_def imfs_readlink_def
  imfs_rename_def imfs_chmod_def imfs_chown_def imfs_lchown_def

section \<open>Reachable states\<close>

text \<open>One rule per public operation; \<open>tables\<close> allows any change of the descriptor tables made elsewhere
  (the runtime, other grates).\<close>

inductive imfs_step :: "'ft fdtables_ops \<Rightarrow> imfs \<times> 'ft \<Rightarrow> imfs \<times> 'ft \<Rightarrow> bool" for F where
  sys_open: "imfs_open F ft s c p fl m = Some (r, s', ft') \<Longrightarrow> imfs_step F (s, ft) (s', ft')"
| sys_openat: "imfs_openat F ft s c d p fl m = Some (r, s', ft') \<Longrightarrow> imfs_step F (s, ft) (s', ft')"
| sys_close: "imfs_close F ft s c fd = Some (r, s', ft') \<Longrightarrow> imfs_step F (s, ft) (s', ft')"
| sys_dup: "imfs_dup F ft s c fd = Some (r, s', ft') \<Longrightarrow> imfs_step F (s, ft) (s', ft')"
| sys_dup2: "imfs_dup2 F ft s c fd fd' ce = Some (r, s', ft') \<Longrightarrow> imfs_step F (s, ft) (s', ft')"
| sys_fcntl: "imfs_fcntl F ft s c fd cmd arg = Some (r, s', ft') \<Longrightarrow> imfs_step F (s, ft) (s', ft')"
| sys_read: "imfs_read F ft s c fd buf = Some (r, b', s') \<Longrightarrow> imfs_step F (s, ft) (s', ft)"
| sys_pread: "imfs_pread F ft s c fd buf off = Some (r, b', s') \<Longrightarrow> imfs_step F (s, ft) (s', ft)"
| sys_getdents: "imfs_getdents F ft s c fd buf = Some (r, b', s') \<Longrightarrow> imfs_step F (s, ft) (s', ft)"
| sys_statat: "imfs_statat F ft s c d p b fl = Some (r, b', s') \<Longrightarrow> imfs_step F (s, ft) (s', ft)"
| sys_write: "imfs_write F ft s c fd bytes = Some (r, s') \<Longrightarrow> imfs_step F (s, ft) (s', ft)"
| sys_pwrite: "imfs_pwrite F ft s c fd bytes off = Some (r, s') \<Longrightarrow> imfs_step F (s, ft) (s', ft)"
| sys_lseek: "imfs_lseek F ft s c fd off wh = Some (r, s') \<Longrightarrow> imfs_step F (s, ft) (s', ft)"
| sys_ftruncate: "imfs_ftruncate F ft s c fd off = Some (r, s') \<Longrightarrow> imfs_step F (s, ft) (s', ft)"
| sys_truncate: "imfs_truncate s c p off = Some (r, s') \<Longrightarrow> imfs_step F (s, ft) (s', ft)"
| sys_chdir: "imfs_chdir s c p = Some (r, s') \<Longrightarrow> imfs_step F (s, ft) (s', ft)"
| sys_fchdir: "imfs_fchdir F ft s c fd = Some (r, s') \<Longrightarrow> imfs_step F (s, ft) (s', ft)"
| sys_rmdir: "imfs_rmdir s c p = Some (r, s') \<Longrightarrow> imfs_step F (s, ft) (s', ft)"
| sys_unlink: "imfs_unlink s c p = Some (r, s') \<Longrightarrow> imfs_step F (s, ft) (s', ft)"
| sys_unlinkat: "imfs_unlinkat F ft s c d p fl = Some (r, s') \<Longrightarrow> imfs_step F (s, ft) (s', ft)"
| sys_link: "imfs_link s c p q = Some (r, s') \<Longrightarrow> imfs_step F (s, ft) (s', ft)"
| sys_linkat: "imfs_linkat F ft s c d p d' q fl = Some (r, s') \<Longrightarrow> imfs_step F (s, ft) (s', ft)"
| sys_symlink: "imfs_symlink s c p q = Some (r, s') \<Longrightarrow> imfs_step F (s, ft) (s', ft)"
| sys_symlinkat: "imfs_symlinkat F ft s c p d q = Some (r, s') \<Longrightarrow> imfs_step F (s, ft) (s', ft)"
| sys_readlink: "imfs_readlink s c p = Some (r, s') \<Longrightarrow> imfs_step F (s, ft) (s', ft)"
| sys_readlinkat: "imfs_readlinkat F ft s c d p = Some (r, s') \<Longrightarrow> imfs_step F (s, ft) (s', ft)"
| sys_rename: "imfs_rename s c p q = Some (r, s') \<Longrightarrow> imfs_step F (s, ft) (s', ft)"
| sys_renameat: "imfs_renameat F ft s c d p d' q = Some (r, s') \<Longrightarrow> imfs_step F (s, ft) (s', ft)"
| sys_chmod: "imfs_chmod s c p m = Some (r, s') \<Longrightarrow> imfs_step F (s, ft) (s', ft)"
| sys_chmodat: "imfs_chmodat F ft s c d p m = Some (r, s') \<Longrightarrow> imfs_step F (s, ft) (s', ft)"
| sys_fchmod: "imfs_fchmod F ft s c fd m = Some (r, s') \<Longrightarrow> imfs_step F (s, ft) (s', ft)"
| sys_chown: "imfs_chown s c p u g = Some (r, s') \<Longrightarrow> imfs_step F (s, ft) (s', ft)"
| sys_lchown: "imfs_lchown s c p u g = Some (r, s') \<Longrightarrow> imfs_step F (s, ft) (s', ft)"
| sys_chownat: "imfs_chownat F ft s c d p u g fl = Some (r, s') \<Longrightarrow> imfs_step F (s, ft) (s', ft)"
| sys_utimensat: "imfs_utimensat F ft s c d pp = Some (r, s') \<Longrightarrow> imfs_step F (s, ft) (s', ft)"
| sys_mknod: "imfs_mknod s c p m = Some (r, s') \<Longrightarrow> imfs_step F (s, ft) (s', ft)"
| sys_mkdir: "imfs_mkdir s c p m = Some (r, s') \<Longrightarrow> imfs_step F (s, ft) (s', ft)"
| sys_fork: "imfs_step F (s, ft) (imfs_fork s c c', ft)"
| sys_perfdinfo: "imfs_step F (s, ft) (insert_perfdinfo s c fd w, ft)"
| sys_cwd: "imfs_step F (s, ft) (s\<lparr>cwd_info := (cwd_info s)(c \<mapsto> d)\<rparr>, ft)"
| sys_tables: "imfs_step F (s, ft) (s, ft')"

inductive imfs_reachable :: "'ft fdtables_ops \<Rightarrow> imfs \<times> 'ft \<Rightarrow> bool" for F where
  init: "imfs_init = Some s \<Longrightarrow> imfs_reachable F (s, ft)"
| step: "imfs_reachable F x \<Longrightarrow> imfs_step F x y \<Longrightarrow> imfs_reachable F y"

lemma imfs_step_inv: "imfs_step F x y \<Longrightarrow> imfs_inv (fst x) \<Longrightarrow> imfs_inv (fst y)"
  by (induction rule: imfs_step.induct; simp add: cwd_wrappers fork_inv insert_perfdinfo_inv cwd_upd_inv;
      (drule (1) inv_dest, assumption)?)

text \<open>The state built by \<open>init\<close>: the root with its two dot entries.\<close>

definition init_nodes :: "node list" where
  "init_nodes =
     [(node_new 0 ''/'' Dir 0x1ED)\<lparr>n_info := IDir [\<lparr>de_name = ''.'', de_node_idx = 1\<rparr>,
         \<lparr>de_name = ''..'', de_node_idx = 2\<rparr>]\<rparr>,
      (node_new 1 ''.'' Lnk 0)\<lparr>n_info := IHardLink 0\<rparr>,
      (node_new 2 ''..'' Lnk 0)\<lparr>n_info := IHardLink 0\<rparr>]"

lemma imfs_init_eq: "imfs_init = Some (imfs_empty\<lparr>cwd_info := [0 \<mapsto> ''/''], nodes := init_nodes\<rparr>)"
  by (simp add: imfs_init_def imfs_empty_def create_node_def add_child_def get_node_def upd_node_def
      with_children_mut_def Let_def init_nodes_def node_new_def node_init_info_def)

lemma imfs_init_inv: "imfs_init = Some s \<Longrightarrow> imfs_inv s"
proof -
  assume "imfs_init = Some s"
  then have s: "s = imfs_empty\<lparr>cwd_info := [0 \<mapsto> ''/''], nodes := init_nodes\<rparr>" by (simp add: imfs_init_eq)
  have info: "n_info (init_nodes ! i) \<noteq> IReg h t" if "i < length init_nodes" for i h t
    using that by (auto simp: init_nodes_def nth_Cons split: nat.splits)
  then have "storage_ok s (\<lambda>_. [])"
    by (auto simp: s storage_ok_def chained_def reg_info_def is_reg_def imfs_empty_def)
  then have "storage_inv s" by (rule storage_okD(2))
  moreover have "\<forall>i < length init_nodes. node_ok (length init_nodes) (init_nodes ! i)"
    by (auto simp: init_nodes_def node_ok_def nth_Cons less_Suc_eq split: nat.splits)
  moreover have "0 < length init_nodes" "node_type (init_nodes ! 0) = Dir" by (simp_all add: init_nodes_def)
  ultimately have "tree_inv s" "storage_inv s" by (simp_all add: s tree_inv_def imfs_empty_def)
  moreover have "fd_inv s" by (simp add: s fd_inv_def imfs_empty_def)
  ultimately show ?thesis by (simp add: imfs_inv_def)
qed

lemma imfs_reachable_inv: "imfs_reachable F x \<Longrightarrow> imfs_inv (fst x)"
  by (induction rule: imfs_reachable.induct) (auto dest: imfs_init_inv imfs_step_inv)

end
