(* ===== verification/Imfs_Spec.thy ===== *)
theory Imfs_Spec
  imports Imfs_Inv
begin

text \<open>
  What the IMFS operations promise: path normalisation, directory entries, descriptor level
  reads, writes and seeks, shared offsets, unlinked files that stay readable, permissions,
  directory listing, and the behaviours where the code departs from its intent.
\<close>

section \<open>Normalisation\<close>

lemma norm_render_eq: "norm_render ps = render_abs ps"
  by (simp add: norm_render_def render_abs_def)

definition base_of :: "string \<Rightarrow> string \<Rightarrow> string" where
  "base_of base p = (if absolute p then ''/'' else base)"

lemma split_root: "split_on slash ''/'' = [[], []]"
  by simp

lemma normalize_from_base_eq:
  "normalize_path_from_base base p =
   render_abs (resolve_parts (split_on slash (base_of base p) @ split_on slash p))"
  by (simp add: normalize_path_from_base_def norm_render_eq resolve_parts_def base_of_def absolute_def Let_def)

lemma normalize_for_cage_eq:
  "normalize_path_for_cage s c p =
   normalize_path_from_base (case cwd_info s c of Some d \<Rightarrow> d | None \<Rightarrow> ''/'') p"
  by (simp add: normalize_path_for_cage_def normalize_path_from_base_def Let_def)

interpretation imfs_norm: path_normalizer "normalize_path_from_base base"
  "\<lambda>p. split_on slash (base_of base p) @ split_on slash p" "\<lambda>_. True" for base
proof unfold_locales
  fix p x
  show "normalize_path_from_base base p =
      render_abs (resolve_parts (split_on slash (base_of base p) @ split_on slash p))"
    by (rule normalize_from_base_eq)
  show "slash \<notin> set x" if "x \<in> set (split_on slash (base_of base p) @ split_on slash p)"
    using that by (auto dest: split_on_free)
  show "resolve_parts (split_on slash (base_of base p) @ split_on slash p) = resolve_parts (split_on slash p)"
    if "absolute p" using that by (simp add: base_of_def resolve_parts_append resolve_parts_def)
qed simp_all

section \<open>Directory entries\<close>

text \<open>A directory as a map from names: what a lookup sees after an insertion or a removal.\<close>

locale name_map =
  fixes ok :: "'s \<Rightarrow> nat \<Rightarrow> bool"
    and look :: "'s \<Rightarrow> nat \<Rightarrow> string \<Rightarrow> nat option"
    and ins :: "'s \<Rightarrow> nat \<Rightarrow> string \<Rightarrow> nat \<Rightarrow> 's \<Rightarrow> bool"
    and del :: "'s \<Rightarrow> nat \<Rightarrow> string \<Rightarrow> 's \<Rightarrow> bool"
  assumes ins_law: "ok s d \<Longrightarrow> ins s d n i s' \<Longrightarrow> look s d n = None \<Longrightarrow>
      ok s' d \<and> look s' d = (look s d)(n \<mapsto> i)"
    and del_law: "ok s d \<Longrightarrow> del s d n s' \<Longrightarrow> ok s' d \<and> look s' d = (look s d)(n := None)"
begin

lemma ins_del:
  "ok s d \<Longrightarrow> look s d n = None \<Longrightarrow> ins s d n i s' \<Longrightarrow> del s' d n s'' \<Longrightarrow> look s'' d = look s d"
  using ins_law [of s d n i s'] del_law [of s' d n s''] by (auto simp: fun_upd_idem)

lemma move:
  "ok s d \<Longrightarrow> look s d m = None \<Longrightarrow> m \<noteq> n \<Longrightarrow> del s d n s' \<Longrightarrow> ins s' d m i s'' \<Longrightarrow>
   look s'' d = (look s d)(n := None, m \<mapsto> i)"
  using del_law [of s d n s'] ins_law [of s' d m i s''] by auto

end

definition is_dir :: "imfs \<Rightarrow> nat \<Rightarrow> bool" where
  "is_dir s d \<longleftrightarrow> d < length (nodes s) \<and> (\<exists>cs. n_info (nodes s ! d) = IDir cs)"

definition dir_lookup :: "imfs \<Rightarrow> nat \<Rightarrow> string \<Rightarrow> nat option" where
  "dir_lookup s d n = map_option de_node_idx (find (\<lambda>e. de_name e = n) (dir_children (nodes s ! d)))"

lemma lookup_child_dir: "is_dir s d \<Longrightarrow> lookup_child s d n = Some (dir_lookup s d n)"
  by (auto simp: is_dir_def lookup_child_def dir_lookup_def dir_children_def get_node_def)

lemma find_append: "find P (xs @ ys) = (case find P xs of Some x \<Rightarrow> Some x | None \<Rightarrow> find P ys)"
  by (induction xs) auto

lemma find_filter_name:
  "find (\<lambda>e. de_name e = n) (filter (\<lambda>e. de_name e \<noteq> m) cs) =
   (if n = m then None else find (\<lambda>e. de_name e = n) cs)"
  by (induction cs) auto

lemma add_child_lookup:
  assumes ac: "add_child s d i = Some s'" and none: "dir_lookup s d (n_name (nodes s ! i)) = None"
  shows "is_dir s' d \<and> dir_lookup s' d = (dir_lookup s d)(n_name (nodes s ! i) \<mapsto> i)"
proof -
  let ?nm = "n_name (nodes s ! i)"
  from ac obtain cs where d: "d < length (nodes s)" "n_info (nodes s ! d) = IDir cs" "i < length (nodes s)"
    and s': "n_info (nodes s' ! d) = IDir (cs @ [\<lparr>de_name = ?nm, de_node_idx = i\<rparr>])"
      "length (nodes s') = length (nodes s)"
    by (auto simp: add_child_def bind_eq_Some_conv get_node_eq_Some upd_node_eq_Some
        with_children_mut_eq_Some nth_upd)
  have "find (\<lambda>e. de_name e = ?nm) cs = None" using none d by (simp add: dir_lookup_def dir_children_def)
  then have "dir_lookup s' d n = ((dir_lookup s d)(?nm \<mapsto> i)) n" for n
    using d s' by (auto simp: dir_lookup_def dir_children_def find_append split: option.splits)
  with d s' show ?thesis by (auto simp: is_dir_def)
qed

lemma remove_child_lookup:
  assumes "remove_child s i = Some s'"
  shows "is_dir s' (parent_idx (nodes s ! i)) \<and> dir_lookup s' (parent_idx (nodes s ! i)) =
    (dir_lookup s (parent_idx (nodes s ! i)))(n_name (nodes s ! i) := None)"
proof -
  let ?p = "parent_idx (nodes s ! i)"
  from assms obtain cs where d: "?p < length (nodes s)" "n_info (nodes s ! ?p) = IDir cs"
    and s': "s' = s\<lparr>nodes := (nodes s)[?p := (nodes s ! ?p)\<lparr>n_info :=
      IDir (filter (\<lambda>e. de_name e \<noteq> n_name (nodes s ! i)) cs)\<rparr>]\<rparr>"
    by (auto simp: remove_child_def bind_eq_Some_conv get_node_eq_Some upd_node_eq_Some with_children_mut_eq_Some)
  have "dir_lookup s' ?p n = ((dir_lookup s ?p)(n_name (nodes s ! i) := None)) n" for n
    using d by (simp add: s' dir_lookup_def dir_children_def find_filter_name)
  with d show ?thesis by (auto simp: is_dir_def s')
qed

interpretation imfs_dir: name_map is_dir dir_lookup
  "\<lambda>s d n i s'. n_name (nodes s ! i) = n \<and> add_child s d i = Some s'"
  "\<lambda>s d n s'. \<exists>i. n_name (nodes s ! i) = n \<and> parent_idx (nodes s ! i) = d \<and> remove_child s i = Some s'"
  by unfold_locales (use add_child_lookup remove_child_lookup in blast)+

section \<open>Descriptors\<close>

text \<open>Descriptor \<open>fd\<close> of cage \<open>c\<close> refers to node \<open>i\<close>, was opened with \<open>fl\<close> and stands at \<open>off\<close>.\<close>

definition fd_at :: "'ft fdtables_ops \<Rightarrow> 'ft \<Rightarrow> imfs \<Rightarrow> nat \<Rightarrow> nat \<Rightarrow> nat \<Rightarrow> i32 \<Rightarrow> int \<Rightarrow> bool" where
  "fd_at F ft s c fd i fl off \<longleftrightarrow>
     (\<exists>e. translate_virtual_fd F ft c fd = Some e \<and> as_usize (int (underfd e)) = i) \<and>
     get_fd_rec s c fd = Some \<lparr>fi_flags = scast fl, fi_offset = off\<rparr>"

lemma flags_roundtrip: "ucast (scast (fl :: i32) :: 64 word) = fl"
  by (rule bit_word_eqI) (simp add: bit_simps)

lemma file_chain_reg:
  "reg_info s j h t \<Longrightarrow> file_chain s j = walk (length (chunks s)) (chunks s) h"
  "\<not> is_reg s j \<Longrightarrow> file_chain s j = []"
  by (auto simp: file_chain_def reg_info_def is_reg_def split: node_info.splits)

text \<open>The contents depend only on the chain heads of the regular files and on the chunks.\<close>

lemma contents_at_cong:
  assumes "\<And>h t. reg_info s' j h t \<longleftrightarrow> reg_info s j h t" and "chunks s' = chunks s"
  shows "contents s' j = contents s j"
proof -
  have "file_chain s' j = file_chain s j"
    using assms by (cases "is_reg s j") (auto simp: is_reg_def file_chain_reg)
  then show ?thesis by (simp add: contents_def assms(2))
qed

lemma contents_cong:
  assumes "\<And>j h t. reg_info s' j h t \<longleftrightarrow> reg_info s j h t" and "chunks s' = chunks s"
  shows "contents s' = contents s" and "is_reg s' = is_reg s"
proof -
  show "is_reg s' = is_reg s" using assms by (simp add: fun_eq_iff is_reg_def)
  show "contents s' = contents s" using contents_at_cong assms by blast
qed

lemma contents_cong_upd:
  assumes "i < length (nodes s) \<Longrightarrow> n_info n = n_info (nodes s ! i) \<or>
    \<not> is_reg s i \<and> (\<forall>h t. n_info n \<noteq> IReg h t)" and "s' = s\<lparr>nodes := (nodes s)[i := n]\<rparr>"
  shows "contents s' = contents s" and "is_reg s' = is_reg s"
proof -
  have "reg_info s' j h t \<longleftrightarrow> reg_info s j h t" for j h t
    using assms by (auto simp: reg_info_def is_reg_def nth_upd)
  moreover have "chunks s' = chunks s" using assms(2) by simp
  ultimately show "contents s' = contents s" and "is_reg s' = is_reg s" by (rule contents_cong)+
qed

text \<open>What a change of node fields outside \<open>n_info\<close> leaves alone.\<close>

definition same_data :: "imfs \<Rightarrow> imfs \<Rightarrow> bool" where
  "same_data s s' \<longleftrightarrow> contents s' = contents s \<and> is_reg s' = is_reg s \<and>
     fd_info s' = fd_info s \<and> fd_arcs s' = fd_arcs s"

lemma same_data_refl [simp]: "same_data s s"
  by (simp add: same_data_def)

lemma same_data_trans: "same_data s s' \<Longrightarrow> same_data s' s'' \<Longrightarrow> same_data s s''"
  by (simp add: same_data_def)

lemma upd_node_same_data:
  assumes "upd_node s i f = Some s'" and "n_info (f (nodes s ! i)) = n_info (nodes s ! i)"
  shows "same_data s s'"
proof -
  have s': "s' = s\<lparr>nodes := (nodes s)[i := f (nodes s ! i)]\<rparr>" using assms(1) by (simp add: upd_node_eq_Some)
  show ?thesis using contents_cong_upd [OF _ s'] assms(2) by (simp add: same_data_def s')
qed

lemma time_same_data:
  "update_atime s i = Some s' \<Longrightarrow> same_data s s'"
  "update_mtime s i = Some s' \<Longrightarrow> same_data s s'"
  "update_ctime s i = Some s' \<Longrightarrow> same_data s s'"
  "inc_use s i = Some s' \<Longrightarrow> same_data s s'"
  by (auto simp: update_atime_def update_mtime_def update_ctime_def inc_use_def elim: upd_node_same_data)

lemma time_total: "i < length (nodes s) \<Longrightarrow> \<exists>s'. update_atime s i = Some s' \<and> length (nodes s') = length (nodes s)"
  "i < length (nodes s) \<Longrightarrow> \<exists>s'. update_mtime s i = Some s' \<and> length (nodes s') = length (nodes s)"
  "i < length (nodes s) \<Longrightarrow> \<exists>s'. update_ctime s i = Some s' \<and> length (nodes s') = length (nodes s)"
  by (simp_all add: update_atime_def update_mtime_def update_ctime_def upd_node_def)

lemma touch_written_total:
  assumes "i < length (nodes s)"
  shows "\<exists>s'. touch_written s i n = Some s' \<and> same_data s s'"
proof -
  obtain s1 where s1: "update_mtime s i = Some s1" "i < length (nodes s1)"
    using time_total(2) [OF assms] assms by auto
  obtain s2 where s2: "update_ctime s1 i = Some s2" using time_total(3) [OF s1(2)] by auto
  have "same_data s s2" by (rule same_data_trans) (use s1 s2 time_same_data in blast)+
  with s1 s2 show ?thesis by (cases "0 < n") (auto simp: touch_written_def)
qed

lemma is_reg_range: "is_reg s i \<Longrightarrow> i < length (nodes s)"
  by (auto simp: is_reg_def reg_info_def)

lemma get_node_and_flags_at:
  assumes "fd_at F ft s c fd i fl off" and "is_reg s i"
  shows "get_node_and_flags F ft s c fd = Some (Inr (i, fl))"
proof -
  have "follow_hardlinks s i = Some i"
    using assms(2) by (subst follow_hardlinks.simps) (auto simp: get_node_def is_reg_def reg_info_def)
  with assms(1) show ?thesis by (auto simp: fd_at_def get_node_and_flags_def flags_roundtrip)
qed

lemma get_node_and_flags_dir:
  assumes "fd_at F ft s c fd i fl off" and "n_info (nodes s ! i) = IDir cs" and "i < length (nodes s)"
  shows "get_node_and_flags F ft s c fd = Some (Inr (i, fl))"
proof -
  have "follow_hardlinks s i = Some i"
    using assms(2,3) by (subst follow_hardlinks.simps) (auto simp: get_node_def)
  with assms(1) show ?thesis by (auto simp: fd_at_def get_node_and_flags_def flags_roundtrip)
qed

lemma set_offset_at:
  assumes "fd_at F ft s c fd i fl off"
  shows "\<exists>s'. set_offset s c fd off' = Some s' \<and> fd_at F ft s' c fd i fl off' \<and>
    contents s' = contents s \<and> is_reg s' = is_reg s"
proof -
  from assms obtain a where a: "fd_info s (c, fd) = Some a" "a < length (fd_arcs s)"
    "fd_arcs s ! a = \<lparr>fi_flags = scast fl, fi_offset = off\<rparr>"
    by (auto simp: fd_at_def get_fd_rec_def bind_eq_Some_conv vec_get_eq_Some)
  let ?s = "s\<lparr>fd_arcs := (fd_arcs s)[a := (fd_arcs s ! a)\<lparr>fi_offset := off'\<rparr>]\<rparr>"
  have "contents ?s = contents s" "is_reg ?s = is_reg s" by (rule contents_cong; simp add: reg_info_def)+
  with a assms show ?thesis
    by (intro exI [of _ ?s]) (simp add: set_offset_def fd_at_def get_fd_rec_def)
qed

lemma fd_at_cong:
  assumes "same_data s s'" and "fd_at F ft s c fd i fl off"
  shows "fd_at F ft s' c fd i fl off"
  using assms by (simp add: fd_at_def same_data_def get_fd_rec_def)

lemma contents_step_fd_at:
  assumes "contents_step s i bs s'" and "fd_at F ft s c fd j fl off"
  shows "fd_at F ft s' c fd j fl off"
  using assms by (simp add: fd_at_def contents_step_def data_frame_def get_fd_rec_def)

lemma reg_node_info: "is_reg s i \<Longrightarrow> get_node s i = Some (nodes s ! i) \<and> is_reg_info (n_info (nodes s ! i))"
  by (auto simp: is_reg_def reg_info_def get_node_def is_reg_info_def)

text \<open>The common end of \<open>write\<close> with its offset already chosen.\<close>

lemma write_tail:
  assumes inv: "storage_inv s" and reg: "is_reg s i" and fd: "fd_at F ft s c fd i fl cur"
    and buf: "buf \<noteq> []" and off: "0 \<le> off" "nat off \<le> length (contents s i)"
    and small: "off + int (length buf) < 2 ^ 31"
  shows "\<exists>s'. do { (n, s) \<leftarrow> write_to_node s i (as_usize off) buf; s \<leftarrow> touch_written s i n;
      s \<leftarrow> set_offset s c fd (as_i64 (off + int n)); Some (as_i32 (int n), s) } =
      Some (int (length buf), s') \<and>
    contents s' = (contents s)(i := splice_at (contents s i) (nat off) buf) \<and>
    fd_at F ft s' c fd i fl (off + int (length buf)) \<and> is_reg s' = is_reg s"
proof -
  have u: "as_usize off = nat off" using off small by (intro as_usize_id) auto
  obtain s1 where w: "write_to_node s i (nat off) buf = Some (length buf, s1)"
    and st: "contents_step s i (splice_at (contents s i) (nat off) buf) s1"
    using write_to_node_step [OF inv reg buf, of "nat off"] exposed_inside [OF inv reg off(2)] by auto
  have reg1: "is_reg s1 = is_reg s" using contents_stepD(2) [OF st reg] by auto
  obtain s2 where t: "touch_written s1 i (length buf) = Some s2" and d: "same_data s1 s2"
    using touch_written_total is_reg_range reg reg1 by metis
  have "fd_at F ft s2 c fd i fl cur" by (rule fd_at_cong [OF d contents_step_fd_at [OF st fd]])
  from set_offset_at [OF this, of "off + int (length buf)"] obtain s3 where
    o: "set_offset s2 c fd (off + int (length buf)) = Some s3"
    and s3: "fd_at F ft s3 c fd i fl (off + int (length buf))" "contents s3 = contents s2" "is_reg s3 = is_reg s2"
    by blast
  have "as_i64 (off + int (length buf)) = off + int (length buf)" using off small by (intro as_i64_id) auto
  moreover have "as_i32 (int (length buf)) = int (length buf)" using off small by (intro as_i32_id) auto
  ultimately show ?thesis
    using u w t o s3 d reg1 contents_stepD(3) [OF st reg] by (intro exI [of _ s3]) (simp add: same_data_def)
qed

lemma imfs_write_at:
  assumes inv: "storage_inv s" and reg: "is_reg s i" and fd: "fd_at F ft s c fd i fl off"
    and wr: "fl AND O_ACCMODE \<noteq> O_RDONLY" and app: "fl AND O_APPEND = 0"
    and buf: "buf \<noteq> []" and off: "0 \<le> off" "nat off \<le> length (contents s i)"
    and small: "off + int (length buf) < 2 ^ 31"
  shows "\<exists>s'. imfs_write F ft s c fd buf = Some (int (length buf), s') \<and>
    contents s' = (contents s)(i := splice_at (contents s i) (nat off) buf) \<and>
    fd_at F ft s' c fd i fl (off + int (length buf)) \<and> is_reg s' = is_reg s"
proof -
  have "get_offset s c fd = Some off" using fd by (simp add: fd_at_def get_offset_def)
  then show ?thesis
    using write_tail [OF inv reg fd buf off small] get_node_and_flags_at [OF fd reg] reg_node_info [OF reg] wr app
    by (simp add: imfs_write_def)
qed

lemma imfs_append_at:
  assumes inv: "storage_inv s" and reg: "is_reg s i" and fd: "fd_at F ft s c fd i fl off"
    and wr: "fl AND O_ACCMODE \<noteq> O_RDONLY" and app: "fl AND O_APPEND \<noteq> 0"
    and buf: "buf \<noteq> []" and small: "int (length (contents s i)) + int (length buf) < 2 ^ 31"
  shows "\<exists>s'. imfs_write F ft s c fd buf = Some (int (length buf), s') \<and>
    contents s' = (contents s)(i := contents s i @ buf) \<and>
    fd_at F ft s' c fd i fl (int (length (contents s i)) + int (length buf)) \<and> is_reg s' = is_reg s"
  using write_tail [OF inv reg fd buf _ _ small] get_node_and_flags_at [OF fd reg] reg_node_info [OF reg] wr app
    storage_invD(3) [OF inv reg] splice_end [of "contents s i" 0 buf]
  by (simp add: imfs_write_def)

lemma imfs_read_at:
  assumes inv: "storage_inv s" and reg: "is_reg s i" and fd: "fd_at F ft s c fd i fl off"
    and rd: "fl AND O_ACCMODE \<noteq> O_WRONLY" and off: "0 \<le> off" "off < 2 ^ 31" and len: "length buf < 2 ^ 31"
  defines "bs \<equiv> take (length buf) (drop (nat off) (contents s i))"
  shows "\<exists>s'. imfs_read F ft s c fd buf = Some (int (length bs), overwrite buf 0 bs, s') \<and>
    fd_at F ft s' c fd i fl (off + int (length bs)) \<and> contents s' = contents s \<and> is_reg s' = is_reg s"
proof -
  have u: "as_usize off = nat off" using off by (intro as_usize_id) auto
  have bs: "length bs \<le> length buf" by (simp add: bs_def)
  obtain s1 where s1: "(if 0 < length bs then update_atime s i else Some s) = Some s1" and d: "same_data s s1"
    using time_total(1) [OF is_reg_range [OF reg]] time_same_data(1) by (cases "0 < length bs") auto
  have "fd_at F ft s1 c fd i fl off" by (rule fd_at_cong [OF d fd])
  from set_offset_at [OF this, of "off + int (length bs)"] obtain s2 where
    o: "set_offset s1 c fd (off + int (length bs)) = Some s2"
    and s2: "fd_at F ft s2 c fd i fl (off + int (length bs))" "contents s2 = contents s1" "is_reg s2 = is_reg s1"
    by blast
  have "int (length buf) < int (2 ^ 31)" using len by (simp only: of_nat_less_iff)
  then have len': "int (length buf) < 2 ^ 31" by simp
  have "as_i64 (off + int (length bs)) = off + int (length bs)" using off bs len' by (intro as_i64_id) auto
  moreover have "as_i32 (int (length bs)) = int (length bs)" using bs len by simp
  moreover have "get_offset s c fd = Some off" using fd by (simp add: fd_at_def get_offset_def)
  moreover have "read_from_node s i (nat off) buf = Some (length bs, overwrite buf 0 bs)"
    using read_from_node_reg [OF inv reg, of "nat off" buf] by (simp only: Let_def bs_def)
  ultimately have "imfs_read F ft s c fd buf = Some (int (length bs), overwrite buf 0 bs, s2)"
    using get_node_and_flags_at [OF fd reg] reg_node_info [OF reg] rd u s1 o
    by (simp add: imfs_read_def)
  with s2 d show ?thesis by (simp add: same_data_def)
qed

lemma imfs_seek_set_at:
  assumes reg: "is_reg s i" and fd: "fd_at F ft s c fd i fl off" and n: "0 \<le> n" "n < 2 ^ 31"
  shows "\<exists>s'. imfs_lseek F ft s c fd n 0 = Some (n, s') \<and> fd_at F ft s' c fd i fl n \<and>
    contents s' = contents s \<and> is_reg s' = is_reg s"
proof -
  have "as_i32 n = n" using n by (intro as_i32_id) auto
  moreover have "get_offset s c fd = Some off" using fd by (simp add: fd_at_def get_offset_def)
  moreover obtain h t where "n_info (nodes s ! i) = IReg h t" using reg by (auto simp: is_reg_def reg_info_def)
  ultimately show ?thesis
    using set_offset_at [OF fd, of n] get_node_and_flags_at [OF fd reg] reg_node_info [OF reg] n
    by (auto simp: imfs_lseek_def seek_target_def)
qed

lemma storage_inv_of_step:
  assumes "imfs_inv s" and "imfs_write F ft s c fd buf = Some (r, s')"
  shows "storage_inv s'"
  using write_inv(1) [OF assms] by (rule imfs_invD)

section \<open>Duplicated descriptors\<close>

text \<open>Descriptors that share an \<open>FDInfo\<close> share the offset.\<close>

lemma set_offset_shared:
  assumes "set_offset s c fd off = Some s'" and "fd_info s (c', fd') = fd_info s (c, fd)"
  shows "get_offset s' c' fd' = Some off"
  using assms by (auto simp: set_offset_def bind_eq_Some_conv vec_mod_eq_Some get_offset_def get_fd_rec_def)

lemma imfs_dup_at:
  assumes ok: "fdtables_ok F" and reg: "is_reg s i" and fd: "fd_at F ft s c fd i fl off"
    and new: "\<And>u. get_unused_virtual_fd F ft c IMFS_FDKIND u False 0 \<noteq> None"
  shows "\<exists>fd' s' ft'. imfs_dup F ft s c fd = Some (as_i32 (int fd'), s', ft') \<and> fd' \<noteq> fd \<and>
    fd_at F ft' s' c fd i fl off \<and> fd_at F ft' s' c fd' i fl off \<and>
    fd_info s' (c, fd') = fd_info s' (c, fd) \<and> contents s' = contents s \<and> is_reg s' = is_reg s"
proof -
  from fd obtain e a where e: "translate_virtual_fd F ft c fd = Some e" "as_usize (int (underfd e)) = i"
    and a: "fd_info s (c, fd) = Some a" "vec_get (fd_arcs s) a = Some \<lparr>fi_flags = scast fl, fi_offset = off\<rparr>"
    by (auto simp: fd_at_def get_fd_rec_def bind_eq_Some_conv)
  obtain fd' ft' where al: "get_unused_virtual_fd F ft c IMFS_FDKIND (underfd e) False 0 = Some (fd', ft')"
    using new by (metis surj_pair not_None_eq)
  note law = fd_alloc_law [OF ok al]
  have i: "i < length (nodes s)" using reg by (rule is_reg_range)
  have "count_pipe_end s i a = Some s"
    using reg by (auto simp: count_pipe_end_def get_node_def is_reg_def reg_info_def)
  moreover obtain s1 where s1: "inc_use s i = Some s1" using i by (simp add: inc_use_def upd_node_def)
  have d: "same_data s s1" using time_same_data(4) [OF s1] .
  define s' where "s' = s1\<lparr>fd_info := (fd_info s1)((c, fd') \<mapsto> a)\<rparr>"
  have c: "contents s' = contents s1 \<and> is_reg s' = is_reg s1"
    unfolding s'_def by (intro conjI; rule contents_cong; simp add: reg_info_def)
  have ne: "fd' \<noteq> fd" using law e by auto
  have "imfs_dup F ft s c fd = Some (as_i32 (int fd'), s', ft')"
    using e a(1) i al s1 calculation by (simp add: imfs_dup_def Let_def s'_def)
  then show ?thesis using ne c d a e fd_mapsD [of F ft c fd' "Some (mk_entry IMFS_FDKIND (underfd e) False 0)" ft'] law
    by (intro exI [of _ fd'] exI [of _ s'] exI [of _ ft'])
      (auto simp: s'_def fd_at_def get_fd_rec_def same_data_def)
qed

section \<open>Unlinked files\<close>

lemma remove_child_data:
  assumes "remove_child s i = Some s'"
  shows "same_data s s'" and "is_reg s j \<Longrightarrow> nodes s' ! j = nodes s ! j" and "length (nodes s') = length (nodes s)"
proof -
  let ?p = "parent_idx (nodes s ! i)"
  from assms obtain cs where d: "n_info (nodes s ! ?p) = IDir cs"
    and s': "s' = s\<lparr>nodes := (nodes s)[?p := (nodes s ! ?p)\<lparr>n_info :=
      IDir (filter (\<lambda>e. de_name e \<noteq> n_name (nodes s ! i)) cs)\<rparr>]\<rparr>"
    by (auto simp: remove_child_def bind_eq_Some_conv get_node_eq_Some upd_node_eq_Some with_children_mut_eq_Some)
  have nr: "\<not> is_reg s ?p" using d by (simp add: is_reg_def reg_info_def)
  show "same_data s s'" using contents_cong_upd [OF _ s'] nr by (simp add: same_data_def s')
  show "is_reg s j \<Longrightarrow> nodes s' ! j = nodes s ! j" using nr by (auto simp: s' nth_upd)
  show "length (nodes s') = length (nodes s)" by (simp add: s')
qed

lemma touch_data:
  assumes "touch_dir s i = Some s'"
  shows "same_data s s'" and "in_use (nodes s' ! j) = in_use (nodes s ! j)"
proof -
  obtain s1 where s1: "update_mtime s i = Some s1" and s2: "update_ctime s1 i = Some s'"
    using assms by (auto simp: touch_dir_def bind_eq_Some_conv)
  show "same_data s s'" using time_same_data(2) [OF s1] time_same_data(3) [OF s2] by (rule same_data_trans)
  show "in_use (nodes s' ! j) = in_use (nodes s ! j)"
    using s1 s2 by (auto simp: update_mtime_def update_ctime_def upd_node_eq_Some nth_upd)
qed

lemma unlink_node_open:
  assumes "unlink_node s i = Some s'" and "is_reg s i" and "0 < in_use (nodes s ! i)"
  shows "same_data s s'"
proof (cases "link_count s i = Some 0")
  case True
  have "n_info (nodes s ! i) \<noteq> IHardLink t" for t using assms(2) by (auto simp: is_reg_def reg_info_def)
  with assms True have "upd_node s i (\<lambda>n. n\<lparr>doomed := True\<rparr>) = Some s'"
    by (auto simp: unlink_node_def unlink_doom_def bind_eq_Some_conv get_node_eq_Some upd_node_eq_Some
        split: node_info.splits if_splits)
  then show ?thesis by (rule upd_node_same_data) simp
next
  case False
  with assms have "s' = s"
    by (auto simp: unlink_node_def unlink_doom_def bind_eq_Some_conv get_node_eq_Some is_reg_def reg_info_def
        split: node_info.splits if_splits)
  then show ?thesis by simp
qed

lemma unlink_open_file:
  assumes ul: "unlink_resolved_path s p = Some (0, s')" and r: "resolve_path s p False = Some (Inr i)"
    and reg: "is_reg s i" and use: "0 < in_use (nodes s ! i)"
  shows "same_data s s'"
proof (cases "s' = s")
  case False
  with ul r obtain q s1 s2 s3 where s1: "remove_child s i = Some s1" and s2: "touch_dir s1 q = Some s2"
    and s3: "update_ctime s2 i = Some s3" and s': "unlink_node s3 i = Some s'"
    unfolding unlink_resolved_path_def by (elim seqE; clarsimp)
  have d: "same_data s s1" "same_data s1 s2" "same_data s2 s3"
    using remove_child_data(1) [OF s1] touch_data(1) [OF s2] time_same_data(3) [OF s3] by auto
  have "in_use (nodes s3 ! i) = in_use (nodes s ! i)"
    using remove_child_data(2) [OF s1 reg] touch_data(2) [OF s2] s3
    by (auto simp: update_ctime_def upd_node_eq_Some)
  moreover have "is_reg s3 i" using d reg by (simp add: same_data_def)
  ultimately have "same_data s3 s'" using unlink_node_open [OF s'] use by simp
  with d show ?thesis by (meson same_data_trans)
qed simp

text \<open>A successful unlink takes the name of the node out of the directory the node is linked in, and no other name.\<close>

lemma upd_node_lookup:
  assumes "upd_node s i f = Some s'" and "n_info (f (nodes s ! i)) = n_info (nodes s ! i)"
  shows "dir_lookup s' = dir_lookup s"
  using assms by (auto simp: upd_node_eq_Some dir_lookup_def dir_children_def nth_upd fun_eq_iff)

lemma time_lookup:
  "update_mtime s i = Some s' \<Longrightarrow> dir_lookup s' = dir_lookup s"
  "update_ctime s i = Some s' \<Longrightarrow> dir_lookup s' = dir_lookup s"
  "touch_dir s i = Some s' \<Longrightarrow> dir_lookup s' = dir_lookup s"
proof -
  show m: "update_mtime s i = Some s' \<Longrightarrow> dir_lookup s' = dir_lookup s" for s s'
    using upd_node_lookup [of s i "\<lambda>n. n\<lparr>n_mtime := node_time_now\<rparr>"] by (simp add: update_mtime_def)
  show c: "update_ctime s i = Some s' \<Longrightarrow> dir_lookup s' = dir_lookup s" for s s'
    using upd_node_lookup [of s i "\<lambda>n. n\<lparr>n_ctime := node_time_now\<rparr>"] by (simp add: update_ctime_def)
  show "touch_dir s i = Some s' \<Longrightarrow> dir_lookup s' = dir_lookup s"
    using m c by (auto simp: touch_dir_def bind_eq_Some_conv)
qed

lemma unlink_node_lookup:
  assumes "unlink_node s i = Some s'" and "is_reg s i" and "0 < in_use (nodes s ! i)"
  shows "dir_lookup s' = dir_lookup s"
proof (cases "link_count s i = Some 0")
  case True
  have "n_info (nodes s ! i) \<noteq> IHardLink t" for t using assms(2) by (auto simp: is_reg_def reg_info_def)
  with assms True have "upd_node s i (\<lambda>n. n\<lparr>doomed := True\<rparr>) = Some s'"
    by (auto simp: unlink_node_def unlink_doom_def bind_eq_Some_conv get_node_eq_Some upd_node_eq_Some
        split: node_info.splits if_splits)
  then show ?thesis by (rule upd_node_lookup) simp
next
  case False
  with assms have "s' = s"
    by (auto simp: unlink_node_def unlink_doom_def bind_eq_Some_conv get_node_eq_Some is_reg_def reg_info_def
        split: node_info.splits if_splits)
  then show ?thesis by simp
qed

lemma remove_child_elsewhere:
  "remove_child s i = Some s' \<Longrightarrow> d \<noteq> parent_idx (nodes s ! i) \<Longrightarrow> dir_lookup s' d = dir_lookup s d"
  by (auto simp: remove_child_def bind_eq_Some_conv get_node_eq_Some upd_node_eq_Some dir_lookup_def fun_eq_iff)

lemma unlink_removes_name:
  assumes ul: "unlink_resolved_path s p = Some (0, s')" and par: "resolve_parent_and_name s p = Some (Inr q)"
    and r: "resolve_path s p False = Some (Inr i)" and reg: "is_reg s i" and use: "0 < in_use (nodes s ! i)"
  shows "dir_lookup s' = (dir_lookup s)(parent_idx (nodes s ! i) :=
    (dir_lookup s (parent_idx (nodes s ! i)))(n_name (nodes s ! i) := None))"
proof -
  obtain s1 s2 s3 where s1: "remove_child s i = Some s1" and s2: "touch_dir s1 (fst q) = Some s2"
    and s3: "update_ctime s2 i = Some s3" and s': "unlink_node s3 i = Some s'"
    using ul par r by (auto simp: unlink_resolved_path_def bind_eq_Some_conv split: if_splits prod.splits)
  have "is_reg s3 i" using remove_child_data(1) [OF s1] touch_data(1) [OF s2] time_same_data(3) [OF s3] reg
    by (simp add: same_data_def)
  moreover have "in_use (nodes s3 ! i) = in_use (nodes s ! i)"
    using remove_child_data(2) [OF s1 reg] touch_data(2) [OF s2] s3 by (auto simp: update_ctime_def upd_node_eq_Some)
  ultimately have "dir_lookup s' = dir_lookup s3" using unlink_node_lookup [OF s'] use by simp
  then have "dir_lookup s' = dir_lookup s1" using time_lookup(3) [OF s2] time_lookup(2) [OF s3] by simp
  then show ?thesis using remove_child_lookup [OF s1] remove_child_elsewhere [OF s1] by (auto simp: fun_eq_iff)
qed

text \<open>The last close of an unlinked file gives its chunks and its node back.\<close>

lemma reclaim_node_reg:
  assumes inv: "storage_inv s" and reg: "is_reg s i"
  shows "\<exists>s'. reclaim_node s i = Some s' \<and> node_type (nodes s' ! i) = Free \<and>
    node_free_list s' = node_free_list s @ [i] \<and> chunk_free_list s' = chunk_free_list s @ file_chain s i \<and>
    fd_info s' = fd_info s \<and> (\<forall>j. j \<noteq> i \<longrightarrow> contents s' j = contents s j)"
proof -
  obtain h t where r: "reg_info s i h t" using reg by (auto simp: is_reg_def)
  then have i: "i < length (nodes s)" and info: "n_info (nodes s ! i) = IReg h t" by (auto simp: reg_info_def)
  note D = storage_invD(1) [OF inv]
  define nd where "nd = (nodes s ! i)\<lparr>n_info := IReg None None, total_size := 0\<rparr>"
  define s1 where "s1 = s\<lparr>nodes := (nodes s)[i := nd], chunks := free_chunks (chunks s) (file_chain s i),
    chunk_free_list := chunk_free_list s @ file_chain s i\<rparr>"
  have nd: "n_info nd = IReg None None" "same_meta (nodes s ! i) nd" by (simp_all add: nd_def same_meta_def)
  note fr = free_chain_frame [OF D r this, folded s1_def]
  have c1: "contents s1 j = contents s j" if "j \<noteq> i" for j
    using storage_step(3) [OF inv fr _ that] i by (simp add: s1_def nd_def)
  let ?s0 = "s\<lparr>nodes := (nodes s)[i := (nodes s ! i)\<lparr>n_info := IReg None None\<rparr>]\<rparr>"
  have "reclaim_chunk_chain ?s0 h = Some (?s0\<lparr>chunks := free_chunks (chunks s) (file_chain s i),
      chunk_free_list := chunk_free_list s @ file_chain s i\<rparr>)"
    using reclaim_chunk_chain_eq [of ?s0 h "file_chain s i"] chainedD(1) [OF D r] by simp
  then have eq: "reclaim_node s i = Some (s1\<lparr>nodes := (nodes s)[i := (nodes s ! i)\<lparr>node_type := Free, n_info := IFree\<rparr>],
      node_free_list := node_free_list s @ [i]\<rparr>)" (is "_ = Some ?s'")
    using i info by (simp add: reclaim_node_def get_node_def upd_node_def s1_def)
  have "reg_info ?s' j h t \<longleftrightarrow> reg_info s1 j h t" if "j \<noteq> i" for j h t
    using that by (simp add: reg_info_def s1_def)
  then have "contents ?s' j = contents s1 j" if "j \<noteq> i" for j
    using that by (intro contents_at_cong) simp_all
  with eq c1 i show ?thesis by (simp add: s1_def)
qed

section \<open>Directory listing\<close>

lemma and_not_7: "x AND NOT 7 = x div 8 * (8::int)"
proof -
  have "x AND NOT (mask 3) = push_bit 3 (drop_bit 3 x)"
    by (rule bit_eqI) (auto simp: bit_simps)
  then show ?thesis by (simp add: mask_eq_exp_minus_1 push_bit_eq_mult drop_bit_eq_div)
qed

lemma dirent_reclen_eq: "dirent_reclen n = (n + 27) div 8 * 8"
proof -
  have "int (n + 27) div 8 * 8 = int ((n + 27) div 8 * 8)" by (simp add: zdiv_int)
  then show ?thesis unfolding dirent_reclen_def Let_def and_not_7
    by (simp add: DIRENT64_FIXED_SIZE_def ac_simps)
qed

lemma dirent_reclen_bounds: "8 dvd dirent_reclen n" "20 + n \<le> dirent_reclen n" "dirent_reclen n < n + 28"
  unfolding dirent_reclen_eq by (simp, presburger+)

text \<open>The layout of one record.\<close>

definition dirent_bytes :: "nat \<Rightarrow> nat \<Rightarrow> byte \<Rightarrow> string \<Rightarrow> byte list" where
  "dirent_bytes ino off ty name =
     le_bytes 8 ino @ le_bytes 8 off @ le_bytes 2 (dirent_reclen (length name) mod 2 ^ 16) @ [ty] @
     str_bytes name @ replicate (dirent_reclen (length name) - 19 - length name) 0"

lemma length_str_bytes [simp]: "length (str_bytes n) = length n"
  by (simp add: str_bytes_def)

lemma length_dirent_bytes [simp]: "length (dirent_bytes ino off ty name) = dirent_reclen (length name)"
  using dirent_reclen_bounds(2) [of "length name"] by (simp add: dirent_bytes_def)

lemma write_dirent_record_eq:
  assumes "length buf = dirent_reclen (length name)"
  shows "write_dirent_record buf ino off ty name =
    Some (dirent_reclen (length name), dirent_bytes ino off ty name)"
proof -
  let ?r = "dirent_reclen (length name)"
  define z where "z = ?r - 19 - length name"
  have r: "?r = 8 + (8 + (2 + (1 + (length name + z))))"
    using dirent_reclen_bounds(2) [of "length name"] by (simp add: z_def)
  have rep: "replicate ?r (0::byte) = replicate 8 0 @ replicate 8 0 @ replicate 2 0 @ [0] @ replicate (length name) 0 @ replicate z 0"
    unfolding r replicate_add by simp
  have "write_dirent_record buf ino off ty name = Some (?r, overwrite buf 0 (dirent_bytes ino off ty name))"
    using assms r by (simp add: write_dirent_record_def Let_def rep overwrite_def dirent_bytes_def
       DIRENT64_FIXED_SIZE_def flip: z_def)
  moreover have "overwrite buf 0 (dirent_bytes ino off ty name) = dirent_bytes ino off ty name"
    using assms by (simp add: overwrite_def)
  ultimately show ?thesis by simp
qed

fun dirent_stream :: "imfs \<Rightarrow> dir_entry list \<Rightarrow> nat \<Rightarrow> byte list option" where
  "dirent_stream s [] k = Some []"
| "dirent_stream s (e # es) k = do {
     ty \<leftarrow> dirent_type s (de_node_idx e);
     rest \<leftarrow> dirent_stream s es (k + 1);
     Some (dirent_bytes (de_node_idx e + 1) (k + 1) ty (de_name e) @ rest) }"

lemma getdents_loop_err: "getdents_loop s es k w buf = Some (Inl (b, e)) \<Longrightarrow> e = -22"
  by (induction s es k w buf rule: getdents_loop.induct) (auto simp: Let_def bind_eq_Some_conv split: if_splits)

lemma getdents_loop_spec:
  assumes "getdents_loop s es k w buf = Some (Inr (k', w', buf'))" and "w \<le> length buf"
  shows "k \<le> k' \<and> k' - k \<le> length es \<and> (es \<noteq> [] \<longrightarrow> w = 0 \<longrightarrow> k < k') \<and>
    (\<exists>bs. dirent_stream s (take (k' - k) es) k = Some bs \<and> w' = w + length bs \<and> w' \<le> length buf \<and>
       buf' = overwrite buf w bs)"
  using assms
proof (induction es arbitrary: k w buf)
  case Nil
  then show ?case by simp
next
  case (Cons e es k w buf)
  let ?r = "dirent_reclen (length (de_name e))"
  show ?case
  proof (cases "w + ?r \<le> length buf")
    case False
    with Cons.prems(1) have "k' = k \<and> w' = w \<and> buf' = buf \<and> w \<noteq> 0" by (auto simp: Let_def split: if_splits)
    with Cons.prems(2) show ?thesis by simp
  next
    case True
    from Cons.prems(1) True obtain ty where ty: "dirent_type s (de_node_idx e) = Some ty"
      by (auto simp: Let_def bind_eq_Some_conv split: if_splits)
    define b where "b = dirent_bytes (de_node_idx e + 1) (k + 1) ty (de_name e)"
    have b: "length b = ?r" by (simp add: b_def)
    have wd: "write_dirent_record (take ?r (drop w buf)) (de_node_idx e + 1) (k + 1) ty (de_name e) = Some (?r, b)"
      unfolding b_def by (rule write_dirent_record_eq) (use True in simp)
    have rec: "getdents_loop s es (k + 1) (w + ?r) (overwrite buf w b) = Some (Inr (k', w', buf'))"
      using Cons.prems(1) True ty wd b by (simp add: Let_def)
    have "k + 1 \<le> k' \<and> k' - (k + 1) \<le> length es \<and> (\<exists>bs. dirent_stream s (take (k' - (k + 1)) es) (k + 1) = Some bs \<and>
        w' = w + ?r + length bs \<and> w' \<le> length (overwrite buf w b) \<and> buf' = overwrite (overwrite buf w b) (w + ?r) bs)"
      using Cons.IH [OF rec] True b by simp
    then obtain bs where k: "k + 1 \<le> k'" "k' - (k + 1) \<le> length es"
      and bs: "dirent_stream s (take (k' - (k + 1)) es) (k + 1) = Some bs" "w' = w + ?r + length bs"
        "w' \<le> length (overwrite buf w b)" "buf' = overwrite (overwrite buf w b) (w + ?r) bs" by blast
    have tk: "take (k' - k) (e # es) = e # take (k' - (k + 1)) es" using k by (simp add: take_Cons')
    have "buf' = overwrite buf w (b @ bs)"
      using overwrite_append [of w b bs buf] bs b True by simp
    moreover have "dirent_stream s (take (k' - k) (e # es)) k = Some (b @ bs)"
      using tk ty bs(1) by (simp add: b_def)
    ultimately show ?thesis using k bs b True by auto
  qed
qed

section \<open>A concrete file system\<close>

text \<open>The state after cage 0 has created and opened \<open>/a\<close> for reading and writing, used to
  instantiate theorems.\<close>

definition fresh_fs :: imfs where
  "fresh_fs = imfs_empty\<lparr>cwd_info := [0 \<mapsto> ''/''], nodes := init_nodes\<rparr>"

definition demo_fs :: imfs where
  "demo_fs = fresh_fs\<lparr>
     nodes := [(init_nodes ! 0)\<lparr>n_info := IDir [\<lparr>de_name = ''.'', de_node_idx = 1\<rparr>,
         \<lparr>de_name = ''..'', de_node_idx = 2\<rparr>, \<lparr>de_name = ''a'', de_node_idx = 3\<rparr>]\<rparr>,
       init_nodes ! 1, init_nodes ! 2, (node_new 3 ''a'' Reg 0x1A4)\<lparr>in_use := 1\<rparr>],
     fd_info := [(0, 0) \<mapsto> 0], fd_arcs := [\<lparr>fi_flags = 0x42, fi_offset = 0\<rparr>]\<rparr>"

definition demo_ft :: fd_map where
  "demo_ft = [((0, 0), mk_entry 1 3 False 0)]"

lemma fresh_fs_inv: "imfs_inv fresh_fs"
  by (rule imfs_init_inv) (simp add: imfs_init_eq fresh_fs_def)

lemma demo_fs_inv: "imfs_inv demo_fs"
proof -
  have r: "reg_info demo_fs i h t \<longleftrightarrow> i = 3 \<and> h = None \<and> t = None" for i h t
    by (auto simp: reg_info_def demo_fs_def init_nodes_def node_init_info_def nth_Cons less_Suc_eq split: nat.splits)
  have z: "chunk_free_list demo_fs = []" "total_size (nodes demo_fs ! 3) = 0"
    by (simp_all add: demo_fs_def fresh_fs_def imfs_empty_def)
  have "storage_ok demo_fs (\<lambda>_. [])"
    using z by (simp add: storage_ok_def chained_def is_reg_def r tail_of_def)
  then have "storage_inv demo_fs" by (rule storage_okD(2))
  moreover have "\<forall>i < 4. node_ok 4 (nodes demo_fs ! i)"
    by (auto simp: demo_fs_def init_nodes_def node_ok_def node_init_info_def nth_Cons less_Suc_eq numeral_eq_Suc split: nat.splits)
  then have "tree_inv demo_fs"
    by (simp add: tree_inv_def demo_fs_def fresh_fs_def imfs_empty_def init_nodes_def numeral_eq_Suc)
  moreover have "fd_inv demo_fs" by (auto simp: fd_inv_def demo_fs_def split: if_splits)
  ultimately show ?thesis by (simp add: imfs_inv_def)
qed
lemma demo_facts: "is_reg demo_fs 3" "contents demo_fs 3 = []" "fd_at map_fdtables demo_ft demo_fs 0 0 3 0x42 0"
    by (auto simp: is_reg_def reg_info_def demo_fs_def node_init_info_def contents_def file_chain_def fd_at_def get_fd_rec_def
     demo_ft_def map_fdtables_def as_usize_def)
lemma demo_open: "(case imfs_open map_fdtables [] fresh_fs 0 ''/a'' 0x42 0x1A4 of Some (v, s, ft) \<Rightarrow> v = 0 \<and> nodes s = nodes demo_fs
   \<and> ft = demo_ft \<and> fd_info s (0,0) = Some 0 \<and> fd_arcs s = fd_arcs demo_fs | None \<Rightarrow> False)"
  by code_simp

text \<open>The same with two bytes in \<open>/a\<close>.\<close>

definition demo_file :: imfs where
  "demo_file = demo_fs\<lparr>
     nodes := (nodes demo_fs)[3 := (nodes demo_fs ! 3)\<lparr>n_info := IReg (Some 0) (Some 0), total_size := 2\<rparr>],
     chunks := [\<lparr>ck_data = [7, 8] @ replicate (CHUNK_SIZE - 2) 0, ck_used = 2, ck_next = None\<rparr>]\<rparr>"

lemma demo_file_facts:
  "storage_inv demo_file" "is_reg demo_file 3" "file_chain demo_file 3 = [0]" "contents demo_file 3 = [7, 8]"
proof -
  let ?F = "(\<lambda>_. [])(3 := [0])"
  have r: "reg_info demo_file i h t \<longleftrightarrow> i = 3 \<and> h = Some 0 \<and> t = Some 0" for i h t
    by (auto simp: reg_info_def demo_file_def demo_fs_def init_nodes_def node_init_info_def nth_Cons
        less_Suc_eq split: nat.splits)
  have z: "chunk_free_list demo_file = []" "total_size (nodes demo_file ! 3) = 2" "length (chunks demo_file) = 1"
    "chunks demo_file ! 0 = \<lparr>ck_data = [7, 8] @ replicate (CHUNK_SIZE - 2) 0, ck_used = 2, ck_next = None\<rparr>"
    by (simp_all add: demo_file_def demo_fs_def fresh_fs_def imfs_empty_def)
  have "wf_chunk (chunks demo_file ! 0)" by (simp add: z wf_chunk_def CHUNK_SIZE_def)
  then have "storage_ok demo_file ?F"
    using z by (auto simp: storage_ok_def chained_def is_reg_def r tail_of_def chunk_bytes_def)
  note d = storage_okD [OF this]
  show "storage_inv demo_file" by (rule d(2))
  show f: "file_chain demo_file 3 = [0]" using fun_cong [OF d(1), of 3] by simp
  show "contents demo_file 3 = [7, 8]" using z f by (simp add: contents_def chunk_bytes_def)
  show "is_reg demo_file 3" by (simp add: is_reg_def r)
qed

text \<open>The same with the descriptor opened for appending.\<close>

definition demo_append :: imfs where
  "demo_append = demo_file\<lparr>fd_arcs := [\<lparr>fi_flags = 0x442, fi_offset = 0\<rparr>]\<rparr>"

lemma demo_append_facts:
  "storage_inv demo_append" "is_reg demo_append 3" "contents demo_append 3 = [7, 8]"
  "fd_at map_fdtables demo_ft demo_append 0 0 3 0x442 0"
proof -
  show "storage_inv demo_append" using storage_inv_cong [OF demo_file_facts(1)] by (simp add: demo_append_def)
  have "contents demo_append = contents demo_file" "is_reg demo_append = is_reg demo_file"
    by (rule contents_cong; simp add: demo_append_def reg_info_def)+
  then show "is_reg demo_append 3" "contents demo_append 3 = [7, 8]" using demo_file_facts by auto
  show "fd_at map_fdtables demo_ft demo_append 0 0 3 0x442 0"
    by (auto simp: fd_at_def get_fd_rec_def demo_append_def demo_file_def demo_fs_def demo_ft_def map_fdtables_def as_usize_def)
qed

end
