(* ===== verification/Imfs_Props.thy ===== *)
theory Imfs_Props
  imports Imfs_Spec
begin

text \<open>
  The properties of IMFS: the state invariant, the contents operations, the descriptor
  level, names and paths, and four behaviours in which the code departs from its intent.
\<close>

section \<open>Invariant\<close>

text \<open>Every state IMFS reaches from \<open>init\<close> through any sequence of its operations, by any cages
  and with any descriptor tables, satisfies the invariant: chunk chains are acyclic, disjoint
  from each other and from the free list, all chunks but the last of a file are full, the
  recorded size is the number of stored bytes, every node's tag fits its payload, every
  reference is in range and the root stays a directory.\<close>

theorem imfs_invariant:
  assumes "imfs_reachable F (s, ft)"
  shows "imfs_inv s"
  using imfs_reachable_inv [OF assms] by simp

theorem imfs_invariant_witness: "imfs_reachable map_fdtables (fresh_fs, []) \<and> imfs_inv fresh_fs"
proof -
  have "imfs_reachable map_fdtables (fresh_fs, [])"
    by (rule imfs_reachable.init) (simp add: imfs_init_eq fresh_fs_def)
  with imfs_invariant [OF this] show ?thesis by simp
qed

section \<open>Contents\<close>

text \<open>C5. \<open>write_to_node\<close> on a regular file always returns with every byte written; the new contents are
  the old ones with the buffer spliced in at the offset.  A gap before the offset is filled with zeros only where the
  code has to allocate or is inside the chunk it writes: the bytes of the old last chunk behind the end of the file
  (\<open>exposed\<close>) become part of the file as they are when the offset lies beyond that chunk.  This departs from the
  comment on the function (\<open>Zero-fills any holes\<close>); \<open>truncated_bytes_reappear\<close> shows bytes cut off by a truncation come back.
  No other file, node or descriptor changes and the invariant is kept.\<close>

theorem write_to_node_correct:
  assumes "storage_inv s" and "is_reg s i" and "buf \<noteq> []"
  shows "\<exists>s'. write_to_node s i off buf = Some (length buf, s') \<and> storage_inv s' \<and>
    contents s' = (contents s)(i := splice_at (contents s i @ exposed s i off) off buf) \<and>
    data_frame i (file_chain s) s s'"
proof -
  obtain s' where w: "write_to_node s i off buf = Some (length buf, s')"
    and st: "contents_step s i (splice_at (contents s i @ exposed s i off) off buf) s'"
    using write_to_node_step [OF assms] by blast
  have "data_frame i (file_chain s) s s'" using st by (simp add: contents_step_def)
  with w contents_stepD [OF st assms(2)] show ?thesis by blast
qed

theorem write_to_node_witness:
  "\<exists>s'. write_to_node demo_fs 3 0 [7, 8] = Some (2, s') \<and> contents s' 3 = [7, 8]"
  using write_to_node_correct [OF imfs_invD(1) [OF demo_fs_inv] demo_facts(1), of "[7, 8]" 0] demo_facts(2)
    exposed_inside [OF imfs_invD(1) [OF demo_fs_inv] demo_facts(1), of 0]
  by (auto simp: splice_at_def)

text \<open>\<open>read_from_node\<close> on a regular file returns the bytes of its contents from the offset on, as many
  as the buffer holds and the file has, and leaves the rest of the buffer alone.\<close>

theorem read_from_node_correct:
  assumes "storage_inv s" and "is_reg s i"
  shows "read_from_node s i off buf = Some
    (min (length buf) (length (contents s i) - off),
     overwrite buf 0 (take (length buf) (drop off (contents s i))))"
  using read_from_node_reg [OF assms, of off buf] by (simp add: Let_def min.commute)

theorem read_from_node_witness: "read_from_node demo_fs 3 0 [1, 2] = Some (0, [1, 2])"
  using read_from_node_correct [OF imfs_invD(1) [OF demo_fs_inv] demo_facts(1), of 0 "[1, 2]"] demo_facts(2)
  by (simp add: overwrite_def)

text \<open>C6. \<open>truncate_node\<close> on a regular file always returns.  A new size that is not larger cuts the contents; the chunks
  the kept bytes do not need are appended to the free list, in chain order, and nothing else is.  A larger size extends the
  contents to exactly that size with the old bytes in front.  No other file changes and the storage invariant is kept.  (The
  bytes added by an extension are zeros except for the unused bytes of the old last chunk, see C5.)\<close>

theorem truncate_node_correct:
  assumes "storage_inv s" and "is_reg s i"
  shows "\<exists>s'. truncate_node s i n = Some s' \<and> storage_inv s' \<and> length (contents s' i) = n \<and>
    take (min n (length (contents s i))) (contents s' i) = take n (contents s i) \<and>
    (n < length (contents s i) \<longrightarrow> chunk_free_list s' = chunk_free_list s @ drop (chunks_for n) (file_chain s i)) \<and>
    (\<forall>j. j \<noteq> i \<longrightarrow> contents s' j = contents s j)"
proof -
  obtain s' where t: "truncate_node s i n = Some s'" and st: "contents_step s i
    (if n \<le> length (contents s i) then take n (contents s i)
     else splice_at (contents s i @ exposed s i (n - 1)) (n - 1) [0]) s'"
    and f: "n < length (contents s i) \<longrightarrow> chunk_free_list s' = chunk_free_list s @ drop (chunks_for n) (file_chain s i)"
    using truncate_node_step [OF assms] by blast
  have c: "contents s' i = (if n \<le> length (contents s i) then take n (contents s i)
     else splice_at (contents s i @ exposed s i (n - 1)) (n - 1) [0])"
    using st by (simp add: contents_step_def)
  have "length (contents s' i) = n"
    using length_spliced [OF assms, of 1 "n - 1"] by (auto simp: c length_splice)
  moreover have "take (min n (length (contents s i))) (contents s' i) = take n (contents s i)"
    by (simp add: c splice_at_def min_def)
  ultimately show ?thesis using t st f by (auto simp: contents_step_def)
qed

theorem truncate_node_witness:
  "\<exists>s'. truncate_node demo_fs 3 5 = Some s' \<and> length (contents s' 3) = 5"
  using truncate_node_correct [OF imfs_invD(1) [OF demo_fs_inv] demo_facts(1), of 5] by blast

text \<open>Cutting a file that has one chunk leaves the bytes behind the new end in the chunk.\<close>

lemma cut_one_chunk:
  assumes inv: "storage_inv s" and reg: "is_reg s i" and d: "file_chain s i = [d]"
    and n: "0 < n" "n < length (contents s i)"
  shows "\<exists>s1. truncate_node s i n = Some s1 \<and> contents_step s i (take n (contents s i)) s1 \<and>
    exposed s1 i CHUNK_SIZE = drop n (ck_data (chunks s ! d))"
proof -
  obtain h t where r: "reg_info s i h t" using reg by (auto simp: is_reg_def)
  note ch = chainedD(1) [OF storage_invD(1) [OF inv] r, unfolded d]
  have pk: "packed (chunks s) [d]" using storage_invD(2) [OF inv reg] d by simp
  have tl: "truncate_loop (chunks s) h n None = Some (Inl (d, n))"
    using truncate_loop_correct [OF ch pk, of n None] n d by (auto simp: contents_def Cons_eq_append_conv)
  obtain s1 where s1: "truncate_shrink s i n = Some s1" and st: "contents_step s i (take n (contents s i)) s1"
    using truncate_shrink_step [OF inv reg n] by auto
  have "truncate_node s i n = Some s1"
    using s1 n storage_invD(3) [OF inv reg] is_reg_range [OF reg] by (simp add: truncate_node_def get_node_def Let_def)
  moreover have e1: "chunks s1 = (chunks s)[d := (chunks s ! d)\<lparr>ck_used := n, ck_next := None\<rparr>]"
    "reg_info s1 i (Some d) (Some d)"
    using truncate_shrink_eq [OF r, of "[]" d "[]" n n] s1 ch tl r by (auto simp: reg_info_def)
  have dl: "d < length (chunks s)" using ch by simp
  then have "file_chain s1 i = [d]"
    using file_chain_reg(1) [OF e1(2)] walk_chain [of "chunks s1" "Some d" "[d]"] by (simp add: e1(1))
  then have "exposed s1 i CHUNK_SIZE = drop n (ck_data (chunks s ! d))"
    using dl by (simp add: exposed_def slack_def e1(1))
  ultimately show ?thesis using st by blast
qed

text \<open>After a truncation that cuts a one-chunk file from \<open>xs @ ys\<close> to \<open>xs\<close>, a write behind the
  chunk brings the cut bytes \<open>ys\<close> back: the skip loop of \<open>write_to_node\<close> marks the chunk full without
  clearing it (POSIX requires zeros there).\<close>

theorem truncated_bytes_reappear:
  assumes inv: "storage_inv s" and reg: "is_reg s i" and one: "length (file_chain s i) = 1"
    and c: "contents s i = xs @ ys" and xs: "xs \<noteq> []" and ys: "ys \<noteq> []" and buf: "buf \<noteq> []"
  shows "\<exists>s1 s2. truncate_node s i (length xs) = Some s1 \<and> contents s1 i = xs \<and>
    write_to_node s1 i CHUNK_SIZE buf = Some (length buf, s2) \<and>
    take (length (xs @ ys)) (contents s2 i) = xs @ ys"
proof -
  obtain d where d: "file_chain s i = [d]" using one by (cases "file_chain s i") auto
  let ?D = "ck_data (chunks s ! d)"
  have D: "length ?D = CHUNK_SIZE" using storage_invD(2) [OF inv reg] d by (simp add: wf_chunk_def)
  have data: "take (ck_used (chunks s ! d)) ?D = xs @ ys" using c d by (simp add: contents_def chunk_bytes_def)
  have n: "0 < length xs" "length xs < length (contents s i)" using xs ys c by auto
  obtain s1 where s1: "truncate_node s i (length xs) = Some s1" and st: "contents_step s i xs s1"
    and ex: "exposed s1 i CHUNK_SIZE = drop (length xs) ?D"
    using cut_one_chunk [OF inv reg d n] c by auto
  have s1': "storage_inv s1" "is_reg s1 i" "contents s1 i = xs" using st by (auto simp: contents_step_def)
  have "contents s1 i @ exposed s1 i CHUNK_SIZE = ?D"
    using s1'(3) ex take_eq_appendD(1) [OF data] by (metis append_take_drop_id)
  then obtain s2 where w: "write_to_node s1 i CHUNK_SIZE buf = Some (length buf, s2)"
    and "contents_step s1 i (splice_at ?D CHUNK_SIZE buf) s2"
    using write_to_node_step [OF s1'(1,2) buf, of CHUNK_SIZE] by auto
  then have "contents s2 i = ?D @ buf" using splice_end [of ?D 0 buf] D by (simp add: contents_step_def)
  moreover have "length (xs @ ys) \<le> length ?D" using arg_cong [OF data, of length] by simp
  ultimately have "take (length (xs @ ys)) (contents s2 i) = xs @ ys"
    using take_eq_appendD(2) [OF data] by simp
  with s1 s1'(3) w show ?thesis by blast
qed

theorem truncated_bytes_witness:
  "\<exists>s1 s2. truncate_node demo_file 3 1 = Some s1 \<and> contents s1 3 = [7] \<and>
    write_to_node s1 3 CHUNK_SIZE [9] = Some (1, s2) \<and> take 2 (contents s2 3) = [7, 8]"
  using truncated_bytes_reappear [OF demo_file_facts(1,2), of "[7]" "[8]" "[9]"] demo_file_facts(3,4)
  by (simp add: numeral_2_eq_2)

section \<open>Descriptors\<close>

text \<open>Round trip through the system-call layer: what a cage writes through a descriptor opened for
  reading and writing, at an offset within the file, it reads back after seeking to that
  offset; the write advances the offset by the number of bytes.\<close>

theorem write_seek_read:
  assumes inv: "imfs_inv s" and reg: "is_reg s i" and fd: "fd_at F ft s c fd i fl off"
    and fl: "fl AND O_ACCMODE = O_RDWR" "fl AND O_APPEND = 0"
    and buf: "buf \<noteq> []" "length b = length buf"
    and off: "0 \<le> off" "nat off \<le> length (contents s i)" "off + int (length buf) < 2 ^ 31"
  shows "\<exists>s1 s2 s3. imfs_write F ft s c fd buf = Some (int (length buf), s1) \<and>
    get_offset s1 c fd = Some (off + int (length buf)) \<and>
    imfs_lseek F ft s1 c fd off 0 = Some (off, s2) \<and>
    imfs_read F ft s2 c fd b = Some (int (length buf), buf, s3)"
proof -
  have acc: "fl AND O_ACCMODE \<noteq> O_RDONLY" "fl AND O_ACCMODE \<noteq> O_WRONLY" using fl by (simp_all add: open_flags)
  obtain s1 where s1: "imfs_write F ft s c fd buf = Some (int (length buf), s1)"
    "contents s1 = (contents s)(i := splice_at (contents s i) (nat off) buf)"
    "fd_at F ft s1 c fd i fl (off + int (length buf))" "is_reg s1 = is_reg s"
    using imfs_write_at [OF imfs_invD(1) [OF inv] reg fd acc(1) fl(2) buf(1) off] by blast
  have reg1: "is_reg s1 i" and inv1: "imfs_inv s1" using s1 reg write_inv(1) [OF inv s1(1)] by auto
  obtain s2 where s2: "imfs_lseek F ft s1 c fd off 0 = Some (off, s2)" "fd_at F ft s2 c fd i fl off"
    "contents s2 = contents s1" "is_reg s2 = is_reg s1"
    using imfs_seek_set_at [OF reg1 s1(3) off(1)] off by auto
  have "int (length buf) < int (2 ^ 31)" using off by simp
  then have len: "length b < 2 ^ 31" using buf(2) by (simp only: of_nat_less_iff)
  have "take (length b) (drop (nat off) (contents s2 i)) = buf"
    using off(2) buf(2) s1(2) s2(3) by (simp add: splice_at_def)
  moreover have "overwrite b 0 buf = buf" using buf(2) by (simp add: overwrite_def)
  ultimately obtain s3 where "imfs_read F ft s2 c fd b = Some (int (length buf), buf, s3)"
    using imfs_read_at [OF imfs_invD(1) [OF lseek_inv [OF inv1 s2(1)]] _ s2(2) acc(2) off(1) _ len] off s2(4) reg1 by auto
  moreover have "get_offset s1 c fd = Some (off + int (length buf))"
    using s1(3) by (simp add: fd_at_def get_offset_def)
  ultimately show ?thesis using s1(1) s2(1) by blast
qed

theorem write_seek_read_witness:
  "\<exists>s1 s2 s3. imfs_write map_fdtables demo_ft demo_fs 0 0 [5, 6] = Some (2, s1) \<and>
    imfs_lseek map_fdtables demo_ft s1 0 0 0 0 = Some (0, s2) \<and>
    imfs_read map_fdtables demo_ft s2 0 0 [0, 0] = Some (2, [5, 6], s3)"
  using write_seek_read [OF demo_fs_inv demo_facts(1,3), of "[5, 6]" "[0, 0]"]
  by (auto simp: open_flags)

text \<open>A write through a descriptor opened with \<open>O_APPEND\<close> appends, wherever the descriptor stood, and
  leaves the offset at the new end.\<close>

theorem append_mode:
  assumes "storage_inv s" and "is_reg s i" and "fd_at F ft s c fd i fl off"
    and "fl AND O_ACCMODE \<noteq> O_RDONLY" and "fl AND O_APPEND \<noteq> 0" and "buf \<noteq> []"
    and "int (length (contents s i)) + int (length buf) < 2 ^ 31"
  shows "\<exists>s'. imfs_write F ft s c fd buf = Some (int (length buf), s') \<and>
    contents s' i = contents s i @ buf \<and> get_offset s' c fd = Some (int (length (contents s' i)))"
proof -
  obtain s' where w: "imfs_write F ft s c fd buf = Some (int (length buf), s')"
    and c: "contents s' = (contents s)(i := contents s i @ buf)"
    and o: "fd_at F ft s' c fd i fl (int (length (contents s i)) + int (length buf))"
    using imfs_append_at [OF assms] by blast
  from o have "get_offset s' c fd = Some (int (length (contents s i)) + int (length buf))"
    by (simp add: fd_at_def get_offset_def)
  with w c show ?thesis by simp
qed

theorem append_mode_witness:
  "\<exists>s'. imfs_write map_fdtables demo_ft demo_append 0 0 [9] = Some (1, s') \<and> contents s' 3 = [7, 8, 9]"
  using append_mode [OF demo_append_facts(1,2,4), of "[9]"] demo_append_facts(3) by (auto simp: open_flags)

text \<open>\<open>dup\<close> gives a second descriptor for the same file, and the two share one offset: a seek through
  the old one is seen through the new one.\<close>

theorem dup_shares_offset:
  assumes ok: "fdtables_ok F" and reg: "is_reg s i" and fd: "fd_at F ft s c fd i fl off"
    and new: "\<And>u. get_unused_virtual_fd F ft c IMFS_FDKIND u False 0 \<noteq> None" and n: "0 \<le> n" "n < 2 ^ 31"
  shows "\<exists>fd' s' ft' s''. imfs_dup F ft s c fd = Some (as_i32 (int fd'), s', ft') \<and> fd' \<noteq> fd \<and>
    fd_at F ft' s' c fd' i fl off \<and> imfs_lseek F ft' s' c fd n 0 = Some (n, s'') \<and>
    get_offset s'' c fd' = Some n"
proof -
  obtain fd' s' ft' where d: "imfs_dup F ft s c fd = Some (as_i32 (int fd'), s', ft')" "fd' \<noteq> fd"
    and at: "fd_at F ft' s' c fd i fl off" "fd_at F ft' s' c fd' i fl off"
    and sh: "fd_info s' (c, fd') = fd_info s' (c, fd)" and r: "is_reg s' i"
    using imfs_dup_at [OF ok reg fd new] reg by auto
  obtain s'' where l: "imfs_lseek F ft' s' c fd n 0 = Some (n, s'')"
    using imfs_seek_set_at [OF r at(1) n] by blast
  obtain h t where "n_info (nodes s' ! i) = IReg h t" using r by (auto simp: is_reg_def reg_info_def)
  then have "set_offset s' c fd n = Some s''"
    using l get_node_and_flags_at [OF at(1) r] reg_node_info [OF r] n at(1)
    by (auto simp: imfs_lseek_def seek_target_def fd_at_def get_offset_def bind_eq_Some_conv)
  from set_offset_shared [OF this sh] d at(2) l show ?thesis by blast
qed

lemma map_fdtables_room: "get_unused_virtual_fd map_fdtables demo_ft 0 IMFS_FDKIND u False 0 \<noteq> None"
  by (simp add: map_fdtables_def demo_ft_def eval_nat_numeral)

theorem dup_shares_offset_witness:
  "\<exists>fd' s' ft' s''. imfs_dup map_fdtables demo_ft demo_fs 0 0 = Some (as_i32 (int fd'), s', ft') \<and>
    imfs_lseek map_fdtables ft' s' 0 0 5 0 = Some (5, s'') \<and> get_offset s'' 0 fd' = Some 5"
  using dup_shares_offset [OF map_fdtables_ok demo_facts(1,3) map_fdtables_room, of 5] by fastforce

text \<open>C22. Unlinking a regular file that is still open takes its name out of the directory it is linked in, and no other
  name out of any directory; the contents of every file and every descriptor are as before, so the open descriptors go on
  reading it.\<close>

theorem unlink_keeps_open_file:
  assumes "unlink_resolved_path s p = Some (0, s')" and "resolve_parent_and_name s p = Some (Inr q)"
    and "resolve_path s p False = Some (Inr i)" and "is_reg s i" and "0 < in_use (nodes s ! i)"
  shows "contents s' = contents s \<and> is_reg s' i \<and> fd_info s' = fd_info s \<and> fd_arcs s' = fd_arcs s \<and>
    dir_lookup s' (parent_idx (nodes s ! i)) (n_name (nodes s ! i)) = None \<and>
    (\<forall>d nm. (d, nm) \<noteq> (parent_idx (nodes s ! i), n_name (nodes s ! i)) \<longrightarrow> dir_lookup s' d nm = dir_lookup s d nm)"
  using unlink_open_file [OF assms(1,3-5)] unlink_removes_name [OF assms] assms(4) by (auto simp: same_data_def)

lemma demo_unlink: "map_option fst (unlink_resolved_path demo_fs ''/a'') = Some 0"
  "resolve_path demo_fs ''/a'' False = Some (Inr 3)" "resolve_parent_and_name demo_fs ''/a'' = Some (Inr (0, ''a''))"
  "parent_idx (nodes demo_fs ! 3) = 0" "n_name (nodes demo_fs ! 3) = ''a''" "dir_lookup demo_fs 0 ''a'' = Some 3"
  by code_simp+

theorem unlink_keeps_open_file_witness:
  "\<exists>s'. unlink_resolved_path demo_fs ''/a'' = Some (0, s') \<and> contents s' = contents demo_fs \<and>
    dir_lookup demo_fs 0 ''a'' = Some 3 \<and> dir_lookup s' 0 ''a'' = None"
proof -
  obtain s' where u: "unlink_resolved_path demo_fs ''/a'' = Some (0, s')" using demo_unlink(1) by auto
  have "0 < in_use (nodes demo_fs ! 3)" by (simp add: demo_fs_def)
  with unlink_keeps_open_file [OF u demo_unlink(3,2) demo_facts(1)] u demo_unlink(4-6) show ?thesis by auto
qed

text \<open>The last close of an unlinked file succeeds and returns its node and exactly its chunks to the
  free lists; no other file changes.\<close>

theorem last_close_reclaims:
  assumes ok: "fdtables_ok F" and inv: "imfs_inv s" and reg: "is_reg s i" and fd: "fd_at F ft s c fd i fl off"
    and last: "doomed (nodes s ! i)" "in_use (nodes s ! i) = 1"
  shows "\<exists>s' ft'. imfs_close F ft s c fd = Some (0, s', ft') \<and> node_type (nodes s' ! i) = Free \<and>
    node_free_list s' = node_free_list s @ [i] \<and> chunk_free_list s' = chunk_free_list s @ file_chain s i \<and>
    (\<forall>j. j \<noteq> i \<longrightarrow> contents s' j = contents s j) \<and> imfs_inv s' \<and> translate_virtual_fd F ft' c fd = None"
proof -
  obtain e where e: "translate_virtual_fd F ft c fd = Some e" "as_usize (int (underfd e)) = i"
    using fd by (auto simp: fd_at_def)
  have i: "i < length (nodes s)" using reg by (rule is_reg_range)
  obtain s1 where s1: "upd_node s i (\<lambda>n. n\<lparr>in_use := in_use n - 1\<rparr>) = Some s1" using i by (simp add: upd_node_def)
  then have s1': "doomed (nodes s1 ! i)" "in_use (nodes s1 ! i) = 0" "i < length (nodes s1)"
    "chunk_free_list s1 = chunk_free_list s" "node_free_list s1 = node_free_list s" "file_chain s1 i = file_chain s i"
    using last i by (auto simp: upd_node_eq_Some file_chain_def split: node_info.splits)
  have d: "same_data s s1" by (rule upd_node_same_data [OF s1]) simp
  have "imfs_inv s1" by (rule imfs_inv_shape [OF inv s1]) (simp add: shape_def)
  then obtain s2 where r: "reclaim_node s1 i = Some s2" "node_type (nodes s2 ! i) = Free"
    "node_free_list s2 = node_free_list s1 @ [i]" "chunk_free_list s2 = chunk_free_list s1 @ file_chain s1 i"
    "\<forall>j. j \<noteq> i \<longrightarrow> contents s2 j = contents s1 j"
    using reclaim_node_reg [OF imfs_invD(1), of s1 i] d reg by (auto simp: same_data_def)
  have cl: "close_node s i = Some s2" using i s1 s1' r(1) by (simp add: close_node_def get_node_def)
  obtain ft' where ft': "close_virtualfd F ft c fd = Some ft'" using fd_close_None_iff [OF ok, of ft c fd] e by fastforce
  let ?s = "s2\<lparr>fd_info := (fd_info s2)((c, fd) := None)\<rparr>"
  have eq: "imfs_close F ft s c fd = Some (0, ?s, ft')" using e cl ft' by (simp add: imfs_close_def Let_def)
  have "contents ?s = contents s2" by (rule contents_cong) (simp_all add: reg_info_def)
  moreover have "translate_virtual_fd F ft' c fd = None" using fd_mapsD [OF fd_close_law [OF ok ft'], of c fd] by simp
  ultimately show ?thesis
    using eq r s1' d close_inv [OF inv eq] by (intro exI [of _ ?s] exI [of _ ft']) (simp add: same_data_def)
qed

definition demo_doomed :: imfs where
  "demo_doomed = demo_fs\<lparr>nodes := (nodes demo_fs)[3 := (nodes demo_fs ! 3)\<lparr>doomed := True\<rparr>]\<rparr>"

lemma demo_doomed_facts:
  "imfs_inv demo_doomed" "is_reg demo_doomed 3" "fd_at map_fdtables demo_ft demo_doomed 0 0 3 0x42 0"
proof -
  show "imfs_inv demo_doomed"
  proof (rule imfs_inv_replace [OF demo_fs_inv, where i = 3 and f = "\<lambda>n. n\<lparr>doomed := True\<rparr>"])
    show "node_ok (length (nodes demo_fs)) ((nodes demo_fs ! 3)\<lparr>doomed := True\<rparr>)"
      by (simp add: demo_fs_def node_ok_def node_init_info_def)
  qed (simp_all add: upd_node_eq_Some demo_doomed_def demo_fs_def fresh_fs_def imfs_empty_def)
  have "same_data demo_fs demo_doomed"
    by (rule upd_node_same_data [where i = 3 and f = "\<lambda>n. n\<lparr>doomed := True\<rparr>"])
      (simp_all add: upd_node_eq_Some demo_doomed_def demo_fs_def)
  with demo_facts show "is_reg demo_doomed 3" "fd_at map_fdtables demo_ft demo_doomed 0 0 3 0x42 0"
    by (auto simp: same_data_def intro: fd_at_cong)
qed

theorem last_close_reclaims_witness:
  "\<exists>s' ft'. imfs_close map_fdtables demo_ft demo_doomed 0 0 = Some (0, s', ft') \<and> node_free_list s' = [3]"
proof -
  have "doomed (nodes demo_doomed ! 3)" "in_use (nodes demo_doomed ! 3) = 1" "node_free_list demo_doomed = []"
    by (simp_all add: demo_doomed_def demo_fs_def fresh_fs_def imfs_empty_def)
  with last_close_reclaims [OF map_fdtables_ok demo_doomed_facts this(1,2)] show ?thesis by fastforce
qed

text \<open>C23. \<open>getdents\<close> on a directory descriptor standing at entry \<open>k\<close>: a call that does not fail fills the buffer with whole
  records of the entries from \<open>k\<close> on, in order and without gap, returns their total length, leaves the rest of the buffer
  untouched and moves the cursor of the descriptor behind the last entry delivered; at least one entry is delivered when
  one is left, so repeated calls reach the end.\<close>

theorem getdents_records:
  assumes fd: "fd_at F ft s c fd i fl (int k)" "i < length (nodes s)" "n_info (nodes s ! i) = IDir cs"
    and k: "k < 2 ^ 32" and len: "length buf < 2 ^ 31"
    and g: "imfs_getdents F ft s c fd buf = Some (r, buf', s')" "0 \<le> r"
  shows "\<exists>k' bs. k \<le> k' \<and> (k < length cs \<longrightarrow> k < k' \<and> k' \<le> length cs) \<and>
    dirent_stream s (take (k' - k) (drop k cs)) k = Some bs \<and> length bs \<le> length buf \<and>
    r = int (length bs) \<and> buf' = bs @ drop (length bs) buf \<and> get_offset s' c fd = Some (int k')"
proof -
  have o: "get_offset s c fd = Some (int k)" using fd(1) by (simp add: fd_at_def get_offset_def)
  have u: "as_usize (int k) = k" using k by (simp add: as_usize_def nat_mod_distrib nat_power_eq)
  have n: "get_node s i = Some (nodes s ! i)" using fd(2) by (simp add: get_node_def)
  have acc: "fl AND O_ACCMODE \<noteq> O_WRONLY"
    using g n fd(3) get_node_and_flags_dir [OF fd(1,3,2)] by (auto simp: imfs_getdents_def)
  have "getdents_loop s (drop k cs) k 0 buf \<bind> (\<lambda>l. case l of Inl (b, e) \<Rightarrow> Some (e, b, s)
      | Inr (j, n, b) \<Rightarrow> set_offset s c fd (int j) \<bind> (\<lambda>s. Some (as_i32 (int n), b, s))) = Some (r, buf', s')"
    using g(1) n o u acc fd(3) get_node_and_flags_dir [OF fd(1,3,2)] by (simp add: imfs_getdents_def)
  then obtain x where x: "getdents_loop s (drop k cs) k 0 buf = Some x"
    and c: "(case x of Inl (b, e) \<Rightarrow> Some (e, b, s)
      | Inr (j, n, b) \<Rightarrow> set_offset s c fd (int j) \<bind> (\<lambda>s. Some (as_i32 (int n), b, s))) = Some (r, buf', s')"
    by (auto simp: bind_eq_Some_conv)
  have "\<exists>k' n. x = Inr (k', n, buf') \<and> set_offset s c fd (int k') = Some s' \<and> r = as_i32 (int n)"
  proof (cases x)
    case (Inl y)
    then show ?thesis using c x g(2) getdents_loop_err [of s "drop k cs" k 0 buf] by (cases y) auto
  next
    case (Inr y)
    then show ?thesis using c by (cases y) (auto simp: bind_eq_Some_conv)
  qed
  with x obtain k' n where
    l: "getdents_loop s (drop k cs) k 0 buf = Some (Inr (k', n, buf'))" "set_offset s c fd (int k') = Some s'" "r = as_i32 (int n)"
    by blast
  from getdents_loop_spec [OF l(1)] obtain bs where b: "k \<le> k'" "k' - k \<le> length cs - k" "drop k cs \<noteq> [] \<longrightarrow> k < k'"
    "dirent_stream s (take (k' - k) (drop k cs)) k = Some bs" "n = length bs" "n \<le> length buf" "buf' = overwrite buf 0 bs" by auto
  moreover have "get_offset s' c fd = Some (int k')"
    using l(2) by (auto simp: set_offset_def bind_eq_Some_conv vec_mod_eq_Some get_offset_def get_fd_rec_def)
  moreover have "r = int (length bs)" using l(3) b(5,6) len by (simp add: as_i32_small)
  ultimately show ?thesis by (intro exI [of _ k'] exI [of _ bs]) (auto simp: overwrite_def)
qed

definition demo_dir :: imfs where
  "demo_dir = demo_fs\<lparr>fd_info := [(0, 0) \<mapsto> 0], fd_arcs := [\<lparr>fi_flags = 0, fi_offset = 2\<rparr>]\<rparr>"

theorem getdents_records_witness:
  "\<exists>buf' s'. imfs_getdents map_fdtables [((0, 0), mk_entry 1 0 False 0)] demo_dir 0 0 (replicate 24 0) = Some (24, buf', s') \<and>
    dirent_stream demo_dir [\<lparr>de_name = ''a'', de_node_idx = 3\<rparr>] 2 = Some buf' \<and> get_offset s' 0 0 = Some 3"
proof -
  let ?ft = "[((0, 0), mk_entry 1 0 False 0)]"
  have fd: "fd_at map_fdtables ?ft demo_dir 0 0 0 0 (int 2)" "0 < length (nodes demo_dir)"
    and cs: "n_info (nodes demo_dir ! 0) = IDir [\<lparr>de_name = ''.'', de_node_idx = 1\<rparr>, \<lparr>de_name = ''..'', de_node_idx = 2\<rparr>,
      \<lparr>de_name = ''a'', de_node_idx = 3\<rparr>]"
    by (simp_all add: fd_at_def get_fd_rec_def demo_dir_def demo_fs_def map_fdtables_def as_usize_def)
  have "follow_hardlinks demo_dir 3 = Some 3"
    by (subst follow_hardlinks.simps) (simp add: get_node_def demo_dir_def demo_fs_def node_init_info_def)
  then have ty: "dirent_type demo_dir 3 = Some 8" by (simp add: dirent_type_def get_node_def demo_dir_def demo_fs_def)
  have r: "dirent_reclen 1 = 24" by (simp add: dirent_reclen_eq)
  define b where "b = dirent_bytes 4 3 8 ''a''"
  have b: "write_dirent_record (replicate 24 0) 4 3 8 ''a'' = Some (24, b)" "length b = 24"
    using write_dirent_record_eq [of "replicate 24 0" "''a''" 4 3 8] r by (simp_all add: b_def)
  then have l: "getdents_loop demo_dir [\<lparr>de_name = ''a'', de_node_idx = 3\<rparr>] 2 0 (replicate 24 0) = Some (Inr (3, 24, b))"
    using ty r by (simp add: Let_def overwrite_def)
  have o: "get_offset demo_dir 0 0 = Some 2" "get_node demo_dir 0 = Some (nodes demo_dir ! 0)"
    using fd by (simp_all add: get_offset_def fd_at_def get_node_def)
  obtain s' where s': "set_offset demo_dir 0 0 3 = Some s'"
    by (simp add: set_offset_def demo_dir_def vec_mod_def)
  have g: "imfs_getdents map_fdtables ?ft demo_dir 0 0 (replicate 24 0) = Some (24, b, s')"
    using get_node_and_flags_dir [OF fd(1) cs fd(2)] l o cs s'
    by (simp add: imfs_getdents_def as_usize_def as_i32_def O_WRONLY_def)
  show ?thesis using getdents_records [OF fd cs _ _ g] g ty r b
    by (auto simp: b_def)
qed

section \<open>Names and paths\<close>

text \<open>Path normalisation for a cage gives an absolute path without empty, \<open>.\<close> or \<open>..\<close> components, and
  normalising again changes nothing, whatever the working directory.\<close>

theorem normalize_for_cage_canonical:
  "\<exists>ps. normalize_path_for_cage s c p = render_abs ps \<and> list_all clean_name ps \<and>
    absolute (normalize_path_for_cage s c p) \<and>
    normalize_path_for_cage s c (normalize_path_for_cage s c p) = normalize_path_for_cage s c p"
  using imfs_norm.norm_components imfs_norm.components_clean imfs_norm.norm_absolute imfs_norm.norm_idem
  unfolding normalize_for_cage_eq list_all_iff by blast

text \<open>A directory behaves as a map from names: linking a node under a name that is free makes exactly
  that name resolve to it, and removing the node's entry restores the map.\<close>

theorem child_insert_remove:
  assumes none: "dir_lookup s d (n_name (nodes s ! i)) = None" and ac: "add_child s d i = Some s'"
    and rc: "remove_child s' i = Some s''"
  shows "dir_lookup s' d = (dir_lookup s d)(n_name (nodes s ! i) \<mapsto> i) \<and> dir_lookup s'' d = dir_lookup s d"
proof -
  have d: "is_dir s d" and s': "n_name (nodes s' ! i) = n_name (nodes s ! i)" "parent_idx (nodes s' ! i) = d"
    using ac by (auto simp: is_dir_def add_child_def bind_eq_Some_conv get_node_eq_Some upd_node_eq_Some
        with_children_mut_eq_Some nth_upd)
  have "dir_lookup s' d = (dir_lookup s d)(n_name (nodes s ! i) \<mapsto> i)"
    by (rule imfs_dir.ins_law [OF d, THEN conjunct2]) (use none ac in simp_all)
  moreover have "dir_lookup s'' d = dir_lookup s d"
    by (rule imfs_dir.ins_del [OF d, where i = i and s' = s' and n = "n_name (nodes s ! i)"])
      (use none ac rc s' in auto)
  ultimately show ?thesis by blast
qed

definition demo_orphan :: imfs where
  "demo_orphan = fresh_fs\<lparr>nodes := init_nodes @ [node_new 3 ''b'' Reg 0x1A4]\<rparr>"

theorem child_insert_remove_witness:
  "\<exists>s' s''. add_child demo_orphan 0 3 = Some s' \<and> remove_child s' 3 = Some s'' \<and>
    dir_lookup s' 0 ''b'' = Some 3 \<and> dir_lookup s'' 0 = dir_lookup demo_orphan 0"
proof -
  have n: "n_name (nodes demo_orphan ! 3) = ''b''" by (simp add: demo_orphan_def init_nodes_def)
  have l: "dir_lookup demo_orphan 0 ''b'' = None"
    by (simp add: dir_lookup_def dir_children_def demo_orphan_def init_nodes_def)
  obtain s' where s': "add_child demo_orphan 0 3 = Some s'"
    by (simp add: add_child_def get_node_def upd_node_def demo_orphan_def init_nodes_def with_children_mut_def)
  then have "n_info (nodes s' ! 0) \<noteq> IFree \<and> (\<exists>cs. n_info (nodes s' ! 0) = IDir cs) \<and> parent_idx (nodes s' ! 3) = 0 \<and> length (nodes s') = 4"
    by (auto simp: add_child_def bind_eq_Some_conv get_node_eq_Some upd_node_eq_Some with_children_mut_eq_Some
        demo_orphan_def init_nodes_def)
  then obtain s'' where "remove_child s' 3 = Some s''"
    by (auto simp: remove_child_def get_node_def upd_node_def)
  with child_insert_remove [of demo_orphan 0 3 s' s''] s' n l show ?thesis by auto
qed

section \<open>Permissions\<close>

text \<open>\<open>chmod\<close> replaces exactly the permission bits and keeps the file type; a successful \<open>chown\<close> that
  changes owner or group clears the set-id bits and no other bit.\<close>

theorem chmod_chown_bits:
  assumes "i < length (nodes s)"
  shows "(\<exists>s'. chmod_node s i m = Some (0, s') \<and>
      n_mode (nodes s' ! i) AND S_IFMT = n_mode (nodes s ! i) AND S_IFMT \<and>
      n_mode (nodes s' ! i) AND S_MODE_BITS = m AND S_MODE_BITS) \<and>
    (\<exists>s'. chown_node s i u g = Some (0, s') \<and>
      n_mode (nodes s' ! i) =
        (if (u \<noteq> CHOWN_NO_CHANGE \<and> n_owner (nodes s ! i) \<noteq> u) \<or> (g \<noteq> CHOWN_NO_CHANGE \<and> n_group (nodes s ! i) \<noteq> g)
         then n_mode (nodes s ! i) AND NOT 0xC00 else n_mode (nodes s ! i)))"
proof -
  have b: "((w AND S_IFMT) OR (m AND S_MODE_BITS)) AND S_IFMT = w AND S_IFMT"
    "((w AND S_IFMT) OR (m AND S_MODE_BITS)) AND S_MODE_BITS = m AND S_MODE_BITS" for w :: u32
    by (simp_all add: mode_bits bit.conj_disj_distrib2 and.assoc)
  show ?thesis using assms b
    by (auto simp: chmod_node_def chown_node_def upd_node_def update_ctime_def get_node_def Let_def S_ISUID_def S_ISGID_def)
qed

theorem chmod_chown_bits_witness:
  "\<exists>s'. chmod_node fresh_fs 0 0x1C0 = Some (0, s') \<and> n_mode (nodes s' ! 0) AND S_MODE_BITS = 0x1C0 AND S_MODE_BITS"
proof -
  have "0 < length (nodes fresh_fs)" by (simp add: fresh_fs_def init_nodes_def)
  from chmod_chown_bits [OF this, of "0x1C0"] show ?thesis by blast
qed

section \<open>Departures from the intended behaviour\<close>

text \<open>\<open>fork\<close> shares descriptors without raising \<open>in_use\<close>: after an unlink, the child's close frees the node
  while the parent still has it open (the parent's read fails), and the parent's close frees it a
  second time, so two later creations get the same node.\<close>

theorem fork_close_double_free:
  "(do { (fd, s, ft) \<leftarrow> imfs_open map_fdtables [] fresh_fs 0 ''/a'' 0x42 0x1A4;
     let s = imfs_fork s 0 1;
     let ft = ((1, 0), mk_entry 1 3 False 0) # ft;
     (r1, s) \<leftarrow> imfs_unlink s 0 ''/a'';
     (r2, s, ft) \<leftarrow> imfs_close map_fdtables ft s 1 0;
     (r3, b, s) \<leftarrow> imfs_read map_fdtables ft s 0 0 [0];
     (r4, s, ft) \<leftarrow> imfs_close map_fdtables ft s 0 0;
     Some (fd, r1, r2, r3, r4, node_free_list s) }) = Some (0, 0, 0, -9, 0, [3, 3])"
  by code_simp

text \<open>\<open>rename\<close> compares the two paths as strings to refuse moving a directory into itself; through a
  symbolic link the move succeeds and the directory becomes its own parent.\<close>

theorem rename_into_itself:
  "(do { (r1, s) \<leftarrow> imfs_mkdir fresh_fs 0 ''/d'' 0x1ED;
     (r2, s) \<leftarrow> imfs_symlink s 0 ''/d'' ''/l'';
     (r3, s) \<leftarrow> imfs_rename s 0 ''/d'' ''/l/x'';
     Some (r1, r2, r3, parent_idx (nodes s ! 3), root_idx s) }) = Some (0, 0, 0, 3, 0)"
  by code_simp

text \<open>On such a node the loop of \<open>absolute_path_for_node\<close> never ends.\<close>

theorem absolute_path_diverges:
  assumes self: "parent_idx (nodes s ! i) = i" and root: "i \<noteq> root_idx s"
  shows "absolute_path_for_node s i = None"
proof -
  have "abs_path_loop s i parts = None" for parts
  proof (rule ccontr)
    assume "abs_path_loop s i parts \<noteq> None"
    then obtain r where "abs_path_loop s i parts = Some r" by blast
    then have "s = s \<and> i = i \<longrightarrow> False"
    proof (rule abs_path_loop.raw_induct [where P = "\<lambda>s' j _ _. s' = s \<and> j = i \<longrightarrow> False", rotated])
      fix rec s' j ps r
      assume ih: "\<And>s' j ps r. rec s' j ps = Some r \<Longrightarrow> s' = s \<and> j = i \<longrightarrow> False"
        and eq: "(if j \<noteq> root_idx s' then do { n \<leftarrow> get_node s' j; rec s' (parent_idx n) (ps @ [n_name n]) }
          else Some ps) = Some r"
      show "s' = s \<and> j = i \<longrightarrow> False"
        using eq self root ih [of s i] by (auto simp: bind_eq_Some_conv get_node_eq_Some)
    qed
    then show False by simp
  qed
  then show ?thesis using root by (simp add: absolute_path_for_node_def)
qed

text \<open>\<open>open\<close> with \<open>O_CREAT\<close> on a dangling symbolic link neither follows it nor fails: it adds a second
  directory entry with the link's name.\<close>

theorem create_on_dangling_symlink:
  "(do { (r1, s) \<leftarrow> imfs_symlink fresh_fs 0 ''/nope'' ''/l'';
     (fd, s, ft) \<leftarrow> imfs_open map_fdtables [] s 0 ''/l'' 0x42 0x1A4;
     Some (r1, fd, map de_name (dir_children (nodes s ! 0))) }) = Some (0, 0, [''.'', ''..'', ''l'', ''l''])"
  by code_simp

end
