(* ===== verification/Utf8.thy ===== *)
theory Utf8
  imports Prelude
begin

text \<open>
  Byte strings and Rust strings.  A Rust \<open>str\<close> is the list of its UTF-8 bytes, written as
  characters.  \<open>from_utf8\<close> and \<open>from_utf8_lossy\<close> are the conversions of the standard library:
  the lossy one replaces every maximal ill-formed prefix by U+FFFD.  Shared by the grates that
  read C strings from a cage.
\<close>

definition byte_char :: "byte \<Rightarrow> char" where
  "byte_char b = char_of (unat b)"

definition char_byte :: "char \<Rightarrow> byte" where
  "char_byte c = word_of_nat (of_char c)"

definition as_bytes :: "string \<Rightarrow> byte list" where
  "as_bytes s = map char_byte s"

definition cont_byte :: "byte \<Rightarrow> bool" where
  "cont_byte b \<longleftrightarrow> 0x80 \<le> b \<and> b \<le> 0xBF"

text \<open>The byte at index \<open>i\<close>, zero past the end.\<close>

definition byte_at :: "byte list \<Rightarrow> nat \<Rightarrow> byte" where
  "byte_at bs i = (if i < length bs then bs ! i else 0)"

definition second_ok :: "byte \<Rightarrow> byte \<Rightarrow> bool" where
  "second_ok a b \<longleftrightarrow>
     (if a = 0xE0 then 0xA0 \<le> b \<and> b \<le> 0xBF
      else if a = 0xED then 0x80 \<le> b \<and> b \<le> 0x9F
      else if a = 0xF0 then 0x90 \<le> b \<and> b \<le> 0xBF
      else if a = 0xF4 then 0x80 \<le> b \<and> b \<le> 0x8F
      else cont_byte b)"

text \<open>The leading chunk: whether it is a well-formed character, and its length.\<close>

definition utf8_chunk :: "byte list \<Rightarrow> bool \<times> nat" where
  "utf8_chunk bs =
     (let a = byte_at bs 0 in
      if a < 0x80 then (True, 1)
      else if 0xC2 \<le> a \<and> a \<le> 0xDF then (if second_ok a (byte_at bs 1) then (True, 2) else (False, 1))
      else if 0xE0 \<le> a \<and> a \<le> 0xEF then
        (if \<not> second_ok a (byte_at bs 1) then (False, 1)
         else if \<not> cont_byte (byte_at bs 2) then (False, 2) else (True, 3))
      else if 0xF0 \<le> a \<and> a \<le> 0xF4 then
        (if \<not> second_ok a (byte_at bs 1) then (False, 1)
         else if \<not> cont_byte (byte_at bs 2) then (False, 2)
         else if \<not> cont_byte (byte_at bs 3) then (False, 3) else (True, 4))
      else (False, 1))"

lemma utf8_chunk_pos: "0 < snd (utf8_chunk bs)"
  by (simp add: utf8_chunk_def Let_def)

definition replacement :: string where
  "replacement = map byte_char [0xEF, 0xBF, 0xBD]"

function from_utf8_lossy :: "byte list \<Rightarrow> string" where
  "from_utf8_lossy bs =
     (if bs = [] then []
      else case utf8_chunk bs of (ok, n) \<Rightarrow>
        (if ok then map byte_char (take n bs) else replacement) @ from_utf8_lossy (drop n bs))"
  by pat_completeness auto
termination
  by (relation "measure length") (auto simp: utf8_chunk_def Let_def split: if_splits)

declare from_utf8_lossy.simps [simp del]

function from_utf8 :: "byte list \<Rightarrow> string option" where
  "from_utf8 bs =
     (if bs = [] then Some []
      else case utf8_chunk bs of (ok, n) \<Rightarrow>
        (if ok then map_option ((@) (map byte_char (take n bs))) (from_utf8 (drop n bs)) else None))"
  by pat_completeness auto
termination
  by (relation "measure length") (auto simp: utf8_chunk_def Let_def split: if_splits)

declare from_utf8.simps [simp del]

text \<open>\<open>from_le_bytes\<close> (and \<open>from_ne_bytes\<close> on the little-endian target) of the unsigned types.\<close>

definition le_nat :: "byte list \<Rightarrow> nat" where
  "le_nat bs = foldr (\<lambda>b n. unat b + 256 * n) bs 0"

lemma le_nat_Cons: "le_nat [] = 0" "le_nat (b # bs) = unat b + 256 * le_nat bs"
  by (simp_all add: le_nat_def)

lemma le_nat_le_bytes: "le_nat (le_bytes k n) = n mod 256 ^ k"
proof (induction k arbitrary: n)
  case (Suc k)
  then show ?case by (simp add: le_bytes_Suc le_nat_Cons unat_of_nat take_bit_eq_mod mod_mult2_eq)
qed (simp add: le_bytes_def le_nat_Cons)

text \<open>Bytes up to the first NUL.\<close>

definition c_str_bytes :: "byte list \<Rightarrow> byte list" where
  "c_str_bytes bs = takeWhile (\<lambda>b. b \<noteq> 0) bs"

text \<open>\<open>CString::new\<close> fails on an interior NUL.\<close>

abbreviation nul :: char where
  "nul \<equiv> CHR 0x00"

definition cstring_new :: "string \<Rightarrow> string option" where
  "cstring_new s = (if nul \<in> set s then None else Some s)"

lemma char_byte_char [simp]: "char_byte (byte_char b) = b"
proof -
  have "unat b < 256" using unsigned_less [of b] by simp
  then show ?thesis by (simp add: char_byte_def byte_char_def)
qed

lemma byte_char_byte [simp]: "byte_char (char_byte c) = c"
proof -
  have "unat (char_byte c) = of_char c"
    using nat_of_char_less_256 [of c] by (simp add: char_byte_def unat_of_nat take_bit_eq_mod)
  then show ?thesis by (simp add: byte_char_def)
qed

lemma byte_char_eq_nul [simp]: "byte_char b = nul \<longleftrightarrow> b = 0"
proof -
  have "byte_char 0 = nul" by (simp add: byte_char_def char_of_def)
  then show ?thesis by (metis char_byte_char)
qed

lemma nul_eq_byte_char [simp]: "nul = byte_char b \<longleftrightarrow> b = 0"
  using byte_char_eq_nul [of b] by metis

lemma from_utf8_Nil [simp]: "from_utf8 [] = Some []" and from_utf8_lossy_Nil [simp]: "from_utf8_lossy [] = []"
  by (subst from_utf8.simps, simp) (subst from_utf8_lossy.simps, simp)

lemma length_as_bytes [simp]: "length (as_bytes s) = length s"
  by (simp add: as_bytes_def)

lemma from_utf8_bytes: "from_utf8 bs = Some s \<Longrightarrow> as_bytes s = bs"
proof (induction bs arbitrary: s rule: from_utf8.induct)
  case (1 bs)
  show ?case
  proof (cases "bs = []")
    case True
    with "1.prems" show ?thesis by (simp add: as_bytes_def)
  next
    case False
    obtain ok n where c: "utf8_chunk bs = (ok, n)" by fastforce
    with "1.prems" False obtain s' where s': "from_utf8 (drop n bs) = Some s'" "s = map byte_char (take n bs) @ s'" "ok"
      by (subst (asm) from_utf8.simps) (auto split: if_splits)
    from "1.IH" [OF False c [symmetric] s'(3,1)] s'(2) show ?thesis
      by (simp add: as_bytes_def comp_def)
  qed
qed

lemma from_utf8_lossy_valid: "from_utf8 bs = Some s \<Longrightarrow> from_utf8_lossy bs = s"
proof (induction bs arbitrary: s rule: from_utf8.induct)
  case (1 bs)
  show ?case
  proof (cases "bs = []")
    case True
    with "1.prems" show ?thesis by simp
  next
    case False
    obtain ok n where c: "utf8_chunk bs = (ok, n)" by fastforce
    with "1.prems" False obtain s' where s': "from_utf8 (drop n bs) = Some s'" "s = map byte_char (take n bs) @ s'" "ok"
      by (subst (asm) from_utf8.simps) (auto split: if_splits)
    from "1.IH" [OF False c [symmetric] s'(3,1)] s' c False show ?thesis
      by (subst from_utf8_lossy.simps) simp
  qed
qed

lemma from_utf8_lossy_nul: "0 \<notin> set bs \<Longrightarrow> nul \<notin> set (from_utf8_lossy bs)"
proof (induction bs rule: from_utf8_lossy.induct)
  case (1 bs)
  show ?case
  proof (cases "bs = []")
    case False
    obtain ok n where c: "utf8_chunk bs = (ok, n)" by fastforce
    have "0 \<notin> set (drop n bs)" "0 \<notin> set (take n bs)" using "1.prems" by (auto dest: in_set_dropD in_set_takeD)
    with "1.IH" [OF False c [symmetric]] c False show ?thesis
      by (subst from_utf8_lossy.simps) (auto simp: replacement_def image_iff)
  qed simp
qed

lemma c_str_bytes_nul: "0 \<notin> set (c_str_bytes bs)"
  unfolding c_str_bytes_def by (induction bs) auto

end
