(* ===== verification/Threei.thy ===== *)
theory Threei
  imports Utf8
begin

unbundle bit_operations_syntax

text \<open>
  The grate side of the runtime interface 3i (\<open>lib/grate-rs/src/lib.rs\<close>).  The runtime itself is
  not part of the repository: what a dispatched call returns is a parameter, a function of the call.

  An argument of a call is a number the cage passed, or a pointer to a buffer the grate owns.
  Such a pointer is represented by what it points to: a C string, or raw bytes.
\<close>

datatype grate_error =
    CoordinationError string
  | HandlerRegistrationError int
  | CopyDataError int
  | CopyHandlerError int
  | MakeSyscallError int

datatype sysarg = Num nat | OwnStr string | OwnBuf "byte list"

record threei_call =
  callnumber :: nat
  self_cageid :: nat
  target_cageid :: nat
  call_args :: "sysarg list"
  call_cages :: "nat list"

definition GRATE_MEMORY_FLAG :: nat where
  "GRATE_MEMORY_FLAG = 2 ^ 63"

text \<open>\<open>thiscage | GRATE_MEMORY_FLAG\<close>.\<close>

definition grate_memory :: "nat \<Rightarrow> nat" where
  "grate_memory c = c OR GRATE_MEMORY_FLAG"

definition make_threei_call :: "(threei_call \<Rightarrow> int) \<Rightarrow> threei_call \<Rightarrow> grate_error + int" where
  "make_threei_call sys c = (let ret = sys c in if ret < 0 then Inl (MakeSyscallError ret) else Inr ret)"

text \<open>The \<open>match\<close> by which the grates turn the result back into a status.\<close>

definition call_status :: "grate_error + int \<Rightarrow> int" where
  "call_status r = (case r of Inr ret \<Rightarrow> ret | Inl (MakeSyscallError n) \<Rightarrow> n | Inl _ \<Rightarrow> -1)"

lemma call_status_make [simp]: "call_status (make_threei_call sys c) = sys c"
  by (simp add: call_status_def make_threei_call_def Let_def)

text \<open>
  The wrapper of the copy between cages.  The runtime answers every failure with the one status
  \<open>ELINDAPIABORTED\<close>, declared as a 64-bit constant, and the wrapper compares the sign-extended
  32-bit status with it.
\<close>

definition ELINDAPIABORTED :: nat where
  "ELINDAPIABORTED = 0xE0010001"

definition copy_data_between_cages :: "i32 \<Rightarrow> grate_error + unit" where
  "copy_data_between_cages ret =
     (if as_u64 (sint ret) = ELINDAPIABORTED then Inl (CopyDataError (as_i32 (int ELINDAPIABORTED))) else Inr ())"

definition copy_handler_table_to_cage :: "i32 \<Rightarrow> grate_error + unit" where
  "copy_handler_table_to_cage ret =
     (if as_u64 (sint ret) = ELINDAPIABORTED then Inl (CopyHandlerError (as_i32 (int ELINDAPIABORTED))) else Inr ())"

lemma sign_extended_not_aborted: "as_u64 (sint (ret :: i32)) \<noteq> ELINDAPIABORTED"
proof -
  have r: "- (2 ^ 31) \<le> sint ret" "sint ret < 2 ^ 31" using sint_greater_eq [of ret] sint_lt [of ret] by simp_all
  show ?thesis
  proof (cases "0 \<le> sint ret")
    case True
    then show ?thesis using r by (simp add: as_u64_def ELINDAPIABORTED_def)
  next
    case False
    then have "sint ret mod 2 ^ 64 = sint ret + 2 ^ 64" using r
      by (subst mod_add_self2 [symmetric], subst mod_pos_pos_trivial) simp_all
    then show ?thesis using r by (simp add: as_u64_def ELINDAPIABORTED_def)
  qed
qed

text \<open>A failed copy is never reported: whatever 32-bit status the runtime returns, the wrappers of the
  data copy and of the handler-table copy answer success, because the sign-extended status cannot
  equal the zero-extended constant they compare it with.\<close>

theorem copy_errors_unseen:
  "copy_data_between_cages ret = Inr () \<and> copy_handler_table_to_cage ret = Inr ()"
  by (simp add: copy_data_between_cages_def copy_handler_table_to_cage_def sign_extended_not_aborted)

text \<open>\<open>dirfd as i64 == AT_FDCWD\<close>.\<close>

definition is_fdcwd :: "nat \<Rightarrow> bool" where
  "is_fdcwd dirfd \<longleftrightarrow> as_i64 (int dirfd) = -100"

text \<open>System call numbers (\<open>lib/grate-rs/src/constants/syscall_numbers.rs\<close>).\<close>

abbreviation (input) SYS_READ :: nat where "SYS_READ \<equiv> 0"
abbreviation (input) SYS_WRITE :: nat where "SYS_WRITE \<equiv> 1"
abbreviation (input) SYS_OPEN :: nat where "SYS_OPEN \<equiv> 2"
abbreviation (input) SYS_CLOSE :: nat where "SYS_CLOSE \<equiv> 3"
abbreviation (input) SYS_STAT :: nat where "SYS_STAT \<equiv> 4"
abbreviation (input) SYS_LSTAT :: nat where "SYS_LSTAT \<equiv> 6"
abbreviation (input) SYS_ACCESS :: nat where "SYS_ACCESS \<equiv> 21"
abbreviation (input) SYS_DUP :: nat where "SYS_DUP \<equiv> 32"
abbreviation (input) SYS_DUP2 :: nat where "SYS_DUP2 \<equiv> 33"
abbreviation (input) SYS_CONNECT :: nat where "SYS_CONNECT \<equiv> 42"
abbreviation (input) SYS_ACCEPT :: nat where "SYS_ACCEPT \<equiv> 43"
abbreviation (input) SYS_SENDTO :: nat where "SYS_SENDTO \<equiv> 44"
abbreviation (input) SYS_RECVFROM :: nat where "SYS_RECVFROM \<equiv> 45"
abbreviation (input) SYS_BIND :: nat where "SYS_BIND \<equiv> 49"
abbreviation (input) SYS_GETSOCKNAME :: nat where "SYS_GETSOCKNAME \<equiv> 51"
abbreviation (input) SYS_GETPEERNAME :: nat where "SYS_GETPEERNAME \<equiv> 52"
abbreviation (input) SYS_CLONE :: nat where "SYS_CLONE \<equiv> 56"
abbreviation (input) SYS_EXECVE :: nat where "SYS_EXECVE \<equiv> 59"
abbreviation (input) SYS_FCNTL :: nat where "SYS_FCNTL \<equiv> 72"
abbreviation (input) SYS_TRUNCATE :: nat where "SYS_TRUNCATE \<equiv> 76"
abbreviation (input) SYS_RENAME :: nat where "SYS_RENAME \<equiv> 82"
abbreviation (input) SYS_MKDIR :: nat where "SYS_MKDIR \<equiv> 83"
abbreviation (input) SYS_RMDIR :: nat where "SYS_RMDIR \<equiv> 84"
abbreviation (input) SYS_LINK :: nat where "SYS_LINK \<equiv> 86"
abbreviation (input) SYS_UNLINK :: nat where "SYS_UNLINK \<equiv> 87"
abbreviation (input) SYS_SYMLINK :: nat where "SYS_SYMLINK \<equiv> 88"
abbreviation (input) SYS_READLINK :: nat where "SYS_READLINK \<equiv> 89"
abbreviation (input) SYS_CHMOD :: nat where "SYS_CHMOD \<equiv> 90"
abbreviation (input) SYS_CHOWN :: nat where "SYS_CHOWN \<equiv> 92"
abbreviation (input) SYS_LCHOWN :: nat where "SYS_LCHOWN \<equiv> 94"
abbreviation (input) SYS_STATFS :: nat where "SYS_STATFS \<equiv> 137"
abbreviation (input) SYS_SETXATTR :: nat where "SYS_SETXATTR \<equiv> 188"
abbreviation (input) SYS_LISTXATTR :: nat where "SYS_LISTXATTR \<equiv> 194"
abbreviation (input) SYS_OPENAT :: nat where "SYS_OPENAT \<equiv> 257"
abbreviation (input) SYS_FCHOWNAT :: nat where "SYS_FCHOWNAT \<equiv> 260"
abbreviation (input) SYS_NEWFSTATAT :: nat where "SYS_NEWFSTATAT \<equiv> 262"
abbreviation (input) SYS_UNLINKAT :: nat where "SYS_UNLINKAT \<equiv> 263"
abbreviation (input) SYS_RENAMEAT :: nat where "SYS_RENAMEAT \<equiv> 264"
abbreviation (input) SYS_SYMLINKAT :: nat where "SYS_SYMLINKAT \<equiv> 266"
abbreviation (input) SYS_READLINKAT :: nat where "SYS_READLINKAT \<equiv> 267"
abbreviation (input) SYS_FCHMODAT :: nat where "SYS_FCHMODAT \<equiv> 268"
abbreviation (input) SYS_FACCESSAT :: nat where "SYS_FACCESSAT \<equiv> 269"
abbreviation (input) SYS_UTIMENSAT :: nat where "SYS_UTIMENSAT \<equiv> 280"
abbreviation (input) SYS_DUP3 :: nat where "SYS_DUP3 \<equiv> 292"
abbreviation (input) SYS_RENAMEAT2 :: nat where "SYS_RENAMEAT2 \<equiv> 316"
abbreviation (input) SYS_STATX :: nat where "SYS_STATX \<equiv> 332"
abbreviation (input) SYS_FSTAT :: nat where "SYS_FSTAT \<equiv> 5"
abbreviation (input) SYS_POLL :: nat where "SYS_POLL \<equiv> 7"
abbreviation (input) SYS_LSEEK :: nat where "SYS_LSEEK \<equiv> 8"
abbreviation (input) SYS_MMAP :: nat where "SYS_MMAP \<equiv> 9"
abbreviation (input) SYS_MUNMAP :: nat where "SYS_MUNMAP \<equiv> 11"
abbreviation (input) SYS_IOCTL :: nat where "SYS_IOCTL \<equiv> 16"
abbreviation (input) SYS_PREAD :: nat where "SYS_PREAD \<equiv> 17"
abbreviation (input) SYS_PWRITE :: nat where "SYS_PWRITE \<equiv> 18"
abbreviation (input) SYS_READV :: nat where "SYS_READV \<equiv> 19"
abbreviation (input) SYS_WRITEV :: nat where "SYS_WRITEV \<equiv> 20"
abbreviation (input) SYS_PIPE :: nat where "SYS_PIPE \<equiv> 22"
abbreviation (input) SYS_SELECT :: nat where "SYS_SELECT \<equiv> 23"
abbreviation (input) SYS_SOCKET :: nat where "SYS_SOCKET \<equiv> 41"
abbreviation (input) SYS_SENDMSG :: nat where "SYS_SENDMSG \<equiv> 46"
abbreviation (input) SYS_RECVMSG :: nat where "SYS_RECVMSG \<equiv> 47"
abbreviation (input) SYS_SHUTDOWN :: nat where "SYS_SHUTDOWN \<equiv> 48"
abbreviation (input) SYS_LISTEN :: nat where "SYS_LISTEN \<equiv> 50"
abbreviation (input) SYS_SOCKETPAIR :: nat where "SYS_SOCKETPAIR \<equiv> 53"
abbreviation (input) SYS_SETSOCKOPT :: nat where "SYS_SETSOCKOPT \<equiv> 54"
abbreviation (input) SYS_GETSOCKOPT :: nat where "SYS_GETSOCKOPT \<equiv> 55"
abbreviation (input) SYS_FORK :: nat where "SYS_FORK \<equiv> 57"
abbreviation (input) SYS_EXEC :: nat where "SYS_EXEC \<equiv> 59"
abbreviation (input) SYS_EXIT :: nat where "SYS_EXIT \<equiv> 60"
abbreviation (input) SYS_FLOCK :: nat where "SYS_FLOCK \<equiv> 73"
abbreviation (input) SYS_FSYNC :: nat where "SYS_FSYNC \<equiv> 74"
abbreviation (input) SYS_FDATASYNC :: nat where "SYS_FDATASYNC \<equiv> 75"
abbreviation (input) SYS_FTRUNCATE :: nat where "SYS_FTRUNCATE \<equiv> 77"
abbreviation (input) SYS_GETDENTS :: nat where "SYS_GETDENTS \<equiv> 78"
abbreviation (input) SYS_GETCWD :: nat where "SYS_GETCWD \<equiv> 79"
abbreviation (input) SYS_CHDIR :: nat where "SYS_CHDIR \<equiv> 80"
abbreviation (input) SYS_FCHDIR :: nat where "SYS_FCHDIR \<equiv> 81"
abbreviation (input) SYS_FCHMOD :: nat where "SYS_FCHMOD \<equiv> 91"
abbreviation (input) SYS_UMASK :: nat where "SYS_UMASK \<equiv> 95"
abbreviation (input) SYS_GETEUID :: nat where "SYS_GETEUID \<equiv> 107"
abbreviation (input) SYS_MKNOD :: nat where "SYS_MKNOD \<equiv> 133"
abbreviation (input) SYS_FSTATFS :: nat where "SYS_FSTATFS \<equiv> 138"
abbreviation (input) SYS_EPOLL_CREATE :: nat where "SYS_EPOLL_CREATE \<equiv> 213"
abbreviation (input) SYS_EXIT_GROUP :: nat where "SYS_EXIT_GROUP \<equiv> 231"
abbreviation (input) SYS_EPOLL_WAIT :: nat where "SYS_EPOLL_WAIT \<equiv> 232"
abbreviation (input) SYS_EPOLL_CTL :: nat where "SYS_EPOLL_CTL \<equiv> 233"
abbreviation (input) SYS_MKDIRAT :: nat where "SYS_MKDIRAT \<equiv> 258"
abbreviation (input) SYS_PPOLL :: nat where "SYS_PPOLL \<equiv> 271"
abbreviation (input) SYS_SYNC_FILE_RANGE :: nat where "SYS_SYNC_FILE_RANGE \<equiv> 277"
abbreviation (input) SYS_ACCEPT4 :: nat where "SYS_ACCEPT4 \<equiv> 288"
abbreviation (input) SYS_EPOLL_CREATE1 :: nat where "SYS_EPOLL_CREATE1 \<equiv> 291"
abbreviation (input) SYS_PIPE2 :: nat where "SYS_PIPE2 \<equiv> 293"
abbreviation (input) SYS_PREADV :: nat where "SYS_PREADV \<equiv> 295"
abbreviation (input) SYS_PWRITEV :: nat where "SYS_PWRITEV \<equiv> 296"
abbreviation (input) SYS_GETRANDOM :: nat where "SYS_GETRANDOM \<equiv> 318"
abbreviation (input) SYS_REGISTER_HANDLER :: nat where "SYS_REGISTER_HANDLER \<equiv> 1001"

text \<open>
  What a handler does to the outside: calls it dispatches, buffers it copies to a cage,
  handlers it registers for a cage and a call number with a grate, bytes it stores through a raw
  pointer, a handler table it copies to a new cage, and the reads and writes it does itself on one of
  its own descriptors; and the steps of its own life.
\<close>

text \<open>What a grate does while it starts and stops: the C library calls of its life cycle, its callbacks, its end.\<close>

datatype libc_call = SemInit | Fork | SemWait | Execv "string list" | SemPost | Waitpid int | SemDestroy | Munmap

datatype run_event = Libc libc_call | Preexec int | Teardown "grate_error + i32" | Exit int | Panic

datatype event = Threei threei_call | CopyOut nat nat "byte list" | Register nat nat nat
  | UserWrite nat "byte list" | CopyTable nat nat
  | LibcWrite int "byte list" | LibcRead int nat
  | Run run_event

end
