(* ===== verification/Grate.thy ===== *)
theory Grate
  imports Threei Fdtables
begin

unbundle bit_operations_syntax

text \<open>
  Handlers that make several calls.  The grates built on \<open>fdtables\<close> (the routing clamps and the
  descriptor-translating handlers of \<open>lib/grate-rs\<close>) dispatch more than one call in a handler, so
  what the runtime answers may depend on everything the grate did before: the environment is a
  record of functions of the history.  The state of a grate extends \<open>grate_world\<close>, which holds the
  descriptor tables and the history.
\<close>

section \<open>Environment and world\<close>

text \<open>
  \<open>ge_sys\<close>: the status of a dispatched call; \<open>ge_out\<close>: the bytes a call leaves in the buffer the
  grate passed as the argument with the given index; \<open>ge_copystr\<close>, \<open>ge_copymem\<close>: the buffer
  after a copy from a cage address (as a string, as raw memory), \<open>None\<close> when the copy is reported as
  failed; \<open>ge_copyout\<close>: whether a copy to a cage succeeds; \<open>ge_register\<close>: the status of a handler
  registration; \<open>ge_unused_errno\<close>, \<open>ge_specific_errno\<close>: the error number of a failed
  allocation in the descriptor tables.
\<close>

record 'ft grate_env =
  ge_cage :: nat
  ge_sys :: "event list \<Rightarrow> threei_call \<Rightarrow> int"
  ge_out :: "event list \<Rightarrow> threei_call \<Rightarrow> nat \<Rightarrow> byte list"
  ge_copystr :: "event list \<Rightarrow> nat \<Rightarrow> nat \<Rightarrow> nat \<Rightarrow> byte list option"
  ge_copymem :: "event list \<Rightarrow> nat \<Rightarrow> nat \<Rightarrow> nat \<Rightarrow> byte list option"
  ge_copyout :: "event list \<Rightarrow> nat \<Rightarrow> nat \<Rightarrow> byte list \<Rightarrow> bool"
  ge_register :: "event list \<Rightarrow> nat \<Rightarrow> nat \<Rightarrow> nat \<Rightarrow> int"
  ge_fd :: "'ft fdtables_ops"
  ge_unused_errno :: "'ft \<Rightarrow> nat \<Rightarrow> nat"
  ge_specific_errno :: "'ft \<Rightarrow> nat \<Rightarrow> nat \<Rightarrow> nat"

record 'ft grate_world =
  fdt :: 'ft
  hist :: "event list"

text \<open>The truncation \<open>nr as u32\<close>.\<close>

definition as_u32 :: "nat \<Rightarrow> nat" where
  "as_u32 n = take_bit 32 n"

definition log_event :: "event \<Rightarrow> ('ft, 'a) grate_world_scheme \<Rightarrow> ('ft, 'a) grate_world_scheme" where
  "log_event e w = w\<lparr>hist := hist w @ [e]\<rparr>"

definition grate_call ::
  "'ft grate_env \<Rightarrow> ('ft, 'a) grate_world_scheme \<Rightarrow> threei_call \<Rightarrow> int \<times> ('ft, 'a) grate_world_scheme" where
  "grate_call E w c = (call_status (make_threei_call (ge_sys E (hist w)) c), log_event (Threei c) w)"

definition register_handler ::
  "'ft grate_env \<Rightarrow> ('ft, 'a) grate_world_scheme \<Rightarrow> nat \<Rightarrow> nat \<Rightarrow> nat \<Rightarrow>
   (grate_error + unit) \<times> ('ft, 'a) grate_world_scheme" where
  "register_handler E w cageid syscall_nr grateid =
     (let ret = ge_register E (hist w) cageid syscall_nr grateid;
          w = log_event (Register cageid syscall_nr grateid) w
      in if ret = 0 then (Inr (), w) else (Inl (HandlerRegistrationError ret), w))"

fun register_default_fd_handlers_except ::
  "'ft grate_env \<Rightarrow> ('ft, 'a) grate_world_scheme \<Rightarrow> nat \<Rightarrow> nat \<Rightarrow> nat list option \<Rightarrow> nat list \<Rightarrow>
   (grate_error + unit) \<times> ('ft, 'a) grate_world_scheme" where
  "register_default_fd_handlers_except E w cageid grateid except [] = (Inr (), w)"
| "register_default_fd_handlers_except E w cageid grateid except (nr # table) =
     (if (case except of None \<Rightarrow> False | Some s \<Rightarrow> nr \<in> set s)
      then register_default_fd_handlers_except E w cageid grateid except table
      else (case register_handler E w cageid nr grateid of
              (Inr _, w) \<Rightarrow> register_default_fd_handlers_except E w cageid grateid except table
            | (Inl e, w) \<Rightarrow> (Inl e, w)))"

definition CLONE_THREAD :: nat where
  "CLONE_THREAD = 0x10000"

text \<open>The flags are the first eight bytes of the clone arguments; they stay 0 when the copy fails.\<close>

definition is_thread_clone :: "'ft grate_env \<Rightarrow> ('ft, 'a) grate_world_scheme \<Rightarrow> nat \<Rightarrow> nat \<Rightarrow> bool" where
  "is_thread_clone E w clone_args_ptr clone_args_cage =
     (let flags = (case ge_copymem E (hist w) clone_args_cage clone_args_ptr 8 of Some bs \<Rightarrow> le_nat bs | None \<Rightarrow> 0)
      in flags AND CLONE_THREAD \<noteq> 0)"

section \<open>Shared facts\<close>

lemma grate_call_eq [simp]: "grate_call E w c = (ge_sys E (hist w) c, log_event (Threei c) w)"
  by (simp add: grate_call_def)

lemma log_event_simps [simp]:
  "fdt (log_event e w) = fdt w" "hist (log_event e w) = hist w @ [e]"
  by (simp_all add: log_event_def)

lemma as_u32_small [simp]: "n < 2 ^ 32 \<Longrightarrow> as_u32 n = n"
  by (simp add: as_u32_def take_bit_nat_eq_self)

text \<open>The calls of a history.\<close>

fun calls_of :: "event list \<Rightarrow> threei_call list" where
  "calls_of [] = []"
| "calls_of (Threei c # es) = c # calls_of es"
| "calls_of (_ # es) = calls_of es"

lemma calls_of_append [simp]: "calls_of (xs @ ys) = calls_of xs @ calls_of ys"
  by (induction xs rule: calls_of.induct) simp_all

lemma register_handler_frame:
  assumes "register_handler E w c nr g = (r, w')"
  shows "fdt w' = fdt w" and "calls_of (hist w') = calls_of (hist w)"
    and "hist w' = hist w @ [Register c nr g]"
  using assms by (auto simp: register_handler_def Let_def split: if_splits)

section \<open>Flags in the descriptor tables\<close>

text \<open>The routing clamps use the per-descriptor word as a flag.\<close>

definition fd_flags :: "'ft grate_env \<Rightarrow> 'ft \<Rightarrow> bool" where
  "fd_flags E ft \<longleftrightarrow> (\<forall>c fd e. translate_virtual_fd (ge_fd E) ft c fd = Some e \<longrightarrow> perfdinfo e \<le> 1)"

lemma fd_flags_maps:
  assumes "fd_maps (ge_fd E) ft c fd x ft'" "fd_flags E ft" "\<And>e. x = Some e \<Longrightarrow> perfdinfo e \<le> 1"
  shows "fd_flags E ft'"
  using assms by (auto simp: fd_flags_def fd_maps_def split: if_splits)

lemma fd_flags_ops:
  assumes "fdtables_ok (ge_fd E)" "fd_flags E ft"
  shows "get_unused_virtual_fd (ge_fd E) ft c k u ce p = Some (fd, ft') \<Longrightarrow> p \<le> 1 \<Longrightarrow> fd_flags E ft'"
    and "get_unused_virtual_fd_from_startfd (ge_fd E) ft c k u ce p st = Some (fd, ft') \<Longrightarrow> p \<le> 1 \<Longrightarrow> fd_flags E ft'"
    and "get_specific_virtual_fd (ge_fd E) ft c fd k u ce p = Some ft' \<Longrightarrow> p \<le> 1 \<Longrightarrow> fd_flags E ft'"
    and "close_virtualfd (ge_fd E) ft c fd = Some ft' \<Longrightarrow> fd_flags E ft'"
    and "copy_fdtable_for_cage (ge_fd E) ft par c = Some ft' \<Longrightarrow> fd_flags E ft'"
    and "fd_flags E (remove_cage_from_fdtable (ge_fd E) ft c)"
proof -
  show "fd_flags E ft'" if "get_unused_virtual_fd (ge_fd E) ft c k u ce p = Some (fd, ft')" "p \<le> 1"
    using fd_flags_maps [OF conjunct2 [OF fd_alloc_law [OF assms(1) that(1)]] assms(2)] that(2) by auto
  show "fd_flags E ft'" if "get_unused_virtual_fd_from_startfd (ge_fd E) ft c k u ce p st = Some (fd, ft')" "p \<le> 1"
    using fd_flags_maps [OF conjunct2 [OF conjunct2 [OF fd_startfd_law [OF assms(1) that(1)]]] assms(2)] that(2) by auto
  show "fd_flags E ft'" if "get_specific_virtual_fd (ge_fd E) ft c fd k u ce p = Some ft'" "p \<le> 1"
    using fd_flags_maps [OF fd_specific_law [OF assms(1) that(1)] assms(2)] that(2) by auto
  show "fd_flags E ft'" if "close_virtualfd (ge_fd E) ft c fd = Some ft'"
    using fd_flags_maps [OF fd_close_law [OF assms(1) that] assms(2)] by auto
  show "fd_flags E ft'" if "copy_fdtable_for_cage (ge_fd E) ft par c = Some ft'"
    using assms(2) fd_copy_law [OF assms(1) that] by (simp add: fd_flags_def)
  show "fd_flags E (remove_cage_from_fdtable (ge_fd E) ft c)"
    using assms(2) fd_remove_law [OF assms(1)] by (simp add: fd_flags_def)
qed

lemma fd_flags_init: "fdtables_ok (ge_fd E) \<Longrightarrow> fd_flags E ft \<Longrightarrow> fd_flags E (init_empty_cage (ge_fd E) ft c)"
  unfolding fd_flags_def by (blast dest: fd_init_law)

lemma fd_flags_perfd:
  assumes "fdtables_ok (ge_fd E)" "fd_flags E ft" "set_perfdinfo (ge_fd E) ft c fd p = Some ft'" "p \<le> 1"
  shows "fd_flags E ft'"
proof (cases "translate_virtual_fd (ge_fd E) ft c fd")
  case None
  then show ?thesis using fd_perfd_None [OF assms(1) None] assms(3) by simp
next
  case (Some e)
  with fd_perfd_law [OF assms(1) Some, of p] assms(3) have "fd_maps (ge_fd E) ft c fd (Some (e\<lparr>perfdinfo := p\<rparr>)) ft'" by auto
  from fd_flags_maps [OF this assms(2)] assms(4) show ?thesis by auto
qed

lemma fd_flagsD: "fd_flags E ft \<Longrightarrow> translate_virtual_fd (ge_fd E) ft c fd = Some e \<Longrightarrow> perfdinfo e \<le> 1"
  unfolding fd_flags_def by blast

end
