(* ===== verification/Imfs_Handlers.thy ===== *)
theory Imfs_Handlers
  imports Imfs_Tree Grate
begin

unbundle bit_operations_syntax

text \<open>
  The system-call handlers of the in-memory file system (\<open>rust-grates/imfs-grate/src/handlers.rs\<close>).
  A handler copies its path and buffer arguments from the cage that owns them, calls one
  operation of the file system, and copies the results back.  \<open>a\<close> and \<open>g\<close> are the six arguments and
  the cages they belong to; \<open>None\<close> is a panic, an allocation that overflows the address space
  included.
\<close>

section \<open>World and environment\<close>

record 'ft imfs_world = "'ft grate_world" +
  imfs_of :: imfs

text \<open>
  \<open>me_exec\<close>: the tables after \<open>empty_fds_for_exec\<close>; the rest is what the C library answers to a read
  or write of the grate on one of its own descriptors: the result, and for a read the contents of
  the buffer afterwards.
\<close>

record 'ft imfs_env =
  me_g :: "'ft grate_env"
  me_exec :: "'ft \<Rightarrow> nat \<Rightarrow> 'ft"
  me_write :: "event list \<Rightarrow> int \<Rightarrow> byte list \<Rightarrow> int"
  me_pwrite :: "event list \<Rightarrow> int \<Rightarrow> byte list \<Rightarrow> int \<Rightarrow> int"
  me_read :: "event list \<Rightarrow> int \<Rightarrow> nat \<Rightarrow> int \<times> byte list"
  me_pread :: "event list \<Rightarrow> int \<Rightarrow> nat \<Rightarrow> int \<Rightarrow> int \<times> byte list"

type_synonym 'ft imfs_handler =
  "'ft imfs_env \<Rightarrow> 'ft imfs_world \<Rightarrow> nat list \<Rightarrow> nat list \<Rightarrow> (int \<times> 'ft imfs_world) option"

abbreviation me_fd :: "'ft imfs_env \<Rightarrow> 'ft fdtables_ops" where
  "me_fd E \<equiv> ge_fd (me_g E)"

text \<open>\<open>with_imfs\<close>: the operation acts on the file system, or on it and the descriptor tables.\<close>

definition with_imfs :: "'ft imfs_world \<Rightarrow> (imfs \<Rightarrow> ('r \<times> imfs) option) \<Rightarrow> ('r \<times> 'ft imfs_world) option" where
  "with_imfs w f = map_option (\<lambda>(r, s). (r, w\<lparr>imfs_of := s\<rparr>)) (f (imfs_of w))"

definition with_tables ::
  "'ft imfs_world \<Rightarrow> ('ft \<Rightarrow> imfs \<Rightarrow> (int \<times> imfs \<times> 'ft) option) \<Rightarrow> (int \<times> 'ft imfs_world) option" where
  "with_tables w f = map_option (\<lambda>(r, s, ft). (r, w\<lparr>imfs_of := s, fdt := ft\<rparr>)) (f (fdt w) (imfs_of w))"

section \<open>Arguments in the memory of a cage\<close>

definition IMFS_MAX_PATH_LEN :: nat where "IMFS_MAX_PATH_LEN = 256"
definition IOV_MAX :: nat where "IOV_MAX = 1024"

text \<open>The buffer is zero-filled before the copy; without a NUL the whole buffer is the path.\<close>

definition copy_path_from_cage :: "'ft imfs_env \<Rightarrow> 'ft imfs_world \<Rightarrow> nat \<Rightarrow> nat \<Rightarrow> string option" where
  "copy_path_from_cage E w path_ptr path_cage =
     (case ge_copystr (me_g E) (hist w) path_cage path_ptr IMFS_MAX_PATH_LEN of
        None \<Rightarrow> None
      | Some buf \<Rightarrow> from_utf8 (c_str_bytes buf))"

text \<open>The \<open>match\<close> by which the handlers leave with \<open>EFAULT\<close>.\<close>

definition with_path ::
  "'ft imfs_env \<Rightarrow> 'ft imfs_world \<Rightarrow> nat \<Rightarrow> nat \<Rightarrow> (string \<Rightarrow> (int \<times> 'ft imfs_world) option) \<Rightarrow>
   (int \<times> 'ft imfs_world) option" where
  "with_path E w ptr cage k = (case copy_path_from_cage E w ptr cage of None \<Rightarrow> Some (-14, w) | Some p \<Rightarrow> k p)"

record iovec =
  iov_base :: nat
  iov_len :: nat

definition iovec_of :: "byte list \<Rightarrow> iovec" where
  "iovec_of bs = \<lparr>iov_base = le_nat (take 8 bs), iov_len = le_nat (take 8 (drop 8 bs))\<rparr>"

primrec iovecs_of :: "nat \<Rightarrow> byte list \<Rightarrow> iovec list" where
  "iovecs_of 0 bs = []"
| "iovecs_of (Suc n) bs = iovec_of bs # iovecs_of n (drop 16 bs)"

definition copy_iovecs_from_cage :: "'ft imfs_env \<Rightarrow> 'ft imfs_world \<Rightarrow> nat \<Rightarrow> nat \<Rightarrow> nat \<Rightarrow> iovec list result" where
  "copy_iovecs_from_cage E w iov_ptr iov_cage iovcnt =
     (if iovcnt > IOV_MAX then Inl (-22)
      else (case ge_copymem (me_g E) (hist w) iov_cage iov_ptr (iovcnt * 16) of
              Some bs \<Rightarrow> Inr (iovecs_of iovcnt bs)
            | None \<Rightarrow> Inl (-14)))"

text \<open>\<open>usize::try_from(iov_len)\<close> and the checked sum, in 32 bits.\<close>

fun total_iovec_from :: "nat \<Rightarrow> iovec list \<Rightarrow> nat result" where
  "total_iovec_from acc [] = Inr acc"
| "total_iovec_from acc (iov # iovs) =
     (if iov_len iov \<ge> 2 ^ 32 then Inl (-22)
      else if acc + iov_len iov \<ge> 2 ^ 32 then Inl (-22)
      else total_iovec_from (acc + iov_len iov) iovs)"

definition total_iovec_len :: "iovec list \<Rightarrow> nat result" where
  "total_iovec_len iovecs = total_iovec_from 0 iovecs"

text \<open>\<open>vec![0u8; n]\<close> and \<open>Vec::with_capacity(n)\<close>: a capacity beyond \<open>isize::MAX\<close> panics.\<close>

definition vec_zero :: "nat \<Rightarrow> byte list option" where
  "vec_zero n = (if n < 2 ^ 31 then Some (replicate n 0) else None)"

text \<open>A copy into a buffer of the grate whose failure is ignored, and a copy to a cage with its status.\<close>

definition fill_from_cage :: "'ft imfs_env \<Rightarrow> 'ft imfs_world \<Rightarrow> nat \<Rightarrow> nat \<Rightarrow> byte list \<Rightarrow> byte list" where
  "fill_from_cage E w cage ptr buf =
     (case ge_copymem (me_g E) (hist w) cage ptr (length buf) of Some bs \<Rightarrow> bs | None \<Rightarrow> buf)"

definition copy_to_cage :: "'ft imfs_env \<Rightarrow> 'ft imfs_world \<Rightarrow> nat \<Rightarrow> nat \<Rightarrow> byte list \<Rightarrow> bool \<times> 'ft imfs_world" where
  "copy_to_cage E w cage ptr bs =
     (if ge_copyout (me_g E) (hist w) cage ptr bs then (True, log_event (CopyOut cage ptr bs) w) else (False, w))"

text \<open>Reads and writes of the standard descriptors, which the grate serves with its own.\<close>

definition libc_write :: "'ft imfs_env \<Rightarrow> 'ft imfs_world \<Rightarrow> nat \<Rightarrow> byte list \<Rightarrow> int \<times> 'ft imfs_world" where
  "libc_write E w fd bs = (as_i32 (me_write E (hist w) (int fd) bs), log_event (LibcWrite (int fd) bs) w)"

definition libc_pwrite :: "'ft imfs_env \<Rightarrow> 'ft imfs_world \<Rightarrow> nat \<Rightarrow> byte list \<Rightarrow> int \<Rightarrow> int \<times> 'ft imfs_world" where
  "libc_pwrite E w fd bs off = (as_i32 (me_pwrite E (hist w) (int fd) bs off), log_event (LibcWrite (int fd) bs) w)"

definition libc_read :: "'ft imfs_env \<Rightarrow> 'ft imfs_world \<Rightarrow> nat \<Rightarrow> nat \<Rightarrow> int \<times> byte list \<times> 'ft imfs_world" where
  "libc_read E w fd n =
     (let (r, bs) = me_read E (hist w) (int fd) n in (as_i32 r, bs, log_event (LibcRead (int fd) n) w))"

definition libc_pread :: "'ft imfs_env \<Rightarrow> 'ft imfs_world \<Rightarrow> nat \<Rightarrow> nat \<Rightarrow> int \<Rightarrow> int \<times> byte list \<times> 'ft imfs_world" where
  "libc_pread E w fd n off =
     (let (r, bs) = me_pread E (hist w) (int fd) n off in (as_i32 r, bs, log_event (LibcRead (int fd) n) w))"

section \<open>Opening, closing, duplicating\<close>

definition enosys_handler :: "'ft imfs_handler" where
  "enosys_handler E w a g = Some (-38, w)"

definition imfs_open_handler :: "'ft imfs_handler" where
  "imfs_open_handler E w a g =
     with_path E w (a ! 0) (g ! 0) (\<lambda>pathname.
       with_tables w (\<lambda>ft s. imfs_open (me_fd E) ft s (g ! 1) pathname (word_of_nat (a ! 1)) (word_of_nat (a ! 2))))"

definition imfs_openat_handler :: "'ft imfs_handler" where
  "imfs_openat_handler E w a g =
     with_path E w (a ! 1) (g ! 1) (\<lambda>pathname.
       with_tables w (\<lambda>ft s. imfs_openat (me_fd E) ft s (g ! 2) (as_i32 (int (a ! 0))) pathname
         (word_of_nat (a ! 2)) (word_of_nat (a ! 3))))"

definition imfs_getcwd_handler :: "'ft imfs_handler" where
  "imfs_getcwd_handler E w a g =
     (if a ! 0 = 0 then Some (-14, w)
      else (case imfs_getcwd (imfs_of w) (g ! 1) of
              Inl e \<Rightarrow> Some (e, w)
            | Inr cwd \<Rightarrow>
                (let buf = as_bytes cwd @ [0] in
                 if length buf > as_usize (int (a ! 1)) then Some (-34, w)
                 else (case copy_to_cage E w (g ! 0) (a ! 0) buf of
                         (True, w) \<Rightarrow> Some (as_i32 (int (length buf)), w)
                       | (False, w) \<Rightarrow> Some (-14, w)))))"

definition imfs_access_handler :: "'ft imfs_handler" where
  "imfs_access_handler E w a g =
     with_path E w (a ! 0) (g ! 0) (\<lambda>pathname.
       map_option (\<lambda>r. (r, w)) (imfs_access (imfs_of w) (g ! 0) pathname (word_of_nat (a ! 1))))"

definition imfs_faccessat_handler :: "'ft imfs_handler" where
  "imfs_faccessat_handler E w a g =
     with_path E w (a ! 1) (g ! 1) (\<lambda>pathname.
       map_option (\<lambda>r. (r, w)) (imfs_accessat (me_fd E) (fdt w) (imfs_of w) (g ! 0) (as_i32 (int (a ! 0))) pathname (word_of_nat (a ! 2))))"

definition imfs_close_handler :: "'ft imfs_handler" where
  "imfs_close_handler E w a g = with_tables w (\<lambda>ft s. imfs_close (me_fd E) ft s (g ! 0) (a ! 0))"

definition imfs_dup_handler :: "'ft imfs_handler" where
  "imfs_dup_handler E w a g = with_tables w (\<lambda>ft s. imfs_dup (me_fd E) ft s (g ! 0) (a ! 0))"

definition imfs_dup2_handler :: "'ft imfs_handler" where
  "imfs_dup2_handler E w a g = with_tables w (\<lambda>ft s. imfs_dup2 (me_fd E) ft s (g ! 0) (a ! 0) (a ! 1) False)"

definition O_CLOEXEC :: i32 where "O_CLOEXEC = 0x80000"

definition imfs_dup3_handler :: "'ft imfs_handler" where
  "imfs_dup3_handler E w a g =
     (if a ! 0 = a ! 1 then Some (-22, w)
      else let cloexec = (word_of_nat (a ! 2) AND O_CLOEXEC \<noteq> 0)
           in with_tables w (\<lambda>ft s. imfs_dup2 (me_fd E) ft s (g ! 0) (a ! 0) (a ! 1) cloexec))"

section \<open>Reading and writing\<close>

text \<open>The whole buffer of \<open>count\<close> bytes is copied back, not only the bytes read.\<close>

definition imfs_read_handler :: "'ft imfs_handler" where
  "imfs_read_handler E w a g = do {
     buf \<leftarrow> vec_zero (as_usize (int (a ! 2)));
     ((ret, buf), w) \<leftarrow> with_imfs w (\<lambda>s. map_option (\<lambda>(r, b, s). ((r, b), s)) (imfs_read (me_fd E) (fdt w) s (g ! 0) (a ! 0) buf));
     Some (ret, if ret > 0 \<and> a ! 1 \<noteq> 0 then snd (copy_to_cage E w (g ! 1) (a ! 1) buf) else w) }"

definition imfs_write_handler :: "'ft imfs_handler" where
  "imfs_write_handler E w a g = do {
     buf \<leftarrow> vec_zero (as_usize (int (a ! 2)));
     let buf = fill_from_cage E w (g ! 1) (a ! 1) buf;
     if a ! 0 < 3 then Some (libc_write E w (a ! 0) buf)
     else with_imfs w (\<lambda>s. imfs_write (me_fd E) (fdt w) s (g ! 0) (a ! 0) buf) }"

definition imfs_lseek_handler :: "'ft imfs_handler" where
  "imfs_lseek_handler E w a g =
     with_imfs w (\<lambda>s. imfs_lseek (me_fd E) (fdt w) s (g ! 0) (a ! 0) (as_i64 (int (a ! 1))) (as_i32 (int (a ! 2))))"

definition imfs_fcntl_handler :: "'ft imfs_handler" where
  "imfs_fcntl_handler E w a g =
     with_tables w (\<lambda>ft s. imfs_fcntl (me_fd E) ft s (g ! 0) (a ! 0) (as_i32 (int (a ! 1))) (word_of_nat (a ! 2)))"

definition imfs_getdents_handler :: "'ft imfs_handler" where
  "imfs_getdents_handler E w a g = do {
     buf \<leftarrow> vec_zero (as_usize (int (a ! 2)));
     ((ret, buf), w) \<leftarrow> with_imfs w (\<lambda>s. map_option (\<lambda>(r, b, s). ((r, b), s)) (imfs_getdents (me_fd E) (fdt w) s (g ! 0) (a ! 0) buf));
     Some (ret, if ret > 0 \<and> a ! 1 \<noteq> 0 then snd (copy_to_cage E w (g ! 1) (a ! 1) (take (nat ret) buf)) else w) }"

definition imfs_pread_handler :: "'ft imfs_handler" where
  "imfs_pread_handler E w a g = do {
     buf \<leftarrow> vec_zero (as_usize (int (a ! 2)));
     ((ret, buf), w) \<leftarrow> with_imfs w (\<lambda>s. map_option (\<lambda>(r, b, s). ((r, b), s))
       (imfs_pread (me_fd E) (fdt w) s (g ! 0) (a ! 0) buf (as_i64 (int (a ! 3)))));
     Some (ret, if ret > 0 \<and> a ! 1 \<noteq> 0 then snd (copy_to_cage E w (g ! 1) (a ! 1) buf) else w) }"

text \<open>On a standard descriptor the offset is ignored.\<close>

definition imfs_pwrite_handler :: "'ft imfs_handler" where
  "imfs_pwrite_handler E w a g = do {
     buf \<leftarrow> vec_zero (as_usize (int (a ! 2)));
     let buf = fill_from_cage E w (g ! 1) (a ! 1) buf;
     if a ! 0 < 3 then Some (libc_write E w (a ! 0) buf)
     else with_imfs w (\<lambda>s. imfs_pwrite (me_fd E) (fdt w) s (g ! 0) (a ! 0) buf (as_i64 (int (a ! 3)))) }"

section \<open>Vectored transfers\<close>

text \<open>The loop that spreads the bytes read over the buffers of the cage: \<open>rest\<close> are those not yet copied.\<close>

fun scatter :: "'ft imfs_env \<Rightarrow> 'ft imfs_world \<Rightarrow> nat \<Rightarrow> iovec list \<Rightarrow> byte list \<Rightarrow> int option \<times> 'ft imfs_world" where
  "scatter E w cage [] rest = (None, w)"
| "scatter E w cage (iov # iovs) rest =
     (if rest = [] then (None, w)
      else if iov_len iov \<ge> 2 ^ 32 then (Some (-22), w)
      else let chunk_len = min (length rest) (iov_len iov) in
           if chunk_len = 0 then scatter E w cage iovs rest
           else (case copy_to_cage E w cage (iov_base iov) (take chunk_len rest) of
                   (False, w) \<Rightarrow> (Some (-14), w)
                 | (True, w) \<Rightarrow> scatter E w cage iovs (drop chunk_len rest)))"

text \<open>The loop that collects the bytes to write.\<close>

fun gather :: "'ft imfs_env \<Rightarrow> 'ft imfs_world \<Rightarrow> nat \<Rightarrow> iovec list \<Rightarrow> byte list \<Rightarrow> byte list result" where
  "gather E w cage [] buf = Inr buf"
| "gather E w cage (iov # iovs) buf =
     (if iov_len iov \<ge> 2 ^ 32 then Inl (-22)
      else if iov_len iov = 0 then gather E w cage iovs buf
      else (case ge_copymem (me_g E) (hist w) cage (iov_base iov) (iov_len iov) of
              None \<Rightarrow> Inl (-14)
            | Some bs \<Rightarrow> gather E w cage iovs (buf @ bs)))"

text \<open>The arguments of the four vectored handlers: the descriptors of the buffers and their total length.\<close>

definition iovec_args :: "'ft imfs_env \<Rightarrow> 'ft imfs_world \<Rightarrow> nat list \<Rightarrow> nat list \<Rightarrow> (iovec list \<times> nat) result" where
  "iovec_args E w a g =
     (case copy_iovecs_from_cage E w (a ! 1) (g ! 1) (as_usize (int (a ! 2))) of
        Inl e \<Rightarrow> Inl e
      | Inr iovecs \<Rightarrow> (case total_iovec_len iovecs of Inl e \<Rightarrow> Inl e | Inr n \<Rightarrow> Inr (iovecs, n)))"

definition finish_readv ::
  "'ft imfs_env \<Rightarrow> 'ft imfs_world \<Rightarrow> nat \<Rightarrow> iovec list \<Rightarrow> int \<Rightarrow> byte list \<Rightarrow> int \<times> 'ft imfs_world" where
  "finish_readv E w cage iovecs ret buf =
     (if ret \<le> 0 then (ret, w)
      else (case scatter E w cage iovecs (take (nat ret) buf) of (Some e, w) \<Rightarrow> (e, w) | (None, w) \<Rightarrow> (ret, w)))"

definition imfs_readv_handler :: "'ft imfs_handler" where
  "imfs_readv_handler E w a g =
     (case iovec_args E w a g of
        Inl e \<Rightarrow> Some (e, w)
      | Inr (iovecs, total_len) \<Rightarrow> do {
          buf \<leftarrow> vec_zero total_len;
          (if a ! 0 < 3 then (case libc_read E w (a ! 0) total_len of (ret, buf, w) \<Rightarrow> Some (finish_readv E w (g ! 1) iovecs ret buf))
           else do {
             ((ret, buf), w) \<leftarrow> with_imfs w (\<lambda>s. map_option (\<lambda>(r, b, s). ((r, b), s)) (imfs_read (me_fd E) (fdt w) s (g ! 0) (a ! 0) buf));
             Some (finish_readv E w (g ! 1) iovecs ret buf) }) })"

definition imfs_writev_handler :: "'ft imfs_handler" where
  "imfs_writev_handler E w a g =
     (case iovec_args E w a g of
        Inl e \<Rightarrow> Some (e, w)
      | Inr (iovecs, total_len) \<Rightarrow> do {
          _ \<leftarrow> vec_zero total_len;
          (case gather E w (g ! 1) iovecs [] of
             Inl e \<Rightarrow> Some (e, w)
           | Inr buf \<Rightarrow>
               if a ! 0 < 3 then Some (libc_write E w (a ! 0) buf)
               else with_imfs w (\<lambda>s. imfs_write (me_fd E) (fdt w) s (g ! 0) (a ! 0) buf)) })"

definition imfs_preadv_handler :: "'ft imfs_handler" where
  "imfs_preadv_handler E w a g =
     (case iovec_args E w a g of
        Inl e \<Rightarrow> Some (e, w)
      | Inr (iovecs, total_len) \<Rightarrow> do {
          buf \<leftarrow> vec_zero total_len;
          let offset = as_i64 (int (a ! 3));
          (if a ! 0 < 3 then (case libc_pread E w (a ! 0) total_len offset of (ret, buf, w) \<Rightarrow> Some (finish_readv E w (g ! 1) iovecs ret buf))
           else do {
             ((ret, buf), w) \<leftarrow> with_imfs w (\<lambda>s. map_option (\<lambda>(r, b, s). ((r, b), s)) (imfs_pread (me_fd E) (fdt w) s (g ! 0) (a ! 0) buf offset));
             Some (finish_readv E w (g ! 1) iovecs ret buf) }) })"

definition imfs_pwritev_handler :: "'ft imfs_handler" where
  "imfs_pwritev_handler E w a g =
     (case iovec_args E w a g of
        Inl e \<Rightarrow> Some (e, w)
      | Inr (iovecs, total_len) \<Rightarrow> do {
          _ \<leftarrow> vec_zero total_len;
          let offset = as_i64 (int (a ! 3));
          (case gather E w (g ! 1) iovecs [] of
             Inl e \<Rightarrow> Some (e, w)
           | Inr buf \<Rightarrow>
               if a ! 0 < 3 then Some (libc_pwrite E w (a ! 0) buf offset)
               else with_imfs w (\<lambda>s. imfs_pwrite (me_fd E) (fdt w) s (g ! 0) (a ! 0) buf offset)) })"

section \<open>Attributes\<close>

definition imfs_chmod_handler :: "'ft imfs_handler" where
  "imfs_chmod_handler E w a g =
     with_path E w (a ! 0) (g ! 0) (\<lambda>pathname. with_imfs w (\<lambda>s. imfs_chmod s (g ! 0) pathname (word_of_nat (a ! 1))))"

text \<open>\<open>flags & !supported_flags != 0\<close> of the calls that take a directory descriptor.\<close>

definition unsupported_at_flags :: "nat \<Rightarrow> bool" where
  "unsupported_at_flags fl \<longleftrightarrow> (word_of_nat fl :: i32) AND NOT (AT_SYMLINK_NOFOLLOW OR LIND_AT_EMPTY_PATH) \<noteq> 0"

definition imfs_fchmodat_handler :: "'ft imfs_handler" where
  "imfs_fchmodat_handler E w a g =
     (if unsupported_at_flags (a ! 3) then Some (-22, w)
      else with_path E w (a ! 1) (g ! 1) (\<lambda>pathname.
        with_imfs w (\<lambda>s. imfs_chmodat (me_fd E) (fdt w) s (g ! 0) (as_i32 (int (a ! 0))) pathname (word_of_nat (a ! 2)))))"

definition imfs_chown_handler :: "'ft imfs_handler" where
  "imfs_chown_handler E w a g =
     with_path E w (a ! 0) (g ! 0) (\<lambda>pathname.
       with_imfs w (\<lambda>s. imfs_chown s (g ! 0) pathname (word_of_nat (a ! 1)) (word_of_nat (a ! 2))))"

definition imfs_lchown_handler :: "'ft imfs_handler" where
  "imfs_lchown_handler E w a g =
     with_path E w (a ! 0) (g ! 0) (\<lambda>pathname.
       with_imfs w (\<lambda>s. imfs_lchown s (g ! 0) pathname (word_of_nat (a ! 1)) (word_of_nat (a ! 2))))"

definition imfs_fchownat_handler :: "'ft imfs_handler" where
  "imfs_fchownat_handler E w a g =
     (if unsupported_at_flags (a ! 4) then Some (-22, w)
      else with_path E w (a ! 1) (g ! 1) (\<lambda>pathname.
        with_imfs w (\<lambda>s. imfs_chownat (me_fd E) (fdt w) s (g ! 0) (as_i32 (int (a ! 0))) pathname
          (word_of_nat (a ! 2)) (word_of_nat (a ! 3)) (word_of_nat (a ! 4)))))"

definition imfs_truncate_handler :: "'ft imfs_handler" where
  "imfs_truncate_handler E w a g =
     with_path E w (a ! 0) (g ! 0) (\<lambda>pathname. with_imfs w (\<lambda>s. imfs_truncate s (g ! 1) pathname (as_i64 (int (a ! 1)))))"

definition imfs_ftruncate_handler :: "'ft imfs_handler" where
  "imfs_ftruncate_handler E w a g =
     with_imfs w (\<lambda>s. imfs_ftruncate (me_fd E) (fdt w) s (g ! 0) (a ! 0) (as_i64 (int (a ! 1))))"

definition imfs_fchmod_handler :: "'ft imfs_handler" where
  "imfs_fchmod_handler E w a g =
     with_imfs w (\<lambda>s. imfs_fchmod (me_fd E) (fdt w) s (g ! 0) (a ! 0) (word_of_nat (a ! 1)))"

definition imfs_utimensat_handler :: "'ft imfs_handler" where
  "imfs_utimensat_handler E w a g =
     (if a ! 3 \<noteq> 0 then Some (-22, w)
      else let run = (\<lambda>p. with_imfs w (\<lambda>s. imfs_utimensat (me_fd E) (fdt w) s (g ! 0) (as_i32 (int (a ! 0))) p)) in
        if a ! 1 = 0 then run None else with_path E w (a ! 1) (g ! 1) (\<lambda>p. run (Some p)))"

section \<open>Metadata\<close>

text \<open>The in-memory representation of \<open>stat\<close> and \<open>FsData\<close>, both \<open>repr(C)\<close> without padding.\<close>

definition stat_default :: stat_buf where
  "stat_default = \<lparr>st_dev = 0, st_ino = 0, st_mode = 0, st_nlink = 0, st_uid = 0, st_gid = 0, st_rdev = 0, st_size = 0,
     st_blksize = 0, st_blocks = 0, st_atim = (0, 0), st_mtim = (0, 0), st_ctim = (0, 0)\<rparr>"

definition stat_bytes :: "stat_buf \<Rightarrow> byte list" where
  "stat_bytes b =
     le_bytes 8 (st_dev b) @ le_bytes 8 (st_ino b) @ le_bytes 4 (unat (st_mode b)) @ le_bytes 4 (st_nlink b) @
     le_bytes 4 (unat (st_uid b)) @ le_bytes 4 (unat (st_gid b)) @ le_bytes 8 (st_rdev b) @ le_bytes 8 (st_size b) @
     le_bytes 4 (nat (st_blksize b mod 2 ^ 32)) @ le_bytes 4 (st_blocks b) @
     le_bytes 8 (fst (st_atim b)) @ le_bytes 8 (snd (st_atim b)) @ le_bytes 8 (fst (st_mtim b)) @ le_bytes 8 (snd (st_mtim b)) @
     le_bytes 8 (fst (st_ctim b)) @ le_bytes 8 (snd (st_ctim b))"

definition fs_data_default :: fs_data where
  "fs_data_default = \<lparr>f_type = 0, f_bsize = 0, f_blocks = 0, f_bfree = 0, f_bavail = 0, f_files = 0, f_ffiles = 0, f_fsid = 0,
     f_namelen = 0, f_frsize = 0, f_spare = replicate 32 0\<rparr>"

definition fs_data_bytes :: "fs_data \<Rightarrow> byte list" where
  "fs_data_bytes b =
     le_bytes 8 (f_type b) @ le_bytes 8 (f_bsize b) @ le_bytes 8 (f_blocks b) @ le_bytes 8 (f_bfree b) @ le_bytes 8 (f_bavail b) @
     le_bytes 8 (f_files b) @ le_bytes 8 (f_ffiles b) @ le_bytes 8 (f_fsid b) @ le_bytes 8 (f_namelen b) @ le_bytes 8 (f_frsize b) @ f_spare b"

text \<open>The end of the handlers: a failed operation copies nothing, and a failed copy is ignored.\<close>

definition finish_stat :: "'ft imfs_env \<Rightarrow> 'ft imfs_world \<Rightarrow> nat \<Rightarrow> nat \<Rightarrow> int \<Rightarrow> byte list \<Rightarrow> int \<times> 'ft imfs_world" where
  "finish_stat E w cage ptr ret bs = (if ret < 0 then (ret, w) else (ret, snd (copy_to_cage E w cage ptr bs)))"

definition imfs_stat_handler :: "'ft imfs_handler" where
  "imfs_stat_handler E w a g =
     (if a ! 1 = 0 then Some (-14, w)
      else with_path E w (a ! 0) (g ! 0) (\<lambda>pathname.
        map_option (\<lambda>(ret, b). finish_stat E w (g ! 1) (a ! 1) ret (stat_bytes b))
          (imfs_stat (imfs_of w) (g ! 0) pathname stat_default)))"

definition imfs_lstat_handler :: "'ft imfs_handler" where
  "imfs_lstat_handler E w a g =
     (if a ! 1 = 0 then Some (-14, w)
      else with_path E w (a ! 0) (g ! 0) (\<lambda>pathname.
        map_option (\<lambda>(ret, b). finish_stat E w (g ! 1) (a ! 1) ret (stat_bytes b))
          (imfs_lstat (imfs_of w) (g ! 0) pathname stat_default)))"

definition imfs_fstatat_handler :: "'ft imfs_handler" where
  "imfs_fstatat_handler E w a g =
     (if a ! 2 = 0 then Some (-14, w)
      else with_path E w (a ! 1) (g ! 1) (\<lambda>pathname. do {
        ((ret, b), w) \<leftarrow> with_imfs w (\<lambda>s. map_option (\<lambda>(r, b, s). ((r, b), s))
          (imfs_statat (me_fd E) (fdt w) s (g ! 0) (as_i32 (int (a ! 0))) pathname stat_default (word_of_nat (a ! 3))));
        Some (finish_stat E w (g ! 2) (a ! 2) ret (stat_bytes b)) }))"

definition imfs_fstat_handler :: "'ft imfs_handler" where
  "imfs_fstat_handler E w a g =
     (if a ! 1 = 0 then Some (-14, w)
      else map_option (\<lambda>(ret, b). finish_stat E w (g ! 1) (a ! 1) ret (stat_bytes b))
        (imfs_fstat (me_fd E) (fdt w) (imfs_of w) (g ! 0) (a ! 0) stat_default))"

definition imfs_statfs_handler :: "'ft imfs_handler" where
  "imfs_statfs_handler E w a g =
     (if a ! 1 = 0 then Some (-14, w)
      else with_path E w (a ! 0) (g ! 0) (\<lambda>pathname.
        map_option (\<lambda>(ret, b). finish_stat E w (g ! 1) (a ! 1) ret (fs_data_bytes b))
          (imfs_statfs (imfs_of w) (g ! 0) pathname fs_data_default)))"

definition imfs_fstatfs_handler :: "'ft imfs_handler" where
  "imfs_fstatfs_handler E w a g =
     (if a ! 1 = 0 then Some (-14, w)
      else map_option (\<lambda>(ret, b). finish_stat E w (g ! 1) (a ! 1) ret (fs_data_bytes b))
        (imfs_fstatfs (me_fd E) (fdt w) (imfs_of w) (g ! 0) (a ! 0) fs_data_default))"

section \<open>The tree\<close>

definition imfs_unlink_handler :: "'ft imfs_handler" where
  "imfs_unlink_handler E w a g =
     with_path E w (a ! 0) (g ! 0) (\<lambda>pathname. with_imfs w (\<lambda>s. imfs_unlink s (g ! 0) pathname))"

definition imfs_unlinkat_handler :: "'ft imfs_handler" where
  "imfs_unlinkat_handler E w a g =
     with_path E w (a ! 1) (g ! 1) (\<lambda>pathname.
       with_imfs w (\<lambda>s. imfs_unlinkat (me_fd E) (fdt w) s (g ! 0) (as_i32 (int (a ! 0))) pathname (word_of_nat (a ! 2))))"

definition imfs_link_handler :: "'ft imfs_handler" where
  "imfs_link_handler E w a g =
     with_path E w (a ! 0) (g ! 0) (\<lambda>oldpath. with_path E w (a ! 1) (g ! 1) (\<lambda>newpath.
       with_imfs w (\<lambda>s. imfs_link s (g ! 0) oldpath newpath)))"

definition imfs_linkat_handler :: "'ft imfs_handler" where
  "imfs_linkat_handler E w a g =
     with_path E w (a ! 1) (g ! 1) (\<lambda>oldpath. with_path E w (a ! 3) (g ! 3) (\<lambda>newpath.
       with_imfs w (\<lambda>s. imfs_linkat (me_fd E) (fdt w) s (g ! 0) (as_i32 (int (a ! 0))) oldpath (as_i32 (int (a ! 2))) newpath
         (word_of_nat (a ! 4)))))"

definition imfs_symlink_handler :: "'ft imfs_handler" where
  "imfs_symlink_handler E w a g =
     with_path E w (a ! 0) (g ! 0) (\<lambda>target. with_path E w (a ! 1) (g ! 1) (\<lambda>linkpath.
       with_imfs w (\<lambda>s. imfs_symlink s (g ! 1) target linkpath)))"

definition imfs_symlinkat_handler :: "'ft imfs_handler" where
  "imfs_symlinkat_handler E w a g =
     with_path E w (a ! 0) (g ! 0) (\<lambda>target. with_path E w (a ! 2) (g ! 2) (\<lambda>linkpath.
       with_imfs w (\<lambda>s. imfs_symlinkat (me_fd E) (fdt w) s (g ! 1) target (as_i32 (int (a ! 1))) linkpath)))"

definition copy_readlink_target_to_cage ::
  "'ft imfs_env \<Rightarrow> 'ft imfs_world \<Rightarrow> string \<Rightarrow> nat \<Rightarrow> nat \<Rightarrow> nat \<Rightarrow> int \<times> 'ft imfs_world" where
  "copy_readlink_target_to_cage E w target buf buf_cage bufsiz =
     (if buf = 0 then (-14, w)
      else let copy_len = min (length target) (as_usize (int bufsiz)) in
        if copy_len = 0 then (0, w)
        else (case copy_to_cage E w buf_cage buf (take copy_len (as_bytes target)) of
                (True, w) \<Rightarrow> (as_i32 (int copy_len), w)
              | (False, w) \<Rightarrow> (-14, w)))"

definition imfs_readlink_handler :: "'ft imfs_handler" where
  "imfs_readlink_handler E w a g =
     with_path E w (a ! 0) (g ! 0) (\<lambda>pathname. do {
       (r, w) \<leftarrow> with_imfs w (\<lambda>s. imfs_readlink s (g ! 0) pathname);
       Some (case r of Inl e \<Rightarrow> (e, w) | Inr target \<Rightarrow> copy_readlink_target_to_cage E w target (a ! 1) (g ! 1) (a ! 2)) })"

definition imfs_readlinkat_handler :: "'ft imfs_handler" where
  "imfs_readlinkat_handler E w a g =
     with_path E w (a ! 1) (g ! 1) (\<lambda>pathname. do {
       (r, w) \<leftarrow> with_imfs w (\<lambda>s. imfs_readlinkat (me_fd E) (fdt w) s (g ! 0) (as_i32 (int (a ! 0))) pathname);
       Some (case r of Inl e \<Rightarrow> (e, w) | Inr target \<Rightarrow> copy_readlink_target_to_cage E w target (a ! 2) (g ! 2) (a ! 3)) })"

definition imfs_rename_handler :: "'ft imfs_handler" where
  "imfs_rename_handler E w a g =
     with_path E w (a ! 0) (g ! 0) (\<lambda>oldpath. with_path E w (a ! 1) (g ! 1) (\<lambda>newpath.
       with_imfs w (\<lambda>s. imfs_rename s (g ! 0) oldpath newpath)))"

definition renameat_impl ::
  "'ft imfs_env \<Rightarrow> 'ft imfs_world \<Rightarrow> nat \<Rightarrow> nat \<Rightarrow> nat \<Rightarrow> nat \<Rightarrow> nat \<Rightarrow> nat \<Rightarrow> nat \<Rightarrow> (int \<times> 'ft imfs_world) option" where
  "renameat_impl E w olddirfd oldpath_ptr oldpath_cage newdirfd newpath_ptr newpath_cage cage_id =
     with_path E w oldpath_ptr oldpath_cage (\<lambda>oldpath. with_path E w newpath_ptr newpath_cage (\<lambda>newpath.
       with_imfs w (\<lambda>s. imfs_renameat (me_fd E) (fdt w) s cage_id (as_i32 (int olddirfd)) oldpath (as_i32 (int newdirfd)) newpath)))"

definition imfs_renameat_handler :: "'ft imfs_handler" where
  "imfs_renameat_handler E w a g = renameat_impl E w (a ! 0) (a ! 1) (g ! 1) (a ! 2) (a ! 3) (g ! 3) (g ! 0)"

definition imfs_renameat2_handler :: "'ft imfs_handler" where
  "imfs_renameat2_handler E w a g =
     (if a ! 4 \<noteq> 0 then Some (-22, w)
      else renameat_impl E w (a ! 0) (a ! 1) (g ! 1) (a ! 2) (a ! 3) (g ! 3) (g ! 0))"

definition imfs_chdir_handler :: "'ft imfs_handler" where
  "imfs_chdir_handler E w a g =
     with_path E w (a ! 0) (g ! 0) (\<lambda>pathname. with_imfs w (\<lambda>s. imfs_chdir s (g ! 1) pathname))"

definition imfs_fchdir_handler :: "'ft imfs_handler" where
  "imfs_fchdir_handler E w a g = with_imfs w (\<lambda>s. imfs_fchdir (me_fd E) (fdt w) s (g ! 0) (a ! 0))"

definition imfs_rmdir_handler :: "'ft imfs_handler" where
  "imfs_rmdir_handler E w a g =
     with_path E w (a ! 0) (g ! 0) (\<lambda>pathname. with_imfs w (\<lambda>s. imfs_rmdir s (g ! 0) pathname))"

definition imfs_mkdir_handler :: "'ft imfs_handler" where
  "imfs_mkdir_handler E w a g =
     with_path E w (a ! 0) (g ! 0) (\<lambda>pathname. with_imfs w (\<lambda>s. imfs_mkdir s (g ! 0) pathname (word_of_nat (a ! 1))))"

definition imfs_mknod_handler :: "'ft imfs_handler" where
  "imfs_mknod_handler E w a g =
     with_path E w (a ! 0) (g ! 0) (\<lambda>pathname. with_imfs w (\<lambda>s. imfs_mknod s (g ! 0) pathname (word_of_nat (a ! 1))))"

definition imfs_fsync_handler :: "'ft imfs_handler" where
  "imfs_fsync_handler E w a g = Some (0, w)"

definition sync_file_range_handler :: "'ft imfs_handler" where
  "sync_file_range_handler E w a g = Some (0, w)"

section \<open>Processes\<close>

definition imfs_forward :: "'ft imfs_env \<Rightarrow> 'ft imfs_world \<Rightarrow> nat \<Rightarrow> nat list \<Rightarrow> nat list \<Rightarrow> (grate_error + int) \<times> 'ft imfs_world" where
  "imfs_forward E w nr a g =
     (let c = \<lparr>callnumber = nr, self_cageid = ge_cage (me_g E), target_cageid = g ! 0, call_args = map Num a, call_cages = g\<rparr>
      in (make_threei_call (ge_sys (me_g E) (hist w)) c, log_event (Threei c) w))"

definition imfs_fork_handler :: "'ft imfs_handler" where
  "imfs_fork_handler E w a g =
     (case imfs_forward E w SYS_CLONE a g of
        (Inl _, w) \<Rightarrow> Some (-1, w)
      | (Inr ret, w) \<Rightarrow>
          (let child_cage_id = as_u64 ret;
               w = (if \<not> is_thread_clone (me_g E) w (a ! 0) (g ! 0) then
                      let w = (case copy_fdtable_for_cage (me_fd E) (fdt w) (g ! 0) child_cage_id of Some ft \<Rightarrow> w\<lparr>fdt := ft\<rparr> | None \<Rightarrow> w)
                      in w\<lparr>imfs_of := imfs_fork (imfs_of w) (g ! 0) child_cage_id\<rparr>
                    else w)
           in Some (as_i32 (int child_cage_id), w)))"

text \<open>The descriptors reserved for the standard streams: three allocations whose failure is ignored.\<close>

fun reserve_std :: "nat \<Rightarrow> 'ft fdtables_ops \<Rightarrow> nat \<Rightarrow> 'ft \<Rightarrow> 'ft" where
  "reserve_std 0 F cage ft = ft"
| "reserve_std (Suc n) F cage ft =
     reserve_std n F cage (case get_unused_virtual_fd F ft cage IMFS_FDKIND 0 False 0 of Some (_, ft) \<Rightarrow> ft | None \<Rightarrow> ft)"

definition imfs_exec_handler :: "'ft imfs_handler" where
  "imfs_exec_handler E w a g =
     (let cage_id = g ! 0;
          ft = (if check_cage_exists (me_fd E) (fdt w) cage_id then fdt w else init_empty_cage (me_fd E) (fdt w) cage_id);
          w = w\<lparr>fdt := reserve_std 3 (me_fd E) cage_id (me_exec E ft cage_id)\<rparr>
      in (case imfs_forward E w SYS_EXEC a g of
            (Inr ret, w) \<Rightarrow> Some (ret, w)
          | (Inl _, w) \<Rightarrow> Some (-1, w)))"

end
