(* ===== verification/Rust_Str.thy ===== *)
theory Rust_Str
  imports Paths Utf8
begin

text \<open>
  Operations of Rust strings used by the command-line and configuration parsers: trimming of white
  space, \<open>split_once\<close>, and the decimal conversions of the unsigned integer types.  A string is the
  list of its UTF-8 bytes, so a white-space character is one of the byte sequences below.
\<close>

section \<open>White space\<close>

definition utf8_ws :: "byte list list" where
  "utf8_ws =
     map (\<lambda>b. [b]) [0x09, 0x0A, 0x0B, 0x0C, 0x0D, 0x20] @
     [[0xC2, 0x85], [0xC2, 0xA0], [0xE1, 0x9A, 0x80]] @
     map (\<lambda>b. [0xE2, 0x80, b]) [0x80, 0x81, 0x82, 0x83, 0x84, 0x85, 0x86, 0x87, 0x88, 0x89, 0x8A, 0xA8, 0xA9, 0xAF] @
     [[0xE2, 0x81, 0x9F], [0xE3, 0x80, 0x80]]"

definition ws_strings :: "string list" where
  "ws_strings = map (map byte_char) utf8_ws"

text \<open>Drop leading occurrences of any of the given (nonempty) strings.\<close>

function strip_all :: "string list \<Rightarrow> string \<Rightarrow> string" where
  "strip_all ws s =
     (case find (\<lambda>w. w \<noteq> [] \<and> starts_with s w) ws of None \<Rightarrow> s | Some w \<Rightarrow> strip_all ws (drop (length w) s))"
  by pat_completeness auto
termination
proof (relation "measure (\<lambda>(ws, s). length s)")
  fix ws s and w :: string
  assume "find (\<lambda>w. w \<noteq> [] \<and> starts_with s w) ws = Some w"
  then have "w \<noteq> []" "take (length w) s = w" by (auto simp: find_Some_iff starts_with_def)
  then show "((ws, drop (length w) s), ws, s) \<in> measure (\<lambda>(ws, s). length s)" by (cases s) auto
qed simp

declare strip_all.simps [simp del]

definition str_trim :: "string \<Rightarrow> string" where
  "str_trim s = rev (strip_all (map rev ws_strings) (rev (strip_all ws_strings s)))"

text \<open>\<open>s.split_once(c)\<close>.\<close>

definition split_once :: "char \<Rightarrow> string \<Rightarrow> (string \<times> string) option" where
  "split_once c s = (if c \<in> set s then Some (takeWhile (\<lambda>x. x \<noteq> c) s, tl (dropWhile (\<lambda>x. x \<noteq> c) s)) else None)"

text \<open>\<open>s.split_whitespace()\<close>; the accumulator is the current word.\<close>

function split_words :: "string list \<Rightarrow> string \<Rightarrow> string \<Rightarrow> string list" where
  "split_words ws acc [] = (if acc = [] then [] else [acc])"
| "split_words ws acc (c # cs) =
     (case find (\<lambda>w. w \<noteq> [] \<and> starts_with (c # cs) w) ws of
        Some w \<Rightarrow> (if acc = [] then [] else [acc]) @ split_words ws [] (drop (length w) (c # cs))
      | None \<Rightarrow> split_words ws (acc @ [c]) cs)"
  by pat_completeness auto
termination
proof (relation "measure (\<lambda>(ws, acc, s). length s)")
  fix ws c cs and w acc :: string
  assume "find (\<lambda>w. w \<noteq> [] \<and> starts_with (c # cs) w) ws = Some w"
  then have "w \<noteq> []" by (auto simp: find_Some_iff)
  then show "((ws, [], drop (length w) (c # cs)), ws, acc, c # cs) \<in> measure (\<lambda>(ws, acc, s). length s)"
    by (cases w) auto
qed auto

definition split_whitespace :: "string \<Rightarrow> string list" where
  "split_whitespace s = split_words ws_strings [] s"

text \<open>\<open>s.lines()\<close>: a carriage return belongs to the line break only before a line feed.\<close>

fun lines_from :: "string \<Rightarrow> string \<Rightarrow> string list" where
  "lines_from acc [] = (if acc = [] then [] else [acc])"
| "lines_from acc (c # cs) =
     (if c = CHR 0x0A
      then (if acc \<noteq> [] \<and> last acc = CHR 0x0D then butlast acc else acc) # lines_from [] cs
      else lines_from (acc @ [c]) cs)"

definition str_lines :: "string \<Rightarrow> string list" where
  "str_lines s = lines_from [] s"

section \<open>Decimal numbers\<close>

definition digit_val :: "char \<Rightarrow> nat option" where
  "digit_val c = (let n = of_char c in if 48 \<le> n \<and> n \<le> 57 then Some (n - 48) else None)"

fun digits_val :: "nat \<Rightarrow> string \<Rightarrow> nat option" where
  "digits_val acc [] = Some acc"
| "digits_val acc (c # cs) = (case digit_val c of None \<Rightarrow> None | Some d \<Rightarrow> digits_val (10 * acc + d) cs)"

text \<open>\<open>FromStr\<close> of an unsigned type: an optional plus sign, at least one digit, no overflow.\<close>

definition parse_uint :: "nat \<Rightarrow> string \<Rightarrow> nat option" where
  "parse_uint limit s =
     (let ds = (if starts_with s ''+'' then tl s else s) in
      if ds = [] then None
      else case digits_val 0 ds of None \<Rightarrow> None | Some n \<Rightarrow> if n < limit then Some n else None)"

definition digit_char :: "nat \<Rightarrow> char" where
  "digit_char d = char_of (48 + d)"

function (sequential) nat_str :: "nat \<Rightarrow> string" where
  "nat_str n = (if n < 10 then [digit_char n] else nat_str (n div 10) @ [digit_char (n mod 10)])"
  by pat_completeness auto
termination by (relation "measure id") auto

declare nat_str.simps [simp del]

definition int_str :: "int \<Rightarrow> string" where
  "int_str n = (if n < 0 then ''-'' @ nat_str (nat (- n)) else nat_str (nat n))"

lemma digit_val_char: "d < 10 \<Longrightarrow> digit_val (digit_char d) = Some d"
  by (simp add: digit_val_def digit_char_def Let_def)

lemma digits_val_append:
  "digits_val acc (xs @ ys) = (case digits_val acc xs of None \<Rightarrow> None | Some n \<Rightarrow> digits_val n ys)"
  by (induction acc xs rule: digits_val.induct) (auto split: option.split)

lemma digits_val_nat_str: "digits_val 0 (nat_str n) = Some n"
proof (induction n rule: nat_str.induct)
  case (1 n)
  then show ?case by (subst nat_str.simps) (auto simp: digits_val_append digit_val_char)
qed

lemma nat_str_not_Nil [simp]: "nat_str n \<noteq> []"
  by (subst nat_str.simps) simp

lemma digit_char_inj: "d < 10 \<Longrightarrow> of_char (digit_char d) = 48 + d"
  by (simp add: digit_char_def)

lemma nat_str_digits: "c \<in> set (nat_str n) \<Longrightarrow> \<exists>d < 10. c = digit_char d"
proof (induction n rule: nat_str.induct)
  case (1 n)
  show ?case
  proof (cases "n < 10")
    case True
    then show ?thesis using "1.prems" by (subst (asm) nat_str.simps) auto
  next
    case False
    then have "c \<in> set (nat_str (n div 10)) \<or> c = digit_char (n mod 10)" using "1.prems" by (subst (asm) nat_str.simps) auto
    then show ?thesis using "1.IH" [OF False] by (elim disjE) (auto intro: exI [of _ "n mod 10"])
  qed
qed

lemma parse_nat_str: "n < limit \<Longrightarrow> parse_uint limit (nat_str n) = Some n"
proof -
  assume "n < limit"
  have "hd (nat_str n) \<noteq> CHR ''+''"
  proof
    assume "hd (nat_str n) = CHR ''+''"
    then obtain d where "d < 10" "CHR ''+'' = digit_char d" using nat_str_digits hd_in_set by (metis nat_str_not_Nil)
    then have "of_char (CHR ''+'') = 48 + d" using digit_char_inj by simp
    then show False by simp
  qed
  then have "\<not> starts_with (nat_str n) ''+''" by (cases "nat_str n") (auto simp: starts_with_def)
  then show ?thesis using \<open>n < limit\<close> by (simp add: parse_uint_def digits_val_nat_str)
qed

text \<open>A string that neither begins nor ends with white space is not changed by trimming.\<close>

lemma strip_all_same: "find (\<lambda>w. w \<noteq> [] \<and> starts_with s w) ws = None \<Longrightarrow> strip_all ws s = s"
  by (subst strip_all.simps) simp

lemma strip_all_first:
  assumes "\<forall>w \<in> set ws. w \<noteq> [] \<longrightarrow> hd w \<noteq> hd s"
  shows "strip_all ws s = s"
proof (rule strip_all_same)
  have "\<not> (w \<noteq> [] \<and> starts_with s w)" if "w \<in> set ws" for w
    using assms that by (cases w; cases s) (auto simp: starts_with_def)
  then show "find (\<lambda>w. w \<noteq> [] \<and> starts_with s w) ws = None" by (simp add: find_None_iff)
qed

lemma byte_not_digit: "unat b < 48 \<or> 57 < unat b \<Longrightarrow> d < 10 \<Longrightarrow> byte_char b \<noteq> digit_char d"
proof
  assume b: "unat b < 48 \<or> 57 < unat b" "d < 10" "byte_char b = digit_char d"
  have "unat b < 256" using unsigned_less [of b] by simp
  then have "of_char (byte_char b) = unat b" by (simp add: byte_char_def)
  with b(3) digit_char_inj [OF b(2)] have "unat b = 48 + d" by simp
  with b(1,2) show False by simp
qed

lemma trim_ends:
  assumes "s \<noteq> []" "\<forall>w \<in> set ws_strings. hd w \<noteq> hd s \<and> last w \<noteq> last s"
  shows "str_trim s = s"
proof -
  have "strip_all ws_strings s = s" using assms by (intro strip_all_first) simp
  moreover have "strip_all (map rev ws_strings) (rev s) = rev s"
    using assms by (intro strip_all_first) (auto simp: hd_rev)
  ultimately show ?thesis by (simp add: str_trim_def)
qed

lemma trim_digits:
  assumes "\<And>c. c \<in> set s \<Longrightarrow> \<exists>d < 10. c = digit_char d" "s \<noteq> []"
  shows "str_trim s = s"
proof (rule trim_ends [OF assms(2)])
  have "\<forall>w \<in> set ws_strings. \<forall>d < 10. hd w \<noteq> digit_char d \<and> last w \<noteq> digit_char d"
    by (simp add: ws_strings_def utf8_ws_def byte_not_digit)
  then show "\<forall>w \<in> set ws_strings. hd w \<noteq> hd s \<and> last w \<noteq> last s"
    using assms(1) hd_in_set [OF assms(2)] last_in_set [OF assms(2)] by metis
qed

text \<open>Lower-case letters and digits are never part of white space.\<close>

definition plain :: "char \<Rightarrow> bool" where
  "plain c \<longleftrightarrow> 48 \<le> (of_char c :: nat) \<and> (of_char c :: nat) \<le> 122"

lemma byte_not_plain: "unat b < 48 \<or> 122 < unat b \<Longrightarrow> plain c \<Longrightarrow> byte_char b \<noteq> c"
proof
  assume b: "unat b < 48 \<or> 122 < unat b" "plain c" "byte_char b = c"
  have "unat b < 256" using unsigned_less [of b] by simp
  then have "of_char (byte_char b) = unat b" by (simp add: byte_char_def)
  with b show False by (auto simp: plain_def)
qed

lemma plain_not_ws: "plain c \<Longrightarrow> w \<in> set ws_strings \<Longrightarrow> w \<noteq> [] \<and> hd w \<noteq> c \<and> last w \<noteq> c"
proof -
  assume c: "plain c"
  have "\<forall>w \<in> set ws_strings. w \<noteq> [] \<and> hd w \<noteq> c \<and> last w \<noteq> c"
    by (simp add: ws_strings_def utf8_ws_def byte_not_plain [OF _ c])
  then show "w \<in> set ws_strings \<Longrightarrow> w \<noteq> [] \<and> hd w \<noteq> c \<and> last w \<noteq> c" by blast
qed

lemma nat_str_plain: "c \<in> set (nat_str n) \<Longrightarrow> plain c"
  using nat_str_digits [of c n] by (auto simp: plain_def digit_char_inj)

lemma split_words_plain: "\<forall>c \<in> set u. plain c \<Longrightarrow> split_words ws_strings acc (u @ s) = split_words ws_strings (acc @ u) s"
proof (induction u arbitrary: acc)
  case (Cons c u)
  have "\<not> (w \<noteq> [] \<and> starts_with (c # u @ s) w)" if "w \<in> set ws_strings" for w
    using plain_not_ws [OF _ that, of c] Cons.prems by (cases w) (auto simp: starts_with_def)
  then have "find (\<lambda>w. w \<noteq> [] \<and> starts_with (c # u @ s) w) ws_strings = None" by (simp add: find_None_iff)
  then show ?case using Cons by simp
qed simp

lemma split_words_space: "split_words ws_strings acc (CHR '' '' # s) = (if acc = [] then [] else [acc]) @ split_words ws_strings [] s"
proof -
  have "find (\<lambda>w. w \<noteq> [] \<and> starts_with (CHR '' '' # s) w) ws_strings = Some '' ''"
    by (simp add: ws_strings_def utf8_ws_def starts_with_def byte_char_def char_of_def bit_0)
  then show ?thesis by simp
qed

lemma split_whitespace_words:
  assumes "\<forall>c \<in> set (a @ b @ d). plain c" "a \<noteq> []" "b \<noteq> []" "d \<noteq> []"
  shows "split_whitespace (a @ '' '' @ b @ '' '' @ d) = [a, b, d]"
proof -
  have p: "\<forall>c \<in> set a. plain c" "\<forall>c \<in> set b. plain c" "\<forall>c \<in> set d. plain c" using assms(1) by auto
  have "split_words ws_strings [] d = [d]" using split_words_plain [OF p(3), of "[]" "[]"] assms(4) by simp
  then show ?thesis using p assms(2,3)
    by (simp add: split_whitespace_def split_words_plain split_words_space del: split_words.simps)
qed

lemma lines_from_append:
  assumes "CHR 0x0A \<notin> set u" "CHR 0x0D \<notin> set (acc @ u)"
  shows "lines_from acc (u @ CHR 0x0A # s) = (acc @ u) # lines_from [] s"
  using assms
proof (induction u arbitrary: acc)
  case Nil
  have "last acc \<noteq> CHR 0x0D" if "acc \<noteq> []" using last_in_set [OF that] Nil(2) by auto
  then show ?case by auto
qed auto

lemma str_lines_concat:
  "\<forall>l \<in> set ls. CHR 0x0A \<notin> set l \<and> CHR 0x0D \<notin> set l \<Longrightarrow> str_lines (concat (map (\<lambda>l. l @ [CHR 0x0A]) ls)) = ls"
  by (induction ls) (simp_all add: str_lines_def lines_from_append)

lemma split_once_digits:
  assumes "c \<notin> set a"
  shows "split_once c (a @ c # b) = Some (a, b)"
proof -
  have "takeWhile (\<lambda>x. x \<noteq> c) (a @ c # b) = a" "dropWhile (\<lambda>x. x \<noteq> c) (a @ c # b) = c # b"
    using assms by (induction a) auto
  then show ?thesis by (simp add: split_once_def)
qed

end
