(* ===== verification/Imfs_Main.thy ===== *)
theory Imfs_Main
  imports Imfs_Handlers Rust_Str
begin

unbundle bit_operations_syntax

text \<open>
  The start and the end of the in-memory file system (\<open>rust-grates/imfs-grate/src/main.rs\<close>): the
  command line, the table of handlers, the set-up of the first cage, and the copies between
  the host and the file system (\<open>PRELOADS\<close> before the first cage runs, \<open>DUMPS\<close> after the last one).
  The host is reached by calls to the runtime; what it answers is a parameter.  \<open>None\<close> is a panic
  or a loop that does not end.
\<close>

section \<open>Command line\<close>

record imfs_config =
  cfg_argv :: "string list"
  log_enabled :: bool

fun imfs_parse_from :: "string list \<Rightarrow> bool \<Rightarrow> imfs_config" where
  "imfs_parse_from [] lg = \<lparr>cfg_argv = [], log_enabled = lg\<rparr>"
| "imfs_parse_from (x # args) lg =
     (if x = ''--log'' then imfs_parse_from args True else \<lparr>cfg_argv = x # args, log_enabled = lg\<rparr>)"

definition imfs_parse_argv :: "string list \<Rightarrow> imfs_config" where
  "imfs_parse_argv args = imfs_parse_from args False"

section \<open>Handlers\<close>

definition IMFS_SYS_LINKAT :: nat where "IMFS_SYS_LINKAT = 265"

definition imfs_table :: "(nat \<times> 'ft imfs_handler) list" where
  "imfs_table =
     [(SYS_OPEN, imfs_open_handler), (SYS_OPENAT, imfs_openat_handler), (SYS_GETCWD, imfs_getcwd_handler),
      (SYS_ACCESS, imfs_access_handler), (SYS_FACCESSAT, imfs_faccessat_handler), (SYS_CLOSE, imfs_close_handler),
      (SYS_DUP, imfs_dup_handler), (SYS_DUP2, imfs_dup2_handler), (SYS_DUP3, imfs_dup3_handler),
      (SYS_PIPE, enosys_handler), (SYS_PIPE2, enosys_handler), (SYS_READ, imfs_read_handler), (SYS_WRITE, imfs_write_handler),
      (SYS_LSEEK, imfs_lseek_handler), (SYS_FCNTL, imfs_fcntl_handler), (SYS_GETDENTS, imfs_getdents_handler),
      (SYS_UNLINK, imfs_unlink_handler), (SYS_UNLINKAT, imfs_unlinkat_handler), (SYS_LINK, imfs_link_handler),
      (IMFS_SYS_LINKAT, imfs_linkat_handler), (SYS_RENAME, imfs_rename_handler), (SYS_RENAMEAT, imfs_renameat_handler),
      (SYS_RENAMEAT2, imfs_renameat2_handler), (SYS_MKNOD, imfs_mknod_handler), (SYS_SYMLINK, imfs_symlink_handler),
      (SYS_SYMLINKAT, imfs_symlinkat_handler), (SYS_READLINK, imfs_readlink_handler), (SYS_READLINKAT, imfs_readlinkat_handler),
      (SYS_PREAD, imfs_pread_handler), (SYS_PWRITE, imfs_pwrite_handler), (SYS_PREADV, imfs_preadv_handler),
      (SYS_PWRITEV, imfs_pwritev_handler), (SYS_MKDIR, imfs_mkdir_handler), (SYS_CLONE, imfs_fork_handler),
      (SYS_EXEC, imfs_exec_handler), (SYS_CHDIR, imfs_chdir_handler), (SYS_FSTAT, imfs_fstat_handler), (SYS_STAT, imfs_stat_handler),
      (SYS_LSTAT, imfs_lstat_handler), (SYS_NEWFSTATAT, imfs_fstatat_handler), (SYS_STATX, enosys_handler),
      (SYS_RMDIR, imfs_rmdir_handler), (SYS_CHMOD, imfs_chmod_handler), (SYS_FCHMODAT, imfs_fchmodat_handler),
      (SYS_CHOWN, imfs_chown_handler), (SYS_LCHOWN, imfs_lchown_handler), (SYS_FCHOWNAT, imfs_fchownat_handler),
      (SYS_TRUNCATE, imfs_truncate_handler), (SYS_FTRUNCATE, imfs_ftruncate_handler), (SYS_FCHDIR, imfs_fchdir_handler),
      (SYS_FCHMOD, imfs_fchmod_handler), (SYS_READV, imfs_readv_handler), (SYS_WRITEV, imfs_writev_handler),
      (SYS_FSYNC, imfs_fsync_handler), (SYS_FDATASYNC, imfs_fsync_handler), (SYS_STATFS, imfs_statfs_handler),
      (SYS_FSTATFS, imfs_fstatfs_handler), (SYS_SYNC_FILE_RANGE, sync_file_range_handler), (SYS_UTIMENSAT, imfs_utimensat_handler)]"

text \<open>The closure run before the first program of a cage: \<open>cageid as u64\<close>, and the three standard descriptors.\<close>

fun install_std :: "nat list \<Rightarrow> 'ft imfs_env \<Rightarrow> nat \<Rightarrow> 'ft imfs_world \<Rightarrow> 'ft imfs_world" where
  "install_std [] E cage w = w"
| "install_std (fd # fds) E cage w =
     (let w = (case get_specific_virtual_fd (me_fd E) (fdt w) cage fd IMFS_FDKIND 0 False 0 of Some ft \<Rightarrow> w\<lparr>fdt := ft\<rparr> | None \<Rightarrow> w)
      in install_std fds E cage (w\<lparr>imfs_of := insert_perfdinfo (imfs_of w) cage fd (scast O_RDWR)\<rparr>))"

definition imfs_preexec :: "'ft imfs_env \<Rightarrow> 'ft imfs_world \<Rightarrow> i32 \<Rightarrow> 'ft imfs_world" where
  "imfs_preexec E w cageid =
     (let cage = as_u64 (sint cageid);
          w = w\<lparr>imfs_of := (imfs_of w)\<lparr>cwd_info := (cwd_info (imfs_of w))(cage \<mapsto> ''/'')\<rparr>\<rparr>;
          w = w\<lparr>fdt := init_empty_cage (me_fd E) (fdt w) cage\<rparr>
      in install_std [0, 1, 2] E cage w)"

section \<open>Calls to the host\<close>

datatype host_error =
    InteriorNul | HostOpen int | HostRead int | HostClose int | HostWrite int | NoProgress
  | ImfsOpenFailed int | ImfsReadFailed int | ImfsCloseFailed int

definition raw_threei_syscall ::
  "'ft imfs_env \<Rightarrow> 'ft imfs_world \<Rightarrow> nat \<Rightarrow> sysarg list \<Rightarrow> nat list \<Rightarrow> int \<times> 'ft imfs_world" where
  "raw_threei_syscall E w nr args arg_cages =
     grate_call (me_g E) w \<lparr>callnumber = as_u32 nr, self_cageid = ge_cage (me_g E), target_cageid = ge_cage (me_g E),
       call_args = args, call_cages = arg_cages\<rparr>"

text \<open>The call itself, for the buffers it fills.\<close>

definition raw_call :: "'ft imfs_env \<Rightarrow> nat \<Rightarrow> sysarg list \<Rightarrow> nat list \<Rightarrow> threei_call" where
  "raw_call E nr args arg_cages =
     \<lparr>callnumber = as_u32 nr, self_cageid = ge_cage (me_g E), target_cageid = ge_cage (me_g E), call_args = args, call_cages = arg_cages\<rparr>"

text \<open>The cages of the arguments: \<open>this_cage\<close>, with the memory flag for buffers of the grate.\<close>

definition plain_cages :: "'ft imfs_env \<Rightarrow> nat list" where
  "plain_cages E = replicate 6 (ge_cage (me_g E))"

definition flagged :: "'ft imfs_env \<Rightarrow> nat list \<Rightarrow> nat list" where
  "flagged E idx = map (\<lambda>i. if i \<in> set idx then grate_memory (ge_cage (me_g E)) else ge_cage (me_g E)) [0..<6]"

definition close_host :: "'ft imfs_env \<Rightarrow> 'ft imfs_world \<Rightarrow> int \<Rightarrow> int \<times> 'ft imfs_world" where
  "close_host E w fd = raw_threei_syscall E w SYS_CLOSE [Num (as_u64 fd), Num 0, Num 0, Num 0, Num 0, Num 0] (plain_cages E)"

section \<open>Paths of the utilities\<close>

definition parse_preload_entry :: "string \<Rightarrow> (string \<times> string) option" where
  "parse_preload_entry entry =
     (case split_once (CHR ''='') entry of
        Some (imfs_path, host_path) \<Rightarrow> if imfs_path \<noteq> [] \<and> host_path \<noteq> [] then Some (imfs_path, host_path) else None
      | None \<Rightarrow> if entry \<noteq> [] then Some (entry, entry) else None)"

text \<open>The loop of the two functions that list parent directories.\<close>

fun parent_dirs_loop :: "string \<Rightarrow> string list \<Rightarrow> string list" where
  "parent_dirs_loop dir_path [] = []"
| "parent_dirs_loop dir_path (component # cs) =
     (let d = (if dir_path \<noteq> [] \<and> last dir_path \<noteq> slash then dir_path @ [slash] else dir_path) @ component
      in d # parent_dirs_loop d cs)"

definition imfs_parent_dirs :: "string \<Rightarrow> string list" where
  "imfs_parent_dirs path =
     (let components = filter (\<lambda>s. s \<noteq> []) (split_on slash path) in
      if length components \<le> 1 then []
      else parent_dirs_loop (if starts_with path ''/'' then ''/'' else []) (butlast components))"

section \<open>Preloads\<close>

definition init_utility_cage :: "'ft imfs_env \<Rightarrow> 'ft imfs_world \<Rightarrow> 'ft imfs_world" where
  "init_utility_cage E w = (if check_cage_exists (me_fd E) (fdt w) 0 then w else w\<lparr>fdt := init_empty_cage (me_fd E) (fdt w) 0\<rparr>)"

text \<open>The mode field of the returned \<open>stat\<close> is at offset 16.\<close>

definition preload_is_regular_file :: "'ft imfs_env \<Rightarrow> 'ft imfs_world \<Rightarrow> string \<Rightarrow> bool \<times> 'ft imfs_world" where
  "preload_is_regular_file E w path =
     (if nul \<in> set path then (False, w)
      else let args = [OwnStr path, OwnBuf (stat_bytes stat_default), Num 0, Num 0, Num 0, Num 0];
               st = ge_out (me_g E) (hist w) (raw_call E SYS_STAT args (flagged E [0, 1])) 1;
               (ret, w) = raw_threei_syscall E w SYS_STAT args (flagged E [0, 1])
           in (ret \<ge> 0 \<and> (word_of_nat (le_nat (take 4 (drop 16 st))) :: u32) AND S_IFMT = S_IFREG, w))"

definition PRELOAD_READ_CHUNK_SIZE :: nat where "PRELOAD_READ_CHUNK_SIZE = 4096"

partial_function (option) read_preload_loop ::
  "'ft imfs_env \<Rightarrow> 'ft imfs_world \<Rightarrow> int \<Rightarrow> byte list \<Rightarrow> byte list \<Rightarrow> ((host_error + byte list) \<times> 'ft imfs_world) option" where
  "read_preload_loop E w fd buf data =
     (let args = [Num (as_u64 fd), OwnBuf buf, Num PRELOAD_READ_CHUNK_SIZE, Num 0, Num 0, Num 0];
          out = ge_out (me_g E) (hist w) (raw_call E SYS_READ args (flagged E [1])) 1;
          (nread, w) = raw_threei_syscall E w SYS_READ args (flagged E [1])
      in if nread < 0 then Some (Inl (HostRead nread), snd (close_host E w fd))
         else if nread = 0 then Some (Inr data, w)
         else if nat nread > PRELOAD_READ_CHUNK_SIZE then None
         else read_preload_loop E w fd out (data @ take (nat nread) out))"

declare read_preload_loop.simps [code]

definition read_preload_file ::
  "'ft imfs_env \<Rightarrow> 'ft imfs_world \<Rightarrow> string \<Rightarrow> ((host_error + byte list) \<times> 'ft imfs_world) option" where
  "read_preload_file E w path =
     (if nul \<in> set path then Some (Inl InteriorNul, w)
      else let (fd, w) = raw_threei_syscall E w SYS_OPEN [OwnStr path, Num 0, Num 0, Num 0, Num 0, Num 0] (flagged E [0]) in
        if fd < 0 then Some (Inl (HostOpen fd), w)
        else do {
          (r, w) \<leftarrow> read_preload_loop E w fd (replicate PRELOAD_READ_CHUNK_SIZE 0) [];
          (case r of
             Inl e \<Rightarrow> Some (Inl e, w)
           | Inr data \<Rightarrow>
               (let (close_ret, w) = close_host E w fd in
                Some (if close_ret < 0 then Inl (HostClose close_ret) else Inr data, w))) })"

fun make_dirs :: "string list \<Rightarrow> 'ft imfs_world \<Rightarrow> 'ft imfs_world option" where
  "make_dirs [] w = Some w"
| "make_dirs (d # ds) w = do { (_, w) \<leftarrow> with_imfs w (\<lambda>s. imfs_mkdir s 0 d 0x1ED); make_dirs ds w }"

definition create_imfs_parent_dirs :: "'ft imfs_world \<Rightarrow> string \<Rightarrow> 'ft imfs_world option" where
  "create_imfs_parent_dirs w path = make_dirs (imfs_parent_dirs path) w"

definition store_preload :: "'ft imfs_env \<Rightarrow> 'ft imfs_world \<Rightarrow> string \<Rightarrow> byte list \<Rightarrow> 'ft imfs_world option" where
  "store_preload E w imfs_path data = do {
     w \<leftarrow> create_imfs_parent_dirs w imfs_path;
     (fd, w) \<leftarrow> with_tables w (\<lambda>ft s. imfs_open (me_fd E) ft s 0 imfs_path (O_CREAT OR O_WRONLY OR O_TRUNC) 0x1FF);
     if fd \<ge> 0 then do {
       (_, w) \<leftarrow> with_imfs w (\<lambda>s. imfs_write (me_fd E) (fdt w) s 0 (as_u64 fd) data);
       (_, w) \<leftarrow> with_tables w (\<lambda>ft s. imfs_close (me_fd E) ft s 0 (as_u64 fd));
       Some w }
     else Some w }"

definition load_preload :: "'ft imfs_env \<Rightarrow> 'ft imfs_world \<Rightarrow> string \<Rightarrow> 'ft imfs_world option" where
  "load_preload E w entry =
     (case parse_preload_entry entry of
        None \<Rightarrow> Some w
      | Some (imfs_path, host_path) \<Rightarrow>
          (case preload_is_regular_file E w host_path of
             (False, w) \<Rightarrow> Some w
           | (True, w) \<Rightarrow> do {
               (r, w) \<leftarrow> read_preload_file E w host_path;
               (case r of Inl _ \<Rightarrow> Some w | Inr data \<Rightarrow> store_preload E w imfs_path data) }))"

fun load_entries :: "'ft imfs_env \<Rightarrow> 'ft imfs_world \<Rightarrow> string list \<Rightarrow> 'ft imfs_world option" where
  "load_entries E w [] = Some w"
| "load_entries E w (entry # es) = do { w \<leftarrow> load_preload E w entry; load_entries E w es }"

definition load_preloads :: "'ft imfs_env \<Rightarrow> 'ft imfs_world \<Rightarrow> string \<Rightarrow> 'ft imfs_world option" where
  "load_preloads E w preloads = load_entries E (init_utility_cage E w) (split_on (CHR '':'') preloads)"

section \<open>Dumps\<close>

definition mkdir_host :: "'ft imfs_env \<Rightarrow> 'ft imfs_world \<Rightarrow> string \<Rightarrow> (host_error + unit) \<times> 'ft imfs_world" where
  "mkdir_host E w path =
     (if nul \<in> set path then (Inl InteriorNul, w)
      else (Inr (), snd (raw_threei_syscall E w SYS_MKDIR [OwnStr path, Num 0x1ED, Num 0, Num 0, Num 0, Num 0] (flagged E [0]))))"

fun mkdirs_host :: "'ft imfs_env \<Rightarrow> 'ft imfs_world \<Rightarrow> string list \<Rightarrow> (host_error + unit) \<times> 'ft imfs_world" where
  "mkdirs_host E w [] = (Inr (), w)"
| "mkdirs_host E w (d # ds) = (case mkdir_host E w d of (Inl e, w) \<Rightarrow> (Inl e, w) | (Inr _, w) \<Rightarrow> mkdirs_host E w ds)"

definition create_host_parent_dirs :: "'ft imfs_env \<Rightarrow> 'ft imfs_world \<Rightarrow> string \<Rightarrow> (host_error + unit) \<times> 'ft imfs_world" where
  "create_host_parent_dirs E w path =
     (let components = filter (\<lambda>s. s \<noteq> []) (split_on slash path) in
      if length components \<le> 1 then (Inr (), w)
      else mkdirs_host E w (parent_dirs_loop (if starts_with path ''/'' then ''/'' else []) (butlast components)))"

text \<open>A result larger than the data would slice out of range.\<close>

function write_host_all ::
  "'ft imfs_env \<Rightarrow> 'ft imfs_world \<Rightarrow> int \<Rightarrow> byte list \<Rightarrow> ((host_error + unit) \<times> 'ft imfs_world) option" where
  "write_host_all E w fd data =
     (if data = [] then Some (Inr (), w)
      else case raw_threei_syscall E w SYS_WRITE [Num (as_u64 fd), OwnBuf data, Num (length data), Num 0, Num 0, Num 0] (flagged E [1]) of
        (nwritten, w) \<Rightarrow>
          if nwritten < 0 then Some (Inl (HostWrite nwritten), w)
          else if nwritten = 0 then Some (Inl NoProgress, w)
          else if nat nwritten > length data then None
          else write_host_all E w fd (drop (nat nwritten) data))"
  by pat_completeness auto
termination
  by (relation "measure (\<lambda>(E, w, fd, data). length data)") auto

declare write_host_all.simps [simp del]

definition DUMP_WRITE_CHUNK_SIZE :: nat where "DUMP_WRITE_CHUNK_SIZE = 1024"

text \<open>An error of the host leaves the loop at once, without closing the descriptor of the file system.\<close>

partial_function (option) dump_loop ::
  "'ft imfs_env \<Rightarrow> 'ft imfs_world \<Rightarrow> int \<Rightarrow> int \<Rightarrow> byte list \<Rightarrow> ((host_error + unit) \<times> 'ft imfs_world) option" where
  "dump_loop E w host_fd imfs_fd buf =
     Option.bind (with_imfs w (\<lambda>s. map_option (\<lambda>(r, b, s). ((r, b), s)) (imfs_read (me_fd E) (fdt w) s 0 (as_u64 imfs_fd) buf)))
       (\<lambda>((nread, buf), w).
          if nread < 0 then map_option (\<lambda>(_, w). (Inl (ImfsReadFailed nread), w)) (with_tables w (\<lambda>ft s. imfs_close (me_fd E) ft s 0 (as_u64 imfs_fd)))
          else if nread = 0 then
            map_option (\<lambda>(r, w). (if r < 0 then Inl (ImfsCloseFailed r) else Inr (), w))
              (with_tables w (\<lambda>ft s. imfs_close (me_fd E) ft s 0 (as_u64 imfs_fd)))
          else Option.bind (write_host_all E w host_fd (take (nat nread) buf))
            (\<lambda>(r, w). case r of Inl e \<Rightarrow> Some (Inl e, w) | Inr _ \<Rightarrow> dump_loop E w host_fd imfs_fd buf))"

declare dump_loop.simps [code]

definition dump_body :: "'ft imfs_env \<Rightarrow> 'ft imfs_world \<Rightarrow> int \<Rightarrow> string \<Rightarrow> ((host_error + unit) \<times> 'ft imfs_world) option" where
  "dump_body E w host_fd imfs_path = do {
     (imfs_fd, w) \<leftarrow> with_tables w (\<lambda>ft s. imfs_open (me_fd E) ft s 0 imfs_path O_RDONLY 0);
     if imfs_fd < 0 then Some (Inl (ImfsOpenFailed imfs_fd), w)
     else dump_loop E w host_fd imfs_fd (replicate DUMP_WRITE_CHUNK_SIZE 0) }"

definition dump_file ::
  "'ft imfs_env \<Rightarrow> 'ft imfs_world \<Rightarrow> string \<Rightarrow> string \<Rightarrow> ((host_error + unit) \<times> 'ft imfs_world) option" where
  "dump_file E w imfs_path actual_path =
     (case create_host_parent_dirs E w actual_path of
        (Inl e, w) \<Rightarrow> Some (Inl e, w)
      | (Inr _, w) \<Rightarrow>
          if nul \<in> set actual_path then Some (Inl InteriorNul, w)
          else let (host_fd, w) = raw_threei_syscall E w SYS_OPEN
                     [OwnStr actual_path, Num (unat (O_CREAT OR O_WRONLY OR O_TRUNC)), Num 0x1FF, Num 0, Num 0, Num 0] (flagged E [0]) in
            if host_fd < 0 then Some (Inl (HostOpen host_fd), w)
            else do {
              (dump_result, w) \<leftarrow> dump_body E w host_fd imfs_path;
              (let (close_ret, w) = close_host E w host_fd in
               Some (if close_ret < 0 then Inl (HostClose close_ret) else dump_result, w)) })"

definition parse_dump_entry :: "string \<Rightarrow> (string \<times> string) option" where
  "parse_dump_entry entry0 =
     (let entry = dropWhile (\<lambda>c. c = CHR '' '' \<or> c = CHR 0x09) entry0 in
      if entry = [] then None
      else let (imfs_path, actual_path) = (case split_once (CHR ''='') entry of Some p \<Rightarrow> p | None \<Rightarrow> (entry, entry)) in
        if imfs_path = [] \<or> actual_path = [] then None else Some (imfs_path, actual_path))"

fun dump_entries :: "'ft imfs_env \<Rightarrow> 'ft imfs_world \<Rightarrow> string list \<Rightarrow> 'ft imfs_world option" where
  "dump_entries E w [] = Some w"
| "dump_entries E w (entry # es) =
     (case parse_dump_entry entry of
        None \<Rightarrow> dump_entries E w es
      | Some (imfs_path, actual_path) \<Rightarrow> do { (_, w) \<leftarrow> dump_file E w imfs_path actual_path; dump_entries E w es })"

definition dump_outputs :: "'ft imfs_env \<Rightarrow> 'ft imfs_world \<Rightarrow> string \<Rightarrow> 'ft imfs_world option" where
  "dump_outputs E w dumps =
     (if dumps = [] then Some w else dump_entries E (init_utility_cage E w) (split_on (CHR '';'') dumps))"

section \<open>Start and teardown\<close>

text \<open>\<open>main\<close> up to the run of the grate.  The mode of the directory is the decimal number 0755.\<close>

definition imfs_main_start :: "'ft imfs_env \<Rightarrow> 'ft \<Rightarrow> string option \<Rightarrow> 'ft imfs_world option" where
  "imfs_main_start E ft preloads = do {
     s \<leftarrow> imfs_init;
     let w = \<lparr>fdt = ft, hist = [], imfs_of = s\<rparr>;
     w \<leftarrow> (case preloads of Some p \<Rightarrow> load_preloads E w p | None \<Rightarrow> Some w);
     (_, w) \<leftarrow> with_imfs w (\<lambda>s. imfs_mkdir s 0 ''/tmp'' 755);
     Some w }"

definition imfs_teardown :: "'ft imfs_env \<Rightarrow> 'ft imfs_world \<Rightarrow> string option \<Rightarrow> 'ft imfs_world option" where
  "imfs_teardown E w dump_files = (case dump_files of Some dumps \<Rightarrow> dump_outputs E w dumps | None \<Rightarrow> Some w)"

end
