(* ===== verification/Imfs_Handler_Props.thy ===== *)
theory Imfs_Handler_Props
  imports Imfs_Spec Imfs_Main
begin

unbundle bit_operations_syntax

text \<open>
  What the handlers of the in-memory file system do as a whole.  Every handler, the set-up of a cage
  and the copies from and to the host act on the file system only by its public operations, so
  the states of a running grate are reachable in the sense of the file system and keep its
  invariant.
\<close>

section \<open>Handlers as sequences of operations\<close>

definition fs_steps :: "'ft imfs_env \<Rightarrow> 'ft imfs_world \<Rightarrow> 'ft imfs_world \<Rightarrow> bool" where
  "fs_steps E w w' \<longleftrightarrow> (imfs_step (me_fd E))\<^sup>*\<^sup>* (imfs_of w, fdt w) (imfs_of w', fdt w')"

named_theorems steps_intro \<open>operations of a handler as steps of the file system\<close>

lemma fs_steps_refl [simp, intro]: "fs_steps E w w"
  by (simp add: fs_steps_def)

lemma fs_steps_trans: "fs_steps E w w' \<Longrightarrow> fs_steps E w' w'' \<Longrightarrow> fs_steps E w w''"
  unfolding fs_steps_def by (rule rtranclp_trans)

lemma fs_steps_one: "imfs_step (me_fd E) (imfs_of w, fdt w) (imfs_of w', fdt w') \<Longrightarrow> fs_steps E w w'"
  by (simp add: fs_steps_def)

lemma fs_steps_log [simp]: "fs_steps E w (log_event e w') \<longleftrightarrow> fs_steps E w w'"
  by (simp add: fs_steps_def log_event_def)

lemma fs_steps_copy [simp]: "fs_steps E w (snd (copy_to_cage E w' cage ptr bs)) \<longleftrightarrow> fs_steps E w w'"
  by (simp add: copy_to_cage_def)

lemma copy_to_cage_steps: "copy_to_cage E w cage ptr bs = (b, w') \<Longrightarrow> fs_steps E w w'"
  by (auto simp: copy_to_cage_def split: if_splits)

lemma with_pathD:
  "with_path E w ptr cage k = Some (r, w') \<Longrightarrow> (\<And>p r' w''. k p = Some (r', w'') \<Longrightarrow> fs_steps E w w'') \<Longrightarrow> fs_steps E w w'"
  by (auto simp: with_path_def split: option.splits)

lemma with_imfsD:
  "with_imfs w f = Some (r, w') \<Longrightarrow> (\<And>r' s'. f (imfs_of w) = Some (r', s') \<Longrightarrow> imfs_step (me_fd E) (imfs_of w, fdt w) (s', fdt w)) \<Longrightarrow>
   fs_steps E w w'"
  by (auto simp: with_imfs_def intro!: fs_steps_one)

lemma with_tablesD:
  "with_tables w f = Some (r, w') \<Longrightarrow>
   (\<And>r' s' ft'. f (fdt w) (imfs_of w) = Some (r', s', ft') \<Longrightarrow> imfs_step (me_fd E) (imfs_of w, fdt w) (s', ft')) \<Longrightarrow> fs_steps E w w'"
  by (auto simp: with_tables_def intro!: fs_steps_one)

lemma path_imfs_steps:
  assumes "with_path E w ptr cage (\<lambda>p. with_imfs w (f p)) = Some (r, w')"
    "\<And>p r' s'. f p (imfs_of w) = Some (r', s') \<Longrightarrow> imfs_step (me_fd E) (imfs_of w, fdt w) (s', fdt w)"
  shows "fs_steps E w w'"
  using assms(1) by (rule with_pathD) (erule with_imfsD, erule assms(2))

lemma paths_imfs_steps:
  assumes "with_path E w ptr cage (\<lambda>p. with_path E w ptr' cage' (\<lambda>q. with_imfs w (f p q))) = Some (r, w')"
    "\<And>p q r' s'. f p q (imfs_of w) = Some (r', s') \<Longrightarrow> imfs_step (me_fd E) (imfs_of w, fdt w) (s', fdt w)"
  shows "fs_steps E w w'"
  using assms(1) by (rule with_pathD) (erule path_imfs_steps, erule assms(2))

lemma path_tables_steps:
  assumes "with_path E w ptr cage (\<lambda>p. with_tables w (f p)) = Some (r, w')"
    "\<And>p r' s' ft'. f p (fdt w) (imfs_of w) = Some (r', s', ft') \<Longrightarrow> imfs_step (me_fd E) (imfs_of w, fdt w) (s', ft')"
  shows "fs_steps E w w'"
  using assms(1) by (rule with_pathD) (erule with_tablesD, erule assms(2))

lemmas steps_frame = path_imfs_steps paths_imfs_steps path_tables_steps with_imfsD with_tablesD

lemma path_op_handlers:
  "imfs_open_handler E w a g = Some (r, w') \<Longrightarrow> fs_steps E w w'"
  "imfs_openat_handler E w a g = Some (r, w') \<Longrightarrow> fs_steps E w w'"
  "imfs_chmod_handler E w a g = Some (r, w') \<Longrightarrow> fs_steps E w w'"
  "imfs_chown_handler E w a g = Some (r, w') \<Longrightarrow> fs_steps E w w'"
  "imfs_lchown_handler E w a g = Some (r, w') \<Longrightarrow> fs_steps E w w'"
  "imfs_truncate_handler E w a g = Some (r, w') \<Longrightarrow> fs_steps E w w'"
  "imfs_unlink_handler E w a g = Some (r, w') \<Longrightarrow> fs_steps E w w'"
  "imfs_unlinkat_handler E w a g = Some (r, w') \<Longrightarrow> fs_steps E w w'"
  "imfs_chdir_handler E w a g = Some (r, w') \<Longrightarrow> fs_steps E w w'"
  "imfs_rmdir_handler E w a g = Some (r, w') \<Longrightarrow> fs_steps E w w'"
  "imfs_mkdir_handler E w a g = Some (r, w') \<Longrightarrow> fs_steps E w w'"
  "imfs_mknod_handler E w a g = Some (r, w') \<Longrightarrow> fs_steps E w w'"
  "imfs_link_handler E w a g = Some (r, w') \<Longrightarrow> fs_steps E w w'"
  "imfs_linkat_handler E w a g = Some (r, w') \<Longrightarrow> fs_steps E w w'"
  "imfs_symlink_handler E w a g = Some (r, w') \<Longrightarrow> fs_steps E w w'"
  "imfs_symlinkat_handler E w a g = Some (r, w') \<Longrightarrow> fs_steps E w w'"
  "imfs_rename_handler E w a g = Some (r, w') \<Longrightarrow> fs_steps E w w'"
  "renameat_impl E w i1 i2 i3 i4 i5 i6 i7 = Some (r, w') \<Longrightarrow> fs_steps E w w'"
  by (unfold imfs_open_handler_def imfs_openat_handler_def imfs_chmod_handler_def imfs_chown_handler_def imfs_lchown_handler_def
      imfs_truncate_handler_def imfs_unlink_handler_def imfs_unlinkat_handler_def imfs_chdir_handler_def imfs_rmdir_handler_def
      imfs_mkdir_handler_def imfs_mknod_handler_def imfs_link_handler_def imfs_linkat_handler_def imfs_symlink_handler_def
      imfs_symlinkat_handler_def imfs_rename_handler_def renameat_impl_def, (erule steps_frame, erule imfs_step.intros)+)

lemma fd_op_handlers:
  "imfs_close_handler E w a g = Some (r, w') \<Longrightarrow> fs_steps E w w'"
  "imfs_dup_handler E w a g = Some (r, w') \<Longrightarrow> fs_steps E w w'"
  "imfs_dup2_handler E w a g = Some (r, w') \<Longrightarrow> fs_steps E w w'"
  "imfs_lseek_handler E w a g = Some (r, w') \<Longrightarrow> fs_steps E w w'"
  "imfs_fcntl_handler E w a g = Some (r, w') \<Longrightarrow> fs_steps E w w'"
  "imfs_ftruncate_handler E w a g = Some (r, w') \<Longrightarrow> fs_steps E w w'"
  "imfs_fchmod_handler E w a g = Some (r, w') \<Longrightarrow> fs_steps E w w'"
  "imfs_fchdir_handler E w a g = Some (r, w') \<Longrightarrow> fs_steps E w w'"
  by (unfold imfs_close_handler_def imfs_dup_handler_def imfs_dup2_handler_def imfs_lseek_handler_def imfs_fcntl_handler_def
      imfs_ftruncate_handler_def imfs_fchmod_handler_def imfs_fchdir_handler_def, (erule steps_frame, erule imfs_step.intros)+)

lemma guarded_handlers:
  "imfs_dup3_handler E w a g = Some (r, w') \<Longrightarrow> fs_steps E w w'"
  "imfs_fchmodat_handler E w a g = Some (r, w') \<Longrightarrow> fs_steps E w w'"
  "imfs_fchownat_handler E w a g = Some (r, w') \<Longrightarrow> fs_steps E w w'"
  "imfs_renameat_handler E w a g = Some (r, w') \<Longrightarrow> fs_steps E w w'"
  "imfs_renameat2_handler E w a g = Some (r, w') \<Longrightarrow> fs_steps E w w'"
  "imfs_utimensat_handler E w a g = Some (r, w') \<Longrightarrow> fs_steps E w w'"
  by (auto simp: imfs_dup3_handler_def imfs_fchmodat_handler_def imfs_fchownat_handler_def imfs_renameat_handler_def
      imfs_renameat2_handler_def imfs_utimensat_handler_def Let_def split: if_splits
      elim!: path_op_handlers path_imfs_steps with_tablesD with_imfsD intro: imfs_step.intros)

text \<open>Handlers that only look.\<close>

lemma query_handlers:
  "enosys_handler E w a g = Some (r, w') \<Longrightarrow> fs_steps E w w'"
  "imfs_fsync_handler E w a g = Some (r, w') \<Longrightarrow> fs_steps E w w'"
  "sync_file_range_handler E w a g = Some (r, w') \<Longrightarrow> fs_steps E w w'"
  "imfs_getcwd_handler E w a g = Some (r, w') \<Longrightarrow> fs_steps E w w'"
  "imfs_access_handler E w a g = Some (r, w') \<Longrightarrow> fs_steps E w w'"
  "imfs_faccessat_handler E w a g = Some (r, w') \<Longrightarrow> fs_steps E w w'"
  by (auto simp: enosys_handler_def imfs_fsync_handler_def sync_file_range_handler_def imfs_getcwd_handler_def
      imfs_access_handler_def imfs_faccessat_handler_def with_path_def Let_def
      split: if_splits option.splits sum.splits prod.splits bool.splits dest: copy_to_cage_steps)

lemma finish_stat_steps: "fs_steps E w w' \<Longrightarrow> finish_stat E w' cage ptr ret bs = (r, w'') \<Longrightarrow> fs_steps E w w''"
  by (auto simp: finish_stat_def split: if_splits)

lemma stat_handlers:
  "imfs_stat_handler E w a g = Some (r, w') \<Longrightarrow> fs_steps E w w'"
  "imfs_lstat_handler E w a g = Some (r, w') \<Longrightarrow> fs_steps E w w'"
  "imfs_fstat_handler E w a g = Some (r, w') \<Longrightarrow> fs_steps E w w'"
  "imfs_statfs_handler E w a g = Some (r, w') \<Longrightarrow> fs_steps E w w'"
  "imfs_fstatfs_handler E w a g = Some (r, w') \<Longrightarrow> fs_steps E w w'"
  by (auto simp: imfs_stat_handler_def imfs_lstat_handler_def imfs_fstat_handler_def imfs_statfs_handler_def imfs_fstatfs_handler_def
      with_path_def split: if_splits option.splits intro: finish_stat_steps [OF fs_steps_refl])

text \<open>Operations that fill a buffer, followed by a copy.\<close>

lemma with_buf_steps:
  assumes "with_imfs w (\<lambda>s. map_option (\<lambda>(r, b, s). ((r, b), s)) (f s)) = Some (rb, w')"
    "\<And>r' b' s'. f (imfs_of w) = Some (r', b', s') \<Longrightarrow> imfs_step (me_fd E) (imfs_of w, fdt w) (s', fdt w)"
  shows "fs_steps E w w'"
  using assms by (auto simp: with_imfs_def intro!: fs_steps_one)

lemma buffer_handlers:
  "imfs_read_handler E w a g = Some (r, w') \<Longrightarrow> fs_steps E w w'"
  "imfs_pread_handler E w a g = Some (r, w') \<Longrightarrow> fs_steps E w w'"
  "imfs_getdents_handler E w a g = Some (r, w') \<Longrightarrow> fs_steps E w w'"
  by (auto simp: imfs_read_handler_def imfs_pread_handler_def imfs_getdents_handler_def bind_eq_Some_conv
      intro: imfs_step.intros elim!: with_buf_steps)

lemma write_handlers:
  "imfs_write_handler E w a g = Some (r, w') \<Longrightarrow> fs_steps E w w'"
  "imfs_pwrite_handler E w a g = Some (r, w') \<Longrightarrow> fs_steps E w w'"
  by (auto simp: imfs_write_handler_def imfs_pwrite_handler_def bind_eq_Some_conv Let_def libc_write_def split: if_splits
      intro: imfs_step.intros elim!: with_imfsD)

lemma imfs_fstatat_steps: "imfs_fstatat_handler E w a g = Some (r, w') \<Longrightarrow> fs_steps E w w'"
  by (auto simp: imfs_fstatat_handler_def bind_eq_Some_conv split: if_splits
      intro: imfs_step.intros elim!: finish_stat_steps [OF with_buf_steps] with_pathD)

lemma copy_readlink_steps: "fs_steps E w w' \<Longrightarrow> copy_readlink_target_to_cage E w' t p c n = (r, w'') \<Longrightarrow> fs_steps E w w''"
  by (auto simp: copy_readlink_target_to_cage_def Let_def split: if_splits prod.splits bool.splits
      intro: fs_steps_trans dest: copy_to_cage_steps)

lemma readlink_end:
  assumes "with_imfs w f = Some (x, w1)" "(case x of Inl e \<Rightarrow> (e, w1) | Inr t \<Rightarrow> copy_readlink_target_to_cage E w1 t p c n) = (r, w')"
    "\<And>r' s'. f (imfs_of w) = Some (r', s') \<Longrightarrow> imfs_step (me_fd E) (imfs_of w, fdt w) (s', fdt w)"
  shows "fs_steps E w w'"
proof -
  have "fs_steps E w w1" using assms(1,3) by (rule with_imfsD)
  then show ?thesis using assms(2) by (auto split: sum.splits intro: copy_readlink_steps)
qed

lemma readlink_handlers:
  "imfs_readlink_handler E w a g = Some (r, w') \<Longrightarrow> fs_steps E w w'"
  "imfs_readlinkat_handler E w a g = Some (r, w') \<Longrightarrow> fs_steps E w w'"
  by (auto simp: imfs_readlink_handler_def imfs_readlinkat_handler_def bind_eq_Some_conv
      intro: imfs_step.intros elim!: readlink_end with_pathD)

lemma scatter_steps: "scatter E w cage iovs rest = (x, w') \<Longrightarrow> fs_steps E w w'"
  by (induction E w cage iovs rest arbitrary: x w' rule: scatter.induct)
    (auto simp: Let_def split: if_splits prod.splits bool.splits intro: fs_steps_trans dest: copy_to_cage_steps)

lemma finish_readv_steps: "fs_steps E w w' \<Longrightarrow> finish_readv E w' cage iovs ret buf = (r, w'') \<Longrightarrow> fs_steps E w w''"
  by (auto simp: finish_readv_def split: if_splits prod.splits option.splits intro: fs_steps_trans dest: scatter_steps)

lemma libc_read_steps:
  "libc_read E w fd n = (r, b, w') \<Longrightarrow> fs_steps E w w'"
  "libc_pread E w fd n off = (r, b, w') \<Longrightarrow> fs_steps E w w'"
  by (auto simp: libc_read_def libc_pread_def split: prod.splits)

lemma vector_handlers:
  "imfs_readv_handler E w a g = Some (r, w') \<Longrightarrow> fs_steps E w w'"
  "imfs_preadv_handler E w a g = Some (r, w') \<Longrightarrow> fs_steps E w w'"
  "imfs_writev_handler E w a g = Some (r, w') \<Longrightarrow> fs_steps E w w'"
  "imfs_pwritev_handler E w a g = Some (r, w') \<Longrightarrow> fs_steps E w w'"
  by (auto simp: imfs_readv_handler_def imfs_preadv_handler_def imfs_writev_handler_def imfs_pwritev_handler_def bind_eq_Some_conv
      Let_def libc_write_def libc_pwrite_def split: sum.splits prod.split_asm if_splits
      intro: imfs_step.intros elim!: finish_readv_steps [OF with_buf_steps] with_imfsD
      dest: finish_readv_steps [OF libc_read_steps(1)] finish_readv_steps [OF libc_read_steps(2)])

lemma fs_steps_fork: "fs_steps E w (w\<lparr>fdt := ft, imfs_of := imfs_fork (imfs_of w) p c\<rparr>)"
proof (rule fs_steps_trans)
  show "fs_steps E w (w\<lparr>fdt := ft\<rparr>)" by (rule fs_steps_one) (simp add: sys_tables)
  show "fs_steps E (w\<lparr>fdt := ft\<rparr>) (w\<lparr>fdt := ft, imfs_of := imfs_fork (imfs_of w) p c\<rparr>)" by (rule fs_steps_one) (simp add: sys_fork)
qed

lemma imfs_forward_frame:
  "imfs_forward E w nr a g = (x, w') \<Longrightarrow> imfs_of w' = imfs_of w \<and> fdt w' = fdt w"
  by (auto simp: imfs_forward_def Let_def log_event_def)

lemma fork_exec_handlers:
  "imfs_fork_handler E w a g = Some (r, w') \<Longrightarrow> fs_steps E w w'"
  "imfs_exec_handler E w a g = Some (r, w') \<Longrightarrow> fs_steps E w w'"
proof -
  assume "imfs_fork_handler E w a g = Some (r, w')"
  then obtain x w1 where f: "imfs_forward E w SYS_CLONE a g = (x, w1)"
    and w': "w' = w1 \<or> (\<exists>ft c. w' = w1\<lparr>fdt := ft, imfs_of := imfs_fork (imfs_of w1) (g ! 0) c\<rparr>)"
    by (auto simp: imfs_fork_handler_def Let_def split: prod.splits sum.splits if_splits option.splits)
      (metis imfs_world.surjective imfs_world.update_convs(1) grate_world.update_convs(1))+
  have "fs_steps E w w1" using imfs_forward_frame [OF f] by (simp add: fs_steps_def)
  moreover have "fs_steps E w1 w'" using w' fs_steps_fork by auto
  ultimately show "fs_steps E w w'" by (rule fs_steps_trans)
next
  assume "imfs_exec_handler E w a g = Some (r, w')"
  then have "imfs_of w' = imfs_of w"
    by (auto simp: imfs_exec_handler_def Let_def split: prod.splits sum.splits dest: imfs_forward_frame)
  then show "fs_steps E w w'" by (simp add: fs_steps_one sys_tables)
qed

lemmas handler_steps = path_op_handlers fd_op_handlers guarded_handlers query_handlers stat_handlers buffer_handlers
  write_handlers imfs_fstatat_steps readlink_handlers vector_handlers fork_exec_handlers

lemma table_steps: "(nr, h) \<in> set imfs_table \<Longrightarrow> h E w a g = Some (r, w') \<Longrightarrow> fs_steps E w w'"
  unfolding imfs_table_def by (auto intro: handler_steps)

section \<open>Start and end of the grate\<close>

lemma raw_threei_eq [simp]:
  "raw_threei_syscall E w nr args cs = (ge_sys (me_g E) (hist w) (raw_call E nr args cs), log_event (Threei (raw_call E nr args cs)) w)"
  by (simp add: raw_threei_syscall_def raw_call_def)

lemma fs_steps_log_from [simp]: "fs_steps E (log_event e w) w' \<longleftrightarrow> fs_steps E w w'"
  by (simp add: fs_steps_def log_event_def)

lemma close_host_eq [simp]:
  "close_host E w fd = (let c = raw_call E SYS_CLOSE [Num (as_u64 fd), Num 0, Num 0, Num 0, Num 0, Num 0] (plain_cages E)
     in (ge_sys (me_g E) (hist w) c, log_event (Threei c) w))"
  by (simp add: close_host_def Let_def)

lemma install_std_steps: "fs_steps E w (install_std fds E cage w)"
proof (induction fds E cage w rule: install_std.induct)
  case (2 fd fds E cage w)
  define w1 where "w1 = (case get_specific_virtual_fd (me_fd E) (fdt w) cage fd IMFS_FDKIND 0 False 0 of Some ft \<Rightarrow> w\<lparr>fdt := ft\<rparr> | None \<Rightarrow> w)"
  have "imfs_of w1 = imfs_of w" by (simp add: w1_def split: option.split)
  then have "fs_steps E w w1" by (simp add: fs_steps_one sys_tables)
  moreover have "fs_steps E w1 (w1\<lparr>imfs_of := insert_perfdinfo (imfs_of w1) cage fd (scast O_RDWR)\<rparr>)"
    by (rule fs_steps_one) (simp add: sys_perfdinfo)
  ultimately show ?case using 2 by (simp add: w1_def [symmetric]) (meson fs_steps_trans)
qed simp

lemma imfs_preexec_steps: "fs_steps E w (imfs_preexec E w cageid)"
proof -
  let ?c = "as_u64 (sint cageid)"
  let ?w1 = "w\<lparr>imfs_of := (imfs_of w)\<lparr>cwd_info := (cwd_info (imfs_of w))(?c \<mapsto> ''/'')\<rparr>\<rparr>"
  let ?w2 = "?w1\<lparr>fdt := init_empty_cage (me_fd E) (fdt ?w1) ?c\<rparr>"
  have "fs_steps E w ?w1" by (rule fs_steps_one) (simp add: sys_cwd)
  moreover have "fs_steps E ?w1 ?w2" by (rule fs_steps_one) (simp add: sys_tables)
  ultimately show ?thesis unfolding imfs_preexec_def Let_def by (meson fs_steps_trans install_std_steps)
qed

lemma init_utility_steps: "fs_steps E w (init_utility_cage E w)"
  by (auto simp: init_utility_cage_def intro!: fs_steps_one sys_tables)

lemma preload_stat_steps: "preload_is_regular_file E w p = (b, w') \<Longrightarrow> fs_steps E w w'"
  by (auto simp: preload_is_regular_file_def Let_def split: if_splits)

lemma read_preload_loop_steps: "read_preload_loop E w fd buf data = Some (x, w') \<Longrightarrow> fs_steps E w w'"
proof (drule read_preload_loop.raw_induct [of "\<lambda>E w fd buf data y. fs_steps E w (snd y)", rotated], goal_cases)
  case (1 f E w fd buf data y)
  show ?case using 1(2) by (auto simp: Let_def split: if_splits dest!: 1(1))
qed simp

lemma bind_pairE:
  assumes "Option.bind x (\<lambda>(a, b). f a b) = Some y" obtains a b where "x = Some (a, b)" "f a b = Some y"
  using assms by (cases x) auto

lemma read_preload_file_steps: "read_preload_file E w p = Some (x, w') \<Longrightarrow> fs_steps E w w'"
  by (auto simp: read_preload_file_def Let_def split: if_splits sum.split_asm elim!: bind_pairE dest!: read_preload_loop_steps)

lemma make_dirs_steps: "make_dirs ds w = Some w' \<Longrightarrow> fs_steps E w w'"
proof (induction ds arbitrary: w)
  case (Cons d ds)
  then obtain r w1 where "with_imfs w (\<lambda>s. imfs_mkdir s 0 d 0x1ED) = Some (r, w1)" "make_dirs ds w1 = Some w'"
    by (auto simp: bind_eq_Some_conv)
  from with_imfsD [OF this(1) sys_mkdir] Cons.IH [OF this(2)] show ?case by (rule fs_steps_trans)
qed simp

lemma store_preload_steps: "store_preload E w p data = Some w' \<Longrightarrow> fs_steps E w w'"
  unfolding store_preload_def create_imfs_parent_dirs_def
  by (auto simp: bind_eq_Some_conv split: if_splits)
    (meson fs_steps_trans make_dirs_steps with_imfsD with_tablesD imfs_step.intros)+

lemma load_preload_steps: "load_preload E w e = Some w' \<Longrightarrow> fs_steps E w w'"
  by (auto simp: load_preload_def split: option.split_asm prod.split_asm bool.split_asm sum.split_asm
      elim!: bind_pairE dest!: preload_stat_steps read_preload_file_steps store_preload_steps intro: fs_steps_trans)

lemma load_entries_steps: "load_entries E w es = Some w' \<Longrightarrow> fs_steps E w w'"
  by (induction es arbitrary: w) (auto simp: bind_eq_Some_conv intro: fs_steps_trans dest!: load_preload_steps)

lemma load_preloads_steps: "load_preloads E w p = Some w' \<Longrightarrow> fs_steps E w w'"
  unfolding load_preloads_def using init_utility_steps by (blast intro: fs_steps_trans dest: load_entries_steps)

lemma write_host_all_steps: "write_host_all E w fd data = Some (x, w') \<Longrightarrow> fs_steps E w w'"
proof (induction E w fd data arbitrary: x w' rule: write_host_all.induct)
  case (1 E w fd data)
  note ih = 1(1) [OF _ raw_threei_eq [symmetric]]
  show ?case using 1(2) by (subst (asm) write_host_all.simps) (auto split: if_splits dest!: ih)
qed

lemma dump_loop_steps: "dump_loop E w hfd ifd buf = Some (x, w') \<Longrightarrow> fs_steps E w w'"
proof (drule dump_loop.raw_induct [of "\<lambda>E w hfd ifd buf y. fs_steps E w (snd y)", rotated], goal_cases)
  case (1 f E w hfd ifd buf y)
  from 1(2) obtain n b w1 where rd: "with_imfs w (\<lambda>s. map_option (\<lambda>(r, b, s). ((r, b), s)) (imfs_read (me_fd E) (fdt w) s 0 (as_u64 ifd) buf)) = Some ((n, b), w1)"
    and k: "(if n < 0 then map_option (\<lambda>(_, w). (Inl (ImfsReadFailed n), w)) (with_tables w1 (\<lambda>ft s. imfs_close (me_fd E) ft s 0 (as_u64 ifd)))
      else if n = 0 then map_option (\<lambda>(r, w). (if r < 0 then Inl (ImfsCloseFailed r) else Inr (), w)) (with_tables w1 (\<lambda>ft s. imfs_close (me_fd E) ft s 0 (as_u64 ifd)))
      else Option.bind (write_host_all E w1 hfd (take (nat n) b)) (\<lambda>(r, w). case r of Inl e \<Rightarrow> Some (Inl e, w) | Inr _ \<Rightarrow> f E w hfd ifd b)) = Some y"
    by (elim bind_pairE) (auto split: prod.splits)
  have "fs_steps E w w1" by (rule with_buf_steps [OF rd]) (rule sys_read)
  moreover have "fs_steps E w1 (snd y)" using k
    by (auto split: if_splits sum.split_asm elim!: bind_pairE with_tablesD intro: imfs_step.intros fs_steps_trans
        dest!: write_host_all_steps 1(1))
  ultimately show ?case by (rule fs_steps_trans)
qed simp

lemma dump_body_steps: "dump_body E w hfd p = Some (x, w') \<Longrightarrow> fs_steps E w w'"
  unfolding dump_body_def
  by (elim bind_pairE) (auto split: if_splits elim!: with_tablesD intro: imfs_step.intros fs_steps_trans [OF with_tablesD] dest!: dump_loop_steps)

lemma mkdirs_host_steps: "mkdirs_host E w ds = (x, w') \<Longrightarrow> fs_steps E w w'"
proof (induction ds arbitrary: w)
  case (Cons d ds)
  show ?case using Cons.prems by (auto simp: mkdir_host_def split: if_splits dest!: Cons.IH)
qed simp

lemma create_host_dirs_steps: "create_host_parent_dirs E w p = (x, w') \<Longrightarrow> fs_steps E w w'"
  by (auto simp: create_host_parent_dirs_def Let_def split: if_splits dest: mkdirs_host_steps)

lemma dump_file_steps: "dump_file E w p q = Some (x, w') \<Longrightarrow> fs_steps E w w'"
  by (auto simp: dump_file_def Let_def split: prod.split_asm sum.split_asm if_splits
      elim!: bind_pairE dest!: create_host_dirs_steps dump_body_steps intro: fs_steps_trans)

lemma dump_entries_steps: "dump_entries E w es = Some w' \<Longrightarrow> fs_steps E w w'"
  by (induction es arbitrary: w)
    (auto split: option.split_asm elim!: bind_pairE dest!: dump_file_steps intro: fs_steps_trans)

lemma imfs_teardown_steps: "imfs_teardown E w d = Some w' \<Longrightarrow> fs_steps E w w'"
  using fs_steps_trans [OF init_utility_steps dump_entries_steps]
  by (auto simp: imfs_teardown_def dump_outputs_def split: option.split_asm if_splits)

section \<open>Running the grate\<close>

text \<open>A run: the start of \<open>main\<close>, set-ups of cages, calls of registered handlers, changes of the descriptor
  tables made by the runtime, and the teardown.\<close>

inductive imfs_running :: "'ft imfs_env \<Rightarrow> 'ft imfs_world \<Rightarrow> bool" for E where
  start: "imfs_main_start E ft preloads = Some w \<Longrightarrow> imfs_running E w"
| preexec: "imfs_running E w \<Longrightarrow> imfs_running E (imfs_preexec E w cageid)"
| call: "imfs_running E w \<Longrightarrow> (nr, h) \<in> set imfs_table \<Longrightarrow> h E w a g = Some (r, w') \<Longrightarrow> imfs_running E w'"
| tables: "imfs_running E w \<Longrightarrow> imfs_running E (w\<lparr>fdt := ft\<rparr>)"
| teardown: "imfs_running E w \<Longrightarrow> imfs_teardown E w dumps = Some w' \<Longrightarrow> imfs_running E w'"

lemma reachable_steps:
  "imfs_reachable (me_fd E) (imfs_of w, fdt w) \<Longrightarrow> fs_steps E w w' \<Longrightarrow> imfs_reachable (me_fd E) (imfs_of w', fdt w')"
  unfolding fs_steps_def by (erule rtranclp_induct) (auto intro: imfs_reachable.step)

lemma main_start_reachable:
  assumes "imfs_main_start E ft preloads = Some w"
  shows "imfs_reachable (me_fd E) (imfs_of w, fdt w)"
proof -
  from assms obtain s w0 r where s: "imfs_init = Some s"
    and w0: "(case preloads of Some p \<Rightarrow> load_preloads E \<lparr>fdt = ft, hist = [], imfs_of = s\<rparr> p | None \<Rightarrow> Some \<lparr>fdt = ft, hist = [], imfs_of = s\<rparr>) = Some w0"
    and w: "with_imfs w0 (\<lambda>s. imfs_mkdir s 0 ''/tmp'' 755) = Some (r, w)"
    by (auto simp: imfs_main_start_def bind_eq_Some_conv Let_def)
  have "imfs_reachable (me_fd E) (s, ft)" using s by (rule imfs_reachable.init)
  moreover have "fs_steps E \<lparr>fdt = ft, hist = [], imfs_of = s\<rparr> w0" using w0 by (auto split: option.split_asm dest: load_preloads_steps)
  moreover have "fs_steps E w0 w" using w by (rule with_imfsD) (rule sys_mkdir)
  ultimately show ?thesis using reachable_steps [of E "\<lparr>fdt = ft, hist = [], imfs_of = s\<rparr>" w] by (auto intro: fs_steps_trans)
qed

lemma running_reachable: "imfs_running E w \<Longrightarrow> imfs_reachable (me_fd E) (imfs_of w, fdt w)"
proof (induction rule: imfs_running.induct)
  case (start ft preloads w)
  then show ?case by (rule main_start_reachable)
next
  case (preexec w cageid)
  show ?case using preexec.IH imfs_preexec_steps by (rule reachable_steps)
next
  case (call w nr h a g r w')
  show ?case using call.IH table_steps [OF call.hyps(2,3)] by (rule reachable_steps)
next
  case (tables w ft)
  then show ?case using imfs_reachable.step [OF tables.IH sys_tables [of _ _ _ ft]] by simp
next
  case (teardown w dumps w')
  show ?case using teardown.IH imfs_teardown_steps [OF teardown.hyps(2)] by (rule reachable_steps)
qed

section \<open>Data through the handlers\<close>

abbreviation at_desc :: "'ft imfs_env \<Rightarrow> 'ft imfs_world \<Rightarrow> nat \<Rightarrow> nat \<Rightarrow> nat \<Rightarrow> i32 \<Rightarrow> int \<Rightarrow> bool" where
  "at_desc E w \<equiv> fd_at (me_fd E) (fdt w) (imfs_of w)"

lemma as_usize_nat: "n < 2 ^ 31 \<Longrightarrow> as_usize (int n) = n"
  by (simp add: as_usize_def)

text \<open>The read handler copies the bytes read, followed by zeros up to the count the cage asked for.\<close>

lemma read_handler_at:
  assumes inv: "imfs_inv (imfs_of w)" and reg: "is_reg (imfs_of w) i" and fd: "at_desc E w (g ! 0) (a ! 0) i fl off"
    and rd: "fl AND O_ACCMODE \<noteq> O_WRONLY" and off: "0 \<le> off" "off < 2 ^ 31" and len: "a ! 2 < 2 ^ 31"
  defines "bs \<equiv> take (a ! 2) (drop (nat off) (contents (imfs_of w) i))"
  shows "\<exists>w1. imfs_read_handler E w a g = Some (int (length bs),
      if bs \<noteq> [] \<and> a ! 1 \<noteq> 0 then snd (copy_to_cage E w1 (g ! 1) (a ! 1) (bs @ replicate (a ! 2 - length bs) 0)) else w1) \<and>
    hist w1 = hist w \<and> fdt w1 = fdt w \<and> at_desc E w1 (g ! 0) (a ! 0) i fl (off + int (length bs)) \<and>
    contents (imfs_of w1) = contents (imfs_of w) \<and> is_reg (imfs_of w1) = is_reg (imfs_of w)"
proof -
  have bs: "length bs \<le> a ! 2" by (simp add: bs_def)
  obtain s' where s': "imfs_read (me_fd E) (fdt w) (imfs_of w) (g ! 0) (a ! 0) (replicate (a ! 2) 0) =
      Some (int (length bs), overwrite (replicate (a ! 2) 0) 0 bs, s')"
    "at_desc E (w\<lparr>imfs_of := s'\<rparr>) (g ! 0) (a ! 0) i fl (off + int (length bs))" "contents s' = contents (imfs_of w)" "is_reg s' = is_reg (imfs_of w)"
    using imfs_read_at [OF imfs_invD(1) [OF inv] reg fd rd off, of "replicate (a ! 2) 0"] len by (auto simp: bs_def)
  have "overwrite (replicate (a ! 2) 0) 0 bs = bs @ replicate (a ! 2 - length bs) 0" using bs by (simp add: overwrite_def)
  with s' len show ?thesis
    by (intro exI [of _ "w\<lparr>imfs_of := s'\<rparr>"]) (auto simp: imfs_read_handler_def with_imfs_def vec_zero_def as_usize_nat)
qed

lemma write_handler_at:
  assumes inv: "imfs_inv (imfs_of w)" and reg: "is_reg (imfs_of w) i" and fd: "at_desc E w (g ! 0) (a ! 0) i fl off"
    and wr: "fl AND O_ACCMODE \<noteq> O_RDONLY" "fl AND O_APPEND = 0" and std: "3 \<le> a ! 0"
    and buf: "ge_copymem (me_g E) (hist w) (g ! 1) (a ! 1) (length bs) = Some bs" "a ! 2 = length bs" "bs \<noteq> []"
    and off: "0 \<le> off" "nat off \<le> length (contents (imfs_of w) i)" "off + int (length bs) < 2 ^ 31"
  shows "\<exists>w1. imfs_write_handler E w a g = Some (int (length bs), w1) \<and>
    contents (imfs_of w1) = (contents (imfs_of w))(i := splice_at (contents (imfs_of w) i) (nat off) bs) \<and>
    at_desc E w1 (g ! 0) (a ! 0) i fl (off + int (length bs)) \<and> is_reg (imfs_of w1) = is_reg (imfs_of w) \<and>
    imfs_inv (imfs_of w1) \<and> hist w1 = hist w \<and> fdt w1 = fdt w"
proof -
  obtain s' where s': "imfs_write (me_fd E) (fdt w) (imfs_of w) (g ! 0) (a ! 0) bs = Some (int (length bs), s')"
    "contents s' = (contents (imfs_of w))(i := splice_at (contents (imfs_of w) i) (nat off) bs)"
    "fd_at (me_fd E) (fdt w) s' (g ! 0) (a ! 0) i fl (off + int (length bs))" "is_reg s' = is_reg (imfs_of w)"
    using imfs_write_at [OF imfs_invD(1) [OF inv] reg fd wr buf(3) off] by blast
  have "int (length bs) < int (2 ^ 31)" using off by simp
  then have "length bs < 2 ^ 31" by (simp only: of_nat_less_iff)
  with s' buf std write_inv(1) [OF inv s'(1)] show ?thesis
    by (intro exI [of _ "w\<lparr>imfs_of := s'\<rparr>"])
      (auto simp: imfs_write_handler_def with_imfs_def vec_zero_def as_usize_nat fill_from_cage_def Let_def)
qed

lemma lseek_handler_at:
  assumes inv: "imfs_inv (imfs_of w)" and reg: "is_reg (imfs_of w) i" and fd: "at_desc E w (g ! 0) (a ! 0) i fl off"
    and a: "a ! 1 < 2 ^ 31" "a ! 2 = 0"
  shows "\<exists>w1. imfs_lseek_handler E w a g = Some (int (a ! 1), w1) \<and> at_desc E w1 (g ! 0) (a ! 0) i fl (int (a ! 1)) \<and>
    contents (imfs_of w1) = contents (imfs_of w) \<and> is_reg (imfs_of w1) = is_reg (imfs_of w) \<and>
    imfs_inv (imfs_of w1) \<and> hist w1 = hist w \<and> fdt w1 = fdt w"
proof -
  have n: "0 \<le> int (a ! 1)" "int (a ! 1) < 2 ^ 31" using a by simp_all
  obtain s' where s': "imfs_lseek (me_fd E) (fdt w) (imfs_of w) (g ! 0) (a ! 0) (int (a ! 1)) 0 = Some (int (a ! 1), s')"
    "fd_at (me_fd E) (fdt w) s' (g ! 0) (a ! 0) i fl (int (a ! 1))" "contents s' = contents (imfs_of w)" "is_reg s' = is_reg (imfs_of w)"
    using imfs_seek_set_at [OF reg fd n] by blast
  moreover have "as_i64 (int (a ! 1)) = int (a ! 1)" using n by (intro as_i64_id) auto
  ultimately show ?thesis using a lseek_inv [OF inv s'(1)]
    by (intro exI [of _ "w\<lparr>imfs_of := s'\<rparr>"]) (auto simp: imfs_lseek_handler_def with_imfs_def as_i32_def)
qed

section \<open>Opening and closing a regular file\<close>

lemma fd_at_new:
  assumes ok: "fdtables_ok F" and g: "get_unused_virtual_fd F ft c IMFS_FDKIND i False 0 = Some (fd, ft')" and i: "i < 2 ^ 32"
  shows "fd_at F ft' (insert_perfdinfo s c fd (scast fl)) c fd i fl 0"
proof -
  have "translate_virtual_fd F ft' c fd = Some (mk_entry IMFS_FDKIND i False 0)"
    using fd_mapsD [OF conjunct2 [OF fd_alloc_law [OF ok g]], of c fd] by simp
  then show ?thesis using i by (simp add: fd_at_def insert_perfdinfo_def get_fd_rec_def vec_get_def as_usize_def)
qed

lemma insert_perfdinfo_data: "contents (insert_perfdinfo s c fd x) = contents s" "is_reg (insert_perfdinfo s c fd x) = is_reg s"
  by (rule contents_cong; simp add: insert_perfdinfo_def reg_info_def)+

text \<open>Opening a node of a regular file that was found or created.\<close>

lemma open_fd_at:
  assumes ok: "fdtables_ok F" and inv: "imfs_inv s" and reg: "is_reg s i" and i: "i < 2 ^ 32"
    and g: "get_unused_virtual_fd F ft c IMFS_FDKIND i False 0 = Some (fd, ft')" and fd: "fd < 2 ^ 31"
  shows "\<exists>s'. open_fd F ft s c i fl = Some (int fd, s', ft') \<and> fd_at F ft' s' c fd i fl 0 \<and> contents s' = contents s \<and>
    is_reg s' = is_reg s \<and> imfs_inv s'"
proof -
  obtain s1 where s1: "inc_use s i = Some s1" using is_reg_range [OF reg] by (simp add: inc_use_def upd_node_def)
  then have d: "same_data s s1" unfolding inc_use_def by (rule upd_node_same_data) simp
  let ?s = "insert_perfdinfo s1 c fd (scast fl)"
  have eq: "open_fd F ft s c i fl = Some (int fd, ?s, ft')" using s1 g fd by (simp add: open_fd_def)
  moreover have "contents ?s = contents s" "is_reg ?s = is_reg s" using d by (simp_all add: insert_perfdinfo_data same_data_def)
  ultimately show ?thesis using fd_at_new [OF ok g i] open_fd_inv [OF inv eq] by blast
qed

lemma open_existing_read:
  assumes "is_reg s i" "n_mode (nodes s ! i) AND S_IRUSR \<noteq> 0"
  shows "open_existing s i O_RDONLY = Some (Inr i, s)"
  using is_reg_range [OF assms(1)] reg_node_info [OF assms(1)] assms
  by (auto simp: open_existing_def open_denied_def open_flags is_reg_def reg_info_def Let_def)

lemma open_readonly_at:
  assumes ok: "fdtables_ok F" and inv: "imfs_inv s" and r: "resolve_path s (normalize_path_for_cage s c path) True = Some (Inr i)"
    and reg: "is_reg s i" "n_mode (nodes s ! i) AND S_IRUSR \<noteq> 0" and i: "i < 2 ^ 32"
    and g: "get_unused_virtual_fd F ft c IMFS_FDKIND i False 0 = Some (fd, ft')" "fd < 2 ^ 31"
  shows "\<exists>s'. imfs_open F ft s c path O_RDONLY m = Some (int fd, s', ft') \<and> fd_at F ft' s' c fd i O_RDONLY 0 \<and>
    contents s' = contents s \<and> is_reg s' = is_reg s \<and> imfs_inv s'"
  using open_fd_at [OF ok inv reg(1) i g] open_existing_read [OF reg] r by (simp add: imfs_open_def open_resolved_path_def)

lemma close_at:
  assumes ok: "fdtables_ok F" and inv: "imfs_inv s" and reg: "is_reg s i" and fd: "fd_at F ft s c fd i fl off"
  shows "\<exists>s' ft'. imfs_close F ft s c fd = Some (0, s', ft') \<and> (\<forall>j. j \<noteq> i \<longrightarrow> contents s' j = contents s j) \<and>
    (\<not> doomed (nodes s ! i) \<longrightarrow> contents s' = contents s)"
proof -
  obtain e where e: "translate_virtual_fd F ft c fd = Some e" "as_usize (int (underfd e)) = i" using fd by (auto simp: fd_at_def)
  have i: "i < length (nodes s)" using reg by (rule is_reg_range)
  obtain s1 where s1: "upd_node s i (\<lambda>n. n\<lparr>in_use := in_use n - 1\<rparr>) = Some s1" using i by (simp add: upd_node_def)
  have d: "same_data s s1" by (rule upd_node_same_data [OF s1]) simp
  have inv1: "imfs_inv s1" by (rule imfs_inv_shape [OF inv s1]) (simp add: shape_def)
  have n1: "get_node s1 i = Some (nodes s1 ! i)" "doomed (nodes s1 ! i) = doomed (nodes s ! i)"
    using s1 i by (auto simp: upd_node_eq_Some get_node_def)
  have "\<exists>s2. close_node s i = Some s2 \<and> (\<forall>j. j \<noteq> i \<longrightarrow> contents s2 j = contents s j) \<and> (\<not> doomed (nodes s ! i) \<longrightarrow> contents s2 = contents s)"
  proof (cases "doomed (nodes s1 ! i) \<and> in_use (nodes s1 ! i) = 0")
    case True
    with n1 s1 i d reg reclaim_node_reg [OF imfs_invD(1) [OF inv1], of i] show ?thesis by (auto simp: close_node_def same_data_def)
  next
    case False
    then have "close_node s i = Some s1" using n1 s1 i by (auto simp: close_node_def)
    then show ?thesis using d by (simp add: same_data_def)
  qed
  then obtain s2 where s2: "close_node s i = Some s2" "\<And>j. j \<noteq> i \<Longrightarrow> contents s2 j = contents s j" "\<not> doomed (nodes s ! i) \<longrightarrow> contents s2 = contents s" by blast
  obtain ft' where ft': "close_virtualfd F ft c fd = Some ft'" using fd_close_None_iff [OF ok, of ft c fd] e by fastforce
  let ?s = "s2\<lparr>fd_info := (fd_info s2)((c, fd) := None)\<rparr>"
  have "imfs_close F ft s c fd = Some (0, ?s, ft')" using e s2 ft' by (simp add: imfs_close_def Let_def)
  moreover have "contents ?s = contents s2" by (rule contents_cong) (simp_all add: reg_info_def)
  ultimately show ?thesis using s2 by auto
qed

section \<open>Dumps reach the host\<close>

text \<open>The bytes the host accepted in a stretch of the history: of every write the prefix it reported.\<close>

fun host_written :: "'ft grate_env \<Rightarrow> event list \<Rightarrow> event list \<Rightarrow> byte list" where
  "host_written E h [] = []"
| "host_written E h (e # es) =
     (case e of Threei c \<Rightarrow>
        (if callnumber c = SYS_WRITE then (case call_args c of _ # OwnBuf d # _ \<Rightarrow> take (nat (ge_sys E h c)) d | _ \<Rightarrow> []) else [])
      | _ \<Rightarrow> []) @ host_written E (h @ [e]) es"

lemma host_written_append: "host_written E h (xs @ ys) = host_written E h xs @ host_written E (h @ xs) ys"
  by (induction xs arbitrary: h) simp_all

text \<open>A host that accepts at least one and at most all of the bytes of a write.\<close>

definition host_accepts :: "'ft imfs_env \<Rightarrow> bool" where
  "host_accepts E \<longleftrightarrow> (\<forall>h c x d xs. callnumber c = SYS_WRITE \<longrightarrow> call_args c = x # OwnBuf d # xs \<longrightarrow> d \<noteq> [] \<longrightarrow>
     0 < ge_sys (me_g E) h c \<and> ge_sys (me_g E) h c \<le> int (length d))"

lemma write_host_all_delivers:
  assumes acc: "host_accepts E"
  shows "\<exists>w' es. write_host_all E w fd data = Some (Inr (), w') \<and> imfs_of w' = imfs_of w \<and> fdt w' = fdt w \<and>
    hist w' = hist w @ es \<and> host_written (me_g E) (hist w) es = data"
proof (induction data arbitrary: w rule: length_induct)
  case (1 data)
  show ?case
  proof (cases "data = []")
    case True
    then show ?thesis by (simp add: write_host_all.simps)
  next
    case False
    define c where "c = raw_call E SYS_WRITE [Num (as_u64 fd), OwnBuf data, Num (length data), Num 0, Num 0, Num 0] (flagged E [1])"
    define n where "n = ge_sys (me_g E) (hist w) c"
    have c: "callnumber c = SYS_WRITE" "call_args c = Num (as_u64 fd) # OwnBuf data # [Num (length data), Num 0, Num 0, Num 0]"
      by (simp_all add: c_def raw_call_def)
    have n: "0 < n" "n \<le> int (length data)" using acc c False unfolding n_def host_accepts_def by blast+
    obtain w' es where w': "write_host_all E (log_event (Threei c) w) fd (drop (nat n) data) = Some (Inr (), w')"
      "imfs_of w' = imfs_of (log_event (Threei c) w)" "fdt w' = fdt w" "hist w' = hist w @ [Threei c] @ es"
      "host_written (me_g E) (hist w @ [Threei c]) es = drop (nat n) data"
      using 1 [rule_format, of "drop (nat n) data" "log_event (Threei c) w"] n False by auto
    have "write_host_all E w fd data = Some (Inr (), w')"
      using n w'(1) False by (subst write_host_all.simps) (simp add: c_def [symmetric, simplified] n_def [symmetric] nat_le_iff)
    moreover have "host_written (me_g E) (hist w) ([Threei c] @ es) = data"
      unfolding host_written_append using w'(5) by (simp add: c n_def [symmetric])
    moreover have "imfs_of w' = imfs_of w" using w'(2) by (simp add: log_event_def)
    ultimately show ?thesis using w'(3,4) by blast
  qed
qed

text \<open>The loop over the chunks, from any offset inside the file.\<close>

lemma dump_loop_delivers:
  assumes ok: "fdtables_ok (me_fd E)" and acc: "host_accepts E"
    and inv: "imfs_inv (imfs_of w)" and reg: "is_reg (imfs_of w) i" and fd: "at_desc E w 0 fd i O_RDONLY (int off)" "fd < 2 ^ 31"
    and len: "length buf = DUMP_WRITE_CHUNK_SIZE" "off \<le> length (contents (imfs_of w) i)" "length (contents (imfs_of w) i) < 2 ^ 31"
  shows "\<exists>w' es. dump_loop E w hfd (int fd) buf = Some (Inr (), w') \<and> hist w' = hist w @ es \<and>
    host_written (me_g E) (hist w) es = drop off (contents (imfs_of w) i)"
  using inv reg fd(1) len
proof (induction "length (contents (imfs_of w) i) - off" arbitrary: w off buf rule: less_induct)
  case less
  define bs where "bs = take (length buf) (drop off (contents (imfs_of w) i))"
  have off: "0 \<le> int off" "int off < 2 ^ 31" using less.prems(5,6) by simp_all
  have u: "as_u64 (int fd) = fd" using fd(2) by (simp add: as_u64_def)
  have lb: "length bs \<le> length buf" by (simp add: bs_def)
  obtain s' where s': "imfs_read (me_fd E) (fdt w) (imfs_of w) 0 fd buf = Some (int (length bs), overwrite buf 0 bs, s')"
    "fd_at (me_fd E) (fdt w) s' 0 fd i O_RDONLY (int off + int (length bs))" "contents s' = contents (imfs_of w)" "is_reg s' = is_reg (imfs_of w)"
    using imfs_read_at [OF imfs_invD(1) [OF less.prems(1)] less.prems(2,3) _ off, of buf] less.prems(4)
    by (auto simp: open_flags bs_def DUMP_WRITE_CHUNK_SIZE_def)
  have inv': "imfs_inv s'" using read_inv(1) [OF less.prems(1) s'(1)] .
  let ?w1 = "w\<lparr>imfs_of := s'\<rparr>"
  show ?case
  proof (cases "bs = []")
    case True
    then have e: "drop off (contents (imfs_of w) i) = []" using less.prems(4) by (auto simp: bs_def DUMP_WRITE_CHUNK_SIZE_def)
    obtain s2 ft2 where "imfs_close (me_fd E) (fdt w) s' 0 fd = Some (0, s2, ft2)"
      using close_at [OF ok inv' _ s'(2)] s'(4) less.prems(2) by auto
    then have "dump_loop E w hfd (int fd) buf = Some (Inr (), ?w1\<lparr>imfs_of := s2, fdt := ft2\<rparr>)"
      using s'(1) True by (subst dump_loop.simps) (simp add: with_imfs_def with_tables_def u)
    then show ?thesis using e by (intro exI [of _ "?w1\<lparr>imfs_of := s2, fdt := ft2\<rparr>"] exI [of _ "[]"]) simp
  next
    case False
    have pos: "0 < length bs" and le: "off + length bs \<le> length (contents (imfs_of w) i)" using False less.prems(5) by (auto simp: bs_def)
    then have lt: "length (contents (imfs_of w) i) - (off + length bs) < length (contents (imfs_of w) i) - off" by linarith
    obtain w2 es where w2: "write_host_all E ?w1 hfd bs = Some (Inr (), w2)" "imfs_of w2 = s'" "fdt w2 = fdt w"
      "hist w2 = hist w @ es" "host_written (me_g E) (hist w) es = bs"
      using write_host_all_delivers [OF acc, of ?w1 hfd bs] by auto
    let ?buf = "overwrite buf 0 bs"
    have t: "take (nat (int (length bs))) ?buf = bs" "length ?buf = length buf" using lb by (simp_all add: overwrite_def)
    have "at_desc E w2 0 fd i O_RDONLY (int (off + length bs))" using s'(2) w2(2,3) by simp
    then obtain w' es' where w': "dump_loop E w2 hfd (int fd) ?buf = Some (Inr (), w')" "hist w' = hist w2 @ es'"
      "host_written (me_g E) (hist w2) es' = drop (off + length bs) (contents (imfs_of w) i)"
      using less.hyps [of w2 "off + length bs" ?buf] s' inv' w2(2) t(2) less.prems lt le by auto
    have "dump_loop E w hfd (int fd) buf = Some (Inr (), w')"
      using s'(1) w2(1) w'(1) t(1) pos by (subst dump_loop.simps) (simp add: with_imfs_def u)
    moreover have "bs @ drop (off + length bs) (contents (imfs_of w) i) = drop off (contents (imfs_of w) i)"
      by (simp add: bs_def add.commute [of off] drop_drop [symmetric] min_def del: drop_drop)
    ultimately show ?thesis using w'(2,3) w2(4,5) by (intro exI [of _ w'] exI [of _ "es @ es'"]) (simp add: host_written_append)
  qed
qed

text \<open>The directories made on the host leave no bytes there, and their names have no characters but those of the path.\<close>

lemma parent_dirs_chars: "d \<in> set (parent_dirs_loop base cs) \<Longrightarrow> set d \<subseteq> set base \<union> {slash} \<union> \<Union> (set ` set cs)"
proof (induction cs arbitrary: base)
  case (Cons c cs)
  show ?case using Cons.prems by (auto simp: Let_def split: if_splits dest!: Cons.IH)
qed simp

lemma split_on_chars: "x \<in> set (split_on c p) \<Longrightarrow> set x \<subseteq> set p"
  by (induction c p arbitrary: x rule: split_on.induct) (auto simp: Let_def split: if_splits list.splits, blast+)

lemma mkdirs_host_silent:
  assumes "\<And>d. d \<in> set ds \<Longrightarrow> nul \<notin> set d"
  shows "\<exists>w' es. mkdirs_host E w ds = (Inr (), w') \<and> imfs_of w' = imfs_of w \<and> fdt w' = fdt w \<and> hist w' = hist w @ es \<and>
    host_written (me_g E) (hist w) es = []"
  using assms
proof (induction ds arbitrary: w)
  case (Cons d ds)
  define c where "c = raw_call E SYS_MKDIR [OwnStr d, Num 0x1ED, Num 0, Num 0, Num 0, Num 0] (flagged E [0])"
  have h: "host_written (me_g E) h (Threei c # es) = host_written (me_g E) (h @ [Threei c]) es" for h es
    by (simp add: c_def raw_call_def)
  have "mkdirs_host E w (d # ds) = mkdirs_host E (log_event (Threei c) w) ds" using Cons.prems by (simp add: mkdir_host_def c_def)
  moreover obtain w' es where "mkdirs_host E (log_event (Threei c) w) ds = (Inr (), w')" "imfs_of w' = imfs_of (log_event (Threei c) w)"
    "fdt w' = fdt w" "hist w' = hist w @ Threei c # es" "host_written (me_g E) (hist w @ [Threei c]) es = []"
    using Cons.IH [of "log_event (Threei c) w"] Cons.prems by auto
  ultimately show ?case using h by (intro exI [of _ w'] exI [of _ "Threei c # es"]) (simp add: log_event_def)
qed simp

lemma create_host_silent:
  assumes "nul \<notin> set p"
  shows "\<exists>w' es. create_host_parent_dirs E w p = (Inr (), w') \<and> imfs_of w' = imfs_of w \<and> fdt w' = fdt w \<and> hist w' = hist w @ es \<and>
    host_written (me_g E) (hist w) es = []"
proof -
  let ?cs = "filter (\<lambda>s. s \<noteq> []) (split_on slash p)"
  have "nul \<notin> set d" if "d \<in> set (parent_dirs_loop (if starts_with p ''/'' then ''/'' else []) (butlast ?cs))" for d
    using parent_dirs_chars [OF that] assms split_on_chars [of _ slash p] by (fastforce dest: in_set_butlastD split: if_splits)
  from mkdirs_host_silent [OF this] show ?thesis by (auto simp: create_host_parent_dirs_def Let_def)
qed

lemma dump_body_delivers:
  assumes ok: "fdtables_ok (me_fd E)" and acc: "host_accepts E" and inv: "imfs_inv (imfs_of w)"
    and r: "resolve_path (imfs_of w) (normalize_path_for_cage (imfs_of w) 0 path) True = Some (Inr i)"
    and reg: "is_reg (imfs_of w) i" "n_mode (nodes (imfs_of w) ! i) AND S_IRUSR \<noteq> 0" "i < 2 ^ 32"
    and g: "get_unused_virtual_fd (me_fd E) (fdt w) 0 IMFS_FDKIND i False 0 = Some (fd, ft)" "fd < 2 ^ 31"
    and len: "length (contents (imfs_of w) i) < 2 ^ 31"
  shows "\<exists>w' es. dump_body E w hfd path = Some (Inr (), w') \<and> hist w' = hist w @ es \<and>
    host_written (me_g E) (hist w) es = contents (imfs_of w) i"
proof -
  obtain s' where s': "imfs_open (me_fd E) (fdt w) (imfs_of w) 0 path O_RDONLY 0 = Some (int fd, s', ft)"
    "fd_at (me_fd E) ft s' 0 fd i O_RDONLY 0" "contents s' = contents (imfs_of w)" "is_reg s' = is_reg (imfs_of w)" "imfs_inv s'"
    using open_readonly_at [OF ok inv r reg g] by blast
  let ?w = "w\<lparr>imfs_of := s', fdt := ft\<rparr>"
  have "\<exists>w' es. dump_loop E ?w hfd (int fd) (replicate DUMP_WRITE_CHUNK_SIZE 0) = Some (Inr (), w') \<and> hist w' = hist w @ es \<and>
      host_written (me_g E) (hist w) es = contents (imfs_of w) i"
    using dump_loop_delivers [OF ok acc, of ?w i fd 0] s' reg(1) g(2) len by simp
  then show ?thesis using s'(1) by (simp add: dump_body_def with_tables_def)
qed

section \<open>Properties\<close>

text \<open>A concrete grate: three descriptors of the first cage are free for the runtime to use, every copy succeeds
  and delivers the bytes 5 and 6, and the host accepts one byte at a time.\<close>

definition imfs_demo_env :: "fd_map imfs_env" where
  "imfs_demo_env = \<lparr>me_g = \<lparr>ge_cage = 9, ge_sys = (\<lambda>h c. 1), ge_out = (\<lambda>h c i. []), ge_copystr = (\<lambda>h c p n. Some [0x2F, 0x61, 0]),
       ge_copymem = (\<lambda>h c p n. Some (take n [5, 6])), ge_copyout = (\<lambda>h c p bs. True), ge_register = (\<lambda>h c nr g. 0), ge_fd = map_fdtables,
       ge_unused_errno = (\<lambda>ft c. 24), ge_specific_errno = (\<lambda>ft c fd. 9)\<rparr>,
     me_exec = (\<lambda>ft c. ft), me_write = (\<lambda>h fd bs. int (length bs)), me_pwrite = (\<lambda>h fd bs off. int (length bs)),
     me_read = (\<lambda>h fd n. (0, [])), me_pread = (\<lambda>h fd n off. (0, []))\<rparr>"

lemma imfs_demo_simps [simp]:
  "me_fd imfs_demo_env = map_fdtables" "ge_sys (me_g imfs_demo_env) = (\<lambda>h c. 1)"
  "ge_copymem (me_g imfs_demo_env) h c p n = Some (take n [5, 6])" "ge_copyout (me_g imfs_demo_env) h c p bs"
  "me_exec imfs_demo_env = (\<lambda>ft c. ft)"
  by (simp_all add: imfs_demo_env_def)

text \<open>C1. Every state of a running in-memory file system grate is reachable by the public operations of the file
  system, whatever calls the cages make, whatever the host answers to preloads and dumps and
  whatever else happens to the descriptor tables.  In each of them the storage of files is sound: the chunks of a regular
  file form a chain without repetition from its head to its tail, no chunk lies in the chains of two nodes or in a chain and
  in the list of free chunks, no chunk is free twice, and the recorded size of a file is the number of its stored
  bytes.  Every index is safe: parents, children, hard links, free nodes and descriptor records exist, the kind of a node agrees
  with its data, and the root is a directory that is never free.  It is not claimed that a node is free at most once or that
  parent and child entries mirror each other: \<open>fork_close_double_free\<close> and \<open>rename_into_itself\<close> show that the
  code does not keep that.\<close>

theorem running_keeps_invariant:
  assumes "imfs_running E w"
  shows "let s = imfs_of w in imfs_reachable (me_fd E) (s, fdt w) \<and> imfs_inv s \<and>
    (\<forall>i h t. reg_info s i h t \<longrightarrow> chain (chunks s) h (file_chain s i) \<and> t = tail_of (file_chain s i) \<and>
       distinct (file_chain s i) \<and> set (file_chain s i) \<inter> set (chunk_free_list s) = {} \<and>
       total_size (nodes s ! i) = length (contents s i)) \<and>
    (\<forall>i j. i \<noteq> j \<longrightarrow> set (file_chain s i) \<inter> set (file_chain s j) = {}) \<and> distinct (chunk_free_list s) \<and>
    (\<forall>i < length (nodes s). node_ok (length (nodes s)) (nodes s ! i)) \<and>
    node_type (nodes s ! root_idx s) = Dir \<and> root_idx s \<notin> set (node_free_list s) \<and>
    (\<forall>k a. fd_info s k = Some a \<longrightarrow> a < length (fd_arcs s))"
proof -
  have r: "imfs_reachable (me_fd E) (imfs_of w, fdt w)" by (rule running_reachable [OF assms])
  have inv: "imfs_inv (imfs_of w)" using imfs_reachable_inv [OF r] by simp
  then have s: "chained (imfs_of w) (file_chain (imfs_of w))"
    "\<forall>i. is_reg (imfs_of w) i \<longrightarrow> total_size (nodes (imfs_of w) ! i) = length (contents (imfs_of w) i)"
    by (auto simp: imfs_inv_def storage_inv_def storage_ok_def contents_def)
  have "tree_inv (imfs_of w)" "fd_inv (imfs_of w)" using inv by (simp_all add: imfs_inv_def)
  moreover have "reg_info (imfs_of w) i h t \<Longrightarrow> distinct (file_chain (imfs_of w) i)" for i h t
    using s(1) by (auto simp: chained_def dest: chain_distinct)
  ultimately show ?thesis
    using r inv s by (auto simp: Let_def chained_def tree_inv_def fd_inv_def is_reg_def)
qed

theorem running_keeps_invariant_witness:
  "\<exists>w. imfs_main_start imfs_demo_env [] None = Some w \<and> imfs_inv (imfs_of w)"
proof -
  have "imfs_main_start imfs_demo_env [] None \<noteq> None" by code_simp
  then obtain w where "imfs_main_start imfs_demo_env [] None = Some w" by blast
  with running_keeps_invariant [OF imfs_running.start [OF this]] show ?thesis by (auto simp: Let_def)
qed

text \<open>C17. Round trip through the handlers: the bytes a cage passes to the write handler through a descriptor
  of a regular file opened for reading and writing are, after a seek back, the bytes the read handler
  copies into the memory of the cage; nothing else is copied.\<close>

theorem written_bytes_copied_back:
  assumes inv: "imfs_inv (imfs_of w)" and reg: "is_reg (imfs_of w) i" and fd: "at_desc E w cage fd i fl (int off)" "3 \<le> fd"
    and fl: "fl AND O_ACCMODE = O_RDWR" "fl AND O_APPEND = 0"
    and buf: "ge_copymem (me_g E) (hist w) cage p (length bs) = Some bs" "bs \<noteq> []"
    and off: "off \<le> length (contents (imfs_of w) i)" "off + length bs < 2 ^ 31"
    and out: "q \<noteq> 0" "ge_copyout (me_g E) (hist w) cage q bs"
  shows "\<exists>w1 w2 w3. imfs_write_handler E w [fd, p, length bs] [cage, cage, cage] = Some (int (length bs), w1) \<and>
    imfs_lseek_handler E w1 [fd, off, 0] [cage, cage, cage] = Some (int off, w2) \<and>
    imfs_read_handler E w2 [fd, q, length bs] [cage, cage, cage] = Some (int (length bs), w3) \<and>
    hist w3 = hist w @ [CopyOut cage q bs]"
proof -
  have acc: "fl AND O_ACCMODE \<noteq> O_RDONLY" "fl AND O_ACCMODE \<noteq> O_WRONLY" using fl by (simp_all add: open_flags)
  obtain w1 where w1: "imfs_write_handler E w [fd, p, length bs] [cage, cage, cage] = Some (int (length bs), w1)"
    "contents (imfs_of w1) = (contents (imfs_of w))(i := splice_at (contents (imfs_of w) i) off bs)"
    "at_desc E w1 cage fd i fl (int off + int (length bs))" "is_reg (imfs_of w1) = is_reg (imfs_of w)" "imfs_inv (imfs_of w1)"
    "hist w1 = hist w" "fdt w1 = fdt w"
    using write_handler_at [of w i E "[cage, cage, cage]" "[fd, p, length bs]" fl "int off" bs] inv reg fd acc(1) fl(2) buf off by auto
  obtain w2 where w2: "imfs_lseek_handler E w1 [fd, off, 0] [cage, cage, cage] = Some (int off, w2)"
    "at_desc E w2 cage fd i fl (int off)" "contents (imfs_of w2) = contents (imfs_of w1)" "is_reg (imfs_of w2) = is_reg (imfs_of w1)"
    "imfs_inv (imfs_of w2)" "hist w2 = hist w1"
    using lseek_handler_at [of w1 i E "[cage, cage, cage]" "[fd, off, 0]" fl "int off + int (length bs)"] w1 reg off by auto
  have "take (length bs) (drop off (contents (imfs_of w2) i)) = bs" using off(1) w1(2) w2(3) by (simp add: splice_at_def)
  then obtain w3 where "imfs_read_handler E w2 [fd, q, length bs] [cage, cage, cage] = Some (int (length bs), snd (copy_to_cage E w3 cage q bs))"
    "hist w3 = hist w2"
    using read_handler_at [of w2 i E "[cage, cage, cage]" "[fd, q, length bs]" fl "int off"] w1 w2 reg acc(2) off buf(2) out(1) by auto
  then show ?thesis using w1(1,6) w2(1,6) out(2) by (auto simp: copy_to_cage_def)
qed

definition imfs_demo_world :: "fd_map imfs_world" where
  "imfs_demo_world = \<lparr>fdt = [((1, 3), mk_entry 1 3 False 0)], hist = [], imfs_of = demo_fs\<lparr>fd_info := [(1, 3) \<mapsto> 0]\<rparr>\<rparr>"

lemma imfs_demo_world_facts:
  "imfs_inv (imfs_of imfs_demo_world)" "is_reg (imfs_of imfs_demo_world) 3" "at_desc imfs_demo_env imfs_demo_world 1 3 3 0x42 0"
  "hist imfs_demo_world = []"
proof -
  show "imfs_inv (imfs_of imfs_demo_world)"
    using demo_fs_inv unfolding imfs_demo_world_def by simp (rule fd_info_upd_inv; simp add: demo_fs_def split: if_splits)
  show "is_reg (imfs_of imfs_demo_world) 3" using demo_facts(1) by (simp add: imfs_demo_world_def is_reg_def reg_info_def)
  show "at_desc imfs_demo_env imfs_demo_world 1 3 3 0x42 0"
    by (auto simp: fd_at_def get_fd_rec_def imfs_demo_world_def demo_fs_def map_fdtables_def as_usize_def)
qed (simp add: imfs_demo_world_def)

theorem written_bytes_copied_back_witness:
  "\<exists>w1 w2 w3. imfs_write_handler imfs_demo_env imfs_demo_world [3, 100, 2] [1, 1, 1] = Some (2, w1) \<and>
    imfs_lseek_handler imfs_demo_env w1 [3, 0, 0] [1, 1, 1] = Some (0, w2) \<and>
    imfs_read_handler imfs_demo_env w2 [3, 200, 2] [1, 1, 1] = Some (2, w3) \<and> hist w3 = [CopyOut 1 200 [5, 6]]"
  using written_bytes_copied_back [where w = imfs_demo_world and i = 3 and E = imfs_demo_env and cage = 1 and fd = 3 and fl = "0x42" and off = 0 and
      p = 100 and bs = "[5, 6]" and q = 200] imfs_demo_world_facts
  by (simp add: open_flags flip: numeral_2_eq_2)

text \<open>A host on which opening and closing succeed.\<close>

definition host_opens :: "'ft imfs_env \<Rightarrow> bool" where
  "host_opens E \<longleftrightarrow> (\<forall>h c. callnumber c = SYS_OPEN \<or> callnumber c = SYS_CLOSE \<longrightarrow> 0 \<le> ge_sys (me_g E) h c)"

text \<open>C18. A dump of a readable regular file ends and the host has accepted exactly the contents of the file,
  in order, however the host splits the writes and whatever directories have to be made
  first.\<close>

theorem dump_delivers_contents:
  assumes ok: "fdtables_ok (me_fd E)" and acc: "host_accepts E" "host_opens E" and inv: "imfs_inv (imfs_of w)"
    and r: "resolve_path (imfs_of w) (normalize_path_for_cage (imfs_of w) 0 path) True = Some (Inr i)"
    and reg: "is_reg (imfs_of w) i" "n_mode (nodes (imfs_of w) ! i) AND S_IRUSR \<noteq> 0" "i < 2 ^ 32"
    and g: "get_unused_virtual_fd (me_fd E) (fdt w) 0 IMFS_FDKIND i False 0 = Some (fd, ft)" "fd < 2 ^ 31"
    and len: "length (contents (imfs_of w) i) < 2 ^ 31" and q: "nul \<notin> set host_path"
  shows "\<exists>w' es. dump_file E w path host_path = Some (Inr (), w') \<and> hist w' = hist w @ es \<and>
    host_written (me_g E) (hist w) es = contents (imfs_of w) i"
proof -
  obtain w1 es1 where w1: "create_host_parent_dirs E w host_path = (Inr (), w1)" "imfs_of w1 = imfs_of w" "fdt w1 = fdt w"
    "hist w1 = hist w @ es1" "host_written (me_g E) (hist w) es1 = []"
    using create_host_silent [OF q] by blast
  define c where "c = raw_call E SYS_OPEN [OwnStr host_path, Num (unat (O_CREAT OR O_WRONLY OR O_TRUNC)), Num 0x1FF, Num 0, Num 0, Num 0] (flagged E [0])"
  define hfd where "hfd = ge_sys (me_g E) (hist w1) c"
  have c: "callnumber c = SYS_OPEN" by (simp add: c_def raw_call_def)
  then have hfd: "\<not> hfd < 0" using acc(2) by (auto simp: host_opens_def hfd_def not_less)
  let ?w2 = "log_event (Threei c) w1"
  have f: "imfs_of ?w2 = imfs_of w" "fdt ?w2 = fdt w" using w1(2,3) by (simp_all add: log_event_def)
  obtain w3 es3 where w3: "dump_body E ?w2 hfd path = Some (Inr (), w3)" "hist w3 = hist ?w2 @ es3"
    "host_written (me_g E) (hist ?w2) es3 = contents (imfs_of w) i"
    using dump_body_delivers [OF ok acc(1), of ?w2 path i fd ft hfd] inv r reg g len unfolding f by blast
  define d where "d = raw_call E SYS_CLOSE [Num (as_u64 hfd), Num 0, Num 0, Num 0, Num 0, Num 0] (plain_cages E)"
  have d: "callnumber d = SYS_CLOSE" by (simp add: d_def raw_call_def)
  then have cl: "\<not> ge_sys (me_g E) (hist w3) d < 0" using acc(2) by (auto simp: host_opens_def not_less)
  have "dump_file E w path host_path = Some (Inr (), log_event (Threei d) w3)"
    using w1(1) q hfd w3(1) cl by (simp add: dump_file_def Let_def c_def [symmetric] hfd_def [symmetric] d_def [symmetric])
  moreover have "host_written (me_g E) (hist w) (es1 @ [Threei c] @ es3 @ [Threei d]) = contents (imfs_of w) i"
    using w1(4,5) w3(3) by (simp add: host_written_append c d)
  ultimately show ?thesis using w1(4) w3(2) by (intro exI [of _ "log_event (Threei d) w3"] exI [of _ "es1 @ [Threei c] @ es3 @ [Threei d]"]) simp
qed

lemma imfs_demo_host: "host_accepts imfs_demo_env" "host_opens imfs_demo_env"
  by (auto simp: host_accepts_def host_opens_def Suc_le_eq)

lemma demo_file_inv: "imfs_inv demo_file"
proof -
  have n: "length (nodes demo_file) = 4" "nodes demo_file ! 0 = nodes demo_fs ! 0" "root_idx demo_file = root_idx demo_fs" "length (nodes demo_fs) = 4"
    "node_free_list demo_file = []"
    by (simp_all add: demo_file_def demo_fs_def fresh_fs_def imfs_empty_def)
  have "node_ok 4 (nodes demo_file ! i)" if "i < 4" for i
    using that by (auto simp: demo_file_def demo_fs_def init_nodes_def node_ok_def node_init_info_def nth_Cons less_Suc_eq numeral_eq_Suc split: nat.splits)
  then have "tree_inv demo_file" using imfs_invD(2) [OF demo_fs_inv] n by (auto simp: tree_inv_def demo_fs_def fresh_fs_def imfs_empty_def)
  moreover have "fd_inv demo_file" by (auto simp: fd_inv_def demo_file_def demo_fs_def split: if_splits)
  ultimately show ?thesis using demo_file_facts(1) by (simp add: imfs_inv_def)
qed

definition imfs_dump_world :: "fd_map imfs_world" where
  "imfs_dump_world = \<lparr>fdt = [], hist = [], imfs_of = demo_file\<rparr>"

theorem dump_delivers_contents_witness:
  "\<exists>w' es. dump_file imfs_demo_env imfs_dump_world ''/a'' ''out/a'' = Some (Inr (), w') \<and> hist w' = es \<and>
    host_written (me_g imfs_demo_env) [] es = [7, 8]"
proof -
  have "resolve_path demo_file (normalize_path_for_cage demo_file 0 ''/a'') True = Some (Inr 3)" by code_simp
  moreover have "n_mode (nodes demo_file ! 3) AND S_IRUSR \<noteq> 0" by code_simp
  moreover have "get_unused_virtual_fd map_fdtables [] 0 IMFS_FDKIND 3 False 0 = Some (0, [((0, 0), mk_entry IMFS_FDKIND 3 False 0)])" by code_simp
  ultimately show ?thesis
    using dump_delivers_contents [where E = imfs_demo_env and w = imfs_dump_world and path = "''/a''" and i = 3 and fd = 0 and host_path = "''out/a''"]
      map_fdtables_ok imfs_demo_host demo_file_facts demo_file_inv
    by (simp add: imfs_dump_world_def)
qed

section \<open>Observed behaviour\<close>

text \<open>A short read overwrites the rest of the buffer the cage passed: whatever the cage had there beyond the
  bytes read is replaced by zeros, up to the count it asked for.\<close>

theorem short_read_zero_fills:
  assumes inv: "imfs_inv (imfs_of w)" and reg: "is_reg (imfs_of w) i" and fd: "at_desc E w cage fd i fl 0"
    and rd: "fl AND O_ACCMODE \<noteq> O_WRONLY" and n: "0 < length (contents (imfs_of w) i)" "length (contents (imfs_of w) i) < n" "n < 2 ^ 31"
    and q: "q \<noteq> 0" "\<And>bs. ge_copyout (me_g E) (hist w) cage q bs"
  shows "\<exists>w'. imfs_read_handler E w [fd, q, n] [cage, cage, cage] = Some (int (length (contents (imfs_of w) i)), w') \<and>
    hist w' = hist w @ [CopyOut cage q (contents (imfs_of w) i @ replicate (n - length (contents (imfs_of w) i)) 0)]"
  using read_handler_at [of w i E "[cage, cage, cage]" "[fd, q, n]" fl 0] assms by (auto simp: copy_to_cage_def)

text \<open>The set-up of the first cage installs the descriptors 0 to 2, and the exec handler that runs right
  after it reserves three more: the first descriptor a program opens is 6.\<close>

theorem exec_reserves_again:
  "(case imfs_exec_handler imfs_demo_env (imfs_preexec imfs_demo_env \<lparr>fdt = [], hist = [], imfs_of = fresh_fs\<rparr> 1) [0, 0, 0, 0, 0, 0] [1, 1, 1, 1, 1, 1] of
      Some (r, w) \<Rightarrow> r = 1 \<and> map (\<lambda>fd. map_option underfd (translate_virtual_fd map_fdtables (fdt w) 1 fd)) [0..<8] =
          [Some 0, Some 0, Some 0, Some 0, Some 0, Some 0, None, None] \<and> fd_info (imfs_of w) (1, 5) = None
    | None \<Rightarrow> False)"
  by code_simp

text \<open>The directory \<open>/tmp\<close> is made with the decimal number 755, that is with the mode bits 01363.\<close>

theorem tmp_mode_decimal:
  "(case imfs_main_start imfs_demo_env [] None of
      Some w \<Rightarrow> (case resolve_path (imfs_of w) ''/tmp'' True of
          Some (Inr i) \<Rightarrow> n_mode (nodes (imfs_of w) ! i) AND S_MODE_BITS = 0x2F3
        | _ \<Rightarrow> False)
    | None \<Rightarrow> False)"
  by code_simp

end
