(* ===== verification/Pipe.thy ===== *)
theory Pipe
  imports Prelude
begin

text \<open>
  The ring buffer pipe of the ipc grate (\<open>rust-grates/ipc-grate/src/pipe.rs\<close>).

  The ring buffer itself is the crate \<open>ringbuf\<close>, a parameter: a record of the operations the
  code calls, with the documented behaviour as the predicate \<open>ringbuf_ok\<close> (a bounded FIFO with
  an abstraction to the queued bytes).  The memory of the calling cage is reached through the
  runtime's \<open>copy_data_between_cages\<close>, also a parameter.

  A call that blocks naps between its attempts; what happens during a nap is given by a list:
  a signal, or the atomic steps the other end performs.  A call that is still blocked when the
  list ends has the value \<open>None\<close>.
\<close>

section \<open>The ringbuf crate\<close>

record 'rb ringbuf_ops =
  ring_new :: "nat \<Rightarrow> 'rb"
  push_slice :: "'rb \<Rightarrow> byte list \<Rightarrow> nat \<times> 'rb"
  pop_slice :: "'rb \<Rightarrow> nat \<Rightarrow> byte list \<times> 'rb"
  vacant_slices :: "'rb \<Rightarrow> nat \<times> nat"
  push_commit :: "'rb \<Rightarrow> byte list \<Rightarrow> byte list \<Rightarrow> 'rb"
  occupied_slices :: "'rb \<Rightarrow> byte list \<times> byte list"
  pop_advance :: "'rb \<Rightarrow> nat \<Rightarrow> 'rb"
  ring_len :: "'rb \<Rightarrow> nat"
  ring_full :: "'rb \<Rightarrow> bool"

text \<open>
  \<open>push_access\<close> hands the closure the two vacant slices and advances by the closure's result:
  \<open>vacant_slices\<close> gives their lengths, \<open>push_commit rb l r\<close> is the buffer after the closure has
  filled \<open>l\<close> into the left and \<open>r\<close> into the right slice.  \<open>pop_access\<close> is split likewise.
\<close>

definition ringbuf_ok :: "'rb ringbuf_ops \<Rightarrow> ('rb \<Rightarrow> byte list) \<Rightarrow> ('rb \<Rightarrow> nat) \<Rightarrow> bool" where
  "ringbuf_ok R q cap \<longleftrightarrow>
     (\<forall>c. q (ring_new R c) = [] \<and> cap (ring_new R c) = c) \<and>
     (\<forall>rb xs. case push_slice R rb xs of (n, rb') \<Rightarrow>
        n = min (length xs) (cap rb - length (q rb)) \<and> q rb' = q rb @ take n xs \<and> cap rb' = cap rb) \<and>
     (\<forall>rb k. case pop_slice R rb k of (bs, rb') \<Rightarrow>
        bs = take k (q rb) \<and> q rb' = drop k (q rb) \<and> cap rb' = cap rb) \<and>
     (\<forall>rb. fst (vacant_slices R rb) + snd (vacant_slices R rb) = cap rb - length (q rb)) \<and>
     (\<forall>rb l r. length l \<le> fst (vacant_slices R rb) \<longrightarrow> length r \<le> snd (vacant_slices R rb) \<longrightarrow>
        (r \<noteq> [] \<longrightarrow> length l = fst (vacant_slices R rb)) \<longrightarrow>
        q (push_commit R rb l r) = q rb @ l @ r \<and> cap (push_commit R rb l r) = cap rb) \<and>
     (\<forall>rb. fst (occupied_slices R rb) @ snd (occupied_slices R rb) = q rb) \<and>
     (\<forall>rb k. q (pop_advance R rb k) = drop k (q rb) \<and> cap (pop_advance R rb k) = cap rb) \<and>
     (\<forall>rb. ring_len R rb = length (q rb)) \<and>
     (\<forall>rb. ring_full R rb \<longleftrightarrow> cap rb \<le> length (q rb))"

section \<open>Pipes\<close>

definition PIPE_CAPACITY :: nat where
  "PIPE_CAPACITY = 65536"

record 'rb pipe =
  ring :: 'rb
  write_refs :: u32
  read_refs :: u32
  p_eof :: bool

definition pipe_new :: "'rb ringbuf_ops \<Rightarrow> nat \<Rightarrow> 'rb pipe" where
  "pipe_new R capacity = \<lparr>ring = ring_new R capacity, write_refs = 1, read_refs = 1, p_eof = False\<rparr>"

definition incr_write_ref :: "'rb pipe \<Rightarrow> 'rb pipe" where
  "incr_write_ref p = p\<lparr>write_refs := write_refs p + 1\<rparr>"

definition decr_write_ref :: "'rb pipe \<Rightarrow> 'rb pipe" where
  "decr_write_ref p =
     (let prev = write_refs p; p = p\<lparr>write_refs := prev - 1\<rparr>
      in if prev = 1 then p\<lparr>p_eof := True\<rparr> else p)"

definition incr_read_ref :: "'rb pipe \<Rightarrow> 'rb pipe" where
  "incr_read_ref p = p\<lparr>read_refs := read_refs p + 1\<rparr>"

definition decr_read_ref :: "'rb pipe \<Rightarrow> 'rb pipe" where
  "decr_read_ref p = p\<lparr>read_refs := read_refs p - 1\<rparr>"

definition has_data :: "'rb ringbuf_ops \<Rightarrow> 'rb pipe \<Rightarrow> bool" where
  "has_data R p \<longleftrightarrow> ring_len R (ring p) \<noteq> 0"

definition has_space :: "'rb ringbuf_ops \<Rightarrow> 'rb pipe \<Rightarrow> bool" where
  "has_space R p \<longleftrightarrow> \<not> ring_full R (ring p)"

definition bytes_available :: "'rb ringbuf_ops \<Rightarrow> 'rb pipe \<Rightarrow> nat" where
  "bytes_available R p = ring_len R (ring p)"

section \<open>Naps\<close>

datatype peer_step = PeerPop nat | PeerPush "byte list"
  | PeerIncrWrite | PeerDecrWrite | PeerIncrRead | PeerDecrRead

datatype nap = Interrupted | Resumed "peer_step list"

fun peer_apply :: "'rb ringbuf_ops \<Rightarrow> peer_step \<Rightarrow> 'rb pipe \<Rightarrow> 'rb pipe" where
  "peer_apply R (PeerPop k) p = p\<lparr>ring := snd (pop_slice R (ring p) k)\<rparr>"
| "peer_apply R (PeerPush xs) p = p\<lparr>ring := snd (push_slice R (ring p) xs)\<rparr>"
| "peer_apply R PeerIncrWrite p = incr_write_ref p"
| "peer_apply R PeerDecrWrite p = decr_write_ref p"
| "peer_apply R PeerIncrRead p = incr_read_ref p"
| "peer_apply R PeerDecrRead p = decr_read_ref p"

definition peers :: "'rb ringbuf_ops \<Rightarrow> peer_step list \<Rightarrow> 'rb pipe \<Rightarrow> 'rb pipe" where
  "peers R sts p = fold (peer_apply R) sts p"

section \<open>Reading\<close>

fun pipe_read_loop ::
  "'rb ringbuf_ops \<Rightarrow> 'rb pipe \<Rightarrow> nat \<Rightarrow> bool \<Rightarrow> nap list \<Rightarrow> (int \<times> byte list \<times> 'rb pipe) option" where
  "pipe_read_loop R p read_count nonblocking naps =
     (let (bs, rb) = pop_slice R (ring p) read_count; p = p\<lparr>ring := rb\<rparr> in
      if length bs > 0 then Some (as_i32 (int (length bs)), bs, p)
      else if p_eof p then Some (0, [], p)
      else if nonblocking then Some (-11, [], p)
      else (case naps of
          [] \<Rightarrow> None
        | Interrupted # _ \<Rightarrow> Some (-4, [], p)
        | Resumed sts # ns \<Rightarrow> pipe_read_loop R (peers R sts p) read_count nonblocking ns))"

declare pipe_read_loop.simps [simp del]

text \<open>\<open>read\<close>: the status, the destination buffer and the pipe afterwards.\<close>

definition pipe_read ::
  "'rb ringbuf_ops \<Rightarrow> 'rb pipe \<Rightarrow> byte list \<Rightarrow> nat \<Rightarrow> bool \<Rightarrow> nap list \<Rightarrow> (int \<times> byte list \<times> 'rb pipe) option" where
  "pipe_read R p dst count nonblocking naps =
     map_option (\<lambda>(r, bs, p). (r, overwrite dst 0 bs, p))
       (pipe_read_loop R p (min count (length dst)) nonblocking naps)"

section \<open>Writing\<close>

fun pipe_write_loop ::
  "'rb ringbuf_ops \<Rightarrow> 'rb pipe \<Rightarrow> byte list \<Rightarrow> nat \<Rightarrow> bool \<Rightarrow> nap list \<Rightarrow> (int \<times> nat \<times> 'rb pipe) option" where
  "pipe_write_loop R p src written nonblocking naps =
     (if written < length src then
        let (n, rb) = push_slice R (ring p) (drop written src); p = p\<lparr>ring := rb\<rparr>; written = written + n in
        if written \<ge> length src then Some (as_i32 (int written), written, p)
        else if read_refs p = 0 then Some (-32, written, p)
        else if nonblocking then Some (if written > 0 then as_i32 (int written) else -11, written, p)
        else (case naps of
            [] \<Rightarrow> None
          | Interrupted # _ \<Rightarrow> Some (if written > 0 then as_i32 (int written) else -4, written, p)
          | Resumed sts # ns \<Rightarrow> pipe_write_loop R (peers R sts p) src written nonblocking ns)
      else Some (as_i32 (int written), written, p))"

declare pipe_write_loop.simps [simp del]

text \<open>The status, the number of bytes pushed (not returned by the code) and the pipe.\<close>

definition pipe_write ::
  "'rb ringbuf_ops \<Rightarrow> 'rb pipe \<Rightarrow> byte list \<Rightarrow> nat \<Rightarrow> bool \<Rightarrow> nap list \<Rightarrow> (int \<times> nat \<times> 'rb pipe) option" where
  "pipe_write R p src count nonblocking naps =
     (if read_refs p = 0 then Some (-32, 0, p)
      else pipe_write_loop R p (take count src) 0 nonblocking naps)"

section \<open>Direct transfers with the calling cage\<close>

text \<open>
  \<open>copy_in c a n\<close> are the \<open>n\<close> bytes found in the ring storage after
  \<open>copy_data_between_cages\<close> from address \<open>a\<close> of cage \<open>c\<close>; \<open>copy_out m c a bs\<close> is the memory
  \<open>m\<close> after copying \<open>bs\<close> to address \<open>a\<close> of cage \<open>c\<close>.
\<close>

definition push_from_cage ::
  "'rb ringbuf_ops \<Rightarrow> (nat \<Rightarrow> nat \<Rightarrow> nat \<Rightarrow> byte list) \<Rightarrow> 'rb \<Rightarrow> nat \<Rightarrow> nat \<Rightarrow> nat \<Rightarrow> nat \<times> 'rb" where
  "push_from_cage R copy_in rb src_cage cur_src want =
     (let (left, right) = vacant_slices R rb;
          n_left = min want left;
          l = (if n_left > 0 then copy_in src_cage cur_src n_left else []);
          n_right = min (want - n_left) right;
          r = (if n_right > 0 then copy_in src_cage (cur_src + n_left) n_right else [])
      in (n_left + n_right, push_commit R rb l r))"

fun write_from_cage_loop ::
  "'rb ringbuf_ops \<Rightarrow> (nat \<Rightarrow> nat \<Rightarrow> nat \<Rightarrow> byte list) \<Rightarrow> 'rb pipe \<Rightarrow> nat \<Rightarrow> nat \<Rightarrow> nat \<Rightarrow> nat \<Rightarrow> bool \<Rightarrow>
    nap list \<Rightarrow> (int \<times> nat \<times> 'rb pipe) option" where
  "write_from_cage_loop R copy_in p src_cage src_addr count written nonblocking naps =
     (if written < count then
        let (n, rb) = push_from_cage R copy_in (ring p) src_cage (src_addr + written) (count - written);
            p = p\<lparr>ring := rb\<rparr>; written = written + n in
        if written \<ge> count then Some (as_i32 (int written), written, p)
        else if read_refs p = 0 then Some (-32, written, p)
        else if nonblocking then Some (if written > 0 then as_i32 (int written) else -11, written, p)
        else (case naps of
            [] \<Rightarrow> None
          | Interrupted # _ \<Rightarrow> Some (if written > 0 then as_i32 (int written) else -4, written, p)
          | Resumed sts # ns \<Rightarrow>
              write_from_cage_loop R copy_in (peers R sts p) src_cage src_addr count written nonblocking ns)
      else Some (as_i32 (int written), written, p))"

declare write_from_cage_loop.simps [simp del]

definition write_from_cage ::
  "'rb ringbuf_ops \<Rightarrow> (nat \<Rightarrow> nat \<Rightarrow> nat \<Rightarrow> byte list) \<Rightarrow> 'rb pipe \<Rightarrow> nat \<Rightarrow> nat \<Rightarrow> nat \<Rightarrow> bool \<Rightarrow> nap list \<Rightarrow>
    (int \<times> nat \<times> 'rb pipe) option" where
  "write_from_cage R copy_in p src_cage src_addr count nonblocking naps =
     (if read_refs p = 0 then Some (-32, 0, p)
      else if count = 0 then Some (0, 0, p)
      else write_from_cage_loop R copy_in p src_cage src_addr count 0 nonblocking naps)"

definition pop_to_cage ::
  "'rb ringbuf_ops \<Rightarrow> ('m \<Rightarrow> nat \<Rightarrow> nat \<Rightarrow> byte list \<Rightarrow> 'm) \<Rightarrow> 'm \<Rightarrow> 'rb \<Rightarrow> nat \<Rightarrow> nat \<Rightarrow> nat \<Rightarrow> nat \<times> 'm \<times> 'rb" where
  "pop_to_cage R copy_out m rb dst_cage dst_addr want =
     (let (left, right) = occupied_slices R rb;
          n_left = min want (length left);
          m = (if n_left > 0 then copy_out m dst_cage dst_addr (take n_left left) else m);
          n_right = min (want - n_left) (length right);
          m = (if n_right > 0 then copy_out m dst_cage (dst_addr + n_left) (take n_right right) else m)
      in (n_left + n_right, m, pop_advance R rb (n_left + n_right)))"

fun read_to_cage_loop ::
  "'rb ringbuf_ops \<Rightarrow> ('m \<Rightarrow> nat \<Rightarrow> nat \<Rightarrow> byte list \<Rightarrow> 'm) \<Rightarrow> 'm \<Rightarrow> 'rb pipe \<Rightarrow> nat \<Rightarrow> nat \<Rightarrow> nat \<Rightarrow> bool \<Rightarrow>
    nap list \<Rightarrow> (int \<times> 'm \<times> 'rb pipe) option" where
  "read_to_cage_loop R copy_out m p dst_cage dst_addr count nonblocking naps =
     (let (n, m, rb) = pop_to_cage R copy_out m (ring p) dst_cage dst_addr count; p = p\<lparr>ring := rb\<rparr> in
      if n > 0 then Some (as_i32 (int n), m, p)
      else if p_eof p then Some (0, m, p)
      else if nonblocking then Some (-11, m, p)
      else (case naps of
          [] \<Rightarrow> None
        | Interrupted # _ \<Rightarrow> Some (-4, m, p)
        | Resumed sts # ns \<Rightarrow>
            read_to_cage_loop R copy_out m (peers R sts p) dst_cage dst_addr count nonblocking ns))"

declare read_to_cage_loop.simps [simp del]

definition read_to_cage ::
  "'rb ringbuf_ops \<Rightarrow> ('m \<Rightarrow> nat \<Rightarrow> nat \<Rightarrow> byte list \<Rightarrow> 'm) \<Rightarrow> 'm \<Rightarrow> 'rb pipe \<Rightarrow> nat \<Rightarrow> nat \<Rightarrow> nat \<Rightarrow> bool \<Rightarrow>
    nap list \<Rightarrow> (int \<times> 'm \<times> 'rb pipe) option" where
  "read_to_cage R copy_out m p dst_cage dst_addr count nonblocking naps =
     (if count = 0 then Some (0, m, p)
      else read_to_cage_loop R copy_out m p dst_cage dst_addr count nonblocking naps)"

section \<open>A concrete ring buffer\<close>

text \<open>Queued bytes with a capacity; the vacant and the occupied space split into two slices.\<close>

type_synonym list_ring = "byte list \<times> nat"

definition list_ring :: "list_ring ringbuf_ops" where
  "list_ring =
     \<lparr>ring_new = (\<lambda>c. ([], c)),
      push_slice = (\<lambda>(q, c) xs. let n = min (length xs) (c - length q) in (n, (q @ take n xs, c))),
      pop_slice = (\<lambda>(q, c) k. (take k q, (drop k q, c))),
      vacant_slices = (\<lambda>(q, c). let v = c - length q in (v - v div 2, v div 2)),
      push_commit = (\<lambda>(q, c) l r. (q @ l @ r, c)),
      occupied_slices = (\<lambda>(q, c). (take (length q div 2) q, drop (length q div 2) q)),
      pop_advance = (\<lambda>(q, c) k. (drop k q, c)),
      ring_len = (\<lambda>(q, c). length q),
      ring_full = (\<lambda>(q, c). c \<le> length q)\<rparr>"

lemma list_ring_ok: "ringbuf_ok list_ring fst snd"
  by (auto simp: ringbuf_ok_def list_ring_def Let_def)

section \<open>Laws of the ring buffer\<close>

lemma ring_push:
  assumes "ringbuf_ok R q cap" and "push_slice R rb xs = (n, rb')"
  shows "n = min (length xs) (cap rb - length (q rb))" and "q rb' = q rb @ take n xs" and "cap rb' = cap rb"
  using assms unfolding ringbuf_ok_def by (metis (mono_tags, lifting) case_prod_conv)+

lemma ring_pop:
  assumes "ringbuf_ok R q cap" and "pop_slice R rb k = (bs, rb')"
  shows "bs = take k (q rb)" and "q rb' = drop k (q rb)" and "cap rb' = cap rb"
  using assms unfolding ringbuf_ok_def by (metis (mono_tags, lifting) case_prod_conv)+

lemma ring_vacant:
  "ringbuf_ok R q cap \<Longrightarrow> vacant_slices R rb = (a, b) \<Longrightarrow> a + b = cap rb - length (q rb)"
  unfolding ringbuf_ok_def by (metis fst_conv snd_conv)

lemma ring_commit:
  assumes "ringbuf_ok R q cap" and "vacant_slices R rb = (a, b)" and "length l \<le> a" and "length r \<le> b"
    and "r \<noteq> [] \<Longrightarrow> length l = a"
  shows "q (push_commit R rb l r) = q rb @ l @ r" and "cap (push_commit R rb l r) = cap rb"
  using assms unfolding ringbuf_ok_def by simp_all

lemma ring_occupied:
  "ringbuf_ok R q cap \<Longrightarrow> occupied_slices R rb = (l, r) \<Longrightarrow> q rb = l @ r"
  unfolding ringbuf_ok_def by (metis fst_conv snd_conv)

lemma ring_advance:
  assumes "ringbuf_ok R q cap"
  shows "q (pop_advance R rb k) = drop k (q rb)" and "cap (pop_advance R rb k) = cap rb"
  using assms unfolding ringbuf_ok_def by blast+

lemma ring_len: "ringbuf_ok R q cap \<Longrightarrow> ring_len R rb = length (q rb)"
  and ring_full: "ringbuf_ok R q cap \<Longrightarrow> ring_full R rb \<longleftrightarrow> cap rb \<le> length (q rb)"
  unfolding ringbuf_ok_def by blast+

section \<open>What a pipe's state means\<close>

text \<open>The queued bytes, and the view of a pipe the other operations depend on.\<close>

definition pview :: "('rb \<Rightarrow> byte list) \<Rightarrow> ('rb \<Rightarrow> nat) \<Rightarrow> 'rb pipe \<Rightarrow> byte list \<times> nat \<times> u32 \<times> u32 \<times> bool" where
  "pview q cap p = (q (ring p), cap (ring p), write_refs p, read_refs p, p_eof p)"

lemma pview_eqD:
  assumes "pview q cap p = pview q' cap' p'"
  shows "q (ring p) = q' (ring p')" and "cap (ring p) = cap' (ring p')" and "write_refs p = write_refs p'"
    and "read_refs p = read_refs p'" and "p_eof p = p_eof p'"
  using assms by (simp_all add: pview_def)

text \<open>The steps of the other end depend on the view only.\<close>

lemma peer_apply_view:
  assumes R: "ringbuf_ok R q cap" and v: "pview q cap p = pview q cap p'"
  shows "pview q cap (peer_apply R st p) = pview q cap (peer_apply R st p')"
proof (cases st)
  case (PeerPop k)
  obtain bs rb bs' rb' where pop: "pop_slice R (ring p) k = (bs, rb)" "pop_slice R (ring p') k = (bs', rb')"
    by (metis surj_pair)
  from ring_pop [OF R pop(1)] ring_pop [OF R pop(2)] show ?thesis
    using pview_eqD [OF v] by (simp add: PeerPop pop pview_def)
next
  case (PeerPush xs)
  obtain n rb n' rb' where push: "push_slice R (ring p) xs = (n, rb)" "push_slice R (ring p') xs = (n', rb')"
    by (metis surj_pair)
  from ring_push [OF R push(1)] ring_push [OF R push(2)] show ?thesis
    using pview_eqD [OF v] by (simp add: PeerPush push pview_def)
qed (use pview_eqD [OF v] in \<open>simp_all add: pview_def incr_write_ref_def decr_write_ref_def incr_read_ref_def
    decr_read_ref_def Let_def\<close>)

lemma peers_view:
  assumes R: "ringbuf_ok R q cap"
  shows "pview q cap p = pview q cap p' \<Longrightarrow> pview q cap (peers R sts p) = pview q cap (peers R sts p')"
proof (induction sts arbitrary: p p')
  case (Cons st sts)
  from Cons.IH [OF peer_apply_view [OF R Cons.prems, of st]] show ?case by (simp add: peers_def)
qed (simp add: peers_def)

section \<open>One attempt\<close>


lemma pipe_write_loop_unfold:
  assumes "push_slice R (ring p) (drop w src) = (n, rb)" and "w < length src"
  shows "pipe_write_loop R p src w nb naps =
    (if w + n \<ge> length src then Some (as_i32 (int (w + n)), w + n, p\<lparr>ring := rb\<rparr>)
     else if read_refs p = 0 then Some (-32, w + n, p\<lparr>ring := rb\<rparr>)
     else if nb then Some (if w + n > 0 then as_i32 (int (w + n)) else -11, w + n, p\<lparr>ring := rb\<rparr>)
     else (case naps of [] \<Rightarrow> None
       | Interrupted # _ \<Rightarrow> Some (if w + n > 0 then as_i32 (int (w + n)) else -4, w + n, p\<lparr>ring := rb\<rparr>)
       | Resumed sts # ns \<Rightarrow> pipe_write_loop R (peers R sts (p\<lparr>ring := rb\<rparr>)) src (w + n) nb ns))"
  using assms by (subst pipe_write_loop.simps) (simp add: Let_def)

lemma pipe_write_loop_end [simp]:
  "length src \<le> w \<Longrightarrow> pipe_write_loop R p src w nb naps = Some (as_i32 (int w), w, p)"
  by (subst pipe_write_loop.simps) simp

section \<open>Conservation of bytes\<close>

text \<open>The single-producer, single-consumer discipline: during a write the others do not push, during a
  read they do not pop.\<close>

definition no_push :: "peer_step list \<Rightarrow> bool" where
  "no_push sts \<longleftrightarrow> (\<forall>xs. PeerPush xs \<notin> set sts)"


fun naps_all :: "(peer_step list \<Rightarrow> bool) \<Rightarrow> nap list \<Rightarrow> bool" where
  "naps_all P [] \<longleftrightarrow> True"
| "naps_all P (Interrupted # ns) \<longleftrightarrow> naps_all P ns"
| "naps_all P (Resumed sts # ns) \<longleftrightarrow> P sts \<and> naps_all P ns"

lemma peers_drain:
  assumes R: "ringbuf_ok R q cap"
  shows "no_push sts \<Longrightarrow> \<exists>c. c @ q (ring (peers R sts p)) = q (ring p)"
proof (induction sts arbitrary: p)
  case (Cons st sts)
  then obtain c where c: "c @ q (ring (peers R sts (peer_apply R st p))) = q (ring (peer_apply R st p))"
    by (fastforce simp: no_push_def)
  have "\<exists>d. d @ q (ring (peer_apply R st p)) = q (ring p)"
  proof (cases st)
    case (PeerPop k)
    obtain bs rb where "pop_slice R (ring p) k = (bs, rb)" by fastforce
    with ring_pop [OF R this] show ?thesis by (simp add: PeerPop) (metis append_take_drop_id)
  next
    case (PeerPush xs)
    with Cons.prems show ?thesis by (auto simp: no_push_def)
  qed (simp_all add: incr_write_ref_def decr_write_ref_def incr_read_ref_def decr_read_ref_def Let_def)
  then obtain d where "d @ q (ring (peer_apply R st p)) = q (ring p)" ..
  with c have "(d @ c) @ q (ring (peers R (st # sts) p)) = q (ring p)" by (simp add: peers_def)
  then show ?case ..
qed (simp add: peers_def)


lemma write_loop_stream:
  assumes R: "ringbuf_ok R q cap"
  shows "pipe_write_loop R p src w nb naps = Some (r, n, p') \<Longrightarrow> naps_all no_push naps \<Longrightarrow> w \<le> length src \<Longrightarrow>
    w \<le> n \<and> n \<le> length src \<and> (\<exists>c. c @ q (ring p') = q (ring p) @ take (n - w) (drop w src))"
proof (induction naps arbitrary: p w)
  case Nil
  show ?case
  proof (cases "w < length src")
    case True
    obtain m rb where push: "push_slice R (ring p) (drop w src) = (m, rb)" by fastforce
    note P = ring_push [OF R push]
    from Nil.prems True P have "n = w + m \<and> p' = p\<lparr>ring := rb\<rparr>"
      by (auto simp: pipe_write_loop_unfold [OF push] split: if_splits)
    with P True show ?thesis by (auto intro!: exI [of _ "[]"])
  qed (use Nil.prems in auto)
next
  case (Cons nap naps)
  show ?case
  proof (cases "w < length src")
    case True
    obtain m rb where push: "push_slice R (ring p) (drop w src) = (m, rb)" by fastforce
    note P = ring_push [OF R push]
    note U = pipe_write_loop_unfold [OF push True]
    show ?thesis
    proof (cases "n = w + m \<and> p' = p\<lparr>ring := rb\<rparr>")
      case True
      with P \<open>w < length src\<close> show ?thesis by (auto intro!: exI [of _ "[]"])
    next
      case False
      with Cons.prems(1) obtain sts where nap: "nap = Resumed sts"
        and rec: "pipe_write_loop R (peers R sts (p\<lparr>ring := rb\<rparr>)) src (w + m) nb naps = Some (r, n, p')"
        by (auto simp: U split: if_splits nap.splits)
      from Cons.prems(2) nap have np: "no_push sts" "naps_all no_push naps" by auto
      have "w + m \<le> length src" using P True by simp
      from Cons.IH [OF rec np(2) this] obtain c where n: "w + m \<le> n" "n \<le> length src"
        and c: "c @ q (ring p') = q (ring (peers R sts (p\<lparr>ring := rb\<rparr>))) @ take (n - (w + m)) (drop (w + m) src)" by auto
      obtain d where d: "d @ q (ring (peers R sts (p\<lparr>ring := rb\<rparr>))) = q rb"
        using peers_drain [OF R np(1), of "p\<lparr>ring := rb\<rparr>"] by auto
      note take_drop_join [OF n(1), of src]
      with c d P(2) have "(d @ c) @ q (ring p') = q (ring p) @ take (n - w) (drop w src)"
        by (metis append.assoc)
      then have "\<exists>c. c @ q (ring p') = q (ring p) @ take (n - w) (drop w src)" ..
      with n show ?thesis by simp
    qed
  qed (use Cons.prems in auto)
qed


lemma write_loop_status:
  "pipe_write_loop R p src w nb naps = Some (r, n, p') \<Longrightarrow> r = as_i32 (int n) \<or> r \<in> {-4, -11, -32}"
proof (induction naps arbitrary: p w)
  case Nil
  then show ?case
    by (cases "w < length src"; cases "push_slice R (ring p) (drop w src)")
      (auto simp: pipe_write_loop_unfold split: if_splits)
next
  case (Cons nap naps)
  obtain m rb where push: "push_slice R (ring p) (drop w src) = (m, rb)" by fastforce
  show ?case
  proof (cases "w < length src")
    case True
    from Cons.prems Cons.IH show ?thesis
      by (auto simp: pipe_write_loop_unfold [OF push True] split: if_splits nap.splits)
  qed (use Cons.prems in auto)
qed


text \<open>A write that stops short found the ring full, or no reader any more.\<close>

lemma write_loop_short:
  assumes R: "ringbuf_ok R q cap"
  shows "pipe_write_loop R p src w nb naps = Some (r, n, p') \<Longrightarrow> n < length src \<Longrightarrow>
    (r = -32 \<and> read_refs p' = 0) \<or> (cap (ring p') \<le> length (q (ring p')) \<and> (nb \<or> Interrupted \<in> set naps))"
proof (induction naps arbitrary: p w)
  case Nil
  obtain m rb where push: "push_slice R (ring p) (drop w src) = (m, rb)" by fastforce
  show ?case
  proof (cases "w < length src")
    case True
    from Nil.prems ring_push [OF R push] show ?thesis
      by (auto simp: pipe_write_loop_unfold [OF push True] split: if_splits)
  qed (use Nil.prems in auto)
next
  case (Cons nap naps)
  obtain m rb where push: "push_slice R (ring p) (drop w src) = (m, rb)" by fastforce
  show ?case
  proof (cases "w < length src")
    case True
    from Cons.prems Cons.IH ring_push [OF R push] show ?thesis
      by (fastforce simp: pipe_write_loop_unfold [OF push True] split: if_splits nap.splits)
  qed (use Cons.prems in auto)
qed


section \<open>The direct transfers\<close>

text \<open>\<open>mem\<close> is the user buffer at \<open>addr\<close> of cage \<open>c\<close>, as \<open>copy_data_between_cages\<close> delivers it.\<close>

definition delivers :: "(nat \<Rightarrow> nat \<Rightarrow> nat \<Rightarrow> byte list) \<Rightarrow> nat \<Rightarrow> nat \<Rightarrow> byte list \<Rightarrow> bool" where
  "delivers copy_in c addr mem \<longleftrightarrow>
     (\<forall>k n. k + n \<le> length mem \<longrightarrow> copy_in c (addr + k) n = take n (drop k mem))"

lemma push_from_cage_eq:
  assumes R: "ringbuf_ok R q cap" and mem: "delivers copy_in c addr mem" and w: "w \<le> length mem"
    and pf: "push_from_cage R copy_in rb c (addr + w) (length mem - w) = (n, rb')"
  shows "n = min (length mem - w) (cap rb - length (q rb))" and "q rb' = q rb @ take n (drop w mem)"
    and "cap rb' = cap rb"
proof -
  obtain a b where v: "vacant_slices R rb = (a, b)" by fastforce
  note ab = ring_vacant [OF R v]
  define nl where "nl = min (length mem - w) a"
  define nr where "nr = min (length mem - w - nl) b"
  have l: "copy_in c (addr + w) nl = take nl (drop w mem)" "copy_in c (addr + w + nl) nr = take nr (drop (w + nl) mem)"
    using mem w unfolding delivers_def nr_def nl_def by (simp_all add: add.assoc)
  have "push_from_cage R copy_in rb c (addr + w) (length mem - w) = (nl + nr, push_commit R rb
      (if 0 < nl then copy_in c (addr + w) nl else []) (if 0 < nr then copy_in c (addr + w + nl) nr else []))"
    by (simp only: push_from_cage_def Let_def v case_prod_conv nl_def nr_def)
  then have n: "n = nl + nr" and rb': "rb' = push_commit R rb (take nl (drop w mem)) (take nr (drop (w + nl) mem))"
    using pf l by (auto split: if_splits)
  show "n = min (length mem - w) (cap rb - length (q rb))" 
    unfolding n nr_def nl_def ab [symmetric] by arith
  have len: "length (take nl (drop w mem)) = nl" "length (take nr (drop (w + nl) mem)) = nr"
    by (simp_all add: nl_def nr_def)
  have cond: "length (take nl (drop w mem)) \<le> a" "length (take nr (drop (w + nl) mem)) \<le> b"
    "take nr (drop (w + nl) mem) \<noteq> [] \<Longrightarrow> length (take nl (drop w mem)) = a"
    unfolding len by (auto simp: nl_def nr_def min_def split: if_splits)
  have "take nl (drop w mem) @ take nr (drop (w + nl) mem) = take (nl + nr) (drop w mem)"
    by (simp only: take_add drop_drop add.commute)
  with ring_commit [OF R v cond] show "q rb' = q rb @ take n (drop w mem)" "cap rb' = cap rb"
    by (simp_all add: rb' n)
qed

definition same_result :: "('rb \<Rightarrow> byte list) \<Rightarrow> ('rb \<Rightarrow> nat) \<Rightarrow> (int \<times> nat \<times> 'rb pipe) option \<Rightarrow>
    (int \<times> nat \<times> 'rb pipe) option \<Rightarrow> bool" where
  "same_result q cap = rel_option (\<lambda>(r, n, p) (r', n', p'). r = r' \<and> n = n' \<and> pview q cap p = pview q cap p')"

lemma same_result_simps [simp]:
  "same_result q cap None None"
  "same_result q cap (Some (r, n, p)) (Some (r', n', p')) \<longleftrightarrow> r = r' \<and> n = n' \<and> pview q cap p = pview q cap p'"
  by (simp_all add: same_result_def)

lemma write_from_cage_loop_eq:
  assumes R: "ringbuf_ok R q cap" and mem: "delivers copy_in c addr mem"
  shows "pview q cap p = pview q cap p' \<Longrightarrow> w \<le> length mem \<Longrightarrow>
    same_result q cap (write_from_cage_loop R copy_in p c addr (length mem) w nb naps)
      (pipe_write_loop R p' mem w nb naps)"
proof (induction naps arbitrary: p p' w rule: length_induct)
  case (1 naps)
  show ?case
  proof (cases "w < length mem")
    case False
    with 1(2,3) show ?thesis by (subst write_from_cage_loop.simps) simp
  next
    case True
    obtain n rb where pf: "push_from_cage R copy_in (ring p) c (addr + w) (length mem - w) = (n, rb)" by fastforce
    obtain n' rb' where push: "push_slice R (ring p') (drop w mem) = (n', rb')" by fastforce
    note A = push_from_cage_eq [OF R mem 1(3) pf] and B = ring_push [OF R push]
    note V = pview_eqD [OF 1(2)]
    have n: "n' = n" using A(1) B(1) V by simp
    have v: "pview q cap (p\<lparr>ring := rb\<rparr>) = pview q cap (p'\<lparr>ring := rb'\<rparr>)"
      using A(2,3) B(2,3) V n by (simp add: pview_def)
    have le: "w + n \<le> length mem" using A(1) True by simp
    note U = pipe_write_loop_unfold [OF push True, of nb naps]
    have W: "write_from_cage_loop R copy_in p c addr (length mem) w nb naps =
      (if w + n \<ge> length mem then Some (as_i32 (int (w + n)), w + n, p\<lparr>ring := rb\<rparr>)
       else if read_refs p = 0 then Some (-32, w + n, p\<lparr>ring := rb\<rparr>)
       else if nb then Some (if w + n > 0 then as_i32 (int (w + n)) else -11, w + n, p\<lparr>ring := rb\<rparr>)
       else (case naps of [] \<Rightarrow> None
         | Interrupted # _ \<Rightarrow> Some (if w + n > 0 then as_i32 (int (w + n)) else -4, w + n, p\<lparr>ring := rb\<rparr>)
         | Resumed sts # ns \<Rightarrow> write_from_cage_loop R copy_in (peers R sts (p\<lparr>ring := rb\<rparr>)) c addr (length mem) (w + n) nb ns))"
      using pf True by (subst write_from_cage_loop.simps) (simp add: Let_def)
    have rec: "same_result q cap (write_from_cage_loop R copy_in (peers R sts (p\<lparr>ring := rb\<rparr>)) c addr (length mem) (w + n) nb ns)
        (pipe_write_loop R (peers R sts (p'\<lparr>ring := rb'\<rparr>)) mem (w + n) nb ns)" if "naps = Resumed sts # ns" for sts ns
      using 1(1) that peers_view [OF R v, of sts] le by simp
    show ?thesis unfolding U W n using v V(4) rec by (auto split: list.split nap.split)
  qed
qed

section \<open>Progress\<close>

text \<open>During every nap the reader takes at least one byte.\<close>

definition reader_drains :: "nap \<Rightarrow> bool" where
  "reader_drains nap \<longleftrightarrow> (\<exists>k > 0. nap = Resumed [PeerPop k])"

lemma write_loop_progress:
  assumes R: "ringbuf_ok R q cap"
  shows "\<forall>nap \<in> set naps. reader_drains nap \<Longrightarrow> 0 < cap (ring p) \<and> length (q (ring p)) \<le> cap (ring p) \<Longrightarrow> read_refs p \<noteq> 0 \<Longrightarrow> w < length src \<Longrightarrow>
    length src - w \<le> length naps + (if length (q (ring p)) < cap (ring p) then 1 else 0) \<Longrightarrow>
    \<exists>p'. pipe_write_loop R p src w False naps = Some (as_i32 (int (length src)), length src, p')"
proof (induction naps arbitrary: p w)
  case Nil
  obtain n rb where push: "push_slice R (ring p) (drop w src) = (n, rb)" by fastforce
  have "length src \<le> w + n" using Nil.prems ring_push(1) [OF R push] by (auto split: if_splits)
  with ring_push(1) [OF R push] Nil.prems(4) have "w + n = length src" by simp
  then show ?case by (simp add: pipe_write_loop_unfold [OF push Nil.prems(4)])
next
  case (Cons nap naps)
  obtain k where nap: "nap = Resumed [PeerPop k]" and k: "0 < k" using Cons.prems(1) by (auto simp: reader_drains_def)
  obtain n rb where push: "push_slice R (ring p) (drop w src) = (n, rb)" by fastforce
  note P = ring_push [OF R push]
  note U = pipe_write_loop_unfold [OF push Cons.prems(4)]
  show ?case
  proof (cases "length src \<le> w + n")
    case True
    with P(1) Cons.prems(4) have "w + n = length src" by simp
    then show ?thesis by (simp add: U)
  next
    case False
    obtain bs rb' where pop: "pop_slice R rb k = (bs, rb')" by fastforce
    note Q = ring_pop [OF R pop]
    let ?p = "peers R [PeerPop k] (p\<lparr>ring := rb\<rparr>)"
    have p: "ring ?p = rb'" "read_refs ?p = read_refs p" by (simp_all add: peers_def pop)
    have n: "n = cap (ring p) - length (q (ring p))" using P(1) False by simp
    have "length (q rb) \<le> cap rb" using P(2,3) n Cons.prems(2) by (auto simp: min_def)
    then have lt: "length (q rb') < cap rb'" using Q(2,3) P(3) k Cons.prems(2) by auto
    have "length src - (w + n) \<le> length naps + 1"
      using Cons.prems(5) n by (auto split: if_splits)
    then have "\<exists>p'. pipe_write_loop R ?p src (w + n) False naps = Some (as_i32 (int (length src)), length src, p')"
      using Cons.prems lt p False Q(3) P(3) by (intro Cons.IH) auto
    with False Cons.prems(3) show ?thesis by (simp add: U nap)
  qed
qed

section \<open>The contract of a byte channel\<close>

text \<open>What a user of a pipe relies on: a write accepts a prefix and queues it at the end, a read
  takes from the front.  A session is a sequence of such operations, by any number of writers and
  readers.\<close>

datatype chan_op = Send "byte list" | Recv nat

fun channel_run ::
  "('p \<Rightarrow> byte list \<Rightarrow> nat \<times> 'p) \<Rightarrow> ('p \<Rightarrow> nat \<Rightarrow> byte list \<times> 'p) \<Rightarrow> chan_op list \<Rightarrow> 'p \<Rightarrow>
    byte list \<times> byte list \<times> 'p" where
  "channel_run put get [] p = ([], [], p)"
| "channel_run put get (Send xs # ops) p =
     (let (n, p) = put p xs; (acc, rcv, p) = channel_run put get ops p in (take n xs @ acc, rcv, p))"
| "channel_run put get (Recv k # ops) p =
     (let (bs, p) = get p k; (acc, rcv, p) = channel_run put get ops p in (acc, bs @ rcv, p))"

locale byte_channel =
  fixes content :: "'p \<Rightarrow> byte list"
    and put :: "'p \<Rightarrow> byte list \<Rightarrow> nat \<times> 'p"
    and get :: "'p \<Rightarrow> nat \<Rightarrow> byte list \<times> 'p"
  assumes put_law: "put p xs = (n, p') \<Longrightarrow> content p' = content p @ take n xs"
    and get_law: "get p k = (bs, p') \<Longrightarrow> content p = bs @ content p'"
begin

lemma conserved:
  "channel_run put get ops p = (acc, rcv, p') \<Longrightarrow> content p @ acc = rcv @ content p'"
proof (induction ops arbitrary: p acc rcv p')
  case (Cons op ops)
  show ?case
  proof (cases op)
    case (Send xs)
    obtain n p1 acc1 where "put p xs = (n, p1)" "channel_run put get ops p1 = (acc1, rcv, p')" "acc = take n xs @ acc1"
      using Cons.prems by (auto simp: Send Let_def split: prod.splits)
    with put_law [of p xs n p1] Cons.IH [of p1 acc1 rcv p'] show ?thesis by simp
  next
    case (Recv k)
    obtain bs p1 rcv1 where "get p k = (bs, p1)" "channel_run put get ops p1 = (acc, rcv1, p')" "rcv = bs @ rcv1"
      using Cons.prems by (auto simp: Recv Let_def split: prod.splits)
    with get_law [of p k bs p1] Cons.IH [of p1 acc rcv1 p'] show ?thesis by simp
  qed
qed simp

end

locale ringbuf_pipe =
  fixes R :: "'rb ringbuf_ops" and q :: "'rb \<Rightarrow> byte list" and cap :: "'rb \<Rightarrow> nat"
  assumes ring_ok: "ringbuf_ok R q cap"

text \<open>Non-blocking calls on a pipe: the bytes accepted and the bytes popped.\<close>

definition pipe_put :: "'rb ringbuf_ops \<Rightarrow> 'rb pipe \<Rightarrow> byte list \<Rightarrow> nat \<times> 'rb pipe" where
  "pipe_put R p xs = (case pipe_write R p xs (length xs) True [] of Some (r, n, p') \<Rightarrow> (n, p') | None \<Rightarrow> (0, p))"

definition pipe_get :: "'rb ringbuf_ops \<Rightarrow> 'rb pipe \<Rightarrow> nat \<Rightarrow> byte list \<times> 'rb pipe" where
  "pipe_get R p k = (case pipe_read_loop R p k True [] of Some (r, bs, p') \<Rightarrow> (bs, p') | None \<Rightarrow> ([], p))"

lemma pipe_put_eq:
  "pipe_put R p xs =
     (if read_refs p = 0 \<or> xs = [] then (0, p)
      else case push_slice R (ring p) xs of (n, rb) \<Rightarrow> (n, p\<lparr>ring := rb\<rparr>))"
  by (simp add: pipe_put_def pipe_write_def pipe_write_loop.simps [of R p xs] Let_def split: prod.splits)

lemma pipe_get_eq: "pipe_get R p k = (case pop_slice R (ring p) k of (bs, rb) \<Rightarrow> (bs, p\<lparr>ring := rb\<rparr>))"
  by (simp add: pipe_get_def pipe_read_loop.simps [of R p] Let_def split: prod.splits)

sublocale ringbuf_pipe \<subseteq> chan: byte_channel "\<lambda>p. q (ring p)" "pipe_put R" "pipe_get R"
proof
  show "q (ring p') = q (ring p) @ take n xs" if "pipe_put R p xs = (n, p')" for p xs n p'
    using that ring_push [OF ring_ok] by (auto simp: pipe_put_eq split: if_splits prod.splits)
  show "q (ring p) = bs @ q (ring p')" if "pipe_get R p k = (bs, p')" for p k bs p'
    using that ring_pop(1,2) [OF ring_ok, of "ring p" k] by (simp add: pipe_get_eq split: prod.splits)
      (metis append_take_drop_id pipe.select_convs(1) pipe.surjective pipe.update_convs(1))
qed

context ringbuf_pipe begin

lemma session:
  assumes "channel_run (pipe_put R) (pipe_get R) ops (pipe_new R c) = (acc, rcv, p')"
  shows "acc = rcv @ q (ring p')"
proof -
  have "q (ring (pipe_new R c)) = []" using ring_ok by (simp add: ringbuf_ok_def pipe_new_def)
  with chan.conserved [OF assms] show ?thesis by simp
qed

end

interpretation list_pipe: ringbuf_pipe list_ring fst snd
  by unfold_locales (rule list_ring_ok)

section \<open>Properties\<close>

text \<open>C8. No byte is lost, duplicated or reordered by a write, blocking or not, however it ends and whatever the reader does
  while it sleeps: the bytes the reader took followed by what is queued are the old queue followed
  by a prefix of the source; a positive status is the length of that prefix.  The write stops short of the whole source only
  with EPIPE when no reader is left, or with the ring full, when it must not block or is interrupted.\<close>

theorem pipe_write_stream:
  assumes R: "ringbuf_ok R q cap" and w: "pipe_write R p src count nb naps = Some (r, n, p')"
    and spsc: "naps_all no_push naps" and small: "length src < 2 ^ 31"
  shows "n \<le> min count (length src) \<and> (\<exists>taken. taken @ q (ring p') = q (ring p) @ take n src) \<and>
    (0 < r \<longrightarrow> r = int n) \<and> r \<in> {int n, -4, -11, -32} \<and>
    (n < min count (length src) \<longrightarrow> (r = -32 \<and> read_refs p' = 0) \<or>
       (cap (ring p') \<le> length (q (ring p')) \<and> (nb \<or> Interrupted \<in> set naps)))"
proof (cases "read_refs p = 0")
  case True
  with w show ?thesis by (auto simp: pipe_write_def intro!: exI [of _ "[]"])
next
  case False
  with w have l: "pipe_write_loop R p (take count src) 0 nb naps = Some (r, n, p')" by (simp add: pipe_write_def)
  have "n \<le> min count (length src)" and st: "\<exists>c. c @ q (ring p') = q (ring p) @ take n src"
    using write_loop_stream [OF R l spsc] by (auto simp: min_def split: if_splits)
  moreover have "r = int n \<or> r \<in> {-4, -11, -32}" using write_loop_status [OF l] calculation(1) small by simp
  moreover have "n < min count (length src) \<longrightarrow> (r = -32 \<and> read_refs p' = 0) \<or>
      (cap (ring p') \<le> length (q (ring p')) \<and> (nb \<or> Interrupted \<in> set naps))"
    using write_loop_short [OF R l] by (auto simp: min_def split: if_splits)
  ultimately show ?thesis by auto
qed

theorem pipe_write_stream_witness:
  "\<exists>r n p'. pipe_write list_ring (pipe_new list_ring 2) [1, 2, 3] 3 False [Resumed [PeerPop 1]] = Some (r, n, p') \<and>
    (\<exists>taken. taken @ fst (ring p') = [1, 2, 3])"
proof -
  have e: "pipe_write list_ring (pipe_new list_ring 2) [1, 2, 3] 3 False [Resumed [PeerPop 1]] =
      Some (3, 3, \<lparr>ring = ([2, 3], 2), write_refs = 1, read_refs = 1, p_eof = False\<rparr>)" by code_simp
  have "naps_all no_push [Resumed [PeerPop 1]]" by (simp add: no_push_def)
  from pipe_write_stream [OF list_ring_ok e this] e show ?thesis
    by (auto simp: pipe_new_def list_ring_def)
qed



text \<open>C19. The zero-copy write from the caller's memory does the same as the plain write of those bytes: same
  status, same count, same queue and reference counts, under every sequence of naps.\<close>

theorem write_from_cage_refines_write:
  assumes R: "ringbuf_ok R q cap" and mem: "delivers copy_in c addr mem"
  shows "same_result q cap (write_from_cage R copy_in p c addr (length mem) nb naps)
    (pipe_write R p mem (length mem) nb naps)"
  using write_from_cage_loop_eq [OF R mem refl, of 0 p nb naps]
  by (auto simp: write_from_cage_def pipe_write_def as_i32_def)

theorem write_from_cage_refines_write_witness:
  "same_result fst snd (write_from_cage list_ring (\<lambda>c a n. take n (drop (a - 100) [4, 5, 6])) (pipe_new list_ring 2) 7 100 3 True [])
    (pipe_write list_ring (pipe_new list_ring 2) [4, 5, 6] 3 True [])"
  using write_from_cage_refines_write [OF list_ring_ok, of "\<lambda>c a n. take n (drop (a - 100) [4, 5, 6])" 7 100 "[4, 5, 6]"
      "pipe_new list_ring 2" True "[]"] by (simp add: delivers_def numeral_3_eq_3)

text \<open>C20. A blocking write ends: if the reader takes at least a byte per nap, the whole source is
  written after at most as many naps as it has bytes.\<close>

theorem pipe_write_terminates:
  assumes R: "ringbuf_ok R q cap" and drains: "\<forall>nap \<in> set naps. reader_drains nap"
    and c: "0 < cap (ring p)" "length (q (ring p)) \<le> cap (ring p)" and rd: "read_refs p \<noteq> 0"
    and enough: "length src \<le> length naps" and small: "length src < 2 ^ 31"
  shows "\<exists>p'. pipe_write R p src (length src) False naps = Some (int (length src), length src, p')"
proof (cases "src = []")
  case True
  with rd show ?thesis by (simp add: pipe_write_def as_i32_def)
next
  case False
  have "length src - 0 \<le> length naps + (if length (q (ring p)) < cap (ring p) then 1 else 0)"
    using enough by simp
  from write_loop_progress [OF R drains _ rd _ this] False c rd small show ?thesis
    by (simp add: pipe_write_def)
qed

theorem pipe_write_terminates_witness:
  "\<exists>p'. pipe_write list_ring (pipe_new list_ring 1) [1, 2] 2 False [Resumed [PeerPop 1], Resumed [PeerPop 3]] = Some (2, 2, p')"
proof -
  have "\<forall>nap \<in> set [Resumed [PeerPop 1], Resumed [PeerPop 3]]. reader_drains nap" by (simp add: reader_drains_def)
  moreover have "0 < snd (ring (pipe_new list_ring 1))" "length (fst (ring (pipe_new list_ring 1))) \<le> snd (ring (pipe_new list_ring 1))"
    "read_refs (pipe_new list_ring 1) \<noteq> 0" by (simp_all add: pipe_new_def list_ring_def)
  moreover have "length [1, 2 :: byte] \<le> length [Resumed [PeerPop 1], Resumed [PeerPop 3]]"
    "length [1, 2 :: byte] < 2 ^ 31" by simp_all
  ultimately have "\<exists>p'. pipe_write list_ring (pipe_new list_ring 1) [1, 2] (length [1, 2 :: byte]) False
      [Resumed [PeerPop 1], Resumed [PeerPop 3]] = Some (int (length [1, 2 :: byte]), length [1, 2 :: byte], p')"
    by (rule pipe_write_terminates [OF list_ring_ok])
  then show ?thesis by (simp add: numeral_2_eq_2)
qed

text \<open>The end-of-file flag is set exactly when no write end is open: it holds of a new pipe and is kept
  by duplicating and closing write ends as long as the count neither over- nor underflows.\<close>

theorem pipe_eof_tracks_writers:
  "p_eof (pipe_new R c) = (write_refs (pipe_new R c) = 0) \<and>
   (p_eof p = (write_refs p = 0) \<longrightarrow> write_refs p \<noteq> 0 \<longrightarrow>
      p_eof (decr_write_ref p) = (write_refs (decr_write_ref p) = 0) \<and>
      (write_refs p + 1 \<noteq> 0 \<longrightarrow> p_eof (incr_write_ref p) = (write_refs (incr_write_ref p) = 0)))"
  by (auto simp: pipe_new_def decr_write_ref_def incr_write_ref_def Let_def)

theorem pipe_eof_tracks_writers_witness:
  "p_eof (decr_write_ref (pipe_new list_ring 1)) = (write_refs (decr_write_ref (pipe_new list_ring 1)) = 0)"
  using pipe_eof_tracks_writers [of list_ring 1 "pipe_new list_ring 1"] by (simp add: pipe_new_def)

text \<open>A pipe is a FIFO: over every sequence of non-blocking writes and reads, the bytes accepted are
  the bytes delivered followed by those still queued; nothing is lost, duplicated or reordered.\<close>

theorem pipe_fifo:
  assumes "ringbuf_ok R q cap"
    and "channel_run (pipe_put R) (pipe_get R) ops (pipe_new R c) = (acc, rcv, p')"
  shows "acc = rcv @ q (ring p')"
  by (rule ringbuf_pipe.session [OF ringbuf_pipe.intro [OF assms(1)] assms(2)])

theorem pipe_fifo_witness:
  "channel_run (pipe_put list_ring) (pipe_get list_ring) [Send [1, 2, 3], Recv 1, Send [4, 5], Recv 9] (pipe_new list_ring 3) =
     ([1, 2, 3, 4], [1, 2, 3, 4], pipe_new list_ring 3) \<and> ([1, 2, 3, 4] :: byte list) = [1, 2, 3, 4] @ fst (ring (pipe_new list_ring 3))"
proof -
  have "channel_run (pipe_put list_ring) (pipe_get list_ring) [Send [1, 2, 3], Recv 1, Send [4, 5], Recv 9] (pipe_new list_ring 3) =
     ([1, 2, 3, 4], [1, 2, 3, 4], pipe_new list_ring 3)"
    by (simp add: pipe_put_eq pipe_get_eq pipe_new_def list_ring_def Let_def)
  with pipe_fifo [OF list_ring_ok this] show ?thesis by blast
qed

end
