(* ===== verification/Sockets.thy ===== *)
theory Sockets
  imports Pipe
begin

text \<open>
  The socket registry of the ipc grate (\<open>rust-grates/ipc-grate/src/socket.rs\<close>).

  An \<open>Arc<PipeBuffer>\<close> is an index into a store of pipes: the two sockets of a connection share
  pipes, and what makes a connection work is which of them share which.  \<open>Arc::new\<close> appends to
  the store; entries are never reused.
\<close>

section \<open>State\<close>

definition UDSOCK_CAPACITY :: nat where
  "UDSOCK_CAPACITY = 212992"

datatype conn_state = NotConnected | Connected | ReadOnly | WriteOnly | Listening

record socket_info =
  s_domain :: int
  s_socktype :: int
  s_state :: conn_state
  s_flags :: int
  local_addr :: "string option"
  remote_addr :: "string option"
  sendpipe :: "nat option"
  recvpipe :: "nat option"

definition socket_info_new :: "int \<Rightarrow> int \<Rightarrow> int \<Rightarrow> socket_info" where
  "socket_info_new d ty fl =
     \<lparr>s_domain = d, s_socktype = ty, s_state = NotConnected, s_flags = fl,
      local_addr = None, remote_addr = None, sendpipe = None, recvpipe = None\<rparr>"

record pending_connection =
  pc_remote_addr :: string
  pipe_to_listener :: nat
  pipe_to_connector :: nat

record socket_registry =
  sockets :: "nat \<rightharpoonup> socket_info"
  next_socket_id :: nat
  pending_connections :: "string \<rightharpoonup> pending_connection list"
  bound_paths :: "string \<rightharpoonup> nat"
  bound_ports :: "u16 \<rightharpoonup> nat"
  next_ephemeral_port :: u16

type_synonym 'rb pipe_store = "'rb pipe list"

definition registry_new :: socket_registry where
  "registry_new =
     \<lparr>sockets = Map.empty, next_socket_id = 0, pending_connections = Map.empty,
      bound_paths = Map.empty, bound_ports = Map.empty, next_ephemeral_port = 60999\<rparr>"

section \<open>Operations\<close>

definition create_socket :: "socket_registry \<Rightarrow> int \<Rightarrow> int \<Rightarrow> int \<Rightarrow> nat \<times> socket_registry" where
  "create_socket reg d ty fl =
     (let sid = next_socket_id reg
      in (sid, reg\<lparr>next_socket_id := (sid + 1) mod 2 ^ 64, sockets := (sockets reg)(sid \<mapsto> socket_info_new d ty fl)\<rparr>))"

definition registry_get :: "socket_registry \<Rightarrow> nat \<Rightarrow> socket_info option" where
  "registry_get reg sid = sockets reg sid"

text \<open>\<open>if let Some(s) = self.sockets.get_mut(&sid) { \<dots> }\<close>.\<close>

definition registry_mod :: "socket_registry \<Rightarrow> nat \<Rightarrow> (socket_info \<Rightarrow> socket_info) \<Rightarrow> socket_registry" where
  "registry_mod reg sid f =
     (case sockets reg sid of None \<Rightarrow> reg | Some s \<Rightarrow> reg\<lparr>sockets := (sockets reg)(sid \<mapsto> f s)\<rparr>)"

definition registry_remove :: "socket_registry \<Rightarrow> nat \<Rightarrow> socket_registry" where
  "registry_remove reg sid =
     (case sockets reg sid of
        None \<Rightarrow> reg
      | Some sock \<Rightarrow>
          let reg = reg\<lparr>sockets := (sockets reg)(sid := None)\<rparr>
          in (case local_addr sock of
                None \<Rightarrow> reg
              | Some addr \<Rightarrow> reg\<lparr>bound_paths := (bound_paths reg)(addr := None)\<rparr>))"

definition port_below :: "u16 \<Rightarrow> u16" where
  "port_below port = (if port > 32768 then port - 1 else 60999)"

text \<open>The loop over the ports; \<open>None\<close> at the outside means that it does not end.\<close>

partial_function (option) alloc_port_loop ::
  "socket_registry \<Rightarrow> u16 \<Rightarrow> u16 \<Rightarrow> (u16 option \<times> socket_registry) option" where
  "alloc_port_loop reg start port =
     (if bound_ports reg port = None
      then Some (Some port, reg\<lparr>next_ephemeral_port := port_below port\<rparr>)
      else if port_below port = start then Some (None, reg)
      else alloc_port_loop reg start (port_below port))"

declare alloc_port_loop.simps [code]

definition alloc_ephemeral_port :: "socket_registry \<Rightarrow> (u16 option \<times> socket_registry) option" where
  "alloc_ephemeral_port reg = alloc_port_loop reg (next_ephemeral_port reg) (next_ephemeral_port reg)"

definition create_socketpair ::
  "'rb ringbuf_ops \<Rightarrow> socket_registry \<Rightarrow> 'rb pipe_store \<Rightarrow> int \<Rightarrow> int \<Rightarrow> int \<Rightarrow>
    (nat \<times> nat) \<times> socket_registry \<times> 'rb pipe_store" where
  "create_socketpair R reg ps d ty fl =
     (let pipe_a = length ps; pipe_b = length ps + 1;
          ps = ps @ [pipe_new R UDSOCK_CAPACITY, pipe_new R UDSOCK_CAPACITY];
          (id1, reg) = create_socket reg d ty fl;
          (id2, reg) = create_socket reg d ty fl;
          reg = registry_mod reg id1 (\<lambda>s. s\<lparr>sendpipe := Some pipe_a, recvpipe := Some pipe_b, s_state := Connected\<rparr>);
          reg = registry_mod reg id2 (\<lambda>s. s\<lparr>sendpipe := Some pipe_b, recvpipe := Some pipe_a, s_state := Connected\<rparr>)
      in ((id1, id2), reg, ps))"

definition establish_connection ::
  "'rb ringbuf_ops \<Rightarrow> socket_registry \<Rightarrow> 'rb pipe_store \<Rightarrow> nat \<Rightarrow> nat \<Rightarrow> socket_registry \<times> 'rb pipe_store" where
  "establish_connection R reg ps connector_id acceptor_id =
     (let to_acceptor = length ps; to_connector = length ps + 1;
          ps = ps @ [pipe_new R UDSOCK_CAPACITY, pipe_new R UDSOCK_CAPACITY];
          reg = registry_mod reg connector_id
            (\<lambda>s. s\<lparr>sendpipe := Some to_acceptor, recvpipe := Some to_connector, s_state := Connected\<rparr>);
          reg = registry_mod reg acceptor_id
            (\<lambda>s. s\<lparr>sendpipe := Some to_connector, recvpipe := Some to_acceptor, s_state := Connected\<rparr>)
      in (reg, ps))"

section \<open>Ephemeral ports\<close>

text \<open>The ports the allocator cycles through, and the number of steps from a port down to the
  start (a full round from the start itself).\<close>

definition in_port_range :: "u16 \<Rightarrow> bool" where
  "in_port_range p \<longleftrightarrow> 32768 \<le> p \<and> p \<le> 60999"

definition port_dist :: "u16 \<Rightarrow> u16 \<Rightarrow> nat" where
  "port_dist start p = (if start < p then unat p - unat start else unat p + 28232 - unat start)"

lemma unat_u16 [simp]: "unat (32768 :: u16) = 32768" "unat (60999 :: u16) = 60999"
  by simp_all

lemma in_port_range_unat: "in_port_range p \<longleftrightarrow> 32768 \<le> unat p \<and> unat p \<le> 60999"
  by (simp add: in_port_range_def word_le_nat_alt)

lemma unat_port_below: "unat (port_below p) = (if 32768 < unat p then unat p - 1 else 60999)"
proof (cases "32768 < unat p")
  case True
  then have "unat (p - 1) = unat p - 1" by (intro unat_minus_one) auto
  with True show ?thesis by (simp add: port_below_def word_less_nat_alt)
qed (simp add: port_below_def word_less_nat_alt)

lemma port_below_range: "in_port_range p \<Longrightarrow> in_port_range (port_below p)"
  by (auto simp: in_port_range_unat unat_port_below)

lemma port_dist_step:
  assumes "in_port_range start" and "in_port_range p" and "port_below p \<noteq> start"
  shows "port_dist start p = Suc (port_dist start (port_below p))"
proof -
  have "unat (port_below p) \<noteq> unat start" using assms(3) by (simp add: word_unat_eq_iff)
  with assms(1,2) show ?thesis
    by (auto simp: port_dist_def word_less_nat_alt in_port_range_unat unat_port_below split: if_splits)
qed

lemma port_dist_last:
  assumes "in_port_range start" and "in_port_range p" and "port_below p = start"
  shows "port_dist start p = 1"
proof -
  have "unat (port_below p) = unat start" using assms(3) by simp
  with assms(1,2) show ?thesis
    by (auto simp: port_dist_def word_less_nat_alt in_port_range_unat unat_port_below split: if_splits)
qed

lemma port_dist_inj:
  assumes "in_port_range start" "in_port_range p" "in_port_range q" "port_dist start p = port_dist start q"
  shows "p = q"
proof -
  have "unat p = unat q" using assms
    by (auto simp: port_dist_def word_less_nat_alt in_port_range_unat split: if_splits)
  then show ?thesis by (simp add: word_unat_eq_iff)
qed

lemma port_dist_pos: "in_port_range start \<Longrightarrow> in_port_range p \<Longrightarrow> 1 \<le> port_dist start p"
  by (auto simp: port_dist_def word_less_nat_alt in_port_range_unat split: if_splits)

text \<open>What the allocator promises: a free port of the range with no free port before it in the
  cyclic order, or the news that the whole range is bound.\<close>

definition port_outcome :: "socket_registry \<Rightarrow> u16 \<Rightarrow> u16 option \<times> socket_registry \<Rightarrow> bool" where
  "port_outcome reg start r \<longleftrightarrow>
     (case fst r of
        None \<Rightarrow> snd r = reg \<and> (\<forall>q. in_port_range q \<longrightarrow> bound_ports reg q \<noteq> None)
      | Some p \<Rightarrow> in_port_range p \<and> bound_ports reg p = None \<and>
          (\<forall>q. in_port_range q \<longrightarrow> port_dist start p < port_dist start q \<longrightarrow> bound_ports reg q \<noteq> None) \<and>
          snd r = reg\<lparr>next_ephemeral_port := port_below p\<rparr>)"

lemma alloc_port_loop_total:
  assumes "in_port_range start" and "in_port_range port"
    and "\<forall>q. in_port_range q \<longrightarrow> port_dist start port < port_dist start q \<longrightarrow> bound_ports reg q \<noteq> None"
  shows "\<exists>r. alloc_port_loop reg start port = Some r \<and> port_outcome reg start r"
  using assms(2,3)
proof (induction "port_dist start port" arbitrary: port rule: less_induct)
  case less
  note unfold = alloc_port_loop.simps [of reg start port]
  show ?case
  proof (cases "bound_ports reg port = None")
    case True
    with less.prems show ?thesis by (simp add: unfold port_outcome_def)
  next
    case bound: False
    have seen: "bound_ports reg q \<noteq> None" if "in_port_range q" "port_dist start port \<le> port_dist start q" for q
      using that less.prems bound port_dist_inj [OF assms(1) that(1) less.prems(1)] by (metis le_neq_implies_less)
    show ?thesis
    proof (cases "port_below port = start")
      case True
      from port_dist_last [OF assms(1) less.prems(1) this] seen port_dist_pos [OF assms(1)] bound True
      show ?thesis by (auto simp: unfold port_outcome_def)
    next
      case False
      from port_dist_step [OF assms(1) less.prems(1) False] seen bound False
      show ?thesis using less.hyps [OF _ port_below_range [OF less.prems(1)]] by (auto simp: unfold)
    qed
  qed
qed

lemma alloc_port_outcome:
  assumes "in_port_range (next_ephemeral_port reg)"
  shows "\<exists>r. alloc_ephemeral_port reg = Some r \<and> port_outcome reg (next_ephemeral_port reg) r"
proof -
  have "\<not> port_dist s s < port_dist s q" if "in_port_range s" "in_port_range q" for s q
    using that by (auto simp: port_dist_def word_less_nat_alt in_port_range_unat split: if_splits)
  with assms show ?thesis unfolding alloc_ephemeral_port_def by (intro alloc_port_loop_total) auto
qed

section \<open>Wiring\<close>

text \<open>
  The wiring of the registry over a store of \<open>n\<close> pipes: every pipe reference is in the store, a
  pipe carries the output of at most one socket and the input of at most one socket, and no
  socket is connected to itself.
\<close>

definition wired :: "(nat \<rightharpoonup> socket_info) \<Rightarrow> nat \<Rightarrow> bool" where
  "wired m n \<longleftrightarrow>
     (\<forall>i s a. m i = Some s \<longrightarrow> sendpipe s = Some a \<or> recvpipe s = Some a \<longrightarrow> a < n) \<and>
     (\<forall>i j s t a. m i = Some s \<longrightarrow> m j = Some t \<longrightarrow> sendpipe s = Some a \<longrightarrow> sendpipe t = Some a \<longrightarrow> i = j) \<and>
     (\<forall>i j s t a. m i = Some s \<longrightarrow> m j = Some t \<longrightarrow> recvpipe s = Some a \<longrightarrow> recvpipe t = Some a \<longrightarrow> i = j) \<and>
     (\<forall>i s a. m i = Some s \<longrightarrow> sendpipe s = Some a \<longrightarrow> recvpipe s \<noteq> Some a)"

lemma wired_less:
  "wired m n \<Longrightarrow> m i = Some s \<Longrightarrow> sendpipe s = Some a \<Longrightarrow> a < n"
  "wired m n \<Longrightarrow> m i = Some s \<Longrightarrow> recvpipe s = Some a \<Longrightarrow> a < n"
  unfolding wired_def by blast+

lemma wired_empty: "wired Map.empty n"
  by (simp add: wired_def)

lemma wired_unconnected:
  assumes "wired m n" and "sendpipe s = None" and "recvpipe s = None"
  shows "wired (m(i \<mapsto> s)) n"
  using assms by (simp add: wired_def)

lemma wired_delete: "wired m n \<Longrightarrow> wired (m(i := None)) n"
  by (simp add: wired_def)

text \<open>Two new pipes, crossed between two sockets.\<close>

definition crossed :: "(nat \<rightharpoonup> socket_info) \<Rightarrow> nat \<Rightarrow> nat \<Rightarrow> nat \<Rightarrow> (nat \<rightharpoonup> socket_info) \<Rightarrow> bool" where
  "crossed m n i j m' \<longleftrightarrow>
     (\<forall>k s. m' k = Some s \<longrightarrow>
        (k = i \<and> k \<noteq> j \<and> sendpipe s = Some n \<and> recvpipe s = Some (Suc n)) \<or>
        (k = j \<and> sendpipe s = Some (Suc n) \<and> recvpipe s = Some n) \<or>
        (k \<noteq> i \<and> k \<noteq> j \<and> m k = Some s))"

lemma wired_crossed:
  assumes w: "wired m n" and c: "crossed m n i j m'"
  shows "wired m' (Suc (Suc n))"
proof -
  have cases: "(k = i \<and> k \<noteq> j \<and> sendpipe s = Some n \<and> recvpipe s = Some (Suc n)) \<or>
      (k = j \<and> sendpipe s = Some (Suc n) \<and> recvpipe s = Some n) \<or> (k \<noteq> i \<and> k \<noteq> j \<and> m k = Some s)"
    if "m' k = Some s" for k s
    using c that unfolding crossed_def by blast
  have old: "sendpipe s = Some a \<Longrightarrow> a < n" "recvpipe s = Some a \<Longrightarrow> a < n" if "m k = Some s" for k s a
    using wired_less [OF w that] by blast+
  have "\<forall>k s a. m' k = Some s \<longrightarrow> sendpipe s = Some a \<or> recvpipe s = Some a \<longrightarrow> a < Suc (Suc n)"
    using cases old by (metis less_Suc_eq option.inject)
  moreover have "\<forall>k l s t a. m' k = Some s \<longrightarrow> m' l = Some t \<longrightarrow> sendpipe s = Some a \<longrightarrow> sendpipe t = Some a \<longrightarrow> k = l"
    by (auto dest!: cases dest: old) (use w in \<open>unfold wired_def, blast\<close>)
  moreover have "\<forall>k l s t a. m' k = Some s \<longrightarrow> m' l = Some t \<longrightarrow> recvpipe s = Some a \<longrightarrow> recvpipe t = Some a \<longrightarrow> k = l"
    by (auto dest!: cases dest: old) (use w in \<open>unfold wired_def, blast\<close>)
  moreover have "\<forall>k s a. m' k = Some s \<longrightarrow> sendpipe s = Some a \<longrightarrow> recvpipe s \<noteq> Some a"
    by (auto dest!: cases) (use w in \<open>unfold wired_def, blast\<close>)
  ultimately show ?thesis unfolding wired_def by blast
qed

lemma establish_crossed:
  assumes "establish_connection R reg ps i j = (reg', ps')"
  shows "crossed (sockets reg) (length ps) i j (sockets reg')"
  using assms by (auto simp: establish_connection_def registry_mod_def crossed_def Let_def split: option.splits if_splits)

text \<open>The invariant of the registry.\<close>

definition registry_inv :: "socket_registry \<Rightarrow> 'rb pipe_store \<Rightarrow> bool" where
  "registry_inv reg ps \<longleftrightarrow>
     wired (sockets reg) (length ps) \<and> (\<forall>i \<in> dom (sockets reg). i < next_socket_id reg) \<and>
     in_port_range (next_ephemeral_port reg)"

text \<open>The operations, as steps; a socket is created while the 64-bit counter of identifiers is not
  exhausted.\<close>

inductive registry_step :: "'rb ringbuf_ops \<Rightarrow> socket_registry \<times> 'rb pipe_store \<Rightarrow>
    socket_registry \<times> 'rb pipe_store \<Rightarrow> bool" for R where
  reg_create: "create_socket reg d ty fl = (sid, reg') \<Longrightarrow> next_socket_id reg + 1 < 2 ^ 64 \<Longrightarrow>
    registry_step R (reg, ps) (reg', ps)"
| reg_remove: "registry_step R (reg, ps) (registry_remove reg sid, ps)"
| reg_port: "alloc_ephemeral_port reg = Some (p, reg') \<Longrightarrow> registry_step R (reg, ps) (reg', ps)"
| reg_bind: "registry_step R (reg, ps) (reg\<lparr>bound_ports := (bound_ports reg)(p \<mapsto> sid)\<rparr>, ps)"
| reg_pair: "create_socketpair R reg ps d ty fl = (ids, reg', ps') \<Longrightarrow> next_socket_id reg + 2 < 2 ^ 64 \<Longrightarrow>
    registry_step R (reg, ps) (reg', ps')"
| reg_connect: "establish_connection R reg ps i j = (reg', ps') \<Longrightarrow> registry_step R (reg, ps) (reg', ps')"

inductive registry_reachable :: "'rb ringbuf_ops \<Rightarrow> socket_registry \<times> 'rb pipe_store \<Rightarrow> bool" for R where
  reg_init: "registry_reachable R (registry_new, [])"
| reg_step: "registry_reachable R x \<Longrightarrow> registry_step R x y \<Longrightarrow> registry_reachable R y"

lemma registry_fresh: "registry_inv reg ps \<Longrightarrow> next_socket_id reg \<le> i \<Longrightarrow> sockets reg i = None"
  unfolding registry_inv_def by (meson domIff leD)

lemma create_socket_inv:
  assumes "registry_inv reg ps" and "create_socket reg d ty fl = (sid, reg')" and "next_socket_id reg + 1 < 2 ^ 64"
  shows "registry_inv reg' ps" and "sid = next_socket_id reg" and "sockets reg sid = None"
    and "next_socket_id reg' = Suc (next_socket_id reg)" and "sockets reg' = (sockets reg)(sid \<mapsto> socket_info_new d ty fl)"
proof -
  have e: "sid = next_socket_id reg" "reg' = reg\<lparr>next_socket_id := Suc (next_socket_id reg),
      sockets := (sockets reg)(next_socket_id reg \<mapsto> socket_info_new d ty fl)\<rparr>"
    using assms(2,3) by (auto simp: create_socket_def Let_def)
  have "wired ((sockets reg)(next_socket_id reg \<mapsto> socket_info_new d ty fl)) (length ps)"
    using assms(1) by (intro wired_unconnected) (auto simp: registry_inv_def socket_info_new_def)
  with assms(1) e show "registry_inv reg' ps" by (auto simp: registry_inv_def less_Suc_eq)
  show "sid = next_socket_id reg" "next_socket_id reg' = Suc (next_socket_id reg)"
    "sockets reg' = (sockets reg)(sid \<mapsto> socket_info_new d ty fl)" using e by simp_all
  show "sockets reg sid = None" using e(1) registry_fresh [OF assms(1)] by simp
qed

lemma registry_remove_sockets [simp]: "sockets (registry_remove reg sid) = (sockets reg)(sid := None)"
  "next_socket_id (registry_remove reg sid) = next_socket_id reg"
  "next_ephemeral_port (registry_remove reg sid) = next_ephemeral_port reg"
  by (auto simp: registry_remove_def Let_def split: option.splits)

lemma registry_remove_inv: "registry_inv reg ps \<Longrightarrow> registry_inv (registry_remove reg sid) ps"
  by (auto simp: registry_inv_def wired_delete)

lemma alloc_port_inv:
  assumes "registry_inv reg ps" and "alloc_ephemeral_port reg = Some (p, reg')"
  shows "registry_inv reg' ps"
proof -
  have "in_port_range (next_ephemeral_port reg)" using assms(1) by (simp add: registry_inv_def)
  from alloc_port_outcome [OF this] assms(2) have "port_outcome reg (next_ephemeral_port reg) (p, reg')" by simp
  with assms(1) show ?thesis
    by (auto simp: port_outcome_def registry_inv_def port_below_range split: option.splits)
qed

lemma registry_mod_frame [simp]:
  "dom (sockets (registry_mod reg sid f)) = dom (sockets reg)"
  "next_socket_id (registry_mod reg sid f) = next_socket_id reg"
  "next_ephemeral_port (registry_mod reg sid f) = next_ephemeral_port reg"
  by (auto simp: registry_mod_def split: option.splits if_splits)

lemma establish_inv:
  assumes "registry_inv reg ps" and "establish_connection R reg ps i j = (reg', ps')"
  shows "registry_inv reg' ps'"
proof -
  have "wired (sockets reg') (Suc (Suc (length ps)))"
    using assms(1) establish_crossed [OF assms(2)] by (auto simp: registry_inv_def intro: wired_crossed)
  moreover have "dom (sockets reg') = dom (sockets reg)" "next_socket_id reg' = next_socket_id reg"
    "next_ephemeral_port reg' = next_ephemeral_port reg" "length ps' = Suc (Suc (length ps))"
    using assms(2) by (clarsimp simp: establish_connection_def Let_def)+
  ultimately show ?thesis using assms(1) by (simp add: registry_inv_def)
qed

text \<open>A socket pair is two new sockets and a connection between them.\<close>

lemma create_socketpair_eq:
  "create_socketpair R reg ps d ty fl =
     (let (id1, reg1) = create_socket reg d ty fl; (id2, reg2) = create_socket reg1 d ty fl;
          (reg', ps') = establish_connection R reg2 ps id1 id2
      in ((id1, id2), reg', ps'))"
  by (simp add: create_socketpair_def establish_connection_def Let_def split: prod.splits)

lemma create_socketpair_inv:
  assumes "registry_inv reg ps" and "create_socketpair R reg ps d ty fl = (ids, reg', ps')"
    and "next_socket_id reg + 2 < 2 ^ 64"
  shows "registry_inv reg' ps'"
proof -
  obtain id1 reg1 id2 reg2 where c: "create_socket reg d ty fl = (id1, reg1)" "create_socket reg1 d ty fl = (id2, reg2)"
    by (metis surj_pair)
  have "next_socket_id reg + 1 < 2 ^ 64" using assms(3) by simp
  note i1 = create_socket_inv [OF assms(1) c(1) this]
  with assms(3) have "next_socket_id reg1 + 1 < 2 ^ 64" by simp
  note i2 = create_socket_inv(1) [OF i1(1) c(2) this]
  from establish_inv [OF i2, of R id1 id2] assms(2) c show ?thesis
    by (auto simp: create_socketpair_eq Let_def split: prod.splits)
qed

lemma registry_reachable_inv:
  assumes "registry_reachable R x"
  shows "registry_inv (fst x) (snd x)"
  using assms
proof (induction)
  case reg_init
  show ?case by (simp add: registry_inv_def registry_new_def wired_empty in_port_range_def)
next
  case (reg_step x y)
  from reg_step.hyps(2) reg_step.IH show ?case
  proof cases
    case (reg_bind reg ps p sid)
    with reg_step.IH show ?thesis by (simp add: registry_inv_def)
  qed (auto intro: create_socket_inv(1) registry_remove_inv alloc_port_inv create_socketpair_inv establish_inv)
qed

text \<open>A concrete registry: one socket pair.\<close>

definition demo_reg :: socket_registry where
  "demo_reg = fst (snd (create_socketpair list_ring registry_new [] 1 1 0))"

definition demo_pipes :: "list_ring pipe_store" where
  "demo_pipes = snd (snd (create_socketpair list_ring registry_new [] 1 1 0))"

lemma demo_pair: "create_socketpair list_ring registry_new [] 1 1 0 = ((0, 1), demo_reg, demo_pipes)"
  by (simp add: demo_reg_def demo_pipes_def create_socketpair_def create_socket_def Let_def registry_new_def)

section \<open>Properties\<close>

text \<open>In every registry the operations can reach, pipes are never shared between connections: each
  pipe has at most one sending and one receiving socket, no socket talks to itself, every reference
  is to an allocated pipe, socket ids are never reused and the port cursor stays in its range.\<close>

theorem registry_invariant:
  assumes "registry_reachable R (reg, ps)"
  shows "registry_inv reg ps"
  using registry_reachable_inv [OF assms] by simp

theorem registry_invariant_witness: "registry_inv demo_reg demo_pipes"
proof -
  have "registry_step list_ring (registry_new, []) (demo_reg, demo_pipes)"
    using demo_pair by (rule reg_pair) (simp add: registry_new_def)
  with reg_init have "registry_reachable list_ring (demo_reg, demo_pipes)" by (rule reg_step)
  then show ?thesis by (rule registry_invariant)
qed

text \<open>A socket pair is cross-wired: the two sockets are new, distinct and connected, each one's send
  pipe is the other's receive pipe, the two pipes are new and empty, and no other socket or pipe changes.\<close>

theorem socketpair_cross_wired:
  assumes "registry_inv reg ps" and "create_socketpair R reg ps d ty fl = ((id1, id2), reg', ps')"
    and "next_socket_id reg + 2 < 2 ^ 64"
  shows "\<exists>s1 s2 a b. sockets reg id1 = None \<and> sockets reg id2 = None \<and> id1 \<noteq> id2 \<and>
    sockets reg' = (sockets reg)(id1 \<mapsto> s1, id2 \<mapsto> s2) \<and> s_state s1 = Connected \<and> s_state s2 = Connected \<and>
    sendpipe s1 = Some a \<and> recvpipe s2 = Some a \<and> sendpipe s2 = Some b \<and> recvpipe s1 = Some b \<and> a \<noteq> b \<and>
    length ps \<le> a \<and> length ps \<le> b \<and> take (length ps) ps' = ps \<and>
    ps' ! a = pipe_new R UDSOCK_CAPACITY \<and> ps' ! b = pipe_new R UDSOCK_CAPACITY"
proof -
  have "sockets reg (next_socket_id reg) = None" "sockets reg (Suc (next_socket_id reg)) = None"
    using registry_fresh [OF assms(1)] by simp_all
  with assms(2,3) show ?thesis
    by - (rule exI [of _ "socket_info_new d ty fl\<lparr>sendpipe := Some (length ps), recvpipe := Some (Suc (length ps)), s_state := Connected\<rparr>"],
      rule exI [of _ "socket_info_new d ty fl\<lparr>sendpipe := Some (Suc (length ps)), recvpipe := Some (length ps), s_state := Connected\<rparr>"],
      rule exI [of _ "length ps"], rule exI [of _ "Suc (length ps)"],
      auto simp: create_socketpair_def create_socket_def registry_mod_def Let_def nth_append)
qed

theorem socketpair_cross_wired_witness:
  "\<exists>s1 s2. sockets demo_reg = [0 \<mapsto> s1, 1 \<mapsto> s2] \<and> sendpipe s1 = recvpipe s2 \<and> sendpipe s2 = recvpipe s1"
proof -
  have i: "registry_inv registry_new []" by (rule registry_reachable_inv [OF reg_init, simplified])
  have n: "next_socket_id registry_new + 2 < 2 ^ 64" "sockets registry_new = Map.empty" by (simp_all add: registry_new_def)
  from socketpair_cross_wired [OF i demo_pair n(1)] show ?thesis unfolding n(2) by metis
qed

text \<open>C21. The allocator of ephemeral ports always returns: a free port between 32768 and 60999, the first
  one in its cyclic order, with the cursor moved past it, or no port when every one of them is bound.\<close>

theorem ephemeral_port_total:
  assumes "in_port_range (next_ephemeral_port reg)"
  shows "\<exists>r. alloc_ephemeral_port reg = Some r \<and> port_outcome reg (next_ephemeral_port reg) r"
  using assms by (rule alloc_port_outcome)

theorem ephemeral_port_total_witness:
  "\<exists>r. alloc_ephemeral_port (registry_new\<lparr>bound_ports := [60999 \<mapsto> 4]\<rparr>) = Some r \<and> fst r \<noteq> None"
proof -
  have "in_port_range (next_ephemeral_port (registry_new\<lparr>bound_ports := [60999 \<mapsto> 4]\<rparr>))"
    by (simp add: registry_new_def in_port_range_def)
  from ephemeral_port_total [OF this] obtain r where
    r: "alloc_ephemeral_port (registry_new\<lparr>bound_ports := [60999 \<mapsto> 4]\<rparr>) = Some r"
      "port_outcome (registry_new\<lparr>bound_ports := [60999 \<mapsto> 4]\<rparr>) 60999 r" by (auto simp: registry_new_def)
  have "in_port_range 40000" by (simp add: in_port_range_def)
  with r(2) have "fst r \<noteq> None" by (auto simp: port_outcome_def split: option.splits dest: spec [of _ 40000])
  with r(1) show ?thesis by blast
qed

end
