(* ===== verification/Ipc.thy ===== *)
theory Ipc
  imports Sockets Fdtables
begin

unbundle bit_operations_syntax

text \<open>
  The core of the ipc grate (\<open>rust-grates/ipc-grate/src/ipc.rs\<close>): the global state with the
  pipe and socket registries, the creation of pipes in the descriptor table of a cage, and the
  hand-over of descriptor tables to forked children.

  Descriptor tables are the parameter of the theory Fdtables.  The pipes of the registry are
  references into the same store the sockets use.
\<close>

section \<open>State\<close>

definition FDTABLE_WAIT_ATTEMPTS :: nat where "FDTABLE_WAIT_ATTEMPTS = 100"

definition IPC_PIPE :: nat where "IPC_PIPE = 1"
definition IPC_SOCKET :: nat where "IPC_SOCKET = 3"
definition IPC_O_NONBLOCK :: i32 where "IPC_O_NONBLOCK = 0x800"
definition IPC_O_CLOEXEC :: i32 where "IPC_O_CLOEXEC = 0x80000"
definition IPC_O_RDONLY :: i32 where "IPC_O_RDONLY = 0"
definition IPC_O_WRONLY :: i32 where "IPC_O_WRONLY = 1"
definition IPC_O_ACCMODE :: i32 where "IPC_O_ACCMODE = 3"

lemmas ipc_consts = IPC_PIPE_def IPC_SOCKET_def IPC_O_NONBLOCK_def IPC_O_CLOEXEC_def IPC_O_RDONLY_def
  IPC_O_WRONLY_def IPC_O_ACCMODE_def

record epoll_event =
  ev_events :: u32
  ev_data :: nat

record 'rb ipc_state =
  store :: "'rb pipe_store"
  pipes :: "nat \<rightharpoonup> nat"
  next_pipe_id :: nat
  grate_cage_id :: nat
  socks :: socket_registry
  pending_inet :: "nat \<times> nat \<rightharpoonup> nat"
  epoll_targets :: "nat \<times> nat \<rightharpoonup> (nat \<rightharpoonup> epoll_event)"

definition ipc_new :: "nat \<Rightarrow> 'rb ipc_state" where
  "ipc_new grate =
     \<lparr>store = [], pipes = Map.empty, next_pipe_id = 0, grate_cage_id = grate, socks = registry_new,
      pending_inet = Map.empty, epoll_targets = Map.empty\<rparr>"

record pending_fdtable =
  parent_cage :: nat
  snapshot_entries :: "(nat \<times> fd_entry) list"

section \<open>Creating pipes\<close>

definition create_pipe ::
  "'ft fdtables_ops \<Rightarrow> 'rb ringbuf_ops \<Rightarrow> 'rb ipc_state \<Rightarrow> 'ft \<Rightarrow> nat \<Rightarrow> i32 \<Rightarrow>
    (int \<times> int) result \<times> 'rb ipc_state \<times> 'ft" where
  "create_pipe F R st ft cage flags =
     (let pid = next_pipe_id st;
          st = st\<lparr>next_pipe_id := (pid + 1) mod 2 ^ 64,
                  store := store st @ [pipe_new R PIPE_CAPACITY],
                  pipes := (pipes st)(pid \<mapsto> length (store st))\<rparr>;
          cloexec = (flags AND IPC_O_CLOEXEC \<noteq> 0);
          fl = flags AND IPC_O_NONBLOCK
      in case get_unused_virtual_fd F ft cage IPC_PIPE pid cloexec (as_u64 (sint (IPC_O_RDONLY OR fl))) of
           None \<Rightarrow> (Inl (-24), st, ft)
         | Some (rfd, ft) \<Rightarrow>
             let read_fd = as_i32 (int rfd)
             in (case get_unused_virtual_fd F ft cage IPC_PIPE pid cloexec (as_u64 (sint (IPC_O_WRONLY OR fl))) of
                   None \<Rightarrow>
                     (Inl (-24), st, case close_virtualfd F ft cage (as_u64 read_fd) of Some ft' \<Rightarrow> ft' | None \<Rightarrow> ft)
                 | Some (wfd, ft) \<Rightarrow> (Inr (read_fd, as_i32 (int wfd)), st, ft)))"

definition get_pipe :: "'rb ipc_state \<Rightarrow> nat \<Rightarrow> nat option" where
  "get_pipe st pid = pipes st pid"

definition is_read_end :: "i32 \<Rightarrow> bool" where
  "is_read_end flags \<longleftrightarrow> flags AND IPC_O_ACCMODE = IPC_O_RDONLY"

definition is_write_end :: "i32 \<Rightarrow> bool" where
  "is_write_end flags \<longleftrightarrow> flags AND IPC_O_ACCMODE = IPC_O_WRONLY"

section \<open>Descriptor tables of forked children\<close>

definition push_pending_fdtable ::
  "pending_fdtable list \<Rightarrow> nat \<Rightarrow> (nat \<times> fd_entry) list \<Rightarrow> pending_fdtable list" where
  "push_pending_fdtable pending parent entries =
     pending @ [\<lparr>parent_cage = parent, snapshot_entries = entries\<rparr>]"

text \<open>The first snapshot of the parent is removed.\<close>

fun remove_pending_fdtable :: "pending_fdtable list \<Rightarrow> nat \<Rightarrow> pending_fdtable list" where
  "remove_pending_fdtable [] parent = []"
| "remove_pending_fdtable (snap # pending) parent =
     (if parent_cage snap = parent then pending else snap # remove_pending_fdtable pending parent)"

fun install_entries :: "'ft fdtables_ops \<Rightarrow> nat \<Rightarrow> (nat \<times> fd_entry) list \<Rightarrow> 'ft \<Rightarrow> 'ft" where
  "install_entries F cage [] ft = ft"
| "install_entries F cage ((fd, entry) # es) ft =
     install_entries F cage es
       (if translate_virtual_fd F ft cage fd = None
        then case get_specific_virtual_fd F ft cage fd (fdkind entry) (underfd entry) (should_cloexec entry)
               (perfdinfo entry) of Some ft' \<Rightarrow> ft' | None \<Rightarrow> ft
        else ft)"

definition install_pending_fdtable ::
  "'ft fdtables_ops \<Rightarrow> pending_fdtable list \<Rightarrow> nat \<Rightarrow> 'ft \<Rightarrow> bool \<times> 'ft" where
  "install_pending_fdtable F pending cage ft =
     (if pending = [] then (False, ft)
      else let snapshot = last pending;
               ft = (if check_cage_exists F ft cage then ft else init_empty_cage F ft cage)
           in (True, install_entries F cage (snapshot_entries snapshot) ft))"

text \<open>
  The tables and the snapshots as the waiting call sees them; \<open>nap k\<close> is what the other threads do
  to them while the call sleeps with \<open>k\<close> attempts left.
\<close>

type_synonym 'ft shared = "'ft \<times> pending_fdtable list"

fun wait_cage_loop ::
  "'ft fdtables_ops \<Rightarrow> (nat \<Rightarrow> 'ft shared \<Rightarrow> 'ft shared) \<Rightarrow> nat \<Rightarrow> nat \<Rightarrow> 'ft shared \<Rightarrow> bool \<times> 'ft shared" where
  "wait_cage_loop F nap cage 0 (ft, pending) = (check_cage_exists F ft cage, ft, pending)"
| "wait_cage_loop F nap cage (Suc k) (ft, pending) =
     (if check_cage_exists F ft cage then (True, ft, pending)
      else case install_pending_fdtable F pending cage ft of
          (True, ft) \<Rightarrow> (True, ft, pending)
        | (False, ft) \<Rightarrow> wait_cage_loop F nap cage k (nap k (ft, pending)))"

definition wait_for_cage_fdtable ::
  "'ft fdtables_ops \<Rightarrow> (nat \<Rightarrow> 'ft shared \<Rightarrow> 'ft shared) \<Rightarrow> nat \<Rightarrow> 'ft shared \<Rightarrow> bool \<times> 'ft shared" where
  "wait_for_cage_fdtable F nap cage sh = wait_cage_loop F nap cage FDTABLE_WAIT_ATTEMPTS sh"

fun wait_entry_loop ::
  "'ft fdtables_ops \<Rightarrow> (nat \<Rightarrow> 'ft shared \<Rightarrow> 'ft shared) \<Rightarrow> nat \<Rightarrow> nat \<Rightarrow> nat \<Rightarrow> 'ft shared \<Rightarrow>
    fd_entry option \<times> 'ft shared" where
  "wait_entry_loop F nap cage fd 0 (ft, pending) = (translate_virtual_fd F ft cage fd, ft, pending)"
| "wait_entry_loop F nap cage fd (Suc k) (ft, pending) =
     (case translate_virtual_fd F ft cage fd of
        Some entry \<Rightarrow> (Some entry, ft, pending)
      | None \<Rightarrow>
          wait_entry_loop F nap cage fd k (nap k (snd (install_pending_fdtable F pending cage ft), pending)))"

definition wait_for_fdtable_entry ::
  "'ft fdtables_ops \<Rightarrow> (nat \<Rightarrow> 'ft shared \<Rightarrow> 'ft shared) \<Rightarrow> nat \<Rightarrow> nat \<Rightarrow> 'ft shared \<Rightarrow>
    fd_entry option \<times> 'ft shared" where
  "wait_for_fdtable_entry F nap cage fd sh = wait_entry_loop F nap cage fd FDTABLE_WAIT_ATTEMPTS sh"

definition lookup_ipc_fd ::
  "'ft fdtables_ops \<Rightarrow> (nat \<Rightarrow> 'ft shared \<Rightarrow> 'ft shared) \<Rightarrow> (nat \<Rightarrow> 'ft shared \<Rightarrow> 'ft shared) \<Rightarrow> nat \<Rightarrow> nat \<Rightarrow>
    'ft shared \<Rightarrow> (nat \<times> nat \<times> i32) option \<times> 'ft shared" where
  "lookup_ipc_fd F nap1 nap2 cage fd sh =
     (case wait_for_cage_fdtable F nap1 cage sh of
        (False, sh) \<Rightarrow> (None, sh)
      | (True, sh) \<Rightarrow>
          (case wait_for_fdtable_entry F nap2 cage fd sh of
             (Some entry, sh) \<Rightarrow>
               if fdkind entry = IPC_PIPE \<or> fdkind entry = IPC_SOCKET
               then (Some (underfd entry, fdkind entry, word_of_nat (perfdinfo entry)), sh)
               else (None, sh)
           | (None, sh) \<Rightarrow> (None, sh)))"

section \<open>Flags in the descriptor entry\<close>

lemma i32_u64_roundtrip: "word_of_nat (as_u64 (sint w)) = (w :: i32)"
proof -
  have "word_of_int (x mod 2 ^ 64) = (word_of_int x :: i32)" for x
    by (simp add: word_of_int_eq_iff take_bit_eq_mod mod_mod_cancel)
  from this [of "sint w"] show ?thesis by (simp add: as_u64_def of_nat_nat)
qed

lemma pipe_end_flags:
  "is_read_end (IPC_O_RDONLY OR (f AND IPC_O_NONBLOCK))" "\<not> is_write_end (IPC_O_RDONLY OR (f AND IPC_O_NONBLOCK))"
  "is_write_end (IPC_O_WRONLY OR (f AND IPC_O_NONBLOCK))" "\<not> is_read_end (IPC_O_WRONLY OR (f AND IPC_O_NONBLOCK))"
  by (simp_all add: is_read_end_def is_write_end_def ipc_consts bit.conj_disj_distrib2 and.assoc)

lemma as_u64_fd: "fd < 2 ^ 31 \<Longrightarrow> as_u64 (as_i32 (int fd)) = fd"
  by (simp add: as_u64_def)

section \<open>Installing a snapshot\<close>

text \<open>\<open>entry_of\<close>: the table after an installation, when every slot can be taken.\<close>

definition slots_free :: "'ft fdtables_ops \<Rightarrow> nat \<Rightarrow> (nat \<times> fd_entry) list \<Rightarrow> bool" where
  "slots_free F cage es \<longleftrightarrow>
     (\<forall>ft fd e. (fd, e) \<in> set es \<longrightarrow> translate_virtual_fd F ft cage fd = None \<longrightarrow>
        get_specific_virtual_fd F ft cage fd (fdkind e) (underfd e) (should_cloexec e) (perfdinfo e) \<noteq> None)"

lemma entry_eta: "mk_entry (fdkind e) (underfd e) (should_cloexec e) (perfdinfo e) = (e :: fd_entry)"
  by simp

lemma install_entries_spec:
  assumes "fdtables_ok F" and "slots_free F cage es"
  shows "translate_virtual_fd F (install_entries F cage es ft) c fd =
    (if c = cage then case translate_virtual_fd F ft cage fd of Some e \<Rightarrow> Some e | None \<Rightarrow> map_of es fd
     else translate_virtual_fd F ft c fd)"
  using assms(2)
proof (induction es arbitrary: ft)
  case (Cons x es)
  obtain fd' e where x: "x = (fd', e)" by (cases x)
  have sf: "slots_free F cage es" using Cons.prems unfolding slots_free_def by auto
  show ?case
  proof (cases "translate_virtual_fd F ft cage fd'")
    case None
    with Cons.prems obtain ft' where ft': "get_specific_virtual_fd F ft cage fd' (fdkind e) (underfd e) (should_cloexec e)
        (perfdinfo e) = Some ft'" unfolding slots_free_def x by fastforce
    have m: "translate_virtual_fd F ft' c fd = (if c = cage \<and> fd = fd' then Some e else translate_virtual_fd F ft c fd)" for c fd
      using fd_mapsD [OF fd_specific_law [OF assms(1) ft']] by (simp add: entry_eta)
    show ?thesis using Cons.IH [OF sf, of ft'] None ft' m by (auto simp: x split: option.splits)
  next
    case (Some e')
    with Cons.IH [OF sf, of ft] show ?thesis by (auto simp: x split: option.splits)
  qed
qed (simp split: option.splits)

lemma install_pending_spec:
  assumes F: "fdtables_ok F" and es: "slots_free F cage es"
  shows "\<exists>ft'. install_pending_fdtable F (pending @ [\<lparr>parent_cage = parent, snapshot_entries = es\<rparr>]) cage ft = (True, ft') \<and>
    (\<forall>fd. translate_virtual_fd F ft' cage fd =
       (case translate_virtual_fd F ft cage fd of Some e \<Rightarrow> Some e | None \<Rightarrow> map_of es fd)) \<and>
    (\<forall>c fd. c \<noteq> cage \<longrightarrow> translate_virtual_fd F ft' c fd = translate_virtual_fd F ft c fd)"
  using install_entries_spec [OF F es] fd_cage_law(3) [OF F, of ft cage]
  by (auto simp: install_pending_fdtable_def Let_def)

lemma wait_entry_found:
  "translate_virtual_fd F ft cage fd = Some e \<Longrightarrow> wait_for_fdtable_entry F nap cage fd (ft, pending) = (Some e, ft, pending)"
  by (simp add: wait_for_fdtable_entry_def FDTABLE_WAIT_ATTEMPTS_def numeral_eq_Suc)

lemma wait_cage_exists:
  "check_cage_exists F ft cage \<Longrightarrow> wait_for_cage_fdtable F nap cage (ft, pending) = (True, ft, pending)"
  by (simp add: wait_for_cage_fdtable_def FDTABLE_WAIT_ATTEMPTS_def numeral_eq_Suc)

lemma wait_cage_installs:
  "\<not> check_cage_exists F ft cage \<Longrightarrow> install_pending_fdtable F pending cage ft = (True, ft') \<Longrightarrow>
   wait_for_cage_fdtable F nap cage (ft, pending) = (True, ft', pending)"
  by (simp add: wait_for_cage_fdtable_def FDTABLE_WAIT_ATTEMPTS_def numeral_eq_Suc)

lemma remove_push_pending:
  "parent \<notin> parent_cage ` set pending \<Longrightarrow> remove_pending_fdtable (push_pending_fdtable pending parent es) parent = pending"
  unfolding push_pending_fdtable_def by (induction pending) auto

section \<open>Properties\<close>

text \<open>A successful \<open>create_pipe\<close> gives two different descriptors that were free, the first a read end and
  the second a write end of one new empty pipe with one reference each, in the requested blocking and
  close-on-exec mode, and leaves every other descriptor and every other pipe alone.\<close>

theorem create_pipe_ends:
  assumes F: "fdtables_ok F" and c: "create_pipe F R st ft cage flags = (Inr (r, w), st', ft')"
    and small: "\<forall>ft k u e p fd ft'. get_unused_virtual_fd F ft cage k u e p = Some (fd, ft') \<longrightarrow> fd < 2 ^ 31"
  shows "\<exists>rfd wfd re we. r = int rfd \<and> w = int wfd \<and> rfd \<noteq> wfd \<and>
    translate_virtual_fd F ft cage rfd = None \<and> translate_virtual_fd F ft cage wfd = None \<and>
    (\<forall>c fd. translate_virtual_fd F ft' c fd =
       (if c = cage \<and> fd = rfd then Some re else if c = cage \<and> fd = wfd then Some we else translate_virtual_fd F ft c fd)) \<and>
    fdkind re = IPC_PIPE \<and> fdkind we = IPC_PIPE \<and> underfd re = next_pipe_id st \<and> underfd we = next_pipe_id st \<and>
    is_read_end (word_of_nat (perfdinfo re)) \<and> is_write_end (word_of_nat (perfdinfo we)) \<and>
    should_cloexec re = (flags AND IPC_O_CLOEXEC \<noteq> 0) \<and> should_cloexec we = should_cloexec re \<and>
    word_of_nat (perfdinfo re) AND IPC_O_NONBLOCK = flags AND IPC_O_NONBLOCK \<and>
    get_pipe st' (next_pipe_id st) = Some (length (store st)) \<and>
    store st' = store st @ [pipe_new R PIPE_CAPACITY] \<and>
    (\<forall>pid. pid \<noteq> next_pipe_id st \<longrightarrow> get_pipe st' pid = get_pipe st pid)"
proof -
  let ?fl = "flags AND IPC_O_NONBLOCK" and ?e = "flags AND IPC_O_CLOEXEC \<noteq> 0" and ?p = "next_pipe_id st"
  let ?re = "mk_entry IPC_PIPE ?p ?e (as_u64 (sint (IPC_O_RDONLY OR ?fl)))"
  let ?we = "mk_entry IPC_PIPE ?p ?e (as_u64 (sint (IPC_O_WRONLY OR ?fl)))"
  obtain rfd wfd ft1 where a1: "get_unused_virtual_fd F ft cage IPC_PIPE ?p ?e (as_u64 (sint (IPC_O_RDONLY OR ?fl))) = Some (rfd, ft1)"
    and a2: "get_unused_virtual_fd F ft1 cage IPC_PIPE ?p ?e (as_u64 (sint (IPC_O_WRONLY OR ?fl))) = Some (wfd, ft')"
    and rw: "r = as_i32 (int rfd)" "w = as_i32 (int wfd)"
    and st': "get_pipe st' ?p = Some (length (store st))" "store st' = store st @ [pipe_new R PIPE_CAPACITY]"
      "\<forall>pid. pid \<noteq> ?p \<longrightarrow> get_pipe st' pid = get_pipe st pid"
    using c by (auto simp: create_pipe_def get_pipe_def Let_def split: option.splits prod.splits)
  note l1 = fd_alloc_law [OF F a1] and l2 = fd_alloc_law [OF F a2]
  have tr: "translate_virtual_fd F ft1 c fd = (if c = cage \<and> fd = rfd then Some ?re else translate_virtual_fd F ft c fd)" for c fd
    using fd_mapsD l1 by fast
  have tw: "translate_virtual_fd F ft' c fd = (if c = cage \<and> fd = wfd then Some ?we else translate_virtual_fd F ft1 c fd)" for c fd
    using fd_mapsD l2 by fast
  have ne: "rfd \<noteq> wfd" using l2 tr [of cage rfd] by auto
  have "word_of_nat (perfdinfo ?re) AND IPC_O_NONBLOCK = flags AND IPC_O_NONBLOCK"
    by (simp add: i32_u64_roundtrip IPC_O_RDONLY_def and.assoc)
  moreover have "r = int rfd" "w = int wfd" using rw small a1 a2 by (metis as_i32_small)+
  moreover have "translate_virtual_fd F ft cage wfd = None" using l2 tr [of cage wfd] ne by simp
  ultimately show ?thesis using l1 ne st' tr tw
    by - (rule exI [of _ rfd], rule exI [of _ wfd], rule exI [of _ ?re], rule exI [of _ ?we],
      simp add: i32_u64_roundtrip pipe_end_flags)
qed

theorem create_pipe_ends_witness:
  "\<exists>st' ft'. create_pipe map_fdtables list_ring (ipc_new 9) [] 4 0x800 = (Inr (0, 1), st', ft') \<and>
    get_pipe st' 0 = Some 0 \<and> translate_virtual_fd map_fdtables ft' 4 1 \<noteq> None"
proof -
  have "first_free [] 4 0 8 = Some 0" "first_free [((4, 0), e)] 4 0 8 = Some 1" for e by (simp_all add: numeral_eq_Suc)
  then have "fst (create_pipe map_fdtables list_ring (ipc_new 9) [] 4 0x800) = Inr (0, 1)"
    by (simp add: create_pipe_def ipc_new_def map_fdtables_def Let_def as_i32_def)
  then obtain st' ft' where c: "create_pipe map_fdtables list_ring (ipc_new 9) [] 4 0x800 = (Inr (0, 1), st', ft')"
    by (metis prod.collapse)
  have "\<forall>ft k u e p fd ft'. get_unused_virtual_fd map_fdtables ft 4 k u e p = Some (fd, ft') \<longrightarrow> fd < 2 ^ 31"
    using map_fdtables_small by blast
  from create_pipe_ends [OF map_fdtables_ok c this] have "get_pipe st' 0 = Some 0 \<and> translate_virtual_fd map_fdtables ft' 4 1 \<noteq> None"
    by (auto simp: ipc_new_def)
  with c show ?thesis by blast
qed

text \<open>When descriptors run out, \<open>create_pipe\<close> reports EMFILE and leaves the descriptor tables as they were,
  but the pipe it made stays in the registry.\<close>

theorem create_pipe_emfile:
  assumes F: "fdtables_ok F" and c: "create_pipe F R st ft cage flags = (Inl err, st', ft')"
    and small: "\<forall>ft k u e p fd ft'. get_unused_virtual_fd F ft cage k u e p = Some (fd, ft') \<longrightarrow> fd < 2 ^ 31"
  shows "err = -24 \<and> (\<forall>c fd. translate_virtual_fd F ft' c fd = translate_virtual_fd F ft c fd) \<and>
    get_pipe st' (next_pipe_id st) = Some (length (store st))"
proof -
  have e: "err = -24" "get_pipe st' (next_pipe_id st) = Some (length (store st))"
    using c by (auto simp: create_pipe_def get_pipe_def Let_def split: option.splits prod.splits)
  let ?a = "\<lambda>m. as_u64 (sint (m OR (flags AND IPC_O_NONBLOCK)))" and ?e = "flags AND IPC_O_CLOEXEC \<noteq> 0"
  have "translate_virtual_fd F ft' c' fd' = translate_virtual_fd F ft c' fd'" for c' fd'
  proof (cases "get_unused_virtual_fd F ft cage IPC_PIPE (next_pipe_id st) ?e (?a IPC_O_RDONLY)")
    case None
    with c show ?thesis by (simp add: create_pipe_def Let_def)
  next
    case (Some x)
    obtain rfd ft1 where x: "x = (rfd, ft1)" by (cases x)
    note l = fd_alloc_law [OF F Some [unfolded x]]
    from fd_mapsD [OF conjunct2 [OF l], of cage rfd] have "translate_virtual_fd F ft1 cage rfd \<noteq> None" by simp
    then obtain ft2 where ft2: "close_virtualfd F ft1 cage rfd = Some ft2" using fd_close_None_iff [OF F] by (metis option.exhaust)
    have "as_u64 (as_i32 (int rfd)) = rfd" using small Some x by (intro as_u64_fd) blast
    with c Some ft2 x have "ft' = ft2" by (auto simp: create_pipe_def Let_def split: option.splits prod.splits)
    with fd_mapsD [OF fd_close_law [OF F ft2], of c' fd'] fd_mapsD [OF conjunct2 [OF l], of c' fd'] l
    show ?thesis by simp
  qed
  with e show ?thesis by blast
qed

theorem create_pipe_emfile_witness:
  "\<exists>st' ft'. create_pipe map_fdtables list_ring (ipc_new 9) (map (\<lambda>fd. ((4, fd), mk_entry 0 0 False 0)) [0..<7]) 4 0 =
      (Inl (-24), st', ft') \<and> translate_virtual_fd map_fdtables ft' 4 7 = None"
proof -
  let ?m = "map (\<lambda>fd. ((4, fd), mk_entry 0 0 False 0)) [0..<7]"
  have "first_free ?m 4 0 8 = Some 7" "first_free (((4, 7), e) # ?m) 4 0 8 = None" for e
    by (simp_all add: eval_nat_numeral upt_rec)
  then have "fst (create_pipe map_fdtables list_ring (ipc_new 9) ?m 4 0) = Inl (-24)"
    by (simp add: create_pipe_def ipc_new_def map_fdtables_def Let_def)
  then obtain st' ft' where c: "create_pipe map_fdtables list_ring (ipc_new 9) (map (\<lambda>fd. ((4, fd), mk_entry 0 0 False 0)) [0..<7]) 4 0 =
      (Inl (-24), st', ft')" by (metis prod.collapse)
  have "\<forall>ft k u e p fd ft'. get_unused_virtual_fd map_fdtables ft 4 k u e p = Some (fd, ft') \<longrightarrow> fd < 2 ^ 31"
    using map_fdtables_small by blast
  from create_pipe_emfile [OF map_fdtables_ok c this] have "translate_virtual_fd map_fdtables ft' 4 7 = None"
    by (simp add: map_fdtables_def map_of_eq_None_iff image_iff)
  with c show ?thesis by blast
qed

text \<open>A forked child that runs before its table is published finds the pipes and sockets its parent had:
  the look-up installs the pending snapshot without sleeping and returns the parent's entry.\<close>

theorem forked_child_inherits:
  assumes F: "fdtables_ok F" and sf: "slots_free F child es" and "\<not> check_cage_exists F ft child"
    and fd: "map_of es fd = Some e" and k: "fdkind e = IPC_PIPE \<or> fdkind e = IPC_SOCKET"
  shows "fst (lookup_ipc_fd F nap1 nap2 child fd (ft, push_pending_fdtable pending parent es)) =
    Some (underfd e, fdkind e, word_of_nat (perfdinfo e))"
proof -
  obtain ft' where i: "install_pending_fdtable F (push_pending_fdtable pending parent es) child ft = (True, ft')"
    and t: "translate_virtual_fd F ft' child fd = Some e"
    using install_pending_spec [OF F sf, of pending parent ft] fd_cage_law(2) [OF F assms(3), of fd] fd
    by (auto simp: push_pending_fdtable_def)
  from wait_cage_installs [OF assms(3) i, of nap1] wait_entry_found [OF t, of nap2] k show ?thesis
    by (simp add: lookup_ipc_fd_def)
qed

theorem forked_child_inherits_witness:
  "fst (lookup_ipc_fd cage_fdtables (\<lambda>_. id) (\<lambda>_. id) 7 3 (([], []), push_pending_fdtable [] 5 [(3, mk_entry 1 12 False 1)])) =
    Some (12, 1, 1)"
proof -
  have "slots_free cage_fdtables 7 [(3, mk_entry 1 12 False 1)]"
    by (auto simp: slots_free_def cage_fdtables_def map_fdtables_def)
  moreover have "\<not> check_cage_exists cage_fdtables ([], []) 7" by (simp add: cage_fdtables_def)
  ultimately show ?thesis
    using forked_child_inherits [OF cage_fdtables_ok, of 7 "[(3, mk_entry 1 12 False 1)]" "([], [])" 3 "mk_entry 1 12 False 1"
        "\<lambda>_. id" "\<lambda>_. id" "[]" 5] by (simp add: IPC_PIPE_def)
qed

section \<open>Departures from the intended behaviour\<close>

text \<open>The snapshot installed is the last one pushed, whoever its parent is: with two forks in flight the
  child of cage 1 receives the descriptors of cage 2.\<close>

theorem pending_snapshot_of_wrong_parent:
  "let pending = push_pending_fdtable (push_pending_fdtable [] 1 [(3, mk_entry 1 10 False 0)]) 2 [(3, mk_entry 1 20 False 0)]
   in fst (lookup_ipc_fd cage_fdtables (\<lambda>_. id) (\<lambda>_. id) 7 3 (([], []), pending)) = Some (20, 1, 0)"
  by code_simp

end
