(* ===== verification/Fd_Support.thy ===== *)
theory Fd_Support
  imports Grate
begin

unbundle bit_operations_syntax

text \<open>
  The descriptor-translating default handlers (\<open>lib/grate-rs/src/fd_support.rs\<close>).  A cage works with
  virtual descriptors; a handler replaces them by the descriptors of the runtime, dispatches the
  call, and enters new descriptors in the table.  Which arguments are descriptors is a table of
  specifications, interpreted by one function.  \<open>None\<close> is a panic, which aborts the handler.
\<close>

section \<open>Bytes of integers\<close>

text \<open>A \<open>struct pollfd\<close>: descriptor, requested and returned events.\<close>

record pollfd =
  pf_fd :: int
  pf_events :: nat
  pf_revents :: nat

definition pollfd_bytes :: "pollfd \<Rightarrow> byte list" where
  "pollfd_bytes p = le_bytes 4 (nat (pf_fd p mod 2 ^ 32)) @ le_bytes 2 (pf_events p) @ le_bytes 2 (pf_revents p)"

definition pollfd_of :: "byte list \<Rightarrow> pollfd" where
  "pollfd_of bs =
     \<lparr>pf_fd = as_i32 (int (le_nat (take 4 bs))), pf_events = le_nat (take 2 (drop 4 bs)), pf_revents = le_nat (take 2 (drop 6 bs))\<rparr>"

definition pollfds_bytes :: "pollfd list \<Rightarrow> byte list" where
  "pollfds_bytes ps = concat (map pollfd_bytes ps)"

definition pollfds_of :: "nat \<Rightarrow> byte list \<Rightarrow> pollfd list" where
  "pollfds_of n bs = map (\<lambda>i. pollfd_of (take 8 (drop (8 * i) bs))) [0..<n]"

text \<open>Descriptor sets are 32 words of 32 bits.\<close>

definition FD_SETSIZE :: nat where "FD_SETSIZE = 1024"
definition FD_SET_WORDS :: nat where "FD_SET_WORDS = FD_SETSIZE div 32"
definition FD_SET_BYTES :: nat where "FD_SET_BYTES = FD_SET_WORDS * 4"

definition fd_isset :: "nat \<Rightarrow> u32 list \<Rightarrow> bool" where
  "fd_isset fd s \<longleftrightarrow> fd < FD_SETSIZE \<and> s ! (fd div 32) AND push_bit (fd mod 32) 1 \<noteq> 0"

definition fd_set_bit :: "nat \<Rightarrow> u32 list \<Rightarrow> u32 list" where
  "fd_set_bit fd s = (if fd < FD_SETSIZE then s[fd div 32 := s ! (fd div 32) OR push_bit (fd mod 32) 1] else s)"

definition fd_zero :: "u32 list" where
  "fd_zero = replicate FD_SET_WORDS 0"

definition fd_set_bytes :: "u32 list \<Rightarrow> byte list" where
  "fd_set_bytes s = concat (map (\<lambda>w. le_bytes 4 (unat w)) s)"

definition fd_set_of :: "byte list \<Rightarrow> u32 list" where
  "fd_set_of bs = map (\<lambda>i. word_of_nat (le_nat (take 4 (drop (4 * i) bs)))) [0..<FD_SET_WORDS]"

section \<open>Specifications\<close>

datatype fd_arg_kind =
  Fd | DirFd | OldFd | NewFd | PIPEFD | FcntlFd | SOCKPAIR | POLLFD | EPFD | SELECTFD | FLAG | CREAT

type_synonym fd_arg_spec = "nat \<times> fd_arg_kind"

definition CREATION :: "fd_arg_spec list" where "CREATION = [(0, CREAT)]"
definition CREATION_DIRFD_1_FLAG_3 :: "fd_arg_spec list" where "CREATION_DIRFD_1_FLAG_3 = [(0, DirFd), (2, FLAG), (0, CREAT)]"
definition CREATION_FLAG_1 :: "fd_arg_spec list" where "CREATION_FLAG_1 = [(0, FLAG), (0, CREAT)]"
definition CREATION_FLAG_2 :: "fd_arg_spec list" where "CREATION_FLAG_2 = [(1, FLAG), (0, CREAT)]"
definition CREATION_FD_1 :: "fd_arg_spec list" where "CREATION_FD_1 = [(0, Fd), (0, CREAT)]"
definition CREATION_FD_1_FLAG_4 :: "fd_arg_spec list" where "CREATION_FD_1_FLAG_4 = [(4, FLAG), (0, Fd), (0, CREAT)]"
definition FD_ARG_1 :: "fd_arg_spec list" where "FD_ARG_1 = [(0, Fd)]"
definition FD_ARG_5 :: "fd_arg_spec list" where "FD_ARG_5 = [(4, Fd)]"
definition FD_ARG_1_AND_2 :: "fd_arg_spec list" where "FD_ARG_1_AND_2 = [(0, Fd), (1, Fd)]"
definition DIRFD_ARG_1 :: "fd_arg_spec list" where "DIRFD_ARG_1 = [(0, DirFd)]"
definition DIRFD_ARG_1_AND_3 :: "fd_arg_spec list" where "DIRFD_ARG_1_AND_3 = [(0, DirFd), (2, DirFd)]"
definition OLD_FD_1_NEW_FD_2 :: "fd_arg_spec list" where "OLD_FD_1_NEW_FD_2 = [(1, NewFd), (0, OldFd)]"
definition OLD_FD_1_NEW_FD_2_FLAG :: "fd_arg_spec list" where "OLD_FD_1_NEW_FD_2_FLAG = [(1, NewFd), (0, OldFd), (2, FLAG)]"
definition FCNTL_FD_1_FLAG_2 :: "fd_arg_spec list" where "FCNTL_FD_1_FLAG_2 = [(0, FcntlFd)]"
definition SOCKPAIR_SPEC :: "fd_arg_spec list" where "SOCKPAIR_SPEC = [(3, SOCKPAIR), (1, FLAG)]"
definition POLL_1 :: "fd_arg_spec list" where "POLL_1 = [(0, POLLFD)]"
definition EPOLL_1_FD_3 :: "fd_arg_spec list" where "EPOLL_1_FD_3 = [(2, EPFD), (0, Fd)]"
definition PIPE_FD :: "fd_arg_spec list" where "PIPE_FD = [(0, PIPEFD)]"
definition PIPE_FD_FLAG :: "fd_arg_spec list" where "PIPE_FD_FLAG = [(0, PIPEFD), (1, FLAG)]"
definition SELECT_FDS :: "fd_arg_spec list" where "SELECT_FDS = [(1, SELECTFD)]"

lemmas spec_defs = CREATION_def CREATION_DIRFD_1_FLAG_3_def CREATION_FLAG_1_def CREATION_FLAG_2_def CREATION_FD_1_def
  CREATION_FD_1_FLAG_4_def FD_ARG_1_def FD_ARG_5_def FD_ARG_1_AND_2_def DIRFD_ARG_1_def DIRFD_ARG_1_AND_3_def
  OLD_FD_1_NEW_FD_2_def OLD_FD_1_NEW_FD_2_FLAG_def FCNTL_FD_1_FLAG_2_def SOCKPAIR_SPEC_def POLL_1_def EPOLL_1_FD_3_def
  PIPE_FD_def PIPE_FD_FLAG_def SELECT_FDS_def

definition FD_HANDLER_TABLE :: "(nat \<times> fd_arg_spec list) list" where
  "FD_HANDLER_TABLE =
     map (\<lambda>nr. (nr, FD_ARG_1))
       [SYS_READ, SYS_PREADV, SYS_WRITE, SYS_PWRITEV, SYS_CLOSE, SYS_LSEEK, SYS_IOCTL, SYS_FSTAT, SYS_FSYNC, SYS_FDATASYNC,
        SYS_FTRUNCATE, SYS_FLOCK, SYS_FCHMOD, SYS_FCHDIR, SYS_GETDENTS, SYS_FSTATFS, SYS_SYNC_FILE_RANGE, SYS_PREAD,
        SYS_PWRITE, SYS_READV, SYS_WRITEV] @
     [(SYS_MMAP, FD_ARG_5)] @
     map (\<lambda>nr. (nr, FD_ARG_1))
       [SYS_BIND, SYS_LISTEN, SYS_CONNECT, SYS_SHUTDOWN, SYS_SENDTO, SYS_RECVFROM, SYS_SENDMSG, SYS_RECVMSG,
        SYS_SETSOCKOPT, SYS_GETSOCKOPT, SYS_GETSOCKNAME, SYS_GETPEERNAME, SYS_EPOLL_WAIT] @
     map (\<lambda>nr. (nr, DIRFD_ARG_1)) [SYS_UNLINKAT, SYS_SYMLINKAT, SYS_READLINKAT, SYS_FCHMODAT] @
     [(SYS_OPEN, CREATION_FLAG_2), (SYS_OPENAT, CREATION_DIRFD_1_FLAG_3), (SYS_DUP, CREATION_FD_1),
      (SYS_DUP2, OLD_FD_1_NEW_FD_2), (SYS_DUP3, OLD_FD_1_NEW_FD_2_FLAG), (SYS_FCNTL, FCNTL_FD_1_FLAG_2),
      (SYS_ACCEPT, CREATION_FD_1), (SYS_ACCEPT4, CREATION_FD_1_FLAG_4), (SYS_SOCKET, CREATION_FLAG_2),
      (SYS_SOCKETPAIR, SOCKPAIR_SPEC), (SYS_EPOLL_CREATE, CREATION), (SYS_EPOLL_CREATE1, CREATION_FLAG_1),
      (SYS_PIPE, PIPE_FD), (SYS_PIPE2, PIPE_FD_FLAG), (SYS_POLL, POLL_1), (SYS_PPOLL, POLL_1),
      (SYS_EPOLL_CTL, EPOLL_1_FD_3), (SYS_SELECT, SELECT_FDS)]"

section \<open>Translation\<close>

definition FDKIND_KERNEL :: nat where "FDKIND_KERNEL = 1"
definition ARG_TRANSLATE_FLAG :: nat where "ARG_TRANSLATE_FLAG = 2 ^ 63"

definition translate_fd_arg :: "'ft grate_env \<Rightarrow> 'ft \<Rightarrow> nat \<Rightarrow> nat \<Rightarrow> fd_arg_kind \<Rightarrow> nat option" where
  "translate_fd_arg E ft cageid arg kind =
     (if kind = DirFd \<and> arg = 2 ^ 64 - 100 then Some arg
      else map_option underfd (translate_virtual_fd (ge_fd E) ft cageid arg))"

record select_state =
  select_cageid :: nat
  have_r :: bool
  have_w :: bool
  have_e :: bool
  v_read :: nat
  v_write :: nat
  v_except :: nat
  rev_map :: "nat option list"
  max_under :: nat
  k_read :: "u32 list"
  k_write :: "u32 list"
  k_except :: "u32 list"

text \<open>The local variables of \<open>fd_translation_handler_impl\<close>; an option stands for a flag with its data.\<close>

record fd_locals =
  x_args :: "sysarg list"
  x_cages :: "nat list"
  vfd_close :: nat
  should_create_vfd :: bool
  x_cloexec :: bool
  should_dup2 :: bool
  old_fd_cageid :: nat
  new_fd :: nat
  x_pipe :: "(nat \<times> nat) option"
  x_socketpair :: "(nat \<times> nat) option"
  x_poll :: "(nat \<times> nat \<times> pollfd list) option"
  x_select :: "select_state option"

definition init_locals :: "nat list \<Rightarrow> nat list \<Rightarrow> fd_locals" where
  "init_locals a g =
     \<lparr>x_args = map Num a, x_cages = g, vfd_close = 0, should_create_vfd = False, x_cloexec = False, should_dup2 = False,
      old_fd_cageid = 0, new_fd = 0, x_pipe = None, x_socketpair = None, x_poll = None, x_select = None\<rparr>"

fun arg_num :: "sysarg \<Rightarrow> nat" where
  "arg_num (Num n) = n"
| "arg_num _ = 0"

abbreviation num_at :: "fd_locals \<Rightarrow> nat \<Rightarrow> nat" where
  "num_at x i \<equiv> arg_num (x_args x ! i)"

definition set_arg :: "fd_locals \<Rightarrow> nat \<Rightarrow> sysarg \<Rightarrow> fd_locals" where
  "set_arg x i v = x\<lparr>x_args := (x_args x)[i := v]\<rparr>"

text \<open>Negative descriptors are ignored by \<open>poll\<close> and stay as they are.\<close>

fun translate_pollfds :: "'ft grate_env \<Rightarrow> 'ft \<Rightarrow> nat \<Rightarrow> pollfd list \<Rightarrow> pollfd list option" where
  "translate_pollfds E ft cage [] = Some []"
| "translate_pollfds E ft cage (p # ps) =
     (if pf_fd p < 0 then map_option ((#) p) (translate_pollfds E ft cage ps)
      else case translate_fd_arg E ft cage (as_u64 (pf_fd p)) Fd of
             None \<Rightarrow> None
           | Some u \<Rightarrow> map_option ((#) (p\<lparr>pf_fd := as_i32 (int u)\<rparr>)) (translate_pollfds E ft cage ps))"

definition read_fd_set :: "'ft grate_env \<Rightarrow> 'ft grate_world \<Rightarrow> bool \<Rightarrow> nat \<Rightarrow> nat \<Rightarrow> u32 list" where
  "read_fd_set E w have cage ptr =
     (if have then (case ge_copymem E (hist w) cage ptr FD_SET_BYTES of Some bs \<Rightarrow> fd_set_of bs | None \<Rightarrow> fd_zero)
      else fd_zero)"

definition select_one ::
  "'ft grate_env \<Rightarrow> 'ft \<Rightarrow> u32 list \<Rightarrow> u32 list \<Rightarrow> u32 list \<Rightarrow> select_state \<Rightarrow> nat \<Rightarrow> select_state" where
  "select_one E ft rs ws es s fd =
     (let want_r = have_r s \<and> fd_isset fd rs; want_w = have_w s \<and> fd_isset fd ws; want_e = have_e s \<and> fd_isset fd es in
      if \<not> want_r \<and> \<not> want_w \<and> \<not> want_e then s
      else case translate_fd_arg E ft (select_cageid s) fd Fd of
             None \<Rightarrow> s
           | Some u \<Rightarrow>
               let under = as_usize (int u) in
               if under < FD_SETSIZE then
                 s\<lparr>rev_map := (rev_map s)[under := Some fd], max_under := (if under > max_under s then under else max_under s),
                   k_read := (if want_r then fd_set_bit under (k_read s) else k_read s),
                   k_write := (if want_w then fd_set_bit under (k_write s) else k_write s),
                   k_except := (if want_e then fd_set_bit under (k_except s) else k_except s)\<rparr>
               else s)"

definition select_init :: "fd_locals \<Rightarrow> nat list \<Rightarrow> nat \<Rightarrow> select_state" where
  "select_init x a cage =
     \<lparr>select_cageid = cage, have_r = (a ! 1 \<noteq> 0), have_w = (a ! 2 \<noteq> 0), have_e = (a ! 3 \<noteq> 0),
      v_read = num_at x 1, v_write = num_at x 2, v_except = num_at x 3, rev_map = replicate FD_SETSIZE None, max_under = 0,
      k_read = fd_zero, k_write = fd_zero, k_except = fd_zero\<rparr>"

definition select_prepare :: "'ft grate_env \<Rightarrow> 'ft grate_world \<Rightarrow> nat \<Rightarrow> nat list \<Rightarrow> nat \<Rightarrow> fd_locals \<Rightarrow> fd_locals" where
  "select_prepare E w this_grateid a i x =
     (let nfds = as_i32 (int (num_at x 0)); cage = x_cages x ! i; s = select_init x a cage;
          rs = read_fd_set E w (have_r s) cage (num_at x 1); ws = read_fd_set E w (have_w s) cage (num_at x 2);
          es = read_fd_set E w (have_e s) cage (num_at x 3);
          s = foldl (select_one E (fdt w) rs ws es) s [0..<nat nfds];
          own = (\<lambda>have k. if have then OwnBuf (fd_set_bytes k) else Num 0);
          tc = this_grateid OR ARG_TRANSLATE_FLAG
      in x\<lparr>x_select := Some s,
           x_args := (x_args x)[0 := Num (if max_under s > 0 then max_under s + 1 else a ! 0), 1 := own (have_r s) (k_read s),
                       2 := own (have_w s) (k_write s), 3 := own (have_e s) (k_except s)],
           x_cages := (x_cages x)[1 := (if have_r s then tc else x_cages x ! 1), 2 := (if have_w s then tc else x_cages x ! 2),
                        3 := (if have_e s then tc else x_cages x ! 3)]\<rparr>)"

text \<open>One iteration of the loop over the specifications: \<open>Inl\<close> is an early return.\<close>

definition apply_spec ::
  "'ft grate_env \<Rightarrow> nat \<Rightarrow> nat \<Rightarrow> nat list \<Rightarrow> fd_arg_spec \<Rightarrow> fd_locals \<Rightarrow> 'ft grate_world \<Rightarrow>
   (int \<times> 'ft grate_world + fd_locals \<times> 'ft grate_world) option" where
  "apply_spec E syscall_num this_grateid a spec x w =
     (let i = fst spec; kind = snd spec; arg = num_at x i; cage = x_cages x ! i in
      case kind of
        NewFd \<Rightarrow> Some (Inr (x\<lparr>should_dup2 := True, new_fd := arg\<rparr>, w))
      | OldFd \<Rightarrow>
          (case translate_virtual_fd (ge_fd E) (fdt w) cage arg of
             None \<Rightarrow> Some (Inl (-9, w))
           | Some entry \<Rightarrow> Some (Inr (set_arg (x\<lparr>old_fd_cageid := cage\<rparr>) i (Num (underfd entry)), w)))
      | FcntlFd \<Rightarrow>
          (case translate_fd_arg E (fdt w) (x_cages x ! 0) (num_at x 0) Fd of
             None \<Rightarrow> Some (Inl (-9, w))
           | Some u \<Rightarrow>
               let cmd = as_i32 (int (num_at x 1)); x = set_arg x 0 (Num u) in
               Some (Inr (if cmd = 0 \<or> cmd = 1030 then x\<lparr>should_create_vfd := True, x_cloexec := (x_cloexec x \<or> cmd = 1030)\<rparr> else x, w)))
      | PIPEFD \<Rightarrow> Some (Inr (x\<lparr>x_pipe := Some (arg, cage)\<rparr>, w))
      | SOCKPAIR \<Rightarrow>
          Some (Inr (set_arg (x\<lparr>x_socketpair := Some (arg, cage), x_cages := (x_cages x)[i := this_grateid]\<rparr>) i (OwnBuf (replicate 8 0)), w))
      | POLLFD \<Rightarrow>
          (let nfds = as_usize (int (num_at x (i + 1))) in
           if nfds = 0 then Some (Inr (x\<lparr>x_poll := Some (arg, cage, [])\<rparr>, w))
           else if nfds * 8 \<ge> 2 ^ 31 then None
           else case ge_copymem E (hist w) cage arg (nfds * 8) of
                  None \<Rightarrow> None
                | Some bs \<Rightarrow>
                    (case translate_pollfds E (fdt w) cage (pollfds_of nfds bs) of
                       None \<Rightarrow> Some (Inl (-9, w))
                     | Some ps \<Rightarrow>
                         Some (Inr (set_arg (x\<lparr>x_poll := Some (arg, cage, pollfds_of nfds bs),
                                               x_cages := (x_cages x)[i := this_grateid OR ARG_TRANSLATE_FLAG]\<rparr>) i
                                     (OwnBuf (pollfds_bytes ps)), w))))
      | EPFD \<Rightarrow>
          (case translate_fd_arg E (fdt w) cage arg EPFD of
             None \<Rightarrow> Some (Inl (-9, w))
           | Some u \<Rightarrow>
               Some (Inr (set_arg x i (Num u),
                 if syscall_num = SYS_CLOSE
                 then (case close_virtualfd (ge_fd E) (fdt w) cage arg of Some ft \<Rightarrow> w\<lparr>fdt := ft\<rparr> | None \<Rightarrow> w) else w)))
      | SELECTFD \<Rightarrow> Some (Inr (select_prepare E w this_grateid a i x, w))
      | FLAG \<Rightarrow> Some (Inr (x\<lparr>x_cloexec := (x_cloexec x \<or> arg AND 0x80000 \<noteq> 0)\<rparr>, w))
      | CREAT \<Rightarrow> Some (Inr (x\<lparr>should_create_vfd := True\<rparr>, w))
      | _ \<Rightarrow>
          (let x = x\<lparr>vfd_close := arg\<rparr> in
           if syscall_num = SYS_MMAP \<and> arg = 2 ^ 64 - 1 then Some (Inr (x, w))
           else case translate_fd_arg E (fdt w) cage arg kind of
                  None \<Rightarrow> Some (Inl (-9, w))
                | Some u \<Rightarrow> Some (Inr (set_arg x i (Num u), w))))"

fun apply_specs ::
  "'ft grate_env \<Rightarrow> nat \<Rightarrow> nat \<Rightarrow> nat list \<Rightarrow> fd_arg_spec list \<Rightarrow> fd_locals \<Rightarrow> 'ft grate_world \<Rightarrow>
   (int \<times> 'ft grate_world + fd_locals \<times> 'ft grate_world) option" where
  "apply_specs E nr this a [] x w = Some (Inr (x, w))"
| "apply_specs E nr this a (spec # specs) x w =
     (case apply_spec E nr this a spec x w of
        None \<Rightarrow> None
      | Some (Inl r) \<Rightarrow> Some (Inl r)
      | Some (Inr (x, w)) \<Rightarrow> apply_specs E nr this a specs x w)"

section \<open>After the call\<close>

definition copy_back :: "'ft grate_env \<Rightarrow> 'ft grate_world \<Rightarrow> nat \<Rightarrow> nat \<Rightarrow> byte list \<Rightarrow> 'ft grate_world option" where
  "copy_back E w cage ptr bs = (if ge_copyout E (hist w) cage ptr bs then Some (log_event (CopyOut cage ptr bs) w) else None)"

text \<open>Two descriptors of the runtime become virtual ones and are written to the cage.\<close>

definition create_pair :: "'ft grate_env \<Rightarrow> 'ft grate_world \<Rightarrow> nat \<Rightarrow> bool \<Rightarrow> byte list \<Rightarrow> nat \<Rightarrow> nat \<Rightarrow> 'ft grate_world option" where
  "create_pair E w fd_cage cloexec kbuf ptr cage = do {
     (v1, ft) \<leftarrow> get_unused_virtual_fd (ge_fd E) (fdt w) fd_cage FDKIND_KERNEL
                   (as_u64 (as_i32 (int (le_nat (take 4 kbuf))))) cloexec 0;
     (v2, ft) \<leftarrow> get_unused_virtual_fd (ge_fd E) ft fd_cage FDKIND_KERNEL
                   (as_u64 (as_i32 (int (le_nat (take 4 (drop 4 kbuf)))))) cloexec 0;
     copy_back E (w\<lparr>fdt := ft\<rparr>) cage ptr (le_bytes 4 v1 @ le_bytes 4 v2) }"

definition finish_pipe :: "'ft grate_env \<Rightarrow> fd_locals \<Rightarrow> 'ft grate_world \<Rightarrow> 'ft grate_world option" where
  "finish_pipe E x w =
     (case x_pipe x of
        None \<Rightarrow> Some w
      | Some (ptr, cage) \<Rightarrow> do {
          kbuf \<leftarrow> ge_copymem E (hist w) cage ptr 8;
          create_pair E w cage (x_cloexec x) kbuf ptr cage })"

definition finish_socketpair :: "'ft grate_env \<Rightarrow> nat \<Rightarrow> fd_locals \<Rightarrow> (nat \<Rightarrow> byte list) \<Rightarrow> 'ft grate_world \<Rightarrow> 'ft grate_world option" where
  "finish_socketpair E arg1cage x out w =
     (case x_socketpair x of
        None \<Rightarrow> Some w
      | Some (ptr, cage) \<Rightarrow> create_pair E w arg1cage (x_cloexec x) (out 3) ptr cage)"

text \<open>The events are the runtime's, the descriptors the cage's own.\<close>

definition restore_pollfds :: "pollfd list \<Rightarrow> pollfd list \<Rightarrow> pollfd list" where
  "restore_pollfds new orig = map2 (\<lambda>p q. p\<lparr>pf_fd := pf_fd q\<rparr>) new orig"

definition finish_poll :: "'ft grate_env \<Rightarrow> fd_locals \<Rightarrow> (nat \<Rightarrow> byte list) \<Rightarrow> 'ft grate_world \<Rightarrow> 'ft grate_world option" where
  "finish_poll E x out w =
     (case x_poll x of
        None \<Rightarrow> Some w
      | Some (ptr, cage, orig) \<Rightarrow>
          if orig = [] then Some w
          else copy_back E w cage ptr (pollfds_bytes (restore_pollfds (pollfds_of (length orig) (out 0)) orig)))"

text \<open>The bits of one set, from the runtime's descriptors back to the cage's.\<close>

definition select_back :: "select_state \<Rightarrow> bool \<Rightarrow> u32 list \<Rightarrow> u32 list" where
  "select_back s have k =
     foldl (\<lambda>out under. case rev_map s ! under of
                          Some fd \<Rightarrow> if have \<and> fd_isset under k then fd_set_bit fd out else out
                        | None \<Rightarrow> out)
       fd_zero [0..<Suc (max_under s)]"

definition write_fd_set :: "'ft grate_env \<Rightarrow> select_state \<Rightarrow> bool \<Rightarrow> nat \<Rightarrow> u32 list \<Rightarrow> 'ft grate_world \<Rightarrow> 'ft grate_world option" where
  "write_fd_set E s have ptr bits w =
     (if have then copy_back E w (select_cageid s) ptr (fd_set_bytes bits) else Some w)"

definition finish_select :: "'ft grate_env \<Rightarrow> fd_locals \<Rightarrow> (nat \<Rightarrow> byte list) \<Rightarrow> 'ft grate_world \<Rightarrow> 'ft grate_world option" where
  "finish_select E x out w =
     (case x_select x of
        None \<Rightarrow> Some w
      | Some s \<Rightarrow> do {
          let out_r = select_back s (have_r s) (if have_r s then fd_set_of (out 1) else k_read s);
          let out_w = select_back s (have_w s) (if have_w s then fd_set_of (out 2) else k_write s);
          let out_e = select_back s (have_e s) (if have_e s then fd_set_of (out 3) else k_except s);
          w \<leftarrow> write_fd_set E s (have_r s) (v_read s) out_r w;
          w \<leftarrow> write_fd_set E s (have_w s) (v_write s) out_w w;
          write_fd_set E s (have_e s) (v_except s) out_e w })"

definition fd_translation_handler_impl ::
  "nat \<Rightarrow> fd_arg_spec list \<Rightarrow> 'ft grate_env \<Rightarrow> 'ft grate_world \<Rightarrow> nat \<Rightarrow> nat list \<Rightarrow> nat list \<Rightarrow> (int \<times> 'ft grate_world) option" where
  "fd_translation_handler_impl syscall_num fd_specs E w this_grateid a g =
     (case apply_specs E syscall_num this_grateid a fd_specs (init_locals a g) w of
        None \<Rightarrow> None
      | Some (Inl r) \<Rightarrow> Some r
      | Some (Inr (x, w)) \<Rightarrow>
          let c = \<lparr>callnumber = as_u32 syscall_num, self_cageid = this_grateid, target_cageid = g ! 0,
                   call_args = x_args x, call_cages = x_cages x\<rparr>;
              out = ge_out E (hist w) c;
              (ret, w) = grate_call E w c
          in if ret < 0 then Some (ret, w)
             else
               let w = (if syscall_num = SYS_CLOSE
                        then (case close_virtualfd (ge_fd E) (fdt w) (g ! 0) (vfd_close x) of Some ft \<Rightarrow> w\<lparr>fdt := ft\<rparr> | None \<Rightarrow> w)
                        else w) in
               if should_dup2 x then
                 (case get_specific_virtual_fd (ge_fd E) (fdt w) (old_fd_cageid x) (new_fd x) FDKIND_KERNEL (as_u64 ret) (x_cloexec x) 0 of
                    Some ft \<Rightarrow> Some (as_i32 (int (new_fd x)), w\<lparr>fdt := ft\<rparr>)
                  | None \<Rightarrow> Some (-24, w))
               else if should_create_vfd x then
                 (case get_unused_virtual_fd (ge_fd E) (fdt w) (g ! 0) FDKIND_KERNEL (as_u64 ret) (x_cloexec x) 0 of
                    Some (vfd, ft) \<Rightarrow> Some (as_i32 (int vfd), w\<lparr>fdt := ft\<rparr>)
                  | None \<Rightarrow> Some (-24, w))
               else do {
                 w \<leftarrow> finish_pipe E x w;
                 w \<leftarrow> finish_socketpair E (g ! 0) x out w;
                 w \<leftarrow> finish_poll E x out w;
                 w \<leftarrow> finish_select E x out w;
                 Some (ret, w) })"

text \<open>The handlers the macro defines, one per line of the table.\<close>

definition fd_handler :: "nat \<Rightarrow> ('ft grate_env \<Rightarrow> 'ft grate_world \<Rightarrow> nat \<Rightarrow> nat list \<Rightarrow> nat list \<Rightarrow> (int \<times> 'ft grate_world) option) option" where
  "fd_handler nr = map_option (fd_translation_handler_impl nr) (map_of FD_HANDLER_TABLE nr)"

section \<open>Encoded arrays\<close>

text \<open>A fixed-size record is read back from a concatenation of encodings.\<close>

lemma take_drop_concat:
  assumes "\<forall>x \<in> set xs. length (f x) = k" "i < length xs"
  shows "take k (drop (k * i) (concat (map f xs))) = f (xs ! i)"
  using assms
proof (induction xs arbitrary: i)
  case (Cons x xs)
  then show ?case by (cases i) (simp_all add: drop_append)
qed simp

lemma length_pollfd_bytes [simp]: "length (pollfd_bytes p) = 8"
  by (simp add: pollfd_bytes_def)

definition pollfd_ok :: "pollfd \<Rightarrow> bool" where
  "pollfd_ok p \<longleftrightarrow> - (2 ^ 31) \<le> pf_fd p \<and> pf_fd p < 2 ^ 31 \<and> pf_events p < 2 ^ 16 \<and> pf_revents p < 2 ^ 16"

lemma pollfd_of_bytes: "pollfd_ok p \<Longrightarrow> pollfd_of (pollfd_bytes p) = p"
proof -
  assume p: "pollfd_ok p"
  have "signed_take_bit 31 (take_bit 32 (pf_fd p)) = pf_fd p"
    using p by (simp add: signed_take_bit_take_bit signed_take_bit_int_eq_self pollfd_ok_def)
  then show ?thesis using p
    by (cases p) (simp add: pollfd_ok_def pollfd_of_def pollfd_bytes_def le_nat_le_bytes as_i32_def take_bit_eq_mod)
qed

lemma pollfds_of_bytes: "\<forall>p \<in> set ps. pollfd_ok p \<Longrightarrow> pollfds_of (length ps) (pollfds_bytes ps) = ps"
  by (auto simp: pollfds_of_def pollfds_bytes_def take_drop_concat pollfd_of_bytes intro!: nth_equalityI)

end
