(* ===== verification/Ipc_World.thy ===== *)
theory Ipc_World
  imports Ipc Fd_Support
begin

unbundle bit_operations_syntax

text \<open>
  What the handlers of the ipc grate share (\<open>rust-grates/ipc-grate/src/handlers.rs\<close>, first part, and
  \<open>helpers.rs\<close>): the world they act on, the callbacks the descriptor tables make when an entry
  goes away, the forwarding of calls to the runtime and the translation of descriptors.

  The tables call the registered close handler for every entry they drop, be it by a close, by a
  replacement, at exec or at exit; the operations below do the same.  \<open>None\<close> as the result of
  a handler means that it does not return.
\<close>

section \<open>World and environment\<close>

record ('ft, 'rb) ipc_world = "'ft grate_world" +
  ipcs :: "'rb ipc_state"
  pendings :: "pending_fdtable list"

text \<open>A sleep in a waiting loop is interrupted by a signal, or the other threads have acted.\<close>

datatype 'w wake = Signalled | Woken "'w \<Rightarrow> 'w"

text \<open>
  \<open>ie_copy\<close>: the copy of a cage's table (\<open>return_fdtable_copy\<close>); \<open>ie_exec\<close>: the tables after
  \<open>empty_fds_for_exec\<close>; \<open>ie_user\<close>: the bytes behind a raw pointer; \<open>ie_stale\<close>: what the free
  space of a ring holds when a copy into it fails; \<open>ie_tables\<close>: what other
  threads do to the tables while a look-up waits; \<open>ie_naps\<close>: the sleeps of a transfer; \<open>ie_waits\<close>,
  \<open>ie_elapsed\<close>: the sleeps of a waiting loop and the nanoseconds passed at its checks;
  \<open>ie_keys\<close>: the order in which a target map is iterated; \<open>ie_child\<close>: what a forked child does before the clone returns to its parent.
\<close>

record ('ft, 'rb) ipc_env =
  ie_g :: "'ft grate_env"
  ie_ring :: "'rb ringbuf_ops"
  ie_copy :: "'ft \<Rightarrow> nat \<Rightarrow> (nat \<times> fd_entry) list"
  ie_exec :: "'ft \<Rightarrow> nat \<Rightarrow> 'ft"
  ie_user :: "event list \<Rightarrow> nat \<Rightarrow> nat \<Rightarrow> byte list"
  ie_stale :: "event list \<Rightarrow> nat \<Rightarrow> byte list"
  ie_tables :: "event list \<Rightarrow> nat \<Rightarrow> 'ft shared \<Rightarrow> 'ft shared"
  ie_naps :: "event list \<Rightarrow> nap list"
  ie_waits :: "event list \<Rightarrow> ('ft, 'rb) ipc_world wake list"
  ie_elapsed :: "event list \<Rightarrow> nat \<Rightarrow> nat"
  ie_keys :: "(nat \<rightharpoonup> epoll_event) \<Rightarrow> nat list"
  ie_child :: "event list \<Rightarrow> ('ft, 'rb) ipc_world \<Rightarrow> ('ft, 'rb) ipc_world"

type_synonym ('ft, 'rb) ipc_handler =
  "('ft, 'rb) ipc_env \<Rightarrow> ('ft, 'rb) ipc_world \<Rightarrow> nat list \<Rightarrow> nat list \<Rightarrow> (int \<times> ('ft, 'rb) ipc_world) option"

abbreviation ie_fd :: "('ft, 'rb) ipc_env \<Rightarrow> 'ft fdtables_ops" where
  "ie_fd X \<equiv> ge_fd (ie_g X)"

definition IPC_FDKIND_KERNEL :: nat where "IPC_FDKIND_KERNEL = 0"
definition IPC_EPOLL :: nat where "IPC_EPOLL = 4"

definition arg_i32 :: "nat \<Rightarrow> i32" where
  "arg_i32 n = word_of_nat n"

section \<open>Memory of the cages\<close>

text \<open>A copy into a zeroed buffer whose status is ignored.\<close>

definition copy_in :: "('ft, 'rb) ipc_env \<Rightarrow> ('ft, 'rb) ipc_world \<Rightarrow> nat \<Rightarrow> nat \<Rightarrow> nat \<Rightarrow> byte list" where
  "copy_in X w cage ptr n = (case ge_copymem (ie_g X) (hist w) cage ptr n of Some bs \<Rightarrow> bs | None \<Rightarrow> replicate n 0)"

definition copy_out :: "('ft, 'rb) ipc_env \<Rightarrow> ('ft, 'rb) ipc_world \<Rightarrow> nat \<Rightarrow> nat \<Rightarrow> byte list \<Rightarrow> ('ft, 'rb) ipc_world" where
  "copy_out X w cage ptr bs =
     (if ge_copyout (ie_g X) (hist w) cage ptr bs then log_event (CopyOut cage ptr bs) w else w)"

definition read_user_bytes :: "('ft, 'rb) ipc_env \<Rightarrow> ('ft, 'rb) ipc_world \<Rightarrow> nat \<Rightarrow> nat \<Rightarrow> byte list" where
  "read_user_bytes X w src len = ie_user X (hist w) src len"

definition write_user_bytes :: "('ft, 'rb) ipc_world \<Rightarrow> nat \<Rightarrow> byte list \<Rightarrow> ('ft, 'rb) ipc_world" where
  "write_user_bytes w dst bs = log_event (UserWrite dst bs) w"

text \<open>Two \<open>i32\<close> values as bytes.\<close>

definition fd_pair_bytes :: "int \<Rightarrow> int \<Rightarrow> byte list" where
  "fd_pair_bytes a b = le_bytes 4 (nat (a mod 2 ^ 32)) @ le_bytes 4 (nat (b mod 2 ^ 32))"

definition read_clone_flags :: "('ft, 'rb) ipc_env \<Rightarrow> ('ft, 'rb) ipc_world \<Rightarrow> nat \<Rightarrow> nat \<Rightarrow> nat" where
  "read_clone_flags X w ptr cage = le_nat (copy_in X w cage ptr 8)"

section \<open>References of pipes\<close>

text \<open>A change of the pipe an \<open>Arc\<close> points to.\<close>

definition pipe_mod :: "('rb pipe \<Rightarrow> 'rb pipe) \<Rightarrow> nat \<Rightarrow> 'rb ipc_state \<Rightarrow> 'rb ipc_state" where
  "pipe_mod f i s = s\<lparr>store := (store s)[i := f (store s ! i)]\<rparr>"

definition opt_pipe_mod :: "('rb pipe \<Rightarrow> 'rb pipe) \<Rightarrow> nat option \<Rightarrow> 'rb ipc_state \<Rightarrow> 'rb ipc_state" where
  "opt_pipe_mod f p s = (case p of Some i \<Rightarrow> pipe_mod f i s | None \<Rightarrow> s)"

definition ipc_pipe_close_handler :: "fd_entry \<Rightarrow> 'rb ipc_state \<Rightarrow> 'rb ipc_state" where
  "ipc_pipe_close_handler e s =
     opt_pipe_mod (if is_read_end (word_of_nat (perfdinfo e)) then decr_read_ref else decr_write_ref) (get_pipe s (underfd e)) s"

definition ipc_socket_close_handler :: "fd_entry \<Rightarrow> 'rb ipc_state \<Rightarrow> 'rb ipc_state" where
  "ipc_socket_close_handler e s =
     (case registry_get (socks s) (underfd e) of
        None \<Rightarrow> s
      | Some k \<Rightarrow> opt_pipe_mod decr_read_ref (recvpipe k) (opt_pipe_mod decr_write_ref (sendpipe k) s))"

text \<open>The handler of epoll descriptors keeps every target map.\<close>

definition ipc_epoll_close_handler :: "fd_entry \<Rightarrow> 'rb ipc_state \<Rightarrow> 'rb ipc_state" where
  "ipc_epoll_close_handler e s = s"

definition close_hook :: "fd_entry \<Rightarrow> 'rb ipc_state \<Rightarrow> 'rb ipc_state" where
  "close_hook e s =
     (if fdkind e = IPC_PIPE then ipc_pipe_close_handler e s
      else if fdkind e = IPC_SOCKET then ipc_socket_close_handler e s
      else if fdkind e = IPC_EPOLL then ipc_epoll_close_handler e s
      else s)"

text \<open>The references of a duplicated descriptor.\<close>

definition add_refs :: "nat \<Rightarrow> nat \<Rightarrow> i32 \<Rightarrow> 'rb ipc_state \<Rightarrow> 'rb ipc_state" where
  "add_refs kind ufd flags s =
     (if kind = IPC_PIPE then opt_pipe_mod (if is_read_end flags then incr_read_ref else incr_write_ref) (get_pipe s ufd) s
      else if kind = IPC_SOCKET then
        (case registry_get (socks s) ufd of
           None \<Rightarrow> s
         | Some k \<Rightarrow> opt_pipe_mod incr_read_ref (recvpipe k) (opt_pipe_mod incr_write_ref (sendpipe k) s))
      else s)"

section \<open>Descriptor tables with their callbacks\<close>

definition ipc_close_fd :: "('ft, 'rb) ipc_env \<Rightarrow> ('ft, 'rb) ipc_world \<Rightarrow> nat \<Rightarrow> nat \<Rightarrow> ('ft, 'rb) ipc_world" where
  "ipc_close_fd X w cage fd =
     (case close_virtualfd (ie_fd X) (fdt w) cage fd of
        None \<Rightarrow> w
      | Some ft \<Rightarrow>
          w\<lparr>fdt := ft, ipcs := (case translate_virtual_fd (ie_fd X) (fdt w) cage fd of Some e \<Rightarrow> close_hook e (ipcs w) | None \<Rightarrow> ipcs w)\<rparr>)"

definition ipc_set_fd ::
  "('ft, 'rb) ipc_env \<Rightarrow> ('ft, 'rb) ipc_world \<Rightarrow> nat \<Rightarrow> nat \<Rightarrow> nat \<Rightarrow> nat \<Rightarrow> bool \<Rightarrow> nat \<Rightarrow> ('ft, 'rb) ipc_world" where
  "ipc_set_fd X w cage fd kind ufd ce info =
     (case get_specific_virtual_fd (ie_fd X) (fdt w) cage fd kind ufd ce info of
        None \<Rightarrow> w
      | Some ft \<Rightarrow>
          w\<lparr>fdt := ft, ipcs := (case translate_virtual_fd (ie_fd X) (fdt w) cage fd of Some e \<Rightarrow> close_hook e (ipcs w) | None \<Rightarrow> ipcs w)\<rparr>)"

definition close_hooks :: "(nat \<times> fd_entry) list \<Rightarrow> 'rb ipc_state \<Rightarrow> 'rb ipc_state" where
  "close_hooks es s = fold (\<lambda>x. close_hook (snd x)) es s"

definition ipc_remove_cage :: "('ft, 'rb) ipc_env \<Rightarrow> ('ft, 'rb) ipc_world \<Rightarrow> nat \<Rightarrow> ('ft, 'rb) ipc_world" where
  "ipc_remove_cage X w cage =
     w\<lparr>fdt := remove_cage_from_fdtable (ie_fd X) (fdt w) cage, ipcs := close_hooks (ie_copy X (fdt w) cage) (ipcs w)\<rparr>"

definition ipc_exec_close :: "('ft, 'rb) ipc_env \<Rightarrow> ('ft, 'rb) ipc_world \<Rightarrow> nat \<Rightarrow> ('ft, 'rb) ipc_world" where
  "ipc_exec_close X w cage =
     w\<lparr>fdt := ie_exec X (fdt w) cage,
       ipcs := close_hooks (filter (\<lambda>x. should_cloexec (snd x)) (ie_copy X (fdt w) cage)) (ipcs w)\<rparr>"

definition reserve_stdio :: "('ft, 'rb) ipc_env \<Rightarrow> nat \<Rightarrow> ('ft, 'rb) ipc_world \<Rightarrow> ('ft, 'rb) ipc_world" where
  "reserve_stdio X cage w = fold (\<lambda>fd w. ipc_set_fd X w cage fd IPC_FDKIND_KERNEL fd False 0) [0, 1, 2] w"

section \<open>Looking up descriptors\<close>

definition wait_cage :: "('ft, 'rb) ipc_env \<Rightarrow> ('ft, 'rb) ipc_world \<Rightarrow> nat \<Rightarrow> bool \<times> ('ft, 'rb) ipc_world" where
  "wait_cage X w cage =
     (case wait_for_cage_fdtable (ie_fd X) (ie_tables X (hist w)) cage (fdt w, pendings w) of
        (b, ft, p) \<Rightarrow> (b, w\<lparr>fdt := ft, pendings := p\<rparr>))"

definition wait_entry :: "('ft, 'rb) ipc_env \<Rightarrow> ('ft, 'rb) ipc_world \<Rightarrow> nat \<Rightarrow> nat \<Rightarrow> fd_entry option \<times> ('ft, 'rb) ipc_world" where
  "wait_entry X w cage fd =
     (case wait_for_fdtable_entry (ie_fd X) (ie_tables X (hist w)) cage fd (fdt w, pendings w) of
        (e, ft, p) \<Rightarrow> (e, w\<lparr>fdt := ft, pendings := p\<rparr>))"

definition ipc_lookup ::
  "('ft, 'rb) ipc_env \<Rightarrow> ('ft, 'rb) ipc_world \<Rightarrow> nat \<Rightarrow> nat \<Rightarrow> (nat \<times> nat \<times> i32) option \<times> ('ft, 'rb) ipc_world" where
  "ipc_lookup X w cage fd =
     (case lookup_ipc_fd (ie_fd X) (ie_tables X (hist w)) (ie_tables X (hist w)) cage fd (fdt w, pendings w) of
        (r, ft, p) \<Rightarrow> (r, w\<lparr>fdt := ft, pendings := p\<rparr>))"

definition ensure_cage_fdtable :: "('ft, 'rb) ipc_env \<Rightarrow> ('ft, 'rb) ipc_world \<Rightarrow> nat \<Rightarrow> ('ft, 'rb) ipc_world" where
  "ensure_cage_fdtable X w cage =
     (case wait_cage X w cage of
        (True, w) \<Rightarrow> w
      | (False, w) \<Rightarrow> reserve_stdio X cage (w\<lparr>fdt := init_empty_cage (ie_fd X) (fdt w) cage\<rparr>))"

definition translate_to_underfd ::
  "('ft, 'rb) ipc_env \<Rightarrow> ('ft, 'rb) ipc_world \<Rightarrow> nat \<Rightarrow> nat \<Rightarrow> nat option \<times> ('ft, 'rb) ipc_world" where
  "translate_to_underfd X w cage fd =
     (case wait_cage X w cage of
        (False, w) \<Rightarrow> (Some fd, w)
      | (True, w) \<Rightarrow> (case wait_entry X w cage fd of (e, w) \<Rightarrow> (map_option underfd e, w)))"

definition translate_dirfd ::
  "('ft, 'rb) ipc_env \<Rightarrow> ('ft, 'rb) ipc_world \<Rightarrow> nat \<Rightarrow> nat \<Rightarrow> nat option \<times> ('ft, 'rb) ipc_world" where
  "translate_dirfd X w cage fd =
     (if is_fdcwd fd then (Some fd, w)
      else case wait_cage X w cage of
          (False, w) \<Rightarrow> (Some fd, w)
        | (True, w) \<Rightarrow>
            (case wait_entry X w cage fd of
               (None, w) \<Rightarrow> (None, w)
             | (Some e, w) \<Rightarrow> (if fdkind e = IPC_FDKIND_KERNEL then Some (underfd e) else None, w)))"

section \<open>Forwarding\<close>

definition forward_syscall ::
  "('ft, 'rb) ipc_env \<Rightarrow> ('ft, 'rb) ipc_world \<Rightarrow> nat \<Rightarrow> nat \<Rightarrow> sysarg list \<Rightarrow> nat list \<Rightarrow> int \<times> ('ft, 'rb) ipc_world" where
  "forward_syscall X w nr calling_cage args arg_cages =
     grate_call (ie_g X) w
       \<lparr>callnumber = as_u32 nr, self_cageid = ge_cage (ie_g X), target_cageid = calling_cage, call_args = args, call_cages = arg_cages\<rparr>"

text \<open>The close of a descriptor of the runtime.\<close>

definition close_runtime :: "('ft, 'rb) ipc_env \<Rightarrow> ('ft, 'rb) ipc_world \<Rightarrow> nat \<Rightarrow> nat \<Rightarrow> ('ft, 'rb) ipc_world" where
  "close_runtime X w cage ufd =
     snd (forward_syscall X w SYS_CLOSE cage (map Num [ufd, 0, 0, 0, 0, 0]) [cage, 0, 0, 0, 0, 0])"

definition forward_with_fd1 :: "nat \<Rightarrow> ('ft, 'rb) ipc_handler" where
  "forward_with_fd1 nr X w a g =
     (case translate_to_underfd X w (g ! 0) (a ! 0) of
        (None, w) \<Rightarrow> Some (-9, w)
      | (Some u, w) \<Rightarrow> Some (forward_syscall X w nr (g ! 0) (map Num (a[0 := u])) g))"

definition forward_with_dirfd_at :: "nat \<Rightarrow> nat \<Rightarrow> ('ft, 'rb) ipc_handler" where
  "forward_with_dirfd_at nr idx X w a g =
     (case translate_dirfd X w (g ! 0) (a ! idx) of
        (None, w) \<Rightarrow> Some (-9, w)
      | (Some u, w) \<Rightarrow> Some (forward_syscall X w nr (g ! 0) (map Num (a[idx := u])) g))"

definition forward_with_two_dirfds :: "nat \<Rightarrow> nat \<Rightarrow> nat \<Rightarrow> ('ft, 'rb) ipc_handler" where
  "forward_with_two_dirfds nr i j X w a g =
     (case translate_dirfd X w (g ! 0) (a ! i) of
        (None, w) \<Rightarrow> Some (-9, w)
      | (Some u, w) \<Rightarrow>
          (case translate_dirfd X w (g ! 0) (a ! j) of
             (None, w) \<Rightarrow> Some (-9, w)
           | (Some v, w) \<Rightarrow> Some (forward_syscall X w nr (g ! 0) (map Num (a[i := u, j := v])) g)))"

definition register_kernel_fd ::
  "('ft, 'rb) ipc_env \<Rightarrow> ('ft, 'rb) ipc_world \<Rightarrow> nat \<Rightarrow> int \<Rightarrow> bool \<Rightarrow> nat \<Rightarrow> int \<times> ('ft, 'rb) ipc_world" where
  "register_kernel_fd X w cage runtime_vfd cloexec info =
     (let w = ensure_cage_fdtable X w cage in
      case get_unused_virtual_fd (ie_fd X) (fdt w) cage IPC_FDKIND_KERNEL (as_u64 runtime_vfd) cloexec info of
        Some (fd, ft) \<Rightarrow> (as_i32 (int fd), w\<lparr>fdt := ft\<rparr>)
      | None \<Rightarrow> (-24, close_runtime X w cage (as_u64 runtime_vfd)))"

end
