(* ===== verification/Ipc_Handlers.thy ===== *)
theory Ipc_Handlers
  imports Ipc_World
begin

unbundle bit_operations_syntax

text \<open>
  The handlers of the ipc grate for descriptors, pipes and processes
  (\<open>rust-grates/ipc-grate/src/handlers.rs\<close>).  A handler gets the six arguments and their cages.
  Descriptors of pipes and sockets are served here; every other descriptor is one of the runtime,
  translated and forwarded.
\<close>

section \<open>Transfers\<close>

definition is_nonblocking :: "i32 \<Rightarrow> bool" where
  "is_nonblocking flags \<longleftrightarrow> flags AND IPC_O_NONBLOCK \<noteq> 0"

text \<open>The pipe a descriptor reads from or writes to: an error, or the pipe if there is one.\<close>

fun recv_end :: "'rb ipc_state \<Rightarrow> nat \<times> nat \<times> i32 \<Rightarrow> int + nat option" where
  "recv_end s (ufd, kind, flags) =
     (if kind = IPC_PIPE then (if is_read_end flags then Inr (get_pipe s ufd) else Inl (-9))
      else if kind = IPC_SOCKET then Inr (Option.bind (registry_get (socks s) ufd) recvpipe)
      else Inl (-9))"

fun send_end :: "'rb ipc_state \<Rightarrow> nat \<times> nat \<times> i32 \<Rightarrow> int + nat option" where
  "send_end s (ufd, kind, flags) =
     (if kind = IPC_PIPE then (if is_write_end flags then Inr (get_pipe s ufd) else Inl (-9))
      else if kind = IPC_SOCKET then Inr (Option.bind (registry_get (socks s) ufd) sendpipe)
      else Inl (-9))"

definition put_pipe :: "nat \<Rightarrow> 'rb pipe \<Rightarrow> ('ft, 'rb) ipc_world \<Rightarrow> ('ft, 'rb) ipc_world" where
  "put_pipe i p w = w\<lparr>ipcs := pipe_mod (\<lambda>_. p) i (ipcs w)\<rparr>"

text \<open>The bytes in the ring after a copy from a cage.\<close>

definition ring_copy :: "('ft, 'rb) ipc_env \<Rightarrow> ('ft, 'rb) ipc_world \<Rightarrow> nat \<Rightarrow> nat \<Rightarrow> nat \<Rightarrow> byte list" where
  "ring_copy X w cage ptr n =
     (case ge_copymem (ie_g X) (hist w) cage ptr n of Some bs \<Rightarrow> bs | None \<Rightarrow> ie_stale X (hist w) n)"

definition send_cage ::
  "('ft, 'rb) ipc_env \<Rightarrow> ('ft, 'rb) ipc_world \<Rightarrow> nat \<Rightarrow> nat \<Rightarrow> nat \<Rightarrow> nat \<Rightarrow> bool \<Rightarrow> (int \<times> ('ft, 'rb) ipc_world) option" where
  "send_cage X w i cage ptr count nonblocking =
     map_option (\<lambda>(r, _, p). (r, put_pipe i p w))
       (write_from_cage (ie_ring X) (ring_copy X w) (store (ipcs w) ! i) cage ptr count nonblocking (ie_naps X (hist w)))"

definition recv_cage ::
  "('ft, 'rb) ipc_env \<Rightarrow> ('ft, 'rb) ipc_world \<Rightarrow> nat \<Rightarrow> nat \<Rightarrow> nat \<Rightarrow> nat \<Rightarrow> bool \<Rightarrow> (int \<times> ('ft, 'rb) ipc_world) option" where
  "recv_cage X w i cage ptr count nonblocking =
     map_option (\<lambda>(r, h, p). (r, put_pipe i p (w\<lparr>hist := h\<rparr>)))
       (read_to_cage (ie_ring X) (\<lambda>h c q bs. if ge_copyout (ie_g X) h c q bs then h @ [CopyOut c q bs] else h) (hist w)
          (store (ipcs w) ! i) cage ptr count nonblocking (ie_naps X (hist w)))"

definition send_buf ::
  "('ft, 'rb) ipc_env \<Rightarrow> ('ft, 'rb) ipc_world \<Rightarrow> nat \<Rightarrow> byte list \<Rightarrow> bool \<Rightarrow> (int \<times> ('ft, 'rb) ipc_world) option" where
  "send_buf X w i bs nonblocking =
     map_option (\<lambda>(r, _, p). (r, put_pipe i p w))
       (pipe_write (ie_ring X) (store (ipcs w) ! i) bs (length bs) nonblocking (ie_naps X (hist w)))"

text \<open>A read into a fresh buffer: the status and the bytes.\<close>

definition recv_buf ::
  "('ft, 'rb) ipc_env \<Rightarrow> ('ft, 'rb) ipc_world \<Rightarrow> nat \<Rightarrow> nat \<Rightarrow> bool \<Rightarrow> (int \<times> byte list \<times> ('ft, 'rb) ipc_world) option" where
  "recv_buf X w i capacity nonblocking =
     (if capacity \<ge> 2 ^ 31 then None
      else map_option (\<lambda>(r, bs, p). (r, bs, put_pipe i p w))
        (pipe_read (ie_ring X) (store (ipcs w) ! i) (replicate capacity 0) capacity nonblocking (ie_naps X (hist w))))"

definition ipc_read_handler :: "('ft, 'rb) ipc_handler" where
  "ipc_read_handler X w a g =
     (case ipc_lookup X w (g ! 0) (a ! 0) of
        (None, w) \<Rightarrow> forward_with_fd1 SYS_READ X w a g
      | (Some info, w) \<Rightarrow>
          (case recv_end (ipcs w) info of
             Inl e \<Rightarrow> Some (e, w)
           | Inr None \<Rightarrow> Some (-9, w)
           | Inr (Some i) \<Rightarrow>
               let count = as_usize (int (a ! 2)) in
               if count = 0 \<or> a ! 1 = 0 then Some (0, w)
               else recv_cage X w i (g ! 1) (a ! 1) count (is_nonblocking (snd (snd info)))))"

definition ipc_write_handler :: "('ft, 'rb) ipc_handler" where
  "ipc_write_handler X w a g =
     (case ipc_lookup X w (g ! 0) (a ! 0) of
        (None, w) \<Rightarrow> forward_with_fd1 SYS_WRITE X w a g
      | (Some info, w) \<Rightarrow>
          (case send_end (ipcs w) info of
             Inl e \<Rightarrow> Some (e, w)
           | Inr None \<Rightarrow> Some (-9, w)
           | Inr (Some i) \<Rightarrow>
               let count = as_usize (int (a ! 2)) in
               if count = 0 \<or> a ! 1 = 0 then Some (0, w)
               else send_cage X w i (g ! 1) (a ! 1) count (is_nonblocking (snd (snd info)))))"

section \<open>Scattered buffers\<close>

definition MAX_IOV :: nat where "MAX_IOV = 1024"

text \<open>The \<open>i\<close>-th element of an array of \<open>HostIovec\<close>: base and length.\<close>

definition iov_at :: "('ft, 'rb) ipc_env \<Rightarrow> ('ft, 'rb) ipc_world \<Rightarrow> nat \<Rightarrow> nat \<Rightarrow> nat \<Rightarrow> nat \<times> nat" where
  "iov_at X w cage ptr i =
     (let bs = copy_in X w cage ((ptr + i * 16) mod 2 ^ 64) 16
      in (le_nat (take 8 bs), as_usize (int (le_nat (take 8 (drop 8 bs))))))"

text \<open>A buffer of 2 GiB or more cannot be allocated: the grate aborts.\<close>

fun gather_loop :: "('ft, 'rb) ipc_env \<Rightarrow> ('ft, 'rb) ipc_world \<Rightarrow> nat \<Rightarrow> nat \<Rightarrow> nat list \<Rightarrow> byte list option" where
  "gather_loop X w cage ptr [] = Some []"
| "gather_loop X w cage ptr (i # is) =
     (let (base, len) = iov_at X w cage ptr i in
      if len = 0 then gather_loop X w cage ptr is
      else if len \<ge> 2 ^ 31 then None
      else map_option ((@) (copy_in X w cage base len)) (gather_loop X w cage ptr is))"

definition gather_iov_into_buf ::
  "('ft, 'rb) ipc_env \<Rightarrow> ('ft, 'rb) ipc_world \<Rightarrow> nat \<Rightarrow> nat \<Rightarrow> nat \<Rightarrow> (int + byte list) option" where
  "gather_iov_into_buf X w iov_ptr iovcnt iov_cage =
     (if iovcnt > MAX_IOV then Some (Inl (-22)) else map_option Inr (gather_loop X w iov_cage iov_ptr [0..<iovcnt]))"

fun scatter_loop ::
  "('ft, 'rb) ipc_env \<Rightarrow> nat \<Rightarrow> nat \<Rightarrow> nat list \<Rightarrow> byte list \<Rightarrow> ('ft, 'rb) ipc_world \<Rightarrow> ('ft, 'rb) ipc_world" where
  "scatter_loop X cage ptr [] bs w = w"
| "scatter_loop X cage ptr (i # is) bs w =
     (if bs = [] then w
      else let (base, len) = iov_at X w cage ptr i; chunk = min len (length bs) in
           if chunk = 0 then scatter_loop X cage ptr is bs w
           else scatter_loop X cage ptr is (drop chunk bs) (copy_out X w cage base (take chunk bs)))"

definition scatter_buf_into_iov ::
  "('ft, 'rb) ipc_env \<Rightarrow> ('ft, 'rb) ipc_world \<Rightarrow> byte list \<Rightarrow> nat \<Rightarrow> nat \<Rightarrow> nat \<Rightarrow> int option \<times> ('ft, 'rb) ipc_world" where
  "scatter_buf_into_iov X w bs iov_ptr iovcnt iov_cage =
     (if iovcnt > MAX_IOV then (Some (-22), w) else (None, scatter_loop X iov_cage iov_ptr [0..<iovcnt] bs w))"

text \<open>The capacity of an array, saturating at the largest \<open>usize\<close>.\<close>

definition iov_capacity :: "('ft, 'rb) ipc_env \<Rightarrow> ('ft, 'rb) ipc_world \<Rightarrow> nat \<Rightarrow> nat \<Rightarrow> nat \<Rightarrow> nat" where
  "iov_capacity X w cage ptr cnt = foldl (\<lambda>n i. min (n + snd (iov_at X w cage ptr i)) (2 ^ 32 - 1)) 0 [0..<cnt]"

definition ipc_writev_handler :: "('ft, 'rb) ipc_handler" where
  "ipc_writev_handler X w a g =
     (case ipc_lookup X w (g ! 0) (a ! 0) of
        (None, w) \<Rightarrow> forward_with_fd1 SYS_WRITEV X w a g
      | (Some info, w) \<Rightarrow>
          (case send_end (ipcs w) info of
             Inl e \<Rightarrow> Some (e, w)
           | Inr None \<Rightarrow> Some (-107, w)
           | Inr (Some i) \<Rightarrow>
               (case gather_iov_into_buf X w (a ! 1) (as_usize (int (a ! 2))) (g ! 1) of
                  None \<Rightarrow> None
                | Some (Inl e) \<Rightarrow> Some (e, w)
                | Some (Inr bs) \<Rightarrow>
                    if bs = [] then Some (0, w) else send_buf X w i bs (is_nonblocking (snd (snd info))))))"

definition ipc_readv_handler :: "('ft, 'rb) ipc_handler" where
  "ipc_readv_handler X w a g =
     (case ipc_lookup X w (g ! 0) (a ! 0) of
        (None, w) \<Rightarrow> forward_with_fd1 SYS_READV X w a g
      | (Some info, w) \<Rightarrow>
          (case recv_end (ipcs w) info of
             Inl e \<Rightarrow> Some (e, w)
           | Inr None \<Rightarrow> Some (-107, w)
           | Inr (Some i) \<Rightarrow>
               let cnt = as_usize (int (a ! 2)); cap = iov_capacity X w (g ! 1) (a ! 1) cnt in
               if cnt > MAX_IOV then Some (-22, w)
               else if cap = 0 then Some (0, w)
               else do {
                 (r, bs, w) \<leftarrow> recv_buf X w i cap (is_nonblocking (snd (snd info)));
                 if r \<le> 0 then Some (r, w)
                 else case scatter_buf_into_iov X w (take (nat r) bs) (a ! 1) cnt (g ! 1) of
                        (None, w) \<Rightarrow> Some (r, w)
                      | (Some e, w) \<Rightarrow> Some (e, w) }))"

section \<open>Pipes\<close>

text \<open>
  When the second descriptor cannot be allocated, \<open>create_pipe\<close> closes the first one while it holds
  the lock of the state; the close handler takes that lock again, so the call does not return.
\<close>

definition create_pipe_locks :: "('ft, 'rb) ipc_env \<Rightarrow> ('ft, 'rb) ipc_world \<Rightarrow> nat \<Rightarrow> i32 \<Rightarrow> bool" where
  "create_pipe_locks X w cage flags \<longleftrightarrow>
     (let pid = next_pipe_id (ipcs w); ce = (flags AND IPC_O_CLOEXEC \<noteq> 0); fl = flags AND IPC_O_NONBLOCK in
      case get_unused_virtual_fd (ie_fd X) (fdt w) cage IPC_PIPE pid ce (as_u64 (sint (IPC_O_RDONLY OR fl))) of
        None \<Rightarrow> False
      | Some (_, ft) \<Rightarrow> get_unused_virtual_fd (ie_fd X) ft cage IPC_PIPE pid ce (as_u64 (sint (IPC_O_WRONLY OR fl))) = None)"

definition pipe_common :: "i32 \<Rightarrow> ('ft, 'rb) ipc_handler" where
  "pipe_common flags X w a g =
     (let cage = g ! 0; w = ensure_cage_fdtable X w cage in
      if create_pipe_locks X w cage flags then None
      else case create_pipe (ie_fd X) (ie_ring X) (ipcs w) (fdt w) cage flags of
          (Inl e, s, ft) \<Rightarrow> Some (e, w\<lparr>ipcs := s, fdt := ft\<rparr>)
        | (Inr (rfd, wfd), s, ft) \<Rightarrow>
            Some (0, copy_out X (w\<lparr>ipcs := s, fdt := ft\<rparr>) cage (a ! 0) (fd_pair_bytes rfd wfd)))"

definition ipc_pipe_handler :: "('ft, 'rb) ipc_handler" where
  "ipc_pipe_handler X w a g = pipe_common 0 X w a g"

definition ipc_pipe2_handler :: "('ft, 'rb) ipc_handler" where
  "ipc_pipe2_handler X w a g = pipe_common (arg_i32 (a ! 1)) X w a g"

section \<open>Descriptors\<close>

definition ipc_close_handler :: "('ft, 'rb) ipc_handler" where
  "ipc_close_handler X w a g =
     (let cage = g ! 0; fd = a ! 0 in
      case ipc_lookup X w cage fd of
        (Some _, w) \<Rightarrow> Some (0, ipc_close_fd X w cage fd)
      | (None, w) \<Rightarrow>
          (case translate_to_underfd X w cage fd of
             (None, w) \<Rightarrow> Some (forward_syscall X w SYS_CLOSE cage (map Num a) g)
           | (Some u, w) \<Rightarrow>
               let (ret, w) = forward_syscall X w SYS_CLOSE cage (map Num (a[0 := u])) g
               in Some (ret, if check_cage_exists (ie_fd X) (fdt w) cage then ipc_close_fd X w cage fd else w)))"

text \<open>A call that opens a descriptor of the runtime.\<close>

definition open_forward ::
  "nat \<Rightarrow> bool \<Rightarrow> nat \<Rightarrow> ('ft, 'rb) ipc_env \<Rightarrow> ('ft, 'rb) ipc_world \<Rightarrow> sysarg list \<Rightarrow> nat list \<Rightarrow> int \<times> ('ft, 'rb) ipc_world" where
  "open_forward nr cloexec info X w args g =
     (let (r, w) = forward_syscall X w nr (g ! 0) args g in
      if r < 0 then (r, w) else register_kernel_fd X w (g ! 0) r cloexec info)"

definition ipc_open_handler :: "('ft, 'rb) ipc_handler" where
  "ipc_open_handler X w a g =
     (let flags = arg_i32 (a ! 1) in
      Some (open_forward SYS_OPEN (flags AND IPC_O_CLOEXEC \<noteq> 0) (as_u64 (sint flags)) X w (map Num a) g))"

definition ipc_openat_handler :: "('ft, 'rb) ipc_handler" where
  "ipc_openat_handler X w a g =
     (let flags = arg_i32 (a ! 2) in
      case translate_dirfd X w (g ! 0) (a ! 0) of
        (None, w) \<Rightarrow> Some (-9, w)
      | (Some u, w) \<Rightarrow>
          Some (open_forward SYS_OPENAT (flags AND IPC_O_CLOEXEC \<noteq> 0) (as_u64 (sint flags)) X w (map Num (a[0 := u])) g))"

definition ipc_dup_handler :: "('ft, 'rb) ipc_handler" where
  "ipc_dup_handler X w a g =
     (let cage = g ! 0; fd = a ! 0 in
      case ipc_lookup X w cage fd of
        (None, w) \<Rightarrow>
          (case translate_to_underfd X w cage fd of
             (None, w) \<Rightarrow> Some (-9, w)
           | (Some u, w) \<Rightarrow> Some (open_forward SYS_DUP False 0 X w (map Num (a[0 := u])) g))
      | (Some (ufd, kind, flags), w) \<Rightarrow>
          (case get_unused_virtual_fd (ie_fd X) (fdt w) cage kind ufd False (as_u64 (sint flags)) of
             None \<Rightarrow> Some (-24, w)
           | Some (new, ft) \<Rightarrow> Some (as_i32 (int new), w\<lparr>fdt := ft, ipcs := add_refs kind ufd flags (ipcs w)\<rparr>)))"

definition close_old_runtime :: "('ft, 'rb) ipc_env \<Rightarrow> ('ft, 'rb) ipc_world \<Rightarrow> nat \<Rightarrow> nat \<Rightarrow> ('ft, 'rb) ipc_world" where
  "close_old_runtime X w cage newfd =
     (if \<not> check_cage_exists (ie_fd X) (fdt w) cage then w
      else case translate_virtual_fd (ie_fd X) (fdt w) cage newfd of
          Some old \<Rightarrow> if fdkind old = IPC_FDKIND_KERNEL then close_runtime X w cage (underfd old) else w
        | None \<Rightarrow> w)"

definition ipc_dup2_handler :: "('ft, 'rb) ipc_handler" where
  "ipc_dup2_handler X w a g =
     (let cage = g ! 0; oldfd = a ! 0; newfd = a ! 1 in
      if oldfd = newfd then Some (as_i32 (int newfd), w)
      else case ipc_lookup X w cage oldfd of
          (None, w) \<Rightarrow>
            (case translate_to_underfd X w cage oldfd of
               (None, w) \<Rightarrow> Some (-9, w)
             | (Some u, w) \<Rightarrow>
                 let (r, w) = forward_syscall X w SYS_DUP cage (map Num [u, 0, 0, 0, 0, 0]) [cage, 0, 0, 0, 0, 0] in
                 if r < 0 then Some (r, w)
                 else let w = close_old_runtime X (ensure_cage_fdtable X w cage) cage newfd
                      in Some (as_i32 (int newfd), ipc_set_fd X w cage newfd IPC_FDKIND_KERNEL (as_u64 r) False 0))
        | (Some (ufd, kind, flags), w) \<Rightarrow>
            let w = ipc_set_fd X (close_old_runtime X w cage newfd) cage newfd kind ufd False (as_u64 (sint flags))
            in Some (as_i32 (int newfd), w\<lparr>ipcs := add_refs kind ufd flags (ipcs w)\<rparr>))"

definition ipc_dup3_handler :: "('ft, 'rb) ipc_handler" where
  "ipc_dup3_handler X w a g = ipc_dup2_handler X w a g"

definition dupfd :: "bool \<Rightarrow> ('ft, 'rb) ipc_handler" where
  "dupfd cloexec X w a g =
     (let cage = g ! 0; fd = a ! 0; min_fd = a ! 2 in
      case ipc_lookup X w cage fd of
        (Some (ufd, kind, flags), w) \<Rightarrow>
          (case get_unused_virtual_fd_from_startfd (ie_fd X) (fdt w) cage kind ufd cloexec (as_u64 (sint flags)) min_fd of
             None \<Rightarrow> Some (-24, w)
           | Some (new, ft) \<Rightarrow> Some (as_i32 (int new), w\<lparr>fdt := ft, ipcs := add_refs kind ufd flags (ipcs w)\<rparr>))
      | (None, w) \<Rightarrow>
          (case translate_to_underfd X w cage fd of
             (None, w) \<Rightarrow> Some (-9, w)
           | (Some u, w) \<Rightarrow>
               let (r, w) = forward_syscall X w SYS_FCNTL cage (map Num (a[0 := u])) g in
               if r < 0 then Some (r, w)
               else let w = ensure_cage_fdtable X w cage in
                    case get_unused_virtual_fd_from_startfd (ie_fd X) (fdt w) cage IPC_FDKIND_KERNEL (as_u64 r) cloexec 0 min_fd of
                      Some (new, ft) \<Rightarrow> Some (as_i32 (int new), w\<lparr>fdt := ft\<rparr>)
                    | None \<Rightarrow> Some (-24, close_runtime X w cage (as_u64 r))))"

definition ipc_fcntl_handler :: "('ft, 'rb) ipc_handler" where
  "ipc_fcntl_handler X w a g =
     (let cage = g ! 0; fd = a ! 0; opn = as_i32 (int (a ! 1)) in
      if opn = 0 \<or> opn = 1030 then dupfd (opn = 1030) X w a g
      else case ipc_lookup X w cage fd of
          (None, w) \<Rightarrow> forward_with_fd1 SYS_FCNTL X w a g
        | (Some (ufd, kind, flags), w) \<Rightarrow>
            if opn = 3 then Some (sint flags, w)
            else if opn = 4 then
              let new_flags = (flags AND IPC_O_ACCMODE) OR (arg_i32 (a ! 2) AND NOT IPC_O_ACCMODE)
              in Some (0, case set_perfdinfo (ie_fd X) (fdt w) cage fd (as_u64 (sint new_flags)) of Some ft \<Rightarrow> w\<lparr>fdt := ft\<rparr> | None \<Rightarrow> w)
            else if opn = 1 then
              (case translate_virtual_fd (ie_fd X) (fdt w) cage fd of
                 Some e \<Rightarrow> Some (if should_cloexec e then 1 else 0, w)
               | None \<Rightarrow> Some (-9, w))
            else if opn = 2 then
              Some (0, case set_cloexec (ie_fd X) (fdt w) cage fd (odd (a ! 2)) of Some ft \<Rightarrow> w\<lparr>fdt := ft\<rparr> | None \<Rightarrow> w)
            else Some (-22, w))"

definition ipc_ioctl_handler :: "('ft, 'rb) ipc_handler" where
  "ipc_ioctl_handler X w a g =
     (let cage = g ! 0; fd = a ! 0 in
      case ipc_lookup X w cage fd of
        (None, w) \<Rightarrow> forward_with_fd1 SYS_IOCTL X w a g
      | (Some (ufd, kind, flags), w) \<Rightarrow>
          if a ! 1 = 0x5421 then
            (if a ! 2 = 0 then Some (-22, w)
             else let new_flags = (if le_nat (read_user_bytes X w (a ! 2) 4) \<noteq> 0 then as_u64 (sint flags) OR 0x800
                                   else as_u64 (sint flags) AND (2 ^ 64 - 1 - 0x800))
                  in case translate_virtual_fd (ie_fd X) (fdt w) cage fd of
                       Some e \<Rightarrow> Some (0, ipc_set_fd X w cage fd (fdkind e) (underfd e) (should_cloexec e) new_flags)
                     | None \<Rightarrow> Some (0, w))
          else if a ! 1 = 0x541B then
            (if a ! 2 = 0 then Some (-22, w)
             else let i = (if kind = IPC_PIPE then get_pipe (ipcs w) ufd
                           else if kind = IPC_SOCKET then Option.bind (registry_get (socks (ipcs w)) ufd) recvpipe else None);
                      avail = (case i of Some i \<Rightarrow> bytes_available (ie_ring X) (store (ipcs w) ! i) | None \<Rightarrow> 0)
                  in Some (0, write_user_bytes w (a ! 2) (le_bytes 4 avail)))
          else Some (-25, w))"

definition ipc_fstat_handler :: "('ft, 'rb) ipc_handler" where
  "ipc_fstat_handler X w a g =
     (case ipc_lookup X w (g ! 0) (a ! 0) of
        (None, w) \<Rightarrow> forward_with_fd1 SYS_FSTAT X w a g
      | (Some (ufd, kind, flags), w) \<Rightarrow>
          if a ! 1 = 0 then Some (-22, w)
          else if kind = IPC_PIPE \<or> kind = IPC_SOCKET then
            let mode = (if kind = IPC_PIPE then 0x1000 + 0x180 else 0xC000 + 0x1B6)
            in Some (0, write_user_bytes w (a ! 1) (replicate 16 0 @ le_bytes 4 mode @ replicate 124 0))
          else Some (-22, w))"

text \<open>Calls that make no sense on pipes and sockets: lseek, pread, pwrite and their relatives.\<close>

definition ipc_espipe_handler :: "nat \<Rightarrow> ('ft, 'rb) ipc_handler" where
  "ipc_espipe_handler nr X w a g =
     (case ipc_lookup X w (g ! 0) (a ! 0) of
        (Some _, w) \<Rightarrow> Some (-29, w)
      | (None, w) \<Rightarrow> forward_with_fd1 nr X w a g)"

definition ipc_mmap_handler :: "('ft, 'rb) ipc_handler" where
  "ipc_mmap_handler X w a g =
     (if arg_i32 (a ! 3) AND 0x20 \<noteq> 0 then Some (forward_syscall X w SYS_MMAP (g ! 0) (map Num a) g)
      else case translate_to_underfd X w (g ! 0) (a ! 4) of
          (None, w) \<Rightarrow> Some (-9, w)
        | (Some u, w) \<Rightarrow> Some (forward_syscall X w SYS_MMAP (g ! 0) (map Num (a[4 := u])) g))"

section \<open>Processes\<close>

text \<open>The pipes whose counts a fork raises: \<open>True\<close> for a reader.\<close>

definition entry_bumps :: "'rb ipc_state \<Rightarrow> fd_entry \<Rightarrow> (bool \<times> nat) list" where
  "entry_bumps s e =
     (if fdkind e = IPC_PIPE then
        (case get_pipe s (underfd e) of Some i \<Rightarrow> [(is_read_end (word_of_nat (perfdinfo e)), i)] | None \<Rightarrow> [])
      else if fdkind e = IPC_SOCKET then
        (case registry_get (socks s) (underfd e) of
           Some k \<Rightarrow> map (Pair False) (case sendpipe k of Some i \<Rightarrow> [i] | None \<Rightarrow> []) @
                     map (Pair True) (case recvpipe k of Some i \<Rightarrow> [i] | None \<Rightarrow> [])
         | None \<Rightarrow> [])
      else [])"

definition bump_refs :: "('rb pipe \<Rightarrow> 'rb pipe) \<Rightarrow> ('rb pipe \<Rightarrow> 'rb pipe) \<Rightarrow> (bool \<times> nat) list \<Rightarrow> 'rb ipc_state \<Rightarrow> 'rb ipc_state" where
  "bump_refs fr fw bumps s = fold (\<lambda>(is_read, i). pipe_mod (if is_read then fr else fw) i) bumps s"

fun merge_entries ::
  "('ft, 'rb) ipc_env \<Rightarrow> nat \<Rightarrow> (nat \<times> fd_entry) list \<Rightarrow> ('ft, 'rb) ipc_world \<Rightarrow> ('ft, 'rb) ipc_world" where
  "merge_entries X cage [] w = w"
| "merge_entries X cage ((fd, e) # es) w =
     merge_entries X cage es
       (if translate_virtual_fd (ie_fd X) (fdt w) cage fd = None
        then ipc_set_fd X w cage fd (fdkind e) (underfd e) (should_cloexec e) (perfdinfo e) else w)"

definition adopt_child :: "('ft, 'rb) ipc_env \<Rightarrow> ('ft, 'rb) ipc_world \<Rightarrow> nat \<Rightarrow> nat \<Rightarrow> bool \<Rightarrow> (nat \<times> fd_entry) list \<Rightarrow> ('ft, 'rb) ipc_world" where
  "adopt_child X w cage child is_vfork fds =
     (let w = w\<lparr>pendings := remove_pending_fdtable (pendings w) cage\<rparr>;
          w = (if check_cage_exists (ie_fd X) (fdt w) child
               then (if is_vfork then w else merge_entries X child fds w)
               else (case copy_fdtable_for_cage (ie_fd X) (fdt w) cage child of Some ft \<Rightarrow> w\<lparr>fdt := ft\<rparr> | None \<Rightarrow> w))
      in log_event (CopyTable (ge_cage (ie_g X)) child) w)"

definition ipc_fork_handler :: "('ft, 'rb) ipc_handler" where
  "ipc_fork_handler X w a g =
     (let cage = g ! 0;
          is_vfork = (read_clone_flags X w (a ! 0) cage AND 0x4000 \<noteq> 0);
          is_thread = is_thread_clone (ie_g X) w (a ! 0) cage;
          fds = (if is_thread then [] else ie_copy X (fdt w) cage);
          bumps = concat (map (\<lambda>x. entry_bumps (ipcs w) (snd x)) fds);
          w = (if is_thread then w
               else w\<lparr>pendings := push_pending_fdtable (pendings w) cage fds, ipcs := bump_refs incr_read_ref incr_write_ref bumps (ipcs w)\<rparr>);
          (ret, w) = forward_syscall X w SYS_CLONE cage (map Num a) g;
          w = ie_child X (hist w) w
      in if ret \<le> 0 then
           Some (ret, if ret < 0 \<and> \<not> is_thread
                      then w\<lparr>ipcs := bump_refs decr_read_ref decr_write_ref bumps (ipcs w), pendings := remove_pending_fdtable (pendings w) cage\<rparr>
                      else w)
         else Some (as_i32 (int (as_u64 ret)), if is_thread then w else adopt_child X w cage (as_u64 ret) is_vfork fds))"

definition ipc_exec_handler :: "('ft, 'rb) ipc_handler" where
  "ipc_exec_handler X w a g =
     (let cage = g ! 0 in
      case wait_cage X w cage of
        (False, w) \<Rightarrow> Some (forward_syscall X w SYS_EXEC cage (map Num a) g)
      | (True, w) \<Rightarrow>
          let w = fold (\<lambda>fd w. if translate_virtual_fd (ie_fd X) (fdt w) cage fd = None
                               then ipc_set_fd X w cage fd IPC_FDKIND_KERNEL fd False 0 else w) [0, 1, 2] (ipc_exec_close X w cage)
          in Some (forward_syscall X w SYS_EXEC cage (map Num a) g))"

definition exit_common :: "nat \<Rightarrow> ('ft, 'rb) ipc_handler" where
  "exit_common nr X w a g =
     (let cage = g ! 0; w = ipc_remove_cage X w cage;
          w = w\<lparr>ipcs := (ipcs w)\<lparr>epoll_targets := (\<lambda>k. if fst k = cage then None else epoll_targets (ipcs w) k)\<rparr>\<rparr>
      in Some (forward_syscall X w nr cage (map Num a) g))"

definition ipc_exit_handler :: "('ft, 'rb) ipc_handler" where
  "ipc_exit_handler X w a g = exit_common SYS_EXIT X w a g"

definition ipc_exit_group_handler :: "('ft, 'rb) ipc_handler" where
  "ipc_exit_group_handler X w a g = exit_common SYS_EXIT_GROUP X w a g"

end
