(* ===== verification/Ipc_Poll.thy ===== *)
theory Ipc_Poll
  imports Ipc_Handlers
begin

unbundle bit_operations_syntax

text \<open>
  Waiting for several descriptors in the ipc grate (\<open>rust-grates/ipc-grate/src/handlers.rs\<close>): poll,
  ppoll, select and epoll.  Pipes and sockets are judged by their state; all other descriptors
  are passed to the runtime under the names it knows, and the two answers are merged.
\<close>

section \<open>Readiness of a pipe or socket\<close>

definition POLLIN :: u16 where "POLLIN = 0x0001"
definition POLLOUT :: u16 where "POLLOUT = 0x0004"
definition POLLERR :: u16 where "POLLERR = 0x0008"
definition POLLHUP :: u16 where "POLLHUP = 0x0010"
definition POLLNVAL :: u16 where "POLLNVAL = 0x0020"

lemmas poll_consts = POLLIN_def POLLOUT_def POLLERR_def POLLHUP_def POLLNVAL_def

text \<open>Whether a listening socket has a connection to accept; \<open>None\<close> when it is no listening socket.\<close>

definition listen_pending :: "'rb ipc_state \<Rightarrow> nat \<Rightarrow> bool option" where
  "listen_pending s ufd =
     (case registry_get (socks s) ufd of
        None \<Rightarrow> None
      | Some k \<Rightarrow>
          if s_state k \<noteq> Listening then None
          else map_option (\<lambda>addr. case pending_connections (socks s) addr of Some q \<Rightarrow> q \<noteq> [] | None \<Rightarrow> False) (local_addr k))"

definition poll_pipe :: "'rb ipc_state \<Rightarrow> nat \<Rightarrow> nat \<Rightarrow> u16 \<Rightarrow> nat option" where
  "poll_pipe s ufd kind requested =
     (if kind = IPC_PIPE then get_pipe s ufd
      else if kind = IPC_SOCKET then
        (case registry_get (socks s) ufd of
           None \<Rightarrow> None
         | Some k \<Rightarrow> if requested AND POLLIN \<noteq> 0 then recvpipe k else if requested AND POLLOUT \<noteq> 0 then sendpipe k else None)
      else None)"

fun ipc_pipe_poll_state :: "'rb ringbuf_ops \<Rightarrow> 'rb ipc_state \<Rightarrow> nat \<times> nat \<times> i32 \<Rightarrow> u16 \<Rightarrow> u16" where
  "ipc_pipe_poll_state R s (ufd, kind, flags) requested =
     (case (if kind = IPC_SOCKET then listen_pending s ufd else None) of
        Some has_pending \<Rightarrow> if requested AND POLLIN \<noteq> 0 \<and> has_pending then POLLIN else 0
      | None \<Rightarrow>
          (case poll_pipe s ufd kind requested of
             None \<Rightarrow> POLLNVAL
           | Some i \<Rightarrow>
               let p = store s ! i; is_reader = (if kind = IPC_PIPE then is_read_end flags else requested AND POLLIN \<noteq> 0) in
               (if requested AND POLLIN \<noteq> 0 \<and> is_reader
                then (if has_data R p then POLLIN else if write_refs p = 0 then POLLHUP else 0) else 0) OR
               (if requested AND POLLOUT \<noteq> 0 \<and> \<not> is_reader
                then (if has_space R p then POLLOUT else if read_refs p = 0 then POLLERR else 0) else 0)))"

section \<open>poll and ppoll\<close>

text \<open>An entry: the descriptor the cage asked for, what the runtime sees, and the state of a pipe or socket.\<close>

record poll_entry =
  pe_orig :: int
  pe_pfd :: pollfd
  pe_ipc :: "u16 option"

definition classify_pollfd ::
  "('ft, 'rb) ipc_env \<Rightarrow> nat \<Rightarrow> pollfd \<Rightarrow> ('ft, 'rb) ipc_world \<Rightarrow> poll_entry \<times> ('ft, 'rb) ipc_world" where
  "classify_pollfd X cage p w =
     (if pf_fd p < 0 then (\<lparr>pe_orig = pf_fd p, pe_pfd = p\<lparr>pf_revents := 0\<rparr>, pe_ipc = None\<rparr>, w)
      else case ipc_lookup X w cage (as_u64 (pf_fd p)) of
          (Some info, w) \<Rightarrow>
            (\<lparr>pe_orig = pf_fd p, pe_pfd = p\<lparr>pf_fd := -1\<rparr>,
              pe_ipc = Some (ipc_pipe_poll_state (ie_ring X) (ipcs w) info (word_of_nat (pf_events p)))\<rparr>, w)
        | (None, w) \<Rightarrow>
            (case translate_to_underfd X w cage (as_u64 (pf_fd p)) of
               (u, w) \<Rightarrow>
                 (\<lparr>pe_orig = pf_fd p, pe_pfd = p\<lparr>pf_fd := (case u of Some u \<Rightarrow> as_i32 (int u) | None \<Rightarrow> -1)\<rparr>, pe_ipc = None\<rparr>, w)))"

fun classify_pollfds ::
  "('ft, 'rb) ipc_env \<Rightarrow> nat \<Rightarrow> pollfd list \<Rightarrow> ('ft, 'rb) ipc_world \<Rightarrow> poll_entry list \<times> ('ft, 'rb) ipc_world" where
  "classify_pollfds X cage [] w = ([], w)"
| "classify_pollfds X cage (p # ps) w =
     (let (e, w) = classify_pollfd X cage p w; (es, w) = classify_pollfds X cage ps w in (e # es, w))"

definition ipc_ready_count :: "poll_entry list \<Rightarrow> nat" where
  "ipc_ready_count es = length (filter (\<lambda>e. case pe_ipc e of Some r \<Rightarrow> r \<noteq> 0 | None \<Rightarrow> False) es)"

fun reclassify_ipc_pollfds ::
  "('ft, 'rb) ipc_env \<Rightarrow> nat \<Rightarrow> poll_entry list \<Rightarrow> ('ft, 'rb) ipc_world \<Rightarrow> poll_entry list \<times> ('ft, 'rb) ipc_world" where
  "reclassify_ipc_pollfds X cage [] w = ([], w)"
| "reclassify_ipc_pollfds X cage (e # es) w =
     (let (e, w) =
        (if pe_ipc e = None then (e, w)
         else case ipc_lookup X w cage (as_u64 (pe_orig e)) of
             (Some info, w) \<Rightarrow>
               (e\<lparr>pe_ipc := Some (ipc_pipe_poll_state (ie_ring X) (ipcs w) info (word_of_nat (pf_events (pe_pfd e))))\<rparr>, w)
           | (None, w) \<Rightarrow> (e\<lparr>pe_ipc := Some 0\<rparr>, w));
        (es, w) = reclassify_ipc_pollfds X cage es w
      in (e # es, w))"

text \<open>The loop over the sleeps; \<open>elapsed k\<close> is the time in nanoseconds at the check after \<open>k\<close> sleeps.\<close>

fun poll_wait_loop ::
  "('ft, 'rb) ipc_env \<Rightarrow> nat \<Rightarrow> int \<Rightarrow> (nat \<Rightarrow> nat) \<Rightarrow> nat \<Rightarrow> ('ft, 'rb) ipc_world wake list \<Rightarrow> poll_entry list \<Rightarrow> ('ft, 'rb) ipc_world \<Rightarrow>
   (int \<times> poll_entry list \<times> ('ft, 'rb) ipc_world) option" where
  "poll_wait_loop X cage timeout_ms elapsed k wakes es w =
     (let (es, w) = reclassify_ipc_pollfds X cage es w; ready = ipc_ready_count es in
      if ready > 0 then Some (int ready, es, w)
      else if timeout_ms \<ge> 0 \<and> int (elapsed k div 1000000) \<ge> timeout_ms then Some (0, es, w)
      else case wakes of
          [] \<Rightarrow> None
        | Signalled # _ \<Rightarrow> Some (-4, es, w)
        | Woken f # ws \<Rightarrow> poll_wait_loop X cage timeout_ms elapsed (Suc k) ws es (f w))"

declare poll_wait_loop.simps [simp del]

definition ipc_only_poll_wait ::
  "('ft, 'rb) ipc_env \<Rightarrow> nat \<Rightarrow> int \<Rightarrow> poll_entry list \<Rightarrow> ('ft, 'rb) ipc_world \<Rightarrow> (int \<times> poll_entry list \<times> ('ft, 'rb) ipc_world) option" where
  "ipc_only_poll_wait X cage timeout_ms es w = poll_wait_loop X cage timeout_ms (ie_elapsed X (hist w)) 0 (ie_waits X (hist w)) es w"

text \<open>The array the cage gets back: its own descriptors, the states of pipes and sockets, and the runtime's for the rest.\<close>

definition poll_answer :: "poll_entry \<Rightarrow> pollfd" where
  "poll_answer e =
     (case pe_ipc e of
        Some r \<Rightarrow> (pe_pfd e)\<lparr>pf_fd := pe_orig e, pf_revents := unat r\<rparr>
      | None \<Rightarrow> (pe_pfd e)\<lparr>pf_fd := pe_orig e\<rparr>)"

definition finish_ipc_poll ::
  "('ft, 'rb) ipc_env \<Rightarrow> nat \<Rightarrow> nat \<Rightarrow> int \<Rightarrow> poll_entry list \<Rightarrow> ('ft, 'rb) ipc_world \<Rightarrow> int \<times> ('ft, 'rb) ipc_world" where
  "finish_ipc_poll X cage ptr ret es w = (ret, copy_out X w cage ptr (pollfds_bytes (map poll_answer es)))"

text \<open>The runtime's answer is written into the array it was given.\<close>

definition poll_forward ::
  "('ft, 'rb) ipc_env \<Rightarrow> nat \<Rightarrow> nat \<Rightarrow> nat list \<Rightarrow> nat list \<Rightarrow> poll_entry list \<Rightarrow> ('ft, 'rb) ipc_world \<Rightarrow> int \<times> poll_entry list \<times> ('ft, 'rb) ipc_world" where
  "poll_forward X nr timeout a g es w =
     (let args = map Num a; args = args[0 := OwnBuf (pollfds_bytes (map pe_pfd es)), 2 := Num timeout];
          cages = g[0 := ge_cage (ie_g X) OR ARG_TRANSLATE_FLAG];
          out = ge_out (ie_g X) (hist w)
            \<lparr>callnumber = as_u32 nr, self_cageid = ge_cage (ie_g X), target_cageid = g ! 0, call_args = args, call_cages = cages\<rparr> 0;
          (ret, w) = forward_syscall X w nr (g ! 0) args cages
      in (ret, map2 (\<lambda>e p. e\<lparr>pe_pfd := p\<rparr>) es (pollfds_of (length es) out), w))"

definition poll_read :: "('ft, 'rb) ipc_env \<Rightarrow> ('ft, 'rb) ipc_world \<Rightarrow> nat list \<Rightarrow> nat list \<Rightarrow> nat \<Rightarrow> pollfd list" where
  "poll_read X w a g nfds = pollfds_of nfds (copy_in X w (g ! 0) (a ! 0) (nfds * 8))"

definition ipc_poll_handler :: "('ft, 'rb) ipc_handler" where
  "ipc_poll_handler X w a g =
     (let cage = g ! 0; nfds = as_usize (int (a ! 1)) in
      if nfds = 0 \<or> a ! 0 = 0 then Some (forward_syscall X w SYS_POLL cage (map Num a) g)
      else if nfds * 8 \<ge> 2 ^ 31 then None
      else
        let (es, w) = classify_pollfds X cage (poll_read X w a g nfds) w; ready = ipc_ready_count es in
        if \<exists>e \<in> set es. pf_fd (pe_pfd e) \<ge> 0 then
          let timeout = (if ready > 0 then 0 else as_i32 (int (a ! 2)));
              (ret, es', w) = poll_forward X SYS_POLL (as_u64 timeout) a g es w
          in if ret < 0 then Some (ret, w)
             else Some (finish_ipc_poll X cage (a ! 0) (as_i32 (int ready + ret)) es' w)
        else if ready = 0 then
          map_option (\<lambda>(ret, es, w). finish_ipc_poll X cage (a ! 0) ret es w) (ipc_only_poll_wait X cage (as_i32 (int (a ! 2))) es w)
        else Some (finish_ipc_poll X cage (a ! 0) (int ready) es w))"

text \<open>ppoll: a descriptor the runtime knows counts as one of the runtime whatever its number is, and a
  failure of the runtime is dropped when a pipe or socket is ready.\<close>

definition has_kernel_fd :: "('ft, 'rb) ipc_env \<Rightarrow> nat \<Rightarrow> pollfd list \<Rightarrow> ('ft, 'rb) ipc_world \<Rightarrow> bool" where
  "has_kernel_fd X cage ps w =
     snd (foldl (\<lambda>(w, b) p.
            if pf_fd p < 0 then (w, b)
            else case ipc_lookup X w cage (as_u64 (pf_fd p)) of
                (Some _, w) \<Rightarrow> (w, b)
              | (None, w) \<Rightarrow> (case translate_to_underfd X w cage (as_u64 (pf_fd p)) of (u, w) \<Rightarrow> (w, b \<or> u \<noteq> None)))
          (w, False) ps)"

definition ipc_ppoll_handler :: "('ft, 'rb) ipc_handler" where
  "ipc_ppoll_handler X w a g =
     (let cage = g ! 0; nfds = as_usize (int (a ! 1)) in
      if nfds = 0 \<or> a ! 0 = 0 then Some (forward_syscall X w SYS_PPOLL cage (map Num a) g)
      else if nfds * 8 \<ge> 2 ^ 31 then None
      else
        let ps = poll_read X w a g nfds; kernel = has_kernel_fd X cage ps w;
            (es, w) = classify_pollfds X cage ps w; ready = ipc_ready_count es in
        if kernel then
          let (ret, es', w) = poll_forward X SYS_PPOLL (a ! 2) a g es w
          in if ret < 0 \<and> ready = 0 then Some (ret, w)
             else Some (finish_ipc_poll X cage (a ! 0) (as_i32 (int ready + max ret 0)) es' w)
        else if ready = 0 then
          map_option (\<lambda>(ret, es, w). finish_ipc_poll X cage (a ! 0) ret es w) (ipc_only_poll_wait X cage (as_i32 (int (a ! 2))) es w)
        else Some (finish_ipc_poll X cage (a ! 0) (int ready) es w))"

section \<open>select\<close>

text \<open>The sets of the cage (with whether they are given), the sets for the runtime and the bits of pipes and sockets.\<close>

record ipc_select =
  si_r :: "u32 list option"
  si_w :: "u32 list option"
  si_e :: "u32 list option"
  si_rev :: "nat option list"
  si_max :: nat
  si_kernel :: bool
  si_kr :: "u32 list"
  si_kw :: "u32 list"
  si_ke :: "u32 list"
  si_ir :: "u32 list"
  si_iw :: "u32 list"
  si_ie :: "u32 list"
  si_ready :: nat

definition wants :: "u32 list option \<Rightarrow> nat \<Rightarrow> bool" where
  "wants s fd = (case s of Some s \<Rightarrow> fd_isset fd s | None \<Rightarrow> False)"

definition select_events :: "bool \<Rightarrow> bool \<Rightarrow> u16" where
  "select_events want_r want_w = (if want_r then POLLIN else 0) OR (if want_w then POLLOUT else 0)"

text \<open>The bits of one pipe or socket.\<close>

definition select_ipc_fd :: "nat \<Rightarrow> bool \<Rightarrow> bool \<Rightarrow> bool \<Rightarrow> u16 \<Rightarrow> ipc_select \<Rightarrow> ipc_select" where
  "select_ipc_fd fd want_r want_w want_e revents s =
     (let r = (want_r \<and> revents AND (POLLIN OR POLLHUP) \<noteq> 0); v = (want_w \<and> revents AND (POLLOUT OR POLLERR) \<noteq> 0);
          e = (want_e \<and> revents AND POLLERR \<noteq> 0)
      in s\<lparr>si_ir := (if r then fd_set_bit fd (si_ir s) else si_ir s), si_iw := (if v then fd_set_bit fd (si_iw s) else si_iw s),
           si_ie := (if e then fd_set_bit fd (si_ie s) else si_ie s), si_ready := si_ready s + of_bool r + of_bool v + of_bool e\<rparr>)"

definition select_kernel_fd :: "nat \<Rightarrow> nat \<Rightarrow> bool \<Rightarrow> bool \<Rightarrow> bool \<Rightarrow> ipc_select \<Rightarrow> ipc_select" where
  "select_kernel_fd fd ufd want_r want_w want_e s =
     (if ufd < FD_SETSIZE then
        s\<lparr>si_rev := (si_rev s)[ufd := Some fd], si_max := max ufd (si_max s), si_kernel := True,
          si_kr := (if want_r then fd_set_bit ufd (si_kr s) else si_kr s), si_kw := (if want_w then fd_set_bit ufd (si_kw s) else si_kw s),
          si_ke := (if want_e then fd_set_bit ufd (si_ke s) else si_ke s)\<rparr>
      else s)"

definition select_classify ::
  "('ft, 'rb) ipc_env \<Rightarrow> nat \<Rightarrow> ipc_select \<times> ('ft, 'rb) ipc_world \<Rightarrow> nat \<Rightarrow> ipc_select \<times> ('ft, 'rb) ipc_world" where
  "select_classify X cage sw fd =
     (let (s, w) = sw; want_r = wants (si_r s) fd; want_w = wants (si_w s) fd; want_e = wants (si_e s) fd in
      if \<not> want_r \<and> \<not> want_w \<and> \<not> want_e then (s, w)
      else case ipc_lookup X w cage fd of
          (Some info, w) \<Rightarrow>
            (select_ipc_fd fd want_r want_w want_e (ipc_pipe_poll_state (ie_ring X) (ipcs w) info (select_events want_r want_w)) s, w)
        | (None, w) \<Rightarrow>
            (case translate_to_underfd X w cage fd of
               (None, w) \<Rightarrow> (s, w)
             | (Some u, w) \<Rightarrow> (select_kernel_fd fd (as_usize (int u)) want_r want_w want_e s, w)))"

text \<open>The re-examination in the waiting loop looks at pipes and sockets only.\<close>

definition select_reclassify ::
  "('ft, 'rb) ipc_env \<Rightarrow> nat \<Rightarrow> ipc_select \<times> ('ft, 'rb) ipc_world \<Rightarrow> nat \<Rightarrow> ipc_select \<times> ('ft, 'rb) ipc_world" where
  "select_reclassify X cage sw fd =
     (let (s, w) = sw; want_r = wants (si_r s) fd; want_w = wants (si_w s) fd; want_e = wants (si_e s) fd in
      if \<not> want_r \<and> \<not> want_w \<and> \<not> want_e then (s, w)
      else case ipc_lookup X w cage fd of
          (Some info, w) \<Rightarrow>
            (select_ipc_fd fd want_r want_w want_e (ipc_pipe_poll_state (ie_ring X) (ipcs w) info (select_events want_r want_w)) s, w)
        | (None, w) \<Rightarrow> (s, w))"

definition clear_ipc_bits :: "ipc_select \<Rightarrow> ipc_select" where
  "clear_ipc_bits s = s\<lparr>si_ir := fd_zero, si_iw := fd_zero, si_ie := fd_zero, si_ready := 0\<rparr>"

fun select_wait_loop ::
  "('ft, 'rb) ipc_env \<Rightarrow> nat \<Rightarrow> nat \<Rightarrow> nat option \<Rightarrow> (nat \<Rightarrow> nat) \<Rightarrow> nat \<Rightarrow> ('ft, 'rb) ipc_world wake list \<Rightarrow> ipc_select \<Rightarrow>
   ('ft, 'rb) ipc_world \<Rightarrow> (bool \<times> ipc_select \<times> ('ft, 'rb) ipc_world) option" where
  "select_wait_loop X cage nfds timeout elapsed k wakes s w =
     (let (s, w) = foldl (select_reclassify X cage) (clear_ipc_bits s, w) [0..<nfds] in
      if si_ready s > 0 then Some (True, s, w)
      else if (case timeout of Some t \<Rightarrow> elapsed k \<ge> t | None \<Rightarrow> False) then Some (True, s, w)
      else case wakes of
          [] \<Rightarrow> None
        | Signalled # _ \<Rightarrow> Some (False, s, w)
        | Woken f # ws \<Rightarrow> select_wait_loop X cage nfds timeout elapsed (Suc k) ws s (f w))"

declare select_wait_loop.simps [simp del]

text \<open>The \<open>timeval\<close>: eight bytes of seconds and four of microseconds, in nanoseconds.\<close>

definition timeval_ns :: "byte list \<Rightarrow> nat" where
  "timeval_ns tv = le_nat (take 8 tv) * 1000000000 + le_nat (take 4 (drop 8 tv)) * 1000"

definition read_set_arg :: "('ft, 'rb) ipc_env \<Rightarrow> ('ft, 'rb) ipc_world \<Rightarrow> nat \<Rightarrow> nat \<Rightarrow> u32 list option" where
  "read_set_arg X w cage ptr = (if ptr = 0 then None else Some (fd_set_of (copy_in X w cage ptr FD_SET_BYTES)))"

definition write_set_arg ::
  "('ft, 'rb) ipc_env \<Rightarrow> nat \<Rightarrow> nat \<Rightarrow> u32 list option \<Rightarrow> u32 list \<Rightarrow> ('ft, 'rb) ipc_world \<Rightarrow> ('ft, 'rb) ipc_world" where
  "write_set_arg X cage ptr given bits w = (case given of Some _ \<Rightarrow> copy_out X w cage ptr (fd_set_bytes bits) | None \<Rightarrow> w)"

definition ipc_select_init :: "('ft, 'rb) ipc_env \<Rightarrow> ('ft, 'rb) ipc_world \<Rightarrow> nat list \<Rightarrow> nat \<Rightarrow> ipc_select" where
  "ipc_select_init X w a cage =
     \<lparr>si_r = read_set_arg X w cage (a ! 1), si_w = read_set_arg X w cage (a ! 2), si_e = read_set_arg X w cage (a ! 3),
      si_rev = replicate FD_SETSIZE None, si_max = 0, si_kernel = False, si_kr = fd_zero, si_kw = fd_zero, si_ke = fd_zero,
      si_ir = fd_zero, si_iw = fd_zero, si_ie = fd_zero, si_ready = 0\<rparr>"

text \<open>The runtime's bits under the names of the cage.\<close>

definition select_out :: "ipc_select \<Rightarrow> u32 list option \<Rightarrow> u32 list \<Rightarrow> u32 list" where
  "select_out s given k =
     foldl (\<lambda>out ufd. case si_rev s ! ufd of
                        Some fd \<Rightarrow> if given \<noteq> None \<and> fd_isset ufd k then fd_set_bit fd out else out
                      | None \<Rightarrow> out) fd_zero [0..<Suc (si_max s)]"

definition write_sets ::
  "('ft, 'rb) ipc_env \<Rightarrow> nat \<Rightarrow> nat list \<Rightarrow> ipc_select \<Rightarrow> u32 list \<Rightarrow> u32 list \<Rightarrow> u32 list \<Rightarrow> ('ft, 'rb) ipc_world \<Rightarrow> ('ft, 'rb) ipc_world" where
  "write_sets X cage a s r v e w =
     write_set_arg X cage (a ! 3) (si_e s) e (write_set_arg X cage (a ! 2) (si_w s) v (write_set_arg X cage (a ! 1) (si_r s) r w))"

definition select_local ::
  "('ft, 'rb) ipc_env \<Rightarrow> nat \<Rightarrow> nat list \<Rightarrow> nat list \<Rightarrow> ipc_select \<Rightarrow> ('ft, 'rb) ipc_world \<Rightarrow> (int \<times> ('ft, 'rb) ipc_world) option" where
  "select_local X nfds a g s w =
     (let cage = g ! 0;
          timeout = (if a ! 4 = 0 then None else Some (timeval_ns (copy_in X w (g ! 4) (a ! 4) 16)));
          waited = (if si_ready s = 0 then select_wait_loop X cage nfds timeout (ie_elapsed X (hist w)) 0 (ie_waits X (hist w)) s w
                    else Some (True, s, w))
      in case waited of
           None \<Rightarrow> None
         | Some (False, s, w) \<Rightarrow> Some (-4, w)
         | Some (True, s, w) \<Rightarrow> Some (int (si_ready s), write_sets X cage a s (si_ir s) (si_iw s) (si_ie s) w))"

definition select_forward ::
  "('ft, 'rb) ipc_env \<Rightarrow> nat list \<Rightarrow> nat list \<Rightarrow> ipc_select \<Rightarrow> ('ft, 'rb) ipc_world \<Rightarrow> int \<times> ('ft, 'rb) ipc_world" where
  "select_forward X a g s w =
     (let cage = g ! 0; tc = ge_cage (ie_g X) OR ARG_TRANSLATE_FLAG;
          own = (\<lambda>given k. if given \<noteq> None then OwnBuf (fd_set_bytes k) else Num 0);
          args = [Num (if si_max s > 0 then si_max s + 1 else a ! 0), own (si_r s) (si_kr s), own (si_w s) (si_kw s),
                  own (si_e s) (si_ke s), Num (a ! 4), Num (a ! 5)];
          cages = [g ! 0, tc, tc, tc, g ! 4, g ! 5];
          out = ge_out (ie_g X) (hist w)
            \<lparr>callnumber = as_u32 SYS_SELECT, self_cageid = ge_cage (ie_g X), target_cageid = cage, call_args = args, call_cages = cages\<rparr>;
          (ret, w) = forward_syscall X w SYS_SELECT cage args cages
      in if ret < 0 then (ret, w)
         else (as_i32 (ret + int (si_ready s)),
               write_sets X cage a s
                 (map2 (OR) (select_out s (si_r s) (if si_r s \<noteq> None then fd_set_of (out 1) else si_kr s)) (si_ir s))
                 (map2 (OR) (select_out s (si_w s) (if si_w s \<noteq> None then fd_set_of (out 2) else si_kw s)) (si_iw s))
                 (map2 (OR) (select_out s (si_e s) (if si_e s \<noteq> None then fd_set_of (out 3) else si_ke s)) (si_ie s)) w))"

definition ipc_select_handler :: "('ft, 'rb) ipc_handler" where
  "ipc_select_handler X w a g =
     (let cage = g ! 0; nfds = as_usize (int (a ! 0)) in
      if nfds = 0 \<or> nfds > FD_SETSIZE then Some (forward_syscall X w SYS_SELECT cage (map Num a) g)
      else
        let (s, w) = foldl (select_classify X cage) (ipc_select_init X w a cage, w) [0..<nfds] in
        if \<not> si_kernel s then select_local X nfds a g s w else Some (select_forward X a g s w))"

section \<open>epoll\<close>

definition EPOLLIN :: u32 where "EPOLLIN = 0x001"
definition EPOLLOUT :: u32 where "EPOLLOUT = 0x004"
definition EPOLLERR :: u32 where "EPOLLERR = 0x008"
definition EPOLLHUP :: u32 where "EPOLLHUP = 0x010"

definition epoll_event_bytes :: "epoll_event \<Rightarrow> byte list" where
  "epoll_event_bytes ev = le_bytes 4 (unat (ev_events ev)) @ le_bytes 8 (ev_data ev)"

definition epoll_event_of :: "byte list \<Rightarrow> epoll_event" where
  "epoll_event_of bs = \<lparr>ev_events = word_of_nat (le_nat (take 4 bs)), ev_data = le_nat (take 8 (drop 4 bs))\<rparr>"

definition register_ipc_epoll_fd ::
  "('ft, 'rb) ipc_env \<Rightarrow> ('ft, 'rb) ipc_world \<Rightarrow> nat \<Rightarrow> int \<Rightarrow> bool \<Rightarrow> int \<times> ('ft, 'rb) ipc_world" where
  "register_ipc_epoll_fd X w cage runtime_vfd cloexec =
     (let w = ensure_cage_fdtable X w cage in
      case get_unused_virtual_fd (ie_fd X) (fdt w) cage IPC_EPOLL (as_u64 runtime_vfd) cloexec 0 of
        Some (fd, ft) \<Rightarrow>
          (as_i32 (int fd), w\<lparr>fdt := ft, ipcs := (ipcs w)\<lparr>epoll_targets := (epoll_targets (ipcs w))((cage, fd) \<mapsto> Map.empty)\<rparr>\<rparr>)
      | None \<Rightarrow> (-24, close_runtime X w cage (as_u64 runtime_vfd)))"

definition epoll_create_common :: "nat \<Rightarrow> bool \<Rightarrow> ('ft, 'rb) ipc_handler" where
  "epoll_create_common nr cloexec X w a g =
     (let (r, w) = forward_syscall X w nr (g ! 0) (map Num a) g in
      Some (if r < 0 then (r, w) else register_ipc_epoll_fd X w (g ! 0) r cloexec))"

definition ipc_epoll_create_handler :: "('ft, 'rb) ipc_handler" where
  "ipc_epoll_create_handler X w a g = epoll_create_common SYS_EPOLL_CREATE False X w a g"

definition ipc_epoll_create1_handler :: "('ft, 'rb) ipc_handler" where
  "ipc_epoll_create1_handler X w a g = epoll_create_common SYS_EPOLL_CREATE1 (arg_i32 (a ! 0) AND IPC_O_CLOEXEC \<noteq> 0) X w a g"

definition set_targets :: "nat \<times> nat \<Rightarrow> (nat \<rightharpoonup> epoll_event) \<Rightarrow> ('ft, 'rb) ipc_world \<Rightarrow> ('ft, 'rb) ipc_world" where
  "set_targets key m w = w\<lparr>ipcs := (ipcs w)\<lparr>epoll_targets := (epoll_targets (ipcs w))(key \<mapsto> m)\<rparr>\<rparr>"

text \<open>The change of a target map: the status and the map, which is created when it is missing.\<close>

definition epoll_ctl_ipc ::
  "('ft, 'rb) ipc_env \<Rightarrow> ('ft, 'rb) ipc_world \<Rightarrow> nat list \<Rightarrow> nat list \<Rightarrow> int \<times> ('ft, 'rb) ipc_world" where
  "epoll_ctl_ipc X w a g =
     (let key = (g ! 0, a ! 0); opn = as_i32 (int (a ! 1)); fd = a ! 2 in
      if opn = 1 \<or> opn = 3 then
        (if a ! 3 = 0 then (-22, w)
         else let ev = epoll_event_of (copy_in X w (g ! 3) (a ! 3) 12);
                  m = (case epoll_targets (ipcs w) key of Some m \<Rightarrow> m | None \<Rightarrow> Map.empty)
              in if opn = 1 \<and> m fd \<noteq> None then (-17, set_targets key m w)
                 else if opn = 3 \<and> m fd = None then (-2, set_targets key m w)
                 else (0, set_targets key (m(fd \<mapsto> ev)) w))
      else if opn = 2 then
        (case epoll_targets (ipcs w) key of
           Some m \<Rightarrow> if m fd \<noteq> None then (0, set_targets key (m(fd := None)) w) else (-2, w)
         | None \<Rightarrow> (-2, w))
      else (-22, w))"

definition ipc_epoll_ctl_handler :: "('ft, 'rb) ipc_handler" where
  "ipc_epoll_ctl_handler X w a g =
     (let cage = g ! 0 in
      if \<not> check_cage_exists (ie_fd X) (fdt w) cage then Some (forward_syscall X w SYS_EPOLL_CTL cage (map Num a) g)
      else case translate_virtual_fd (ie_fd X) (fdt w) cage (a ! 0) of
          None \<Rightarrow> Some (-9, w)
        | Some ep \<Rightarrow>
            if fdkind ep \<noteq> IPC_EPOLL then Some (-9, w)
            else case ipc_lookup X w cage (a ! 2) of
                (Some _, w) \<Rightarrow> Some (epoll_ctl_ipc X w a g)
              | (None, w) \<Rightarrow>
                  (case translate_to_underfd X w cage (a ! 2) of
                     (None, w) \<Rightarrow> Some (-9, w)
                   | (Some u, w) \<Rightarrow> Some (forward_syscall X w SYS_EPOLL_CTL cage (map Num (a[0 := underfd ep, 2 := u])) g)))"

definition epoll_requested :: "u32 \<Rightarrow> u16" where
  "epoll_requested evs = (if evs AND EPOLLIN \<noteq> 0 then POLLIN else 0) OR (if evs AND EPOLLOUT \<noteq> 0 then POLLOUT else 0)"

definition epoll_reported :: "u16 \<Rightarrow> u32 \<Rightarrow> u32" where
  "epoll_reported revents evs =
     ((if revents AND POLLIN \<noteq> 0 then EPOLLIN else 0) OR (if revents AND POLLOUT \<noteq> 0 then EPOLLOUT else 0) OR
      (if revents AND POLLERR \<noteq> 0 then EPOLLERR else 0) OR (if revents AND POLLHUP \<noteq> 0 then EPOLLHUP else 0)) AND
     (evs OR EPOLLERR OR EPOLLHUP)"

fun epoll_collect ::
  "('ft, 'rb) ipc_env \<Rightarrow> nat \<Rightarrow> nat \<Rightarrow> (nat \<times> epoll_event) list \<Rightarrow> epoll_event list \<Rightarrow> ('ft, 'rb) ipc_world \<Rightarrow>
   epoll_event list \<times> ('ft, 'rb) ipc_world" where
  "epoll_collect X cage maxevents [] ready w = (ready, w)"
| "epoll_collect X cage maxevents ((fd, ev) # evs) ready w =
     (if length ready \<ge> maxevents then (ready, w)
      else case ipc_lookup X w cage fd of
          (None, w) \<Rightarrow> epoll_collect X cage maxevents evs ready w
        | (Some info, w) \<Rightarrow>
            let r = epoll_reported (ipc_pipe_poll_state (ie_ring X) (ipcs w) info (epoll_requested (ev_events ev))) (ev_events ev)
            in epoll_collect X cage maxevents evs (if r \<noteq> 0 then ready @ [\<lparr>ev_events = r, ev_data = ev_data ev\<rparr>] else ready) w)"

definition epoll_finish ::
  "('ft, 'rb) ipc_env \<Rightarrow> nat list \<Rightarrow> nat list \<Rightarrow> epoll_event list \<Rightarrow> ('ft, 'rb) ipc_world \<Rightarrow> int \<times> ('ft, 'rb) ipc_world" where
  "epoll_finish X a g ready w =
     (as_i32 (int (length ready)),
      if ready \<noteq> [] \<and> a ! 1 \<noteq> 0 then copy_out X w (g ! 1) (a ! 1) (concat (map epoll_event_bytes ready)) else w)"

definition epoll_events_of :: "nat \<Rightarrow> byte list \<Rightarrow> epoll_event list" where
  "epoll_events_of n bs = map (\<lambda>i. epoll_event_of (take 12 (drop (12 * i) bs))) [0..<n]"

definition epoll_wait_open ::
  "('ft, 'rb) ipc_env \<Rightarrow> nat \<Rightarrow> nat \<Rightarrow> nat list \<Rightarrow> nat list \<Rightarrow> ('ft, 'rb) ipc_world \<Rightarrow> (int \<times> ('ft, 'rb) ipc_world) option" where
  "epoll_wait_open X runtime_epfd maxevents a g w =
     (let cage = g ! 0;
          targets = (case epoll_targets (ipcs w) (cage, a ! 0) of
                       Some m \<Rightarrow> map (\<lambda>fd. (fd, the (m fd))) (ie_keys X m) | None \<Rightarrow> []);
          (ready, w) = epoll_collect X cage maxevents targets [] w;
          kernel_max = maxevents - length ready
      in if kernel_max = 0 then Some (epoll_finish X a g ready w)
         else if kernel_max * 12 \<ge> 2 ^ 31 then None
         else
           let timeout = (if ready \<noteq> [] then 0 else as_i32 (int (a ! 3)));
               args = [Num runtime_epfd, OwnBuf (replicate (kernel_max * 12) 0), Num kernel_max, Num (as_u64 timeout), Num (a ! 4), Num (a ! 5)];
               cages = g[1 := ge_cage (ie_g X) OR ARG_TRANSLATE_FLAG];
               out = ge_out (ie_g X) (hist w)
                 \<lparr>callnumber = as_u32 SYS_EPOLL_WAIT, self_cageid = ge_cage (ie_g X), target_cageid = cage, call_args = args, call_cages = cages\<rparr> 1;
               (cnt, w) = forward_syscall X w SYS_EPOLL_WAIT cage args cages
           in if cnt < 0 \<and> ready = [] then Some (cnt, w)
              else if nat cnt > kernel_max then None
              else Some (epoll_finish X a g (ready @ epoll_events_of (nat cnt) out) w))"

definition ipc_epoll_wait_handler :: "('ft, 'rb) ipc_handler" where
  "ipc_epoll_wait_handler X w a g =
     (let cage = g ! 0; maxevents = as_i32 (int (a ! 2)) in
      if maxevents \<le> 0 then Some (-22, w)
      else if \<not> check_cage_exists (ie_fd X) (fdt w) cage then Some (forward_syscall X w SYS_EPOLL_WAIT cage (map Num a) g)
      else case translate_virtual_fd (ie_fd X) (fdt w) cage (a ! 0) of
          None \<Rightarrow> Some (-9, w)
        | Some ep \<Rightarrow>
            if fdkind ep \<noteq> IPC_EPOLL then Some (-9, w)
            else if maxevents * 12 \<ge> 2 ^ 31 then None
            else epoll_wait_open X (underfd ep) (nat maxevents) a g w)"

end
