(* ===== verification/Ipc_Net.thy ===== *)
theory Ipc_Net
  imports Ipc_Handlers Rust_Str
begin

unbundle bit_operations_syntax

text \<open>
  The socket handlers of the ipc grate (\<open>rust-grates/ipc-grate/src/handlers.rs\<close>).  AF_UNIX sockets
  are kept in the registry from the start; an AF_INET socket is one of the runtime until bind or
  connect shows that it is local, when the descriptor is taken over.
\<close>

definition AF_UNIX :: int where "AF_UNIX = 1"
definition AF_INET :: int where "AF_INET = 2"

definition upd_socks :: "(socket_registry \<Rightarrow> socket_registry) \<Rightarrow> ('ft, 'rb) ipc_world \<Rightarrow> ('ft, 'rb) ipc_world" where
  "upd_socks f w = w\<lparr>ipcs := (ipcs w)\<lparr>socks := f (socks (ipcs w))\<rparr>\<rparr>"

definition new_socket :: "int \<Rightarrow> int \<Rightarrow> ('ft, 'rb) ipc_world \<Rightarrow> nat \<times> ('ft, 'rb) ipc_world" where
  "new_socket d ty w =
     (case create_socket (socks (ipcs w)) d ty 0 of (sid, reg) \<Rightarrow> (sid, w\<lparr>ipcs := (ipcs w)\<lparr>socks := reg\<rparr>\<rparr>))"

section \<open>Creating sockets\<close>

definition ipc_socket_handler :: "('ft, 'rb) ipc_handler" where
  "ipc_socket_handler X w a g =
     (let cage = g ! 0; d = as_i32 (int (a ! 0)); ty = as_i32 (int (a ! 1)); w = ensure_cage_fdtable X w cage in
      if d \<noteq> AF_UNIX \<and> d \<noteq> AF_INET then Some (open_forward SYS_SOCKET False 0 X w (map Num a) g)
      else if d = AF_UNIX then
        let (sid, w) = new_socket d ty w in
        (case get_unused_virtual_fd (ie_fd X) (fdt w) cage IPC_SOCKET sid (arg_i32 (a ! 1) AND IPC_O_CLOEXEC \<noteq> 0) (as_u64 ty AND 0x800) of
           Some (fd, ft) \<Rightarrow> Some (as_i32 (int fd), w\<lparr>fdt := ft\<rparr>)
         | None \<Rightarrow> Some (-24, upd_socks (\<lambda>reg. registry_remove reg sid) w))
      else
        let (fd, w) = open_forward SYS_SOCKET False 0 X w (map Num a) g in
        if fd < 0 then Some (fd, w)
        else let (sid, w) = new_socket d ty w
             in Some (fd, w\<lparr>ipcs := (ipcs w)\<lparr>pending_inet := (pending_inet (ipcs w))((cage, as_u64 fd) \<mapsto> sid)\<rparr>\<rparr>))"

definition ipc_socketpair_handler :: "('ft, 'rb) ipc_handler" where
  "ipc_socketpair_handler X w a g =
     (let cage = g ! 0; d = as_i32 (int (a ! 0)); ty = as_i32 (int (a ! 1)); w = ensure_cage_fdtable X w cage in
      if d \<noteq> AF_UNIX then Some (-97, w)
      else
        let ((sid1, sid2), reg, ps) = create_socketpair (ie_ring X) (socks (ipcs w)) (store (ipcs w)) d ty 0;
            w = w\<lparr>ipcs := (ipcs w)\<lparr>socks := reg, store := ps\<rparr>\<rparr>;
            ce = (arg_i32 (a ! 1) AND IPC_O_CLOEXEC \<noteq> 0); info = as_u64 ty AND 0x800
        in case get_unused_virtual_fd (ie_fd X) (fdt w) cage IPC_SOCKET sid1 ce info of
             None \<Rightarrow> Some (-24, w)
           | Some (fd1, ft) \<Rightarrow>
               let w = w\<lparr>fdt := ft\<rparr> in
               (case get_unused_virtual_fd (ie_fd X) (fdt w) cage IPC_SOCKET sid2 ce info of
                  None \<Rightarrow> Some (-24, ipc_close_fd X w cage (as_u64 (as_i32 (int fd1))))
                | Some (fd2, ft) \<Rightarrow>
                    Some (0, copy_out X (w\<lparr>fdt := ft\<rparr>) (g ! 3) (a ! 3) (fd_pair_bytes (as_i32 (int fd1)) (as_i32 (int fd2))))))"

section \<open>Addresses\<close>

definition sockaddr_family_of :: "byte list \<Rightarrow> int" where
  "sockaddr_family_of buf = int (le_nat (take 2 buf))"

definition unix_addr :: "byte list \<Rightarrow> string" where
  "unix_addr buf = from_utf8_lossy (c_str_bytes (drop 2 buf))"

definition inet_port :: "byte list \<Rightarrow> nat" where
  "inet_port buf = 256 * unat (buf ! 2) + unat (buf ! 3)"

definition inet_addr :: "byte list \<Rightarrow> string" where
  "inet_addr buf = ''127.0.0.1:'' @ nat_str (inet_port buf)"

definition is_loopback :: "byte list \<Rightarrow> nat \<Rightarrow> bool" where
  "is_loopback buf addrlen \<longleftrightarrow>
     (let ip = (if addrlen \<ge> 8 then take 4 (drop 4 buf) else [0, 0, 0, 0]) in ip = [127, 0, 0, 1] \<or> ip = [0, 0, 0, 0])"

text \<open>A descriptor of the runtime becomes a socket of the registry; its flags are kept.\<close>

definition preserved_flags :: "('ft, 'rb) ipc_env \<Rightarrow> ('ft, 'rb) ipc_world \<Rightarrow> nat \<Rightarrow> nat \<Rightarrow> bool \<times> nat" where
  "preserved_flags X w cage fd =
     (case translate_virtual_fd (ie_fd X) (fdt w) cage fd of Some e \<Rightarrow> (should_cloexec e, perfdinfo e) | None \<Rightarrow> (False, 0))"

definition close_taken_over :: "('ft, 'rb) ipc_env \<Rightarrow> ('ft, 'rb) ipc_world \<Rightarrow> nat \<Rightarrow> nat \<Rightarrow> ('ft, 'rb) ipc_world" where
  "close_taken_over X w cage fd =
     (case translate_to_underfd X w cage fd of (Some u, w) \<Rightarrow> close_runtime X w cage u | (None, w) \<Rightarrow> w)"

definition drop_pending :: "nat \<times> nat \<Rightarrow> ('ft, 'rb) ipc_world \<Rightarrow> ('ft, 'rb) ipc_world" where
  "drop_pending key w = w\<lparr>ipcs := (ipcs w)\<lparr>pending_inet := (pending_inet (ipcs w))(key := None)\<rparr>\<rparr>"

definition bind_socket :: "nat \<Rightarrow> string \<Rightarrow> ('ft, 'rb) ipc_world \<Rightarrow> ('ft, 'rb) ipc_world" where
  "bind_socket sid addr w =
     upd_socks (\<lambda>reg. (registry_mod reg sid (\<lambda>k. k\<lparr>local_addr := Some addr\<rparr>))\<lparr>bound_paths := (bound_paths reg)(addr \<mapsto> sid)\<rparr>) w"

definition bind_inet ::
  "('ft, 'rb) ipc_env \<Rightarrow> ('ft, 'rb) ipc_world \<Rightarrow> nat list \<Rightarrow> nat list \<Rightarrow> byte list \<Rightarrow> nat \<Rightarrow> (int \<times> ('ft, 'rb) ipc_world) option" where
  "bind_inet X w a g buf addrlen =
     (let cage = g ! 0; fd = a ! 0 in
      case pending_inet (ipcs w) (cage, fd) of
        None \<Rightarrow> forward_with_fd1 SYS_BIND X w a g
      | Some sid \<Rightarrow>
          if sockaddr_family_of buf \<noteq> AF_INET then forward_with_fd1 SYS_BIND X w a g
          else if addrlen < 4 then None
          else if is_loopback buf addrlen then
            let w = close_taken_over X w cage fd; (ce, info) = preserved_flags X w cage fd;
                w = ipc_set_fd X w cage fd IPC_SOCKET sid ce info
            in Some (0, bind_socket sid (inet_addr buf) (drop_pending (cage, fd) w))
          else forward_with_fd1 SYS_BIND X (upd_socks (\<lambda>reg. registry_remove reg sid) (drop_pending (cage, fd) w)) a g)"

text \<open>A buffer for the address of 2 GiB or more cannot be allocated.  Binding a path also makes a file there.\<close>

definition bind_unix ::
  "('ft, 'rb) ipc_env \<Rightarrow> ('ft, 'rb) ipc_world \<Rightarrow> nat list \<Rightarrow> nat list \<Rightarrow> nat \<Rightarrow> string \<Rightarrow> int \<times> ('ft, 'rb) ipc_world" where
  "bind_unix X w a g sid addr =
     (let (pfd, w) = forward_syscall X w SYS_OPEN (g ! 0) (map Num [as_u64 (int (a ! 1) + 2), 0x241, 0x1B6, 0, 0, 0])
            [g ! 1, g ! 1, g ! 1, 0, 0, 0];
          w = (if pfd \<ge> 0 then snd (forward_syscall X w SYS_CLOSE (g ! 0) (map Num [as_u64 pfd, 0, 0, 0, 0, 0]) [g ! 0, 0, 0, 0, 0, 0]) else w)
      in (0, bind_socket sid addr w))"

definition ipc_bind_handler :: "('ft, 'rb) ipc_handler" where
  "ipc_bind_handler X w a g =
     (let addrlen = as_usize (int (a ! 2)) in
      if addrlen < 2 then forward_with_fd1 SYS_BIND X w a g
      else if addrlen \<ge> 2 ^ 31 then None
      else
        let buf = copy_in X w (g ! 1) (a ! 1) addrlen in
        case ipc_lookup X w (g ! 0) (a ! 0) of
          (Some (sid, kind, _), w) \<Rightarrow>
            if kind = IPC_SOCKET \<and> sockaddr_family_of buf = AF_UNIX then Some (bind_unix X w a g sid (unix_addr buf))
            else bind_inet X w a g buf addrlen
        | (None, w) \<Rightarrow> bind_inet X w a g buf addrlen)"

definition ipc_listen_handler :: "('ft, 'rb) ipc_handler" where
  "ipc_listen_handler X w a g =
     (case ipc_lookup X w (g ! 0) (a ! 0) of
        (None, w) \<Rightarrow> forward_with_fd1 SYS_LISTEN X w a g
      | (Some (sid, kind, _), w) \<Rightarrow>
          if kind \<noteq> IPC_SOCKET then Some (-88, w)
          else Some (0, upd_socks (\<lambda>reg. registry_mod reg sid (\<lambda>k. k\<lparr>s_state := Listening\<rparr>)) w))"

section \<open>Connecting\<close>

text \<open>The new connection: two pipes, the connector's ends, and an entry in the queue of the address.\<close>

definition queue_connection :: "socket_registry \<Rightarrow> string \<Rightarrow> pending_connection \<Rightarrow> socket_registry" where
  "queue_connection reg addr c =
     reg\<lparr>pending_connections := (pending_connections reg)(addr \<mapsto> (case pending_connections reg addr of Some q \<Rightarrow> q | None \<Rightarrow> []) @ [c])\<rparr>"

definition connect_socket :: "('ft, 'rb) ipc_env \<Rightarrow> nat \<Rightarrow> string \<Rightarrow> ('ft, 'rb) ipc_world \<Rightarrow> int \<times> ('ft, 'rb) ipc_world" where
  "connect_socket X sid target w =
     (let s = ipcs w; reg = socks s in
      if bound_paths reg target = None then (-111, w)
      else
        let i = length (store s); ps = store s @ [pipe_new (ie_ring X) UDSOCK_CAPACITY, pipe_new (ie_ring X) UDSOCK_CAPACITY];
            reg = registry_mod reg sid (\<lambda>k. k\<lparr>sendpipe := Some i, recvpipe := Some (i + 1), s_state := Connected, remote_addr := Some target\<rparr>);
            laddr = (case Option.bind (registry_get reg sid) local_addr of Some l \<Rightarrow> l | None \<Rightarrow> []);
            reg = queue_connection reg target \<lparr>pc_remote_addr = laddr, pipe_to_listener = i, pipe_to_connector = i + 1\<rparr>
        in (0, w\<lparr>ipcs := s\<lparr>store := ps, socks := reg\<rparr>\<rparr>))"

definition connect_target ::
  "('ft, 'rb) ipc_env \<Rightarrow> nat \<Rightarrow> byte list \<Rightarrow> nat \<Rightarrow> ('ft, 'rb) ipc_world \<Rightarrow> (int \<times> ('ft, 'rb) ipc_world) option" where
  "connect_target X sid buf addrlen w =
     (if sockaddr_family_of buf = AF_UNIX then Some (connect_socket X sid (unix_addr buf) w)
      else if sockaddr_family_of buf = AF_INET then (if addrlen < 4 then None else Some (connect_socket X sid (inet_addr buf) w))
      else Some (-97, w))"

definition ipc_connect_handler :: "('ft, 'rb) ipc_handler" where
  "ipc_connect_handler X w a g =
     (let cage = g ! 0; fd = a ! 0; addrlen = as_usize (int (a ! 2)) in
      if addrlen < 2 then forward_with_fd1 SYS_CONNECT X w a g
      else if addrlen \<ge> 2 ^ 31 then None
      else
        let buf = copy_in X w (g ! 1) (a ! 1) addrlen in
        case ipc_lookup X w cage fd of
          (Some (sid, kind, _), w) \<Rightarrow>
            if kind \<noteq> IPC_SOCKET then forward_with_fd1 SYS_CONNECT X w a g else connect_target X sid buf addrlen w
        | (None, w) \<Rightarrow>
            (case pending_inet (ipcs w) (cage, fd) of
               None \<Rightarrow> forward_with_fd1 SYS_CONNECT X w a g
             | Some sid \<Rightarrow>
                 if sockaddr_family_of buf \<noteq> AF_INET then forward_with_fd1 SYS_CONNECT X w a g
                 else if is_loopback buf addrlen then
                   let (ce, info) = preserved_flags X w cage fd; w = close_taken_over X w cage fd;
                       w = drop_pending (cage, fd) (ipc_set_fd X w cage fd IPC_SOCKET sid ce info)
                   in connect_target X sid buf addrlen w
                 else forward_with_fd1 SYS_CONNECT X (upd_socks (\<lambda>reg. registry_remove reg sid) (drop_pending (cage, fd) w)) a g))"

section \<open>Addresses for the cage\<close>

text \<open>\<open>s.rfind(c)\<close> with the parts before and after.\<close>

definition rsplit_once :: "char \<Rightarrow> string \<Rightarrow> (string \<times> string) option" where
  "rsplit_once c s = map_option (\<lambda>(b, f). (rev f, rev b)) (split_once c (rev s))"

definition pad_to :: "nat \<Rightarrow> byte list \<Rightarrow> byte list" where
  "pad_to n bs = bs @ replicate (n - length bs) 0"

definition inet_bytes :: "string \<Rightarrow> byte list" where
  "inet_bytes s =
     (case rsplit_once (CHR '':'') s of
        None \<Rightarrow> [0, 0, 0, 0, 0, 0]
      | Some (host, port) \<Rightarrow>
          (case parse_uint (2 ^ 16) port of Some p \<Rightarrow> [word_of_nat (p div 256), word_of_nat p] | None \<Rightarrow> [0, 0]) @
          (let parts = split_on (CHR ''.'') host in
           if length parts = 4 then map (\<lambda>p. case parse_uint 256 p of Some v \<Rightarrow> word_of_nat v | None \<Rightarrow> 0) parts else [0, 0, 0, 0]))"

definition build_ipc_sockaddr :: "int \<Rightarrow> string option \<Rightarrow> byte list \<times> nat" where
  "build_ipc_sockaddr d addr =
     (if d = AF_UNIX then
        (case addr of
           Some path \<Rightarrow> let n = min (length (as_bytes path)) 107 in (pad_to 110 ([1, 0] @ take n (as_bytes path)), 2 + n + 1)
         | None \<Rightarrow> (pad_to 110 [1, 0], 2))
      else if d = AF_INET then (pad_to 110 ([2, 0] @ (case addr of Some s \<Rightarrow> inet_bytes s | None \<Rightarrow> [])), 16)
      else (pad_to 110 [], 0))"

definition ipc_writeback_sockaddr ::
  "('ft, 'rb) ipc_env \<Rightarrow> ('ft, 'rb) ipc_world \<Rightarrow> byte list \<times> nat \<Rightarrow> nat \<Rightarrow> nat \<Rightarrow> int \<times> ('ft, 'rb) ipc_world" where
  "ipc_writeback_sockaddr X w addr addr_arg addrlen_arg =
     (let (sock_buf, sock_len) = addr in
      if addr_arg = 0 \<or> addrlen_arg = 0 then (-22, w)
      else let copy_len = min sock_len (le_nat (read_user_bytes X w addrlen_arg 4));
               w = (if copy_len > 0 then write_user_bytes w addr_arg (take copy_len sock_buf) else w)
           in (0, write_user_bytes w addrlen_arg (le_bytes 4 sock_len)))"

section \<open>Accepting\<close>

definition accepted_socket :: "nat \<Rightarrow> pending_connection \<Rightarrow> ('ft, 'rb) ipc_world \<Rightarrow> nat \<times> ('ft, 'rb) ipc_world" where
  "accepted_socket listen_id c w =
     (let k = registry_get (socks (ipcs w)) listen_id;
          (sid, w) = new_socket (case k of Some k \<Rightarrow> s_domain k | None \<Rightarrow> AF_UNIX) (case k of Some k \<Rightarrow> s_socktype k | None \<Rightarrow> 1) w
      in (sid, upd_socks (\<lambda>reg. registry_mod reg sid
            (\<lambda>k. k\<lparr>recvpipe := Some (pipe_to_listener c), sendpipe := Some (pipe_to_connector c), s_state := Connected,
                  remote_addr := Some (pc_remote_addr c)\<rparr>)) w))"

definition accept_connection ::
  "('ft, 'rb) ipc_env \<Rightarrow> nat \<Rightarrow> nat \<Rightarrow> bool \<Rightarrow> nat \<Rightarrow> nat \<Rightarrow> nat \<Rightarrow> pending_connection \<Rightarrow> ('ft, 'rb) ipc_world \<Rightarrow> int \<times> ('ft, 'rb) ipc_world" where
  "accept_connection X cage listen_id ce info addr_arg addrlen_arg c w =
     (let (sid, w) = accepted_socket listen_id c w in
      case get_unused_virtual_fd (ie_fd X) (fdt w) cage IPC_SOCKET sid ce info of
        None \<Rightarrow> (-24, upd_socks (\<lambda>reg. registry_remove reg sid) w)
      | Some (fd, ft) \<Rightarrow>
          let w = w\<lparr>fdt := ft\<rparr>;
              (d, remote) = (case registry_get (socks (ipcs w)) sid of Some k \<Rightarrow> (s_domain k, remote_addr k) | None \<Rightarrow> (0, None))
          in (as_i32 (int fd),
              if addr_arg \<noteq> 0 \<and> addrlen_arg \<noteq> 0
              then snd (ipc_writeback_sockaddr X w (build_ipc_sockaddr d remote) addr_arg addrlen_arg) else w))"

fun accept_loop ::
  "('ft, 'rb) ipc_env \<Rightarrow> nat \<Rightarrow> nat \<Rightarrow> string \<Rightarrow> bool \<Rightarrow> bool \<Rightarrow> nat \<Rightarrow> nat \<Rightarrow> nat \<Rightarrow> ('ft, 'rb) ipc_world wake list \<Rightarrow> ('ft, 'rb) ipc_world \<Rightarrow>
   (int \<times> ('ft, 'rb) ipc_world) option" where
  "accept_loop X cage listen_id listen_addr nonblocking ce info addr_arg addrlen_arg wakes w =
     (case pending_connections (socks (ipcs w)) listen_addr of
        Some (c # q) \<Rightarrow>
          Some (accept_connection X cage listen_id ce info addr_arg addrlen_arg c
            (upd_socks (\<lambda>reg. reg\<lparr>pending_connections := (pending_connections reg)(listen_addr \<mapsto> q)\<rparr>) w))
      | _ \<Rightarrow>
          if nonblocking then Some (-11, w)
          else (case wakes of
                  [] \<Rightarrow> None
                | Signalled # _ \<Rightarrow> Some (-4, w)
                | Woken f # ws \<Rightarrow> accept_loop X cage listen_id listen_addr nonblocking ce info addr_arg addrlen_arg ws (f w)))"

declare accept_loop.simps [simp del]

definition accept_ipc_inner ::
  "('ft, 'rb) ipc_env \<Rightarrow> ('ft, 'rb) ipc_world \<Rightarrow> nat \<Rightarrow> nat \<Rightarrow> i32 \<Rightarrow> bool \<Rightarrow> nat \<Rightarrow> nat \<Rightarrow> nat \<Rightarrow> (int \<times> ('ft, 'rb) ipc_world) option" where
  "accept_ipc_inner X w cage listen_id listen_flags ce info addr_arg addrlen_arg =
     (case Option.bind (registry_get (socks (ipcs w)) listen_id) local_addr of
        None \<Rightarrow> Some (-22, w)
      | Some addr \<Rightarrow>
          accept_loop X cage listen_id addr (is_nonblocking listen_flags) ce info addr_arg addrlen_arg (ie_waits X (hist w)) w)"

definition accept_common :: "nat \<Rightarrow> bool \<Rightarrow> nat \<Rightarrow> ('ft, 'rb) ipc_handler" where
  "accept_common nr ce info X w a g =
     (let cage = g ! 0; fd = a ! 0 in
      case ipc_lookup X w cage fd of
        (Some (sid, kind, flags), w) \<Rightarrow>
          if kind \<noteq> IPC_SOCKET then Some (-88, w) else accept_ipc_inner X w cage sid flags ce info (a ! 1) (a ! 2)
      | (None, w) \<Rightarrow>
          (case translate_to_underfd X w cage fd of
             (None, w) \<Rightarrow> Some (-9, w)
           | (Some u, w) \<Rightarrow> Some (open_forward nr ce 0 X w (map Num (a[0 := u])) g)))"

definition ipc_accept_handler :: "('ft, 'rb) ipc_handler" where
  "ipc_accept_handler X w a g = accept_common SYS_ACCEPT False 0 X w a g"

definition ipc_accept4_handler :: "('ft, 'rb) ipc_handler" where
  "ipc_accept4_handler X w a g = accept_common SYS_ACCEPT4 (arg_i32 (a ! 3) AND IPC_O_CLOEXEC \<noteq> 0) (a ! 3 AND 0x800) X w a g"

definition ipc_shutdown_handler :: "('ft, 'rb) ipc_handler" where
  "ipc_shutdown_handler X w a g =
     (let how = as_i32 (int (a ! 1)) in
      case ipc_lookup X w (g ! 0) (a ! 0) of
        (None, w) \<Rightarrow> forward_with_fd1 SYS_SHUTDOWN X w a g
      | (Some (sid, kind, _), w) \<Rightarrow>
          if kind \<noteq> IPC_SOCKET then Some (-88, w)
          else case registry_get (socks (ipcs w)) sid of
              None \<Rightarrow> Some (0, w)
            | Some k \<Rightarrow>
                let st = (\<lambda>c w. upd_socks (\<lambda>reg. registry_mod reg sid (\<lambda>k. k\<lparr>s_state := c\<rparr>)) w);
                    eof = w\<lparr>ipcs := opt_pipe_mod decr_write_ref (sendpipe k) (ipcs w)\<rparr> in
                if how = 0 then Some (0, st (if s_state k = Connected then WriteOnly else NotConnected) w)
                else if how = 1 then Some (0, st (if s_state k = Connected then ReadOnly else NotConnected) eof)
                else if how = 2 then Some (0, st NotConnected eof)
                else Some (-22, w))"

section \<open>Messages\<close>

text \<open>The pipe of a connected socket, or the error.\<close>

definition socket_pipe :: "(socket_info \<Rightarrow> nat option) \<Rightarrow> 'rb ipc_state \<Rightarrow> nat \<times> nat \<times> i32 \<Rightarrow> int + nat" where
  "socket_pipe dir s info =
     (if fst (snd info) \<noteq> IPC_SOCKET then Inl (-88)
      else case Option.bind (registry_get (socks s) (fst info)) dir of None \<Rightarrow> Inl (-107) | Some i \<Rightarrow> Inr i)"

definition ipc_sendto_handler :: "('ft, 'rb) ipc_handler" where
  "ipc_sendto_handler X w a g =
     (case ipc_lookup X w (g ! 0) (a ! 0) of
        (None, w) \<Rightarrow> forward_with_fd1 SYS_SENDTO X w a g
      | (Some info, w) \<Rightarrow>
          (case socket_pipe sendpipe (ipcs w) info of
             Inl e \<Rightarrow> Some (e, w)
           | Inr i \<Rightarrow>
               let count = as_usize (int (a ! 2)) in
               if count = 0 \<or> a ! 1 = 0 then Some (0, w)
               else send_cage X w i (g ! 1) (a ! 1) count (is_nonblocking (snd (snd info)))))"

definition ipc_recvfrom_handler :: "('ft, 'rb) ipc_handler" where
  "ipc_recvfrom_handler X w a g =
     (case ipc_lookup X w (g ! 0) (a ! 0) of
        (None, w) \<Rightarrow> forward_with_fd1 SYS_RECVFROM X w a g
      | (Some info, w) \<Rightarrow>
          (case socket_pipe recvpipe (ipcs w) info of
             Inl e \<Rightarrow> Some (e, w)
           | Inr i \<Rightarrow>
               let count = as_usize (int (a ! 2)) in
               map_option (\<lambda>(ret, w). (ret, if ret \<ge> 0 \<and> a ! 5 \<noteq> 0 then write_user_bytes w (a ! 5) (le_bytes 4 0) else w))
                 (if count = 0 \<or> a ! 1 = 0 then Some (0, w)
                  else recv_cage X w i (g ! 1) (a ! 1) count (is_nonblocking (snd (snd info))))))"

text \<open>The array and its length in the 56 bytes of a \<open>HostMsghdr\<close>.\<close>

definition msghdr_iov :: "('ft, 'rb) ipc_env \<Rightarrow> ('ft, 'rb) ipc_world \<Rightarrow> nat \<Rightarrow> nat \<Rightarrow> nat \<times> nat" where
  "msghdr_iov X w cage ptr =
     (let hdr = copy_in X w cage ptr 56 in (le_nat (take 8 (drop 16 hdr)), as_usize (int (le_nat (take 8 (drop 24 hdr))))))"

definition ipc_sendmsg_handler :: "('ft, 'rb) ipc_handler" where
  "ipc_sendmsg_handler X w a g =
     (case ipc_lookup X w (g ! 0) (a ! 0) of
        (None, w) \<Rightarrow> forward_with_fd1 SYS_SENDMSG X w a g
      | (Some info, w) \<Rightarrow>
          (case socket_pipe sendpipe (ipcs w) info of
             Inl e \<Rightarrow> Some (e, w)
           | Inr i \<Rightarrow>
               let (iov, cnt) = msghdr_iov X w (g ! 1) (a ! 1) in
               if cnt = 0 then Some (0, w)
               else case gather_iov_into_buf X w iov cnt (g ! 1) of
                   None \<Rightarrow> None
                 | Some (Inl e) \<Rightarrow> Some (e, w)
                 | Some (Inr bs) \<Rightarrow> if bs = [] then Some (0, w) else send_buf X w i bs (is_nonblocking (snd (snd info)))))"

text \<open>The elements of the array are read before the data arrives.\<close>

fun scatter_iovs ::
  "('ft, 'rb) ipc_env \<Rightarrow> nat \<Rightarrow> (nat \<times> nat) list \<Rightarrow> byte list \<Rightarrow> ('ft, 'rb) ipc_world \<Rightarrow> ('ft, 'rb) ipc_world" where
  "scatter_iovs X cage [] bs w = w"
| "scatter_iovs X cage ((base, len) # iovs) bs w =
     (if bs = [] then w
      else let chunk = min len (length bs) in
           if chunk = 0 then scatter_iovs X cage iovs bs w
           else scatter_iovs X cage iovs (drop chunk bs) (copy_out X w cage base (take chunk bs)))"

definition ipc_recvmsg_handler :: "('ft, 'rb) ipc_handler" where
  "ipc_recvmsg_handler X w a g =
     (case ipc_lookup X w (g ! 0) (a ! 0) of
        (None, w) \<Rightarrow> forward_with_fd1 SYS_RECVMSG X w a g
      | (Some info, w) \<Rightarrow>
          (case socket_pipe recvpipe (ipcs w) info of
             Inl e \<Rightarrow> Some (e, w)
           | Inr i \<Rightarrow>
               let (iov, cnt) = msghdr_iov X w (g ! 1) (a ! 1);
                   iovs = map (iov_at X w (g ! 1) iov) [0..<cnt]; cap = iov_capacity X w (g ! 1) iov cnt in
               if cnt = 0 then Some (0, w)
               else if cnt > MAX_IOV then Some (-22, w)
               else if cap = 0 then Some (0, w)
               else do {
                 (r, bs, w) \<leftarrow> recv_buf X w i cap (is_nonblocking (snd (snd info)));
                 Some (r, if r \<le> 0 then w else scatter_iovs X (g ! 1) iovs (take (nat r) bs) w) }))"

section \<open>Options and names\<close>

definition SETTABLE_OPTIONS :: "int list" where
  "SETTABLE_OPTIONS = [2, 15, 9, 16, 6, 5, 13, 7, 8, 19, 18]"

definition ipc_setsockopt_handler :: "('ft, 'rb) ipc_handler" where
  "ipc_setsockopt_handler X w a g =
     (case ipc_lookup X w (g ! 0) (a ! 0) of
        (None, w) \<Rightarrow> forward_with_fd1 SYS_SETSOCKOPT X w a g
      | (Some (ufd, kind, _), w) \<Rightarrow>
          if kind \<noteq> IPC_SOCKET then Some (-88, w)
          else if as_i32 (int (a ! 1)) \<noteq> 1 then Some (-92, w)
          else Some (if as_i32 (int (a ! 2)) \<in> set SETTABLE_OPTIONS then 0 else -92, w))"

definition sockopt_value :: "'rb ipc_state \<Rightarrow> nat \<Rightarrow> int \<Rightarrow> int option" where
  "sockopt_value s ufd optname =
     (let k = registry_get (socks s) ufd in
      if optname = 3 then Some (case k of Some k \<Rightarrow> s_socktype k AND 0xf | None \<Rightarrow> 0)
      else if optname = 39 then Some (case k of Some k \<Rightarrow> s_domain k | None \<Rightarrow> 0)
      else if optname = 30 then Some (case k of Some k \<Rightarrow> if s_state k = Listening then 1 else 0 | None \<Rightarrow> 0)
      else if optname \<in> set [38, 4, 2, 15, 9, 16, 6, 5] then Some 0
      else if optname = 7 \<or> optname = 8 then Some 65536
      else if optname = 19 \<or> optname = 18 then Some 1
      else None)"

definition ipc_getsockopt_handler :: "('ft, 'rb) ipc_handler" where
  "ipc_getsockopt_handler X w a g =
     (case ipc_lookup X w (g ! 0) (a ! 0) of
        (None, w) \<Rightarrow> forward_with_fd1 SYS_GETSOCKOPT X w a g
      | (Some (ufd, kind, _), w) \<Rightarrow>
          if kind \<noteq> IPC_SOCKET then Some (-88, w)
          else if as_i32 (int (a ! 1)) \<noteq> 1 then Some (-92, w)
          else case sockopt_value (ipcs w) ufd (as_i32 (int (a ! 2))) of
              None \<Rightarrow> Some (-92, w)
            | Some v \<Rightarrow>
                if a ! 4 = 0 \<or> a ! 3 = 0 then Some (-22, w)
                else let n = min (le_nat (read_user_bytes X w (a ! 4) 4)) 4;
                         w = (if n > 0 then write_user_bytes w (a ! 3) (take n (le_bytes 4 (nat (v mod 2 ^ 32)))) else w)
                     in Some (0, write_user_bytes w (a ! 4) (le_bytes 4 4)))"

definition ipc_getsockname_handler :: "('ft, 'rb) ipc_handler" where
  "ipc_getsockname_handler X w a g =
     (case ipc_lookup X w (g ! 0) (a ! 0) of
        (None, w) \<Rightarrow> forward_with_fd1 SYS_GETSOCKNAME X w a g
      | (Some (ufd, kind, _), w) \<Rightarrow>
          if kind \<noteq> IPC_SOCKET then Some (-88, w)
          else let (d, addr) = (case registry_get (socks (ipcs w)) ufd of Some k \<Rightarrow> (s_domain k, local_addr k) | None \<Rightarrow> (0, None))
               in Some (ipc_writeback_sockaddr X w (build_ipc_sockaddr d addr) (a ! 1) (a ! 2)))"

definition ipc_getpeername_handler :: "('ft, 'rb) ipc_handler" where
  "ipc_getpeername_handler X w a g =
     (case ipc_lookup X w (g ! 0) (a ! 0) of
        (None, w) \<Rightarrow> forward_with_fd1 SYS_GETPEERNAME X w a g
      | (Some (ufd, kind, _), w) \<Rightarrow>
          if kind \<noteq> IPC_SOCKET then Some (-88, w)
          else let (d, addr, connected) = (case registry_get (socks (ipcs w)) ufd of
                     Some k \<Rightarrow> (s_domain k, remote_addr k, s_state k = Connected) | None \<Rightarrow> (0, None, False))
               in if \<not> connected then Some (-107, w)
                  else Some (ipc_writeback_sockaddr X w (build_ipc_sockaddr d addr) (a ! 1) (a ! 2)))"

end
