(* ===== verification/Ipc_Main.thy ===== *)
theory Ipc_Main
  imports Ipc_Poll Ipc_Net
begin

text \<open>
  The ipc grate as a whole (\<open>rust-grates/ipc-grate/src/main.rs\<close>): the handlers it registers, in the order of the
  source, the state it starts with, and the table of the first cage.  The macros of \<open>handlers.rs\<close> that
  only translate a descriptor and forward the call are instances of the forwarding functions.
\<close>

definition IPC_HANDLERS :: "(nat \<times> ('ft, 'rb) ipc_handler) list" where
  "IPC_HANDLERS =
     [(SYS_PIPE, ipc_pipe_handler), (SYS_PIPE2, ipc_pipe2_handler), (SYS_READ, ipc_read_handler),
      (SYS_WRITE, ipc_write_handler), (SYS_OPEN, ipc_open_handler), (SYS_OPENAT, ipc_openat_handler),
      (SYS_CLOSE, ipc_close_handler), (SYS_DUP, ipc_dup_handler), (SYS_DUP2, ipc_dup2_handler),
      (SYS_DUP3, ipc_dup3_handler), (SYS_FCNTL, ipc_fcntl_handler), (SYS_POLL, ipc_poll_handler),
      (SYS_SELECT, ipc_select_handler), (SYS_LSEEK, ipc_espipe_handler SYS_LSEEK), (SYS_IOCTL, ipc_ioctl_handler),
      (SYS_FSTAT, ipc_fstat_handler), (SYS_FSYNC, forward_with_fd1 SYS_FSYNC), (SYS_FDATASYNC, forward_with_fd1 SYS_FDATASYNC),
      (SYS_FTRUNCATE, forward_with_fd1 SYS_FTRUNCATE), (SYS_GETDENTS, forward_with_fd1 SYS_GETDENTS), (SYS_FSTATFS, forward_with_fd1 SYS_FSTATFS),
      (SYS_FCHDIR, forward_with_fd1 SYS_FCHDIR), (SYS_FCHMOD, forward_with_fd1 SYS_FCHMOD), (SYS_FLOCK, forward_with_fd1 SYS_FLOCK),
      (SYS_MKDIRAT, forward_with_dirfd_at SYS_MKDIRAT 0), (SYS_FCHOWNAT, forward_with_dirfd_at SYS_FCHOWNAT 0), (SYS_NEWFSTATAT, forward_with_dirfd_at SYS_NEWFSTATAT 0),
      (SYS_UNLINKAT, forward_with_dirfd_at SYS_UNLINKAT 0), (SYS_RENAMEAT, forward_with_two_dirfds SYS_RENAMEAT 0 2), (SYS_SYMLINKAT, forward_with_dirfd_at SYS_SYMLINKAT 1),
      (SYS_READLINKAT, forward_with_dirfd_at SYS_READLINKAT 0), (SYS_FCHMODAT, forward_with_dirfd_at SYS_FCHMODAT 0), (SYS_FACCESSAT, forward_with_dirfd_at SYS_FACCESSAT 0),
      (SYS_PREAD, ipc_espipe_handler SYS_PREAD), (SYS_PWRITE, ipc_espipe_handler SYS_PWRITE), (SYS_READV, ipc_readv_handler),
      (SYS_WRITEV, ipc_writev_handler), (SYS_PREADV, ipc_espipe_handler SYS_PREADV), (SYS_PWRITEV, ipc_espipe_handler SYS_PWRITEV),
      (SYS_SYNC_FILE_RANGE, ipc_espipe_handler SYS_SYNC_FILE_RANGE), (SYS_UTIMENSAT, forward_with_dirfd_at SYS_UTIMENSAT 0), (SYS_RENAMEAT2, forward_with_two_dirfds SYS_RENAMEAT2 0 2),
      (SYS_STATX, forward_with_dirfd_at SYS_STATX 0), (SYS_MMAP, ipc_mmap_handler), (SYS_PPOLL, ipc_ppoll_handler),
      (SYS_EPOLL_CREATE, ipc_epoll_create_handler), (SYS_EPOLL_CREATE1, ipc_epoll_create1_handler), (SYS_EPOLL_CTL, ipc_epoll_ctl_handler),
      (SYS_EPOLL_WAIT, ipc_epoll_wait_handler), (SYS_SOCKET, ipc_socket_handler), (SYS_SOCKETPAIR, ipc_socketpair_handler),
      (SYS_BIND, ipc_bind_handler), (SYS_LISTEN, ipc_listen_handler), (SYS_CONNECT, ipc_connect_handler),
      (SYS_ACCEPT, ipc_accept_handler), (SYS_ACCEPT4, ipc_accept4_handler), (SYS_SHUTDOWN, ipc_shutdown_handler),
      (SYS_SETSOCKOPT, ipc_setsockopt_handler), (SYS_GETSOCKOPT, ipc_getsockopt_handler), (SYS_GETSOCKNAME, ipc_getsockname_handler),
      (SYS_GETPEERNAME, ipc_getpeername_handler), (SYS_SENDTO, ipc_sendto_handler), (SYS_RECVFROM, ipc_recvfrom_handler),
      (SYS_SENDMSG, ipc_sendmsg_handler), (SYS_RECVMSG, ipc_recvmsg_handler), (SYS_CLONE, ipc_fork_handler),
      (SYS_EXEC, ipc_exec_handler), (SYS_EXIT, ipc_exit_handler), (SYS_EXIT_GROUP, ipc_exit_group_handler)]"

definition ipc_dispatch :: "nat \<Rightarrow> ('ft, 'rb) ipc_handler option" where
  "ipc_dispatch nr = map_of IPC_HANDLERS nr"

definition ipc_start :: "('ft, 'rb) ipc_env \<Rightarrow> 'ft \<Rightarrow> ('ft, 'rb) ipc_world" where
  "ipc_start X ft = \<lparr>fdt = ft, hist = [], ipcs = ipc_new (ge_cage (ie_g X)), pendings = []\<rparr>"

definition ipc_preexec :: "('ft, 'rb) ipc_env \<Rightarrow> ('ft, 'rb) ipc_world \<Rightarrow> int \<Rightarrow> ('ft, 'rb) ipc_world" where
  "ipc_preexec X w child =
     (let cage = as_u64 child in reserve_stdio X cage (w\<lparr>fdt := init_empty_cage (ie_fd X) (fdt w) cage\<rparr>))"

end
