(* ===== verification/Ipc_Refs.thy ===== *)
theory Ipc_Refs
  imports Ipc_Main
begin

unbundle bit_operations_syntax

text \<open>
  The reference counts of pipes.  A pipe knows how many read and write ends exist, and a reader sees
  the end of the file when no write end is left.  The counts are kept by the handlers and by the
  callbacks of the descriptor tables; this theory shows that, whatever calls are made, they are the
  numbers of descriptors in the tables.
\<close>

section \<open>Undisturbed calls\<close>

text \<open>
  The calls of other threads are steps of their own; while one call is under way they only move
  data through the pipe it sleeps on.
\<close>

fun data_step :: "peer_step \<Rightarrow> bool" where
  "data_step (PeerPop _) = True"
| "data_step (PeerPush _) = True"
| "data_step _ = False"

definition undisturbed :: "('ft, 'rb) ipc_env \<Rightarrow> bool" where
  "undisturbed X \<longleftrightarrow>
     (\<forall>h k sh. ie_tables X h k sh = sh) \<and> (\<forall>h sts. Resumed sts \<in> set (ie_naps X h) \<longrightarrow> list_all data_step sts) \<and>
     (\<forall>h. ie_waits X h = []) \<and> (\<forall>h w. ie_child X h w = w)"

lemma wait_cage_loop_quiet:
  assumes "\<And>k sh. nap k sh = sh"
  shows "wait_cage_loop F nap cage k (ft, []) = (check_cage_exists F ft cage, ft, [])"
  by (induction k) (simp_all add: install_pending_fdtable_def assms)

lemma wait_entry_loop_quiet:
  assumes "\<And>k sh. nap k sh = sh"
  shows "wait_entry_loop F nap cage fd k (ft, []) = (translate_virtual_fd F ft cage fd, ft, [])"
  by (induction k) (simp_all add: install_pending_fdtable_def assms split: option.split)

definition ipc_info :: "'ft fdtables_ops \<Rightarrow> 'ft \<Rightarrow> nat \<Rightarrow> nat \<Rightarrow> (nat \<times> nat \<times> i32) option" where
  "ipc_info F ft cage fd =
     (if \<not> check_cage_exists F ft cage then None
      else case translate_virtual_fd F ft cage fd of
          Some e \<Rightarrow> if fdkind e = IPC_PIPE \<or> fdkind e = IPC_SOCKET then Some (underfd e, fdkind e, word_of_nat (perfdinfo e)) else None
        | None \<Rightarrow> None)"

lemma quiet_lookups:
  assumes "undisturbed X" "pendings w = []"
  shows "wait_cage X w cage = (check_cage_exists (ie_fd X) (fdt w) cage, w)"
    and "wait_entry X w cage fd = (translate_virtual_fd (ie_fd X) (fdt w) cage fd, w)"
    and "ipc_lookup X w cage fd = (ipc_info (ie_fd X) (fdt w) cage fd, w)"
proof -
  have n: "\<And>k sh. ie_tables X (hist w) k sh = sh" using assms(1) unfolding undisturbed_def by blast
  show "wait_cage X w cage = (check_cage_exists (ie_fd X) (fdt w) cage, w)"
    "wait_entry X w cage fd = (translate_virtual_fd (ie_fd X) (fdt w) cage fd, w)"
    using assms(2) by (simp_all add: wait_cage_def wait_entry_def wait_for_cage_fdtable_def wait_for_fdtable_entry_def
        wait_cage_loop_quiet [OF n] wait_entry_loop_quiet [OF n])
  show "ipc_lookup X w cage fd = (ipc_info (ie_fd X) (fdt w) cage fd, w)"
    using assms(2) by (simp add: ipc_lookup_def lookup_ipc_fd_def wait_for_cage_fdtable_def wait_for_fdtable_entry_def ipc_info_def
        wait_cage_loop_quiet [OF n] wait_entry_loop_quiet [OF n] split: option.split bool.split)
qed

lemma quiet_translate:
  assumes "undisturbed X" "pendings w = []"
  shows "translate_to_underfd X w cage fd =
      (if check_cage_exists (ie_fd X) (fdt w) cage then map_option underfd (translate_virtual_fd (ie_fd X) (fdt w) cage fd) else Some fd, w)"
    and "\<exists>r. translate_dirfd X w cage fd = (r, w)"
  by (auto simp: translate_to_underfd_def translate_dirfd_def quiet_lookups [OF assms] split: bool.split option.split)

section \<open>Counting descriptors\<close>

definition hits :: "fd_entry \<Rightarrow> nat \<Rightarrow> bool \<Rightarrow> bool" where
  "hits e pid rd \<longleftrightarrow> fdkind e = IPC_PIPE \<and> underfd e = pid \<and> (is_read_end (word_of_nat (perfdinfo e)) \<longleftrightarrow> rd)"

definition pipe_ends :: "'ft fdtables_ops \<Rightarrow> 'ft \<Rightarrow> nat \<Rightarrow> bool \<Rightarrow> (nat \<times> nat) set" where
  "pipe_ends F ft pid rd = {(c, fd). \<exists>e. translate_virtual_fd F ft c fd = Some e \<and> hits e pid rd}"

definition open_fds :: "'ft fdtables_ops \<Rightarrow> 'ft \<Rightarrow> (nat \<times> nat) set" where
  "open_fds F ft = {(c, fd). translate_virtual_fd F ft c fd \<noteq> None}"

definition end_count :: "'ft fdtables_ops \<Rightarrow> 'ft \<Rightarrow> nat \<Rightarrow> bool \<Rightarrow> nat" where
  "end_count F ft pid rd = card (pipe_ends F ft pid rd)"

lemma pipe_ends_sub: "pipe_ends F ft pid rd \<subseteq> open_fds F ft"
  by (auto simp: pipe_ends_def open_fds_def)

lemma finite_pipe_ends: "finite (open_fds F ft) \<Longrightarrow> finite (pipe_ends F ft pid rd)"
  by (rule finite_subset [OF pipe_ends_sub])

lemma end_count_le: "finite (open_fds F ft) \<Longrightarrow> end_count F ft pid rd \<le> card (open_fds F ft)"
  unfolding end_count_def by (rule card_mono [OF _ pipe_ends_sub])

lemma end_count_pos:
  assumes "translate_virtual_fd F ft c fd = Some e" "hits e pid rd" "finite (open_fds F ft)"
  shows "0 < end_count F ft pid rd"
proof -
  have "(c, fd) \<in> pipe_ends F ft pid rd" using assms(1,2) by (auto simp: pipe_ends_def)
  then show ?thesis using finite_pipe_ends [OF assms(3)] unfolding end_count_def by (subst card_gt_0_iff) blast
qed

lemma open_fds_maps:
  assumes "fd_maps F ft c fd x ft'"
  shows "open_fds F ft' = (if x = None then open_fds F ft - {(c, fd)} else insert (c, fd) (open_fds F ft))"
  using fd_mapsD [OF assms] by (auto simp: open_fds_def)

lemma pipe_ends_maps:
  assumes "fd_maps F ft c fd x ft'"
  shows "pipe_ends F ft' pid rd =
    (if (\<exists>e. x = Some e \<and> hits e pid rd) then insert (c, fd) (pipe_ends F ft pid rd) else pipe_ends F ft pid rd - {(c, fd)})"
  using fd_mapsD [OF assms] by (auto simp: pipe_ends_def)

definition opt_hits :: "fd_entry option \<Rightarrow> nat \<Rightarrow> bool \<Rightarrow> nat" where
  "opt_hits x pid rd = (case x of Some e \<Rightarrow> of_bool (hits e pid rd) | None \<Rightarrow> 0)"

lemma end_count_maps:
  assumes "fd_maps F ft c fd x ft'" "finite (open_fds F ft)"
  shows "end_count F ft' pid rd = end_count F ft pid rd - opt_hits (translate_virtual_fd F ft c fd) pid rd + opt_hits x pid rd"
    and "opt_hits (translate_virtual_fd F ft c fd) pid rd \<le> end_count F ft pid rd"
proof -
  let ?S = "pipe_ends F ft pid rd"
  have fin: "finite ?S" using assms(2) by (rule finite_pipe_ends)
  have mem: "(c, fd) \<in> ?S \<longleftrightarrow> opt_hits (translate_virtual_fd F ft c fd) pid rd = 1"
    by (auto simp: pipe_ends_def opt_hits_def split: option.split)
  have bound: "opt_hits y pid rd \<le> 1" for y by (simp add: opt_hits_def split: option.split)
  have pos: "(c, fd) \<in> ?S \<Longrightarrow> 0 < card ?S" using fin by (auto simp: card_gt_0_iff)
  show "opt_hits (translate_virtual_fd F ft c fd) pid rd \<le> end_count F ft pid rd"
    using mem pos bound [of "translate_virtual_fd F ft c fd"] unfolding end_count_def by linarith
  have x: "(\<exists>e. x = Some e \<and> hits e pid rd) \<longleftrightarrow> opt_hits x pid rd = 1" by (auto simp: opt_hits_def split: option.split)
  show "end_count F ft' pid rd = end_count F ft pid rd - opt_hits (translate_virtual_fd F ft c fd) pid rd + opt_hits x pid rd"
    unfolding end_count_def pipe_ends_maps [OF assms(1)] x
    using mem pos fin bound [of "translate_virtual_fd F ft c fd"] bound [of x]
    by (cases "(c, fd) \<in> ?S"; cases "opt_hits x pid rd = 1") (auto simp: card_insert_if le_Suc_eq insert_absorb)
qed

section \<open>The state of pipes and sockets\<close>

text \<open>The pipes the socket registry refers to.\<close>

definition socket_pipes :: "socket_registry \<Rightarrow> nat set" where
  "socket_pipes reg =
     {i. \<exists>sid k. sockets reg sid = Some k \<and> (sendpipe k = Some i \<or> recvpipe k = Some i)} \<union>
     {i. \<exists>addr q c. pending_connections reg addr = Some q \<and> c \<in> set q \<and> (i = pipe_to_listener c \<or> i = pipe_to_connector c)}"

text \<open>Pipes have different indices, and no socket uses the pipe of a pipe descriptor.\<close>

definition separate :: "'rb ipc_state \<Rightarrow> bool" where
  "separate s \<longleftrightarrow>
     (\<forall>pid i. pipes s pid = Some i \<longrightarrow> i < length (store s) \<and> pid < next_pipe_id s \<and> i \<notin> socket_pipes (socks s)) \<and>
     (\<forall>pid pid' i. pipes s pid = Some i \<longrightarrow> pipes s pid' = Some i \<longrightarrow> pid = pid') \<and>
     (\<forall>i \<in> socket_pipes (socks s). i < length (store s))"

lemma separateD:
  assumes "separate s"
  shows "pipes s pid = Some i \<Longrightarrow> i < length (store s)" "pipes s pid = Some i \<Longrightarrow> pid < next_pipe_id s"
    "pipes s pid = Some i \<Longrightarrow> i \<notin> socket_pipes (socks s)" "pipes s pid = Some i \<Longrightarrow> pipes s pid' = Some i \<Longrightarrow> pid = pid'"
    "i \<in> socket_pipes (socks s) \<Longrightarrow> i < length (store s)"
  using assms unfolding separate_def by blast+

text \<open>The counts a pipe keeps are the given numbers of read and write ends, for pipes that have an end.\<close>

definition tracks :: "(nat \<Rightarrow> bool \<Rightarrow> nat) \<Rightarrow> 'rb ipc_state \<Rightarrow> bool" where
  "tracks n s \<longleftrightarrow>
     (\<forall>pid. 0 < n pid True + n pid False \<longrightarrow>
        (\<exists>i. pipes s pid = Some i \<and> read_refs (store s ! i) = of_nat (n pid True) \<and>
             write_refs (store s ! i) = of_nat (n pid False) \<and> (p_eof (store s ! i) \<longleftrightarrow> n pid False = 0)))"

lemma tracksE:
  assumes "tracks n s" "0 < n pid True + n pid False"
  obtains i where "pipes s pid = Some i" "read_refs (store s ! i) = of_nat (n pid True)"
    "write_refs (store s ! i) = of_nat (n pid False)" "p_eof (store s ! i) \<longleftrightarrow> n pid False = 0"
  using that assms(1) [unfolded tracks_def, rule_format, OF assms(2)] by (elim exE conjE)

lemma tracksD:
  assumes "tracks n s" "0 < n pid rd"
  obtains i where "pipes s pid = Some i" "read_refs (store s ! i) = of_nat (n pid True)"
    "write_refs (store s ! i) = of_nat (n pid False)" "p_eof (store s ! i) \<longleftrightarrow> n pid False = 0"
proof (rule tracksE [OF assms(1), of pid])
  show "0 < n pid True + n pid False" using assms(2) by (cases rd) auto
qed (rule that)

lemma tracks_cong: "(\<And>pid rd. n pid rd = n' pid rd) \<Longrightarrow> tracks n s \<longleftrightarrow> tracks n' s"
  by (simp add: tracks_def)

section \<open>Changing one pipe\<close>

lemma pipe_mod_simps [simp]:
  "pipes (pipe_mod f i s) = pipes s" "socks (pipe_mod f i s) = socks s" "next_pipe_id (pipe_mod f i s) = next_pipe_id s"
  "length (store (pipe_mod f i s)) = length (store s)" "epoll_targets (pipe_mod f i s) = epoll_targets s"
  "pending_inet (pipe_mod f i s) = pending_inet s" "grate_cage_id (pipe_mod f i s) = grate_cage_id s"
  by (simp_all add: pipe_mod_def)

lemma pipe_mod_nth: "j < length (store s) \<Longrightarrow> store (pipe_mod f i s) ! j = (if i = j then f (store s ! j) else store s ! j)"
  by (simp add: pipe_mod_def nth_list_update)

lemma separate_cong:
  assumes "pipes s' = pipes s" "socket_pipes (socks s') \<subseteq> socket_pipes (socks s)" "next_pipe_id s' = next_pipe_id s"
    "length (store s') = length (store s)" "separate s"
  shows "separate s'"
  using assms unfolding separate_def by (metis subsetD)

lemma separate_pipe_mod [simp]: "separate s \<Longrightarrow> separate (pipe_mod f i s)"
  by (rule separate_cong) auto

text \<open>A change of a pipe that keeps the counts, or of one no descriptor names.\<close>

lemma tracks_same:
  assumes "tracks n s" "pipes s' = pipes s"
    "\<And>pid i. pipes s pid = Some i \<Longrightarrow> read_refs (store s' ! i) = read_refs (store s ! i) \<and>
       write_refs (store s' ! i) = write_refs (store s ! i) \<and> (p_eof (store s' ! i) \<longleftrightarrow> p_eof (store s ! i))"
  shows "tracks n s'"
  using assms unfolding tracks_def by metis

lemma tracks_foreign:
  assumes "separate s" "tracks n s" "i \<in> socket_pipes (socks s)"
  shows "tracks n (pipe_mod f i s)"
proof (rule tracks_same [OF assms(2)])
  fix pid j assume "pipes s pid = Some j"
  then show "read_refs (store (pipe_mod f i s) ! j) = read_refs (store s ! j) \<and>
      write_refs (store (pipe_mod f i s) ! j) = write_refs (store s ! j) \<and> (p_eof (store (pipe_mod f i s) ! j) \<longleftrightarrow> p_eof (store s ! j))"
    using separateD [OF assms(1)] assms(3) by (metis pipe_mod_nth)
qed simp

section \<open>Closing and duplicating\<close>

definition lowered :: "(nat \<Rightarrow> bool \<Rightarrow> nat) \<Rightarrow> fd_entry \<Rightarrow> nat \<Rightarrow> bool \<Rightarrow> nat" where
  "lowered n e pid rd = n pid rd - of_bool (hits e pid rd)"

definition raised :: "(nat \<Rightarrow> bool \<Rightarrow> nat) \<Rightarrow> fd_entry \<Rightarrow> nat \<Rightarrow> bool \<Rightarrow> nat" where
  "raised n e pid rd = n pid rd + of_bool (hits e pid rd)"

text \<open>The parts of the state that the counts do not change.\<close>

definition same_shape :: "'rb ipc_state \<Rightarrow> 'rb ipc_state \<Rightarrow> bool" where
  "same_shape s s' \<longleftrightarrow>
     pipes s' = pipes s \<and> socks s' = socks s \<and> next_pipe_id s' = next_pipe_id s \<and> length (store s') = length (store s)"

lemma same_shape_refl [simp]: "same_shape s s"
  by (simp add: same_shape_def)

lemma same_shape_trans: "same_shape s s' \<Longrightarrow> same_shape s' s'' \<Longrightarrow> same_shape s s''"
  by (simp add: same_shape_def)

lemma same_shape_mod [simp]: "same_shape s (pipe_mod f i s)" "same_shape s (opt_pipe_mod f x s)"
  by (simp_all add: same_shape_def opt_pipe_mod_def split: option.split)

lemma same_shape_opt [simp]: "same_shape s s' \<Longrightarrow> same_shape s (opt_pipe_mod f x s')"
  using same_shape_trans same_shape_mod(2) by blast

lemma separate_shape: "same_shape s s' \<Longrightarrow> separate s \<Longrightarrow> separate s'"
  by (rule separate_cong) (auto simp: same_shape_def)

lemma opt_mod_foreign:
  assumes "separate s" "tracks n s" "\<And>i. x = Some i \<Longrightarrow> i \<in> socket_pipes (socks s)"
  shows "tracks n (opt_pipe_mod f x s)"
  using assms by (cases x) (simp_all add: opt_pipe_mod_def tracks_foreign)

lemma socket_mods:
  assumes "separate s" "tracks n s" "sockets (socks s) sid = Some k"
  shows "tracks n (opt_pipe_mod f (recvpipe k) (opt_pipe_mod g (sendpipe k) s))"
    and "same_shape s (opt_pipe_mod f (recvpipe k) (opt_pipe_mod g (sendpipe k) s))"
proof -
  have mem: "\<And>i. sendpipe k = Some i \<Longrightarrow> i \<in> socket_pipes (socks s)" "\<And>i. recvpipe k = Some i \<Longrightarrow> i \<in> socket_pipes (socks s)"
    using assms(3) by (auto simp: socket_pipes_def)
  let ?s = "opt_pipe_mod g (sendpipe k) s"
  have sh: "same_shape s ?s" by simp
  have t: "tracks n ?s" by (rule opt_mod_foreign [OF assms(1,2) mem(1)])
  have "separate ?s" "socks ?s = socks s" using separate_shape [OF sh assms(1)] sh by (auto simp: same_shape_def)
  then show "tracks n (opt_pipe_mod f (recvpipe k) ?s)" using mem(2) by (intro opt_mod_foreign [OF _ t]) simp_all
  show "same_shape s (opt_pipe_mod f (recvpipe k) ?s)" by simp
qed

text \<open>The change of one count at the pipe of an entry.\<close>

lemma tracks_mod:
  assumes sep: "separate s" and t: "tracks n s" and e: "fdkind e = IPC_PIPE" and pos: "0 < n (underfd e) (is_read_end (word_of_nat (perfdinfo e)))"
    and g: "\<And>p. read_refs p = of_nat (n (underfd e) True) \<Longrightarrow> write_refs p = of_nat (n (underfd e) False) \<Longrightarrow>
      (p_eof p \<longleftrightarrow> n (underfd e) False = 0) \<Longrightarrow> 0 < m (underfd e) True + m (underfd e) False \<Longrightarrow>
      read_refs (f p) = of_nat (m (underfd e) True) \<and> write_refs (f p) = of_nat (m (underfd e) False) \<and> (p_eof (f p) \<longleftrightarrow> m (underfd e) False = 0)"
    and o: "\<And>pid rd. pid \<noteq> underfd e \<Longrightarrow> m pid rd = n pid rd"
  shows "tracks m (opt_pipe_mod f (get_pipe s (underfd e)) s)"
proof -
  from tracksD [OF t pos] obtain i where i: "pipes s (underfd e) = Some i" "read_refs (store s ! i) = of_nat (n (underfd e) True)"
    "write_refs (store s ! i) = of_nat (n (underfd e) False)" "p_eof (store s ! i) \<longleftrightarrow> n (underfd e) False = 0" .
  have il: "i < length (store s)" using separateD(1) [OF sep i(1)] .
  show ?thesis unfolding tracks_def
  proof (intro allI impI)
    fix pid assume m: "0 < m pid True + m pid False"
    show "\<exists>j. pipes (opt_pipe_mod f (get_pipe s (underfd e)) s) pid = Some j \<and>
        read_refs (store (opt_pipe_mod f (get_pipe s (underfd e)) s) ! j) = of_nat (m pid True) \<and>
        write_refs (store (opt_pipe_mod f (get_pipe s (underfd e)) s) ! j) = of_nat (m pid False) \<and>
        (p_eof (store (opt_pipe_mod f (get_pipe s (underfd e)) s) ! j) \<longleftrightarrow> m pid False = 0)"
    proof (cases "pid = underfd e")
      case True
      then show ?thesis using g [OF i(2-4)] m i(1) il by (simp add: opt_pipe_mod_def get_pipe_def pipe_mod_nth)
    next
      case False
      then have "0 < n pid True + n pid False" using m o by simp
      from tracksE [OF t this] obtain j where j: "pipes s pid = Some j" "read_refs (store s ! j) = of_nat (n pid True)"
        "write_refs (store s ! j) = of_nat (n pid False)" "p_eof (store s ! j) \<longleftrightarrow> n pid False = 0" .
      have "j < length (store s)" "j \<noteq> i" using separateD [OF sep] j(1) i(1) False by blast+
      then show ?thesis using j False o i(1) by (simp add: opt_pipe_mod_def get_pipe_def pipe_mod_nth)
    qed
  qed
qed

lemma of_nat_pred: "0 < n \<Longrightarrow> (of_nat n :: u32) - 1 = of_nat (n - 1)"
  by (simp add: of_nat_diff)

lemma of_nat_one_iff: "n < 2 ^ 32 \<Longrightarrow> (of_nat n :: u32) = 1 \<longleftrightarrow> n = 1"
proof
  assume "n < 2 ^ 32" "(of_nat n :: u32) = 1"
  then have "unat (of_nat n :: u32) = unat (1 :: u32)" by simp
  then show "n = 1" using \<open>n < 2 ^ 32\<close> by (simp add: unat_of_nat take_bit_nat_eq_self)
qed simp

lemma decr_counts:
  assumes "read_refs p = of_nat a" "write_refs p = of_nat b" "p_eof p \<longleftrightarrow> b = 0" "0 < (if rd then a else b)" "b < 2 ^ 32"
    "a' = a - of_bool rd" "b' = b - of_bool (\<not> rd)"
  shows "read_refs ((if rd then decr_read_ref else decr_write_ref) p) = of_nat a' \<and>
    write_refs ((if rd then decr_read_ref else decr_write_ref) p) = of_nat b' \<and>
    (p_eof ((if rd then decr_read_ref else decr_write_ref) p) \<longleftrightarrow> b' = 0)"
proof (cases rd)
  case True
  have "read_refs p - 1 = of_nat a'" using True assms(1,4,6) of_nat_pred [of a] by simp
  then show ?thesis using True assms(2,3,7) by (simp add: decr_read_ref_def)
next
  case False
  have "write_refs p - 1 = of_nat b'" using False assms(2,4,7) of_nat_pred [of b] by simp
  moreover have "write_refs p = 1 \<longleftrightarrow> b' = 0" using False assms(2,4,5,7) of_nat_one_iff [of b] by auto
  moreover have "\<not> p_eof p" using False assms(3,4) by simp
  ultimately show ?thesis using False assms(1,6) by (simp add: decr_write_ref_def Let_def)
qed

lemma close_hook_tracks:
  assumes "separate s" "tracks n s" "\<And>pid rd. hits e pid rd \<Longrightarrow> 0 < n pid rd" "\<And>pid rd. n pid rd < 2 ^ 32"
  shows "tracks (lowered n e) (close_hook e s)" and "same_shape s (close_hook e s)"
proof -
  show "same_shape s (close_hook e s)"
    by (simp add: close_hook_def ipc_pipe_close_handler_def ipc_socket_close_handler_def ipc_epoll_close_handler_def split: option.split)
  show "tracks (lowered n e) (close_hook e s)"
  proof (cases "fdkind e = IPC_PIPE")
    case True
    let ?rd = "is_read_end (word_of_nat (perfdinfo e))"
    have pos: "0 < n (underfd e) ?rd" using assms(3) True by (simp add: hits_def)
    have pos': "0 < (if ?rd then n (underfd e) True else n (underfd e) False)" using pos by (cases ?rd) simp_all
    have h: "hits e pid rd \<longleftrightarrow> pid = underfd e \<and> rd = ?rd" for pid rd using True by (auto simp: hits_def)
    have "close_hook e s = opt_pipe_mod (if ?rd then decr_read_ref else decr_write_ref) (get_pipe s (underfd e)) s"
      using True by (simp add: close_hook_def ipc_pipe_close_handler_def)
    moreover have "tracks (lowered n e) (opt_pipe_mod (if ?rd then decr_read_ref else decr_write_ref) (get_pipe s (underfd e)) s)"
    proof (rule tracks_mod [OF assms(1,2) True pos])
      fix p :: "'a pipe"
      assume p: "read_refs p = of_nat (n (underfd e) True)" "write_refs p = of_nat (n (underfd e) False)" "p_eof p \<longleftrightarrow> n (underfd e) False = 0"
      show "read_refs ((if ?rd then decr_read_ref else decr_write_ref) p) = of_nat (lowered n e (underfd e) True) \<and>
          write_refs ((if ?rd then decr_read_ref else decr_write_ref) p) = of_nat (lowered n e (underfd e) False) \<and>
          (p_eof ((if ?rd then decr_read_ref else decr_write_ref) p) \<longleftrightarrow> lowered n e (underfd e) False = 0)"
        by (rule decr_counts [OF p pos' assms(4)]) (simp_all add: lowered_def h)
    qed (simp add: lowered_def h)
    ultimately show ?thesis by simp
  next
    case False
    then have "lowered n e = n" by (auto simp: lowered_def hits_def fun_eq_iff)
    then show ?thesis using False assms(1,2) socket_mods(1) [OF assms(1,2)]
      by (auto simp: close_hook_def ipc_socket_close_handler_def ipc_epoll_close_handler_def registry_get_def split: option.split)
  qed
qed

text \<open>The entry of a duplicate has the kind, the pipe and the access mode of the original.\<close>

lemma add_refs_tracks:
  assumes "separate s" "tracks n s" "hits e (underfd e) (is_read_end flags) \<Longrightarrow> 0 < n (underfd e) (is_read_end flags)"
    "fdkind e = IPC_PIPE \<Longrightarrow> is_read_end (word_of_nat (perfdinfo e)) = is_read_end flags"
  shows "tracks (raised n e) (add_refs (fdkind e) (underfd e) flags s)" and "same_shape s (add_refs (fdkind e) (underfd e) flags s)"
proof -
  show "same_shape s (add_refs (fdkind e) (underfd e) flags s)"
    by (simp add: add_refs_def split: option.split)
  show "tracks (raised n e) (add_refs (fdkind e) (underfd e) flags s)"
  proof (cases "fdkind e = IPC_PIPE")
    case True
    let ?rd = "is_read_end (word_of_nat (perfdinfo e))"
    have rd: "is_read_end flags = ?rd" using assms(4) [OF True] by simp
    have h: "hits e pid rd \<longleftrightarrow> pid = underfd e \<and> rd = ?rd" for pid rd using True by (auto simp: hits_def)
    have pos: "0 < n (underfd e) ?rd" using assms(3) rd by (simp add: h)
    have "add_refs (fdkind e) (underfd e) flags s = opt_pipe_mod (if ?rd then incr_read_ref else incr_write_ref) (get_pipe s (underfd e)) s"
      using True rd by (simp add: add_refs_def)
    moreover have "tracks (raised n e) (opt_pipe_mod (if ?rd then incr_read_ref else incr_write_ref) (get_pipe s (underfd e)) s)"
      by (rule tracks_mod [OF assms(1,2) True pos])
        (use pos in \<open>auto simp: raised_def h incr_read_ref_def incr_write_ref_def add.commute\<close>)
    ultimately show ?thesis by simp
  next
    case False
    then have "raised n e = n" by (auto simp: raised_def hits_def fun_eq_iff)
    then show ?thesis using False assms(1,2) socket_mods(1) [OF assms(1,2)]
      by (auto simp: add_refs_def registry_get_def split: option.split)
  qed
qed

section \<open>The invariant and the tables\<close>

definition refs_inv :: "('ft, 'rb) ipc_env \<Rightarrow> ('ft, 'rb) ipc_world \<Rightarrow> bool" where
  "refs_inv X w \<longleftrightarrow>
     separate (ipcs w) \<and> tracks (end_count (ie_fd X) (fdt w)) (ipcs w) \<and> finite (open_fds (ie_fd X) (fdt w)) \<and> pendings w = []"

lemma refs_invD:
  assumes "refs_inv X w"
  shows "separate (ipcs w)" "tracks (end_count (ie_fd X) (fdt w)) (ipcs w)" "finite (open_fds (ie_fd X) (fdt w))" "pendings w = []"
  using assms by (simp_all add: refs_inv_def)

text \<open>Fewer descriptors than the counters can hold, also after a fork.\<close>

definition few_fds :: "('ft, 'rb) ipc_env \<Rightarrow> ('ft, 'rb) ipc_world \<Rightarrow> bool" where
  "few_fds X w \<longleftrightarrow> card (open_fds (ie_fd X) (fdt w)) < 2 ^ 31"

lemma count_small2: "refs_inv X w \<Longrightarrow> few_fds X w \<Longrightarrow> end_count (ie_fd X) (fdt w) pid rd < 2 ^ 31"
  using end_count_le [of "ie_fd X" "fdt w" pid rd] by (simp add: refs_inv_def few_fds_def)

lemma count_small: "refs_inv X w \<Longrightarrow> few_fds X w \<Longrightarrow> end_count (ie_fd X) (fdt w) pid rd < 2 ^ 32"
  using count_small2 [of X w pid rd] by simp

lemma refs_inv_cong:
  "refs_inv X w \<Longrightarrow> fdt w' = fdt w \<Longrightarrow> ipcs w' = ipcs w \<Longrightarrow> pendings w' = pendings w \<Longrightarrow> refs_inv X w'"
  by (simp add: refs_inv_def)

lemma refs_inv_update:
  assumes "refs_inv X w" "fd_maps (ie_fd X) (fdt w) c fd x ft" "separate s" "pendings w' = []" "fdt w' = ft" "ipcs w' = s"
    "tracks (\<lambda>pid rd. end_count (ie_fd X) (fdt w) pid rd - opt_hits (translate_virtual_fd (ie_fd X) (fdt w) c fd) pid rd + opt_hits x pid rd) s"
  shows "refs_inv X w'"
proof -
  note f = refs_invD(3) [OF assms(1)]
  have "finite (open_fds (ie_fd X) ft)" using f by (simp add: open_fds_maps [OF assms(2)])
  moreover have "tracks (end_count (ie_fd X) ft) s"
    using assms(7) by (subst tracks_cong [OF end_count_maps(1) [OF assms(2) f]])
  ultimately show ?thesis using assms(3-6) by (simp add: refs_inv_def)
qed

text \<open>The callback for the entry a descriptor had.\<close>

definition drop_entry :: "fd_entry option \<Rightarrow> 'rb ipc_state \<Rightarrow> 'rb ipc_state" where
  "drop_entry x s = (case x of Some e \<Rightarrow> close_hook e s | None \<Rightarrow> s)"

lemma drop_entry_tracks:
  assumes "refs_inv X w" "few_fds X w"
  shows "tracks (\<lambda>pid rd. end_count (ie_fd X) (fdt w) pid rd - opt_hits (translate_virtual_fd (ie_fd X) (fdt w) c fd) pid rd)
      (drop_entry (translate_virtual_fd (ie_fd X) (fdt w) c fd) (ipcs w))"
    and "same_shape (ipcs w) (drop_entry (translate_virtual_fd (ie_fd X) (fdt w) c fd) (ipcs w))"
proof -
  note i = refs_invD [OF assms(1)]
  let ?n = "end_count (ie_fd X) (fdt w)" and ?x = "translate_virtual_fd (ie_fd X) (fdt w) c fd"
  have "tracks (\<lambda>pid rd. ?n pid rd - opt_hits ?x pid rd) (drop_entry ?x (ipcs w)) \<and> same_shape (ipcs w) (drop_entry ?x (ipcs w))"
  proof (cases ?x)
    case None
    then show ?thesis using i(2) by (simp add: drop_entry_def opt_hits_def)
  next
    case (Some e)
    have "0 < ?n pid rd" if "hits e pid rd" for pid rd using end_count_pos [OF Some that i(3)] .
    note t = close_hook_tracks [OF i(1,2), of e, OF this count_small [OF assms]]
    have "lowered ?n e = (\<lambda>pid rd. ?n pid rd - opt_hits ?x pid rd)" using Some by (simp add: lowered_def opt_hits_def fun_eq_iff)
    then show ?thesis using t Some by (simp add: drop_entry_def)
  qed
  then show "tracks (\<lambda>pid rd. ?n pid rd - opt_hits ?x pid rd) (drop_entry ?x (ipcs w))" "same_shape (ipcs w) (drop_entry ?x (ipcs w))"
    by simp_all
qed

text \<open>Entries that are no pipes do not count.\<close>

lemma opt_hits_other: "kind \<noteq> IPC_PIPE \<Longrightarrow> opt_hits (Some (mk_entry kind u ce p)) pid rd = 0"
  by (simp add: opt_hits_def hits_def)

lemma close_fd_refs:
  assumes "fdtables_ok (ie_fd X)" "refs_inv X w" "few_fds X w"
  shows "refs_inv X (ipc_close_fd X w cage fd)"
proof (cases "close_virtualfd (ie_fd X) (fdt w) cage fd")
  case None
  then show ?thesis using assms(2) by (simp add: ipc_close_fd_def)
next
  case (Some ft)
  note d = drop_entry_tracks [OF assms(2,3), of cage fd]
  show ?thesis
    by (rule refs_inv_update [OF assms(2) fd_close_law [OF assms(1) Some] separate_shape [OF d(2) refs_invD(1) [OF assms(2)]]])
      (use Some d(1) refs_invD(4) [OF assms(2)] in \<open>simp_all add: ipc_close_fd_def drop_entry_def opt_hits_def\<close>)
qed

lemma set_fd_refs:
  assumes "fdtables_ok (ie_fd X)" "refs_inv X w" "few_fds X w" "kind \<noteq> IPC_PIPE"
  shows "refs_inv X (ipc_set_fd X w cage fd kind u ce p)"
proof (cases "get_specific_virtual_fd (ie_fd X) (fdt w) cage fd kind u ce p")
  case None
  then show ?thesis using assms(2) by (simp add: ipc_set_fd_def)
next
  case (Some ft)
  note d = drop_entry_tracks [OF assms(2,3), of cage fd]
  show ?thesis
    by (rule refs_inv_update [OF assms(2) fd_specific_law [OF assms(1) Some] separate_shape [OF d(2) refs_invD(1) [OF assms(2)]]])
      (use Some d(1) refs_invD(4) [OF assms(2)] in \<open>simp_all add: ipc_set_fd_def drop_entry_def opt_hits_other assms(4)\<close>)
qed

text \<open>A new descriptor that is no pipe.\<close>

lemma new_fd_refs:
  assumes "refs_inv X w" "translate_virtual_fd (ie_fd X) (fdt w) c fd = None"
    "fd_maps (ie_fd X) (fdt w) c fd (Some (mk_entry kind u ce p)) ft" "kind \<noteq> IPC_PIPE"
  shows "refs_inv X (w\<lparr>fdt := ft\<rparr>)"
proof (rule refs_inv_update [OF assms(1,3) refs_invD(1) [OF assms(1)]])
  show "tracks (\<lambda>pid rd. end_count (ie_fd X) (fdt w) pid rd - opt_hits (translate_virtual_fd (ie_fd X) (fdt w) c fd) pid rd +
      opt_hits (Some (mk_entry kind u ce p)) pid rd) (ipcs w)"
    using refs_invD(2) [OF assms(1)] assms(2) by (simp add: opt_hits_other [OF assms(4)]) (simp add: opt_hits_def)
qed (use refs_invD(4) [OF assms(1)] in simp_all)

text \<open>The entry of a duplicate.\<close>

lemma dup_entry:
  assumes "ipc_info F ft c fd = Some (u, kind, flags)"
  obtains e where "translate_virtual_fd F ft c fd = Some e" "fdkind e = kind" "underfd e = u" "word_of_nat (perfdinfo e) = flags"
  using assms by (auto simp: ipc_info_def split: if_splits option.splits)

lemma dup_fd_refs:
  assumes "refs_inv X w" "ipc_info (ie_fd X) (fdt w) c fd = Some (u, kind, flags)"
    "translate_virtual_fd (ie_fd X) (fdt w) c new = None"
    "fd_maps (ie_fd X) (fdt w) c new (Some (mk_entry kind u ce (as_u64 (sint flags)))) ft"
  shows "refs_inv X (w\<lparr>fdt := ft, ipcs := add_refs kind u flags (ipcs w)\<rparr>)"
proof -
  note i = refs_invD [OF assms(1)]
  let ?n = "end_count (ie_fd X) (fdt w)" and ?e = "mk_entry kind u ce (as_u64 (sint flags))"
  obtain e where e: "translate_virtual_fd (ie_fd X) (fdt w) c fd = Some e" "fdkind e = kind" "underfd e = u" "word_of_nat (perfdinfo e) = flags"
    using dup_entry [OF assms(2)] .
  have h: "hits ?e pid rd \<longleftrightarrow> hits e pid rd" for pid rd using e by (simp add: hits_def i32_u64_roundtrip)
  have pos: "0 < ?n pid rd" if "hits e pid rd" for pid rd using end_count_pos [OF e(1) that i(3)] .
  have t: "tracks (raised ?n ?e) (add_refs kind u flags (ipcs w))" "same_shape (ipcs w) (add_refs kind u flags (ipcs w))"
    using add_refs_tracks [OF i(1,2), of ?e flags] pos h by (simp_all add: i32_u64_roundtrip)
  show ?thesis
  proof (rule refs_inv_update [OF assms(1,4) separate_shape [OF t(2) i(1)]])
    show "tracks (\<lambda>pid rd. ?n pid rd - opt_hits (translate_virtual_fd (ie_fd X) (fdt w) c new) pid rd + opt_hits (Some ?e) pid rd)
        (add_refs kind u flags (ipcs w))"
      using t(1) assms(3) by (simp add: opt_hits_def raised_def [abs_def])
  qed (use i(4) in simp_all)
qed

text \<open>\<open>dup2\<close>: the old entry of the target goes, a duplicate of another descriptor comes.\<close>

lemma dup2_fd_refs:
  assumes "fdtables_ok (ie_fd X)" "refs_inv X w" "few_fds X w" "ipc_info (ie_fd X) (fdt w) c fd = Some (u, kind, flags)" "new \<noteq> fd"
    "get_specific_virtual_fd (ie_fd X) (fdt w) c new kind u False (as_u64 (sint flags)) = Some ft"
    "w' = ipc_set_fd X w c new kind u False (as_u64 (sint flags))"
  shows "refs_inv X (w'\<lparr>ipcs := add_refs kind u flags (ipcs w')\<rparr>)"
proof -
  note i = refs_invD [OF assms(2)] and d = drop_entry_tracks [OF assms(2,3), of c new]
  let ?x = "translate_virtual_fd (ie_fd X) (fdt w) c new" and ?e = "mk_entry kind u False (as_u64 (sint flags))"
  let ?s = "drop_entry ?x (ipcs w)" and ?n = "\<lambda>pid rd. end_count (ie_fd X) (fdt w) pid rd - opt_hits ?x pid rd"
  have w': "fdt w' = ft" "ipcs w' = ?s" "pendings w' = []" using assms(6,7) i(4) by (simp_all add: ipc_set_fd_def drop_entry_def)
  obtain e where e: "translate_virtual_fd (ie_fd X) (fdt w) c fd = Some e" "fdkind e = kind" "underfd e = u" "word_of_nat (perfdinfo e) = flags"
    using dup_entry [OF assms(4)] .
  have h: "hits ?e pid rd \<longleftrightarrow> hits e pid rd" for pid rd using e by (simp add: hits_def i32_u64_roundtrip)
  have pos: "0 < ?n pid rd" if "hits e pid rd" for pid rd
  proof -
    let ?S = "pipe_ends (ie_fd X) (fdt w) pid rd"
    have m: "(c, fd) \<in> ?S - {(c, new)}" using e(1) that assms(5) by (auto simp: pipe_ends_def)
    have "finite ?S" using i(3) by (rule finite_pipe_ends)
    then have "0 < card (?S - {(c, new)})" using m by (subst card_gt_0_iff) blast
    moreover have "opt_hits ?x pid rd = of_bool ((c, new) \<in> ?S)" by (auto simp: opt_hits_def pipe_ends_def split: option.split)
    ultimately show ?thesis using \<open>finite ?S\<close> by (cases "(c, new) \<in> ?S") (simp_all add: end_count_def)
  qed
  have sep: "separate ?s" using separate_shape [OF d(2) i(1)] .
  have t: "tracks (raised ?n ?e) (add_refs kind u flags ?s)" "same_shape ?s (add_refs kind u flags ?s)"
    using add_refs_tracks [OF sep d(1), of ?e flags] pos h by (simp_all add: i32_u64_roundtrip)
  show ?thesis
  proof (rule refs_inv_update [OF assms(2) fd_specific_law [OF assms(1,6)] separate_shape [OF t(2) sep]])
    show "tracks (\<lambda>pid rd. end_count (ie_fd X) (fdt w) pid rd - opt_hits ?x pid rd + opt_hits (Some ?e) pid rd) (add_refs kind u flags ?s)"
      using t(1) by (simp add: opt_hits_def raised_def [abs_def])
  qed (use w' in simp_all)
qed

text \<open>A change of an entry that keeps what it stands for.\<close>

lemma same_hits_refs:
  assumes "refs_inv X w" "translate_virtual_fd (ie_fd X) (fdt w) c fd = Some e" "fd_maps (ie_fd X) (fdt w) c fd (Some e') ft"
    "\<And>pid rd. hits e' pid rd \<longleftrightarrow> hits e pid rd"
  shows "refs_inv X (w\<lparr>fdt := ft\<rparr>)"
proof (rule refs_inv_update [OF assms(1,3) refs_invD(1) [OF assms(1)]])
  have le: "of_bool (hits e pid rd) \<le> end_count (ie_fd X) (fdt w) pid rd" for pid rd
    using end_count_maps(2) [OF assms(3) refs_invD(3) [OF assms(1)], of pid rd] assms(2) by (simp add: opt_hits_def)
  then show "tracks (\<lambda>pid rd. end_count (ie_fd X) (fdt w) pid rd - opt_hits (translate_virtual_fd (ie_fd X) (fdt w) c fd) pid rd +
      opt_hits (Some e') pid rd) (ipcs w)"
    using refs_invD(2) [OF assms(1)] assms(2,4) by (simp add: opt_hits_def)
qed (use refs_invD(4) [OF assms(1)] in simp_all)

lemma setfl_access_mode: "is_read_end ((flags AND IPC_O_ACCMODE) OR (x AND NOT IPC_O_ACCMODE)) = is_read_end flags"
proof -
  have "((flags AND IPC_O_ACCMODE) OR (x AND NOT IPC_O_ACCMODE)) AND IPC_O_ACCMODE = flags AND IPC_O_ACCMODE"
    by (rule bit_eqI) (auto simp: bit_simps)
  then show ?thesis by (simp add: is_read_end_def)
qed

section \<open>Several entries at once\<close>

text \<open>What the table operations for whole cages promise.\<close>

definition bulk_tables_ok :: "('ft, 'rb) ipc_env \<Rightarrow> bool" where
  "bulk_tables_ok X \<longleftrightarrow>
     (\<forall>ft c. distinct (map fst (ie_copy X ft c)) \<and>
        (\<forall>fd e. (fd, e) \<in> set (ie_copy X ft c) \<longleftrightarrow> translate_virtual_fd (ie_fd X) ft c fd = Some e)) \<and>
     (\<forall>ft c c' fd. translate_virtual_fd (ie_fd X) (ie_exec X ft c) c' fd =
        (case translate_virtual_fd (ie_fd X) ft c' fd of
           Some e \<Rightarrow> if c' = c \<and> should_cloexec e then None else Some e | None \<Rightarrow> None)) \<and>
     (\<forall>ft c fd b ft'. set_cloexec (ie_fd X) ft c fd b = Some ft' \<longrightarrow>
        (\<exists>e. translate_virtual_fd (ie_fd X) ft c fd = Some e \<and> fd_maps (ie_fd X) ft c fd (Some (e\<lparr>should_cloexec := b\<rparr>)) ft'))"

lemma bulk_copy:
  assumes "bulk_tables_ok X"
  shows "distinct (map fst (ie_copy X ft c))" "(fd, e) \<in> set (ie_copy X ft c) \<longleftrightarrow> translate_virtual_fd (ie_fd X) ft c fd = Some e"
  using assms unfolding bulk_tables_ok_def by blast+

lemma bulk_exec:
  "bulk_tables_ok X \<Longrightarrow> translate_virtual_fd (ie_fd X) (ie_exec X ft c) c' fd =
     (case translate_virtual_fd (ie_fd X) ft c' fd of Some e \<Rightarrow> if c' = c \<and> should_cloexec e then None else Some e | None \<Rightarrow> None)"
  unfolding bulk_tables_ok_def by (elim conjE allE)

lemma bulk_cloexec:
  assumes "bulk_tables_ok X" "set_cloexec (ie_fd X) ft c fd b = Some ft'"
  obtains e where "translate_virtual_fd (ie_fd X) ft c fd = Some e" "fd_maps (ie_fd X) ft c fd (Some (e\<lparr>should_cloexec := b\<rparr>)) ft'"
  using assms unfolding bulk_tables_ok_def by blast

definition list_hits :: "(nat \<times> fd_entry) list \<Rightarrow> nat \<Rightarrow> bool \<Rightarrow> nat" where
  "list_hits es pid rd = length (filter (\<lambda>x. hits (snd x) pid rd) es)"

lemma fst_image_filter: "fst ` set (filter (\<lambda>x. Q (snd x)) xs) = {a. \<exists>b. (a, b) \<in> set xs \<and> Q b}"
  by (auto simp: image_iff)

lemma card_fst_filter: "distinct (map fst xs) \<Longrightarrow> card (fst ` set (filter P xs)) = length (filter P xs)"
  using distinct_card [OF distinct_map_filter, of fst xs P] by simp

text \<open>The descriptors of a selection of a cage's entries, as many as the list has.\<close>

lemma card_selected:
  assumes "bulk_tables_ok X"
  shows "card {(c', fd). c' = c \<and> (\<exists>e. translate_virtual_fd (ie_fd X) ft c fd = Some e \<and> P e \<and> hits e pid rd)} =
    list_hits (filter (\<lambda>x. P (snd x)) (ie_copy X ft c)) pid rd"
proof -
  let ?es = "filter (\<lambda>x. P (snd x) \<and> hits (snd x) pid rd) (ie_copy X ft c)"
  have "{fd. \<exists>e. translate_virtual_fd (ie_fd X) ft c fd = Some e \<and> P e \<and> hits e pid rd} = fst ` set ?es"
    using fst_image_filter [of "\<lambda>e. P e \<and> hits e pid rd" "ie_copy X ft c"] bulk_copy(2) [OF assms, of _ _ ft c] by simp
  then have "{(c', fd). c' = c \<and> (\<exists>e. translate_virtual_fd (ie_fd X) ft c fd = Some e \<and> P e \<and> hits e pid rd)} = Pair c ` fst ` set ?es"
    by auto
  moreover have "card (Pair c ` fst ` set ?es) = card (fst ` set ?es)" by (rule card_image) (simp add: inj_on_def)
  moreover have "card (fst ` set ?es) = length ?es" by (rule card_fst_filter [OF bulk_copy(1) [OF assms]])
  ultimately show ?thesis by (simp add: list_hits_def)
qed

lemma close_hooks_tracks:
  assumes "\<And>pid rd. list_hits es pid rd \<le> n pid rd" "separate s" "tracks n s" "\<And>pid rd. n pid rd < 2 ^ 32"
  shows "tracks (\<lambda>pid rd. n pid rd - list_hits es pid rd) (close_hooks es s) \<and> same_shape s (close_hooks es s)"
  using assms
proof (induction es arbitrary: n s)
  case Nil
  then show ?case by (simp add: close_hooks_def list_hits_def)
next
  case (Cons x es)
  let ?e = "snd x" and ?s = "close_hook (snd x) s"
  have lh: "list_hits (x # es) pid rd = of_bool (hits ?e pid rd) + list_hits es pid rd" for pid rd by (simp add: list_hits_def)
  have pos: "0 < n pid rd" if "hits ?e pid rd" for pid rd using Cons.prems(1) [of pid rd] that by (simp add: lh)
  note t = close_hook_tracks [OF Cons.prems(2,3) pos Cons.prems(4)]
  have "tracks (\<lambda>pid rd. lowered n ?e pid rd - list_hits es pid rd) (close_hooks es ?s) \<and> same_shape ?s (close_hooks es ?s)"
  proof (rule Cons.IH [OF _ separate_shape [OF t(2) Cons.prems(2)] t(1)])
    show "list_hits es pid rd \<le> lowered n ?e pid rd" for pid rd using Cons.prems(1) [of pid rd] by (simp add: lh lowered_def)
    show "lowered n ?e pid rd < 2 ^ 32" for pid rd using Cons.prems(4) [of pid rd] by (simp add: lowered_def)
  qed
  moreover have "lowered n ?e pid rd - list_hits es pid rd = n pid rd - list_hits (x # es) pid rd" for pid rd by (simp add: lh lowered_def)
  ultimately show ?case using same_shape_trans [OF t(2)] by (simp add: close_hooks_def)
qed

text \<open>Dropping a selection of the entries of a cage.\<close>

lemma drop_selected_refs:
  assumes X: "bulk_tables_ok X" "refs_inv X w" "few_fds X w"
    and ft: "\<And>c' fd. translate_virtual_fd (ie_fd X) ft c' fd =
      (case translate_virtual_fd (ie_fd X) (fdt w) c' fd of Some e \<Rightarrow> if c' = cage \<and> P e then None else Some e | None \<Rightarrow> None)"
  shows "refs_inv X (w\<lparr>fdt := ft, ipcs := close_hooks (filter (\<lambda>x. P (snd x)) (ie_copy X (fdt w) cage)) (ipcs w)\<rparr>)"
proof -
  let ?F = "ie_fd X" and ?es = "filter (\<lambda>x. P (snd x)) (ie_copy X (fdt w) cage)"
  note i = refs_invD [OF X(2)]
  have split: "end_count ?F (fdt w) pid rd = end_count ?F ft pid rd + list_hits ?es pid rd" for pid rd
  proof -
    let ?D = "{(c', fd). c' = cage \<and> (\<exists>e. translate_virtual_fd ?F (fdt w) cage fd = Some e \<and> P e \<and> hits e pid rd)}"
    have u: "pipe_ends ?F (fdt w) pid rd = pipe_ends ?F ft pid rd \<union> ?D"
    proof (intro set_eqI iffI)
      fix x assume "x \<in> pipe_ends ?F (fdt w) pid rd"
      then show "x \<in> pipe_ends ?F ft pid rd \<union> ?D" by (cases "fst x = cage"; auto simp: pipe_ends_def ft)
    next
      fix x assume "x \<in> pipe_ends ?F ft pid rd \<union> ?D"
      then show "x \<in> pipe_ends ?F (fdt w) pid rd" by (auto simp: pipe_ends_def ft split: option.splits if_splits)
    qed
    have d: "pipe_ends ?F ft pid rd \<inter> ?D = {}" by (auto simp: pipe_ends_def ft)
    have "finite (pipe_ends ?F (fdt w) pid rd)" using i(3) by (rule finite_pipe_ends)
    then have "finite (pipe_ends ?F ft pid rd)" "finite ?D" unfolding u by simp_all
    from card_Un_disjoint [OF this d] show ?thesis
      unfolding end_count_def u [symmetric] card_selected [OF X(1), of cage "fdt w" P pid rd] .
  qed
  have "tracks (\<lambda>pid rd. end_count ?F (fdt w) pid rd - list_hits ?es pid rd) (close_hooks ?es (ipcs w)) \<and> same_shape (ipcs w) (close_hooks ?es (ipcs w))"
    by (rule close_hooks_tracks [OF _ i(1,2) count_small [OF X(2,3)]]) (simp add: split)
  moreover have "open_fds ?F ft \<subseteq> open_fds ?F (fdt w)" by (auto simp: open_fds_def ft split: option.splits)
  moreover have "end_count ?F (fdt w) pid rd - list_hits ?es pid rd = end_count ?F ft pid rd" for pid rd using split [of pid rd] by simp
  ultimately show ?thesis using i(3,4) separate_shape [OF _ i(1)] finite_subset by (auto simp: refs_inv_def)
qed

lemma remove_cage_refs:
  assumes "fdtables_ok (ie_fd X)" "bulk_tables_ok X" "refs_inv X w" "few_fds X w"
  shows "refs_inv X (ipc_remove_cage X w cage)"
proof -
  have "translate_virtual_fd (ie_fd X) (remove_cage_from_fdtable (ie_fd X) (fdt w) cage) c' fd =
      (case translate_virtual_fd (ie_fd X) (fdt w) c' fd of Some e \<Rightarrow> if c' = cage \<and> True then None else Some e | None \<Rightarrow> None)" for c' fd
    by (simp add: fd_remove_law [OF assms(1)] split: option.split)
  from drop_selected_refs [OF assms(2-4) this] show ?thesis by (simp add: ipc_remove_cage_def)
qed

lemma exec_close_refs:
  assumes "bulk_tables_ok X" "refs_inv X w" "few_fds X w"
  shows "refs_inv X (ipc_exec_close X w cage)"
  using drop_selected_refs [OF assms bulk_exec [OF assms(1)]] by (simp add: ipc_exec_close_def)

section \<open>Forks\<close>

text \<open>Raising the counts for every entry of a table, and lowering them again.\<close>

lemma bump_entry:
  assumes "same_shape s s'"
  shows "bump_refs incr_read_ref incr_write_ref (entry_bumps s e) s' = add_refs (fdkind e) (underfd e) (word_of_nat (perfdinfo e)) s'"
    and "bump_refs decr_read_ref decr_write_ref (entry_bumps s e) s' = close_hook e s'"
  using assms by (auto simp: bump_refs_def entry_bumps_def add_refs_def close_hook_def ipc_pipe_close_handler_def ipc_socket_close_handler_def
      ipc_epoll_close_handler_def opt_pipe_mod_def get_pipe_def registry_get_def same_shape_def split: option.split)

lemma bump_append: "bump_refs f g (xs @ ys) s = bump_refs f g ys (bump_refs f g xs s)"
  by (simp add: bump_refs_def)

lemma raise_all:
  assumes "\<And>x pid rd. x \<in> set es \<Longrightarrow> hits (snd x) pid rd \<Longrightarrow> 0 < n pid rd" "separate s'" "tracks n s'" "same_shape s s'"
  shows "tracks (\<lambda>pid rd. n pid rd + list_hits es pid rd) (bump_refs incr_read_ref incr_write_ref (concat (map (\<lambda>x. entry_bumps s (snd x)) es)) s') \<and>
    same_shape s (bump_refs incr_read_ref incr_write_ref (concat (map (\<lambda>x. entry_bumps s (snd x)) es)) s')"
  using assms
proof (induction es arbitrary: n s')
  case Nil
  then show ?case by (simp add: bump_refs_def list_hits_def)
next
  case (Cons x es)
  let ?e = "snd x"
  let ?s = "add_refs (fdkind ?e) (underfd ?e) (word_of_nat (perfdinfo ?e)) s'"
  have "hits ?e (underfd ?e) (is_read_end (word_of_nat (perfdinfo ?e))) \<Longrightarrow> 0 < n (underfd ?e) (is_read_end (word_of_nat (perfdinfo ?e)))"
    by (rule Cons.prems(1) [of x]) simp_all
  note t = add_refs_tracks [OF Cons.prems(2,3) this refl]
  let ?r = "bump_refs incr_read_ref incr_write_ref (concat (map (\<lambda>x. entry_bumps s (snd x)) es)) ?s"
  have "tracks (\<lambda>pid rd. raised n ?e pid rd + list_hits es pid rd) ?r \<and> same_shape s ?r"
    by (rule Cons.IH [OF _ separate_shape [OF t(2) Cons.prems(2)] t(1) same_shape_trans [OF Cons.prems(4) t(2)]])
      (use Cons.prems(1) in \<open>auto simp: raised_def\<close>)
  moreover have "raised n ?e pid rd + list_hits es pid rd = n pid rd + list_hits (x # es) pid rd" for pid rd
    by (simp add: raised_def list_hits_def)
  ultimately show ?case using bump_entry(1) [OF Cons.prems(4)] by (simp add: bump_append)
qed

lemma lower_all:
  assumes "\<And>pid rd. list_hits es pid rd \<le> n pid rd" "separate s'" "tracks n s'" "same_shape s s'" "\<And>pid rd. n pid rd < 2 ^ 32"
  shows "tracks (\<lambda>pid rd. n pid rd - list_hits es pid rd) (bump_refs decr_read_ref decr_write_ref (concat (map (\<lambda>x. entry_bumps s (snd x)) es)) s') \<and>
    same_shape s (bump_refs decr_read_ref decr_write_ref (concat (map (\<lambda>x. entry_bumps s (snd x)) es)) s')"
proof -
  have "bump_refs decr_read_ref decr_write_ref (concat (map (\<lambda>x. entry_bumps s (snd x)) es)) s' = close_hooks es s' \<and> same_shape s (close_hooks es s')"
    if "same_shape s s'" for s'
    using that
  proof (induction es arbitrary: s')
    case (Cons x es)
    have "same_shape s' (close_hook (snd x) s')"
      by (simp add: close_hook_def ipc_pipe_close_handler_def ipc_socket_close_handler_def ipc_epoll_close_handler_def split: option.split)
    then have "same_shape s (close_hook (snd x) s')" using Cons.prems same_shape_trans by blast
    from Cons.IH [OF this] show ?case using bump_entry(2) [OF Cons.prems] by (simp add: bump_append close_hooks_def)
  qed (simp add: bump_refs_def close_hooks_def)
  from this [OF assms(4)] show ?thesis using close_hooks_tracks [OF assms(1-3,5)] by simp
qed

text \<open>A cage's entries are among the descriptors.\<close>

lemma list_hits_le:
  assumes "bulk_tables_ok X" "finite (open_fds (ie_fd X) ft)"
  shows "list_hits (ie_copy X ft c) pid rd \<le> end_count (ie_fd X) ft pid rd"
proof -
  have "list_hits (ie_copy X ft c) pid rd =
      card {(c', fd). c' = c \<and> (\<exists>e. translate_virtual_fd (ie_fd X) ft c fd = Some e \<and> True \<and> hits e pid rd)}"
    using card_selected [OF assms(1), of c ft "\<lambda>_. True" pid rd] by simp
  also have "\<dots> \<le> end_count (ie_fd X) ft pid rd"
    unfolding end_count_def by (rule card_mono [OF finite_pipe_ends [OF assms(2)]]) (auto simp: pipe_ends_def)
  finally show ?thesis .
qed

text \<open>The copied table adds as many ends as the parent has.\<close>

lemma copy_counts:
  assumes "fdtables_ok (ie_fd X)" "bulk_tables_ok X" "finite (open_fds (ie_fd X) ft)"
    "\<not> check_cage_exists (ie_fd X) ft child" "copy_fdtable_for_cage (ie_fd X) ft cage child = Some ft'"
  shows "end_count (ie_fd X) ft' pid rd = end_count (ie_fd X) ft pid rd + list_hits (ie_copy X ft cage) pid rd"
    and "finite (open_fds (ie_fd X) ft')"
proof -
  let ?F = "ie_fd X"
  have none: "translate_virtual_fd ?F ft child fd = None" for fd using fd_cage_law(2) [OF assms(1,4)] .
  note copy = fd_copy_law [OF assms(1,5)]
  let ?own = "\<lambda>Q. {fd. \<exists>e. translate_virtual_fd ?F ft cage fd = Some e \<and> Q e}"
  have o: "open_fds ?F ft' = open_fds ?F ft \<union> Pair child ` ?own (\<lambda>e. True)"
    and p: "pipe_ends ?F ft' pid rd = pipe_ends ?F ft pid rd \<union> Pair child ` ?own (\<lambda>e. hits e pid rd)"
    by (auto simp: open_fds_def pipe_ends_def copy none split: if_splits)
  have "Pair cage ` ?own (\<lambda>e. True) \<subseteq> open_fds ?F ft" by (auto simp: open_fds_def)
  from finite_subset [OF this assms(3)] have f: "finite (?own (\<lambda>e. True))" by (rule finite_imageD) (simp add: inj_on_def)
  then show "finite (open_fds ?F ft')" unfolding o using assms(3) by simp
  have fh: "finite (?own (\<lambda>e. hits e pid rd))" by (rule finite_subset [OF _ f]) auto
  have "card (Pair child ` ?own (\<lambda>e. hits e pid rd)) = card (?own (\<lambda>e. hits e pid rd))" by (rule card_image) (simp add: inj_on_def)
  also have "\<dots> = card (Pair cage ` ?own (\<lambda>e. hits e pid rd))" by (rule card_image [symmetric]) (simp add: inj_on_def)
  also have "Pair cage ` ?own (\<lambda>e. hits e pid rd) =
      {(c', fd). c' = cage \<and> (\<exists>e. translate_virtual_fd ?F ft cage fd = Some e \<and> True \<and> hits e pid rd)}" by auto
  also have "card \<dots> = list_hits (ie_copy X ft cage) pid rd" using card_selected [OF assms(2), of cage ft "\<lambda>_. True" pid rd] by simp
  finally have c: "card (Pair child ` ?own (\<lambda>e. hits e pid rd)) = list_hits (ie_copy X ft cage) pid rd" .
  have "pipe_ends ?F ft pid rd \<inter> Pair child ` ?own (\<lambda>e. hits e pid rd) = {}" by (auto simp: pipe_ends_def none)
  from card_Un_disjoint [OF finite_pipe_ends [OF assms(3)] finite_imageI [OF fh] this]
  show "end_count ?F ft' pid rd = end_count ?F ft pid rd + list_hits (ie_copy X ft cage) pid rd"
    unfolding end_count_def p c by simp
qed

text \<open>The runtime gives a new process a cage of its own, for which a table can be made.\<close>

definition fresh_child :: "('ft, 'rb) ipc_env \<Rightarrow> ('ft, 'rb) ipc_world \<Rightarrow> bool" where
  "fresh_child X w \<longleftrightarrow>
     (\<forall>c. callnumber c = SYS_CLONE \<longrightarrow> ge_sys (ie_g X) (hist w) c \<noteq> 0 \<and>
        (0 < ge_sys (ie_g X) (hist w) c \<longrightarrow>
           \<not> check_cage_exists (ie_fd X) (fdt w) (as_u64 (ge_sys (ie_g X) (hist w) c)) \<and>
           (\<forall>p. copy_fdtable_for_cage (ie_fd X) (fdt w) p (as_u64 (ge_sys (ie_g X) (hist w) c)) \<noteq> None)))"

lemma ipc_forward_frame:
  assumes "forward_syscall X w nr cage args gs = (ret, w')"
  shows "fdt w' = fdt w" "ipcs w' = ipcs w" "pendings w' = pendings w"
    and "\<exists>c. callnumber c = as_u32 nr \<and> ret = ge_sys (ie_g X) (hist w) c"
  using assms by (auto simp: forward_syscall_def grate_call_def log_event_def intro: exI [of _ "\<lparr>callnumber = as_u32 nr,
    self_cageid = ge_cage (ie_g X), target_cageid = cage, call_args = args, call_cages = gs\<rparr>"])

lemma fork_refs:
  assumes X: "fdtables_ok (ie_fd X)" "bulk_tables_ok X" "undisturbed X" and w: "refs_inv X w" "few_fds X w" "fresh_child X w"
    and r: "ipc_fork_handler X w a g = Some (r, w')"
  shows "refs_inv X w'"
proof -
  note i = refs_invD [OF w(1)]
  let ?F = "ie_fd X" and ?fds = "ie_copy X (fdt w) (g ! 0)"
  let ?n = "end_count ?F (fdt w)" and ?b = "concat (map (\<lambda>x. entry_bumps (ipcs w) (snd x)) ?fds)"
  define s1 where "s1 = bump_refs incr_read_ref incr_write_ref ?b (ipcs w)"
  define w1 where "w1 = (if is_thread_clone (ie_g X) w (a ! 0) (g ! 0) then w
    else w\<lparr>pendings := push_pending_fdtable (pendings w) (g ! 0) ?fds, ipcs := s1\<rparr>)"
  obtain ret w2 where call: "forward_syscall X w1 SYS_CLONE (g ! 0) (map Num a) g = (ret, w2)" by fastforce
  have child: "\<And>h w. ie_child X h w = w" using X(3) unfolding undisturbed_def by blast
  have "hist w1 = hist w" by (simp add: w1_def)
  with ipc_forward_frame(4) [OF call] obtain c where c: "callnumber c = SYS_CLONE" "ret = ge_sys (ie_g X) (hist w) c" by (auto simp: as_u32_def)
  have fresh: "ret \<noteq> 0" "0 < ret \<Longrightarrow> \<not> check_cage_exists ?F (fdt w) (as_u64 ret)"
    "0 < ret \<Longrightarrow> copy_fdtable_for_cage ?F (fdt w) (g ! 0) (as_u64 ret) \<noteq> None"
    using w(3) c unfolding fresh_child_def by auto
  have rp: "remove_pending_fdtable (push_pending_fdtable [] (g ! 0) ?fds) (g ! 0) = []" by (simp add: remove_push_pending)
  show ?thesis
  proof (cases "is_thread_clone (ie_g X) w (a ! 0) (g ! 0)")
    case True
    then have "w' = w2" using r fresh(1) call
      by (auto simp: ipc_fork_handler_def Let_def child w1_def split: if_splits)
    then show ?thesis using True ipc_forward_frame(1-3) [OF call] by (intro refs_inv_cong [OF w(1)]) (simp_all add: w1_def)
  next
    case False
    have up: "tracks (\<lambda>pid rd. ?n pid rd + list_hits ?fds pid rd) s1 \<and> same_shape (ipcs w) s1" unfolding s1_def
    proof (rule raise_all [OF _ i(1,2) same_shape_refl])
      fix x pid rd assume "x \<in> set ?fds" "hits (snd x) pid rd"
      then show "0 < ?n pid rd" using bulk_copy(2) [OF X(2), of "fst x" "snd x"] by (intro end_count_pos [OF _ _ i(3)]) auto
    qed
    then have sep: "separate s1" using separate_shape [OF _ i(1)] by blast
    have w2: "fdt w2 = fdt w" "ipcs w2 = s1" "pendings w2 = push_pending_fdtable [] (g ! 0) ?fds"
      using ipc_forward_frame(1-3) [OF call] False i(4) by (simp_all add: w1_def)
    have run: "ipc_fork_handler X w a g = (if ret \<le> 0
        then Some (ret, if ret < 0 then w2\<lparr>ipcs := bump_refs decr_read_ref decr_write_ref ?b (ipcs w2), pendings := remove_pending_fdtable (pendings w2) (g ! 0)\<rparr> else w2)
        else Some (as_i32 (int (as_u64 ret)), adopt_child X w2 (g ! 0) (as_u64 ret) (read_clone_flags X w (a ! 0) (g ! 0) AND 0x4000 \<noteq> 0) ?fds))"
      using False call child unfolding ipc_fork_handler_def Let_def w1_def s1_def by simp
    show ?thesis
    proof (cases "ret < 0")
      case True
      then have w': "fdt w' = fdt w" "pendings w' = []" "ipcs w' = bump_refs decr_read_ref decr_write_ref ?b s1"
        using r run by (auto simp: w2 rp)
      have b: "?n pid rd + list_hits ?fds pid rd < 2 ^ 32" for pid rd
        using count_small2 [OF w(1,2), of pid rd] list_hits_le [OF X(2) i(3), of "g ! 0" pid rd] by simp
      have "tracks ?n (ipcs w') \<and> same_shape (ipcs w) (ipcs w')"
        using lower_all [OF _ sep conjunct1 [OF up] conjunct2 [OF up] b, of ?fds] unfolding w' by simp
      then show ?thesis using i(3) separate_shape [OF _ i(1)] w'(1,2) by (simp add: refs_inv_def)
    next
      case neg: False
      then have pos: "0 < ret" using fresh(1) by simp
      obtain ft where ft: "copy_fdtable_for_cage ?F (fdt w) (g ! 0) (as_u64 ret) = Some ft" using fresh(3) [OF pos] by blast
      have "fdt w' = ft" "pendings w' = []" "ipcs w' = s1"
        using r run pos fresh(2) [OF pos] ft by (auto simp: adopt_child_def Let_def w2 rp log_event_def)
      then show ?thesis using up sep copy_counts [OF X(1,2) i(3) fresh(2) [OF pos] ft] by (simp add: refs_inv_def tracks_def)
    qed
  qed
qed

end
