(* ===== verification/Ipc_Keep.thy ===== *)
theory Ipc_Keep
  imports Ipc_Refs
begin

unbundle bit_operations_syntax

text \<open>
  Every handler of the ipc grate keeps the reference counts equal to the numbers of descriptors.
  The first part has the frame lemmas (calls to the runtime, copies, changes of the registry), the
  others go through the handlers.
\<close>

section \<open>Frames\<close>

text \<open>Whatever the outcome, the invariant holds afterwards.\<close>

definition good :: "('ft, 'rb) ipc_env \<Rightarrow> (int \<times> ('ft, 'rb) ipc_world) option \<Rightarrow> bool" where
  "good X res \<longleftrightarrow> (case res of None \<Rightarrow> True | Some (r, w) \<Rightarrow> refs_inv X w)"

lemma good_simps [simp]:
  "good X None" "good X (Some p) \<longleftrightarrow> refs_inv X (snd p)"
  by (simp_all add: good_def split_beta)

lemma goodD: "good X (h :: (int \<times> ('ft, 'rb) ipc_world) option) \<Longrightarrow> h = Some (r, w') \<Longrightarrow> refs_inv X w'"
  by (simp add: good_def)

lemma world_frame [simp]:
  "fdt (log_event e w) = fdt w" "ipcs (log_event e w) = ipcs w" "pendings (log_event e w) = pendings w"
  "fdt (copy_out X w c p bs) = fdt w" "ipcs (copy_out X w c p bs) = ipcs w" "pendings (copy_out X w c p bs) = pendings w"
  "fdt (write_user_bytes w p bs) = fdt w" "ipcs (write_user_bytes w p bs) = ipcs w" "pendings (write_user_bytes w p bs) = pendings w"
  "fdt (snd (forward_syscall X w nr c as gs)) = fdt w" "ipcs (snd (forward_syscall X w nr c as gs)) = ipcs w"
  "pendings (snd (forward_syscall X w nr c as gs)) = pendings w"
  "fdt (close_runtime X w c u) = fdt w" "ipcs (close_runtime X w c u) = ipcs w" "pendings (close_runtime X w c u) = pendings w"
  by (simp_all add: log_event_def copy_out_def write_user_bytes_def forward_syscall_def grate_call_def close_runtime_def)

lemma frame_iff:
  assumes "fdt w' = fdt w" "ipcs w' = ipcs w" "pendings w' = pendings w"
  shows "refs_inv X w' \<longleftrightarrow> refs_inv X w"
  using assms by (simp add: refs_inv_def)

lemma refs_frame [simp]:
  "refs_inv Y (log_event e w) \<longleftrightarrow> refs_inv Y w"
  "refs_inv Y (copy_out X w c p bs) \<longleftrightarrow> refs_inv Y w"
  "refs_inv Y (write_user_bytes w p bs) \<longleftrightarrow> refs_inv Y w"
  "refs_inv Y (snd (forward_syscall X w nr c as gs)) \<longleftrightarrow> refs_inv Y w"
  "refs_inv Y (close_runtime X w c u) \<longleftrightarrow> refs_inv Y w"
  by (rule frame_iff; simp)+

lemma refs_hist [simp]: "refs_inv Y (w\<lparr>hist := h\<rparr>) \<longleftrightarrow> refs_inv Y w"
  by (rule frame_iff) simp_all

text \<open>The target maps of epoll and the pending sockets have no part in the invariant.\<close>

lemma refs_other [simp]:
  "refs_inv X (w\<lparr>ipcs := (ipcs w)\<lparr>epoll_targets := m\<rparr>\<rparr>) \<longleftrightarrow> refs_inv X w"
  "refs_inv X (w\<lparr>ipcs := (ipcs w)\<lparr>pending_inet := n\<rparr>\<rparr>) \<longleftrightarrow> refs_inv X w"
  by (simp_all add: refs_inv_def separate_def tracks_def)

lemma refs_targets [simp]: "refs_inv X (set_targets key m w) \<longleftrightarrow> refs_inv X w"
  by (simp add: set_targets_def)

lemma refs_drop_pending [simp]: "refs_inv X (drop_pending key w) \<longleftrightarrow> refs_inv X w"
  by (simp add: drop_pending_def)

text \<open>What a step may rely on: room for a few descriptors, and pipe numbers left.\<close>

definition has_room :: "('ft, 'rb) ipc_env \<Rightarrow> ('ft, 'rb) ipc_world \<Rightarrow> bool" where
  "has_room X w \<longleftrightarrow> card (open_fds (ie_fd X) (fdt w)) + 8 < 2 ^ 31 \<and> next_pipe_id (ipcs w) + 1 < 2 ^ 64"

section \<open>Data transfers\<close>

definition same_counts :: "'rb pipe \<Rightarrow> 'rb pipe \<Rightarrow> bool" where
  "same_counts p p' \<longleftrightarrow> read_refs p' = read_refs p \<and> write_refs p' = write_refs p \<and> p_eof p' = p_eof p"

definition data_naps :: "nap list \<Rightarrow> bool" where
  "data_naps ns \<longleftrightarrow> (\<forall>sts. Resumed sts \<in> set ns \<longrightarrow> list_all data_step sts)"

lemma data_naps_Cons [simp]: "data_naps (Resumed sts # ns) \<longleftrightarrow> list_all data_step sts \<and> data_naps ns"
  by (auto simp: data_naps_def)

lemma same_counts_ring [simp]: "same_counts p (p\<lparr>ring := rb\<rparr>)" "same_counts p p"
  by (simp_all add: same_counts_def)

lemma peers_counts: "list_all data_step sts \<Longrightarrow> same_counts p (peers R sts p)"
proof (induction sts arbitrary: p)
  case (Cons st sts)
  then have "same_counts p (peer_apply R st p)" by (cases st) simp_all
  with Cons.IH [of "peer_apply R st p"] Cons.prems show ?case by (simp add: peers_def same_counts_def)
qed (simp add: peers_def same_counts_def)

lemma counts_after: "list_all data_step sts \<Longrightarrow> same_counts (peers R sts (p\<lparr>ring := rb\<rparr>)) p' \<Longrightarrow> same_counts p p'"
  using peers_counts [of sts "p\<lparr>ring := rb\<rparr>" R] by (simp add: same_counts_def)

lemma pipe_read_counts:
  "pipe_read_loop R p n nb ns = Some (r, bs, p') \<Longrightarrow> data_naps ns \<Longrightarrow> same_counts p p'"
proof (induction ns arbitrary: p nb)
  case Nil
  then show ?case by (subst (asm) pipe_read_loop.simps) (auto simp: Let_def split_beta split: if_splits)
next
  case (Cons a ns)
  then show ?case by (subst (asm) (2) pipe_read_loop.simps)
      (cases a; auto simp: Let_def split_beta split: if_splits dest: counts_after)
qed

lemma pipe_write_counts:
  "pipe_write_loop R p src m nb ns = Some (r, k, p') \<Longrightarrow> data_naps ns \<Longrightarrow> same_counts p p'"
proof (induction ns arbitrary: p m nb)
  case Nil
  then show ?case by (subst (asm) pipe_write_loop.simps) (auto simp: Let_def split_beta same_counts_def split: if_splits)
next
  case (Cons a ns)
  show ?case using Cons.prems(1)
    by (subst (asm) pipe_write_loop.simps)
      (cases a; use Cons.prems(2) in \<open>auto simp: Let_def split_beta split: if_splits dest!: Cons.IH dest: counts_after\<close>)
qed

lemma write_from_cage_counts:
  "write_from_cage_loop R ci p c a n m nb ns = Some (r, k, p') \<Longrightarrow> data_naps ns \<Longrightarrow> same_counts p p'"
proof (induction ns arbitrary: p m nb)
  case Nil
  then show ?case by (subst (asm) write_from_cage_loop.simps) (auto simp: Let_def split_beta same_counts_def split: if_splits)
next
  case (Cons b ns)
  show ?case using Cons.prems(1)
    by (subst (asm) write_from_cage_loop.simps)
      (cases b; use Cons.prems(2) in \<open>auto simp: Let_def split_beta split: if_splits dest!: Cons.IH dest: counts_after\<close>)
qed

lemma read_to_cage_counts:
  "read_to_cage_loop R co m p c a n nb ns = Some (r, k, p') \<Longrightarrow> data_naps ns \<Longrightarrow> same_counts p p'"
proof (induction ns arbitrary: p m nb)
  case Nil
  then show ?case by (subst (asm) read_to_cage_loop.simps) (auto simp: Let_def split_beta split: if_splits)
next
  case (Cons b ns)
  show ?case using Cons.prems(1)
    by (subst (asm) read_to_cage_loop.simps)
      (cases b; use Cons.prems(2) in \<open>auto simp: Let_def split_beta split: if_splits dest!: Cons.IH dest: counts_after\<close>)
qed

text \<open>The assumptions on the environment.\<close>

definition env_ok :: "('ft, 'rb) ipc_env \<Rightarrow> bool" where
  "env_ok X \<longleftrightarrow> fdtables_ok (ie_fd X) \<and> bulk_tables_ok X \<and> undisturbed X"

lemma env_okD:
  assumes "env_ok X"
  shows "fdtables_ok (ie_fd X)" "bulk_tables_ok X" "undisturbed X" "data_naps (ie_naps X h)" "ie_waits X h = []"
  using assms by (auto simp: env_ok_def undisturbed_def data_naps_def)

lemma quiet [simp]:
  assumes "env_ok X" "refs_inv X w"
  shows "wait_cage X w cage = (check_cage_exists (ie_fd X) (fdt w) cage, w)"
    and "ipc_lookup X w cage fd = (ipc_info (ie_fd X) (fdt w) cage fd, w)"
    and "translate_to_underfd X w cage fd =
      (if check_cage_exists (ie_fd X) (fdt w) cage then map_option underfd (translate_virtual_fd (ie_fd X) (fdt w) cage fd) else Some fd, w)"
  using quiet_lookups [OF env_okD(3) [OF assms(1)] refs_invD(4) [OF assms(2)]]
    quiet_translate(1) [OF env_okD(3) [OF assms(1)] refs_invD(4) [OF assms(2)]] by simp_all

lemma put_pipe_refs:
  assumes "refs_inv X w" "same_counts (store (ipcs w) ! i) p"
  shows "refs_inv X (put_pipe i p w)"
proof -
  note i = refs_invD [OF assms(1)]
  have "tracks (end_count (ie_fd X) (fdt w)) (pipe_mod (\<lambda>_. p) i (ipcs w))"
  proof (rule tracks_same [OF i(2)])
    fix pid j assume j: "pipes (ipcs w) pid = Some j"
    show "read_refs (store (pipe_mod (\<lambda>_. p) i (ipcs w)) ! j) = read_refs (store (ipcs w) ! j) \<and>
        write_refs (store (pipe_mod (\<lambda>_. p) i (ipcs w)) ! j) = write_refs (store (ipcs w) ! j) \<and>
        p_eof (store (pipe_mod (\<lambda>_. p) i (ipcs w)) ! j) = p_eof (store (ipcs w) ! j)"
      using assms(2) by (auto simp: pipe_mod_nth [OF separateD(1) [OF i(1) j]] same_counts_def)
  qed simp
  then show ?thesis using i by (simp add: refs_inv_def put_pipe_def)
qed

lemma send_cage_good:
  assumes "env_ok X" "refs_inv X w"
  shows "good X (send_cage X w i cage ptr count nb)"
proof (cases "send_cage X w i cage ptr count nb")
  case (Some res)
  then obtain r k p where "write_from_cage (ie_ring X) (ring_copy X w) (store (ipcs w) ! i) cage ptr count nb (ie_naps X (hist w)) = Some (r, k, p)"
    and w': "res = (r, put_pipe i p w)" by (auto simp: send_cage_def)
  then have "same_counts (store (ipcs w) ! i) p"
    by (auto simp: write_from_cage_def env_okD [OF assms(1)] split: if_splits dest!: write_from_cage_counts)
  then show ?thesis using put_pipe_refs [OF assms(2)] Some w' by simp
qed simp

lemma recv_cage_good:
  assumes "env_ok X" "refs_inv X w"
  shows "good X (recv_cage X w i cage ptr count nb)"
proof (cases "recv_cage X w i cage ptr count nb")
  case (Some res)
  let ?co = "\<lambda>h c q bs. if ge_copyout (ie_g X) h c q bs then h @ [CopyOut c q bs] else h"
  from Some obtain r h p where "read_to_cage (ie_ring X) ?co (hist w) (store (ipcs w) ! i) cage ptr count nb (ie_naps X (hist w)) = Some (r, h, p)"
    and w': "res = (r, put_pipe i p (w\<lparr>hist := h\<rparr>))" by (auto simp: recv_cage_def)
  then have "same_counts (store (ipcs w) ! i) p"
    by (auto simp: read_to_cage_def env_okD [OF assms(1)] split: if_splits dest!: read_to_cage_counts)
  then show ?thesis using put_pipe_refs [of X "w\<lparr>hist := h\<rparr>" i p] assms(2) Some w' by simp
qed simp

lemma send_buf_good:
  assumes "env_ok X" "refs_inv X w"
  shows "good X (send_buf X w i bs nb)"
proof (cases "send_buf X w i bs nb")
  case (Some res)
  then obtain r k p where "pipe_write (ie_ring X) (store (ipcs w) ! i) bs (length bs) nb (ie_naps X (hist w)) = Some (r, k, p)"
    and w': "res = (r, put_pipe i p w)" by (auto simp: send_buf_def)
  then have "same_counts (store (ipcs w) ! i) p"
    by (auto simp: pipe_write_def env_okD [OF assms(1)] split: if_splits dest!: pipe_write_counts)
  then show ?thesis using put_pipe_refs [OF assms(2)] Some w' by simp
qed simp

lemma recv_buf_refs:
  assumes "env_ok X" "refs_inv X w" "recv_buf X w i cap nb = Some (r, bs, w')"
  shows "refs_inv X w'"
proof -
  from assms(3) obtain bs' p where "pipe_read_loop (ie_ring X) (store (ipcs w) ! i) cap nb (ie_naps X (hist w)) = Some (r, bs', p)"
    and w': "w' = put_pipe i p w" by (auto simp: recv_buf_def pipe_read_def split: if_splits)
  from pipe_read_counts [OF this(1)] env_okD [OF assms(1)] show ?thesis unfolding w' using put_pipe_refs [OF assms(2)] by simp
qed

lemma refs_scatter [simp]: "refs_inv Y (scatter_loop X cage ptr is bs w) \<longleftrightarrow> refs_inv Y w"
  by (induction "is" arbitrary: bs w) (simp_all add: Let_def split_beta)

lemma refs_scatter_iovs [simp]: "refs_inv Y (scatter_iovs X cage iovs bs w) \<longleftrightarrow> refs_inv Y w"
  by (induction X cage iovs bs w rule: scatter_iovs.induct) (simp_all add: Let_def)

lemma refs_scatter_buf [simp]: "refs_inv Y (snd (scatter_buf_into_iov X w bs ptr cnt cage)) \<longleftrightarrow> refs_inv Y w"
  by (simp add: scatter_buf_into_iov_def)

section \<open>Handlers that forward or move data\<close>

lemma forward_fd1_good [simp]:
  assumes "env_ok X" "refs_inv X w"
  shows "good X (forward_with_fd1 nr X w a g)"
  using assms by (auto simp: forward_with_fd1_def split: option.split)

lemma dirfd_refs:
  assumes "env_ok X" "refs_inv X w"
  obtains r where "translate_dirfd X w cage fd = (r, w)"
  using quiet_translate(2) [OF env_okD(3) [OF assms(1)] refs_invD(4) [OF assms(2)]] that by blast

lemma dirfd_good:
  assumes "env_ok X" "refs_inv X w"
  shows "good X (forward_with_dirfd_at nr i X w a g)" "good X (forward_with_two_dirfds nr i j X w a g)"
proof -
  obtain r1 r2 where "translate_dirfd X w (g ! 0) (a ! i) = (r1, w)" "translate_dirfd X w (g ! 0) (a ! j) = (r2, w)"
    using dirfd_refs [OF assms] by metis
  then show "good X (forward_with_dirfd_at nr i X w a g)" "good X (forward_with_two_dirfds nr i j X w a g)"
    using assms(2) by (auto simp: forward_with_dirfd_at_def forward_with_two_dirfds_def split: option.split)
qed

lemma transfer_good:
  assumes "env_ok X" "refs_inv X w"
  shows "good X (ipc_read_handler X w a g)" "good X (ipc_write_handler X w a g)"
    "good X (ipc_writev_handler X w a g)" "good X (ipc_readv_handler X w a g)"
  using assms send_cage_good [OF assms] recv_cage_good [OF assms] send_buf_good [OF assms] recv_buf_refs [OF assms]
  by (auto simp: ipc_read_handler_def ipc_write_handler_def ipc_writev_handler_def ipc_readv_handler_def Let_def
      scatter_buf_into_iov_def split: option.split sum.split prod.split bind_split)

lemma plain_good:
  assumes "env_ok X" "refs_inv X w"
  shows "good X (ipc_fstat_handler X w a g)" "good X (ipc_espipe_handler nr X w a g)" "good X (ipc_mmap_handler X w a g)"
  using assms by (auto simp: ipc_fstat_handler_def ipc_espipe_handler_def ipc_mmap_handler_def Let_def split: option.split prod.split)

section \<open>Waiting\<close>

text \<open>With nobody else acting, examining descriptors changes nothing and no sleep ends.\<close>

lemma classify_quiet:
  assumes "env_ok X" "refs_inv X w"
  shows "snd (classify_pollfds X cage ps w) = w" "snd (reclassify_ipc_pollfds X cage es w) = w"
proof -
  have c: "snd (classify_pollfd X cage p w) = w" for p using assms by (auto simp: classify_pollfd_def split: option.split)
  show "snd (classify_pollfds X cage ps w) = w" by (induction ps) (simp_all add: Let_def split_beta c)
  show "snd (reclassify_ipc_pollfds X cage es w) = w"
    using assms by (induction es) (auto simp: Let_def split_beta split: option.split)
qed

lemma select_quiet:
  assumes "env_ok X" "refs_inv X w"
  shows "snd (foldl (select_classify X cage) (s, w) fds) = w" "snd (foldl (select_reclassify X cage) (s, w) fds) = w"
proof -
  have c: "\<exists>s'. select_classify X cage (s, w) fd = (s', w)" "\<exists>s'. select_reclassify X cage (s, w) fd = (s', w)" for s fd
    using assms by (auto simp: select_classify_def select_reclassify_def Let_def split: option.split)
  show "snd (foldl (select_classify X cage) (s, w) fds) = w"
  proof (induction fds arbitrary: s)
    case (Cons fd fds)
    then show ?case using c(1) [of s fd] by auto
  qed simp
  show "snd (foldl (select_reclassify X cage) (s, w) fds) = w"
  proof (induction fds arbitrary: s)
    case (Cons fd fds)
    then show ?case using c(2) [of s fd] by auto
  qed simp
qed

lemma epoll_quiet:
  assumes "env_ok X" "refs_inv X w"
  shows "snd (epoll_collect X cage m evs ready w) = w"
  using assms by (induction evs arbitrary: ready) (auto simp: Let_def split: option.split)

lemma poll_wait_refs:
  assumes "env_ok X" "refs_inv X w" "ipc_only_poll_wait X cage t es w = Some (r, es', w')"
  shows "refs_inv X w'"
  using assms(3) classify_quiet(2) [OF assms(1,2), of cage es] assms(2)
  by (simp add: ipc_only_poll_wait_def env_okD [OF assms(1)] poll_wait_loop.simps Let_def split_beta split: if_splits)

lemma refs_poll_forward [simp]: "refs_inv Y (snd (snd (poll_forward X nr t a g es w))) \<longleftrightarrow> refs_inv Y w"
  by (simp add: poll_forward_def Let_def split_beta)

lemma refs_finish_poll [simp]: "refs_inv Y (snd (finish_ipc_poll X cage ptr r es w)) \<longleftrightarrow> refs_inv Y w"
  by (simp add: finish_ipc_poll_def)

lemma poll_waited_good:
  assumes "env_ok X" "refs_inv X w"
  shows "good X (map_option (\<lambda>(ret, es, w). finish_ipc_poll X cage ptr ret es w) (ipc_only_poll_wait X cage t es w))"
  using poll_wait_refs [OF assms] by (auto simp: good_def split: option.split prod.split)
    (metis refs_finish_poll snd_conv)

lemma poll_good:
  assumes "env_ok X" "refs_inv X w"
  shows "good X (ipc_poll_handler X w a g)" "good X (ipc_ppoll_handler X w a g)"
  using assms poll_waited_good [OF assms]
  by (auto simp: ipc_poll_handler_def ipc_ppoll_handler_def Let_def split_beta classify_quiet)

lemma refs_write_sets [simp]: "refs_inv Y (write_sets X cage a s r v e w) \<longleftrightarrow> refs_inv Y w"
  by (simp add: write_sets_def write_set_arg_def split: option.split)

lemma select_good:
  assumes "env_ok X" "refs_inv X w"
  shows "good X (ipc_select_handler X w a g)"
proof -
  have "good X (select_local X n a g s w)" for n s
    using assms by (auto simp: select_local_def env_okD [OF assms(1)] select_wait_loop.simps Let_def split_beta select_quiet)
  moreover have "refs_inv X (snd (select_forward X a g s w))" for s
    using assms by (simp add: select_forward_def Let_def split_beta)
  ultimately show ?thesis using assms by (simp add: ipc_select_handler_def Let_def split_beta select_quiet)
qed

lemma epoll_wait_good:
  assumes "env_ok X" "refs_inv X w"
  shows "good X (ipc_epoll_wait_handler X w a g)"
  using assms by (auto simp: ipc_epoll_wait_handler_def epoll_wait_open_def epoll_finish_def Let_def split_beta epoll_quiet split: option.split)

lemma epoll_ctl_good:
  assumes "env_ok X" "refs_inv X w"
  shows "good X (ipc_epoll_ctl_handler X w a g)"
proof -
  have "refs_inv X (snd (epoll_ctl_ipc X w a g))" using assms by (auto simp: epoll_ctl_ipc_def Let_def split: option.split)
  then show ?thesis using assms by (auto simp: ipc_epoll_ctl_handler_def Let_def split: option.split)
qed

section \<open>Descriptors of the runtime\<close>

text \<open>A descriptor at a free place; no callback is made.\<close>

lemma set_free_fd:
  assumes "fdtables_ok (ie_fd X)" "refs_inv X w" "translate_virtual_fd (ie_fd X) (fdt w) cage fd = None" "kind \<noteq> IPC_PIPE"
  shows "refs_inv X (ipc_set_fd X w cage fd kind u ce p)"
proof (cases "get_specific_virtual_fd (ie_fd X) (fdt w) cage fd kind u ce p")
  case None
  then show ?thesis using assms(2) by (simp add: ipc_set_fd_def)
next
  case (Some ft)
  then show ?thesis using new_fd_refs [OF assms(2,3) fd_specific_law [OF assms(1) Some] assms(4)] assms(3) by (simp add: ipc_set_fd_def)
qed

lemma set_fd_tables:
  assumes "fdtables_ok (ie_fd X)"
  shows "ipcs (ipc_set_fd X w cage fd IPC_FDKIND_KERNEL u ce p) = ipcs w \<or> translate_virtual_fd (ie_fd X) (fdt w) cage fd \<noteq> None"
    and "fd' \<noteq> fd \<Longrightarrow> translate_virtual_fd (ie_fd X) (fdt (ipc_set_fd X w cage fd kind u ce p)) c fd' = translate_virtual_fd (ie_fd X) (fdt w) c fd'"
    and "open_fds (ie_fd X) (fdt (ipc_set_fd X w cage fd kind u ce p)) \<subseteq> insert (cage, fd) (open_fds (ie_fd X) (fdt w))"
proof -
  note l = fd_specific_law [OF assms, of "fdt w" cage fd kind u ce p]
  show "fd' \<noteq> fd \<Longrightarrow> translate_virtual_fd (ie_fd X) (fdt (ipc_set_fd X w cage fd kind u ce p)) c fd' = translate_virtual_fd (ie_fd X) (fdt w) c fd'"
    by (auto simp: ipc_set_fd_def fd_mapsD [OF l] split: option.split)
  show "open_fds (ie_fd X) (fdt (ipc_set_fd X w cage fd kind u ce p)) \<subseteq> insert (cage, fd) (open_fds (ie_fd X) (fdt w))"
    by (auto simp: ipc_set_fd_def open_fds_def fd_mapsD [OF l] split: option.split_asm if_splits)
qed (auto simp: ipc_set_fd_def split: option.split)

lemma kernel_is_no_pipe [simp]: "IPC_FDKIND_KERNEL \<noteq> IPC_PIPE" "IPC_SOCKET \<noteq> IPC_PIPE" "IPC_EPOLL \<noteq> IPC_PIPE"
  by (simp_all add: IPC_FDKIND_KERNEL_def IPC_PIPE_def IPC_SOCKET_def IPC_EPOLL_def)

text \<open>The three standard descriptors of a table that has none of them.\<close>

lemma stdio_refs:
  assumes "fdtables_ok (ie_fd X)" "refs_inv X w"
    "\<And>fd. fd \<in> set fds \<Longrightarrow> translate_virtual_fd (ie_fd X) (fdt w) cage fd = None" "distinct fds"
  defines "w' \<equiv> fold (\<lambda>fd w. ipc_set_fd X w cage fd IPC_FDKIND_KERNEL fd False 0) fds w"
  shows "refs_inv X w' \<and> open_fds (ie_fd X) (fdt w') \<subseteq> Pair cage ` set fds \<union> open_fds (ie_fd X) (fdt w) \<and> ipcs w' = ipcs w"
  using assms(2-4) unfolding w'_def
proof (induction fds arbitrary: w)
  case (Cons fd fds)
  let ?w = "ipc_set_fd X w cage fd IPC_FDKIND_KERNEL fd False 0"
  have none: "translate_virtual_fd (ie_fd X) (fdt w) cage fd = None" using Cons.prems(2) by simp
  have r: "refs_inv X ?w" by (rule set_free_fd [OF assms(1) Cons.prems(1) none]) simp
  have s: "ipcs ?w = ipcs w" using set_fd_tables(1) [OF assms(1), of w cage fd] none by simp
  have o: "open_fds (ie_fd X) (fdt ?w) \<subseteq> insert (cage, fd) (open_fds (ie_fd X) (fdt w))" by (rule set_fd_tables(3) [OF assms(1)])
  have t: "translate_virtual_fd (ie_fd X) (fdt ?w) cage fd' = None" if "fd' \<in> set fds" for fd'
  proof -
    have "fd' \<noteq> fd" using that Cons.prems(3) by auto
    from set_fd_tables(2) [OF assms(1) this] show ?thesis using Cons.prems(2) that by simp
  qed
  have d: "distinct fds" using Cons.prems(3) by simp
  show ?case using Cons.IH [OF r t d] o s by auto
qed simp

lemma ensure_refs:
  fixes cage :: nat
  assumes "env_ok X" "refs_inv X w"
  defines "w' \<equiv> ensure_cage_fdtable X w cage"
  shows "refs_inv X w'" "card (open_fds (ie_fd X) (fdt w')) \<le> card (open_fds (ie_fd X) (fdt w)) + 3" "ipcs w' = ipcs w"
proof -
  note F = env_okD(1) [OF assms(1)] and i = refs_invD [OF assms(2)]
  have "refs_inv X w' \<and> card (open_fds (ie_fd X) (fdt w')) \<le> card (open_fds (ie_fd X) (fdt w)) + 3 \<and> ipcs w' = ipcs w"
  proof (cases "check_cage_exists (ie_fd X) (fdt w) cage")
    case True
    then show ?thesis using assms(1,2) by (simp add: w'_def ensure_cage_fdtable_def)
  next
    case False
    let ?w = "w\<lparr>fdt := init_empty_cage (ie_fd X) (fdt w) cage\<rparr>"
    note l = fd_cage_law [OF F False]
    have o: "open_fds (ie_fd X) (fdt ?w) = open_fds (ie_fd X) (fdt w)" "end_count (ie_fd X) (fdt ?w) = end_count (ie_fd X) (fdt w)"
      by (simp_all add: open_fds_def end_count_def pipe_ends_def l(3) fun_eq_iff)
    have r: "refs_inv X ?w" using i o by (simp add: refs_inv_def)
    have n: "translate_virtual_fd (ie_fd X) (fdt ?w) cage fd = None" for fd using l(2,3) by simp
    have w': "w' = fold (\<lambda>fd w. ipc_set_fd X w cage fd IPC_FDKIND_KERNEL fd False 0) [0, 1, 2] ?w"
      using assms(1,2) False by (simp add: w'_def ensure_cage_fdtable_def reserve_stdio_def)
    have st: "refs_inv X w'" "open_fds (ie_fd X) (fdt w') \<subseteq> Pair cage ` set [0, 1, 2] \<union> open_fds (ie_fd X) (fdt w)" "ipcs w' = ipcs w"
      using stdio_refs [OF F r n, of "[0, 1, 2]"] o(1) unfolding w' by simp_all
    from card_mono [OF _ st(2)] have "card (open_fds (ie_fd X) (fdt w')) \<le> card (Pair cage ` set [0, 1, 2 :: nat] \<union> open_fds (ie_fd X) (fdt w))"
      using i(3) by simp
    also have "\<dots> \<le> card (Pair cage ` set [0, 1, 2 :: nat]) + card (open_fds (ie_fd X) (fdt w))" by (rule card_Un_le)
    also have "card (Pair cage ` set [0, 1, 2 :: nat]) \<le> 3" by (rule order_trans [OF card_image_le]) simp_all
    finally show ?thesis using st(1,3) by simp
  qed
  then show "refs_inv X w'" "card (open_fds (ie_fd X) (fdt w')) \<le> card (open_fds (ie_fd X) (fdt w)) + 3" "ipcs w' = ipcs w" by simp_all
qed

lemma room_few: "has_room X w \<Longrightarrow> few_fds X w"
  by (simp add: has_room_def few_fds_def)

lemma ensure_few:
  assumes "env_ok X" "refs_inv X w" "has_room X w"
  shows "few_fds X (ensure_cage_fdtable X w cage)" "next_pipe_id (ipcs (ensure_cage_fdtable X w cage)) + 1 < 2 ^ 64"
  using ensure_refs(2,3) [OF assms(1,2), of cage] assms(3) by (simp_all add: few_fds_def has_room_def)

lemma alloc_refs:
  assumes "env_ok X" "refs_inv X w" "kind \<noteq> IPC_PIPE"
  shows "get_unused_virtual_fd (ie_fd X) (fdt w) cage kind u ce p = Some (fd, ft) \<Longrightarrow> refs_inv X (w\<lparr>fdt := ft\<rparr>)"
    and "get_unused_virtual_fd_from_startfd (ie_fd X) (fdt w) cage kind u ce p m = Some (fd, ft) \<Longrightarrow> refs_inv X (w\<lparr>fdt := ft\<rparr>)"
proof -
  note n = new_fd_refs [OF assms(2) _ _ assms(3)] and F = env_okD(1) [OF assms(1)]
  show "get_unused_virtual_fd (ie_fd X) (fdt w) cage kind u ce p = Some (fd, ft) \<Longrightarrow> refs_inv X (w\<lparr>fdt := ft\<rparr>)"
    by (rule n) (use fd_alloc_law [OF F] in blast)+
  show "get_unused_virtual_fd_from_startfd (ie_fd X) (fdt w) cage kind u ce p m = Some (fd, ft) \<Longrightarrow> refs_inv X (w\<lparr>fdt := ft\<rparr>)"
    by (rule n) (use fd_startfd_law [OF F] in blast)+
qed

lemma room_frame [simp]: "has_room Y (snd (forward_syscall X w nr c as gs)) \<longleftrightarrow> has_room Y w"
  by (simp add: has_room_def)

lemma register_refs:
  assumes "env_ok X" "refs_inv X w"
  shows "refs_inv X (snd (register_kernel_fd X w cage r ce p))"
  using ensure_refs(1) [OF assms(1,2), of cage] alloc_refs(1) [OF assms(1) ensure_refs(1) [OF assms(1,2), of cage] kernel_is_no_pipe(1)]
  by (auto simp: register_kernel_fd_def Let_def split: option.split)

lemma open_forward_refs [simp]:
  assumes "env_ok X" "refs_inv X w"
  shows "refs_inv X (snd (open_forward nr ce p X w as g))"
  using assms by (auto simp: open_forward_def split_beta intro!: register_refs)

lemma open_good:
  assumes "env_ok X" "refs_inv X w"
  shows "good X (ipc_open_handler X w a g)" "good X (ipc_openat_handler X w a g)"
proof -
  obtain r where "translate_dirfd X w (g ! 0) (a ! 0) = (r, w)" using dirfd_refs [OF assms(1,2)] .
  then show "good X (ipc_open_handler X w a g)" "good X (ipc_openat_handler X w a g)"
    using assms by (auto simp: ipc_open_handler_def ipc_openat_handler_def Let_def split: option.split)
qed

section \<open>Duplicating and closing\<close>

lemma dup_refs:
  assumes "env_ok X" "refs_inv X w" "ipc_info (ie_fd X) (fdt w) cage fd = Some (u, kind, flags)"
  shows "get_unused_virtual_fd (ie_fd X) (fdt w) cage kind u ce (as_u64 (sint flags)) = Some (new, ft) \<Longrightarrow>
      refs_inv X (w\<lparr>fdt := ft, ipcs := add_refs kind u flags (ipcs w)\<rparr>)"
    and "get_unused_virtual_fd_from_startfd (ie_fd X) (fdt w) cage kind u ce (as_u64 (sint flags)) m = Some (new, ft) \<Longrightarrow>
      refs_inv X (w\<lparr>fdt := ft, ipcs := add_refs kind u flags (ipcs w)\<rparr>)"
proof -
  note n = dup_fd_refs [OF assms(2,3)] and F = env_okD(1) [OF assms(1)]
  show "get_unused_virtual_fd (ie_fd X) (fdt w) cage kind u ce (as_u64 (sint flags)) = Some (new, ft) \<Longrightarrow>
      refs_inv X (w\<lparr>fdt := ft, ipcs := add_refs kind u flags (ipcs w)\<rparr>)"
    by (rule n) (use fd_alloc_law [OF F] in blast)+
  show "get_unused_virtual_fd_from_startfd (ie_fd X) (fdt w) cage kind u ce (as_u64 (sint flags)) m = Some (new, ft) \<Longrightarrow>
      refs_inv X (w\<lparr>fdt := ft, ipcs := add_refs kind u flags (ipcs w)\<rparr>)"
    by (rule n) (use fd_startfd_law [OF F] in blast)+
qed

lemma close_good:
  assumes "env_ok X" "refs_inv X w" "has_room X w"
  shows "good X (ipc_close_handler X w a g)"
proof -
  note c = close_fd_refs [OF env_okD(1) [OF assms(1)]] and f = room_few [OF assms(3)]
  have "refs_inv X (ipc_close_fd X (snd (forward_syscall X w nr cg as gs)) cage fd)" for nr cg as gs cage fd
    using assms(2) f by (intro c) (simp_all add: few_fds_def)
  then show ?thesis using assms(1,2) c [OF assms(2) f]
    by (auto simp: ipc_close_handler_def Let_def split_beta split: option.split)
qed

lemma dup_good:
  assumes "env_ok X" "refs_inv X w"
  shows "good X (ipc_dup_handler X w a g)"
  using assms dup_refs(1) [OF assms(1,2)] by (auto simp: ipc_dup_handler_def Let_def split: option.split)

lemma dupfd_good:
  assumes "env_ok X" "refs_inv X w"
  shows "good X (dupfd ce X w a g)"
proof -
  let ?w = "\<lambda>nr as gs. ensure_cage_fdtable X (snd (forward_syscall X w nr (g ! 0) as gs)) (g ! 0)"
  have e: "refs_inv X (?w nr as gs)" for nr as gs using assms by (intro ensure_refs(1)) simp_all
  show ?thesis using assms dup_refs(2) [OF assms(1,2)] e alloc_refs(2) [OF assms(1) e kernel_is_no_pipe(1)]
    by (auto simp: dupfd_def Let_def split_beta split: option.split)
qed

text \<open>The target of a \<open>dup2\<close> is a number the tables accept.\<close>

definition dup_target_ok :: "('ft, 'rb) ipc_env \<Rightarrow> ('ft, 'rb) ipc_world \<Rightarrow> nat \<Rightarrow> nat \<Rightarrow> bool" where
  "dup_target_ok X w cage fd \<longleftrightarrow> (\<forall>k u ce p. get_specific_virtual_fd (ie_fd X) (fdt w) cage fd k u ce p \<noteq> None)"

lemma close_old_frame [simp]:
  "fdt (close_old_runtime X w cage fd) = fdt w" "ipcs (close_old_runtime X w cage fd) = ipcs w" "pendings (close_old_runtime X w cage fd) = pendings w"
  by (simp_all add: close_old_runtime_def split: option.split)

lemma refs_close_old [simp]: "refs_inv Y (close_old_runtime X w cage fd) \<longleftrightarrow> refs_inv Y w"
  by (rule frame_iff) simp_all

lemma dup2_good:
  assumes "env_ok X" "refs_inv X w" "has_room X w" "dup_target_ok X w (g ! 0) (a ! 1)"
  shows "good X (ipc_dup2_handler X w a g)"
proof -
  let ?c = "g ! 0" and ?new = "a ! 1"
  note F = env_okD(1) [OF assms(1)]
  have ipc: "refs_inv X (w'\<lparr>ipcs := add_refs kind u flags (ipcs w')\<rparr>)"
    if "ipc_info (ie_fd X) (fdt w) ?c (a ! 0) = Some (u, kind, flags)" "?new \<noteq> a ! 0"
      "w' = ipc_set_fd X (close_old_runtime X w ?c ?new) ?c ?new kind u False (as_u64 (sint flags))" for u kind flags w'
  proof -
    let ?w = "close_old_runtime X w ?c ?new"
    obtain ft where "get_specific_virtual_fd (ie_fd X) (fdt ?w) ?c ?new kind u False (as_u64 (sint flags)) = Some ft"
      using assms(4) unfolding dup_target_ok_def by fastforce
    then show ?thesis using that assms(2) room_few [OF assms(3)]
      by (intro dup2_fd_refs [OF F, of ?w, where ft = ft and c = ?c and new = ?new and fd = "a ! 0"])
        (simp_all add: few_fds_def)
  qed
  have runtime: "refs_inv X (ipc_set_fd X (close_old_runtime X (ensure_cage_fdtable X (snd (forward_syscall X w nr ?c as gs)) ?c) ?c ?new)
      ?c ?new IPC_FDKIND_KERNEL u False 0)" for nr as gs u
  proof -
    let ?w = "snd (forward_syscall X w nr ?c as gs)"
    have "refs_inv X ?w" "has_room X ?w" using assms by simp_all
    note e = ensure_refs(1) [OF assms(1) this(1), of ?c] and f = ensure_few(1) [OF assms(1) this, of ?c]
    show ?thesis using e f
      by (intro set_fd_refs [OF F]) (simp_all add: few_fds_def)
  qed
  show ?thesis using assms(1,2) ipc runtime
    by (auto simp: ipc_dup2_handler_def Let_def split_beta split: option.split)
qed

lemma fcntl_good:
  assumes "env_ok X" "refs_inv X w" "has_room X w"
  shows "good X (ipc_fcntl_handler X w a g)"
proof -
  let ?c = "g ! 0" and ?fd = "a ! 0"
  note F = env_okD(1) [OF assms(1)]
  have setfl: "refs_inv X (w\<lparr>fdt := ft\<rparr>)"
    if info: "ipc_info (ie_fd X) (fdt w) ?c ?fd = Some (u, kind, flags)"
      and p: "set_perfdinfo (ie_fd X) (fdt w) ?c ?fd (as_u64 (sint ((flags AND IPC_O_ACCMODE) OR (x AND NOT IPC_O_ACCMODE)))) = Some ft" for u kind flags x ft
  proof -
    obtain e where e: "translate_virtual_fd (ie_fd X) (fdt w) ?c ?fd = Some e" "fdkind e = kind" "underfd e = u" "word_of_nat (perfdinfo e) = flags"
      using dup_entry [OF info] .
    let ?p = "as_u64 (sint ((flags AND IPC_O_ACCMODE) OR (x AND NOT IPC_O_ACCMODE)))"
    have "fd_maps (ie_fd X) (fdt w) ?c ?fd (Some (e\<lparr>perfdinfo := ?p\<rparr>)) ft" using fd_perfd_law [OF F e(1), of ?p] p by auto
    then show ?thesis
      by (rule same_hits_refs [OF assms(2) e(1)]) (simp add: hits_def i32_u64_roundtrip setfl_access_mode e(4))
  qed
  have setfd: "refs_inv X (w\<lparr>fdt := ft\<rparr>)" if ce: "set_cloexec (ie_fd X) (fdt w) ?c ?fd ce = Some ft" for ce ft
  proof -
    from bulk_cloexec [OF env_okD(2) [OF assms(1)] ce] obtain e where e: "translate_virtual_fd (ie_fd X) (fdt w) ?c ?fd = Some e"
      "fd_maps (ie_fd X) (fdt w) ?c ?fd (Some (e\<lparr>should_cloexec := ce\<rparr>)) ft" .
    show ?thesis by (rule same_hits_refs [OF assms(2) e]) (simp add: hits_def)
  qed
  show ?thesis using assms dupfd_good [OF assms(1,2)] setfl setfd
    by (auto simp: ipc_fcntl_handler_def Let_def split: option.split)
qed

section \<open>Processes\<close>

lemma exec_stdio_refs:
  assumes "fdtables_ok (ie_fd X)" "refs_inv X w"
  shows "refs_inv X (fold (\<lambda>fd w. if translate_virtual_fd (ie_fd X) (fdt w) cage fd = None
      then ipc_set_fd X w cage fd IPC_FDKIND_KERNEL fd False 0 else w) fds w)"
  using assms(2) by (induction fds arbitrary: w) (simp_all add: set_free_fd [OF assms(1)])

lemma process_good:
  assumes "env_ok X" "refs_inv X w" "has_room X w"
  shows "good X (ipc_exec_handler X w a g)" "good X (ipc_exit_handler X w a g)" "good X (ipc_exit_group_handler X w a g)"
proof -
  note E = env_okD [OF assms(1)] and f = room_few [OF assms(3)]
  show "good X (ipc_exec_handler X w a g)"
    using assms exec_stdio_refs [OF E(1) exec_close_refs [OF E(2) assms(2) f, of "g ! 0"], of "g ! 0" "[0, 1, 2]"]
    by (simp add: ipc_exec_handler_def Let_def split: bool.split)
  show "good X (ipc_exit_handler X w a g)" "good X (ipc_exit_group_handler X w a g)"
    using remove_cage_refs [OF E(1,2) assms(2) f, of "g ! 0"]
    by (simp_all add: ipc_exit_handler_def ipc_exit_group_handler_def exit_common_def Let_def)
qed

lemma fork_good:
  assumes "env_ok X" "refs_inv X w" "has_room X w" "fresh_child X w"
  shows "good X (ipc_fork_handler X w a g)"
  using fork_refs [OF env_okD(1-3) [OF assms(1)] assms(2) room_few [OF assms(3)] assms(4)]
  by (auto simp: good_def split: option.split)

lemma epoll_create_good:
  assumes "env_ok X" "refs_inv X w" "has_room X w"
  shows "good X (ipc_epoll_create_handler X w a g)" "good X (ipc_epoll_create1_handler X w a g)"
proof -
  have "refs_inv X (snd (register_ipc_epoll_fd X (snd (forward_syscall X w nr cg as gs)) cage r ce))" for nr cg as gs cage r ce
  proof -
    let ?w = "snd (forward_syscall X w nr cg as gs)"
    have e: "refs_inv X (ensure_cage_fdtable X ?w cage)" using assms by (intro ensure_refs(1)) simp_all
    note a = alloc_refs(1) [OF assms(1) e kernel_is_no_pipe(3)]
    have "refs_inv X (ensure_cage_fdtable X ?w cage\<lparr>fdt := ft, ipcs := (ipcs (ensure_cage_fdtable X ?w cage))\<lparr>epoll_targets := m\<rparr>\<rparr>)"
      if "get_unused_virtual_fd (ie_fd X) (fdt (ensure_cage_fdtable X ?w cage)) cage IPC_EPOLL u ce p = Some (fd, ft)" for u ce p fd ft m
      using refs_other(1) [of X m "ensure_cage_fdtable X ?w cage\<lparr>fdt := ft\<rparr>"] a [OF that] by simp
    then show ?thesis using e by (auto simp: register_ipc_epoll_fd_def Let_def split: option.split)
  qed
  then show "good X (ipc_epoll_create_handler X w a g)" "good X (ipc_epoll_create1_handler X w a g)"
    using assms(2) by (simp_all add: ipc_epoll_create_handler_def ipc_epoll_create1_handler_def epoll_create_common_def split_beta)
qed

section \<open>New pipes\<close>

text \<open>The number of a new pipe has no descriptor yet.\<close>

lemma new_pipe_unused:
  assumes "refs_inv X w"
  shows "end_count (ie_fd X) (fdt w) (next_pipe_id (ipcs w)) rd = 0"
proof (rule ccontr)
  assume "end_count (ie_fd X) (fdt w) (next_pipe_id (ipcs w)) rd \<noteq> 0"
  then have "0 < end_count (ie_fd X) (fdt w) (next_pipe_id (ipcs w)) rd" by simp
  from tracksD [OF refs_invD(2) [OF assms] this] obtain i where "pipes (ipcs w) (next_pipe_id (ipcs w)) = Some i" .
  from separateD(2) [OF refs_invD(1) [OF assms] this] show False by simp
qed

definition with_pipe :: "'rb ringbuf_ops \<Rightarrow> 'rb ipc_state \<Rightarrow> 'rb ipc_state" where
  "with_pipe R s = s\<lparr>next_pipe_id := (next_pipe_id s + 1) mod 2 ^ 64, store := store s @ [pipe_new R PIPE_CAPACITY],
     pipes := (pipes s)(next_pipe_id s \<mapsto> length (store s))\<rparr>"

lemma with_pipe_separate:
  assumes "separate s" "next_pipe_id s + 1 < 2 ^ 64"
  shows "separate (with_pipe R s)"
  using separateD [OF assms(1)] assms(2) unfolding separate_def with_pipe_def
  by (auto simp: nth_append less_Suc_eq split: if_splits) (metis less_irrefl)+

lemma with_pipe_tracks:
  assumes "separate s" "tracks n s" "\<And>rd. n' (next_pipe_id s) rd = of_bool on" "\<And>pid rd. pid \<noteq> next_pipe_id s \<Longrightarrow> n' pid rd = n pid rd"
  shows "tracks n' (with_pipe R s)"
  unfolding tracks_def
proof (intro allI impI)
  fix pid assume pos: "0 < n' pid True + n' pid False"
  show "\<exists>i. pipes (with_pipe R s) pid = Some i \<and> read_refs (store (with_pipe R s) ! i) = of_nat (n' pid True) \<and>
      write_refs (store (with_pipe R s) ! i) = of_nat (n' pid False) \<and> (p_eof (store (with_pipe R s) ! i) \<longleftrightarrow> n' pid False = 0)"
  proof (cases "pid = next_pipe_id s")
    case True
    then show ?thesis using pos assms(3) by (cases on) (simp_all add: with_pipe_def pipe_new_def)
  next
    case False
    then have e: "n' pid rd = n pid rd" for rd using assms(4) by blast
    from pos obtain i where i: "pipes s pid = Some i" "read_refs (store s ! i) = of_nat (n pid True)"
      "write_refs (store s ! i) = of_nat (n pid False)" "p_eof (store s ! i) \<longleftrightarrow> n pid False = 0"
      unfolding e by (rule tracksE [OF assms(2)])
    then show ?thesis using False separateD(1) [OF assms(1) i(1)] unfolding e by (auto simp: with_pipe_def nth_append)
  qed
qed

lemma create_pipe_refs:
  assumes F: "fdtables_ok (ie_fd X)" and w: "refs_inv X w" "next_pipe_id (ipcs w) + 1 < 2 ^ 64"
    and c: "create_pipe (ie_fd X) R (ipcs w) (fdt w) cage flags = (res, s, ft)" and l: "\<not> create_pipe_locks X w cage flags"
    and w': "ipcs w' = s" "fdt w' = ft" "pendings w' = pendings w"
  shows "refs_inv X w'"
proof -
  note i = refs_invD [OF w(1)]
  let ?pid = "next_pipe_id (ipcs w)" and ?ce = "flags AND IPC_O_CLOEXEC \<noteq> 0" and ?fl = "flags AND IPC_O_NONBLOCK"
  let ?alloc = "\<lambda>ft x. get_unused_virtual_fd (ie_fd X) ft cage IPC_PIPE ?pid ?ce (as_u64 (sint (x OR ?fl)))"
  have s: "s = with_pipe R (ipcs w)" using c by (auto simp: create_pipe_def with_pipe_def Let_def split: option.splits)
  have sep: "separate s" unfolding s by (rule with_pipe_separate [OF i(1) w(2)])
  have old: "end_count (ie_fd X) (fdt w) ?pid rd = 0" for rd by (rule new_pipe_unused [OF w(1)])
  show ?thesis
  proof (cases "?alloc (fdt w) IPC_O_RDONLY")
    case None
    then have "ft = fdt w" using c by (simp add: create_pipe_def Let_def)
    moreover have "tracks (end_count (ie_fd X) (fdt w)) s" unfolding s
      by (rule with_pipe_tracks [OF i(1,2), where on = False]) (simp_all add: old)
    ultimately show ?thesis using sep i w' by (simp add: refs_inv_def)
  next
    case (Some a)
    obtain rfd ft1 where a1: "?alloc (fdt w) IPC_O_RDONLY = Some (rfd, ft1)" using Some by (cases a) simp
    obtain wfd ft2 where a2: "?alloc ft1 IPC_O_WRONLY = Some (wfd, ft2)" using l a1 by (auto simp: create_pipe_locks_def Let_def)
    have ft: "ft = ft2" using c a1 a2 by (simp add: create_pipe_def Let_def)
    note l1 = fd_alloc_law [OF F a1] and l2 = fd_alloc_law [OF F a2]
    have f1: "finite (open_fds (ie_fd X) ft1)" using i(3) by (simp add: open_fds_maps [OF conjunct2 [OF l1]])
    have f2: "finite (open_fds (ie_fd X) ft2)" using f1 by (simp add: open_fds_maps [OF conjunct2 [OF l2]])
    have n1: "end_count (ie_fd X) ft1 pid rd = end_count (ie_fd X) (fdt w) pid rd + of_bool (pid = ?pid \<and> rd)" for pid rd
      using end_count_maps(1) [OF conjunct2 [OF l1] i(3), of pid rd] l1 by (auto simp: opt_hits_def hits_def i32_u64_roundtrip pipe_end_flags)
    have n2: "end_count (ie_fd X) ft2 pid rd = end_count (ie_fd X) ft1 pid rd + of_bool (pid = ?pid \<and> \<not> rd)" for pid rd
      using end_count_maps(1) [OF conjunct2 [OF l2] f1, of pid rd] l2 by (auto simp: opt_hits_def hits_def i32_u64_roundtrip pipe_end_flags)
    have "tracks (end_count (ie_fd X) ft2) s" unfolding s
      by (rule with_pipe_tracks [OF i(1,2), where on = True]) (auto simp: n1 n2 old)
    then show ?thesis using sep f2 i w' ft by (simp add: refs_inv_def)
  qed
qed

lemma pipe_good:
  assumes "env_ok X" "refs_inv X w" "has_room X w"
  shows "good X (ipc_pipe_handler X w a g)" "good X (ipc_pipe2_handler X w a g)"
proof -
  have "good X (pipe_common flags X w a g)" for flags
  proof -
    let ?w = "ensure_cage_fdtable X w (g ! 0)"
    note e = ensure_refs(1) [OF assms(1,2), of "g ! 0"] and n = ensure_few(2) [OF assms, of "g ! 0"]
    have "refs_inv X (?w\<lparr>fdt := ft, ipcs := s\<rparr>)" "refs_inv X (?w\<lparr>ipcs := s, fdt := ft\<rparr>)"
      if "create_pipe (ie_fd X) (ie_ring X) (ipcs ?w) (fdt ?w) (g ! 0) flags = (res, s, ft)" "\<not> create_pipe_locks X ?w (g ! 0) flags" for res s ft
      using create_pipe_refs [OF env_okD(1) [OF assms(1)] e n that] by simp_all
    then show ?thesis by (auto simp: pipe_common_def Let_def split: prod.split sum.split)
  qed
  then show "good X (ipc_pipe_handler X w a g)" "good X (ipc_pipe2_handler X w a g)"
    by (simp_all add: ipc_pipe_handler_def ipc_pipe2_handler_def)
qed

section \<open>Sockets\<close>

lemma socks_refs:
  assumes "refs_inv X w" "socket_pipes reg \<subseteq> socket_pipes (socks (ipcs w))"
  shows "refs_inv X (w\<lparr>ipcs := (ipcs w)\<lparr>socks := reg\<rparr>\<rparr>)"
proof -
  note i = refs_invD [OF assms(1)]
  have "separate ((ipcs w)\<lparr>socks := reg\<rparr>)" by (rule separate_cong [OF _ _ _ _ i(1)]) (use assms(2) in simp_all)
  then show ?thesis using i by (simp add: refs_inv_def tracks_def)
qed

text \<open>New pipes that only sockets use.\<close>

lemma grow_refs:
  assumes "refs_inv X w" "socket_pipes reg \<subseteq> socket_pipes (socks (ipcs w)) \<union> {length (store (ipcs w))..<length (store (ipcs w)) + length ps}"
  shows "refs_inv X (w\<lparr>ipcs := (ipcs w)\<lparr>store := store (ipcs w) @ ps, socks := reg\<rparr>\<rparr>)"
proof -
  note i = refs_invD [OF assms(1)] and d = separateD [OF refs_invD(1) [OF assms(1)]]
  have sub: "x \<in> socket_pipes (socks (ipcs w)) \<or> length (store (ipcs w)) \<le> x \<and> x < length (store (ipcs w)) + length ps" if "x \<in> socket_pipes reg" for x
    using assms(2) that by auto
  have "separate ((ipcs w)\<lparr>store := store (ipcs w) @ ps, socks := reg\<rparr>)"
    unfolding separate_def using d sub by (auto simp: trans_less_add1) (meson leD trans_less_add1)+
  moreover have "tracks (end_count (ie_fd X) (fdt w)) ((ipcs w)\<lparr>store := store (ipcs w) @ ps, socks := reg\<rparr>)"
    by (rule tracks_same [OF i(2)]) (use d(1) in \<open>auto simp: nth_append\<close>)
  ultimately show ?thesis using i by (simp add: refs_inv_def)
qed

text \<open>What the operations of the registry do to the pipes in use.\<close>

lemma socket_pipes_other:
  "socket_pipes (reg\<lparr>next_socket_id := a\<rparr>) = socket_pipes reg" "socket_pipes (reg\<lparr>bound_paths := b\<rparr>) = socket_pipes reg"
  by (simp_all add: socket_pipes_def)

lemma socket_pipes_mod:
  assumes "\<And>k i. sendpipe (f k) = Some i \<or> recvpipe (f k) = Some i \<Longrightarrow> sendpipe k = Some i \<or> recvpipe k = Some i \<or> i \<in> N"
  shows "socket_pipes (registry_mod reg sid f) \<subseteq> socket_pipes reg \<union> N"
proof (cases "sockets reg sid")
  case (Some k)
  then show ?thesis using assms [of k] by (auto simp: registry_mod_def socket_pipes_def split: if_splits) blast+
qed (simp add: registry_mod_def)

lemma socket_pipes_remove: "socket_pipes (registry_remove reg sid) \<subseteq> socket_pipes reg"
  by (auto simp: registry_remove_def socket_pipes_def Let_def split: option.split if_splits)

lemma socket_pipes_create: "socket_pipes (snd (create_socket reg d ty fl)) \<subseteq> socket_pipes reg"
  by (auto simp: create_socket_def socket_pipes_def socket_info_new_def Let_def split: if_splits)

lemma upd_socks_refs:
  assumes "refs_inv X w" "\<And>reg. socket_pipes (f reg) \<subseteq> socket_pipes reg"
  shows "refs_inv X (upd_socks f w)"
  using socks_refs [OF assms(1,2)] by (simp add: upd_socks_def)

lemma new_socket_refs:
  assumes "refs_inv X w"
  shows "refs_inv X (snd (new_socket d ty w))" "fdt (snd (new_socket d ty w)) = fdt w" "store (ipcs (snd (new_socket d ty w))) = store (ipcs w)"
  using socks_refs [OF assms socket_pipes_create] by (simp_all add: new_socket_def split_beta)

lemma remove_socket_refs: "refs_inv X w \<Longrightarrow> refs_inv X (upd_socks (\<lambda>reg. registry_remove reg sid) w)"
  by (rule upd_socks_refs) (simp_all add: socket_pipes_remove)

lemma bind_socket_refs: "refs_inv X w \<Longrightarrow> refs_inv X (bind_socket sid addr w)"
  unfolding bind_socket_def
proof (rule upd_socks_refs)
  fix reg show "socket_pipes ((registry_mod reg sid (\<lambda>k. k\<lparr>local_addr := Some addr\<rparr>))\<lparr>bound_paths := (bound_paths reg)(addr \<mapsto> sid)\<rparr>) \<subseteq> socket_pipes reg"
    using socket_pipes_mod [of "\<lambda>k. k\<lparr>local_addr := Some addr\<rparr>" "{}" reg sid] by (simp add: socket_pipes_other)
qed

lemma state_refs: "refs_inv X w \<Longrightarrow> refs_inv X (upd_socks (\<lambda>reg. registry_mod reg sid (\<lambda>k. k\<lparr>s_state := c\<rparr>)) w)"
proof (rule upd_socks_refs)
  fix reg show "socket_pipes (registry_mod reg sid (\<lambda>k. k\<lparr>s_state := c\<rparr>)) \<subseteq> socket_pipes reg"
    using socket_pipes_mod [of "\<lambda>k. k\<lparr>s_state := c\<rparr>" "{}" reg sid] by simp
qed

lemma alloc_socket_refs:
  assumes "env_ok X" "refs_inv X w" "get_unused_virtual_fd (ie_fd X) (fdt w) cage IPC_SOCKET u ce p = Some (fd, ft)"
  shows "refs_inv X (w\<lparr>fdt := ft\<rparr>)"
  by (rule alloc_refs(1) [OF assms(1,2) kernel_is_no_pipe(2) assms(3)])

lemma socket_good:
  assumes "env_ok X" "refs_inv X w"
  shows "good X (ipc_socket_handler X w a g)"
proof -
  let ?w = "ensure_cage_fdtable X w (g ! 0)"
  note e = ensure_refs(1) [OF assms, of "g ! 0"]
  note n = new_socket_refs(1) [OF e]
  have p: "refs_inv X (snd (new_socket d ty (snd (open_forward nr ce p X ?w as g)))\<lparr>ipcs := (ipcs (snd (new_socket d ty (snd (open_forward nr ce p X ?w as g)))))\<lparr>pending_inet := m\<rparr>\<rparr>)"
    for d ty nr ce p as m
    unfolding refs_other by (rule new_socket_refs(1) [OF open_forward_refs [OF assms(1) e]])
  show ?thesis using assms e p remove_socket_refs [OF n] alloc_socket_refs [OF assms(1) n]
    by (auto simp: ipc_socket_handler_def Let_def split_beta split: option.split)
qed

lemma socketpair_pipes:
  assumes "create_socketpair R reg ps d ty fl = (ids, reg', ps')"
  shows "ps' = ps @ [pipe_new R UDSOCK_CAPACITY, pipe_new R UDSOCK_CAPACITY]"
    "socket_pipes reg' \<subseteq> socket_pipes reg \<union> {length ps..<length ps + 2}"
proof -
  let ?N = "{length ps..<length ps + 2}"
  let ?f = "\<lambda>a b k. k\<lparr>sendpipe := Some a, recvpipe := Some b, s_state := Connected\<rparr>"
  define r1 r2 where "r1 = snd (create_socket reg d ty fl)" and "r2 = snd (create_socket r1 d ty fl)"
  have c: "socket_pipes r2 \<subseteq> socket_pipes reg" unfolding r1_def r2_def using socket_pipes_create by blast
  have m: "socket_pipes (registry_mod x sid (?f a b)) \<subseteq> socket_pipes x \<union> ?N" if "a \<in> ?N" "b \<in> ?N" for x sid a b
    by (rule socket_pipes_mod) (use that in auto)
  define r3 where "r3 = registry_mod r2 (fst (create_socket reg d ty fl)) (?f (length ps) (length ps + 1))"
  have "reg' = registry_mod r3 (fst (create_socket r1 d ty fl)) (?f (length ps + 1) (length ps))"
    using assms by (simp add: create_socketpair_def Let_def split_beta r1_def r2_def r3_def)
  then have "socket_pipes reg' \<subseteq> socket_pipes r3 \<union> ?N" using m [of "length ps + 1" "length ps" r3] by simp
  moreover have "socket_pipes r3 \<subseteq> socket_pipes r2 \<union> ?N" unfolding r3_def by (rule m) simp_all
  ultimately show "socket_pipes reg' \<subseteq> socket_pipes reg \<union> ?N" using c by blast
  show "ps' = ps @ [pipe_new R UDSOCK_CAPACITY, pipe_new R UDSOCK_CAPACITY]" using assms by (simp add: create_socketpair_def Let_def split_beta)
qed

lemma socketpair_good:
  assumes "env_ok X" "refs_inv X w" "has_room X w"
  shows "good X (ipc_socketpair_handler X w a g)"
proof -
  let ?w = "ensure_cage_fdtable X w (g ! 0)" and ?ty = "as_i32 (int (a ! 1))" and ?ce = "arg_i32 (a ! 1) AND IPC_O_CLOEXEC \<noteq> 0"
  note e = ensure_refs(1) [OF assms(1,2), of "g ! 0"]
  obtain sid1 sid2 reg ps where c: "create_socketpair (ie_ring X) (socks (ipcs ?w)) (store (ipcs ?w)) (as_i32 (int (a ! 0))) ?ty 0 = ((sid1, sid2), reg, ps)"
    by (metis surj_pair)
  define w1 where "w1 = ?w\<lparr>ipcs := (ipcs ?w)\<lparr>socks := reg, store := ps\<rparr>\<rparr>"
  have "w1 = ?w\<lparr>ipcs := (ipcs ?w)\<lparr>store := ps, socks := reg\<rparr>\<rparr>" by (simp add: w1_def)
  then have r1: "refs_inv X w1" using grow_refs [OF e, of reg] socketpair_pipes [OF c] by simp
  have close: "refs_inv X (ipc_close_fd X (w1\<lparr>fdt := ft\<rparr>) (g ! 0) u)"
    if "get_unused_virtual_fd (ie_fd X) (fdt w1) (g ! 0) IPC_SOCKET v x p = Some (fd, ft)" for ft u v x p fd
  proof (rule close_fd_refs [OF env_okD(1) [OF assms(1)]])
    show "refs_inv X (w1\<lparr>fdt := ft\<rparr>)" by (rule alloc_socket_refs [OF assms(1) r1 that])
    have "open_fds (ie_fd X) ft \<subseteq> insert (g ! 0, fd) (open_fds (ie_fd X) (fdt w1))"
      using open_fds_maps [OF conjunct2 [OF fd_alloc_law [OF env_okD(1) [OF assms(1)] that]]] by auto
    from card_mono [OF _ this] have "card (open_fds (ie_fd X) ft) \<le> Suc (card (open_fds (ie_fd X) (fdt w1)))"
      using refs_invD(3) [OF r1] card_insert_le_m1 by (simp add: card_insert_if split: if_splits)
    then show "few_fds X (w1\<lparr>fdt := ft\<rparr>)"
      using ensure_refs(2) [OF assms(1,2), of "g ! 0"] assms(3) by (simp add: few_fds_def has_room_def w1_def)
  qed
  have both: "refs_inv X (w1\<lparr>fdt := ft2\<rparr>)"
    if "get_unused_virtual_fd (ie_fd X) (fdt w1) (g ! 0) IPC_SOCKET u x p = Some (fd, ft)"
      "get_unused_virtual_fd (ie_fd X) ft (g ! 0) IPC_SOCKET u2 x2 p2 = Some (fd2, ft2)" for u x p fd ft u2 x2 p2 fd2 ft2
    using alloc_socket_refs [OF assms(1) r1 that(1)] alloc_socket_refs [OF assms(1) alloc_socket_refs [OF assms(1) r1 that(1)], of "g ! 0" u2 x2 p2 fd2 ft2] that(2)
    by simp
  have ft: "fdt w1 = fdt ?w" by (simp add: w1_def)
  show ?thesis using e r1 close [unfolded ft] both [unfolded ft] c unfolding ipc_socketpair_handler_def Let_def
    by (auto simp: w1_def [symmetric] split: option.split)
qed

lemma close_taken_over_refs:
  assumes "env_ok X" "refs_inv X w"
  shows "refs_inv X (close_taken_over X w cage fd)" "fdt (close_taken_over X w cage fd) = fdt w" "ipcs (close_taken_over X w cage fd) = ipcs w"
  using assms by (auto simp: close_taken_over_def split: option.split)

lemma take_over_refs:
  assumes "env_ok X" "refs_inv X w" "has_room X w"
  shows "refs_inv X (ipc_set_fd X (close_taken_over X w cage fd) cage fd IPC_SOCKET sid ce p)"
  by (rule set_fd_refs [OF env_okD(1) [OF assms(1)]]) (use close_taken_over_refs [OF assms(1,2)] room_few [OF assms(3)] in \<open>simp_all add: few_fds_def\<close>)

lemma bind_good:
  assumes "env_ok X" "refs_inv X w" "has_room X w"
  shows "good X (ipc_bind_handler X w a g)"
proof -
  have inet: "good X (bind_inet X w a g buf n)" for buf n
    using assms take_over_refs [OF assms] remove_socket_refs [of X "drop_pending k w" for k]
    by (auto simp: bind_inet_def Let_def split_beta intro!: bind_socket_refs split: option.split)
  have unix: "refs_inv X (snd (bind_unix X w a g sid addr))" for sid addr
    using assms(2) by (auto simp: bind_unix_def Let_def split_beta intro!: bind_socket_refs)
  show ?thesis using assms inet unix by (auto simp: ipc_bind_handler_def Let_def split: option.split)
qed

lemma listen_good:
  assumes "env_ok X" "refs_inv X w"
  shows "good X (ipc_listen_handler X w a g)"
  using assms state_refs [OF assms(2)] by (auto simp: ipc_listen_handler_def split: option.split)

section \<open>Connections\<close>

definition conn_pipes :: "pending_connection \<Rightarrow> nat set" where
  "conn_pipes c = {pipe_to_listener c, pipe_to_connector c}"

lemma queued_pipes: "pending_connections reg addr = Some q \<Longrightarrow> c \<in> set q \<Longrightarrow> conn_pipes c \<subseteq> socket_pipes reg"
  unfolding socket_pipes_def conn_pipes_def by blast

lemma queue_pipes:
  "socket_pipes (reg\<lparr>pending_connections := (pending_connections reg)(addr \<mapsto> q)\<rparr>) \<subseteq> socket_pipes reg \<union> (\<Union>c \<in> set q. conn_pipes c)"
proof
  fix i assume "i \<in> socket_pipes (reg\<lparr>pending_connections := (pending_connections reg)(addr \<mapsto> q)\<rparr>)"
  then consider "\<exists>sid k. sockets reg sid = Some k \<and> (sendpipe k = Some i \<or> recvpipe k = Some i)"
    | a q' c where "((pending_connections reg)(addr \<mapsto> q)) a = Some q'" "c \<in> set q'" "i \<in> conn_pipes c"
    by (auto simp: socket_pipes_def conn_pipes_def)
  then show "i \<in> socket_pipes reg \<union> (\<Union>c \<in> set q. conn_pipes c)"
  proof cases
    case 1
    then show ?thesis by (auto simp: socket_pipes_def)
  next
    case (2 a q' c)
    show ?thesis
    proof (cases "a = addr")
      case True
      then show ?thesis using 2 by auto
    next
      case False
      then have "pending_connections reg a = Some q'" using 2(1) by simp
      from queued_pipes [OF this 2(2)] have "i \<in> socket_pipes reg" using 2(3) by blast
      then show ?thesis by simp
    qed
  qed
qed

lemma connect_refs:
  assumes "refs_inv X w"
  shows "refs_inv X (snd (connect_socket X sid target w))"
proof (cases "bound_paths (socks (ipcs w)) target")
  case None
  then show ?thesis using assms by (simp add: connect_socket_def Let_def)
next
  case (Some b)
  let ?i = "length (store (ipcs w))" and ?N = "{length (store (ipcs w))..<length (store (ipcs w)) + 2}"
  let ?f = "\<lambda>k. k\<lparr>sendpipe := Some ?i, recvpipe := Some (?i + 1), s_state := Connected, remote_addr := Some target\<rparr>"
  let ?r = "registry_mod (socks (ipcs w)) sid ?f"
  have m: "socket_pipes ?r \<subseteq> socket_pipes (socks (ipcs w)) \<union> ?N" by (rule socket_pipes_mod) auto
  have q: "socket_pipes (queue_connection r target c) \<subseteq> socket_pipes r \<union> {pipe_to_listener c, pipe_to_connector c}" for r c
  proof -
    have "(\<Union>d \<in> set (case pending_connections r target of Some q \<Rightarrow> q | None \<Rightarrow> []). conn_pipes d) \<subseteq> socket_pipes r"
      using queued_pipes [of r target] by (cases "pending_connections r target") auto
    then show ?thesis unfolding queue_connection_def
      by (intro order_trans [OF queue_pipes]) (auto simp: conn_pipes_def split: option.splits)
  qed
  have "socket_pipes (queue_connection ?r target \<lparr>pc_remote_addr = l, pipe_to_listener = ?i, pipe_to_connector = ?i + 1\<rparr>) \<subseteq> socket_pipes (socks (ipcs w)) \<union> ?N" for l
    using q [of ?r "\<lparr>pc_remote_addr = l, pipe_to_listener = ?i, pipe_to_connector = ?i + 1\<rparr>"] m by auto
  then have "refs_inv X (w\<lparr>ipcs := (ipcs w)\<lparr>store := store (ipcs w) @ [pipe_new R n, pipe_new R n],
      socks := queue_connection ?r target \<lparr>pc_remote_addr = l, pipe_to_listener = ?i, pipe_to_connector = ?i + 1\<rparr>\<rparr>\<rparr>)" for R n l
    by (intro grow_refs [OF assms]) simp
  then show ?thesis using Some by (simp add: connect_socket_def Let_def)
qed

lemma connect_good:
  assumes "env_ok X" "refs_inv X w" "has_room X w"
  shows "good X (ipc_connect_handler X w a g)"
proof -
  have t: "good X (connect_target X sid buf n w')" if "refs_inv X w'" for sid buf n w'
    using that connect_refs [OF that] by (simp add: connect_target_def)
  show ?thesis using assms t [OF assms(2)] t [of "drop_pending k w'" for k w'] take_over_refs [OF assms] remove_socket_refs [of X "drop_pending k w" for k]
    by (auto simp: ipc_connect_handler_def Let_def split_beta split: option.split)
qed

lemma accepted_socks:
  obtains reg where "snd (accepted_socket listen_id c w) = w\<lparr>ipcs := (ipcs w)\<lparr>socks := reg\<rparr>\<rparr>" "socket_pipes reg \<subseteq> socket_pipes (socks (ipcs w)) \<union> conn_pipes c"
proof -
  define d ty where "d = (case registry_get (socks (ipcs w)) listen_id of Some k \<Rightarrow> s_domain k | None \<Rightarrow> AF_UNIX)"
    and "ty = (case registry_get (socks (ipcs w)) listen_id of Some k \<Rightarrow> s_socktype k | None \<Rightarrow> 1)"
  define r where "r = snd (create_socket (socks (ipcs w)) d ty 0)"
  let ?f = "\<lambda>k. k\<lparr>recvpipe := Some (pipe_to_listener c), sendpipe := Some (pipe_to_connector c), s_state := Connected, remote_addr := Some (pc_remote_addr c)\<rparr>"
  let ?reg = "registry_mod r (fst (create_socket (socks (ipcs w)) d ty 0)) ?f"
  have "socket_pipes ?reg \<subseteq> socket_pipes r \<union> conn_pipes c" by (rule socket_pipes_mod) (auto simp: conn_pipes_def)
  moreover have "socket_pipes r \<subseteq> socket_pipes (socks (ipcs w))" unfolding r_def by (rule socket_pipes_create)
  moreover have "snd (accepted_socket listen_id c w) = w\<lparr>ipcs := (ipcs w)\<lparr>socks := ?reg\<rparr>\<rparr>"
    by (simp add: accepted_socket_def Let_def split_beta new_socket_def upd_socks_def r_def d_def ty_def)
  ultimately show ?thesis using that by blast
qed

lemma refs_writeback [simp]: "refs_inv Y (snd (ipc_writeback_sockaddr X w addr p l)) \<longleftrightarrow> refs_inv Y w"
  by (simp add: ipc_writeback_sockaddr_def Let_def split_beta)

lemma accept_connection_refs:
  assumes "env_ok X" "refs_inv X (snd (accepted_socket listen_id c w))"
  shows "refs_inv X (snd (accept_connection X cage listen_id ce info p l c w))"
  using assms(2) alloc_socket_refs [OF assms] remove_socket_refs [OF assms(2)]
  by (auto simp: accept_connection_def Let_def split_beta split: option.split)

lemma accept_good:
  assumes "env_ok X" "refs_inv X w"
  shows "good X (ipc_accept_handler X w a g)" "good X (ipc_accept4_handler X w a g)"
proof -
  have conn: "refs_inv X (snd (accept_connection X cage lid ce info p l c
      (upd_socks (\<lambda>reg. reg\<lparr>pending_connections := (pending_connections reg)(addr \<mapsto> q)\<rparr>) w)))"
    if q: "pending_connections (socks (ipcs w)) addr = Some (c # q)" for cage lid ce info p l c addr q
  proof (rule accept_connection_refs [OF assms(1)])
    let ?r = "socks (ipcs w)"
    let ?w = "upd_socks (\<lambda>reg. reg\<lparr>pending_connections := (pending_connections reg)(addr \<mapsto> q)\<rparr>) w"
    obtain reg where reg: "snd (accepted_socket lid c ?w) = ?w\<lparr>ipcs := (ipcs ?w)\<lparr>socks := reg\<rparr>\<rparr>"
      "socket_pipes reg \<subseteq> socket_pipes (socks (ipcs ?w)) \<union> conn_pipes c" by (rule accepted_socks)
    have "socket_pipes (socks (ipcs ?w)) \<subseteq> socket_pipes ?r \<union> (\<Union>c \<in> set q. conn_pipes c)" using queue_pipes by (simp add: upd_socks_def)
    then have "socket_pipes reg \<subseteq> socket_pipes ?r" using reg(2) queued_pipes [OF q] by fastforce
    from socks_refs [OF assms(2) this] show "refs_inv X (snd (accepted_socket lid c ?w))" using reg(1) by (simp add: upd_socks_def)
  qed
  have "good X (accept_ipc_inner X w cage lid fl ce info p l)" for cage lid fl ce info p l
    using assms conn by (auto simp: accept_ipc_inner_def accept_loop.simps env_okD [OF assms(1)] split: option.split list.split)
  then have "good X (accept_common nr ce info X w a g)" for nr ce info
    using assms by (auto simp: accept_common_def Let_def split: option.split)
  then show "good X (ipc_accept_handler X w a g)" "good X (ipc_accept4_handler X w a g)"
    by (simp_all add: ipc_accept_handler_def ipc_accept4_handler_def)
qed

lemma shutdown_good:
  assumes "env_ok X" "refs_inv X w"
  shows "good X (ipc_shutdown_handler X w a g)"
proof -
  have "refs_inv X (w\<lparr>ipcs := opt_pipe_mod decr_write_ref (sendpipe k) (ipcs w)\<rparr>)" if "sockets (socks (ipcs w)) sid = Some k" for sid k
  proof -
    note i = refs_invD [OF assms(2)]
    have "tracks (end_count (ie_fd X) (fdt w)) (opt_pipe_mod decr_write_ref (sendpipe k) (ipcs w))"
      using that by (intro opt_mod_foreign [OF i(1,2)]) (auto simp: socket_pipes_def)
    then show ?thesis using i separate_shape [OF same_shape_mod(2) i(1)] by (simp add: refs_inv_def)
  qed
  then show ?thesis using assms state_refs
    by (auto simp: ipc_shutdown_handler_def Let_def registry_get_def intro!: state_refs split: option.split)
qed

lemma message_good:
  assumes "env_ok X" "refs_inv X w"
  shows "good X (ipc_sendto_handler X w a g)" "good X (ipc_recvfrom_handler X w a g)"
    "good X (ipc_sendmsg_handler X w a g)" "good X (ipc_recvmsg_handler X w a g)"
proof -
  show "good X (ipc_sendto_handler X w a g)" using assms send_cage_good [OF assms]
    by (auto simp: ipc_sendto_handler_def Let_def split: option.split sum.split)
  show "good X (ipc_sendmsg_handler X w a g)" using assms send_buf_good [OF assms]
    by (auto simp: ipc_sendmsg_handler_def Let_def split_beta split: option.split sum.split)
  show "good X (ipc_recvmsg_handler X w a g)" using assms recv_buf_refs [OF assms]
    by (auto simp: ipc_recvmsg_handler_def Let_def split_beta split: option.split sum.split bind_split)
  have "good X (map_option (\<lambda>(ret, w). (ret, if ret \<ge> 0 \<and> b then write_user_bytes w p bs else w)) res)" if "good X res" for b p bs res
    using that by (cases res) (auto simp: split_beta)
  then show "good X (ipc_recvfrom_handler X w a g)" using assms recv_cage_good [OF assms]
    by (auto simp: ipc_recvfrom_handler_def Let_def split: option.split sum.split)
qed

lemma option_good:
  assumes "env_ok X" "refs_inv X w"
  shows "good X (ipc_setsockopt_handler X w a g)" "good X (ipc_getsockopt_handler X w a g)"
    "good X (ipc_getsockname_handler X w a g)" "good X (ipc_getpeername_handler X w a g)"
  using assms by (auto simp: ipc_setsockopt_handler_def ipc_getsockopt_handler_def ipc_getsockname_handler_def ipc_getpeername_handler_def
      Let_def split_beta split: option.split)

section \<open>Every handler\<close>

text \<open>\<open>ioctl\<close> apart from \<open>FIONBIO\<close>, which re-installs the descriptor.\<close>

lemma ioctl_good:
  assumes "env_ok X" "refs_inv X w" "a ! 1 \<noteq> 0x5421"
  shows "good X (ipc_ioctl_handler X w a g)"
  using assms by (auto simp: ipc_ioctl_handler_def Let_def split: option.split)

text \<open>The calls after which the counters of the pipes still agree with the tables.  There are fewer than \<open>2 ^ 31\<close> open
  descriptors and pipe numbers are left; a call is not \<open>ioctl(FIONBIO)\<close>, which takes a reference away and keeps the
  descriptor, not a \<open>dup2\<close> or \<open>dup3\<close> onto a number the descriptor tables refuse, after which the reference of
  the duplicate is counted without a descriptor, and not a \<open>clone\<close> for which the runtime names a child that already has a
  table.\<close>

definition call_ok :: "('ft, 'rb) ipc_env \<Rightarrow> ('ft, 'rb) ipc_world \<Rightarrow> nat \<Rightarrow> nat list \<Rightarrow> nat list \<Rightarrow> bool" where
  "call_ok X w nr a g \<longleftrightarrow>
     has_room X w \<and> (nr = SYS_IOCTL \<longrightarrow> a ! 1 \<noteq> 0x5421) \<and> (nr = SYS_CLONE \<longrightarrow> fresh_child X w) \<and>
     (nr = SYS_DUP2 \<or> nr = SYS_DUP3 \<longrightarrow> dup_target_ok X w (g ! 0) (a ! 1))"

lemmas handler_good = forward_fd1_good dirfd_good transfer_good plain_good poll_good select_good epoll_wait_good epoll_ctl_good
  open_good close_good dup_good fcntl_good process_good fork_good epoll_create_good pipe_good socket_good socketpair_good
  bind_good listen_good connect_good accept_good shutdown_good message_good option_good

lemma dispatch_good:
  assumes "env_ok X" "refs_inv X w" "call_ok X w nr a g" "ipc_dispatch nr = Some h"
  shows "good X (h X w a g)"
proof -
  have r: "has_room X w" using assms(3) by (simp add: call_ok_def)
  have "list_all (\<lambda>(nr, h). call_ok X w nr a g \<longrightarrow> good X (h X w a g)) IPC_HANDLERS"
    using assms(1,2) r dup2_good [OF assms(1,2) r, of g a] ioctl_good [OF assms(1,2), of a g]
    by (simp add: IPC_HANDLERS_def handler_good ipc_dup3_handler_def) (simp add: call_ok_def handler_good)
  moreover have "(nr, h) \<in> set IPC_HANDLERS" using assms(4) unfolding ipc_dispatch_def by (rule map_of_SomeD)
  ultimately show ?thesis using assms(3) by (auto simp: list_all_iff)
qed

text \<open>A cage's table made before its program starts.\<close>

lemma preexec_refs:
  assumes "env_ok X" "refs_inv X w" "\<not> check_cage_exists (ie_fd X) (fdt w) (as_u64 child)"
  shows "refs_inv X (ipc_preexec X w child)"
proof -
  have "ipc_preexec X w child = ensure_cage_fdtable X w (as_u64 child)"
    using assms by (simp add: ipc_preexec_def ensure_cage_fdtable_def Let_def)
  then show ?thesis using ensure_refs(1) [OF assms(1,2)] by simp
qed

end
