(* ===== verification/Ipc_Props.thy ===== *)
theory Ipc_Props
  imports Ipc_Keep
begin

unbundle bit_operations_syntax

text \<open>
  What the handlers of the ipc grate guarantee over whole runs: the step relation over the handlers'
  table, the reference counts of pipes in every reachable state and what readers and writers see of them.
\<close>

section \<open>Runs\<close>

text \<open>A run is a sequence of handled calls, each completed before the next, all of them within \<open>call_ok\<close>: no
  \<open>ioctl(FIONBIO)\<close>, no \<open>dup2\<close> or \<open>dup3\<close> onto a number the tables refuse, fresh children of \<open>clone\<close>, fewer than \<open>2 ^ 31\<close>
  open descriptors and pipe numbers left.\<close>

inductive ipc_step :: "('ft, 'rb) ipc_env \<Rightarrow> ('ft, 'rb) ipc_world \<Rightarrow> ('ft, 'rb) ipc_world \<Rightarrow> bool" for X where
  ipc_call: "ipc_dispatch nr = Some h \<Longrightarrow> call_ok X w nr a g \<Longrightarrow> h X w a g = Some (r, w') \<Longrightarrow> ipc_step X w w'"
| ipc_begin: "\<not> check_cage_exists (ie_fd X) (fdt w) (as_u64 child) \<Longrightarrow> ipc_step X w (ipc_preexec X w child)"

lemma ipc_step_refs: "ipc_step X w w' \<Longrightarrow> env_ok X \<Longrightarrow> refs_inv X w \<Longrightarrow> refs_inv X w'"
  by (induction rule: ipc_step.induct) (auto intro: goodD [OF dispatch_good] preexec_refs)

definition ipc_reachable :: "('ft, 'rb) ipc_env \<Rightarrow> ('ft, 'rb) ipc_world \<Rightarrow> bool" where
  "ipc_reachable X w \<longleftrightarrow> (\<exists>ft. open_fds (ie_fd X) ft = {} \<and> (ipc_step X)\<^sup>*\<^sup>* (ipc_start X ft) w)"

lemma start_refs: "open_fds (ie_fd X) ft = {} \<Longrightarrow> refs_inv X (ipc_start X ft)"
  using pipe_ends_sub [of "ie_fd X" ft]
  by (auto simp: refs_inv_def ipc_start_def ipc_new_def separate_def tracks_def end_count_def socket_pipes_def registry_new_def)

lemma reachable_refs:
  assumes "env_ok X" "ipc_reachable X w"
  shows "refs_inv X w"
proof -
  obtain ft where "open_fds (ie_fd X) ft = {}" "(ipc_step X)\<^sup>*\<^sup>* (ipc_start X ft) w" using assms(2) unfolding ipc_reachable_def by blast
  from this(2) start_refs [OF this(1)] show ?thesis by (induction rule: rtranclp_induct) (auto intro: ipc_step_refs [OF _ assms(1)])
qed

section \<open>A concrete environment\<close>

text \<open>The contents of the cages' memory are a parameter; every call on the runtime is refused.\<close>

definition mem_env :: "(event list \<Rightarrow> nat \<Rightarrow> nat \<Rightarrow> nat \<Rightarrow> byte list option) \<Rightarrow> (fd_map, list_ring) ipc_env" where
  "mem_env m =
     \<lparr>ie_g = \<lparr>ge_cage = 9, ge_sys = (\<lambda>h c. -38), ge_out = (\<lambda>h c i. []), ge_copystr = (\<lambda>h c p n. None),
        ge_copymem = m, ge_copyout = (\<lambda>h c p bs. True), ge_register = (\<lambda>h a b c. 0), ge_fd = map_fdtables,
        ge_unused_errno = (\<lambda>ft c. 24), ge_specific_errno = (\<lambda>ft c fd. 9)\<rparr>,
      ie_ring = list_ring, ie_copy = cage_fds, ie_exec = exec_fds, ie_user = (\<lambda>h p n. replicate n 0), ie_stale = (\<lambda>h n. replicate n 0),
      ie_tables = (\<lambda>h k sh. sh), ie_naps = (\<lambda>h. []), ie_waits = (\<lambda>h. []), ie_elapsed = (\<lambda>h k. 0), ie_keys = (\<lambda>m. []), ie_child = (\<lambda>h w. w)\<rparr>"

abbreviation pipe_env :: "(fd_map, list_ring) ipc_env" where
  "pipe_env \<equiv> mem_env (\<lambda>h c p n. Some (replicate n 7))"

lemma mem_env_simps [simp]:
  "ie_fd (mem_env m) = map_fdtables" "ie_ring (mem_env m) = list_ring" "ge_cage (ie_g (mem_env m)) = 9" "ge_sys (ie_g (mem_env m)) h c = -38"
  "ge_copymem (ie_g (mem_env m)) = m" "ge_copyout (ie_g (mem_env m)) h cg p bs" "ie_naps (mem_env m) h = []"
  "ie_user (mem_env m) h p n = replicate n 0"
  by (simp_all add: mem_env_def)

lemma mem_env_ok: "env_ok (mem_env m)"
proof -
  note cage_fds_iff cage_fds_distinct map_of_exec_fds
  moreover have "\<exists>e. map_of m (c, fd) = Some e \<and> fd_maps map_fdtables m c fd (Some (e\<lparr>should_cloexec := b\<rparr>)) m'"
    if "set_cloexec map_fdtables m c fd b = Some m'" for m c fd b m'
    using that by (auto simp: map_fdtables_def fd_maps_def split: option.splits)
  ultimately have "bulk_tables_ok (mem_env m)" unfolding bulk_tables_ok_def by (simp add: mem_env_def map_fdtables_def)
  then show ?thesis using map_fdtables_ok by (simp add: env_ok_def undisturbed_def mem_env_def)
qed

section \<open>Reference counts\<close>

text \<open>A descriptor of a pipe, with its pipe.\<close>

lemma pipe_entry:
  assumes "refs_inv X w" "translate_virtual_fd (ie_fd X) (fdt w) c fd = Some e" "fdkind e = IPC_PIPE"
  obtains i where "get_pipe (ipcs w) (underfd e) = Some i" "i < length (store (ipcs w))"
    "read_refs (store (ipcs w) ! i) = of_nat (end_count (ie_fd X) (fdt w) (underfd e) True)"
    "write_refs (store (ipcs w) ! i) = of_nat (end_count (ie_fd X) (fdt w) (underfd e) False)"
    "p_eof (store (ipcs w) ! i) \<longleftrightarrow> end_count (ie_fd X) (fdt w) (underfd e) False = 0"
proof -
  note i = refs_invD [OF assms(1)]
  have "hits e (underfd e) (is_read_end (word_of_nat (perfdinfo e)))" using assms(3) by (simp add: hits_def)
  from tracksD [OF i(2) end_count_pos [OF assms(2) this i(3)]] obtain j where j: "pipes (ipcs w) (underfd e) = Some j"
    "read_refs (store (ipcs w) ! j) = of_nat (end_count (ie_fd X) (fdt w) (underfd e) True)"
    "write_refs (store (ipcs w) ! j) = of_nat (end_count (ie_fd X) (fdt w) (underfd e) False)"
    "p_eof (store (ipcs w) ! j) \<longleftrightarrow> end_count (ie_fd X) (fdt w) (underfd e) False = 0" .
  with separateD(1) [OF i(1) j(1)] show ?thesis by (intro that [of j]) (simp_all add: get_pipe_def)
qed

lemma no_ends: "finite (open_fds F ft) \<Longrightarrow> end_count F ft pid rd = 0 \<longleftrightarrow> pipe_ends F ft pid rd = {}"
  using finite_pipe_ends [of F ft pid rd] by (simp add: end_count_def)

lemma of_nat_zero_iff: "n < 2 ^ 32 \<Longrightarrow> (of_nat n :: u32) = 0 \<longleftrightarrow> n = 0"
proof
  assume "n < 2 ^ 32" "(of_nat n :: u32) = 0"
  then have "unat (of_nat n :: u32) = unat (0 :: u32)" by simp
  then show "n = 0" using \<open>n < 2 ^ 32\<close> by (simp add: unat_of_nat take_bit_nat_eq_self)
qed simp

text \<open>C2. In every state a run of counted calls reaches from the start of the grate on, the pipe of every pipe descriptor exists, its
  two counters are the numbers of read and of write descriptors that all tables hold for it, and its
  end-of-file mark is set exactly when no write descriptor is left.
  Runs are those of \<open>ipc_reachable\<close>: handlers that run one after another, without \<open>ioctl(FIONBIO)\<close> (which loses a
  reference, \<open>fionbio_loses_reference\<close>), without \<open>dup2\<close> or \<open>dup3\<close> onto a number the tables refuse, with
  fresh children of \<open>clone\<close> and with fewer than \<open>2 ^ 31\<close> open descriptors.\<close>

theorem pipe_counts_descriptors:
  assumes "env_ok X" "ipc_reachable X w" "translate_virtual_fd (ie_fd X) (fdt w) cage fd = Some e" "fdkind e = IPC_PIPE"
  shows "\<exists>i. get_pipe (ipcs w) (underfd e) = Some i \<and> i < length (store (ipcs w)) \<and>
    read_refs (store (ipcs w) ! i) = of_nat (card (pipe_ends (ie_fd X) (fdt w) (underfd e) True)) \<and>
    write_refs (store (ipcs w) ! i) = of_nat (card (pipe_ends (ie_fd X) (fdt w) (underfd e) False)) \<and>
    (p_eof (store (ipcs w) ! i) \<longleftrightarrow> pipe_ends (ie_fd X) (fdt w) (underfd e) False = {})"
proof -
  note r = reachable_refs [OF assms(1,2)]
  from pipe_entry [OF r assms(3,4)] obtain i where "get_pipe (ipcs w) (underfd e) = Some i" "i < length (store (ipcs w))"
    "read_refs (store (ipcs w) ! i) = of_nat (end_count (ie_fd X) (fdt w) (underfd e) True)"
    "write_refs (store (ipcs w) ! i) = of_nat (end_count (ie_fd X) (fdt w) (underfd e) False)"
    "p_eof (store (ipcs w) ! i) \<longleftrightarrow> end_count (ie_fd X) (fdt w) (underfd e) False = 0" .
  then show ?thesis using no_ends [OF refs_invD(3) [OF r]] by (intro exI [of _ i]) (simp add: end_count_def)
qed

text \<open>The state after one \<open>pipe2\<close> call of cage 4.\<close>

definition piped :: "(fd_map, list_ring) ipc_world" where
  "piped = \<lparr>fdt = [((4, 1), mk_entry IPC_PIPE 0 False 2049), ((4, 0), mk_entry IPC_PIPE 0 False 2048)],
     hist = [CopyOut 4 64 (fd_pair_bytes 0 1)],
     ipcs = (ipc_new 9)\<lparr>next_pipe_id := 1, store := [pipe_new list_ring PIPE_CAPACITY], pipes := [0 \<mapsto> 0]\<rparr>, pendings = []\<rparr>"

lemma piped_call: "ipc_pipe2_handler (mem_env m) (ipc_start (mem_env m) []) [64, 2048, 0, 0, 0, 0] (replicate 6 4) = Some (0, piped)"
proof -
  let ?w = "ipc_start (mem_env m) [] :: (fd_map, list_ring) ipc_world"
  have f: "first_free [] 4 0 8 = Some 0" "first_free [((4, 0), e)] 4 0 8 = Some 1" for e by (simp_all add: numeral_eq_Suc)
  have e: "ensure_cage_fdtable (mem_env m) ?w 4 = ?w"
    using mem_env_ok start_refs [of "mem_env m" "[]"] by (simp add: ensure_cage_fdtable_def open_fds_def map_table_simps)
  have fl: "(arg_i32 2048 AND IPC_O_CLOEXEC) = 0" "as_u64 (sint (IPC_O_RDONLY OR (arg_i32 2048 AND IPC_O_NONBLOCK))) = 2048"
    "as_u64 (sint (IPC_O_WRONLY OR (arg_i32 2048 AND IPC_O_NONBLOCK))) = 2049"
    by (simp_all add: arg_i32_def IPC_O_CLOEXEC_def IPC_O_NONBLOCK_def IPC_O_RDONLY_def IPC_O_WRONLY_def as_u64_def)
  have "\<not> create_pipe_locks (mem_env m) ?w 4 (arg_i32 2048)"
    using f by (simp add: create_pipe_locks_def Let_def fl map_table_simps ipc_start_def)
  moreover have "create_pipe map_fdtables list_ring (ipcs ?w) (fdt ?w) 4 (arg_i32 2048) = (Inr (0, 1), ipcs piped, fdt piped)"
    using f by (simp add: create_pipe_def Let_def fl map_table_simps ipc_start_def ipc_new_def piped_def as_i32_def)
  ultimately show ?thesis
    by (simp add: ipc_pipe2_handler_def pipe_common_def e) (simp add: piped_def ipc_start_def copy_out_def log_event_def)
qed

lemma piped_reachable: "ipc_reachable (mem_env m) piped"
proof -
  have o: "open_fds (ie_fd (mem_env m)) [] = {}" by (simp add: open_fds_def map_table_simps)
  have "call_ok (mem_env m) (ipc_start (mem_env m) []) SYS_PIPE2 [64, 2048, 0, 0, 0, 0] (replicate 6 4)"
    using o by (simp add: call_ok_def has_room_def ipc_start_def ipc_new_def)
  moreover have "ipc_dispatch SYS_PIPE2 = Some ipc_pipe2_handler" by (simp add: ipc_dispatch_def IPC_HANDLERS_def)
  ultimately have "ipc_step (mem_env m) (ipc_start (mem_env m) []) piped" using piped_call by (blast intro: ipc_call)
  then show ?thesis using o unfolding ipc_reachable_def by blast
qed

lemma piped_entries:
  "translate_virtual_fd (ie_fd (mem_env m)) (fdt piped) 4 0 = Some (mk_entry IPC_PIPE 0 False 2048)"
  "translate_virtual_fd (ie_fd (mem_env m)) (fdt piped) 4 1 = Some (mk_entry IPC_PIPE 0 False 2049)"
  by (simp_all add: map_table_simps piped_def)

theorem pipe_counts_descriptors_witness:
  "\<exists>i. get_pipe (ipcs piped) 0 = Some i \<and> i < length (store (ipcs piped)) \<and>
    read_refs (store (ipcs piped) ! i) = of_nat (card (pipe_ends (ie_fd pipe_env) (fdt piped) 0 True)) \<and>
    write_refs (store (ipcs piped) ! i) = of_nat (card (pipe_ends (ie_fd pipe_env) (fdt piped) 0 False)) \<and>
    (p_eof (store (ipcs piped) ! i) \<longleftrightarrow> pipe_ends (ie_fd pipe_env) (fdt piped) 0 False = {})"
  using pipe_counts_descriptors [OF mem_env_ok piped_reachable piped_entries(1)] by simp

section \<open>Readers and writers\<close>

lemma pipe_info:
  assumes "check_cage_exists F ft c" "translate_virtual_fd F ft c fd = Some e" "fdkind e = IPC_PIPE"
  shows "ipc_info F ft c fd = Some (underfd e, IPC_PIPE, word_of_nat (perfdinfo e))"
  using assms by (simp add: ipc_info_def)

lemma pop_empty:
  assumes "ringbuf_ok R q cap" "q rb = []"
  shows "\<exists>rb'. pop_to_cage R co m rb c p n = (0, m, rb')"
proof -
  obtain l r where "occupied_slices R rb = (l, r)" by fastforce
  then show ?thesis using ring_occupied [OF assms(1)] assms(2) by (fastforce simp: pop_to_cage_def Let_def)
qed

lemma read_empty:
  assumes "ringbuf_ok R q cap" "q (ring p) = []" "n \<noteq> 0"
  shows "\<exists>p'. read_to_cage R co m p c a n True ns = Some (if p_eof p then 0 else -11, m, p')"
proof -
  obtain rb' where "pop_to_cage R co m (ring p) c a n = (0, m, rb')" using pop_empty [OF assms(1,2), of co m c a n] by blast
  then show ?thesis using assms(3) by (auto simp: read_to_cage_def read_to_cage_loop.simps)
qed

text \<open>C4. After any run of counted calls, a non-blocking read of a drained pipe returns end of file exactly when no table of any
  cage holds a write descriptor of the pipe any more; otherwise it asks to try again.
  Runs are those of \<open>ipc_reachable\<close>: handlers that run one after another, without \<open>ioctl(FIONBIO)\<close> (which loses a
  reference, \<open>fionbio_loses_reference\<close>), without \<open>dup2\<close> or \<open>dup3\<close> onto a number the tables refuse, with
  fresh children of \<open>clone\<close> and with fewer than \<open>2 ^ 31\<close> open descriptors.\<close>

theorem read_eof_iff_no_writer:
  assumes "env_ok X" "ipc_reachable X w" "ringbuf_ok (ie_ring X) q cap" "check_cage_exists (ie_fd X) (fdt w) (g ! 0)"
    "translate_virtual_fd (ie_fd X) (fdt w) (g ! 0) (a ! 0) = Some e" "fdkind e = IPC_PIPE"
    "is_read_end (word_of_nat (perfdinfo e))" "is_nonblocking (word_of_nat (perfdinfo e))"
    "get_pipe (ipcs w) (underfd e) = Some i" "q (ring (store (ipcs w) ! i)) = []" "a ! 1 \<noteq> 0" "as_usize (int (a ! 2)) \<noteq> 0"
  shows "\<exists>w'. ipc_read_handler X w a g = Some (if pipe_ends (ie_fd X) (fdt w) (underfd e) False = {} then 0 else -11, w')"
proof -
  note r = reachable_refs [OF assms(1,2)]
  from pipe_entry [OF r assms(5,6)] obtain j where "get_pipe (ipcs w) (underfd e) = Some j" 
    "p_eof (store (ipcs w) ! j) \<longleftrightarrow> end_count (ie_fd X) (fdt w) (underfd e) False = 0" .
  then have eof: "p_eof (store (ipcs w) ! i) \<longleftrightarrow> pipe_ends (ie_fd X) (fdt w) (underfd e) False = {}"
    using assms(9) no_ends [OF refs_invD(3) [OF r]] by simp
  have "ipc_read_handler X w a g = recv_cage X w i (g ! 1) (a ! 1) (as_usize (int (a ! 2))) True"
    using assms(1,7-12) r by (simp add: ipc_read_handler_def pipe_info [OF assms(4-6)] Let_def)
  moreover let ?co = "\<lambda>h c q bs. if ge_copyout (ie_g X) h c q bs then h @ [CopyOut c q bs] else h"
  obtain p' where "read_to_cage (ie_ring X) ?co (hist w)
      (store (ipcs w) ! i) (g ! 1) (a ! 1) (as_usize (int (a ! 2))) True (ie_naps X (hist w)) =
      Some (if p_eof (store (ipcs w) ! i) then 0 else -11, hist w, p')" using read_empty [OF assms(3,10,12), of ?co "hist w" "g ! 1" "a ! 1" "ie_naps X (hist w)"] by blast
  ultimately show ?thesis by (simp add: recv_cage_def eof)
qed

lemma piped_ring: "fst (ring (store (ipcs piped) ! 0)) = []" "get_pipe (ipcs piped) 0 = Some 0"
  by (simp_all add: piped_def pipe_new_def list_ring_def get_pipe_def)

lemma piped_flags:
  "is_read_end (word_of_nat 2048)" "is_write_end (word_of_nat 2049)" "is_nonblocking (word_of_nat 2048)" "is_nonblocking (word_of_nat 2049)"
  by (simp_all add: is_read_end_def is_write_end_def is_nonblocking_def IPC_O_ACCMODE_def IPC_O_RDONLY_def IPC_O_WRONLY_def IPC_O_NONBLOCK_def)

theorem read_eof_iff_no_writer_witness:
  "\<exists>w'. ipc_read_handler pipe_env piped [0, 64, 10, 0, 0, 0] (replicate 6 4) = Some (-11, w')"
proof -
  have "pipe_ends map_fdtables (fdt piped) 0 False \<noteq> {}"
  proof -
    have "(4, 1) \<in> pipe_ends map_fdtables (fdt piped) 0 False"
      using piped_entries(2) by (simp add: pipe_ends_def hits_def is_read_end_def IPC_O_ACCMODE_def IPC_O_RDONLY_def)
    then show ?thesis by blast
  qed
  moreover have "list_ring = ie_ring pipe_env" by simp
  ultimately show ?thesis
    using read_eof_iff_no_writer [OF mem_env_ok piped_reachable, of _ fst snd "replicate 6 4" "[0, 64, 10, 0, 0, 0]" "mk_entry IPC_PIPE 0 False 2048" 0]
      list_ring_ok piped_entries piped_ring piped_flags by (simp add: map_table_simps as_usize_def)
qed

lemma write_fits:
  assumes R: "ringbuf_ok R q cap" and mem: "delivers ci c a mem" "mem \<noteq> []" and p: "read_refs p \<noteq> 0" "length mem \<le> cap (ring p) - length (q (ring p))"
  shows "\<exists>p'. write_from_cage R ci p c a (length mem) nb ns = Some (as_i32 (int (length mem)), length mem, p') \<and> q (ring p') = q (ring p) @ mem"
proof -
  obtain n rb where pf: "push_from_cage R ci (ring p) c (a + 0) (length mem - 0) = (n, rb)" by fastforce
  note e = push_from_cage_eq [OF R mem(1) le0 pf]
  have "n = length mem" using e(1) p(2) by simp
  moreover have "q rb = q (ring p) @ mem" using e(2) \<open>n = length mem\<close> by simp
  ultimately show ?thesis using pf mem(2) p(1) by (simp add: write_from_cage_def write_from_cage_loop.simps)
qed

text \<open>What the write handler does with a writable pipe.\<close>

lemma write_handler:
  assumes "env_ok X" "refs_inv X w" "few_fds X w" "ringbuf_ok (ie_ring X) q cap" "check_cage_exists (ie_fd X) (fdt w) (g ! 0)"
    "translate_virtual_fd (ie_fd X) (fdt w) (g ! 0) (a ! 0) = Some e" "fdkind e = IPC_PIPE" "is_write_end (word_of_nat (perfdinfo e))"
    "get_pipe (ipcs w) (underfd e) = Some i" "a ! 1 \<noteq> 0" "delivers (ring_copy X w) (g ! 1) (a ! 1) mem" "as_usize (int (a ! 2)) = length mem"
    "mem \<noteq> []" "length mem < 2 ^ 31" "length mem \<le> cap (ring (store (ipcs w) ! i)) - length (q (ring (store (ipcs w) ! i)))"
  shows "\<exists>w'. ipc_write_handler X w a g = Some (if pipe_ends (ie_fd X) (fdt w) (underfd e) True = {} then -32 else int (length mem), w') \<and>
    fdt w' = fdt w \<and> hist w' = hist w \<and> pipes (ipcs w') = pipes (ipcs w) \<and>
    q (ring (store (ipcs w') ! i)) = q (ring (store (ipcs w) ! i)) @ (if pipe_ends (ie_fd X) (fdt w) (underfd e) True = {} then [] else mem)"
proof -
  let ?p = "store (ipcs w) ! i"
  from pipe_entry [OF assms(2,6,7)] obtain j where "get_pipe (ipcs w) (underfd e) = Some j" "j < length (store (ipcs w))"
    "read_refs (store (ipcs w) ! j) = of_nat (end_count (ie_fd X) (fdt w) (underfd e) True)" .
  then have i: "i < length (store (ipcs w))" "read_refs ?p = 0 \<longleftrightarrow> pipe_ends (ie_fd X) (fdt w) (underfd e) True = {}"
    using assms(9) no_ends [OF refs_invD(3) [OF assms(2)]] of_nat_zero_iff [OF count_small [OF assms(2,3)]] by simp_all
  have h: "ipc_write_handler X w a g = send_cage X w i (g ! 1) (a ! 1) (length mem) (is_nonblocking (word_of_nat (perfdinfo e)))"
    using assms(1,2,8,9,10,12,13) by (simp add: ipc_write_handler_def pipe_info [OF assms(5-7)] Let_def)
  let ?nb = "is_nonblocking (word_of_nat (perfdinfo e))"
  show ?thesis
  proof (cases "read_refs ?p = 0")
    case True
    then show ?thesis using h i by (simp add: send_cage_def write_from_cage_def put_pipe_def pipe_mod_nth)
  next
    case False
    obtain p' where "write_from_cage (ie_ring X) (ring_copy X w) ?p (g ! 1) (a ! 1) (length mem) ?nb (ie_naps X (hist w)) =
        Some (as_i32 (int (length mem)), length mem, p')" "q (ring p') = q (ring ?p) @ mem"
      using write_fits [OF assms(4,11,13) False assms(15), of ?nb "ie_naps X (hist w)"] by blast
    moreover have "as_i32 (int (length mem)) = int (length mem)" using assms(14) by (simp add: as_i32_small)
    ultimately show ?thesis using h i False by (simp add: send_cage_def put_pipe_def pipe_mod_nth)
  qed
qed

text \<open>C13. After any run of counted calls, a write that fits into the pipe fails with EPIPE, leaving the pipe alone, exactly when
  no table of any cage holds a read descriptor of the pipe; otherwise it queues all bytes of the cage's buffer and returns their
  number.
  Runs are those of \<open>ipc_reachable\<close>: handlers that run one after another, without \<open>ioctl(FIONBIO)\<close> (which loses a
  reference, \<open>fionbio_loses_reference\<close>), without \<open>dup2\<close> or \<open>dup3\<close> onto a number the tables refuse, with
  fresh children of \<open>clone\<close> and with fewer than \<open>2 ^ 31\<close> open descriptors.\<close>

theorem write_epipe_iff_no_reader:
  assumes "env_ok X" "ipc_reachable X w" "few_fds X w" "ringbuf_ok (ie_ring X) q cap" "check_cage_exists (ie_fd X) (fdt w) (g ! 0)"
    "translate_virtual_fd (ie_fd X) (fdt w) (g ! 0) (a ! 0) = Some e" "fdkind e = IPC_PIPE" "is_write_end (word_of_nat (perfdinfo e))"
    "get_pipe (ipcs w) (underfd e) = Some i" "a ! 1 \<noteq> 0" "delivers (ring_copy X w) (g ! 1) (a ! 1) mem" "as_usize (int (a ! 2)) = length mem"
    "mem \<noteq> []" "length mem < 2 ^ 31" "length mem \<le> cap (ring (store (ipcs w) ! i)) - length (q (ring (store (ipcs w) ! i)))"
  shows "\<exists>w'. ipc_write_handler X w a g = Some (if pipe_ends (ie_fd X) (fdt w) (underfd e) True = {} then -32 else int (length mem), w') \<and>
    q (ring (store (ipcs w') ! i)) = q (ring (store (ipcs w) ! i)) @ (if pipe_ends (ie_fd X) (fdt w) (underfd e) True = {} then [] else mem)"
  using write_handler [OF assms(1) reachable_refs [OF assms(1,2)] assms(3-)] by blast

lemma piped_few: "few_fds (mem_env m) piped"
proof -
  have "open_fds map_fdtables (fdt piped) \<subseteq> {(4, 0), (4, 1)}"
    by (auto simp: open_fds_def map_table_simps piped_def split: if_splits)
  from card_mono [OF _ this] show ?thesis by (simp add: few_fds_def)
qed

lemma piped_delivers: "delivers (ring_copy pipe_env w) c p (replicate n 7)"
  by (auto simp: delivers_def ring_copy_def min_def)

lemma piped_room: "snd (ring (store (ipcs piped) ! 0)) = 65536"
  by (simp add: piped_def pipe_new_def list_ring_def PIPE_CAPACITY_def)

lemma piped_reader: "pipe_ends map_fdtables (fdt piped) 0 True \<noteq> {}"
proof -
  have "(4, 0) \<in> pipe_ends map_fdtables (fdt piped) 0 True"
    using piped_entries(1) by (simp add: pipe_ends_def hits_def is_read_end_def IPC_O_ACCMODE_def IPC_O_RDONLY_def)
  then show ?thesis by blast
qed

theorem write_epipe_iff_no_reader_witness:
  "\<exists>w'. ipc_write_handler pipe_env piped [1, 64, 3, 0, 0, 0] (replicate 6 4) = Some (3, w') \<and> fst (ring (store (ipcs w') ! 0)) = replicate 3 7"
  using write_epipe_iff_no_reader [OF mem_env_ok piped_reachable piped_few, of _ fst snd "replicate 6 4" "[1, 64, 3, 0, 0, 0]" "mk_entry IPC_PIPE 0 False 2049" 0 "replicate 3 7"]
    list_ring_ok piped_entries piped_ring piped_flags piped_delivers [of piped 4 64 3] piped_room piped_reader
  by (simp add: map_table_simps as_usize_def)

section \<open>A message through a pipe\<close>

text \<open>The copies of two slices to consecutive addresses.\<close>

definition copy_pieces :: "nat \<Rightarrow> nat \<Rightarrow> byte list \<Rightarrow> byte list \<Rightarrow> event list" where
  "copy_pieces c p l r = (if l = [] then [] else [CopyOut c p l]) @ (if r = [] then [] else [CopyOut c (p + length l) r])"

lemma pop_all:
  assumes "occupied_slices R rb = (l, r)" "length l + length r \<le> n"
  shows "pop_to_cage R (\<lambda>h c q bs. h @ [CopyOut c q bs]) h rb c p n = (length l + length r, h @ copy_pieces c p l r, pop_advance R rb (length l + length r))"
proof -
  have "min n (length l) = length l" "min (n - length l) (length r) = length r" using assms(2) by auto
  then show ?thesis using assms by (cases r; cases l) (simp_all add: pop_to_cage_def copy_pieces_def Let_def)
qed

text \<open>C3. A cage writes its buffer into a drained pipe and another cage (or the same one) reads from the pipe with a
  large enough buffer: both calls return the length, and the reader's memory receives exactly the writer's
  bytes, in at most two pieces at consecutive addresses.\<close>

theorem pipe_message_delivered:
  assumes "env_ok X" "ipc_reachable X w" "few_fds X w" "ringbuf_ok (ie_ring X) q cap" "\<And>h c p bs. ge_copyout (ie_g X) h c p bs"
    and wr: "check_cage_exists (ie_fd X) (fdt w) (g ! 0)" "translate_virtual_fd (ie_fd X) (fdt w) (g ! 0) (a ! 0) = Some e"
      "fdkind e = IPC_PIPE" "is_write_end (word_of_nat (perfdinfo e))"
    and rd: "check_cage_exists (ie_fd X) (fdt w) (g' ! 0)" "translate_virtual_fd (ie_fd X) (fdt w) (g' ! 0) (a' ! 0) = Some e'"
      "fdkind e' = IPC_PIPE" "is_read_end (word_of_nat (perfdinfo e'))" "underfd e' = underfd e"
    and pipe: "get_pipe (ipcs w) (underfd e) = Some i" "q (ring (store (ipcs w) ! i)) = []" "length mem \<le> cap (ring (store (ipcs w) ! i))"
    and mem: "a ! 1 \<noteq> 0" "delivers (ring_copy X w) (g ! 1) (a ! 1) mem" "as_usize (int (a ! 2)) = length mem" "mem \<noteq> []" "length mem < 2 ^ 31"
    and buf: "a' ! 1 \<noteq> 0" "length mem \<le> as_usize (int (a' ! 2))"
  shows "\<exists>w1 w2 l r. ipc_write_handler X w a g = Some (int (length mem), w1) \<and> ipc_read_handler X w1 a' g' = Some (int (length mem), w2) \<and>
    mem = l @ r \<and> hist w2 = hist w @ copy_pieces (g' ! 1) (a' ! 1) l r"
proof -
  note inv = reachable_refs [OF assms(1,2)]
  have "hits e' (underfd e) True" using rd by (simp add: hits_def)
  then have ne: "pipe_ends (ie_fd X) (fdt w) (underfd e) True \<noteq> {}" using rd(2) unfolding pipe_ends_def by blast
  obtain w1 where w1: "ipc_write_handler X w a g = Some (int (length mem), w1)" "fdt w1 = fdt w" "hist w1 = hist w" "pipes (ipcs w1) = pipes (ipcs w)"
      "q (ring (store (ipcs w1) ! i)) = mem"
    using write_handler [OF assms(1) inv assms(3,4) wr pipe(1) mem] pipe(2,3) ne by auto
  have inv1: "refs_inv X w1" using transfer_good(2) [OF assms(1) inv, of a g] w1(1) by simp
  obtain l r where occ: "occupied_slices (ie_ring X) (ring (store (ipcs w1) ! i)) = (l, r)" by fastforce
  then have lr: "mem = l @ r" using ring_occupied [OF assms(4)] w1(5) by simp
  have "ipc_read_handler X w1 a' g' = recv_cage X w1 i (g' ! 1) (a' ! 1) (as_usize (int (a' ! 2))) (is_nonblocking (word_of_nat (perfdinfo e')))"
    using assms(1) inv1 rd pipe(1) buf mem(4) w1(2,4)
    by (auto simp: ipc_read_handler_def pipe_info [of "ie_fd X" "fdt w" "g' ! 0" "a' ! 0" e'] Let_def get_pipe_def)
  moreover have "(\<lambda>h c q bs. if ge_copyout (ie_g X) h c q bs then h @ [CopyOut c q bs] else h) = (\<lambda>h c q bs. h @ [CopyOut c q bs])"
    using assms(5) by simp
  moreover have len: "length l + length r = length mem" "0 < length mem" using lr mem(4) by simp_all
  moreover have "as_usize (int (a' ! 2)) \<noteq> 0" using len(2) buf(2) by linarith
  moreover have "as_i32 (int (length mem)) = int (length mem)" using mem(5) by (simp add: as_i32_small)
  ultimately have "\<exists>w2. ipc_read_handler X w1 a' g' = Some (int (length mem), w2) \<and> hist w2 = hist w @ copy_pieces (g' ! 1) (a' ! 1) l r"
    using pop_all [OF occ, of "as_usize (int (a' ! 2))" "hist w1" "g' ! 1" "a' ! 1"] buf(2) w1(3)
    by (simp add: recv_cage_def read_to_cage_def read_to_cage_loop.simps put_pipe_def)
  then show ?thesis using w1(1) lr by blast
qed

theorem pipe_message_delivered_witness:
  "\<exists>w1 w2 l r. ipc_write_handler pipe_env piped [1, 64, 3, 0, 0, 0] (replicate 6 4) = Some (3, w1) \<and>
    ipc_read_handler pipe_env w1 [0, 96, 10, 0, 0, 0] (replicate 6 4) = Some (3, w2) \<and> replicate 3 7 = l @ r \<and>
    hist w2 = hist piped @ copy_pieces 4 96 l r"
  using pipe_message_delivered [OF mem_env_ok piped_reachable piped_few, of _ fst snd "replicate 6 4" "[1, 64, 3, 0, 0, 0]" "mk_entry IPC_PIPE 0 False 2049"
      "replicate 6 4" "[0, 96, 10, 0, 0, 0]" "mk_entry IPC_PIPE 0 False 2048" 0 "replicate 3 7"]
    list_ring_ok piped_entries piped_ring piped_flags piped_delivers [of piped 4 64 3] piped_room
  by (simp add: map_table_simps as_usize_def)

section \<open>Polling\<close>

lemma read_some:
  assumes "ringbuf_ok R q cap" "q (ring p) \<noteq> []" "n \<noteq> 0" "n < 2 ^ 31"
  shows "\<exists>r h' p'. read_to_cage R co h p c a n nb ns = Some (r, h', p') \<and> 0 < r"
proof -
  obtain l r where occ: "occupied_slices R (ring p) = (l, r)" by fastforce
  obtain k h' rb where pop: "pop_to_cage R co h (ring p) c a n = (k, h', rb)" by (metis surj_pair)
  have k: "k = min n (length l) + min (n - min n (length l)) (length r)"
    using pop occ by (simp only: pop_to_cage_def Let_def case_prod_conv prod.inject)
  have "0 < length l + length r" using ring_occupied [OF assms(1) occ] assms(2) by auto
  then have "0 < k" "k \<le> n" using k assms(3) by auto
  then show ?thesis using pop assms(3,4)
    by (auto simp: read_to_cage_def read_to_cage_loop.simps as_i32_small)
qed

text \<open>The answer of \<open>poll\<close> for one pipe descriptor and no waiting time.\<close>

lemma poll_one:
  assumes "env_ok X" "refs_inv X w" "ipc_info (ie_fd X) (fdt w) (g ! 0) (as_u64 (pf_fd p)) = Some info" "0 \<le> pf_fd p"
    and a: "a ! 0 \<noteq> 0" "as_usize (int (a ! 1)) = 1" "as_i32 (int (a ! 2)) = 0" "poll_read X w a g 1 = [p]"
  shows "let st = ipc_pipe_poll_state (ie_ring X) (ipcs w) info (word_of_nat (pf_events p)) in
    ipc_poll_handler X w a g =
      Some (if st = 0 then 0 else 1, copy_out X w (g ! 0) (a ! 0) (pollfds_bytes [p\<lparr>pf_revents := unat st\<rparr>]))"
  using assms
  by (simp add: ipc_poll_handler_def Let_def classify_pollfd_def ipc_ready_count_def ipc_only_poll_wait_def poll_wait_loop.simps
      finish_ipc_poll_def poll_answer_def del: ipc_pipe_poll_state.simps)

text \<open>C14. \<open>poll\<close> and \<open>read\<close> agree after any run of counted calls.  The poll handler, called without waiting time for one
  read descriptor of a pipe, returns 1 exactly when a non-blocking read through the read handler would not ask to try again, and 0
  otherwise; the one entry it copies back into the cage reports data when the read would deliver bytes, hang-up when it would
  return end of file, and nothing when it would ask to try again.
  Runs are those of \<open>ipc_reachable\<close>: handlers that run one after another, without \<open>ioctl(FIONBIO)\<close> (which loses a
  reference, \<open>fionbio_loses_reference\<close>), without \<open>dup2\<close> or \<open>dup3\<close> onto a number the tables refuse, with
  fresh children of \<open>clone\<close> and with fewer than \<open>2 ^ 31\<close> open descriptors.\<close>

theorem poll_agrees_with_read:
  assumes "env_ok X" "ipc_reachable X w" "few_fds X w" "ringbuf_ok (ie_ring X) q cap" "check_cage_exists (ie_fd X) (fdt w) (g ! 0)"
    "translate_virtual_fd (ie_fd X) (fdt w) (g ! 0) (a ! 0) = Some e" "fdkind e = IPC_PIPE"
    "is_read_end (word_of_nat (perfdinfo e))" "is_nonblocking (word_of_nat (perfdinfo e))"
    "a ! 1 \<noteq> 0" "as_usize (int (a ! 2)) \<noteq> 0" "as_usize (int (a ! 2)) < 2 ^ 31"
    and poll: "poll_read X w b g 1 = [p]" "0 \<le> pf_fd p" "as_u64 (pf_fd p) = a ! 0" "word_of_nat (pf_events p) = POLLIN"
      "b ! 0 \<noteq> 0" "as_usize (int (b ! 1)) = 1" "as_i32 (int (b ! 2)) = 0"
  shows "\<exists>r w'. ipc_read_handler X w a g = Some (r, w') \<and>
    ipc_poll_handler X w b g = Some (if r = -11 then 0 else 1, copy_out X w (g ! 0) (b ! 0)
      (pollfds_bytes [p\<lparr>pf_revents := unat (if 0 < r then POLLIN else if r = 0 then POLLHUP else 0)\<rparr>])) \<and> (r < 0 \<longrightarrow> r = -11)"
proof -
  note inv = reachable_refs [OF assms(1,2)]
  from pipe_entry [OF inv assms(6,7)] obtain i where i: "get_pipe (ipcs w) (underfd e) = Some i"
    "write_refs (store (ipcs w) ! i) = of_nat (end_count (ie_fd X) (fdt w) (underfd e) False)"
    "p_eof (store (ipcs w) ! i) \<longleftrightarrow> end_count (ie_fd X) (fdt w) (underfd e) False = 0" .
  let ?p = "store (ipcs w) ! i" and ?n = "as_usize (int (a ! 2))" and ?co = "\<lambda>h c q bs. if ge_copyout (ie_g X) h c q bs then h @ [CopyOut c q bs] else h"
  let ?st = "ipc_pipe_poll_state (ie_ring X) (ipcs w) (underfd e, IPC_PIPE, word_of_nat (perfdinfo e)) POLLIN"
  have eof: "write_refs ?p = 0 \<longleftrightarrow> p_eof ?p" using i(2,3) of_nat_zero_iff [OF count_small [OF inv assms(3)]] by simp
  have st: "?st = (if q (ring ?p) \<noteq> [] then POLLIN else if p_eof ?p then POLLHUP else 0)"
    using assms(8) i(1) eof by (simp add: poll_pipe_def has_data_def ring_len [OF assms(4)] poll_consts IPC_PIPE_def IPC_SOCKET_def Let_def)
  have pl: "ipc_poll_handler X w b g = Some (if ?st = 0 then 0 else 1, copy_out X w (g ! 0) (b ! 0) (pollfds_bytes [p\<lparr>pf_revents := unat ?st\<rparr>]))"
    using poll_one [OF assms(1) inv, of g p "(underfd e, IPC_PIPE, word_of_nat (perfdinfo e))" b] poll pipe_info [OF assms(5-7)]
    by (simp add: Let_def del: ipc_pipe_poll_state.simps)
  have h: "ipc_read_handler X w a g = recv_cage X w i (g ! 1) (a ! 1) ?n True"
    using assms(1,8-11) inv i(1) by (simp add: ipc_read_handler_def pipe_info [OF assms(5-7)] Let_def)
  show ?thesis
  proof (cases "q (ring ?p) = []")
    case True
    obtain p' where "read_to_cage (ie_ring X) ?co (hist w) ?p (g ! 1) (a ! 1) ?n True (ie_naps X (hist w)) = Some (if p_eof ?p then 0 else -11, hist w, p')"
      using read_empty [OF assms(4) True assms(11), of ?co "hist w" "g ! 1" "a ! 1" "ie_naps X (hist w)"] by blast
    then show ?thesis unfolding pl st h using True by (auto simp: recv_cage_def POLLHUP_def)
  next
    case False
    obtain r h' p' where "read_to_cage (ie_ring X) ?co (hist w) ?p (g ! 1) (a ! 1) ?n True (ie_naps X (hist w)) = Some (r, h', p')" "0 < r"
      using read_some [OF assms(4) False assms(11,12), of ?co "hist w" "g ! 1" "a ! 1" True "ie_naps X (hist w)"] by blast
    then show ?thesis unfolding pl st h using False by (auto simp: recv_cage_def POLLIN_def)
  qed
qed

text \<open>The memory of the cage holds one entry that asks whether descriptor 0 is readable.\<close>

definition poll_entry_bytes :: "byte list" where
  "poll_entry_bytes = pollfds_bytes [\<lparr>pf_fd = 0, pf_events = 1, pf_revents = 0\<rparr>]"

theorem poll_agrees_with_read_witness:
  "let X = mem_env (\<lambda>h c p n. Some poll_entry_bytes) in
   \<exists>r w' w''. ipc_read_handler X piped [0, 64, 10, 0, 0, 0] (replicate 6 4) = Some (r, w') \<and>
    ipc_poll_handler X piped [32, 1, 0, 0, 0, 0] (replicate 6 4) = Some (if r = -11 then 0 else 1, w'')"
proof -
  let ?X = "mem_env (\<lambda>h c p n. Some poll_entry_bytes)" and ?p = "\<lparr>pf_fd = 0, pf_events = 1, pf_revents = 0\<rparr>"
  have "pollfds_of 1 poll_entry_bytes = [?p]" using pollfds_of_bytes [of "[?p]"] by (simp add: poll_entry_bytes_def pollfd_ok_def)
  then have pr: "poll_read ?X piped [32, 1, 0, 0, 0, 0] (replicate 6 4) 1 = [?p]" by (simp add: poll_read_def copy_in_def)
  have R: "ringbuf_ok (ie_ring ?X) fst snd" using list_ring_ok by simp
  from poll_agrees_with_read [OF mem_env_ok piped_reachable piped_few this, of "replicate 6 4" "[0, 64, 10, 0, 0, 0]"
      "mk_entry IPC_PIPE 0 False 2048", OF _ _ _ _ _ _ _ _ pr]
  have "\<exists>r w'. ipc_read_handler ?X piped [0, 64, 10, 0, 0, 0] (replicate 6 4) = Some (r, w') \<and> (\<exists>w''.
    ipc_poll_handler ?X piped [32, 1, 0, 0, 0, 0] (replicate 6 4) = Some (if r = -11 then 0 else 1, w''))"
    using piped_entries piped_flags by (simp add: map_table_simps as_usize_def as_u64_def as_i32_def POLLIN_def del: One_nat_def split del: if_split) blast
  then show ?thesis unfolding Let_def by blast
qed

section \<open>Connections\<close>

text \<open>A number of accepts, one after another, on the same listening socket.\<close>

fun accept_times ::
  "('ft, 'rb) ipc_env \<Rightarrow> nat \<Rightarrow> nat \<Rightarrow> string \<Rightarrow> bool \<Rightarrow> nat \<Rightarrow> nat \<Rightarrow> ('ft, 'rb) ipc_world \<Rightarrow> (int list \<times> ('ft, 'rb) ipc_world) option" where
  "accept_times X cage lid target ce info 0 w = Some ([], w)"
| "accept_times X cage lid target ce info (Suc n) w = do {
     (fd, w) \<leftarrow> accept_loop X cage lid target True ce info 0 0 [] w;
     (fds, w) \<leftarrow> accept_times X cage lid target ce info n w;
     Some (fd # fds, w) }"

text \<open>The socket an accept of connection \<open>c\<close> leaves behind: a new entry for a connected socket that receives from the pipe to
  the listener and sends into the pipe to the connector.\<close>

definition serves ::
  "('ft, 'rb) ipc_env \<Rightarrow> ('ft, 'rb) ipc_world \<Rightarrow> nat \<Rightarrow> bool \<Rightarrow> nat \<Rightarrow> pending_connection \<Rightarrow> nat \<Rightarrow> nat \<Rightarrow> bool" where
  "serves X w cage ce info c fd sid \<longleftrightarrow>
     translate_virtual_fd (ie_fd X) (fdt w) cage fd = Some (mk_entry IPC_SOCKET sid ce info) \<and>
     (\<exists>k. sockets (socks (ipcs w)) sid = Some k \<and> s_state k = Connected \<and>
        recvpipe k = Some (pipe_to_listener c) \<and> sendpipe k = Some (pipe_to_connector c))"

lemma accept_one:
  assumes "fdtables_ok (ie_fd X)" "pending_connections (socks (ipcs w)) target = Some (c # q)" "next_socket_id (socks (ipcs w)) + 1 < 2 ^ 64"
    "accept_loop X cage lid target nb ce info 0 0 [] w = Some (fd, w')" "0 \<le> fd"
  shows "\<exists>fd'. fd = as_i32 (int fd') \<and> translate_virtual_fd (ie_fd X) (fdt w) cage fd' = None \<and>
      serves X w' cage ce info c fd' (next_socket_id (socks (ipcs w)))"
    and "store (ipcs w') = store (ipcs w)" "pending_connections (socks (ipcs w')) target = Some q"
      "next_socket_id (socks (ipcs w')) = next_socket_id (socks (ipcs w)) + 1"
      "\<And>s. s \<noteq> next_socket_id (socks (ipcs w)) \<Longrightarrow> sockets (socks (ipcs w')) s = sockets (socks (ipcs w)) s"
      "\<And>c fd e. translate_virtual_fd (ie_fd X) (fdt w) c fd = Some e \<Longrightarrow> translate_virtual_fd (ie_fd X) (fdt w') c fd = Some e"
proof -
  let ?w = "upd_socks (\<lambda>reg. reg\<lparr>pending_connections := (pending_connections reg)(target \<mapsto> q)\<rparr>) w" and ?n = "next_socket_id (socks (ipcs w))"
  have acc: "accept_connection X cage lid ce info 0 0 c ?w = (fd, w')" using assms(2,4) by (simp add: accept_loop.simps)
  obtain asid w3 where as: "accepted_socket lid c ?w = (asid, w3)" by fastforce
  have w3: "asid = ?n" "fdt w3 = fdt w" "store (ipcs w3) = store (ipcs w)" "pending_connections (socks (ipcs w3)) target = Some q"
      "next_socket_id (socks (ipcs w3)) = ?n + 1" "\<And>s. s \<noteq> ?n \<Longrightarrow> sockets (socks (ipcs w3)) s = sockets (socks (ipcs w)) s"
      "\<exists>k. sockets (socks (ipcs w3)) ?n = Some k \<and> s_state k = Connected \<and>
        recvpipe k = Some (pipe_to_listener c) \<and> sendpipe k = Some (pipe_to_connector c)"
    using as assms(3) by (auto simp: accepted_socket_def new_socket_def create_socket_def upd_socks_def registry_mod_def Let_def)
  have "fd \<noteq> -24" using assms(5) by simp
  then obtain fd' ft where al: "get_unused_virtual_fd (ie_fd X) (fdt w) cage IPC_SOCKET ?n ce info = Some (fd', ft)"
    using acc as w3(1,2) by (cases "get_unused_virtual_fd (ie_fd X) (fdt w) cage IPC_SOCKET ?n ce info") (auto simp: accept_connection_def Let_def)
  then have w': "w' = w3\<lparr>fdt := ft\<rparr>" "fd = as_i32 (int fd')"
    using acc as w3(1,2) by (auto simp: accept_connection_def Let_def split: prod.splits)
  have e: "translate_virtual_fd (ie_fd X) ft c fd = (if c = cage \<and> fd = fd' then Some (mk_entry IPC_SOCKET ?n ce info)
      else translate_virtual_fd (ie_fd X) (fdt w) c fd)" "translate_virtual_fd (ie_fd X) (fdt w) cage fd' = None" for c fd
    using fd_alloc_law [OF assms(1) al] fd_mapsD [of "ie_fd X" "fdt w" cage fd' _ ft c fd] by auto
  show "\<exists>fd'. fd = as_i32 (int fd') \<and> translate_virtual_fd (ie_fd X) (fdt w) cage fd' = None \<and> serves X w' cage ce info c fd' ?n"
    using w' w3(7) e by (intro exI [of _ fd']) (simp add: serves_def)
  show "\<And>c fd e. translate_virtual_fd (ie_fd X) (fdt w) c fd = Some e \<Longrightarrow> translate_virtual_fd (ie_fd X) (fdt w') c fd = Some e"
    using w' e by auto
  show "store (ipcs w') = store (ipcs w)" "pending_connections (socks (ipcs w')) target = Some q" "next_socket_id (socks (ipcs w')) = ?n + 1"
    "\<And>s. s \<noteq> ?n \<Longrightarrow> sockets (socks (ipcs w')) s = sockets (socks (ipcs w)) s"
    using w' w3 by simp_all
qed

lemma accept_times_fifo:
  assumes "fdtables_ok (ie_fd X)" "pending_connections (socks (ipcs w)) target = Some q" "next_socket_id (socks (ipcs w)) + length q < 2 ^ 64"
    "accept_times X cage lid target ce info (length q) w = Some (fds, w')" "\<forall>fd \<in> set fds. 0 \<le> fd"
  shows "length fds = length q \<and> store (ipcs w') = store (ipcs w) \<and> pending_connections (socks (ipcs w')) target = Some [] \<and>
    (\<forall>s < next_socket_id (socks (ipcs w)). sockets (socks (ipcs w')) s = sockets (socks (ipcs w)) s) \<and>
    (\<forall>c fd e. translate_virtual_fd (ie_fd X) (fdt w) c fd = Some e \<longrightarrow> translate_virtual_fd (ie_fd X) (fdt w') c fd = Some e) \<and>
    (\<forall>j < length q. \<exists>fd'. fds ! j = as_i32 (int fd') \<and> translate_virtual_fd (ie_fd X) (fdt w) cage fd' = None \<and>
       serves X w' cage ce info (q ! j) fd' (next_socket_id (socks (ipcs w)) + j))"
  using assms(2-)
proof (induction q arbitrary: w fds)
  case (Cons c q)
  let ?n = "next_socket_id (socks (ipcs w))"
  obtain fd w1 fds' where a: "accept_loop X cage lid target True ce info 0 0 [] w = Some (fd, w1)"
    "accept_times X cage lid target ce info (length q) w1 = Some (fds', w')" "fds = fd # fds'"
    using Cons.prems(3) by (auto simp: bind_eq_Some_conv)
  have n: "?n + 1 < 2 ^ 64" "0 \<le> fd" using Cons.prems(2,4) a(3) by simp_all
  note o = accept_one [OF assms(1) Cons.prems(1) n(1) a(1) n(2)]
  have IH: "length fds' = length q" "store (ipcs w') = store (ipcs w1)" "pending_connections (socks (ipcs w')) target = Some []"
    "\<forall>s < ?n + 1. sockets (socks (ipcs w')) s = sockets (socks (ipcs w1)) s"
    "\<forall>c fd e. translate_virtual_fd (ie_fd X) (fdt w1) c fd = Some e \<longrightarrow> translate_virtual_fd (ie_fd X) (fdt w') c fd = Some e"
    "\<forall>j < length q. \<exists>fd'. fds' ! j = as_i32 (int fd') \<and> translate_virtual_fd (ie_fd X) (fdt w1) cage fd' = None \<and>
       serves X w' cage ce info (q ! j) fd' (?n + 1 + j)"
    using Cons.IH [OF o(3) _ a(2)] Cons.prems(2,4) a(3) o(4) by auto
  have "\<exists>fd'. fds ! j = as_i32 (int fd') \<and> translate_virtual_fd (ie_fd X) (fdt w) cage fd' = None \<and>
      serves X w' cage ce info ((c # q) ! j) fd' (?n + j)" if "j < Suc (length q)" for j
  proof (cases j)
    case 0
    from o(1) obtain fd' where "fd = as_i32 (int fd')" "translate_virtual_fd (ie_fd X) (fdt w) cage fd' = None" "serves X w1 cage ce info c fd' ?n" by blast
    then show ?thesis using 0 a(3) IH(4,5) by (intro exI [of _ fd']) (simp add: serves_def)
  next
    case (Suc i)
    then obtain fd' where "fds' ! i = as_i32 (int fd')" "translate_virtual_fd (ie_fd X) (fdt w1) cage fd' = None"
      "serves X w' cage ce info (q ! i) fd' (?n + 1 + i)" using IH(6) \<open>j < Suc (length q)\<close> by auto
    moreover from this(2) have "translate_virtual_fd (ie_fd X) (fdt w) cage fd' = None"
      using o(6) by (cases "translate_virtual_fd (ie_fd X) (fdt w) cage fd'") auto
    ultimately show ?thesis using Suc a(3) by auto
  qed
  then show ?case using IH o(2,5,6) a(3) by simp
qed simp

text \<open>C15. A \<open>connect\<close> to a bound address, whatever connections are already waiting there, puts the new connection
  behind them.  As many accepts on the listening socket as connections wait, all successful, serve them in the order of
  arrival: the new descriptor of the \<open>j\<close>-th accept is a socket that receives from the \<open>j\<close>-th client's pipe
  to the listener and sends into its pipe to the connector.  For the last one these are the two new, empty pipes
  that the connecting socket sends into and receives from; both sockets are connected, and the queue is empty.\<close>

theorem connect_accept_wired:
  assumes "fdtables_ok (ie_fd X)" "sockets (socks (ipcs w)) sid = Some k" "sid < next_socket_id (socks (ipcs w))"
    "bound_paths (socks (ipcs w)) target = Some b"
    and q: "q = (case pending_connections (socks (ipcs w)) target of Some q \<Rightarrow> q | None \<Rightarrow> [])"
      "next_socket_id (socks (ipcs w)) + length q + 1 < 2 ^ 64"
    and run: "connect_socket X sid target w = (ret, w1)"
      "accept_times X cage lid target ce info (length q + 1) w1 = Some (fds, w2)" "\<forall>fd \<in> set fds. 0 \<le> fd"
  shows "ret = 0 \<and> length fds = length q + 1 \<and> pending_connections (socks (ipcs w2)) target = Some [] \<and>
    store (ipcs w2) = store (ipcs w) @ [pipe_new (ie_ring X) UDSOCK_CAPACITY, pipe_new (ie_ring X) UDSOCK_CAPACITY] \<and>
    (\<exists>k1 c. sockets (socks (ipcs w2)) sid = Some k1 \<and> s_state k1 = Connected \<and>
      sendpipe k1 = Some (length (store (ipcs w))) \<and> recvpipe k1 = Some (length (store (ipcs w)) + 1) \<and>
      pipe_to_listener c = length (store (ipcs w)) \<and> pipe_to_connector c = length (store (ipcs w)) + 1 \<and>
      (\<forall>j \<le> length q. \<exists>fd. fds ! j = as_i32 (int fd) \<and> translate_virtual_fd (ie_fd X) (fdt w) cage fd = None \<and>
         serves X w2 cage ce info ((q @ [c]) ! j) fd (next_socket_id (socks (ipcs w)) + j)))"
proof -
  let ?i = "length (store (ipcs w))" and ?reg = "socks (ipcs w)"
  define k1 where "k1 = k\<lparr>sendpipe := Some ?i, recvpipe := Some (?i + 1), s_state := Connected, remote_addr := Some target\<rparr>"
  define c where "c = \<lparr>pc_remote_addr = (case local_addr k of Some l \<Rightarrow> l | None \<Rightarrow> []), pipe_to_listener = ?i, pipe_to_connector = ?i + 1\<rparr>"
  have w1: "ret = 0" "w1 = w\<lparr>ipcs := (ipcs w)\<lparr>store := store (ipcs w) @ [pipe_new (ie_ring X) UDSOCK_CAPACITY, pipe_new (ie_ring X) UDSOCK_CAPACITY],
      socks := ?reg\<lparr>sockets := (sockets ?reg)(sid \<mapsto> k1), pending_connections := (pending_connections ?reg)(target \<mapsto> q @ [c])\<rparr>\<rparr>\<rparr>"
    using assms(2,4) run(1) q(1) by (auto simp: connect_socket_def Let_def registry_mod_def registry_get_def queue_connection_def k1_def c_def)
  have p: "pending_connections (socks (ipcs w1)) target = Some (q @ [c])" "next_socket_id (socks (ipcs w1)) + length (q @ [c]) < 2 ^ 64"
    "accept_times X cage lid target ce info (length (q @ [c])) w1 = Some (fds, w2)" "fdt w1 = fdt w" "next_socket_id (socks (ipcs w1)) = next_socket_id ?reg"
    using w1(2) q(2) run(2) by simp_all
  note f = accept_times_fifo [OF assms(1) p(1-3) run(3)]
  have "sockets (socks (ipcs w2)) sid = Some k1" using f p(5) assms(3) w1(2) by simp
  then show ?thesis using f w1 p(4,5)
    by (intro conjI exI [of _ k1] exI [of _ c]) (auto simp: k1_def c_def less_Suc_eq_le)
qed

text \<open>A registry with a bound listener, a connection that waits there and a socket that connects.\<close>

definition listening :: "(fd_map, list_ring) ipc_world" where
  "listening = \<lparr>fdt = [], hist = [],
     ipcs = (ipc_new 9)\<lparr>store := [pipe_new list_ring UDSOCK_CAPACITY, pipe_new list_ring UDSOCK_CAPACITY], socks := registry_new\<lparr>
       sockets := [0 \<mapsto> ((socket_info_new 1 1 0)\<lparr>s_state := Listening, local_addr := Some ''/s''\<rparr>), 1 \<mapsto> socket_info_new 1 1 0],
       next_socket_id := 2, bound_paths := [''/s'' \<mapsto> 0],
       pending_connections := [''/s'' \<mapsto> [\<lparr>pc_remote_addr = [], pipe_to_listener = 0, pipe_to_connector = 1\<rparr>]]\<rparr>\<rparr>, pendings = []\<rparr>"

theorem connect_accept_wired_witness:
  "\<exists>w1 w2. connect_socket pipe_env 1 ''/s'' listening = (0, w1) \<and> accept_times pipe_env 4 0 ''/s'' False 0 2 w1 = Some ([0, 1], w2) \<and>
    pending_connections (socks (ipcs w2)) ''/s'' = Some []"
proof -
  let ?q = "[\<lparr>pc_remote_addr = [], pipe_to_listener = 0, pipe_to_connector = 1\<rparr>]"
  have f: "first_free [] 4 0 8 = Some 0" "first_free [((4, 0), e)] 4 0 8 = Some 1" for e by (simp_all add: numeral_eq_Suc)
  obtain ret w1 where c: "connect_socket pipe_env 1 ''/s'' listening = (ret, w1)" by fastforce
  then have w1: "fdt w1 = []" "\<exists>x y. pending_connections (socks (ipcs w1)) ''/s'' = Some [x, y]"
    by (auto simp: connect_socket_def Let_def listening_def queue_connection_def registry_mod_def registry_new_def ipc_new_def)
  then obtain x y where x: "pending_connections (socks (ipcs w1)) ''/s'' = Some [x, y]" by blast
  have "\<exists>w2. accept_times pipe_env 4 0 ''/s'' False 0 2 w1 = Some ([0, 1], w2)"
    using f w1(1) x by (simp add: numeral_2_eq_2 accept_loop.simps accept_connection_def Let_def split_beta map_table_simps accepted_socket_def new_socket_def
        upd_socks_def registry_mod_def create_socket_def as_i32_def)
  then obtain w2 where a: "accept_times pipe_env 4 0 ''/s'' False 0 2 w1 = Some ([0, 1], w2)" by blast
  have s: "sockets (socks (ipcs listening)) 1 = Some (socket_info_new 1 1 0)" "1 < next_socket_id (socks (ipcs listening))"
      "bound_paths (socks (ipcs listening)) ''/s'' = Some 0"
      "?q = (case pending_connections (socks (ipcs listening)) ''/s'' of Some q \<Rightarrow> q | None \<Rightarrow> [])"
      "next_socket_id (socks (ipcs listening)) + length ?q + 1 < 2 ^ 64"
    by (simp_all add: listening_def registry_new_def)
  have "fdtables_ok (ie_fd pipe_env)" using map_fdtables_ok by simp
  from connect_accept_wired [OF this s c] a c show ?thesis by (auto simp: numeral_2_eq_2)
qed

section \<open>Lost references\<close>

text \<open>The flags \<open>FIONBIO\<close> stores: only the non-blocking bit may differ.\<close>

definition fionbio_flags :: "i32 \<Rightarrow> bool \<Rightarrow> nat" where
  "fionbio_flags flags on = (if on then as_u64 (sint flags) OR 0x800 else as_u64 (sint flags) AND (2 ^ 64 - 1 - 0x800))"

lemma fionbio_flags_word:
  "(word_of_nat (fionbio_flags flags on) :: i32) = (if on then flags OR 0x800 else flags AND NOT 0x800)"
proof -
  have "flags AND 18446744073709549567 = flags AND - 2049" by (rule arg_cong) simp
  then show ?thesis by (simp add: fionbio_flags_def of_nat_or_eq of_nat_and_eq i32_u64_roundtrip)
qed

lemma fionbio_flags_end:
  "is_read_end (word_of_nat (fionbio_flags flags on)) \<longleftrightarrow> is_read_end flags"
  "is_nonblocking (word_of_nat (fionbio_flags flags on)) \<longleftrightarrow> on"
proof -
  have "(flags OR 0x800) AND 3 = flags AND (3 :: i32)" "(flags AND - 2049) AND 3 = flags AND (3 :: i32)"
    "(flags OR 0x800) AND 0x800 \<noteq> (0 :: i32)" "(flags AND - 2049) AND 0x800 = (0 :: i32)"
    by (simp_all add: bit.conj_disj_distrib2 and.assoc)
  then show "is_read_end (word_of_nat (fionbio_flags flags on)) \<longleftrightarrow> is_read_end flags"
    "is_nonblocking (word_of_nat (fionbio_flags flags on)) \<longleftrightarrow> on"
    unfolding fionbio_flags_word by (auto simp: is_read_end_def is_nonblocking_def IPC_O_ACCMODE_def IPC_O_NONBLOCK_def)
qed

text \<open>C16. \<open>ioctl(FIONBIO)\<close> on a pipe descriptor loses a reference.  After any run of counted calls it succeeds and keeps the
  descriptor, with the requested blocking mode, so the tables hold the same read and write descriptors of the pipe as before;
  but the re-installation of the entry runs the callback for a closed descriptor, so the counter of that end is one
  less than the number of its descriptors, and a pipe with a single writer is marked at end of file
  although the writer is open.  This is why the runs of the other properties of pipes exclude the request.\<close>

theorem fionbio_loses_reference:
  assumes "env_ok X" "ipc_reachable X w" "few_fds X w" "check_cage_exists (ie_fd X) (fdt w) (g ! 0)"
    "translate_virtual_fd (ie_fd X) (fdt w) (g ! 0) (a ! 0) = Some e" "fdkind e = IPC_PIPE"
    "a ! 1 = 0x5421" "a ! 2 \<noteq> 0" "dup_target_ok X w (g ! 0) (a ! 0)"
  shows "\<exists>w' e' i. ipc_ioctl_handler X w a g = Some (0, w') \<and>
    translate_virtual_fd (ie_fd X) (fdt w') (g ! 0) (a ! 0) = Some e' \<and> fdkind e' = IPC_PIPE \<and> underfd e' = underfd e \<and>
    (is_nonblocking (word_of_nat (perfdinfo e')) \<longleftrightarrow> le_nat (read_user_bytes X w (a ! 2) 4) \<noteq> 0) \<and>
    (\<forall>rd. pipe_ends (ie_fd X) (fdt w') (underfd e) rd = pipe_ends (ie_fd X) (fdt w) (underfd e) rd) \<and>
    get_pipe (ipcs w') (underfd e) = Some i \<and>
    (let p = store (ipcs w') ! i; rd = is_read_end (word_of_nat (perfdinfo e)); n = (\<lambda>rd. card (pipe_ends (ie_fd X) (fdt w') (underfd e) rd)) in
     read_refs p = of_nat (n True - (if rd then 1 else 0)) \<and> write_refs p = of_nat (n False - (if rd then 0 else 1)) \<and>
     (p_eof p \<longleftrightarrow> n False = 0 \<or> \<not> rd \<and> n False = 1))"
proof -
  note inv = reachable_refs [OF assms(1,2)]
  from pipe_entry [OF inv assms(5,6)] obtain i where i: "get_pipe (ipcs w) (underfd e) = Some i" "i < length (store (ipcs w))"
    "read_refs (store (ipcs w) ! i) = of_nat (end_count (ie_fd X) (fdt w) (underfd e) True)"
    "write_refs (store (ipcs w) ! i) = of_nat (end_count (ie_fd X) (fdt w) (underfd e) False)"
    "p_eof (store (ipcs w) ! i) \<longleftrightarrow> end_count (ie_fd X) (fdt w) (underfd e) False = 0" .
  let ?on = "le_nat (read_user_bytes X w (a ! 2) 4) \<noteq> 0" and ?rd = "is_read_end (word_of_nat (perfdinfo e))"
  let ?fl = "fionbio_flags (word_of_nat (perfdinfo e)) ?on"
  obtain ft where ft: "get_specific_virtual_fd (ie_fd X) (fdt w) (g ! 0) (a ! 0) IPC_PIPE (underfd e) (should_cloexec e) ?fl = Some ft"
    using assms(9) unfolding dup_target_ok_def by fastforce
  let ?w = "w\<lparr>fdt := ft, ipcs := pipe_mod (if ?rd then decr_read_ref else decr_write_ref) i (ipcs w)\<rparr>"
  have h: "ipc_ioctl_handler X w a g = Some (0, ?w)"
    using assms(1,5-8) inv ft i(1) pipe_info [OF assms(4-6)]
    by (simp add: ipc_ioctl_handler_def Let_def ipc_set_fd_def fionbio_flags_def close_hook_def ipc_pipe_close_handler_def opt_pipe_mod_def split: if_splits)
  have m: "translate_virtual_fd (ie_fd X) ft c fd = (if c = g ! 0 \<and> fd = a ! 0 then Some (mk_entry IPC_PIPE (underfd e) (should_cloexec e) ?fl)
      else translate_virtual_fd (ie_fd X) (fdt w) c fd)" for c fd
    using fd_mapsD [OF fd_specific_law [OF env_okD(1) [OF assms(1)] ft]] .
  then have ends: "pipe_ends (ie_fd X) ft (underfd e) rd = pipe_ends (ie_fd X) (fdt w) (underfd e) rd" for rd
    using assms(5,6) by (auto simp: pipe_ends_def hits_def fionbio_flags_end split: if_splits)
  have pos: "0 < card (pipe_ends (ie_fd X) (fdt w) (underfd e) ?rd)"
    using end_count_pos [OF assms(5) _ refs_invD(3) [OF inv], of "underfd e" ?rd] assms(6) by (simp add: hits_def end_count_def)
  have one: "(of_nat (end_count (ie_fd X) (fdt w) (underfd e) False) :: u32) = 1 \<longleftrightarrow> end_count (ie_fd X) (fdt w) (underfd e) False = 1"
    by (rule of_nat_one_iff [OF count_small [OF inv assms(3)]])
  show ?thesis
    using h m ends pos one i
    by (intro exI [of _ ?w] exI [of _ "mk_entry IPC_PIPE (underfd e) (should_cloexec e) ?fl"] exI [of _ i])
      (auto simp: fionbio_flags_end Let_def get_pipe_def pipe_mod_def decr_read_ref_def decr_write_ref_def end_count_def of_nat_diff)
qed

theorem fionbio_loses_reference_witness:
  "\<exists>w' i. ipc_ioctl_handler pipe_env piped [1, 0x5421, 64, 0, 0, 0] (replicate 6 4) = Some (0, w') \<and>
    get_pipe (ipcs w') 0 = Some i \<and> p_eof (store (ipcs w') ! i) \<and> (4, 1) \<in> pipe_ends map_fdtables (fdt w') 0 False"
proof -
  have sub: "pipe_ends map_fdtables (fdt piped) 0 False = {(4, 1)}"
    by (auto simp: pipe_ends_def hits_def map_table_simps piped_def is_read_end_def IPC_O_ACCMODE_def IPC_O_RDONLY_def split: if_splits)
  have nr: "\<not> is_read_end (word_of_nat (perfdinfo (mk_entry IPC_PIPE 0 False 2049)))" by (simp add: is_read_end_def IPC_O_ACCMODE_def IPC_O_RDONLY_def)
  have d: "dup_target_ok pipe_env piped (replicate 6 4 ! 0) ([1, 0x5421, 64, 0, 0, 0] ! 0)" by (simp add: dup_target_ok_def map_table_simps)
  have e: "translate_virtual_fd (ie_fd pipe_env) (fdt piped) (replicate 6 4 ! 0) ([1, 0x5421, 64, 0, 0, 0] ! 0) = Some (mk_entry IPC_PIPE 0 False 2049)"
    using piped_entries(2) by simp
  have c: "check_cage_exists (ie_fd pipe_env) (fdt piped) (replicate 6 4 ! 0)" by (simp add: map_table_simps)
  obtain w' i where w': "ipc_ioctl_handler pipe_env piped [1, 0x5421, 64, 0, 0, 0] (replicate 6 4) = Some (0, w')" "get_pipe (ipcs w') 0 = Some i"
    "pipe_ends map_fdtables (fdt w') 0 False = {(4, 1)}" "p_eof (store (ipcs w') ! i)"
    using fionbio_loses_reference [OF mem_env_ok piped_reachable piped_few c e _ _ _ d] nr sub unfolding Let_def by auto
  then show ?thesis by auto
qed

text \<open>Calls that only translate their descriptor do not look at its kind: \<open>fsync\<close> on a pipe is forwarded with the
  number of the pipe as the runtime's descriptor.\<close>

lemma fsync_on_pipe_forwarded:
  "\<exists>w'. forward_with_fd1 SYS_FSYNC pipe_env piped [1, 0, 0, 0, 0, 0] (replicate 6 4) = Some (-38, w') \<and>
    (\<exists>c. hist w' = hist piped @ [Threei c] \<and> callnumber c = SYS_FSYNC \<and> call_args c ! 0 = Num 0)"
  using mem_env_ok reachable_refs [OF mem_env_ok piped_reachable] piped_entries(2)
  by (simp add: forward_with_fd1_def map_table_simps forward_syscall_def grate_call_def log_event_def as_u32_def)

end
