(* ===== verification/Chroot.thy ===== *)
theory Chroot
  imports Paths Threei
begin

unbundle bit_operations_syntax

text \<open>
  The chroot grate (\<open>rust-grates/chroot-grate/src\<close>): the paths of \<open>paths.rs\<close>, and the state and
  the handlers of \<open>main.rs\<close>.

  A handler returns its status, the events it caused (calls dispatched to the runtime, buffers
  copied to the cage) and the state.  The runtime and the host are parameters, collected in the
  record \<open>chroot_env\<close>.  Every handler dispatches at most one call, so the result of a call may be
  a function of the call.
\<close>

section \<open>State and environment\<close>

record chroot_state =
  chroot_dir :: string
  cage_cwds :: "(nat \<rightharpoonup> string) option"
  cage_dir_fds :: "(nat \<rightharpoonup> (nat \<rightharpoonup> string)) option"
  initial_cwd :: string

text \<open>
  \<open>env_sys\<close>: the status of a dispatched call; \<open>env_out\<close>: the bytes such a call leaves in the result
  buffer the grate passed; \<open>env_copyin\<close>: the buffer after a string copy from a cage address;
  \<open>env_copymem\<close>: the buffer after a copy of a given length;
  \<open>env_copyout\<close>: whether a copy to a cage succeeds; \<open>env_stat\<close>: the mode of a host path;
  \<open>env_thread\<close>: whether the clone arguments at an address ask for a thread.
\<close>

record chroot_env =
  env_cage :: nat
  env_sys :: "threei_call \<Rightarrow> int"
  env_out :: "threei_call \<Rightarrow> byte list"
  env_copyin :: "nat \<Rightarrow> nat \<Rightarrow> byte list option"
  env_copymem :: "nat \<Rightarrow> nat \<Rightarrow> nat \<Rightarrow> byte list option"
  env_copyout :: "nat \<Rightarrow> nat \<Rightarrow> byte list \<Rightarrow> bool"
  env_stat :: "string \<Rightarrow> u32 option"
  env_thread :: "nat \<Rightarrow> nat \<Rightarrow> bool"

type_synonym outcome = "int \<times> event list \<times> chroot_state"

section \<open>Paths\<close>

definition chroot_normalize :: "string \<Rightarrow> string \<Rightarrow> string" where
  "chroot_normalize path cwd =
     (if path = '''' then ''''
      else let abs_path = (if starts_with path ''/'' then path else trim_end_matches cwd slash @ ''/'' @ path)
           in ''/'' @ join_with ''/'' (foldl path_step [] (split_on slash abs_path)))"

definition ensure_cage_cwd :: "chroot_state \<Rightarrow> nat \<Rightarrow> chroot_state" where
  "ensure_cage_cwd st c =
     (if (case cage_cwds st of Some m \<Rightarrow> m c \<noteq> None | None \<Rightarrow> False) then st
      else let fallback = (if initial_cwd st = '''' then ''/'' else initial_cwd st);
               st = (case cage_cwds st of None \<Rightarrow> st | Some m \<Rightarrow> st\<lparr>cage_cwds := Some (m(c \<mapsto> fallback))\<rparr>)
           in (case cage_dir_fds st of None \<Rightarrow> st
               | Some m \<Rightarrow> if m c = None then st\<lparr>cage_dir_fds := Some (m(c \<mapsto> Map.empty))\<rparr> else st))"

definition chroot_get_cwd :: "chroot_state \<Rightarrow> nat \<Rightarrow> string \<times> chroot_state" where
  "chroot_get_cwd st c =
     (let st = ensure_cage_cwd st c
      in (case cage_cwds st of Some m \<Rightarrow> (case m c of Some d \<Rightarrow> d | None \<Rightarrow> ''/'') | None \<Rightarrow> ''/'', st))"

definition chroot_set_cwd :: "chroot_state \<Rightarrow> nat \<Rightarrow> string \<Rightarrow> chroot_state" where
  "chroot_set_cwd st c d =
     (case cage_cwds st of None \<Rightarrow> st | Some m \<Rightarrow> st\<lparr>cage_cwds := Some (m(c \<mapsto> d))\<rparr>)"

definition chroot_path :: "chroot_state \<Rightarrow> string \<Rightarrow> nat \<Rightarrow> string \<times> chroot_state" where
  "chroot_path st path c =
     (if path = '''' then ('''', st)
      else let (cwd, st) = chroot_get_cwd st c;
               normalized = chroot_normalize path cwd
           in (trim_end_matches (chroot_dir st) slash @ normalized, st))"

definition virtualize_host_cwd :: "chroot_state \<Rightarrow> string \<Rightarrow> string" where
  "virtualize_host_cwd st host =
     (let dir = trim_end_matches (chroot_dir st) slash
      in if dir = '''' \<or> dir = ''/'' then chroot_normalize host ''/''
         else if host = dir then ''/''
         else (case strip_prefix host dir of
                 Some stripped \<Rightarrow>
                   if starts_with stripped ''/'' then chroot_normalize stripped ''/''
                   else chroot_normalize host ''/''
               | None \<Rightarrow> chroot_normalize host ''/''))"

definition chroot_read_path :: "chroot_env \<Rightarrow> nat \<Rightarrow> nat \<Rightarrow> string option" where
  "chroot_read_path E ptr cage =
     map_option (\<lambda>buf. from_utf8_lossy (c_str_bytes buf)) (env_copyin E cage ptr)"

definition init_cwd :: "chroot_state \<Rightarrow> nat \<Rightarrow> string \<Rightarrow> string \<times> chroot_state" where
  "init_cwd st c host = (let cwd = virtualize_host_cwd st host in (cwd, chroot_set_cwd st c cwd))"

definition register_cage :: "chroot_state \<Rightarrow> nat \<Rightarrow> nat \<Rightarrow> chroot_state" where
  "register_cage st parent child = (let (cwd, st) = chroot_get_cwd st parent in chroot_set_cwd st child cwd)"

section \<open>Helpers of the handlers\<close>

definition CHROOT_S_IFDIR :: u32 where
  "CHROOT_S_IFDIR = 0x4000"

definition check_dir :: "chroot_env \<Rightarrow> string \<Rightarrow> bool" where
  "check_dir E dir =
     (case cstring_new dir of None \<Rightarrow> False
      | Some s \<Rightarrow> (case env_stat E s of None \<Rightarrow> False | Some m \<Rightarrow> m AND CHROOT_S_IFDIR \<noteq> 0))"

definition chroot_init :: "chroot_env \<Rightarrow> string \<Rightarrow> chroot_state option" where
  "chroot_init E dir =
     (if check_dir E dir
      then Some \<lparr>chroot_dir = dir, cage_cwds = Some Map.empty, cage_dir_fds = Some Map.empty, initial_cwd = ''''\<rparr>
      else None)"

fun apply_rewrites ::
  "nat \<Rightarrow> (nat \<times> sysarg) list \<Rightarrow> sysarg list \<times> nat list \<Rightarrow> (sysarg list \<times> nat list) option" where
  "apply_rewrites this [] ac = Some ac"
| "apply_rewrites this ((idx, p) # rs) (args, cages) =
     (if idx \<ge> 6 then None
      else apply_rewrites this rs (args[idx := p], cages[idx := grate_memory this]))"

definition call_with_rewrites ::
  "chroot_env \<Rightarrow> nat \<Rightarrow> nat \<Rightarrow> nat list \<Rightarrow> nat list \<Rightarrow> (nat \<times> sysarg) list \<Rightarrow> int \<times> event list" where
  "call_with_rewrites E nr calling args cages rewrites =
     (case apply_rewrites (env_cage E) rewrites (map Num args, cages) of
        None \<Rightarrow> (-22, [])
      | Some (args, cages) \<Rightarrow>
          let c = \<lparr>callnumber = nr, self_cageid = env_cage E, target_cageid = calling, call_args = args, call_cages = cages\<rparr>
          in (call_status (make_threei_call (env_sys E) c), [Threei c]))"

definition strip_chroot_prefix :: "chroot_state \<Rightarrow> string \<Rightarrow> string" where
  "strip_chroot_prefix st path =
     (if starts_with path (chroot_dir st)
      then let stripped = drop (length (chroot_dir st)) path in if stripped = '''' then ''/'' else stripped
      else path)"

definition write_bytes_to_cage :: "chroot_env \<Rightarrow> nat \<Rightarrow> nat \<Rightarrow> nat \<Rightarrow> byte list \<Rightarrow> int \<times> event list" where
  "write_bytes_to_cage E buf_ptr buf_cage bufsiz bytes =
     (let write_len = min (length bytes) (as_usize (int bufsiz)); out = take write_len bytes
      in if env_copyout E buf_cage buf_ptr out
         then (as_i32 (int write_len), [CopyOut buf_cage buf_ptr out])
         else (-14, [CopyOut buf_cage buf_ptr out]))"

text \<open>\<open>AT_FDCWD as u64\<close>.\<close>

definition AT_FDCWD_U64 :: nat where
  "AT_FDCWD_U64 = as_u64 (-100)"

definition make_syscall_from_grate ::
  "chroot_env \<Rightarrow> nat \<Rightarrow> nat \<Rightarrow> sysarg list \<Rightarrow> nat list \<Rightarrow> int \<times> event list" where
  "make_syscall_from_grate E nr target args cages =
     (let c = \<lparr>callnumber = nr, self_cageid = env_cage E, target_cageid = target, call_args = args, call_cages = cages\<rparr>
      in (call_status (make_threei_call (env_sys E) c), [Threei c]))"

definition fd_dir_path :: "chroot_state \<Rightarrow> nat \<Rightarrow> nat \<Rightarrow> string option \<times> chroot_state" where
  "fd_dir_path st c fd =
     (let st = ensure_cage_cwd st c
      in (case cage_dir_fds st of Some m \<Rightarrow> (case m c of Some fds \<Rightarrow> fds fd | None \<Rightarrow> None) | None \<Rightarrow> None, st))"

definition set_fd_dir_path :: "chroot_state \<Rightarrow> nat \<Rightarrow> nat \<Rightarrow> string \<Rightarrow> chroot_state" where
  "set_fd_dir_path st c fd path =
     (case cage_dir_fds st of None \<Rightarrow> st
      | Some m \<Rightarrow>
          let fds = (case m c of Some fds \<Rightarrow> fds | None \<Rightarrow> Map.empty)
          in st\<lparr>cage_dir_fds := Some (m(c \<mapsto> fds(fd \<mapsto> path)))\<rparr>)"

definition clear_fd_dir_path :: "chroot_state \<Rightarrow> nat \<Rightarrow> nat \<Rightarrow> chroot_state" where
  "clear_fd_dir_path st c fd =
     (case cage_dir_fds st of None \<Rightarrow> st
      | Some m \<Rightarrow> (case m c of None \<Rightarrow> st
          | Some fds \<Rightarrow> st\<lparr>cage_dir_fds := Some (m(c \<mapsto> fds(fd := None)))\<rparr>))"

definition copy_fd_dir_path :: "chroot_state \<Rightarrow> nat \<Rightarrow> nat \<Rightarrow> nat \<Rightarrow> chroot_state" where
  "copy_fd_dir_path st c oldfd newfd =
     (case fd_dir_path st c oldfd of
        (Some path, st) \<Rightarrow> set_fd_dir_path st c newfd path
      | (None, st) \<Rightarrow> clear_fd_dir_path st c newfd)"

definition register_dir_fd_if_directory :: "chroot_env \<Rightarrow> chroot_state \<Rightarrow> nat \<Rightarrow> nat \<Rightarrow> string \<Rightarrow> chroot_state" where
  "register_dir_fd_if_directory E st c fd vpath =
     (let (host, st) = chroot_path st vpath c
      in if check_dir E host then set_fd_dir_path st c fd vpath else clear_fd_dir_path st c fd)"

definition register_child_fd_paths :: "chroot_state \<Rightarrow> nat \<Rightarrow> nat \<Rightarrow> chroot_state" where
  "register_child_fd_paths st parent child =
     (case cage_dir_fds st of None \<Rightarrow> st
      | Some m \<Rightarrow> (case m parent of None \<Rightarrow> st
          | Some fds \<Rightarrow> st\<lparr>cage_dir_fds := Some (m(child \<mapsto> fds))\<rparr>))"

end
