(* ===== verification/Chroot_Handlers.thy ===== *)
theory Chroot_Handlers
  imports Chroot
begin

unbundle bit_operations_syntax

text \<open>
  The system-call handlers of the chroot grate (\<open>main.rs\<close> and the macro \<open>input_path_handler!\<close>
  of \<open>paths.rs\<close>).  \<open>a\<close> and \<open>g\<close> are the six arguments and their cage ids; a handler names them
  by position as the source does.
\<close>

section \<open>Handlers for path arguments\<close>

fun rewrite_path_args ::
  "chroot_env \<Rightarrow> chroot_state \<Rightarrow> nat list \<Rightarrow> nat list \<Rightarrow> nat list \<Rightarrow> (int + (nat \<times> sysarg) list) \<times> chroot_state" where
  "rewrite_path_args E st a g [] = (Inr [], st)"
| "rewrite_path_args E st a g (idx # idxs) =
     (case chroot_read_path E (a ! idx) (g ! idx) of
        None \<Rightarrow> (Inl (-14), st)
      | Some path \<Rightarrow>
          if path = '''' then (Inl (-2), st)
          else let (transformed, st) = chroot_path st path (g ! idx)
               in (case cstring_new transformed of
                     None \<Rightarrow> (Inl (-1), st)
                   | Some c_path \<Rightarrow>
                       (case rewrite_path_args E st a g idxs of
                          (Inl e, st) \<Rightarrow> (Inl e, st)
                        | (Inr rs, st) \<Rightarrow> (Inr ((idx, OwnStr c_path) # rs), st))))"

definition input_path_handler ::
  "nat list \<Rightarrow> nat \<Rightarrow> chroot_env \<Rightarrow> chroot_state \<Rightarrow> nat list \<Rightarrow> nat list \<Rightarrow> outcome" where
  "input_path_handler idxs nr E st a g =
     (case rewrite_path_args E st a g idxs of
        (Inl e, st) \<Rightarrow> (e, [], st)
      | (Inr rewrites, st) \<Rightarrow>
          (case call_with_rewrites E nr (g ! 0) a g rewrites of (r, ev) \<Rightarrow> (r, ev, st)))"

text \<open>The handlers the macro generates, with the indices of their path arguments.\<close>

definition path_handlers :: "(nat \<times> nat list) list" where
  "path_handlers =
     [(SYS_STAT, [0]), (SYS_ACCESS, [0]), (SYS_STATFS, [0]), (SYS_MKDIR, [0]), (SYS_RMDIR, [0]), (SYS_UNLINK, [0]),
      (SYS_CHMOD, [0]), (SYS_CHOWN, [0]), (SYS_LCHOWN, [0]), (SYS_TRUNCATE, [0]), (SYS_SETXATTR, [0]),
      (SYS_LISTXATTR, [0]), (SYS_RENAME, [0, 1]), (SYS_LINK, [0, 1])]"

section \<open>Paths relative to a directory descriptor\<close>

definition rewrite_at_path ::
  "chroot_env \<Rightarrow> chroot_state \<Rightarrow> nat \<Rightarrow> nat \<Rightarrow> nat \<Rightarrow> nat \<Rightarrow> (int + nat \<times> string) \<times> chroot_state" where
  "rewrite_at_path E st cageid dirfd path_ptr path_cage =
     (case chroot_read_path E path_ptr path_cage of
        None \<Rightarrow> (Inl (-14), st)
      | Some path \<Rightarrow>
          let ((dirfd', path'), st) =
            (if starts_with path ''/'' \<or> is_fdcwd dirfd
             then (case chroot_path st path cageid of (p, st) \<Rightarrow> ((AT_FDCWD_U64, p), st))
             else if path \<noteq> ''''
             then (case fd_dir_path st cageid dirfd of
                     (Some dir, st) \<Rightarrow>
                       (case chroot_path st (chroot_normalize path dir) cageid of (p, st) \<Rightarrow> ((AT_FDCWD_U64, p), st))
                   | (None, st) \<Rightarrow> ((dirfd, path), st))
             else ((dirfd, path), st))
          in (case cstring_new path' of None \<Rightarrow> (Inl (-22), st) | Some p \<Rightarrow> (Inr (dirfd', p), st)))"

definition call_with_at_path ::
  "chroot_env \<Rightarrow> chroot_state \<Rightarrow> nat \<Rightarrow> nat \<Rightarrow> nat list \<Rightarrow> nat list \<Rightarrow> nat \<Rightarrow> nat \<Rightarrow> outcome" where
  "call_with_at_path E st nr cageid a g dirfd_idx path_idx =
     (case rewrite_at_path E st cageid (a ! dirfd_idx) (a ! path_idx) (g ! path_idx) of
        (Inl e, st) \<Rightarrow> (e, [], st)
      | (Inr (dirfd, c_path), st) \<Rightarrow>
          (case make_syscall_from_grate E nr (g ! path_idx)
                 ((map Num a)[dirfd_idx := Num dirfd, path_idx := OwnStr c_path])
                 (g[path_idx := grate_memory (env_cage E)]) of (r, ev) \<Rightarrow> (r, ev, st)))"

text \<open>\<open>faccessat\<close>, \<open>fchmodat\<close>, \<open>fchownat\<close>, \<open>fstatat\<close> and \<open>statx\<close>.\<close>

definition at_handler :: "nat \<Rightarrow> chroot_env \<Rightarrow> chroot_state \<Rightarrow> nat list \<Rightarrow> nat list \<Rightarrow> outcome" where
  "at_handler nr E st a g = call_with_at_path E st nr (g ! 1) a g 0 1"

definition at_handlers :: "nat list" where
  "at_handlers = [SYS_FACCESSAT, SYS_FCHMODAT, SYS_FCHOWNAT, SYS_NEWFSTATAT, SYS_STATX]"

definition utimensat_handler :: "chroot_env \<Rightarrow> chroot_state \<Rightarrow> nat list \<Rightarrow> nat list \<Rightarrow> outcome" where
  "utimensat_handler E st a g =
     (if a ! 1 = 0
      then (case make_syscall_from_grate E SYS_UTIMENSAT (g ! 0) (map Num a) g of (r, ev) \<Rightarrow> (r, ev, st))
      else call_with_at_path E st SYS_UTIMENSAT (g ! 1) a g 0 1)"

definition renameat_common :: "nat \<Rightarrow> chroot_env \<Rightarrow> chroot_state \<Rightarrow> nat list \<Rightarrow> nat list \<Rightarrow> outcome" where
  "renameat_common nr E st a g =
     (case rewrite_at_path E st (g ! 1) (a ! 0) (a ! 1) (g ! 1) of
        (Inl e, st) \<Rightarrow> (e, [], st)
      | (Inr (olddirfd, oldpath), st) \<Rightarrow>
          (case rewrite_at_path E st (g ! 1) (a ! 2) (a ! 3) (g ! 3) of
             (Inl e, st) \<Rightarrow> (e, [], st)
           | (Inr (newdirfd, newpath), st) \<Rightarrow>
               (case make_syscall_from_grate E nr (g ! 1)
                      [Num olddirfd, OwnStr oldpath, Num newdirfd, OwnStr newpath, Num (a ! 4), Num (a ! 5)]
                      [g ! 0, grate_memory (env_cage E), g ! 2, grate_memory (env_cage E), g ! 4, g ! 5] of
                  (r, ev) \<Rightarrow> (r, ev, st))))"

text \<open>\<open>renameat\<close> and \<open>renameat2\<close>.\<close>

definition renameat_handlers :: "nat list" where
  "renameat_handlers = [SYS_RENAMEAT, SYS_RENAMEAT2]"

definition unlinkat_handler :: "chroot_env \<Rightarrow> chroot_state \<Rightarrow> nat list \<Rightarrow> nat list \<Rightarrow> outcome" where
  "unlinkat_handler E st a g =
     (case chroot_read_path E (a ! 1) (g ! 1) of
        None \<Rightarrow> (-14, [], st)
      | Some path \<Rightarrow>
          if path = '''' then (-2, [], st)
          else let ((p, use_chrooted), st) =
                 (if starts_with path ''/'' \<or> is_fdcwd (a ! 0)
                  then (case chroot_path st path (g ! 1) of (p, st) \<Rightarrow> ((p, True), st))
                  else ((path, False), st))
               in (case cstring_new p of
                     None \<Rightarrow> (-1, [], st)
                   | Some c_path \<Rightarrow>
                       (case make_syscall_from_grate E SYS_UNLINKAT (g ! 1)
                              [Num (if use_chrooted then AT_FDCWD_U64 else a ! 0), OwnStr c_path, Num (a ! 2), Num 0, Num 0, Num 0]
                              [g ! 0, grate_memory (env_cage E), g ! 2, 0, 0, 0] of
                          (r, ev) \<Rightarrow> (r, ev, st))))"

section \<open>Symbolic links\<close>

definition rewrite_symlink_target ::
  "chroot_env \<Rightarrow> chroot_state \<Rightarrow> nat \<Rightarrow> nat \<Rightarrow> nat \<Rightarrow> (int + string) \<times> chroot_state" where
  "rewrite_symlink_target E st cageid target_ptr target_cage =
     (case chroot_read_path E target_ptr target_cage of
        None \<Rightarrow> (Inl (-14), st)
      | Some target \<Rightarrow>
          let (rewritten, st) = (if starts_with target ''/'' then chroot_path st target cageid else (target, st))
          in (case cstring_new rewritten of None \<Rightarrow> (Inl (-22), st) | Some p \<Rightarrow> (Inr p, st)))"

definition symlink_handler :: "chroot_env \<Rightarrow> chroot_state \<Rightarrow> nat list \<Rightarrow> nat list \<Rightarrow> outcome" where
  "symlink_handler E st a g =
     (case rewrite_symlink_target E st (g ! 1) (a ! 0) (g ! 0) of
        (Inl e, st) \<Rightarrow> (e, [], st)
      | (Inr target, st) \<Rightarrow>
          (case chroot_read_path E (a ! 1) (g ! 1) of
             None \<Rightarrow> (-14, [], st)
           | Some linkpath \<Rightarrow>
               let (p, st) = chroot_path st linkpath (g ! 1)
               in (case cstring_new p of
                     None \<Rightarrow> (-22, [], st)
                   | Some linkpath \<Rightarrow>
                       (case make_syscall_from_grate E SYS_SYMLINK (g ! 0)
                              [OwnStr target, OwnStr linkpath, Num (a ! 2), Num (a ! 3), Num (a ! 4), Num (a ! 5)]
                              [grate_memory (env_cage E), grate_memory (env_cage E), g ! 2, g ! 3, g ! 4, g ! 5] of
                          (r, ev) \<Rightarrow> (r, ev, st)))))"

definition symlinkat_handler :: "chroot_env \<Rightarrow> chroot_state \<Rightarrow> nat list \<Rightarrow> nat list \<Rightarrow> outcome" where
  "symlinkat_handler E st a g =
     (case rewrite_symlink_target E st (g ! 2) (a ! 0) (g ! 0) of
        (Inl e, st) \<Rightarrow> (e, [], st)
      | (Inr target, st) \<Rightarrow>
          (case rewrite_at_path E st (g ! 2) (a ! 1) (a ! 2) (g ! 2) of
             (Inl e, st) \<Rightarrow> (e, [], st)
           | (Inr (dirfd, linkpath), st) \<Rightarrow>
               (case make_syscall_from_grate E SYS_SYMLINKAT (g ! 2)
                      [OwnStr target, Num dirfd, OwnStr linkpath, Num (a ! 3), Num (a ! 4), Num (a ! 5)]
                      [grate_memory (env_cage E), g ! 1, grate_memory (env_cage E), g ! 3, g ! 4, g ! 5] of
                  (r, ev) \<Rightarrow> (r, ev, st))))"

text \<open>A result longer than the buffer panics (\<open>None\<close>).\<close>

definition finish_readlink ::
  "chroot_env \<Rightarrow> chroot_state \<Rightarrow> threei_call \<Rightarrow> nat \<Rightarrow> nat \<Rightarrow> nat \<Rightarrow> outcome option" where
  "finish_readlink E st c buf buf_cage bufsiz =
     (case make_threei_call (env_sys E) c of
        Inl (MakeSyscallError n) \<Rightarrow> Some (n, [Threei c], st)
      | Inl _ \<Rightarrow> Some (-1, [Threei c], st)
      | Inr ret \<Rightarrow>
          (case slice_get (env_out E c) 0 (as_usize ret) of
             None \<Rightarrow> None
           | Some bytes \<Rightarrow>
               let final_result = strip_chroot_prefix st (from_utf8_lossy bytes)
               in (case write_bytes_to_cage E buf buf_cage bufsiz (as_bytes final_result) of
                     (r, ev) \<Rightarrow> Some (r, Threei c # ev, st))))"

definition readlink_handler :: "chroot_env \<Rightarrow> chroot_state \<Rightarrow> nat list \<Rightarrow> nat list \<Rightarrow> outcome option" where
  "readlink_handler E st a g =
     (case chroot_read_path E (a ! 0) (g ! 0) of
        None \<Rightarrow> Some (-14, [], st)
      | Some path \<Rightarrow>
          let (p, st) = chroot_path st path (g ! 0)
          in (case cstring_new p of
                None \<Rightarrow> Some (-1, [], st)
              | Some c_path \<Rightarrow>
                  finish_readlink E st
                    \<lparr>callnumber = SYS_READLINK, self_cageid = env_cage E, target_cageid = g ! 0,
                     call_args = [OwnStr c_path, OwnBuf (replicate (as_usize (int (a ! 2))) 0), Num (a ! 2), Num 0, Num 0, Num 0],
                     call_cages = [grate_memory (env_cage E), grate_memory (env_cage E), env_cage E, 0, 0, 0]\<rparr>
                    (a ! 1) (g ! 1) (a ! 2)))"

definition readlinkat_handler :: "chroot_env \<Rightarrow> chroot_state \<Rightarrow> nat list \<Rightarrow> nat list \<Rightarrow> outcome option" where
  "readlinkat_handler E st a g =
     (case chroot_read_path E (a ! 1) (g ! 1) of
        None \<Rightarrow> Some (-14, [], st)
      | Some path \<Rightarrow>
          let ((p, use_chrooted), st) =
            (if starts_with path ''/'' \<or> is_fdcwd (a ! 0)
             then (case chroot_path st path (g ! 1) of (p, st) \<Rightarrow> ((p, True), st))
             else ((path, False), st))
          in (case cstring_new p of
                None \<Rightarrow> Some (-1, [], st)
              | Some c_path \<Rightarrow>
                  finish_readlink E st
                    \<lparr>callnumber = SYS_READLINKAT, self_cageid = env_cage E, target_cageid = g ! 1,
                     call_args = [Num (if use_chrooted then AT_FDCWD_U64 else a ! 0), OwnStr c_path,
                       OwnBuf (replicate (as_usize (int (a ! 3))) 0), Num (a ! 3), Num 0, Num 0],
                     call_cages = [g ! 0, grate_memory (env_cage E), grate_memory (env_cage E), env_cage E, 0, 0]\<rparr>
                    (a ! 2) (g ! 2) (a ! 3)))"

section \<open>Descriptors\<close>

definition is_digit :: "char \<Rightarrow> bool" where
  "is_digit c \<longleftrightarrow> 48 \<le> (of_char c :: nat) \<and> (of_char c :: nat) \<le> 57"

text \<open>\<open>str::parse::<u64>\<close> on digits: \<open>None\<close> on overflow.\<close>

definition parse_u64 :: "string \<Rightarrow> nat option" where
  "parse_u64 s =
     (let n = foldl (\<lambda>v c. 10 * v + (of_char c - 48)) 0 s in if n < 2 ^ 64 then Some n else None)"

definition dev_fd_target :: "string \<Rightarrow> nat option" where
  "dev_fd_target path =
     (case (case strip_prefix path ''/dev/fd/'' of Some fd \<Rightarrow> Some fd | None \<Rightarrow> strip_prefix path ''/proc/self/fd/'') of
        None \<Rightarrow> None
      | Some fd \<Rightarrow> if fd = '''' \<or> \<not> list_all is_digit fd then None else parse_u64 fd)"

definition resolve_virtual_at_path :: "chroot_state \<Rightarrow> nat \<Rightarrow> nat \<Rightarrow> string \<Rightarrow> string option \<times> chroot_state" where
  "resolve_virtual_at_path st cageid dirfd path =
     (if starts_with path ''/'' \<or> is_fdcwd dirfd
      then (case chroot_get_cwd st cageid of (cwd, st) \<Rightarrow> (Some (chroot_normalize path cwd), st))
      else (case fd_dir_path st cageid dirfd of (d, st) \<Rightarrow> (map_option (chroot_normalize path) d, st)))"

text \<open>Opening \<open>/dev/fd/N\<close> duplicates the descriptor.\<close>

definition dup_dev_fd :: "chroot_env \<Rightarrow> chroot_state \<Rightarrow> nat \<Rightarrow> nat \<Rightarrow> outcome" where
  "dup_dev_fd E st c fd =
     (case make_syscall_from_grate E SYS_DUP c (map Num [fd, 0, 0, 0, 0, 0]) [c, c, c, c, c, c] of
        (ret, ev) \<Rightarrow> (ret, ev, if ret \<ge> 0 then copy_fd_dir_path st c fd (as_u64 ret) else st))"

definition open_handler :: "chroot_env \<Rightarrow> chroot_state \<Rightarrow> nat list \<Rightarrow> nat list \<Rightarrow> outcome" where
  "open_handler E st a g =
     (case chroot_read_path E (a ! 0) (g ! 0) of
        None \<Rightarrow> (-14, [], st)
      | Some path \<Rightarrow>
          if path = '''' then (-2, [], st)
          else (case dev_fd_target path of
                  Some fd \<Rightarrow> dup_dev_fd E st (g ! 0) fd
                | None \<Rightarrow>
                    let (cwd, st) = chroot_get_cwd st (g ! 0);
                        virtual_path = chroot_normalize path cwd;
                        (p, st) = chroot_path st path (g ! 0)
                    in (case cstring_new p of
                          None \<Rightarrow> (-22, [], st)
                        | Some c_path \<Rightarrow>
                            (case make_syscall_from_grate E SYS_OPEN (g ! 0)
                                   [OwnStr c_path, Num (a ! 1), Num (a ! 2), Num (a ! 3), Num (a ! 4), Num (a ! 5)]
                                   [grate_memory (env_cage E), g ! 1, g ! 2, g ! 3, g ! 4, g ! 5] of
                               (ret, ev) \<Rightarrow>
                                 (ret, ev, if ret \<ge> 0 then register_dir_fd_if_directory E st (g ! 0) (as_u64 ret) virtual_path
                                           else st)))))"

definition openat_handler :: "chroot_env \<Rightarrow> chroot_state \<Rightarrow> nat list \<Rightarrow> nat list \<Rightarrow> outcome" where
  "openat_handler E st a g =
     (case chroot_read_path E (a ! 1) (g ! 1) of
        None \<Rightarrow> (-14, [], st)
      | Some path \<Rightarrow>
          if path = '''' then (-2, [], st)
          else (case (if starts_with path ''/'' then dev_fd_target path else None) of
                  Some fd \<Rightarrow> dup_dev_fd E st (g ! 1) fd
                | None \<Rightarrow>
                    let (virtual_path, st) = resolve_virtual_at_path st (g ! 1) (a ! 0) path
                    in (case rewrite_at_path E st (g ! 1) (a ! 0) (a ! 1) (g ! 1) of
                          (Inl e, st) \<Rightarrow> (e, [], st)
                        | (Inr (dirfd, c_path), st) \<Rightarrow>
                            (case make_syscall_from_grate E SYS_OPENAT (g ! 1)
                                   [Num dirfd, OwnStr c_path, Num (a ! 2), Num (a ! 3), Num (a ! 4), Num (a ! 5)]
                                   [g ! 0, grate_memory (env_cage E), g ! 2, g ! 3, g ! 4, g ! 5] of
                               (ret, ev) \<Rightarrow>
                                 (ret, ev,
                                  case virtual_path of
                                    Some vp \<Rightarrow> if ret \<ge> 0 then register_dir_fd_if_directory E st (g ! 1) (as_u64 ret) vp else st
                                  | None \<Rightarrow> st)))))"

definition close_handler :: "chroot_env \<Rightarrow> chroot_state \<Rightarrow> nat list \<Rightarrow> nat list \<Rightarrow> outcome" where
  "close_handler E st a g =
     (case make_syscall_from_grate E SYS_CLOSE (g ! 0) (map Num a) g of
        (ret, ev) \<Rightarrow> (ret, ev, if ret \<ge> 0 then clear_fd_dir_path st (g ! 0) (a ! 0) else st))"

definition dup_handler :: "chroot_env \<Rightarrow> chroot_state \<Rightarrow> nat list \<Rightarrow> nat list \<Rightarrow> outcome" where
  "dup_handler E st a g =
     (case make_syscall_from_grate E SYS_DUP (g ! 0) (map Num a) g of
        (ret, ev) \<Rightarrow> (ret, ev, if ret \<ge> 0 then copy_fd_dir_path st (g ! 0) (a ! 0) (as_u64 ret) else st))"

text \<open>\<open>dup2\<close> and \<open>dup3\<close> differ in the call number only.\<close>

definition dup23_handler :: "nat \<Rightarrow> chroot_env \<Rightarrow> chroot_state \<Rightarrow> nat list \<Rightarrow> nat list \<Rightarrow> outcome" where
  "dup23_handler nr E st a g =
     (case make_syscall_from_grate E nr (g ! 0) (map Num a) g of
        (ret, ev) \<Rightarrow> (ret, ev, if ret \<ge> 0 then copy_fd_dir_path st (g ! 0) (a ! 0) (a ! 1) else st))"

definition fcntl_handler :: "chroot_env \<Rightarrow> chroot_state \<Rightarrow> nat list \<Rightarrow> nat list \<Rightarrow> outcome" where
  "fcntl_handler E st a g =
     (case make_syscall_from_grate E SYS_FCNTL (g ! 0) (map Num a) g of
        (ret, ev) \<Rightarrow>
          (ret, ev,
           if ret \<ge> 0 \<and> (as_i32 (int (a ! 1)) = 0 \<or> as_i32 (int (a ! 1)) = 1030)
           then copy_fd_dir_path st (g ! 0) (a ! 0) (as_u64 ret) else st))"

section \<open>Processes and working directories\<close>

definition fork_handler :: "chroot_env \<Rightarrow> chroot_state \<Rightarrow> nat list \<Rightarrow> nat list \<Rightarrow> outcome" where
  "fork_handler E st a g =
     (case make_syscall_from_grate E SYS_CLONE (g ! 0) (map Num a) g of
        (ret, ev) \<Rightarrow>
          (ret, ev,
           if ret > 0 \<and> \<not> env_thread E (a ! 0) (g ! 0)
           then register_child_fd_paths (register_cage st (g ! 0) (as_u64 ret)) (g ! 0) (as_u64 ret) else st))"

definition execve_handler :: "chroot_env \<Rightarrow> chroot_state \<Rightarrow> nat list \<Rightarrow> nat list \<Rightarrow> outcome" where
  "execve_handler E st a g =
     (case chroot_read_path E (a ! 0) (g ! 0) of
        None \<Rightarrow> (-14, [], st)
      | Some path \<Rightarrow>
          let (transformed, st) = chroot_path st path (g ! 0)
          in (case cstring_new transformed of
                None \<Rightarrow> (-1, [], st)
              | Some c_path \<Rightarrow>
                  (case make_syscall_from_grate E SYS_EXECVE (g ! 0) ((map Num a)[0 := OwnStr c_path])
                         (g[0 := grate_memory (env_cage E)]) of (r, ev) \<Rightarrow> (r, ev, st))))"

definition chdir_handler :: "chroot_env \<Rightarrow> chroot_state \<Rightarrow> nat list \<Rightarrow> nat list \<Rightarrow> outcome" where
  "chdir_handler E st a g =
     (case chroot_read_path E (a ! 0) (g ! 0) of
        None \<Rightarrow> (-14, [], st)
      | Some path \<Rightarrow>
          let (cwd, st) = chroot_get_cwd st (g ! 0);
              new_cwd = chroot_normalize path cwd;
              (host, st) = chroot_path st new_cwd (g ! 0)
          in if check_dir E host then (0, [], chroot_set_cwd st (g ! 0) new_cwd) else (-20, [], st))"

definition fchdir_handler :: "chroot_env \<Rightarrow> chroot_state \<Rightarrow> nat list \<Rightarrow> nat list \<Rightarrow> outcome" where
  "fchdir_handler E st a g =
     (case fd_dir_path st (g ! 0) (a ! 0) of
        (Some path, st) \<Rightarrow> (0, [], chroot_set_cwd st (g ! 0) path)
      | (None, st) \<Rightarrow>
          (case make_syscall_from_grate E SYS_FCNTL (g ! 0) (map Num [a ! 0, 3, a ! 2, a ! 3, a ! 4, a ! 5]) g of
             (ret, ev) \<Rightarrow> (if ret < 0 then ret else -20, ev, st)))"

definition getcwd_handler :: "chroot_env \<Rightarrow> chroot_state \<Rightarrow> nat list \<Rightarrow> nat list \<Rightarrow> outcome" where
  "getcwd_handler E st a g =
     (let (cwd, st) = chroot_get_cwd st (g ! 0)
      in if length (as_bytes cwd) + 1 > as_usize (int (a ! 1)) then (-34, [], st)
         else let buf = as_bytes cwd @ [0]
              in (if env_copyout E (g ! 0) (a ! 0) buf then as_i32 (int (length buf)) else -14,
                  [CopyOut (g ! 0) (a ! 0) buf], st))"

definition chroot_handler :: "chroot_env \<Rightarrow> chroot_state \<Rightarrow> nat list \<Rightarrow> nat list \<Rightarrow> outcome" where
  "chroot_handler E st a g = (-1, [], st)"

text \<open>The start of \<open>main\<close> up to the registration, and its pre-exec hook.\<close>

definition chroot_start :: "chroot_env \<Rightarrow> string \<Rightarrow> string \<Rightarrow> chroot_state option" where
  "chroot_start E dir host_cwd =
     (if dir = '''' then None
      else (case chroot_init E dir of
              None \<Rightarrow> None
            | Some st \<Rightarrow> (case init_cwd st (env_cage E) host_cwd of (cwd, st) \<Rightarrow> Some (st\<lparr>initial_cwd := cwd\<rparr>))))"

definition chroot_preexec :: "chroot_state \<Rightarrow> nat \<Rightarrow> chroot_state" where
  "chroot_preexec st child =
     (let st = chroot_set_cwd st child (initial_cwd st)
      in (case cage_dir_fds st of None \<Rightarrow> st
          | Some m \<Rightarrow> if m child = None then st\<lparr>cage_dir_fds := Some (m(child \<mapsto> Map.empty))\<rparr> else st))"

end
