(* ===== verification/Chroot_Sockets.thy ===== *)
theory Chroot_Sockets
  imports Chroot_Handlers
begin

text \<open>
  Socket addresses in the chroot grate (\<open>sockets.rs\<close>): the path of an AF_UNIX address is mapped
  into the jail on the way to the host and stripped of the chroot prefix on the way back.
\<close>

section \<open>Translation\<close>

definition CHROOT_AF_UNIX :: nat where
  "CHROOT_AF_UNIX = 1"

text \<open>A buffer shorter than two bytes panics in the read of the family (\<open>None\<close>).\<close>

definition translate_sockaddr ::
  "chroot_env \<Rightarrow> chroot_state \<Rightarrow> nat \<Rightarrow> nat \<Rightarrow> nat \<Rightarrow> nat \<Rightarrow> ((byte list \<times> nat) option \<times> chroot_state) option" where
  "translate_sockaddr E st cageid addr addr_cage addrlen =
     (if addrlen < 2 then Some (None, st)
      else case env_copymem E addr_cage addr addrlen of
          None \<Rightarrow> Some (None, st)
        | Some buf \<Rightarrow> do {
            b0 \<leftarrow> vec_get buf 0;
            b1 \<leftarrow> vec_get buf 1;
            if le_nat [b0, b1] = CHROOT_AF_UNIX \<and> addrlen > 2 then
              let path_bytes = drop 2 buf in
              if path_bytes \<noteq> [] \<and> hd path_bytes = 0 then Some (Some (buf, addrlen), st)
              else let (chrooted, st) = chroot_path st (from_utf8_lossy (c_str_bytes path_bytes)) cageid;
                       new_sockaddr = [b0, b1] @ as_bytes chrooted @ [0]
                   in Some (Some (new_sockaddr, length new_sockaddr), st)
            else Some (Some (buf, addrlen), st) })"

definition untranslate_sockaddr :: "chroot_state \<Rightarrow> byte list \<Rightarrow> byte list" where
  "untranslate_sockaddr st buf =
     (if length buf < 2 then buf
      else if le_nat (take 2 buf) \<noteq> CHROOT_AF_UNIX \<or> length buf \<le> 2 then buf
      else let dest = drop 2 buf;
               path = from_utf8_lossy (c_str_bytes dest);
               virtual_path = strip_chroot_prefix st path;
               copy_len = min (length virtual_path) (length dest - 1);
               dest = overwrite dest 0 (take copy_len (as_bytes virtual_path));
               dest = (if copy_len < length dest then dest[copy_len := 0] else dest)
           in take 2 buf @ dest)"

definition untranslate_sockaddr_in_cage ::
  "chroot_env \<Rightarrow> chroot_state \<Rightarrow> nat \<Rightarrow> nat \<Rightarrow> nat \<Rightarrow> nat \<Rightarrow> event list" where
  "untranslate_sockaddr_in_cage E st addr addr_cage addrlen_ptr addrlen_cage =
     (if addr = 0 \<or> addrlen_ptr = 0 then []
      else case env_copymem E addrlen_cage addrlen_ptr 4 of
          None \<Rightarrow> []
        | Some lenbuf \<Rightarrow>
            let addrlen = le_nat lenbuf in
            if addrlen = 0 then []
            else (case env_copymem E addr_cage addr addrlen of
                    None \<Rightarrow> []
                  | Some buf \<Rightarrow> [CopyOut addr_cage addr (untranslate_sockaddr st buf)]))"

section \<open>Handlers\<close>

definition socket_translate_handler ::
  "nat \<Rightarrow> nat \<Rightarrow> nat \<Rightarrow> chroot_env \<Rightarrow> chroot_state \<Rightarrow> nat list \<Rightarrow> nat list \<Rightarrow> outcome option" where
  "socket_translate_handler nr idx idx_len E st a g =
     (if a ! idx \<noteq> 0 then do {
        (r, st) \<leftarrow> translate_sockaddr E st (g ! 0) (a ! idx) (g ! idx) (a ! idx_len);
        (case r of
           None \<Rightarrow> Some (-14, [], st)
         | Some (buf, new_len) \<Rightarrow>
             (case call_with_rewrites E nr (g ! 0) (a[idx_len := new_len]) g [(idx, OwnBuf buf)] of
                (ret, ev) \<Rightarrow> Some (ret, ev, st))) }
      else (case make_syscall_from_grate E nr (g ! 0) (map Num a) g of (ret, ev) \<Rightarrow> Some (ret, ev, st)))"

definition socket_untranslate_handler ::
  "nat \<Rightarrow> nat \<Rightarrow> nat \<Rightarrow> chroot_env \<Rightarrow> chroot_state \<Rightarrow> nat list \<Rightarrow> nat list \<Rightarrow> outcome" where
  "socket_untranslate_handler nr idx idx_len E st a g =
     (case make_syscall_from_grate E nr (g ! 0) (map Num a) g of
        (ret, ev) \<Rightarrow>
          (ret,
           if ret \<ge> 0 then ev @ untranslate_sockaddr_in_cage E st (a ! idx) (g ! idx) (a ! idx_len) (g ! idx_len) else ev,
           st))"

text \<open>The handlers the macros generate: the call, and the positions of the address and its length.\<close>

definition socket_in_handlers :: "(nat \<times> nat \<times> nat) list" where
  "socket_in_handlers = [(SYS_BIND, 1, 2), (SYS_CONNECT, 1, 2), (SYS_SENDTO, 4, 5)]"

definition socket_out_handlers :: "(nat \<times> nat \<times> nat) list" where
  "socket_out_handlers =
     [(SYS_ACCEPT, 1, 2), (SYS_GETSOCKNAME, 1, 2), (SYS_GETPEERNAME, 1, 2), (SYS_RECVFROM, 4, 5)]"

end
