(* ===== verification/Chroot_Props.thy ===== *)
theory Chroot_Props
  imports Chroot_Sockets
begin

unbundle bit_operations_syntax

text \<open>
  What the chroot grate guarantees: every path it dispatches lies lexically under the chroot
  directory, the virtual working directories it keeps are canonical absolute paths, and the
  exceptions to the first.
\<close>

section \<open>Canonical and confined paths\<close>

definition confined :: "chroot_state \<Rightarrow> string \<Rightarrow> bool" where
  "confined st s \<longleftrightarrow> (\<exists>v. canonical v \<and> s = trim_end_matches (chroot_dir st) slash @ v)"

text \<open>The empty path is passed on as it is; the host rejects it.\<close>

definition jailed :: "chroot_state \<Rightarrow> string \<Rightarrow> bool" where
  "jailed st s \<longleftrightarrow> s = '''' \<or> confined st s"

definition chroot_abs :: "string \<Rightarrow> string \<Rightarrow> string" where
  "chroot_abs cwd p = (if starts_with p ''/'' then p else trim_end_matches cwd slash @ ''/'' @ p)"

interpretation chroot_norm: path_normalizer "\<lambda>p. chroot_normalize p cwd" "\<lambda>p. split_on slash (chroot_abs cwd p)"
  "\<lambda>p. p \<noteq> ''''" for cwd
proof
  fix p x
  show "chroot_normalize p cwd = render_abs (resolve_parts (split_on slash (chroot_abs cwd p)))" if "p \<noteq> ''''"
    using that by (simp add: chroot_normalize_def chroot_abs_def render_abs_def resolve_parts_def Let_def)
  show "slash \<notin> set x" if "x \<in> set (split_on slash (chroot_abs cwd p))"
    using that by (rule split_on_free)
  show "p \<noteq> ''''" if "absolute p" using that by auto
  show "resolve_parts (split_on slash (chroot_abs cwd p)) = resolve_parts (split_on slash p)" if "absolute p"
    using that by (simp add: chroot_abs_def absolute_def)
qed

lemma canonical_normalize: "p \<noteq> '''' \<Longrightarrow> canonical (chroot_normalize p cwd)"
  by (rule chroot_norm.norm_canonical)

lemma starts_with_slash: "starts_with s ''/'' \<Longrightarrow> s \<noteq> ''''"
  by (auto simp: starts_with_def)

lemma canonical_fixed: "canonical s \<Longrightarrow> chroot_normalize s cwd = s"
  by (rule chroot_norm.norm_canonical_fixed)

lemma normalize_empty [simp]: "chroot_normalize '''' cwd = ''''"
  by (simp add: chroot_normalize_def)

section \<open>The state keeps canonical paths\<close>

definition chroot_inv :: "chroot_state \<Rightarrow> bool" where
  "chroot_inv st \<longleftrightarrow>
     (initial_cwd st = '''' \<or> canonical (initial_cwd st)) \<and>
     (\<forall>m c d. cage_cwds st = Some m \<longrightarrow> m c = Some d \<longrightarrow> canonical d) \<and>
     (\<forall>m c fds fd d. cage_dir_fds st = Some m \<longrightarrow> m c = Some fds \<longrightarrow> fds fd = Some d \<longrightarrow> canonical d)"

lemma ensure_cwd_inv [inv_dest]: "chroot_inv st \<Longrightarrow> chroot_inv (ensure_cage_cwd st c)"
  by (auto simp: chroot_inv_def ensure_cage_cwd_def Let_def canonical_root split: option.splits if_splits)

lemma ensure_cwd_dir [simp]: "chroot_dir (ensure_cage_cwd st c) = chroot_dir st"
  by (auto simp: ensure_cage_cwd_def Let_def split: option.splits)

lemma get_cwd_inv:
  assumes "chroot_get_cwd st c = (d, st')"
  shows "chroot_dir st' = chroot_dir st" and "chroot_inv st \<Longrightarrow> chroot_inv st' \<and> canonical d"
proof -
  show "chroot_dir st' = chroot_dir st" using assms by (auto simp: chroot_get_cwd_def Let_def)
  assume "chroot_inv st"
  from ensure_cwd_inv [OF this, of c] assms show "chroot_inv st' \<and> canonical d"
    by (auto simp: chroot_get_cwd_def Let_def chroot_inv_def canonical_root split: option.splits)
qed

lemma initial_cwd_frame [simp]:
  "initial_cwd (ensure_cage_cwd st c) = initial_cwd st"
  "initial_cwd (chroot_set_cwd st c d) = initial_cwd st"
  "initial_cwd (set_fd_dir_path st c fd d) = initial_cwd st"
  "initial_cwd (clear_fd_dir_path st c fd) = initial_cwd st"
  by (auto simp: ensure_cage_cwd_def chroot_set_cwd_def set_fd_dir_path_def clear_fd_dir_path_def Let_def
      split: option.splits)

lemma initial_cwd_ops:
  "chroot_get_cwd st c = (d, st') \<Longrightarrow> initial_cwd st' = initial_cwd st"
  "fd_dir_path st c fd = (x, st') \<Longrightarrow> initial_cwd st' = initial_cwd st"
  "chroot_path st path c = (p, st') \<Longrightarrow> initial_cwd st' = initial_cwd st"
  by (auto simp: chroot_get_cwd_def fd_dir_path_def chroot_path_def Let_def split: if_splits)

lemma set_cwd_inv: "chroot_inv st \<Longrightarrow> canonical d \<Longrightarrow> chroot_inv (chroot_set_cwd st c d)"
  by (auto simp: chroot_inv_def chroot_set_cwd_def split: option.splits if_splits)

lemma set_cwd_dir [simp]: "chroot_dir (chroot_set_cwd st c d) = chroot_dir st"
  by (auto simp: chroot_set_cwd_def split: option.splits)

lemma chroot_path_spec:
  assumes "chroot_path st path c = (p, st')"
  shows "chroot_dir st' = chroot_dir st" and "chroot_inv st \<Longrightarrow> chroot_inv st'" and "jailed st p"
    and "path \<noteq> '''' \<Longrightarrow> confined st p"
proof -
  obtain d st1 where g: "chroot_get_cwd st c = (d, st1)" by fastforce
  note gi = get_cwd_inv [OF g]
  show "chroot_dir st' = chroot_dir st" "chroot_inv st \<Longrightarrow> chroot_inv st'"
    using assms g gi by (auto simp: chroot_path_def Let_def split: if_splits)
  show *: "path \<noteq> '''' \<Longrightarrow> confined st p"
    using assms g gi(1) canonical_normalize by (auto simp: chroot_path_def Let_def confined_def split: if_splits)
  show "jailed st p" using * assms by (cases "path = ''''") (auto simp: jailed_def chroot_path_def)
qed

lemma fd_dir_path_spec:
  assumes "fd_dir_path st c fd = (r, st')"
  shows "chroot_dir st' = chroot_dir st" and "chroot_inv st \<Longrightarrow> chroot_inv st' \<and> (\<forall>d. r = Some d \<longrightarrow> canonical d)"
proof -
  show "chroot_dir st' = chroot_dir st" using assms by (auto simp: fd_dir_path_def Let_def)
  assume "chroot_inv st"
  from ensure_cwd_inv [OF this, of c] assms show "chroot_inv st' \<and> (\<forall>d. r = Some d \<longrightarrow> canonical d)"
    by (auto simp: fd_dir_path_def Let_def chroot_inv_def split: option.splits)
qed

lemma set_fd_dir_inv: "chroot_inv st \<Longrightarrow> canonical d \<Longrightarrow> chroot_inv (set_fd_dir_path st c fd d)"
  by (auto simp: chroot_inv_def set_fd_dir_path_def Let_def split: option.splits if_splits)

lemma clear_fd_dir_inv [inv_dest]: "chroot_inv st \<Longrightarrow> chroot_inv (clear_fd_dir_path st c fd)"
  by (auto simp: chroot_inv_def clear_fd_dir_path_def split: option.splits if_splits)

lemma fd_dir_dir [simp]: "chroot_dir (set_fd_dir_path st c fd d) = chroot_dir st"
  "chroot_dir (clear_fd_dir_path st c fd) = chroot_dir st"
  by (auto simp: set_fd_dir_path_def clear_fd_dir_path_def Let_def split: option.splits)

lemma copy_fd_dir_inv [inv_dest]: "chroot_inv st \<Longrightarrow> chroot_inv (copy_fd_dir_path st c old new)"
  by (auto simp: copy_fd_dir_path_def split: prod.splits option.splits
      dest!: fd_dir_path_spec(2) intro: set_fd_dir_inv clear_fd_dir_inv)

lemma register_dir_fd_inv: "chroot_inv st \<Longrightarrow> canonical p \<Longrightarrow> chroot_inv (register_dir_fd_if_directory E st c fd p)"
  by (auto simp: register_dir_fd_if_directory_def Let_def split: prod.splits
      dest!: chroot_path_spec(2) intro: set_fd_dir_inv clear_fd_dir_inv)

lemma register_child_fd_inv [inv_dest]: "chroot_inv st \<Longrightarrow> chroot_inv (register_child_fd_paths st p c)"
  unfolding register_child_fd_paths_def
  by (auto simp: chroot_inv_def split: option.splits if_splits)

lemma register_cage_inv [inv_dest]: "chroot_inv st \<Longrightarrow> chroot_inv (register_cage st p c)"
  by (auto simp: register_cage_def Let_def split: prod.splits dest!: get_cwd_inv(2) intro: set_cwd_inv)

section \<open>Rewriting\<close>

text \<open>A handler keeps the invariant and the chroot directory.\<close>

definition keeps :: "chroot_state \<Rightarrow> chroot_state \<Rightarrow> bool" where
  "keeps st st' \<longleftrightarrow>
     chroot_dir st' = chroot_dir st \<and> initial_cwd st' = initial_cwd st \<and> (chroot_inv st \<longrightarrow> chroot_inv st')"

lemma keeps_refl [simp]: "keeps st st"
  by (simp add: keeps_def)

lemma keeps_trans: "keeps st st1 \<Longrightarrow> keeps st1 st2 \<Longrightarrow> keeps st st2"
  by (auto simp: keeps_def)

lemma keeps_path: "chroot_path st path c = (p, st') \<Longrightarrow> keeps st st'"
  and keeps_get_cwd: "chroot_get_cwd st c = (d, st') \<Longrightarrow> keeps st st'"
  and keeps_fd_dir: "fd_dir_path st c fd = (x, st') \<Longrightarrow> keeps st st'"
  using chroot_path_spec(1,2) get_cwd_inv fd_dir_path_spec initial_cwd_ops unfolding keeps_def by metis+

lemma confined_dir_cong: "chroot_dir st' = chroot_dir st \<Longrightarrow> confined st' = confined st"
  "chroot_dir st' = chroot_dir st \<Longrightarrow> jailed st' = jailed st"
  by (auto simp: confined_def jailed_def fun_eq_iff)

lemma cstring_new_SomeD: "cstring_new s = Some t \<Longrightarrow> t = s"
  by (simp add: cstring_new_def split: if_splits)

lemma rewrite_path_args_spec:
  assumes "rewrite_path_args E st a g idxs = (r, st')"
  shows "keeps st st' \<and>
    (\<forall>rs i x. r = Inr rs \<longrightarrow> (i, x) \<in> set rs \<longrightarrow> i \<in> set idxs \<and> (\<exists>s. x = OwnStr s \<and> confined st s))"
  using assms
proof (induction idxs arbitrary: st r st')
  case (Cons idx idxs)
  show ?case
  proof (cases "chroot_read_path E (a ! idx) (g ! idx)")
    case (Some path)
    show ?thesis
    proof (cases "path = ''''")
      case False
      obtain t st1 where t: "chroot_path st path (g ! idx) = (t, st1)" by fastforce
      note cp = chroot_path_spec [OF t]
      obtain r2 st2 where r2: "rewrite_path_args E st1 a g idxs = (r2, st2)" by fastforce
      from Cons.IH [OF r2] Cons.prems Some False t r2 cp confined_dir_cong [OF cp(1)] keeps_path [OF t] show ?thesis
        by (cases r2) (auto dest!: cstring_new_SomeD split: option.splits intro: keeps_trans)
    qed (use Cons.prems Some in auto)
  qed (use Cons.prems in auto)
qed auto


lemma rewrite_at_path_spec:
  assumes "rewrite_at_path E st c dirfd ptr pc = (r, st')"
  shows "keeps st st'"
    and "\<forall>d p path. r = Inr (d, p) \<longrightarrow> chroot_read_path E ptr pc = Some path \<longrightarrow>
      (if starts_with path ''/'' \<or> is_fdcwd dirfd \<or> (path \<noteq> '''' \<and> fst (fd_dir_path st c dirfd) \<noteq> None)
       then d = AT_FDCWD_U64 \<and> jailed st p else d = dirfd \<and> p = path)"
proof -
  show "keeps st st'" using assms
    by (auto simp: rewrite_at_path_def Let_def split: option.splits if_splits prod.splits
        dest!: keeps_path keeps_fd_dir intro: keeps_trans)
  show "\<forall>d p path. r = Inr (d, p) \<longrightarrow> chroot_read_path E ptr pc = Some path \<longrightarrow>
      (if starts_with path ''/'' \<or> is_fdcwd dirfd \<or> (path \<noteq> '''' \<and> fst (fd_dir_path st c dirfd) \<noteq> None)
       then d = AT_FDCWD_U64 \<and> jailed st p else d = dirfd \<and> p = path)"
    using assms confined_dir_cong(2) [OF fd_dir_path_spec(1)]
    by (auto simp: rewrite_at_path_def Let_def split: option.splits if_splits prod.splits
        dest!: cstring_new_SomeD dest: chroot_path_spec(3))
qed

lemma rewrite_target_spec:
  assumes "rewrite_symlink_target E st c ptr tc = (r, st')"
  shows "keeps st st'"
    and "\<forall>p. r = Inr p \<longrightarrow> starts_with p ''/'' \<longrightarrow> jailed st p"
  using assms
  by (auto simp: rewrite_symlink_target_def Let_def split: option.splits if_splits prod.splits
      dest!: cstring_new_SomeD dest: chroot_path_spec(3) keeps_path)

section \<open>Handlers\<close>

lemma keeps_at: "rewrite_at_path E st c dirfd ptr pc = (y, st') \<Longrightarrow> keeps st st'"
  and keeps_target: "rewrite_symlink_target E st c ptr pc = (z, st') \<Longrightarrow> keeps st st'"
  and keeps_args: "rewrite_path_args E st a g idxs = (w, st') \<Longrightarrow> keeps st st'"
  by (rule rewrite_at_path_spec(1), assumption, rule rewrite_target_spec(1), assumption,
      rule rewrite_path_args_spec [THEN conjunct1], assumption)

lemmas keeps_ops = keeps_path keeps_get_cwd keeps_fd_dir keeps_at keeps_target keeps_args

lemma keeps_fd_ops [simp]: "keeps st (clear_fd_dir_path st c fd)" "keeps st (copy_fd_dir_path st c old new)"
  "keeps st (register_child_fd_paths st p c)" "keeps st (register_cage st p c)"
proof -
  show "keeps st (clear_fd_dir_path st c fd)" for c fd by (simp add: keeps_def clear_fd_dir_inv)
  show "keeps st (copy_fd_dir_path st c old new)"
    by (simp add: keeps_def copy_fd_dir_inv)
      (auto simp: copy_fd_dir_path_def split: prod.splits option.splits dest!: keeps_fd_dir simp: keeps_def)
  show "keeps st (register_child_fd_paths st p c)"
    by (simp add: keeps_def register_child_fd_inv) (auto simp: register_child_fd_paths_def split: option.splits)
  show "keeps st (register_cage st p c)"
    by (simp add: keeps_def register_cage_inv)
      (auto simp: register_cage_def Let_def split: prod.splits dest!: keeps_get_cwd simp: keeps_def)
qed

lemma keeps_register_dir: "canonical p \<Longrightarrow> keeps st (register_dir_fd_if_directory E st c fd p)"
  by (auto simp: keeps_def register_dir_fd_inv)
    (auto simp: register_dir_fd_if_directory_def Let_def keeps_def split: prod.splits dest!: keeps_path)

lemma input_path_keeps: "input_path_handler idxs nr E st a g = (r, ev, st') \<Longrightarrow> keeps st st'"
  by (auto simp: input_path_handler_def split: prod.splits sum.splits dest: keeps_ops)

lemma at_path_keeps: "call_with_at_path E st nr c a g i j = (r, ev, st') \<Longrightarrow> keeps st st'"
  by (auto simp: call_with_at_path_def split: prod.splits sum.splits dest: keeps_ops)

lemma utimensat_keeps: "utimensat_handler E st a g = (r, ev, st') \<Longrightarrow> keeps st st'"
  by (auto simp: utimensat_handler_def split: prod.splits if_splits dest: at_path_keeps)

lemma renameat_keeps: "renameat_common nr E st a g = (r, ev, st') \<Longrightarrow> keeps st st'"
  by (auto simp: renameat_common_def split: prod.splits sum.splits dest!: keeps_ops intro: keeps_trans)

lemma unlinkat_keeps: "unlinkat_handler E st a g = (r, ev, st') \<Longrightarrow> keeps st st'"
  by (auto simp: unlinkat_handler_def Let_def split: prod.splits option.splits if_splits dest: keeps_ops)

lemma symlink_keeps: "symlink_handler E st a g = (r, ev, st') \<Longrightarrow> keeps st st'"
  by (auto simp: symlink_handler_def Let_def split: prod.splits sum.splits option.splits dest!: keeps_ops intro: keeps_trans)

lemma symlinkat_keeps: "symlinkat_handler E st a g = (r, ev, st') \<Longrightarrow> keeps st st'"
  by (auto simp: symlinkat_handler_def Let_def split: prod.splits sum.splits option.splits dest!: keeps_ops intro: keeps_trans)

lemma finish_readlink_state: "finish_readlink E st c b bc n = Some (r, ev, st') \<Longrightarrow> st' = st"
  by (auto simp: finish_readlink_def Let_def split: sum.splits option.splits prod.splits grate_error.splits)

lemma readlink_keeps: "readlink_handler E st a g = Some (r, ev, st') \<Longrightarrow> keeps st st'"
  by (auto simp: readlink_handler_def Let_def split: prod.splits option.splits dest!: finish_readlink_state dest: keeps_ops)

lemma readlinkat_keeps: "readlinkat_handler E st a g = Some (r, ev, st') \<Longrightarrow> keeps st st'"
  by (auto simp: readlinkat_handler_def Let_def split: prod.splits option.splits if_splits
      dest!: finish_readlink_state dest: keeps_ops)

lemma dup_dev_keeps: "dup_dev_fd E st c fd = (r, ev, st') \<Longrightarrow> keeps st st'"
  by (auto simp: dup_dev_fd_def split: prod.splits if_splits)

lemma open_keeps: "open_handler E st a g = (r, ev, st') \<Longrightarrow> keeps st st'"
  by (auto simp: open_handler_def Let_def split: prod.splits option.splits if_splits dest: dup_dev_keeps
      dest!: keeps_ops intro: keeps_trans keeps_register_dir canonical_normalize)

lemma resolve_virtual_spec:
  assumes "resolve_virtual_at_path st c dirfd path = (v, st')" and "path \<noteq> ''''"
  shows "keeps st st' \<and> (\<forall>p. v = Some p \<longrightarrow> canonical p)"
  using assms canonical_normalize
  by (auto simp: resolve_virtual_at_path_def split: prod.splits if_splits dest: keeps_ops)

lemma openat_keeps: "openat_handler E st a g = (r, ev, st') \<Longrightarrow> keeps st st'"
  by (auto simp: openat_handler_def Let_def split: prod.splits option.splits sum.splits if_splits
      dest: dup_dev_keeps dest!: keeps_at resolve_virtual_spec
      intro: keeps_trans keeps_register_dir)

lemma fd_handlers_keep:
  "close_handler E st a g = (r, ev, st') \<Longrightarrow> keeps st st'"
  "dup_handler E st a g = (r, ev, st') \<Longrightarrow> keeps st st'"
  "dup23_handler nr E st a g = (r, ev, st') \<Longrightarrow> keeps st st'"
  "fcntl_handler E st a g = (r, ev, st') \<Longrightarrow> keeps st st'"
  "fork_handler E st a g = (r, ev, st') \<Longrightarrow> keeps st st'"
  "chroot_handler E st a g = (r, ev, st') \<Longrightarrow> keeps st st'"
  by (auto simp: close_handler_def dup_handler_def dup23_handler_def fcntl_handler_def fork_handler_def chroot_handler_def
      split: prod.splits if_splits intro: keeps_trans keeps_fd_ops)

lemma execve_keeps: "execve_handler E st a g = (r, ev, st') \<Longrightarrow> keeps st st'"
  by (auto simp: execve_handler_def Let_def split: prod.splits option.splits dest: keeps_ops)

lemma getcwd_keeps: "getcwd_handler E st a g = (r, ev, st') \<Longrightarrow> keeps st st'"
  by (auto simp: getcwd_handler_def Let_def split: prod.splits if_splits dest: keeps_ops)

lemma set_cwd_keeps: "canonical d \<Longrightarrow> keeps st (chroot_set_cwd st c d)"
  by (simp add: keeps_def set_cwd_inv)

text \<open>An empty argument of \<open>chdir\<close> becomes an empty host path, which \<open>stat\<close> rejects.\<close>

lemma chdir_keeps:
  assumes "env_stat E '''' = None" and "chdir_handler E st a g = (r, ev, st')"
  shows "keeps st st'"
proof (cases "chroot_read_path E (a ! 0) (g ! 0)")
  case (Some path)
  obtain cwd st1 where c: "chroot_get_cwd st (g ! 0) = (cwd, st1)" by fastforce
  obtain host st2 where h: "chroot_path st1 (chroot_normalize path cwd) (g ! 0) = (host, st2)" by fastforce
  have k: "keeps st st2" using keeps_get_cwd [OF c] keeps_path [OF h] by (rule keeps_trans)
  show ?thesis
  proof (cases "path = ''''")
    case True
    with h have "host = ''''" by (simp add: chroot_path_def)
    with assms(1) have "\<not> check_dir E host" by (simp add: check_dir_def cstring_new_def)
    with assms(2) k Some c h show ?thesis by (simp add: chdir_handler_def Let_def)
  next
    case False
    from keeps_trans [OF k set_cwd_keeps [OF canonical_normalize [OF False]]] assms(2) k Some c h show ?thesis
      by (auto simp: chdir_handler_def Let_def split: if_splits)
  qed
qed (use assms in \<open>simp add: chdir_handler_def\<close>)

lemma fchdir_keeps:
  assumes "fchdir_handler E st a g = (r, ev, st')"
  shows "keeps st st'"
proof -
  obtain p st1 where p: "fd_dir_path st (g ! 0) (a ! 0) = (p, st1)" by fastforce
  note k = keeps_fd_dir [OF p] and s = fd_dir_path_spec(2) [OF p]
  show ?thesis
  proof (cases p)
    case None
    with assms p k show ?thesis by (auto simp: fchdir_handler_def split: prod.splits)
  next
    case (Some d)
    with assms p have "st' = chroot_set_cwd st1 (g ! 0) d" by (simp add: fchdir_handler_def)
    with k s Some show ?thesis by (auto simp: keeps_def set_cwd_inv)
  qed
qed

lemma keeps_new_fds: "cage_dir_fds st = Some m \<Longrightarrow> keeps st (st\<lparr>cage_dir_fds := Some (m(c \<mapsto> Map.empty))\<rparr>)"
  by (auto simp: keeps_def chroot_inv_def)

lemma preexec_keeps:
  assumes "canonical (initial_cwd st)"
  shows "keeps st (chroot_preexec st c)"
  unfolding chroot_preexec_def Let_def
  by (auto split: option.splits intro: keeps_trans [OF set_cwd_keeps [OF assms]] keeps_new_fds set_cwd_keeps [OF assms])

lemma translate_sockaddr_spec:
  assumes "translate_sockaddr E st c addr ac n = Some (r, st')"
  shows "keeps st st'"
    and "\<forall>buf len orig. r = Some (buf, len) \<longrightarrow> env_copymem E ac addr n = Some orig \<longrightarrow>
      (buf = orig \<and> len = n \<and> (le_nat (take 2 orig) \<noteq> CHROOT_AF_UNIX \<or> n = 2 \<or> orig ! 2 = 0)) \<or>
      (\<exists>s. jailed st s \<and> buf = take 2 orig @ as_bytes s @ [0] \<and> len = length buf)"
proof -
  have t2: "take 2 orig = [b0, b1]" if "vec_get orig 0 = Some b0" "vec_get orig 1 = Some b1" for orig :: "byte list" and b0 b1
    using that by (cases orig; cases "tl orig") (auto simp: vec_get_def split: if_splits)
  have h2: "orig ! 2 = hd (drop 2 orig)" if "drop 2 orig \<noteq> []" for orig :: "byte list"
    using that by (simp add: hd_drop_conv_nth)
  show "keeps st st'" using assms
    by (auto simp: translate_sockaddr_def Let_def split: if_splits option.splits prod.splits elim!: bind_SomeE dest: keeps_path)
  show "\<forall>buf len orig. r = Some (buf, len) \<longrightarrow> env_copymem E ac addr n = Some orig \<longrightarrow>
      (buf = orig \<and> len = n \<and> (le_nat (take 2 orig) \<noteq> CHROOT_AF_UNIX \<or> n = 2 \<or> orig ! 2 = 0)) \<or>
      (\<exists>s. jailed st s \<and> buf = take 2 orig @ as_bytes s @ [0] \<and> len = length buf)"
    using assms
    by (auto simp: translate_sockaddr_def Let_def t2 h2 split: if_splits option.splits prod.splits elim!: bind_SomeE
        dest!: chroot_path_spec(3))
qed

lemma socket_in_keeps: "socket_translate_handler nr i j E st a g = Some (r, ev, st') \<Longrightarrow> keeps st st'"
  by (auto simp: socket_translate_handler_def split: if_splits prod.splits option.splits elim!: bind_SomeE
      dest: translate_sockaddr_spec(1))

lemma socket_out_keeps: "socket_untranslate_handler nr i j E st a g = (r, ev, st') \<Longrightarrow> keeps st st'"
  by (auto simp: socket_untranslate_handler_def split: prod.splits)

section \<open>Reachable states\<close>

inductive chroot_step :: "chroot_env \<Rightarrow> chroot_state \<Rightarrow> event list \<Rightarrow> chroot_state \<Rightarrow> bool" for E where
  ch_path: "(nr, idxs) \<in> set path_handlers \<Longrightarrow> input_path_handler idxs nr E st a g = (r, ev, st') \<Longrightarrow> chroot_step E st ev st'"
| ch_open: "open_handler E st a g = (r, ev, st') \<Longrightarrow> chroot_step E st ev st'"
| ch_openat: "openat_handler E st a g = (r, ev, st') \<Longrightarrow> chroot_step E st ev st'"
| ch_close: "close_handler E st a g = (r, ev, st') \<Longrightarrow> chroot_step E st ev st'"
| ch_dup: "dup_handler E st a g = (r, ev, st') \<Longrightarrow> chroot_step E st ev st'"
| ch_dup23: "nr \<in> {SYS_DUP2, SYS_DUP3} \<Longrightarrow> dup23_handler nr E st a g = (r, ev, st') \<Longrightarrow> chroot_step E st ev st'"
| ch_fcntl: "fcntl_handler E st a g = (r, ev, st') \<Longrightarrow> chroot_step E st ev st'"
| ch_readlink: "readlink_handler E st a g = Some (r, ev, st') \<Longrightarrow> chroot_step E st ev st'"
| ch_readlinkat: "readlinkat_handler E st a g = Some (r, ev, st') \<Longrightarrow> chroot_step E st ev st'"
| ch_unlinkat: "unlinkat_handler E st a g = (r, ev, st') \<Longrightarrow> chroot_step E st ev st'"
| ch_symlink: "symlink_handler E st a g = (r, ev, st') \<Longrightarrow> chroot_step E st ev st'"
| ch_symlinkat: "symlinkat_handler E st a g = (r, ev, st') \<Longrightarrow> chroot_step E st ev st'"
| ch_at: "nr \<in> set at_handlers \<Longrightarrow> at_handler nr E st a g = (r, ev, st') \<Longrightarrow> chroot_step E st ev st'"
| ch_utimensat: "utimensat_handler E st a g = (r, ev, st') \<Longrightarrow> chroot_step E st ev st'"
| ch_renameat: "nr \<in> set renameat_handlers \<Longrightarrow> renameat_common nr E st a g = (r, ev, st') \<Longrightarrow> chroot_step E st ev st'"
| ch_sock_in: "(nr, i, j) \<in> set socket_in_handlers \<Longrightarrow> socket_translate_handler nr i j E st a g = Some (r, ev, st') \<Longrightarrow>
    chroot_step E st ev st'"
| ch_sock_out: "(nr, i, j) \<in> set socket_out_handlers \<Longrightarrow> socket_untranslate_handler nr i j E st a g = (r, ev, st') \<Longrightarrow>
    chroot_step E st ev st'"
| ch_fork: "fork_handler E st a g = (r, ev, st') \<Longrightarrow> chroot_step E st ev st'"
| ch_execve: "execve_handler E st a g = (r, ev, st') \<Longrightarrow> chroot_step E st ev st'"
| ch_chdir: "chdir_handler E st a g = (r, ev, st') \<Longrightarrow> chroot_step E st ev st'"
| ch_fchdir: "fchdir_handler E st a g = (r, ev, st') \<Longrightarrow> chroot_step E st ev st'"
| ch_getcwd: "getcwd_handler E st a g = (r, ev, st') \<Longrightarrow> chroot_step E st ev st'"
| ch_chroot: "chroot_handler E st a g = (r, ev, st') \<Longrightarrow> chroot_step E st ev st'"
| ch_preexec: "chroot_step E st [] (chroot_preexec st c)"

inductive chroot_reachable :: "chroot_env \<Rightarrow> chroot_state \<Rightarrow> bool" for E where
  ch_init: "chroot_start E dir host = Some st \<Longrightarrow> host \<noteq> '''' \<Longrightarrow> chroot_reachable E st"
| ch_step: "chroot_reachable E st \<Longrightarrow> chroot_step E st ev st' \<Longrightarrow> chroot_reachable E st'"

lemma step_keeps:
  assumes "chroot_step E st ev st'" and "env_stat E '''' = None" and "canonical (initial_cwd st)"
  shows "keeps st st'"
  using assms(1)
proof cases
  case (ch_chdir a g r)
  with assms(2) show ?thesis by (intro chdir_keeps)
next
  case (ch_at nr a g r)
  then show ?thesis by (auto simp: at_handler_def intro: at_path_keeps)
next
  case ch_preexec
  with assms(3) show ?thesis by (auto intro: preexec_keeps)
qed (auto intro: input_path_keeps open_keeps openat_keeps fd_handlers_keep readlink_keeps readlinkat_keeps unlinkat_keeps
  symlink_keeps symlinkat_keeps socket_in_keeps socket_out_keeps utimensat_keeps renameat_keeps execve_keeps fchdir_keeps getcwd_keeps)

lemma canonical_virtualize: "host \<noteq> '''' \<Longrightarrow> canonical (virtualize_host_cwd st host)"
  by (auto simp: virtualize_host_cwd_def Let_def canonical_root split: option.splits
      intro!: canonical_normalize dest: starts_with_slash)

lemma chroot_start_inv:
  assumes "chroot_start E dir host = Some st" and "host \<noteq> ''''"
  shows "chroot_inv st \<and> canonical (initial_cwd st) \<and> chroot_dir st = dir"
proof -
  let ?s = "\<lparr>chroot_dir = dir, cage_cwds = Some Map.empty, cage_dir_fds = Some Map.empty, initial_cwd = ''''\<rparr>"
  have "st = (chroot_set_cwd ?s (env_cage E) (virtualize_host_cwd ?s host))\<lparr>initial_cwd := virtualize_host_cwd ?s host\<rparr>"
    using assms(1) by (auto simp: chroot_start_def chroot_init_def init_cwd_def Let_def split: if_splits)
  with canonical_virtualize [OF assms(2), of ?s] show ?thesis
    by (auto simp: chroot_inv_def chroot_set_cwd_def split: if_splits)
qed

lemma reachable_inv:
  assumes "chroot_reachable E st" and "env_stat E '''' = None"
  shows "chroot_inv st \<and> canonical (initial_cwd st)"
  using assms(1)
proof induction
  case (ch_init dir host st)
  then show ?case using chroot_start_inv by blast
next
  case (ch_step st ev st')
  with step_keeps [OF ch_step.hyps(2) assms(2)] show ?case by (simp add: keeps_def)
qed

section \<open>Dispatched paths\<close>

lemma set_Num [simp]: "OwnStr s \<notin> set (map Num xs)"
  by auto








section \<open>Properties\<close>


definition demo_env :: chroot_env where
  "demo_env =
     \<lparr>env_cage = 9, env_sys = (\<lambda>c. 0), env_out = (\<lambda>c. []),
      env_copyin = (\<lambda>c p. if p = 7 then Some (as_bytes ''../../etc/x'' @ [0]) else Some (as_bytes ''/a/./b'' @ [0])),
      env_copymem = (\<lambda>c p n. None), env_copyout = (\<lambda>c p bs. True), env_stat = (\<lambda>s. if s = '''' then None else Some 0x41ED), env_thread = (\<lambda>p c. False)\<rparr>"

definition demo_jail :: chroot_state where
  "demo_jail = \<lparr>chroot_dir = ''/jail/'', cage_cwds = Some [4 \<mapsto> ''/home''], cage_dir_fds = Some Map.empty, initial_cwd = ''/''\<rparr>"



text \<open>In every state the grate can reach, the working directory of every cage and the path of every
  tracked directory descriptor are canonical absolute paths, provided the host rejects the empty path.\<close>

theorem chroot_cwds_canonical:
  assumes "chroot_reachable E st" and "env_stat E '''' = None"
  shows "chroot_inv st"
  using reachable_inv [OF assms] by blast

theorem chroot_cwds_canonical_witness:
  "\<exists>st. chroot_start demo_env ''/jail/'' ''/jail/home'' = Some st \<and>
    chroot_inv (snd (snd (chdir_handler demo_env st [7, 0, 0, 0, 0, 0] [4, 4, 4, 4, 4, 4])))"
proof -
  have "check_dir demo_env ''/jail/''" by code_simp
  then obtain st where st: "chroot_start demo_env ''/jail/'' ''/jail/home'' = Some st"
    by (auto simp: chroot_start_def chroot_init_def init_cwd_def Let_def)
  let ?r = "chdir_handler demo_env st [7, 0, 0, 0, 0, 0] [4, 4, 4, 4, 4, 4]"
  have "chroot_reachable demo_env st" using st by (rule ch_init) simp
  moreover have "chroot_step demo_env st (fst (snd ?r)) (snd (snd ?r))"
    by (rule ch_chdir [where r = "fst ?r" and a = "[7, 0, 0, 0, 0, 0]" and g = "[4, 4, 4, 4, 4, 4]"]) simp
  ultimately have "chroot_reachable demo_env (snd (snd ?r))" by (rule ch_step)
  moreover have "env_stat demo_env '''' = None" by (simp add: demo_env_def)
  ultimately have "chroot_inv (snd (snd ?r))" by (rule chroot_cwds_canonical)
  with st show ?thesis by blast
qed



lemma trim_end_idem: "trim_end_matches s slash = t \<Longrightarrow> t = [] \<or> last t \<noteq> slash"
proof -
  assume t: "trim_end_matches s slash = t"
  show ?thesis
  proof (cases "dropWhile (\<lambda>x. x = slash) (rev s) = []")
    case False
    with hd_dropWhile [OF this] t show ?thesis unfolding trim_end_matches_def by (auto simp: last_rev)
  next
    case True
    with t show ?thesis unfolding trim_end_matches_def by simp
  qed
qed

lemma strip_prefix_append [simp]: "strip_prefix (p @ s) p = Some s"
  by (simp add: strip_prefix_def starts_with_def)

text \<open>Mapping a virtual path into the jail and back is the identity: the host path the grate builds for
  a canonical virtual path is seen as that virtual path again.\<close>

theorem virtualize_roundtrip:
  assumes "canonical v"
  shows "virtualize_host_cwd st (trim_end_matches (chroot_dir st) slash @ v) = v"
proof -
  let ?d = "trim_end_matches (chroot_dir st) slash"
  have "?d \<noteq> ''/''" using trim_end_idem [OF refl, of "chroot_dir st"] by auto
  moreover have "?d @ v \<noteq> ?d" using canonical_not_empty [OF assms] by simp
  ultimately show ?thesis
    using canonical_fixed [OF assms] canonical_absolute [OF assms] by (simp add: virtualize_host_cwd_def Let_def)
qed

theorem virtualize_roundtrip_witness: "virtualize_host_cwd demo_jail (trim_end_matches ''/jail/'' slash @ ''/a'') = ''/a''"
proof -
  have "canonical ''/a''" unfolding canonical_def
    by (rule exI [of _ "[''a'']"]) (simp add: render_abs_def clean_name_def)
  from virtualize_roundtrip [OF this, of demo_jail] show ?thesis by (simp add: demo_jail_def)
qed

lemma c_str_take: "0 \<notin> set bs \<Longrightarrow> c_str_bytes (bs @ 0 # rest) = bs"
  by (induction bs) (auto simp: c_str_bytes_def)

lemma sockaddr_path:
  assumes "from_utf8 (as_bytes p) = Some p" and "nul \<notin> set p"
  shows "from_utf8_lossy (c_str_bytes (as_bytes p @ 0 # rest)) = p"
proof -
  have "0 \<notin> set (as_bytes p)" using assms(2) by (auto simp: as_bytes_def) (metis byte_char_byte byte_char_eq_nul)
  with assms(1) show ?thesis by (simp add: c_str_take from_utf8_lossy_valid)
qed

text \<open>The address of a pathname socket survives the way into the jail and back: stripping the prefix
  from the translated address gives the cage the canonical path it bound, NUL terminated, provided the
  chroot directory has no trailing slash.\<close>

theorem sockaddr_roundtrip:
  assumes v: "canonical v" and d: "chroot_dir st = trim_end_matches (chroot_dir st) slash"
    and u: "from_utf8 (as_bytes (chroot_dir st @ v)) = Some (chroot_dir st @ v)" "nul \<notin> set (chroot_dir st @ v)"
    and f: "le_nat [b0, b1] = CHROOT_AF_UNIX"
  shows "take (length v + 3) (untranslate_sockaddr st ([b0, b1] @ as_bytes (trim_end_matches (chroot_dir st) slash @ v) @ [0])) =
    [b0, b1] @ as_bytes v @ [0]"
proof -
  let ?p = "chroot_dir st @ v"
  have p: "from_utf8_lossy (c_str_bytes (as_bytes ?p @ [0])) = ?p" using sockaddr_path [OF u, of "[]"] by simp
  have strip: "strip_chroot_prefix st ?p = v"
    using canonical_not_empty [OF v] by (simp add: strip_chroot_prefix_def starts_with_def)
  have "untranslate_sockaddr st ([b0, b1] @ as_bytes ?p @ [0]) =
      [b0, b1] @ (overwrite (as_bytes ?p @ [0]) 0 (as_bytes v))[length v := 0]"
    using f by (simp add: untranslate_sockaddr_def Let_def p strip min_def numeral_2_eq_2)
  moreover have "(overwrite (as_bytes ?p @ [0]) 0 (as_bytes v))[length v := 0] =
      as_bytes v @ 0 # drop (Suc (length v)) (as_bytes ?p @ [0])"
    by (cases "chroot_dir st") (simp_all add: overwrite_def list_update_append upd_conv_take_nth_drop drop_Suc tl_drop)
  ultimately show ?thesis by (simp add: d [symmetric] numeral_3_eq_3)
qed

theorem sockaddr_roundtrip_witness:
  "take 5 (untranslate_sockaddr (demo_jail\<lparr>chroot_dir := ''/jail''\<rparr>) ([1, 0] @ as_bytes ''/jail/s'' @ [0])) = [1, 0] @ as_bytes ''/s'' @ [0]"
proof -
  have "canonical ''/s''" unfolding canonical_def by (rule exI [of _ "[''s'']"]) (simp add: render_abs_def clean_name_def)
  moreover have "trim_end_matches ''/jail'' slash = ''/jail''" "from_utf8 (as_bytes ''/jail/s'') = Some ''/jail/s''"
    "nul \<notin> set ''/jail/s''" "le_nat [1, 0] = CHROOT_AF_UNIX" by code_simp+
  ultimately show ?thesis using sockaddr_roundtrip [of "''/s''" "demo_jail\<lparr>chroot_dir := ''/jail''\<rparr>" 1 0]
    by (simp add: numeral_eq_Suc)
qed

text \<open>A pathname address of \<open>n\<close> bytes: family \<open>AF_UNIX\<close>, with a name, and the name not abstract.\<close>

definition pathname_address :: "byte list \<Rightarrow> nat \<Rightarrow> bool" where
  "pathname_address orig n \<longleftrightarrow>
     le_nat (take 2 orig) = CHROOT_AF_UNIX \<and> 2 < n \<and> \<not> (drop 2 orig \<noteq> [] \<and> hd (drop 2 orig) = 0)"

lemma translate_sockaddr_cases:
  assumes "translate_sockaddr E st c addr ac n = Some (r, st')"
  shows "case r of None \<Rightarrow> n < 2 \<or> env_copymem E ac addr n = None
    | Some (buf, len) \<Rightarrow> \<exists>orig. env_copymem E ac addr n = Some orig \<and>
        (if pathname_address orig n then \<exists>s. jailed st s \<and> buf = take 2 orig @ as_bytes s @ [0] \<and> len = length buf
         else buf = orig \<and> len = n)"
proof -
  have t2: "take 2 orig = [b0, b1]" if "vec_get orig 0 = Some b0" "vec_get orig 1 = Some b1" for orig :: "byte list" and b0 b1
    using that by (cases orig; cases "tl orig") (auto simp: vec_get_def split: if_splits)
  show ?thesis
  proof (cases "n < 2 \<or> env_copymem E ac addr n = None")
    case True
    then have "r = None" using assms by (auto simp: translate_sockaddr_def split: if_splits option.splits)
    then show ?thesis using True by simp
  next
    case False
    then obtain orig b0 b1 where o: "env_copymem E ac addr n = Some orig" "\<not> n < 2" "vec_get orig 0 = Some b0" "vec_get orig 1 = Some b1"
      using assms by (auto simp: translate_sockaddr_def elim!: bind_SomeE)
    note t = t2 [OF o(3,4)]
    obtain p st1 where p: "chroot_path st (from_utf8_lossy (c_str_bytes (drop 2 orig))) c = (p, st1)" by fastforce
    have "(r, st') = (if pathname_address orig n then (Some ([b0, b1] @ as_bytes p @ [0], length ([b0, b1] @ as_bytes p @ [0])), st1) else (Some (orig, n), st))"
      using assms o p by (auto simp: translate_sockaddr_def pathname_address_def t Let_def split: if_splits)
    then show ?thesis using o(1) t chroot_path_spec(3) [OF p] by (cases "pathname_address orig n") auto
  qed
qed

text \<open>C25. The socket addresses the handlers of \<open>bind\<close>, \<open>connect\<close> and \<open>sendto\<close> dispatch.  With an address pointer that
  is not null, the handler either fails with EFAULT without any call, because the address is shorter than its family or cannot be
  read, or makes exactly one call, in which only the address and its length are changed.  The address is then in the memory
  of the grate: for a pathname address of family \<open>AF_UNIX\<close> the same family with a path below the chroot directory, NUL
  terminated and with its exact length; every other address (another family, unnamed or abstract) the bytes and the length the cage
  passed.  A null pointer is forwarded as it is.\<close>

theorem sockaddr_confined:
  assumes "(nr, i, j) \<in> set socket_in_handlers" "length a = 6" "length g = 6" "socket_translate_handler nr i j E st a g = Some (ret, ev, st')"
  shows "if a ! i = 0 then \<exists>c. ev = [Threei c] \<and> callnumber c = nr \<and> call_args c = map Num a
    else (ret = -14 \<and> ev = [] \<and> (a ! j < 2 \<or> env_copymem E (g ! i) (a ! i) (a ! j) = None)) \<or>
      (\<exists>orig c buf len. env_copymem E (g ! i) (a ! i) (a ! j) = Some orig \<and> ev = [Threei c] \<and> callnumber c = nr \<and>
        call_args c = (map Num a)[i := OwnBuf buf, j := Num len] \<and> call_cages c = g[i := grate_memory (env_cage E)] \<and>
        (if pathname_address orig (a ! j) then \<exists>s. jailed st s \<and> buf = take 2 orig @ as_bytes s @ [0] \<and> len = length buf
         else buf = orig \<and> len = a ! j))"
proof (cases "a ! i = 0")
  case True
  then show ?thesis using assms(4) by (auto simp: socket_translate_handler_def make_syscall_from_grate_def Let_def)
next
  case False
  have ij: "i < 6" "j < 6" "i \<noteq> j" using assms(1) by (auto simp: socket_in_handlers_def)
  obtain r st1 where t: "translate_sockaddr E st (g ! 0) (a ! i) (g ! i) (a ! j) = Some (r, st1)"
    using assms(4) False by (auto simp: socket_translate_handler_def elim!: bind_SomeE)
  note spec = translate_sockaddr_cases [OF t]
  show ?thesis
  proof (cases r)
    case None
    then show ?thesis using assms(4) False t spec by (simp add: socket_translate_handler_def)
  next
    case (Some x)
    then obtain buf len where x: "r = Some (buf, len)" by (cases x) auto
    have "(map Num (a[j := len]))[i := OwnBuf buf] = (map Num a)[i := OwnBuf buf, j := Num len]"
      using ij(3) by (simp add: map_update list_update_swap)
    then obtain c where "ev = [Threei c]" "callnumber c = nr" "call_args c = (map Num a)[i := OwnBuf buf, j := Num len]"
      "call_cages c = g[i := grate_memory (env_cage E)]"
      using assms(2-4) False t x ij by (auto simp: socket_translate_handler_def call_with_rewrites_def Let_def)
    moreover obtain orig where "env_copymem E (g ! i) (a ! i) (a ! j) = Some orig"
      "if pathname_address orig (a ! j) then \<exists>s. jailed st s \<and> buf = take 2 orig @ as_bytes s @ [0] \<and> len = length buf
       else buf = orig \<and> len = a ! j" using spec x by auto
    ultimately show ?thesis using False by (simp only: if_False) blast
  qed
qed

theorem sockaddr_confined_witness:
  "\<exists>c st' s. socket_translate_handler SYS_BIND 1 2 (demo_env\<lparr>env_copymem := (\<lambda>c p n. Some ([1, 0] @ as_bytes ''/tmp/s'' @ [0]))\<rparr>) demo_jail
      [3, 100, 9, 0, 0, 0] [4, 4, 4, 4, 4, 4] = Some (0, [Threei c], st') \<and>
    jailed demo_jail s \<and> call_args c ! 1 = OwnBuf ([1, 0] @ as_bytes s @ [0])"
proof -
  let ?E = "demo_env\<lparr>env_copymem := (\<lambda>c p n. Some ([1, 0] @ as_bytes ''/tmp/s'' @ [0]))\<rparr>"
  let ?a = "[3, 100, 9, 0, 0, 0] :: nat list" and ?g = "[4, 4, 4, 4, 4, 4] :: nat list"
  have "map_option fst (translate_sockaddr ?E demo_jail 4 100 4 9) = Some (Some ([1, 0] @ as_bytes ''/jail/tmp/s'' @ [0], 14))" by code_simp
  then obtain st' where "translate_sockaddr ?E demo_jail 4 100 4 9 = Some (Some ([1, 0] @ as_bytes ''/jail/tmp/s'' @ [0], 14), st')"
    by (auto simp del: append.simps)
  then obtain c where h: "socket_translate_handler SYS_BIND 1 2 ?E demo_jail ?a ?g = Some (0, [Threei c], st')"
    by (simp add: socket_translate_handler_def call_with_rewrites_def Let_def make_threei_call_def call_status_def demo_env_def)
  have m: "(SYS_BIND, 1, 2) \<in> set socket_in_handlers" by (simp add: socket_in_handlers_def)
  have p: "pathname_address ([1, 0] @ as_bytes ''/tmp/s'' @ [0]) 9" by code_simp
  from sockaddr_confined [OF m _ _ h] p obtain s where "jailed demo_jail s" "call_args c ! 1 = OwnBuf ([1, 0] @ as_bytes s @ [0])"
    by auto
  then show ?thesis using h by blast
qed

lemma get_cwd_after_set:
  assumes "cage_cwds st = Some m"
  shows "chroot_get_cwd (chroot_set_cwd st c d) c = (d, chroot_set_cwd st c d)"
  using assms by (simp add: chroot_get_cwd_def chroot_set_cwd_def ensure_cage_cwd_def)

lemma cage_cwds_Some: "cage_cwds st = Some m \<Longrightarrow> \<exists>m'. cage_cwds (ensure_cage_cwd st c) = Some m'"
  by (auto simp: ensure_cage_cwd_def Let_def split: option.splits)

lemma cage_cwds_path: "cage_cwds st = Some m \<Longrightarrow> chroot_path st p c = (h, st') \<Longrightarrow> \<exists>m'. cage_cwds st' = Some m'"
  using cage_cwds_Some by (auto simp: chroot_path_def chroot_get_cwd_def Let_def split: if_splits)

text \<open>A \<open>chdir\<close> that succeeds is what the next \<open>getcwd\<close> of the cage reports: the requested path resolved
  against the old working directory, NUL terminated, with its length as the status.\<close>

theorem chdir_then_getcwd:
  assumes m: "cage_cwds st = Some m" and h: "chdir_handler E st a g = (0, ev, st')"
    and p: "chroot_read_path E (a ! 0) (g ! 0) = Some path"
    and v: "v = chroot_normalize path (fst (chroot_get_cwd st (g ! 0)))"
    and q: "g' ! 0 = g ! 0" and len: "length v + 1 \<le> as_usize (int (a' ! 1))"
    and ok: "env_copyout E (g ! 0) (a' ! 0) (as_bytes v @ [0])"
  shows "getcwd_handler E st' a' g' = (as_i32 (int (length v + 1)), [CopyOut (g ! 0) (a' ! 0) (as_bytes v @ [0])], st')"
proof -
  obtain cwd st1 where c: "chroot_get_cwd st (g ! 0) = (cwd, st1)" by fastforce
  obtain host st2 where k: "chroot_path st1 v (g ! 0) = (host, st2)" by fastforce
  have "\<exists>m1. cage_cwds st1 = Some m1" using cage_cwds_Some [OF m] c by (auto simp: chroot_get_cwd_def Let_def)
  then obtain m2 where m2: "cage_cwds st2 = Some m2" using cage_cwds_path k by blast
  have "st' = chroot_set_cwd st2 (g ! 0) v"
    using h p v c k by (auto simp: chdir_handler_def Let_def split: if_splits)
  with get_cwd_after_set [OF m2, of "g ! 0"] q len ok show ?thesis
    by (simp add: getcwd_handler_def)
qed

theorem chdir_then_getcwd_witness:
  "\<exists>ev st'. chdir_handler demo_env demo_jail [7, 0, 0, 0, 0, 0] [4, 4, 4, 4, 4, 4] = (0, ev, st') \<and>
    getcwd_handler demo_env st' [50, 100, 0, 0, 0, 0] [4, 4, 4, 4, 4, 4] = (7, [CopyOut 4 50 (as_bytes ''/etc/x'' @ [0])], st')"
proof -
  have r: "chroot_read_path demo_env 7 4 = Some ''../../etc/x''" by code_simp
  have n: "chroot_normalize ''../../etc/x'' ''/home'' = ''/etc/x''" "chroot_normalize ''/etc/x'' ''/home'' = ''/etc/x''" by code_simp+
  have k: "check_dir demo_env (trim_end_matches ''/jail/'' slash @ ''/etc/x'')" by code_simp
  have c: "chroot_get_cwd demo_jail 4 = (''/home'', demo_jail)"
    by (simp add: chroot_get_cwd_def ensure_cage_cwd_def demo_jail_def)
  have d: "chroot_dir demo_jail = ''/jail/''" "cage_cwds demo_jail = Some [4 \<mapsto> ''/home'']" by (simp_all add: demo_jail_def)
  have o: "env_copyout demo_env = (\<lambda>c p bs. True)" by (simp add: demo_env_def)
  obtain ev st' where h: "chdir_handler demo_env demo_jail [7, 0, 0, 0, 0, 0] [4, 4, 4, 4, 4, 4] = (0, ev, st')"
    using k by (simp add: chdir_handler_def r c n chroot_path_def d Let_def)
  have "getcwd_handler demo_env st' [50, 100, 0, 0, 0, 0] [4, 4, 4, 4, 4, 4] =
      (as_i32 (int (length ''/etc/x'' + 1)), [CopyOut 4 50 (as_bytes ''/etc/x'' @ [0])], st')"
    using chdir_then_getcwd [OF d(2) h, of "''../../etc/x''" "''/etc/x''" "[4, 4, 4, 4, 4, 4]" "[50, 100, 0, 0, 0, 0]"]
    by (simp add: r c n as_usize_def o)
  with h show ?thesis by (simp add: as_i32_def)
qed

text \<open>After a successful process fork the child cage starts with the working directory and the
  directory descriptors of its parent, and no other cage is affected.\<close>

theorem fork_inherits_cwd:
  assumes w: "cage_cwds st = Some m" "m parent = Some d" and f: "cage_dir_fds st = Some fm" "fm parent = Some fds"
    and h: "fork_handler E st a g = (ret, ev, st')" "g ! 0 = parent" "0 < ret" "\<not> env_thread E (a ! 0) parent"
  shows "cage_cwds st' = Some (m(as_u64 ret \<mapsto> d)) \<and> cage_dir_fds st' = Some (fm(as_u64 ret \<mapsto> fds))"
proof -
  have "chroot_get_cwd st parent = (d, st)" using w by (simp add: chroot_get_cwd_def ensure_cage_cwd_def)
  with assms have "st' = register_child_fd_paths (chroot_set_cwd st (as_u64 ret) d) parent (as_u64 ret)"
    by (auto simp: fork_handler_def register_cage_def Let_def split: prod.splits)
  with w f show ?thesis by (simp add: register_child_fd_paths_def chroot_set_cwd_def)
qed

theorem fork_inherits_cwd_witness:
  "\<exists>ev st'. fork_handler (demo_env\<lparr>env_sys := (\<lambda>c. 6)\<rparr>) (demo_jail\<lparr>cage_dir_fds := Some [4 \<mapsto> [3 \<mapsto> ''/home'']]\<rparr>)
      [0, 0, 0, 0, 0, 0] [4, 4, 4, 4, 4, 4] = (6, ev, st') \<and>
    cage_cwds st' = Some [4 \<mapsto> ''/home'', 6 \<mapsto> ''/home'']"
proof -
  let ?E = "demo_env\<lparr>env_sys := (\<lambda>c. 6)\<rparr>" and ?s = "demo_jail\<lparr>cage_dir_fds := Some [4 \<mapsto> [3 \<mapsto> ''/home'']]\<rparr>"
  obtain ev st' where h: "fork_handler ?E ?s [0, 0, 0, 0, 0, 0] [4, 4, 4, 4, 4, 4] = (6, ev, st')"
    by (simp add: fork_handler_def make_syscall_from_grate_def Let_def)
  have "cage_cwds st' = Some ([4 \<mapsto> ''/home''](as_u64 6 \<mapsto> ''/home''))"
    by (rule fork_inherits_cwd [THEN conjunct1, of ?s "[4 \<mapsto> ''/home'']" 4 "''/home''" "[4 \<mapsto> [3 \<mapsto> ''/home'']]", OF _ _ _ _ h])
      (simp_all add: demo_jail_def demo_env_def)
  with h show ?thesis by (simp add: as_u64_def)
qed

section \<open>Departures from the intended behaviour\<close>

text \<open>\<open>unlinkat\<close> with a relative path never consults the tracked directory: the path goes to the host as
  the cage wrote it, so \<open>..\<close> components leave the jail even when the descriptor is one the grate tracks.\<close>

theorem unlinkat_escapes:
  "\<exists>st'. unlinkat_handler demo_env (demo_jail\<lparr>cage_dir_fds := Some [4 \<mapsto> [3 \<mapsto> ''/home'']]\<rparr>)
      [3, 7, 0, 0, 0, 0] [4, 4, 4, 4, 4, 4] =
    (0, [Threei \<lparr>callnumber = SYS_UNLINKAT, self_cageid = 9, target_cageid = 4,
           call_args = [Num 3, OwnStr ''../../etc/x'', Num 0, Num 0, Num 0, Num 0],
           call_cages = [4, grate_memory 9, 4, 0, 0, 0]\<rparr>], st')"
proof -
  have r: "chroot_read_path demo_env 7 4 = Some ''../../etc/x''" by code_simp
  have e: "env_cage demo_env = 9" "env_sys demo_env c = 0" for c by (simp_all add: demo_env_def)
  have "\<not> is_fdcwd 3" by (simp add: is_fdcwd_def as_i64_def)
  with r e show ?thesis
    by (simp add: unlinkat_handler_def starts_with_def cstring_new_def make_syscall_from_grate_def Let_def)
qed

text \<open>The prefix removed from the target of a link is compared without a component boundary and without
  trimming the configured directory.\<close>

theorem strip_prefix_no_boundary:
  "strip_chroot_prefix (demo_jail\<lparr>chroot_dir := ''/jail''\<rparr>) ''/jailbreak'' = ''break'' \<and>
   strip_chroot_prefix demo_jail ''/jail/x'' = ''x''"
  by (simp add: strip_chroot_prefix_def starts_with_def demo_jail_def)

end
