(* ===== verification/Clamp_Fs.thy ===== *)
theory Clamp_Fs
  imports Paths Grate
begin

unbundle bit_operations_syntax

text \<open>
  The namespace grate fs-routing-clamp (\<open>rust-grates/fs-routing-clamp/src\<close>): global state and
  helpers (\<open>helpers.rs\<close>).  The grate sits between a target cage and a block of clamped grates.
  For each file-system call it decides by the path, or by the descriptor, whether the call goes
  to the clamped side (an alternative call number registered for the clamped grate's handler) or
  to the kernel.  The global state is created before a handler is registered, so the accessors
  never find it missing and the model has the state itself.
\<close>

section \<open>State\<close>

record ns_clamp_state =
  routes :: "(nat \<times> nat \<rightharpoonup> nat) option"
  ns_cage_id :: nat
  clamp_entry_cage :: nat
  clamp_depth :: nat
  routing_prefix :: "string option"
  clamped_cages :: "nat set option"
  cwd_by_cage :: "(nat \<rightharpoonup> string) option"
  alt_allocator :: nat
  interposition_map :: "(nat \<times> nat \<times> nat \<times> nat) list"

record 'ft fs_world = "'ft grate_world" +
  ns :: ns_clamp_state
  clamped_mmaps :: "nat \<rightharpoonup> (nat \<times> nat) list"

type_synonym 'ft fs_handler = "'ft grate_env \<Rightarrow> 'ft fs_world \<Rightarrow> nat list \<Rightarrow> nat list \<Rightarrow> int \<times> 'ft fs_world"

definition ns_new :: "nat \<Rightarrow> string \<Rightarrow> ns_clamp_state" where
  "ns_new cage prefix =
     \<lparr>routes = None, ns_cage_id = cage, clamp_entry_cage = 0, clamp_depth = 1, routing_prefix = Some prefix,
      clamped_cages = None, cwd_by_cage = None, alt_allocator = 3000, interposition_map = []\<rparr>"

text \<open>The calls a target cage makes through the grate whether or not a clamped grate wants them.\<close>

definition SYS_LINKAT_NR :: nat where
  "SYS_LINKAT_NR = 265"

definition FS_CALLS :: "nat list" where
  "FS_CALLS =
     [SYS_OPEN, SYS_OPENAT, SYS_STAT, SYS_LSTAT, SYS_ACCESS, SYS_UNLINK, SYS_LINK, SYS_LINKAT_NR, SYS_MKDIR, SYS_RMDIR,
      SYS_RENAME, SYS_TRUNCATE, SYS_CHMOD, SYS_CHOWN, SYS_LCHOWN, SYS_CHDIR, SYS_MKNOD, SYS_SYMLINK, SYS_SYMLINKAT,
      SYS_READLINK, SYS_UNLINKAT, SYS_READLINKAT, SYS_STATFS, SYS_GETDENTS, SYS_READ, SYS_WRITE, SYS_CLOSE, SYS_READV,
      SYS_WRITEV, SYS_PREAD, SYS_PWRITE, SYS_PREADV, SYS_PWRITEV, SYS_LSEEK, SYS_FSTAT, SYS_NEWFSTATAT, SYS_STATX,
      SYS_FACCESSAT, SYS_FCNTL, SYS_FTRUNCATE, SYS_FCHMOD, SYS_FCHMODAT, SYS_FCHOWNAT, SYS_FCHDIR, SYS_UTIMENSAT,
      SYS_READV, SYS_WRITEV, SYS_FSYNC, SYS_FDATASYNC, SYS_FSTATFS, SYS_SYNC_FILE_RANGE, SYS_MMAP, SYS_MUNMAP,
      SYS_DUP, SYS_DUP2, SYS_DUP3, SYS_GETCWD]"

section \<open>Accessors and cage tracking\<close>

text \<open>The prefix is set when the state is created and never cleared.\<close>

definition get_routing_prefix :: "ns_clamp_state \<Rightarrow> string" where
  "get_routing_prefix s = the (routing_prefix s)"

definition alloc_alt_syscall :: "ns_clamp_state \<Rightarrow> nat \<times> ns_clamp_state" where
  "alloc_alt_syscall s = (alt_allocator s, s\<lparr>alt_allocator := (alt_allocator s + 1) mod 2 ^ 64\<rparr>)"

definition set_clamp_entry :: "ns_clamp_state \<Rightarrow> nat \<Rightarrow> ns_clamp_state" where
  "set_clamp_entry s cage = s\<lparr>clamp_entry_cage := cage\<rparr>"

definition enter_nested_clamp :: "ns_clamp_state \<Rightarrow> ns_clamp_state" where
  "enter_nested_clamp s = s\<lparr>clamp_depth := (clamp_depth s + 1) mod 2 ^ 32\<rparr>"

definition exit_nested_clamp :: "ns_clamp_state \<Rightarrow> ns_clamp_state" where
  "exit_nested_clamp s = (if clamp_depth s > 0 then s\<lparr>clamp_depth := clamp_depth s - 1\<rparr> else s)"

definition register_clamped_cage :: "ns_clamp_state \<Rightarrow> nat \<Rightarrow> ns_clamp_state" where
  "register_clamped_cage s cage =
     (let cages = (case clamped_cages s of Some cs \<Rightarrow> cs | None \<Rightarrow> {});
          cwds = (case cwd_by_cage s of Some m \<Rightarrow> m | None \<Rightarrow> Map.empty)
      in s\<lparr>clamped_cages := Some (insert cage cages),
           cwd_by_cage := Some (if cwds cage = None then cwds(cage \<mapsto> ''/'') else cwds)\<rparr>)"

definition deregister_clamped_cage :: "ns_clamp_state \<Rightarrow> nat \<Rightarrow> ns_clamp_state" where
  "deregister_clamped_cage s cage =
     (case clamped_cages s of None \<Rightarrow> s | Some cs \<Rightarrow> s\<lparr>clamped_cages := Some (cs - {cage})\<rparr>)"

definition is_cage_clamped :: "ns_clamp_state \<Rightarrow> nat \<Rightarrow> bool" where
  "is_cage_clamped s cage = (case clamped_cages s of None \<Rightarrow> False | Some cs \<Rightarrow> cage \<in> cs)"

definition push_interposition_request :: "ns_clamp_state \<Rightarrow> nat \<times> nat \<times> nat \<times> nat \<Rightarrow> ns_clamp_state" where
  "push_interposition_request s request = s\<lparr>interposition_map := interposition_map s @ [request]\<rparr>"

definition get_interposition_request :: "ns_clamp_state \<Rightarrow> nat \<Rightarrow> nat \<Rightarrow> (nat \<times> nat) option" where
  "get_interposition_request s target fs_syscall =
     map_option (\<lambda>(_, _, grate_id, handler_fn). (grate_id, handler_fn))
       (find (\<lambda>(child_cage, nr, _, _). child_cage = target \<and> nr = fs_syscall) (rev (interposition_map s)))"

section \<open>Route table\<close>

definition set_route :: "ns_clamp_state \<Rightarrow> nat \<Rightarrow> nat \<Rightarrow> nat \<Rightarrow> ns_clamp_state" where
  "set_route s cage nr alt =
     (let m = (case routes s of Some m \<Rightarrow> m | None \<Rightarrow> Map.empty) in s\<lparr>routes := Some (m((cage, nr) \<mapsto> alt))\<rparr>)"

definition get_route :: "ns_clamp_state \<Rightarrow> nat \<Rightarrow> nat \<Rightarrow> nat option" where
  "get_route s cage nr = (case routes s of None \<Rightarrow> None | Some m \<Rightarrow> m (cage, nr))"

text \<open>The parent's routes are collected first and then inserted for the child.\<close>

definition clone_cage_routes :: "ns_clamp_state \<Rightarrow> nat \<Rightarrow> nat \<Rightarrow> ns_clamp_state" where
  "clone_cage_routes s parent child =
     (case routes s of None \<Rightarrow> s
      | Some m \<Rightarrow> s\<lparr>routes := Some (\<lambda>(c, nr).
          if c = child \<and> m (parent, nr) \<noteq> None then m (parent, nr) else m (c, nr))\<rparr>)"

section \<open>Paths\<close>

text \<open>The grate's lexical normalisation: every path is taken as absolute.\<close>

definition clamp_normalize :: "string \<Rightarrow> string" where
  "clamp_normalize path =
     (let components = foldl path_step [] (split_on slash path)
      in if components = [] then ''/'' else ''/'' @ join_with ''/'' components)"

definition clamp_get_cwd :: "ns_clamp_state \<Rightarrow> nat \<Rightarrow> string" where
  "clamp_get_cwd s cage =
     (case cwd_by_cage s of None \<Rightarrow> ''/''
      | Some m \<Rightarrow> (case m cage of None \<Rightarrow> ''/'' | Some cwd \<Rightarrow> cwd))"

definition clamp_set_cwd :: "ns_clamp_state \<Rightarrow> nat \<Rightarrow> string \<Rightarrow> ns_clamp_state" where
  "clamp_set_cwd s cage cwd =
     (let m = (case cwd_by_cage s of Some m \<Rightarrow> m | None \<Rightarrow> Map.empty)
      in s\<lparr>cwd_by_cage := Some (m(cage \<mapsto> clamp_normalize cwd))\<rparr>)"

definition clone_cage_cwd :: "ns_clamp_state \<Rightarrow> nat \<Rightarrow> nat \<Rightarrow> ns_clamp_state" where
  "clone_cage_cwd s parent child = clamp_set_cwd s child (clamp_get_cwd s parent)"

definition remove_cage_state :: "ns_clamp_state \<Rightarrow> nat \<Rightarrow> ns_clamp_state" where
  "remove_cage_state s cage =
     s\<lparr>routes := map_option (\<lambda>m (c, nr). if c = cage then None else m (c, nr)) (routes s),
       clamped_cages := map_option (\<lambda>cs. cs - {cage}) (clamped_cages s),
       cwd_by_cage := map_option (\<lambda>m. m(cage := None)) (cwd_by_cage s)\<rparr>"

definition MAX_PATH_LEN :: nat where
  "MAX_PATH_LEN = 4096"

text \<open>The buffer is zero-filled before the copy; without a NUL the whole buffer is the path.\<close>

definition clamp_read_path :: "'ft grate_env \<Rightarrow> 'ft fs_world \<Rightarrow> nat \<Rightarrow> nat \<Rightarrow> string option" where
  "clamp_read_path E w path_ptr path_cage =
     (case ge_copystr E (hist w) path_cage path_ptr MAX_PATH_LEN of
        None \<Rightarrow> None
      | Some buf \<Rightarrow> from_utf8 (c_str_bytes buf))"

definition resolve_path_for_cage :: "ns_clamp_state \<Rightarrow> nat \<Rightarrow> string \<Rightarrow> string" where
  "resolve_path_for_cage s current_cage path =
     (if starts_with path ''/'' then clamp_normalize path
      else clamp_normalize (trim_end_matches (clamp_get_cwd s current_cage) slash @ ''/'' @ path))"

definition resolve_path_from_cage :: "'ft grate_env \<Rightarrow> 'ft fs_world \<Rightarrow> nat \<Rightarrow> nat \<Rightarrow> nat \<Rightarrow> string option" where
  "resolve_path_from_cage E w current_cage path_ptr path_cage =
     map_option (resolve_path_for_cage (ns w) current_cage) (clamp_read_path E w path_ptr path_cage)"

definition path_matches_prefix :: "ns_clamp_state \<Rightarrow> string \<Rightarrow> bool" where
  "path_matches_prefix s path = starts_with path (get_routing_prefix s)"

section \<open>Dispatch\<close>

definition do_syscall ::
  "'ft grate_env \<Rightarrow> 'ft fs_world \<Rightarrow> nat \<Rightarrow> nat \<Rightarrow> nat list \<Rightarrow> nat list \<Rightarrow> int \<times> 'ft fs_world" where
  "do_syscall E w callingcage nr args arg_cages =
     grate_call E w \<lparr>callnumber = as_u32 nr, self_cageid = ns_cage_id (ns w), target_cageid = callingcage,
       call_args = map Num args, call_cages = arg_cages\<rparr>"

text \<open>The same with the saved clamp-entry cage as the source.\<close>

definition do_clamp_syscall ::
  "'ft grate_env \<Rightarrow> 'ft fs_world \<Rightarrow> nat \<Rightarrow> nat \<Rightarrow> nat list \<Rightarrow> nat list \<Rightarrow> int \<times> 'ft fs_world" where
  "do_clamp_syscall E w callingcage nr args arg_cages =
     grate_call E w \<lparr>callnumber = as_u32 nr, self_cageid = clamp_entry_cage (ns w), target_cageid = callingcage,
       call_args = map Num args, call_cages = arg_cages\<rparr>"

section \<open>Clamped memory mappings\<close>

text \<open>A range is the pair of its start and its end (exclusive); addresses are 64-bit.\<close>

definition checked_add :: "nat \<Rightarrow> nat \<Rightarrow> nat option" where
  "checked_add a b = (if a + b < 2 ^ 64 then Some (a + b) else None)"

definition record_clamped_mmap :: "(nat \<rightharpoonup> (nat \<times> nat) list) \<Rightarrow> nat \<Rightarrow> nat \<Rightarrow> nat \<Rightarrow> (nat \<rightharpoonup> (nat \<times> nat) list)" where
  "record_clamped_mmap maps cage addr len =
     (if len = 0 then maps
      else case checked_add addr len of None \<Rightarrow> maps
        | Some end \<Rightarrow>
            let ranges = (case maps cage of Some rs \<Rightarrow> rs | None \<Rightarrow> []) in maps(cage \<mapsto> ranges @ [(addr, end)]))"

definition is_clamped_mmap :: "(nat \<rightharpoonup> (nat \<times> nat) list) \<Rightarrow> nat \<Rightarrow> nat \<Rightarrow> nat \<Rightarrow> bool" where
  "is_clamped_mmap maps cage addr len =
     (if len = 0 then False
      else case checked_add addr len of None \<Rightarrow> False
        | Some end \<Rightarrow>
            (case maps cage of None \<Rightarrow> False
             | Some ranges \<Rightarrow> list_ex (\<lambda>(r_start, r_end). addr < r_end \<and> end > r_start) ranges))"

text \<open>What is left of one range after \<open>[addr, end)\<close> is unmapped.\<close>

definition split_range :: "nat \<Rightarrow> nat \<Rightarrow> nat \<times> nat \<Rightarrow> (nat \<times> nat) list" where
  "split_range addr end = (\<lambda>(r_start, r_end).
     if end \<le> r_start \<or> addr \<ge> r_end then [(r_start, r_end)]
     else (if addr > r_start then [(r_start, addr)] else []) @ (if end < r_end then [(end, r_end)] else []))"

definition remove_clamped_mmap :: "(nat \<rightharpoonup> (nat \<times> nat) list) \<Rightarrow> nat \<Rightarrow> nat \<Rightarrow> nat \<Rightarrow> (nat \<rightharpoonup> (nat \<times> nat) list)" where
  "remove_clamped_mmap maps cage addr len =
     (if len = 0 then maps
      else case checked_add addr len of None \<Rightarrow> maps
        | Some end \<Rightarrow>
            (case maps cage of None \<Rightarrow> maps
             | Some ranges \<Rightarrow>
                 let new_ranges = concat (map (split_range addr end) ranges)
                 in if new_ranges = [] then maps(cage := None) else maps(cage \<mapsto> new_ranges)))"

section \<open>The normaliser meets the contract of lexical paths\<close>

lemma clamp_normalize_eq: "clamp_normalize p = render_abs (resolve_parts (split_on slash p))"
  by (simp add: clamp_normalize_def render_abs_def resolve_parts_def Let_def)

interpretation clamp_paths: path_normalizer clamp_normalize "split_on slash" "\<lambda>_. True"
  by unfold_locales (auto simp: clamp_normalize_eq dest: split_on_free)

end
