(* ===== verification/Clamp_Fs_Handlers.thy ===== *)
theory Clamp_Fs_Handlers
  imports Clamp_Fs
begin

unbundle bit_operations_syntax

text \<open>
  The system-call handlers of fs-routing-clamp (\<open>handlers/ns_handlers.rs\<close>) and the handlers for
  registration, exec, fork and exit (\<open>handlers/clamped_lifecycle.rs\<close>).  \<open>a\<close> and \<open>g\<close> are the six
  arguments and their cage ids; \<open>g ! 0\<close> is the calling cage, as in the source.
\<close>

section \<open>Path-based handlers\<close>

definition define_path_handler :: "nat \<Rightarrow> 'ft fs_handler" where
  "define_path_handler sysno E w a g =
     (let nr = (case get_route (ns w) (g ! 0) sysno of
                  Some alt \<Rightarrow>
                    (case resolve_path_from_cage E w (g ! 0) (a ! 0) (g ! 0) of
                       Some path \<Rightarrow> if path_matches_prefix (ns w) path then alt else sysno
                     | None \<Rightarrow> sysno)
                | None \<Rightarrow> sysno)
      in do_syscall E w (g ! 0) nr a g)"

text \<open>The calls the macro is used for.\<close>

definition path_routed :: "nat list" where
  "path_routed =
     [SYS_STAT, SYS_LSTAT, SYS_ACCESS, SYS_UNLINK, SYS_LINK, SYS_MKDIR, SYS_RMDIR, SYS_RENAME, SYS_TRUNCATE,
      SYS_CHMOD, SYS_CHOWN, SYS_LCHOWN, SYS_MKNOD, SYS_READLINK, SYS_STATFS]"

text \<open>
  The decision for a call with a directory descriptor: whether to clamp it, and the arguments with
  an unclamped descriptor translated; an unreadable path counts as empty.
\<close>

definition prepare_at_path_route ::
  "'ft grate_env \<Rightarrow> 'ft fs_world \<Rightarrow> nat \<Rightarrow> nat \<Rightarrow> nat \<Rightarrow> nat \<Rightarrow> nat list \<Rightarrow> nat \<Rightarrow> int + bool \<times> nat list" where
  "prepare_at_path_route E w cage_id dirfd path_ptr path_cage args dirfd_arg_index =
     (let path = (case clamp_read_path E w path_ptr path_cage of Some p \<Rightarrow> p | None \<Rightarrow> '''') in
      if starts_with path ''/'' then Inr (path_matches_prefix (ns w) (clamp_normalize path), args)
      else if is_fdcwd dirfd then
        Inr (if path = '''' then False else path_matches_prefix (ns w) (resolve_path_for_cage (ns w) cage_id path), args)
      else (case translate_virtual_fd (ge_fd E) (fdt w) cage_id dirfd of
              None \<Rightarrow> Inl (-9)
            | Some fd_entry \<Rightarrow>
                let dirfd_clamped = (perfdinfo fd_entry \<noteq> 0)
                in Inr (dirfd_clamped, if dirfd_clamped then args else args[dirfd_arg_index := underfd fd_entry])))"

text \<open>The common shape of the handlers with a directory descriptor.\<close>

definition at_route_handler :: "nat \<Rightarrow> nat \<Rightarrow> nat \<Rightarrow> 'ft fs_handler" where
  "at_route_handler sysno dirfd_idx path_idx E w a g =
     (case prepare_at_path_route E w (g ! 0) (a ! dirfd_idx) (a ! path_idx) (g ! path_idx) a dirfd_idx of
        Inl e \<Rightarrow> (e, w)
      | Inr (should_clamp, args) \<Rightarrow>
          let nr = (case get_route (ns w) (g ! 0) sysno of Some alt \<Rightarrow> if should_clamp then alt else sysno | None \<Rightarrow> sysno)
          in do_syscall E w (g ! 0) nr args g)"

definition ns_symlink_handler :: "'ft fs_handler" where
  "ns_symlink_handler E w a g =
     (let matches = (case clamp_read_path E w (a ! 1) (g ! 1) of
                       Some path \<Rightarrow> path_matches_prefix (ns w) (resolve_path_for_cage (ns w) (g ! 0) path)
                     | None \<Rightarrow> False);
          nr = (case get_route (ns w) (g ! 0) SYS_SYMLINK of Some alt \<Rightarrow> if matches then alt else SYS_SYMLINK | None \<Rightarrow> SYS_SYMLINK)
      in do_syscall E w (g ! 0) nr a g)"

definition ns_symlinkat_handler :: "'ft fs_handler" where
  "ns_symlinkat_handler = at_route_handler SYS_SYMLINKAT 1 2"

definition ns_readlinkat_handler :: "'ft fs_handler" where
  "ns_readlinkat_handler = at_route_handler SYS_READLINKAT 0 1"

definition ns_unlinkat_handler :: "'ft fs_handler" where
  "ns_unlinkat_handler = at_route_handler SYS_UNLINKAT 0 1"

definition ns_faccessat_handler :: "'ft fs_handler" where
  "ns_faccessat_handler = at_route_handler SYS_FACCESSAT 0 1"

definition ns_statx_handler :: "'ft fs_handler" where
  "ns_statx_handler = at_route_handler SYS_STATX 0 1"

definition ns_fchmodat_handler :: "'ft fs_handler" where
  "ns_fchmodat_handler = at_route_handler SYS_FCHMODAT 0 1"

definition ns_fchownat_handler :: "'ft fs_handler" where
  "ns_fchownat_handler = at_route_handler SYS_FCHOWNAT 0 1"

definition ns_utimensat_handler :: "'ft fs_handler" where
  "ns_utimensat_handler E w a g =
     (let decision =
        (if a ! 1 = 0 then
           (if is_fdcwd (a ! 0) then Inr (False, a)
            else case translate_virtual_fd (ge_fd E) (fdt w) (g ! 0) (a ! 0) of
                Some entry \<Rightarrow> Inr (perfdinfo entry \<noteq> 0, a[0 := underfd entry])
              | None \<Rightarrow> Inl (-9))
         else prepare_at_path_route E w (g ! 0) (a ! 0) (a ! 1) (g ! 1) a 0)
      in (case decision of
            Inl e \<Rightarrow> (e, w)
          | Inr (should_clamp, args) \<Rightarrow>
              let nr = (case get_route (ns w) (g ! 0) SYS_UTIMENSAT of
                          Some alt \<Rightarrow> if should_clamp then alt else SYS_UTIMENSAT | None \<Rightarrow> SYS_UTIMENSAT)
              in do_syscall E w (g ! 0) nr args g))"

definition ns_linkat_handler :: "'ft fs_handler" where
  "ns_linkat_handler E w a g =
     (case prepare_at_path_route E w (g ! 0) (a ! 0) (a ! 1) (g ! 1) a 0 of
        Inl e \<Rightarrow> (e, w)
      | Inr (old_clamped, args) \<Rightarrow>
          (case prepare_at_path_route E w (g ! 0) (a ! 2) (a ! 3) (g ! 3) args 2 of
             Inl e \<Rightarrow> (e, w)
           | Inr (new_clamped, args) \<Rightarrow>
               let should_clamp = (old_clamped \<or> new_clamped);
                   nr = (case get_route (ns w) (g ! 0) SYS_LINKAT_NR of
                           Some alt \<Rightarrow> if should_clamp then alt else SYS_LINKAT_NR | None \<Rightarrow> SYS_LINKAT_NR)
               in do_syscall E w (g ! 0) nr args g))"

definition ns_chdir_handler :: "'ft fs_handler" where
  "ns_chdir_handler E w a g =
     (case ge_copystr E (hist w) (g ! 0) (a ! 0) 4096 of
        None \<Rightarrow> (-14, w)
      | Some buf \<Rightarrow>
          (case from_utf8 (c_str_bytes buf) of
             None \<Rightarrow> (-14, w)
           | Some pathstr \<Rightarrow>
               let resolved_path = resolve_path_for_cage (ns w) (g ! 0) pathstr;
                   matches = path_matches_prefix (ns w) resolved_path;
                   nr = (case get_route (ns w) (g ! 0) SYS_CHDIR of Some alt \<Rightarrow> if matches then alt else SYS_CHDIR | None \<Rightarrow> SYS_CHDIR);
                   (ret, w) = do_syscall E w (g ! 0) nr a g
               in (ret, if ret = 0 then w\<lparr>ns := clamp_set_cwd (ns w) (g ! 0) resolved_path\<rparr> else w)))"

section \<open>Descriptor-based handlers\<close>

definition fd_route_handler :: "nat \<Rightarrow> 'ft fs_handler" where
  "fd_route_handler sysno E w a g =
     (case translate_virtual_fd (ge_fd E) (fdt w) (g ! 0) (a ! 0) of
        None \<Rightarrow> (-9, w)
      | Some old_fd_entry \<Rightarrow>
          let args = a[0 := underfd old_fd_entry] in
          if perfdinfo old_fd_entry \<noteq> 0 then
            (case get_route (ns w) (g ! 0) sysno of
               Some alt \<Rightarrow> do_syscall E w (g ! 0) alt args g
             | None \<Rightarrow> do_clamp_syscall E w (g ! 0) sysno args g)
          else do_syscall E w (g ! 0) sysno args g)"

definition fd_routed :: "nat list" where
  "fd_routed =
     [SYS_GETDENTS, SYS_READ, SYS_WRITE, SYS_PREAD, SYS_PWRITE, SYS_PREADV, SYS_READV, SYS_WRITEV, SYS_PWRITEV,
      SYS_LSEEK, SYS_FSTAT, SYS_FTRUNCATE, SYS_FCHMOD, SYS_FCHDIR, SYS_FSYNC, SYS_FDATASYNC, SYS_FSTATFS,
      SYS_SYNC_FILE_RANGE]"

text \<open>Closing an underlying descriptor, with the status ignored.\<close>

definition close_under :: "'ft grate_env \<Rightarrow> 'ft fs_world \<Rightarrow> nat \<Rightarrow> nat \<Rightarrow> 'ft fs_world" where
  "close_under E w cage fd = snd (do_syscall E w cage SYS_CLOSE [fd, 0, 0, 0, 0, 0] [cage, cage, cage, cage, cage, cage])"

text \<open>A descriptor the call returned is entered in the caller's table.\<close>

definition install_opened :: "'ft grate_env \<Rightarrow> 'ft fs_world \<Rightarrow> nat \<Rightarrow> int \<Rightarrow> bool \<Rightarrow> int \<times> 'ft fs_world" where
  "install_opened E w cage ret clamped =
     (case get_unused_virtual_fd (ge_fd E) (fdt w) cage 0 (as_u64 ret) False (if clamped then 1 else 0) of
        Some (vfd, ft) \<Rightarrow> (as_i32 (int vfd), w\<lparr>fdt := ft\<rparr>)
      | None \<Rightarrow> (-24, close_under E w cage (as_u64 ret)))"

definition ns_open_handler :: "'ft fs_handler" where
  "ns_open_handler E w a g =
     (let matches = (case resolve_path_from_cage E w (g ! 1) (a ! 0) (g ! 0) of
                       Some p \<Rightarrow> path_matches_prefix (ns w) p | None \<Rightarrow> False);
          nr = (case get_route (ns w) (g ! 0) SYS_OPEN of Some alt \<Rightarrow> if matches then alt else SYS_OPEN | None \<Rightarrow> SYS_OPEN);
          (ret, w) = do_syscall E w (g ! 0) nr a g
      in if ret \<ge> 0 then install_opened E w (g ! 0) ret matches else (ret, w))"

definition ns_close_handler :: "'ft fs_handler" where
  "ns_close_handler E w a g =
     (case translate_virtual_fd (ge_fd E) (fdt w) (g ! 0) (a ! 0) of
        None \<Rightarrow> (-9, w)
      | Some old_fd_entry \<Rightarrow>
          let nr = (case get_route (ns w) (g ! 0) SYS_CLOSE of
                      Some alt \<Rightarrow> if perfdinfo old_fd_entry \<noteq> 0 then alt else SYS_CLOSE | None \<Rightarrow> SYS_CLOSE);
              (ret, w) = do_syscall E w (g ! 0) nr (a[0 := underfd old_fd_entry]) g
          in if ret \<ge> 0
             then (ret, case close_virtualfd (ge_fd E) (fdt w) (g ! 0) (a ! 0) of Some ft \<Rightarrow> w\<lparr>fdt := ft\<rparr> | None \<Rightarrow> w)
             else (ret, w))"

definition MAP_ANON :: nat where
  "MAP_ANON = 0x20"

text \<open>A clamped call goes to the alternative number, or through the clamp entry when there is none.\<close>

definition clamped_call :: "'ft grate_env \<Rightarrow> 'ft fs_world \<Rightarrow> nat \<Rightarrow> nat \<Rightarrow> nat list \<Rightarrow> nat list \<Rightarrow> int \<times> 'ft fs_world" where
  "clamped_call E w cage sysno args cages =
     (case get_route (ns w) cage sysno of
        Some alt \<Rightarrow> do_syscall E w cage alt args cages
      | None \<Rightarrow> do_clamp_syscall E w cage sysno args cages)"

definition ns_mmap_handler :: "'ft fs_handler" where
  "ns_mmap_handler E w a g =
     (if a ! 3 AND MAP_ANON \<noteq> 0 then do_syscall E w (g ! 0) SYS_MMAP a g
      else case translate_virtual_fd (ge_fd E) (fdt w) (g ! 0) (a ! 4) of
          None \<Rightarrow> (-9, w)
        | Some old_fd_entry \<Rightarrow>
            let args = a[4 := underfd old_fd_entry] in
            if perfdinfo old_fd_entry \<noteq> 0 then
              (let (ret, w) = clamped_call E w (g ! 0) SYS_MMAP args g
               in (ret, if ret \<ge> 0 then w\<lparr>clamped_mmaps := record_clamped_mmap (clamped_mmaps w) (g ! 0) (as_u64 ret) (a ! 1)\<rparr> else w))
            else do_syscall E w (g ! 0) SYS_MMAP args g)"

definition ns_munmap_handler :: "'ft fs_handler" where
  "ns_munmap_handler E w a g =
     (let is_clamped_mapping = is_clamped_mmap (clamped_mmaps w) (g ! 0) (a ! 0) (a ! 1);
          forget = (\<lambda>(ret, w :: 'ft fs_world).
            (ret :: int, if ret = 0 then w\<lparr>clamped_mmaps := remove_clamped_mmap (clamped_mmaps w) (g ! 0) (a ! 0) (a ! 1)\<rparr> else w))
      in (case get_route (ns w) (g ! 0) SYS_MUNMAP of
            Some alt \<Rightarrow> forget (do_syscall E w (g ! 0) alt a g)
          | None \<Rightarrow>
              if is_clamped_mapping then forget (do_clamp_syscall E w (g ! 0) SYS_MUNMAP a g)
              else do_syscall E w (g ! 0) SYS_MUNMAP a g))"

definition F_DUPFD :: nat where "F_DUPFD = 0"
definition F_DUPFD_CLOEXEC :: nat where "F_DUPFD_CLOEXEC = 1030"
definition F_SETFD :: nat where "F_SETFD = 2"
definition FD_CLOEXEC :: nat where "FD_CLOEXEC = 1"
definition CLAMP_O_CLOEXEC :: nat where "CLAMP_O_CLOEXEC = 0x80000"

definition ns_fcntl_handler :: "'ft fs_handler" where
  "ns_fcntl_handler E w a g =
     (case translate_virtual_fd (ge_fd E) (fdt w) (g ! 0) (a ! 0) of
        None \<Rightarrow> (-9, w)
      | Some old_fd_entry \<Rightarrow>
          let nr = (case get_route (ns w) (g ! 0) SYS_FCNTL of
                      Some alt \<Rightarrow> if perfdinfo old_fd_entry \<noteq> 0 then alt else SYS_FCNTL | None \<Rightarrow> SYS_FCNTL);
              (ret, w) = do_syscall E w (g ! 0) nr (a[0 := underfd old_fd_entry]) g
          in if ret \<ge> 0 \<and> (a ! 1 = F_DUPFD \<or> a ! 1 = F_DUPFD_CLOEXEC) then
               (case get_unused_virtual_fd_from_startfd (ge_fd E) (fdt w) (g ! 0) 0 (as_u64 ret) (a ! 1 = F_DUPFD_CLOEXEC)
                       (perfdinfo old_fd_entry) (a ! 2) of
                  Some (vfd, ft) \<Rightarrow> (as_i32 (int vfd), w\<lparr>fdt := ft\<rparr>)
                | None \<Rightarrow> (-24, w))
             else (ret, w))"

definition ns_fstatat_handler :: "'ft fs_handler" where
  "ns_fstatat_handler E w a g =
     (let is_at_fdcwd = is_fdcwd (a ! 0);
          path = (case clamp_read_path E w (a ! 1) (g ! 1) of Some p \<Rightarrow> p | None \<Rightarrow> '''');
          dir = (if \<not> is_at_fdcwd \<and> (path = '''' \<or> \<not> starts_with path ''/'') then
                   (case translate_virtual_fd (ge_fd E) (fdt w) (g ! 0) (a ! 0) of
                      None \<Rightarrow> Inl (-9)
                    | Some fd_entry \<Rightarrow>
                        Inr (perfdinfo fd_entry \<noteq> 0, if perfdinfo fd_entry \<noteq> 0 then a else a[0 := underfd fd_entry]))
                 else Inr (False, a))
      in (case dir of
            Inl e \<Rightarrow> (e, w)
          | Inr (dirfd_clamped, args) \<Rightarrow>
              let should_clamp =
                (if path = '''' then dirfd_clamped
                 else if starts_with path ''/'' then path_matches_prefix (ns w) (clamp_normalize path)
                 else if is_at_fdcwd then
                   (case resolve_path_from_cage E w (g ! 1) (a ! 1) (g ! 1) of
                      Some resolved \<Rightarrow> path_matches_prefix (ns w) resolved | None \<Rightarrow> False)
                 else dirfd_clamped)
              in if should_clamp then clamped_call E w (g ! 0) SYS_NEWFSTATAT args g
                 else do_syscall E w (g ! 0) SYS_NEWFSTATAT args g))"

definition ns_openat_handler :: "'ft fs_handler" where
  "ns_openat_handler E w a g =
     (let is_at_fdcwd = is_fdcwd (a ! 0);
          path = (case clamp_read_path E w (a ! 1) (g ! 1) of Some p \<Rightarrow> p | None \<Rightarrow> '''');
          dir = (if \<not> is_at_fdcwd \<and> \<not> starts_with path ''/'' then
                   (case translate_virtual_fd (ge_fd E) (fdt w) (g ! 0) (a ! 0) of
                      None \<Rightarrow> Inl (-9)
                    | Some fd_entry \<Rightarrow>
                        Inr (perfdinfo fd_entry \<noteq> 0, if perfdinfo fd_entry \<noteq> 0 then a else a[0 := underfd fd_entry]))
                 else Inr (False, a))
      in (case dir of
            Inl e \<Rightarrow> (e, w)
          | Inr (dirfd_clamped, args) \<Rightarrow>
              let path_matches =
                    (if path \<noteq> '''' \<and> (starts_with path ''/'' \<or> is_at_fdcwd) then
                       (case resolve_path_from_cage E w (g ! 1) (a ! 1) (g ! 0) of
                          Some p \<Rightarrow> path_matches_prefix (ns w) p | None \<Rightarrow> False)
                     else False);
                  should_clamp = (dirfd_clamped \<or> path_matches);
                  nr = (case get_route (ns w) (g ! 0) SYS_OPENAT of
                          Some alt \<Rightarrow> if should_clamp then alt else SYS_OPENAT | None \<Rightarrow> SYS_OPENAT);
                  (ret, w) = (if should_clamp \<and> nr = SYS_OPENAT then do_clamp_syscall E w (g ! 0) SYS_OPENAT args g
                              else do_syscall E w (g ! 0) nr args g)
              in if ret \<ge> 0 then install_opened E w (g ! 0) ret should_clamp else (ret, w)))"

section \<open>Duplication\<close>

text \<open>The duplicate of the underlying descriptor, on the side the descriptor belongs to.\<close>

definition dup_under :: "'ft grate_env \<Rightarrow> 'ft fs_world \<Rightarrow> nat \<Rightarrow> fd_entry \<Rightarrow> int \<times> 'ft fs_world" where
  "dup_under E w cage old_fd_entry =
     (let dup_args = [underfd old_fd_entry, 0, 0, 0, 0, 0]; dup_cages = [cage, cage, cage, cage, cage, cage]
      in if perfdinfo old_fd_entry \<noteq> 0 then clamped_call E w cage SYS_DUP dup_args dup_cages
         else do_syscall E w cage SYS_DUP dup_args dup_cages)"

text \<open>An existing target descriptor is closed below and its mapping removed.\<close>

definition drop_target :: "'ft grate_env \<Rightarrow> 'ft fs_world \<Rightarrow> nat \<Rightarrow> nat \<Rightarrow> 'ft fs_world" where
  "drop_target E w cage newfd =
     (case translate_virtual_fd (ge_fd E) (fdt w) cage newfd of
        None \<Rightarrow> w
      | Some new_fd_entry \<Rightarrow>
          let w = close_under E w cage (underfd new_fd_entry)
          in (case close_virtualfd (ge_fd E) (fdt w) cage newfd of Some ft \<Rightarrow> w\<lparr>fdt := ft\<rparr> | None \<Rightarrow> w))"

definition install_dup :: "'ft grate_env \<Rightarrow> 'ft fs_world \<Rightarrow> nat \<Rightarrow> nat \<Rightarrow> nat \<Rightarrow> bool \<Rightarrow> nat \<Rightarrow> int \<times> 'ft fs_world" where
  "install_dup E w cage newfd new_underfd cloexec pinfo =
     (case get_specific_virtual_fd (ge_fd E) (fdt w) cage newfd 0 new_underfd cloexec pinfo of
        Some ft \<Rightarrow> (as_i32 (int newfd), w\<lparr>fdt := ft\<rparr>)
      | None \<Rightarrow> (- int (ge_specific_errno E (fdt w) cage newfd), close_under E w cage new_underfd))"

definition ns_dup_handler :: "'ft fs_handler" where
  "ns_dup_handler E w a g =
     (case translate_virtual_fd (ge_fd E) (fdt w) (g ! 0) (a ! 0) of
        None \<Rightarrow> (-9, w)
      | Some old_fd_entry \<Rightarrow>
          let (ret, w) = dup_under E w (g ! 0) old_fd_entry in
          if ret < 0 then (ret, w)
          else (case get_unused_virtual_fd (ge_fd E) (fdt w) (g ! 0) 0 (as_u64 ret) False (perfdinfo old_fd_entry) of
                  Some (new_virtual_fd, ft) \<Rightarrow> (as_i32 (int new_virtual_fd), w\<lparr>fdt := ft\<rparr>)
                | None \<Rightarrow> (- int (ge_unused_errno E (fdt w) (g ! 0)), close_under E w (g ! 0) (as_u64 ret))))"

definition ns_dup2_handler :: "'ft fs_handler" where
  "ns_dup2_handler E w a g =
     (case translate_virtual_fd (ge_fd E) (fdt w) (g ! 0) (a ! 0) of
        None \<Rightarrow> (-9, w)
      | Some old_fd_entry \<Rightarrow>
          if a ! 0 = a ! 1 then (as_i32 (int (a ! 1)), w)
          else let w = drop_target E w (g ! 0) (a ! 1);
                   (ret, w) = dup_under E w (g ! 0) old_fd_entry
               in if ret < 0 then (ret, w)
                  else install_dup E w (g ! 0) (a ! 1) (as_u64 ret) False (perfdinfo old_fd_entry))"

definition ns_dup3_handler :: "'ft fs_handler" where
  "ns_dup3_handler E w a g =
     (case translate_virtual_fd (ge_fd E) (fdt w) (g ! 0) (a ! 0) of
        None \<Rightarrow> (-9, w)
      | Some old_fd_entry \<Rightarrow>
          if a ! 0 = a ! 1 then (-22, w)
          else if unset_bit 19 (a ! 2) \<noteq> 0 then (-22, w)
          else let cloexec = (a ! 2 AND CLAMP_O_CLOEXEC \<noteq> 0);
                   w = drop_target E w (g ! 0) (a ! 1);
                   (ret, w) = dup_under E w (g ! 0) old_fd_entry
               in if ret < 0 then (ret, w)
                  else if cloexec then
                    (let (fcntl_ret, w) = do_syscall E w (g ! 0) SYS_FCNTL [as_u64 ret, F_SETFD, FD_CLOEXEC, 0, 0, 0]
                                            [g ! 0, g ! 0, g ! 0, g ! 0, g ! 0, g ! 0]
                     in if fcntl_ret < 0 then (fcntl_ret, close_under E w (g ! 0) (as_u64 ret))
                        else install_dup E w (g ! 0) (a ! 1) (as_u64 ret) cloexec (perfdinfo old_fd_entry))
                  else install_dup E w (g ! 0) (a ! 1) (as_u64 ret) cloexec (perfdinfo old_fd_entry))"

section \<open>Fork and working directory\<close>

definition ns_clone_handler :: "'ft fs_handler" where
  "ns_clone_handler E w a g =
     (let nr = (case get_route (ns w) (g ! 0) SYS_CLONE of Some alt \<Rightarrow> alt | None \<Rightarrow> SYS_CLONE);
          is_thread = is_thread_clone E w (a ! 0) (g ! 0);
          (ret, w) = do_syscall E w (g ! 0) nr a g
      in if ret \<le> 0 then (ret, w)
         else if \<not> is_thread then
           (ret, w\<lparr>ns := clone_cage_cwd (clone_cage_routes (ns w) (g ! 0) (as_u64 ret)) (g ! 0) (as_u64 ret)\<rparr>)
         else (ret, w))"

definition ns_getcwd_handler :: "'ft fs_handler" where
  "ns_getcwd_handler E w a g =
     (let buf = as_bytes (clamp_get_cwd (ns w) (g ! 1)) @ [0];
          w' = log_event (CopyOut (g ! 0) (a ! 0) buf) w
      in if ge_copyout E (hist w) (g ! 0) (a ! 0) buf then (as_i32 (int (g ! 0)), w') else (-14, w'))"

section \<open>Handler look-up\<close>

definition get_ns_handler :: "nat \<Rightarrow> 'ft fs_handler option" where
  "get_ns_handler nr =
     (if nr = SYS_OPEN then Some ns_open_handler
      else if nr = SYS_OPENAT then Some ns_openat_handler
      else if nr = SYS_GETCWD then Some ns_getcwd_handler
      else if nr = SYS_LINKAT_NR then Some ns_linkat_handler
      else if nr = SYS_CHDIR then Some ns_chdir_handler
      else if nr = SYS_SYMLINK then Some ns_symlink_handler
      else if nr = SYS_SYMLINKAT then Some ns_symlinkat_handler
      else if nr = SYS_UNLINKAT then Some ns_unlinkat_handler
      else if nr = SYS_READLINKAT then Some ns_readlinkat_handler
      else if nr = SYS_CLOSE then Some ns_close_handler
      else if nr = SYS_NEWFSTATAT then Some ns_fstatat_handler
      else if nr = SYS_STATX then Some ns_statx_handler
      else if nr = SYS_FACCESSAT then Some ns_faccessat_handler
      else if nr = SYS_FCNTL then Some ns_fcntl_handler
      else if nr = SYS_FCHMODAT then Some ns_fchmodat_handler
      else if nr = SYS_FCHOWNAT then Some ns_fchownat_handler
      else if nr = SYS_UTIMENSAT then Some ns_utimensat_handler
      else if nr = SYS_MMAP then Some ns_mmap_handler
      else if nr = SYS_MUNMAP then Some ns_munmap_handler
      else if nr = SYS_DUP then Some ns_dup_handler
      else if nr = SYS_DUP2 then Some ns_dup2_handler
      else if nr = SYS_DUP3 then Some ns_dup3_handler
      else if nr = SYS_CLONE then Some ns_clone_handler
      else if nr \<in> set path_routed then Some (define_path_handler nr)
      else if nr \<in> set fd_routed then Some (fd_route_handler nr)
      else None)"

section \<open>Lifecycle\<close>

text \<open>
  The registration call carries the target cage and the call number in its first argument and its
  cage, the grate in the cage of the second and the handler in the third.
\<close>

definition register_handler_handler :: "'ft fs_handler" where
  "register_handler_handler E w a g =
     (let target_cage = a ! 0; syscall_nr = g ! 0; grate_id = g ! 1; handler_fn_ptr = a ! 2;
          w = w\<lparr>ns := push_interposition_request (ns w) (target_cage, syscall_nr, grate_id, handler_fn_ptr)\<rparr>
      in do_syscall E w grate_id SYS_REGISTER_HANDLER [target_cage, 0, handler_fn_ptr, 0, 0, 0]
           [syscall_nr, grate_id, g ! 2, g ! 3, g ! 4, g ! 5])"

text \<open>
  The loop over the calls; \<open>unwrap\<close> of a missing handler panics (\<open>None\<close>).  The result is the early
  return, if there was one.
\<close>

fun register_target_loop ::
  "'ft grate_env \<Rightarrow> 'ft fs_world \<Rightarrow> nat \<Rightarrow> nat list \<Rightarrow> (int option \<times> 'ft fs_world) option" where
  "register_target_loop E w target_cage [] = Some (None, w)"
| "register_target_loop E w target_cage (fs_syscall # rest) =
     (let (early, w) =
        (case get_interposition_request (ns w) target_cage fs_syscall of
           None \<Rightarrow> (None, w)
         | Some (grate_id, handler_fn) \<Rightarrow>
             let (alt_nr, s) = alloc_alt_syscall (ns w);
                 (ret, w) = do_syscall E (w\<lparr>ns := s\<rparr>) grate_id SYS_REGISTER_HANDLER [ge_cage E, 0, handler_fn, 0, 0, 0]
                              [alt_nr, grate_id, 0, 0, 0, 0]
             in if ret \<noteq> 0 then (Some ret, w) else (None, w\<lparr>ns := set_route (ns w) target_cage fs_syscall alt_nr\<rparr>))
      in (case early of
            Some ret \<Rightarrow> Some (Some ret, w)
          | None \<Rightarrow>
              (case (get_ns_handler fs_syscall :: 'ft fs_handler option) of
                 None \<Rightarrow> None
               | Some _ \<Rightarrow>
                   (case register_handler E w target_cage fs_syscall (ge_cage E) of
                      (Inr _, w) \<Rightarrow> register_target_loop E w target_cage rest
                    | (Inl _, w) \<Rightarrow> Some (Some (-1), w)))))"

text \<open>\<open>fd_table\<close> stands for the call numbers of \<open>FD_HANDLER_TABLE\<close>.\<close>

definition register_target_handlers ::
  "nat list \<Rightarrow> 'ft grate_env \<Rightarrow> 'ft fs_world \<Rightarrow> nat \<Rightarrow> (int \<times> 'ft fs_world) option" where
  "register_target_handlers fd_table E w target_cage =
     (case register_target_loop E w target_cage FS_CALLS of
        None \<Rightarrow> None
      | Some (Some ret, w) \<Rightarrow> Some (ret, w)
      | Some (None, w) \<Rightarrow>
          (case register_default_fd_handlers_except E w target_cage (ge_cage E) (Some FS_CALLS) fd_table of
             (Inr _, w) \<Rightarrow> Some (0, w)
           | (Inl _, w) \<Rightarrow> Some (-1, w)))"

text \<open>An unreadable path panics (\<open>None\<close>).\<close>

definition exec_handler ::
  "nat list \<Rightarrow> 'ft grate_env \<Rightarrow> 'ft fs_world \<Rightarrow> nat list \<Rightarrow> nat list \<Rightarrow> (int \<times> 'ft fs_world) option" where
  "exec_handler fd_table E w a g =
     (case clamp_read_path E w (a ! 0) (g ! 0) of
        None \<Rightarrow> None
      | Some path \<Rightarrow>
          if path = ''%{'' then
            Some (do_syscall E (w\<lparr>ns := enter_nested_clamp (ns w)\<rparr>) (g ! 0) SYS_EXEC a g)
          else if path = ''%}'' then
            (if clamp_depth (ns w) > 1 then
               Some (do_syscall E (w\<lparr>ns := exit_nested_clamp (ns w)\<rparr>) (g ! 0) SYS_EXEC a g)
             else case register_target_handlers fd_table E w (g ! 0) of
                 None \<Rightarrow> None
               | Some (_, w) \<Rightarrow>
                   let w = w\<lparr>ns := exit_nested_clamp (deregister_clamped_cage (ns w) (g ! 0))\<rparr>;
                       argv1_addr = (a ! 1 + 8) mod 2 ^ 64
                   in (case ge_copymem E (hist w) (g ! 1) argv1_addr 8 of
                         None \<Rightarrow> Some (-2, w)
                       | Some real_ptr \<Rightarrow>
                           Some (do_syscall E w (g ! 1) SYS_EXEC [le_nat real_ptr, argv1_addr, a ! 2, a ! 3, a ! 4, a ! 5]
                             [g ! 1, g ! 1, g ! 2, g ! 3, g ! 4, g ! 5])))
          else
            let w = (if clamp_depth (ns w) = 1 then w\<lparr>ns := set_clamp_entry (ns w) (g ! 0)\<rparr> else w)
            in Some (do_syscall E w (g ! 0) SYS_EXEC a g))"

definition clamp_fork_handler :: "'ft fs_handler" where
  "clamp_fork_handler E w a g =
     (let is_thread = is_thread_clone E w (a ! 0) (g ! 0);
          (ret, w) = do_syscall E w (g ! 0) SYS_CLONE a g;
          child_cage_id = as_u64 ret;
          w = (if \<not> is_thread then
                 let w = (case copy_fdtable_for_cage (ge_fd E) (fdt w) (g ! 0) child_cage_id of
                            Some ft \<Rightarrow> w\<lparr>fdt := ft\<rparr> | None \<Rightarrow> w);
                     w = (if is_cage_clamped (ns w) (g ! 0) then w\<lparr>ns := clone_cage_routes (ns w) (g ! 0) child_cage_id\<rparr> else w)
                 in w\<lparr>ns := clone_cage_cwd (ns w) (g ! 0) child_cage_id\<rparr>
               else w)
      in (as_i32 (int child_cage_id), w))"

definition exit_handler :: "'ft fs_handler" where
  "exit_handler E w a g =
     (let w = w\<lparr>ns := remove_cage_state (ns w) (g ! 0)\<rparr>;
          w = w\<lparr>fdt := remove_cage_from_fdtable (ge_fd E) (fdt w) (g ! 0)\<rparr>
      in do_syscall E w (g ! 0) SYS_EXIT_GROUP a g)"

fun register_lifecycle_loop :: "'ft grate_env \<Rightarrow> 'ft fs_world \<Rightarrow> nat \<Rightarrow> nat list \<Rightarrow> 'ft fs_world" where
  "register_lifecycle_loop E w cage_id [] = w"
| "register_lifecycle_loop E w cage_id (nr # nrs) =
     register_lifecycle_loop E (snd (register_handler E w cage_id nr (ns_cage_id (ns w)))) cage_id nrs"

definition register_lifecycle_handlers :: "'ft grate_env \<Rightarrow> 'ft fs_world \<Rightarrow> nat \<Rightarrow> 'ft fs_world" where
  "register_lifecycle_handlers E w cage_id =
     register_lifecycle_loop E w cage_id [SYS_EXEC, SYS_CLONE, SYS_EXIT_GROUP, SYS_REGISTER_HANDLER]"

section \<open>Start-up\<close>

record namespace_config =
  nc_prefix :: string
  exec_chain :: "string list"
  log_enabled :: bool

text \<open>The options before \<open>%{\<close>: the prefix, the logging flag, and the arguments that are left.\<close>

fun parse_options :: "string list \<Rightarrow> string option \<Rightarrow> bool \<Rightarrow> string + string option \<times> bool \<times> string list" where
  "parse_options [] prefix lg = Inr (prefix, lg, [])"
| "parse_options (x # args) prefix lg =
     (if x = ''--prefix'' then
        (case args of
           [] \<Rightarrow> Inl ''--prefix requires an argument''
         | p # args \<Rightarrow> parse_options args (Some p) lg)
      else if x = ''--log'' then parse_options args prefix True
      else if x = ''%{'' then Inr (prefix, lg, args)
      else (case strip_prefix x ''--prefix='' of
              Some val \<Rightarrow> parse_options args (Some val) lg
            | None \<Rightarrow> Inl (''unexpected argument: '' @ x)))"

definition parse_argv :: "string list \<Rightarrow> string + namespace_config" where
  "parse_argv args =
     (case parse_options args None False of
        Inl e \<Rightarrow> Inl e
      | Inr (prefix, lg, rest) \<Rightarrow>
          (case prefix of
             None \<Rightarrow> Inl ''--prefix is required''
           | Some prefix \<Rightarrow>
               if rest = [] then Inl ''missing %{ ... %} block''
               else if ''%}'' \<notin> set rest then Inl ''missing %} in command line''
               else Inr \<lparr>nc_prefix = prefix, exec_chain = rest, log_enabled = lg\<rparr>))"

text \<open>The parent's part of \<open>main\<close> after the fork of the first cage.\<close>

definition install_stdio :: "'ft grate_env \<Rightarrow> nat \<Rightarrow> 'ft \<Rightarrow> nat \<Rightarrow> 'ft" where
  "install_stdio E cage ft fd =
     (case get_specific_virtual_fd (ge_fd E) ft cage fd 0 fd False 0 of Some ft \<Rightarrow> ft | None \<Rightarrow> ft)"

definition clamp_setup :: "'ft grate_env \<Rightarrow> 'ft fs_world \<Rightarrow> nat \<Rightarrow> 'ft fs_world" where
  "clamp_setup E w child_cage_id =
     (let ft = init_empty_cage (ge_fd E) (fdt w) child_cage_id;
          ft = foldl (install_stdio E child_cage_id) ft [0, 1, 2];
          w = w\<lparr>fdt := ft, ns := register_clamped_cage (ns w) child_cage_id\<rparr>
      in register_lifecycle_handlers E w child_cage_id)"

text \<open>The globals as \<open>init_globals\<close> leaves them, and the state in which the first cage starts.\<close>

definition fs_globals :: "'ft grate_env \<Rightarrow> 'ft \<Rightarrow> string \<Rightarrow> 'ft fs_world" where
  "fs_globals E ft prefix = \<lparr>fdt = ft, hist = [], ns = ns_new (ge_cage E) prefix, clamped_mmaps = Map.empty\<rparr>"

definition clamp_start :: "'ft grate_env \<Rightarrow> 'ft \<Rightarrow> namespace_config \<Rightarrow> nat \<Rightarrow> 'ft fs_world" where
  "clamp_start E ft config child_cage_id = clamp_setup E (fs_globals E ft (nc_prefix config)) child_cage_id"

end
