(* ===== verification/Clamp_Routes.thy ===== *)
theory Clamp_Routes
  imports Prelude
begin

text \<open>
  The interface of a route table: both routing clamps keep, for a cage and a call number, the
  alternative number the clamped grate's handler is registered under.  A forked cage takes over
  its parent's routes and an exiting cage loses its own.
\<close>

locale route_table =
  fixes get :: "'s \<Rightarrow> nat \<Rightarrow> nat \<Rightarrow> nat option"
    and put :: "'s \<Rightarrow> nat \<Rightarrow> nat \<Rightarrow> nat \<Rightarrow> 's"
    and clone :: "'s \<Rightarrow> nat \<Rightarrow> nat \<Rightarrow> 's"
    and drop_cage :: "'s \<Rightarrow> nat \<Rightarrow> 's"
  assumes get_put: "get (put s c nr alt) c' nr' = (if c' = c \<and> nr' = nr then Some alt else get s c' nr')"
    and get_clone: "get (clone s parent child) c nr =
      (if c = child \<and> get s parent nr \<noteq> None then get s parent nr else get s c nr)"
    and get_drop: "get (drop_cage s c) c' nr = (if c' = c then None else get s c' nr)"
begin

text \<open>An alternative number stands for one call, whatever the cage, and lies below the bound.\<close>

definition one_call :: "'s \<Rightarrow> nat \<Rightarrow> bool" where
  "one_call s n \<longleftrightarrow>
     (\<forall>c nr alt. get s c nr = Some alt \<longrightarrow> alt < n \<and> (\<forall>c' nr'. get s c' nr' = Some alt \<longrightarrow> nr' = nr))"

lemma one_callD: "one_call s n \<Longrightarrow> get s c nr = Some alt \<Longrightarrow> alt < n"
  unfolding one_call_def by blast

lemma one_call_same:
  "one_call s n \<Longrightarrow> get s c nr = Some alt \<Longrightarrow> get s c' nr' = Some alt \<Longrightarrow> nr' = nr"
  unfolding one_call_def by blast

lemma one_call_cong: "(\<And>c nr. get s' c nr = get s c nr) \<Longrightarrow> one_call s' n = one_call s n"
  unfolding one_call_def by simp

lemma one_call_empty: "(\<And>c nr. get s c nr = None) \<Longrightarrow> one_call s n"
  unfolding one_call_def by simp

lemma one_call_mono: "one_call s n \<Longrightarrow> n \<le> m \<Longrightarrow> one_call s m"
  unfolding one_call_def by (meson order.strict_trans2)

lemma one_call_put:
  assumes "one_call s n"
  shows "one_call (put s c nr n) (Suc n)"
  unfolding one_call_def
proof (intro allI impI)
  fix c1 nr1 alt
  assume g: "get (put s c nr n) c1 nr1 = Some alt"
  show "alt < Suc n \<and> (\<forall>c' nr'. get (put s c nr n) c' nr' = Some alt \<longrightarrow> nr' = nr1)"
    using g one_callD [OF assms] one_call_same [OF assms]
    by (fastforce simp: get_put less_Suc_eq split: if_splits)
qed

lemma one_call_clone: "one_call s n \<Longrightarrow> one_call (clone s parent child) n"
  unfolding one_call_def by (auto simp: get_clone split: if_splits)

lemma one_call_drop: "one_call s n \<Longrightarrow> one_call (drop_cage s c) n"
  unfolding one_call_def by (auto simp: get_drop split: if_splits)

text \<open>A fork followed by the exit of the parent leaves the child's routes in place.\<close>

lemma routes_survive_parent:
  assumes "child \<noteq> parent"
  shows "get s parent nr \<noteq> None \<Longrightarrow> get (drop_cage (clone s parent child) parent) child nr = get s parent nr"
  using assms by (simp add: get_clone get_drop)

end

text \<open>
  A table whose alternative numbers come from a 64-bit counter that starts above the system calls.
  \<open>n\<close> bounds the number of allocations; below \<open>2 ^ 63\<close> of them the counter cannot have wrapped.
\<close>

locale route_allocator = route_table get put clone drop_cage
  for get :: "'s \<Rightarrow> nat \<Rightarrow> nat \<Rightarrow> nat option" and put clone drop_cage +
  fixes next_alt :: "'s \<Rightarrow> nat"
    and alloc :: "'s \<Rightarrow> nat \<times> 's"
    and base :: nat
  assumes base_small: "base \<le> 2 ^ 62"
    and next_put: "next_alt (put s c nr alt) = next_alt s"
    and next_clone: "next_alt (clone s parent child) = next_alt s"
    and next_drop: "next_alt (drop_cage s c) = next_alt s"
    and alloc_eq: "alloc s = (alt, s') \<Longrightarrow>
      alt = next_alt s \<and> next_alt s' = (next_alt s + 1) mod 2 ^ 64 \<and> get s' = get s"
begin

definition alts_ok :: "nat \<Rightarrow> 's \<Rightarrow> bool" where
  "alts_ok n s \<longleftrightarrow>
     (n < 2 ^ 63 \<longrightarrow> base \<le> next_alt s \<and> next_alt s \<le> base + n \<and> one_call s (next_alt s) \<and>
        (\<forall>c nr alt. get s c nr = Some alt \<longrightarrow> base \<le> alt))"

lemma alts_ok_mono: "alts_ok n s \<Longrightarrow> n \<le> m \<Longrightarrow> alts_ok m s"
  unfolding alts_ok_def by (auto dest: order.strict_trans1)

lemma alts_ok_cong: "alts_ok n s \<Longrightarrow> get s' = get s \<Longrightarrow> next_alt s' = next_alt s \<Longrightarrow> alts_ok n s'"
  unfolding alts_ok_def using one_call_cong [of s' s] by simp

lemma alts_ok_init: "(\<And>c nr. get s c nr = None) \<Longrightarrow> next_alt s = base \<Longrightarrow> alts_ok n s"
  unfolding alts_ok_def by (simp add: one_call_empty)

lemma alts_ok_clone: "alts_ok n s \<Longrightarrow> alts_ok n (clone s parent child)"
  unfolding alts_ok_def using one_call_clone by (auto simp: next_clone get_clone split: if_splits)

lemma alts_ok_drop: "alts_ok n s \<Longrightarrow> alts_ok n (drop_cage s c)"
  unfolding alts_ok_def using one_call_drop by (auto simp: next_drop get_drop split: if_splits)

lemma alts_ok_alloc:
  assumes "alts_ok n s" "alloc s = (alt, s')"
  shows "alts_ok (Suc n) s'" and "alts_ok (Suc n) (put s' c nr alt)"
proof -
  have s': "alt = next_alt s" "next_alt s' = (next_alt s + 1) mod 2 ^ 64" "get s' = get s"
    using alloc_eq [OF assms(2)] by simp_all
  have A: "next_alt s' = Suc alt" "base \<le> alt" "alt \<le> base + n" "one_call s' alt"
    "\<forall>c nr x. get s' c nr = Some x \<longrightarrow> base \<le> x" if "Suc n < 2 ^ 63"
  proof -
    from assms(1) that show r: "base \<le> alt" "alt \<le> base + n" "one_call s' alt"
      "\<forall>c nr x. get s' c nr = Some x \<longrightarrow> base \<le> x"
      using one_call_cong [of s' s] unfolding alts_ok_def s'(1,3) by auto
    have "alt + 1 < 2 ^ 64" using r(2) that base_small by simp
    then show "next_alt s' = Suc alt" by (simp add: s')
  qed
  then show "alts_ok (Suc n) s'" unfolding alts_ok_def by (auto intro: one_call_mono)
  show "alts_ok (Suc n) (put s' c nr alt)"
    using A one_call_put [of s' alt] unfolding alts_ok_def by (auto simp: next_put get_put split: if_splits)
qed

lemma alts_okD:
  assumes "alts_ok n s" "n < 2 ^ 63" "get s c nr = Some alt"
  shows "base \<le> alt" and "alt < next_alt s" and "get s c' nr' = Some alt \<Longrightarrow> nr' = nr"
  using assms unfolding alts_ok_def one_call_def by blast+

end

end
