(* ===== verification/Clamp_Fs_Props.thy ===== *)
theory Clamp_Fs_Props
  imports Clamp_Fs_Handlers Clamp_Routes
begin

unbundle bit_operations_syntax

text \<open>
  Correctness of fs-routing-clamp: the route table meets its interface, clamped mappings are
  tracked exactly, a state invariant holds in every reachable state, calls on a descriptor go to
  the side it was opened on, and the nesting of clamp markers is counted correctly.
\<close>

section \<open>The route table\<close>

interpretation fs_routes: route_allocator get_route set_route clone_cage_routes remove_cage_state alt_allocator alloc_alt_syscall 3000
proof unfold_locales
  fix s c nr alt c' nr'
  show "get_route (set_route s c nr alt) c' nr' = (if c' = c \<and> nr' = nr then Some alt else get_route s c' nr')"
    by (simp add: get_route_def set_route_def Let_def split: option.split)
next
  fix s parent child c nr
  show "get_route (clone_cage_routes s parent child) c nr =
      (if c = child \<and> get_route s parent nr \<noteq> None then get_route s parent nr else get_route s c nr)"
    by (auto simp: get_route_def clone_cage_routes_def split: option.splits)
next
  fix s c c' nr
  show "get_route (remove_cage_state s c) c' nr = (if c' = c then None else get_route s c' nr)"
    by (simp add: get_route_def remove_cage_state_def split: option.split)
next
  fix s s' :: ns_clamp_state and c nr alt parent child
  show "(3000 :: nat) \<le> 2 ^ 62" by simp
  show "alt_allocator (set_route s c nr alt) = alt_allocator s" by (simp add: set_route_def Let_def)
  show "alt_allocator (clone_cage_routes s parent child) = alt_allocator s" by (simp add: clone_cage_routes_def split: option.split)
  show "alt_allocator (remove_cage_state s c) = alt_allocator s" by (simp add: remove_cage_state_def)
  show "alt = alt_allocator s \<and> alt_allocator s' = (alt_allocator s + 1) mod 2 ^ 64 \<and> get_route s' = get_route s"
    if "alloc_alt_syscall s = (alt, s')"
    using that by (auto simp: alloc_alt_syscall_def get_route_def fun_eq_iff)
qed

section \<open>Clamped mappings\<close>

text \<open>The addresses recorded for a cage, and well-formed tables: every range is nonempty.\<close>

definition span :: "(nat \<times> nat) list \<Rightarrow> nat set" where
  "span rs = (\<Union>(s, e) \<in> set rs. {s..<e})"

definition mapped :: "(nat \<rightharpoonup> (nat \<times> nat) list) \<Rightarrow> nat \<Rightarrow> nat set" where
  "mapped maps c = (case maps c of None \<Rightarrow> {} | Some rs \<Rightarrow> span rs)"

definition ranges_ok :: "(nat \<rightharpoonup> (nat \<times> nat) list) \<Rightarrow> bool" where
  "ranges_ok maps \<longleftrightarrow> (\<forall>c rs. maps c = Some rs \<longrightarrow> list_all (\<lambda>(s, e). s < e) rs)"

datatype mmap_op = MapAt nat nat nat | UnmapAt nat nat nat

fun mmap_apply :: "(nat \<rightharpoonup> (nat \<times> nat) list) \<Rightarrow> mmap_op \<Rightarrow> (nat \<rightharpoonup> (nat \<times> nat) list)" where
  "mmap_apply maps (MapAt c a n) = record_clamped_mmap maps c a n"
| "mmap_apply maps (UnmapAt c a n) = remove_clamped_mmap maps c a n"

text \<open>The specification on sets: an address range that leaves the 64-bit space is ignored.\<close>

definition addr_range :: "nat \<Rightarrow> nat \<Rightarrow> nat set" where
  "addr_range a n = (if a + n < 2 ^ 64 then {a..<a + n} else {})"

fun mmap_spec :: "nat \<Rightarrow> nat set \<Rightarrow> mmap_op \<Rightarrow> nat set" where
  "mmap_spec c A (MapAt c' a n) = (if c' = c then A \<union> addr_range a n else A)"
| "mmap_spec c A (UnmapAt c' a n) = (if c' = c then A - addr_range a n else A)"

lemma span_simps [simp]:
  "span [] = {}" "span ((s, e) # rs) = {s..<e} \<union> span rs" "span (rs @ rs') = span rs \<union> span rs'"
  by (auto simp: span_def)

lemma record_mapped:
  "mapped (record_clamped_mmap maps c a n) c' = (if c' = c then mapped maps c \<union> addr_range a n else mapped maps c')"
  by (simp add: mapped_def record_clamped_mmap_def addr_range_def checked_add_def split: option.split)

lemma split_ranges_span:
  "list_all (\<lambda>(s, e). s < e) rs \<Longrightarrow> a \<le> b \<Longrightarrow> span (concat (map (split_range a b) rs)) = span rs - {a..<b}"
proof (induction rs)
  case (Cons r rs)
  obtain s e where r: "r = (s, e)" by (cases r)
  have "span (split_range a b (s, e)) = {s..<e} - {a..<b}"
    using Cons.prems by (auto simp: split_range_def r)
  then show ?case using Cons by (simp add: r Un_Diff)
qed simp

lemma split_ranges_ok:
  "list_all (\<lambda>(s, e). s < e) rs \<Longrightarrow> list_all (\<lambda>(s, e). s < e) (concat (map (split_range a b) rs))"
  by (induction rs) (auto simp: split_range_def split: if_splits)

lemma remove_clamped_eq:
  assumes "n \<noteq> 0" "a + n < 2 ^ 64" "maps c = Some rs"
  shows "remove_clamped_mmap maps c a n =
    maps(c := (let rs' = concat (map (split_range a (a + n)) rs) in if rs' = [] then None else Some rs'))"
  using assms by (simp add: remove_clamped_mmap_def checked_add_def Let_def)

lemma remove_clamped_skip:
  "n = 0 \<or> \<not> a + n < 2 ^ 64 \<or> maps c = None \<Longrightarrow> remove_clamped_mmap maps c a n = maps"
  by (auto simp: remove_clamped_mmap_def checked_add_def)

lemma mapped_upd: "mapped (maps(c := x)) c' = (if c' = c then (case x of None \<Rightarrow> {} | Some rs \<Rightarrow> span rs) else mapped maps c')"
  by (simp add: mapped_def)

lemma remove_mapped:
  assumes "ranges_ok maps"
  shows "mapped (remove_clamped_mmap maps c a n) c' =
    (if c' = c then mapped maps c - addr_range a n else mapped maps c')"
proof (cases "n = 0 \<or> \<not> a + n < 2 ^ 64 \<or> maps c = None")
  case True
  then have "mapped maps c - addr_range a n = mapped maps c" by (auto simp: mapped_def addr_range_def)
  with True show ?thesis by (simp add: remove_clamped_skip)
next
  case False
  then obtain rs where rs: "maps c = Some rs" and n: "n \<noteq> 0" "a + n < 2 ^ 64" by auto
  let ?rs = "concat (map (split_range a (a + n)) rs)"
  have "list_all (\<lambda>(s, e). s < e) rs" using assms rs unfolding ranges_ok_def by blast
  then have sp: "span ?rs = mapped maps c - addr_range a n"
    using n by (simp add: split_ranges_span rs mapped_def addr_range_def)
  moreover have "(case let rs' = xs in if rs' = [] then None else Some rs' of None \<Rightarrow> {} | Some rs \<Rightarrow> span rs) = span xs" for xs
    by simp
  ultimately show ?thesis by (simp only: remove_clamped_eq [of n a maps, OF n rs] mapped_upd)
qed

lemma ranges_ok_record: "ranges_ok maps \<Longrightarrow> ranges_ok (record_clamped_mmap maps c a n)"
  by (auto simp: ranges_ok_def record_clamped_mmap_def checked_add_def split: option.splits)

lemma ranges_ok_remove:
  assumes "ranges_ok maps"
  shows "ranges_ok (remove_clamped_mmap maps c a n)"
proof (cases "n = 0 \<or> \<not> a + n < 2 ^ 64 \<or> maps c = None")
  case True
  then show ?thesis using assms by (simp add: remove_clamped_skip)
next
  case False
  then obtain rs where rs: "maps c = Some rs" and n: "n \<noteq> 0" "a + n < 2 ^ 64" by auto
  have "list_all (\<lambda>(s, e). s < e) rs" using assms rs unfolding ranges_ok_def by blast
  from split_ranges_ok [OF this, of a "a + n"] assms show ?thesis
    unfolding remove_clamped_eq [of n a maps, OF n rs] ranges_ok_def Let_def
    by (auto simp del: concat_eq_Nil_conv split: if_splits)
qed

lemma overlap_iff:
  "list_all (\<lambda>(s, e). s < e) rs \<Longrightarrow> a < b \<Longrightarrow>
   list_ex (\<lambda>(s, e). a < e \<and> b > s) rs \<longleftrightarrow> span rs \<inter> {a..<b} \<noteq> {}"
proof (induction rs)
  case (Cons r rs)
  obtain s e where r: "r = (s, e)" by (cases r)
  have "a < e \<and> b > s \<longleftrightarrow> {s..<e} \<inter> {a..<b} \<noteq> {}" using Cons.prems by (auto simp: r)
  then show ?case using Cons by (simp add: r Int_Un_distrib2)
qed simp

lemma is_clamped_iff:
  assumes "ranges_ok maps"
  shows "is_clamped_mmap maps c a n \<longleftrightarrow> mapped maps c \<inter> addr_range a n \<noteq> {}"
proof (cases "n = 0 \<or> \<not> a + n < 2 ^ 64 \<or> maps c = None")
  case True
  then show ?thesis by (auto simp: is_clamped_mmap_def mapped_def checked_add_def addr_range_def)
next
  case False
  then obtain rs where rs: "maps c = Some rs" and n: "n \<noteq> 0" "a + n < 2 ^ 64" by auto
  then have "list_all (\<lambda>(s, e). s < e) rs" using assms unfolding ranges_ok_def by blast
  then show ?thesis using overlap_iff [of rs a "a + n"] rs n
    by (simp add: is_clamped_mmap_def mapped_def checked_add_def addr_range_def)
qed

lemma mmap_run:
  "ranges_ok maps \<Longrightarrow> ranges_ok (foldl mmap_apply maps ops) \<and>
   mapped (foldl mmap_apply maps ops) c = foldl (mmap_spec c) (mapped maps c) ops"
proof (induction ops arbitrary: maps)
  case (Cons x ops)
  have "ranges_ok (mmap_apply maps x)" using Cons.prems ranges_ok_record ranges_ok_remove by (cases x) auto
  moreover have "mapped (mmap_apply maps x) c = mmap_spec c (mapped maps c) x"
    using Cons.prems by (cases x) (auto simp: record_mapped remove_mapped)
  ultimately show ?case using Cons.IH by simp
qed simp

text \<open>C30. Over every sequence of recorded mappings and unmappings the grate knows exactly which addresses
  belong to clamped mappings: the ranges it keeps denote the set obtained by adding and subtracting
  the address ranges (a range that does not fit in 64 bits is ignored), and the test it makes before
  routing an \<open>munmap\<close> is whether the given range meets that set.\<close>

theorem clamped_mmaps_track:
  "mapped (foldl mmap_apply Map.empty ops) c = foldl (mmap_spec c) {} ops \<and>
   is_clamped_mmap (foldl mmap_apply Map.empty ops) c a n = (foldl (mmap_spec c) {} ops \<inter> addr_range a n \<noteq> {})"
proof -
  have "ranges_ok Map.empty" "mapped Map.empty c = {}" by (simp_all add: ranges_ok_def mapped_def)
  then show ?thesis using mmap_run [of Map.empty ops c] is_clamped_iff by simp
qed

section \<open>The state invariant\<close>

text \<open>
  The invariant of the clamp state for a history of length \<open>n\<close>: working directories are canonical,
  the prefix is set, and, as long as the 64-bit allocator cannot have wrapped, every alternative
  number was handed out by it and stands for one call.
\<close>

definition ns_inv :: "nat \<Rightarrow> ns_clamp_state \<Rightarrow> bool" where
  "ns_inv n s \<longleftrightarrow>
     (\<forall>m c d. cwd_by_cage s = Some m \<longrightarrow> m c = Some d \<longrightarrow> canonical d) \<and> routing_prefix s \<noteq> None \<and>
     fs_routes.alts_ok n s"

definition fs_inv :: "'ft grate_env \<Rightarrow> 'ft fs_world \<Rightarrow> bool" where
  "fs_inv E w \<longleftrightarrow> ns_inv (length (hist w)) (ns w) \<and> ranges_ok (clamped_mmaps w) \<and> fd_flags E (fdt w)"

lemma ns_inv_mono: "ns_inv n s \<Longrightarrow> n \<le> m \<Longrightarrow> ns_inv m s"
  unfolding ns_inv_def using fs_routes.alts_ok_mono by blast

lemma ns_inv_routes_cong:
  assumes "ns_inv n s" "routes s' = routes s" "alt_allocator s' = alt_allocator s" "routing_prefix s' = routing_prefix s"
    and "\<And>m c d. cwd_by_cage s' = Some m \<Longrightarrow> m c = Some d \<Longrightarrow> canonical d"
  shows "ns_inv n s'"
proof -
  have "get_route s' = get_route s" using assms(2) by (simp add: get_route_def fun_eq_iff)
  then show ?thesis using assms fs_routes.alts_ok_cong [of n s s'] by (simp add: ns_inv_def)
qed

lemma ns_inv_cwd: "ns_inv n s \<Longrightarrow> cwd_by_cage s = Some m \<Longrightarrow> m c = Some d \<Longrightarrow> canonical d"
  unfolding ns_inv_def by blast

lemma clamp_normalize_canonical [simp]: "canonical (clamp_normalize p)"
  by (rule clamp_paths.norm_canonical) simp

lemma ns_inv_set_cwd: "ns_inv n s \<Longrightarrow> ns_inv n (clamp_set_cwd s c d)"
  by (rule ns_inv_routes_cong, assumption)
    (auto simp: clamp_set_cwd_def Let_def dest: ns_inv_cwd split: option.splits if_splits)

lemma ns_inv_markers:
  assumes "ns_inv n s"
  shows "ns_inv n (set_clamp_entry s c)" "ns_inv n (enter_nested_clamp s)" "ns_inv n (exit_nested_clamp s)"
    "ns_inv n (deregister_clamped_cage s c)" "ns_inv n (push_interposition_request s q)" "ns_inv n (register_clamped_cage s c)"
  by (rule ns_inv_routes_cong [OF assms];
      auto simp: set_clamp_entry_def enter_nested_clamp_def exit_nested_clamp_def deregister_clamped_cage_def
        push_interposition_request_def register_clamped_cage_def Let_def canonical_root
        dest: ns_inv_cwd [OF assms] split: option.splits if_splits)+

lemma ns_inv_clone_cwd: "ns_inv n s \<Longrightarrow> ns_inv n (clone_cage_cwd s p c)"
  by (simp add: clone_cage_cwd_def ns_inv_set_cwd)

lemma ns_inv_clone_routes:
  assumes "ns_inv n s"
  shows "ns_inv n (clone_cage_routes s p c)"
proof -
  have "routing_prefix (clone_cage_routes s p c) = routing_prefix s" "cwd_by_cage (clone_cage_routes s p c) = cwd_by_cage s"
    by (simp_all add: clone_cage_routes_def split: option.split)
  then show ?thesis using assms fs_routes.alts_ok_clone by (simp add: ns_inv_def)
qed

lemma ns_inv_remove:
  assumes "ns_inv n s"
  shows "ns_inv n (remove_cage_state s c)"
proof -
  have "routing_prefix (remove_cage_state s c) = routing_prefix s"
    "cwd_by_cage (remove_cage_state s c) = map_option (\<lambda>m. m(c := None)) (cwd_by_cage s)"
    by (simp_all add: remove_cage_state_def)
  then show ?thesis using assms fs_routes.alts_ok_drop by (auto simp: ns_inv_def split: if_splits)
qed

text \<open>A fresh alternative number and its route; the registration call in between is one event.\<close>

lemma ns_inv_alloc:
  assumes "ns_inv n s" "alloc_alt_syscall s = (alt, s')"
  shows "ns_inv (Suc n) s'" and "ns_inv (Suc n) (set_route s' c nr alt)"
proof -
  have "cwd_by_cage s' = cwd_by_cage s" "routing_prefix s' = routing_prefix s"
    "cwd_by_cage (set_route s' c nr alt) = cwd_by_cage s" "routing_prefix (set_route s' c nr alt) = routing_prefix s"
    using assms(2) by (auto simp: alloc_alt_syscall_def set_route_def Let_def)
  then show "ns_inv (Suc n) s'" "ns_inv (Suc n) (set_route s' c nr alt)"
    using assms(1) fs_routes.alts_ok_alloc [of n s alt s', OF _ assms(2)] by (simp_all add: ns_inv_def)
qed

lemma ns_inv_new: "ns_inv n (ns_new c p)"
  by (simp add: ns_inv_def ns_new_def get_route_def fs_routes.alts_ok_init)

subsection \<open>Every handler keeps it\<close>

lemma fs_inv_log [simp]: "fs_inv E w \<Longrightarrow> fs_inv E (log_event e w)"
  by (auto simp: fs_inv_def log_event_def intro: ns_inv_mono)

lemma fs_inv_ns: "fs_inv E w \<Longrightarrow> ns_inv (length (hist w)) s \<Longrightarrow> fs_inv E (w\<lparr>ns := s\<rparr>)"
  by (simp add: fs_inv_def)

lemma fs_inv_fdt: "fs_inv E w \<Longrightarrow> fd_flags E ft \<Longrightarrow> fs_inv E (w\<lparr>fdt := ft\<rparr>)"
  by (simp add: fs_inv_def)

lemma fs_inv_mmaps: "fs_inv E w \<Longrightarrow> ranges_ok m \<Longrightarrow> fs_inv E (w\<lparr>clamped_mmaps := m\<rparr>)"
  by (simp add: fs_inv_def)

lemma fs_invD:
  assumes "fs_inv E w"
  shows "ns_inv (length (hist w)) (ns w)" "ranges_ok (clamped_mmaps w)" "fd_flags E (fdt w)"
  using assms by (simp_all add: fs_inv_def)

lemma log_event_ns [simp]: "ns (log_event e w) = ns w" "clamped_mmaps (log_event e w) = clamped_mmaps w"
  by (simp_all add: log_event_def)

lemma do_syscall_inv:
  assumes "fs_inv E w"
  shows "do_syscall E w c nr a g = (r, w') \<Longrightarrow> fs_inv E w' \<and> ns w' = ns w \<and> fdt w' = fdt w"
    and "do_clamp_syscall E w c nr a g = (r, w') \<Longrightarrow> fs_inv E w' \<and> ns w' = ns w \<and> fdt w' = fdt w"
    and "clamped_call E w c nr a g = (r, w') \<Longrightarrow> fs_inv E w' \<and> ns w' = ns w \<and> fdt w' = fdt w"
  using assms by (auto simp: do_syscall_def do_clamp_syscall_def clamped_call_def split: option.splits)

lemma close_under_inv:
  assumes "fs_inv E w"
  shows "fs_inv E (close_under E w c fd)" "ns (close_under E w c fd) = ns w" "fdt (close_under E w c fd) = fdt w"
  using assms by (simp_all add: close_under_def do_syscall_def)

lemma install_opened_inv:
  assumes "fdtables_ok (ge_fd E)" "fs_inv E w" "install_opened E w c ret b = (r, w')"
  shows "fs_inv E w'"
  using assms(2,3) fd_flags_ops(1) [OF assms(1) fs_invD(3) [OF assms(2)]]
  by (auto simp: install_opened_def close_under_inv intro: fs_inv_fdt split: option.splits if_splits)

lemma drop_target_inv:
  assumes "fdtables_ok (ge_fd E)" "fs_inv E w"
  shows "fs_inv E (drop_target E w c fd)"
  using assms(2) fd_flags_ops(4) [OF assms(1) fs_invD(3) [OF assms(2)]]
  by (auto simp: drop_target_def close_under_inv Let_def intro: fs_inv_fdt split: option.splits)

lemma install_dup_inv:
  assumes "fdtables_ok (ge_fd E)" "fs_inv E w" "install_dup E w c nfd u ce p = (r, w')" "p \<le> 1"
  shows "fs_inv E w'"
  using assms(2-4) fd_flags_ops(3) [OF assms(1) fs_invD(3) [OF assms(2)]]
  by (auto simp: install_dup_def close_under_inv intro: fs_inv_fdt split: option.splits)

lemma dup_under_inv:
  assumes "fs_inv E w" "dup_under E w c e = (r, w')"
  shows "fs_inv E w' \<and> fdt w' = fdt w"
  using assms by (auto simp: dup_under_def Let_def dest: do_syscall_inv split: if_splits)

text \<open>The handlers that only dispatch calls.\<close>

lemmas dispatch_defs = define_path_handler_def at_route_handler_def ns_symlink_handler_def ns_symlinkat_handler_def
  ns_readlinkat_handler_def ns_unlinkat_handler_def ns_faccessat_handler_def ns_statx_handler_def ns_fchmodat_handler_def
  ns_fchownat_handler_def ns_utimensat_handler_def ns_linkat_handler_def fd_route_handler_def ns_fstatat_handler_def

lemma path_handlers_inv:
  assumes "fs_inv E w"
  shows "define_path_handler nr E w a g = (r, w') \<Longrightarrow> fs_inv E w'"
    and "at_route_handler nr i j E w a g = (r, w') \<Longrightarrow> fs_inv E w'"
    and "ns_symlink_handler E w a g = (r, w') \<Longrightarrow> fs_inv E w'"
    and "ns_utimensat_handler E w a g = (r, w') \<Longrightarrow> fs_inv E w'"
    and "ns_linkat_handler E w a g = (r, w') \<Longrightarrow> fs_inv E w'"
    and "ns_fstatat_handler E w a g = (r, w') \<Longrightarrow> fs_inv E w'"
    and "fd_route_handler nr E w a g = (r, w') \<Longrightarrow> fs_inv E w'"
  using assms
  by (auto simp: dispatch_defs Let_def dest: do_syscall_inv split: option.splits sum.splits if_splits prod.splits)

text \<open>The handlers that change descriptor tables, mappings or the clamp state.\<close>

lemmas inv_splits = option.splits sum.splits if_splits prod.splits

lemma fs_open_inv:
  assumes "fdtables_ok (ge_fd E)" "fs_inv E w" "ns_open_handler E w a g = (r, w')"
  shows "fs_inv E w'"
  using assms(2,3) by (auto simp: ns_open_handler_def Let_def dest!: do_syscall_inv(1) [OF assms(2)]
      dest: install_opened_inv [OF assms(1)] split: inv_splits)

lemma fs_openat_inv:
  assumes "fdtables_ok (ge_fd E)" "fs_inv E w" "ns_openat_handler E w a g = (r, w')"
  shows "fs_inv E w'"
  using assms(2,3) by (auto simp: ns_openat_handler_def Let_def dest!: do_syscall_inv [OF assms(2)]
      dest: install_opened_inv [OF assms(1)] split: inv_splits)

lemma fs_close_inv:
  assumes "fdtables_ok (ge_fd E)" "fs_inv E w" "ns_close_handler E w a g = (r, w')"
  shows "fs_inv E w'"
  using assms(2,3) fd_flags_ops(4) [OF assms(1) fs_invD(3) [OF assms(2)]]
  by (auto simp: ns_close_handler_def Let_def dest!: do_syscall_inv [OF assms(2)] intro: fs_inv_fdt split: inv_splits)

lemma fs_dup_inv:
  assumes "fdtables_ok (ge_fd E)" "fs_inv E w" "ns_dup_handler E w a g = (r, w')"
  shows "fs_inv E w'"
  using assms(2,3) fd_flags_ops(1) [OF assms(1) fs_invD(3) [OF assms(2)]] fd_flagsD [OF fs_invD(3) [OF assms(2)]]
  by (auto simp: ns_dup_handler_def Let_def close_under_inv dest!: dup_under_inv [OF assms(2)] intro: fs_inv_fdt
      split: inv_splits)

lemma dup_target_inv:
  assumes "fdtables_ok (ge_fd E)" "fs_inv E w" "translate_virtual_fd (ge_fd E) (fdt w) c fd = Some e"
    and "dup_under E (drop_target E w c newfd) c e = (ret, w1)"
  shows "fs_inv E w1" and "install_dup E w1 c newfd u ce (perfdinfo e) = (r, w') \<Longrightarrow> fs_inv E w'"
    and "do_syscall E w1 c nr as gs = (ret', w2) \<Longrightarrow> install_dup E w2 c newfd u ce (perfdinfo e) = (r, w') \<Longrightarrow> fs_inv E w'"
proof -
  show w1: "fs_inv E w1" using dup_under_inv [OF drop_target_inv [OF assms(1,2)] assms(4)] by simp
  have p: "perfdinfo e \<le> 1" using fd_flagsD [OF fs_invD(3) [OF assms(2)] assms(3)] .
  show "fs_inv E w'" if "install_dup E w1 c newfd u ce (perfdinfo e) = (r, w')"
    by (rule install_dup_inv [OF assms(1) w1 that p])
  show "fs_inv E w'" if "do_syscall E w1 c nr as gs = (ret', w2)" "install_dup E w2 c newfd u ce (perfdinfo e) = (r, w')"
    by (rule install_dup_inv [OF assms(1) conjunct1 [OF do_syscall_inv(1) [OF w1 that(1)]] that(2) p])
qed

lemma fs_dup2_inv:
  assumes "fdtables_ok (ge_fd E)" "fs_inv E w" "ns_dup2_handler E w a g = (r, w')"
  shows "fs_inv E w'"
  using assms(2,3) by (auto simp: ns_dup2_handler_def Let_def dest: dup_target_inv [OF assms(1,2)] split: inv_splits)

lemma fs_dup3_inv:
  assumes "fdtables_ok (ge_fd E)" "fs_inv E w" "ns_dup3_handler E w a g = (r, w')"
  shows "fs_inv E w'"
  using assms(2,3) by (auto simp: ns_dup3_handler_def Let_def dest: dup_target_inv [OF assms(1,2)]
      intro!: close_under_inv(1) dest: do_syscall_inv(1) split: inv_splits)

lemma fs_fcntl_inv:
  assumes "fdtables_ok (ge_fd E)" "fs_inv E w" "ns_fcntl_handler E w a g = (r, w')"
  shows "fs_inv E w'"
  using assms(2,3) fd_flags_ops(2) [OF assms(1) fs_invD(3) [OF assms(2)]] fd_flagsD [OF fs_invD(3) [OF assms(2)]]
  by (auto simp: ns_fcntl_handler_def Let_def dest!: do_syscall_inv [OF assms(2)] intro: fs_inv_fdt split: inv_splits)

lemma mmap_handlers_inv:
  assumes "fs_inv E w"
  shows "ns_mmap_handler E w a g = (r, w') \<Longrightarrow> fs_inv E w'"
    and "ns_munmap_handler E w a g = (r, w') \<Longrightarrow> fs_inv E w'"
  using assms
  by (auto simp: ns_mmap_handler_def ns_munmap_handler_def Let_def dest!: do_syscall_inv [OF assms] split: inv_splits
      intro!: fs_inv_mmaps ranges_ok_record ranges_ok_remove dest: fs_invD(2))

lemma fs_chdir_inv:
  assumes "fs_inv E w" "ns_chdir_handler E w a g = (r, w')"
  shows "fs_inv E w'"
  using assms by (auto simp: ns_chdir_handler_def Let_def dest!: do_syscall_inv(1) [OF assms(1)] split: inv_splits
      intro!: fs_inv_ns ns_inv_set_cwd dest: fs_invD(1))

lemma fs_clone_inv:
  assumes "fs_inv E w" "ns_clone_handler E w a g = (r, w')"
  shows "fs_inv E w'"
  using assms by (auto simp: ns_clone_handler_def Let_def dest!: do_syscall_inv(1) [OF assms(1)] split: prod.splits if_splits
      intro!: fs_inv_ns ns_inv_clone_cwd ns_inv_clone_routes dest: fs_invD(1))

lemma fs_getcwd_inv: "fs_inv E w \<Longrightarrow> ns_getcwd_handler E w a g = (r, w') \<Longrightarrow> fs_inv E w'"
  by (auto simp: ns_getcwd_handler_def Let_def split: if_splits)

lemma register_request_inv:
  assumes "fs_inv E w" "register_handler_handler E w a g = (r, w')"
  shows "fs_inv E w'"
  using assms do_syscall_inv(1) [OF fs_inv_ns [OF assms(1) ns_inv_markers(5) [OF fs_invD(1) [OF assms(1)]]]]
  by (auto simp: register_handler_handler_def Let_def)

lemma fork_exit_inv:
  assumes "fdtables_ok (ge_fd E)" "fs_inv E w"
  shows "clamp_fork_handler E w a g = (r, w') \<Longrightarrow> fs_inv E w'"
    and "exit_handler E w a g = (r, w') \<Longrightarrow> fs_inv E w'"
proof -
  obtain r1 w1 where c: "do_syscall E w (g ! 0) SYS_CLONE a g = (r1, w1)" by fastforce
  note w1 = conjunct1 [OF do_syscall_inv(1) [OF assms(2) c]]
  define w2 where "w2 = (case copy_fdtable_for_cage (ge_fd E) (fdt w1) (g ! 0) (as_u64 r1) of Some ft \<Rightarrow> w1\<lparr>fdt := ft\<rparr> | None \<Rightarrow> w1)"
  have w2: "fs_inv E w2" using w1 fd_flags_ops(5) [OF assms(1) fs_invD(3)]
    by (auto simp: w2_def intro: fs_inv_fdt split: option.splits)
  show "fs_inv E w'" if "clamp_fork_handler E w a g = (r, w')"
    using that w1 w2 c
    by (auto simp: clamp_fork_handler_def Let_def w2_def [symmetric]
        intro!: fs_inv_ns ns_inv_clone_cwd ns_inv_clone_routes dest: fs_invD(1) split: if_splits)
next
  have "fs_inv E (w\<lparr>ns := remove_cage_state (ns w) (g ! 0), fdt := remove_cage_from_fdtable (ge_fd E) (fdt w) (g ! 0)\<rparr>)"
    using assms(2) fs_invD [OF assms(2)] fd_flags_ops(6) [OF assms(1)] by (simp add: fs_inv_def ns_inv_remove)
  then show "fs_inv E w'" if "exit_handler E w a g = (r, w')"
    using that by (auto simp: exit_handler_def Let_def dest: do_syscall_inv(1))
qed

lemma ns_handler_inv:
  assumes "fdtables_ok (ge_fd E)" "fs_inv E w" "get_ns_handler nr = Some h" "h E w a g = (r, w')"
  shows "fs_inv E w'"
proof -
  note inst = ns_symlinkat_handler_def ns_readlinkat_handler_def ns_unlinkat_handler_def ns_faccessat_handler_def
    ns_statx_handler_def ns_fchmodat_handler_def ns_fchownat_handler_def
  note h = fs_open_inv fs_openat_inv fs_close_inv fs_dup_inv fs_dup2_inv fs_dup3_inv fs_fcntl_inv
  note h' = path_handlers_inv mmap_handlers_inv fs_chdir_inv fs_clone_inv fs_getcwd_inv
  show ?thesis using assms(3,4)
    by (auto simp: get_ns_handler_def inst dest: h [OF assms(1,2)] h' [OF assms(2)] split: if_splits)
qed

subsection \<open>Registration of the target\<close>

lemma ns_handler_total: "list_all (\<lambda>nr. (get_ns_handler nr :: 'ft fs_handler option) \<noteq> None) FS_CALLS"
  by (simp add: FS_CALLS_def get_ns_handler_def path_routed_def fd_routed_def SYS_LINKAT_NR_def)

lemma register_inv:
  assumes "fs_inv E w" "register_handler E w c nr k = (r, w')"
  shows "fs_inv E w' \<and> ns w' = ns w"
  using assms by (auto simp: register_handler_def Let_def split: if_splits)

text \<open>What one iteration does before the visible handler is registered.\<close>

definition register_alt :: "'ft grate_env \<Rightarrow> 'ft fs_world \<Rightarrow> nat \<Rightarrow> nat \<Rightarrow> int option \<times> 'ft fs_world" where
  "register_alt E w target nr =
     (case get_interposition_request (ns w) target nr of
        None \<Rightarrow> (None, w)
      | Some (grate_id, handler_fn) \<Rightarrow>
          let (alt, s) = alloc_alt_syscall (ns w);
              (ret, w) = do_syscall E (w\<lparr>ns := s\<rparr>) grate_id SYS_REGISTER_HANDLER [ge_cage E, 0, handler_fn, 0, 0, 0]
                           [alt, grate_id, 0, 0, 0, 0]
          in if ret \<noteq> 0 then (Some ret, w) else (None, w\<lparr>ns := set_route (ns w) target nr alt\<rparr>))"

lemma register_target_loop_Cons:
  assumes "(get_ns_handler nr :: 'ft fs_handler option) \<noteq> None"
  shows "register_target_loop E (w :: 'ft fs_world) target (nr # rest) =
    (case register_alt E w target nr of
       (Some ret, w) \<Rightarrow> Some (Some ret, w)
     | (None, w) \<Rightarrow>
         (case register_handler E w target nr (ge_cage E) of
            (Inr _, w) \<Rightarrow> register_target_loop E w target rest
          | (Inl _, w) \<Rightarrow> Some (Some (-1), w)))"
  using assms by (auto simp: register_alt_def Let_def split: option.splits prod.splits)

lemma register_alt_inv:
  assumes "fs_inv E w" "register_alt E w t nr = (e, w')"
  shows "fs_inv E w'"
proof (cases "get_interposition_request (ns w) t nr")
  case None
  then show ?thesis using assms by (simp add: register_alt_def)
next
  case (Some q)
  obtain gid fn where q: "q = (gid, fn)" by (cases q)
  obtain alt s where s: "alloc_alt_syscall (ns w) = (alt, s)" by fastforce
  note i = ns_inv_alloc [OF fs_invD(1) [OF assms(1)] s]
  show ?thesis using assms Some q s i
    by (auto simp: register_alt_def do_syscall_def fs_inv_def split: if_splits)
qed

lemma register_target_loop_inv:
  "list_all (\<lambda>nr. (get_ns_handler nr :: 'ft fs_handler option) \<noteq> None) nrs \<Longrightarrow> fs_inv E (w :: 'ft fs_world) \<Longrightarrow>
   \<exists>e w'. register_target_loop E w t nrs = Some (e, w') \<and> fs_inv E w'"
proof (induction nrs arbitrary: w)
  case (Cons nr nrs)
  obtain e w1 where a: "register_alt E w t nr = (e, w1)" by fastforce
  have w1: "fs_inv E w1" using register_alt_inv [OF Cons.prems(2) a] .
  obtain q w2 where r: "register_handler E w1 t nr (ge_cage E) = (q, w2)" by fastforce
  have w2: "fs_inv E w2" using register_inv [OF w1 r] by simp
  have eq: "register_target_loop E w t (nr # nrs) =
      (case e of Some ret \<Rightarrow> Some (Some ret, w1)
       | None \<Rightarrow> (case q of Inr _ \<Rightarrow> register_target_loop E w2 t nrs | Inl _ \<Rightarrow> Some (Some (-1), w2)))"
    using Cons.prems by (subst register_target_loop_Cons) (auto simp: a r split: option.split sum.split)
  have "\<exists>e w'. register_target_loop E w2 t nrs = Some (e, w') \<and> fs_inv E w'" using Cons w2 by simp
  with w1 w2 show ?case unfolding eq by (auto split: option.split sum.split)
qed simp

lemma default_fd_inv:
  "register_default_fd_handlers_except E w t k x table = (r, w') \<Longrightarrow> fs_inv E w \<Longrightarrow> fs_inv E w' \<and> ns w' = ns w"
proof (induction table arbitrary: w)
  case (Cons nr table)
  obtain q w1 where r: "register_handler E w t nr k = (q, w1)" by fastforce
  have w1: "fs_inv E w1 \<and> ns w1 = ns w" using register_inv [OF Cons.prems(2) r] .
  show ?case
  proof (cases "case x of None \<Rightarrow> False | Some s \<Rightarrow> nr \<in> set s")
    case True
    then show ?thesis using Cons.IH [of w] Cons.prems by simp
  next
    case False
    then show ?thesis using Cons.IH [of w1] Cons.prems w1 r by (cases q) auto
  qed
qed simp

lemma register_target_total:
  assumes "fs_inv E w"
  shows "\<exists>r w'. register_target_handlers fd_table E w t = Some (r, w') \<and> fs_inv E w'"
  using register_target_loop_inv [OF ns_handler_total assms, of t]
  by (auto simp: register_target_handlers_def dest: default_fd_inv split: option.splits prod.splits sum.splits)

lemma syscall_keeps: "fs_inv E w \<Longrightarrow> do_syscall E w c nr a g = (r, w') \<Longrightarrow> fs_inv E w'"
  using do_syscall_inv(1) by blast

lemma marker_inv:
  assumes "fs_inv E w"
  shows "fs_inv E (w\<lparr>ns := enter_nested_clamp (ns w)\<rparr>)" "fs_inv E (w\<lparr>ns := exit_nested_clamp (ns w)\<rparr>)"
    "fs_inv E (w\<lparr>ns := set_clamp_entry (ns w) c\<rparr>)"
    "fs_inv E (w\<lparr>ns := exit_nested_clamp (deregister_clamped_cage (ns w) c)\<rparr>)"
  using fs_inv_ns [OF assms] ns_inv_markers [OF fs_invD(1) [OF assms]] ns_inv_markers(3) by blast+

lemma exec_inv:
  assumes "fs_inv E w" "exec_handler fd_table E w a g = Some (r, w')"
  shows "fs_inv E w'"
proof -
  obtain r1 w1 where t: "register_target_handlers fd_table E w (g ! 0) = Some (r1, w1)" and w1: "fs_inv E w1"
    using register_target_total [OF assms(1)] by blast
  note m = marker_inv [OF assms(1)] marker_inv(4) [OF w1]
  show ?thesis using assms(2) t
    by (auto simp: exec_handler_def Let_def m intro: syscall_keeps [OF m(1)] syscall_keeps [OF m(2)] syscall_keeps [OF m(3)]
        syscall_keeps [OF m(5)] syscall_keeps [OF assms(1)] split: option.splits if_splits)
qed

subsection \<open>Reachable states\<close>

inductive fs_step :: "nat list \<Rightarrow> 'ft grate_env \<Rightarrow> 'ft fs_world \<Rightarrow> 'ft fs_world \<Rightarrow> bool" for fd_table E where
  ns_call: "get_ns_handler nr = Some h \<Longrightarrow> h E w a g = (r, w') \<Longrightarrow> fs_step fd_table E w w'"
| ns_register: "register_handler_handler E w a g = (r, w') \<Longrightarrow> fs_step fd_table E w w'"
| ns_exec: "exec_handler fd_table E w a g = Some (r, w') \<Longrightarrow> fs_step fd_table E w w'"
| ns_fork: "clamp_fork_handler E w a g = (r, w') \<Longrightarrow> fs_step fd_table E w w'"
| ns_exit: "exit_handler E w a g = (r, w') \<Longrightarrow> fs_step fd_table E w w'"

inductive fs_reachable :: "nat list \<Rightarrow> 'ft grate_env \<Rightarrow> 'ft fs_world \<Rightarrow> bool" for fd_table E where
  start: "(\<And>c fd. translate_virtual_fd (ge_fd E) ft c fd = None) \<Longrightarrow> \<not> check_cage_exists (ge_fd E) ft child \<Longrightarrow>
    fs_reachable fd_table E (clamp_start E ft config child)"
| step: "fs_reachable fd_table E w \<Longrightarrow> fs_step fd_table E w w' \<Longrightarrow> fs_reachable fd_table E w'"

lemma fs_step_inv:
  assumes "fdtables_ok (ge_fd E)" "fs_inv E w" "fs_step fd_table E w w'"
  shows "fs_inv E w'"
  using assms(3)
proof cases
  case (ns_call nr h a g r)
  then show ?thesis by (rule ns_handler_inv [OF assms(1,2)])
qed (use assms in \<open>auto intro: register_request_inv exec_inv fork_exit_inv\<close>)

lemma lifecycle_inv: "fs_inv E w \<Longrightarrow> fs_inv E (register_lifecycle_loop E w c nrs)"
  by (induction nrs arbitrary: w) (auto dest: register_inv [OF _ prod.collapse [symmetric]])

lemma stdio_flags:
  assumes "fdtables_ok (ge_fd E)" "fd_flags E ft"
  shows "fd_flags E (install_stdio E c ft fd)"
  using assms(2) fd_flags_ops(3) [OF assms] by (auto simp: install_stdio_def split: option.split)

lemma clamp_start_inv:
  assumes "fdtables_ok (ge_fd E)" "\<And>c fd. translate_virtual_fd (ge_fd E) ft c fd = None" "\<not> check_cage_exists (ge_fd E) ft child"
  shows "fs_inv E (clamp_start E ft config child)"
proof -
  have "fd_flags E (init_empty_cage (ge_fd E) ft child)"
    using fd_cage_law(3) [OF assms(1,3)] assms(2) by (simp add: fd_flags_def)
  then have "fd_flags E (foldl (install_stdio E child) (init_empty_cage (ge_fd E) ft child) [0, 1, 2])"
    by (simp add: stdio_flags [OF assms(1)])
  moreover have "ns_inv 0 (register_clamped_cage (ns_new (ge_cage E) p) child)" for p
    by (rule ns_inv_markers(6) [OF ns_inv_new])
  ultimately show ?thesis unfolding clamp_start_def clamp_setup_def fs_globals_def Let_def register_lifecycle_handlers_def
    by (intro lifecycle_inv) (simp add: fs_inv_def ranges_ok_def)
qed

lemma fs_reachable_inv:
  assumes "fdtables_ok (ge_fd E)" "fs_reachable fd_table E w"
  shows "fs_inv E w"
  using assms(2) by induction (auto intro: clamp_start_inv [OF assms(1)] fs_step_inv [OF assms(1)])

text \<open>C26. In every state fs-routing-clamp can reach, whatever the runtime answers: every recorded working
  directory is a canonical absolute path; as long as fewer than \<open>2 ^ 63\<close> events happened, the
  alternative numbers in the route table are at least 3000, so they never collide with a system call,
  and no two different calls share one, even across forked cages; the clamp flag of every descriptor
  is 0 or 1; and every recorded mapping is a nonempty range.\<close>

theorem fs_clamp_invariant:
  assumes "fdtables_ok (ge_fd E)" and "fs_reachable fd_table E w"
  shows "(\<forall>m c d. cwd_by_cage (ns w) = Some m \<longrightarrow> m c = Some d \<longrightarrow> canonical d) \<and>
    (length (hist w) < 2 ^ 63 \<longrightarrow>
       (\<forall>c nr alt. get_route (ns w) c nr = Some alt \<longrightarrow>
          3000 \<le> alt \<and> alt < alt_allocator (ns w) \<and> (\<forall>c' nr'. get_route (ns w) c' nr' = Some alt \<longrightarrow> nr' = nr))) \<and>
    (\<forall>c fd e. translate_virtual_fd (ge_fd E) (fdt w) c fd = Some e \<longrightarrow> perfdinfo e \<le> 1) \<and>
    ranges_ok (clamped_mmaps w)"
proof -
  have i: "ns_inv (length (hist w)) (ns w)" "ranges_ok (clamped_mmaps w)" "fd_flags E (fdt w)"
    using fs_reachable_inv [OF assms] by (simp_all add: fs_inv_def)
  then have "fs_routes.alts_ok (length (hist w)) (ns w)" by (simp add: ns_inv_def)
  from fs_routes.alts_okD [OF this] i show ?thesis unfolding ns_inv_def fd_flags_def by blast
qed

definition demo_clamp_env :: "(nat list \<times> fd_map) grate_env" where
  "demo_clamp_env =
     \<lparr>ge_cage = 1, ge_sys = (\<lambda>h c. if callnumber c = SYS_REGISTER_HANDLER then 0 else if callnumber c = SYS_EXEC then 0 else 5),
      ge_out = (\<lambda>h c i. []),
      ge_copystr = (\<lambda>h c p n. Some (if p = 7 then as_bytes ''%}'' @ [0] else as_bytes ''/tmp/a'' @ [0])),
      ge_copymem = (\<lambda>h c p n. Some (replicate n 0)), ge_copyout = (\<lambda>h c p bs. True), ge_register = (\<lambda>h c n k. 0),
      ge_fd = cage_fdtables, ge_unused_errno = (\<lambda>ft c. 24), ge_specific_errno = (\<lambda>ft c fd. 9)\<rparr>"

abbreviation demo_clamp_world :: "(nat list \<times> fd_map) fs_world" where
  "demo_clamp_world \<equiv> clamp_start demo_clamp_env ([], []) \<lparr>nc_prefix = ''/tmp'', exec_chain = [''g'', ''%}''], log_enabled = False\<rparr> 4"

lemma demo_clamp_reachable: "fs_reachable fd_table demo_clamp_env demo_clamp_world"
  by (rule fs_reachable.start) (simp_all add: demo_clamp_env_def cage_fdtables_def map_fdtables_def)

theorem fs_clamp_invariant_witness:
  "cwd_by_cage (ns demo_clamp_world) = Some [4 \<mapsto> ''/''] \<and> canonical ''/''"
proof -
  have c: "cwd_by_cage (ns demo_clamp_world) = Some [4 \<mapsto> ''/'']"
    by (simp add: clamp_start_def clamp_setup_def fs_globals_def register_lifecycle_handlers_def register_handler_def Let_def register_clamped_cage_def ns_new_def
        demo_clamp_env_def)
  have "fdtables_ok (ge_fd demo_clamp_env)" by (simp add: demo_clamp_env_def cage_fdtables_ok)
  from fs_clamp_invariant [OF this demo_clamp_reachable [of "[]"]] c show ?thesis by auto
qed

section \<open>Routing the target's calls\<close>

text \<open>The call by which the handler of a clamped grate is registered under an alternative number.\<close>

definition alt_registration :: "'ft grate_env \<Rightarrow> nat \<Rightarrow> nat \<Rightarrow> nat \<Rightarrow> nat \<Rightarrow> event" where
  "alt_registration E self grate_id handler_fn alt =
     Threei \<lparr>callnumber = SYS_REGISTER_HANDLER, self_cageid = self, target_cageid = grate_id,
       call_args = map Num [ge_cage E, 0, handler_fn, 0, 0, 0], call_cages = [alt, grate_id, 0, 0, 0, 0]\<rparr>"

lemma alloc_alt_frame:
  assumes "alloc_alt_syscall s = (alt, s')"
  shows "get_route s' = get_route s" "interposition_map s' = interposition_map s" "ns_cage_id s' = ns_cage_id s"
  using assms by (auto simp: alloc_alt_syscall_def get_route_def fun_eq_iff)

lemma set_route_frame: "interposition_map (set_route s c nr alt) = interposition_map s" "ns_cage_id (set_route s c nr alt) = ns_cage_id s"
  by (simp_all add: set_route_def Let_def)

lemma request_cong: "interposition_map s' = interposition_map s \<Longrightarrow> get_interposition_request s' = get_interposition_request s"
  by (simp add: get_interposition_request_def fun_eq_iff)

text \<open>A registration among the events \<open>es\<close> after the history \<open>h\<close> that the runtime accepted.\<close>

definition accepted :: "'ft grate_env \<Rightarrow> event list \<Rightarrow> event list \<Rightarrow> event \<Rightarrow> bool" where
  "accepted E h es ev \<longleftrightarrow> (\<exists>pre post. es = pre @ ev # post \<and>
     (case ev of Register t nr g \<Rightarrow> ge_register E (h @ pre) t nr g = 0 | Threei c \<Rightarrow> ge_sys E (h @ pre) c = 0 | _ \<Rightarrow> False))"

lemma accepted_after: "accepted E (h @ es') es ev \<Longrightarrow> accepted E h (es' @ es) ev"
  unfolding accepted_def by (metis append.assoc)

lemma accepted_before: "accepted E h es ev \<Longrightarrow> accepted E h (es @ es') ev"
  unfolding accepted_def by (metis append.assoc append_Cons)

lemma register_alt_spec:
  assumes "register_alt E w t nr = (None, w')"
  shows "interposition_map (ns w') = interposition_map (ns w) \<and> ns_cage_id (ns w') = ns_cage_id (ns w) \<and>
    (case get_interposition_request (ns w) t nr of
       None \<Rightarrow> w' = w
     | Some (gid, fn) \<Rightarrow>
         \<exists>alt. hist w' = hist w @ [alt_registration E (ns_cage_id (ns w)) gid fn alt] \<and>
           accepted E (hist w) [alt_registration E (ns_cage_id (ns w)) gid fn alt] (alt_registration E (ns_cage_id (ns w)) gid fn alt) \<and>
           get_route (ns w') = (\<lambda>c n. if c = t \<and> n = nr then Some alt else get_route (ns w) c n))"
proof (cases "get_interposition_request (ns w) t nr")
  case None
  then show ?thesis using assms by (simp add: register_alt_def)
next
  case (Some q)
  obtain gid fn where q: "q = (gid, fn)" by (cases q)
  obtain alt s where s: "alloc_alt_syscall (ns w) = (alt, s)" by fastforce
  from assms Some q s have "hist w' = hist w @ [alt_registration E (ns_cage_id (ns w)) gid fn alt]"
    "ns w' = set_route s t nr alt"
    and "accepted E (hist w) [alt_registration E (ns_cage_id (ns w)) gid fn alt] (alt_registration E (ns_cage_id (ns w)) gid fn alt)"
    by (auto simp: register_alt_def do_syscall_def alt_registration_def alloc_alt_frame [OF s] accepted_def split: if_splits
        intro!: exI [of _ "[]"])
  moreover have "get_route (set_route s t nr alt) = (\<lambda>c n. if c = t \<and> n = nr then Some alt else get_route (ns w) c n)"
    by (intro ext) (simp add: fs_routes.get_put alloc_alt_frame(1) [OF s])
  ultimately show ?thesis using Some q by (auto simp: set_route_frame alloc_alt_frame [OF s])
qed

text \<open>What the loop has done for one call.\<close>

definition routed_as :: "'ft grate_env \<Rightarrow> 'ft fs_world \<Rightarrow> nat \<Rightarrow> nat \<Rightarrow> event list \<Rightarrow> 'ft fs_world \<Rightarrow> bool" where
  "routed_as E w t nr es w' \<longleftrightarrow>
     accepted E (hist w) es (Register t nr (ge_cage E)) \<and>
     (case get_interposition_request (ns w) t nr of
        None \<Rightarrow> get_route (ns w') t nr = get_route (ns w) t nr
      | Some (gid, fn) \<Rightarrow>
          \<exists>alt. get_route (ns w') t nr = Some alt \<and> accepted E (hist w) es (alt_registration E (ns_cage_id (ns w)) gid fn alt))"

lemma routed_as_weaken:
  assumes "routed_as E w2 t n es w'" "hist w2 = hist w @ es'" "ns_cage_id (ns w2) = ns_cage_id (ns w)"
    and "get_interposition_request (ns w2) = get_interposition_request (ns w)"
    and "get_interposition_request (ns w) t n = None \<Longrightarrow> get_route (ns w2) t n = get_route (ns w) t n"
  shows "routed_as E w t n (es' @ es) w'"
proof (cases "get_interposition_request (ns w) t n")
  case None
  then show ?thesis using assms by (auto simp: routed_as_def intro: accepted_after)
next
  case (Some q)
  then show ?thesis using assms by (cases q) (auto simp: routed_as_def intro: accepted_after)
qed

lemma register_target_loop_spec:
  "list_all (\<lambda>nr. (get_ns_handler nr :: 'ft fs_handler option) \<noteq> None) nrs \<Longrightarrow>
   register_target_loop E (w :: 'ft fs_world) t nrs = Some (None, w') \<Longrightarrow>
   \<exists>es. hist w' = hist w @ es \<and> (\<forall>nr \<in> set nrs. routed_as E w t nr es w') \<and>
     (\<forall>c nr. c \<noteq> t \<or> nr \<notin> set nrs \<longrightarrow> get_route (ns w') c nr = get_route (ns w) c nr)"
proof (induction nrs arbitrary: w)
  case (Cons nr nrs)
  obtain e w1 where a: "register_alt E w t nr = (e, w1)" by fastforce
  obtain q w2 where r: "register_handler E w1 t nr (ge_cage E) = (q, w2)" by fastforce
  have "register_target_loop E w t (nr # nrs) =
      (case e of Some ret \<Rightarrow> Some (Some ret, w1)
       | None \<Rightarrow> (case q of Inr _ \<Rightarrow> register_target_loop E w2 t nrs | Inl _ \<Rightarrow> Some (Some (-1), w2)))"
    using Cons.prems(1) by (subst register_target_loop_Cons) (auto simp: a r split: option.split sum.split)
  with Cons.prems(2) have e: "e = None" and q: "q = Inr ()" and l: "register_target_loop E w2 t nrs = Some (None, w')"
    by (auto split: option.splits sum.splits)
  have ok: "ge_register E (hist w1) t nr (ge_cage E) = 0" and w2: "ns w2 = ns w1" "hist w2 = hist w1 @ [Register t nr (ge_cage E)]"
    using r q by (auto simp: register_handler_def Let_def split: if_splits)
  obtain es where es: "hist w' = hist w2 @ es" "\<forall>n \<in> set nrs. routed_as E w2 t n es w'"
    "\<forall>c n. c \<noteq> t \<or> n \<notin> set nrs \<longrightarrow> get_route (ns w') c n = get_route (ns w2) c n"
    using Cons.IH [OF _ l] Cons.prems(1) by auto
  note s = register_alt_spec [OF a [unfolded e]]
  have rq: "get_interposition_request (ns w2) = get_interposition_request (ns w)"
    using s w2 by (intro request_cong) simp
  have frame: "get_route (ns w2) c n = get_route (ns w) c n" if "c \<noteq> t \<or> n \<noteq> nr" for c n
    using s w2 that by (auto split: option.splits)
  obtain es' where es': "hist w1 = hist w @ es'" using s by (auto split: option.splits)
  let ?es = "es' @ Register t nr (ge_cage E) # es"
  have "routed_as E w t n ?es w'" if "n \<in> set nrs" for n
  proof -
    have "routed_as E w t n ((es' @ [Register t nr (ge_cage E)]) @ es) w'"
      by (rule routed_as_weaken [of E w2]) (use es(2) es' that s w2 rq frame [of t n] in \<open>auto split: option.splits\<close>)
    then show ?thesis by simp
  qed
  moreover have reg: "accepted E (hist w) ?es (Register t nr (ge_cage E))"
    unfolding accepted_def using ok es' by (intro exI [of _ es'] exI [of _ es]) simp
  moreover have "routed_as E w t nr ?es w'" if "nr \<notin> set nrs"
    using es(3) that s w2 es' reg by (auto simp: routed_as_def split: option.splits intro: accepted_before)
  ultimately have "\<forall>n \<in> set (nr # nrs). routed_as E w t n ?es w'" by auto
  moreover have "hist w' = hist w @ ?es" using es(1) w2 es' by simp
  moreover have "\<forall>c n. c \<noteq> t \<or> n \<notin> set (nr # nrs) \<longrightarrow> get_route (ns w') c n = get_route (ns w) c n"
    using es(3) frame by auto
  ultimately show ?case by blast
qed simp

lemma register_target_loop_total:
  "list_all (\<lambda>nr. (get_ns_handler nr :: 'ft fs_handler option) \<noteq> None) nrs \<Longrightarrow>
   \<exists>e w'. register_target_loop E (w :: 'ft fs_world) t nrs = Some (e, w') \<and> e \<noteq> Some 0"
proof (induction nrs arbitrary: w)
  case (Cons nr nrs)
  obtain e w1 where a: "register_alt E w t nr = (e, w1)" by fastforce
  obtain q w2 where r: "register_handler E w1 t nr (ge_cage E) = (q, w2)" by fastforce
  have "e \<noteq> Some 0" using a by (auto simp: register_alt_def Let_def split: option.splits prod.splits if_splits)
  moreover have "\<exists>e w'. register_target_loop E w2 t nrs = Some (e, w') \<and> e \<noteq> Some 0" using Cons by simp
  moreover have "register_target_loop E w t (nr # nrs) =
      (case e of Some ret \<Rightarrow> Some (Some ret, w1)
       | None \<Rightarrow> (case q of Inr _ \<Rightarrow> register_target_loop E w2 t nrs | Inl _ \<Rightarrow> Some (Some (-1), w2)))"
    using Cons.prems by (subst register_target_loop_Cons) (auto simp: a r split: option.split sum.split)
  ultimately show ?case by (auto split: option.split sum.split)
qed simp

lemma default_fd_frame:
  "register_default_fd_handlers_except E w t k x table = (r, w') \<Longrightarrow> ns w' = ns w \<and> (\<exists>es. hist w' = hist w @ es)"
proof (induction table arbitrary: w)
  case (Cons nr table)
  obtain q w1 where r: "register_handler E w t nr k = (q, w1)" by fastforce
  have w1: "ns w1 = ns w" "hist w1 = hist w @ [Register t nr k]"
    using r by (auto simp: register_handler_def Let_def split: if_splits)
  show ?case
  proof (cases "case x of None \<Rightarrow> False | Some s \<Rightarrow> nr \<in> set s")
    case True
    then show ?thesis using Cons.IH [of w] Cons.prems by simp
  next
    case False
    then show ?thesis using Cons.IH [of w1] Cons.prems w1 r by (cases q) auto
  qed
qed simp

text \<open>C28. Registering the target cage never panics (every call of the list has a handler), and when it
  reports success the runtime has accepted, for every file-system call of the target, the registration of the grate's own handler; a
  call for which a clamped grate had registered a handler has a route to an alternative number, and the runtime has
  accepted the registration of the last such handler under that number; any other call keeps its route, and no other cage's
  routes change.\<close>

theorem target_registration:
  "\<exists>r w'. register_target_handlers fd_table E w t = Some (r, w') \<and>
     (r = 0 \<longrightarrow> (\<exists>es. hist w' = hist w @ es \<and> list_all (\<lambda>nr. routed_as E w t nr es w') FS_CALLS) \<and>
        (\<forall>c nr. c \<noteq> t \<longrightarrow> get_route (ns w') c nr = get_route (ns w) c nr))"
proof -
  obtain e w1 where l: "register_target_loop E w t FS_CALLS = Some (e, w1)" "e \<noteq> Some 0"
    using register_target_loop_total [OF ns_handler_total] by blast
  show ?thesis
  proof (cases e)
    case (Some ret)
    then show ?thesis using l by (simp add: register_target_handlers_def)
  next
    case None
    obtain q w2 where d: "register_default_fd_handlers_except E w1 t (ge_cage E) (Some FS_CALLS) fd_table = (q, w2)" by fastforce
    obtain es where es: "hist w1 = hist w @ es" "\<forall>nr \<in> set FS_CALLS. routed_as E w t nr es w1"
      "\<forall>c nr. c \<noteq> t \<or> nr \<notin> set FS_CALLS \<longrightarrow> get_route (ns w1) c nr = get_route (ns w) c nr"
      using register_target_loop_spec [OF ns_handler_total l(1) [unfolded None]] by auto
    from default_fd_frame [OF d] obtain es' where w2: "ns w2 = ns w1" "hist w2 = hist w1 @ es'" by auto
    have "routed_as E w t nr (es @ es') w2" if "nr \<in> set FS_CALLS" for nr
      using es(2) [rule_format, OF that] w2(1) by (auto simp: routed_as_def split: option.splits prod.splits intro: accepted_before)
    then have "list_all (\<lambda>nr. routed_as E w t nr (es @ es') w2) FS_CALLS" by (simp add: list_all_iff)
    then show ?thesis using l None d es w2
      by (auto simp: register_target_handlers_def split: sum.split intro: exI [of _ "es @ es'"])
  qed
qed

section \<open>Descriptors stay on their side\<close>

text \<open>A call that reached the clamped side, and one that went to the kernel.\<close>

definition on_clamp :: "ns_clamp_state \<Rightarrow> nat \<Rightarrow> threei_call \<Rightarrow> bool" where
  "on_clamp s sysno c \<longleftrightarrow>
     (case get_route s (target_cageid c) sysno of
        Some alt \<Rightarrow> callnumber c = as_u32 alt \<and> self_cageid c = ns_cage_id s
      | None \<Rightarrow> callnumber c = as_u32 sysno \<and> self_cageid c = clamp_entry_cage s)"

definition on_kernel :: "ns_clamp_state \<Rightarrow> nat \<Rightarrow> threei_call \<Rightarrow> bool" where
  "on_kernel s sysno c \<longleftrightarrow> callnumber c = as_u32 sysno \<and> self_cageid c = ns_cage_id s"

lemma fd_route_spec:
  assumes "translate_virtual_fd (ge_fd E) (fdt w) (g ! 0) (a ! 0) = Some e" "fd_route_handler sysno E w a g = (r, w')"
  shows "\<exists>c. w' = log_event (Threei c) w \<and> target_cageid c = g ! 0 \<and> call_args c = map Num (a[0 := underfd e]) \<and>
    (if perfdinfo e \<noteq> 0 then on_clamp (ns w) sysno c else on_kernel (ns w) sysno c) \<and> r = ge_sys E (hist w) c"
  using assms by (auto simp: fd_route_handler_def Let_def do_syscall_def do_clamp_syscall_def on_clamp_def on_kernel_def
      split: option.splits if_splits)

lemma open_spec:
  assumes "fdtables_ok (ge_fd E)" "resolve_path_from_cage E w (g ! 1) (a ! 0) (g ! 0) = Some p"
    and "ns_open_handler E w a g = (r, w')" "0 \<le> r"
  shows "\<exists>c vfd. hist w' = hist w @ [Threei c] \<and> ns w' = ns w \<and> target_cageid c = g ! 0 \<and> call_args c = map Num a \<and>
    r = as_i32 (int vfd) \<and> translate_virtual_fd (ge_fd E) (fdt w') (g ! 0) vfd =
      Some (mk_entry 0 (as_u64 (ge_sys E (hist w) c)) False (if path_matches_prefix (ns w) p then 1 else 0)) \<and>
    (case get_route (ns w) (g ! 0) SYS_OPEN of
       Some alt \<Rightarrow> if path_matches_prefix (ns w) p then on_clamp (ns w) SYS_OPEN c else on_kernel (ns w) SYS_OPEN c
     | None \<Rightarrow> on_kernel (ns w) SYS_OPEN c) \<and>
    (\<exists>k u ce q ft. get_unused_virtual_fd (ge_fd E) (fdt w) (g ! 0) k u ce q = Some (vfd, ft))"
proof -
  let ?m = "path_matches_prefix (ns w) p"
  let ?nr = "case get_route (ns w) (g ! 0) SYS_OPEN of Some alt \<Rightarrow> if ?m then alt else SYS_OPEN | None \<Rightarrow> SYS_OPEN"
  define c where "c = \<lparr>callnumber = as_u32 ?nr, self_cageid = ns_cage_id (ns w), target_cageid = g ! 0,
    call_args = map Num a, call_cages = g\<rparr>"
  let ?ret = "ge_sys E (hist w) c"
  have o: "ns_open_handler E w a g =
      (if ?ret \<ge> 0 then install_opened E (log_event (Threei c) w) (g ! 0) ?ret ?m else (?ret, log_event (Threei c) w))"
    using assms(2) by (simp add: ns_open_handler_def do_syscall_def Let_def c_def)
  with assms(3,4) have i: "install_opened E (log_event (Threei c) w) (g ! 0) ?ret ?m = (r, w')" by (auto split: if_splits)
  then obtain vfd ft where v: "get_unused_virtual_fd (ge_fd E) (fdt w) (g ! 0) 0 (as_u64 ?ret) False (if ?m then 1 else 0) = Some (vfd, ft)"
    "r = as_i32 (int vfd)" "w' = (log_event (Threei c) w)\<lparr>fdt := ft\<rparr>"
    using assms(4) by (auto simp: install_opened_def split: option.splits)
  have "translate_virtual_fd (ge_fd E) ft (g ! 0) vfd = Some (mk_entry 0 (as_u64 ?ret) False (if ?m then 1 else 0))"
    using conjunct2 [OF fd_alloc_law [OF assms(1) v(1)]] by (simp add: fd_maps_def)
  moreover have "case get_route (ns w) (g ! 0) SYS_OPEN of
       Some alt \<Rightarrow> if ?m then on_clamp (ns w) SYS_OPEN c else on_kernel (ns w) SYS_OPEN c
     | None \<Rightarrow> on_kernel (ns w) SYS_OPEN c"
    by (simp add: on_clamp_def on_kernel_def c_def split: option.split)
  moreover have "hist w' = hist w @ [Threei c]" "ns w' = ns w" "fdt w' = ft" "target_cageid c = g ! 0" "call_args c = map Num a"
    using v(3) by (simp_all add: c_def)
  ultimately show ?thesis using v(1,2) by (intro exI [of _ c] exI [of _ vfd]) (simp, blast)
qed

text \<open>Which calls leave the entry of a descriptor alone: all of them but a close of the descriptor and a duplication onto it.\<close>

definition keeps_fd :: "'ft grate_env \<Rightarrow> nat \<Rightarrow> nat \<Rightarrow> 'ft fs_world \<Rightarrow> 'ft fs_world \<Rightarrow> bool" where
  "keeps_fd E c fd w w' \<longleftrightarrow>
     (\<forall>e. translate_virtual_fd (ge_fd E) (fdt w) c fd = Some e \<longrightarrow> translate_virtual_fd (ge_fd E) (fdt w') c fd = Some e)"

lemma keeps_fdt: "fdt w' = fdt w \<Longrightarrow> keeps_fd E c fd w w'"
  by (simp add: keeps_fd_def)

lemma keeps_fd_trans: "keeps_fd E c fd w w1 \<Longrightarrow> keeps_fd E c fd w1 w2 \<Longrightarrow> keeps_fd E c fd w w2"
  by (simp add: keeps_fd_def)

lemma call_fdt:
  "do_syscall E w cg nr a g = (r, w') \<Longrightarrow> fdt w' = fdt w" "do_clamp_syscall E w cg nr a g = (r, w') \<Longrightarrow> fdt w' = fdt w"
  "clamped_call E w cg nr a g = (r, w') \<Longrightarrow> fdt w' = fdt w" "dup_under E w cg e = (r, w') \<Longrightarrow> fdt w' = fdt w"
  "fdt (close_under E w cg u) = fdt w"
  by (auto simp: do_syscall_def do_clamp_syscall_def clamped_call_def dup_under_def close_under_def Let_def split: option.splits if_splits)

lemma keeps_alloc:
  assumes "fdtables_ok (ge_fd E)"
  shows "get_unused_virtual_fd (ge_fd E) (fdt w) cg k u ce q = Some (v, ft) \<Longrightarrow> keeps_fd E c fd w (w'\<lparr>fdt := ft\<rparr>)"
    and "get_unused_virtual_fd_from_startfd (ge_fd E) (fdt w) cg k u ce q st = Some (v, ft) \<Longrightarrow> keeps_fd E c fd w (w'\<lparr>fdt := ft\<rparr>)"
  using fd_alloc_law [OF assms, of "fdt w" cg k u ce q v ft] fd_startfd_law [OF assms, of "fdt w" cg k u ce q st v ft]
  by (auto simp: keeps_fd_def fd_maps_def)

lemma keeps_elsewhere:
  assumes "fdtables_ok (ge_fd E)" "cg \<noteq> c \<or> v \<noteq> fd"
  shows "close_virtualfd (ge_fd E) (fdt w) cg v = Some ft \<Longrightarrow> keeps_fd E c fd w (w'\<lparr>fdt := ft\<rparr>)"
    and "get_specific_virtual_fd (ge_fd E) (fdt w) cg v k u ce q = Some ft \<Longrightarrow> keeps_fd E c fd w (w'\<lparr>fdt := ft\<rparr>)"
    and "keeps_fd E c fd w (drop_target E w cg v)" "install_dup E w cg v n ce q = (r, w2) \<Longrightarrow> keeps_fd E c fd w w2"
proof -
  show cl: "close_virtualfd (ge_fd E) (fdt w) cg v = Some ft \<Longrightarrow> keeps_fd E c fd w (w'\<lparr>fdt := ft\<rparr>)" for w w' :: "'a fs_world" and ft
    using fd_mapsD [OF fd_close_law [OF assms(1)], of "fdt w" cg v ft c fd] assms(2) by (auto simp: keeps_fd_def)
  show sp: "get_specific_virtual_fd (ge_fd E) (fdt w) cg v k u ce q = Some ft \<Longrightarrow> keeps_fd E c fd w (w'\<lparr>fdt := ft\<rparr>)"
    for w w' :: "'a fs_world" and k u ce q ft
    using fd_mapsD [OF fd_specific_law [OF assms(1)], of "fdt w" cg v k u ce q ft c fd] assms(2) by (auto simp: keeps_fd_def)
  show "keeps_fd E c fd w (drop_target E w cg v)"
    using cl [of w] by (auto simp: drop_target_def Let_def call_fdt(5) keeps_fd_def split: option.splits)
  show "install_dup E w cg v n ce q = (r, w2) \<Longrightarrow> keeps_fd E c fd w w2"
    using sp [of w 0 n ce q] by (auto simp: install_dup_def call_fdt(5) keeps_fdt split: option.splits)
qed

lemma path_handlers_fdt:
  "define_path_handler nr E w a g = (r, w') \<Longrightarrow> fdt w' = fdt w" "at_route_handler nr i j E w a g = (r, w') \<Longrightarrow> fdt w' = fdt w"
  "ns_symlink_handler E w a g = (r, w') \<Longrightarrow> fdt w' = fdt w" "ns_utimensat_handler E w a g = (r, w') \<Longrightarrow> fdt w' = fdt w"
  "ns_linkat_handler E w a g = (r, w') \<Longrightarrow> fdt w' = fdt w" "ns_fstatat_handler E w a g = (r, w') \<Longrightarrow> fdt w' = fdt w"
  "fd_route_handler nr E w a g = (r, w') \<Longrightarrow> fdt w' = fdt w"
  by (auto simp: dispatch_defs Let_def dest: call_fdt(1-4) split: inv_splits)

lemma state_handlers_fdt:
  "ns_mmap_handler E w a g = (r, w') \<Longrightarrow> fdt w' = fdt w" "ns_munmap_handler E w a g = (r, w') \<Longrightarrow> fdt w' = fdt w"
  "ns_chdir_handler E w a g = (r, w') \<Longrightarrow> fdt w' = fdt w" "ns_clone_handler E w a g = (r, w') \<Longrightarrow> fdt w' = fdt w"
  "ns_getcwd_handler E w a g = (r, w') \<Longrightarrow> fdt w' = fdt w"
  by (auto simp: ns_mmap_handler_def ns_munmap_handler_def ns_chdir_handler_def ns_clone_handler_def ns_getcwd_handler_def Let_def
      dest: call_fdt(1-4) split: inv_splits)

lemma alloc_handlers_keep:
  assumes "fdtables_ok (ge_fd E)"
  shows "ns_open_handler E w a g = (r, w') \<Longrightarrow> keeps_fd E c fd w w'" "ns_openat_handler E w a g = (r, w') \<Longrightarrow> keeps_fd E c fd w w'"
    "ns_dup_handler E w a g = (r, w') \<Longrightarrow> keeps_fd E c fd w w'" "ns_fcntl_handler E w a g = (r, w') \<Longrightarrow> keeps_fd E c fd w w'"
proof -
  have i: "keeps_fd E c fd w w'" if "install_opened E w1 cg ret m = (r, w')" "fdt w1 = fdt w" for w w1 w' :: "'a fs_world" and cg ret m r
    using that keeps_alloc(1) [OF assms, of w] by (auto simp: install_opened_def call_fdt(5) keeps_fdt split: option.splits)
  show "ns_open_handler E w a g = (r, w') \<Longrightarrow> keeps_fd E c fd w w'"
    by (auto simp: ns_open_handler_def Let_def split: inv_splits dest!: call_fdt(1) intro: i keeps_fdt)
  show "ns_openat_handler E w a g = (r, w') \<Longrightarrow> keeps_fd E c fd w w'"
    by (auto simp: ns_openat_handler_def Let_def split: inv_splits dest!: call_fdt(1,2) intro: i keeps_fdt)
  show "ns_dup_handler E w a g = (r, w') \<Longrightarrow> keeps_fd E c fd w w'"
    using keeps_alloc(1) [OF assms, of w]
    by (auto simp: ns_dup_handler_def Let_def call_fdt(5) split: inv_splits dest!: call_fdt(4) intro: keeps_fdt)
  show "ns_fcntl_handler E w a g = (r, w') \<Longrightarrow> keeps_fd E c fd w w'"
    using keeps_alloc(2) [OF assms, of w]
    by (auto simp: ns_fcntl_handler_def Let_def split: inv_splits dest!: call_fdt(1) intro: keeps_fdt)
qed

lemma close_keeps:
  assumes "fdtables_ok (ge_fd E)" "ns_close_handler E w a g = (r, w')" "g ! 0 \<noteq> c \<or> a ! 0 \<noteq> fd"
  shows "keeps_fd E c fd w w'"
  using assms(2) keeps_elsewhere(1) [OF assms(1,3), of w]
  by (auto simp: ns_close_handler_def Let_def split: inv_splits dest!: call_fdt(1) intro: keeps_fdt)

lemma dup_onto_keeps:
  assumes "fdtables_ok (ge_fd E)" "g ! 0 \<noteq> c \<or> a ! 1 \<noteq> fd"
  shows "ns_dup2_handler E w a g = (r, w') \<Longrightarrow> keeps_fd E c fd w w'" "ns_dup3_handler E w a g = (r, w') \<Longrightarrow> keeps_fd E c fd w w'"
proof -
  note k = keeps_elsewhere(3,4) [OF assms]
  have d: "keeps_fd E c fd w w1" if "dup_under E (drop_target E w (g ! 0) (a ! 1)) (g ! 0) e = (ret, w1)" for w1 e ret
    using k(1) [of w] call_fdt(4) [OF that] by (simp add: keeps_fd_def)
  have s: "keeps_fd E c fd w w2" if "keeps_fd E c fd w w1" "do_syscall E w1 cg nr as gs = (ret, w2)" for w1 w2 cg nr as gs ret
    using that(1) call_fdt(1) [OF that(2)] by (simp add: keeps_fd_def)
  have cu: "keeps_fd E c fd w (close_under E w1 cg u)" if "keeps_fd E c fd w w1" for w1 cg u
    using that by (simp add: keeps_fd_def call_fdt(5))
  show "ns_dup2_handler E w a g = (r, w') \<Longrightarrow> keeps_fd E c fd w w'"
    by (auto simp: ns_dup2_handler_def Let_def split: inv_splits intro: d keeps_fdt keeps_fd_trans [OF d k(2)])
  show "ns_dup3_handler E w a g = (r, w') \<Longrightarrow> keeps_fd E c fd w w'"
    by (auto simp: ns_dup3_handler_def Let_def split: inv_splits intro: d cu cu [OF s [OF d]] s [OF d] keeps_fdt keeps_fd_trans [OF d k(2)] keeps_fd_trans [OF s [OF d] k(2)])
qed

text \<open>A call of the grate that neither closes nor replaces descriptor \<open>fd\<close> of cage \<open>c\<close>.\<close>

inductive spares :: "'ft grate_env \<Rightarrow> nat \<Rightarrow> nat \<Rightarrow> 'ft fs_world \<Rightarrow> 'ft fs_world \<Rightarrow> bool" for E c fd where
  sparing: "get_ns_handler nr = Some h \<Longrightarrow> h E w a g = (r, w') \<Longrightarrow>
    \<not> (nr = SYS_CLOSE \<and> g ! 0 = c \<and> a ! 0 = fd) \<Longrightarrow> \<not> (nr \<in> {SYS_DUP2, SYS_DUP3} \<and> g ! 0 = c \<and> a ! 1 = fd) \<Longrightarrow> spares E c fd w w'"

lemma spares_keeps:
  assumes "fdtables_ok (ge_fd E)" "spares E c fd w w'"
  shows "keeps_fd E c fd w w'"
  using assms(2)
proof cases
  case (sparing nr h a g r)
  note inst = ns_symlinkat_handler_def ns_readlinkat_handler_def ns_unlinkat_handler_def ns_faccessat_handler_def
    ns_statx_handler_def ns_fchmodat_handler_def ns_fchownat_handler_def
  note h = alloc_handlers_keep [OF assms(1)] close_keeps [OF assms(1)]
    dup_onto_keeps [simplified, OF assms(1), rotated]
  note h' = path_handlers_fdt state_handlers_fdt
  show ?thesis using sparing
    by (auto simp: get_ns_handler_def inst split: if_splits dest: h h' intro: keeps_fdt)
qed

lemma spares_run_keeps: "(spares E c fd)\<^sup>*\<^sup>* w w' \<Longrightarrow> fdtables_ok (ge_fd E) \<Longrightarrow> keeps_fd E c fd w w'"
  by (induction rule: rtranclp_induct) (auto intro: keeps_fdt keeps_fd_trans spares_keeps)

text \<open>C27. A descriptor stays on the side of the routing condition it was opened under.  Suppose a clamped grate handles
  \<open>open\<close> for the cage and an open succeeds.  Whatever calls of the file-system handlers follow, by any cage, as long
  as none closes the returned descriptor or duplicates another onto it, a call on the descriptor by one of the handlers of \<open>fd_routed\<close>
  (read, write, lseek, fstat and the like) is one call
  carrying the descriptor the open itself obtained; it goes to the clamped side exactly when the
  resolved path had the routing prefix at the time of the open, and so did the open call itself.  Nothing is said of
  \<open>close\<close> and \<open>fcntl\<close>, which go to the kernel when they have no route, nor of an open without a route
  (\<open>open_without_route\<close>).\<close>

theorem open_fixes_side:
  assumes "fdtables_ok (ge_fd E)" "\<And>ft c k u ce q fd ft'. get_unused_virtual_fd (ge_fd E) ft c k u ce q = Some (fd, ft') \<Longrightarrow> fd < 2 ^ 31"
    and "resolve_path_from_cage E w (g ! 1) (a ! 0) (g ! 0) = Some p"
    and "ns_open_handler E w a g = (r, w1)" "0 \<le> r" "get_route (ns w) (g ! 0) SYS_OPEN = Some alt"
    and "(spares E (g ! 0) (nat r))\<^sup>*\<^sup>* w1 w2"
    and "sysno \<in> set fd_routed" "g' ! 0 = g ! 0" "a' ! 0 = nat r" "a' \<noteq> []"
    and "fd_route_handler sysno E w2 a' g' = (r2, w3)"
  shows "\<exists>c c2. hist w1 = hist w @ [Threei c] \<and> hist w3 = hist w2 @ [Threei c2] \<and>
    hd (call_args c2) = Num (as_u64 (ge_sys E (hist w) c)) \<and> tl (call_args c2) = map Num (tl a') \<and>
    (if starts_with p (get_routing_prefix (ns w)) then on_clamp (ns w) SYS_OPEN c \<and> on_clamp (ns w2) sysno c2
     else on_kernel (ns w) SYS_OPEN c \<and> on_kernel (ns w2) sysno c2)"
proof -
  obtain c vfd where o: "hist w1 = hist w @ [Threei c]" "ns w1 = ns w" "r = as_i32 (int vfd)"
    "translate_virtual_fd (ge_fd E) (fdt w1) (g ! 0) vfd =
      Some (mk_entry 0 (as_u64 (ge_sys E (hist w) c)) False (if path_matches_prefix (ns w) p then 1 else 0))"
    "if path_matches_prefix (ns w) p then on_clamp (ns w) SYS_OPEN c else on_kernel (ns w) SYS_OPEN c"
    and "\<exists>k u ce q ft. get_unused_virtual_fd (ge_fd E) (fdt w) (g ! 0) k u ce q = Some (vfd, ft)"
    using open_spec [OF assms(1,3,4,5)] unfolding assms(6) option.case by blast
  then have "vfd < 2 ^ 31" using assms(2) by blast
  then have "nat r = vfd" using o(3) by (simp only: as_i32_small nat_int)
  with o(4) spares_run_keeps [OF assms(7,1)] assms(9,10) have t: "translate_virtual_fd (ge_fd E) (fdt w2) (g' ! 0) (a' ! 0) =
      Some (mk_entry 0 (as_u64 (ge_sys E (hist w) c)) False (if path_matches_prefix (ns w) p then 1 else 0))"
    by (simp add: keeps_fd_def)
  from fd_route_spec [OF t assms(12)] obtain c2 where
    "w3 = log_event (Threei c2) w2" "call_args c2 = map Num (a'[0 := as_u64 (ge_sys E (hist w) c)])"
    "if path_matches_prefix (ns w) p then on_clamp (ns w2) sysno c2 else on_kernel (ns w2) sysno c2"
    by (auto split: if_splits)
  then show ?thesis using o(1,5) assms(11)
    by (intro exI [of _ c] exI [of _ c2]) (cases a'; auto simp: path_matches_prefix_def split: if_splits)
qed

section \<open>Nesting of clamp blocks\<close>

text \<open>
  The intended behaviour of the chain of exec calls, as a machine on the depth, the entry grate and
  the cages that became targets: \<open>%{\<close> opens an inner block, \<open>%}\<close> closes one, and the one that closes
  the outer block makes the calling cage a target; any other program at depth 1 is the entry.
\<close>

fun clamp_spec :: "nat \<times> nat \<times> nat list \<Rightarrow> string \<times> nat \<Rightarrow> nat \<times> nat \<times> nat list" where
  "clamp_spec (d, e, ts) (p, c) =
     (if p = ''%{'' then (d + 1, e, ts)
      else if p = ''%}'' then (d - 1, e, if d > 1 then ts else ts @ [c])
      else (d, if d = 1 then c else e, ts))"

fun exec_run :: "nat list \<Rightarrow> 'ft grate_env \<Rightarrow> 'ft fs_world \<Rightarrow> (nat list \<times> nat list) list \<Rightarrow> 'ft fs_world option" where
  "exec_run fd_table E w [] = Some w"
| "exec_run fd_table E w ((a, g) # xs) =
     (case exec_handler fd_table E w a g of None \<Rightarrow> None | Some (_, w) \<Rightarrow> exec_run fd_table E w xs)"

definition is_register :: "event \<Rightarrow> bool" where
  "is_register e = (case e of Register _ _ _ \<Rightarrow> True | _ \<Rightarrow> False)"

lemma exec_run_append:
  "exec_run fd_table E w (xs @ ys) = (case exec_run fd_table E w xs of None \<Rightarrow> None | Some w \<Rightarrow> exec_run fd_table E w ys)"
  by (induction xs arbitrary: w) (auto split: option.split)

lemma register_alt_depth:
  assumes "register_alt E w t nr = (e, w')"
  shows "clamp_depth (ns w') = clamp_depth (ns w) \<and> clamp_entry_cage (ns w') = clamp_entry_cage (ns w) \<and>
    (\<exists>es. hist w' = hist w @ es)"
  using assms by (auto simp: register_alt_def do_syscall_def set_route_def alloc_alt_syscall_def Let_def
      split: option.splits if_splits)

lemma register_loop_depth:
  "list_all (\<lambda>nr. (get_ns_handler nr :: 'ft fs_handler option) \<noteq> None) nrs \<Longrightarrow>
   register_target_loop E (w :: 'ft fs_world) t nrs = Some (e, w') \<Longrightarrow>
   clamp_depth (ns w') = clamp_depth (ns w) \<and> clamp_entry_cage (ns w') = clamp_entry_cage (ns w) \<and> (\<exists>es. hist w' = hist w @ es)"
proof (induction nrs arbitrary: w)
  case (Cons nr nrs)
  obtain x w1 where a: "register_alt E w t nr = (x, w1)" by fastforce
  obtain q w2 where r: "register_handler E w1 t nr (ge_cage E) = (q, w2)" by fastforce
  have w2: "ns w2 = ns w1" "hist w2 = hist w1 @ [Register t nr (ge_cage E)]"
    using r by (auto simp: register_handler_def Let_def split: if_splits)
  have "register_target_loop E w t (nr # nrs) =
      (case x of Some ret \<Rightarrow> Some (Some ret, w1)
       | None \<Rightarrow> (case q of Inr _ \<Rightarrow> register_target_loop E w2 t nrs | Inl _ \<Rightarrow> Some (Some (-1), w2)))"
    using Cons.prems(1) by (subst register_target_loop_Cons) (auto simp: a r split: option.split sum.split)
  with Cons.prems(2) have "w' = w1 \<or> w' = w2 \<or> register_target_loop E w2 t nrs = Some (e, w')"
    by (auto split: option.splits sum.splits)
  moreover have "register_target_loop E w2 t nrs = Some (e, w') \<Longrightarrow>
      clamp_depth (ns w') = clamp_depth (ns w2) \<and> clamp_entry_cage (ns w') = clamp_entry_cage (ns w2) \<and> (\<exists>es. hist w' = hist w2 @ es)"
    using Cons.IH Cons.prems(1) by simp
  ultimately show ?case using register_alt_depth [OF a] w2 by (elim disjE) auto
qed simp

lemma register_target_Some: "\<exists>r w'. register_target_handlers fd_table E w t = Some (r, w')"
proof -
  obtain e w1 where "register_target_loop E w t FS_CALLS = Some (e, w1)"
    using register_target_loop_total [OF ns_handler_total] by blast
  then show ?thesis by (auto simp: register_target_handlers_def split: option.split prod.split sum.split)
qed

lemma register_target_depth:
  assumes "register_target_handlers fd_table E w t = Some (r, w')"
  shows "clamp_depth (ns w') = clamp_depth (ns w) \<and> clamp_entry_cage (ns w') = clamp_entry_cage (ns w) \<and>
    (\<exists>es. hist w' = hist w @ es)"
proof -
  obtain e w1 where l: "register_target_loop E w t FS_CALLS = Some (e, w1)"
    using register_target_loop_total [OF ns_handler_total] by blast
  obtain q w2 where d: "register_default_fd_handlers_except E w1 t (ge_cage E) (Some FS_CALLS) fd_table = (q, w2)" by fastforce
  from assms l d have "w' = w1 \<or> w' = w2" by (auto simp: register_target_handlers_def split: option.splits sum.splits)
  then show ?thesis using register_loop_depth [OF ns_handler_total l] default_fd_frame [OF d] by auto
qed

lemma marker_simps [simp]:
  "clamp_depth (set_clamp_entry s c) = clamp_depth s" "clamp_entry_cage (set_clamp_entry s c) = c"
  "clamp_depth (exit_nested_clamp s) = clamp_depth s - 1" "clamp_entry_cage (exit_nested_clamp s) = clamp_entry_cage s"
  "clamp_depth s + 1 < 2 ^ 32 \<Longrightarrow> clamp_depth (enter_nested_clamp s) = clamp_depth s + 1"
  "clamp_entry_cage (enter_nested_clamp s) = clamp_entry_cage s"
  "clamp_depth (deregister_clamped_cage s c) = clamp_depth s" "clamp_entry_cage (deregister_clamped_cage s c) = clamp_entry_cage s"
  "get_route (set_clamp_entry s c) = get_route s" "get_route (exit_nested_clamp s) = get_route s"
  "get_route (enter_nested_clamp s) = get_route s"
  by (auto simp: set_clamp_entry_def exit_nested_clamp_def enter_nested_clamp_def deregister_clamped_cage_def get_route_def
      fun_eq_iff split: option.split)

lemma exec_step_spec:
  assumes "clamp_read_path E w (a ! 0) (g ! 0) = Some p" "clamp_depth (ns w) + 1 < 2 ^ 32"
  shows "\<exists>r w' es. exec_handler fd_table E w a g = Some (r, w') \<and> hist w' = hist w @ es \<and>
    (case clamp_spec (clamp_depth (ns w), clamp_entry_cage (ns w), ts) (p, g ! 0) of (d, e, ts') \<Rightarrow>
       clamp_depth (ns w') = d \<and> clamp_entry_cage (ns w') = e \<and>
       (ts' = ts \<longrightarrow> get_route (ns w') = get_route (ns w) \<and> \<not> list_ex is_register es))"
proof -
  consider "p = ''%{''" | "p = ''%}''" "clamp_depth (ns w) > 1" | "p = ''%}''" "\<not> clamp_depth (ns w) > 1" | "p \<noteq> ''%{''" "p \<noteq> ''%}''" by blast
  then show ?thesis
  proof cases
    case 3
    obtain r1 w1 where t: "register_target_handlers fd_table E w (g ! 0) = Some (r1, w1)"
      using register_target_Some by blast
    obtain es where w1: "clamp_depth (ns w1) = clamp_depth (ns w)" "clamp_entry_cage (ns w1) = clamp_entry_cage (ns w)" "hist w1 = hist w @ es"
      using register_target_depth [OF t] by blast
    with t 3 assms show ?thesis by (auto simp: exec_handler_def do_syscall_def Let_def split: option.split)
  qed (use assms in \<open>auto simp: exec_handler_def do_syscall_def Let_def is_register_def\<close>)
qed

text \<open>C29. The chain of exec calls follows the nesting of the clamp markers: over every sequence of exec
  calls whose paths can be read, the grate returns, its depth and its entry grate are those of the
  specification machine, and as long as no \<open>%}\<close> closed the outer block no route is changed and no
  handler is registered.\<close>

theorem exec_nesting:
  assumes "list_all (\<lambda>(p, a, g). \<forall>w. clamp_read_path E w (a ! 0) (g ! 0) = Some p) xs"
    and "clamp_depth (ns w) + length xs < 2 ^ 32"
  shows "\<exists>w' es. exec_run fd_table E w (map snd xs) = Some w' \<and> hist w' = hist w @ es \<and>
    (case foldl clamp_spec (clamp_depth (ns w), clamp_entry_cage (ns w), []) (map (\<lambda>(p, a, g). (p, g ! 0)) xs) of (d, e, ts) \<Rightarrow>
       clamp_depth (ns w') = d \<and> d \<le> clamp_depth (ns w) + length xs \<and> clamp_entry_cage (ns w') = e \<and>
       (ts = [] \<longrightarrow> get_route (ns w') = get_route (ns w) \<and> \<not> list_ex is_register es))"
  using assms
proof (induction xs rule: rev_induct)
  case (snoc x xs)
  obtain p a g where x: "x = (p, a, g)" by (cases x)
  obtain d e ts where f: "foldl clamp_spec (clamp_depth (ns w), clamp_entry_cage (ns w), []) (map (\<lambda>(p, a, g). (p, g ! 0)) xs) = (d, e, ts)"
    by (metis prod_cases3)
  obtain w1 es where w1: "exec_run fd_table E w (map snd xs) = Some w1" "hist w1 = hist w @ es"
    "clamp_depth (ns w1) = d" "d \<le> clamp_depth (ns w) + length xs" "clamp_entry_cage (ns w1) = e"
    "ts = [] \<Longrightarrow> get_route (ns w1) = get_route (ns w) \<and> \<not> list_ex is_register es"
    using snoc.IH snoc.prems f by auto
  have "clamp_depth (ns w1) + 1 < 2 ^ 32" using w1(3,4) snoc.prems(2) by simp
  from exec_step_spec [of E w1 a g p, OF _ this, of fd_table ts] snoc.prems(1) x obtain r w2 es2 where
    w2: "exec_handler fd_table E w1 a g = Some (r, w2)" "hist w2 = hist w1 @ es2"
    "case clamp_spec (d, e, ts) (p, g ! 0) of (d, e, ts') \<Rightarrow> clamp_depth (ns w2) = d \<and> clamp_entry_cage (ns w2) = e \<and>
       (ts' = ts \<longrightarrow> get_route (ns w2) = get_route (ns w1) \<and> \<not> list_ex is_register es2)"
    using w1(3,5) by auto
  have "exec_run fd_table E w (map snd (xs @ [x])) = Some w2" using w1(1) w2(1) by (simp add: exec_run_append x)
  moreover have "hist w2 = hist w @ (es @ es2)" using w1(2) w2(2) by simp
  moreover have "case clamp_spec (d, e, ts) (p, g ! 0) of (d', e, ts') \<Rightarrow> clamp_depth (ns w2) = d' \<and>
      d' \<le> clamp_depth (ns w) + length (xs @ [x]) \<and> clamp_entry_cage (ns w2) = e \<and>
       (ts' = [] \<longrightarrow> get_route (ns w2) = get_route (ns w) \<and> \<not> list_ex is_register (es @ es2))"
    using w2(3) w1(4,6) by (auto split: if_splits)
  ultimately show ?case using f by (auto simp: x)
qed simp

section \<open>Instances\<close>

lemma register_target_succeeds:
  assumes "\<And>h c n k. ge_register E h c n k = 0" "\<And>h c. callnumber c = SYS_REGISTER_HANDLER \<Longrightarrow> ge_sys E h c = 0"
  shows "\<exists>w'. register_target_handlers [] E (w :: 'ft fs_world) t = Some (0, w')"
proof -
  have "\<exists>w'. register_target_loop E w t nrs = Some (None, w')"
    if "list_all (\<lambda>nr. (get_ns_handler nr :: 'ft fs_handler option) \<noteq> None) nrs" for nrs and w :: "'ft fs_world"
    using that
  proof (induction nrs arbitrary: w)
    case (Cons nr nrs)
    obtain e w1 where a: "register_alt E w t nr = (e, w1)" by fastforce
    have "e = None" using a assms(2)
      by (auto simp: register_alt_def do_syscall_def Let_def alloc_alt_syscall_def split: option.splits if_splits)
    moreover obtain w2 where "register_handler E w1 t nr (ge_cage E) = (Inr (), w2)"
      using assms(1) by (simp add: register_handler_def Let_def)
    ultimately show ?case using Cons a
      by (subst register_target_loop_Cons) simp_all
  qed simp
  from this [OF ns_handler_total, of w] show ?thesis by (auto simp: register_target_handlers_def)
qed

theorem target_registration_witness:
  "\<exists>w' alt. register_target_handlers [] demo_clamp_env
      (demo_clamp_world\<lparr>ns := push_interposition_request (ns demo_clamp_world) (4, SYS_OPEN, 9, 77)\<rparr>) 4 = Some (0, w') \<and>
    get_route (ns w') 4 SYS_OPEN = Some alt"
proof -
  let ?w = "demo_clamp_world\<lparr>ns := push_interposition_request (ns demo_clamp_world) (4, SYS_OPEN, 9, 77)\<rparr>"
  obtain w' where w': "register_target_handlers [] demo_clamp_env ?w 4 = Some (0, w')"
    using register_target_succeeds [of demo_clamp_env ?w 4] by (auto simp: demo_clamp_env_def)
  have q: "get_interposition_request (ns ?w) 4 SYS_OPEN = Some (9, 77)"
    by (simp add: get_interposition_request_def push_interposition_request_def)
  obtain es where "list_all (\<lambda>nr. routed_as demo_clamp_env ?w 4 nr es w') FS_CALLS"
    using target_registration [of "[]" demo_clamp_env ?w 4] w' by auto
  then have "routed_as demo_clamp_env ?w 4 SYS_OPEN es w'" by (simp add: FS_CALLS_def)
  then show ?thesis using q w' by (auto simp: routed_as_def simp del: ext_inject)
qed

theorem exec_nesting_witness:
  "\<exists>w'. exec_run [] demo_clamp_env demo_clamp_world [([8, 0, 0, 0, 0, 0], [4, 4, 4, 4, 4, 4])] = Some w' \<and>
    clamp_depth (ns w') = 1 \<and> clamp_entry_cage (ns w') = 4"
proof -
  have p: "\<forall>w. clamp_read_path demo_clamp_env w 8 4 = Some ''/tmp/a''"
  proof -
    have "from_utf8 (c_str_bytes (as_bytes ''/tmp/a'' @ [0])) = Some ''/tmp/a''" by code_simp
    then show ?thesis by (simp add: clamp_read_path_def demo_clamp_env_def)
  qed
  have d: "clamp_depth (ns demo_clamp_world) = 1"
    by (simp add: clamp_start_def clamp_setup_def fs_globals_def register_lifecycle_handlers_def register_handler_def Let_def register_clamped_cage_def ns_new_def)
  show ?thesis using exec_nesting [of demo_clamp_env "[(''/tmp/a'', [8, 0, 0, 0, 0, 0], [4, 4, 4, 4, 4, 4])]" demo_clamp_world "[]"] p d
    by auto
qed

abbreviation demo_routed_world :: "(nat list \<times> fd_map) fs_world" where
  "demo_routed_world \<equiv> \<lparr>fdt = ([4], []), hist = [], ns = set_route (ns_new 1 ''/tmp'') 4 SYS_OPEN 3000, clamped_mmaps = Map.empty\<rparr>"

lemma demo_resolve: "resolve_path_from_cage demo_clamp_env demo_routed_world 4 8 4 = Some ''/tmp/a''"
proof -
  have "from_utf8 (c_str_bytes (as_bytes ''/tmp/a'' @ [0])) = Some ''/tmp/a''" "clamp_normalize ''/tmp/a'' = ''/tmp/a''" by code_simp+
  then show ?thesis
    by (simp add: resolve_path_from_cage_def resolve_path_for_cage_def clamp_read_path_def demo_clamp_env_def starts_with_def)
qed

lemma cage_fdtables_small: "get_unused_virtual_fd cage_fdtables ft c k u ce q = Some (fd, ft') \<Longrightarrow> fd < 2 ^ 31"
  using map_fdtables_small by (cases ft) (auto simp: cage_fdtables_def)

theorem open_fixes_side_witness:
  "\<exists>r w1 w2 r2 c c2. ns_open_handler demo_clamp_env demo_routed_world [8, 0, 0, 0, 0, 0] [4, 4, 4, 4, 4, 4] = (r, w1) \<and>
    fd_route_handler SYS_READ demo_clamp_env w1 [nat r, 0, 0, 0, 0, 0] [4, 4, 4, 4, 4, 4] = (r2, w2) \<and>
    hist w2 = [Threei c, Threei c2] \<and> on_clamp (ns w1) SYS_READ c2"
proof -
  let ?g = "[4, 4, 4, 4, 4, 4] :: nat list" and ?a = "[8, 0, 0, 0, 0, 0] :: nat list"
  have m: "path_matches_prefix (ns demo_routed_world) ''/tmp/a''"
    by (simp add: path_matches_prefix_def get_routing_prefix_def set_route_def ns_new_def starts_with_def Let_def)
  have rt: "get_route (ns demo_routed_world) (?g ! 0) SYS_OPEN = Some 3000" by (simp add: fs_routes.get_put)
  obtain r w1 where o: "ns_open_handler demo_clamp_env demo_routed_world ?a ?g = (r, w1)" by fastforce
  have fresh: "get_unused_virtual_fd cage_fdtables ([4], []) 4 0 5 False 1 = Some (0, ([4], [((4, 0), mk_entry 0 5 False 1)]))" by code_simp
  have E: "ge_sys demo_clamp_env h \<lparr>callnumber = 3000, self_cageid = x, target_cageid = y, call_args = z, call_cages = v\<rparr> = 5"
    "ge_fd demo_clamp_env = cage_fdtables" for h x y z v by (simp_all add: demo_clamp_env_def)
  have "as_u64 5 = 5" by (simp add: as_u64_def)
  then have r: "0 \<le> r" using o m rt demo_resolve fresh E
    by (simp add: ns_open_handler_def do_syscall_def install_opened_def as_i32_def Let_def)
  obtain r2 w2 where f: "fd_route_handler SYS_READ demo_clamp_env w1 [nat r, 0, 0, 0, 0, 0] ?g = (r2, w2)" by fastforce
  have ok: "fdtables_ok (ge_fd demo_clamp_env)" by (simp add: demo_clamp_env_def cage_fdtables_ok)
  have small: "\<And>ft c k u ce q fd ft'. get_unused_virtual_fd (ge_fd demo_clamp_env) ft c k u ce q = Some (fd, ft') \<Longrightarrow> fd < 2 ^ 31"
    using cage_fdtables_small by (simp add: demo_clamp_env_def)
  have p: "resolve_path_from_cage demo_clamp_env demo_routed_world (?g ! 1) (?a ! 0) (?g ! 0) = Some ''/tmp/a''"
    and n: "SYS_READ \<in> set fd_routed" and a0: "[nat r, 0, 0, 0, 0, 0] ! 0 = nat r" "[nat r, 0, 0, 0, 0, 0] \<noteq> []"
    using demo_resolve by (simp_all add: fd_routed_def)
  have "\<exists>c c2. hist w1 = hist demo_routed_world @ [Threei c] \<and> hist w2 = hist w1 @ [Threei c2] \<and>
    hd (call_args c2) = Num (as_u64 (ge_sys demo_clamp_env (hist demo_routed_world) c)) \<and>
    tl (call_args c2) = map Num (tl [nat r, 0, 0, 0, 0, 0]) \<and>
    (if starts_with ''/tmp/a'' (get_routing_prefix (ns demo_routed_world))
     then on_clamp (ns demo_routed_world) SYS_OPEN c \<and> on_clamp (ns w1) SYS_READ c2
     else on_kernel (ns demo_routed_world) SYS_OPEN c \<and> on_kernel (ns w1) SYS_READ c2)"
    by (rule open_fixes_side [OF ok _ p o r rt rtranclp.rtrancl_refl n refl a0 f]) (rule small)
  then obtain c c2 where "hist w1 = hist demo_routed_world @ [Threei c]" "hist w2 = hist w1 @ [Threei c2]" "on_clamp (ns w1) SYS_READ c2"
    unfolding if_P [OF m [unfolded path_matches_prefix_def]] by (elim exE conjE) (rule that)
  then have "hist w2 = [Threei c, Threei c2] \<and> on_clamp (ns w1) SYS_READ c2" by simp
  with o f show ?thesis by blast
qed

section \<open>Departures from the comments\<close>

text \<open>
  The comment on the munmap handler says that the call is routed when it overlaps a clamped mapping.
  With a route for munmap every munmap of the cage goes to the clamped grate.
\<close>

lemma munmap_routed_regardless:
  assumes "get_route (ns w) (g ! 0) SYS_MUNMAP = Some alt" "\<not> is_clamped_mmap (clamped_mmaps w) (g ! 0) (a ! 0) (a ! 1)"
    and "ns_munmap_handler E w a g = (r, w')"
  shows "\<exists>c. hist w' = hist w @ [Threei c] \<and> callnumber c = as_u32 alt"
  using assms by (auto simp: ns_munmap_handler_def do_syscall_def Let_def split: if_splits)

text \<open>
  The prefix test has no component boundary: with the prefix \<open>/tmp\<close> the unrelated path \<open>/tmpfoo\<close> is
  routed to the clamped side.
\<close>

lemma prefix_no_boundary: "path_matches_prefix (ns_new 1 ''/tmp'') ''/tmpfoo''"
  by (simp add: path_matches_prefix_def get_routing_prefix_def ns_new_def starts_with_def)

text \<open>
  Without a route for open, a path under the prefix is opened by the kernel while the descriptor is
  entered as clamped, so the calls on it go to the other side.
\<close>

lemma open_without_route:
  assumes "fdtables_ok (ge_fd E)" "resolve_path_from_cage E w (g ! 1) (a ! 0) (g ! 0) = Some p"
    and "ns_open_handler E w a g = (r, w')" "0 \<le> r" "path_matches_prefix (ns w) p" "get_route (ns w) (g ! 0) SYS_OPEN = None"
  shows "\<exists>c vfd e. hist w' = hist w @ [Threei c] \<and> on_kernel (ns w) SYS_OPEN c \<and>
    translate_virtual_fd (ge_fd E) (fdt w') (g ! 0) vfd = Some e \<and> perfdinfo e = 1"
  using open_spec [OF assms(1-4)] assms(5,6) by fastforce

end
