(* ===== verification/Clamp_Net.thy ===== *)
theory Clamp_Net
  imports Rust_Str Grate Clamp_Routes
begin

unbundle bit_operations_syntax

text \<open>
  net-routing-clamp (\<open>rust-grates/net-routing-clamp/src\<close>): like fs-routing-clamp, but the condition is
  a port range.  A socket that is bound or connected to a port of the range is marked in the
  descriptor table, and later calls on it go to the clamped grate.  The globals are initialised
  before a handler is registered, so the model has them as plain values.
\<close>

section \<open>State\<close>

record net_state =
  nroutes :: "nat \<times> nat \<rightharpoonup> nat"
  port_range :: "u16 \<times> u16"
  nclamped_cages :: "nat set"
  nalt_allocator :: nat

record 'ft net_world = "'ft grate_world" +
  net :: net_state

type_synonym 'ft net_handler = "'ft grate_env \<Rightarrow> 'ft net_world \<Rightarrow> nat list \<Rightarrow> nat list \<Rightarrow> int \<times> 'ft net_world"

definition net_init :: "u16 \<Rightarrow> u16 \<Rightarrow> net_state" where
  "net_init low high = \<lparr>nroutes = Map.empty, port_range = (low, high), nclamped_cages = {}, nalt_allocator = 2000\<rparr>"

definition net_alloc_alt :: "net_state \<Rightarrow> nat \<times> net_state" where
  "net_alloc_alt s = (nalt_allocator s, s\<lparr>nalt_allocator := (nalt_allocator s + 1) mod 2 ^ 64\<rparr>)"

definition net_register_clamped :: "net_state \<Rightarrow> nat \<Rightarrow> net_state" where
  "net_register_clamped s cage = s\<lparr>nclamped_cages := insert cage (nclamped_cages s)\<rparr>"

definition net_deregister_clamped :: "net_state \<Rightarrow> nat \<Rightarrow> net_state" where
  "net_deregister_clamped s cage = s\<lparr>nclamped_cages := nclamped_cages s - {cage}\<rparr>"

definition net_is_clamped :: "net_state \<Rightarrow> nat \<Rightarrow> bool" where
  "net_is_clamped s cage = (cage \<in> nclamped_cages s)"

definition net_set_route :: "net_state \<Rightarrow> nat \<Rightarrow> nat \<Rightarrow> nat \<Rightarrow> net_state" where
  "net_set_route s cage nr alt = s\<lparr>nroutes := (nroutes s)((cage, nr) \<mapsto> alt)\<rparr>"

definition net_get_route :: "net_state \<Rightarrow> nat \<Rightarrow> nat \<Rightarrow> nat option" where
  "net_get_route s cage nr = nroutes s (cage, nr)"

definition net_clone_routes :: "net_state \<Rightarrow> nat \<Rightarrow> nat \<Rightarrow> net_state" where
  "net_clone_routes s parent child =
     s\<lparr>nroutes := (\<lambda>(c, nr). if c = child \<and> nroutes s (parent, nr) \<noteq> None then nroutes s (parent, nr) else nroutes s (c, nr))\<rparr>"

definition net_remove_cage :: "net_state \<Rightarrow> nat \<Rightarrow> net_state" where
  "net_remove_cage s cage =
     s\<lparr>nroutes := (\<lambda>(c, nr). if c = cage then None else nroutes s (c, nr)), nclamped_cages := nclamped_cages s - {cage}\<rparr>"

section \<open>Ports\<close>

definition port_in_range :: "net_state \<Rightarrow> u16 \<Rightarrow> bool" where
  "port_in_range s port = (case port_range s of (low, high) \<Rightarrow> low \<le> port \<and> port \<le> high)"

text \<open>The family is little-endian, the port big-endian; families 2 and 10 are the internet ones.\<close>

definition be_u16 :: "byte \<Rightarrow> byte \<Rightarrow> u16" where
  "be_u16 a b = word_of_nat (256 * unat a + unat b)"

definition extract_port_from_sockaddr :: "byte list \<Rightarrow> u16 option" where
  "extract_port_from_sockaddr buf =
     (if length buf < 4 then None
      else let family = le_nat [buf ! 0, buf ! 1] in
           if family = 2 \<or> family = 10 then Some (be_u16 (buf ! 2) (buf ! 3)) else None)"

definition net_read_path :: "'ft grate_env \<Rightarrow> 'ft net_world \<Rightarrow> nat \<Rightarrow> nat \<Rightarrow> string option" where
  "net_read_path E w path_ptr path_cage =
     (case ge_copymem E (hist w) path_cage path_ptr 4096 of
        None \<Rightarrow> None
      | Some buf \<Rightarrow> from_utf8 (c_str_bytes buf))"

definition read_port_from_cage :: "'ft grate_env \<Rightarrow> 'ft net_world \<Rightarrow> nat \<Rightarrow> nat \<Rightarrow> nat \<Rightarrow> u16 option" where
  "read_port_from_cage E w addr_ptr addr_cage addrlen =
     (case ge_copymem E (hist w) addr_cage addr_ptr (min (as_usize (int addrlen)) 128) of
        None \<Rightarrow> None
      | Some buf \<Rightarrow> extract_port_from_sockaddr buf)"

text \<open>Every error of the dispatched call becomes -1.\<close>

definition net_syscall ::
  "'ft grate_env \<Rightarrow> 'ft net_world \<Rightarrow> nat \<Rightarrow> nat \<Rightarrow> nat list \<Rightarrow> nat list \<Rightarrow> int \<times> 'ft net_world" where
  "net_syscall E w callingcage nr args arg_cages =
     (let c = \<lparr>callnumber = as_u32 nr, self_cageid = ge_cage E, target_cageid = callingcage,
               call_args = map Num args, call_cages = arg_cages\<rparr>
      in (case make_threei_call (ge_sys E (hist w)) c of Inr ret \<Rightarrow> ret | Inl _ \<Rightarrow> -1, log_event (Threei c) w))"

section \<open>Handlers\<close>

text \<open>The per-descriptor word, zero for an untracked cage or descriptor.\<close>

definition clamp_word :: "'ft grate_env \<Rightarrow> 'ft net_world \<Rightarrow> nat \<Rightarrow> nat \<Rightarrow> nat" where
  "clamp_word E w cage fd =
     (if check_cage_exists (ge_fd E) (fdt w) cage
      then (case translate_virtual_fd (ge_fd E) (fdt w) cage fd of Some e \<Rightarrow> perfdinfo e | None \<Rightarrow> 0) else 0)"

definition route_nr :: "'ft net_world \<Rightarrow> nat \<Rightarrow> nat \<Rightarrow> bool \<Rightarrow> nat" where
  "route_nr w cage sysno clamped =
     (case net_get_route (net w) cage sysno of Some alt \<Rightarrow> if clamped then alt else sysno | None \<Rightarrow> sysno)"

definition net_fd_route :: "nat \<Rightarrow> 'ft net_handler" where
  "net_fd_route sysno E w a g =
     net_syscall E w (g ! 0) (route_nr w (g ! 0) sysno (clamp_word E w (g ! 0) (a ! 0) \<noteq> 0)) a g"

definition net_fd_routed :: "nat list" where
  "net_fd_routed =
     [SYS_READ, SYS_WRITE, SYS_READV, SYS_WRITEV, SYS_SENDMSG, SYS_RECVMSG, SYS_LISTEN, SYS_SHUTDOWN, SYS_RECVFROM]"

text \<open>A descriptor the call returned is entered under its own number, if the cage is tracked.\<close>

definition track_fd :: "'ft grate_env \<Rightarrow> 'ft net_world \<Rightarrow> nat \<Rightarrow> nat \<Rightarrow> nat \<Rightarrow> 'ft net_world" where
  "track_fd E w cage fd pinfo =
     (if check_cage_exists (ge_fd E) (fdt w) cage
      then (case get_specific_virtual_fd (ge_fd E) (fdt w) cage fd 0 fd False pinfo of Some ft \<Rightarrow> w\<lparr>fdt := ft\<rparr> | None \<Rightarrow> w)
      else w)"

definition net_socket_handler :: "'ft net_handler" where
  "net_socket_handler E w a g =
     (let nr = (case net_get_route (net w) (g ! 0) SYS_SOCKET of Some alt \<Rightarrow> alt | None \<Rightarrow> SYS_SOCKET);
          (ret, w) = net_syscall E w (g ! 0) nr a g
      in (ret, if ret \<ge> 0 then track_fd E w (g ! 0) (as_u64 ret) 0 else w))"

text \<open>\<open>bind\<close> and \<open>connect\<close>.\<close>

definition addr_handler :: "nat \<Rightarrow> 'ft net_handler" where
  "addr_handler sysno E w a g =
     (let in_range = (case read_port_from_cage E w (a ! 1) (g ! 1) (a ! 2) of Some port \<Rightarrow> port_in_range (net w) port | None \<Rightarrow> False);
          (ret, w) = net_syscall E w (g ! 0) (route_nr w (g ! 0) sysno in_range) a g
      in (ret,
          if ret \<ge> 0 \<and> in_range \<and> check_cage_exists (ge_fd E) (fdt w) (g ! 0)
          then (case set_perfdinfo (ge_fd E) (fdt w) (g ! 0) (a ! 0) 1 of Some ft \<Rightarrow> w\<lparr>fdt := ft\<rparr> | None \<Rightarrow> w) else w))"

definition net_bind_handler :: "'ft net_handler" where
  "net_bind_handler = addr_handler SYS_BIND"

definition net_connect_handler :: "'ft net_handler" where
  "net_connect_handler = addr_handler SYS_CONNECT"

definition net_accept_handler :: "'ft net_handler" where
  "net_accept_handler E w a g =
     (let is_clamped = (clamp_word E w (g ! 0) (a ! 0) \<noteq> 0);
          (ret, w) = net_syscall E w (g ! 0) (route_nr w (g ! 0) SYS_ACCEPT is_clamped) a g
      in (ret, if ret \<ge> 0 then track_fd E w (g ! 0) (as_u64 ret) (if is_clamped then 1 else 0) else w))"

definition net_sendto_handler :: "'ft net_handler" where
  "net_sendto_handler E w a g =
     (let fd_clamped = (clamp_word E w (g ! 0) (a ! 0) \<noteq> 0);
          addr_clamped = (if a ! 4 \<noteq> 0
            then (case read_port_from_cage E w (a ! 4) (g ! 4) (a ! 5) of Some port \<Rightarrow> port_in_range (net w) port | None \<Rightarrow> False)
            else False)
      in net_syscall E w (g ! 0) (route_nr w (g ! 0) SYS_SENDTO (fd_clamped \<or> addr_clamped)) a g)"

definition net_close_handler :: "'ft net_handler" where
  "net_close_handler E w a g =
     (let is_clamped = (clamp_word E w (g ! 0) (a ! 0) \<noteq> 0);
          (ret, w) = net_syscall E w (g ! 0) (route_nr w (g ! 0) SYS_CLOSE is_clamped) a g
      in (ret,
          if check_cage_exists (ge_fd E) (fdt w) (g ! 0)
          then (case close_virtualfd (ge_fd E) (fdt w) (g ! 0) (a ! 0) of Some ft \<Rightarrow> w\<lparr>fdt := ft\<rparr> | None \<Rightarrow> w) else w))"

definition net_dup_handler :: "'ft net_handler" where
  "net_dup_handler E w a g =
     (let pinfo = clamp_word E w (g ! 0) (a ! 0);
          (ret, w) = net_syscall E w (g ! 0) (route_nr w (g ! 0) SYS_DUP (pinfo \<noteq> 0)) a g
      in (ret, if ret \<ge> 0 then track_fd E w (g ! 0) (as_u64 ret) pinfo else w))"

definition net_dup2_handler :: "'ft net_handler" where
  "net_dup2_handler E w a g =
     (let pinfo = clamp_word E w (g ! 0) (a ! 0);
          (ret, w) = net_syscall E w (g ! 0) (route_nr w (g ! 0) SYS_DUP2 (pinfo \<noteq> 0)) a g
      in (ret, if ret \<ge> 0 then track_fd E w (g ! 0) (a ! 1) pinfo else w))"

section \<open>Lifecycle\<close>

fun net_register_loop :: "'ft grate_env \<Rightarrow> 'ft net_world \<Rightarrow> nat \<Rightarrow> nat list \<Rightarrow> 'ft net_world" where
  "net_register_loop E w cage [] = w"
| "net_register_loop E w cage (nr # nrs) = net_register_loop E (snd (register_handler E w cage nr (ge_cage E))) cage nrs"

definition net_register_lifecycle :: "'ft grate_env \<Rightarrow> 'ft net_world \<Rightarrow> nat \<Rightarrow> 'ft net_world" where
  "net_register_lifecycle E w cage = net_register_loop E w cage [SYS_EXEC, SYS_CLONE, SYS_EXIT, SYS_REGISTER_HANDLER]"

definition net_stdio :: "'ft grate_env \<Rightarrow> nat \<Rightarrow> 'ft \<Rightarrow> nat \<Rightarrow> 'ft" where
  "net_stdio E cage ft fd =
     (case get_specific_virtual_fd (ge_fd E) ft cage fd 0 fd False 0 of Some ft \<Rightarrow> ft | None \<Rightarrow> ft)"

text \<open>A child takes over its parent's descriptors and routes.\<close>

definition net_inherit :: "'ft grate_env \<Rightarrow> 'ft net_world \<Rightarrow> nat \<Rightarrow> nat \<Rightarrow> 'ft net_world" where
  "net_inherit E w parent child =
     (let w = (case copy_fdtable_for_cage (ge_fd E) (fdt w) parent child of Some ft \<Rightarrow> w\<lparr>fdt := ft\<rparr> | None \<Rightarrow> w)
      in w\<lparr>net := net_clone_routes (net w) parent child\<rparr>)"

definition net_clone_handler :: "'ft net_handler" where
  "net_clone_handler E w a g =
     (let nr = (case net_get_route (net w) (g ! 0) SYS_CLONE of Some alt \<Rightarrow> alt | None \<Rightarrow> SYS_CLONE);
          (ret, w) = net_syscall E w (g ! 0) nr a g
      in if ret \<le> 0 then (ret, w)
         else let child = as_u64 ret;
                  w = (if check_cage_exists (ge_fd E) (fdt w) (g ! 0)
                       then net_inherit E w (g ! 0) child
                       else w\<lparr>fdt := foldl (net_stdio E child) (init_empty_cage (ge_fd E) (fdt w) child) [0, 1, 2]\<rparr>)
              in (as_i32 (int child), net_register_lifecycle E w child))"

definition net_ns_handler :: "nat \<Rightarrow> 'ft net_handler option" where
  "net_ns_handler nr =
     (if nr = SYS_SOCKET then Some net_socket_handler
      else if nr = SYS_BIND then Some net_bind_handler
      else if nr = SYS_CONNECT then Some net_connect_handler
      else if nr = SYS_ACCEPT then Some net_accept_handler
      else if nr = SYS_SENDTO then Some net_sendto_handler
      else if nr = SYS_CLOSE then Some net_close_handler
      else if nr = SYS_DUP then Some net_dup_handler
      else if nr = SYS_DUP2 then Some net_dup2_handler
      else if nr = SYS_CLONE then Some net_clone_handler
      else if nr \<in> set net_fd_routed then Some (net_fd_route nr)
      else None)"

text \<open>The arguments are packed as in fs-routing-clamp.\<close>

definition net_register_handler :: "'ft net_handler" where
  "net_register_handler E w a g =
     (let target_cage = a ! 0; syscall_nr = g ! 0; grate_id = g ! 1; handler_fn_ptr = a ! 2;
          forward = net_syscall E w grate_id SYS_REGISTER_HANDLER [target_cage, 0, handler_fn_ptr, 0, 0, 0]
                      [syscall_nr, grate_id, 0, 0, 0, 0]
      in if \<not> net_is_clamped (net w) grate_id then forward
         else if net_get_route (net w) target_cage syscall_nr \<noteq> None then (0, w\<lparr>net := net_register_clamped (net w) target_cage\<rparr>)
         else (case (net_ns_handler syscall_nr :: 'ft net_handler option) of
                 None \<Rightarrow> forward
               | Some _ \<Rightarrow>
                   let (alt_nr, s) = net_alloc_alt (net w);
                       (ret, w) = net_syscall E (w\<lparr>net := s\<rparr>) grate_id SYS_REGISTER_HANDLER
                                    [ge_cage E, 0, handler_fn_ptr, 0, 0, 0] [alt_nr, grate_id, 0, 0, 0, 0];
                       w = w\<lparr>net := net_set_route (net w) target_cage syscall_nr alt_nr\<rparr>
                   in if ret \<noteq> 0 then (ret, w)
                      else (case register_handler E w target_cage syscall_nr (ge_cage E) of
                              (Inl _, w) \<Rightarrow> (-1, w)
                            | (Inr _, w) \<Rightarrow> (0, w\<lparr>net := net_register_clamped (net w) target_cage\<rparr>))))"

definition net_exec_handler :: "'ft net_handler" where
  "net_exec_handler E w a g =
     (if net_read_path E w (a ! 0) (g ! 0) = Some ''%}'' then
        (let w = w\<lparr>net := net_deregister_clamped (net w) (g ! 0)\<rparr>;
             argv1_addr = (a ! 1 + 8) mod 2 ^ 64
         in (case ge_copymem E (hist w) (g ! 1) argv1_addr 8 of
               None \<Rightarrow> (-2, w)
             | Some real_ptr \<Rightarrow>
                 net_syscall E w (g ! 1) SYS_EXEC [le_nat real_ptr, argv1_addr, a ! 2, a ! 3, a ! 4, a ! 5]
                   [g ! 1, g ! 1, g ! 2, g ! 3, g ! 4, g ! 5]))
      else net_syscall E w (g ! 0) SYS_EXEC a g)"

definition net_fork_handler :: "'ft net_handler" where
  "net_fork_handler E w a g =
     (let (ret, w) = net_syscall E w (g ! 0) SYS_CLONE a g;
          child = as_u64 ret;
          w = (if \<not> is_thread_clone E w (a ! 0) (g ! 0) then
                 net_register_lifecycle E (if net_is_clamped (net w) (g ! 0) then net_inherit E w (g ! 0) child else w) child
               else w)
      in (as_i32 (int child), w))"

definition net_exit_handler :: "'ft net_handler" where
  "net_exit_handler E w a g =
     (let w = w\<lparr>net := net_remove_cage (net w) (g ! 0)\<rparr>;
          w = w\<lparr>fdt := remove_cage_from_fdtable (ge_fd E) (fdt w) (g ! 0)\<rparr>
      in net_syscall E w (g ! 0) SYS_EXIT a g)"

section \<open>Command line\<close>

text \<open>\<open>low - high\<close> or a single port; the messages are those of the source.\<close>

definition parse_port :: "string \<Rightarrow> string + nat" where
  "parse_port s = (case parse_uint 65536 (str_trim s) of Some n \<Rightarrow> Inr n | None \<Rightarrow> Inl (''invalid port: '' @ s))"

definition parse_port_range :: "string \<Rightarrow> string + nat \<times> nat" where
  "parse_port_range s =
     (case split_once (CHR ''-'') s of
        Some (low_s, high_s) \<Rightarrow>
          (case parse_port low_s of
             Inl e \<Rightarrow> Inl e
           | Inr low \<Rightarrow>
               (case parse_port high_s of
                  Inl e \<Rightarrow> Inl e
                | Inr high \<Rightarrow>
                    if low > high then Inl (''port range is inverted: '' @ nat_str low @ ''-'' @ nat_str high)
                    else Inr (low, high)))
      | None \<Rightarrow> (case parse_port s of Inl e \<Rightarrow> Inl e | Inr port \<Rightarrow> Inr (port, port)))"

record net_config =
  port_low :: nat
  port_high :: nat
  net_chain :: "string list"

fun net_parse_options :: "string list \<Rightarrow> (nat \<times> nat) option \<Rightarrow> string + (nat \<times> nat) option \<times> string list" where
  "net_parse_options [] ports = Inr (ports, [])"
| "net_parse_options (x # args) ports =
     (if x = ''--ports'' then
        (case args of
           [] \<Rightarrow> Inl ''--ports requires an argument (e.g. 8080-8090)''
         | p # args \<Rightarrow> (case parse_port_range p of Inl e \<Rightarrow> Inl e | Inr r \<Rightarrow> net_parse_options args (Some r)))
      else if x = ''%{'' then Inr (ports, args)
      else (case strip_prefix x ''--ports='' of
              Some val \<Rightarrow> (case parse_port_range val of Inl e \<Rightarrow> Inl e | Inr r \<Rightarrow> net_parse_options args (Some r))
            | None \<Rightarrow> Inl (''unexpected argument: '' @ x)))"

definition net_parse_argv :: "string list \<Rightarrow> string + net_config" where
  "net_parse_argv args =
     (case net_parse_options args None of
        Inl e \<Rightarrow> Inl e
      | Inr (ports, rest) \<Rightarrow>
          (case ports of
             None \<Rightarrow> Inl ''--ports is required''
           | Some (low, high) \<Rightarrow>
               if rest = [] then Inl ''missing %{ ... %} block''
               else if ''%}'' \<notin> set rest then Inl ''missing %} in command line''
               else Inr \<lparr>port_low = low, port_high = high, net_chain = rest\<rparr>))"

text \<open>The parent's part of \<open>main\<close> after the fork of the first cage.\<close>

definition net_setup :: "'ft grate_env \<Rightarrow> 'ft net_world \<Rightarrow> nat \<Rightarrow> 'ft net_world" where
  "net_setup E w child =
     net_register_lifecycle E
       (w\<lparr>net := net_register_clamped (net w) child, fdt := init_empty_cage (ge_fd E) (fdt w) child\<rparr>) child"

text \<open>The globals as \<open>init_globals\<close> leaves them, and the state in which the first cage starts.\<close>

definition net_globals :: "'ft \<Rightarrow> net_config \<Rightarrow> 'ft net_world" where
  "net_globals ft config =
     \<lparr>fdt = ft, hist = [], net = net_init (word_of_nat (port_low config)) (word_of_nat (port_high config))\<rparr>"

definition net_start :: "'ft grate_env \<Rightarrow> 'ft \<Rightarrow> net_config \<Rightarrow> nat \<Rightarrow> 'ft net_world" where
  "net_start E ft config child = net_setup E (net_globals ft config) child"

end
