(* ===== verification/Clamp_Net_Props.thy ===== *)
theory Clamp_Net_Props
  imports Clamp_Net
begin

unbundle bit_operations_syntax

text \<open>
  Correctness of net-routing-clamp: the route table meets the interface of the allocator, a state
  invariant holds in every reachable state, sockets bound or connected to a port of the range are
  routed to the clamped side from then on, and the port range is parsed and printed consistently.
\<close>

section \<open>Routes\<close>

interpretation net_routes: route_allocator net_get_route net_set_route net_clone_routes net_remove_cage
  nalt_allocator net_alloc_alt 2000
  by unfold_locales (auto simp: net_get_route_def net_set_route_def net_clone_routes_def net_remove_cage_def net_alloc_alt_def fun_eq_iff)

definition net_inv :: "'ft grate_env \<Rightarrow> 'ft net_world \<Rightarrow> bool" where
  "net_inv E w \<longleftrightarrow> net_routes.alts_ok (length (hist w)) (net w) \<and> fd_flags E (fdt w)"

lemma net_invD: "net_inv E w \<Longrightarrow> net_routes.alts_ok (length (hist w)) (net w)" "net_inv E w \<Longrightarrow> fd_flags E (fdt w)"
  by (simp_all add: net_inv_def)

lemma log_event_net [simp]: "net (log_event e w) = net w"
  by (simp add: log_event_def)

lemma net_inv_log: "net_inv E w \<Longrightarrow> net_inv E (log_event e w)"
  by (auto simp: net_inv_def intro: net_routes.alts_ok_mono)

lemma net_inv_fdt: "net_inv E w \<Longrightarrow> fd_flags E ft \<Longrightarrow> net_inv E (w\<lparr>fdt := ft\<rparr>)"
  by (simp add: net_inv_def)

lemma net_inv_net: "net_inv E w \<Longrightarrow> net_routes.alts_ok (length (hist w)) s \<Longrightarrow> net_inv E (w\<lparr>net := s\<rparr>)"
  by (simp add: net_inv_def)

lemma net_clamped_cong:
  assumes "net_routes.alts_ok n s"
  shows "net_routes.alts_ok n (net_register_clamped s c)" "net_routes.alts_ok n (net_deregister_clamped s c)"
  by (rule net_routes.alts_ok_cong [OF assms];
      simp add: net_register_clamped_def net_deregister_clamped_def net_get_route_def fun_eq_iff)+

lemma net_syscall_inv:
  assumes "net_inv E w" "net_syscall E w c nr a g = (r, w')"
  shows "net_inv E w' \<and> net w' = net w \<and> fdt w' = fdt w"
  using assms by (auto simp: net_syscall_def net_inv_log Let_def)

section \<open>Every handler keeps the invariant\<close>

lemma clamp_word_flag: "fd_flags E (fdt w) \<Longrightarrow> clamp_word E w c fd \<le> 1"
  by (auto simp: clamp_word_def dest: fd_flagsD split: option.split)

lemma track_fd_inv:
  assumes "fdtables_ok (ge_fd E)" "net_inv E w" "p \<le> 1"
  shows "net_inv E (track_fd E w c fd p)"
  using assms(2,3) fd_flags_ops(3) [OF assms(1) net_invD(2) [OF assms(2)]]
  by (auto simp: track_fd_def intro: net_inv_fdt split: option.split)

lemma net_loop_inv: "net_inv E w \<Longrightarrow> net_inv E (net_register_loop E w c nrs)"
proof (induction nrs arbitrary: w)
  case (Cons nr nrs)
  obtain q w1 where r: "register_handler E w c nr (ge_cage E) = (q, w1)" by fastforce
  then have "net_inv E w1" using Cons.prems by (auto simp: register_handler_def Let_def net_inv_log split: if_splits)
  with Cons.IH r show ?case by simp
qed simp

lemma net_lifecycle_inv: "net_inv E w \<Longrightarrow> net_inv E (net_register_lifecycle E w c)"
  unfolding net_register_lifecycle_def by (rule net_loop_inv)

lemma net_stdio_flags:
  assumes "fdtables_ok (ge_fd E)" "fd_flags E ft"
  shows "fd_flags E (foldl (net_stdio E c) ft fds)"
  using assms(2)
proof (induction fds arbitrary: ft)
  case (Cons fd fds)
  have "fd_flags E (net_stdio E c ft fd)" using Cons.prems fd_flags_ops(3) [OF assms(1) Cons.prems]
    by (auto simp: net_stdio_def split: option.split)
  with Cons.IH show ?case by simp
qed simp

lemma net_simple_inv:
  assumes "fdtables_ok (ge_fd E)" "net_inv E w"
  shows "net_fd_route nr E w a g = (r, w') \<Longrightarrow> net_inv E w'"
    and "net_sendto_handler E w a g = (r, w') \<Longrightarrow> net_inv E w'"
    and "net_socket_handler E w a g = (r, w') \<Longrightarrow> net_inv E w'"
    and "net_accept_handler E w a g = (r, w') \<Longrightarrow> net_inv E w'"
    and "net_dup_handler E w a g = (r, w') \<Longrightarrow> net_inv E w'"
    and "net_dup2_handler E w a g = (r, w') \<Longrightarrow> net_inv E w'"
  using clamp_word_flag [OF net_invD(2) [OF assms(2)]]
  by (auto simp: net_fd_route_def net_sendto_handler_def net_socket_handler_def net_accept_handler_def net_dup_handler_def
      net_dup2_handler_def Let_def dest!: net_syscall_inv [OF assms(2)] intro!: track_fd_inv [OF assms(1)] split: prod.splits)

lemma net_addr_inv:
  assumes "fdtables_ok (ge_fd E)" "net_inv E w" "addr_handler nr E w a g = (r, w')"
  shows "net_inv E w'"
  using assms(3) fd_flags_perfd [OF assms(1) net_invD(2) [OF assms(2)]]
  by (auto simp: addr_handler_def Let_def dest!: net_syscall_inv [OF assms(2)] intro!: net_inv_fdt split: prod.splits option.splits if_splits)

lemma net_close_inv:
  assumes "fdtables_ok (ge_fd E)" "net_inv E w" "net_close_handler E w a g = (r, w')"
  shows "net_inv E w'"
  using assms(3) fd_flags_ops(4) [OF assms(1) net_invD(2) [OF assms(2)]]
  by (auto simp: net_close_handler_def Let_def dest!: net_syscall_inv [OF assms(2)] intro!: net_inv_fdt split: prod.splits option.splits)

lemma net_copy_inv:
  assumes "fdtables_ok (ge_fd E)" "net_inv E w"
  shows "net_inv E (net_inherit E w p c)"
  using assms(2) fd_flags_ops(5) [OF assms(1) net_invD(2) [OF assms(2)]] net_routes.alts_ok_clone [OF net_invD(1) [OF assms(2)]]
  by (auto simp: net_inv_def net_inherit_def Let_def split: option.split)

lemma net_clone_inv:
  assumes "fdtables_ok (ge_fd E)" "net_inv E w" "net_clone_handler E w a g = (r, w')"
  shows "net_inv E w'"
proof -
  let ?nr = "case net_get_route (net w) (g ! 0) SYS_CLONE of Some alt \<Rightarrow> alt | None \<Rightarrow> SYS_CLONE"
  obtain ret w1 where s: "net_syscall E w (g ! 0) ?nr a g = (ret, w1)" by fastforce
  have w1: "net_inv E w1" using net_syscall_inv [OF assms(2) s] by simp
  have fresh: "net_inv E (w1\<lparr>fdt := foldl (net_stdio E c) (init_empty_cage (ge_fd E) (fdt w1) c) [0, 1, 2]\<rparr>)" for c
    by (rule net_inv_fdt [OF w1 net_stdio_flags [OF assms(1) fd_flags_init [OF assms(1) net_invD(2) [OF w1]]]])
  show ?thesis using assms(3) s w1 net_lifecycle_inv [OF fresh] net_lifecycle_inv [OF net_copy_inv [OF assms(1) w1]]
    by (auto simp: net_clone_handler_def Let_def simp del: foldl_Cons split: if_splits)
qed

lemma net_fork_inv:
  assumes "fdtables_ok (ge_fd E)" "net_inv E w" "net_fork_handler E w a g = (r, w')"
  shows "net_inv E w'"
proof -
  obtain ret w1 where s: "net_syscall E w (g ! 0) SYS_CLONE a g = (ret, w1)" by fastforce
  have w1: "net_inv E w1" using net_syscall_inv [OF assms(2) s] by simp
  show ?thesis using assms(3) s w1 net_lifecycle_inv [OF w1] net_lifecycle_inv [OF net_copy_inv [OF assms(1) w1]]
    by (auto simp: net_fork_handler_def Let_def split: if_splits)
qed

lemma net_exec_exit_inv:
  assumes "fdtables_ok (ge_fd E)" "net_inv E w"
  shows "net_exec_handler E w a g = (r, w') \<Longrightarrow> net_inv E w'"
    and "net_exit_handler E w a g = (r, w') \<Longrightarrow> net_inv E w'"
proof -
  have d: "net_inv E (w\<lparr>net := net_deregister_clamped (net w) (g ! 0)\<rparr>)"
    by (rule net_inv_net [OF assms(2) net_clamped_cong(2) [OF net_invD(1) [OF assms(2)]]])
  show "net_inv E w'" if "net_exec_handler E w a g = (r, w')"
  proof (cases "net_read_path E w (a ! 0) (g ! 0) = Some ''%}''")
    case False
    then show ?thesis using that by (intro conjunct1 [OF net_syscall_inv [OF assms(2)]]) (simp add: net_exec_handler_def)
  next
    case True
    let ?w = "w\<lparr>net := net_deregister_clamped (net w) (g ! 0)\<rparr>" and ?addr = "(a ! 1 + 8) mod 2 ^ 64"
    show ?thesis
    proof (cases "ge_copymem E (hist ?w) (g ! 1) ?addr 8")
      case None
      then show ?thesis using True that d unfolding net_exec_handler_def Let_def by auto
    next
      case (Some bs)
      then show ?thesis using True that
        by (intro conjunct1 [OF net_syscall_inv [OF d]]) (auto simp: net_exec_handler_def Let_def)
    qed
  qed
  have "net_inv E (w\<lparr>net := net_remove_cage (net w) (g ! 0), fdt := remove_cage_from_fdtable (ge_fd E) (fdt w) (g ! 0)\<rparr>)"
    using net_routes.alts_ok_drop net_invD [OF assms(2)] fd_flags_ops(6) [OF assms(1)] by (simp add: net_inv_def)
  note e = net_syscall_inv [OF this]
  show "net_inv E w'" if "net_exit_handler E w a g = (r, w')"
    by (rule conjunct1 [OF e]) (use that in \<open>simp add: net_exit_handler_def Let_def\<close>)
qed

lemma net_register_inv:
  assumes "net_inv E w" "net_register_handler E w a g = (r, w')"
  shows "net_inv E w'"
proof -
  obtain alt s where s: "net_alloc_alt (net w) = (alt, s)" by fastforce
  have a: "net_inv E (w1\<lparr>net := net_set_route (net w1) c nr alt\<rparr>)"
    if "net_syscall E (w\<lparr>net := s\<rparr>) k n xs gs = (ret, w1)" for k n xs gs ret w1 c nr
  proof -
    have "\<exists>e. w1 = log_event e (w\<lparr>net := s\<rparr>)" using that by (auto simp: net_syscall_def Let_def)
    then obtain e where "w1 = log_event e (w\<lparr>net := s\<rparr>)" by blast
    then show ?thesis
      using net_routes.alts_ok_alloc(2) [OF net_invD(1) [OF assms(1)] s, of c nr] net_invD(2) [OF assms(1)]
      by (simp add: net_inv_def log_event_def)
  qed
  have reg: "net_inv E (w2\<lparr>net := net_register_clamped (net w2) c\<rparr>)" if "net_inv E w2" for w2 c
    by (rule net_inv_net [OF that net_clamped_cong(1) [OF net_invD(1) [OF that]]])
  have rh: "net_inv E w3" if "register_handler E w2 c n k = (q, w3)" "net_inv E w2" for w2 w3 c n k q
    using that by (auto simp: register_handler_def Let_def net_inv_log split: if_splits)
  show ?thesis using assms
    by (auto simp: net_register_handler_def Let_def s dest: net_syscall_inv [OF assms(1)] intro!: reg intro: rh a
        split: if_splits option.splits prod.splits sum.splits)
qed

section \<open>Reachable states\<close>

inductive net_step :: "'ft grate_env \<Rightarrow> 'ft net_world \<Rightarrow> 'ft net_world \<Rightarrow> bool" for E where
  net_call: "net_ns_handler nr = Some h \<Longrightarrow> h E w a g = (r, w') \<Longrightarrow> net_step E w w'"
| net_register: "net_register_handler E w a g = (r, w') \<Longrightarrow> net_step E w w'"
| net_exec: "net_exec_handler E w a g = (r, w') \<Longrightarrow> net_step E w w'"
| net_fork: "net_fork_handler E w a g = (r, w') \<Longrightarrow> net_step E w w'"
| net_exit: "net_exit_handler E w a g = (r, w') \<Longrightarrow> net_step E w w'"

inductive net_reachable :: "'ft grate_env \<Rightarrow> 'ft net_world \<Rightarrow> bool" for E where
  start: "(\<And>c fd. translate_virtual_fd (ge_fd E) ft c fd = None) \<Longrightarrow> net_reachable E (net_start E ft config child)"
| step: "net_reachable E w \<Longrightarrow> net_step E w w' \<Longrightarrow> net_reachable E w'"

lemma net_handler_inv:
  assumes "fdtables_ok (ge_fd E)" "net_inv E w" "net_ns_handler nr = Some h" "h E w a g = (r, w')"
  shows "net_inv E w'"
  using assms(3,4)
  by (auto simp: net_ns_handler_def net_bind_handler_def net_connect_handler_def
      dest: net_simple_inv [OF assms(1,2)] net_addr_inv [OF assms(1,2)] net_close_inv [OF assms(1,2)] net_clone_inv [OF assms(1,2)]
      split: if_splits)

lemma net_step_inv:
  assumes "fdtables_ok (ge_fd E)" "net_inv E w" "net_step E w w'"
  shows "net_inv E w'"
  using assms(3)
proof cases
  case (net_call nr h a g r)
  then show ?thesis by (rule net_handler_inv [OF assms(1,2)])
qed (use assms in \<open>auto intro: net_register_inv net_exec_exit_inv net_fork_inv\<close>)

lemma net_start_inv:
  assumes "fdtables_ok (ge_fd E)" "\<And>c fd. translate_virtual_fd (ge_fd E) ft c fd = None"
  shows "net_inv E (net_start E ft config child)"
proof -
  have "net_routes.alts_ok 0 (net_init l h)" for l h
    by (rule net_routes.alts_ok_init) (simp_all add: net_init_def net_get_route_def)
  moreover have "fd_flags E ft" using assms(2) by (simp add: fd_flags_def)
  ultimately show ?thesis unfolding net_start_def net_setup_def net_globals_def
    by (intro net_lifecycle_inv) (simp add: net_inv_def net_clamped_cong fd_flags_init [OF assms(1)])
qed

lemma net_reachable_inv:
  assumes "fdtables_ok (ge_fd E)" "net_reachable E w"
  shows "net_inv E w"
  using assms(2) by induction (auto intro: net_start_inv [OF assms(1)] net_step_inv [OF assms(1)])

text \<open>In every state net-routing-clamp can reach, whatever the runtime answers: as long as fewer than
  \<open>2 ^ 63\<close> events happened the alternative numbers of the route table are at least 2000, so they never
  collide with a system call, and no two different calls share one, even across forked cages; and
  the clamp flag of every descriptor is 0 or 1.\<close>

theorem net_clamp_invariant:
  assumes "fdtables_ok (ge_fd E)" and "net_reachable E w"
  shows "(length (hist w) < 2 ^ 63 \<longrightarrow>
       (\<forall>c nr alt. net_get_route (net w) c nr = Some alt \<longrightarrow>
          2000 \<le> alt \<and> alt < nalt_allocator (net w) \<and> (\<forall>c' nr'. net_get_route (net w) c' nr' = Some alt \<longrightarrow> nr' = nr))) \<and>
    (\<forall>c fd e. translate_virtual_fd (ge_fd E) (fdt w) c fd = Some e \<longrightarrow> perfdinfo e \<le> 1)"
proof -
  note i = net_invD [OF net_reachable_inv [OF assms]]
  from net_routes.alts_okD [OF i(1)] i(2) show ?thesis unfolding fd_flags_def by blast
qed

section \<open>Sockets of the range\<close>

text \<open>The bytes of an internet socket address: the family little-endian, the port big-endian.\<close>

definition sockaddr_bytes :: "nat \<Rightarrow> u16 \<Rightarrow> byte list \<Rightarrow> byte list" where
  "sockaddr_bytes family port rest =
     [word_of_nat (family mod 256), word_of_nat (family div 256 mod 256), word_of_nat (unat port div 256), word_of_nat (unat port mod 256)] @ rest"

lemma unat_byte: "n < 256 \<Longrightarrow> unat (word_of_nat n :: byte) = n"
  by (simp add: unat_of_nat take_bit_eq_mod)

lemma extract_port_bytes:
  assumes "family = 2 \<or> family = 10"
  shows "extract_port_from_sockaddr (sockaddr_bytes family port rest) = Some port"
proof -
  have p: "unat port < 65536" using unsigned_less [of port] by simp
  then have d: "unat port div 256 < 256" by (simp add: div_less_iff_less_mult)
  have "be_u16 (word_of_nat (unat port div 256)) (word_of_nat (unat port mod 256)) = port"
    using d by (simp add: be_u16_def unat_byte)
  moreover have "le_nat [word_of_nat (family mod 256), word_of_nat (family div 256 mod 256)] = family"
    using assms by (auto simp: le_nat_def unat_byte)
  ultimately show ?thesis using assms by (simp add: extract_port_from_sockaddr_def sockaddr_bytes_def)
qed

lemma net_syscall_call:
  assumes "net_syscall E w c nr a g = (r, w')"
  shows "\<exists>k. w' = log_event (Threei k) w \<and> callnumber k = as_u32 nr \<and> self_cageid k = ge_cage E \<and> target_cageid k = c \<and>
    call_args k = map Num a \<and> r = (if ge_sys E (hist w) k < 0 then -1 else ge_sys E (hist w) k)"
  using assms by (auto simp: net_syscall_def make_threei_call_def Let_def)

lemma addr_handler_marks:
  assumes "fdtables_ok (ge_fd E)" "check_cage_exists (ge_fd E) (fdt w) (g ! 0)"
    and "translate_virtual_fd (ge_fd E) (fdt w) (g ! 0) (a ! 0) = Some e"
    and "read_port_from_cage E w (a ! 1) (g ! 1) (a ! 2) = Some port"
    and "addr_handler sysno E w a g = (r, w')" "0 \<le> r"
  shows "\<exists>k. hist w' = hist w @ [Threei k] \<and> callnumber k = as_u32 (route_nr w (g ! 0) sysno (port_in_range (net w) port)) \<and> net w' = net w \<and>
    translate_virtual_fd (ge_fd E) (fdt w') (g ! 0) (a ! 0) = Some (if port_in_range (net w) port then e\<lparr>perfdinfo := 1\<rparr> else e)"
proof -
  let ?nr = "route_nr w (g ! 0) sysno (port_in_range (net w) port)"
  obtain ret w1 where s: "net_syscall E w (g ! 0) ?nr a g = (ret, w1)" by fastforce
  obtain k where k: "w1 = log_event (Threei k) w" "callnumber k = as_u32 ?nr" using net_syscall_call [OF s] by blast
  obtain ft where ft: "set_perfdinfo (ge_fd E) (fdt w) (g ! 0) (a ! 0) 1 = Some ft"
    "fd_maps (ge_fd E) (fdt w) (g ! 0) (a ! 0) (Some (e\<lparr>perfdinfo := 1\<rparr>)) ft"
    using fd_perfd_law [OF assms(1,3)] by blast
  have "ret = r \<and> w' = (if port_in_range (net w) port then w1\<lparr>fdt := ft\<rparr> else w1)"
    using assms(2,4-6) s k ft(1) by (auto simp: addr_handler_def Let_def split: if_splits)
  then show ?thesis using k fd_mapsD [OF ft(2), of "g ! 0" "a ! 0"] assms(3) by auto
qed

text \<open>C33. The port decides the side of a socket: when \<open>bind\<close> or \<open>connect\<close> with an IPv4 or IPv6 address
  succeeds on a tracked socket that was on the kernel side, and a clamped grate handles the call for the cage, then the call went to
  the clamped grate's alternative number exactly when the port lies in the range, and to the kernel under its own number otherwise;
  and the next read, write, send, receive, listen or shutdown on the socket, for which a route exists,
  goes to the same side.\<close>

theorem bind_fixes_side:
  assumes "fdtables_ok (ge_fd E)" "check_cage_exists (ge_fd E) (fdt w) (g ! 0)"
    and "translate_virtual_fd (ge_fd E) (fdt w) (g ! 0) (a ! 0) = Some e" "perfdinfo e = 0"
    and "ge_copymem E (hist w) (g ! 1) (a ! 1) (min (as_usize (int (a ! 2))) 128) = Some (sockaddr_bytes family port rest)"
    and "family = 2 \<or> family = 10"
    and "net_get_route (net w) (g ! 0) sysno = Some alt" "sysno \<in> {SYS_BIND, SYS_CONNECT}"
    and "net_ns_handler sysno = Some h" "h E w a g = (r, w1)" "0 \<le> r"
    and "check_cage_exists (ge_fd E) (fdt w1) (g ! 0)" "nr \<in> set net_fd_routed" "net_get_route (net w) (g ! 0) nr = Some alt'"
    and "g' ! 0 = g ! 0" "a' ! 0 = a ! 0" "net_fd_route nr E w1 a' g' = (r2, w2)"
  shows "\<exists>k k2. hist w2 = hist w @ [Threei k, Threei k2] \<and>
    (if fst (port_range (net w)) \<le> port \<and> port \<le> snd (port_range (net w))
     then callnumber k = as_u32 alt \<and> callnumber k2 = as_u32 alt'
     else callnumber k = as_u32 sysno \<and> callnumber k2 = as_u32 nr)"
proof -
  let ?in = "port_in_range (net w) port"
  have h: "h = addr_handler sysno" using assms(8,9) by (auto simp: net_ns_handler_def net_bind_handler_def net_connect_handler_def)
  have in_range: "?in \<longleftrightarrow> fst (port_range (net w)) \<le> port \<and> port \<le> snd (port_range (net w))"
    by (auto simp: port_in_range_def split: prod.split)
  have "read_port_from_cage E w (a ! 1) (g ! 1) (a ! 2) = Some port"
    by (simp only: read_port_from_cage_def assms(5) option.case extract_port_bytes [OF assms(6)])
  then obtain k where k: "hist w1 = hist w @ [Threei k]" "callnumber k = as_u32 (route_nr w (g ! 0) sysno ?in)" "net w1 = net w"
    "translate_virtual_fd (ge_fd E) (fdt w1) (g ! 0) (a ! 0) = Some (if ?in then e\<lparr>perfdinfo := 1\<rparr> else e)"
    using addr_handler_marks [OF assms(1,2,3) _ assms(10) [unfolded h] assms(11)] by blast
  have "clamp_word E w1 (g' ! 0) (a' ! 0) \<noteq> 0 \<longleftrightarrow> ?in" using assms(4,12,15,16) k(4) by (simp add: clamp_word_def)
  then have "net_syscall E w1 (g' ! 0) (if ?in then alt' else nr) a' g' = (r2, w2)"
    using assms(14,15,17) k(3) by (simp add: net_fd_route_def route_nr_def split: if_splits)
  from net_syscall_call [OF this] obtain k2 where "w2 = log_event (Threei k2) w1" "callnumber k2 = as_u32 (if ?in then alt' else nr)" by blast
  with k assms(7) in_range show ?thesis by (auto simp: route_nr_def split: if_splits)
qed

section \<open>The command line\<close>

lemma parse_port_str: "n < 65536 \<Longrightarrow> parse_port (nat_str n) = Inr n"
  using trim_digits [of "nat_str n"] nat_str_digits by (simp add: parse_port_def parse_nat_str)

text \<open>A port range is read back as it is printed: \<open>low-high\<close> gives the two ports when they are in
  order and is rejected as inverted otherwise, and a single port gives the range of that port.\<close>

theorem port_range_roundtrip:
  assumes "low < 65536" "high < 65536"
  shows "parse_port_range (nat_str low @ ''-'' @ nat_str high) =
      (if low \<le> high then Inr (low, high) else Inl (''port range is inverted: '' @ nat_str low @ ''-'' @ nat_str high)) \<and>
    parse_port_range (nat_str low) = Inr (low, low)"
proof -
  have no: "CHR ''-'' \<notin> set (nat_str n)" for n
  proof
    assume "CHR ''-'' \<in> set (nat_str n)"
    then obtain d where "d < 10" "CHR ''-'' = digit_char d" using nat_str_digits by blast
    then have "of_char (CHR ''-'') = 48 + d" using digit_char_inj by simp
    then show False by simp
  qed
  have "split_once (CHR ''-'') (nat_str low) = None" using no by (simp add: split_once_def)
  then show ?thesis using assms split_once_digits [OF no, of low "nat_str high"] by (simp add: parse_port_range_def parse_port_str)
qed

theorem port_range_roundtrip_witness:
  "parse_port_range ''80-90'' = Inr (80, 90) \<and> parse_port_range ''80'' = Inr (80, 80)"
proof -
  have "nat_str 80 = ''80''" "nat_str 90 = ''90''" by code_simp+
  then show ?thesis using port_range_roundtrip [of 80 90] by simp
qed

section \<open>Instances\<close>

text \<open>A runtime in which every call succeeds and every address is port 8080 of the family 2.\<close>

definition demo_net_env :: "(nat list \<times> fd_map) grate_env" where
  "demo_net_env =
     \<lparr>ge_cage = 1, ge_sys = (\<lambda>h c. 0), ge_out = (\<lambda>h c i. []), ge_copystr = (\<lambda>h c p n. None),
      ge_copymem = (\<lambda>h c p n. Some (sockaddr_bytes 2 8080 [])), ge_copyout = (\<lambda>h c p bs. True), ge_register = (\<lambda>h c n k. 0),
      ge_fd = cage_fdtables, ge_unused_errno = (\<lambda>ft c. 24), ge_specific_errno = (\<lambda>ft c fd. 9)\<rparr>"

abbreviation demo_net_start :: "(nat list \<times> fd_map) net_world" where
  "demo_net_start \<equiv> net_start demo_net_env ([], []) \<lparr>port_low = 8000, port_high = 8100, net_chain = [''g'', ''%}'']\<rparr> 4"

theorem net_clamp_invariant_witness:
  "\<exists>w alt. net_reachable demo_net_env w \<and> net_get_route (net w) 5 SYS_BIND = Some alt \<and> 2000 \<le> alt"
proof -
  have s: "net_reachable demo_net_env demo_net_start"
    by (rule net_reachable.start) (simp add: demo_net_env_def cage_fdtables_def map_fdtables_def)
  obtain r w where h: "net_register_handler demo_net_env demo_net_start [5, 0, 77, 0, 0, 0] [SYS_BIND, 4, 0, 0, 0, 0] = (r, w)" by fastforce
  then have w: "net_reachable demo_net_env w" using s net_reachable.step net_step.net_register by blast
  have n: "net demo_net_start = net_register_clamped (net_init 8000 8100) 4" "hist demo_net_start = map (\<lambda>n. Register 4 n 1) [SYS_EXEC, SYS_CLONE, SYS_EXIT, SYS_REGISTER_HANDLER]"
    by (simp_all add: net_start_def net_setup_def net_globals_def net_register_lifecycle_def register_handler_def demo_net_env_def Let_def)
  have g: "net_get_route (net w) 5 SYS_BIND = Some 2000" "length (hist w) = 6" using h n
    by (auto simp: net_register_handler_def net_is_clamped_def net_register_clamped_def net_init_def net_get_route_def net_alloc_alt_def
        net_syscall_def make_threei_call_def net_set_route_def net_ns_handler_def register_handler_def demo_net_env_def Let_def)
  have "fdtables_ok (ge_fd demo_net_env)" by (simp add: demo_net_env_def cage_fdtables_ok)
  from net_clamp_invariant [OF this w] g w show ?thesis by auto
qed

abbreviation demo_net_world :: "(nat list \<times> fd_map) net_world" where
  "demo_net_world \<equiv> \<lparr>fdt = ([4], [((4, 3), mk_entry 0 3 False 0)]), hist = [],
     net = net_set_route (net_set_route (net_init 8000 8100) 4 SYS_BIND 2000) 4 SYS_READ 2001\<rparr>"

theorem bind_fixes_side_witness:
  "\<exists>r w1 r2 w2 k k2. net_bind_handler demo_net_env demo_net_world [3, 64, 16, 0, 0, 0] [4, 4, 4, 4, 4, 4] = (r, w1) \<and>
    net_fd_route SYS_READ demo_net_env w1 [3, 0, 0, 0, 0, 0] [4, 4, 4, 4, 4, 4] = (r2, w2) \<and>
    hist w2 = [Threei k, Threei k2] \<and> callnumber k = 2000 \<and> callnumber k2 = 2001"
proof -
  let ?E = demo_net_env and ?w = demo_net_world and ?a = "[3, 64, 16, 0, 0, 0] :: nat list" and ?g = "[4, 4, 4, 4, 4, 4] :: nat list"
  obtain r w1 where b: "net_bind_handler ?E ?w ?a ?g = (r, w1)" by fastforce
  obtain r2 w2 where f: "net_fd_route SYS_READ ?E w1 [3, 0, 0, 0, 0, 0] ?g = (r2, w2)" by fastforce
  have E: "ge_fd ?E = cage_fdtables" "ge_sys ?E h c = 0" "ge_copymem ?E h c' p n = Some (sockaddr_bytes 2 8080 [])" for h c c' p n
    by (simp_all add: demo_net_env_def)
  have ok: "fdtables_ok (ge_fd ?E)" by (simp add: E cage_fdtables_ok)
  have ex: "check_cage_exists cage_fdtables (4 # cs, m) 4" for cs m by (simp add: cage_fdtables_def)
  have fd: "translate_virtual_fd cage_fdtables ([4], [((4, 3), mk_entry 0 3 False 0)]) 4 3 = Some (mk_entry 0 3 False 0)"
    by (simp add: cage_fdtables_def map_fdtables_def)
  have rt: "net_get_route (net ?w) 4 SYS_BIND = Some 2000" "net_get_route (net ?w) 4 SYS_READ = Some 2001"
    by (simp_all add: net_routes.get_put)
  have pr: "port_range (net ?w) = (8000, 8100)" by (simp add: net_set_route_def net_init_def)
  have r: "0 \<le> r" using b by (auto simp: net_bind_handler_def addr_handler_def net_syscall_def make_threei_call_def E Let_def split: prod.splits)
  have w1: "check_cage_exists cage_fdtables (fdt w1) 4"
    using b by (auto simp: net_bind_handler_def addr_handler_def net_syscall_def cage_fdtables_def Let_def E split: prod.splits if_splits option.splits)
  have "\<exists>k k2. hist w2 = hist ?w @ [Threei k, Threei k2] \<and>
    (if fst (port_range (net ?w)) \<le> 8080 \<and> 8080 \<le> snd (port_range (net ?w))
     then callnumber k = as_u32 2000 \<and> callnumber k2 = as_u32 2001
     else callnumber k = as_u32 SYS_BIND \<and> callnumber k2 = as_u32 SYS_READ)"
    by (rule bind_fixes_side [where E = ?E and w = ?w and a = ?a and g = ?g and sysno = SYS_BIND and h = net_bind_handler and nr = SYS_READ
          and e = "mk_entry 0 3 False 0" and family = 2 and port = 8080 and rest = "[]" and g' = ?g and a' = "[3, 0, 0, 0, 0, 0]", OF ok])
      (use b f ex fd rt pr r w1 in \<open>simp_all add: E net_ns_handler_def net_fd_routed_def\<close>)
  then show ?thesis using b f pr by (simp add: as_u32_def)
qed

text \<open>The error number of a failed call is lost: the caller sees -1 whatever the call returned.\<close>

lemma net_errno_lost:
  assumes "net_syscall E w c nr a g = (r, w')"
  shows "\<exists>k. hist w' = hist w @ [Threei k] \<and> (ge_sys E (hist w) k < 0 \<longrightarrow> r = -1)"
  using net_syscall_call [OF assms] by auto

end
