(* ===== verification/Nanny.thy ===== *)
theory Nanny
  imports Complex_Main Rust_Str
begin

text \<open>
  The accounting of resource-grate (\<open>rust-grates/resource-grate/src/nanny.rs\<close> and
  \<open>resources.rs\<close>): token buckets that are charged for a quantity and make the caller wait, counters
  with a cap, and allowlists of ports, read from a configuration text.

  Instants and durations are numbers of nanoseconds.  The clock is a parameter, the sequence of the
  values its readings give; an operation takes the number of readings so far and returns the
  new one.  The \<open>f64\<close> quantities are rationals, so rounding of the additions and products is not
  modelled; the conversion of a waiting time to whole nanoseconds is.  Each resource has a mutex that
  is held for the whole operation, so an operation is one step.  \<open>None\<close> is a call that does not
  return: a panic (which aborts a handler) or an endless wait.
\<close>

section \<open>Configuration\<close>

text \<open>
  \<open>FromStr\<close> of \<open>f64\<close> on the decimal notations: a sign, digits with an optional point, and an
  optional exponent.  The value is exact; the words for infinity and not-a-number are not values
  of the model.
\<close>

definition f64_sign :: "string \<Rightarrow> rat \<times> string" where
  "f64_sign s = (if starts_with s ''-'' then (-1, tl s) else if starts_with s ''+'' then (1, tl s) else (1, s))"

definition f64_mantissa :: "string \<Rightarrow> rat option" where
  "f64_mantissa m =
     (let (a, b) = (case split_once (CHR ''.'') m of Some p \<Rightarrow> p | None \<Rightarrow> (m, [])) in
      if a @ b = [] then None else map_option (\<lambda>n. of_nat n / 10 ^ length b) (digits_val 0 (a @ b)))"

definition f64_exponent :: "string \<Rightarrow> rat option" where
  "f64_exponent e =
     (let (sg, ds) = f64_sign e in
      if ds = [] then None else map_option (\<lambda>k. if sg < 0 then 1 / 10 ^ k else 10 ^ k) (digits_val 0 ds))"

definition parse_f64 :: "string \<Rightarrow> rat option" where
  "parse_f64 s =
     (let (sg, t) = f64_sign s; m = takeWhile (\<lambda>c. c \<notin> {CHR ''e'', CHR ''E''}) t; r = drop (length m) t in
      case f64_mantissa m of
        None \<Rightarrow> None
      | Some q \<Rightarrow> if r = [] then Some (sg * q) else map_option (\<lambda>x. sg * q * x) (f64_exponent (tl r)))"

definition RENEWABLE_RESOURCES :: "string list" where
  "RENEWABLE_RESOURCES =
     [''cpu'', ''filewrite'', ''fileread'', ''netsend'', ''netrecv'', ''loopsend'', ''looprecv'', ''lograte'', ''random'']"

definition FUNGIBLE_RESOURCES :: "string list" where
  "FUNGIBLE_RESOURCES = [''events'', ''filesopened'', ''insockets'', ''outsockets'']"

definition INDIVIDUAL_RESOURCES :: "string list" where
  "INDIVIDUAL_RESOURCES = [''messport'', ''connport'']"

record resource_config =
  cfg_renewable :: "string \<rightharpoonup> rat"
  cfg_fungible :: "string \<rightharpoonup> nat"
  cfg_individual :: "string \<rightharpoonup> nat set"
  cfg_hard_caps :: "string \<rightharpoonup> nat"

text \<open>One line, after the comment is cut off; a value that does not parse panics.\<close>

definition parse_entry :: "resource_config \<Rightarrow> string \<Rightarrow> string \<Rightarrow> resource_config option" where
  "parse_entry cfg name value_str =
     (if name \<in> set RENEWABLE_RESOURCES then
        map_option (\<lambda>v. cfg\<lparr>cfg_renewable := (cfg_renewable cfg)(name \<mapsto> v)\<rparr>) (parse_f64 value_str)
      else if name \<in> set FUNGIBLE_RESOURCES then
        map_option (\<lambda>v. cfg\<lparr>cfg_fungible := (cfg_fungible cfg)(name \<mapsto> v)\<rparr>) (parse_uint (2 ^ 32) value_str)
      else if name \<in> set INDIVIDUAL_RESOURCES then
        map_option (\<lambda>v. cfg\<lparr>cfg_individual := (cfg_individual cfg)(name \<mapsto>
            insert v (case cfg_individual cfg name of Some ps \<Rightarrow> ps | None \<Rightarrow> {}))\<rparr>) (parse_uint (2 ^ 16) value_str)
      else if name = ''memory'' \<or> name = ''diskused'' then
        map_option (\<lambda>v. cfg\<lparr>cfg_hard_caps := (cfg_hard_caps cfg)(name \<mapsto> v)\<rparr>) (parse_uint (2 ^ 64) value_str)
      else Some cfg)"

definition parse_line :: "resource_config \<Rightarrow> string \<Rightarrow> resource_config option" where
  "parse_line cfg l =
     (let l = str_trim (takeWhile (\<lambda>c. c \<noteq> CHR ''#'') l) in
      if l = [] then Some cfg
      else case split_whitespace l of
             [w, name, value_str] \<Rightarrow> if w \<noteq> ''resource'' then Some cfg else parse_entry cfg name value_str
           | _ \<Rightarrow> Some cfg)"

fun parse_lines :: "resource_config \<Rightarrow> string list \<Rightarrow> resource_config option" where
  "parse_lines cfg [] = Some cfg"
| "parse_lines cfg (l # ls) = (case parse_line cfg l of None \<Rightarrow> None | Some cfg \<Rightarrow> parse_lines cfg ls)"

definition parse_config :: "string \<Rightarrow> resource_config option" where
  "parse_config content =
     parse_lines \<lparr>cfg_renewable = Map.empty, cfg_fungible = Map.empty, cfg_individual = Map.empty, cfg_hard_caps = Map.empty\<rparr>
       (str_lines content)"

section \<open>State\<close>

record renewable_resource =
  allowed_per_sec :: rat
  consumed :: rat
  last_update :: nat

record fungible_resource =
  limit :: nat
  count :: nat

record nanny_state =
  renewable :: "string \<rightharpoonup> renewable_resource"
  fungible :: "string \<rightharpoonup> fungible_resource"
  individual :: "string \<rightharpoonup> nat set"
  hard_caps :: "string \<rightharpoonup> nat"

definition from_config :: "resource_config \<Rightarrow> nat \<Rightarrow> nanny_state" where
  "from_config config now =
     \<lparr>renewable = map_option (\<lambda>rate. \<lparr>allowed_per_sec = rate, consumed = 0, last_update = now\<rparr>) \<circ> cfg_renewable config,
      fungible = map_option (\<lambda>l. \<lparr>limit = l, count = 0\<rparr>) \<circ> cfg_fungible config,
      individual = cfg_individual config, hard_caps = cfg_hard_caps config\<rparr>"

section \<open>Waiting\<close>

text \<open>The loop of \<open>lind_sleep\<close>: the result is the number of clock readings.\<close>

partial_function (option) sleep_loop :: "(nat \<Rightarrow> nat) \<Rightarrow> nat \<Rightarrow> nat \<Rightarrow> nat option" where
  "sleep_loop clk deadline t = (if clk t < deadline then sleep_loop clk deadline (t + 1) else Some (t + 1))"

definition lind_sleep :: "(nat \<Rightarrow> nat) \<Rightarrow> nat \<Rightarrow> nat \<Rightarrow> nat option" where
  "lind_sleep clk dur t = sleep_loop clk (clk t + dur) (t + 1)"

definition as_secs :: "nat \<Rightarrow> rat" where
  "as_secs ns = of_nat ns / 10 ^ 9"

definition round_half_even :: "rat \<Rightarrow> int" where
  "round_half_even x =
     (let f = floor x; d = x - of_int f in
      if d < 1 / 2 then f else if d > 1 / 2 then f + 1 else if even f then f else f + 1)"

text \<open>\<open>Duration::from_secs_f64\<close> panics on negative and on too large values.\<close>

definition duration_from_secs :: "rat \<Rightarrow> nat option" where
  "duration_from_secs secs =
     (let n = round_half_even (secs * 10 ^ 9) in if secs < 0 \<or> n \<ge> 2 ^ 64 * 10 ^ 9 then None else Some (nat n))"

section \<open>Operations\<close>

definition drain :: "renewable_resource \<Rightarrow> nat \<Rightarrow> renewable_resource" where
  "drain b now =
     (let elapsed = as_secs (now - last_update b); c = consumed b - elapsed * allowed_per_sec b
      in b\<lparr>consumed := (if c < 0 then 0 else c), last_update := now\<rparr>)"

text \<open>A zero rate divides by zero; the infinite waiting time panics.\<close>

definition sleep_duration :: "renewable_resource \<Rightarrow> nat option" where
  "sleep_duration b =
     (if allowed_per_sec b = 0 then None
      else duration_from_secs ((consumed b - allowed_per_sec b) / allowed_per_sec b))"

definition tattle_quantity :: "(nat \<Rightarrow> nat) \<Rightarrow> nanny_state \<Rightarrow> nat \<Rightarrow> string \<Rightarrow> rat \<Rightarrow> (nanny_state \<times> nat) option" where
  "tattle_quantity clk s t resource quantity =
     (case renewable s resource of
        None \<Rightarrow> Some (s, t)
      | Some b \<Rightarrow>
          let b = drain b (clk t); t = t + 1; b = b\<lparr>consumed := consumed b + quantity\<rparr> in
          if consumed b > allowed_per_sec b then
            (case sleep_duration b of
               None \<Rightarrow> None
             | Some dur \<Rightarrow>
                 (case lind_sleep clk dur t of
                    None \<Rightarrow> None
                  | Some t \<Rightarrow> Some (s\<lparr>renewable := (renewable s)(resource \<mapsto> drain b (clk t))\<rparr>, t + 1)))
          else Some (s\<lparr>renewable := (renewable s)(resource \<mapsto> b)\<rparr>, t))"

definition tattle_add_item :: "nanny_state \<Rightarrow> string \<Rightarrow> bool \<times> nanny_state" where
  "tattle_add_item s resource =
     (case fungible s resource of
        None \<Rightarrow> (True, s)
      | Some r \<Rightarrow>
          if count r \<ge> limit r then (False, s)
          else (True, s\<lparr>fungible := (fungible s)(resource \<mapsto> r\<lparr>count := count r + 1\<rparr>)\<rparr>))"

definition tattle_remove_item :: "nanny_state \<Rightarrow> string \<Rightarrow> nanny_state" where
  "tattle_remove_item s resource =
     (case fungible s resource of
        None \<Rightarrow> s
      | Some r \<Rightarrow> s\<lparr>fungible := (fungible s)(resource \<mapsto> r\<lparr>count := count r - 1\<rparr>)\<rparr>)"

definition is_item_allowed :: "nanny_state \<Rightarrow> string \<Rightarrow> nat \<Rightarrow> bool" where
  "is_item_allowed s resource item =
     (case individual s resource of Some ps \<Rightarrow> item \<in> ps | None \<Rightarrow> True)"

section \<open>Waiting is long enough and ends\<close>

lemma round_half_even_near:
  "x - 1 / 2 \<le> of_int (round_half_even x)" "of_int (round_half_even x) \<le> x + 1 / 2"
proof -
  have "of_int \<lfloor>x\<rfloor> \<le> x" "x < of_int \<lfloor>x\<rfloor> + 1" "of_int \<lfloor>x\<rfloor> \<le> x + 1 / 2" by linarith+
  then show "x - 1 / 2 \<le> of_int (round_half_even x)" "of_int (round_half_even x) \<le> x + 1 / 2"
    unfolding round_half_even_def Let_def by (auto split: if_splits)
qed

lemma sleep_loop_ge: "sleep_loop clk d t = Some t' \<Longrightarrow> t < t' \<and> d \<le> clk (t' - 1)"
  by (erule sleep_loop.raw_induct [of "\<lambda>clk d t t'. t < t' \<and> d \<le> clk (t' - 1)", rotated]) (force split: if_splits)

lemma sleep_loop_returns: "d \<le> clk k \<Longrightarrow> t \<le> k \<Longrightarrow> \<exists>t'. sleep_loop clk d t = Some t'"
proof (induction "k - t" arbitrary: t)
  case 0
  then show ?case by (subst sleep_loop.simps) simp
next
  case (Suc n)
  then have "\<exists>t'. sleep_loop clk d (t + 1) = Some t'" by simp
  then show ?case by (subst sleep_loop.simps) simp
qed

lemma lind_sleep_ge:
  assumes "lind_sleep clk d t = Some t'" "mono clk"
  shows "t < t'" "clk t + d \<le> clk t'"
proof -
  have r: "t + 1 < t'" "clk t + d \<le> clk (t' - 1)" using assms(1) sleep_loop_ge by (auto simp: lind_sleep_def)
  then show "t < t'" by simp
  show "clk t + d \<le> clk t'" using r monoD [OF assms(2), of "t' - 1" t'] by simp
qed

lemma duration_from_secs_ge:
  assumes "duration_from_secs x = Some d"
  shows "x - 1 / (2 * 10 ^ 9) \<le> as_secs d"
proof -
  let ?n = "round_half_even (x * 10 ^ 9)"
  have d: "d = nat ?n" using assms by (auto simp: duration_from_secs_def Let_def split: if_splits)
  have "x * 10 ^ 9 - 1 / 2 \<le> of_int ?n" by (rule round_half_even_near)
  also have "\<dots> \<le> of_nat d" unfolding d by simp
  finally show ?thesis by (simp add: as_secs_def field_simps)
qed

lemma as_secs_mono: "a \<le> b \<Longrightarrow> as_secs a \<le> as_secs b"
  by (simp add: as_secs_def divide_right_mono)

lemma as_secs_diff: "a \<le> b \<Longrightarrow> as_secs (b - a) = as_secs b - as_secs a"
  by (simp add: as_secs_def of_nat_diff diff_divide_distrib)

lemma as_secs_add: "as_secs (a + b) = as_secs a + as_secs b"
  by (simp add: as_secs_def add_divide_distrib)

lemma as_secs_nonneg [simp]: "0 \<le> as_secs a"
  by (simp add: as_secs_def)

section \<open>What a charge does to a bucket\<close>

text \<open>
  The level of a bucket plus what has drained since the beginning of time: a charge raises it by
  at least the quantity, and waiting does not lower it.
\<close>

definition charged :: "renewable_resource \<Rightarrow> rat" where
  "charged b = consumed b + allowed_per_sec b * as_secs (last_update b)"

text \<open>The level is at most the rate, up to the rounding of the waiting time to whole nanoseconds.\<close>

definition slack :: "renewable_resource \<Rightarrow> rat" where
  "slack b = allowed_per_sec b * (1 + 1 / (2 * 10 ^ 9))"

definition bucket_ok :: "nat \<Rightarrow> renewable_resource \<Rightarrow> bool" where
  "bucket_ok now b \<longleftrightarrow> 0 \<le> consumed b \<and> (consumed b \<le> slack b \<or> consumed b = 0) \<and> last_update b \<le> now"

lemma drain_simps [simp]:
  "allowed_per_sec (drain b now) = allowed_per_sec b" "last_update (drain b now) = now" "0 \<le> consumed (drain b now)"
  by (simp_all add: drain_def Let_def)

lemma drain_ge: "consumed b - as_secs (now - last_update b) * allowed_per_sec b \<le> consumed (drain b now)"
  by (simp add: drain_def Let_def)

lemma drain_le:
  assumes "0 \<le> c" "consumed b - as_secs (now - last_update b) * allowed_per_sec b \<le> c"
  shows "consumed (drain b now) \<le> c"
  using assms by (simp add: drain_def Let_def)

lemma drain_charged:
  assumes "last_update b \<le> now"
  shows "charged b \<le> charged (drain b now)"
  using drain_ge [of b now] assms by (simp add: charged_def as_secs_diff algebra_simps)

definition charge_bucket :: "(nat \<Rightarrow> nat) \<Rightarrow> renewable_resource \<Rightarrow> nat \<Rightarrow> rat \<Rightarrow> renewable_resource" where
  "charge_bucket clk b t q = (drain b (clk t))\<lparr>consumed := consumed (drain b (clk t)) + q\<rparr>"

lemma charge_bucket_simps [simp]:
  "allowed_per_sec (charge_bucket clk b t q) = allowed_per_sec b" "last_update (charge_bucket clk b t q) = clk t"
  by (simp_all add: charge_bucket_def)

lemma charge_bucket_nonneg: "0 \<le> q \<Longrightarrow> 0 \<le> consumed (charge_bucket clk b t q)"
  by (simp add: charge_bucket_def)

lemma charge_bucket_charged: "last_update b \<le> clk t \<Longrightarrow> charged b + q \<le> charged (charge_bucket clk b t q)"
  using drain_charged [of b "clk t"] by (simp add: charged_def charge_bucket_def)

lemma tattle_cases:
  assumes "tattle_quantity clk s t r q = Some (s', t')" "renewable s r = Some b"
  obtains (free) "consumed (charge_bucket clk b t q) \<le> allowed_per_sec b" "t' = t + 1"
      "s' = s\<lparr>renewable := (renewable s)(r \<mapsto> charge_bucket clk b t q)\<rparr>"
    | (wait) d t1 where "allowed_per_sec b < consumed (charge_bucket clk b t q)" "sleep_duration (charge_bucket clk b t q) = Some d"
      "lind_sleep clk d (t + 1) = Some t1" "t' = t1 + 1"
      "s' = s\<lparr>renewable := (renewable s)(r \<mapsto> drain (charge_bucket clk b t q) (clk t1))\<rparr>"
proof (cases "allowed_per_sec b < consumed (charge_bucket clk b t q)")
  case False
  with assms that(1) show ?thesis by (simp add: tattle_quantity_def charge_bucket_def Let_def)
next
  case True
  with assms that(2) show ?thesis
    by (auto simp: tattle_quantity_def charge_bucket_def Let_def split: option.splits)
qed

text \<open>After the wait the level is back at the rate.\<close>

lemma wait_slack:
  assumes "allowed_per_sec b < consumed b" "sleep_duration b = Some d" "last_update b + d \<le> now"
  shows "consumed (drain b now) \<le> slack b"
proof -
  let ?r = "allowed_per_sec b" and ?x = "(consumed b - allowed_per_sec b) / allowed_per_sec b"
  have ne: "?r \<noteq> 0" "duration_from_secs ?x = Some d" using assms(2) by (auto simp: sleep_duration_def split: if_splits)
  then have "0 \<le> ?x" by (auto simp: duration_from_secs_def Let_def split: if_splits)
  then have pos: "0 < ?r" using ne(1) assms(1) by (cases "0 < ?r") (simp_all add: zero_le_divide_iff)
  have "?x - 1 / (2 * 10 ^ 9) \<le> as_secs (now - last_update b)"
    using order_trans [OF duration_from_secs_ge [OF ne(2)] as_secs_mono] assms(3) by simp
  from mult_left_mono [OF this, of ?r] pos
  have "?r * ?x - ?r * (1 / (2 * 10 ^ 9)) \<le> as_secs (now - last_update b) * ?r"
    by (simp only: right_diff_distrib mult.commute less_imp_le)
  moreover have "?r * ?x = consumed b - ?r" using ne(1) by simp
  ultimately have "consumed b - as_secs (now - last_update b) * ?r \<le> slack b"
    unfolding slack_def distrib_left mult_1_right by linarith
  then show ?thesis using pos by (intro drain_le) (simp_all add: slack_def)
qed

lemma tattle_bucket:
  assumes "tattle_quantity clk s t r q = Some (s', t')" "renewable s r = Some b" "mono clk" "bucket_ok (clk t) b" "0 \<le> q"
  obtains b' where "s' = s\<lparr>renewable := (renewable s)(r \<mapsto> b')\<rparr>" "t \<le> t'" "allowed_per_sec b' = allowed_per_sec b"
    "charged b + q \<le> charged b'" "bucket_ok (clk t') b'"
  using assms(1,2)
proof (cases rule: tattle_cases)
  case free
  let ?b = "charge_bucket clk b t q"
  have le: "last_update b \<le> clk t" using assms(4) by (simp add: bucket_ok_def)
  have "bucket_ok (clk t') ?b" using free charge_bucket_nonneg [OF assms(5), of clk b t] monoD [OF assms(3), of t "t + 1"]
    by (auto simp: bucket_ok_def slack_def field_simps)
  with free that [of ?b] charge_bucket_charged [of b clk t q, OF le] show ?thesis by simp
next
  case (wait d t1)
  let ?b = "charge_bucket clk b t q"
  have le: "last_update b \<le> clk t" using assms(4) by (simp add: bucket_ok_def)
  have m: "clk t \<le> clk (t + 1)" using monoD [OF assms(3), of t "t + 1"] by simp
  have up: "t + 1 < t1" "clk (t + 1) + d \<le> clk t1" using lind_sleep_ge [OF wait(3) assms(3)] .
  have "clk t + d \<le> clk t1" using up(2) m by linarith
  then have "consumed (drain ?b (clk t1)) \<le> slack ?b" using wait by (intro wait_slack) simp_all
  then have "bucket_ok (clk t') (drain ?b (clk t1))" using monoD [OF assms(3), of t1 t'] wait
    by (simp add: bucket_ok_def slack_def)
  moreover have "charged b + q \<le> charged (drain ?b (clk t1))"
    using charge_bucket_charged [of b clk t q, OF le] drain_charged [of ?b "clk t1"] up m by simp
  ultimately show ?thesis using that [of "drain ?b (clk t1)"] wait up by simp
qed

section \<open>What a sequence of charges does\<close>

definition buckets_ok :: "nat \<Rightarrow> nanny_state \<Rightarrow> bool" where
  "buckets_ok now s \<longleftrightarrow> (\<forall>r b. renewable s r = Some b \<longrightarrow> bucket_ok now b)"

text \<open>Every bucket was charged at least \<open>q\<close> for its resource between the two states.\<close>

definition pays :: "nanny_state \<Rightarrow> (string \<Rightarrow> rat) \<Rightarrow> nanny_state \<Rightarrow> bool" where
  "pays s q s' \<longleftrightarrow>
     (\<forall>r. case renewable s r of
        None \<Rightarrow> renewable s' r = None
      | Some b \<Rightarrow> \<exists>b'. renewable s' r = Some b' \<and> allowed_per_sec b' = allowed_per_sec b \<and> charged b + q r \<le> charged b')"

definition accounts :: "(nat \<Rightarrow> nat) \<Rightarrow> nanny_state \<Rightarrow> nat \<Rightarrow> (string \<Rightarrow> rat) \<Rightarrow> nanny_state \<Rightarrow> nat \<Rightarrow> bool" where
  "accounts clk s t q s' t' \<longleftrightarrow> pays s q s' \<and> buckets_ok (clk t') s' \<and> t \<le> t'"

abbreviation no_charge :: "string \<Rightarrow> rat" where
  "no_charge \<equiv> \<lambda>r. 0"

definition only :: "string \<Rightarrow> rat \<Rightarrow> string \<Rightarrow> rat" where
  "only r q r' = (if r' = r then q else 0)"

lemma paysD:
  assumes "pays s q s'" "renewable s r = Some b"
  obtains b' where "renewable s' r = Some b'" "allowed_per_sec b' = allowed_per_sec b" "charged b + q r \<le> charged b'"
  using assms(1) unfolding pays_def by (elim allE [of _ r]) (use assms(2) that in auto)

lemma pays_None: "pays s q s' \<Longrightarrow> renewable s r = None \<Longrightarrow> renewable s' r = None"
  unfolding pays_def by (elim allE [of _ r]) simp

lemma pays_refl: "renewable s' = renewable s \<Longrightarrow> pays s no_charge s'"
  by (auto simp: pays_def split: option.split)

lemma pays_trans:
  assumes "pays s q s1" "pays s1 q' s2"
  shows "pays s (\<lambda>r. q r + q' r) s2"
  unfolding pays_def
proof (intro allI)
  fix r
  show "case renewable s r of None \<Rightarrow> renewable s2 r = None
    | Some b \<Rightarrow> \<exists>b'. renewable s2 r = Some b' \<and> allowed_per_sec b' = allowed_per_sec b \<and> charged b + (q r + q' r) \<le> charged b'"
  proof (cases "renewable s r")
    case None
    then show ?thesis using pays_None [OF assms(2) pays_None [OF assms(1)]] by simp
  next
    case (Some b)
    obtain b1 where 1: "renewable s1 r = Some b1" "allowed_per_sec b1 = allowed_per_sec b" "charged b + q r \<le> charged b1"
      using paysD [OF assms(1) Some] .
    obtain b2 where "renewable s2 r = Some b2" "allowed_per_sec b2 = allowed_per_sec b1" "charged b1 + q' r \<le> charged b2"
      using paysD [OF assms(2) 1(1)] .
    with 1 Some show ?thesis by simp
  qed
qed

lemma pays_weaken: "pays s q s' \<Longrightarrow> (\<And>r. q' r \<le> q r) \<Longrightarrow> pays s q' s'"
  unfolding pays_def
proof (intro allI, elim allE)
  fix r
  assume p: "case renewable s r of None \<Rightarrow> renewable s' r = None
    | Some b \<Rightarrow> \<exists>b'. renewable s' r = Some b' \<and> allowed_per_sec b' = allowed_per_sec b \<and> charged b + q r \<le> charged b'"
    and "\<And>r. q' r \<le> q r"
  then have "q' r \<le> q r" by blast
  with p show "case renewable s r of None \<Rightarrow> renewable s' r = None
    | Some b \<Rightarrow> \<exists>b'. renewable s' r = Some b' \<and> allowed_per_sec b' = allowed_per_sec b \<and> charged b + q' r \<le> charged b'"
    by (force split: option.splits)
qed

lemma accounts_trans:
  "accounts clk s t q s1 t1 \<Longrightarrow> accounts clk s1 t1 q' s2 t2 \<Longrightarrow> accounts clk s t (\<lambda>r. q r + q' r) s2 t2"
  by (auto simp: accounts_def intro: pays_trans)

lemma accounts_weaken: "accounts clk s t q s' t' \<Longrightarrow> (\<And>r. q' r \<le> q r) \<Longrightarrow> accounts clk s t q' s' t'"
  by (auto simp: accounts_def intro: pays_weaken)

lemma accounts_refl: "buckets_ok (clk t) s \<Longrightarrow> renewable s' = renewable s \<Longrightarrow> accounts clk s t no_charge s' t"
  by (simp add: accounts_def pays_refl buckets_ok_def)

lemma accountsD: "accounts clk s t q s' t' \<Longrightarrow> buckets_ok (clk t') s'"
  by (simp add: accounts_def)

lemma tattle_frame:
  assumes "tattle_quantity clk s t r q = Some (s', t')"
  shows "fungible s' = fungible s" "individual s' = individual s" "hard_caps s' = hard_caps s"
  using assms by (auto simp: tattle_quantity_def Let_def split: option.splits if_splits)

lemma tattle_accounts:
  assumes "tattle_quantity clk s t r q = Some (s', t')" "mono clk" "buckets_ok (clk t) s" "0 \<le> q"
  shows "accounts clk s t (only r q) s' t'"
proof (cases "renewable s r")
  case None
  with assms(1) have "s' = s" "t' = t" by (simp_all add: tattle_quantity_def)
  with None assms(3) show ?thesis by (auto simp: accounts_def pays_def only_def split: option.split)
next
  case (Some b)
  with assms(3) have ok: "bucket_ok (clk t) b" by (simp add: buckets_ok_def)
  obtain b' where b': "s' = s\<lparr>renewable := (renewable s)(r \<mapsto> b')\<rparr>" "t \<le> t'" "allowed_per_sec b' = allowed_per_sec b"
    "charged b + q \<le> charged b'" "bucket_ok (clk t') b'"
    using tattle_bucket [OF assms(1) Some assms(2) ok assms(4)] .
  have "bucket_ok (clk t') x" if "renewable s y = Some x" for x y
    using that assms(3) monoD [OF assms(2) b'(2)] by (fastforce simp: buckets_ok_def bucket_ok_def)
  with b' Some show ?thesis by (auto simp: accounts_def pays_def only_def buckets_ok_def split: option.split)
qed

text \<open>
  With a clock that goes on and rates that are not too small a charge returns.
\<close>

lemma sleep_duration_some:
  assumes "1 \<le> allowed_per_sec b" "allowed_per_sec b \<le> consumed b" "consumed b \<le> slack b + 2 ^ 33"
  shows "\<exists>d. sleep_duration b = Some d"
proof -
  let ?r = "allowed_per_sec b" and ?x = "(consumed b - allowed_per_sec b) / allowed_per_sec b"
  have "consumed b - ?r \<le> ?r * (1 / (2 * 10 ^ 9)) + 2 ^ 33" using assms(3) unfolding slack_def distrib_left mult_1_right by linarith
  also have "\<dots> \<le> ?r * (1 / (2 * 10 ^ 9)) + ?r * 2 ^ 33" using assms(1) by simp
  finally have "?x \<le> 1 / (2 * 10 ^ 9) + 2 ^ 33" using assms(1) by (simp add: divide_le_eq algebra_simps)
  then have "?x * 10 ^ 9 \<le> (1 / (2 * 10 ^ 9) + 2 ^ 33) * 10 ^ 9" by (rule mult_right_mono) simp
  also have "\<dots> = 1 / 2 + 2 ^ 33 * 10 ^ 9" by simp
  finally have "?x * 10 ^ 9 \<le> 1 / 2 + 2 ^ 33 * 10 ^ 9" .
  with round_half_even_near(2) [of "?x * 10 ^ 9"] have "of_int (round_half_even (?x * 10 ^ 9)) \<le> (1 + 2 ^ 33 * 10 ^ 9 :: rat)"
    by linarith
  then have "of_int (round_half_even (?x * 10 ^ 9)) \<le> (of_int (1 + 2 ^ 33 * 10 ^ 9) :: rat)" by simp
  then have "round_half_even (?x * 10 ^ 9) \<le> 1 + 2 ^ 33 * 10 ^ 9" by (rule iffD1 [OF of_int_le_iff])
  moreover have "0 \<le> ?x" using assms(1,2) by simp
  ultimately show ?thesis using assms(1) by (simp add: sleep_duration_def duration_from_secs_def Let_def)
qed

lemma tattle_returns:
  assumes "mono clk" "\<And>n. \<exists>k. n \<le> clk k" "buckets_ok (clk t) s" "\<And>r b. renewable s r = Some b \<Longrightarrow> 1 \<le> allowed_per_sec b"
    "0 \<le> q" "q \<le> 2 ^ 33"
  shows "\<exists>s' t'. tattle_quantity clk s t r q = Some (s', t')"
proof (cases "renewable s r")
  case None
  then show ?thesis by (simp add: tattle_quantity_def)
next
  case (Some b)
  let ?b = "charge_bucket clk b t q"
  have b: "0 \<le> consumed b" "consumed b \<le> slack b" "1 \<le> allowed_per_sec b"
    using assms(3,4) Some by (force simp: buckets_ok_def bucket_ok_def slack_def)+
  have "consumed (drain b (clk t)) \<le> consumed b" using b by (intro drain_le) simp_all
  then have s: "consumed ?b \<le> slack ?b + 2 ^ 33" using b(2) assms(6) by (simp add: charge_bucket_def slack_def)
  show ?thesis
  proof (cases "allowed_per_sec b < consumed ?b")
    case False
    then show ?thesis using Some by (simp add: tattle_quantity_def charge_bucket_def Let_def)
  next
    case True
    then obtain d where d: "sleep_duration ?b = Some d" using sleep_duration_some [of ?b] s b(3) by auto
    obtain k where "clk (t + 1) + d \<le> clk k" using assms(2) by blast
    moreover from this have "clk (t + 1) + d \<le> clk (max k (t + 2))" using monoD [OF assms(1), of k "max k (t + 2)"] by linarith
    ultimately obtain t1 where "lind_sleep clk d (t + 1) = Some t1"
      using sleep_loop_returns [of "clk (t + 1) + d" clk "max k (t + 2)" "t + 2"] by (auto simp: lind_sleep_def)
    then show ?thesis using Some True d by (simp add: tattle_quantity_def charge_bucket_def Let_def)
  qed
qed

section \<open>Counters\<close>

text \<open>
  The contract of a set of capped counters: acquiring succeeds exactly below the cap and takes one
  slot, releasing gives one back, and the caps never change.
\<close>

locale slot_counters =
  fixes held cap :: "'s \<Rightarrow> 'r \<Rightarrow> nat option"
    and acquire :: "'s \<Rightarrow> 'r \<Rightarrow> bool \<times> 's"
    and release :: "'s \<Rightarrow> 'r \<Rightarrow> 's"
  assumes acquire_cap: "cap (snd (acquire s r)) = cap s"
    and release_cap: "cap (release s r) = cap s"
    and acquire_unlimited: "held s r = None \<Longrightarrow> acquire s r = (True, s)"
    and acquire_limited: "held s r = Some n \<Longrightarrow> cap s r = Some l \<Longrightarrow>
      (if n < l then fst (acquire s r) \<and> held (snd (acquire s r)) = (held s)(r \<mapsto> n + 1) else acquire s r = (False, s))"
    and release_held: "held (release s r) = (case held s r of None \<Rightarrow> held s | Some n \<Rightarrow> (held s)(r \<mapsto> n - 1))"
begin

definition in_caps :: "'s \<Rightarrow> bool" where
  "in_caps s \<longleftrightarrow> (\<forall>r. case held s r of None \<Rightarrow> True | Some n \<Rightarrow> \<exists>l. cap s r = Some l \<and> n \<le> l)"

lemma in_capsD: "in_caps s \<Longrightarrow> held s r = Some n \<Longrightarrow> \<exists>l. cap s r = Some l \<and> n \<le> l"
  unfolding in_caps_def by (elim allE [of _ r]) simp

lemma in_caps_acquire: "in_caps s \<Longrightarrow> in_caps (snd (acquire s r))"
proof (cases "held s r")
  case None
  then show "in_caps s \<Longrightarrow> ?thesis" by (simp add: acquire_unlimited)
next
  case (Some n)
  assume w: "in_caps s"
  then obtain l where l: "cap s r = Some l" "n \<le> l" using Some in_capsD by blast
  show ?thesis
  proof (cases "n < l")
    case True
    then have "held (snd (acquire s r)) = (held s)(r \<mapsto> n + 1)" using acquire_limited [OF Some l(1)] by simp
    then show ?thesis using w l True by (auto simp: in_caps_def acquire_cap split: option.splits)
  next
    case False
    then show ?thesis using acquire_limited [OF Some l(1)] w by simp
  qed
qed

lemma in_caps_release: "in_caps s \<Longrightarrow> in_caps (release s r)"
proof (cases "held s r")
  case (Some n)
  assume w: "in_caps s"
  then obtain l where "cap s r = Some l" "n \<le> l" using Some in_capsD by blast
  then show ?thesis using w Some by (auto simp: in_caps_def release_cap release_held split: option.splits)
qed (auto simp: in_caps_def release_cap release_held split: option.splits)

text \<open>A slot that was acquired and given back leaves the counters as they were.\<close>

lemma acquire_release: "in_caps s \<Longrightarrow> fst (acquire s r) \<Longrightarrow> held (release (snd (acquire s r)) r) = held s"
proof (cases "held s r")
  case None
  then show ?thesis by (simp add: acquire_unlimited release_held)
next
  case (Some n)
  assume w: "in_caps s" and a: "fst (acquire s r)"
  then obtain l where l: "cap s r = Some l" "n \<le> l" using Some in_capsD by blast
  then have "held (snd (acquire s r)) = (held s)(r \<mapsto> n + 1)" using acquire_limited [OF Some l(1)] a by (auto split: if_splits)
  then show ?thesis using Some by (simp add: release_held fun_eq_iff)
qed

end

definition held_of :: "nanny_state \<Rightarrow> string \<Rightarrow> nat option" where
  "held_of s r = map_option count (fungible s r)"

definition cap_of :: "nanny_state \<Rightarrow> string \<Rightarrow> nat option" where
  "cap_of s r = map_option limit (fungible s r)"

interpretation nanny_slots: slot_counters held_of cap_of tattle_add_item tattle_remove_item
  by unfold_locales
    (auto simp: held_of_def cap_of_def tattle_add_item_def tattle_remove_item_def fun_eq_iff split: option.split)

lemma slots_frame:
  "renewable (snd (tattle_add_item s r)) = renewable s" "individual (snd (tattle_add_item s r)) = individual s"
  "renewable (tattle_remove_item s r) = renewable s" "individual (tattle_remove_item s r) = individual s"
  by (simp_all add: tattle_add_item_def tattle_remove_item_def split: option.split)

section \<open>Reading the configuration\<close>

definition config_line :: "string \<times> nat \<Rightarrow> string" where
  "config_line x = ''resource'' @ '' '' @ fst x @ '' '' @ nat_str (snd x)"

lemma parse_f64_nat: "parse_f64 (nat_str n) = Some (of_nat n)"
proof -
  let ?s = "nat_str n"
  have no: "byte_char b \<notin> set ?s" if "unat b < 48 \<or> 57 < unat b" for b
    using nat_str_digits [of _ n] byte_not_digit [OF that] by blast
  have "CHR ''-'' = byte_char 45" "CHR ''+'' = byte_char 43" "CHR ''.'' = byte_char 46" "CHR ''e'' = byte_char 101" "CHR ''E'' = byte_char 69"
    by (simp_all add: byte_char_def char_of_def bit_0)
  then have c: "CHR ''-'' \<notin> set ?s" "CHR ''+'' \<notin> set ?s" "CHR ''.'' \<notin> set ?s" "CHR ''e'' \<notin> set ?s" "CHR ''E'' \<notin> set ?s"
    using no [of 45] no [of 43] no [of 46] no [of 101] no [of 69] by simp_all
  then have "f64_sign ?s = (1, ?s)" by (cases ?s) (auto simp: f64_sign_def starts_with_def)
  moreover have t: "takeWhile (\<lambda>c. c \<noteq> CHR ''e'' \<and> c \<noteq> CHR ''E'') ?s = ?s" using c by (auto simp: takeWhile_eq_all_conv)
  moreover have "split_once (CHR ''.'') ?s = None" using c by (simp add: split_once_def)
  ultimately show ?thesis by (simp add: parse_f64_def f64_mantissa_def digits_val_nat_str t)
qed

definition KNOWN_RESOURCES :: "string list" where
  "KNOWN_RESOURCES = RENEWABLE_RESOURCES @ FUNGIBLE_RESOURCES @ INDIVIDUAL_RESOURCES @ [''memory'', ''diskused'']"

text \<open>The bound of the integer type a value is parsed as.\<close>

definition in_type :: "string \<times> nat \<Rightarrow> bool" where
  "in_type x \<longleftrightarrow>
     (if fst x \<in> set RENEWABLE_RESOURCES then True else if fst x \<in> set FUNGIBLE_RESOURCES then snd x < 2 ^ 32
      else if fst x \<in> set INDIVIDUAL_RESOURCES then snd x < 2 ^ 16 else snd x < 2 ^ 64)"

lemma known_plain: "name \<in> set KNOWN_RESOURCES \<Longrightarrow> name \<noteq> [] \<and> (\<forall>c \<in> set name. plain c)"
proof -
  have "\<forall>name \<in> set KNOWN_RESOURCES. name \<noteq> [] \<and> (\<forall>c \<in> set name. plain c)"
    by (simp add: KNOWN_RESOURCES_def RENEWABLE_RESOURCES_def FUNGIBLE_RESOURCES_def INDIVIDUAL_RESOURCES_def plain_def)
  then show "name \<in> set KNOWN_RESOURCES \<Longrightarrow> name \<noteq> [] \<and> (\<forall>c \<in> set name. plain c)" by blast
qed

lemma config_line_chars:
  assumes "fst x \<in> set KNOWN_RESOURCES" "c \<in> set (config_line x)"
  shows "plain c \<or> c = CHR '' ''"
  using assms(2) known_plain [OF assms(1)] nat_str_plain [of c "snd x"] by (auto simp: config_line_def plain_def)

lemma parse_config_line:
  assumes "fst x \<in> set KNOWN_RESOURCES"
  shows "parse_line cfg (config_line x) = parse_entry cfg (fst x) (nat_str (snd x))"
proof -
  let ?l = "config_line x"
  have "CHR ''#'' \<notin> set ?l" using config_line_chars [OF assms, of "CHR ''#''"] by (auto simp: plain_def)
  then have t: "takeWhile (\<lambda>c. c \<noteq> CHR ''#'') ?l = ?l" by (auto simp: takeWhile_eq_all_conv)
  have "plain (CHR ''r'')" by (simp add: plain_def)
  moreover have "plain (last ?l)" using nat_str_plain [OF last_in_set] by (simp add: config_line_def)
  moreover have "hd ?l = CHR ''r''" "?l \<noteq> []" by (simp_all add: config_line_def)
  ultimately have "str_trim ?l = ?l" using plain_not_ws by (intro trim_ends) auto
  moreover have "split_whitespace ?l = [''resource'', fst x, nat_str (snd x)]" unfolding config_line_def
    using known_plain [OF assms] nat_str_plain by (intro split_whitespace_words) (auto simp: plain_def)
  ultimately show ?thesis using \<open>?l \<noteq> []\<close> by (simp add: parse_line_def t)
qed

text \<open>What the entries of a configuration file mean: the last value of a rate or a limit counts, and the ports accumulate.\<close>

definition config_means :: "(string \<times> nat) list \<Rightarrow> resource_config \<Rightarrow> bool" where
  "config_means es cfg \<longleftrightarrow>
     cfg_renewable cfg = (\<lambda>r. if r \<in> set RENEWABLE_RESOURCES then map_option of_nat (map_of (rev es) r) else None) \<and>
     cfg_fungible cfg = (\<lambda>r. if r \<in> set FUNGIBLE_RESOURCES then map_of (rev es) r else None) \<and>
     cfg_individual cfg = (\<lambda>r. if r \<in> set INDIVIDUAL_RESOURCES \<and> r \<in> fst ` set es then Some {v. (r, v) \<in> set es} else None)"

lemma parse_entry_means:
  assumes "config_means es cfg" "fst x \<in> set KNOWN_RESOURCES" "in_type x"
  shows "\<exists>cfg'. parse_entry cfg (fst x) (nat_str (snd x)) = Some cfg' \<and> config_means (es @ [x]) cfg'"
proof -
  obtain name v where x: "x = (name, v)" by (cases x)
  have dis: "set RENEWABLE_RESOURCES \<inter> set FUNGIBLE_RESOURCES = {}" "set RENEWABLE_RESOURCES \<inter> set INDIVIDUAL_RESOURCES = {}"
    "set FUNGIBLE_RESOURCES \<inter> set INDIVIDUAL_RESOURCES = {}"
    "{''memory'', ''diskused''} \<inter> (set RENEWABLE_RESOURCES \<union> set FUNGIBLE_RESOURCES \<union> set INDIVIDUAL_RESOURCES) = {}"
    by (simp_all add: RENEWABLE_RESOURCES_def FUNGIBLE_RESOURCES_def INDIVIDUAL_RESOURCES_def)
  consider "name \<in> set RENEWABLE_RESOURCES" | "name \<in> set FUNGIBLE_RESOURCES" | "name \<in> set INDIVIDUAL_RESOURCES"
    | "name \<in> {''memory'', ''diskused''}" using assms(2) x by (auto simp: KNOWN_RESOURCES_def)
  then show ?thesis
  proof cases
    case 1
    then show ?thesis using assms(1) dis x
      by (auto simp: parse_entry_def config_means_def parse_f64_nat fun_eq_iff image_iff)
  next
    case 2
    then have "name \<notin> set RENEWABLE_RESOURCES" "name \<notin> set INDIVIDUAL_RESOURCES" using dis by auto
    then show ?thesis using 2 assms x
      by (auto simp: parse_entry_def config_means_def parse_nat_str in_type_def fun_eq_iff image_iff)
  next
    case 3
    then have n: "name \<notin> set RENEWABLE_RESOURCES" "name \<notin> set FUNGIBLE_RESOURCES" using dis by auto
    then show ?thesis using 3 assms x
      by (auto simp: parse_entry_def config_means_def parse_nat_str in_type_def fun_eq_iff image_iff split: option.split)
  next
    case 4
    then have n: "name \<notin> set RENEWABLE_RESOURCES" "name \<notin> set FUNGIBLE_RESOURCES" "name \<notin> set INDIVIDUAL_RESOURCES" using dis by auto
    then show ?thesis using 4 assms x
      by (auto simp: parse_entry_def config_means_def parse_nat_str in_type_def fun_eq_iff image_iff)
  qed
qed

lemma parse_lines_append:
  "parse_lines cfg (ls @ [l]) = (case parse_lines cfg ls of None \<Rightarrow> None | Some cfg \<Rightarrow> parse_line cfg l)"
  by (induction ls arbitrary: cfg) (auto split: option.split)

text \<open>A configuration text with one line per entry is read back with the meaning it was written
  with: the last rate and the last limit of a resource, and all the ports of an allowlist.\<close>

theorem config_roundtrip:
  assumes "\<forall>x \<in> set es. fst x \<in> set KNOWN_RESOURCES \<and> in_type x"
  shows "\<exists>cfg. parse_config (concat (map (\<lambda>x. config_line x @ [CHR 0x0A]) es)) = Some cfg \<and> config_means es cfg"
proof -
  let ?e = "\<lparr>cfg_renewable = Map.empty, cfg_fungible = Map.empty, cfg_individual = Map.empty, cfg_hard_caps = Map.empty\<rparr>"
  have "CHR 0x0A \<notin> set (config_line x) \<and> CHR 0x0D \<notin> set (config_line x)" if "x \<in> set es" for x
    using config_line_chars [of x "CHR 0x0A"] config_line_chars [of x "CHR 0x0D"] assms that by (auto simp: plain_def)
  then have l: "str_lines (concat (map (\<lambda>x. config_line x @ [CHR 0x0A]) es)) = map config_line es"
    using str_lines_concat [of "map config_line es"] by (simp add: comp_def)
  have "\<exists>cfg. parse_lines ?e (map config_line es) = Some cfg \<and> config_means es cfg" using assms
  proof (induction es rule: rev_induct)
    case Nil
    then show ?case by (simp add: config_means_def fun_eq_iff)
  next
    case (snoc x es)
    then obtain cfg where "parse_lines ?e (map config_line es) = Some cfg" "config_means es cfg" by auto
    then show ?case using parse_entry_means [of es cfg x] snoc.prems
      by (simp add: parse_lines_append parse_config_line)
  qed
  then show ?thesis by (simp add: parse_config_def l)
qed

theorem config_roundtrip_witness:
  "\<exists>cfg. parse_config (concat (map (\<lambda>x. config_line x @ [CHR 0x0A]) [(''connport'', 80), (''events'', 10), (''connport'', 443)])) = Some cfg \<and>
     config_means [(''connport'', 80), (''events'', 10), (''connport'', 443)] cfg"
  by (rule config_roundtrip) (simp add: KNOWN_RESOURCES_def RENEWABLE_RESOURCES_def FUNGIBLE_RESOURCES_def INDIVIDUAL_RESOURCES_def in_type_def)

end
