(* ===== verification/Resource_Grate.thy ===== *)
theory Resource_Grate
  imports Nanny Grate
begin

unbundle bit_operations_syntax

text \<open>
  The handlers of resource-grate (\<open>rust-grates/resource-grate/src/handlers.rs\<close>, \<open>main.rs\<close>): every
  handler charges the accounting of theory Nanny, forwards the call and keeps the kind of each
  descriptor in the descriptor tables.  The number of clock readings is part of the state.
\<close>

section \<open>State and helpers\<close>

record 'ft res_world = "'ft grate_world" +
  nanny :: nanny_state
  ticks :: nat

type_synonym 'ft res_handler =
  "(nat \<Rightarrow> nat) \<Rightarrow> 'ft grate_env \<Rightarrow> 'ft res_world \<Rightarrow> nat \<Rightarrow> nat list \<Rightarrow> nat list \<Rightarrow> (int \<times> 'ft res_world) option"

definition FD_FILE :: nat where "FD_FILE = 1"
definition FD_SOCKET :: nat where "FD_SOCKET = 2"
definition SOCK_LOOPBACK :: nat where "SOCK_LOOPBACK = 1"
definition SOCK_LISTENING :: nat where "SOCK_LISTENING = 2"

definition forward ::
  "'ft grate_env \<Rightarrow> 'ft res_world \<Rightarrow> nat \<Rightarrow> nat \<Rightarrow> nat list \<Rightarrow> nat list \<Rightarrow> int \<times> 'ft res_world" where
  "forward E w syscall_nr grate_cageid a g =
     grate_call E w \<lparr>callnumber = as_u32 syscall_nr, self_cageid = grate_cageid, target_cageid = g ! 0,
                     call_args = map Num a, call_cages = g\<rparr>"

definition block_charge :: "int \<Rightarrow> rat" where
  "block_charge bytes = of_int \<lceil>of_int bytes / 4096 :: rat\<rceil> * 4096"

definition sockaddr_family :: "byte list \<Rightarrow> nat" where
  "sockaddr_family buf = le_nat [buf ! 0, buf ! 1]"

definition extract_port :: "'ft grate_env \<Rightarrow> 'ft res_world \<Rightarrow> nat \<Rightarrow> nat \<Rightarrow> nat option" where
  "extract_port E w addr_ptr addr_cage =
     (case ge_copymem E (hist w) addr_cage addr_ptr 16 of
        None \<Rightarrow> None
      | Some buf \<Rightarrow> if sockaddr_family buf = 2 then Some (256 * unat (buf ! 2) + unat (buf ! 3)) else None)"

definition is_loopback_addr :: "'ft grate_env \<Rightarrow> 'ft res_world \<Rightarrow> nat \<Rightarrow> nat \<Rightarrow> bool" where
  "is_loopback_addr E w addr_ptr addr_cage =
     (case ge_copymem E (hist w) addr_cage addr_ptr 16 of
        None \<Rightarrow> False
      | Some buf \<Rightarrow> sockaddr_family buf = 2 \<and> buf ! 4 = 127)"

definition fd_kind :: "'ft grate_env \<Rightarrow> 'ft res_world \<Rightarrow> nat \<Rightarrow> nat \<Rightarrow> nat" where
  "fd_kind E w cage_id fd =
     (case translate_virtual_fd (ge_fd E) (fdt w) cage_id fd of Some entry \<Rightarrow> fdkind entry | None \<Rightarrow> 0)"

definition socket_flags :: "'ft grate_env \<Rightarrow> 'ft res_world \<Rightarrow> nat \<Rightarrow> nat \<Rightarrow> nat" where
  "socket_flags E w cage_id fd =
     (case translate_virtual_fd (ge_fd E) (fdt w) cage_id fd of
        Some entry \<Rightarrow> if fdkind entry = FD_SOCKET then perfdinfo entry else 0
      | None \<Rightarrow> 0)"

section \<open>Charges\<close>

definition charge :: "(nat \<Rightarrow> nat) \<Rightarrow> 'ft res_world \<Rightarrow> string \<Rightarrow> rat \<Rightarrow> 'ft res_world option" where
  "charge clk w resource quantity =
     map_option (\<lambda>(s, t). w\<lparr>nanny := s, ticks := t\<rparr>) (tattle_quantity clk (nanny w) (ticks w) resource quantity)"

text \<open>The resource an operation on a descriptor is charged to, and the quantity for a number of bytes.\<close>

definition read_resource :: "'ft grate_env \<Rightarrow> 'ft res_world \<Rightarrow> nat \<Rightarrow> nat \<Rightarrow> string" where
  "read_resource E w cage_id fd =
     (if fd_kind E w cage_id fd = FD_SOCKET
      then (if socket_flags E w cage_id fd AND SOCK_LOOPBACK \<noteq> 0 then ''looprecv'' else ''netrecv'')
      else ''fileread'')"

definition read_quantity :: "'ft grate_env \<Rightarrow> 'ft res_world \<Rightarrow> nat \<Rightarrow> nat \<Rightarrow> int \<Rightarrow> rat" where
  "read_quantity E w cage_id fd bytes =
     (if fd_kind E w cage_id fd = FD_SOCKET then of_int bytes + 64 else block_charge bytes)"

definition is_log_fd :: "nat \<Rightarrow> bool" where
  "is_log_fd fd \<longleftrightarrow> as_i32 (int fd) = 1 \<or> as_i32 (int fd) = 2"

definition write_resource :: "'ft grate_env \<Rightarrow> 'ft res_world \<Rightarrow> nat \<Rightarrow> nat \<Rightarrow> string" where
  "write_resource E w cage_id fd =
     (if is_log_fd fd then ''lograte''
      else if fd_kind E w cage_id fd = FD_SOCKET
      then (if socket_flags E w cage_id fd AND SOCK_LOOPBACK \<noteq> 0 then ''loopsend'' else ''netsend'')
      else ''filewrite'')"

definition write_quantity :: "'ft grate_env \<Rightarrow> 'ft res_world \<Rightarrow> nat \<Rightarrow> nat \<Rightarrow> int \<Rightarrow> rat" where
  "write_quantity E w cage_id fd bytes =
     (if is_log_fd fd then of_int bytes
      else if fd_kind E w cage_id fd = FD_SOCKET then of_int bytes + 64 else block_charge bytes)"

definition charge_read_pre :: "(nat \<Rightarrow> nat) \<Rightarrow> 'ft grate_env \<Rightarrow> 'ft res_world \<Rightarrow> nat \<Rightarrow> nat \<Rightarrow> 'ft res_world option" where
  "charge_read_pre clk E w cage_id fd = charge clk w (read_resource E w cage_id fd) 0"

definition charge_read_post ::
  "(nat \<Rightarrow> nat) \<Rightarrow> 'ft grate_env \<Rightarrow> 'ft res_world \<Rightarrow> nat \<Rightarrow> nat \<Rightarrow> int \<Rightarrow> 'ft res_world option" where
  "charge_read_post clk E w cage_id fd bytes =
     (if bytes \<le> 0 then Some w
      else charge clk w (read_resource E w cage_id fd) (read_quantity E w cage_id fd bytes))"

definition charge_write_pre :: "(nat \<Rightarrow> nat) \<Rightarrow> 'ft grate_env \<Rightarrow> 'ft res_world \<Rightarrow> nat \<Rightarrow> nat \<Rightarrow> 'ft res_world option" where
  "charge_write_pre clk E w cage_id fd = charge clk w (write_resource E w cage_id fd) 0"

definition charge_write_post ::
  "(nat \<Rightarrow> nat) \<Rightarrow> 'ft grate_env \<Rightarrow> 'ft res_world \<Rightarrow> nat \<Rightarrow> nat \<Rightarrow> int \<Rightarrow> 'ft res_world option" where
  "charge_write_post clk E w cage_id fd bytes =
     (if bytes \<le> 0 then Some w
      else charge clk w (write_resource E w cage_id fd) (write_quantity E w cage_id fd bytes))"

section \<open>Slots and descriptor marks\<close>

definition add_item :: "'ft res_world \<Rightarrow> string \<Rightarrow> bool \<times> 'ft res_world" where
  "add_item w r = (let (ok, s) = tattle_add_item (nanny w) r in (ok, w\<lparr>nanny := s\<rparr>))"

definition remove_item :: "'ft res_world \<Rightarrow> string \<Rightarrow> 'ft res_world" where
  "remove_item w r = w\<lparr>nanny := tattle_remove_item (nanny w) r\<rparr>"

definition track :: "'ft grate_env \<Rightarrow> 'ft res_world \<Rightarrow> nat \<Rightarrow> int \<Rightarrow> nat \<Rightarrow> nat \<Rightarrow> 'ft res_world" where
  "track E w cage_id ret kind pinfo =
     (case get_specific_virtual_fd (ge_fd E) (fdt w) cage_id (as_u64 ret) kind 0 False pinfo of
        Some ft \<Rightarrow> w\<lparr>fdt := ft\<rparr> | None \<Rightarrow> w)"

definition untrack :: "'ft grate_env \<Rightarrow> 'ft res_world \<Rightarrow> nat \<Rightarrow> nat \<Rightarrow> 'ft res_world" where
  "untrack E w cage_id fd =
     (case close_virtualfd (ge_fd E) (fdt w) cage_id fd of Some ft \<Rightarrow> w\<lparr>fdt := ft\<rparr> | None \<Rightarrow> w)"

text \<open>The entry is closed and entered again as a socket with changed flags.\<close>

definition mark_socket :: "'ft grate_env \<Rightarrow> 'ft res_world \<Rightarrow> nat \<Rightarrow> nat \<Rightarrow> (nat \<Rightarrow> nat) \<Rightarrow> 'ft res_world" where
  "mark_socket E w cage_id fd f =
     (case translate_virtual_fd (ge_fd E) (fdt w) cage_id fd of
        None \<Rightarrow> w
      | Some entry \<Rightarrow>
          let w = untrack E w cage_id fd in
          (case get_specific_virtual_fd (ge_fd E) (fdt w) cage_id fd FD_SOCKET (underfd entry) (should_cloexec entry) (f (perfdinfo entry)) of
             Some ft \<Rightarrow> w\<lparr>fdt := ft\<rparr> | None \<Rightarrow> w))"

section \<open>File handlers\<close>

definition handle_open :: "'ft res_handler" where
  "handle_open clk E w cid a g =
     (let flags = as_u32 (a ! 1); (ok, w) = add_item w ''filesopened'' in
      if \<not> ok then Some (-24, w)
      else do {
        w \<leftarrow> charge clk w ''fileread'' 0;
        let (ret, w) = forward E w SYS_OPEN cid a g;
        if ret \<ge> 0 then do {
          let w = track E w (g ! 0) ret FD_FILE flags;
          w \<leftarrow> charge clk w ''fileread'' 4096;
          let acc = flags AND 3;
          w \<leftarrow> (if acc = 1 \<or> acc = 2 then charge clk w ''filewrite'' 4096 else Some w);
          Some (ret, w)
        } else Some (ret, remove_item w ''filesopened'') })"

definition handle_close :: "'ft res_handler" where
  "handle_close clk E w cid a g =
     (let kind = fd_kind E w (g ! 0) (a ! 0);
          sflags = (if kind = FD_SOCKET then socket_flags E w (g ! 0) (a ! 0) else 0);
          (ret, w) = forward E w SYS_CLOSE cid a g
      in Some (ret,
           if ret \<ge> 0 then
             untrack E
               (if kind = FD_FILE then remove_item w ''filesopened''
                else if kind = FD_SOCKET then
                  (if sflags AND SOCK_LISTENING \<noteq> 0 then remove_item w ''insockets'' else remove_item w ''outsockets'')
                else w) (g ! 0) (a ! 0)
           else w))"

text \<open>The bodies the read-like and the write-like handlers share.\<close>

definition read_like :: "nat \<Rightarrow> 'ft res_handler" where
  "read_like nr clk E w cid a g = do {
     w \<leftarrow> charge_read_pre clk E w (g ! 0) (a ! 0);
     let (ret, w) = forward E w nr cid a g;
     w \<leftarrow> charge_read_post clk E w (g ! 0) (a ! 0) ret;
     Some (ret, w) }"

definition write_like :: "nat \<Rightarrow> 'ft res_handler" where
  "write_like nr clk E w cid a g = do {
     w \<leftarrow> charge_write_pre clk E w (g ! 0) (a ! 0);
     let (ret, w) = forward E w nr cid a g;
     w \<leftarrow> charge_write_post clk E w (g ! 0) (a ! 0) ret;
     Some (ret, w) }"

definition handle_read :: "'ft res_handler" where "handle_read = read_like SYS_READ"
definition handle_write :: "'ft res_handler" where "handle_write = write_like SYS_WRITE"
definition handle_pread64 :: "'ft res_handler" where "handle_pread64 = read_like SYS_PREAD"
definition handle_pwrite64 :: "'ft res_handler" where "handle_pwrite64 = write_like SYS_PWRITE"
definition handle_readv :: "'ft res_handler" where "handle_readv = read_like SYS_READV"
definition handle_writev :: "'ft res_handler" where "handle_writev = write_like SYS_WRITEV"
definition handle_sendto :: "'ft res_handler" where "handle_sendto = write_like SYS_SENDTO"
definition handle_recvfrom :: "'ft res_handler" where "handle_recvfrom = read_like SYS_RECVFROM"
definition handle_sendmsg :: "'ft res_handler" where "handle_sendmsg = write_like SYS_SENDMSG"
definition handle_recvmsg :: "'ft res_handler" where "handle_recvmsg = read_like SYS_RECVMSG"

section \<open>Socket handlers\<close>

definition handle_socket :: "'ft res_handler" where
  "handle_socket clk E w cid a g =
     (let (ret, w) = forward E w SYS_SOCKET cid a g
      in Some (ret, if ret \<ge> 0 then track E w (g ! 0) ret FD_SOCKET 0 else w))"

definition handle_bind :: "'ft res_handler" where
  "handle_bind clk E w cid a g =
     (if (case extract_port E w (a ! 1) (g ! 1) of
            Some port \<Rightarrow> \<not> is_item_allowed (nanny w) ''messport'' port \<and> \<not> is_item_allowed (nanny w) ''connport'' port
          | None \<Rightarrow> False)
      then Some (-13, w)
      else
        let w = (if is_loopback_addr E w (a ! 1) (g ! 1) then mark_socket E w (g ! 0) (a ! 0) (\<lambda>p. p OR SOCK_LOOPBACK) else w)
        in Some (forward E w SYS_BIND cid a g))"

definition handle_listen :: "'ft res_handler" where
  "handle_listen clk E w cid a g =
     (let (ok, w) = add_item w ''insockets'' in
      if \<not> ok then Some (-24, w)
      else let (ret, w) = forward E w SYS_LISTEN cid a g
           in Some (ret,
                if ret \<ge> 0 then mark_socket E w (g ! 0) (a ! 0) (\<lambda>p. p OR SOCK_LISTENING)
                else remove_item w ''insockets''))"

definition handle_accept :: "'ft res_handler" where
  "handle_accept clk E w cid a g =
     (let (ok, w) = add_item w ''outsockets'' in
      if \<not> ok then Some (-24, w)
      else let (ret, w) = forward E w SYS_ACCEPT cid a g in
           if ret \<ge> 0 then do {
             let loopback = (socket_flags E w (g ! 0) (a ! 0) AND SOCK_LOOPBACK \<noteq> 0);
             let w = track E w (g ! 0) ret FD_SOCKET (if loopback then SOCK_LOOPBACK else 0);
             w \<leftarrow> charge clk w (if loopback then ''looprecv'' else ''netrecv'') 128;
             w \<leftarrow> charge clk w (if loopback then ''loopsend'' else ''netsend'') 64;
             Some (ret, w)
           } else Some (ret, remove_item w ''outsockets''))"

definition handle_connect :: "'ft res_handler" where
  "handle_connect clk E w cid a g =
     (let (ok, w) = add_item w ''outsockets'' in
      if \<not> ok then Some (-24, w)
      else do {
        w \<leftarrow> charge clk w ''netsend'' 0;
        w \<leftarrow> charge clk w ''netrecv'' 0;
        let (ret, w) = forward E w SYS_CONNECT cid a g;
        if ret \<ge> 0 then do {
          let loopback = is_loopback_addr E w (a ! 1) (g ! 1);
          let w = mark_socket E w (g ! 0) (a ! 0)
                    (\<lambda>p. if loopback then p OR SOCK_LOOPBACK else p AND (2 ^ 64 - 1 - SOCK_LOOPBACK));
          w \<leftarrow> charge clk w (if loopback then ''loopsend'' else ''netsend'') 128;
          w \<leftarrow> charge clk w (if loopback then ''looprecv'' else ''netrecv'') 64;
          Some (ret, w)
        } else Some (ret, remove_item w ''outsockets'') })"

section \<open>Threads, processes and random numbers\<close>

definition handle_clone :: "'ft res_handler" where
  "handle_clone clk E w cid a g =
     (let is_thread = is_thread_clone E w (a ! 0) (g ! 0);
          (ok, w) = (if is_thread then add_item w ''events'' else (True, w)) in
      if \<not> ok then Some (-11, w)
      else
        let (ret, w) = forward E w SYS_CLONE cid a g;
            w = (if ret < 0 \<and> is_thread then remove_item w ''events'' else w);
            w = (if ret > 0 \<and> \<not> is_thread
                 then (case copy_fdtable_for_cage (ge_fd E) (fdt w) (g ! 0) (as_u64 ret) of Some ft \<Rightarrow> w\<lparr>fdt := ft\<rparr> | None \<Rightarrow> w)
                 else w)
        in Some (ret, w))"

definition handle_exit :: "'ft res_handler" where
  "handle_exit clk E w cid a g = Some (forward E (remove_item w ''events'') SYS_EXIT cid a g)"

definition handle_getrandom :: "'ft res_handler" where
  "handle_getrandom clk E w cid a g = do {
     w \<leftarrow> charge clk w ''random'' 0;
     let (ret, w) = forward E w SYS_GETRANDOM cid a g;
     w \<leftarrow> (if ret > 0 then charge clk w ''random'' 1024 else Some w);
     Some (ret, w) }"

section \<open>Registration and start\<close>

definition res_handlers :: "(nat \<times> 'ft res_handler) list" where
  "res_handlers =
     [(SYS_OPEN, handle_open), (SYS_CLOSE, handle_close), (SYS_READ, handle_read), (SYS_WRITE, handle_write),
      (SYS_PREAD, handle_pread64), (SYS_PWRITE, handle_pwrite64), (SYS_READV, handle_readv), (SYS_WRITEV, handle_writev),
      (SYS_SOCKET, handle_socket), (SYS_BIND, handle_bind), (SYS_LISTEN, handle_listen), (SYS_ACCEPT, handle_accept),
      (SYS_CONNECT, handle_connect), (SYS_SENDTO, handle_sendto), (SYS_RECVFROM, handle_recvfrom),
      (SYS_SENDMSG, handle_sendmsg), (SYS_RECVMSG, handle_recvmsg), (SYS_CLONE, handle_clone), (SYS_EXIT, handle_exit),
      (SYS_GETRANDOM, handle_getrandom)]"

definition res_preexec :: "'ft grate_env \<Rightarrow> 'ft \<Rightarrow> nat \<Rightarrow> 'ft" where
  "res_preexec E ft cage_id =
     foldl (\<lambda>ft fd. case get_specific_virtual_fd (ge_fd E) ft cage_id fd 0 fd False 0 of Some ft \<Rightarrow> ft | None \<Rightarrow> ft)
       (init_empty_cage (ge_fd E) ft cage_id) [0, 1, 2]"

text \<open>The state when the first cage starts; the configuration file was read before.\<close>

definition res_start :: "(nat \<Rightarrow> nat) \<Rightarrow> 'ft grate_env \<Rightarrow> 'ft \<Rightarrow> resource_config \<Rightarrow> nat \<Rightarrow> 'ft res_world" where
  "res_start clk E ft config child_cage =
     \<lparr>fdt = res_preexec E ft child_cage, hist = [], nanny = from_config config (clk 0), ticks = 1\<rparr>"

text \<open>The command line: a configuration file and a program, or the file from the environment variable.\<close>

definition res_args :: "string list \<Rightarrow> string option \<Rightarrow> (string \<times> string list) option" where
  "res_args args env =
     (if length args \<ge> 3 then Some (args ! 1, drop 2 args)
      else if length args \<ge> 2 then map_option (\<lambda>path. (path, drop 1 args)) env
      else None)"

end
