(* ===== verification/Resource_Props.thy ===== *)
theory Resource_Props
  imports Resource_Grate
begin

unbundle bit_operations_syntax

text \<open>
  Correctness of resource-grate: in every run the counters stay within their caps, the
  bytes of each renewable resource are limited by its rate, every call returns, and a slot is
  taken exactly by a call that succeeds.
\<close>

section \<open>What the steps of a handler do to the accounts\<close>

definition res_ok :: "(nat \<Rightarrow> nat) \<Rightarrow> 'ft res_world \<Rightarrow> bool" where
  "res_ok clk w \<longleftrightarrow> buckets_ok (clk (ticks w)) (nanny w) \<and> nanny_slots.in_caps (nanny w)"

text \<open>From the first world to the second at least \<open>q\<close> was charged; caps and allowlists are the same.\<close>

definition res_acc :: "(nat \<Rightarrow> nat) \<Rightarrow> 'ft res_world \<Rightarrow> (string \<Rightarrow> rat) \<Rightarrow> 'ft res_world \<Rightarrow> bool" where
  "res_acc clk w q w' \<longleftrightarrow>
     accounts clk (nanny w) (ticks w) q (nanny w') (ticks w') \<and> nanny_slots.in_caps (nanny w') \<and>
     cap_of (nanny w') = cap_of (nanny w) \<and> individual (nanny w') = individual (nanny w)"

lemma acc_refl: "res_ok clk w \<Longrightarrow> res_acc clk w no_charge w"
  by (simp add: res_ok_def res_acc_def accounts_refl)

lemma acc_ok: "res_acc clk w q w' \<Longrightarrow> res_ok clk w'"
  unfolding res_acc_def res_ok_def by (blast intro: accountsD)

lemma acc_trans: "res_acc clk w q w1 \<Longrightarrow> res_acc clk w1 q' w2 \<Longrightarrow> res_acc clk w (\<lambda>r. q r + q' r) w2"
  by (auto simp: res_acc_def intro: accounts_trans)

lemma acc_weaken: "res_acc clk w q w' \<Longrightarrow> (\<And>r. q' r \<le> q r) \<Longrightarrow> res_acc clk w q' w'"
  by (auto simp: res_acc_def intro: accounts_weaken)

lemma acc_frame: "res_acc clk w q w1 \<Longrightarrow> nanny w2 = nanny w1 \<Longrightarrow> ticks w2 = ticks w1 \<Longrightarrow> res_acc clk w q w2"
  by (simp add: res_acc_def)

lemma accounts_cong: "accounts clk s t q s' t' \<Longrightarrow> renewable s2 = renewable s' \<Longrightarrow> accounts clk s t q s2 t'"
  by (simp add: accounts_def pays_def buckets_ok_def cong: option.case_cong)

lemma in_caps_cong: "held_of s = held_of s' \<Longrightarrow> cap_of s = cap_of s' \<Longrightarrow> nanny_slots.in_caps s' \<Longrightarrow> nanny_slots.in_caps s"
  by (auto simp: nanny_slots.in_caps_def split: option.splits)

lemma acc_slots:
  assumes "res_acc clk w q w1" "renewable s = renewable (nanny w1)" "individual s = individual (nanny w1)"
    "cap_of s = cap_of (nanny w1)" "nanny_slots.in_caps s"
  shows "res_acc clk w q (w1\<lparr>nanny := s\<rparr>)"
  using assms by (auto simp: res_acc_def intro: accounts_cong)

lemma acc_remove: "res_acc clk w q w1 \<Longrightarrow> res_acc clk w q (remove_item w1 r)"
  unfolding remove_item_def
  by (rule acc_slots) (auto simp: slots_frame nanny_slots.release_cap res_acc_def intro: nanny_slots.in_caps_release)

lemma acc_add: "res_acc clk w q w1 \<Longrightarrow> add_item w1 r = (ok, w2) \<Longrightarrow> res_acc clk w q w2"
proof -
  assume a: "res_acc clk w q w1" and "add_item w1 r = (ok, w2)"
  then have "w2 = w1\<lparr>nanny := snd (tattle_add_item (nanny w1) r)\<rparr>" by (simp add: add_item_def split: prod.splits)
  with acc_slots [OF a] show ?thesis using a
    by (simp add: slots_frame nanny_slots.acquire_cap nanny_slots.in_caps_acquire res_acc_def)
qed

lemma chargeD:
  assumes "charge clk w r q = Some w'"
  obtains s t where "tattle_quantity clk (nanny w) (ticks w) r q = Some (s, t)" "w' = w\<lparr>nanny := s, ticks := t\<rparr>"
  using assms by (auto simp: charge_def)

lemma charge_frame: "charge clk w r q = Some w' \<Longrightarrow> fdt w' = fdt w \<and> hist w' = hist w"
  by (auto elim!: chargeD)

lemma acc_charge:
  assumes "res_acc clk w q w1" "charge clk w1 r x = Some w2" "mono clk" "0 \<le> x"
  shows "res_acc clk w (\<lambda>r'. q r' + only r x r') w2"
proof (rule acc_trans [OF assms(1)])
  obtain s t where s: "tattle_quantity clk (nanny w1) (ticks w1) r x = Some (s, t)" "w2 = w1\<lparr>nanny := s, ticks := t\<rparr>"
    using chargeD [OF assms(2)] .
  have ok: "buckets_ok (clk (ticks w1)) (nanny w1)" "nanny_slots.in_caps (nanny w1)"
    using acc_ok [OF assms(1)] by (simp_all add: res_ok_def)
  have f: "fungible s = fungible (nanny w1)" "individual s = individual (nanny w1)" using tattle_frame [OF s(1)] by simp_all
  then have h: "held_of s = held_of (nanny w1)" "cap_of s = cap_of (nanny w1)"
    by (simp_all add: held_of_def cap_of_def fun_eq_iff)
  then have "nanny_slots.in_caps s" using in_caps_cong ok(2) by blast
  with tattle_accounts [OF s(1) assms(3) ok(1) assms(4)] h f s(2) show "res_acc clk w1 (only r x) w2"
    by (simp add: res_acc_def)
qed

lemma acc_charge_if:
  assumes "res_acc clk w q w1" "(if c then charge clk w1 r x else Some w1) = Some w2" "mono clk" "0 \<le> x"
  shows "res_acc clk w (\<lambda>r'. q r' + (if c then only r x r' else 0)) w2"
  using assms acc_charge [OF assms(1) _ assms(3,4)] by (cases c) auto

lemma forward_frame [simp]:
  "nanny (snd (forward E w nr cid a g)) = nanny w" "ticks (snd (forward E w nr cid a g)) = ticks w"
  "fdt (snd (forward E w nr cid a g)) = fdt w"
  by (simp_all add: forward_def log_event_def)

lemma forward_frameD:
  "forward E w nr cid a g = (ret, w') \<Longrightarrow> nanny w' = nanny w \<and> ticks w' = ticks w \<and> fdt w' = fdt w"
  using forward_frame [of E w nr cid a g] by simp

lemma table_frame [simp]:
  "nanny (track E w c ret k p) = nanny w" "ticks (track E w c ret k p) = ticks w"
  "nanny (untrack E w c fd) = nanny w" "ticks (untrack E w c fd) = ticks w"
  "nanny (mark_socket E w c fd f) = nanny w" "ticks (mark_socket E w c fd f) = ticks w"
  by (simp_all add: track_def untrack_def mark_socket_def Let_def split: option.split)

lemma slots_ticks: "add_item w r = (ok, w') \<Longrightarrow> ticks w' = ticks w \<and> fdt w' = fdt w \<and> hist w' = hist w"
  by (auto simp: add_item_def split: prod.splits)

text \<open>The charges depend on the descriptor tables only.\<close>

lemma resource_cong:
  assumes "fdt w' = fdt w"
  shows "fd_kind E w' c fd = fd_kind E w c fd" "read_resource E w' c fd = read_resource E w c fd"
    "read_quantity E w' c fd n = read_quantity E w c fd n" "write_resource E w' c fd = write_resource E w c fd"
    "write_quantity E w' c fd n = write_quantity E w c fd n"
  using assms by (simp_all add: fd_kind_def socket_flags_def read_resource_def read_quantity_def write_resource_def
      write_quantity_def cong: option.case_cong)

lemma block_charge_ge: "of_int n \<le> block_charge n"
proof -
  have "of_int n / 4096 \<le> (of_int \<lceil>of_int n / 4096 :: rat\<rceil> :: rat)" by (rule le_of_int_ceiling)
  then show ?thesis unfolding block_charge_def by linarith
qed

lemma block_charge_le: "block_charge n < of_int n + 4096"
proof -
  have "of_int \<lceil>of_int n / 4096 :: rat\<rceil> < (of_int n / 4096 + 1 :: rat)" by linarith
  then show ?thesis unfolding block_charge_def by simp
qed

lemma quantity_bounds:
  assumes "0 < n"
  shows "of_int n \<le> read_quantity E w c fd n" "read_quantity E w c fd n \<le> of_int n + 4096"
    "of_int n \<le> write_quantity E w c fd n" "write_quantity E w c fd n \<le> of_int n + 4096"
  using block_charge_ge [of n] block_charge_le [of n] by (auto simp: read_quantity_def write_quantity_def)

lemma quantity_nonneg: "0 < n \<Longrightarrow> 0 \<le> read_quantity E w c fd n" "0 < n \<Longrightarrow> 0 \<le> write_quantity E w c fd n"
  using quantity_bounds(1,3) [of n E w c fd] of_int_0_le_iff [of n, where ?'a = rat] by linarith+

section \<open>The price of a call\<close>

definition READ_CALLS :: "nat list" where
  "READ_CALLS = [SYS_READ, SYS_PREAD, SYS_READV, SYS_RECVFROM, SYS_RECVMSG]"

definition WRITE_CALLS :: "nat list" where
  "WRITE_CALLS = [SYS_WRITE, SYS_PWRITE, SYS_WRITEV, SYS_SENDTO, SYS_SENDMSG]"

text \<open>
  What a call that returned \<open>ret\<close> has to pay: a transfer its bytes (whole blocks for files, a
  header for sockets), an open one block of metadata, and one more when it may write, a random
  number 1024 bytes.
\<close>

definition price :: "'ft grate_env \<Rightarrow> 'ft res_world \<Rightarrow> nat \<Rightarrow> nat list \<Rightarrow> nat list \<Rightarrow> int \<Rightarrow> string \<Rightarrow> rat" where
  "price E w nr a g ret =
     (if nr \<in> set READ_CALLS then
        (if ret > 0 then only (read_resource E w (g ! 0) (a ! 0)) (read_quantity E w (g ! 0) (a ! 0) ret) else no_charge)
      else if nr \<in> set WRITE_CALLS then
        (if ret > 0 then only (write_resource E w (g ! 0) (a ! 0)) (write_quantity E w (g ! 0) (a ! 0) ret) else no_charge)
      else if nr = SYS_OPEN then
        (if ret \<ge> 0 then
           (\<lambda>r. only ''fileread'' 4096 r + (if as_u32 (a ! 1) AND 3 = 1 \<or> as_u32 (a ! 1) AND 3 = 2 then only ''filewrite'' 4096 r else 0))
         else no_charge)
      else if nr = SYS_GETRANDOM then (if ret > 0 then only ''random'' 1024 else no_charge)
      else no_charge)"

lemma only_0 [simp]: "only r 0 r' = 0"
  by (simp add: only_def)

lemma only_nonneg: "0 \<le> q \<Longrightarrow> 0 \<le> only r q r'"
  by (simp add: only_def)

lemma transfer_acc:
  assumes "mono clk" "res_ok clk w" "charge clk w r 0 = Some w1" "forward E w1 nr cid a g = (ret, w2)"
    "(if ret \<le> 0 then Some w2 else charge clk w2 r q) = Some w'" "0 < ret \<Longrightarrow> 0 \<le> q"
  shows "res_acc clk w (if ret > 0 then only r q else no_charge) w'"
proof -
  have "res_acc clk w no_charge w1" using acc_charge [OF acc_refl [OF assms(2)] assms(3,1)] by simp
  then have w2: "res_acc clk w no_charge w2" using acc_frame forward_frameD [OF assms(4)] by blast
  show ?thesis using assms(5) w2 acc_charge [OF w2 _ assms(1) assms(6), of r] by (simp split: if_splits)
qed

lemma read_like_acc:
  assumes "mono clk" "res_ok clk w" "read_like nr clk E w cid a g = Some (ret, w')"
  shows "res_acc clk w (if ret > 0 then only (read_resource E w (g ! 0) (a ! 0)) (read_quantity E w (g ! 0) (a ! 0) ret) else no_charge) w'"
proof -
  obtain w1 w2 where 1: "charge clk w (read_resource E w (g ! 0) (a ! 0)) 0 = Some w1"
    and 2: "forward E w1 nr cid a g = (ret, w2)"
    and 3: "charge_read_post clk E w2 (g ! 0) (a ! 0) ret = Some w'"
    using assms(3) by (auto simp: read_like_def charge_read_pre_def Let_def split: prod.splits bind_splits)
  have f: "fdt w2 = fdt w" using forward_frameD [OF 2] charge_frame [OF 1] by simp
  show ?thesis using 3
    by (intro transfer_acc [OF assms(1,2) 1 2]) (simp_all add: charge_read_post_def resource_cong [OF f] quantity_nonneg split: if_splits)
qed

lemma write_like_acc:
  assumes "mono clk" "res_ok clk w" "write_like nr clk E w cid a g = Some (ret, w')"
  shows "res_acc clk w (if ret > 0 then only (write_resource E w (g ! 0) (a ! 0)) (write_quantity E w (g ! 0) (a ! 0) ret) else no_charge) w'"
proof -
  obtain w1 w2 where 1: "charge clk w (write_resource E w (g ! 0) (a ! 0)) 0 = Some w1"
    and 2: "forward E w1 nr cid a g = (ret, w2)"
    and 3: "charge_write_post clk E w2 (g ! 0) (a ! 0) ret = Some w'"
    using assms(3) by (auto simp: write_like_def charge_write_pre_def Let_def split: prod.splits bind_splits)
  have f: "fdt w2 = fdt w" using forward_frameD [OF 2] charge_frame [OF 1] by simp
  show ?thesis using 3
    by (intro transfer_acc [OF assms(1,2) 1 2]) (simp_all add: charge_write_post_def resource_cong [OF f] quantity_nonneg split: if_splits)
qed

lemma open_acc:
  assumes "mono clk" "res_ok clk w" "handle_open clk E w cid a g = Some (ret, w')"
  shows "res_acc clk w (price E w SYS_OPEN a g ret) w'"
proof -
  let ?wr = "as_u32 (a ! 1) AND 3 = 1 \<or> as_u32 (a ! 1) AND 3 = 2"
  obtain ok w1 where 1: "add_item w ''filesopened'' = (ok, w1)" by fastforce
  have w1: "res_acc clk w no_charge w1" using acc_add [OF acc_refl [OF assms(2)] 1] .
  have pr: "price E w SYS_OPEN a g r = (if 0 \<le> r then (\<lambda>x. only ''fileread'' 4096 x + (if ?wr then only ''filewrite'' 4096 x else 0)) else no_charge)" for r
    by (simp add: price_def READ_CALLS_def WRITE_CALLS_def)
  show ?thesis
  proof (cases ok)
    case False
    then show ?thesis using assms(3) 1 w1 by (auto simp: handle_open_def pr)
  next
    case True
    obtain w2 w3 where 2: "charge clk w1 ''fileread'' 0 = Some w2" and 3: "forward E w2 SYS_OPEN cid a g = (ret, w3)"
      and 4: "if ret \<ge> 0 then \<exists>w4. charge clk (track E w3 (g ! 0) ret FD_FILE (as_u32 (a ! 1))) ''fileread'' 4096 = Some w4 \<and>
                (if ?wr then charge clk w4 ''filewrite'' 4096 else Some w4) = Some w'
              else w' = remove_item w3 ''filesopened''"
      using assms(3) 1 True by (auto simp: handle_open_def Let_def split: prod.splits bind_splits if_splits)
    have "res_acc clk w no_charge w2" using acc_charge [OF w1 2 assms(1)] by simp
    then have w3: "res_acc clk w no_charge w3" using acc_frame forward_frameD [OF 3] by blast
    show ?thesis
    proof (cases "ret \<ge> 0")
      case False
      then show ?thesis using 4 acc_remove [OF w3] by (simp add: pr)
    next
      case True
      let ?w = "track E w3 (g ! 0) ret FD_FILE (as_u32 (a ! 1))"
      have t: "res_acc clk w no_charge ?w" by (rule acc_frame [OF w3]) simp_all
      obtain w4 where w4: "charge clk ?w ''fileread'' 4096 = Some w4"
        "(if ?wr then charge clk w4 ''filewrite'' 4096 else Some w4) = Some w'" using 4 True by auto
      from acc_charge_if [OF acc_charge [OF t w4(1) assms(1)] w4(2) assms(1)] True show ?thesis by (simp add: pr)
    qed
  qed
qed

lemma slot_start:
  assumes "res_ok clk w" "add_item w r = (ok, w1)"
  shows "res_acc clk w no_charge w1"
  using acc_add [OF acc_refl [OF assms(1)] assms(2)] .

lemma forward_acc:
  assumes "res_acc clk w q w1" "forward E w1 nr cid a g = (ret, w2)"
  shows "res_acc clk w q w2"
  using acc_frame [OF assms(1)] forward_frameD [OF assms(2)] by blast

lemma charge_twice_acc:
  assumes "mono clk" "res_acc clk w no_charge w1" "charge clk w1 r x = Some w2" "charge clk w2 r' x' = Some w3" "0 \<le> x" "0 \<le> x'"
  shows "res_acc clk w no_charge w3"
  using acc_weaken [OF acc_charge [OF acc_charge [OF assms(2,3,1,5)] assms(4,1,6)]] assms(5,6)
  by (simp add: only_nonneg)

lemma table_acc:
  assumes "res_acc clk w q w1"
  shows "res_acc clk w q (track E w1 c ret k p)" "res_acc clk w q (untrack E w1 c fd)" "res_acc clk w q (mark_socket E w1 c fd f)"
  by (rule acc_frame [OF assms]; simp)+

lemmas acc_intros = acc_remove table_acc

lemma close_acc:
  assumes "res_ok clk w" "handle_close clk E w cid a g = Some (ret, w')"
  shows "res_acc clk w no_charge w'"
proof -
  obtain w1 where 1: "forward E w SYS_CLOSE cid a g = (ret, w1)" using assms(2) by (auto simp: handle_close_def Let_def split: prod.splits)
  have "res_acc clk w no_charge w1" using forward_acc [OF acc_refl [OF assms(1)] 1] .
  then show ?thesis using assms(2) by (simp add: handle_close_def Let_def 1) (auto intro!: acc_intros split: if_splits)
qed

lemma bind_acc:
  assumes "res_ok clk w" "handle_bind clk E w cid a g = Some (ret, w')"
  shows "res_acc clk w no_charge w'"
proof -
  note r = acc_refl [OF assms(1)]
  from assms(2) consider "w' = w" | w1 where "res_acc clk w no_charge w1" "forward E w1 SYS_BIND cid a g = (ret, w')"
    using r acc_intros(4) [OF r] by (simp add: handle_bind_def Let_def split: if_splits) blast+
  then show ?thesis using r forward_acc by cases blast+
qed

lemma listen_acc:
  assumes "res_ok clk w" "handle_listen clk E w cid a g = Some (ret, w')"
  shows "res_acc clk w no_charge w'"
proof -
  obtain ok w1 where 1: "add_item w ''insockets'' = (ok, w1)" by fastforce
  obtain ret2 w2 where 2: "forward E w1 SYS_LISTEN cid a g = (ret2, w2)" by fastforce
  have "res_acc clk w no_charge w1" using slot_start [OF assms(1) 1] .
  moreover from this have "res_acc clk w no_charge w2" using forward_acc 2 by blast
  ultimately show ?thesis using assms(2) by (simp add: handle_listen_def 1 2 split: if_splits) (auto intro: acc_intros)
qed

lemma accept_acc:
  assumes "mono clk" "res_ok clk w" "handle_accept clk E w cid a g = Some (ret, w')"
  shows "res_acc clk w no_charge w'"
proof -
  obtain ok w1 where 1: "add_item w ''outsockets'' = (ok, w1)" by fastforce
  obtain ret2 w2 where 2: "forward E w1 SYS_ACCEPT cid a g = (ret2, w2)" by fastforce
  have w1: "res_acc clk w no_charge w1" using slot_start [OF assms(2) 1] .
  have w2: "res_acc clk w no_charge w2" using forward_acc [OF w1 2] .
  show ?thesis using assms(3) w1 w2 charge_twice_acc [OF assms(1) acc_intros(2) [OF w2]]
    by (auto simp: handle_accept_def 1 2 Let_def split: if_splits bind_splits intro: acc_intros)
qed

lemma connect_acc:
  assumes "mono clk" "res_ok clk w" "handle_connect clk E w cid a g = Some (ret, w')"
  shows "res_acc clk w no_charge w'"
proof -
  obtain ok w1 where 1: "add_item w ''outsockets'' = (ok, w1)" by fastforce
  have w1: "res_acc clk w no_charge w1" using slot_start [OF assms(2) 1] .
  show ?thesis
  proof (cases ok)
    case False
    then show ?thesis using assms(3) w1 by (simp add: handle_connect_def 1)
  next
    case True
    then obtain w2 w3 w4 where 2: "charge clk w1 ''netsend'' 0 = Some w2" "charge clk w2 ''netrecv'' 0 = Some w3"
      and 3: "forward E w3 SYS_CONNECT cid a g = (ret, w4)"
      using assms(3) by (auto simp: handle_connect_def 1 Let_def split: if_splits bind_splits prod.splits)
    have w4: "res_acc clk w no_charge w4" using forward_acc [OF charge_twice_acc [OF assms(1) w1 2] 3] by simp
    show ?thesis using assms(3) True w4 charge_twice_acc [OF assms(1) acc_intros(4) [OF w4]]
      by (auto simp: handle_connect_def 1 2 3 Let_def split: if_splits bind_splits intro: acc_intros)
  qed
qed

lemma clone_acc:
  assumes "res_ok clk w" "handle_clone clk E w cid a g = Some (ret, w')"
  shows "res_acc clk w no_charge w'"
proof -
  define th where "th = is_thread_clone E w (a ! 0) (g ! 0)"
  obtain ok w1 where 1: "(if th then add_item w ''events'' else (True, w)) = (ok, w1)" by fastforce
  obtain ret2 w2 where 2: "forward E w1 SYS_CLONE cid a g = (ret2, w2)" by fastforce
  have w1: "res_acc clk w no_charge w1" using 1 slot_start [OF assms(1)] acc_refl [OF assms(1)] by (auto split: if_splits)
  have w2: "res_acc clk w no_charge w2" using forward_acc [OF w1 2] .
  have f: "res_acc clk w no_charge (x\<lparr>fdt := ft\<rparr>)" if "res_acc clk w no_charge x" for x ft
    by (rule acc_frame [OF that]) simp_all
  show ?thesis using assms(2) w1 w2
    by (auto simp: handle_clone_def th_def [symmetric] 1 2 Let_def split: if_splits option.splits intro: acc_intros f)
qed

lemma rest_acc:
  assumes "mono clk" "res_ok clk w"
  shows "handle_socket clk E w cid a g = Some (ret, w') \<Longrightarrow> res_acc clk w no_charge w'"
    and "handle_exit clk E w cid a g = Some (ret, w') \<Longrightarrow> res_acc clk w no_charge w'"
    and "handle_getrandom clk E w cid a g = Some (ret, w') \<Longrightarrow> res_acc clk w (if ret > 0 then only ''random'' 1024 else no_charge) w'"
proof -
  note r = acc_refl [OF assms(2)]
  show "res_acc clk w no_charge w'" if "handle_socket clk E w cid a g = Some (ret, w')"
    using that forward_acc [OF r] by (auto simp: handle_socket_def split: prod.splits if_splits intro: acc_intros)
  show "res_acc clk w no_charge w'" if "handle_exit clk E w cid a g = Some (ret, w')"
    using that forward_acc [OF acc_remove [OF r]] by (auto simp: handle_exit_def)
  show "res_acc clk w (if ret > 0 then only ''random'' 1024 else no_charge) w'" if h: "handle_getrandom clk E w cid a g = Some (ret, w')"
  proof -
    obtain w1 w2 where 1: "charge clk w ''random'' 0 = Some w1" and 2: "forward E w1 SYS_GETRANDOM cid a g = (ret, w2)"
      and 3: "(if ret > 0 then charge clk w2 ''random'' 1024 else Some w2) = Some w'"
      using h by (auto simp: handle_getrandom_def Let_def split: prod.splits bind_splits)
    show ?thesis using 3 by (intro transfer_acc [OF assms 1 2]) (simp_all split: if_splits)
  qed
qed

lemmas call_defs = handle_read_def handle_write_def handle_pread64_def handle_pwrite64_def handle_readv_def handle_writev_def
  handle_sendto_def handle_recvfrom_def handle_sendmsg_def handle_recvmsg_def

lemma handler_acc:
  assumes "mono clk" "res_ok clk w" "(nr, h) \<in> set res_handlers" "h clk E w cid a g = Some (ret, w')"
  shows "res_acc clk w (price E w nr a g ret) w'"
proof -
  note defs = res_handlers_def call_defs
  consider "nr \<in> set READ_CALLS" "h = read_like nr" | "nr \<in> set WRITE_CALLS" "h = write_like nr" "nr \<notin> set READ_CALLS"
    | "nr = SYS_OPEN" "h = handle_open" | "nr = SYS_GETRANDOM" "h = handle_getrandom"
    | "nr \<notin> set READ_CALLS" "nr \<notin> set WRITE_CALLS" "nr \<noteq> SYS_OPEN" "nr \<noteq> SYS_GETRANDOM"
      "h \<in> {handle_close, handle_socket, handle_bind, handle_listen, handle_accept, handle_connect, handle_clone, handle_exit}"
    using assms(3) by (auto simp: defs READ_CALLS_def WRITE_CALLS_def)
  then show ?thesis
  proof cases
    case 5
    then have "price E w nr a g ret = no_charge" by (simp add: price_def)
    then show ?thesis using 5(5) assms(4) close_acc [OF assms(2)] bind_acc [OF assms(2)] listen_acc [OF assms(2)]
      accept_acc [OF assms(1,2)] connect_acc [OF assms(1,2)] clone_acc [OF assms(2)] rest_acc(1,2) [OF assms(1,2)] by auto
  next
    case 3
    then show ?thesis using open_acc [OF assms(1,2)] assms(4) by simp
  qed (use assms(4) read_like_acc [OF assms(1,2)] write_like_acc [OF assms(1,2)] rest_acc(3) [OF assms(1,2)]
      in \<open>simp_all add: price_def READ_CALLS_def WRITE_CALLS_def\<close>)
qed

section \<open>Every call returns\<close>

definition res_live :: "(nat \<Rightarrow> nat) \<Rightarrow> 'ft res_world \<Rightarrow> bool" where
  "res_live clk w \<longleftrightarrow> res_ok clk w \<and> (\<forall>r b. renewable (nanny w) r = Some b \<longrightarrow> 1 \<le> allowed_per_sec b)"

lemma acc_live:
  assumes "res_live clk w" "res_acc clk w q w'"
  shows "res_live clk w'"
proof -
  have p: "pays (nanny w) q (nanny w')" using assms(2) by (simp add: res_acc_def accounts_def)
  have "1 \<le> allowed_per_sec b'" if b': "renewable (nanny w') r = Some b'" for r b'
  proof (cases "renewable (nanny w) r")
    case None
    then show ?thesis using pays_None [OF p None] b' by simp
  next
    case (Some b)
    then show ?thesis using paysD [OF p Some] assms(1) b' by (fastforce simp: res_live_def)
  qed
  then show ?thesis using acc_ok [OF assms(2)] by (simp add: res_live_def)
qed

definition going_clock :: "(nat \<Rightarrow> nat) \<Rightarrow> bool" where
  "going_clock clk \<longleftrightarrow> mono clk \<and> (\<forall>n. \<exists>k. n \<le> clk k)"

lemma live_charge:
  assumes "going_clock clk" "res_live clk w" "0 \<le> q" "q \<le> 2 ^ 33"
  obtains w' where "charge clk w r q = Some w'" "res_live clk w'" "fdt w' = fdt w"
proof -
  have "\<exists>s' t'. tattle_quantity clk (nanny w) (ticks w) r q = Some (s', t')"
    using assms by (intro tattle_returns) (auto simp: going_clock_def res_live_def res_ok_def)
  then obtain w' where c: "charge clk w r q = Some w'" by (auto simp: charge_def)
  have "res_acc clk w (\<lambda>r'. 0 + only r q r') w'"
    using assms by (intro acc_charge [OF acc_refl c]) (simp_all add: res_live_def going_clock_def)
  then show ?thesis using that c acc_live [OF assms(2)] charge_frame [OF c] by blast
qed

lemma live_frame: "res_live clk w \<Longrightarrow> nanny w' = nanny w \<Longrightarrow> ticks w' = ticks w \<Longrightarrow> res_live clk w'"
  by (simp add: res_live_def res_ok_def)

lemma live_simps [simp]:
  "res_live clk (track E w c ret k p) = res_live clk w" "res_live clk (untrack E w c fd) = res_live clk w"
  "res_live clk (mark_socket E w c fd f) = res_live clk w"
  by (simp_all add: res_live_def res_ok_def)

lemma live_forward: "forward E w nr cid a g = (ret, w') \<Longrightarrow> res_live clk w \<Longrightarrow> res_live clk w'"
  using forward_frameD live_frame by metis

lemma live_add: "add_item w r = (ok, w') \<Longrightarrow> res_live clk w \<Longrightarrow> res_live clk w'"
  using acc_live slot_start by (metis res_live_def)

definition small_returns :: "'ft grate_env \<Rightarrow> bool" where
  "small_returns E \<longleftrightarrow> (\<forall>h c. ge_sys E h c < 2 ^ 31)"

lemma forward_small: "small_returns E \<Longrightarrow> forward E w nr cid a g = (ret, w') \<Longrightarrow> ret < 2 ^ 31"
  by (auto simp: forward_def small_returns_def)

lemma quantity_small:
  assumes "0 < n" "n < 2 ^ 31"
  shows "read_quantity E w c fd n \<le> 2 ^ 33" "write_quantity E w c fd n \<le> 2 ^ 33"
proof -
  have "of_int n \<le> (of_int (2 ^ 31) :: rat)" unfolding of_int_le_iff using assms(2) by simp
  then have "of_int n + 4096 \<le> (2 ^ 33 :: rat)" by simp
  then show "read_quantity E w c fd n \<le> 2 ^ 33" "write_quantity E w c fd n \<le> 2 ^ 33"
    using quantity_bounds(2,4) [OF assms(1), of E w c fd] by linarith+
qed

text \<open>A computation that returns, with rules that follow the structure of the handlers.\<close>

definition returns :: "'a option \<Rightarrow> bool" where
  "returns m \<longleftrightarrow> m \<noteq> None"

lemma returns_Some [simp]: "returns (Some x)"
  by (simp add: returns_def)

lemma returns_charge:
  assumes "going_clock clk" "res_live clk w" "0 \<le> q" "q \<le> 2 ^ 33" "\<And>w'. res_live clk w' \<Longrightarrow> fdt w' = fdt w \<Longrightarrow> returns (k w')"
  shows "returns (charge clk w r q \<bind> k)"
proof -
  obtain w' where "charge clk w r q = Some w'" "res_live clk w'" "fdt w' = fdt w" using live_charge [OF assms(1-4)] .
  then show ?thesis using assms(5) by simp
qed

lemma returns_charge_if:
  assumes "going_clock clk" "res_live clk w" "0 \<le> q" "q \<le> 2 ^ 33" "\<And>w'. res_live clk w' \<Longrightarrow> returns (k w')"
  shows "returns ((if c then charge clk w r q else Some w) \<bind> k)"
  using returns_charge [OF assms(1-4), of k] assms(2,5) by simp

lemma returns_forward:
  assumes "small_returns E" "res_live clk w" "\<And>ret w'. res_live clk w' \<Longrightarrow> ret < 2 ^ 31 \<Longrightarrow> returns (k ret w')"
  shows "returns (case forward E w nr cid a g of (ret, w') \<Rightarrow> k ret w')"
proof -
  obtain ret w' where f: "forward E w nr cid a g = (ret, w')" by fastforce
  then show ?thesis using assms(3) live_forward [OF f assms(2)] forward_small [OF assms(1) f] by simp
qed

lemma returns_add:
  assumes "res_live clk w" "\<And>w'. res_live clk w' \<Longrightarrow> returns (k True w')" "\<And>w'. returns (k False w')"
  shows "returns (case add_item w r of (ok, w') \<Rightarrow> k ok w')"
proof -
  obtain ok w' where a: "add_item w r = (ok, w')" by fastforce
  then show ?thesis using assms(2,3) live_add [OF a assms(1)] by (cases ok) simp_all
qed

lemma post_returns:
  assumes "going_clock clk" "res_live clk w" "ret < 2 ^ 31"
  shows "returns (charge_read_post clk E w c fd ret \<bind> (\<lambda>w. Some (ret, w)))"
    "returns (charge_write_post clk E w c fd ret \<bind> (\<lambda>w. Some (ret, w)))"
proof -
  have "returns (charge clk w r (read_quantity E w c fd ret) \<bind> (\<lambda>w. Some (ret, w)))"
    "returns (charge clk w r (write_quantity E w c fd ret) \<bind> (\<lambda>w. Some (ret, w)))" if "\<not> ret \<le> 0" for r
    using that assms(3) by (intro returns_charge [OF assms(1,2)] quantity_nonneg quantity_small returns_Some; simp)+
  then show "returns (charge_read_post clk E w c fd ret \<bind> (\<lambda>w. Some (ret, w)))"
    "returns (charge_write_post clk E w c fd ret \<bind> (\<lambda>w. Some (ret, w)))"
    by (simp_all add: charge_read_post_def charge_write_post_def)
qed

lemma transfer_returns:
  assumes "going_clock clk" "res_live clk w" "small_returns E"
  shows "returns (read_like nr clk E w cid a g)" "returns (write_like nr clk E w cid a g)"
  unfolding read_like_def write_like_def charge_read_pre_def charge_write_pre_def Let_def
  by (intro returns_charge [OF assms(1,2)] returns_forward [OF assms(3)] post_returns [OF assms(1)]; simp)+

lemma charging_returns:
  assumes "going_clock clk" "res_live clk w" "small_returns E"
  shows "returns (handle_open clk E w cid a g)" "returns (handle_accept clk E w cid a g)"
    "returns (handle_connect clk E w cid a g)" "returns (handle_getrandom clk E w cid a g)"
  unfolding handle_open_def handle_accept_def handle_connect_def handle_getrandom_def Let_def
  by (auto intro!: returns_add [OF assms(2)] returns_charge [OF assms(1)] returns_charge_if [OF assms(1)] returns_forward [OF assms(3)] assms(2))

lemma handler_returns:
  assumes "going_clock clk" "res_live clk w" "small_returns E" "(nr, h) \<in> set res_handlers"
  shows "returns (h clk E w cid a g)"
proof -
  have "h \<in> range read_like \<union> range write_like \<union> {handle_open, handle_accept, handle_connect, handle_getrandom} \<union>
    {handle_close, handle_socket, handle_bind, handle_listen, handle_clone, handle_exit}"
    using assms(4) by (auto simp: res_handlers_def call_defs)
  moreover have "returns (handle_close clk E w cid a g)" "returns (handle_socket clk E w cid a g)" "returns (handle_bind clk E w cid a g)"
    "returns (handle_listen clk E w cid a g)" "returns (handle_clone clk E w cid a g)" "returns (handle_exit clk E w cid a g)"
    by (simp_all add: handle_close_def handle_socket_def handle_bind_def handle_listen_def handle_clone_def handle_exit_def Let_def
        split: prod.split)
  ultimately show ?thesis using transfer_returns [OF assms(1-3)] charging_returns [OF assms(1-3)] by auto
qed

section \<open>Runs\<close>

type_synonym request = "nat \<times> nat \<times> nat list \<times> nat list"

definition res_step :: "(nat \<Rightarrow> nat) \<Rightarrow> 'ft grate_env \<Rightarrow> 'ft res_world \<Rightarrow> request \<Rightarrow> (int \<times> 'ft res_world) option" where
  "res_step clk E w x =
     (case x of (nr, cid, a, g) \<Rightarrow> case map_of res_handlers nr of None \<Rightarrow> None | Some h \<Rightarrow> h clk E w cid a g)"

fun res_run :: "(nat \<Rightarrow> nat) \<Rightarrow> 'ft grate_env \<Rightarrow> 'ft res_world \<Rightarrow> request list \<Rightarrow> 'ft res_world option" where
  "res_run clk E w [] = Some w"
| "res_run clk E w (x # xs) = (case res_step clk E w x of None \<Rightarrow> None | Some (ret, w') \<Rightarrow> res_run clk E w' xs)"

text \<open>The sum of the prices of the calls of a run.\<close>

fun res_bill :: "(nat \<Rightarrow> nat) \<Rightarrow> 'ft grate_env \<Rightarrow> 'ft res_world \<Rightarrow> request list \<Rightarrow> string \<Rightarrow> rat" where
  "res_bill clk E w [] r = 0"
| "res_bill clk E w (x # xs) r =
     (case (x, res_step clk E w x) of
        ((nr, cid, a, g), Some (ret, w')) \<Rightarrow> price E w nr a g ret r + res_bill clk E w' xs r
      | (_, None) \<Rightarrow> 0)"

lemma res_stepD:
  assumes "res_step clk E w (nr, cid, a, g) = Some (ret, w')"
  obtains h where "(nr, h) \<in> set res_handlers" "h clk E w cid a g = Some (ret, w')"
proof (cases "map_of res_handlers nr :: 'a res_handler option")
  case None
  then show ?thesis using assms by (simp add: res_step_def)
next
  case (Some h)
  then show ?thesis using assms that [of h] map_of_SomeD [OF Some] by (simp add: res_step_def)
qed

lemma step_acc:
  assumes "mono clk" "res_ok clk w" "res_step clk E w (nr, cid, a, g) = Some (ret, w')"
  shows "res_acc clk w (price E w nr a g ret) w'"
  using res_stepD [OF assms(3)] handler_acc [OF assms(1,2)] by metis

lemma run_acc:
  assumes "mono clk"
  shows "res_ok clk w \<Longrightarrow> res_run clk E w xs = Some w' \<Longrightarrow> res_acc clk w (res_bill clk E w xs) w'"
proof (induction xs arbitrary: w)
  case Nil
  then show ?case using acc_refl by (simp add: fun_eq_iff)
next
  case (Cons x xs)
  obtain nr cid a g where x: "x = (nr, cid, a, g)" by (cases x)
  obtain ret w1 where s: "res_step clk E w x = Some (ret, w1)" "res_run clk E w1 xs = Some w'"
    using Cons.prems(2) by (auto split: option.splits)
  have "res_acc clk w (price E w nr a g ret) w1" using step_acc [OF assms Cons.prems(1)] s(1) x by blast
  from acc_trans [OF this Cons.IH [OF acc_ok [OF this] s(2)]] show ?case using s(1) by (simp add: x)
qed

lemma start_ok:
  assumes "mono clk"
  shows "res_ok clk (res_start clk E ft cfg child)"
proof -
  have "clk 0 \<le> clk 1" using monoD [OF assms, of 0 1] by simp
  then show ?thesis
    by (auto simp: res_ok_def res_start_def buckets_ok_def bucket_ok_def from_config_def nanny_slots.in_caps_def held_of_def cap_of_def
        split: option.split)
qed

lemma start_run_acc:
  assumes "mono clk" "res_run clk E (res_start clk E ft cfg child) xs = Some w"
  shows "res_acc clk (res_start clk E ft cfg child) (res_bill clk E (res_start clk E ft cfg child) xs) w"
  using run_acc [OF assms(1) start_ok [OF assms(1)] assms(2)] .

lemma run_returns:
  assumes "going_clock clk" "small_returns E"
  shows "res_live clk w \<Longrightarrow> fst ` set xs \<subseteq> set (map fst (res_handlers :: (nat \<times> 'ft res_handler) list)) \<Longrightarrow>
    \<exists>w'. res_run clk (E :: 'ft grate_env) w xs = Some w'"
proof (induction xs arbitrary: w)
  case (Cons x xs)
  obtain nr cid a g where x: "x = (nr, cid, a, g)" by (cases x)
  then obtain h :: "'ft res_handler" where h: "map_of res_handlers nr = Some h"
    using Cons.prems(2) by (cases "map_of res_handlers nr :: 'ft res_handler option") (auto simp: map_of_eq_None_iff)
  then have "h clk E w cid a g \<noteq> None"
    using handler_returns [OF assms(1) Cons.prems(1) assms(2) map_of_SomeD] by (simp add: returns_def)
  then obtain ret w1 where s: "res_step clk E w x = Some (ret, w1)" using x h by (auto simp: res_step_def)
  have "res_live clk w1" using step_acc acc_live [OF Cons.prems(1)] s x Cons.prems(1) assms(1)
    by (metis going_clock_def res_live_def)
  with Cons s show ?case by simp
qed simp

section \<open>Properties\<close>

text \<open>C9. The rate limit holds over every run: what the calls on a renewable resource had to pay is at
  most one second's allowance plus the rate times the time that passed, up to the rounding of
  the waiting times to whole nanoseconds.\<close>

theorem resource_rates:
  assumes "mono clk" "res_run clk E (res_start clk E ft cfg child) xs = Some w" "cfg_renewable cfg r = Some rate" "0 \<le> rate"
  shows "res_bill clk E (res_start clk E ft cfg child) xs r \<le> rate * (1 + 1 / (2 * 10 ^ 9) + as_secs (clk (ticks w) - clk 0))"
proof -
  let ?w0 = "res_start clk E ft cfg child" and ?b0 = "\<lparr>allowed_per_sec = rate, consumed = 0, last_update = clk 0\<rparr>"
  have p: "pays (nanny ?w0) (res_bill clk E ?w0 xs) (nanny w)" and ok: "buckets_ok (clk (ticks w)) (nanny w)"
    using start_run_acc [OF assms(1,2)] by (simp_all add: res_acc_def accounts_def)
  have "renewable (nanny ?w0) r = Some ?b0" using assms(3) by (simp add: res_start_def from_config_def)
  from paysD [OF p this] obtain b where b: "renewable (nanny w) r = Some b" "allowed_per_sec b = rate"
    "charged ?b0 + res_bill clk E ?w0 xs r \<le> charged b" by auto
  have bb: "consumed b \<le> rate * (1 + 1 / (2 * 10 ^ 9))" "last_update b \<le> clk (ticks w)"
    using ok b(1,2) assms(4) by (fastforce simp: buckets_ok_def bucket_ok_def slack_def)+
  have "rate * as_secs (last_update b) \<le> rate * as_secs (clk (ticks w))"
    using as_secs_mono [OF bb(2)] assms(4) by (rule mult_left_mono)
  moreover have "clk 0 \<le> clk (ticks w)" using assms(1) by (simp add: monoD)
  then have "rate * as_secs (clk (ticks w) - clk 0) = rate * as_secs (clk (ticks w)) - rate * as_secs (clk 0)"
    by (simp add: as_secs_diff algebra_simps)
  ultimately have "res_bill clk E ?w0 xs r \<le> rate * (1 + 1 / (2 * 10 ^ 9)) + rate * as_secs (clk (ticks w) - clk 0)"
    using b(2,3) bb(1) by (simp only: charged_def renewable_resource.select_convs)
  then show ?thesis by (simp only: distrib_left)
qed

text \<open>C31. Every call returns when the clock goes on, the configured rates are at least one unit per
  second and call statuses are 32-bit: no handler panics and no wait is endless.\<close>

theorem resource_returns:
  assumes "going_clock clk" "small_returns E" "\<And>r rate. cfg_renewable cfg r = Some rate \<Longrightarrow> 1 \<le> rate"
    "fst ` set xs \<subseteq> set (map fst (res_handlers :: (nat \<times> 'ft res_handler) list))"
  shows "\<exists>w. res_run clk (E :: 'ft grate_env) (res_start clk E ft cfg child) xs = Some w"
proof (rule run_returns [OF assms(1,2) _ assms(4)])
  show "res_live clk (res_start clk E ft cfg child)"
    using start_ok assms(1,3) by (auto simp: res_live_def going_clock_def) (auto simp: res_start_def from_config_def)
qed

text \<open>The counted resource a call takes a slot of, and the error number when there is none.\<close>

definition slot_of :: "nat \<Rightarrow> (string \<times> int) option" where
  "slot_of nr =
     (if nr = SYS_OPEN then Some (''filesopened'', 24) else if nr = SYS_LISTEN then Some (''insockets'', 24)
      else if nr = SYS_ACCEPT \<or> nr = SYS_CONNECT then Some (''outsockets'', 24) else None)"

lemma charge_slots: "charge clk w r q = Some w' \<Longrightarrow> fungible (nanny w') = fungible (nanny w)"
  by (auto elim!: chargeD simp: tattle_frame)

lemma charge_if_slots: "(if c then charge clk w r q else Some w) = Some w' \<Longrightarrow> fungible (nanny w') = fungible (nanny w)"
  by (auto split: if_splits dest: charge_slots)

lemma add_full: "fungible (nanny w) r = Some f \<Longrightarrow> limit f \<le> count f \<Longrightarrow> add_item w r = (False, w)"
  by (simp add: add_item_def tattle_add_item_def)

lemma add_free:
  assumes "fungible (nanny w) r = Some f" "count f < limit f"
  obtains w1 where "add_item w r = (True, w1)" "fungible (nanny w1) = (fungible (nanny w))(r \<mapsto> f\<lparr>count := count f + 1\<rparr>)" "fdt w1 = fdt w"
  using assms that by (simp add: add_item_def tattle_add_item_def)

lemma remove_restores:
  assumes "fungible (nanny w) r = Some f" "fungible (nanny w1) = (fungible (nanny w))(r \<mapsto> f\<lparr>count := count f + 1\<rparr>)"
  shows "fungible (nanny (remove_item w1 r)) = fungible (nanny w) \<and> fdt (remove_item w1 r) = fdt w1"
  using assms by (simp add: remove_item_def tattle_remove_item_def fun_eq_iff)

text \<open>After the slot was taken: given back when the call fails, kept otherwise.\<close>

definition slot_kept :: "'ft res_world \<Rightarrow> string \<Rightarrow> int \<Rightarrow> 'ft res_world \<Rightarrow> bool" where
  "slot_kept w1 r ret w' \<longleftrightarrow>
     (if ret < 0 then \<exists>w2. w' = remove_item w2 r \<and> fungible (nanny w2) = fungible (nanny w1) \<and> fdt w2 = fdt w1
      else fungible (nanny w') = fungible (nanny w1))"

lemma slot_kept_forward:
  assumes "forward E w2 nr cid a g = (ret, w3)" "fungible (nanny w2) = fungible (nanny w1)" "fdt w2 = fdt w1"
  shows "ret < 0 \<Longrightarrow> slot_kept w1 r ret (remove_item w3 r)"
    and "0 \<le> ret \<Longrightarrow> fungible (nanny w') = fungible (nanny w3) \<Longrightarrow> slot_kept w1 r ret w'"
  using forward_frameD [OF assms(1)] assms(2,3) by (auto simp: slot_kept_def)

lemma listen_slot:
  assumes "add_item w ''insockets'' = (True, w1)" "handle_listen clk E w cid a g = Some (ret, w')"
  shows "slot_kept w1 ''insockets'' ret w'"
proof -
  obtain ret2 w2 where 2: "forward E w1 SYS_LISTEN cid a g = (ret2, w2)" by fastforce
  show ?thesis using assms(2) slot_kept_forward [OF 2] by (auto simp: handle_listen_def assms(1) 2 Let_def split: if_splits)
qed

lemma accept_slot:
  assumes "add_item w ''outsockets'' = (True, w1)" "handle_accept clk E w cid a g = Some (ret, w')"
  shows "slot_kept w1 ''outsockets'' ret w'"
proof -
  obtain ret2 w2 where 2: "forward E w1 SYS_ACCEPT cid a g = (ret2, w2)" by fastforce
  show ?thesis using assms(2) slot_kept_forward [OF 2]
    by (simp add: handle_accept_def assms(1) 2 Let_def) (auto simp: Let_def split: if_splits bind_splits dest!: charge_slots)
qed

lemma connect_slot:
  assumes "add_item w ''outsockets'' = (True, w1)" "handle_connect clk E w cid a g = Some (ret, w')"
  shows "slot_kept w1 ''outsockets'' ret w'"
proof -
  obtain w2 w3 where 2: "charge clk w1 ''netsend'' 0 = Some w2" "charge clk w2 ''netrecv'' 0 = Some w3"
    using assms(2) by (auto simp: handle_connect_def assms(1) split: bind_splits)
  obtain ret2 w4 where 3: "forward E w3 SYS_CONNECT cid a g = (ret2, w4)" by fastforce
  have "fungible (nanny w3) = fungible (nanny w1)" "fdt w3 = fdt w1" using charge_slots [OF 2(1)] charge_slots [OF 2(2)] charge_frame [OF 2(1)] charge_frame [OF 2(2)] by simp_all
  from slot_kept_forward [OF 3 this] assms(2) show ?thesis
    by (simp add: handle_connect_def assms(1) 2 3 Let_def) (auto simp: Let_def split: if_splits bind_splits dest!: charge_slots)
qed

lemma open_slot:
  assumes "add_item w ''filesopened'' = (True, w1)" "handle_open clk E w cid a g = Some (ret, w')"
  shows "slot_kept w1 ''filesopened'' ret w'"
proof -
  obtain w2 where 2: "charge clk w1 ''fileread'' 0 = Some w2"
    using assms(2) by (auto simp: handle_open_def assms(1) Let_def split: bind_splits)
  obtain ret2 w3 where 3: "forward E w2 SYS_OPEN cid a g = (ret2, w3)" by fastforce
  have "fungible (nanny w2) = fungible (nanny w1)" "fdt w2 = fdt w1" using charge_slots [OF 2] charge_frame [OF 2] by simp_all
  from slot_kept_forward [OF 3 this] assms(2) show ?thesis
    by (simp add: handle_open_def assms(1) 2 3 Let_def) (auto simp: Let_def split: if_splits bind_splits dest!: charge_slots)
qed

lemma full_refused:
  "add_item w ''filesopened'' = (False, w) \<Longrightarrow> handle_open clk E w cid a g = Some (-24, w)"
  "add_item w ''insockets'' = (False, w) \<Longrightarrow> handle_listen clk E w cid a g = Some (-24, w)"
  "add_item w ''outsockets'' = (False, w) \<Longrightarrow> handle_accept clk E w cid a g = Some (-24, w)"
  "add_item w ''outsockets'' = (False, w) \<Longrightarrow> handle_connect clk E w cid a g = Some (-24, w)"
  by (simp_all add: handle_open_def handle_listen_def handle_accept_def handle_connect_def Let_def)

lemma slot_calls:
  assumes "(nr, h) \<in> set res_handlers" "slot_of nr = Some (r, e)"
  shows "e = 24 \<and> (h = handle_open \<and> r = ''filesopened'' \<or> h = handle_listen \<and> r = ''insockets'' \<or>
    (h = handle_accept \<or> h = handle_connect) \<and> r = ''outsockets'')"
proof -
  consider "nr = SYS_OPEN" | "nr = SYS_LISTEN" | "nr = SYS_ACCEPT" | "nr = SYS_CONNECT"
    using assms(2) by (auto simp: slot_of_def split: if_splits)
  then show ?thesis using assms by cases (simp_all add: res_handlers_def slot_of_def)
qed

text \<open>C32. A call that opens a file or a connection takes exactly one slot when it succeeds; at the
  limit it is refused with the error number, without a forwarded call and without any change; and
  when the forwarded call fails the slot is given back.\<close>

theorem slot_discipline:
  assumes "(nr, h) \<in> set res_handlers" "slot_of nr = Some (r, e)" "fungible (nanny w) r = Some f" "h clk E w cid a g = Some (ret, w')"
  shows "(limit f \<le> count f \<longrightarrow> ret = - e \<and> w' = w) \<and>
    (count f < limit f \<and> ret < 0 \<longrightarrow> fungible (nanny w') = fungible (nanny w) \<and> fdt w' = fdt w) \<and>
    (count f < limit f \<and> 0 \<le> ret \<longrightarrow> fungible (nanny w') = (fungible (nanny w))(r \<mapsto> f\<lparr>count := count f + 1\<rparr>))"
proof -
  note h = slot_calls [OF assms(1,2)]
  show ?thesis
  proof (cases "limit f \<le> count f")
    case True
    have "h clk E w cid a g = Some (- e, w)"
      using h add_full [OF assms(3) True] full_refused [of w clk E cid a g] by (elim conjE disjE) simp_all
    then show ?thesis using True assms(4) by simp
  next
    case False
    then have "count f < limit f" by simp
    from add_free [OF assms(3) this] obtain w1 where a: "add_item w r = (True, w1)" "fungible (nanny w1) = (fungible (nanny w))(r \<mapsto> f\<lparr>count := count f + 1\<rparr>)"
      "fdt w1 = fdt w" .
    have k: "slot_kept w1 r ret w'"
      using h a(1) assms(4) open_slot [of w w1 clk E cid a g ret w'] listen_slot [of w w1 clk E cid a g ret w']
        accept_slot [of w w1 clk E cid a g ret w'] connect_slot [of w w1 clk E cid a g ret w'] by (elim conjE disjE) simp_all
    show ?thesis
    proof (cases "ret < 0")
      case True
      with k obtain w2 where "w' = remove_item w2 r" "fungible (nanny w2) = fungible (nanny w1)" "fdt w2 = fdt w1"
        by (auto simp: slot_kept_def)
      then show ?thesis using remove_restores [OF assms(3), of w2] a True False by simp
    next
      case nonneg: False
      then show ?thesis using k a(2) False by (simp add: slot_kept_def)
    qed
  qed
qed

section \<open>The slots in use\<close>

text \<open>
  The slots in use, counted from the calls alone: a successful open takes a file slot, a successful listen one of a listening
  socket, a successful accept or connect one of a connection, and a successful clone of a thread one of an event; a
  successful close gives back the slot of the kind its descriptor was tracked with, and an exit gives back an event.
\<close>

definition takes_slot :: "'ft grate_env \<Rightarrow> 'ft res_world \<Rightarrow> nat \<Rightarrow> nat list \<Rightarrow> nat list \<Rightarrow> int \<Rightarrow> string option" where
  "takes_slot E w nr a g ret =
     (if ret < 0 then None
      else if nr = SYS_CLONE then (if is_thread_clone E w (a ! 0) (g ! 0) then Some ''events'' else None)
      else map_option fst (slot_of nr))"

definition frees_slot :: "'ft grate_env \<Rightarrow> 'ft res_world \<Rightarrow> nat \<Rightarrow> nat list \<Rightarrow> nat list \<Rightarrow> int \<Rightarrow> string option" where
  "frees_slot E w nr a g ret =
     (if nr = SYS_EXIT then Some ''events''
      else if nr \<noteq> SYS_CLOSE \<or> ret < 0 then None
      else if fd_kind E w (g ! 0) (a ! 0) = FD_FILE then Some ''filesopened''
      else if fd_kind E w (g ! 0) (a ! 0) = FD_SOCKET
      then Some (if socket_flags E w (g ! 0) (a ! 0) AND SOCK_LISTENING \<noteq> 0 then ''insockets'' else ''outsockets'')
      else None)"

definition slots_after :: "'ft grate_env \<Rightarrow> 'ft res_world \<Rightarrow> nat \<Rightarrow> nat list \<Rightarrow> nat list \<Rightarrow> int \<Rightarrow> string \<Rightarrow> nat \<Rightarrow> nat" where
  "slots_after E w nr a g ret r n =
     (if takes_slot E w nr a g ret = Some r then n + 1 else if frees_slot E w nr a g ret = Some r then n - 1 else n)"

fun slots_in_use :: "(nat \<Rightarrow> nat) \<Rightarrow> 'ft grate_env \<Rightarrow> 'ft res_world \<Rightarrow> request list \<Rightarrow> string \<Rightarrow> nat \<Rightarrow> nat" where
  "slots_in_use clk E w [] r n = n"
| "slots_in_use clk E w (x # xs) r n =
     (case (x, res_step clk E w x) of
        ((nr, cid, a, g), Some (ret, w')) \<Rightarrow> slots_in_use clk E w' xs r (slots_after E w nr a g ret r n)
      | (_, None) \<Rightarrow> n)"

text \<open>What a call does to the counters: those of \<open>slots_after\<close>.\<close>

definition counts_as :: "(string \<Rightarrow> nat \<Rightarrow> nat) \<Rightarrow> 'ft res_world \<Rightarrow> 'ft res_world \<Rightarrow> bool" where
  "counts_as f w w' \<longleftrightarrow>
     (\<forall>r. (\<forall>x. fungible (nanny w) r = Some x \<longrightarrow> fungible (nanny w') r = Some (x\<lparr>count := f r (count x)\<rparr>)) \<and>
          (fungible (nanny w) r = None \<longrightarrow> fungible (nanny w') r = None))"

lemma counts_same: "fungible (nanny w') = fungible (nanny w) \<Longrightarrow> (\<And>r n. f r n = n) \<Longrightarrow> counts_as f w w'"
  by (simp add: counts_as_def)

lemma add_item_cases:
  assumes "add_item w r = (ok, w1)"
  shows "\<not> ok \<Longrightarrow> w1 = w" "ok \<Longrightarrow> counts_as (\<lambda>r' n. if r' = r then n + 1 else n) w w1"
  using assms by (auto simp: add_item_def tattle_add_item_def counts_as_def split: option.splits if_splits)

lemma remove_item_counts: "counts_as (\<lambda>r' n. if r' = r then n - 1 else n) w (remove_item w r)"
  by (auto simp: remove_item_def tattle_remove_item_def counts_as_def split: option.splits)

lemma counts_as_cong:
  "counts_as f w w1 \<Longrightarrow> fungible (nanny w') = fungible (nanny w1) \<Longrightarrow> (\<And>r n. f r n = f' r n) \<Longrightarrow> counts_as f' w w'"
  by (simp add: counts_as_def)

lemma slot_counts:
  assumes "add_item w r = (True, w1)" "slot_kept w1 r ret w'"
  shows "counts_as (\<lambda>r' n. if 0 \<le> ret \<and> r' = r then n + 1 else n) w w'"
proof (cases "ret < 0")
  case True
  then obtain w2 where w2: "w' = remove_item w2 r" "fungible (nanny w2) = fungible (nanny w1)" using assms(2) by (auto simp: slot_kept_def)
  show ?thesis using add_item_cases(2) [OF assms(1)] remove_item_counts [of r w2] w2 True by (fastforce simp: counts_as_def)
next
  case False
  then show ?thesis using add_item_cases(2) [OF assms(1)] assms(2) by (auto simp: slot_kept_def counts_as_def)
qed

lemma slot_call_counts:
  assumes "(nr, h) \<in> set res_handlers" "slot_of nr = Some (r, e)" "h clk E w cid a g = Some (ret, w')"
  shows "counts_as (\<lambda>r' n. if 0 \<le> ret \<and> r' = r then n + 1 else n) w w'"
proof -
  note h = slot_calls [OF assms(1,2)]
  obtain ok w1 where a: "add_item w r = (ok, w1)" by fastforce
  show ?thesis
  proof (cases ok)
    case False
    then have f: "add_item w r = (False, w)" using a add_item_cases(1) by auto
    have "h clk E w cid a g = Some (-24, w)"
      using h f full_refused [of w clk E cid a g] by (elim conjE disjE) simp_all
    then show ?thesis using assms(3) by (intro counts_same) auto
  next
    case True
    have "slot_kept w1 r ret w'"
      using h a True assms(3) open_slot [of w w1 clk E cid a g ret w'] listen_slot [of w w1 clk E cid a g ret w']
        accept_slot [of w w1 clk E cid a g ret w'] connect_slot [of w w1 clk E cid a g ret w'] by (elim conjE disjE) simp_all
    then show ?thesis using slot_counts [of w r w1] a True by simp
  qed
qed

lemma close_counts:
  assumes "handle_close clk E w cid a g = Some (ret, w')"
  shows "counts_as (\<lambda>r n. if frees_slot E w SYS_CLOSE a g ret = Some r then n - 1 else n) w w'"
proof -
  obtain w1 where f: "forward E w SYS_CLOSE cid a g = (ret, w1)" using assms by (auto simp: handle_close_def Let_def split: prod.splits)
  have n: "nanny w1 = nanny w" using forward_frameD [OF f] by simp
  let ?o = "frees_slot E w SYS_CLOSE a g ret"
  have "fungible (nanny w') = fungible (nanny (case ?o of Some r \<Rightarrow> remove_item w1 r | None \<Rightarrow> w1))"
    using assms by (auto simp: handle_close_def frees_slot_def f Let_def)
  moreover have "counts_as (\<lambda>r n. if ?o = Some r then n - 1 else n) w (case ?o of Some r \<Rightarrow> remove_item w1 r | None \<Rightarrow> w1)"
    using n remove_item_counts [of "the ?o" w1] by (cases ?o) (auto simp: counts_as_def)
  ultimately show ?thesis by (simp add: counts_as_def)
qed

lemma clone_counts:
  assumes "handle_clone clk E w cid a g = Some (ret, w')"
  shows "counts_as (\<lambda>r n. if 0 \<le> ret \<and> is_thread_clone E w (a ! 0) (g ! 0) \<and> r = ''events'' then n + 1 else n) w w'"
proof -
  define th where "th = is_thread_clone E w (a ! 0) (g ! 0)"
  obtain ok w1 where 1: "(if th then add_item w ''events'' else (True, w)) = (ok, w1)" by fastforce
  obtain ret2 w2 where 2: "forward E w1 SYS_CLONE cid a g = (ret2, w2)" by fastforce
  have n: "nanny w2 = nanny w1" using forward_frameD [OF 2] by simp
  show ?thesis
  proof (cases "th \<and> \<not> ok")
    case True
    then have "w1 = w" using 1 add_item_cases(1) by auto
    then have "ret = -11 \<and> w' = w" using assms True 1 by (simp add: handle_clone_def th_def [symmetric])
    then show ?thesis by (intro counts_same) auto
  next
    case False
    then have ok: "ok" using 1 by (auto split: if_splits)
    have w': "if ret < 0 \<and> th then w' = remove_item w2 ''events'' else fungible (nanny w') = fungible (nanny w2)"
      using assms ok by (auto simp: handle_clone_def th_def [symmetric] 1 2 Let_def split: option.splits if_splits)
    show ?thesis
    proof (cases th)
      case True
      then have a: "add_item w ''events'' = (True, w1)" using 1 ok by simp
      have "slot_kept w1 ''events'' ret w'"
        using w' n True forward_frameD [OF 2] by (auto simp: slot_kept_def split: if_splits)
      from slot_counts [OF a this] True show ?thesis by (simp add: th_def)
    next
      case False
      then have "w1 = w" using 1 by simp
      then show ?thesis using w' n False by (intro counts_same) (auto simp: th_def)
    qed
  qed
qed

lemma exit_counts:
  assumes "handle_exit clk E w cid a g = Some (ret, w')"
  shows "counts_as (\<lambda>r n. if r = ''events'' then n - 1 else n) w w'"
  using remove_item_counts [of "''events''" w] assms forward_frameD [of E "remove_item w ''events''" SYS_EXIT cid a g]
  by (auto simp: handle_exit_def intro: counts_as_cong)

lemma charging_slots:
  "read_like nr clk E w cid a g = Some (ret, w') \<Longrightarrow> fungible (nanny w') = fungible (nanny w)"
  "write_like nr clk E w cid a g = Some (ret, w') \<Longrightarrow> fungible (nanny w') = fungible (nanny w)"
  "handle_getrandom clk E w cid a g = Some (ret, w') \<Longrightarrow> fungible (nanny w') = fungible (nanny w)"
proof -
  show "read_like nr clk E w cid a g = Some (ret, w') \<Longrightarrow> fungible (nanny w') = fungible (nanny w)"
    unfolding read_like_def charge_read_pre_def charge_read_post_def Let_def
    by (elim seqE) (auto dest!: charge_slots forward_frameD)
  show "write_like nr clk E w cid a g = Some (ret, w') \<Longrightarrow> fungible (nanny w') = fungible (nanny w)"
    unfolding write_like_def charge_write_pre_def charge_write_post_def Let_def
    by (elim seqE) (auto dest!: charge_slots forward_frameD)
  show "handle_getrandom clk E w cid a g = Some (ret, w') \<Longrightarrow> fungible (nanny w') = fungible (nanny w)"
    unfolding handle_getrandom_def Let_def
    by (elim seqE) (auto dest!: charge_slots forward_frameD)
qed

lemma table_slots:
  "handle_socket clk E w cid a g = Some (ret, w') \<Longrightarrow> fungible (nanny w') = fungible (nanny w)"
  "handle_bind clk E w cid a g = Some (ret, w') \<Longrightarrow> fungible (nanny w') = fungible (nanny w)"
  by (auto simp: handle_socket_def handle_bind_def Let_def split: prod.splits if_splits dest!: forward_frameD)

lemma handler_counts:
  assumes "(nr, h) \<in> set res_handlers" "h clk E w cid a g = Some (ret, w')"
  shows "counts_as (slots_after E w nr a g ret) w w'"
proof -
  note defs = slots_after_def [abs_def] takes_slot_def frees_slot_def
  consider "slot_of nr \<noteq> None" "nr \<noteq> SYS_CLONE" "nr \<noteq> SYS_EXIT" "nr \<noteq> SYS_CLOSE"
    | "nr = SYS_CLOSE" "h = handle_close" | "nr = SYS_CLONE" "h = handle_clone" | "nr = SYS_EXIT" "h = handle_exit"
    | "slot_of nr = None" "nr \<noteq> SYS_CLONE" "nr \<noteq> SYS_EXIT" "nr \<noteq> SYS_CLOSE"
      "h \<in> range read_like \<union> range write_like \<union> {handle_getrandom, handle_socket, handle_bind}"
    using assms(1) by (auto simp: res_handlers_def call_defs slot_of_def)
  then show ?thesis
  proof cases
    case 1
    then obtain r e where "slot_of nr = Some (r, e)" by auto
    from slot_call_counts [where h = h, OF assms(1) this assms(2)] this 1 show ?thesis by (auto simp: defs counts_as_def)
  next
    case 2
    then show ?thesis using close_counts [of clk E w cid a g ret w'] assms(2) by (auto simp: counts_as_def slots_after_def takes_slot_def slot_of_def)
  next
    case 3
    then show ?thesis using clone_counts [of clk E w cid a g ret w'] assms(2) by (auto simp: counts_as_def defs)
  next
    case 4
    then show ?thesis using exit_counts [of clk E w cid a g ret w'] assms(2) by (auto simp: counts_as_def defs slot_of_def)
  next
    case 5
    then have "fungible (nanny w') = fungible (nanny w)" using assms(2) charging_slots table_slots by auto
    then show ?thesis using 5 by (intro counts_same) (auto simp: defs)
  qed
qed

lemma run_counts:
  "res_run clk E w xs = Some w' \<Longrightarrow> fungible (nanny w) r = Some f \<Longrightarrow>
    \<exists>f'. fungible (nanny w') r = Some f' \<and> limit f' = limit f \<and> count f' = slots_in_use clk E w xs r (count f)"
proof (induction xs arbitrary: w f)
  case (Cons x xs)
  obtain nr cid a g where x: "x = (nr, cid, a, g)" by (cases x)
  obtain ret w1 where s: "res_step clk E w x = Some (ret, w1)" "res_run clk E w1 xs = Some w'"
    using Cons.prems(1) by (auto split: option.splits)
  obtain h where h: "(nr, h) \<in> set res_handlers" "h clk E w cid a g = Some (ret, w1)" using res_stepD s(1) x by metis
  from handler_counts [where h = h, OF h] Cons.prems(2)
  have "fungible (nanny w1) r = Some (f\<lparr>count := slots_after E w nr a g ret r (count f)\<rparr>)" by (simp add: counts_as_def)
  from Cons.IH [OF s(2) this] s(1) x show ?case by simp
qed simp

text \<open>C10. However many calls the sandbox makes, the slots of a counted resource in use, as counted from the calls that took and gave
  back one, never exceed the configured limit; the counter the grate keeps is that number, and the limits and port allowlists are
  those of the configuration.  Slots are counted the way the code does: every exit gives an event back, also the exit
  of a process that is no thread, and the close of a socket gives one of its kind back, also when it was never connected; so
  the number of live threads or open sockets may exceed the limit.\<close>

theorem resource_caps:
  assumes "mono clk" "res_run clk E (res_start clk E ft cfg child) xs = Some w"
  shows "map_option limit \<circ> fungible (nanny w) = cfg_fungible cfg \<and> individual (nanny w) = cfg_individual cfg \<and>
    (\<forall>r f. fungible (nanny w) r = Some f \<longrightarrow> count f \<le> limit f) \<and>
    (\<forall>r l. cfg_fungible cfg r = Some l \<longrightarrow> slots_in_use clk E (res_start clk E ft cfg child) xs r 0 \<le> l \<and>
       fungible (nanny w) r = Some \<lparr>limit = l, count = slots_in_use clk E (res_start clk E ft cfg child) xs r 0\<rparr>)"
proof -
  have a: "nanny_slots.in_caps (nanny w)" "cap_of (nanny w) = cap_of (nanny (res_start clk E ft cfg child))"
    "individual (nanny w) = cfg_individual cfg"
    using start_run_acc [OF assms] by (simp_all add: res_acc_def res_start_def from_config_def)
  have cap: "cap_of (nanny w) = cfg_fungible cfg"
    by (simp add: a(2) cap_of_def res_start_def from_config_def option.map_comp comp_def option.map_ident fun_eq_iff)
  have le: "count f \<le> limit f" if "fungible (nanny w) r = Some f" for r f
    using nanny_slots.in_capsD [OF a(1), of r "count f"] that by (auto simp: held_of_def cap_of_def)
  have "fungible (nanny w) r = Some \<lparr>limit = l, count = slots_in_use clk E (res_start clk E ft cfg child) xs r 0\<rparr>"
    if "cfg_fungible cfg r = Some l" for r l
  proof -
    have "fungible (nanny (res_start clk E ft cfg child)) r = Some \<lparr>limit = l, count = 0\<rparr>"
      using that by (simp add: res_start_def from_config_def)
    from run_counts [OF assms(2) this] show ?thesis by auto
  qed
  then show ?thesis using a(3) cap le by (fastforce simp: cap_of_def fun_eq_iff)
qed

section \<open>A concrete sandbox\<close>

text \<open>A runtime in which every forwarded call returns 3, one file may be open, and 5000 bytes a second may be read.\<close>

definition res_env :: "fd_map grate_env" where
  "res_env =
     \<lparr>ge_cage = 7, ge_sys = \<lambda>h c. 3, ge_out = \<lambda>h c i. [], ge_copystr = \<lambda>h c p n. None,
      ge_copymem = \<lambda>h c p n. Some ([2, 0, 0, 80, 127] @ replicate 11 0),
      ge_copyout = \<lambda>h c p bs. True, ge_register = \<lambda>h c n g. 0, ge_fd = map_fdtables,
      ge_unused_errno = \<lambda>ft c. 24, ge_specific_errno = \<lambda>ft c fd. 9\<rparr>"

definition res_cfg :: resource_config where
  "res_cfg =
     \<lparr>cfg_renewable = [''fileread'' \<mapsto> 5000], cfg_fungible = [''filesopened'' \<mapsto> 1],
      cfg_individual = [''messport'' \<mapsto> {12345}], cfg_hard_caps = Map.empty\<rparr>"

definition open_request :: request where
  "open_request = (SYS_OPEN, 7, [100, 0, 0, 0, 0, 0], [5, 5, 5, 5, 5, 5])"

abbreviation res_w0 :: "fd_map res_world" where
  "res_w0 \<equiv> res_start (\<lambda>n. n) res_env [] res_cfg 5"

lemmas res_eval = res_start_def from_config_def res_preexec_def res_step_def res_handlers_def handle_open_def add_item_def
  tattle_add_item_def charge_def tattle_quantity_def drain_def forward_def track_def as_secs_def price_def READ_CALLS_def
  WRITE_CALLS_def only_def log_event_def as_u32_def Let_def res_env_def res_cfg_def open_request_def map_fdtables_def

lemma res_run_example:
  "\<exists>w. res_run (\<lambda>n. n) res_env res_w0 [open_request, open_request] = Some w \<and>
     fungible (nanny w) ''filesopened'' = Some \<lparr>limit = 1, count = 1\<rparr>"
  by (simp add: res_eval)

lemma res_bill_example: "res_bill (\<lambda>n. n) res_env res_w0 [open_request, open_request] ''fileread'' = 4096"
  by (simp add: res_eval)

lemma mono_clock: "mono (\<lambda>n :: nat. n)" "going_clock (\<lambda>n. n)"
  by (auto simp: going_clock_def mono_def)

lemma slots_in_use_example: "slots_in_use (\<lambda>n. n) res_env res_w0 [open_request, open_request] ''filesopened'' 0 = 1"
  by (simp add: res_eval slots_after_def takes_slot_def frees_slot_def slot_of_def)

theorem resource_caps_witness:
  "\<exists>w. res_run (\<lambda>n. n) res_env res_w0 [open_request, open_request] = Some w \<and>
     fungible (nanny w) ''filesopened'' = Some \<lparr>limit = 1, count = 1\<rparr> \<and>
     slots_in_use (\<lambda>n. n) res_env res_w0 [open_request, open_request] ''filesopened'' 0 \<le> 1"
proof -
  obtain w where w: "res_run (\<lambda>n. n) res_env res_w0 [open_request, open_request] = Some w" using res_run_example by blast
  have "cfg_fungible res_cfg ''filesopened'' = Some 1" by (simp add: res_cfg_def)
  then show ?thesis using resource_caps [OF mono_clock(1) w] w slots_in_use_example by metis
qed

theorem resource_rates_witness:
  "\<exists>w. res_run (\<lambda>n. n) res_env res_w0 [open_request, open_request] = Some w \<and>
     (4096 :: rat) \<le> 5000 * (1 + 1 / (2 * 10 ^ 9) + as_secs (ticks w - 0))"
proof -
  obtain w where w: "res_run (\<lambda>n. n) res_env res_w0 [open_request, open_request] = Some w" using res_run_example by blast
  have "res_bill (\<lambda>n. n) res_env res_w0 [open_request, open_request] ''fileread'' \<le> 5000 * (1 + 1 / (2 * 10 ^ 9) + as_secs (ticks w - 0))"
    by (rule resource_rates [OF mono_clock(1) w]) (simp_all add: res_cfg_def)
  then show ?thesis using w unfolding res_bill_example by blast
qed

theorem resource_returns_witness:
  "\<exists>w. res_run (\<lambda>n. n) res_env res_w0 [open_request, (SYS_READ, 7, [3, 0, 0, 0, 0, 0], [5, 5, 5, 5, 5, 5]), open_request] = Some w"
proof (rule resource_returns [OF mono_clock(2)])
  show "fst ` set [open_request, (SYS_READ, 7, [3, 0, 0, 0, 0, 0], [5, 5, 5, 5, 5, 5]), open_request]
      \<subseteq> set (map fst (res_handlers :: (nat \<times> fd_map res_handler) list))"
    by (simp add: res_handlers_def open_request_def)
qed (auto simp: small_returns_def res_env_def res_cfg_def split: if_splits)

theorem slot_discipline_witness:
  "\<exists>ret w'. handle_open (\<lambda>n. n) res_env res_w0 7 [100, 0, 0, 0, 0, 0] [5, 5, 5, 5, 5, 5] = Some (ret, w') \<and>
     (0 \<le> ret \<longrightarrow> fungible (nanny w') = (fungible (nanny res_w0))(''filesopened'' \<mapsto> \<lparr>limit = 1, count = 0 + 1\<rparr>))"
proof -
  have "res_live (\<lambda>n. n) res_w0"
    by (simp add: res_live_def start_ok [OF mono_clock(1)]) (simp add: res_start_def from_config_def res_cfg_def)
  then have "returns (handle_open (\<lambda>n. n) res_env res_w0 7 [100, 0, 0, 0, 0, 0] [5, 5, 5, 5, 5, 5])"
    by (intro charging_returns mono_clock) (simp_all add: small_returns_def res_env_def)
  then obtain ret w' where h: "handle_open (\<lambda>n. n) res_env res_w0 7 [100, 0, 0, 0, 0, 0] [5, 5, 5, 5, 5, 5] = Some (ret, w')"
    by (auto simp: returns_def)
  have "fungible (nanny res_w0) ''filesopened'' = Some \<lparr>limit = 1, count = 0\<rparr>" by (simp add: res_start_def from_config_def res_cfg_def)
  from slot_discipline [where h = handle_open and nr = SYS_OPEN and e = 24, OF _ _ this h] h show ?thesis by (simp add: slot_of_def res_handlers_def)
qed

section \<open>Where the code falls short\<close>

text \<open>A configured rate of zero does not block the resource: the first charge aborts the grate.\<close>

lemma zero_rate_aborts:
  assumes "renewable s r = Some b" "allowed_per_sec b = 0" "0 < q"
  shows "tattle_quantity clk s t r q = None"
proof -
  have "0 < consumed (drain b (clk t)) + q" using assms(3) add_nonneg_pos [of "consumed (drain b (clk t))" q] by simp
  with assms show ?thesis by (simp add: tattle_quantity_def sleep_duration_def Let_def)
qed

text \<open>An allowlist for one kind of port has no effect on \<open>bind\<close> while the other list is not configured.\<close>

lemma bind_one_list:
  assumes "individual (nanny w) ''connport'' = None"
  shows "\<exists>ret w'. handle_bind clk E w cid a g = Some (ret, w') \<and> hist w' \<noteq> hist w"
proof -
  have "hist (mark_socket E w c fd f) = hist w" for c fd f
    by (simp add: mark_socket_def untrack_def Let_def split: option.split)
  with assms show ?thesis by (auto simp: handle_bind_def is_item_allowed_def forward_def log_event_def Let_def split: option.splits if_splits)
qed

text \<open>
  \<open>bind\<close> marks a descriptor as a loopback socket before the call is forwarded, whatever its kind: a
  file so marked is read without a charge to \<open>fileread\<close>, even when the call then fails.
\<close>

lemma bind_relabels_file:
  "read_resource res_env (res_w0\<lparr>fdt := [((5, 4), mk_entry FD_FILE 0 False 0)]\<rparr>) 5 4 = ''fileread'' \<and>
   (case handle_bind (\<lambda>n. n) (res_env\<lparr>ge_sys := \<lambda>h c. -88\<rparr>) (res_w0\<lparr>fdt := [((5, 4), mk_entry FD_FILE 0 False 0)]\<rparr>) 7
      [4, 100, 16, 0, 0, 0] [5, 5, 5, 5, 5, 5] of
      Some (ret, w') \<Rightarrow> ret = -88 \<and> read_resource res_env w' 5 4 = ''looprecv''
    | None \<Rightarrow> False)"
  by (simp add: handle_bind_def res_eval read_resource_def fd_kind_def socket_flags_def FD_FILE_def FD_SOCKET_def extract_port_def
      is_loopback_addr_def sockaddr_family_def le_nat_def mark_socket_def untrack_def SOCK_LOOPBACK_def is_item_allowed_def)

end
