(* ===== verification/Fd_Props.thy ===== *)
theory Fd_Props
  imports Fd_Support
begin

unbundle bit_operations_syntax

text \<open>
  Correctness of the descriptor-translating handlers: every descriptor argument reaches the runtime
  translated, a descriptor that was created is used as the runtime's descriptor later on, and the
  sets of \<open>select\<close> and the arrays of \<open>poll\<close> come back in terms of the cage's own descriptors.
\<close>

section \<open>Bytes\<close>

declare le_nat_Cons [simp]

lemma fd_set_of_bytes: "length s = FD_SET_WORDS \<Longrightarrow> fd_set_of (fd_set_bytes s) = s"
proof (rule nth_equalityI)
  fix i assume "length s = FD_SET_WORDS" "i < length (fd_set_of (fd_set_bytes s))"
  moreover have "unat (s ! i) < 2 ^ 32" using unsigned_less [of "s ! i"] by simp
  ultimately show "fd_set_of (fd_set_bytes s) ! i = s ! i"
    by (simp add: fd_set_of_def fd_set_bytes_def take_drop_concat le_nat_le_bytes)
qed (simp add: fd_set_of_def)

section \<open>Descriptor sets\<close>

lemma fd_isset_bit: "fd_isset fd s \<longleftrightarrow> fd < 1024 \<and> bit (s ! (fd div 32)) (fd mod 32)"
  by (simp add: fd_isset_def FD_SETSIZE_def bit_iff_and_push_bit_not_eq_0)

lemma length_fd_set_bit [simp]: "length (fd_set_bit fd s) = length s"
  by (simp add: fd_set_bit_def)

lemma length_fd_zero [simp]: "length fd_zero = 32"
  by (simp add: fd_zero_def FD_SET_WORDS_def FD_SETSIZE_def)

lemma fd_isset_zero [simp]: "\<not> fd_isset fd fd_zero"
  by (auto simp: fd_isset_bit fd_zero_def FD_SET_WORDS_def FD_SETSIZE_def nth_replicate)

lemma fd_isset_set_bit:
  assumes "length s = 32"
  shows "fd_isset fd (fd_set_bit fd' s) \<longleftrightarrow> fd < 1024 \<and> fd = fd' \<or> fd_isset fd s"
proof (cases "fd < 1024 \<and> fd' < 1024")
  case True
  then have "fd div 32 < 32" "fd' div 32 < 32" by auto
  moreover have "fd = fd' \<longleftrightarrow> fd div 32 = fd' div 32 \<and> fd mod 32 = fd' mod 32" by (metis div_mult_mod_eq)
  moreover have "bit (push_bit m 1 :: u32) n \<longleftrightarrow> m = n" if "m < 32" "n < 32" for m n
    using that by (auto simp: bit_exp_iff)
  ultimately show ?thesis using True assms by (auto simp: fd_isset_bit fd_set_bit_def FD_SETSIZE_def bit_or_iff nth_list_update)
next
  case False
  then show ?thesis by (auto simp: fd_isset_bit fd_set_bit_def FD_SETSIZE_def)
qed

section \<open>The sets of select\<close>

text \<open>The descriptor a virtual descriptor stands for, when it fits into a set.\<close>

definition under_of :: "'ft grate_env \<Rightarrow> 'ft \<Rightarrow> nat \<Rightarrow> nat \<Rightarrow> nat option" where
  "under_of E ft cage v =
     (case translate_fd_arg E ft cage v Fd of
        Some u \<Rightarrow> if as_usize (int u) < 1024 then Some (as_usize (int u)) else None
      | None \<Rightarrow> None)"

text \<open>
  What the loop has established after the descriptors below \<open>n\<close>: \<open>R\<close>, \<open>W\<close> and \<open>X\<close> say which descriptors the
  cage asks for.
\<close>

definition select_inv ::
  "(nat \<Rightarrow> nat option) \<Rightarrow> (nat \<Rightarrow> bool) \<Rightarrow> (nat \<Rightarrow> bool) \<Rightarrow> (nat \<Rightarrow> bool) \<Rightarrow> nat \<Rightarrow> select_state \<Rightarrow> bool" where
  "select_inv T R W X n s \<longleftrightarrow>
     length (rev_map s) = 1024 \<and> length (k_read s) = 32 \<and> length (k_write s) = 32 \<and> length (k_except s) = 32 \<and> max_under s < 1024 \<and>
     (\<forall>u < 1024. \<forall>v. rev_map s ! u = Some v \<longrightarrow> v < n \<and> (R v \<or> W v \<or> X v) \<and> T v = Some u) \<and>
     (\<forall>v < n. \<forall>u. R v \<or> W v \<or> X v \<longrightarrow> T v = Some u \<longrightarrow> rev_map s ! u \<noteq> None \<and> u \<le> max_under s) \<and>
     (\<forall>u. fd_isset u (k_read s) \<longleftrightarrow> (\<exists>v < n. R v \<and> T v = Some u)) \<and>
     (\<forall>u. fd_isset u (k_write s) \<longleftrightarrow> (\<exists>v < n. W v \<and> T v = Some u)) \<and>
     (\<forall>u. fd_isset u (k_except s) \<longleftrightarrow> (\<exists>v < n. X v \<and> T v = Some u))"

lemma under_of_less: "under_of E ft cage v = Some u \<Longrightarrow> u < 1024"
  by (auto simp: under_of_def split: option.splits if_splits)

lemma less_Suc_ex: "(\<exists>v < Suc n. P v) \<longleftrightarrow> P n \<or> (\<exists>v < n. P v)"
  by (auto simp: less_Suc_eq)

lemma select_one_frame:
  "select_cageid (select_one E ft rs ws es s v) = select_cageid s" "have_r (select_one E ft rs ws es s v) = have_r s"
  "have_w (select_one E ft rs ws es s v) = have_w s" "have_e (select_one E ft rs ws es s v) = have_e s"
  "v_read (select_one E ft rs ws es s v) = v_read s" "v_write (select_one E ft rs ws es s v) = v_write s"
  "v_except (select_one E ft rs ws es s v) = v_except s"
  by (simp_all add: select_one_def Let_def split: option.split)

lemma select_one_cases:
  assumes "R = (have_r s \<and> fd_isset v rs)" "W = (have_w s \<and> fd_isset v ws)" "X = (have_e s \<and> fd_isset v es)"
  shows "select_one E ft rs ws es s v =
    (case under_of E ft (select_cageid s) v of
       Some u \<Rightarrow> if R \<or> W \<or> X then
         s\<lparr>rev_map := (rev_map s)[u := Some v], max_under := max u (max_under s),
           k_read := (if R then fd_set_bit u (k_read s) else k_read s),
           k_write := (if W then fd_set_bit u (k_write s) else k_write s),
           k_except := (if X then fd_set_bit u (k_except s) else k_except s)\<rparr> else s
     | None \<Rightarrow> s)"
  unfolding assms by (auto simp: select_one_def under_of_def FD_SETSIZE_def Let_def max_def split: option.split)

lemma select_set_step:
  assumes "length k = 32" "\<forall>u. fd_isset u k \<longleftrightarrow> (\<exists>v < n. P v \<and> T v = Some u)" "T n = Some u" "u < 1024"
  shows "fd_isset u' (if P n then fd_set_bit u k else k) \<longleftrightarrow> (\<exists>v < Suc n. P v \<and> T v = Some u')"
  using assms by (auto simp: less_Suc_ex fd_isset_set_bit)

lemma select_rev_step:
  assumes "length m = 1024" "\<forall>u < 1024. \<forall>v. m ! u = Some v \<longrightarrow> v < n \<and> P v \<and> T v = Some u"
    "\<forall>v < n. \<forall>u. P v \<longrightarrow> T v = Some u \<longrightarrow> m ! u \<noteq> None \<and> u \<le> mx" "T n = Some u" "P n" "u < 1024"
  shows "\<forall>u' < 1024. \<forall>v. m[u := Some n] ! u' = Some v \<longrightarrow> v < Suc n \<and> P v \<and> T v = Some u'"
    and "\<forall>v < Suc n. \<forall>u'. P v \<longrightarrow> T v = Some u' \<longrightarrow> m[u := Some n] ! u' \<noteq> None \<and> u' \<le> max u mx"
proof -
  show "\<forall>u' < 1024. \<forall>v. m[u := Some n] ! u' = Some v \<longrightarrow> v < Suc n \<and> P v \<and> T v = Some u'"
    using assms(1,2,4-6) by (auto simp: nth_list_update less_Suc_eq)
  show "\<forall>v < Suc n. \<forall>u'. P v \<longrightarrow> T v = Some u' \<longrightarrow> m[u := Some n] ! u' \<noteq> None \<and> u' \<le> max u mx"
  proof (intro allI impI)
    fix v u' assume v: "v < Suc n" "P v" "T v = Some u'"
    show "m[u := Some n] ! u' \<noteq> None \<and> u' \<le> max u mx"
    proof (cases "v = n")
      case True
      then show ?thesis using v assms(1,4,6) by simp
    next
      case False
      then have "m ! u' \<noteq> None \<and> u' \<le> mx" using v assms(3) by (simp add: less_Suc_eq)
      then show ?thesis using assms(1,6) by (cases "u' = u") auto
    qed
  qed
qed

lemma select_inv_step:
  assumes "select_inv T R W X n s" "T = under_of E ft (select_cageid s)"
    "R = (\<lambda>v. have_r s \<and> fd_isset v rs)" "W = (\<lambda>v. have_w s \<and> fd_isset v ws)" "X = (\<lambda>v. have_e s \<and> fd_isset v es)"
  shows "select_inv T R W X (Suc n) (select_one E ft rs ws es s n)"
proof -
  have eq: "select_one E ft rs ws es s n =
    (case T n of
       Some u \<Rightarrow> if R n \<or> W n \<or> X n then
         s\<lparr>rev_map := (rev_map s)[u := Some n], max_under := max u (max_under s),
           k_read := (if R n then fd_set_bit u (k_read s) else k_read s),
           k_write := (if W n then fd_set_bit u (k_write s) else k_write s),
           k_except := (if X n then fd_set_bit u (k_except s) else k_except s)\<rparr> else s
     | None \<Rightarrow> s)"
    unfolding assms(2) by (rule select_one_cases) (simp_all add: assms(3-5))
  consider "select_one E ft rs ws es s n = s" "T n = None \<or> \<not> (R n \<or> W n \<or> X n)"
    | u where "T n = Some u" "R n \<or> W n \<or> X n" "u < 1024"
    using assms(2) by (cases "T n") (auto simp: eq dest: under_of_less)
  then show ?thesis
  proof cases
    case 1
    show ?thesis unfolding 1(1) using assms(1) 1(2) by (auto simp: select_inv_def less_Suc_ex less_Suc_eq)
  next
    case (2 u)
    let ?P = "\<lambda>v. R v \<or> W v \<or> X v"
    have i: "length (rev_map s) = 1024" "length (k_read s) = 32" "length (k_write s) = 32" "length (k_except s) = 32" "max_under s < 1024"
      "\<forall>u < 1024. \<forall>v. rev_map s ! u = Some v \<longrightarrow> v < n \<and> ?P v \<and> T v = Some u"
      "\<forall>v < n. \<forall>u. ?P v \<longrightarrow> T v = Some u \<longrightarrow> rev_map s ! u \<noteq> None \<and> u \<le> max_under s"
      "\<forall>u. fd_isset u (k_read s) \<longleftrightarrow> (\<exists>v < n. R v \<and> T v = Some u)"
      "\<forall>u. fd_isset u (k_write s) \<longleftrightarrow> (\<exists>v < n. W v \<and> T v = Some u)"
      "\<forall>u. fd_isset u (k_except s) \<longleftrightarrow> (\<exists>v < n. X v \<and> T v = Some u)"
      using assms(1) unfolding select_inv_def by blast+
    note sets = select_set_step [OF i(2,8) 2(1,3)] select_set_step [OF i(3,9) 2(1,3)] select_set_step [OF i(4,10) 2(1,3)]
    note rev = select_rev_step [where P = ?P, OF i(1,6,7) 2]
    let ?s = "select_one E ft rs ws es s n"
    have s': "rev_map ?s = (rev_map s)[u := Some n]" "max_under ?s = max u (max_under s)"
      "k_read ?s = (if R n then fd_set_bit u (k_read s) else k_read s)"
      "k_write ?s = (if W n then fd_set_bit u (k_write s) else k_write s)"
      "k_except ?s = (if X n then fd_set_bit u (k_except s) else k_except s)"
      using 2 by (simp_all add: eq)
    show ?thesis unfolding select_inv_def s'
      by (intro conjI; (rule rev | (rule allI, rule sets) | simp add: i(1-5) 2(3)))
  qed
qed

lemma select_inv_loop:
  assumes "T = under_of E ft (select_cageid s)"
    "R = (\<lambda>v. have_r s \<and> fd_isset v rs)" "W = (\<lambda>v. have_w s \<and> fd_isset v ws)" "X = (\<lambda>v. have_e s \<and> fd_isset v es)"
    "select_inv T R W X 0 s"
  shows "select_inv T R W X n (foldl (select_one E ft rs ws es) s [0..<n])" (is "select_inv T R W X n (?f n)")
proof -
  have f: "select_cageid (?f n) = select_cageid s" "have_r (?f n) = have_r s" "have_w (?f n) = have_w s" "have_e (?f n) = have_e s" for n
    by (induction n) (simp_all add: select_one_frame)
  show ?thesis
  proof (induction n)
    case 0
    then show ?case using assms(5) by simp
  next
    case (Suc n)
    then show ?case using select_inv_step [OF Suc, of E ft rs ws es] assms(1-4) f by simp
  qed
qed

lemma select_init_inv: "select_inv T R W X 0 (select_init x a cage)"
  by (simp add: select_inv_def select_init_def FD_SETSIZE_def)

lemma select_back_bits:
  "fd_isset v (select_back s have k) \<longleftrightarrow> v < 1024 \<and> have \<and> (\<exists>u \<le> max_under s. rev_map s ! u = Some v \<and> fd_isset u k)"
proof -
  let ?f = "\<lambda>n. foldl (\<lambda>out under. case rev_map s ! under of Some fd \<Rightarrow> if have \<and> fd_isset under k then fd_set_bit fd out else out | None \<Rightarrow> out)
       fd_zero [0..<n]"
  have "length (?f n) = 32 \<and> (fd_isset v (?f n) \<longleftrightarrow> v < 1024 \<and> have \<and> (\<exists>u < n. rev_map s ! u = Some v \<and> fd_isset u k))" for n
    by (induction n) (auto simp: less_Suc_ex fd_isset_set_bit split: option.split)
  from this [of "Suc (max_under s)"] show ?thesis by (simp add: select_back_def less_Suc_eq_le)
qed

text \<open>One set of the answer, when no two requested descriptors share a descriptor of the runtime.\<close>

lemma select_back_set:
  assumes "select_inv T R W X n s" "\<And>v v' u. v < n \<Longrightarrow> v' < n \<Longrightarrow> T v = Some u \<Longrightarrow> T v' = Some u \<Longrightarrow> v = v'"
    "\<And>u. fd_isset u k \<Longrightarrow> \<exists>v < n. P v \<and> T v = Some u" "\<And>v. P v \<Longrightarrow> (R v \<or> W v \<or> X v) \<and> v < 1024" "\<And>v u. T v = Some u \<Longrightarrow> u < 1024"
  shows "fd_isset v (select_back s True k) \<longleftrightarrow> v < n \<and> P v \<and> (\<exists>u. T v = Some u \<and> fd_isset u k)"
proof -
  have i: "max_under s < 1024" "\<And>u v. u < 1024 \<Longrightarrow> rev_map s ! u = Some v \<Longrightarrow> v < n \<and> T v = Some u"
    "\<And>u v. v < n \<Longrightarrow> R v \<or> W v \<or> X v \<Longrightarrow> T v = Some u \<Longrightarrow> rev_map s ! u \<noteq> None \<and> u \<le> max_under s"
    using assms(1) unfolding select_inv_def by blast+
  show ?thesis
  proof
    assume "fd_isset v (select_back s True k)"
    then obtain u where u: "u \<le> max_under s" "rev_map s ! u = Some v" "fd_isset u k" by (auto simp: select_back_bits)
    then have v: "v < n" "T v = Some u" using i(1) i(2) [of u v] by simp_all
    with u assms(2) [of v] assms(3) [OF u(3)] show "v < n \<and> P v \<and> (\<exists>u. T v = Some u \<and> fd_isset u k)" by blast
  next
    assume "v < n \<and> P v \<and> (\<exists>u. T v = Some u \<and> fd_isset u k)"
    then obtain u where v: "v < n" "P v" "T v = Some u" "fd_isset u k" by blast
    then have r: "u \<le> max_under s" "rev_map s ! u \<noteq> None" using i(3) assms(4) by blast+
    then obtain v' where v': "rev_map s ! u = Some v'" by blast
    then have "v' = v" using i(2) [OF assms(5) [OF v(3)] v'] assms(2) v by blast
    with r v v' assms(4) show "fd_isset v (select_back s True k)" by (auto simp: select_back_bits)
  qed
qed

lemma select_fold_frame:
  "let s' = foldl (select_one E ft rs ws es) s [0..<n] in
     have_r s' = have_r s \<and> have_w s' = have_w s \<and> have_e s' = have_e s \<and> v_read s' = v_read s \<and>
     v_write s' = v_write s \<and> v_except s' = v_except s \<and> select_cageid s' = select_cageid s"
  by (induction n) (simp_all add: Let_def select_one_frame)

text \<open>The state the handler has prepared before the call.\<close>

lemma select_prepared:
  assumes "length a = 6" and x_def: "x = select_prepare E w this a 1 (init_locals a g)"
  obtains s where "x_select x = Some s" "x_pipe x = None" "x_socketpair x = None" "x_poll x = None" "\<not> should_dup2 x" "\<not> should_create_vfd x"
    "have_r s \<longleftrightarrow> a ! 1 \<noteq> 0" "have_w s \<longleftrightarrow> a ! 2 \<noteq> 0" "have_e s \<longleftrightarrow> a ! 3 \<noteq> 0"
    "v_read s = a ! 1" "v_write s = a ! 2" "v_except s = a ! 3" "select_cageid s = g ! 1"
    "a ! 1 \<noteq> 0 \<Longrightarrow> x_args x ! 1 = OwnBuf (fd_set_bytes (k_read s))" "a ! 2 \<noteq> 0 \<Longrightarrow> x_args x ! 2 = OwnBuf (fd_set_bytes (k_write s))"
    "a ! 3 \<noteq> 0 \<Longrightarrow> x_args x ! 3 = OwnBuf (fd_set_bytes (k_except s))"
    "select_inv (under_of E (fdt w) (g ! 1)) (\<lambda>v. a ! 1 \<noteq> 0 \<and> fd_isset v (read_fd_set E w True (g ! 1) (a ! 1)))
       (\<lambda>v. a ! 2 \<noteq> 0 \<and> fd_isset v (read_fd_set E w True (g ! 1) (a ! 2)))
       (\<lambda>v. a ! 3 \<noteq> 0 \<and> fd_isset v (read_fd_set E w True (g ! 1) (a ! 3))) (nat (as_i32 (int (a ! 0)))) s"
proof -
  let ?x = "init_locals a g" and ?n = "nat (as_i32 (int (a ! 0)))"
  define s0 where "s0 = select_init ?x a (g ! 1)"
  define rs ws es where "rs = read_fd_set E w (a ! 1 \<noteq> 0) (g ! 1) (a ! 1)" and "ws = read_fd_set E w (a ! 2 \<noteq> 0) (g ! 1) (a ! 2)"
    and "es = read_fd_set E w (a ! 3 \<noteq> 0) (g ! 1) (a ! 3)"
  define s where "s = foldl (select_one E (fdt w) rs ws es) s0 [0..<?n]"
  have num: "num_at ?x i = a ! i" if "i < 6" for i using assms(1) that by (simp add: init_locals_def)
  have len: "length (x_args ?x) = 6" "x_cages ?x = g" using assms(1) by (simp_all add: init_locals_def)
  have s0: "have_r s0 \<longleftrightarrow> a ! 1 \<noteq> 0" "have_w s0 \<longleftrightarrow> a ! 2 \<noteq> 0" "have_e s0 \<longleftrightarrow> a ! 3 \<noteq> 0" "v_read s0 = a ! 1" "v_write s0 = a ! 2"
    "v_except s0 = a ! 3" "select_cageid s0 = g ! 1"
    using num [of 1] num [of 2] num [of 3] by (simp_all add: s0_def select_init_def)
  have f: "have_r s = have_r s0 \<and> have_w s = have_w s0 \<and> have_e s = have_e s0 \<and> v_read s = v_read s0 \<and> v_write s = v_write s0 \<and>
      v_except s = v_except s0 \<and> select_cageid s = select_cageid s0"
    unfolding s_def using select_fold_frame [of E "fdt w" rs ws es s0 ?n] by (simp add: Let_def)
  have e: "select_init ?x a (x_cages ?x ! 1) = s0" by (simp add: s0_def len)
  have fold: "foldl (select_one E (fdt w) (read_fd_set E w (have_r s0) (x_cages ?x ! 1) (num_at ?x 1)) (read_fd_set E w (have_w s0) (x_cages ?x ! 1) (num_at ?x 2))
      (read_fd_set E w (have_e s0) (x_cages ?x ! 1) (num_at ?x 3))) s0 [0..<nat (as_i32 (int (num_at ?x 0)))] = s"
    using num [of 0] num [of 1] num [of 2] num [of 3] s0(1-3) by (simp only: s_def rs_def ws_def es_def len(2))
  have sel: "x_select x = Some s" unfolding x_def select_prepare_def Let_def e fold by simp
  have plain: "x_pipe x = x_pipe ?x" "x_socketpair x = x_socketpair ?x" "x_poll x = x_poll ?x" "should_dup2 x = should_dup2 ?x" "should_create_vfd x = should_create_vfd ?x"
    unfolding x_def select_prepare_def Let_def by simp_all
  have args: "x_args x = (x_args ?x)[0 := Num (if max_under s > 0 then max_under s + 1 else a ! 0), 1 := (if have_r s then OwnBuf (fd_set_bytes (k_read s)) else Num 0),
        2 := (if have_w s then OwnBuf (fd_set_bytes (k_write s)) else Num 0), 3 := (if have_e s then OwnBuf (fd_set_bytes (k_except s)) else Num 0)]"
    unfolding x_def select_prepare_def Let_def e fold by simp
  have inv: "select_inv (under_of E (fdt w) (g ! 1)) (\<lambda>v. have_r s0 \<and> fd_isset v rs) (\<lambda>v. have_w s0 \<and> fd_isset v ws) (\<lambda>v. have_e s0 \<and> fd_isset v es) ?n s"
    unfolding s_def by (rule select_inv_loop) (simp_all add: s0(7), simp add: s0_def select_init_inv)
  show thesis
  proof (rule that [of s])
    show "x_select x = Some s" by (rule sel)
    show "x_pipe x = None" "x_socketpair x = None" "x_poll x = None" "\<not> should_dup2 x" "\<not> should_create_vfd x"
      by (simp_all add: plain init_locals_def)
    show "a ! 1 \<noteq> 0 \<Longrightarrow> x_args x ! 1 = OwnBuf (fd_set_bytes (k_read s))" "a ! 2 \<noteq> 0 \<Longrightarrow> x_args x ! 2 = OwnBuf (fd_set_bytes (k_write s))"
      "a ! 3 \<noteq> 0 \<Longrightarrow> x_args x ! 3 = OwnBuf (fd_set_bytes (k_except s))"
      using f s0(1-3) len(1) by (simp_all add: args)
  qed (use f s0 inv in \<open>simp_all add: rs_def ws_def es_def cong: conj_cong\<close>)
qed

text \<open>The runtime leaves in a set only descriptors it was asked for.\<close>

definition select_reports :: "'ft grate_env \<Rightarrow> bool" where
  "select_reports E \<longleftrightarrow> (\<forall>h c i bs u. callnumber c = SYS_SELECT \<longrightarrow> call_args c ! i = OwnBuf bs \<longrightarrow>
     fd_isset u (fd_set_of (ge_out E h c i)) \<longrightarrow> fd_isset u (fd_set_of bs))"

text \<open>What the handler writes back for the set at \<open>p\<close>, of which it asked \<open>k\<close> and the runtime left \<open>o\<close>.\<close>

definition set_maps_back :: "'ft grate_env \<Rightarrow> 'ft grate_world \<Rightarrow> nat \<Rightarrow> nat \<Rightarrow> nat \<Rightarrow> u32 list \<Rightarrow> u32 list \<Rightarrow> u32 list \<Rightarrow> bool" where
  "set_maps_back E w cage n p k left out \<longleftrightarrow> length k = FD_SET_WORDS \<and>
     (\<forall>u. fd_isset u k \<longleftrightarrow> (\<exists>v < n. fd_isset v (read_fd_set E w True cage p) \<and> under_of E (fdt w) cage v = Some u)) \<and>
     (\<forall>v. fd_isset v out \<longleftrightarrow> v < n \<and> fd_isset v (read_fd_set E w True cage p) \<and>
        (\<exists>u. under_of E (fdt w) cage v = Some u \<and> fd_isset u left))"

lemma set_maps_backI:
  assumes inv: "select_inv (under_of E (fdt w) cage) R W X n s"
    and k: "length k = FD_SET_WORDS" "\<And>u. fd_isset u k \<longleftrightarrow> (\<exists>v < n. P v \<and> under_of E (fdt w) cage v = Some u)" "\<And>v. P v \<longleftrightarrow> fd_isset v (read_fd_set E w True cage p)"
      "\<And>v. P v \<Longrightarrow> R v \<or> W v \<or> X v"
    and left: "\<And>u. fd_isset u left \<Longrightarrow> fd_isset u k"
    and inj: "\<And>v v' u. v < n \<Longrightarrow> v' < n \<Longrightarrow> under_of E (fdt w) cage v = Some u \<Longrightarrow> under_of E (fdt w) cage v' = Some u \<Longrightarrow> v = v'"
  shows "set_maps_back E w cage n p k left (select_back s True left)"
proof -
  have "fd_isset v (select_back s True left) \<longleftrightarrow> v < n \<and> P v \<and> (\<exists>u. under_of E (fdt w) cage v = Some u \<and> fd_isset u left)" for v
    by (rule select_back_set [OF inv inj]) (use left k(2-) in \<open>auto simp: fd_isset_bit dest: under_of_less\<close>)
  then show ?thesis using k(1-3) by (simp add: set_maps_back_def)
qed

text \<open>C34. \<open>select\<close> gives the cage its own descriptors back, in all three sets.  Suppose the runtime reports, of each set, a subset of
  what it was asked for, and no two descriptors of the cage below the given number share one of the runtime.  A call of the
  handler that succeeds makes one call of the runtime and then writes back exactly the sets the cage passed, each to its own
  address.  Of each set the runtime was asked for exactly the descriptors the requested ones stand for, and a descriptor is in
  the set written back exactly when the cage asked for it and the runtime reported the descriptor it stands for.\<close>

theorem select_maps_back:
  assumes "fd_translation_handler_impl SYS_SELECT SELECT_FDS E w this a g = Some (ret, w')" "0 \<le> ret" "length a = 6" "select_reports E"
    "n = nat (as_i32 (int (a ! 0)))" "cage = g ! 1"
    "\<And>v v' u. v < n \<Longrightarrow> v' < n \<Longrightarrow> under_of E (fdt w) cage v = Some u \<Longrightarrow> under_of E (fdt w) cage v' = Some u \<Longrightarrow> v = v'"
  shows "\<exists>c K B. callnumber c = SYS_SELECT \<and> ret = ge_sys E (hist w) c \<and>
    hist w' = hist w @ Threei c # concat (map (\<lambda>i. if a ! i = 0 then [] else [CopyOut cage (a ! i) (fd_set_bytes (B i))]) [1, 2, 3]) \<and>
    (\<forall>i \<in> {1, 2, 3}. a ! i \<noteq> 0 \<longrightarrow> call_args c ! i = OwnBuf (fd_set_bytes (K i)) \<and>
       set_maps_back E w cage n (a ! i) (K i) (fd_set_of (ge_out E (hist w) c i)) (B i))"
proof -
  obtain s where s: "x_select (select_prepare E w this a 1 (init_locals a g)) = Some s" "x_pipe (select_prepare E w this a 1 (init_locals a g)) = None"
    "x_socketpair (select_prepare E w this a 1 (init_locals a g)) = None" "x_poll (select_prepare E w this a 1 (init_locals a g)) = None"
    "\<not> should_dup2 (select_prepare E w this a 1 (init_locals a g))" "\<not> should_create_vfd (select_prepare E w this a 1 (init_locals a g))"
    and hv: "have_r s \<longleftrightarrow> a ! 1 \<noteq> 0" "have_w s \<longleftrightarrow> a ! 2 \<noteq> 0" "have_e s \<longleftrightarrow> a ! 3 \<noteq> 0"
    "v_read s = a ! 1" "v_write s = a ! 2" "v_except s = a ! 3" "select_cageid s = cage"
    and ar: "a ! 1 \<noteq> 0 \<Longrightarrow> x_args (select_prepare E w this a 1 (init_locals a g)) ! 1 = OwnBuf (fd_set_bytes (k_read s))"
    "a ! 2 \<noteq> 0 \<Longrightarrow> x_args (select_prepare E w this a 1 (init_locals a g)) ! 2 = OwnBuf (fd_set_bytes (k_write s))"
    "a ! 3 \<noteq> 0 \<Longrightarrow> x_args (select_prepare E w this a 1 (init_locals a g)) ! 3 = OwnBuf (fd_set_bytes (k_except s))"
    and inv: "select_inv (under_of E (fdt w) cage) (\<lambda>v. a ! 1 \<noteq> 0 \<and> fd_isset v (read_fd_set E w True cage (a ! 1)))
       (\<lambda>v. a ! 2 \<noteq> 0 \<and> fd_isset v (read_fd_set E w True cage (a ! 2)))
       (\<lambda>v. a ! 3 \<noteq> 0 \<and> fd_isset v (read_fd_set E w True cage (a ! 3))) n s"
    using select_prepared [OF assms(3) refl, of E w this g] unfolding assms(5,6) by blast
  let ?x = "select_prepare E w this a 1 (init_locals a g)"
  define c where "c = \<lparr>callnumber = as_u32 SYS_SELECT, self_cageid = this, target_cageid = g ! 0, call_args = x_args ?x, call_cages = x_cages ?x\<rparr>"
  define left where "left = (\<lambda>i. fd_set_of (ge_out E (hist w) c i))"
  define K where "K = (\<lambda>i :: nat. if i = 1 then k_read s else if i = 2 then k_write s else k_except s)"
  define B where "B = (\<lambda>i. select_back s True (left i))"
  have len: "length (K i) = FD_SET_WORDS" for i using inv by (simp add: select_inv_def K_def FD_SET_WORDS_def FD_SETSIZE_def)
  have args: "call_args c ! i = OwnBuf (fd_set_bytes (K i))" if "i \<in> {1, 2, 3}" "a ! i \<noteq> 0" for i
    using that ar by (auto simp: c_def K_def)
  have nr: "callnumber c = SYS_SELECT" by (simp add: c_def as_u32_def)
  have subset: "fd_isset u (K i)" if "i \<in> {1, 2, 3}" "a ! i \<noteq> 0" "fd_isset u (left i)" for i u
    using assms(4) nr args [OF that(1,2)] that(3) fd_set_of_bytes [OF len] unfolding select_reports_def left_def by metis
  have ks: "fd_isset u (K i) \<longleftrightarrow> (\<exists>v < n. (a ! i \<noteq> 0 \<and> fd_isset v (read_fd_set E w True cage (a ! i))) \<and> under_of E (fdt w) cage v = Some u)"
    if "i \<in> {1, 2, 3}" for i u
    using that inv unfolding select_inv_def K_def by auto
  have maps: "set_maps_back E w cage n (a ! i) (K i) (left i) (B i)" if "i \<in> {1, 2, 3}" "a ! i \<noteq> 0" for i
    unfolding B_def by (rule set_maps_backI [OF inv len ks [OF that(1)]]) (use that subset assms(7) in auto)
  have ap: "apply_specs E SYS_SELECT this a SELECT_FDS (init_locals a g) w = Some (Inr (?x, w))"
    by (simp add: SELECT_FDS_def apply_spec_def Let_def)
  have r: "ret = ge_sys E (hist w) c" and fin: "finish_select E ?x (ge_out E (hist w) c) (log_event (Threei c) w) = Some w'"
    using assms(1,2) s unfolding fd_translation_handler_impl_def ap
    by (auto simp: c_def Let_def finish_pipe_def finish_socketpair_def finish_poll_def bind_eq_Some_conv split: if_splits)
  have "hist w' = hist w @ Threei c # concat (map (\<lambda>i. if a ! i = 0 then [] else [CopyOut cage (a ! i) (fd_set_bytes (B i))]) [1, 2, 3])"
    using fin s(1) hv
    by (auto simp: finish_select_def Let_def write_fd_set_def copy_back_def B_def left_def log_event_def bind_eq_Some_conv split: if_splits)
  then show ?thesis using r nr args maps unfolding left_def by blast
qed

section \<open>poll\<close>

text \<open>The array \<open>poll\<close> writes back to the cage has the events of the runtime and the cage's own
  descriptors, in order.\<close>

theorem poll_restores:
  assumes "x_poll x = Some (ptr, cage, orig)" "orig \<noteq> []" "\<forall>p \<in> set orig. pollfd_ok p" "\<forall>p \<in> set new. pollfd_ok p"
    "length new = length orig" "out 0 = pollfds_bytes new" "finish_poll E x out w = Some w'"
  shows "\<exists>bs. hist w' = hist w @ [CopyOut cage ptr bs] \<and> map pf_fd (pollfds_of (length orig) bs) = map pf_fd orig \<and>
    map pf_revents (pollfds_of (length orig) bs) = map pf_revents new"
proof -
  let ?ps = "restore_pollfds new orig"
  have l: "length ?ps = length orig" using assms(5) by (simp add: restore_pollfds_def)
  have o: "pollfds_of (length orig) (out 0) = new" using pollfds_of_bytes [OF assms(4)] assms(5,6) by simp
  have "\<forall>p \<in> set ?ps. pollfd_ok p"
  proof
    fix p assume "p \<in> set ?ps"
    then obtain q r where "q \<in> set new" "r \<in> set orig" "p = q\<lparr>pf_fd := pf_fd r\<rparr>"
      by (auto simp: restore_pollfds_def dest: set_zip_leftD set_zip_rightD)
    then show "pollfd_ok p" using assms(3,4) by (auto simp: pollfd_ok_def)
  qed
  then have d: "pollfds_of (length orig) (pollfds_bytes ?ps) = ?ps" using pollfds_of_bytes l by fastforce
  have "map pf_fd ?ps = map pf_fd orig" "map pf_revents ?ps = map pf_revents new" using assms(5)
    by (auto simp: restore_pollfds_def intro!: nth_equalityI)
  moreover have "hist w' = hist w @ [CopyOut cage ptr (pollfds_bytes ?ps)]"
    using assms(1,2,7) o by (auto simp: finish_poll_def copy_back_def split: if_splits)
  ultimately show ?thesis using d by auto
qed

section \<open>Descriptor arguments\<close>

text \<open>The kinds of a specification whose argument is a descriptor that must be mapped.\<close>

definition DESCRIPTOR_KINDS :: "fd_arg_kind list" where
  "DESCRIPTOR_KINDS = [Fd, DirFd, OldFd, FcntlFd, EPFD]"

text \<open>
  The value the runtime gets for such an argument: the descriptor the virtual one stands for, except
  that the working directory of a path call and the missing file of an anonymous mapping are passed on.
\<close>

definition fd_arg_ok :: "'ft grate_env \<Rightarrow> 'ft \<Rightarrow> nat \<Rightarrow> nat list \<Rightarrow> nat list \<Rightarrow> nat \<Rightarrow> fd_arg_kind \<Rightarrow> sysarg \<Rightarrow> bool" where
  "fd_arg_ok E ft nr a g i k v \<longleftrightarrow>
     (if k = DirFd \<and> a ! i = 2 ^ 64 - 100 \<or> (k = Fd \<or> k = DirFd) \<and> nr = SYS_MMAP \<and> a ! i = 2 ^ 64 - 1 then v = Num (a ! i)
      else \<exists>e. translate_virtual_fd (ge_fd E) ft (g ! i) (a ! i) = Some e \<and> v = Num (underfd e))"

definition specs_ok :: "'ft grate_env \<Rightarrow> 'ft \<Rightarrow> nat \<Rightarrow> nat list \<Rightarrow> nat list \<Rightarrow> fd_arg_spec list \<Rightarrow> sysarg list \<Rightarrow> bool" where
  "specs_ok E ft nr a g specs vs \<longleftrightarrow>
     (\<forall>(i, k) \<in> set specs. k \<in> set DESCRIPTOR_KINDS \<longrightarrow> fd_arg_ok E ft nr a g i k (vs ! i)) \<and>
     (nr \<notin> {SYS_SELECT, SYS_POLL, SYS_PPOLL, SYS_SOCKETPAIR} \<longrightarrow>
        (\<forall>i < 6. (\<forall>k \<in> set DESCRIPTOR_KINDS. (i, k) \<notin> set specs) \<longrightarrow> vs ! i = Num (a ! i)))"

definition SPEC_LISTS :: "fd_arg_spec list list" where
  "SPEC_LISTS =
     [FD_ARG_1, FD_ARG_5, DIRFD_ARG_1, CREATION, CREATION_DIRFD_1_FLAG_3, CREATION_FLAG_1, CREATION_FLAG_2, CREATION_FD_1,
      CREATION_FD_1_FLAG_4, OLD_FD_1_NEW_FD_2, OLD_FD_1_NEW_FD_2_FLAG, FCNTL_FD_1_FLAG_2, SOCKPAIR_SPEC, POLL_1, EPOLL_1_FD_3,
      PIPE_FD, PIPE_FD_FLAG, SELECT_FDS]"

lemma table_specs:
  "\<forall>(nr, specs) \<in> set FD_HANDLER_TABLE. specs \<in> set SPEC_LISTS \<and> nr < 2 ^ 32 \<and> (nr = SYS_CLOSE \<longrightarrow> specs = FD_ARG_1) \<and>
     (nr = SYS_MMAP \<longrightarrow> specs = FD_ARG_5) \<and>
     (nr \<notin> {SYS_SELECT, SYS_POLL, SYS_PPOLL, SYS_SOCKETPAIR} \<longrightarrow> specs \<notin> {SELECT_FDS, POLL_1, SOCKPAIR_SPEC})"
  unfolding FD_HANDLER_TABLE_def SPEC_LISTS_def by (simp add: spec_defs)

text \<open>The kinds that change their argument, and the specifications the induction handles.\<close>

definition CHANGING_KINDS :: "fd_arg_kind list" where
  "CHANGING_KINDS = DESCRIPTOR_KINDS @ [SOCKPAIR, POLLFD]"

definition plain_spec :: "nat \<Rightarrow> fd_arg_spec \<Rightarrow> bool" where
  "plain_spec nr s \<longleftrightarrow> fst s < 6 \<and> snd s \<noteq> SELECTFD \<and> (snd s = FcntlFd \<longrightarrow> fst s = 0) \<and> (snd s = EPFD \<longrightarrow> nr \<noteq> SYS_CLOSE)"

definition changed :: "fd_arg_spec list \<Rightarrow> nat list" where
  "changed specs = map fst (filter (\<lambda>s. snd s \<in> set CHANGING_KINDS) specs)"

lemma apply_spec_err: "apply_spec E nr this a spec x w = Some (Inl r) \<Longrightarrow> r = (-9, w)"
  by (cases "snd spec") (auto simp: apply_spec_def Let_def split: option.splits if_splits)

lemma apply_spec_args:
  assumes "apply_spec E nr this a (i, k) x w = Some (Inr (x', w'))" "plain_spec nr (i, k)" "length (x_args x) = 6"
  shows "w' = w" "length (x_args x') = 6"
    "k \<notin> set CHANGING_KINDS \<Longrightarrow> x_args x' = x_args x \<and> x_cages x' = x_cages x"
    "j \<noteq> i \<Longrightarrow> x_args x' ! j = x_args x ! j \<and> x_cages x' ! j = x_cages x ! j"
    "k \<in> set DESCRIPTOR_KINDS \<Longrightarrow> x_args x ! i = Num (a ! i) \<Longrightarrow> x_cages x ! i = g ! i \<Longrightarrow> fd_arg_ok E (fdt w) nr a g i k (x_args x' ! i)"
proof -
  have i: "i < length (x_args x)" "k = FcntlFd \<longrightarrow> i = 0" "k = EPFD \<longrightarrow> nr \<noteq> SYS_CLOSE" "k \<noteq> SELECTFD"
    using assms(2,3) by (auto simp: plain_spec_def)
  show "w' = w" "length (x_args x') = 6" using assms(1,3) i
    by (cases k; auto simp: apply_spec_def set_arg_def Let_def split: option.splits if_splits)+
  show "k \<notin> set CHANGING_KINDS \<Longrightarrow> x_args x' = x_args x \<and> x_cages x' = x_cages x" using assms(1) i(4)
    by (cases k) (auto simp: apply_spec_def CHANGING_KINDS_def DESCRIPTOR_KINDS_def Let_def)
  show "j \<noteq> i \<Longrightarrow> x_args x' ! j = x_args x ! j \<and> x_cages x' ! j = x_cages x ! j" using assms(1) i
    by (cases k) (auto simp: apply_spec_def set_arg_def Let_def split: option.splits if_splits)
  show "k \<in> set DESCRIPTOR_KINDS \<Longrightarrow> x_args x ! i = Num (a ! i) \<Longrightarrow> x_cages x ! i = g ! i \<Longrightarrow> fd_arg_ok E (fdt w) nr a g i k (x_args x' ! i)"
    using assms(1) i
    by (cases k) (auto simp: apply_spec_def set_arg_def Let_def translate_fd_arg_def fd_arg_ok_def DESCRIPTOR_KINDS_def split: option.splits if_splits)
qed

lemma apply_specs_err:
  assumes "apply_specs E nr this a specs x w = Some (Inl r)" "\<forall>s \<in> set specs. plain_spec nr s" "length (x_args x) = 6"
  shows "r = (-9, w)"
  using assms
proof (induction specs arbitrary: x)
  case (Cons s specs)
  obtain i k where s: "s = (i, k)" by (cases s)
  from Cons.prems(1) consider "apply_spec E nr this a s x w = Some (Inl r)"
    | x' w' where "apply_spec E nr this a s x w = Some (Inr (x', w'))" "apply_specs E nr this a specs x' w' = Some (Inl r)"
    by (auto split: option.splits sum.splits)
  then show ?case
  proof cases
    case 1
    then show ?thesis by (rule apply_spec_err)
  next
    case (2 x' w')
    have "w' = w" "length (x_args x') = 6" using apply_spec_args(1,2) [of E nr this a i k x w x' w'] 2(1) Cons.prems(2,3) s by simp_all
    then show ?thesis using Cons.IH 2(2) Cons.prems(2) by simp
  qed
qed simp

lemma apply_specs_args:
  assumes "apply_specs E nr this a specs x w = Some (Inr (x', w'))" "\<forall>s \<in> set specs. plain_spec nr s" "length (x_args x) = 6"
    "distinct (changed specs)" "\<forall>i \<in> set (changed specs). x_args x ! i = Num (a ! i) \<and> x_cages x ! i = g ! i"
  shows "w' = w \<and> (\<forall>(i, k) \<in> set specs. k \<in> set DESCRIPTOR_KINDS \<longrightarrow> fd_arg_ok E (fdt w) nr a g i k (x_args x' ! i)) \<and>
    (\<forall>i. i \<notin> set (changed specs) \<longrightarrow> x_args x' ! i = x_args x ! i)"
  using assms
proof (induction specs arbitrary: x)
  case (Cons s specs)
  obtain i k where s: "s = (i, k)" by (cases s)
  obtain x1 w1 where 1: "apply_spec E nr this a (i, k) x w = Some (Inr (x1, w1))" "apply_specs E nr this a specs x1 w1 = Some (Inr (x', w'))"
    using Cons.prems(1) s by (auto split: option.splits sum.splits)
  have p: "plain_spec nr (i, k)" using Cons.prems(2) s by simp
  note st = apply_spec_args [OF 1(1) p Cons.prems(3)]
  have ch: "changed (s # specs) = (if k \<in> set CHANGING_KINDS then i # changed specs else changed specs)" by (simp add: changed_def s)
  have fresh: "x_args x1 ! j = x_args x ! j \<and> x_cages x1 ! j = x_cages x ! j" if "j \<in> set (changed specs)" for j
    using that st(3) st(4) [of j] Cons.prems(4) ch by (cases "k \<in> set CHANGING_KINDS") auto
  have IH: "w' = w \<and> (\<forall>(i, k) \<in> set specs. k \<in> set DESCRIPTOR_KINDS \<longrightarrow> fd_arg_ok E (fdt w) nr a g i k (x_args x' ! i)) \<and>
    (\<forall>i. i \<notin> set (changed specs) \<longrightarrow> x_args x' ! i = x_args x1 ! i)"
    using Cons.IH [of x1] 1(2) st(1,2) Cons.prems(2,4,5) fresh ch by (auto split: if_splits)
  have "fd_arg_ok E (fdt w) nr a g i k (x_args x' ! i)" if k: "k \<in> set DESCRIPTOR_KINDS"
  proof -
    have "k \<in> set CHANGING_KINDS" using k by (simp add: CHANGING_KINDS_def)
    then have "x_args x ! i = Num (a ! i)" "x_cages x ! i = g ! i" "i \<notin> set (changed specs)" using Cons.prems(4,5) ch by auto
    then show ?thesis using st(5) [OF k] IH by simp
  qed
  moreover have "x_args x' ! j = x_args x ! j" if "j \<notin> set (changed (s # specs))" for j
    using that IH st(3) st(4) [of j] ch by (cases "k \<in> set CHANGING_KINDS") auto
  ultimately show ?case using IH s by auto
qed simp

lemma spec_lists_plain:
  assumes "specs \<in> set SPEC_LISTS" "specs \<noteq> SELECT_FDS" "nr = SYS_CLOSE \<longrightarrow> specs = FD_ARG_1"
  shows "\<forall>s \<in> set specs. plain_spec nr s" "distinct (changed specs)" "set (changed specs) \<subseteq> {..<6}"
proof -
  have "\<forall>specs \<in> set SPEC_LISTS. distinct (changed specs)"
    by (simp add: SPEC_LISTS_def spec_defs changed_def CHANGING_KINDS_def DESCRIPTOR_KINDS_def)
  then show "distinct (changed specs)" using assms(1) by blast
  have "\<forall>specs \<in> set SPEC_LISTS. specs \<noteq> SELECT_FDS \<longrightarrow> specs \<noteq> EPOLL_1_FD_3 \<longrightarrow> (\<forall>s \<in> set specs. plain_spec nr s)"
    by (simp add: SPEC_LISTS_def spec_defs plain_spec_def)
  moreover have "specs = EPOLL_1_FD_3 \<Longrightarrow> \<forall>s \<in> set specs. plain_spec nr s" using assms(3) by (auto simp: spec_defs plain_spec_def)
  ultimately show p: "\<forall>s \<in> set specs. plain_spec nr s" using assms(1,2) by blast
  then show "set (changed specs) \<subseteq> {..<6}" by (auto simp: changed_def plain_spec_def)
qed

section \<open>The whole handler\<close>

text \<open>A step that only adds to the history.\<close>

definition extends :: "'ft grate_world \<Rightarrow> 'ft grate_world \<Rightarrow> bool" where
  "extends w w' \<longleftrightarrow> (\<exists>es. hist w' = hist w @ es)"

lemma extends_refl [simp]: "extends w w"
  by (simp add: extends_def)

lemma extends_fdt [simp]: "extends (w\<lparr>fdt := ft\<rparr>) w' = extends w w'" "extends w (w'\<lparr>fdt := ft\<rparr>) = extends w w'"
  by (simp_all add: extends_def)

lemma extends_trans: "extends w w1 \<Longrightarrow> extends w1 w2 \<Longrightarrow> extends w w2"
  by (auto simp: extends_def)

lemma copy_back_extends: "copy_back E w c p bs = Some w' \<Longrightarrow> extends w w'"
  by (auto simp: copy_back_def extends_def split: if_splits)

lemma create_pair_extends: "create_pair E w fc ce k p c = Some w' \<Longrightarrow> extends w w'"
  by (auto simp: create_pair_def extends_def copy_back_def split: bind_splits if_splits)

lemma finish_extends:
  "finish_pipe E x w = Some w' \<Longrightarrow> extends w w'" "finish_socketpair E c x out w = Some w' \<Longrightarrow> extends w w'"
  "finish_poll E x out w = Some w' \<Longrightarrow> extends w w'" "finish_select E x out w = Some w' \<Longrightarrow> extends w w'"
  by (auto simp: finish_pipe_def finish_socketpair_def finish_poll_def finish_select_def write_fd_set_def Let_def
      split: option.splits bind_splits if_splits dest!: create_pair_extends copy_back_extends intro: extends_trans)

lemma handler_cases:
  assumes "fd_translation_handler_impl nr specs E w this a g = Some (ret, w')"
  obtains (err) "apply_specs E nr this a specs (init_locals a g) w = Some (Inl (ret, w'))"
    | (call) x w1 c where "apply_specs E nr this a specs (init_locals a g) w = Some (Inr (x, w1))"
      "c = \<lparr>callnumber = as_u32 nr, self_cageid = this, target_cageid = g ! 0, call_args = x_args x, call_cages = x_cages x\<rparr>"
      "extends (log_event (Threei c) w1) w'"
proof -
  consider r where "apply_specs E nr this a specs (init_locals a g) w = Some (Inl r)"
    | x w1 where "apply_specs E nr this a specs (init_locals a g) w = Some (Inr (x, w1))"
    using assms by (auto simp: fd_translation_handler_impl_def split: option.splits sum.splits)
  then show thesis
  proof cases
    case (1 r)
    then show ?thesis using assms err by (simp add: fd_translation_handler_impl_def)
  next
    case (2 x w1)
    let ?c = "\<lparr>callnumber = as_u32 nr, self_cageid = this, target_cageid = g ! 0, call_args = x_args x, call_cages = x_cages x\<rparr>"
    have "extends (log_event (Threei ?c) w1) w'" using assms
      by (auto simp: fd_translation_handler_impl_def 2 Let_def split: if_splits option.splits bind_splits
          dest!: finish_extends intro: extends_trans [OF extends_trans [OF extends_trans]])
    then show ?thesis using call [OF 2 refl] by blast
  qed
qed

text \<open>C11. Descriptor arguments reach the runtime translated: for every call of the table the handler either
  reports a bad descriptor without doing anything, or dispatches the call with every scalar argument of one of the kinds
  \<open>Fd\<close>, \<open>DirFd\<close>, \<open>OldFd\<close>, \<open>FcntlFd\<close> and \<open>EPFD\<close> replaced by the descriptor the table maps it to (the
  working directory and the missing file of an anonymous mapping excepted), and, apart from \<open>select\<close>, \<open>poll\<close>,
  \<open>ppoll\<close> and \<open>socketpair\<close>, with all other arguments as the cage passed them.  Not covered are the target of
  \<open>dup2\<close> and \<open>dup3\<close> (kind \<open>NewFd\<close>), which is passed on untranslated (\<open>dup2_target_untranslated\<close>), and
  the descriptors inside the arrays of \<open>poll\<close> and the sets of \<open>select\<close>, which \<open>poll_restores\<close> and
  \<open>select_maps_back\<close> are about.\<close>

theorem fd_args_translated:
  assumes "(nr, specs) \<in> set FD_HANDLER_TABLE" "length a = 6" "length g = 6"
    "fd_translation_handler_impl nr specs E w this a g = Some (ret, w')"
  shows "ret = -9 \<and> w' = w \<or>
    (\<exists>c es. hist w' = hist w @ Threei c # es \<and> callnumber c = nr \<and> target_cageid c = g ! 0 \<and> specs_ok E (fdt w) nr a g specs (call_args c))"
proof -
  have t: "specs \<in> set SPEC_LISTS" "nr < 2 ^ 32" "nr = SYS_CLOSE \<longrightarrow> specs = FD_ARG_1"
    "nr \<notin> {SYS_SELECT, SYS_POLL, SYS_PPOLL, SYS_SOCKETPAIR} \<longrightarrow> specs \<notin> {SELECT_FDS, POLL_1, SOCKPAIR_SPEC}"
    using bspec [OF table_specs assms(1)] by simp_all
  let ?x = "init_locals a g"
  have i: "length (x_args ?x) = 6" "\<And>i. i < 6 \<Longrightarrow> x_args ?x ! i = Num (a ! i) \<and> x_cages ?x ! i = g ! i"
    using assms(2) by (simp_all add: init_locals_def)
  show ?thesis
  proof (cases "specs = SELECT_FDS")
    case True
    then have sel: "apply_specs E nr this a specs ?x w = Some (Inr (select_prepare E w this a 1 ?x, w))"
      by (simp add: spec_defs apply_spec_def Let_def)
    with assms(4) show ?thesis
    proof (cases rule: handler_cases)
      case (call x w1 c)
      then show ?thesis using t True sel
        by (auto simp: extends_def specs_ok_def spec_defs DESCRIPTOR_KINDS_def)
    qed simp
  next
    case False
    note p = spec_lists_plain [OF t(1) False t(3)]
    from assms(4) show ?thesis
    proof (cases rule: handler_cases)
      case err
      then show ?thesis using apply_specs_err [OF _ p(1) i(1)] by blast
    next
      case (call x w1 c)
      have s: "w1 = w \<and> (\<forall>(i, k) \<in> set specs. k \<in> set DESCRIPTOR_KINDS \<longrightarrow> fd_arg_ok E (fdt w) nr a g i k (x_args x ! i)) \<and>
        (\<forall>i. i \<notin> set (changed specs) \<longrightarrow> x_args x ! i = x_args ?x ! i)"
        using p(3) i(2) by (intro apply_specs_args [OF call(1) p(1) i(1) p(2)]) auto
      have "x_args x ! j = Num (a ! j)" if "nr \<notin> {SYS_SELECT, SYS_POLL, SYS_PPOLL, SYS_SOCKETPAIR}" "j < 6"
        "\<forall>k \<in> set DESCRIPTOR_KINDS. (j, k) \<notin> set specs" for j
      proof -
        have "\<forall>specs \<in> set SPEC_LISTS. specs \<notin> {SELECT_FDS, POLL_1, SOCKPAIR_SPEC} \<longrightarrow> (\<forall>(i, k) \<in> set specs. k \<notin> {SOCKPAIR, POLLFD})"
          by (simp add: SPEC_LISTS_def spec_defs)
        then have "\<forall>(i, k) \<in> set specs. k \<notin> {SOCKPAIR, POLLFD}" using t(1,4) that(1) by blast
        then have "j \<notin> set (changed specs)" using that(3) by (auto simp: changed_def CHANGING_KINDS_def)
        then show ?thesis using s i(2) that(2) by simp
      qed
      then have "specs_ok E (fdt w) nr a g specs (x_args x)" using s unfolding specs_ok_def by blast
      then show ?thesis using call s t(2) by (auto simp: extends_def)
    qed
  qed
qed

section \<open>New descriptors\<close>

lemma select_prepare_flags [simp]:
  "should_create_vfd (select_prepare E w this a i x) = should_create_vfd x" "should_dup2 (select_prepare E w this a i x) = should_dup2 x"
  by (simp_all add: select_prepare_def Let_def)

lemma apply_spec_flags:
  assumes "apply_spec E nr this a (i, k) x w = Some (Inr (x', w'))"
  shows "should_create_vfd x \<or> k = CREAT \<Longrightarrow> should_create_vfd x'" "should_dup2 x' \<longleftrightarrow> should_dup2 x \<or> k = NewFd"
  using assms by (cases k; auto simp: apply_spec_def set_arg_def Let_def split: option.splits if_splits)+

lemma apply_specs_flags:
  assumes "apply_specs E nr this a specs x w = Some (Inr (x', w'))"
  shows "(should_create_vfd x \<or> CREAT \<in> snd ` set specs \<longrightarrow> should_create_vfd x') \<and>
    (should_dup2 x' \<longleftrightarrow> should_dup2 x \<or> NewFd \<in> snd ` set specs)"
  using assms
proof (induction specs arbitrary: x w)
  case (Cons s specs)
  obtain i k where s: "s = (i, k)" by (cases s)
  obtain x1 w1 where 1: "apply_spec E nr this a (i, k) x w = Some (Inr (x1, w1))" "apply_specs E nr this a specs x1 w1 = Some (Inr (x', w'))"
    using Cons.prems s by (auto split: option.splits sum.splits)
  show ?case using Cons.IH [OF 1(2)] apply_spec_flags [OF 1(1)] s by auto
qed simp

lemma single_handler:
  assumes "nr \<noteq> SYS_MMAP" "nr \<noteq> SYS_CLOSE" "length a = 6"
  shows "fd_translation_handler_impl nr FD_ARG_1 E w this a g =
    (case translate_virtual_fd (ge_fd E) (fdt w) (g ! 0) (a ! 0) of
       None \<Rightarrow> Some (-9, w)
     | Some e \<Rightarrow>
         let c = \<lparr>callnumber = as_u32 nr, self_cageid = this, target_cageid = g ! 0, call_args = (map Num a)[0 := Num (underfd e)], call_cages = g\<rparr>
         in Some (ge_sys E (hist w) c, log_event (Threei c) w))"
proof -
  have "a \<noteq> []" using assms(3) by auto
  then show ?thesis using assms(1,2)
    by (simp add: fd_translation_handler_impl_def FD_ARG_1_def apply_spec_def init_locals_def set_arg_def translate_fd_arg_def
        finish_pipe_def finish_socketpair_def finish_poll_def finish_select_def Let_def split: option.split)
qed

lemma create_lists: "(nr, specs) \<in> set FD_HANDLER_TABLE \<Longrightarrow> CREAT \<in> snd ` set specs \<Longrightarrow> nr \<noteq> SYS_CLOSE \<and> NewFd \<notin> snd ` set specs"
proof -
  assume t: "(nr, specs) \<in> set FD_HANDLER_TABLE" and c: "CREAT \<in> snd ` set specs"
  have "\<forall>specs \<in> set SPEC_LISTS. CREAT \<in> snd ` set specs \<longrightarrow> specs \<noteq> FD_ARG_1 \<and> NewFd \<notin> snd ` set specs"
    by (simp add: SPEC_LISTS_def spec_defs)
  then have "specs \<noteq> FD_ARG_1 \<and> NewFd \<notin> snd ` set specs" using bspec [OF table_specs t] c by simp
  then show ?thesis using bspec [OF table_specs t] by auto
qed

lemma created_entry:
  assumes "(nr, specs) \<in> set FD_HANDLER_TABLE" "CREAT \<in> snd ` set specs" "length a = 6"
    "fd_translation_handler_impl nr specs E w this a g = Some (ret, w')" "0 \<le> ret"
  obtains c k ce vfd where "hist w' = hist w @ [Threei c]" "k = ge_sys E (hist w) c" "0 \<le> k"
    "get_unused_virtual_fd (ge_fd E) (fdt w) (g ! 0) FDKIND_KERNEL (as_u64 k) ce 0 = Some (vfd, fdt w')" "ret = as_i32 (int vfd)"
proof -
  have cl: "nr \<noteq> SYS_CLOSE" "NewFd \<notin> snd ` set specs" using create_lists [OF assms(1,2)] by simp_all
  have t: "specs \<in> set SPEC_LISTS" "nr = SYS_CLOSE \<longrightarrow> specs = FD_ARG_1" using bspec [OF table_specs assms(1)] by simp_all
  have "\<forall>specs \<in> set SPEC_LISTS. CREAT \<in> snd ` set specs \<longrightarrow> specs \<noteq> SELECT_FDS" by (simp add: SPEC_LISTS_def spec_defs)
  then have ns: "specs \<noteq> SELECT_FDS" using t(1) assms(2) by blast
  note p = spec_lists_plain [OF t(1) ns t(2)]
  have l: "length (x_args (init_locals a g)) = 6" using assms(3) by (simp add: init_locals_def)
  obtain x w1 where x: "apply_specs E nr this a specs (init_locals a g) w = Some (Inr (x, w1))"
    using assms(4,5) apply_specs_err [OF _ p(1) l, of E this a w "(ret, w')"]
    by (cases rule: handler_cases [OF assms(4)]) auto
  have "\<forall>i \<in> set (changed specs). x_args (init_locals a g) ! i = Num (a ! i) \<and> x_cages (init_locals a g) ! i = g ! i"
    using p(3) assms(3) by (auto simp: init_locals_def)
  then have "w1 = w" using apply_specs_args [OF x p(1) l p(2)] by blast
  have f: "should_create_vfd x" "\<not> should_dup2 x" using apply_specs_flags [OF x] assms(2) cl(2) by (auto simp: init_locals_def)
  show ?thesis using assms(4,5) x f cl(1) \<open>w1 = w\<close> that
    by (auto simp: fd_translation_handler_impl_def Let_def split: if_splits option.splits)
qed

text \<open>C12. A descriptor a handler creates stands for the descriptor of the runtime: it was free, the table
  is otherwise unchanged, and a later call on it reaches the runtime with exactly the descriptor that
  the creating call returned.\<close>

theorem created_then_used:
  assumes "fdtables_ok (ge_fd E)" "(nr, specs) \<in> set FD_HANDLER_TABLE" "CREAT \<in> snd ` set specs" "length a = 6" "length b = 6"
    "fd_translation_handler_impl nr specs E w this a g = Some (ret, w')" "0 \<le> ret"
    "\<And>ft c k u e p fd ft'. get_unused_virtual_fd (ge_fd E) ft c k u e p = Some (fd, ft') \<Longrightarrow> fd < 2 ^ 31"
    "b ! 0 = nat ret" "h ! 0 = g ! 0" "nr2 \<noteq> SYS_MMAP" "nr2 \<noteq> SYS_CLOSE"
    "fd_translation_handler_impl nr2 FD_ARG_1 E w' this b h = Some (ret2, w2)"
  shows "\<exists>c k ce c2. hist w' = hist w @ [Threei c] \<and> k = ge_sys E (hist w) c \<and> 0 \<le> k \<and>
    translate_virtual_fd (ge_fd E) (fdt w) (g ! 0) (nat ret) = None \<and>
    fd_maps (ge_fd E) (fdt w) (g ! 0) (nat ret) (Some (mk_entry FDKIND_KERNEL (as_u64 k) ce 0)) (fdt w') \<and>
    hist w2 = hist w' @ [Threei c2] \<and> ret2 = ge_sys E (hist w') c2 \<and> call_args c2 = (map Num b)[0 := Num (as_u64 k)]"
proof -
  obtain c k ce vfd where c: "hist w' = hist w @ [Threei c]" "k = ge_sys E (hist w) c" "0 \<le> k"
    "get_unused_virtual_fd (ge_fd E) (fdt w) (g ! 0) FDKIND_KERNEL (as_u64 k) ce 0 = Some (vfd, fdt w')" "ret = as_i32 (int vfd)"
    using created_entry [OF assms(2,3,4,6,7)] .
  have v: "nat ret = vfd" using c(5) assms(8) [OF c(4)] by simp
  have m: "translate_virtual_fd (ge_fd E) (fdt w) (g ! 0) vfd = None"
    "fd_maps (ge_fd E) (fdt w) (g ! 0) vfd (Some (mk_entry FDKIND_KERNEL (as_u64 k) ce 0)) (fdt w')"
    using fd_alloc_law [OF assms(1) c(4)] by simp_all
  have "translate_virtual_fd (ge_fd E) (fdt w') (h ! 0) (b ! 0) = Some (mk_entry FDKIND_KERNEL (as_u64 k) ce 0)"
    using fd_mapsD [OF m(2)] assms(9,10) v by simp
  then obtain c2 where c2: "hist w2 = hist w' @ [Threei c2]" "ret2 = ge_sys E (hist w') c2" "call_args c2 = (map Num b)[0 := Num (as_u64 k)]"
    using assms(13) single_handler [OF assms(11,12,5), of E w' this h] by (auto simp: Let_def log_event_def)
  show ?thesis
    using c(1-3) m c2 unfolding v by (intro exI [of _ c] exI [of _ k] exI [of _ ce] exI [of _ c2]) simp
qed

section \<open>A concrete table\<close>

text \<open>A runtime in which every call returns 5 and every buffer of a cage holds the descriptor set with 0; descriptor 0 of cage 5 is the runtime's descriptor 3.\<close>

definition fd_env :: "fd_map grate_env" where
  "fd_env =
     \<lparr>ge_cage = 7, ge_sys = \<lambda>h c. 5, ge_out = \<lambda>h c i. [], ge_copystr = \<lambda>h c p n. None,
      ge_copymem = \<lambda>h c p n. Some (fd_set_bytes (fd_set_bit 0 fd_zero)),
      ge_copyout = \<lambda>h c p bs. True, ge_register = \<lambda>h c n g. 0, ge_fd = map_fdtables,
      ge_unused_errno = \<lambda>ft c. 24, ge_specific_errno = \<lambda>ft c fd. 9\<rparr>"

definition fd_world :: "fd_map grate_world" where
  "fd_world = \<lparr>fdt = [((5, 0), mk_entry 1 3 False 0)], hist = []\<rparr>"

definition six :: "nat \<Rightarrow> nat list" where
  "six n = [n, n, n, n, n, n]"

lemma six_simps [simp]: "length (six n) = 6" "six n ! 0 = n" "six n ! Suc 0 = n"
  by (simp_all add: six_def)

lemma fd_world_entry: "translate_virtual_fd (ge_fd fd_env) (fdt fd_world) 5 0 = Some (mk_entry 1 3 False 0)"
  by (simp add: fd_env_def fd_world_def map_fdtables_def)

lemma fd_world_alloc:
  "\<exists>ft. get_unused_virtual_fd (ge_fd fd_env) (fdt fd_world) 5 k u e p = Some (1, ft)"
proof -
  have "first_free (fdt fd_world) 5 0 8 = Some 1" by (simp add: fd_world_def eval_nat_numeral)
  then show ?thesis by (simp add: fd_env_def map_fdtables_def)
qed

theorem fd_args_translated_witness:
  "\<exists>ret w'. fd_translation_handler_impl SYS_READ FD_ARG_1 fd_env fd_world 7 (six 0) (six 5) = Some (ret, w') \<and>
     (\<exists>c es. hist w' = hist fd_world @ Threei c # es \<and> call_args c ! 0 = Num 3)"
proof -
  obtain w' where h: "fd_translation_handler_impl SYS_READ FD_ARG_1 fd_env fd_world 7 (six 0) (six 5) = Some (5, w')"
    using fd_world_entry by (simp add: single_handler Let_def) (simp add: fd_env_def)
  have "(SYS_READ, FD_ARG_1) \<in> set FD_HANDLER_TABLE" by (simp add: FD_HANDLER_TABLE_def)
  from fd_args_translated [OF this _ _ h] obtain c es where "hist w' = hist fd_world @ Threei c # es"
    "specs_ok fd_env (fdt fd_world) SYS_READ (six 0) (six 5) FD_ARG_1 (call_args c)" by auto
  then show ?thesis using h fd_world_entry by (auto simp: specs_ok_def FD_ARG_1_def DESCRIPTOR_KINDS_def fd_arg_ok_def)
qed

theorem created_then_used_witness:
  "\<exists>ret w' ret2 w2. fd_translation_handler_impl SYS_OPEN CREATION_FLAG_2 fd_env fd_world 7 (six 0) (six 5) = Some (ret, w') \<and>
     fd_translation_handler_impl SYS_READ FD_ARG_1 fd_env w' 7 (six 1) (six 5) = Some (ret2, w2) \<and>
     (\<exists>c2. hist w2 = hist w' @ [Threei c2] \<and> call_args c2 ! 0 = Num 5)"
proof -
  obtain w' where o: "fd_translation_handler_impl SYS_OPEN CREATION_FLAG_2 fd_env fd_world 7 (six 0) (six 5) = Some (1, w')"
  proof -
    obtain ft where "get_unused_virtual_fd (ge_fd fd_env) (fdt fd_world) 5 FDKIND_KERNEL (as_u64 5) False 0 = Some (1, ft)"
      using fd_world_alloc by metis
    moreover have "ge_sys fd_env h c = 5" for h c by (simp add: fd_env_def)
    ultimately show ?thesis using that
      by (simp add: fd_translation_handler_impl_def CREATION_FLAG_2_def apply_spec_def init_locals_def log_event_def Let_def as_i32_def)
  qed
  have e: "fd_translation_handler_impl SYS_READ FD_ARG_1 fd_env w' 7 (six 1) (six 5) \<noteq> None"
    by (simp add: single_handler Let_def split: option.split)
  then obtain ret2 w2 where r: "fd_translation_handler_impl SYS_READ FD_ARG_1 fd_env w' 7 (six 1) (six 5) = Some (ret2, w2)" by auto
  have small: "\<And>ft c k u e p fd ft'. get_unused_virtual_fd (ge_fd fd_env) ft c k u e p = Some (fd, ft') \<Longrightarrow> fd < 2 ^ 31"
    using map_fdtables_small by (auto simp: fd_env_def)
  have t: "(SYS_OPEN, CREATION_FLAG_2) \<in> set FD_HANDLER_TABLE" by (simp add: FD_HANDLER_TABLE_def)
  have "\<exists>c k ce c2. hist w' = hist fd_world @ [Threei c] \<and> k = ge_sys fd_env (hist fd_world) c \<and> 0 \<le> k \<and>
    translate_virtual_fd (ge_fd fd_env) (fdt fd_world) (six 5 ! 0) (nat 1) = None \<and>
    fd_maps (ge_fd fd_env) (fdt fd_world) (six 5 ! 0) (nat 1) (Some (mk_entry FDKIND_KERNEL (as_u64 k) ce 0)) (fdt w') \<and>
    hist w2 = hist w' @ [Threei c2] \<and> ret2 = ge_sys fd_env (hist w') c2 \<and> call_args c2 = (map Num (six 1))[0 := Num (as_u64 k)]"
    by (rule created_then_used [OF _ t _ _ _ o _ small _ _ _ _ r])
      (simp_all add: CREATION_FLAG_2_def fd_env_def map_fdtables_ok)
  then show ?thesis using o r by (auto simp: fd_env_def six_def as_u64_def)
qed

text \<open>The same runtime, which reports every descriptor it is asked for.\<close>

definition select_env :: "fd_map grate_env" where
  "select_env = fd_env\<lparr>ge_out := \<lambda>h c i. case call_args c ! i of OwnBuf bs \<Rightarrow> bs | _ \<Rightarrow> []\<rparr>"

theorem select_maps_back_witness:
  "\<exists>w' c b. fd_translation_handler_impl SYS_SELECT SELECT_FDS select_env fd_world 7 [1, 100, 0, 0, 0, 0] (six 5) = Some (5, w') \<and>
     hist w' = [Threei c, CopyOut 5 100 (fd_set_bytes b)] \<and> fd_isset 0 b"
proof -
  let ?a = "[1, 100, 0, 0, 0, 0] :: nat list"
  have n: "nat (as_i32 (int (?a ! 0))) = 1" by (simp add: as_i32_def)
  have rd: "fd_isset 0 (read_fd_set select_env fd_world True 5 100)"
    by (simp add: read_fd_set_def select_env_def fd_env_def fd_set_of_bytes fd_isset_set_bit FD_SET_WORDS_def FD_SETSIZE_def fd_zero_def)
  have u: "under_of select_env (fdt fd_world) 5 0 = Some 3" using fd_world_entry
    by (simp add: under_of_def translate_fd_arg_def as_usize_def FD_SETSIZE_def select_env_def)
  have rep: "select_reports select_env" by (auto simp: select_reports_def select_env_def)
  let ?x = "select_prepare select_env fd_world 7 ?a 1 (init_locals ?a (six 5))"
  have x: "x_pipe ?x = None" "x_socketpair ?x = None" "x_poll ?x = None" "\<not> should_dup2 ?x" "\<not> should_create_vfd ?x"
    by (simp_all add: select_prepare_def init_locals_def Let_def)
  have E: "ge_sys select_env hh c = 5" "ge_copyout select_env hh cg q bs" for hh c cg q bs by (simp_all add: select_env_def fd_env_def)
  have "finish_select select_env ?x out w \<noteq> None" for out w
    using E by (simp add: finish_select_def write_fd_set_def copy_back_def Let_def split: option.split)
  then have "\<exists>w'. fd_translation_handler_impl SYS_SELECT SELECT_FDS select_env fd_world 7 ?a (six 5) = Some (5, w')"
    using x E by (simp add: fd_translation_handler_impl_def SELECT_FDS_def apply_spec_def Let_def finish_pipe_def finish_socketpair_def finish_poll_def)
      (metis option.exhaust bind.bind_lunit)
  then obtain w' where h: "fd_translation_handler_impl SYS_SELECT SELECT_FDS select_env fd_world 7 ?a (six 5) = Some (5, w')" by auto
  obtain c K B where c: "hist w' = hist fd_world @ Threei c # concat (map (\<lambda>i. if ?a ! i = 0 then [] else [CopyOut 5 (?a ! i) (fd_set_bytes (B i))]) [1, 2, 3])"
    "call_args c ! 1 = OwnBuf (fd_set_bytes (K 1))" "set_maps_back select_env fd_world 5 1 100 (K 1) (fd_set_of (ge_out select_env (hist fd_world) c 1)) (B 1)"
    using select_maps_back [OF h _ _ rep, of 1 5] n by (auto simp: six_def)
  then have "fd_set_of (ge_out select_env (hist fd_world) c 1) = K 1" by (simp add: select_env_def set_maps_back_def fd_set_of_bytes)
  then have "fd_isset 0 (B 1)" using c(3) rd u by (auto simp: set_maps_back_def)
  then show ?thesis using h c(1) by (auto simp: fd_world_def)
qed

theorem poll_restores_witness:
  "\<exists>w' bs. finish_poll fd_env ((init_locals (six 0) (six 5))\<lparr>x_poll := Some (100, 5, [\<lparr>pf_fd = 4, pf_events = 1, pf_revents = 0\<rparr>])\<rparr>)
       (\<lambda>i. pollfds_bytes [\<lparr>pf_fd = 7, pf_events = 1, pf_revents = 1\<rparr>]) fd_world = Some w' \<and>
     hist w' = [CopyOut 5 100 bs] \<and> map pf_fd (pollfds_of 1 bs) = [4] \<and> map pf_revents (pollfds_of 1 bs) = [1]"
proof -
  let ?orig = "[\<lparr>pf_fd = 4, pf_events = 1, pf_revents = 0\<rparr>]" and ?new = "[\<lparr>pf_fd = 7, pf_events = 1, pf_revents = 1\<rparr>]"
  let ?x = "(init_locals (six 0) (six 5))\<lparr>x_poll := Some (100, 5, ?orig)\<rparr>"
  obtain w' where f: "finish_poll fd_env ?x (\<lambda>i. pollfds_bytes ?new) fd_world = Some w'"
    by (simp add: finish_poll_def copy_back_def fd_env_def)
  have "\<exists>bs. hist w' = hist fd_world @ [CopyOut 5 100 bs] \<and> map pf_fd (pollfds_of (length ?orig) bs) = map pf_fd ?orig \<and>
    map pf_revents (pollfds_of (length ?orig) bs) = map pf_revents ?new"
    by (rule poll_restores [OF _ _ _ _ _ _ f]) (simp_all add: pollfd_ok_def)
  then obtain bs where "hist w' = [CopyOut 5 100 bs]" "map pf_fd (pollfds_of 1 bs) = [4]" "map pf_revents (pollfds_of 1 bs) = [1]"
    by (auto simp: fd_world_def)
  with f show ?thesis by (intro exI [of _ w'] exI [of _ bs] conjI)
qed

section \<open>Where the handlers differ from the calls they stand for\<close>

text \<open>The target of \<open>dup2\<close> is passed to the runtime as the cage named it: the runtime closes whatever
  descriptor of its own has that number.\<close>

lemma dup2_target_untranslated:
  assumes "length a = 6" "translate_virtual_fd (ge_fd E) (fdt w) (g ! 0) (a ! 0) = Some e"
    "fd_translation_handler_impl SYS_DUP2 OLD_FD_1_NEW_FD_2 E w this a g = Some (ret, w')"
  shows "\<exists>c. hist w' = hist w @ [Threei c] \<and> call_args c ! 0 = Num (underfd e) \<and> call_args c ! 1 = Num (a ! 1)"
proof -
  have "a \<noteq> []" "1 < length a" using assms(1) by auto
  then show ?thesis using assms(2,3)
    by (auto simp: fd_translation_handler_impl_def OLD_FD_1_NEW_FD_2_def apply_spec_def init_locals_def set_arg_def log_event_def Let_def
        split: if_splits option.splits)
qed

text \<open>When the table is full a descriptor the runtime has opened is not closed again.\<close>

lemma creation_leaks:
  assumes "length a = 6" "0 \<le> ge_sys E (hist w) \<lparr>callnumber = as_u32 SYS_SOCKET, self_cageid = this, target_cageid = g ! 0, call_args = map Num a, call_cages = g\<rparr>"
    "\<And>u e. get_unused_virtual_fd (ge_fd E) (fdt w) (g ! 0) FDKIND_KERNEL u e 0 = None"
  shows "\<exists>c w'. fd_translation_handler_impl SYS_SOCKET CREATION_FLAG_2 E w this a g = Some (-24, w') \<and> hist w' = hist w @ [Threei c] \<and>
    0 \<le> ge_sys E (hist w) c \<and> fdt w' = fdt w"
  using assms by (auto simp: fd_translation_handler_impl_def CREATION_FLAG_2_def apply_spec_def init_locals_def log_event_def Let_def)

text \<open>The flags of \<open>accept4\<close> are its fourth argument, but the specification looks at the fifth, so the new
  descriptor is never marked to be closed on exec because of them.\<close>

lemma accept4_flags_ignored:
  assumes "length a = 6" "a ! 4 AND 0x80000 = 0"
  shows "fd_translation_handler_impl SYS_ACCEPT4 CREATION_FD_1_FLAG_4 E w this a g = fd_translation_handler_impl SYS_ACCEPT4 CREATION_FD_1 E w this a g"
proof -
  have "a \<noteq> []" using assms(1) by auto
  with assms show ?thesis
    by (simp add: fd_translation_handler_impl_def CREATION_FD_1_FLAG_4_def CREATION_FD_1_def apply_spec_def init_locals_def set_arg_def Let_def
        split: option.split)
qed

end
