(* ===== verification/Fd_Grates.thy ===== *)
theory Fd_Grates
  imports Rust_Str Grate
begin

unbundle bit_operations_syntax

text \<open>
  The grates that keep a shadow of the descriptor tables of their cages and forward everything else: the
  write filter (\<open>write-filter-grate\<close>), the emulation of \<open>/dev/null\<close> (\<open>devnull-grate\<close>), the table
  stress test (\<open>fdtables-test-grate\<close>) and the descriptor translation (\<open>fd-translate-grate\<close>).
  A handler takes the six arguments and their cages and returns the status and the new world.
\<close>

section \<open>World, environment, forwarding\<close>

text \<open>\<open>fe_exec\<close>: the tables after \<open>empty_fds_for_exec\<close>.\<close>

record 'ft shadow_env =
  fe_g :: "'ft grate_env"
  fe_exec :: "'ft \<Rightarrow> nat \<Rightarrow> 'ft"

abbreviation fe_fd :: "'ft shadow_env \<Rightarrow> 'ft fdtables_ops" where
  "fe_fd E \<equiv> ge_fd (fe_g E)"

definition plain_call :: "nat \<Rightarrow> nat \<Rightarrow> nat \<Rightarrow> nat list \<Rightarrow> nat list \<Rightarrow> threei_call" where
  "plain_call nr self target a g =
     \<lparr>callnumber = as_u32 nr, self_cageid = self, target_cageid = target, call_args = map Num a, call_cages = g\<rparr>"

text \<open>Every error of a forwarded call becomes \<open>-1\<close>.\<close>

definition fd_forward ::
  "'ft shadow_env \<Rightarrow> ('ft, 'a) grate_world_scheme \<Rightarrow> nat \<Rightarrow> nat \<Rightarrow> nat list \<Rightarrow> nat list \<Rightarrow> int \<times> ('ft, 'a) grate_world_scheme" where
  "fd_forward E w nr calling_cage a g =
     (let c = plain_call nr (ge_cage (fe_g E)) calling_cage a g in
      (case make_threei_call (ge_sys (fe_g E) (hist w)) c of Inr r \<Rightarrow> r | Inl _ \<Rightarrow> -1,
       log_event (Threei c) w))"

definition installed :: "'ft shadow_env \<Rightarrow> nat \<Rightarrow> nat \<Rightarrow> fd_entry \<Rightarrow> ('ft, 'a) grate_world_scheme \<Rightarrow> ('ft, 'a) grate_world_scheme" where
  "installed E cage fd e w =
     (case get_specific_virtual_fd (fe_fd E) (fdt w) cage fd (fdkind e) (underfd e) (should_cloexec e) (perfdinfo e) of
        Some ft \<Rightarrow> w\<lparr>fdt := ft\<rparr> | None \<Rightarrow> w)"

definition closed :: "'ft shadow_env \<Rightarrow> nat \<Rightarrow> nat \<Rightarrow> ('ft, 'a) grate_world_scheme \<Rightarrow> ('ft, 'a) grate_world_scheme" where
  "closed E cage fd w = (case close_virtualfd (fe_fd E) (fdt w) cage fd of Some ft \<Rightarrow> w\<lparr>fdt := ft\<rparr> | None \<Rightarrow> w)"

definition annotated :: "'ft shadow_env \<Rightarrow> nat \<Rightarrow> nat \<Rightarrow> nat \<Rightarrow> ('ft, 'a) grate_world_scheme \<Rightarrow> ('ft, 'a) grate_world_scheme" where
  "annotated E cage fd p w = (case set_perfdinfo (fe_fd E) (fdt w) cage fd p of Some ft \<Rightarrow> w\<lparr>fdt := ft\<rparr> | None \<Rightarrow> w)"

text \<open>\<open>for fd in 0..3\<close>: the standard streams map to themselves.\<close>

definition std_fds :: "'ft shadow_env \<Rightarrow> nat \<Rightarrow> ('ft, 'a) grate_world_scheme \<Rightarrow> ('ft, 'a) grate_world_scheme" where
  "std_fds E cage w = fold (\<lambda>fd. installed E cage fd (mk_entry 0 fd False 0)) [0, 1, 2] w"

definition fd_preexec :: "'ft shadow_env \<Rightarrow> i32 \<Rightarrow> ('ft, 'a) grate_world_scheme \<Rightarrow> ('ft, 'a) grate_world_scheme" where
  "fd_preexec E cageid w =
     (let c = as_u64 (sint cageid) in std_fds E c (w\<lparr>fdt := init_empty_cage (fe_fd E) (fdt w) c\<rparr>))"

text \<open>The path is copied as a string into a zeroed buffer; a failed copy leaves the zeros.\<close>

definition FD_MAX_PATH :: nat where "FD_MAX_PATH = 256"

definition path_arg :: "'ft shadow_env \<Rightarrow> ('ft, 'a) grate_world_scheme \<Rightarrow> nat \<Rightarrow> nat \<Rightarrow> string" where
  "path_arg E w filename filename_cage =
     (let buf = (case ge_copystr (fe_g E) (hist w) filename_cage filename FD_MAX_PATH of
                   Some buf \<Rightarrow> buf | None \<Rightarrow> replicate FD_MAX_PATH 0)
      in from_utf8_lossy (c_str_bytes buf))"

section \<open>The life-cycle handlers the grates share\<close>

definition fork_tables :: "'ft shadow_env \<Rightarrow> ('ft, 'a) grate_world_scheme \<Rightarrow> nat list \<Rightarrow> nat list \<Rightarrow> int \<times> ('ft, 'a) grate_world_scheme" where
  "fork_tables E w a g =
     (let (ret, w) = fd_forward E w SYS_CLONE (g ! 0) a g in
      if ret \<le> 0 then (ret, w)
      else if is_thread_clone (fe_g E) w (a ! 0) (g ! 0) then (ret, w)
      else (case copy_fdtable_for_cage (fe_fd E) (fdt w) (g ! 0) (as_u64 ret) of
              Some ft \<Rightarrow> (ret, w\<lparr>fdt := ft\<rparr>) | None \<Rightarrow> (ret, w)))"

definition exec_tables :: "'ft shadow_env \<Rightarrow> ('ft, 'a) grate_world_scheme \<Rightarrow> nat list \<Rightarrow> nat list \<Rightarrow> int \<times> ('ft, 'a) grate_world_scheme" where
  "exec_tables E w a g =
     (let w = std_fds E (g ! 0) (w\<lparr>fdt := fe_exec E (fdt w) (g ! 0)\<rparr>) in fd_forward E w SYS_EXEC (g ! 0) a g)"

definition dup_tables ::
  "'ft shadow_env \<Rightarrow> ('ft, 'a) grate_world_scheme \<Rightarrow> nat \<Rightarrow> (int \<Rightarrow> nat) \<Rightarrow> nat list \<Rightarrow> nat list \<Rightarrow> int \<times> ('ft, 'a) grate_world_scheme" where
  "dup_tables E w nr newfd a g =
     (let (ret, w) = fd_forward E w nr (g ! 0) a g in
      if 0 \<le> ret
      then (case translate_virtual_fd (fe_fd E) (fdt w) (g ! 0) (a ! 0) of
              Some e \<Rightarrow> (ret, installed E (g ! 0) (newfd ret) e w) | None \<Rightarrow> (ret, w))
      else (ret, w))"

section \<open>The write filter\<close>

text \<open>\<open>Path::file_name\<close> and \<open>Path::extension\<close>: the last component that is not empty and not \<open>.\<close>, unless
  it is \<open>..\<close>; the text after its last dot, unless the dot is absent or first.\<close>

definition file_name :: "string \<Rightarrow> string option" where
  "file_name path =
     (let parts = filter (\<lambda>p. p \<noteq> '''' \<and> p \<noteq> ''.'') (split_on slash path) in
      if parts = [] \<or> last parts = ''..'' then None else Some (last parts))"

definition extension :: "string \<Rightarrow> string option" where
  "extension path =
     (case file_name path of None \<Rightarrow> None
      | Some name \<Rightarrow>
          (let ext = takeWhile (\<lambda>x. x \<noteq> CHR ''.'') (rev name); before = drop (Suc (length ext)) (rev name) in
           if CHR ''.'' \<notin> set name \<or> before = [] then None else Some (rev ext)))"

definition is_log :: "string \<Rightarrow> bool" where
  "is_log path \<longleftrightarrow> extension path = Some ''log''"

definition is_fd_blocked :: "'ft shadow_env \<Rightarrow> 'ft \<Rightarrow> nat \<Rightarrow> nat \<Rightarrow> bool" where
  "is_fd_blocked E ft cageid fd \<longleftrightarrow>
     (case translate_virtual_fd (fe_fd E) ft cageid fd of Some e \<Rightarrow> perfdinfo e = 1 | None \<Rightarrow> False)"

definition wf_open_handler :: "'ft shadow_env \<Rightarrow> 'ft grate_world \<Rightarrow> nat list \<Rightarrow> nat list \<Rightarrow> int \<times> 'ft grate_world" where
  "wf_open_handler E w a g =
     (let path = path_arg E w (a ! 0) (g ! 0);
          c = plain_call SYS_OPEN (ge_cage (fe_g E)) (g ! 0) a g;
          (ret, w) = (case make_threei_call (ge_sys (fe_g E) (hist w)) c of
                        Inr r \<Rightarrow> (r, installed E (g ! 0) (as_u64 r) (mk_entry 0 (as_u64 r) False 0) (log_event (Threei c) w))
                      | Inl _ \<Rightarrow> (-1, log_event (Threei c) w));
          w = (if is_log path then w else annotated E (g ! 0) (as_u64 ret) 1 w)
      in (ret, w))"

definition wf_write_call :: "nat \<Rightarrow> 'ft shadow_env \<Rightarrow> 'ft grate_world \<Rightarrow> nat list \<Rightarrow> nat list \<Rightarrow> int \<times> 'ft grate_world" where
  "wf_write_call nr E w a g = (if is_fd_blocked E (fdt w) (g ! 0) (a ! 0) then (-1, w) else fd_forward E w nr (g ! 0) a g)"

definition wf_write_handler :: "'ft shadow_env \<Rightarrow> 'ft grate_world \<Rightarrow> nat list \<Rightarrow> nat list \<Rightarrow> int \<times> 'ft grate_world" where
  "wf_write_handler = wf_write_call SYS_WRITE"

definition wf_writev_handler :: "'ft shadow_env \<Rightarrow> 'ft grate_world \<Rightarrow> nat list \<Rightarrow> nat list \<Rightarrow> int \<times> 'ft grate_world" where
  "wf_writev_handler = wf_write_call SYS_WRITEV"

definition wf_pwrite_handler :: "'ft shadow_env \<Rightarrow> 'ft grate_world \<Rightarrow> nat list \<Rightarrow> nat list \<Rightarrow> int \<times> 'ft grate_world" where
  "wf_pwrite_handler = wf_write_call SYS_PWRITE"

definition wf_fork_handler :: "'ft shadow_env \<Rightarrow> 'ft grate_world \<Rightarrow> nat list \<Rightarrow> nat list \<Rightarrow> int \<times> 'ft grate_world" where
  "wf_fork_handler = fork_tables"

definition wf_exec_handler :: "'ft shadow_env \<Rightarrow> 'ft grate_world \<Rightarrow> nat list \<Rightarrow> nat list \<Rightarrow> int \<times> 'ft grate_world" where
  "wf_exec_handler = exec_tables"

definition wf_dup_handler :: "'ft shadow_env \<Rightarrow> 'ft grate_world \<Rightarrow> nat list \<Rightarrow> nat list \<Rightarrow> int \<times> 'ft grate_world" where
  "wf_dup_handler E w a g = dup_tables E w SYS_DUP as_u64 a g"

definition wf_dup2_handler :: "'ft shadow_env \<Rightarrow> 'ft grate_world \<Rightarrow> nat list \<Rightarrow> nat list \<Rightarrow> int \<times> 'ft grate_world" where
  "wf_dup2_handler E w a g = dup_tables E w SYS_DUP2 (\<lambda>_. a ! 1) a g"

text \<open>The look-up before the close has no effect.\<close>

definition wf_close_handler :: "'ft shadow_env \<Rightarrow> 'ft grate_world \<Rightarrow> nat list \<Rightarrow> nat list \<Rightarrow> int \<times> 'ft grate_world" where
  "wf_close_handler E w a g = (let (ret, w) = fd_forward E w SYS_CLOSE (g ! 0) a g in (ret, closed E (g ! 0) (a ! 0) w))"

text \<open>The table of \<open>main\<close>.\<close>

definition wf_handlers ::
  "(nat \<times> ('ft shadow_env \<Rightarrow> 'ft grate_world \<Rightarrow> nat list \<Rightarrow> nat list \<Rightarrow> int \<times> 'ft grate_world)) list" where
  "wf_handlers =
     [(SYS_OPEN, wf_open_handler), (SYS_WRITE, wf_write_handler), (SYS_PWRITE, wf_pwrite_handler),
      (SYS_WRITEV, wf_writev_handler), (SYS_CLONE, wf_fork_handler), (SYS_EXECVE, wf_exec_handler),
      (SYS_DUP, wf_dup_handler), (SYS_DUP2, wf_dup2_handler), (SYS_CLOSE, wf_close_handler)]"

section \<open>The null device\<close>

definition DEVNULL_KIND :: nat where "DEVNULL_KIND = 1"

definition is_devnull_fd :: "'ft shadow_env \<Rightarrow> 'ft \<Rightarrow> nat \<Rightarrow> nat \<Rightarrow> bool" where
  "is_devnull_fd E ft cage_id fd \<longleftrightarrow>
     (case translate_virtual_fd (fe_fd E) ft cage_id fd of Some e \<Rightarrow> fdkind e = DEVNULL_KIND | None \<Rightarrow> False)"

definition dn_open_handler :: "'ft shadow_env \<Rightarrow> 'ft grate_world \<Rightarrow> nat list \<Rightarrow> nat list \<Rightarrow> int \<times> 'ft grate_world" where
  "dn_open_handler E w a g =
     (if path_arg E w (a ! 0) (g ! 0) = ''/dev/null''
      then (case get_unused_virtual_fd (fe_fd E) (fdt w) (g ! 0) DEVNULL_KIND 0 False 0 of
              Some (fd, ft) \<Rightarrow> (as_i32 (int fd), w\<lparr>fdt := ft\<rparr>) | None \<Rightarrow> (-24, w))
      else (let (ret, w) = fd_forward E w SYS_OPEN (g ! 0) a g in
            if 0 \<le> ret then (ret, installed E (g ! 0) (as_u64 ret) (mk_entry 0 (as_u64 ret) False 0) w) else (ret, w)))"

definition dn_read_handler :: "'ft shadow_env \<Rightarrow> 'ft grate_world \<Rightarrow> nat list \<Rightarrow> nat list \<Rightarrow> int \<times> 'ft grate_world" where
  "dn_read_handler E w a g =
     (if is_devnull_fd E (fdt w) (g ! 0) (a ! 0) then (0, w) else fd_forward E w SYS_READ (g ! 0) a g)"

definition dn_write_handler :: "'ft shadow_env \<Rightarrow> 'ft grate_world \<Rightarrow> nat list \<Rightarrow> nat list \<Rightarrow> int \<times> 'ft grate_world" where
  "dn_write_handler E w a g =
     (if is_devnull_fd E (fdt w) (g ! 0) (a ! 0) then (as_i32 (int (a ! 2)), w) else fd_forward E w SYS_WRITE (g ! 0) a g)"

definition dn_close_handler :: "'ft shadow_env \<Rightarrow> 'ft grate_world \<Rightarrow> nat list \<Rightarrow> nat list \<Rightarrow> int \<times> 'ft grate_world" where
  "dn_close_handler E w a g =
     (if is_devnull_fd E (fdt w) (g ! 0) (a ! 0) then (0, closed E (g ! 0) (a ! 0) w)
      else (let (ret, w) = fd_forward E w SYS_CLOSE (g ! 0) a g in (ret, closed E (g ! 0) (a ! 0) w)))"

definition dn_fork_handler :: "'ft shadow_env \<Rightarrow> 'ft grate_world \<Rightarrow> nat list \<Rightarrow> nat list \<Rightarrow> int \<times> 'ft grate_world" where
  "dn_fork_handler = fork_tables"

definition dn_exec_handler :: "'ft shadow_env \<Rightarrow> 'ft grate_world \<Rightarrow> nat list \<Rightarrow> nat list \<Rightarrow> int \<times> 'ft grate_world" where
  "dn_exec_handler = exec_tables"

definition dn_dup_handler :: "'ft shadow_env \<Rightarrow> 'ft grate_world \<Rightarrow> nat list \<Rightarrow> nat list \<Rightarrow> int \<times> 'ft grate_world" where
  "dn_dup_handler E w a g = dup_tables E w SYS_DUP as_u64 a g"

definition dn_dup2_handler :: "'ft shadow_env \<Rightarrow> 'ft grate_world \<Rightarrow> nat list \<Rightarrow> nat list \<Rightarrow> int \<times> 'ft grate_world" where
  "dn_dup2_handler E w a g = dup_tables E w SYS_DUP2 (\<lambda>_. a ! 1) a g"

definition dn_handlers ::
  "(nat \<times> ('ft shadow_env \<Rightarrow> 'ft grate_world \<Rightarrow> nat list \<Rightarrow> nat list \<Rightarrow> int \<times> 'ft grate_world)) list" where
  "dn_handlers =
     [(SYS_OPEN, dn_open_handler), (SYS_READ, dn_read_handler), (SYS_WRITE, dn_write_handler), (SYS_CLOSE, dn_close_handler),
      (SYS_CLONE, dn_fork_handler), (SYS_EXECVE, dn_exec_handler), (SYS_DUP, dn_dup_handler), (SYS_DUP2, dn_dup2_handler)]"

section \<open>The table stress test\<close>

type_synonym u64 = "64 word"

definition FDT_KIND :: nat where "FDT_KIND = 1"

record 'ft fdt_world = "'ft grate_world" +
  mutex_counter :: u64
  atomic_counter :: u64
  unsync_counter :: u64

definition counter_report :: "u64 \<Rightarrow> u64 \<Rightarrow> u64 \<Rightarrow> string" where
  "counter_report m a u =
     ''mutex='' @ nat_str (unat m) @ '' atomic='' @ nat_str (unat a) @ '' unsync='' @ nat_str (unat u) @ [CHR 0x0A]"

definition report_counters :: "'ft shadow_env \<Rightarrow> 'ft fdt_world \<Rightarrow> nat \<Rightarrow> nat \<Rightarrow> int \<times> 'ft fdt_world" where
  "report_counters E w buf_ptr buf_cage =
     (let bytes = as_bytes (counter_report (mutex_counter w) (atomic_counter w) (unsync_counter w))
      in (as_i32 (int (length bytes)), log_event (CopyOut buf_cage buf_ptr bytes) w))"

definition fdt_open_handler :: "'ft shadow_env \<Rightarrow> 'ft fdt_world \<Rightarrow> nat list \<Rightarrow> nat list \<Rightarrow> int \<times> 'ft fdt_world" where
  "fdt_open_handler E w a g =
     (let (ret, w) = fd_forward E w SYS_OPEN (g ! 0) a g in
      if 0 \<le> ret then (ret, installed E (g ! 0) (as_u64 ret) (mk_entry FDT_KIND (as_u64 ret) False (a ! 1)) w) else (ret, w))"

definition fdt_close_handler :: "'ft shadow_env \<Rightarrow> 'ft fdt_world \<Rightarrow> nat list \<Rightarrow> nat list \<Rightarrow> int \<times> 'ft fdt_world" where
  "fdt_close_handler E w a g =
     (let (ret, w) = fd_forward E w SYS_CLOSE (g ! 0) a g in
      if 0 \<le> ret \<and> check_cage_exists (fe_fd E) (fdt w) (g ! 0) then (ret, closed E (g ! 0) (a ! 0) w) else (ret, w))"

definition fdt_dup_handler :: "'ft shadow_env \<Rightarrow> 'ft fdt_world \<Rightarrow> nat list \<Rightarrow> nat list \<Rightarrow> int \<times> 'ft fdt_world" where
  "fdt_dup_handler E w a g = dup_tables E w SYS_DUP as_u64 a g"

definition fdt_dup2_handler :: "'ft shadow_env \<Rightarrow> 'ft fdt_world \<Rightarrow> nat list \<Rightarrow> nat list \<Rightarrow> int \<times> 'ft fdt_world" where
  "fdt_dup2_handler E w a g = dup_tables E w SYS_DUP2 (\<lambda>_. a ! 1) a g"

definition fdt_fork_handler :: "'ft shadow_env \<Rightarrow> 'ft fdt_world \<Rightarrow> nat list \<Rightarrow> nat list \<Rightarrow> int \<times> 'ft fdt_world" where
  "fdt_fork_handler = fork_tables"

definition fdt_exec_handler :: "'ft shadow_env \<Rightarrow> 'ft fdt_world \<Rightarrow> nat list \<Rightarrow> nat list \<Rightarrow> int \<times> 'ft fdt_world" where
  "fdt_exec_handler = exec_tables"

text \<open>Descriptor 99 is a request for the counters.\<close>

definition fdt_read_handler :: "'ft shadow_env \<Rightarrow> 'ft fdt_world \<Rightarrow> nat list \<Rightarrow> nat list \<Rightarrow> int \<times> 'ft fdt_world" where
  "fdt_read_handler E w a g =
     (if a ! 0 = 99 then report_counters E w (a ! 1) (g ! 1) else fd_forward E w SYS_READ (g ! 0) a g)"

text \<open>The body of the counter update when no other thread runs in between; the interleavings are below.\<close>

definition bump_counters :: "'ft fdt_world \<Rightarrow> 'ft fdt_world" where
  "bump_counters w =
     (let w = w\<lparr>mutex_counter := mutex_counter w + 1\<rparr>;
          w = w\<lparr>atomic_counter := atomic_counter w + 1\<rparr>;
          v = unsync_counter w
      in w\<lparr>unsync_counter := v + 1\<rparr>)"

definition fdt_write_handler :: "'ft shadow_env \<Rightarrow> 'ft fdt_world \<Rightarrow> nat list \<Rightarrow> nat list \<Rightarrow> int \<times> 'ft fdt_world" where
  "fdt_write_handler E w a g = fd_forward E (if 2 < a ! 0 then bump_counters w else w) SYS_WRITE (g ! 0) a g"

definition fdt_handlers ::
  "(nat \<times> ('ft shadow_env \<Rightarrow> 'ft fdt_world \<Rightarrow> nat list \<Rightarrow> nat list \<Rightarrow> int \<times> 'ft fdt_world)) list" where
  "fdt_handlers =
     [(SYS_OPEN, fdt_open_handler), (SYS_CLOSE, fdt_close_handler), (SYS_DUP, fdt_dup_handler), (SYS_DUP2, fdt_dup2_handler),
      (SYS_READ, fdt_read_handler), (SYS_WRITE, fdt_write_handler), (SYS_CLONE, fdt_fork_handler), (SYS_EXEC, fdt_exec_handler)]"

section \<open>The descriptor translation\<close>

definition fdx_fork_handler :: "'ft shadow_env \<Rightarrow> 'ft grate_world \<Rightarrow> nat list \<Rightarrow> nat list \<Rightarrow> int \<times> 'ft grate_world" where
  "fdx_fork_handler = fork_tables"

definition fdx_exec_handler :: "'ft shadow_env \<Rightarrow> 'ft grate_world \<Rightarrow> nat list \<Rightarrow> nat list \<Rightarrow> int \<times> 'ft grate_world" where
  "fdx_exec_handler = exec_tables"

end
