(* ===== verification/Grate_Builder.thy ===== *)
theory Grate_Builder
  imports Rust_Str Fd_Support
begin

unbundle bit_operations_syntax

text \<open>
  The life of a grate (\<open>lib/grate-rs/src/lib.rs\<close>, \<open>GrateBuilder\<close>): the parent forks the first cage, which
  waits at a semaphore, registers the handlers, runs the pre-exec callback, releases the cage,
  waits for its end and runs the teardown callback.  The calls of the C library and of the runtime are
  parameters; the history of the world is the list of what the process does, which ends with its exit.
\<close>

section \<open>The builder\<close>

datatype fd_policy = PolicyDisabled | EnabledExcept "nat list option"

text \<open>Handlers and callbacks are opaque functions of the grate: a handler is represented by the number it is
  registered for, a callback by its presence; calling one is an event of the history.\<close>

record builder =
  b_handlers :: "nat list"
  b_policy :: fd_policy
  b_teardown :: bool
  b_preexec :: bool

definition builder_new :: builder where
  "builder_new = \<lparr>b_handlers = [], b_policy = PolicyDisabled, b_teardown = False, b_preexec = False\<rparr>"

definition builder_register :: "nat \<Rightarrow> builder \<Rightarrow> builder" where
  "builder_register syscall_nr b = b\<lparr>b_handlers := b_handlers b @ [syscall_nr]\<rparr>"

definition enable_fd_translate_policy :: "nat list option \<Rightarrow> builder \<Rightarrow> builder" where
  "enable_fd_translate_policy exception_list b = b\<lparr>b_policy := EnabledExcept exception_list\<rparr>"

definition builder_teardown :: "builder \<Rightarrow> builder" where
  "builder_teardown b = b\<lparr>b_teardown := True\<rparr>"

definition builder_preexec :: "builder \<Rightarrow> builder" where
  "builder_preexec b = b\<lparr>b_preexec := True\<rparr>"

section \<open>Environment\<close>

text \<open>
  \<open>LaunchState\<close> is the memory the two processes share.  \<open>re_ret\<close>: the result of a call, given what
  happened before; \<open>re_errno\<close>: \<open>last_os_error\<close> after a failed call; \<open>re_status\<close>: the status a wait
  stores; \<open>re_mmap\<close>: whether a shared mapping succeeds; \<open>re_launch\<close>: the launch state as the parent reads it.
\<close>

record launch_state =
  launch_failed :: i32
  errno :: i32

record 'ft run_env = "'ft grate_env" +
  re_ret :: "event list \<Rightarrow> libc_call \<Rightarrow> i32"
  re_errno :: "event list \<Rightarrow> i32"
  re_status :: "event list \<Rightarrow> i32"
  re_mmap :: "event list \<Rightarrow> bool"
  re_launch :: "event list \<Rightarrow> launch_state"

definition run_log :: "run_event \<Rightarrow> 'ft grate_world \<Rightarrow> 'ft grate_world" where
  "run_log e w = log_event (Run e) w"

section \<open>Running\<close>

text \<open>\<open>(*status >> 8) & 0xff\<close> for a cage that ran, 1 for an error; then the exit.\<close>

definition exit_code :: "grate_error + i32 \<Rightarrow> i32" where
  "exit_code result = (case result of Inr status \<Rightarrow> signed_drop_bit 8 status AND 0xFF | Inl _ \<Rightarrow> 1)"

definition run_teardown :: "bool \<Rightarrow> grate_error + i32 \<Rightarrow> 'ft grate_world \<Rightarrow> 'ft grate_world" where
  "run_teardown callback result w =
     (let w = (if callback then run_log (Teardown result) w else w)
      in run_log (Exit (sint (exit_code result))) w)"

definition call_name :: "libc_call \<Rightarrow> string" where
  "call_name c = (case c of SemInit \<Rightarrow> ''sem_init'' | Fork \<Rightarrow> ''fork'' | SemWait \<Rightarrow> ''sem_wait'' | Execv _ \<Rightarrow> ''execv''
     | SemPost \<Rightarrow> ''sem_post'' | Waitpid _ \<Rightarrow> ''waitpid'' | SemDestroy \<Rightarrow> ''sem_destroy'' | Munmap \<Rightarrow> ''munmap'')"

text \<open>\<open>call_sys!\<close>: a negative result runs the teardown, which never returns; otherwise the run goes on
  with the result.\<close>

definition call_sys ::
  "'ft run_env \<Rightarrow> bool \<Rightarrow> libc_call \<Rightarrow> 'ft grate_world \<Rightarrow> (i32 \<Rightarrow> 'ft grate_world \<Rightarrow> 'ft grate_world) \<Rightarrow> 'ft grate_world" where
  "call_sys R teardown c w k =
     (let ret = re_ret R (hist w) c; w = run_log (Libc c) w in
      if sint ret < 0
      then run_teardown teardown
        (Inl (CoordinationError (call_name c @ '' failed: '' @ int_str (sint (re_errno R (hist w)))))) w
      else k ret w)"

text \<open>\<open>call_sys_child!\<close>: a negative result is left in the shared launch state and ends the child.\<close>

definition call_sys_child ::
  "'ft run_env \<Rightarrow> launch_state \<Rightarrow> libc_call \<Rightarrow> 'ft grate_world \<Rightarrow>
   (i32 \<Rightarrow> 'ft grate_world \<Rightarrow> 'ft grate_world \<times> launch_state) \<Rightarrow> 'ft grate_world \<times> launch_state" where
  "call_sys_child R st c w k =
     (let ret = re_ret R (hist w) c; w = run_log (Libc c) w in
      if sint ret < 0
      then (run_log (Exit (sint (- ret))) w, st\<lparr>errno := re_errno R (hist w), launch_failed := 1\<rparr>)
      else k ret w)"

definition child_run :: "'ft run_env \<Rightarrow> string list \<Rightarrow> launch_state \<Rightarrow> 'ft grate_world \<Rightarrow> 'ft grate_world \<times> launch_state" where
  "child_run R argv st w =
     call_sys_child R st SemWait w (\<lambda>_ w.
       call_sys_child R st (Execv argv) w (\<lambda>_ w. (run_log (Exit (-1)) w, st)))"

fun register_handlers ::
  "'ft grate_env \<Rightarrow> 'ft grate_world \<Rightarrow> nat \<Rightarrow> nat \<Rightarrow> nat list \<Rightarrow> (grate_error + unit) \<times> 'ft grate_world" where
  "register_handlers E w cageid grateid [] = (Inr (), w)"
| "register_handlers E w cageid grateid (nr # nrs) =
     (case register_handler E w cageid nr grateid of
        (Inr _, w) \<Rightarrow> register_handlers E w cageid grateid nrs
      | (Inl e, w) \<Rightarrow> (Inl e, w))"

text \<open>From the release of the child to the end.  A cage whose binary was never run is an error.\<close>

definition launch_result :: "launch_state \<Rightarrow> i32 \<Rightarrow> grate_error + i32" where
  "launch_result state status =
     (if launch_failed state \<noteq> 0
      then Inl (CoordinationError (''Failed to launch grate with OS Error '' @ int_str (sint (errno state))))
      else Inr status)"

definition finish_run :: "'ft run_env \<Rightarrow> bool \<Rightarrow> i32 \<Rightarrow> 'ft grate_world \<Rightarrow> 'ft grate_world" where
  "finish_run R teardown cageid w =
     call_sys R teardown SemPost w (\<lambda>_ w.
     call_sys R teardown (Waitpid (sint cageid)) w (\<lambda>_ w.
       let status = re_status R (hist w) in
       call_sys R teardown SemDestroy w (\<lambda>_ w.
       call_sys R teardown Munmap w (\<lambda>_ w.
         let result = launch_result (re_launch R (hist w)) status
         in call_sys R teardown Munmap w (\<lambda>_ w. run_teardown teardown result w)))))"

definition parent_run :: "'ft run_env \<Rightarrow> builder \<Rightarrow> i32 \<Rightarrow> 'ft grate_world \<Rightarrow> 'ft grate_world" where
  "parent_run R b cageid w =
     (let E = grate_env.truncate R; teardown = b_teardown b; cage = as_u64 (sint cageid); grateid = ge_cage R in
      case (case b_policy b of
              PolicyDisabled \<Rightarrow> (Inr (), w)
            | EnabledExcept exceptions \<Rightarrow>
                register_default_fd_handlers_except E w cage grateid exceptions (map fst FD_HANDLER_TABLE)) of
        (Inl e, w) \<Rightarrow> run_teardown teardown (Inl e) w
      | (Inr _, w) \<Rightarrow>
          (case register_handlers E w cage grateid (b_handlers b) of
             (Inl e, w) \<Rightarrow> run_teardown teardown (Inl e) w
           | (Inr _, w) \<Rightarrow>
               (let w = (if b_preexec b then run_log (Preexec (sint cageid)) w else w)
                in finish_run R teardown cageid w)))"

text \<open>The whole of \<open>run\<close>, in the parent and in the child.  \<open>CString::new(..).unwrap()\<close> panics on an argument
  with a zero byte, a failed shared mapping ends the process with code 0.\<close>

definition grate_run :: "'ft run_env \<Rightarrow> builder \<Rightarrow> string list \<Rightarrow> 'ft grate_world \<Rightarrow> 'ft grate_world" where
  "grate_run R b argv w =
     (let teardown = b_teardown b in
      if length argv < 1 then run_teardown teardown (Inl (CoordinationError ''No cage binary provided.'')) w
      else if list_ex (\<lambda>s. nul \<in> set s) argv then run_log Panic w
      else if \<not> re_mmap R (hist w) then run_log (Exit 0) w
      else call_sys R teardown SemInit w (\<lambda>_ w.
        if \<not> re_mmap R (hist w) then run_log (Exit 0) w
        else call_sys R teardown Fork w (\<lambda>cageid w.
          if cageid = 0 then fst (child_run R argv \<lparr>launch_failed = 0, errno = 0\<rparr> w)
          else parent_run R b cageid w)))"

text \<open>The entry point the runtime calls with the address of a handler: the code at an address is a parameter.\<close>

definition pass_fptr_to_wt ::
  "(nat \<Rightarrow> nat \<Rightarrow> nat list \<Rightarrow> nat list \<Rightarrow> 'w \<Rightarrow> int \<times> 'w) \<Rightarrow> nat \<Rightarrow> nat \<Rightarrow> nat list \<Rightarrow> nat list \<Rightarrow> 'w \<Rightarrow> int \<times> 'w" where
  "pass_fptr_to_wt code fn_ptr_uint cageid a g w =
     (if fn_ptr_uint = 0 then (-1, w) else code (as_usize (int fn_ptr_uint)) cageid a g w)"

section \<open>The registrations\<close>

lemma grate_env_truncate [simp]:
  "ge_cage (grate_env.truncate R) = ge_cage R" "ge_register (grate_env.truncate R) = ge_register R"
  by (simp_all add: grate_env.truncate_def)

definition registered :: "nat \<Rightarrow> nat \<Rightarrow> nat list \<Rightarrow> event list" where
  "registered cage g nrs = map (\<lambda>nr. Register cage nr g) nrs"

lemma registered_simps [simp]:
  "registered c g [] = []" "registered c g (n # ns) = Register c n g # registered c g ns"
  "registered c g (ms @ ns) = registered c g ms @ registered c g ns"
  by (simp_all add: registered_def)

text \<open>The registrations of a policy, in the order of the table.\<close>

definition policy_calls :: "fd_policy \<Rightarrow> nat list" where
  "policy_calls p = (case p of PolicyDisabled \<Rightarrow> []
     | EnabledExcept ex \<Rightarrow> filter (\<lambda>nr. case ex of None \<Rightarrow> True | Some s \<Rightarrow> nr \<notin> set s) (map fst FD_HANDLER_TABLE))"

lemma default_handlers_eq:
  "register_default_fd_handlers_except E w c g ex table =
   register_handlers E w c g (filter (\<lambda>nr. case ex of None \<Rightarrow> True | Some s \<Rightarrow> nr \<notin> set s) table)"
  by (induction E w c g ex table rule: register_default_fd_handlers_except.induct) (auto split: option.split sum.split prod.split)

lemma register_handlers_append:
  "register_handlers E w c g (ms @ ns) =
     (case register_handlers E w c g ms of (Inl e, w) \<Rightarrow> (Inl e, w) | (Inr _, w) \<Rightarrow> register_handlers E w c g ns)"
  by (induction ms arbitrary: w) (auto split: sum.split prod.split)

text \<open>A run of registrations stops at the first that the runtime refuses.\<close>

fun accepted :: "'ft grate_env \<Rightarrow> event list \<Rightarrow> nat \<Rightarrow> nat \<Rightarrow> nat list \<Rightarrow> bool" where
  "accepted E h c g [] \<longleftrightarrow> True"
| "accepted E h c g (nr # nrs) \<longleftrightarrow> ge_register E h c nr g = 0 \<and> accepted E (h @ [Register c nr g]) c g nrs"

lemma register_handlers_accepted:
  "accepted E (hist w) c g nrs \<Longrightarrow> register_handlers E w c g nrs = (Inr (), w\<lparr>hist := hist w @ registered c g nrs\<rparr>)"
  by (induction nrs arbitrary: w) (simp_all add: register_handler_def log_event_def)

lemma register_handlers_refused:
  "\<not> accepted E (hist w) c g nrs \<Longrightarrow>
   \<exists>ok bad rest. nrs = ok @ bad # rest \<and> accepted E (hist w) c g ok \<and>
     ge_register E (hist w @ registered c g ok) c bad g \<noteq> 0 \<and>
     register_handlers E w c g nrs =
       (Inl (HandlerRegistrationError (ge_register E (hist w @ registered c g ok) c bad g)),
        w\<lparr>hist := hist w @ registered c g (ok @ [bad])\<rparr>)"
proof (induction nrs arbitrary: w)
  case (Cons nr nrs)
  show ?case
  proof (cases "ge_register E (hist w) c nr g = 0")
    case True
    let ?w = "log_event (Register c nr g) w"
    have "\<not> accepted E (hist ?w) c g nrs" using Cons.prems True by simp
    from Cons.IH [OF this] obtain ok bad rest where IH: "nrs = ok @ bad # rest" "accepted E (hist ?w) c g ok"
      "ge_register E (hist ?w @ registered c g ok) c bad g \<noteq> 0"
      "register_handlers E ?w c g nrs =
         (Inl (HandlerRegistrationError (ge_register E (hist ?w @ registered c g ok) c bad g)),
          ?w\<lparr>hist := hist ?w @ registered c g (ok @ [bad])\<rparr>)" by blast
    show ?thesis using IH True
      by (intro exI [of _ "nr # ok"] exI [of _ bad] exI [of _ rest]) (simp add: register_handler_def log_event_def)
  next
    case False
    then show ?thesis
      by (intro exI [of _ "[]"] exI [of _ nr] exI [of _ nrs]) (simp add: register_handler_def log_event_def)
  qed
qed simp

lemma parent_run_eq:
  "parent_run R b cageid w =
     (case register_handlers (grate_env.truncate R) w (as_u64 (sint cageid)) (ge_cage R) (policy_calls (b_policy b) @ b_handlers b) of
        (Inl e, w) \<Rightarrow> run_teardown (b_teardown b) (Inl e) w
      | (Inr _, w) \<Rightarrow> finish_run R (b_teardown b) cageid (if b_preexec b then run_log (Preexec (sint cageid)) w else w))"
  by (simp add: parent_run_def register_handlers_append default_handlers_eq policy_calls_def Let_def
      split: fd_policy.split sum.split prod.split)

section \<open>The shape of a run\<close>

lemma run_log_hist [simp]: "hist (run_log e w) = hist w @ [Run e]"
  by (simp add: run_log_def)

lemma run_teardown_hist [simp]:
  "hist (run_teardown cb r w) = hist w @ (if cb then [Run (Teardown r)] else []) @ [Run (Exit (sint (exit_code r)))]"
  by (simp add: run_teardown_def Let_def)

text \<open>A run that goes on from \<open>w\<close> appends to its history events without an exit, and then its end.\<close>

definition run_ends :: "event list \<Rightarrow> event list \<Rightarrow> bool" where
  "run_ends h h' \<longleftrightarrow>
     (\<exists>es e. h' = h @ es @ [Run e] \<and> (e = Panic \<or> (\<exists>n. e = Exit n)) \<and> Run Panic \<notin> set es \<and> (\<forall>n. Run (Exit n) \<notin> set es))"

lemma run_ends_log: "(e = Panic \<or> (\<exists>n. e = Exit n)) \<Longrightarrow> run_ends h (h @ [Run e])"
  unfolding run_ends_def by (intro exI [of _ "[]"]) auto

lemma run_ends_after:
  "run_ends (h @ es) h' \<Longrightarrow> Run Panic \<notin> set es \<Longrightarrow> (\<And>n. Run (Exit n) \<notin> set es) \<Longrightarrow> run_ends h h'"
  unfolding run_ends_def by (elim exE conjE) (rule_tac x = "es @ esa" in exI, auto)

lemma run_ends_teardown: "run_ends (hist w) (hist (run_teardown cb r w))"
  unfolding run_ends_def by (intro exI [of _ "if cb then [Run (Teardown r)] else []"]) auto

lemma run_ends_call_sys:
  assumes "\<And>ret w. run_ends (hist w) (hist (k ret w))"
  shows "run_ends (hist w) (hist (call_sys R td c w k))"
proof (rule run_ends_after [of _ "[Run (Libc c)]"])
  let ?w = "run_log (Libc c) w"
  show "run_ends (hist w @ [Run (Libc c)]) (hist (call_sys R td c w k))"
    using assms [of ?w] run_ends_teardown [of ?w] by (simp add: call_sys_def Let_def)
qed simp_all

lemma run_ends_call_sys_child:
  assumes "\<And>ret w. run_ends (hist w) (hist (fst (k ret w)))"
  shows "run_ends (hist w) (hist (fst (call_sys_child R st c w k)))"
proof (rule run_ends_after [of _ "[Run (Libc c)]"])
  let ?w = "run_log (Libc c) w"
  show "run_ends (hist w @ [Run (Libc c)]) (hist (fst (call_sys_child R st c w k)))"
    using assms [of ?w] run_ends_log [of _ "hist ?w"] by (simp add: call_sys_child_def Let_def)
qed simp_all

lemma run_ends_exit: "run_ends (hist w) (hist (run_log (Exit n) w))" "run_ends (hist w) (hist (run_log Panic w))"
  using run_ends_log by auto

lemma run_ends_finish: "run_ends (hist w) (hist (finish_run R td cageid w))"
  unfolding finish_run_def Let_def by (intro run_ends_call_sys run_ends_teardown)

lemma run_ends_child: "run_ends (hist w) (hist (fst (child_run R argv st w)))"
  unfolding child_run_def by (intro run_ends_call_sys_child) (simp add: run_ends_log)

lemma run_notin_registered [simp]: "Run e \<notin> set (registered c g nrs)"
  by (auto simp: registered_def)

lemma run_ends_registered:
  "hist w' = hist w @ registered c g nrs \<Longrightarrow> run_ends (hist w') h' \<Longrightarrow> run_ends (hist w) h'"
  by (rule run_ends_after [of _ "registered c g nrs"]) simp_all

lemma run_ends_preexec:
  assumes "run_ends (hist (if p then run_log (Preexec n) w else w)) h'"
  shows "run_ends (hist w) h'"
  by (rule run_ends_after [of _ "if p then [Run (Preexec n)] else []"]) (use assms in auto)

lemma run_ends_parent: "run_ends (hist w) (hist (parent_run R b cageid w))"
proof (cases "accepted (grate_env.truncate R) (hist w) (as_u64 (sint cageid)) (ge_cage R) (policy_calls (b_policy b) @ b_handlers b)")
  case True
  show ?thesis unfolding parent_run_eq register_handlers_accepted [OF True] prod.case sum.case
    by (rule run_ends_registered [OF _ run_ends_preexec [OF run_ends_finish]]) (simp del: registered_simps)
next
  case False
  from register_handlers_refused [OF this] obtain ok bad e where
    r: "register_handlers (grate_env.truncate R) w (as_u64 (sint cageid)) (ge_cage R) (policy_calls (b_policy b) @ b_handlers b) =
      (Inl e, w\<lparr>hist := hist w @ registered (as_u64 (sint cageid)) (ge_cage R) (ok @ [bad])\<rparr>)" by blast
  show ?thesis unfolding parent_run_eq r prod.case sum.case
    by (rule run_ends_registered [OF _ run_ends_teardown]) (simp del: registered_simps)
qed

text \<open>Every run ends: its last event is the exit of the process, or the panic on an argument that is no C string,
  and there is no earlier one.\<close>

theorem grate_run_ends: "run_ends (hist w) (hist (grate_run R b argv w))"
  unfolding grate_run_def Let_def
  by (auto intro!: run_ends_teardown run_ends_exit run_ends_call_sys run_ends_child run_ends_parent simp del: run_log_hist run_teardown_hist)

section \<open>Order and errors\<close>

abbreviation (input) started :: "event list" where
  "started \<equiv> [Run (Libc SemInit), Run (Libc Fork)]"

text \<open>A run whose fork returns in the parent.\<close>

definition in_parent :: "'ft run_env \<Rightarrow> string list \<Rightarrow> i32 \<Rightarrow> bool" where
  "in_parent R argv cageid \<longleftrightarrow>
     argv \<noteq> [] \<and> \<not> list_ex (\<lambda>s. nul \<in> set s) argv \<and> re_mmap R [] \<and> 0 \<le> sint (re_ret R [] SemInit) \<and>
     re_mmap R [Run (Libc SemInit)] \<and> re_ret R [Run (Libc SemInit)] Fork = cageid \<and> 0 < sint cageid"

lemma grate_run_parent:
  assumes "in_parent R argv cageid" "hist w = []"
  shows "grate_run R b argv w = parent_run R b cageid (run_log (Libc Fork) (run_log (Libc SemInit) w))"
  using assms by (auto simp: in_parent_def grate_run_def call_sys_def Let_def)

text \<open>Where the release of the child can come from.\<close>

lemma posted_call_sys:
  assumes "Run (Libc SemPost) \<in> set (hist (call_sys R td c w k))" "c \<noteq> SemPost" "Run (Libc SemPost) \<notin> set (hist w)"
  shows "0 \<le> sint (re_ret R (hist w) c) \<and> Run (Libc SemPost) \<in> set (hist (k (re_ret R (hist w) c) (run_log (Libc c) w)))"
  using assms by (auto simp: call_sys_def Let_def split: if_splits)

lemma not_posted_child: "Run (Libc SemPost) \<notin> set (hist w) \<Longrightarrow> Run (Libc SemPost) \<notin> set (hist (fst (child_run R argv st w)))"
  by (simp add: child_run_def call_sys_child_def Let_def)

lemma posted_in_parent:
  assumes "Run (Libc SemPost) \<in> set (hist (grate_run R b argv w))" "hist w = []"
  shows "in_parent R argv (re_ret R [Run (Libc SemInit)] Fork)"
proof -
  let ?w1 = "run_log (Libc SemInit) w"
  let ?k = "\<lambda>cageid w. if cageid = 0 then fst (child_run R argv \<lparr>launch_failed = 0, errno = 0\<rparr> w) else parent_run R b cageid w"
  have 1: "argv \<noteq> []" "\<not> list_ex (\<lambda>s. nul \<in> set s) argv" "re_mmap R []"
    and p: "Run (Libc SemPost) \<in> set (hist (call_sys R (b_teardown b) SemInit w (\<lambda>_ w.
        if \<not> re_mmap R (hist w) then run_log (Exit 0) w else call_sys R (b_teardown b) Fork w ?k)))"
    using assms by (auto simp: grate_run_def Let_def split: if_splits)
  from posted_call_sys [OF p] assms(2) have 2: "0 \<le> sint (re_ret R [] SemInit)" "re_mmap R [Run (Libc SemInit)]"
    and q: "Run (Libc SemPost) \<in> set (hist (call_sys R (b_teardown b) Fork ?w1 ?k))"
    by (auto split: if_splits)
  have 3: "0 \<le> sint (re_ret R [Run (Libc SemInit)] Fork)"
    and r: "Run (Libc SemPost) \<in> set (hist (?k (re_ret R [Run (Libc SemInit)] Fork) (run_log (Libc Fork) ?w1)))"
    using posted_call_sys [OF q] assms(2) by (simp_all split: if_splits)
  have "re_ret R [Run (Libc SemInit)] Fork \<noteq> 0"
    using r not_posted_child [of "run_log (Libc Fork) ?w1"] assms(2) by auto
  then have "sint (re_ret R [Run (Libc SemInit)] Fork) \<noteq> 0" by (metis sint_0 signed_eq_0_iff)
  with 1 2 3 show ?thesis by (simp add: in_parent_def)
qed

lemma run_ends_extends: "run_ends h h' \<Longrightarrow> \<exists>es. h' = h @ es"
  unfolding run_ends_def by auto

lemma finish_posts: "\<exists>rest. hist (finish_run R td cageid w) = hist w @ Run (Libc SemPost) # rest"
proof -
  have "\<exists>es. hist (finish_run R td cageid w) = (hist w @ [Run (Libc SemPost)]) @ es"
  proof (rule run_ends_extends)
    let ?w = "run_log (Libc SemPost) w"
    have "run_ends (hist ?w) (hist (finish_run R td cageid w))"
      unfolding finish_run_def call_sys_def [of _ _ SemPost] Let_def
      by (auto intro!: run_ends_call_sys run_ends_teardown simp del: run_log_hist run_teardown_hist)
    then show "run_ends (hist w @ [Run (Libc SemPost)]) (hist (finish_run R td cageid w))" by simp
  qed
  then show ?thesis by simp
qed

lemma parent_hist:
  assumes "accepted (grate_env.truncate R) (hist w) (as_u64 (sint cageid)) (ge_cage R) (policy_calls (b_policy b) @ b_handlers b)"
  shows "\<exists>rest. hist (parent_run R b cageid w) = hist w @
      registered (as_u64 (sint cageid)) (ge_cage R) (policy_calls (b_policy b) @ b_handlers b) @
      (if b_preexec b then [Run (Preexec (sint cageid))] else []) @ Run (Libc SemPost) # rest"
proof -
  let ?w = "w\<lparr>hist := hist w @ registered (as_u64 (sint cageid)) (ge_cage R) (policy_calls (b_policy b) @ b_handlers b)\<rparr>"
  let ?w' = "if b_preexec b then run_log (Preexec (sint cageid)) ?w else ?w"
  obtain rest where "hist (finish_run R (b_teardown b) cageid ?w') = hist ?w' @ Run (Libc SemPost) # rest"
    using finish_posts by blast
  then show ?thesis unfolding parent_run_eq register_handlers_accepted [OF assms] prod.case sum.case
    by (intro exI [of _ rest]) (simp split: if_splits)
qed

text \<open>C36.  The first cage is released only when every handler is in place: if a run posts the semaphore, its
  history begins with the set-up of the semaphore and the fork, then one registration for each
  call of the policy (in the order of the table) and each handler of the builder (in the order they were
  registered), all of which the runtime accepted, then the pre-exec callback if there is one, and only then the post.\<close>

theorem release_after_registration:
  fixes w :: "'ft grate_world"
  assumes "hist w = []" "Run (Libc SemPost) \<in> set (hist (grate_run R b argv w))"
  shows "\<exists>(cageid :: i32) rest. 0 < sint cageid \<and>
    (let regs = policy_calls (b_policy b) @ b_handlers b; cage = as_u64 (sint cageid) in
      accepted (grate_env.truncate R) started cage (ge_cage R) regs \<and>
      hist (grate_run R b argv w) = started @ registered cage (ge_cage R) regs @
        (if b_preexec b then [Run (Preexec (sint cageid))] else []) @ Run (Libc SemPost) # rest)"
proof -
  define cageid where "cageid = re_ret R [Run (Libc SemInit)] Fork"
  let ?w = "run_log (Libc Fork) (run_log (Libc SemInit) w)"
  have ip: "in_parent R argv cageid" unfolding cageid_def by (rule posted_in_parent [OF assms(2,1)])
  have run: "grate_run R b argv w = parent_run R b cageid ?w" by (rule grate_run_parent [OF ip assms(1)])
  have h: "hist ?w = started" using assms(1) by simp
  have acc: "accepted (grate_env.truncate R) (hist ?w) (as_u64 (sint cageid)) (ge_cage R) (policy_calls (b_policy b) @ b_handlers b)"
  proof (rule ccontr)
    assume "\<not> ?thesis"
    from register_handlers_refused [OF this] obtain ok bad e where
      "register_handlers (grate_env.truncate R) ?w (as_u64 (sint cageid)) (ge_cage R) (policy_calls (b_policy b) @ b_handlers b) =
        (Inl e, ?w\<lparr>hist := hist ?w @ registered (as_u64 (sint cageid)) (ge_cage R) (ok @ [bad])\<rparr>)" by blast
    then have "Run (Libc SemPost) \<notin> set (hist (parent_run R b cageid ?w))" using h by (simp add: parent_run_eq)
    with assms(2) run show False by simp
  qed
  obtain rest where "hist (parent_run R b cageid ?w) = hist ?w @
      registered (as_u64 (sint cageid)) (ge_cage R) (policy_calls (b_policy b) @ b_handlers b) @
      (if b_preexec b then [Run (Preexec (sint cageid))] else []) @ Run (Libc SemPost) # rest"
    using parent_hist [OF acc] by (elim exE)
  then show ?thesis using acc ip unfolding run h in_parent_def Let_def
    by (intro exI [of _ cageid] exI [of _ rest]) simp
qed

text \<open> A refused registration aborts the run: the registrations stop at the first refused one, the
  teardown callback gets its status, the process exits with code 1, and the first cage, which waits at the
  semaphore, is never released.\<close>

theorem refused_registration:
  fixes w :: "'ft grate_world"
  assumes "in_parent R argv cageid" "hist w = []"
    and "\<not> accepted (grate_env.truncate R) started (as_u64 (sint cageid)) (ge_cage R) (policy_calls (b_policy b) @ b_handlers b)"
  shows "\<exists>ok bad rest status. policy_calls (b_policy b) @ b_handlers b = ok @ bad # rest \<and> status \<noteq> 0 \<and>
    status = ge_register R (started @ registered (as_u64 (sint cageid)) (ge_cage R) ok) (as_u64 (sint cageid)) bad (ge_cage R) \<and>
    hist (grate_run R b argv w) = started @ registered (as_u64 (sint cageid)) (ge_cage R) (ok @ [bad]) @
      (if b_teardown b then [Run (Teardown (Inl (HandlerRegistrationError status)))] else []) @ [Run (Exit 1)]"
proof -
  let ?w = "run_log (Libc Fork) (run_log (Libc SemInit) w)"
  have h: "hist ?w = started" using assms(2) by simp
  from register_handlers_refused [of _ ?w, unfolded h, OF assms(3)] show ?thesis
    unfolding grate_run_parent [OF assms(1,2)] by (elim exE conjE) (fastforce simp: parent_run_eq h exit_code_def)
qed

text \<open> When the child cannot start its program, the grate reports it: if \<open>execv\<close> fails in the
  released child with error number \<open>n\<close>, the parent, which reads the launch state the child left, passes
  an error naming \<open>n\<close> to the teardown callback and exits with code 1, whatever status the wait returned.\<close>

theorem run_reports_result:
  fixes w wc :: "'ft grate_world"
  assumes "in_parent R argv cageid" "hist w = []"
    and "accepted (grate_env.truncate R) started (as_u64 (sint cageid)) (ge_cage R) (policy_calls (b_policy b) @ b_handlers b)"
    and "\<And>h c. 0 \<le> sint (re_ret R h c)" "\<And>h. re_status R h = status"
    and "\<And>h. re_launch R h = snd (child_run C argv \<lparr>launch_failed = 0, errno = 0\<rparr> wc)"
    and "0 \<le> sint (re_ret C (hist wc) SemWait)"
  shows "\<exists>pre result. hist (grate_run R b argv w) = pre @ (if b_teardown b then [Run (Teardown result)] else []) @
      [Run (Exit (sint (exit_code result)))] \<and>
    (let h = hist wc @ [Run (Libc SemWait)] in
     result = (if sint (re_ret C h (Execv argv)) < 0
               then Inl (CoordinationError (''Failed to launch grate with OS Error '' @
                      int_str (sint (re_errno C (h @ [Run (Libc (Execv argv))])))))
               else Inr status))"
proof -
  let ?w = "run_log (Libc Fork) (run_log (Libc SemInit) w)"
  let ?result = "launch_result (re_launch R []) status"
  have acc: "accepted (grate_env.truncate R) (hist ?w) (as_u64 (sint cageid)) (ge_cage R) (policy_calls (b_policy b) @ b_handlers b)"
    using assms(2,3) by simp
  have "\<exists>pre. hist (finish_run R td cageid v) = pre @ (if td then [Run (Teardown ?result)] else []) @
      [Run (Exit (sint (exit_code ?result)))]" for td v
    using assms(4) unfolding finish_run_def call_sys_def Let_def assms(5,6) by (simp add: linorder_not_less [symmetric])
  then obtain pre where "hist (grate_run R b argv w) = pre @ (if b_teardown b then [Run (Teardown ?result)] else []) @
      [Run (Exit (sint (exit_code ?result)))]"
    unfolding grate_run_parent [OF assms(1,2)] parent_run_eq register_handlers_accepted [OF acc] prod.case sum.case by blast
  then show ?thesis using assms(7)
    by (intro exI [of _ pre] exI [of _ ?result]) (simp add: launch_result_def assms(6) child_run_def call_sys_child_def Let_def)
qed

section \<open>A concrete run\<close>

text \<open>A runtime that refuses the registration of one call number, a parent whose calls succeed and a child
  whose \<open>execv\<close> fails with error 2.\<close>

definition demo_runtime :: "nat \<Rightarrow> fd_map run_env" where
  "demo_runtime bad =
     \<lparr>ge_cage = 1, ge_sys = (\<lambda>_ _. 0), ge_out = (\<lambda>_ _ _. []), ge_copystr = (\<lambda>_ _ _ _. None),
      ge_copymem = (\<lambda>_ _ _ _. None), ge_copyout = (\<lambda>_ _ _ _. True),
      ge_register = (\<lambda>_ _ nr _. if nr = bad then -22 else 0),
      ge_fd = map_fdtables, ge_unused_errno = (\<lambda>_ _. 0), ge_specific_errno = (\<lambda>_ _ _. 0),
      re_ret = (\<lambda>_ c. if c = Fork then 5 else 0), re_errno = (\<lambda>_. 0), re_status = (\<lambda>_. 0x300),
      re_mmap = (\<lambda>_. True), re_launch = (\<lambda>_. \<lparr>launch_failed = 1, errno = 2\<rparr>)\<rparr>"

definition demo_builder :: builder where
  "demo_builder = builder_teardown (builder_preexec (builder_register 59 (builder_register 2 builder_new)))"

abbreviation (input) demo_start :: "fd_map grate_world" where
  "demo_start \<equiv> \<lparr>fdt = [], hist = []\<rparr>"

lemma demo_builder_simps [simp]:
  "b_handlers demo_builder = [2, 59]" "b_policy demo_builder = PolicyDisabled" "b_teardown demo_builder" "b_preexec demo_builder"
  by (simp_all add: demo_builder_def builder_teardown_def builder_preexec_def builder_register_def builder_new_def)

lemma demo_in_parent: "in_parent (demo_runtime bad) [''sh''] 5"
  by (simp add: in_parent_def demo_runtime_def)

theorem release_after_registration_witness:
  "\<exists>(cageid :: i32) rest. 0 < sint cageid \<and>
    hist (grate_run (demo_runtime 0) demo_builder [''sh''] demo_start) =
      [Run (Libc SemInit), Run (Libc Fork), Register (as_u64 (sint cageid)) 2 1, Register (as_u64 (sint cageid)) 59 1,
       Run (Preexec (sint cageid)), Run (Libc SemPost)] @ rest"
proof -
  have "Run (Libc SemPost) \<in> set (hist (grate_run (demo_runtime 0) demo_builder [''sh''] demo_start))"
    by code_simp
  from release_after_registration [OF _ this] show ?thesis
    by (auto simp: policy_calls_def demo_runtime_def Let_def)
qed

theorem refused_registration_witness:
  "hist (grate_run (demo_runtime 59) demo_builder [''sh''] demo_start) =
    [Run (Libc SemInit), Run (Libc Fork), Register 5 2 1, Register 5 59 1,
     Run (Teardown (Inl (HandlerRegistrationError (-22)))), Run (Exit 1)]"
  using refused_registration [OF demo_in_parent [of 59], of demo_start demo_builder]
  by (auto simp: policy_calls_def demo_runtime_def as_u64_def registered_def Cons_eq_append_conv)

definition demo_child :: "fd_map run_env" where
  "demo_child = (demo_runtime 0)\<lparr>re_ret := (\<lambda>_ c. if c = SemWait then 0 else -2), re_errno := (\<lambda>_. 2)\<rparr>"

theorem run_reports_result_witness:
  "\<exists>pre. hist (grate_run (demo_runtime 0) demo_builder [''sh''] demo_start) =
    pre @ [Run (Teardown (Inl (CoordinationError ''Failed to launch grate with OS Error 2''))), Run (Exit 1)]"
proof -
  have sys: "0 \<le> sint (re_ret (demo_runtime 0) h c)" "re_status (demo_runtime 0) h = 0x300" for h c
    by (simp_all add: demo_runtime_def)
  have child: "re_launch (demo_runtime 0) h = snd (child_run demo_child [''sh''] \<lparr>launch_failed = 0, errno = 0\<rparr> demo_start)" for h
    by (simp add: demo_child_def demo_runtime_def child_run_def call_sys_child_def)
  have acc: "accepted (grate_env.truncate (demo_runtime 0)) started (as_u64 (sint (5 :: i32))) (ge_cage (demo_runtime 0))
      (policy_calls (b_policy demo_builder) @ b_handlers demo_builder)"
    by (simp add: policy_calls_def) (simp add: demo_runtime_def)
  have "int_str 2 = ''2''" by code_simp
  with run_reports_result [OF demo_in_parent [of 0], of demo_start demo_builder "0x300" demo_child demo_start] sys child acc
  show ?thesis by (fastforce simp: demo_child_def demo_runtime_def exit_code_def)
qed

end
