(* ===== verification/Fd_Grate_Props.thy ===== *)
theory Fd_Grate_Props
  imports Fd_Grates Grate_Builder
begin

text \<open>
  Properties of the grates over shadow descriptor tables.  The tables are a parameter with the
  behaviour \<open>shadow_ok\<close>; the write filter refines a map from descriptors to whether they are
  blocked, the null device never reaches the runtime, and the counters of the stress test count all
  writes in every interleaving.
\<close>

section \<open>The behaviour of the tables\<close>

text \<open>A table holds the descriptors below a limit \<open>L\<close> (\<open>FD_PER_PROCESS_MAX\<close> of the crate) and
  installs any of them; an exec drops the close-on-exec entries of the cage; copying a table succeeds.\<close>

definition shadow_ok :: "'ft shadow_env \<Rightarrow> nat \<Rightarrow> bool" where
  "shadow_ok E L \<longleftrightarrow>
     fdtables_ok (fe_fd E) \<and> L < 2 ^ 31 \<and>
     (\<forall>ft c fd k u e p. get_specific_virtual_fd (fe_fd E) ft c fd k u e p = None \<longleftrightarrow> L \<le> fd) \<and>
     (\<forall>ft c c' fd. translate_virtual_fd (fe_fd E) (fe_exec E ft c) c' fd =
        (case translate_virtual_fd (fe_fd E) ft c' fd of
           Some e \<Rightarrow> if c' = c \<and> should_cloexec e then None else Some e | None \<Rightarrow> None)) \<and>
     (\<forall>ft p c. copy_fdtable_for_cage (fe_fd E) ft p c \<noteq> None)"

lemma shadow_okD:
  assumes "shadow_ok E L"
  shows "fdtables_ok (fe_fd E)" "L < 2 ^ 31"
    "get_specific_virtual_fd (fe_fd E) ft c fd k u e p = None \<longleftrightarrow> L \<le> fd"
    "translate_virtual_fd (fe_fd E) (fe_exec E ft c) c' fd =
        (case translate_virtual_fd (fe_fd E) ft c' fd of
           Some e \<Rightarrow> if c' = c \<and> should_cloexec e then None else Some e | None \<Rightarrow> None)"
    "copy_fdtable_for_cage (fe_fd E) ft p c' \<noteq> None"
  using assms unfolding shadow_ok_def by (elim conjE; blast)+

text \<open>The invariant of the tables the grates build: descriptors below the limit, none to close on exec.\<close>

definition shadow_inv :: "'ft shadow_env \<Rightarrow> nat \<Rightarrow> 'ft \<Rightarrow> bool" where
  "shadow_inv E L ft \<longleftrightarrow>
     (\<forall>c fd e. translate_virtual_fd (fe_fd E) ft c fd = Some e \<longrightarrow> fd < L \<and> \<not> should_cloexec e)"

type_synonym shadow = "nat \<Rightarrow> nat \<Rightarrow> fd_entry option"

abbreviation shadow_of :: "'ft shadow_env \<Rightarrow> 'ft \<Rightarrow> shadow" where
  "shadow_of E ft \<equiv> translate_virtual_fd (fe_fd E) ft"

definition shadow_set :: "nat \<Rightarrow> nat \<Rightarrow> fd_entry option \<Rightarrow> shadow \<Rightarrow> shadow" where
  "shadow_set c fd x S = (\<lambda>c' fd'. if c' = c \<and> fd' = fd then x else S c' fd')"

lemma fd_maps_shadow: "fd_maps (fe_fd E) ft c fd x ft' \<Longrightarrow> shadow_of E ft' = shadow_set c fd x (shadow_of E ft)"
  by (simp add: fd_maps_def shadow_set_def fun_eq_iff)

lemma installed_hist [simp]: "hist (installed E c fd e w) = hist w"
  by (simp add: installed_def split: option.split)

lemma closed_hist [simp]: "hist (closed E c fd w) = hist w"
  by (simp add: closed_def split: option.split)

lemma std_fds_hist [simp]: "hist (std_fds E c w) = hist w"
  by (simp add: std_fds_def)

lemma installed_shadow:
  assumes "shadow_ok E L"
  shows "shadow_of E (fdt (installed E c fd e w)) = (if fd < L then shadow_set c fd (Some e) (shadow_of E (fdt w)) else shadow_of E (fdt w))"
proof (cases "get_specific_virtual_fd (fe_fd E) (fdt w) c fd (fdkind e) (underfd e) (should_cloexec e) (perfdinfo e)")
  case None
  then have "\<not> fd < L" using shadow_okD(3) [OF assms] by (metis linorder_not_less)
  with None show ?thesis by (simp add: installed_def)
next
  case (Some ft)
  then have "fd < L" using shadow_okD(3) [OF assms] by (metis linorder_not_less option.distinct(1))
  moreover have "shadow_of E ft = shadow_set c fd (Some e) (shadow_of E (fdt w))"
    using fd_maps_shadow [OF fd_specific_law [OF shadow_okD(1) [OF assms] Some]] by (cases e) simp
  ultimately show ?thesis using Some by (simp add: installed_def)
qed

lemma closed_shadow:
  assumes "shadow_ok E L"
  shows "shadow_of E (fdt (closed E c fd w)) = shadow_set c fd None (shadow_of E (fdt w))"
  using fd_close_cases [OF shadow_okD(1) [OF assms], of "fdt w" c fd]
  by (auto simp: closed_def shadow_set_def fun_eq_iff fd_maps_shadow split: option.splits)

lemma annotated_hist [simp]: "hist (annotated E c fd p w) = hist w"
  by (simp add: annotated_def split: option.split)

lemma annotated_shadow:
  assumes "shadow_ok E L"
  shows "shadow_of E (fdt (annotated E c fd p w)) =
    (case shadow_of E (fdt w) c fd of None \<Rightarrow> shadow_of E (fdt w)
     | Some e \<Rightarrow> shadow_set c fd (Some (e\<lparr>perfdinfo := p\<rparr>)) (shadow_of E (fdt w)))"
  using fd_perfd_cases [OF shadow_okD(1) [OF assms], of "fdt w" c fd p]
  by (auto simp: annotated_def fd_maps_shadow split: option.splits)

lemma std_fds_shadow:
  assumes "shadow_ok E L"
  shows "shadow_of E (fdt (std_fds E c w)) = (\<lambda>c' fd. if c' = c \<and> fd < 3 \<and> fd < L then Some (mk_entry 0 fd False 0) else shadow_of E (fdt w) c' fd)"
  by (auto simp: std_fds_def installed_shadow [OF assms] shadow_set_def fun_eq_iff less_Suc_eq numeral_3_eq_3)

lemma forward_fdt [simp]: "fdt (snd (fd_forward E w nr c a g)) = fdt w"
  by (simp add: fd_forward_def Let_def)

lemma forward_same: "fd_forward E w nr c a g = (ret, w') \<Longrightarrow> fdt w' = fdt w"
  by (metis forward_fdt snd_conv)

section \<open>The shared life cycle\<close>

text \<open>
  The contract of the four handlers that every grate with shadow tables has, in terms of the shadow: a fork
  copies the table of the parent, an exec resets the standard streams, a duplicate gets the entry of the
  original, and nothing else changes.
\<close>

locale shadow_lifecycle =
  fixes fork :: "'ft shadow_env \<Rightarrow> ('ft, 'a) grate_world_scheme \<Rightarrow> nat list \<Rightarrow> nat list \<Rightarrow> int \<times> ('ft, 'a) grate_world_scheme"
    and exec :: "'ft shadow_env \<Rightarrow> ('ft, 'a) grate_world_scheme \<Rightarrow> nat list \<Rightarrow> nat list \<Rightarrow> int \<times> ('ft, 'a) grate_world_scheme"
    and dup :: "'ft shadow_env \<Rightarrow> ('ft, 'a) grate_world_scheme \<Rightarrow> nat list \<Rightarrow> nat list \<Rightarrow> int \<times> ('ft, 'a) grate_world_scheme"
    and dup2 :: "'ft shadow_env \<Rightarrow> ('ft, 'a) grate_world_scheme \<Rightarrow> nat list \<Rightarrow> nat list \<Rightarrow> int \<times> ('ft, 'a) grate_world_scheme"
  assumes fork_shadow: "shadow_ok E L \<Longrightarrow> fork E w a g = (ret, w') \<Longrightarrow> shadow_of E (fdt w') =
      (if 0 < ret \<and> \<not> is_thread_clone (fe_g E) w' (a ! 0) (g ! 0)
       then (\<lambda>c fd. shadow_of E (fdt w) (if c = as_u64 ret then g ! 0 else c) fd) else shadow_of E (fdt w))"
    and exec_shadow: "shadow_ok E L \<Longrightarrow> shadow_inv E L (fdt w) \<Longrightarrow> exec E w a g = (ret, w') \<Longrightarrow> shadow_of E (fdt w') =
      (\<lambda>c fd. if c = g ! 0 \<and> fd < 3 \<and> fd < L then Some (mk_entry 0 fd False 0) else shadow_of E (fdt w) c fd)"
    and dup_shadow: "shadow_ok E L \<Longrightarrow> dup E w a g = (ret, w') \<Longrightarrow> shadow_of E (fdt w) (g ! 0) (a ! 0) = Some e \<Longrightarrow> 0 \<le> ret \<Longrightarrow>
      as_u64 ret < L \<Longrightarrow> shadow_of E (fdt w') = shadow_set (g ! 0) (as_u64 ret) (Some e) (shadow_of E (fdt w))"
    and dup2_shadow: "shadow_ok E L \<Longrightarrow> dup2 E w a g = (ret, w') \<Longrightarrow> shadow_of E (fdt w) (g ! 0) (a ! 0) = Some e \<Longrightarrow> 0 \<le> ret \<Longrightarrow>
      a ! 1 < L \<Longrightarrow> shadow_of E (fdt w') = shadow_set (g ! 0) (a ! 1) (Some e) (shadow_of E (fdt w))"
begin

text \<open>A process that duplicates a descriptor and forks: the child's duplicate is the parent's original.\<close>

lemma child_gets_duplicate:
  assumes "shadow_ok E L" "shadow_of E (fdt w) (g ! 0) (a ! 0) = Some e"
    and "dup2 E w a g = (r1, w1)" "0 \<le> r1" "a ! 1 < L"
    and "fork E w1 a' g = (r2, w2)" "0 < r2" "\<not> is_thread_clone (fe_g E) w2 (a' ! 0) (g ! 0)"
  shows "shadow_of E (fdt w2) (as_u64 r2) (a ! 1) = Some e"
  using dup2_shadow [OF assms(1,3,2,4,5)] fork_shadow [OF assms(1,6)] assms(7,8) by (simp add: shadow_set_def)

text \<open>Descriptors above the standard streams survive an exec.\<close>

lemma exec_keeps:
  assumes "shadow_ok E L" "shadow_inv E L (fdt w)" "exec E w a g = (ret, w')" "3 \<le> fd"
  shows "shadow_of E (fdt w') c fd = shadow_of E (fdt w) c fd"
  using exec_shadow [OF assms(1-3)] assms(4) by simp

end

lemma shadow_inv_exec:
  assumes "shadow_ok E L" "shadow_inv E L (fdt w)"
  shows "shadow_of E (fe_exec E (fdt w) c) = shadow_of E (fdt w)"
  using assms(2) by (auto simp: fun_eq_iff shadow_okD(4) [OF assms(1)] shadow_inv_def split: option.split)

lemma fork_tables_shadow:
  assumes "shadow_ok E L" "fork_tables E w a g = (ret, w')"
  shows "shadow_of E (fdt w') =
      (if 0 < ret \<and> \<not> is_thread_clone (fe_g E) w' (a ! 0) (g ! 0)
       then (\<lambda>c fd. shadow_of E (fdt w) (if c = as_u64 ret then g ! 0 else c) fd) else shadow_of E (fdt w))"
proof -
  obtain r w1 where f: "fd_forward E w SYS_CLONE (g ! 0) a g = (r, w1)" by fastforce
  obtain ft' where c: "copy_fdtable_for_cage (fe_fd E) (fdt w1) (g ! 0) (as_u64 r) = Some ft'"
    using shadow_okD(5) [OF assms(1)] by (metis not_None_eq)
  have "is_thread_clone (fe_g E) (w1\<lparr>fdt := ft'\<rparr>) p q = is_thread_clone (fe_g E) w1 p q" for p q by (simp add: is_thread_clone_def)
  then show ?thesis using assms(2) c forward_same [OF f] fd_copy_law [OF shadow_okD(1) [OF assms(1)] c]
    by (auto simp: fork_tables_def f fun_eq_iff split: if_splits)
qed

lemma exec_tables_shadow:
  assumes "shadow_ok E L" "shadow_inv E L (fdt w)" "exec_tables E w a g = (ret, w')"
  shows "shadow_of E (fdt w') = (\<lambda>c fd. if c = g ! 0 \<and> fd < 3 \<and> fd < L then Some (mk_entry 0 fd False 0) else shadow_of E (fdt w) c fd)"
proof -
  let ?w = "std_fds E (g ! 0) (w\<lparr>fdt := fe_exec E (fdt w) (g ! 0)\<rparr>)"
  have "fd_forward E ?w SYS_EXEC (g ! 0) a g = (ret, w')" using assms(3) by (simp add: exec_tables_def)
  from forward_same [OF this] show ?thesis
    using std_fds_shadow [OF assms(1), of "g ! 0" "w\<lparr>fdt := fe_exec E (fdt w) (g ! 0)\<rparr>"] shadow_inv_exec [OF assms(1,2)] by (simp add: fun_eq_iff)
qed

lemma dup_tables_shadow:
  assumes "shadow_ok E L" "dup_tables E w nr newfd a g = (ret, w')" "shadow_of E (fdt w) (g ! 0) (a ! 0) = Some e" "0 \<le> ret" "newfd ret < L"
  shows "shadow_of E (fdt w') = shadow_set (g ! 0) (newfd ret) (Some e) (shadow_of E (fdt w))"
proof -
  obtain r w1 where f: "fd_forward E w nr (g ! 0) a g = (r, w1)" by fastforce
  then show ?thesis using assms(2-5) forward_same [OF f] installed_shadow [OF assms(1), of "g ! 0" "newfd ret" e w1]
    by (auto simp: dup_tables_def f split: if_splits)
qed

interpretation wf_life: shadow_lifecycle wf_fork_handler wf_exec_handler wf_dup_handler wf_dup2_handler
  unfolding wf_fork_handler_def wf_exec_handler_def wf_dup_handler_def wf_dup2_handler_def
  by unfold_locales (fact fork_tables_shadow exec_tables_shadow dup_tables_shadow)+

interpretation dn_life: shadow_lifecycle dn_fork_handler dn_exec_handler dn_dup_handler dn_dup2_handler
  unfolding dn_fork_handler_def dn_exec_handler_def dn_dup_handler_def dn_dup2_handler_def
  by unfold_locales (fact fork_tables_shadow exec_tables_shadow dup_tables_shadow)+

interpretation fdt_life: shadow_lifecycle fdt_fork_handler fdt_exec_handler fdt_dup_handler fdt_dup2_handler
  unfolding fdt_fork_handler_def fdt_exec_handler_def fdt_dup_handler_def fdt_dup2_handler_def
  by unfold_locales (fact fork_tables_shadow exec_tables_shadow dup_tables_shadow)+

section \<open>The write filter\<close>

text \<open>The abstract state: which descriptors are known, and of those which may not be written.\<close>

definition wf_abs :: "'ft shadow_env \<Rightarrow> 'ft \<Rightarrow> nat \<times> nat \<Rightarrow> bool option" where
  "wf_abs E ft = (\<lambda>(c, fd). map_option (\<lambda>e. perfdinfo e = 1) (shadow_of E ft c fd))"

definition mark :: "nat \<Rightarrow> nat \<Rightarrow> nat \<Rightarrow> bool \<Rightarrow> (nat \<times> nat \<Rightarrow> bool option) \<Rightarrow> nat \<times> nat \<Rightarrow> bool option" where
  "mark L c fd b T = (if fd < L then T((c, fd) \<mapsto> b) else T)"

text \<open>What one intercepted call, answered with \<open>ret\<close>, does to it: an open blocks the new descriptor
  unless the name is that of a log file, duplicates inherit, a child gets the descriptors of its
  parent, an exec unblocks the standard streams, a close forgets.\<close>

definition wf_spec ::
  "nat \<Rightarrow> nat \<Rightarrow> nat list \<Rightarrow> nat list \<Rightarrow> bool \<Rightarrow> bool \<Rightarrow> int \<Rightarrow> (nat \<times> nat \<Rightarrow> bool option) \<Rightarrow> nat \<times> nat \<Rightarrow> bool option" where
  "wf_spec L nr a g log thread ret T =
     (if nr = SYS_OPEN then (if 0 \<le> ret then mark L (g ! 0) (as_u64 ret) (\<not> log) T else T)
      else if nr = SYS_CLONE then
        (if 0 < ret \<and> \<not> thread then (\<lambda>(c, fd). T (if c = as_u64 ret then g ! 0 else c, fd)) else T)
      else if nr = SYS_EXECVE then mark L (g ! 0) 0 False (mark L (g ! 0) 1 False (mark L (g ! 0) 2 False T))
      else if nr = SYS_DUP then
        (case T (g ! 0, a ! 0) of Some b \<Rightarrow> if 0 \<le> ret then mark L (g ! 0) (as_u64 ret) b T else T | None \<Rightarrow> T)
      else if nr = SYS_DUP2 then
        (case T (g ! 0, a ! 0) of Some b \<Rightarrow> if 0 \<le> ret then mark L (g ! 0) (a ! 1) b T else T | None \<Rightarrow> T)
      else if nr = SYS_CLOSE then T((g ! 0, a ! 0) := None)
      else T)"

lemma forward_ret: "fst (fd_forward E w nr c a g) = (let r = ge_sys (fe_g E) (hist w) (plain_call nr (ge_cage (fe_g E)) c a g) in if r < 0 then -1 else r)"
  by (simp add: fd_forward_def make_threei_call_def Let_def)

lemma wf_abs_at: "wf_abs E ft (c, fd) = map_option (\<lambda>e. perfdinfo e = 1) (shadow_of E ft c fd)"
  by (simp add: wf_abs_def)

lemma wf_abs_set: "shadow_of E ft' = shadow_set c fd x (shadow_of E ft) \<Longrightarrow>
    wf_abs E ft' = (wf_abs E ft)((c, fd) := map_option (\<lambda>e. perfdinfo e = 1) x)"
  by (auto simp: wf_abs_def shadow_set_def fun_eq_iff)

lemma wf_abs_installed:
  "shadow_ok E L \<Longrightarrow> wf_abs E (fdt (installed E c fd e w)) = mark L c fd (perfdinfo e = 1) (wf_abs E (fdt w))"
  using installed_shadow [of E L c fd e w] by (cases "fd < L") (simp_all add: mark_def wf_abs_set, simp add: wf_abs_def)

lemma wf_abs_closed: "shadow_ok E L \<Longrightarrow> wf_abs E (fdt (closed E c fd w)) = (wf_abs E (fdt w))((c, fd) := None)"
  using closed_shadow [of E L c fd w] by (simp add: wf_abs_set)

lemma wf_abs_annotated:
  assumes "shadow_ok E L"
  shows "wf_abs E (fdt (annotated E c fd 1 w)) =
    (case wf_abs E (fdt w) (c, fd) of None \<Rightarrow> wf_abs E (fdt w) | Some b \<Rightarrow> (wf_abs E (fdt w))((c, fd) \<mapsto> True))"
proof (cases "shadow_of E (fdt w) c fd")
  case None
  then show ?thesis using annotated_shadow [OF assms, of c fd 1 w] by (simp add: wf_abs_def)
next
  case (Some e)
  then show ?thesis using wf_abs_set [OF annotated_shadow [OF assms, of c fd 1 w, unfolded Some option.case]]
    by (simp add: wf_abs_def)
qed

lemma shadow_inv_set:
  "shadow_inv E L ft \<Longrightarrow> shadow_of E ft' = shadow_set c fd x (shadow_of E ft) \<Longrightarrow>
   (\<And>e. x = Some e \<Longrightarrow> fd < L \<and> \<not> should_cloexec e) \<Longrightarrow> shadow_inv E L ft'"
  by (auto simp: shadow_inv_def shadow_set_def)

lemma shadow_inv_installed:
  assumes "shadow_ok E L" "shadow_inv E L (fdt w)" "\<not> should_cloexec e"
  shows "shadow_inv E L (fdt (installed E c fd e w))"
proof (cases "fd < L")
  case True
  then have "shadow_of E (fdt (installed E c fd e w)) = shadow_set c fd (Some e) (shadow_of E (fdt w))"
    using installed_shadow [OF assms(1), of c fd e w] by simp
  with True assms(2,3) show ?thesis by (rule_tac shadow_inv_set) auto
next
  case False
  then show ?thesis using assms(2) installed_shadow [OF assms(1), of c fd e w] by (simp add: shadow_inv_def)
qed

lemma shadow_inv_closed: "shadow_ok E L \<Longrightarrow> shadow_inv E L (fdt w) \<Longrightarrow> shadow_inv E L (fdt (closed E c fd w))"
  by (rule shadow_inv_set) (auto simp: closed_shadow)

lemma shadow_inv_annotated:
  assumes "shadow_ok E L" "shadow_inv E L (fdt w)"
  shows "shadow_inv E L (fdt (annotated E c fd p w))"
  using annotated_shadow [OF assms(1), of c fd p w] assms(2)
  by (auto simp: shadow_inv_def shadow_set_def split: option.splits if_splits)

section \<open>Each handler of the write filter refines its specification\<close>

definition wf_refines :: "'ft shadow_env \<Rightarrow> nat \<Rightarrow> nat \<Rightarrow> ('ft shadow_env \<Rightarrow> 'ft grate_world \<Rightarrow> nat list \<Rightarrow> nat list \<Rightarrow> int \<times> 'ft grate_world) \<Rightarrow> bool" where
  "wf_refines E L nr h \<longleftrightarrow>
     (\<forall>w a g. shadow_inv E L (fdt w) \<longrightarrow>
        (let (ret, w') = h E w a g in
         shadow_inv E L (fdt w') \<and>
         wf_abs E (fdt w') = wf_spec L nr a g (is_log (path_arg E w (a ! 0) (g ! 0)))
           (is_thread_clone (fe_g E) w' (a ! 0) (g ! 0)) ret (wf_abs E (fdt w))))"

lemma wf_abs_above: "shadow_inv E L ft \<Longrightarrow> L \<le> fd \<Longrightarrow> wf_abs E ft (c, fd) = None"
  by (cases "shadow_of E ft c fd") (fastforce simp: wf_abs_def shadow_inv_def)+

lemma wf_open_refines:
  assumes "shadow_ok E L"
  shows "wf_refines E L SYS_OPEN wf_open_handler"
  unfolding wf_refines_def
proof (intro allI impI)
  fix w :: "'a grate_world" and a g assume inv: "shadow_inv E L (fdt w)"
  let ?c = "plain_call SYS_OPEN (ge_cage (fe_g E)) (g ! 0) a g"
  let ?r = "ge_sys (fe_g E) (hist w) ?c"
  let ?fd = "as_u64 ?r"
  let ?w = "installed E (g ! 0) ?fd (mk_entry 0 ?fd False 0) (log_event (Threei ?c) w)"
  have L: "L \<le> as_u64 (-1)" using shadow_okD(2) [OF assms] by (simp add: as_u64_def)
  have inv': "shadow_inv E L (fdt ?w)" using inv by (intro shadow_inv_installed [OF assms]) simp_all
  have abs': "wf_abs E (fdt ?w) = mark L (g ! 0) ?fd False (wf_abs E (fdt w))"
    using wf_abs_installed [OF assms, of "g ! 0" ?fd "mk_entry 0 ?fd False 0" "log_event (Threei ?c) w"] by simp
  show "let (ret, w') = wf_open_handler E w a g in shadow_inv E L (fdt w') \<and>
      wf_abs E (fdt w') = wf_spec L SYS_OPEN a g (is_log (path_arg E w (a ! 0) (g ! 0)))
        (is_thread_clone (fe_g E) w' (a ! 0) (g ! 0)) ret (wf_abs E (fdt w))"
  proof (cases "?r < 0")
    case True
    let ?w1 = "log_event (Threei ?c) w"
    have "shadow_inv E L (fdt ?w1)" "wf_abs E (fdt ?w1) (g ! 0, as_u64 (-1)) = None" using inv wf_abs_above [OF inv L] by simp_all
    then show ?thesis using True inv shadow_inv_annotated [OF assms, of ?w1] wf_abs_annotated [OF assms, of "g ! 0" "as_u64 (-1)" ?w1]
      by (simp add: wf_open_handler_def make_threei_call_def wf_spec_def Let_def)
  next
    case False
    have "mark L (g ! 0) ?fd False (wf_abs E (fdt w)) (g ! 0, ?fd) = (if ?fd < L then Some False else None)"
      using wf_abs_above [OF inv, of ?fd] by (simp add: mark_def)
    then show ?thesis using False inv' abs' shadow_inv_annotated [OF assms inv'] wf_abs_annotated [OF assms, of "g ! 0" ?fd ?w]
      by (simp add: wf_open_handler_def make_threei_call_def wf_spec_def Let_def mark_def)
  qed
qed

lemma wf_write_refines: "nr \<in> {SYS_WRITE, SYS_PWRITE, SYS_WRITEV} \<Longrightarrow> wf_refines E L nr (wf_write_call nr)"
  by (auto simp: wf_refines_def wf_write_call_def wf_spec_def Let_def split: prod.split) (metis forward_fdt snd_conv)+

lemma wf_fork_refines:
  assumes "shadow_ok E L"
  shows "wf_refines E L SYS_CLONE wf_fork_handler"
  unfolding wf_refines_def
proof (intro allI impI)
  fix w :: "'a grate_world" and a g assume inv: "shadow_inv E L (fdt w)"
  obtain ret w' where h: "wf_fork_handler E w a g = (ret, w')" by fastforce
  show "let (ret, w') = wf_fork_handler E w a g in shadow_inv E L (fdt w') \<and>
      wf_abs E (fdt w') = wf_spec L SYS_CLONE a g (is_log (path_arg E w (a ! 0) (g ! 0)))
        (is_thread_clone (fe_g E) w' (a ! 0) (g ! 0)) ret (wf_abs E (fdt w))"
    using inv by (auto simp: h wf_life.fork_shadow [OF assms h] shadow_inv_def wf_abs_def wf_spec_def fun_eq_iff)
qed

lemma wf_exec_refines:
  assumes "shadow_ok E L"
  shows "wf_refines E L SYS_EXECVE wf_exec_handler"
  unfolding wf_refines_def
proof (intro allI impI)
  fix w :: "'a grate_world" and a g assume inv: "shadow_inv E L (fdt w)"
  obtain ret w' where h: "wf_exec_handler E w a g = (ret, w')" by fastforce
  note sh = wf_life.exec_shadow [OF assms inv h]
  have "wf_abs E (fdt w') = mark L (g ! 0) 0 False (mark L (g ! 0) 1 False (mark L (g ! 0) 2 False (wf_abs E (fdt w))))"
    by (auto simp: wf_abs_def mark_def fun_eq_iff sh less_Suc_eq numeral_3_eq_3)
  moreover have "shadow_inv E L (fdt w')" using inv by (auto simp: sh shadow_inv_def split: if_splits)
  ultimately show "let (ret, w') = wf_exec_handler E w a g in shadow_inv E L (fdt w') \<and>
      wf_abs E (fdt w') = wf_spec L SYS_EXECVE a g (is_log (path_arg E w (a ! 0) (g ! 0)))
        (is_thread_clone (fe_g E) w' (a ! 0) (g ! 0)) ret (wf_abs E (fdt w))"
    by (simp add: h wf_spec_def)
qed

lemma wf_dup_tables:
  assumes "shadow_ok E L" "shadow_inv E L (fdt w)" "dup_tables E w nr newfd a g = (ret, w')"
  shows "shadow_inv E L (fdt w')"
    "wf_abs E (fdt w') = (case wf_abs E (fdt w) (g ! 0, a ! 0) of
       Some b \<Rightarrow> if 0 \<le> ret then mark L (g ! 0) (newfd ret) b (wf_abs E (fdt w)) else wf_abs E (fdt w) | None \<Rightarrow> wf_abs E (fdt w))"
proof -
  obtain r w1 where f: "fd_forward E w nr (g ! 0) a g = (r, w1)" by fastforce
  have ft: "fdt w1 = fdt w" using forward_fdt [of E w nr "g ! 0" a g] f by simp
  have inv: "shadow_inv E L (fdt w1)" using assms(2) ft by simp
  have ne: "shadow_of E (fdt w) c fd = Some e \<Longrightarrow> \<not> should_cloexec e" for c fd e
    using assms(2) unfolding shadow_inv_def by blast
  show "shadow_inv E L (fdt w')" using assms(3) inv ne [folded ft] shadow_inv_installed [OF assms(1) inv]
    by (auto simp: dup_tables_def f split: if_splits option.splits)
  show "wf_abs E (fdt w') = (case wf_abs E (fdt w) (g ! 0, a ! 0) of
       Some b \<Rightarrow> if 0 \<le> ret then mark L (g ! 0) (newfd ret) b (wf_abs E (fdt w)) else wf_abs E (fdt w) | None \<Rightarrow> wf_abs E (fdt w))"
    unfolding ft [symmetric] using assms(3) wf_abs_installed [OF assms(1), of "g ! 0" "newfd ret" _ w1]
    by (cases "shadow_of E (fdt w1) (g ! 0) (a ! 0)") (auto simp: dup_tables_def f wf_abs_at split: if_splits)
qed

lemma wf_dup_refines:
  assumes "shadow_ok E L"
  shows "wf_refines E L SYS_DUP wf_dup_handler" "wf_refines E L SYS_DUP2 wf_dup2_handler"
proof -
  have spec: "wf_spec L SYS_DUP a g l t ret T = (case T (g ! 0, a ! 0) of Some b \<Rightarrow> if 0 \<le> ret then mark L (g ! 0) (as_u64 ret) b T else T | None \<Rightarrow> T)"
    "wf_spec L SYS_DUP2 a g l t ret T = (case T (g ! 0, a ! 0) of Some b \<Rightarrow> if 0 \<le> ret then mark L (g ! 0) (a ! 1) b T else T | None \<Rightarrow> T)"
    for a g l t ret T by (simp_all add: wf_spec_def)
  show "wf_refines E L SYS_DUP wf_dup_handler" unfolding wf_refines_def wf_dup_handler_def spec Let_def
    by (intro allI impI, simp only: split_beta, intro conjI; rule wf_dup_tables [OF assms], assumption, rule prod.collapse [symmetric])
  show "wf_refines E L SYS_DUP2 wf_dup2_handler" unfolding wf_refines_def wf_dup2_handler_def spec Let_def
    by (intro allI impI, simp only: split_beta, intro conjI; rule wf_dup_tables [OF assms], assumption, rule prod.collapse [symmetric])
qed

lemma wf_close_refines:
  assumes "shadow_ok E L"
  shows "wf_refines E L SYS_CLOSE wf_close_handler"
  unfolding wf_refines_def
proof (intro allI impI)
  fix w :: "'a grate_world" and a g assume inv: "shadow_inv E L (fdt w)"
  obtain ret w1 where f: "fd_forward E w SYS_CLOSE (g ! 0) a g = (ret, w1)" by fastforce
  have ft: "fdt w1 = fdt w" using forward_fdt [of E w SYS_CLOSE "g ! 0" a g] f by simp
  have "shadow_inv E L (fdt w1)" using inv ft by simp
  from shadow_inv_closed [OF assms this]
  show "let (ret, w') = wf_close_handler E w a g in shadow_inv E L (fdt w') \<and>
      wf_abs E (fdt w') = wf_spec L SYS_CLOSE a g (is_log (path_arg E w (a ! 0) (g ! 0)))
        (is_thread_clone (fe_g E) w' (a ! 0) (g ! 0)) ret (wf_abs E (fdt w))"
    using wf_abs_closed [OF assms, of "g ! 0" "a ! 0" w1]
    by (simp add: wf_close_handler_def f ft wf_spec_def)
qed

lemma wf_handlers_refine:
  assumes "shadow_ok E L" "map_of wf_handlers nr = Some h"
  shows "wf_refines E L nr h"
  using assms(2) wf_open_refines [OF assms(1)] wf_write_refines [of _ E L] wf_fork_refines [OF assms(1)] wf_exec_refines [OF assms(1)]
    wf_dup_refines [OF assms(1)] wf_close_refines [OF assms(1)]
  by (auto simp: wf_handlers_def wf_write_handler_def wf_writev_handler_def wf_pwrite_handler_def split: if_splits)

text \<open>A run of calls; a call that is not intercepted does not touch the grate.\<close>

type_synonym call = "nat \<times> nat list \<times> nat list"

fun wf_run :: "'ft shadow_env \<Rightarrow> 'ft grate_world \<Rightarrow> call list \<Rightarrow> 'ft grate_world" where
  "wf_run E w [] = w"
| "wf_run E w ((nr, a, g) # calls) =
     (case map_of wf_handlers nr of Some h \<Rightarrow> wf_run E (snd (h E w a g)) calls | None \<Rightarrow> wf_run E w calls)"

fun wf_spec_run :: "'ft shadow_env \<Rightarrow> nat \<Rightarrow> 'ft grate_world \<Rightarrow> call list \<Rightarrow> (nat \<times> nat \<Rightarrow> bool option) \<Rightarrow> nat \<times> nat \<Rightarrow> bool option" where
  "wf_spec_run E L w [] T = T"
| "wf_spec_run E L w ((nr, a, g) # calls) T =
     (case map_of wf_handlers nr of
        Some h \<Rightarrow> (let (ret, w') = h E w a g in
          wf_spec_run E L w' calls
            (wf_spec L nr a g (is_log (path_arg E w (a ! 0) (g ! 0))) (is_thread_clone (fe_g E) w' (a ! 0) (g ! 0)) ret T))
      | None \<Rightarrow> wf_spec_run E L w calls T)"

lemma wf_run_abs:
  assumes "shadow_ok E L"
  shows "shadow_inv E L (fdt w) \<Longrightarrow> shadow_inv E L (fdt (wf_run E w calls)) \<and>
    wf_abs E (fdt (wf_run E w calls)) = wf_spec_run E L w calls (wf_abs E (fdt w))"
proof (induction calls arbitrary: w)
  case (Cons x calls)
  obtain nr a g where x: "x = (nr, a, g)" by (cases x)
  show ?case
  proof (cases "map_of wf_handlers nr :: ('a shadow_env \<Rightarrow> 'a grate_world \<Rightarrow> nat list \<Rightarrow> nat list \<Rightarrow> int \<times> 'a grate_world) option")
    case (Some h)
    obtain ret w' where h: "h E w a g = (ret, w')" by fastforce
    have "shadow_inv E L (fdt w') \<and> wf_abs E (fdt w') = wf_spec L nr a g (is_log (path_arg E w (a ! 0) (g ! 0)))
        (is_thread_clone (fe_g E) w' (a ! 0) (g ! 0)) ret (wf_abs E (fdt w))"
      using wf_handlers_refine [OF assms Some, unfolded wf_refines_def, rule_format, OF Cons.prems, of a g] by (simp add: h)
    then show ?thesis using Cons.IH [of w'] by (simp add: x Some h)
  next
    case None
    then show ?thesis using Cons by (simp add: x)
  qed
qed simp

lemma blocked_abs: "is_fd_blocked E ft c fd \<longleftrightarrow> wf_abs E ft (c, fd) = Some True"
  by (simp add: is_fd_blocked_def wf_abs_def split: option.split)

text \<open>C35.  The write filter keeps its word over every run: whatever calls cages make, the tables abstract to what the
  specification computes from the calls and their results, and a write, positioned write or vectored write is refused with
  \<open>EPERM\<close>, without a call to the runtime, exactly when the specification says that the descriptor is blocked; otherwise it is
  forwarded unchanged.  Blocked are the descriptors of files whose names do \<open>not\<close> end in \<open>.log\<close>: this is what
  \<open>handlers.rs\<close> does, and the opposite of the comment at the head of \<open>main.rs\<close> (lines 1-2), which says
  that writes to files with the \<open>.log\<close> extension are blocked.  The theorem is about the code.\<close>

theorem write_filter_refines:
  fixes w :: "'ft grate_world"
  assumes "shadow_ok E L" "shadow_inv E L (fdt w)" "nr \<in> {SYS_WRITE, SYS_PWRITE, SYS_WRITEV}" "map_of wf_handlers nr = Some h"
  shows "wf_abs E (fdt (wf_run E w calls)) = wf_spec_run E L w calls (wf_abs E (fdt w)) \<and>
    h E (wf_run E w calls) a g =
      (if wf_spec_run E L w calls (wf_abs E (fdt w)) (g ! 0, a ! 0) = Some True
       then (-1, wf_run E w calls) else fd_forward E (wf_run E w calls) nr (g ! 0) a g)"
proof -
  have abs: "wf_abs E (fdt (wf_run E w calls)) = wf_spec_run E L w calls (wf_abs E (fdt w))"
    using wf_run_abs [OF assms(1,2)] by blast
  have "h = wf_write_call nr"
    using assms(3,4) by (auto simp: wf_handlers_def wf_write_handler_def wf_writev_handler_def wf_pwrite_handler_def)
  then show ?thesis by (simp add: abs wf_write_call_def blocked_abs)
qed

section \<open>A concrete environment\<close>

text \<open>A runtime that gives out descriptor 5, with the path \<open>/a\<close> at address 7 and \<open>/dev/null\<close> at address 8.\<close>

definition fd_demo :: "fd_map shadow_env" where
  "fd_demo =
     \<lparr>fe_g = \<lparr>ge_cage = 9, ge_sys = (\<lambda>h c. 5), ge_out = (\<lambda>h c i. []),
        ge_copystr = (\<lambda>h c p n. Some (if p = 7 then [0x2F, 0x61, 0] else as_bytes ''/dev/null'' @ [0])),
        ge_copymem = (\<lambda>h c p n. None), ge_copyout = (\<lambda>h c p bs. True), ge_register = (\<lambda>h a b c. 0), ge_fd = map_fdtables,
        ge_unused_errno = (\<lambda>ft c. 24), ge_specific_errno = (\<lambda>ft c fd. 9)\<rparr>,
      fe_exec = exec_fds\<rparr>"

lemma fd_demo_simps [simp]:
  "fe_fd fd_demo = map_fdtables" "fe_exec fd_demo = exec_fds" "ge_cage (fe_g fd_demo) = 9" "ge_sys (fe_g fd_demo) h c = 5"
  "ge_copystr (fe_g fd_demo) h cg p n = Some (if p = 7 then [0x2F, 0x61, 0] else as_bytes ''/dev/null'' @ [0])"
  by (simp_all add: fd_demo_def)

lemma fd_demo_ok: "shadow_ok fd_demo 8"
proof -
  have "copy_fdtable_for_cage map_fdtables ft p c \<noteq> None" for ft p c by (simp add: map_fdtables_def)
  then show ?thesis by (simp add: shadow_ok_def map_fdtables_ok map_table_simps map_of_exec_fds)
qed

lemma lossy_ascii: "from_utf8_lossy [0x2F, 0x61] = ''/a''"
  by code_simp

lemma is_log_examples:
  "\<not> is_log ''/a''" "is_log ''/var/x.log''" "is_log ''x.tar.log/''" "\<not> is_log ''.log''" "\<not> is_log ''a.log/..''" "\<not> is_log ''a.LOG''"
  by code_simp+

text \<open>Open \<open>/a\<close> and write to the descriptor, then to a duplicate of descriptor 1.\<close>

theorem write_filter_refines_witness:
  "wf_write_handler fd_demo (wf_run fd_demo \<lparr>fdt = [], hist = []\<rparr> [(2, [7, 0, 0, 0, 0, 0], [4, 4, 4, 4, 4, 4])])
     [5, 0, 3, 0, 0, 0] [4, 4, 4, 4, 4, 4] =
   (-1, wf_run fd_demo \<lparr>fdt = [], hist = []\<rparr> [(2, [7, 0, 0, 0, 0, 0], [4, 4, 4, 4, 4, 4])])"
proof -
  let ?w = "\<lparr>fdt = [], hist = []\<rparr> :: fd_map grate_world"
  have inv: "shadow_inv fd_demo 8 (fdt ?w)" by (simp add: shadow_inv_def map_table_simps)
  have h: "map_of wf_handlers SYS_WRITE = Some wf_write_handler" by (simp add: wf_handlers_def)
  have "wf_spec_run fd_demo 8 ?w [(2, [7, 0, 0, 0, 0, 0], [4, 4, 4, 4, 4, 4])] (wf_abs fd_demo (fdt ?w)) (4, 5) = Some True"
    using is_log_examples(1) lossy_ascii
    by (simp add: wf_handlers_def wf_open_handler_def make_threei_call_def wf_spec_def path_arg_def c_str_bytes_def
        as_u64_def mark_def Let_def)
  with write_filter_refines [OF fd_demo_ok inv _ h, of "[(2, [7, 0, 0, 0, 0, 0], [4, 4, 4, 4, 4, 4])]" "[5, 0, 3, 0, 0, 0]" "[4, 4, 4, 4, 4, 4]"]
  show ?thesis by simp
qed

section \<open>The null device\<close>

text \<open> Opening \<open>/dev/null\<close> gives a fresh descriptor that behaves as the device and never reaches the
  runtime: reads return 0, a write of any length below \<open>2 ^ 31\<close> returns that length, closing succeeds and
  removes the descriptor, and none of the four calls adds anything to the history.\<close>

theorem devnull_device:
  fixes w :: "'ft grate_world"
  assumes "fdtables_ok (fe_fd E)" "path_arg E w (a ! 0) (g ! 0) = ''/dev/null''"
    and "get_unused_virtual_fd (fe_fd E) (fdt w) (g ! 0) DEVNULL_KIND 0 False 0 = Some (fd, ft)" "fd < 2 ^ 31" "n < 2 ^ 31"
    and "ra ! 0 = fd" "wa ! 0 = fd" "wa ! 2 = n" "ca ! 0 = fd"
  shows "translate_virtual_fd (fe_fd E) (fdt w) (g ! 0) fd = None \<and>
    (let (ret, w1) = dn_open_handler E w a g; (ret', w2) = dn_close_handler E w1 ca g in
     ret = int fd \<and> dn_read_handler E w1 ra g = (0, w1) \<and> dn_write_handler E w1 wa g = (int n, w1) \<and>
     ret' = 0 \<and> translate_virtual_fd (fe_fd E) (fdt w2) (g ! 0) fd = None \<and> hist w1 = hist w \<and> hist w2 = hist w)"
proof -
  let ?w = "w\<lparr>fdt := ft\<rparr>"
  note alloc = fd_alloc_law [OF assms(1,3)]
  have t: "translate_virtual_fd (fe_fd E) (fdt ?w) (g ! 0) fd = Some (mk_entry DEVNULL_KIND 0 False 0)"
    using fd_mapsD [OF conjunct2 [OF alloc]] by simp
  then have d: "is_devnull_fd E (fdt ?w) (g ! 0) fd" by (simp add: is_devnull_fd_def)
  obtain ft' where c: "close_virtualfd (fe_fd E) (fdt ?w) (g ! 0) fd = Some ft'"
    using t fd_close_None_iff [OF assms(1)] by (metis not_None_eq option.distinct(1))
  have "translate_virtual_fd (fe_fd E) ft' (g ! 0) fd = None" using fd_mapsD [OF fd_close_law [OF assms(1) c]] by simp
  then show ?thesis using alloc d c assms
    by (simp add: dn_open_handler_def dn_read_handler_def dn_write_handler_def dn_close_handler_def closed_def)
qed

text \<open>The descriptor is chosen from the shadow table, not by the runtime, so the two can give out the same number: a later
  open of a file that the runtime answers with the number of an open \<open>/dev/null\<close> replaces it, and the
  writes meant for the device go to the file.\<close>

lemma devnull_replaced:
  assumes "shadow_ok E L" "is_devnull_fd E (fdt w) (g ! 0) fd" "fd < L" "path_arg E w (a ! 0) (g ! 0) \<noteq> ''/dev/null''"
    "ge_sys (fe_g E) (hist w) (plain_call SYS_OPEN (ge_cage (fe_g E)) (g ! 0) a g) = int fd"
  shows "\<not> is_devnull_fd E (fdt (snd (dn_open_handler E w a g))) (g ! 0) fd"
proof -
  have "as_u64 (int fd) = fd" using assms(3) shadow_okD(2) [OF assms(1)] by (simp add: as_u64_def)
  then show ?thesis using assms(3-5) installed_shadow [OF assms(1), of "g ! 0" fd "mk_entry 0 fd False 0"
      "log_event (Threei (plain_call SYS_OPEN (ge_cage (fe_g E)) (g ! 0) a g)) w"]
    by (simp add: dn_open_handler_def fd_forward_def make_threei_call_def Let_def is_devnull_fd_def shadow_set_def DEVNULL_KIND_def)
qed

text \<open>Duplicates of the device are the device, also in a forked child.\<close>

lemma devnull_inherited:
  assumes "shadow_ok E L" "is_devnull_fd E (fdt w) (g ! 0) (a ! 0)" "dn_dup2_handler E w a g = (r1, w1)" "0 \<le> r1" "a ! 1 < L"
    and "dn_fork_handler E w1 a' g = (r2, w2)" "0 < r2" "\<not> is_thread_clone (fe_g E) w2 (a' ! 0) (g ! 0)"
  shows "is_devnull_fd E (fdt w2) (as_u64 r2) (a ! 1)"
proof -
  obtain e where "shadow_of E (fdt w) (g ! 0) (a ! 0) = Some e" "fdkind e = DEVNULL_KIND"
    using assms(2) by (auto simp: is_devnull_fd_def split: option.splits)
  then show ?thesis using dn_life.child_gets_duplicate [OF assms(1) _ assms(3-8)] by (simp add: is_devnull_fd_def)
qed

lemma lossy_devnull: "from_utf8_lossy (c_str_bytes (as_bytes ''/dev/null'' @ [0])) = ''/dev/null''"
  by code_simp

theorem devnull_device_witness:
  "(let w = \<lparr>fdt = [((4, 0), mk_entry 0 0 False 0)], hist = []\<rparr> :: fd_map grate_world; g = [4, 4, 4, 4, 4, 4];
        (ret, w1) = dn_open_handler fd_demo w [8, 0, 0, 0, 0, 0] g; (ret', w2) = dn_close_handler fd_demo w1 [1, 0, 0, 0, 0, 0] g in
    ret = 1 \<and> dn_read_handler fd_demo w1 [1, 50, 10, 0, 0, 0] g = (0, w1) \<and>
    dn_write_handler fd_demo w1 [1, 50, 10, 0, 0, 0] g = (10, w1) \<and> ret' = 0)"
proof -
  let ?w = "\<lparr>fdt = [((4, 0), mk_entry 0 0 False 0)], hist = []\<rparr> :: fd_map grate_world"
  have u: "get_unused_virtual_fd (fe_fd fd_demo) (fdt ?w) 4 DEVNULL_KIND 0 False 0 =
      Some (1, [((4, 1), mk_entry DEVNULL_KIND 0 False 0), ((4, 0), mk_entry 0 0 False 0)])"
    by (simp add: map_table_simps numeral_eq_Suc)
  have p: "path_arg fd_demo ?w 8 4 = ''/dev/null''" using lossy_devnull by (simp add: path_arg_def)
  show ?thesis
    using devnull_device [of fd_demo ?w "[8, 0, 0, 0, 0, 0]" "[4, 4, 4, 4, 4, 4]" 1 _ 10 "[1, 50, 10, 0, 0, 0]" "[1, 50, 10, 0, 0, 0]" "[1, 0, 0, 0, 0, 0]"]
      u p map_fdtables_ok
    by (simp add: split_beta Let_def)
qed

end
