(* ===== verification/Policy_Grates.thy ===== *)
theory Policy_Grates
  imports Fd_Grates
begin

unbundle bit_operations_syntax

text \<open>
  The grates that decide a call by its arguments or rewrite one argument, without tables: \<open>readonly-grate\<close>,
  \<open>umask-grate\<close>, \<open>fchmod-grate\<close>, \<open>geteuid-grate\<close>, \<open>testing-grate\<close>, \<open>fs-view-grate\<close> and
  \<open>strace-grate\<close>.  A handler takes the cage id the runtime passes first, the six arguments and their cages.
  What \<open>strace-grate\<close> prints is not modelled.
\<close>

type_synonym 'ft policy_handler = "'ft grate_env \<Rightarrow> 'ft grate_world \<Rightarrow> nat \<Rightarrow> nat list \<Rightarrow> nat list \<Rightarrow> int \<times> 'ft grate_world"

text \<open>A forwarded call; the handlers differ in the status they give to an error.\<close>

definition dispatch :: "'ft grate_env \<Rightarrow> 'ft grate_world \<Rightarrow> threei_call \<Rightarrow> (grate_error \<Rightarrow> int) \<Rightarrow> int \<times> 'ft grate_world" where
  "dispatch E w c err = (case make_threei_call (ge_sys E (hist w)) c of Inr r \<Rightarrow> r | Inl e \<Rightarrow> err e, log_event (Threei c) w)"

definition keep_errno :: "grate_error \<Rightarrow> int" where
  "keep_errno e = (case e of MakeSyscallError n \<Rightarrow> n | _ \<Rightarrow> -1)"

section \<open>readonly-grate\<close>

definition RO_ACCMODE :: nat where "RO_ACCMODE = 3"
definition RO_RDONLY :: nat where "RO_RDONLY = 0"
definition RO_TRUNC :: nat where "RO_TRUNC = 0x200"
definition RO_APPEND :: nat where "RO_APPEND = 0x400"

definition ro_open :: "'ft policy_handler" where
  "ro_open E w cageid a g =
     (let access_mode = a ! 1 AND RO_ACCMODE in
      if access_mode \<noteq> RO_RDONLY then (-1, w)
      else if a ! 1 AND (RO_TRUNC OR RO_APPEND) \<noteq> 0 then (-1, w)
      else dispatch E w (plain_call SYS_OPEN cageid (g ! 0) a g) (\<lambda>_. -1))"

definition ro_write :: "'ft policy_handler" where "ro_write E w cageid a g = (-1, w)"
definition ro_writev :: "'ft policy_handler" where "ro_writev E w cageid a g = (-1, w)"
definition ro_pwrite :: "'ft policy_handler" where "ro_pwrite E w cageid a g = (-1, w)"

definition ro_handlers :: "(nat \<times> 'ft policy_handler) list" where
  "ro_handlers = [(SYS_OPEN, ro_open), (SYS_WRITE, ro_write), (SYS_PWRITE, ro_pwrite), (SYS_WRITEV, ro_writev)]"

section \<open>Octal options\<close>

text \<open>\<open>u64::from_str_radix(s, 8)\<close>: an optional plus sign, at least one digit, no overflow.\<close>

fun octal_val :: "nat \<Rightarrow> string \<Rightarrow> nat option" where
  "octal_val acc [] = Some acc"
| "octal_val acc (x # xs) =
     (case digit_val x of Some d \<Rightarrow> if d < 8 then octal_val (8 * acc + d) xs else None | None \<Rightarrow> None)"

definition from_str_radix_8 :: "string \<Rightarrow> nat option" where
  "from_str_radix_8 s =
     (let ds = (if starts_with s ''+'' then tl s else s) in
      if ds = [] then None
      else case octal_val 0 ds of Some n \<Rightarrow> if n < 2 ^ 64 then Some n else None | None \<Rightarrow> None)"

record octal_config =
  octal_bits :: nat
  remaining_args :: "string list"

fun octal_args :: "string \<Rightarrow> nat \<Rightarrow> string list \<Rightarrow> string list \<Rightarrow> string + octal_config" where
  "octal_args flag bits acc [] = Inr \<lparr>octal_bits = bits, remaining_args = acc\<rparr>"
| "octal_args flag bits acc (x # xs) =
     (if x = flag
      then (case xs of
              [] \<Rightarrow> Inl (flag @ '' requires an argument'')
            | v # xs' \<Rightarrow>
                (case from_str_radix_8 v of
                   None \<Rightarrow> Inl (flag @ '': '' @ [CHR 0x27] @ v @ [CHR 0x27] @ '' is not a valid octal value'')
                 | Some n \<Rightarrow> octal_args flag n acc xs'))
      else octal_args flag bits (acc @ [x]) xs)"

definition umask_parse_args :: "string list \<Rightarrow> string + octal_config" where
  "umask_parse_args args = octal_args ''--force-bits'' 0 [] args"

definition fchmod_parse_args :: "string list \<Rightarrow> string + octal_config" where
  "fchmod_parse_args args = octal_args ''--mask'' 0xFFF [] args"

section \<open>umask-grate, fchmod-grate, geteuid-grate\<close>

definition umask_handler :: "nat \<Rightarrow> 'ft policy_handler" where
  "umask_handler force_bits E w cageid a g =
     (let enforced_mask = a ! 0 OR force_bits
      in dispatch E w (plain_call SYS_UMASK cageid (g ! 0) (a[0 := enforced_mask]) g) keep_errno)"

definition fchmod_handler :: "nat \<Rightarrow> 'ft policy_handler" where
  "fchmod_handler mask_bits E w cageid a g =
     (let masked_mode = a ! 1 AND mask_bits
      in dispatch E w (plain_call SYS_FCHMOD cageid (g ! 0) (a[1 := masked_mode]) g) keep_errno)"

definition fchmodat_handler :: "nat \<Rightarrow> 'ft policy_handler" where
  "fchmodat_handler mask_bits E w cageid a g =
     (let masked_mode = a ! 2 AND mask_bits
      in dispatch E w (plain_call SYS_FCHMODAT cageid (g ! 0) (a[2 := masked_mode]) g) keep_errno)"

definition geteuid_handler :: "'ft policy_handler" where
  "geteuid_handler E w cageid a g = (3000, w)"

section \<open>testing-grate\<close>

datatype rule_action = ReturnConst int | PassThrough

text \<open>\<open>str::parse::<i32>\<close>.\<close>

definition parse_i32 :: "string \<Rightarrow> int option" where
  "parse_i32 s =
     (if starts_with s ''-''
      then (if tl s = [] then None
            else case digits_val 0 (tl s) of Some n \<Rightarrow> if n \<le> 2 ^ 31 then Some (- int n) else None | None \<Rightarrow> None)
      else map_option int (parse_uint (2 ^ 31) s))"

definition rule_error :: "string \<Rightarrow> string \<Rightarrow> string \<Rightarrow> string" where
  "rule_error before token after = before @ [CHR 0x27] @ token @ [CHR 0x27] @ after"

text \<open>The rules as an association list, in the order they were inserted.\<close>

fun rules_from :: "(nat \<times> rule_action) list \<Rightarrow> string list \<Rightarrow> string + (nat \<times> rule_action) list" where
  "rules_from rules [] = Inr rules"
| "rules_from rules (raw # rest) =
     (let token = str_trim raw in
      if token = [] then rules_from rules rest
      else case split_once (CHR '':'') token of
        None \<Rightarrow> Inl (rule_error ''Invalid rule '' token ''; expected <syscall>:<constant|empty>'')
      | Some (syscall_raw, value_raw) \<Rightarrow>
          (case parse_uint (2 ^ 64) (str_trim syscall_raw) of
             None \<Rightarrow> Inl (rule_error ''Invalid syscall number in rule '' token [])
           | Some syscall_nr \<Rightarrow>
               (case (if str_trim value_raw = [] then Some PassThrough else map_option ReturnConst (parse_i32 (str_trim value_raw))) of
                  None \<Rightarrow> Inl (rule_error ''Invalid constant return value in rule '' token [])
                | Some action \<Rightarrow>
                    if map_of rules syscall_nr \<noteq> None then Inl (''Duplicate syscall rule for '' @ nat_str syscall_nr)
                    else rules_from (rules @ [(syscall_nr, action)]) rest)))"

definition parse_rules :: "string \<Rightarrow> string + (nat \<times> rule_action) list" where
  "parse_rules spec =
     (case rules_from [] (split_on (CHR '','') spec) of
        Inl e \<Rightarrow> Inl e
      | Inr rules \<Rightarrow> if rules = [] then Inl ''No syscall rules provided'' else Inr rules)"

text \<open>A panic (\<open>unreachable!\<close>) is \<open>None\<close>.\<close>

definition dispatch_handler ::
  "(nat \<times> rule_action) list \<Rightarrow> nat \<Rightarrow> 'ft grate_env \<Rightarrow> 'ft grate_world \<Rightarrow> nat \<Rightarrow> nat list \<Rightarrow> nat list \<Rightarrow> (int \<times> 'ft grate_world) option" where
  "dispatch_handler rules syscall_nr E w cageid a g =
     (case map_of rules syscall_nr of
        Some (ReturnConst v) \<Rightarrow> Some (v, w)
      | Some PassThrough \<Rightarrow> Some (dispatch E w (plain_call syscall_nr cageid (g ! 0) a g) (\<lambda>_. -1))
      | None \<Rightarrow> None)"

text \<open>\<open>build.rs\<close> writes one handler for each number up to \<open>MAX_SYSCALL\<close>, which dispatches that number, and a
  look-up by index; a handler is its number.\<close>

definition MAX_SYSCALL :: nat where "MAX_SYSCALL = 1024"

definition HANDLERS :: "nat list" where "HANDLERS = [0..<MAX_SYSCALL + 1]"

definition handler_for :: "nat \<Rightarrow> nat option" where
  "handler_for syscall_nr =
     (let i = as_usize (int syscall_nr) in if i < length HANDLERS then Some (HANDLERS ! i) else None)"

text \<open>The loop of \<open>main\<close>, over the rules in the order in which the map yields them: the handler of each
  registered number, or \<open>None\<close> for the exit with code 2.\<close>

fun install_rules :: "nat list \<Rightarrow> (nat \<times> nat) list option" where
  "install_rules [] = Some []"
| "install_rules (nr # nrs) =
     (case handler_for nr of None \<Rightarrow> None | Some h \<Rightarrow> map_option (\<lambda>hs. (nr, h) # hs) (install_rules nrs))"

section \<open>fs-view-grate\<close>

definition VIEW_MAX_PATH :: nat where "VIEW_MAX_PATH = 4096"

definition view_read_path :: "'ft grate_env \<Rightarrow> 'ft grate_world \<Rightarrow> nat \<Rightarrow> nat \<Rightarrow> string option" where
  "view_read_path E w ptr cage = map_option (\<lambda>buf. from_utf8_lossy (c_str_bytes buf)) (ge_copymem E (hist w) cage ptr VIEW_MAX_PATH)"

definition cage_root :: "nat \<Rightarrow> string" where
  "cage_root cage_id = ''/cage-'' @ nat_str cage_id"

definition cage_path :: "string \<Rightarrow> nat \<Rightarrow> string" where
  "cage_path path cage_id = ''/cage-'' @ nat_str cage_id @ (if starts_with path ''/'' then path else ''/'' @ path)"

definition ensure_cage_root :: "'ft grate_env \<Rightarrow> 'ft grate_world \<Rightarrow> nat \<Rightarrow> 'ft grate_world" where
  "ensure_cage_root E w cage_id =
     snd (dispatch E w \<lparr>callnumber = SYS_MKDIR, self_cageid = ge_cage E, target_cageid = cage_id,
       call_args = [OwnStr (cage_root cage_id), Num 0x1ED, Num 0, Num 0, Num 0, Num 0],
       call_cages = [grate_memory (ge_cage E), cage_id, 0, 0, 0, 0]\<rparr> (\<lambda>_. -1))"

definition forward_with_rewrite ::
  "'ft grate_env \<Rightarrow> 'ft grate_world \<Rightarrow> nat \<Rightarrow> nat \<Rightarrow> nat list \<Rightarrow> nat list \<Rightarrow> nat \<Rightarrow> string \<Rightarrow> int \<times> 'ft grate_world" where
  "forward_with_rewrite E w nr cage_id a g path_idx new_path =
     dispatch E w \<lparr>callnumber = as_u32 nr, self_cageid = ge_cage E, target_cageid = cage_id,
       call_args = (map Num a)[path_idx := OwnStr new_path], call_cages = g[path_idx := grate_memory (ge_cage E)]\<rparr> (\<lambda>_. -1)"

definition view_forward :: "'ft grate_env \<Rightarrow> 'ft grate_world \<Rightarrow> nat \<Rightarrow> nat \<Rightarrow> nat list \<Rightarrow> nat list \<Rightarrow> int \<times> 'ft grate_world" where
  "view_forward E w nr cage_id a g = dispatch E w (plain_call nr (ge_cage E) cage_id a g) (\<lambda>_. -1)"

definition path_rewrite_handler :: "nat \<Rightarrow> nat \<Rightarrow> 'ft policy_handler" where
  "path_rewrite_handler sysno path_idx E w cageid a g =
     (let cage_id = g ! path_idx in
      case view_read_path E w (a ! path_idx) (g ! path_idx) of
        None \<Rightarrow> (-14, w)
      | Some path \<Rightarrow>
          (case cstring_new (cage_path path cage_id) of
             None \<Rightarrow> (-1, w)
           | Some c_path \<Rightarrow> forward_with_rewrite E (ensure_cage_root E w cage_id) sysno cage_id a g path_idx c_path))"

definition two_path_rewrite_handler :: "nat \<Rightarrow> nat \<Rightarrow> nat \<Rightarrow> 'ft policy_handler" where
  "two_path_rewrite_handler sysno idx1 idx2 E w cageid a g =
     (let cage_id = g ! idx1 in
      case view_read_path E w (a ! idx1) (g ! idx1) of
        None \<Rightarrow> (-14, w)
      | Some path1 \<Rightarrow>
          (case view_read_path E w (a ! idx2) (g ! idx2) of
             None \<Rightarrow> (-14, w)
           | Some path2 \<Rightarrow>
               (case cstring_new (cage_path path1 cage_id) of
                  None \<Rightarrow> (-1, w)
                | Some c1 \<Rightarrow>
                    (case cstring_new (cage_path path2 cage_id) of
                       None \<Rightarrow> (-1, w)
                     | Some c2 \<Rightarrow>
                         dispatch E (ensure_cage_root E w cage_id)
                           \<lparr>callnumber = as_u32 sysno, self_cageid = ge_cage E, target_cageid = cage_id,
                            call_args = (map Num a)[idx1 := OwnStr c1, idx2 := OwnStr c2],
                            call_cages = g[idx1 := grate_memory (ge_cage E), idx2 := grate_memory (ge_cage E)]\<rparr> (\<lambda>_. -1)))))"

definition view_fork :: "'ft policy_handler" where
  "view_fork E w cageid a g = view_forward E w SYS_CLONE (g ! 0) a g"

definition view_exec :: "'ft policy_handler" where
  "view_exec E w cageid a g = view_forward E w SYS_EXEC (g ! 0) a g"

definition view_handlers :: "(nat \<times> 'ft policy_handler) list" where
  "view_handlers =
     [(SYS_OPEN, path_rewrite_handler SYS_OPEN 0), (SYS_STAT, path_rewrite_handler SYS_STAT 0),
      (SYS_ACCESS, path_rewrite_handler SYS_ACCESS 0), (SYS_MKDIR, path_rewrite_handler SYS_MKDIR 0),
      (SYS_RMDIR, path_rewrite_handler SYS_RMDIR 0), (SYS_UNLINK, path_rewrite_handler SYS_UNLINK 0),
      (SYS_UNLINKAT, path_rewrite_handler SYS_UNLINKAT 1), (SYS_CHMOD, path_rewrite_handler SYS_CHMOD 0),
      (SYS_TRUNCATE, path_rewrite_handler SYS_TRUNCATE 0), (SYS_CHDIR, path_rewrite_handler SYS_CHDIR 0),
      (SYS_READLINK, path_rewrite_handler SYS_READLINK 0), (SYS_RENAME, two_path_rewrite_handler SYS_RENAME 0 1),
      (SYS_LINK, two_path_rewrite_handler SYS_LINK 0 1), (SYS_CLONE, view_fork), (SYS_EXEC, view_exec)]"

section \<open>strace-grate\<close>

definition strace_handler :: "nat \<Rightarrow> 'ft policy_handler" where
  "strace_handler num E w cageid a g = dispatch E w (plain_call num cageid (g ! 0) a g) keep_errno"

text \<open>The calls \<open>main\<close> registers, each with the handler of the same number.\<close>

definition strace_calls :: "nat list" where
  "strace_calls =
     [0, 1, 2, 3, 4, 5, 7, 8, 9, 10, 11, 12, 13, 14, 16, 17, 18, 19, 20, 21, 22, 23, 24, 29, 30, 31, 32, 33, 35, 38, 39, 41, 42,
      43, 44, 45, 48, 49, 50, 51, 52, 53, 54, 55, 56, 57, 59, 60, 61, 62, 67, 72, 73, 74, 75, 76, 77, 78, 79, 80, 81, 82, 87, 89,
      90, 91, 102, 104, 107, 108, 110, 137, 138, 170, 202, 213, 228, 232, 233, 263, 267, 277, 291, 292, 293, 318]"

definition strace_handlers :: "(nat \<times> 'ft policy_handler) list" where
  "strace_handlers = map (\<lambda>nr. (nr, strace_handler nr)) strace_calls"

end
