(* ===== verification/Policy_Props.thy ===== *)
theory Policy_Props
  imports Policy_Grates
begin

unbundle bit_operations_syntax

text \<open>
  Properties of the policy grates: what can reach the runtime through the read-only grate, the enforced bits of the
  mask grates, the rules of the testing grate, the separation of the views of different cages.
\<close>

section \<open>Runs\<close>

type_synonym pcall = "nat \<times> nat \<times> nat list \<times> nat list"

fun policy_run :: "(nat \<times> 'ft policy_handler) list \<Rightarrow> 'ft grate_env \<Rightarrow> 'ft grate_world \<Rightarrow> pcall list \<Rightarrow> 'ft grate_world" where
  "policy_run hs E w [] = w"
| "policy_run hs E w ((nr, cage, a, g) # calls) =
     (case map_of hs nr of Some h \<Rightarrow> policy_run hs E (snd (h E w cage a g)) calls | None \<Rightarrow> policy_run hs E w calls)"

text \<open>What every handler of a table does to the history, a run does too.\<close>

lemma policy_run_calls:
  assumes "\<And>nr h w cage a g c. map_of hs nr = Some h \<Longrightarrow> length a = 6 \<Longrightarrow> c \<in> set (calls_of (hist (snd (h E w cage a g)))) \<Longrightarrow>
      c \<in> set (calls_of (hist w)) \<or> P c"
    and "\<forall>(nr, cage, a, g) \<in> set calls. length a = 6"
    and "c \<in> set (calls_of (hist (policy_run hs E w calls)))"
  shows "c \<in> set (calls_of (hist w)) \<or> P c"
  using assms(2,3)
proof (induction calls arbitrary: w)
  case (Cons x calls)
  obtain nr cage a g where x: "x = (nr, cage, a, g)" by (cases x)
  have len: "length a = 6" and rest: "\<forall>(nr, cage, a, g) \<in> set calls. length a = 6" using Cons.prems(1) x by auto
  show ?case
  proof (cases "map_of hs nr")
    case None
    then show ?thesis using Cons.IH [OF rest, of w] Cons.prems(2) by (simp add: x)
  next
    case (Some h)
    then have "c \<in> set (calls_of (hist (snd (h E w cage a g)))) \<or> P c"
      using Cons.IH [OF rest, of "snd (h E w cage a g)"] Cons.prems(2) by (simp add: x)
    then show ?thesis using assms(1) [OF Some len] by blast
  qed
qed simp

lemma dispatch_hist [simp]: "hist (snd (dispatch E w c err)) = hist w @ [Threei c]"
  by (simp add: dispatch_def)

lemma dispatch_status: "fst (dispatch E w c err) = (let r = ge_sys E (hist w) c in if r < 0 then err (MakeSyscallError r) else r)"
  by (simp add: dispatch_def make_threei_call_def Let_def)

section \<open>readonly-grate\<close>

text \<open> Whatever calls cages make through the read-only grate, the only calls that reach the runtime are opens for
  reading: access mode read-only, neither truncating nor appending.\<close>

theorem readonly_only_reads:
  fixes w :: "'ft grate_world"
  assumes "\<forall>(nr, cage, a, g) \<in> set calls. length a = 6" "hist w = []"
    and "c \<in> set (calls_of (hist (policy_run ro_handlers E w calls)))"
  shows "callnumber c = SYS_OPEN \<and> (\<exists>flags. call_args c ! 1 = Num flags \<and> flags AND RO_ACCMODE = RO_RDONLY \<and>
    flags AND (RO_TRUNC OR RO_APPEND) = 0)"
proof -
  have "c \<in> set (calls_of (hist w)) \<or> (callnumber c = SYS_OPEN \<and> (\<exists>flags. call_args c ! 1 = Num flags \<and>
      flags AND RO_ACCMODE = RO_RDONLY \<and> flags AND (RO_TRUNC OR RO_APPEND) = 0))"
    by (rule policy_run_calls [OF _ assms(1,3)])
       (auto simp: ro_handlers_def ro_open_def ro_write_def ro_pwrite_def ro_writev_def plain_call_def Let_def split: if_splits)
  then show ?thesis using assms(2) by simp
qed

definition policy_demo :: "fd_map grate_env" where
  "policy_demo = \<lparr>ge_cage = 9, ge_sys = (\<lambda>h c. 5), ge_out = (\<lambda>h c i. []), ge_copystr = (\<lambda>h c p n. None),
     ge_copymem = (\<lambda>h c p n. Some [0x61, 0]), ge_copyout = (\<lambda>h c p bs. True), ge_register = (\<lambda>h a b c. 0), ge_fd = map_fdtables,
     ge_unused_errno = (\<lambda>ft c. 24), ge_specific_errno = (\<lambda>ft c fd. 9)\<rparr>"

theorem readonly_only_reads_witness:
  "\<exists>flags. (call_args (hd (calls_of (hist (policy_run ro_handlers policy_demo \<lparr>fdt = [], hist = []\<rparr>
      [(2, 4, [7, 1, 0, 0, 0, 0], [4, 4, 4, 4, 4, 4]), (1, 4, [3, 7, 2, 0, 0, 0], [4, 4, 4, 4, 4, 4]),
       (2, 4, [7, 0x40, 0, 0, 0, 0], [4, 4, 4, 4, 4, 4])])))) ! 1) = Num flags \<and> flags AND RO_ACCMODE = RO_RDONLY"
proof -
  let ?calls = "[(2, 4, [7, 1, 0, 0, 0, 0], [4, 4, 4, 4, 4, 4]), (1, 4, [3, 7, 2, 0, 0, 0], [4, 4, 4, 4, 4, 4]),
       (2, 4, [7, 0x40, 0, 0, 0, 0], [4, 4, 4, 4, 4, 4])] :: pcall list"
  let ?w = "\<lparr>fdt = [], hist = []\<rparr> :: fd_map grate_world"
  have "calls_of (hist (policy_run ro_handlers policy_demo ?w ?calls)) \<noteq> []" by (simp add: ro_handlers_def ro_open_def ro_write_def RO_ACCMODE_def RO_RDONLY_def RO_TRUNC_def RO_APPEND_def Let_def)
  then have "hd (calls_of (hist (policy_run ro_handlers policy_demo ?w ?calls))) \<in> set (calls_of (hist (policy_run ro_handlers policy_demo ?w ?calls)))"
    by (rule hd_in_set)
  from readonly_only_reads [OF _ _ this] show ?thesis by auto
qed

text \<open>Creation is not denied: an open with the create flag and read-only access mode is dispatched.\<close>

lemma readonly_creates:
  "calls_of (hist (snd (ro_open E w cageid [p, 0x40, m, 0, 0, 0] g))) =
     calls_of (hist w) @ [plain_call SYS_OPEN cageid (g ! 0) [p, 0x40, m, 0, 0, 0] g]"
  by (simp add: ro_open_def RO_ACCMODE_def RO_RDONLY_def RO_TRUNC_def RO_APPEND_def Let_def)

section \<open>umask-grate\<close>

text \<open>Octal numerals, as the operator writes them.\<close>

function (sequential) oct_str :: "nat \<Rightarrow> string" where
  "oct_str n = (if n < 8 then [digit_char n] else oct_str (n div 8) @ [digit_char (n mod 8)])"
  by pat_completeness auto
termination by (relation "measure id") auto

declare oct_str.simps [simp del]

lemma octal_val_append: "octal_val acc (xs @ ys) = (case octal_val acc xs of None \<Rightarrow> None | Some n \<Rightarrow> octal_val n ys)"
  by (induction acc xs rule: octal_val.induct) (auto split: option.split)

lemma octal_val_oct_str: "octal_val 0 (oct_str n) = Some n"
proof (induction n rule: oct_str.induct)
  case (1 n)
  then show ?case by (subst oct_str.simps) (auto simp: octal_val_append digit_val_char)
qed

lemma oct_str_hd: "oct_str n \<noteq> [] \<and> hd (oct_str n) \<noteq> CHR ''+''"
proof (induction n rule: oct_str.induct)
  case (1 n)
  have "digit_char d \<noteq> CHR ''+''" if "d < 8" for d using digit_char_inj [of d] that by auto
  then show ?case using 1 by (subst (1 2) oct_str.simps) auto
qed

lemma from_str_radix_oct: "n < 2 ^ 64 \<Longrightarrow> from_str_radix_8 (oct_str n) = Some n"
proof -
  assume "n < 2 ^ 64"
  moreover have "\<not> starts_with (oct_str n) ''+''" using oct_str_hd [of n] by (cases "oct_str n") (auto simp: starts_with_def)
  ultimately show ?thesis using oct_str_hd [of n] by (simp add: from_str_radix_8_def octal_val_oct_str)
qed

lemma octal_args_rest: "flag \<notin> set xs \<Longrightarrow> octal_args flag n acc xs = Inr \<lparr>octal_bits = n, remaining_args = acc @ xs\<rparr>"
  by (induction xs arbitrary: acc) auto

text \<open> The configured bits are in every mask: if the grate is started with \<open>--force-bits\<close> and an octal number \<open>b\<close>
  before the program, the program and its arguments are passed on unchanged, and each \<open>umask\<close> of a cage is
  dispatched exactly once, with the requested mask plus all bits of \<open>b\<close> and no others, and answered with the
  status of the runtime.\<close>

theorem umask_enforced:
  fixes w :: "'ft grate_world"
  assumes "b < 2 ^ 64" "''--force-bits'' \<notin> set prog" "length a = 6"
  shows "\<exists>cfg. umask_parse_args (''--force-bits'' # oct_str b # prog) = Inr cfg \<and> octal_bits cfg = b \<and> remaining_args cfg = prog \<and>
    (let (status, w') = umask_handler (octal_bits cfg) E w cageid a g in
     \<exists>c m. hist w' = hist w @ [Threei c] \<and> status = ge_sys E (hist w) c \<and> callnumber c = SYS_UMASK \<and> call_args c ! 0 = Num m \<and>
       (\<forall>i. bit m i \<longleftrightarrow> bit (a ! 0) i \<or> bit b i))"
proof -
  have p: "umask_parse_args (''--force-bits'' # oct_str b # prog) = Inr \<lparr>octal_bits = b, remaining_args = prog\<rparr>"
    using from_str_radix_oct [OF assms(1)] octal_args_rest [OF assms(2), of b "[]"] by (simp add: umask_parse_args_def)
  have "a \<noteq> []" using assms(3) by auto
  then show ?thesis
    by (intro exI [of _ "\<lparr>octal_bits = b, remaining_args = prog\<rparr>"])
       (auto simp: p umask_handler_def dispatch_def make_threei_call_def keep_errno_def plain_call_def bit_or_iff Let_def nth_list_update)
qed

theorem umask_enforced_witness:
  "(let (status, w') = umask_handler 0x12 policy_demo \<lparr>fdt = [], hist = []\<rparr> 4 [0x40, 0, 0, 0, 0, 0] [4, 4, 4, 4, 4, 4] in
    \<exists>c m. hist w' = [Threei c] \<and> status = 5 \<and> call_args c ! 0 = Num m \<and> (\<forall>i. bit m i \<longleftrightarrow> bit (0x40 :: nat) i \<or> bit (0x12 :: nat) i))"
  using umask_enforced [where b = "0x12" and prog = "[''sh'']" and a = "[0x40, 0, 0, 0, 0, 0]" and E = policy_demo
    and w = "\<lparr>fdt = [], hist = []\<rparr>" and cageid = 4 and g = "[4, 4, 4, 4, 4, 4]"]
  by (auto simp: policy_demo_def)

section \<open>testing-grate\<close>

text \<open>The rules as the operator writes them.\<close>

definition rule_str :: "nat \<times> rule_action \<Rightarrow> string" where
  "rule_str r = nat_str (fst r) @ '':'' @ (case snd r of PassThrough \<Rightarrow> [] | ReturnConst v \<Rightarrow> int_str v)"

definition rules_str :: "(nat \<times> rule_action) list \<Rightarrow> string" where
  "rules_str rs = join_with '','' (map rule_str rs)"

definition rule_ok :: "nat \<times> rule_action \<Rightarrow> bool" where
  "rule_ok r \<longleftrightarrow> fst r < 2 ^ 64 \<and> (case snd r of PassThrough \<Rightarrow> True | ReturnConst v \<Rightarrow> - (2 ^ 31) \<le> v \<and> v < 2 ^ 31)"

lemma not_ws_minus: "w \<in> set ws_strings \<Longrightarrow> hd w \<noteq> CHR ''-'' \<and> last w \<noteq> CHR ''-''"
  by (auto simp: ws_strings_def utf8_ws_def byte_char_def char_of_def bit_0)

lemma int_str_chars: "c \<in> set (int_str v) \<Longrightarrow> plain c \<or> c = CHR ''-''"
  by (auto simp: int_str_def dest: nat_str_plain split: if_splits)

lemma int_str_not_Nil [simp]: "int_str v \<noteq> []"
  by (simp add: int_str_def)

lemma trim_chars:
  assumes "s \<noteq> []" "\<forall>c \<in> set s. plain c \<or> c = CHR ''-''"
  shows "str_trim s = s"
proof (rule trim_ends [OF assms(1)], intro ballI)
  fix w assume w: "w \<in> set ws_strings"
  have "hd w \<noteq> c \<and> last w \<noteq> c" if "c \<in> set s" for c using that assms(2) plain_not_ws [OF _ w] not_ws_minus [OF w] by metis
  then show "hd w \<noteq> hd s \<and> last w \<noteq> last s" using hd_in_set [OF assms(1)] last_in_set [OF assms(1)] by metis
qed

lemma parse_i32_int_str:
  assumes "- (2 ^ 31) \<le> v" "v < 2 ^ 31"
  shows "parse_i32 (int_str v) = Some v"
proof (cases "v < 0")
  case True
  then have "nat (- v) \<le> 2 ^ 31" using assms(1) by simp
  then show ?thesis using True by (simp add: parse_i32_def int_str_def starts_with_def digits_val_nat_str)
next
  case False
  have "CHR ''-'' \<notin> set (nat_str (nat v))" by (auto simp: plain_def dest: nat_str_plain)
  then have "hd (nat_str (nat v)) \<noteq> CHR ''-''" using hd_in_set [OF nat_str_not_Nil, of "nat v"] by metis
  then have "\<not> starts_with (nat_str (nat v)) ''-''" by (cases "nat_str (nat v)") (auto simp: starts_with_def)
  moreover have "parse_uint (2 ^ 31) (nat_str (nat v)) = Some (nat v)" using assms(2) False by (intro parse_nat_str) simp
  ultimately show ?thesis using False by (simp add: parse_i32_def int_str_def)
qed

lemma not_plain: "\<not> plain (CHR '','')" "plain (CHR '':'')"
  by (simp_all add: plain_def)

lemma rule_str_chars: "c \<in> set (rule_str r) \<Longrightarrow> plain c \<or> c = CHR ''-''"
  using not_plain(2) int_str_chars by (auto simp: rule_str_def dest: nat_str_plain split: rule_action.splits)

lemma colon_not_digit: "CHR '':'' \<notin> set (nat_str n)"
proof
  assume "CHR '':'' \<in> set (nat_str n)"
  then obtain d where "d < 10" "CHR '':'' = digit_char d" using nat_str_digits by blast
  then have "of_char (CHR '':'') = 48 + d" using digit_char_inj by simp
  with \<open>d < 10\<close> show False by simp
qed

lemma rule_step:
  assumes "rule_ok r" "fst r \<notin> fst ` set acc"
  shows "rules_from acc (rule_str r # rest) = rules_from (acc @ [r]) rest"
proof -
  obtain nr act where r: "r = (nr, act)" by (cases r)
  let ?v = "case act of PassThrough \<Rightarrow> [] | ReturnConst v \<Rightarrow> int_str v"
  have t: "str_trim (rule_str r) = rule_str r" using rule_str_chars by (intro trim_chars) (auto simp: rule_str_def)
  have s: "split_once (CHR '':'') (rule_str r) = Some (nat_str nr, ?v)"
    using split_once_digits [OF colon_not_digit] by (simp add: rule_str_def r)
  have n: "str_trim (nat_str nr) = nat_str nr" using nat_str_plain by (intro trim_chars) auto
  have nr: "parse_uint (2 ^ 64) (nat_str nr) = Some nr" using assms(1) by (intro parse_nat_str) (simp add: rule_ok_def r)
  have "strip_all ws [] = []" for ws by (rule strip_all_same) (simp add: find_None_iff starts_with_def)
  then have "str_trim [] = []" by (simp add: str_trim_def)
  moreover have "str_trim (int_str v) = int_str v" for v using int_str_chars by (intro trim_chars) auto
  ultimately have a: "(if str_trim ?v = [] then Some PassThrough else map_option ReturnConst (parse_i32 (str_trim ?v))) = Some act"
    using assms(1) parse_i32_int_str by (cases act) (auto simp: rule_ok_def r)
  have "rule_str r \<noteq> []" "map_of acc nr = None" using assms(2) by (simp_all add: rule_str_def r map_of_eq_None_iff)
  then show ?thesis unfolding rules_from.simps t s Let_def by (simp add: n nr [simplified] r a del: if_split split: if_split_asm)
qed

lemma rules_from_str:
  "\<forall>r \<in> set rs. rule_ok r \<Longrightarrow> distinct (map fst (acc @ rs)) \<Longrightarrow> rules_from acc (map rule_str rs) = Inr (acc @ rs)"
proof (induction rs arbitrary: acc)
  case (Cons r rs)
  have "rule_ok r" "fst r \<notin> fst ` set acc" using Cons.prems by auto
  then have "rules_from acc (map rule_str (r # rs)) = rules_from (acc @ [r]) (map rule_str rs)" by (simp add: rule_step del: rules_from.simps)
  then show ?case using Cons.IH [of "acc @ [r]"] Cons.prems by simp
qed simp

text \<open>C40.  The rule syntax of the testing grate is faithful: any nonempty list of rules with distinct call numbers,
  written as the usage text says, is parsed back to exactly these rules.\<close>

theorem parse_rules_roundtrip:
  assumes "rs \<noteq> []" "\<forall>r \<in> set rs. rule_ok r" "distinct (map fst rs)"
  shows "parse_rules (rules_str rs) = Inr rs"
proof -
  have "\<forall>s \<in> set (map rule_str rs). CHR '','' \<notin> set s" using rule_str_chars not_plain(1) by force
  then have "split_on (CHR '','') (rules_str rs) = map rule_str rs"
    unfolding rules_str_def using assms(1) by (intro split_join) simp_all
  then show ?thesis using rules_from_str [OF assms(2), of "[]"] assms(1,3) by (simp add: parse_rules_def)
qed

theorem parse_rules_roundtrip_witness:
  "parse_rules (rules_str [(2, ReturnConst 10), (4, PassThrough), (233, ReturnConst (-7))]) =
     Inr [(2, ReturnConst 10), (4, PassThrough), (233, ReturnConst (-7))]"
  by (rule parse_rules_roundtrip) (simp_all add: rule_ok_def)

text \<open>The generated handlers.\<close>

lemma handler_for_small: "nr < 2 ^ 32 \<Longrightarrow> handler_for nr = (if nr \<le> 1024 then Some nr else None)"
  by (simp add: handler_for_def HANDLERS_def MAX_SYSCALL_def as_usize_def Let_def del: upt_Suc)

lemma install_rules_same:
  "\<forall>nr \<in> set nrs. nr < 2 ^ 32 \<Longrightarrow> install_rules nrs = (if \<forall>nr \<in> set nrs. nr \<le> 1024 then Some (map (\<lambda>nr. (nr, nr)) nrs) else None)"
  by (induction nrs) (auto simp: handler_for_small)

text \<open> No installed handler of the testing grate panics: if the numbers of the rules fit 32 bits and the set-up succeeds,
  then whatever order the map of rules was traversed in, every registered call is answered by its own rule: the
  constant without a call to the runtime, or the status of the forwarded call.\<close>

theorem installed_rules_answer:
  fixes w :: "'ft grate_world"
  assumes "parse_rules spec = Inr rules" "set order = fst ` set rules" "\<forall>nr \<in> set order. nr < 2 ^ 32"
    and "install_rules order = Some hs" "(nr, h) \<in> set hs"
  shows "\<exists>act. map_of rules nr = Some act \<and> dispatch_handler rules h E w cageid a g =
    Some (case act of ReturnConst v \<Rightarrow> (v, w) | PassThrough \<Rightarrow> dispatch E w (plain_call nr cageid (g ! 0) a g) (\<lambda>_. -1))"
proof -
  have "nr \<in> set order" "h = nr" using assms(3-5) by (auto simp: install_rules_same split: if_splits)
  moreover from this(1) obtain act where "map_of rules nr = Some act" using assms(2) by (metis map_of_eq_None_iff not_None_eq)
  ultimately show ?thesis by (auto simp: dispatch_handler_def split: rule_action.split)
qed

theorem installed_rules_answer_witness:
  "dispatch_handler [(2, ReturnConst 10), (4, PassThrough)] 2 policy_demo \<lparr>fdt = [], hist = []\<rparr> 4 [0, 0, 0, 0, 0, 0] [4, 4, 4, 4, 4, 4] =
     Some (10, \<lparr>fdt = [], hist = []\<rparr>)"
proof -
  let ?rules = "[(2, ReturnConst 10), (4, PassThrough)]"
  have "rules_from [] (map rule_str ?rules) = Inr ([] @ ?rules)" by (rule rules_from_str) (simp_all add: rule_ok_def)
  moreover have "split_on (CHR '','') (rules_str ?rules) = map rule_str ?rules"
    unfolding rules_str_def using rule_str_chars not_plain(1) by (intro split_join) force+
  ultimately have p: "parse_rules (rules_str ?rules) = Inr ?rules" by (simp add: parse_rules_def)
  have i: "install_rules [4, 2] = Some [(4, 4), (2, 2)]" using install_rules_same [of "[4, 2]"] by simp
  show ?thesis using installed_rules_answer [OF p _ _ i, of 2 2 policy_demo "\<lparr>fdt = [], hist = []\<rparr>" 4 "[0, 0, 0, 0, 0, 0]" "[4, 4, 4, 4, 4, 4]"]
    by (simp add: insert_commute)
qed

text \<open>A number of 33 bits is truncated: the rule for \<open>2 ^ 32 + 2\<close> is installed with the handler of call 2, which has no rule.\<close>

lemma truncated_rule_panics:
  "install_rules [2 ^ 32 + 2] = Some [(2 ^ 32 + 2, 2)] \<and>
   dispatch_handler [(2 ^ 32 + 2, ReturnConst 0)] 2 E w cageid a g = None"
  by (simp add: handler_for_def HANDLERS_def MAX_SYSCALL_def as_usize_def dispatch_handler_def Let_def del: upt_Suc)

section \<open>fs-view-grate\<close>

definition no_parent :: "string \<Rightarrow> bool" where
  "no_parent p \<longleftrightarrow> ''..'' \<notin> set (split_on slash p)"

lemma foldl_no_parent: "''..'' \<notin> set ps \<Longrightarrow> \<exists>qs. foldl path_step acc ps = acc @ qs"
proof (induction ps arbitrary: acc)
  case (Cons p ps)
  then have "\<exists>qs. path_step acc p = acc @ qs" by (auto simp: path_step_def)
  moreover have "\<exists>qs. foldl path_step (path_step acc p) ps = path_step acc p @ qs" using Cons by simp
  ultimately show ?case by force
qed simp

lemma cage_name_clean: "clean_name (''cage-'' @ nat_str c)"
proof -
  have "slash \<notin> set (nat_str c)" by (auto simp: plain_def dest: nat_str_plain)
  then show ?thesis by (auto simp: clean_name_def)
qed

lemma cage_path_split:
  "\<exists>ps. split_on slash (cage_path p c) = [] # (''cage-'' @ nat_str c) # ps \<and> (no_parent p \<longrightarrow> ''..'' \<notin> set ps)"
proof -
  have n: "slash \<notin> set (''cage-'' @ nat_str c)" using cage_name_clean unfolding clean_name_def by blast
  let ?q = "if starts_with p ''/'' then tl p else p"
  have "cage_path p c = slash # (''cage-'' @ nat_str c) @ slash # ?q"
    by (cases p) (auto simp: cage_path_def starts_with_def)
  then have "split_on slash (cage_path p c) = [] # (''cage-'' @ nat_str c) # split_on slash ?q"
    using split_on_append_sep [of slash "''cage-'' @ nat_str c" ?q] split_on_no_sep [OF n] by simp
  moreover have "no_parent p \<longrightarrow> ''..'' \<notin> set (split_on slash ?q)"
    by (cases p) (auto simp: no_parent_def starts_with_def)
  ultimately show ?thesis by blast
qed

lemma cage_path_resolves:
  assumes "no_parent p"
  shows "\<exists>ps. resolve_parts (split_on slash (cage_path p c)) = (''cage-'' @ nat_str c) # ps"
proof -
  obtain ps where ps: "split_on slash (cage_path p c) = [] # (''cage-'' @ nat_str c) # ps" "''..'' \<notin> set ps"
    using cage_path_split [of p c] assms by blast
  obtain qs where "foldl path_step [''cage-'' @ nat_str c] ps = [''cage-'' @ nat_str c] @ qs" using foldl_no_parent [OF ps(2)] by blast
  then show ?thesis unfolding ps(1) resolve_parts_def foldl.simps path_step_empty path_step_clean [OF cage_name_clean] append_Nil
    by (intro exI [of _ qs]) simp
qed

definition in_view :: "nat \<Rightarrow> string \<Rightarrow> bool" where
  "in_view c s \<longleftrightarrow> s = cage_root c \<or> (\<exists>p. s = cage_path p c)"

lemma no_parent_suffix: "no_parent (a @ slash # b) \<Longrightarrow> no_parent b"
  by (simp add: no_parent_def split_on_append_sep)

lemma in_view_resolves:
  assumes "in_view c s" "no_parent s"
  shows "\<exists>ps. resolve_parts (split_on slash s) = (''cage-'' @ nat_str c) # ps"
proof -
  have r: "cage_root c = render_abs [''cage-'' @ nat_str c]" by (simp add: cage_root_def render_abs_def)
  have "resolve_parts (split_on slash (cage_root c)) = [''cage-'' @ nat_str c]"
    unfolding r by (rule resolve_render) (simp only: list.set ball_simps cage_name_clean)
  moreover have "no_parent p" if "s = cage_path p c" for p
  proof -
    obtain ps where ps: "split_on slash (cage_path p c) = [] # (''cage-'' @ nat_str c) # ps" using cage_path_split [of p c] by blast
    have "s = ''/cage-'' @ nat_str c @ (if starts_with p ''/'' then p else ''/'' @ p)" using that by (simp add: cage_path_def)
    then have "no_parent (if starts_with p ''/'' then tl p else p)"
      using assms(2) no_parent_suffix [of "''/cage-'' @ nat_str c" "if starts_with p ''/'' then tl p else p"]
      by (cases p) (auto simp: starts_with_def split: if_splits)
    then show ?thesis by (cases p) (auto simp: no_parent_def starts_with_def split: if_splits)
  qed
  ultimately show ?thesis using assms(1) cage_path_resolves [of _ c] unfolding in_view_def by blast
qed

text \<open>The positions at which each handled call takes paths, and a call whose paths were all rewritten to names of the grate's own
  memory in the view of the cage it is made for.\<close>

definition view_path_args :: "nat \<Rightarrow> nat list" where
  "view_path_args nr = (if nr \<in> {SYS_RENAME, SYS_LINK} then [0, 1] else if nr = SYS_UNLINKAT then [1] else [0])"

definition paths_rewritten :: "threei_call \<Rightarrow> bool" where
  "paths_rewritten c \<longleftrightarrow> callnumber c \<in> {SYS_CLONE, SYS_EXEC} \<or>
     (\<forall>i \<in> set (view_path_args (callnumber c)). \<exists>s. call_args c ! i = OwnStr s \<and> in_view (target_cageid c) s)"

lemma view_handlers_in_view:
  assumes "map_of view_handlers nr = Some h" "length a = 6" "c \<in> set (calls_of (hist (snd (h E w cage a g))))"
  shows "c \<in> set (calls_of (hist w)) \<or> paths_rewritten c"
proof -
  have one: "c \<in> set (calls_of (hist w)) \<or> paths_rewritten c"
    if "c \<in> set (calls_of (hist (snd (path_rewrite_handler n i E w cage a g))))" "view_path_args (as_u32 n) = [i]" "i < 6" for n i
    using that assms(2)
    by (auto simp: path_rewrite_handler_def forward_with_rewrite_def ensure_cage_root_def cstring_new_def in_view_def paths_rewritten_def
        view_path_args_def Let_def split: option.splits if_splits)
  have two: "c \<in> set (calls_of (hist w)) \<or> paths_rewritten c"
    if "c \<in> set (calls_of (hist (snd (two_path_rewrite_handler n 0 1 E w cage a g))))" "view_path_args (as_u32 n) = [0, 1]" for n
    using that assms(2)
    by (auto simp: two_path_rewrite_handler_def ensure_cage_root_def cstring_new_def in_view_def paths_rewritten_def view_path_args_def Let_def
        split: option.splits if_splits)
  have fwd: "c \<in> set (calls_of (hist w)) \<or> paths_rewritten c"
    if "c \<in> set (calls_of (hist (snd (view_forward E w n i a g))))" "as_u32 n \<in> {SYS_CLONE, SYS_EXEC}" for n i
    using that by (auto simp: view_forward_def plain_call_def paths_rewritten_def)
  show ?thesis using assms(1,3) one two fwd unfolding view_handlers_def view_fork_def view_exec_def
    by (auto simp: view_path_args_def as_u32_def split: if_splits)
qed

lemma nat_str_inj: "nat_str a = nat_str b \<longleftrightarrow> a = b"
  using digits_val_nat_str by (metis option.inject)

text \<open>C38.  Cages do not share paths: over any run of the fs-view grate, every call it passes to the runtime other than
  \<open>clone\<close> and \<open>exec\<close> carries, at every position at which the call takes a path, a string of the grate's own in place of the cage's pointer
  (the root it makes for a cage included), and two such paths
  passed for different cages, neither of which has a parent component, never resolve to the same file, nor does one lie above the other.
  \<open>exec\<close> is excluded because its handler forwards the cage's own, unprefixed path, and so are parent components because
  the prefixed path is not normalised (\<open>parent_escapes_view\<close>).\<close>

theorem views_disjoint:
  fixes w :: "'ft grate_world"
  assumes "\<forall>(nr, cage, a, g) \<in> set calls. length a = 6" "hist w = []"
    and "c \<in> set (calls_of (hist (policy_run view_handlers E w calls)))" "d \<in> set (calls_of (hist (policy_run view_handlers E w calls)))"
    and "callnumber c \<notin> {SYS_CLONE, SYS_EXEC}" "callnumber d \<notin> {SYS_CLONE, SYS_EXEC}" "target_cageid c \<noteq> target_cageid d"
    and "i \<in> set (view_path_args (callnumber c))" "j \<in> set (view_path_args (callnumber d))"
  shows "\<exists>s t. call_args c ! i = OwnStr s \<and> call_args d ! j = OwnStr t \<and>
    (no_parent s \<and> no_parent t \<longrightarrow>
      (\<exists>x y ps qs. resolve_parts (split_on slash s) = x # ps \<and> resolve_parts (split_on slash t) = y # qs \<and> x \<noteq> y))"
proof -
  have "paths_rewritten c" if "c \<in> set (calls_of (hist (policy_run view_handlers E w calls)))" for c
    using policy_run_calls [OF view_handlers_in_view assms(1) that] assms(2) by simp
  then have "paths_rewritten c" "paths_rewritten d" using assms(3,4) by blast+
  then obtain s t where st: "call_args c ! i = OwnStr s" "in_view (target_cageid c) s" "call_args d ! j = OwnStr t" "in_view (target_cageid d) t"
    using assms(5,6,8,9) unfolding paths_rewritten_def by blast
  have "''cage-'' @ nat_str (target_cageid c) \<noteq> ''cage-'' @ nat_str (target_cageid d)" using assms(7) by (simp add: nat_str_inj)
  then show ?thesis using st in_view_resolves [OF st(2)] in_view_resolves [OF st(4)] by metis
qed

text \<open>The prefix is not normalised: a parent component leads out of the view of cage 1, here into that of cage 2.\<close>

lemma parent_escapes_view:
  "resolve_parts (split_on slash (cage_path ''/../cage-2/x'' 1)) = resolve_parts (split_on slash (cage_path ''/x'' 2))"
  by code_simp

lemma view_demo_path: "view_read_path policy_demo w p c = Some ''a''"
proof -
  have "from_utf8_lossy (c_str_bytes [0x61, 0]) = ''a''" by code_simp
  then show ?thesis by (simp add: view_read_path_def policy_demo_def)
qed

lemma view_demo_names: "cage_path ''a'' 4 = ''/cage-4/a''" "cage_path ''a'' 5 = ''/cage-5/a''"
  by code_simp+

theorem views_disjoint_witness:
  "no_parent ''/cage-4/a'' \<and> no_parent ''/cage-5/a'' \<and> (\<exists>x y ps qs. resolve_parts (split_on slash ''/cage-4/a'') = x # ps \<and> resolve_parts (split_on slash ''/cage-5/a'') = y # qs \<and> x \<noteq> y)"
proof -
  let ?calls = "[(2, 4, [7, 0, 0, 0, 0, 0], [4, 4, 4, 4, 4, 4]), (2, 5, [7, 0, 0, 0, 0, 0], [5, 5, 5, 5, 5, 5])] :: pcall list"
  let ?w = "\<lparr>fdt = [], hist = []\<rparr> :: fd_map grate_world"
  let ?c = "\<lambda>c p. \<lparr>callnumber = SYS_OPEN, self_cageid = ge_cage policy_demo, target_cageid = c,
    call_args = [OwnStr p, Num 0, Num 0, Num 0, Num 0, Num 0], call_cages = [grate_memory (ge_cage policy_demo), c, c, c, c, c]\<rparr>"
  have "calls_of (hist (policy_run view_handlers policy_demo ?w ?calls)) ! 1 = ?c 4 ''/cage-4/a''"
    "calls_of (hist (policy_run view_handlers policy_demo ?w ?calls)) ! 3 = ?c 5 ''/cage-5/a''"
    "length (calls_of (hist (policy_run view_handlers policy_demo ?w ?calls))) = 4"
    by (simp_all add: view_handlers_def path_rewrite_handler_def view_demo_path view_demo_names cstring_new_def forward_with_rewrite_def
        ensure_cage_root_def Let_def)
  then have m: "?c 4 ''/cage-4/a'' \<in> set (calls_of (hist (policy_run view_handlers policy_demo ?w ?calls)))"
    "?c 5 ''/cage-5/a'' \<in> set (calls_of (hist (policy_run view_handlers policy_demo ?w ?calls)))"
    using nth_mem [of 1 "calls_of (hist (policy_run view_handlers policy_demo ?w ?calls))"]
      nth_mem [of 3 "calls_of (hist (policy_run view_handlers policy_demo ?w ?calls))"] by simp_all
  have "\<exists>s t. call_args (?c 4 ''/cage-4/a'') ! 0 = OwnStr s \<and> call_args (?c 5 ''/cage-5/a'') ! 0 = OwnStr t \<and>
    (no_parent s \<and> no_parent t \<longrightarrow>
      (\<exists>x y ps qs. resolve_parts (split_on slash s) = x # ps \<and> resolve_parts (split_on slash t) = y # qs \<and> x \<noteq> y))"
    by (rule views_disjoint [OF _ _ m]) (simp_all add: view_path_args_def)
  moreover have "no_parent ''/cage-4/a''" "no_parent ''/cage-5/a''" by (simp_all add: no_parent_def)
  ultimately show ?thesis by simp
qed

end
