(* ===== verification/Mtls.thy ===== *)
theory Mtls
  imports Fd_Grates
begin

unbundle bit_operations_syntax

text \<open>
  The mutual-TLS grate (\<open>mtls-grate/src/handlers.rs\<close>): sockets of the cages are wrapped in TLS sessions, which the
  descriptors refer to by the per-descriptor word of their table entry; the sessions are counted by
  reference.  The TLS library (\<open>rustls\<close>) is a parameter: whether a connection can be made, and for a read or
  write on a connection the socket operations it does, its result and the connection afterwards.  The
  socket operations run through the adapter \<open>ThreeiSocket\<close>.
\<close>

section \<open>World and environment\<close>

datatype role = Server | Client

record 'c session_entry =
  s_role :: role
  s_conn :: 'c
  s_real_fd :: nat
  s_owner_cage :: nat
  refcount :: u32

record ('ft, 'c) mtls_world = "'ft grate_world" +
  next_session_id :: nat
  tls_sessions :: "(nat \<rightharpoonup> 'c session_entry) option"

datatype sock_op = SockRead nat | SockWrite "byte list"

text \<open>
  \<open>te_copy\<close>: \<open>return_fdtable_copy\<close>; \<open>te_exec\<close>: \<open>empty_fds_for_exec\<close>; \<open>te_client_config\<close>, \<open>te_server_config\<close>: whether
  \<open>main\<close> loaded the configuration; \<open>te_connect\<close>, \<open>te_accept\<close>: the new connection; \<open>te_read\<close>: the socket
  operations of a read of so many bytes, the bytes read (\<open>None\<close> an error) and the connection after; \<open>te_write\<close>: likewise
  with the number of bytes written; \<open>te_strncpy\<close>: what the runtime writes for a bounded string copy (copy type 1), which
  stops at the first zero byte, where a raw copy (type 0) writes the whole buffer.
\<close>

record ('ft, 'c) mtls_env =
  te_g :: "'ft grate_env"
  te_copy :: "'ft \<Rightarrow> nat \<Rightarrow> (nat \<times> fd_entry) list"
  te_exec :: "'ft \<Rightarrow> nat \<Rightarrow> 'ft"
  te_client_config :: bool
  te_server_config :: bool
  te_connect :: "event list \<Rightarrow> 'c option"
  te_accept :: "event list \<Rightarrow> 'c option"
  te_read :: "event list \<Rightarrow> role \<Rightarrow> 'c \<Rightarrow> nat \<Rightarrow> sock_op list \<times> byte list option \<times> 'c"
  te_write :: "event list \<Rightarrow> role \<Rightarrow> 'c \<Rightarrow> byte list \<Rightarrow> sock_op list \<times> nat option \<times> 'c"
  te_strncpy :: "byte list \<Rightarrow> byte list"

abbreviation te_fd :: "('ft, 'c) mtls_env \<Rightarrow> 'ft fdtables_ops" where
  "te_fd E \<equiv> ge_fd (te_g E)"

abbreviation te_fds :: "('ft, 'c) mtls_env \<Rightarrow> 'ft shadow_env" where
  "te_fds E \<equiv> \<lparr>fe_g = te_g E, fe_exec = te_exec E\<rparr>"

type_synonym ('ft, 'c) mtls_handler =
  "('ft, 'c) mtls_env \<Rightarrow> ('ft, 'c) mtls_world \<Rightarrow> nat \<Rightarrow> nat list \<Rightarrow> nat list \<Rightarrow> (int \<times> ('ft, 'c) mtls_world) option"

section \<open>Reference counts\<close>

definition increment_refcount :: "nat \<Rightarrow> ('ft, 'c) mtls_world \<Rightarrow> ('ft, 'c) mtls_world" where
  "increment_refcount session_id w =
     (if session_id = 0 then w
      else case tls_sessions w of None \<Rightarrow> w
        | Some sessions \<Rightarrow>
            (case sessions session_id of None \<Rightarrow> w
             | Some e \<Rightarrow> w\<lparr>tls_sessions := Some (sessions(session_id \<mapsto> e\<lparr>refcount := refcount e + 1\<rparr>))\<rparr>))"

definition decrement_refcount :: "nat \<Rightarrow> ('ft, 'c) mtls_world \<Rightarrow> ('ft, 'c) mtls_world" where
  "decrement_refcount session_id w =
     (if session_id = 0 then w
      else case tls_sessions w of None \<Rightarrow> w
        | Some sessions \<Rightarrow>
            (case sessions session_id of None \<Rightarrow> w
             | Some e \<Rightarrow>
                 (let n = refcount e - 1 in
                  w\<lparr>tls_sessions := Some (sessions(session_id := (if n = 0 then None else Some (e\<lparr>refcount := n\<rparr>))))\<rparr>)))"

section \<open>The socket adapter\<close>

definition EIO :: int where "EIO = 5"

definition socket_call :: "('ft, 'c) mtls_env \<Rightarrow> nat \<Rightarrow> nat \<Rightarrow> nat \<Rightarrow> byte list \<Rightarrow> threei_call" where
  "socket_call E nr real_fd owner buf =
     \<lparr>callnumber = nr, self_cageid = ge_cage (te_g E), target_cageid = owner,
      call_args = [Num real_fd, OwnBuf buf, Num (length buf), Num 0, Num 0, Num 0],
      call_cages = [owner, grate_memory (ge_cage (te_g E)), ge_cage (te_g E), 0, 0, 0]\<rparr>"

definition socket_result :: "grate_error + int \<Rightarrow> int + nat" where
  "socket_result r = (case r of Inr bytes \<Rightarrow> if 0 \<le> bytes then Inr (as_usize bytes) else Inl EIO | Inl _ \<Rightarrow> Inl EIO)"

definition socket_read ::
  "('ft, 'c) mtls_env \<Rightarrow> ('ft, 'c) mtls_world \<Rightarrow> nat \<Rightarrow> nat \<Rightarrow> nat \<Rightarrow> (int + nat) \<times> byte list \<times> ('ft, 'c) mtls_world" where
  "socket_read E w real_fd owner len =
     (let c = socket_call E SYS_READ real_fd owner (replicate len 0)
      in (socket_result (make_threei_call (ge_sys (te_g E) (hist w)) c), ge_out (te_g E) (hist w) c 1, log_event (Threei c) w))"

definition socket_write ::
  "('ft, 'c) mtls_env \<Rightarrow> ('ft, 'c) mtls_world \<Rightarrow> nat \<Rightarrow> nat \<Rightarrow> byte list \<Rightarrow> (int + nat) \<times> ('ft, 'c) mtls_world" where
  "socket_write E w real_fd owner buf =
     (let c = socket_call E SYS_WRITE real_fd owner buf
      in (socket_result (make_threei_call (ge_sys (te_g E) (hist w)) c), log_event (Threei c) w))"

text \<open>What the library does to the socket; the results it sees are functions of the history.\<close>

fun socket_ops :: "('ft, 'c) mtls_env \<Rightarrow> nat \<Rightarrow> nat \<Rightarrow> sock_op list \<Rightarrow> ('ft, 'c) mtls_world \<Rightarrow> ('ft, 'c) mtls_world" where
  "socket_ops E fd owner [] w = w"
| "socket_ops E fd owner (SockRead n # ops) w = socket_ops E fd owner ops (snd (snd (socket_read E w fd owner n)))"
| "socket_ops E fd owner (SockWrite bs # ops) w = socket_ops E fd owner ops (snd (socket_write E w fd owner bs))"

section \<open>Opening sessions\<close>

text \<open>A new session with one reference.  The map of sessions is there once \<open>main\<close> ran.\<close>

definition add_session ::
  "role \<Rightarrow> 'c \<Rightarrow> nat \<Rightarrow> nat \<Rightarrow> ('ft, 'c) mtls_world \<Rightarrow> (nat \<times> ('ft, 'c) mtls_world) option" where
  "add_session r conn real_fd owner w =
     (let session_id = next_session_id w; w = w\<lparr>next_session_id := (session_id + 1) mod 2 ^ 64\<rparr> in
      case tls_sessions w of None \<Rightarrow> None
      | Some sessions \<Rightarrow>
          Some (session_id, w\<lparr>tls_sessions := Some (sessions(session_id \<mapsto>
            \<lparr>s_role = r, s_conn = conn, s_real_fd = real_fd, s_owner_cage = owner, refcount = 1\<rparr>))\<rparr>))"

definition connect_syscall :: "('ft, 'c) mtls_handler" where
  "connect_syscall E w cageid a g =
     (let fd = a ! 0; fd_cage = g ! 0; c = plain_call SYS_CONNECT (ge_cage (te_g E)) fd_cage a g;
          r = make_threei_call (ge_sys (te_g E) (hist w)) c; w = log_event (Threei c) w in
      case r of
        Inl _ \<Rightarrow> Some (-1, w)
      | Inr ret \<Rightarrow>
          if ret < 0 then Some (ret, w)
          else if \<not> te_client_config E then None
          else (case te_connect E (hist w) of
                  None \<Rightarrow> Some (-1, w)
                | Some conn \<Rightarrow>
                    Option.bind (add_session Client conn fd fd_cage w) (\<lambda>(session_id, w).
                      let w = installed (te_fds E) cageid fd (mk_entry 0 fd False 0) w in
                      case set_perfdinfo (te_fd E) (fdt w) cageid fd session_id of
                        None \<Rightarrow> Some (-1, w)
                      | Some ft \<Rightarrow> Some (ret, w\<lparr>fdt := ft\<rparr>))))"

definition accept_syscall :: "('ft, 'c) mtls_handler" where
  "accept_syscall E w cageid a g =
     (let fd_cage = g ! 0; c = plain_call SYS_ACCEPT (ge_cage (te_g E)) fd_cage a g;
          r = make_threei_call (ge_sys (te_g E) (hist w)) c; w = log_event (Threei c) w in
      case r of
        Inl _ \<Rightarrow> Some (-1, w)
      | Inr ret \<Rightarrow>
          if ret < 0 then Some (-1, w)
          else if \<not> te_server_config E then None
          else (case te_accept E (hist w) of
                  None \<Rightarrow> Some (-1, w)
                | Some conn \<Rightarrow>
                    Option.bind (add_session Server conn (as_u64 ret) fd_cage w) (\<lambda>(session_id, w).
                      case get_unused_virtual_fd (te_fd E) (fdt w) cageid 0 (as_u64 ret) False 0 of
                        None \<Rightarrow> Some (-1, w)
                      | Some (vfd, ft) \<Rightarrow>
                          (let w = w\<lparr>fdt := ft\<rparr> in
                           case set_perfdinfo (te_fd E) (fdt w) cageid vfd session_id of
                             None \<Rightarrow> Some (-1, w)
                           | Some ft \<Rightarrow> Some (as_i32 (int vfd), w\<lparr>fdt := ft\<rparr>)))))"

section \<open>Reading and writing\<close>

definition mtls_forward :: "('ft, 'c) mtls_env \<Rightarrow> ('ft, 'c) mtls_world \<Rightarrow> nat \<Rightarrow> nat \<Rightarrow> nat list \<Rightarrow> nat list \<Rightarrow> int \<times> ('ft, 'c) mtls_world" where
  "mtls_forward E w nr target a g = fd_forward (te_fds E) w nr target a g"

definition put_conn :: "nat \<Rightarrow> 'c \<Rightarrow> ('ft, 'c) mtls_world \<Rightarrow> ('ft, 'c) mtls_world" where
  "put_conn session_id conn w =
     w\<lparr>tls_sessions := map_option (\<lambda>s. s(session_id := map_option (\<lambda>e. e\<lparr>s_conn := conn\<rparr>) (s session_id))) (tls_sessions w)\<rparr>"

definition read_syscall :: "('ft, 'c) mtls_handler" where
  "read_syscall E w cageid a g =
     (case translate_virtual_fd (te_fd E) (fdt w) cageid (a ! 0) of
        None \<Rightarrow> Some (-1, w)
      | Some fd_entry \<Rightarrow>
          (let session_id = perfdinfo fd_entry in
           if session_id = 0 then Some (mtls_forward E w SYS_READ (g ! 0) (a[0 := underfd fd_entry]) g)
           else (case tls_sessions w of None \<Rightarrow> None
             | Some sessions \<Rightarrow>
                 (case sessions session_id of None \<Rightarrow> Some (-1, w)
                  | Some e \<Rightarrow>
                      (let (ops, result, conn) = te_read E (hist w) (s_role e) (s_conn e) (as_usize (int (a ! 2)));
                           w = put_conn session_id conn (socket_ops E (s_real_fd e) (s_owner_cage e) ops w)
                       in case result of None \<Rightarrow> Some (-1, w)
                          | Some plaintext \<Rightarrow>
                              (let copied = te_strncpy E plaintext;
                                   ok = ge_copyout (te_g E) (hist w) (g ! 1) (a ! 1) copied;
                                   w = log_event (CopyOut (g ! 1) (a ! 1) copied) w
                               in Some (if ok then as_i32 (int (length plaintext)) else -1, w)))))))"

definition write_syscall :: "('ft, 'c) mtls_handler" where
  "write_syscall E w cageid a g =
     (case translate_virtual_fd (te_fd E) (fdt w) cageid (a ! 0) of
        None \<Rightarrow> Some (-1, w)
      | Some fd_entry \<Rightarrow>
          (let session_id = perfdinfo fd_entry in
           if session_id = 0 then Some (mtls_forward E w SYS_WRITE (g ! 0) (a[0 := underfd fd_entry]) g)
           else (case ge_copystr (te_g E) (hist w) (g ! 1) (a ! 1) (a ! 2) of
               None \<Rightarrow> Some (-1, w)
             | Some plaintext \<Rightarrow>
                 (case tls_sessions w of None \<Rightarrow> None
                  | Some sessions \<Rightarrow>
                      (case sessions session_id of None \<Rightarrow> Some (-1, w)
                       | Some e \<Rightarrow>
                           (let (ops, result, conn) = te_write E (hist w) (s_role e) (s_conn e) plaintext;
                                w = put_conn session_id conn (socket_ops E (s_real_fd e) (s_owner_cage e) ops w)
                            in Some (case result of None \<Rightarrow> -1 | Some n \<Rightarrow> as_i32 (int n), w)))))))"

section \<open>Descriptors and processes\<close>

text \<open>The loops over the keys of a copied table look each descriptor up again.\<close>

definition for_sessions ::
  "('ft, 'c) mtls_env \<Rightarrow> nat \<Rightarrow> (nat \<Rightarrow> ('ft, 'c) mtls_world \<Rightarrow> ('ft, 'c) mtls_world) \<Rightarrow> ('ft, 'c) mtls_world \<Rightarrow> ('ft, 'c) mtls_world" where
  "for_sessions E cage f w =
     fold (\<lambda>(fd, _) w. case translate_virtual_fd (te_fd E) (fdt w) cage fd of Some e \<Rightarrow> f (perfdinfo e) w | None \<Rightarrow> w)
       (te_copy E (fdt w) cage) w"

definition mtls_fork :: "('ft, 'c) mtls_handler" where
  "mtls_fork E w cageid a g =
     (let (ret, w) = mtls_forward E w SYS_CLONE cageid a g in
      if ret \<le> 0 then Some (ret, w)
      else if is_thread_clone (te_g E) w (a ! 0) (g ! 0) then Some (ret, w)
      else (let w = for_sessions E cageid increment_refcount w in
            case copy_fdtable_for_cage (te_fd E) (fdt w) cageid (as_u64 ret) of
              Some ft \<Rightarrow> Some (ret, w\<lparr>fdt := ft\<rparr>) | None \<Rightarrow> Some (ret, w)))"

definition mtls_exec :: "('ft, 'c) mtls_handler" where
  "mtls_exec E w cageid a g =
     (let w = for_sessions E cageid decrement_refcount w;
          w = std_fds (te_fds E) cageid (w\<lparr>fdt := te_exec E (fdt w) cageid\<rparr>)
      in Some (mtls_forward E w SYS_EXECVE cageid a g))"

definition mtls_dup :: "('ft, 'c) mtls_handler" where
  "mtls_dup E w cageid a g =
     (let (ret, w) = mtls_forward E w SYS_DUP cageid a g in
      if 0 \<le> ret
      then (case translate_virtual_fd (te_fd E) (fdt w) cageid (a ! 0) of
              Some e \<Rightarrow> Some (ret, installed (te_fds E) cageid (as_u64 ret) e (increment_refcount (perfdinfo e) w)) | None \<Rightarrow> Some (ret, w))
      else Some (ret, w))"

definition mtls_dup2 :: "('ft, 'c) mtls_handler" where
  "mtls_dup2 E w cageid a g =
     (let old_newfd_session = (case translate_virtual_fd (te_fd E) (fdt w) cageid (a ! 1) of Some e \<Rightarrow> perfdinfo e | None \<Rightarrow> 0);
          (ret, w) = mtls_forward E w SYS_DUP2 cageid a g in
      if 0 \<le> ret
      then (let w = decrement_refcount old_newfd_session w in
            case translate_virtual_fd (te_fd E) (fdt w) cageid (a ! 0) of
              Some e \<Rightarrow> Some (ret, installed (te_fds E) cageid (a ! 1) e (increment_refcount (perfdinfo e) w)) | None \<Rightarrow> Some (ret, w))
      else Some (ret, w))"

definition mtls_close :: "('ft, 'c) mtls_handler" where
  "mtls_close E w cageid a g =
     (let w = (case translate_virtual_fd (te_fd E) (fdt w) cageid (a ! 0) of Some e \<Rightarrow> decrement_refcount (perfdinfo e) w | None \<Rightarrow> w);
          w = closed (te_fds E) cageid (a ! 0) w
      in Some (mtls_forward E w SYS_CLOSE cageid a g))"

text \<open>The table of \<open>main\<close>, and the state when the handlers start.\<close>

definition mtls_handlers :: "(nat \<times> ('ft, 'c) mtls_handler) list" where
  "mtls_handlers =
     [(SYS_CONNECT, connect_syscall), (SYS_ACCEPT, accept_syscall), (SYS_READ, read_syscall), (SYS_WRITE, write_syscall),
      (SYS_CLONE, mtls_fork), (SYS_EXECVE, mtls_exec), (SYS_DUP, mtls_dup), (SYS_DUP2, mtls_dup2), (SYS_CLOSE, mtls_close)]"

definition mtls_start :: "('ft, 'c) mtls_env \<Rightarrow> 'ft \<Rightarrow> ('ft, 'c) mtls_world" where
  "mtls_start E ft =
     \<lparr>fdt = init_empty_cage (te_fd E) ft (ge_cage (te_g E)), hist = [], next_session_id = 1, tls_sessions = Some Map.empty\<rparr>"

end
