(* ===== verification/Mtls_Props.thy ===== *)
theory Mtls_Props
  imports Mtls
begin

text \<open>
  Properties of the mutual-TLS grate: data of a descriptor with a session never reaches the runtime except through
  the session, and what the handlers do to the reference counts.
\<close>

section \<open>The socket operations\<close>

definition sealed :: "('ft, 'c) mtls_env \<Rightarrow> nat \<Rightarrow> nat \<Rightarrow> event \<Rightarrow> bool" where
  "sealed E real_fd owner ev \<longleftrightarrow>
     (\<exists>c buf. ev = Threei c \<and> callnumber c \<in> {SYS_READ, SYS_WRITE} \<and> target_cageid c = owner \<and>
        call_args c = [Num real_fd, OwnBuf buf, Num (length buf), Num 0, Num 0, Num 0] \<and>
        call_cages c ! 1 = grate_memory (ge_cage (te_g E)))"

lemma socket_ops_sealed:
  "\<exists>evs. socket_ops E fd owner ops w = w\<lparr>hist := hist w @ evs\<rparr> \<and> (\<forall>ev \<in> set evs. sealed E fd owner ev)"
proof (induction E fd owner ops w rule: socket_ops.induct)
  case (1 E fd owner w)
  show ?case by (rule exI [of _ "[]"]) simp
next
  case (2 E fd owner n ops w)
  let ?ev = "Threei (socket_call E SYS_READ fd owner (replicate n 0))"
  have w: "snd (snd (socket_read E w fd owner n)) = w\<lparr>hist := hist w @ [?ev]\<rparr>" by (simp add: socket_read_def log_event_def Let_def)
  have s: "sealed E fd owner ?ev" by (simp add: sealed_def socket_call_def)
  from 2 obtain evs where "socket_ops E fd owner ops (w\<lparr>hist := hist w @ [?ev]\<rparr>) = w\<lparr>hist := (hist w @ [?ev]) @ evs\<rparr>"
    "\<forall>ev \<in> set evs. sealed E fd owner ev" unfolding w by auto
  then show ?case using s by (intro exI [of _ "?ev # evs"]) (simp add: w)
next
  case (3 E fd owner bs ops w)
  let ?ev = "Threei (socket_call E SYS_WRITE fd owner bs)"
  have w: "snd (socket_write E w fd owner bs) = w\<lparr>hist := hist w @ [?ev]\<rparr>" by (simp add: socket_write_def log_event_def Let_def)
  have s: "sealed E fd owner ?ev" by (simp add: sealed_def socket_call_def)
  from 3 obtain evs where "socket_ops E fd owner ops (w\<lparr>hist := hist w @ [?ev]\<rparr>) = w\<lparr>hist := (hist w @ [?ev]) @ evs\<rparr>"
    "\<forall>ev \<in> set evs. sealed E fd owner ev" unfolding w by auto
  then show ?case using s by (intro exI [of _ "?ev # evs"]) (simp add: w)
qed

lemma put_conn_hist [simp]: "hist (put_conn i c w) = hist w"
  by (simp add: put_conn_def)

lemma session_write:
  assumes "translate_virtual_fd (te_fd E) (fdt w) cageid (a ! 0) = Some e" "perfdinfo e \<noteq> 0" "write_syscall E w cageid a g = Some (ret, w')"
  shows "\<exists>s evs. hist w' = hist w @ evs \<and> (evs \<noteq> [] \<longrightarrow> (\<exists>m. tls_sessions w = Some m \<and> m (perfdinfo e) = Some s)) \<and>
    (\<forall>ev \<in> set evs. sealed E (s_real_fd s) (s_owner_cage s) ev)"
proof (cases "\<exists>bs m s. ge_copystr (te_g E) (hist w) (g ! 1) (a ! 1) (a ! 2) = Some bs \<and> tls_sessions w = Some m \<and> m (perfdinfo e) = Some s")
  case True
  then obtain bs m s where t: "ge_copystr (te_g E) (hist w) (g ! 1) (a ! 1) (a ! 2) = Some bs" "tls_sessions w = Some m" "m (perfdinfo e) = Some s" by blast
  obtain ops r conn where o: "te_write E (hist w) (s_role s) (s_conn s) bs = (ops, r, conn)" by (cases "te_write E (hist w) (s_role s) (s_conn s) bs")
  obtain evs where "socket_ops E (s_real_fd s) (s_owner_cage s) ops w = w\<lparr>hist := hist w @ evs\<rparr>"
    "\<forall>ev \<in> set evs. sealed E (s_real_fd s) (s_owner_cage s) ev" using socket_ops_sealed by blast
  then show ?thesis using assms t o by (intro exI [of _ s] exI [of _ evs]) (auto simp: write_syscall_def)
next
  case False
  then have "w' = w" using assms by (auto simp: write_syscall_def Let_def split: option.splits)
  then show ?thesis by (intro exI [of _ undefined] exI [of _ "[]"]) simp
qed

lemma session_read:
  assumes "translate_virtual_fd (te_fd E) (fdt w) cageid (a ! 0) = Some e" "perfdinfo e \<noteq> 0" "read_syscall E w cageid a g = Some (ret, w')"
  shows "\<exists>s evs out. hist w' = hist w @ evs @ out \<and> (evs @ out \<noteq> [] \<longrightarrow> (\<exists>m. tls_sessions w = Some m \<and> m (perfdinfo e) = Some s)) \<and>
    (\<forall>ev \<in> set evs. sealed E (s_real_fd s) (s_owner_cage s) ev) \<and> (out = [] \<or> (\<exists>bs. out = [CopyOut (g ! 1) (a ! 1) bs]))"
proof (cases "\<exists>m s. tls_sessions w = Some m \<and> m (perfdinfo e) = Some s")
  case True
  then obtain m s where t: "tls_sessions w = Some m" "m (perfdinfo e) = Some s" by blast
  obtain ops r conn where o: "te_read E (hist w) (s_role s) (s_conn s) (as_usize (int (a ! 2))) = (ops, r, conn)"
    by (cases "te_read E (hist w) (s_role s) (s_conn s) (as_usize (int (a ! 2)))")
  obtain evs where ev: "socket_ops E (s_real_fd s) (s_owner_cage s) ops w = w\<lparr>hist := hist w @ evs\<rparr>"
    "\<forall>ev \<in> set evs. sealed E (s_real_fd s) (s_owner_cage s) ev" using socket_ops_sealed by blast
  show ?thesis
  proof (cases r)
    case None
    then show ?thesis using assms t o ev by (intro exI [of _ s] exI [of _ evs] exI [of _ "[]"]) (auto simp: read_syscall_def)
  next
    case (Some bs)
    then show ?thesis using assms t o ev
      by (intro exI [of _ s] exI [of _ evs] exI [of _ "[CopyOut (g ! 1) (a ! 1) (te_strncpy E bs)]"]) (auto simp: read_syscall_def Let_def)
  qed
next
  case False
  then have "w' = w" using assms by (auto simp: read_syscall_def Let_def split: option.splits)
  then show ?thesis by (intro exI [of _ undefined] exI [of _ "[]"]) simp
qed

text \<open>C37.  The traffic of a session goes through its socket: on a descriptor with a session, a read or write of the cage makes only calls of the
  session's own socket, on the grate's buffers, never on the buffer of the cage; without a live session it makes none
  and fails with \<open>-1\<close>.\<close>

theorem session_traffic_sealed:
  fixes w :: "('ft, 'c) mtls_world"
  assumes "translate_virtual_fd (te_fd E) (fdt w) cageid (a ! 0) = Some e" "perfdinfo e \<noteq> 0"
    and "h \<in> {read_syscall, write_syscall}" "h E w cageid a g = Some (ret, w')"
  shows "\<exists>evs. hist w' = hist w @ evs \<and>
    (case tls_sessions w of None \<Rightarrow> evs = [] \<and> ret = -1
     | Some m \<Rightarrow> (case m (perfdinfo e) of None \<Rightarrow> evs = [] \<and> ret = -1
        | Some s \<Rightarrow> \<forall>c. Threei c \<in> set evs \<longrightarrow> sealed E (s_real_fd s) (s_owner_cage s) (Threei c)))"
proof -
  have none: "ret = -1 \<and> w' = w" if "\<And>m s. tls_sessions w = Some m \<Longrightarrow> m (perfdinfo e) \<noteq> Some s"
    using assms that by (auto simp: read_syscall_def write_syscall_def Let_def split: option.splits)
  show ?thesis
  proof (cases "\<exists>m s. tls_sessions w = Some m \<and> m (perfdinfo e) = Some s")
    case True
    then obtain m s where t: "tls_sessions w = Some m" "m (perfdinfo e) = Some s" by blast
    have "\<exists>evs. hist w' = hist w @ evs \<and> (\<forall>c. Threei c \<in> set evs \<longrightarrow> sealed E (s_real_fd s) (s_owner_cage s) (Threei c))"
    proof (cases "h = read_syscall")
      case True
      obtain evs out s' where "hist w' = hist w @ evs @ out" "evs @ out \<noteq> [] \<longrightarrow> (\<exists>m. tls_sessions w = Some m \<and> m (perfdinfo e) = Some s')"
        "\<forall>ev \<in> set evs. sealed E (s_real_fd s') (s_owner_cage s') ev" "out = [] \<or> (\<exists>bs. out = [CopyOut (g ! 1) (a ! 1) bs])"
        using session_read [OF assms(1,2)] assms(4) True by blast
      then show ?thesis using t by (intro exI [of _ "evs @ out"]) (cases "evs @ out = []"; auto)
    next
      case False
      then obtain evs s' where "hist w' = hist w @ evs" "evs \<noteq> [] \<longrightarrow> (\<exists>m. tls_sessions w = Some m \<and> m (perfdinfo e) = Some s')"
        "\<forall>ev \<in> set evs. sealed E (s_real_fd s') (s_owner_cage s') ev"
        using session_write [OF assms(1,2)] assms(3,4) by blast
      then show ?thesis using t by (intro exI [of _ evs]) (cases "evs = []"; auto)
    qed
    then show ?thesis by (simp add: t)
  next
    case False
    then have "ret = -1 \<and> w' = w" using none by blast
    then show ?thesis using False by (intro exI [of _ "[]"]) (auto split: option.split)
  qed
qed

section \<open>A concrete session\<close>

text \<open>The connection is a counter of the bytes; a write sends one record of the same length with a leading byte.\<close>

definition mtls_demo :: "(fd_map, nat) mtls_env" where
  "mtls_demo =
     \<lparr>te_g = \<lparr>ge_cage = 9, ge_sys = (\<lambda>h c. 6), ge_out = (\<lambda>h c i. []), ge_copystr = (\<lambda>h c p n. Some (replicate n 1)),
        ge_copymem = (\<lambda>h c p n. None), ge_copyout = (\<lambda>h c p bs. True), ge_register = (\<lambda>h a b c. 0), ge_fd = map_fdtables,
        ge_unused_errno = (\<lambda>ft c. 24), ge_specific_errno = (\<lambda>ft c fd. 9)\<rparr>,
      te_copy = cage_fds, te_exec = exec_fds, te_client_config = True, te_server_config = True,
      te_connect = (\<lambda>h. Some 0), te_accept = (\<lambda>h. Some 0), te_read = (\<lambda>h r c n. ([SockRead (n + 1)], Some (replicate n 0), c + n)),
      te_write = (\<lambda>h r c bs. ([SockWrite (7 # map (\<lambda>b. b XOR 0x55) bs)], Some (length bs), c + length bs)),
      te_strncpy = takeWhile (\<lambda>b. b \<noteq> 0)\<rparr>"

definition mtls_demo_world :: "(fd_map, nat) mtls_world" where
  "mtls_demo_world =
     \<lparr>fdt = [((4, 3), mk_entry 0 3 False 1)], hist = [], next_session_id = 2,
      tls_sessions = Some [1 \<mapsto> \<lparr>s_role = Client, s_conn = 0, s_real_fd = 3, s_owner_cage = 4, refcount = 1\<rparr>]\<rparr>"

lemma mtls_demo_entry: "translate_virtual_fd (te_fd mtls_demo) (fdt mtls_demo_world) 4 3 = Some (mk_entry 0 3 False 1)"
  by (simp add: mtls_demo_def mtls_demo_world_def map_table_simps)

theorem session_traffic_sealed_witness:
  "\<exists>ret w' evs. write_syscall mtls_demo mtls_demo_world 4 [3, 50, 2, 0, 0, 0] [4, 4, 4, 4, 4, 4] = Some (ret, w') \<and>
    hist w' = evs \<and> (\<forall>c. Threei c \<notin> set evs \<or> sealed mtls_demo 3 4 (Threei c))"
proof -
  obtain ret w' where w: "write_syscall mtls_demo mtls_demo_world 4 [3, 50, 2, 0, 0, 0] [4, 4, 4, 4, 4, 4] = Some (ret, w')"
    using mtls_demo_entry by (auto simp: write_syscall_def mtls_demo_def mtls_demo_world_def Let_def)
  have "\<exists>evs. hist w' = hist mtls_demo_world @ evs \<and>
    (case tls_sessions mtls_demo_world of None \<Rightarrow> evs = [] \<and> ret = -1
     | Some m \<Rightarrow> (case m (perfdinfo (mk_entry 0 3 False 1)) of None \<Rightarrow> evs = [] \<and> ret = -1
        | Some s \<Rightarrow> \<forall>c. Threei c \<in> set evs \<longrightarrow> sealed mtls_demo (s_real_fd s) (s_owner_cage s) (Threei c)))"
    by (rule session_traffic_sealed [where h = write_syscall and cageid = 4 and a = "[3, 50, 2, 0, 0, 0]" and g = "[4, 4, 4, 4, 4, 4]"])
       (simp_all add: mtls_demo_entry w)
  then show ?thesis using w by (auto simp: mtls_demo_world_def)
qed

section \<open>What the reference counts do not cover\<close>

text \<open>An exec gives up the references of all descriptors of the cage, but keeps the descriptors that are not closed on exec:
  the session of a descriptor that survives is gone, and reading or writing it fails.\<close>

lemma exec_drops_session:
  "\<exists>ret w'. mtls_exec mtls_demo mtls_demo_world 4 [0, 0, 0, 0, 0, 0] [4, 4, 4, 4, 4, 4] = Some (ret, w') \<and>
    translate_virtual_fd (te_fd mtls_demo) (fdt w') 4 3 = Some (mk_entry 0 3 False 1) \<and> tls_sessions w' = Some Map.empty"
  by (simp add: mtls_exec_def for_sessions_def cage_fds_def exec_fds_def mtls_demo_def mtls_demo_world_def map_table_simps
      decrement_refcount_def std_fds_def installed_def mtls_forward_def fd_forward_def log_event_def Let_def)

text \<open>Duplicating a descriptor onto itself gives up its only reference before it takes the new one: the session is gone.\<close>

lemma self_dup_drops_session:
  "\<exists>ret w'. mtls_dup2 mtls_demo mtls_demo_world 4 [3, 3, 0, 0, 0, 0] [4, 4, 4, 4, 4, 4] = Some (ret, w') \<and>
    translate_virtual_fd (te_fd mtls_demo) (fdt w') 4 3 = Some (mk_entry 0 3 False 1) \<and> tls_sessions w' = Some Map.empty"
  by (simp add: mtls_dup2_def mtls_demo_def mtls_demo_world_def map_table_simps decrement_refcount_def increment_refcount_def
      installed_def mtls_forward_def fd_forward_def make_threei_call_def log_event_def Let_def)

text \<open>A second connect on a descriptor replaces its session without giving it up: the old one is never closed.\<close>

lemma reconnect_leaks_session:
  "\<exists>ret w' m. connect_syscall mtls_demo mtls_demo_world 4 [3, 50, 16, 0, 0, 0] [4, 4, 4, 4, 4, 4] = Some (ret, w') \<and>
    map_option perfdinfo (translate_virtual_fd (te_fd mtls_demo) (fdt w') 4 3) = Some 2 \<and> tls_sessions w' = Some m \<and> map_option refcount (m 1) = Some 1"
  by (simp add: connect_syscall_def add_session_def mtls_demo_def mtls_demo_world_def map_table_simps installed_def
      make_threei_call_def log_event_def Let_def) (simp add: map_fdtables_def)

text \<open>A descriptor that is not in the tables cannot be read or written at all: opens are not intercepted.\<close>

lemma untracked_fails:
  assumes "translate_virtual_fd (te_fd E) (fdt w) cageid (a ! 0) = None"
  shows "read_syscall E w cageid a g = Some (-1, w) \<and> write_syscall E w cageid a g = Some (-1, w)"
  using assms by (simp add: read_syscall_def write_syscall_def)

end
