(* ===== verification/Grate_Mains.thy ===== *)
theory Grate_Mains
  imports Grate_Builder Policy_Grates Mtls
begin

text \<open>
  The \<open>main\<close> functions of the small grates: the builder each configures and the argument vector it runs with.  An end before the run
  is an exit code.
\<close>

section \<open>Builders\<close>

abbreviation registering :: "nat list \<Rightarrow> builder \<Rightarrow> builder" where
  "registering nrs b \<equiv> fold builder_register nrs b"

definition wf_main :: builder where
  "wf_main = builder_teardown (builder_preexec (registering
     [SYS_OPEN, SYS_WRITE, SYS_PWRITE, SYS_WRITEV, SYS_CLONE, SYS_EXECVE, SYS_DUP, SYS_DUP2, SYS_CLOSE] builder_new))"

definition dn_main :: builder where
  "dn_main = builder_teardown (builder_preexec (registering
     [SYS_OPEN, SYS_READ, SYS_WRITE, SYS_CLOSE, SYS_CLONE, SYS_EXECVE, SYS_DUP, SYS_DUP2] builder_new))"

definition fdt_main :: builder where
  "fdt_main = builder_teardown (builder_preexec (registering
     [SYS_OPEN, SYS_CLOSE, SYS_DUP, SYS_DUP2, SYS_READ, SYS_WRITE, SYS_CLONE, SYS_EXEC] builder_new))"

definition fdx_main :: builder where
  "fdx_main = builder_teardown (builder_preexec (registering [SYS_CLONE, SYS_EXEC] (enable_fd_translate_policy None builder_new)))"

definition ro_main :: builder where
  "ro_main = builder_teardown (registering [SYS_OPEN, SYS_WRITE, SYS_PWRITE, SYS_WRITEV] builder_new)"

definition geteuid_main :: builder where
  "geteuid_main = builder_teardown (registering [SYS_GETEUID] builder_new)"

definition view_main :: builder where
  "view_main = builder_teardown (registering
     [SYS_OPEN, SYS_STAT, SYS_ACCESS, SYS_MKDIR, SYS_RMDIR, SYS_UNLINK, SYS_UNLINKAT, SYS_CHMOD, SYS_TRUNCATE, SYS_CHDIR,
      SYS_READLINK, SYS_RENAME, SYS_LINK, SYS_CLONE, SYS_EXEC] builder_new)"

definition strace_main :: builder where
  "strace_main = builder_teardown (registering strace_calls builder_new)"

definition mtls_main :: builder where
  "mtls_main = builder_teardown (builder_preexec (registering
     [SYS_CONNECT, SYS_ACCEPT, SYS_READ, SYS_WRITE, SYS_CLONE, SYS_EXECVE, SYS_DUP, SYS_DUP2, SYS_CLOSE] builder_new))"

section \<open>Grates with options\<close>

text \<open>The stored configuration, the builder and the arguments of the program, or the exit code.\<close>

definition umask_main :: "string list \<Rightarrow> int + nat \<times> builder \<times> string list" where
  "umask_main args =
     (case umask_parse_args args of
        Inl _ \<Rightarrow> Inl 1
      | Inr config \<Rightarrow> Inr (octal_bits config, builder_teardown (registering [SYS_UMASK] builder_new), remaining_args config))"

definition fchmod_main :: "string list \<Rightarrow> int + nat \<times> builder \<times> string list" where
  "fchmod_main args =
     (case fchmod_parse_args args of
        Inl _ \<Rightarrow> Inl 1
      | Inr config \<Rightarrow> Inr (octal_bits config, builder_teardown (registering [SYS_FCHMOD, SYS_FCHMODAT] builder_new), remaining_args config))"

text \<open>\<open>order\<close> is the order in which the map of rules is traversed.\<close>

definition testing_main ::
  "((nat \<times> rule_action) list \<Rightarrow> nat list) \<Rightarrow> string list \<Rightarrow> int + (nat \<times> rule_action) list \<times> builder \<times> string list" where
  "testing_main order args =
     (if length args < 3 \<or> args ! 0 \<noteq> ''-s'' then Inl 2
      else case parse_rules (args ! 1) of
        Inl _ \<Rightarrow> Inl 2
      | Inr rules \<Rightarrow>
          (let cage_argv = drop 2 args in
           if cage_argv = [] then Inl 2
           else case install_rules (order rules) of
             None \<Rightarrow> Inl 2
           | Some hs \<Rightarrow> Inr (rules, builder_teardown (registering (map fst hs) builder_new), cage_argv)))"

section \<open>Each main registers the handlers of its table\<close>

lemma registering_fields [simp]:
  "b_handlers (registering nrs b) = b_handlers b @ nrs" "b_policy (registering nrs b) = b_policy b"
  "b_teardown (registering nrs b) = b_teardown b" "b_preexec (registering nrs b) = b_preexec b"
  by (induction nrs arbitrary: b) (simp_all add: builder_register_def)

lemmas builder_steps = builder_register_def builder_teardown_def builder_preexec_def enable_fd_translate_policy_def builder_new_def

lemma mains_register:
  "b_handlers wf_main = map fst (wf_handlers :: (nat \<times> ('ft shadow_env \<Rightarrow> 'ft grate_world \<Rightarrow> nat list \<Rightarrow> nat list \<Rightarrow> int \<times> 'ft grate_world)) list)"
  "b_handlers dn_main = map fst (dn_handlers :: (nat \<times> ('ft shadow_env \<Rightarrow> 'ft grate_world \<Rightarrow> nat list \<Rightarrow> nat list \<Rightarrow> int \<times> 'ft grate_world)) list)"
  "b_handlers fdt_main = map fst (fdt_handlers :: (nat \<times> ('ft shadow_env \<Rightarrow> 'ft fdt_world \<Rightarrow> nat list \<Rightarrow> nat list \<Rightarrow> int \<times> 'ft fdt_world)) list)"
  "b_handlers ro_main = map fst (ro_handlers :: (nat \<times> 'ft policy_handler) list)"
  "b_handlers view_main = map fst (view_handlers :: (nat \<times> 'ft policy_handler) list)"
  "b_handlers strace_main = map fst (strace_handlers :: (nat \<times> 'ft policy_handler) list)"
  "b_handlers mtls_main = map fst (mtls_handlers :: (nat \<times> ('ft, 'c) mtls_handler) list)"
  by (simp_all add: wf_main_def wf_handlers_def dn_main_def dn_handlers_def fdt_main_def fdt_handlers_def ro_main_def ro_handlers_def
      view_main_def view_handlers_def strace_main_def strace_handlers_def mtls_main_def mtls_handlers_def builder_steps comp_def)

section \<open>Options are taken out of the whole command line\<close>

text \<open>The program of umask-grate and fchmod-grate never receives the grate's own option as one of its arguments.\<close>

lemma octal_args_take:
  "octal_args flag bits acc xs = Inr c \<Longrightarrow> flag \<notin> set acc \<Longrightarrow> flag \<notin> set (remaining_args c)"
proof (induction flag bits acc xs rule: octal_args.induct)
  case (2 flag bits acc x xs)
  then show ?case by (cases "x = flag"; cases xs) (auto split: option.splits)
qed auto

theorem octal_mains_take_options:
  "umask_main args = Inr (bits, b, argv) \<Longrightarrow> ''--force-bits'' \<notin> set argv"
  "fchmod_main args = Inr (bits, b, argv) \<Longrightarrow> ''--mask'' \<notin> set argv"
  by (auto simp: umask_main_def fchmod_main_def umask_parse_args_def fchmod_parse_args_def octal_args_take split: sum.splits)

end
