(* ===== verification/Chroot_Main.thy ===== *)
theory Chroot_Main
  imports Chroot_Props Grate_Mains
begin

text \<open>
  The command line and the \<open>main\<close> of the chroot grate: the options, the table of handlers, the builder.
  Every handler of the table acts by a step of the chroot state machine, so the invariants of
  the reachable states hold whatever calls the cages issue.
\<close>

section \<open>Command line\<close>

record chroot_config =
  cc_dir :: string
  cc_args :: "string list"
  cc_log :: bool

text \<open>The loop of \<open>parse_args\<close>, with the configuration read so far.\<close>

fun chroot_args :: "chroot_config \<Rightarrow> string list \<Rightarrow> string + chroot_config" where
  "chroot_args c [] = Inr c"
| "chroot_args c (x # xs) =
     (if x = ''--log'' then chroot_args (c\<lparr>cc_log := True\<rparr>) xs
      else if x = ''--chroot-dir''
      then (case xs of
              [] \<Rightarrow> Inl ''--chroot-dir requires an argument''
            | dir # xs' \<Rightarrow> chroot_args (c\<lparr>cc_dir := dir\<rparr>) xs')
      else chroot_args (c\<lparr>cc_args := cc_args c @ [x]\<rparr>) xs)"

definition chroot_parse_args :: "string list \<Rightarrow> string + chroot_config" where
  "chroot_parse_args args = chroot_args \<lparr>cc_dir = '''', cc_args = [], cc_log = False\<rparr> args"

section \<open>The handlers\<close>

abbreviation (input) SYS_XSTAT :: nat where "SYS_XSTAT \<equiv> SYS_STAT"
abbreviation (input) SYS_CHROOT :: nat where "SYS_CHROOT \<equiv> 161"

text \<open>A handler that always returns, among those that may panic.\<close>

abbreviation always :: "(chroot_env \<Rightarrow> chroot_state \<Rightarrow> nat list \<Rightarrow> nat list \<Rightarrow> outcome) \<Rightarrow>
    chroot_env \<Rightarrow> chroot_state \<Rightarrow> nat list \<Rightarrow> nat list \<Rightarrow> outcome option" where
  "always h E st a g \<equiv> Some (h E st a g)"

definition chroot_table :: "(nat \<times> (chroot_env \<Rightarrow> chroot_state \<Rightarrow> nat list \<Rightarrow> nat list \<Rightarrow> outcome option)) list" where
  "chroot_table =
     [(SYS_CLONE, always fork_handler), (SYS_OPEN, always open_handler), (SYS_OPENAT, always openat_handler),
      (SYS_CLOSE, always close_handler), (SYS_DUP, always dup_handler), (SYS_DUP2, always (dup23_handler SYS_DUP2)),
      (SYS_DUP3, always (dup23_handler SYS_DUP3)), (SYS_FCNTL, always fcntl_handler), (SYS_EXECVE, always execve_handler),
      (SYS_XSTAT, always (input_path_handler [0] SYS_STAT)), (SYS_NEWFSTATAT, always (at_handler SYS_NEWFSTATAT)),
      (SYS_STATX, always (at_handler SYS_STATX)), (SYS_ACCESS, always (input_path_handler [0] SYS_ACCESS)),
      (SYS_FACCESSAT, always (at_handler SYS_FACCESSAT)), (SYS_STATFS, always (input_path_handler [0] SYS_STATFS)),
      (SYS_MKDIR, always (input_path_handler [0] SYS_MKDIR)), (SYS_RMDIR, always (input_path_handler [0] SYS_RMDIR)),
      (SYS_UNLINK, always (input_path_handler [0] SYS_UNLINK)), (SYS_UNLINKAT, always unlinkat_handler),
      (SYS_RENAME, always (input_path_handler [0, 1] SYS_RENAME)), (SYS_RENAMEAT, always (renameat_common SYS_RENAMEAT)),
      (SYS_RENAMEAT2, always (renameat_common SYS_RENAMEAT2)), (SYS_LINK, always (input_path_handler [0, 1] SYS_LINK)),
      (SYS_SYMLINK, always symlink_handler), (SYS_SYMLINKAT, always symlinkat_handler),
      (SYS_CHMOD, always (input_path_handler [0] SYS_CHMOD)), (SYS_FCHMODAT, always (at_handler SYS_FCHMODAT)),
      (SYS_CHOWN, always (input_path_handler [0] SYS_CHOWN)), (SYS_LCHOWN, always (input_path_handler [0] SYS_LCHOWN)),
      (SYS_FCHOWNAT, always (at_handler SYS_FCHOWNAT)), (SYS_TRUNCATE, always (input_path_handler [0] SYS_TRUNCATE)),
      (SYS_SETXATTR, always (input_path_handler [0] SYS_SETXATTR)), (SYS_LISTXATTR, always (input_path_handler [0] SYS_LISTXATTR)),
      (SYS_UTIMENSAT, always utimensat_handler), (SYS_CHDIR, always chdir_handler), (SYS_FCHDIR, always fchdir_handler),
      (SYS_GETCWD, always getcwd_handler), (SYS_READLINK, readlink_handler), (SYS_READLINKAT, readlinkat_handler),
      (SYS_CHROOT, always chroot_handler), (SYS_BIND, socket_translate_handler SYS_BIND 1 2),
      (SYS_CONNECT, socket_translate_handler SYS_CONNECT 1 2), (SYS_SENDTO, socket_translate_handler SYS_SENDTO 4 5),
      (SYS_ACCEPT, always (socket_untranslate_handler SYS_ACCEPT 1 2)),
      (SYS_GETSOCKNAME, always (socket_untranslate_handler SYS_GETSOCKNAME 1 2)),
      (SYS_GETPEERNAME, always (socket_untranslate_handler SYS_GETPEERNAME 1 2)),
      (SYS_RECVFROM, always (socket_untranslate_handler SYS_RECVFROM 4 5))]"

text \<open>An end of \<open>main\<close> before the run (an exit, or the panic of \<open>init_state\<close> on a path that is no directory), or the
  state, the builder and the arguments of the program.  \<open>host_cwd\<close> is what the C library answers to \<open>getcwd\<close>.\<close>

definition chroot_main :: "chroot_env \<Rightarrow> string \<Rightarrow> string list \<Rightarrow> run_event + chroot_state \<times> builder \<times> string list" where
  "chroot_main E host_cwd args =
     (case chroot_parse_args args of
        Inl _ \<Rightarrow> Inl (Exit 1)
      | Inr config \<Rightarrow>
          if cc_dir config = '''' then Inl (Exit 1)
          else case chroot_start E (cc_dir config) host_cwd of
                 None \<Rightarrow> Inl Panic
               | Some st \<Rightarrow> Inr (st, builder_teardown (builder_preexec (registering (map fst chroot_table) builder_new)), cc_args config))"

section \<open>Properties\<close>

text \<open>A registered handler acts by a step of the state machine.\<close>

definition steps_by :: "chroot_env \<Rightarrow> (chroot_env \<Rightarrow> chroot_state \<Rightarrow> nat list \<Rightarrow> nat list \<Rightarrow> outcome option) \<Rightarrow> bool" where
  "steps_by E h \<longleftrightarrow> (\<forall>st a g r ev st'. h E st a g = Some (r, ev, st') \<longrightarrow> chroot_step E st ev st')"

lemma steps_by_handler:
  "steps_by E (always fork_handler)" "steps_by E (always open_handler)" "steps_by E (always openat_handler)"
  "steps_by E (always close_handler)" "steps_by E (always dup_handler)" "steps_by E (always fcntl_handler)"
  "steps_by E (always execve_handler)" "steps_by E (always unlinkat_handler)" "steps_by E (always symlink_handler)"
  "steps_by E (always symlinkat_handler)" "steps_by E (always utimensat_handler)" "steps_by E (always chdir_handler)"
  "steps_by E (always fchdir_handler)" "steps_by E (always getcwd_handler)" "steps_by E (always chroot_handler)"
  "steps_by E readlink_handler" "steps_by E readlinkat_handler"
  unfolding steps_by_def option.inject by (blast intro: chroot_step.intros)+

lemma steps_by_family:
  "nr \<in> {SYS_DUP2, SYS_DUP3} \<Longrightarrow> steps_by E (always (dup23_handler nr))"
  "(nr, idxs) \<in> set path_handlers \<Longrightarrow> steps_by E (always (input_path_handler idxs nr))"
  "nr \<in> set at_handlers \<Longrightarrow> steps_by E (always (at_handler nr))"
  "nr \<in> set renameat_handlers \<Longrightarrow> steps_by E (always (renameat_common nr))"
  "(nr, i, j) \<in> set socket_in_handlers \<Longrightarrow> steps_by E (socket_translate_handler nr i j)"
  "(nr, i, j) \<in> set socket_out_handlers \<Longrightarrow> steps_by E (always (socket_untranslate_handler nr i j))"
  unfolding steps_by_def option.inject by (blast intro: chroot_step.intros)+

lemma chroot_table_steps:
  "(nr, h) \<in> set chroot_table \<Longrightarrow> h E st a g = Some (r, ev, st') \<Longrightarrow> chroot_step E st ev st'"
proof -
  have "list_all (\<lambda>(nr, h). steps_by E h) chroot_table"
    by (simp add: chroot_table_def steps_by_handler steps_by_family path_handlers_def at_handlers_def renameat_handlers_def
        socket_in_handlers_def socket_out_handlers_def)
  then show "(nr, h) \<in> set chroot_table \<Longrightarrow> h E st a g = Some (r, ev, st') \<Longrightarrow> chroot_step E st ev st'"
    unfolding list_all_iff steps_by_def by blast
qed

text \<open>Options are taken out of the whole command line, the others are kept in order.\<close>

lemma chroot_args_keep:
  "chroot_args c xs = Inr c' \<Longrightarrow>
   (\<exists>ys. cc_args c' = cc_args c @ ys \<and> set ys \<subseteq> set xs \<and> ''--log'' \<notin> set ys \<and> ''--chroot-dir'' \<notin> set ys)"
proof (induction c xs rule: chroot_args.induct)
  case (2 c x xs)
  consider (log) "x = ''--log''" | (dir) dir ys where "x = ''--chroot-dir''" "xs = dir # ys" | (other) "x \<noteq> ''--log''" "x \<noteq> ''--chroot-dir''"
    using "2.prems" by (cases xs) (auto split: if_splits)
  then show ?case
  proof cases
    case log
    from "2.IH"(1) [OF log] "2.prems" log show ?thesis by (simp, blast)
  next
    case dir
    from "2.IH"(2) [OF _ dir] "2.prems" dir show ?thesis by (simp, blast)
  next
    case other
    from "2.IH"(3) [OF other] "2.prems" other obtain ys where "cc_args c' = cc_args c @ x # ys" "set ys \<subseteq> set xs"
      "''--log'' \<notin> set ys" "''--chroot-dir'' \<notin> set ys" by auto
    with other show ?thesis by (intro exI [of _ "x # ys"]) (simp, blast)
  qed
qed simp

text \<open>A program never receives an argument \<open>--log\<close> or \<open>--chroot-dir\<close> of its own.\<close>

theorem chroot_takes_program_options:
  assumes "chroot_main E host_cwd args = Inr (st, b, argv)"
  shows "''--log'' \<notin> set argv \<and> ''--chroot-dir'' \<notin> set argv"
  using assms chroot_args_keep [of "\<lparr>cc_dir = '''', cc_args = [], cc_log = False\<rparr>" args]
  by (auto simp: chroot_main_def chroot_parse_args_def split: sum.splits if_splits option.splits)

lemma program_log_option_taken:
  "chroot_parse_args [''--chroot-dir'', ''/jail'', ''app'', ''--log'', ''-v''] = Inr \<lparr>cc_dir = ''/jail'', cc_args = [''app'', ''-v''], cc_log = True\<rparr>"
  by (simp add: chroot_parse_args_def)

text \<open>A run of registered handlers and pre-exec calls from the state \<open>main\<close> sets up stays among the reachable states.\<close>

inductive chroot_serving :: "chroot_env \<Rightarrow> string \<Rightarrow> string list \<Rightarrow> chroot_state \<Rightarrow> bool" for E host args where
  serve_main: "chroot_main E host args = Inr (st, b, argv) \<Longrightarrow> chroot_serving E host args st"
| serve_preexec: "chroot_serving E host args st \<Longrightarrow> chroot_serving E host args (chroot_preexec st c)"
| serve_call: "chroot_serving E host args st \<Longrightarrow> (nr, h) \<in> set chroot_table \<Longrightarrow> h E st a g = Some (r, ev, st') \<Longrightarrow>
    chroot_serving E host args st'"

theorem chroot_serving_reachable:
  assumes "chroot_serving E host args st" "host \<noteq> ''''"
  shows "chroot_reachable E st"
  using assms
proof induction
  case (serve_main st b argv)
  then show ?case by (auto simp: chroot_main_def intro: ch_init split: sum.splits if_splits option.splits)
next
  case (serve_preexec st c)
  then show ?case by (auto intro: ch_step chroot_step.ch_preexec)
next
  case (serve_call st nr h a g r ev st')
  then show ?case by (auto intro: ch_step dest: chroot_table_steps)
qed

lemma chroot_main_registers:
  "chroot_main E host args = Inr (st, b, argv) \<Longrightarrow> b_handlers b = map fst chroot_table \<and> distinct (b_handlers b)"
  by (auto simp: chroot_main_def builder_steps chroot_table_def split: sum.splits if_splits option.splits)

end
