(* ===== verification/Clamp_Mains.thy ===== *)
theory Clamp_Mains
  imports Grate_Builder Clamp_Fs_Props Clamp_Net_Props
begin

unbundle bit_operations_syntax

text \<open>
  The \<open>main\<close> functions of the two routing clamps.  Unlike the other grates they do not use the builder: they fork the
  first clamped cage themselves, set up its state, install the lifecycle handlers on it, release it and wait.
  The namespace clamp waits once and passes the status on; the network clamp waits
  until no child is left.
\<close>

section \<open>Launching the first cage\<close>

abbreviation libc :: "libc_call \<Rightarrow> ('ft, 'a) grate_world_scheme \<Rightarrow> ('ft, 'a) grate_world_scheme" where
  "libc c w \<equiv> log_event (Run (Libc c)) w"

abbreviation quit :: "int \<Rightarrow> ('ft, 'a) grate_world_scheme \<Rightarrow> ('ft, 'a) grate_world_scheme" where
  "quit code w \<equiv> log_event (Run (Exit code)) w"

text \<open>On the left the world in which the process has ended (the forked child among them: \<open>execv\<close> returns only
  when it fails, and the child exits), on the right the new cage and the world in which the parent goes on.\<close>

definition clamp_launch ::
  "'ft run_env \<Rightarrow> string list \<Rightarrow> ('ft, 'a) grate_world_scheme \<Rightarrow> ('ft, 'a) grate_world_scheme + nat \<times> ('ft, 'a) grate_world_scheme" where
  "clamp_launch R chain w =
     (if list_ex (\<lambda>s. nul \<in> set s) chain then Inl (log_event (Run Panic) w)
      else if \<not> re_mmap R (hist w) then Inl (quit (-1) w)
      else let ret = re_ret R (hist w) SemInit; w = libc SemInit w in
        if sint ret < 0 then Inl (quit (-1) w)
        else let child_pid = re_ret R (hist w) Fork; w = libc Fork w in
          if sint child_pid < 0 then Inl (quit (-1) w)
          else if child_pid = 0 then Inl (quit (-1) (libc (Execv chain) (libc SemWait w)))
          else Inr (as_u64 (sint child_pid), w))"

section \<open>The namespace clamp\<close>

text \<open>A wait that fails leaves the status at 0.\<close>

definition fs_clamp_finish :: "'ft run_env \<Rightarrow> 'ft fs_world \<Rightarrow> 'ft fs_world" where
  "fs_clamp_finish R w =
     (let w = libc SemPost w;
          ret = re_ret R (hist w) (Waitpid (-1));
          w = libc (Waitpid (-1)) w;
          status = (if 0 < sint ret then re_status R (hist w) else 0);
          w = libc Munmap (libc SemDestroy w)
      in quit (sint (signed_drop_bit 8 status AND 0xFF)) w)"

definition fs_clamp_main :: "'ft run_env \<Rightarrow> 'ft \<Rightarrow> string list \<Rightarrow> int + 'ft fs_world" where
  "fs_clamp_main R ft args =
     (if args = [] then Inl 1
      else case parse_argv args of
        Inl _ \<Rightarrow> Inl 1
      | Inr config \<Rightarrow>
          (let E = grate_env.truncate R in
           Inr (case clamp_launch R (exec_chain config) (fs_globals E ft (nc_prefix config)) of
                  Inl w \<Rightarrow> w
                | Inr (child_cage_id, w) \<Rightarrow> fs_clamp_finish R (clamp_setup E w child_cage_id))))"

section \<open>The network clamp\<close>

text \<open>The loop that waits for every child: \<open>None\<close> if it never ends.\<close>

partial_function (option) net_wait_loop :: "'ft run_env \<Rightarrow> 'ft net_world \<Rightarrow> 'ft net_world option" where
  "net_wait_loop R w =
     (let ret = re_ret R (hist w) (Waitpid (-1)); w = libc (Waitpid (-1)) w in
      if sint ret \<le> 0 then Some w else net_wait_loop R w)"

definition net_clamp_finish :: "'ft run_env \<Rightarrow> 'ft net_world \<Rightarrow> 'ft net_world option" where
  "net_clamp_finish R w =
     map_option (\<lambda>w. quit 0 (libc Munmap (libc SemDestroy w))) (net_wait_loop R (libc SemPost w))"

definition net_clamp_main :: "'ft run_env \<Rightarrow> 'ft \<Rightarrow> string list \<Rightarrow> int + 'ft net_world option" where
  "net_clamp_main R ft args =
     (if args = [] then Inl 1
      else case net_parse_argv args of
        Inl _ \<Rightarrow> Inl 1
      | Inr config \<Rightarrow>
          Inr (case clamp_launch R (net_chain config) (net_globals ft config) of
                 Inl w \<Rightarrow> Some w
               | Inr (child_cage_id, w) \<Rightarrow> net_clamp_finish R (net_setup (grate_env.truncate R) w child_cage_id)))"

section \<open>What the launch does\<close>

text \<open>The parent goes on: the chain has no zero byte, the mapping and the calls succeed.\<close>

definition launches :: "'ft run_env \<Rightarrow> string list \<Rightarrow> i32 \<Rightarrow> bool" where
  "launches R chain pid \<longleftrightarrow>
     (\<forall>s\<in>set chain. nul \<notin> set s) \<and> re_mmap R [] \<and> 0 \<le> sint (re_ret R [] SemInit) \<and>
     re_ret R [Run (Libc SemInit)] Fork = pid \<and> 0 < sint pid"

lemma clamp_launch_parent:
  assumes "hist w = []"
  shows "clamp_launch R chain w = Inr (child, w') \<longleftrightarrow>
    (\<exists>pid. launches R chain pid \<and> child = as_u64 (sint pid) \<and> w' = w\<lparr>hist := map (Run \<circ> Libc) [SemInit, Fork]\<rparr>)"
proof -
  have "sint p = 0 \<longleftrightarrow> p = 0" for p :: i32 by (metis of_int_sint scast_id signed_0 of_int_0)
  then have pos: "0 < sint p \<longleftrightarrow> \<not> sint p < 0 \<and> p \<noteq> 0" for p :: i32 by (metis linorder_less_linear order_less_asym)
  show ?thesis using assms
    by (auto simp: clamp_launch_def launches_def Let_def log_event_def pos list_ex_iff)
qed

lemma register_handler_world [simp]: "snd (register_handler E w c nr g) = log_event (Register c nr g) w"
  by (simp add: register_handler_def Let_def)

lemma lifecycle_loop_hist [simp]:
  "hist (register_lifecycle_loop E w cage nrs) = hist w @ registered cage (ns_cage_id (ns w)) nrs"
  by (induction nrs arbitrary: w) (simp_all add: log_event_def)

lemma net_register_loop_hist [simp]:
  "hist (net_register_loop E w cage nrs) = hist w @ registered cage (ge_cage E) nrs"
  by (induction nrs arbitrary: w) (simp_all add: log_event_def)

lemma register_clamped_cage_id [simp]: "ns_cage_id (register_clamped_cage s c) = ns_cage_id s"
  by (simp add: register_clamped_cage_def Let_def split: option.split)

text \<open>The cage is released after its descriptor table, its standard streams and its lifecycle handlers are in place, and
  the clamp exits with the second byte of its status.\<close>

theorem fs_clamp_life:
  assumes "parse_argv args = Inr config" "launches R (exec_chain config) pid"
    and "\<And>h. 0 < sint (re_ret R h (Waitpid (-1)))" "\<And>h. re_status R h = status"
  shows "\<exists>w. fs_clamp_main R ft args = Inr w \<and>
    hist w = map (Run \<circ> Libc) [SemInit, Fork] @
      registered (as_u64 (sint pid)) (ge_cage R) [SYS_EXEC, SYS_CLONE, SYS_EXIT_GROUP, SYS_REGISTER_HANDLER] @
      map (Run \<circ> Libc) [SemPost, Waitpid (-1), SemDestroy, Munmap] @ [Run (Exit (sint (signed_drop_bit 8 status AND 0xFF)))]"
proof -
  let ?g = "fs_globals (grate_env.truncate R) ft (nc_prefix config)"
  have l: "clamp_launch R (exec_chain config) ?g = Inr (as_u64 (sint pid), ?g\<lparr>hist := map (Run \<circ> Libc) [SemInit, Fork]\<rparr>)"
    using assms(2) by (subst clamp_launch_parent) (auto simp: fs_globals_def)
  have "args \<noteq> []" using assms(1) by (auto simp: parse_argv_def)
  with l assms(1,3,4) show ?thesis
    by (simp add: fs_clamp_main_def fs_clamp_finish_def Let_def log_event_def clamp_setup_def register_lifecycle_handlers_def
        fs_globals_def ns_new_def)
qed

text \<open>With \<open>n\<close> children to wait for, the network clamp's loop ends after \<open>n + 1\<close> waits.\<close>

definition waited :: "event list \<Rightarrow> nat \<Rightarrow> event list" where
  "waited h n = h @ replicate n (Run (Libc (Waitpid (-1))))"

lemma net_wait_loop_ends:
  assumes "\<And>i. i < n \<Longrightarrow> 0 < sint (re_ret R (waited (hist w) i) (Waitpid (-1)))"
    and "sint (re_ret R (waited (hist w) n) (Waitpid (-1))) \<le> 0"
  shows "net_wait_loop R w = Some (w\<lparr>hist := waited (hist w) (Suc n)\<rparr>)"
  using assms
proof (induction n arbitrary: w)
  case 0
  then show ?case by (subst net_wait_loop.simps) (simp add: waited_def log_event_def)
next
  case (Suc n)
  have next_hist: "waited (hist (libc (Waitpid (-1)) w)) i = waited (hist w) (Suc i)" for i
    by (simp add: waited_def log_event_def)
  have "0 < sint (re_ret R (hist w) (Waitpid (-1)))" using Suc.prems(1) [of 0] by (simp add: waited_def)
  moreover have "net_wait_loop R (libc (Waitpid (-1)) w) = Some (w\<lparr>hist := waited (hist w) (Suc (Suc n))\<rparr>)"
    using Suc.IH [of "libc (Waitpid (-1)) w"] Suc.prems unfolding next_hist by (simp add: log_event_def)
  ultimately show ?case by (subst net_wait_loop.simps) (simp add: Let_def)
qed

definition net_released :: "'ft run_env \<Rightarrow> i32 \<Rightarrow> event list" where
  "net_released R pid = map (Run \<circ> Libc) [SemInit, Fork] @
     registered (as_u64 (sint pid)) (ge_cage R) [SYS_EXEC, SYS_CLONE, SYS_EXIT, SYS_REGISTER_HANDLER] @ [Run (Libc SemPost)]"

text \<open>Its exit code is 0, whatever the cages ended with.\<close>

theorem net_clamp_life:
  assumes "net_parse_argv args = Inr config" "launches R (net_chain config) pid"
    and "\<And>i. i < n \<Longrightarrow> 0 < sint (re_ret R (waited (net_released R pid) i) (Waitpid (-1)))"
    and "sint (re_ret R (waited (net_released R pid) n) (Waitpid (-1))) \<le> 0"
  shows "\<exists>w. net_clamp_main R ft args = Inr (Some w) \<and>
    hist w = waited (net_released R pid) (Suc n) @ map (Run \<circ> Libc) [SemDestroy, Munmap] @ [Run (Exit 0)]"
proof -
  let ?g = "net_globals ft config"
  let ?w = "libc SemPost (net_setup (grate_env.truncate R) (?g\<lparr>hist := map (Run \<circ> Libc) [SemInit, Fork]\<rparr>) (as_u64 (sint pid)))"
  have l: "clamp_launch R (net_chain config) ?g = Inr (as_u64 (sint pid), ?g\<lparr>hist := map (Run \<circ> Libc) [SemInit, Fork]\<rparr>)"
    using assms(2) by (subst clamp_launch_parent) (auto simp: net_globals_def)
  have h: "hist ?w = net_released R pid"
    by (simp add: net_released_def net_setup_def net_register_lifecycle_def log_event_def)
  have "net_wait_loop R ?w = Some (?w\<lparr>hist := waited (net_released R pid) (Suc n)\<rparr>)"
    using net_wait_loop_ends [of n R ?w] assms(3,4) unfolding h by blast
  moreover have "args \<noteq> []" using assms(1) by (auto simp: net_parse_argv_def)
  ultimately show ?thesis using l assms(1)
    by (simp add: net_clamp_main_def net_clamp_finish_def log_event_def)
qed

section \<open>Examples\<close>

text \<open>A runtime with one child, which ends with status 3.\<close>

definition demo_parent :: "fd_map run_env" where
  "demo_parent = (demo_runtime 0)\<lparr>re_mmap := (\<lambda>_. True), re_status := (\<lambda>_. 0x300),
     re_ret := (\<lambda>h c. case c of Fork \<Rightarrow> 5 | Waitpid _ \<Rightarrow> if length h < 8 then 5 else -1 | _ \<Rightarrow> 0)\<rparr>"

lemma demo_launches: "launches demo_parent [''g'', ''%}''] 5"
proof -
  have "\<forall>s\<in>set [''g'', ''%}'']. nul \<notin> set s" by code_simp
  then show ?thesis by (simp add: launches_def demo_parent_def)
qed

theorem net_clamp_life_example:
  "\<exists>w. net_clamp_main demo_parent [] [''--ports'', ''80'', ''%{'', ''g'', ''%}''] = Inr (Some w) \<and>
    hist w = waited (net_released demo_parent 5) 2 @ map (Run \<circ> Libc) [SemDestroy, Munmap] @ [Run (Exit 0)]"
proof -
  have "nat_str 80 = ''80''" "split_once (CHR ''-'') ''80'' = None" by code_simp+
  with parse_port_str [of 80] have "parse_port_range ''80'' = Inr (80, 80)" by (simp add: parse_port_range_def)
  then have p: "net_parse_argv [''--ports'', ''80'', ''%{'', ''g'', ''%}''] =
      Inr \<lparr>port_low = 80, port_high = 80, net_chain = [''g'', ''%}'']\<rparr>" by (simp add: net_parse_argv_def)
  have r: "length (net_released demo_parent 5) = 7" by (simp add: net_released_def registered_def)
  have w: "re_ret demo_parent h (Waitpid (-1)) = (if length h < 8 then 5 else -1)" for h by (simp add: demo_parent_def)
  have "0 < sint (re_ret demo_parent (waited (net_released demo_parent 5) 0) (Waitpid (-1)))"
    "sint (re_ret demo_parent (waited (net_released demo_parent 5) 1) (Waitpid (-1))) \<le> 0"
    unfolding w by (simp_all add: waited_def r)
  with net_clamp_life [OF p, of demo_parent 5 1 "[]"] demo_launches show ?thesis by (simp add: numeral_2_eq_2)
qed

theorem fs_clamp_life_example:
  "\<exists>w. fs_clamp_main (demo_parent\<lparr>re_ret := \<lambda>_ _. 5\<rparr>) [] [''--prefix'', ''/tmp'', ''%{'', ''g'', ''%}''] = Inr w \<and>
    last (hist w) = Run (Exit 3)"
proof -
  let ?R = "demo_parent\<lparr>re_ret := \<lambda>_ _. 5\<rparr>"
  have p: "parse_argv [''--prefix'', ''/tmp'', ''%{'', ''g'', ''%}''] =
      Inr \<lparr>nc_prefix = ''/tmp'', exec_chain = [''g'', ''%}''], log_enabled = False\<rparr>" by code_simp
  have l: "launches ?R [''g'', ''%}''] 5" using demo_launches by (simp add: launches_def)
  have s: "re_status ?R h = 0x300" for h by (simp add: demo_parent_def)
  have "sint (signed_drop_bit 8 (0x300 :: i32) AND 0xFF) = 3" by code_simp
  with fs_clamp_life [OF p, of ?R 5 "0x300" "[]"] l s show ?thesis by fastforce
qed

end
