(* ===== verification/Spec2Isabelle.thy ===== *)
theory Spec2Isabelle
  imports
    Imfs_Props Imfs_Handler_Props Ipc_Props Chroot_Props Clamp_Fs_Props Clamp_Net_Props Resource_Props
    Fd_Props Fd_Grate_Props Policy_Props Mtls_Props Grate_Mains
    Chroot_Main Clamp_Mains
begin

text \<open>
  A verification of the example grates of the Lind runtime (the Rust code under \<open>src/rust-grates\<close> and
  \<open>src/lib/grate-rs\<close>).

  \<^bold>\<open>The program.\<close>  A grate is a process that interposes on the system calls of the processes it starts, its cages.
  \<open>grate-rs\<close> is the library all grates use: \<open>GrateBuilder\<close> forks the first cage, registers one handler
  per intercepted call with the runtime (3i), releases the cage and waits for it; a handler gets the six
  arguments of the call with the cage each belongs to, may copy memory from and to the cage, may make
  calls of its own through the runtime, and returns a status.  Most grates keep a table of descriptors per cage
  with the crate \<open>fdtables\<close>.  The grates are independent of each other; they interact only by being stacked, when
  the calls of one are intercepted by the next.

  \<^bold>\<open>How code is represented.\<close>  A Rust function is a HOL function with the same name where HOL allows it (with a prefix
  for the grate where several grates use the name).  A handler takes the environment, the world, the
  arguments and their cages and returns the status and the new world; \<open>None\<close> is a panic.  The world holds
  the grate's state, the descriptor tables and the history of what the grate did to the outside (\<open>event\<close>).  Integers on
  which the code does arithmetic keep their width: words, or \<open>int\<close> and \<open>nat\<close> with the casts \<open>as_i32\<close>,
  \<open>as_u64\<close>, \<open>as_usize\<close> (32 bits, the target is wasm32) written out; a \<open>str\<close> is the list of its UTF-8 bytes.
  Loops are structural recursion, recursion with a termination proof, or \<open>partial_function (option)\<close> for the
  waiting loops that may run for ever.

  \<^bold>\<open>What is a parameter.\<close>  Code outside the repository is never defined here: the runtime (what a call returns, as a function
  of the history and the call), the descriptor tables (\<open>fdtables_ops\<close>), the ring buffer of the crate \<open>ringbuf\<close>, the C
  library, the clock, the scheduler (what other threads do while a thread sleeps) and the TLS library.  What the code relies on
  is a named predicate: \<open>fdtables_ok\<close>, \<open>shadow_ok\<close>, \<open>bulk_tables_ok\<close>, the assumptions of \<open>ringbuf_pipe\<close>; each is
  shown to hold for a concrete instance (\<open>map_fdtables\<close>, \<open>cage_fdtables\<close>, \<open>list_ring\<close>), which the closed theorems use.

  \<^bold>\<open>Shared theories.\<close>
  \<^item> \<open>Prelude\<close>: integer types and casts, Rust vectors and slices with their panics, lemmas on lists and options.
  \<^item> \<open>Paths\<close>: string splitting, the loop that normalises paths, the locale \<open>path_normalizer\<close> (idempotence, no parent
    components) that the in-memory file system, the chroot grate and the file-system clamp interpret.
  \<^item> \<open>Utf8\<close>, \<open>Rust_Str\<close>: conversions between bytes and strings, trimming, splitting, decimal numbers.
  \<^item> \<open>Threei\<close>, \<open>Grate\<close>: calls, errors, events, the wrappers of \<open>lib/grate-rs/src/lib.rs\<close>, world and environment.
  \<^item> \<open>Fdtables\<close>: the interface of the descriptor tables.

  \<^bold>\<open>grate-rs.\<close>
  \<^item> \<open>Grate_Builder\<close> (\<open>lib.rs\<close>): builder, launch state, \<open>run\<close> in parent and child.  The cage is released only after all
    registrations; a refused registration ends the run; the result of the child is reported; every run ends.
  \<^item> \<open>Fd_Support\<close>, \<open>Fd_Props\<close> (\<open>fd_support.rs\<close>): the table of argument specifications and the handler that interprets it.
    Scalar descriptor arguments are translated (not the target of \<open>dup2\<close>, which the code passes on), created descriptors are used
    consistently, and the three sets of \<open>select\<close> map back.

  \<^bold>\<open>imfs-grate.\<close>
  \<^item> \<open>Imfs_Node\<close>, \<open>Imfs_State\<close>, \<open>Imfs_Data\<close>, \<open>Imfs_Path\<close>, \<open>Imfs_Fd\<close>, \<open>Imfs_Tree\<close> (\<open>imfs/node.rs\<close>, \<open>imfs/mod.rs\<close>): arenas of nodes and
    chunks, contents, path resolution, descriptors, every path operation.
  \<^item> \<open>Imfs_File\<close>, \<open>Imfs_Store\<close>, \<open>Imfs_Rw\<close>: chunk chains represent byte sequences; reading, writing and truncating
    refine the operations on sequences (locale \<open>byte_file\<close>).
  \<^item> \<open>Imfs_Inv\<close>, \<open>Imfs_Spec\<close>, \<open>Imfs_Props\<close>: the invariant of the state under every operation, directories as name maps
    (locale \<open>name_map\<close>), unlinked open files, directory listing.  The invariant covers the storage and the indices; node free list and
    parent links are only bounded, because the code does not keep more.
  \<^item> \<open>Imfs_Handlers\<close>, \<open>Imfs_Main\<close>, \<open>Imfs_Handler_Props\<close> (\<open>handlers.rs\<close>, \<open>main.rs\<close>): handlers, preloads and dumps; a running
    grate only reaches states of the file system's own operations; bytes survive a write and a read through the handlers;
    dumps deliver the contents.

  \<^bold>\<open>ipc-grate.\<close>
  \<^item> \<open>Pipe\<close> (\<open>pipe.rs\<close>): the pipe over a ring buffer and its blocking loops (locales \<open>byte_channel\<close>, \<open>ringbuf_pipe\<close>); FIFO, no byte
    lost, duplicated or reordered by a write or a read under any scheduling of the other end, termination when the reader drains.
  \<^item> \<open>Sockets\<close> (\<open>socket.rs\<close>), \<open>Ipc\<close> (\<open>ipc.rs\<close>), \<open>Ipc_World\<close>, \<open>Ipc_Handlers\<close>, \<open>Ipc_Poll\<close>, \<open>Ipc_Net\<close> (\<open>handlers.rs\<close>, \<open>helpers.rs\<close>), \<open>Ipc_Main\<close>
    (\<open>main.rs\<close>): registry, global state, all handlers, the close callbacks.
  \<^item> \<open>Ipc_Refs\<close>, \<open>Ipc_Keep\<close>, \<open>Ipc_Props\<close>: the counters of a pipe are the numbers of its descriptors after every run of counted calls; end of
    file, \<open>EPIPE\<close>, \<open>poll\<close>, connections in order of arrival and the hand-over to forked children.  The runs (\<open>ipc_reachable\<close>) are of
    handlers one after another and leave out three kinds of calls (\<open>call_ok\<close>): \<open>ioctl(FIONBIO)\<close>, which loses a reference
    (\<open>fionbio_loses_reference\<close>), \<open>dup2\<close> and \<open>dup3\<close> onto a number the tables refuse, and a \<open>clone\<close> that returns the
    number of a cage that exists; they keep fewer than \<open>2 ^ 31\<close> descriptors open.

  \<^bold>\<open>chroot-grate.\<close>  \<open>Chroot\<close>, \<open>Chroot_Handlers\<close>, \<open>Chroot_Sockets\<close>, \<open>Chroot_Props\<close> (\<open>paths.rs\<close>, \<open>main.rs\<close>, \<open>sockets.rs\<close>): every dispatched
  path and every pathname address of family \<open>AF_UNIX\<close> lies under the chroot directory, with the exceptions stated there.  \<open>Chroot_Main\<close>:
  the command line and the table of handlers; the states a run of \<open>main\<close> serves its calls in are those the invariants cover.

  \<^bold>\<open>fs-routing-clamp and net-routing-clamp.\<close>  \<open>Clamp_Routes\<close> is the interface of the route tables (locales \<open>route_table\<close>,
  \<open>route_allocator\<close>); \<open>Clamp_Fs\<close>, \<open>Clamp_Fs_Handlers\<close>, \<open>Clamp_Fs_Props\<close>, \<open>Clamp_Net\<close>, \<open>Clamp_Net_Props\<close>: state, handlers, life cycle; descriptors stay
  on the side they were opened on over every run that neither closes nor replaces them, the port decides the side of a socket, on success
  the runtime has accepted every registration of the target, mappings are tracked, nested clamp blocks refine a specification machine.
  \<open>Clamp_Mains\<close>: both \<open>main\<close> functions from the command line to the exit; the first cage is released after its handlers are
  installed, and the waiting loop of the network clamp ends after one wait more than there are children.

  \<^bold>\<open>resource-grate.\<close>  \<open>Nanny\<close>, \<open>Resource_Grate\<close>, \<open>Resource_Props\<close>: token buckets over the rationals, slot counters (locale \<open>slot_counters\<close>),
  every handler; caps (the counter is the ledger of the calls that took and gave back slots, and within the limit), rates, and that
  every call returns.

  \<^bold>\<open>The small grates.\<close>
  \<^item> \<open>Fd_Grates\<close>, \<open>Fd_Grate_Props\<close>: write-filter, devnull, fdtables-test and fd-translate, which keep shadow tables; their common life
    cycle is the locale \<open>shadow_lifecycle\<close>, interpreted for each.  The write filter refines a map of blocked descriptors (those
    of files that are no logs, against the comment of its \<open>main.rs\<close>).
  \<^item> \<open>Policy_Grates\<close>, \<open>Policy_Props\<close>: readonly, umask, fchmod, geteuid, testing, fs-view, strace.  The paths fs-view passes on are
    rewritten into disjoint views, except that of \<open>exec\<close>.
  \<^item> \<open>Mtls\<close>, \<open>Mtls_Props\<close>: sessions and reference counts of the TLS grate; traffic of a session is sealed.
  \<^item> \<open>Grate_Mains\<close>: the builder each \<open>main\<close> configures.

  \<^bold>\<open>Bounds and fuel.\<close>  No definition of the code is cut off by fuel (the network clamp's wait loop is a partial function); only the specification that walks a chunk chain counts
  down the size of the arena, which no chain exceeds because it never visits a chunk twice.  The sleeps of a waiting thread are a list given by the environment; the
  theorems on termination show that a list as long as the data is enough, the theorems on safety hold for every list.  The concrete
  tables of the closed theorems hold eight descriptors, which is more than any of them opens.

  \<^bold>\<open>Where the code departs from its intent.\<close>  Named lemmas and theorems beside the properties state behaviours the authors do not
  intend, among them \<open>copy_errors_unseen\<close> (a failed copy is never reported), \<open>fionbio_loses_reference\<close>, \<open>truncated_bytes_reappear\<close>, \<open>fork_close_double_free\<close>, \<open>rename_into_itself\<close>, \<open>short_read_zero_fills\<close>, \<open>exec_reserves_again\<close>, \<open>tmp_mode_decimal\<close>,
  \<open>devnull_replaced\<close>, \<open>readonly_creates\<close>, \<open>parent_escapes_view\<close>, \<open>truncated_rule_panics\<close>, \<open>exec_drops_session\<close>,
  \<open>self_dup_drops_session\<close>, \<open>reconnect_leaks_session\<close>, \<open>untracked_fails\<close>, \<open>chroot_takes_program_options\<close>, \<open>octal_mains_take_options\<close>.

  \<^bold>\<open>Not modelled.\<close>  Printed text: the logs of the chroot and imfs grates, the lines of strace and all diagnostics.  Host
  I/O of the start-up: reading certificates (mtls) and the configuration file (resource).  The files of constants, apart
  from the values the code uses.  The C grates, the tests and the build scripts, except the handlers \<open>testing-grate/build.rs\<close> generates.
  Memory safety of raw pointers and weak memory: handlers run one after the other, except where sleeping threads
  are interleaved explicitly; so the counters by which fdtables-test shows races are counted sequentially.  Rounding of \<open>f64\<close>:
  the quantities of resource-grate are exact rationals, and its parser of numbers knows the decimal notations only.  Sizes
  and offsets inside the in-memory file system are natural numbers without bound.
\<close>

end
